(* ===== verification/Prelude.thy ===== *)
theory Prelude
  imports Main "HOL-Library.Word" "HOL-Library.List_Lexorder" "HOL-Library.Char_ord"
    "HOL-Library.Sublist"
begin

text \<open>
  Shared vocabulary of the development. Rust's fixed-width integers are words
  (\<open>u8\<close>, \<open>u32\<close>, \<open>u64\<close>), \<open>usize\<close> values are list lengths and indices (\<open>nat\<close>),
  \<open>String\<close> is the list of its UTF-8 bytes (HOL's \<open>string\<close>, one \<open>char\<close> per byte, so that
  \<open>length\<close> is \<open>str::len\<close> and the lexicographic order is \<open>str\<close>'s), and \<open>Result<T, E>\<close> is
  the sum \<open>'e + 'a\<close> with \<open>Inl\<close> for \<open>Err\<close>. The \<open>?\<close> operator is \<open>rbind\<close>, an early-exit
  loop is \<open>try_fold\<close>, the checked and saturating integer operations follow the standard
  library. The named collections gather the rules the component proofs simplify with.
\<close>

named_theorems result_simps \<open>inversion rules for fallible computations\<close>
named_theorems word_facts \<open>unat rules for the checked and saturating operations\<close>

type_synonym u8 = "8 word"
type_synonym u16 = "16 word"
type_synonym u32 = "32 word"
type_synonym u64 = "64 word"
type_synonym bytes = "u8 list"

subsection \<open>Results\<close>

definition rbind :: "'e + 'a \<Rightarrow> ('a \<Rightarrow> 'e + 'b) \<Rightarrow> 'e + 'b" where
  "rbind m f = (case m of Inl e \<Rightarrow> Inl e | Inr x \<Rightarrow> f x)"

lemma rbind_simps [simp]:
  "rbind (Inl e) f = Inl e"
  "rbind (Inr x) f = f x"
  by (simp_all add: rbind_def)

lemma rbind_eq_Inr [result_simps]:
  "rbind m f = Inr y \<longleftrightarrow> (\<exists>x. m = Inr x \<and> f x = Inr y)"
  by (cases m) simp_all

lemma rbind_eq_Inl [result_simps]:
  "rbind m f = Inl e \<longleftrightarrow> m = Inl e \<or> (\<exists>x. m = Inr x \<and> f x = Inl e)"
  by (cases m) simp_all

lemma rbind_cong [fundef_cong]:
  "m = m' \<Longrightarrow> (\<And>x. m' = Inr x \<Longrightarrow> f x = f' x) \<Longrightarrow> rbind m f = rbind m' f'"
  by (cases m') (simp_all add: rbind_def)

definition ok_or :: "'e \<Rightarrow> 'a option \<Rightarrow> 'e + 'a" where
  "ok_or e m = (case m of None \<Rightarrow> Inl e | Some x \<Rightarrow> Inr x)"

lemma ok_or_simps [simp]:
  "ok_or e None = Inl e"
  "ok_or e (Some x) = Inr x"
  by (simp_all add: ok_or_def)

lemma ok_or_eq_Inr [result_simps]: "ok_or e m = Inr x \<longleftrightarrow> m = Some x"
  by (cases m) simp_all

lemma ok_or_eq_Inl [result_simps]: "ok_or e m = Inl e' \<longleftrightarrow> m = None \<and> e' = e"
  by (cases m) auto

definition is_ok :: "'e + 'a \<Rightarrow> bool" where
  "is_ok m = (case m of Inl _ \<Rightarrow> False | Inr _ \<Rightarrow> True)"

lemma is_ok_simps [simp]: "is_ok (Inr x)" "\<not> is_ok (Inl e)"
  by (simp_all add: is_ok_def)

lemma is_ok_iff: "is_ok m \<longleftrightarrow> (\<exists>x. m = Inr x)"
  by (cases m) simp_all

lemma if_Inl_eq_Inr [result_simps]:
  "(if b then Inl e else m) = Inr x \<longleftrightarrow> \<not> b \<and> m = Inr x"
  by simp

primrec try_fold :: "('s \<Rightarrow> 'a \<Rightarrow> 'e + 's) \<Rightarrow> 's \<Rightarrow> 'a list \<Rightarrow> 'e + 's" where
  "try_fold f s [] = Inr s"
| "try_fold f s (x # xs) = rbind (f s x) (\<lambda>s'. try_fold f s' xs)"

lemma try_fold_append:
  "try_fold f s (xs @ ys) = rbind (try_fold f s xs) (\<lambda>s'. try_fold f s' ys)"
  by (induction xs arbitrary: s) (auto simp: rbind_def split: sum.splits)

lemma try_fold_cong [fundef_cong]:
  "s = s' \<Longrightarrow> xs = ys \<Longrightarrow> (\<And>s x. x \<in> set ys \<Longrightarrow> f s x = g s x) \<Longrightarrow>
   try_fold f s xs = try_fold g s' ys"
proof (induction xs arbitrary: s s' ys)
  case (Cons x xs)
  then show ?case
    by (auto simp: rbind_def split: sum.splits)
qed simp

text \<open>Checking a list element by element with the unit result: \<open>for x in xs { check(x)?; }\<close>.\<close>

primrec try_all :: "('a \<Rightarrow> 'e + unit) \<Rightarrow> 'a list \<Rightarrow> 'e + unit" where
  "try_all f [] = Inr ()"
| "try_all f (x # xs) = rbind (f x) (\<lambda>_. try_all f xs)"

lemma try_all_ok: "try_all f xs = Inr u \<longleftrightarrow> (\<forall>x \<in> set xs. f x = Inr ())"
  by (induction xs) (auto simp: rbind_eq_Inr)

primrec try_map :: "('a \<Rightarrow> 'e + 'b) \<Rightarrow> 'a list \<Rightarrow> 'e + 'b list" where
  "try_map f [] = Inr []"
| "try_map f (x # xs) = rbind (f x) (\<lambda>y. rbind (try_map f xs) (\<lambda>ys. Inr (y # ys)))"

lemma try_map_ok: "try_map f xs = Inr ys \<longleftrightarrow> list_all2 (\<lambda>x y. f x = Inr y) xs ys"
proof (induction xs arbitrary: ys)
  case (Cons x xs)
  show ?case
    by (cases ys) (auto simp: rbind_eq_Inr Cons)
qed (auto)

lemma try_map_length: "try_map f xs = Inr ys \<Longrightarrow> length ys = length xs"
  by (auto simp: try_map_ok dest: list_all2_lengthD)

lemma try_map_nth:
  "try_map f xs = Inr ys \<Longrightarrow> i < length xs \<Longrightarrow> f (xs ! i) = Inr (ys ! i)"
  by (auto simp: try_map_ok dest: list_all2_nthD)

subsection \<open>Checked and saturating arithmetic\<close>

definition checked_add :: "'a::len word \<Rightarrow> 'a word \<Rightarrow> 'a word option" where
  "checked_add a b = (if unat a + unat b < 2 ^ LENGTH('a) then Some (a + b) else None)"

definition checked_mul :: "'a::len word \<Rightarrow> 'a word \<Rightarrow> 'a word option" where
  "checked_mul a b = (if unat a * unat b < 2 ^ LENGTH('a) then Some (a * b) else None)"

definition checked_sub :: "'a::len word \<Rightarrow> 'a word \<Rightarrow> 'a word option" where
  "checked_sub a b = (if unat b \<le> unat a then Some (a - b) else None)"

definition saturating_sub :: "'a::len word \<Rightarrow> 'a word \<Rightarrow> 'a word" where
  "saturating_sub a b = (if unat b \<le> unat a then a - b else 0)"

definition saturating_add :: "'a::len word \<Rightarrow> 'a word \<Rightarrow> 'a word" where
  "saturating_add a b = (if unat a + unat b < 2 ^ LENGTH('a) then a + b else - 1)"

definition saturating_mul :: "'a::len word \<Rightarrow> 'a word \<Rightarrow> 'a word" where
  "saturating_mul a b = (if unat a * unat b < 2 ^ LENGTH('a) then a * b else - 1)"

text \<open>\<open>u64::try_from(usize)\<close> and its kin: \<open>None\<close> when the value does not fit.\<close>

definition try_from_nat :: "nat \<Rightarrow> 'a::len word option" where
  "try_from_nat n = (if n < 2 ^ LENGTH('a) then Some (of_nat n) else None)"

text \<open>\<open>usize::checked_add\<close> on the 64-bit targets the program is built for.\<close>

definition usize_checked_add :: "nat \<Rightarrow> nat \<Rightarrow> nat option" where
  "usize_checked_add a b = (if a + b < 2 ^ 64 then Some (a + b) else None)"

lemma usize_checked_add_Some [word_facts]:
  "usize_checked_add a b = Some c \<longleftrightarrow> c = a + b \<and> a + b < 2 ^ 64"
  by (auto simp: usize_checked_add_def)

text \<open>\<open>u64::from(u32)\<close>.\<close>

definition u64_of_u32 :: "u32 \<Rightarrow> u64" where
  "u64_of_u32 w = ucast w"

lemma checked_add_unat [word_facts]:
  "checked_add a b = Some c \<longleftrightarrow> unat c = unat a + unat b"
proof
  assume "checked_add a b = Some c"
  then show "unat c = unat a + unat b"
    by (auto simp: checked_add_def unat_word_ariths split: if_splits)
next
  assume h: "unat c = unat a + unat b"
  have "unat c < 2 ^ LENGTH('a)" by (rule unsigned_less)
  with h have "unat a + unat b < 2 ^ LENGTH('a)" by simp
  moreover from this h have "c = a + b"
    by (metis unat_add_lem word_unat_eq_iff)
  ultimately show "checked_add a b = Some c" by (simp add: checked_add_def)
qed

lemma checked_mul_unat [word_facts]:
  "checked_mul a b = Some c \<longleftrightarrow> unat c = unat a * unat b"
proof
  assume "checked_mul a b = Some c"
  then show "unat c = unat a * unat b"
    by (auto simp: checked_mul_def unat_word_ariths split: if_splits)
next
  assume h: "unat c = unat a * unat b"
  have "unat c < 2 ^ LENGTH('a)" by (rule unsigned_less)
  with h have "unat a * unat b < 2 ^ LENGTH('a)" by simp
  moreover from this h have "c = a * b"
    by (metis unat_mult_lem word_unat_eq_iff)
  ultimately show "checked_mul a b = Some c" by (simp add: checked_mul_def)
qed

lemma checked_add_None: "checked_add a b = None \<longleftrightarrow> 2 ^ LENGTH('a) \<le> unat a + unat (b :: 'a::len word)"
  by (auto simp: checked_add_def)

lemma checked_mul_None: "checked_mul a b = None \<longleftrightarrow> 2 ^ LENGTH('a) \<le> unat a * unat (b :: 'a::len word)"
  by (auto simp: checked_mul_def)

lemma checked_sub_unat [word_facts]:
  "checked_sub a b = Some c \<Longrightarrow> unat c + unat b = unat a"
  by (auto simp: checked_sub_def unat_sub word_le_nat_alt split: if_splits)

lemma saturating_sub_unat [word_facts]: "unat (saturating_sub a b) = unat a - unat b"
  by (auto simp: saturating_sub_def unat_sub word_le_nat_alt)

lemma saturating_add_unat [word_facts]:
  "unat (saturating_add a b) = min (2 ^ LENGTH('a) - 1) (unat a + unat (b :: 'a::len word))"
  by (auto simp: saturating_add_def unat_word_ariths unsigned_minus_1_eq_mask mask_eq_exp_minus_1)

lemma saturating_mul_unat [word_facts]:
  "unat (saturating_mul a b) = min (2 ^ LENGTH('a) - 1) (unat a * unat (b :: 'a::len word))"
  by (auto simp: saturating_mul_def unat_word_ariths unsigned_minus_1_eq_mask mask_eq_exp_minus_1)

lemma try_from_nat_unat [word_facts]:
  "(try_from_nat n :: 'a::len word option) = Some w \<longleftrightarrow> unat w = n"
proof
  assume "(try_from_nat n :: 'a word option) = Some w"
  then show "unat w = n"
    by (auto simp: try_from_nat_def unat_of_nat split: if_splits)
next
  assume "unat w = n"
  then show "(try_from_nat n :: 'a word option) = Some w"
    by (auto simp: try_from_nat_def)
qed

lemma unat_u64_of_u32 [simp]: "unat (u64_of_u32 w) = unat w"
proof -
  have "unat w < 2 ^ 32" using unsigned_less [of w] by simp
  then show ?thesis by (simp add: u64_of_u32_def unsigned_ucast_eq take_bit_nat_eq_self)
qed

lemma unat_bound: "unat (w :: 'a::len word) < 2 ^ LENGTH('a)"
  by (rule unsigned_less)

lemma unat_of_small: "n < 2 ^ LENGTH('a) \<Longrightarrow> unat (word_of_nat n :: 'a::len word) = n"
  by (simp add: unat_of_nat take_bit_nat_eq_self)

lemma word_of_bounded: "n < 2 ^ LENGTH('a) \<Longrightarrow> \<exists>v :: 'a::len word. unat v = n"
  using unat_of_small by blast

lemma exists_word_unat: "n \<le> unat (w :: 'a::len word) \<Longrightarrow> \<exists>v :: 'a word. unat v = n"
  using unat_bound [of w] unat_of_small [of n] by (metis le_less_trans)

subsection \<open>Slices of lists\<close>

text \<open>\<open>xs.get(a..b)\<close>: \<open>None\<close> when the range is reversed or runs past the end.\<close>

definition get_range :: "'a list \<Rightarrow> nat \<Rightarrow> nat \<Rightarrow> 'a list option" where
  "get_range xs a b = (if a \<le> b \<and> b \<le> length xs then Some (take (b - a) (drop a xs)) else None)"

lemma get_range_Some:
  "get_range xs a b = Some ys \<longleftrightarrow> a \<le> b \<and> b \<le> length xs \<and> ys = take (b - a) (drop a xs)"
  by (auto simp: get_range_def)

lemma get_range_length: "get_range xs a b = Some ys \<Longrightarrow> length ys = b - a"
  by (auto simp: get_range_Some)

lemma take_drop_append:
  "a \<le> b \<Longrightarrow> b \<le> c \<Longrightarrow>
   take (b - a) (drop a xs) @ take (c - b) (drop b xs) = take (c - a) (drop a xs)"
proof -
  assume "a \<le> b" and "b \<le> c"
  then have "c - a = (b - a) + (c - b)" and "b = (b - a) + a" by simp_all
  then show ?thesis by (metis drop_drop take_add)
qed

text \<open>\<open>xs.chunks(n)\<close>; Rust panics on \<open>n = 0\<close>, which every caller excludes first.\<close>

function chunks :: "nat \<Rightarrow> 'a list \<Rightarrow> 'a list list" where
  "chunks n xs = (if xs = [] \<or> n = 0 then [] else take n xs # chunks n (drop n xs))"
  by pat_completeness auto
termination
  by (relation "measure (\<lambda>(n, xs). length xs)") auto

declare chunks.simps [simp del]

lemma chunks_Nil [simp]: "chunks n [] = []"
  by (simp add: chunks.simps)

lemma concat_chunks: "0 < n \<Longrightarrow> concat (chunks n xs) = xs"
proof (induction n xs rule: chunks.induct)
  case (1 n xs)
  then show ?case by (simp add: chunks.simps [of n xs])
qed

lemma chunks_bounds: "ys \<in> set (chunks n xs) \<Longrightarrow> ys \<noteq> [] \<and> length ys \<le> n"
proof (induction n xs rule: chunks.induct)
  case (1 n xs)
  then show ?case by (auto simp: chunks.simps [of n xs] split: if_splits)
qed

subsection \<open>Consecutive slices\<close>

primrec slices :: "nat list \<Rightarrow> 'a list \<Rightarrow> 'a list list" where
  "slices [] xs = []"
| "slices (n # ns) xs = take n xs # slices ns (drop n xs)"

lemma length_slices [simp]: "length (slices ns xs) = length ns"
  by (induction ns arbitrary: xs) simp_all

lemma concat_slices: "sum_list ns = length xs \<Longrightarrow> concat (slices ns xs) = xs"
proof (induction ns arbitrary: xs)
  case (Cons n ns)
  then have "sum_list ns = length (drop n xs)" by simp
  from Cons.IH [OF this] show ?case by simp
qed simp

text \<open>
  A loop that takes the next \<open>n ob\<close> rows for each object and checks them: it ends at the sum
  of the counts and has checked the consecutive slices.
\<close>

lemma slice_fold_ok:
  assumes step: "\<And>off ob r. step off ob = Inr r \<longleftrightarrow>
    r = off + n ob \<and> off + n ob \<le> length rows \<and> ok ob (take (n ob) (drop off rows))"
  shows "off \<le> length rows \<Longrightarrow> try_fold step off obs = Inr r \<longleftrightarrow>
    r = off + sum_list (map n obs) \<and> r \<le> length rows \<and>
    list_all2 ok obs (slices (map n obs) (drop off rows))"
proof (induction obs arbitrary: off)
  case (Cons ob obs)
  show ?case
    using Cons.IH [of "off + n ob"]
    by (auto simp: rbind_eq_Inr step add.commute [of off] add.assoc)
qed auto

primrec starts_from :: "nat \<Rightarrow> nat list \<Rightarrow> nat list" where
  "starts_from a [] = []"
| "starts_from a (n # ns) = a # starts_from (a + n) ns"

lemma length_starts_from [simp]: "length (starts_from a ns) = length ns"
  by (induction ns arbitrary: a) simp_all

lemma starts_from_append:
  "starts_from a (ms @ ns) = starts_from a ms @ starts_from (a + sum_list ms) ns"
  by (induction ms arbitrary: a) (simp_all add: add.assoc)

lemma slices_append:
  "slices (ms @ ns) xs = slices ms xs @ slices ns (drop (sum_list ms) xs)"
  by (induction ms arbitrary: xs) (simp_all add: add.commute)

subsection \<open>Checked running totals\<close>

text \<open>A loop that checks each element and adds its count with \<open>checked_add\<close>.\<close>

lemma try_fold_sum:
  fixes step :: "'a::len word \<Rightarrow> 't \<Rightarrow> 'e + 'a word"
  assumes step: "\<And>a s b. step a s = Inr b \<longleftrightarrow> P s \<and> unat b = unat a + f s"
  shows "try_fold step a ss = Inr b \<longleftrightarrow> list_all P ss \<and> unat b = unat a + sum_list (map f ss)"
proof (induction ss arbitrary: a)
  case Nil
  show ?case by (auto simp: word_unat_eq_iff)
next
  case (Cons s ss)
  let ?k = "sum_list (map f ss)"
  have ex: "(\<exists>c :: 'a word. unat c = unat a + f s \<and> list_all P ss \<and> unat b = unat c + ?k) \<longleftrightarrow>
      list_all P ss \<and> unat b = unat a + f s + ?k"
  proof
    assume r: "list_all P ss \<and> unat b = unat a + f s + ?k"
    then obtain c :: "'a word" where "unat c = unat a + f s"
      using exists_word_unat [of "unat a + f s" b] by auto
    with r show "\<exists>c :: 'a word. unat c = unat a + f s \<and> list_all P ss \<and> unat b = unat c + ?k"
      by (intro exI [of _ c]) simp
  qed auto
  have "try_fold step a (s # ss) = Inr b \<longleftrightarrow> P s \<and>
      (\<exists>c :: 'a word. unat c = unat a + f s \<and> list_all P ss \<and> unat b = unat c + ?k)"
    unfolding try_fold.simps rbind_eq_Inr step Cons.IH by blast
  also have "\<dots> \<longleftrightarrow> list_all P (s # ss) \<and> unat b = unat a + sum_list (map f (s # ss))"
    unfolding ex by (simp add: add.assoc)
  finally show ?case .
qed

end
