(* ===== verification/Rust_Str.thy ===== *)
theory Rust_Str
  imports Prelude
begin

text \<open>
  The \<open>str\<close> operations the program uses, on byte strings: \<open>find\<close>, \<open>matches(pat).count()\<close>
  and \<open>replace\<close> for a non-empty pattern (each finds the next match after the end of the
  last one), \<open>contains\<close> of an ASCII character, \<open>split\<close> on one, \<open>starts_with\<close> and
  \<open>ends_with\<close>. All patterns of the program are ASCII, so matching bytes is matching
  characters.
\<close>

fun str_split_once :: "string \<Rightarrow> string \<Rightarrow> (string \<times> string) option" where
  "str_split_once pat [] = (if pat = [] then Some ([], []) else None)"
| "str_split_once pat (c # cs) =
     (if prefix pat (c # cs) then Some ([], drop (length pat) (c # cs))
      else map_option (\<lambda>(a, b). (c # a, b)) (str_split_once pat cs))"

lemma str_split_once_Some: "str_split_once pat s = Some (a, b) \<Longrightarrow> s = a @ pat @ b"
proof (induction pat s arbitrary: a b rule: str_split_once.induct)
  case (2 pat c cs)
  show ?case
  proof (cases "prefix pat (c # cs)")
    case True
    with "2.prems" show ?thesis by (auto simp: prefix_def)
  next
    case False
    with "2.prems" obtain a' where "str_split_once pat cs = Some (a', b)" and "a = c # a'"
      by auto
    with "2.IH" [OF False, of a' b] show ?thesis by simp
  qed
qed (auto split: if_splits)

definition str_find :: "string \<Rightarrow> string \<Rightarrow> nat option" where
  "str_find pat s = map_option (\<lambda>(a, b). length a) (str_split_once pat s)"

function str_matches :: "string \<Rightarrow> string \<Rightarrow> nat" where
  "str_matches pat s =
     (if pat = [] then 0
      else case str_split_once pat s of
        None \<Rightarrow> 0
      | Some (a, b) \<Rightarrow> Suc (str_matches pat b))"
  by pat_completeness auto
termination
  by (relation "measure (\<lambda>(pat, s). length s)") (auto dest: str_split_once_Some)

function str_replace :: "string \<Rightarrow> string \<Rightarrow> string \<Rightarrow> string" where
  "str_replace pat w s =
     (if pat = [] then s
      else case str_split_once pat s of
        None \<Rightarrow> s
      | Some (a, b) \<Rightarrow> a @ w @ str_replace pat w b)"
  by pat_completeness auto
termination
  by (relation "measure (\<lambda>(pat, w, s). length s)") (auto dest: str_split_once_Some)

declare str_matches.simps [simp del] str_replace.simps [simp del]

lemma str_replace_no_match: "str_split_once pat s = None \<Longrightarrow> str_replace pat w s = s"
  by (simp add: str_replace.simps [of pat w s])

lemma str_matches_0: "pat \<noteq> [] \<Longrightarrow> str_matches pat s = 0 \<longleftrightarrow> str_split_once pat s = None"
  by (simp add: str_matches.simps [of pat s] split: option.splits prod.splits)

lemma str_split_once_absent:
  "hd pat \<notin> set s \<Longrightarrow> pat \<noteq> [] \<Longrightarrow> str_split_once pat s = None"
  by (induction pat s rule: str_split_once.induct) (auto simp: prefix_def Cons_eq_append_conv)

lemma str_split_once_first:
  "hd pat \<notin> set a \<Longrightarrow> pat \<noteq> [] \<Longrightarrow> str_split_once pat (a @ pat @ b) = Some (a, b)"
proof (induction a)
  case Nil
  then obtain c cs where "pat = c # cs" by (cases pat) auto
  then show ?case by simp
next
  case (Cons x a)
  then have "\<not> prefix pat (x # a @ pat @ b)"
    by (cases pat) auto
  with Cons show ?case by simp
qed

text \<open>A string with exactly one match is its prefix, the pattern and its suffix.\<close>

lemma str_matches_1:
  assumes "str_matches pat s = 1"
  obtains a b where "str_split_once pat s = Some (a, b)" and "s = a @ pat @ b"
    and "\<And>w. str_replace pat w s = a @ w @ b"
proof -
  from assms have ne: "pat \<noteq> []" by (auto simp: str_matches.simps [of pat s])
  from assms ne obtain a b where ab: "str_split_once pat s = Some (a, b)"
    and "str_matches pat b = 0"
    by (auto simp: str_matches.simps [of pat s] split: option.splits)
  with ne have "str_split_once pat b = None" by (simp add: str_matches_0)
  then have "\<And>w. str_replace pat w s = a @ w @ b"
    using ab ne by (simp add: str_replace.simps [of pat _ s] str_replace_no_match)
  with ab show ?thesis using that str_split_once_Some by blast
qed

fun str_split :: "char \<Rightarrow> string \<Rightarrow> string list" where
  "str_split d [] = [[]]"
| "str_split d (c # cs) =
     (if c = d then [] # str_split d cs
      else case str_split d cs of [] \<Rightarrow> [[c]] | p # ps \<Rightarrow> (c # p) # ps)"

lemma str_split_not_Nil [simp]: "str_split d s \<noteq> []"
  by (cases s) (auto split: list.splits)

lemma str_split_no_delim: "p \<in> set (str_split d s) \<Longrightarrow> d \<notin> set p"
proof (induction d s arbitrary: p rule: str_split.induct)
  case (2 d c cs)
  then show ?case by (auto split: if_splits list.splits)
qed simp

fun str_join :: "char \<Rightarrow> string list \<Rightarrow> string" where
  "str_join d [] = []"
| "str_join d [p] = p"
| "str_join d (p # q # ps) = p @ d # str_join d (q # ps)"

lemma str_join_split: "str_join d (str_split d s) = s"
proof (induction d s rule: str_split.induct)
  case (2 d c cs)
  show ?case
  proof (cases "c = d")
    case True
    with 2 show ?thesis by (cases "str_split d cs") auto
  next
    case False
    obtain p ps where ps: "str_split d cs = p # ps"
      using str_split_not_Nil by (meson neq_Nil_conv)
    with 2 False show ?thesis by (cases ps) auto
  qed
qed simp

definition str_contains :: "char \<Rightarrow> string \<Rightarrow> bool" where
  "str_contains c s \<longleftrightarrow> c \<in> set s"

definition starts_with :: "string \<Rightarrow> string \<Rightarrow> bool" where
  "starts_with p s \<longleftrightarrow> prefix p s"

definition ends_with :: "string \<Rightarrow> string \<Rightarrow> bool" where
  "ends_with p s \<longleftrightarrow> prefix (rev p) (rev s)"

definition is_ascii_digit :: "char \<Rightarrow> bool" where
  "is_ascii_digit c \<longleftrightarrow> CHR ''0'' \<le> c \<and> c \<le> CHR ''9''"

definition is_lower_hex :: "char \<Rightarrow> bool" where
  "is_lower_hex c \<longleftrightarrow> is_ascii_digit c \<or> (CHR ''a'' \<le> c \<and> c \<le> CHR ''f'')"

definition is_ascii_hexdigit :: "char \<Rightarrow> bool" where
  "is_ascii_hexdigit c \<longleftrightarrow> is_lower_hex c \<or> (CHR ''A'' \<le> c \<and> c \<le> CHR ''F'')"

text \<open>\<open>str::chars\<close>: a character is a byte and the continuation bytes after it.\<close>

definition is_continuation :: "char \<Rightarrow> bool" where
  "is_continuation c \<longleftrightarrow> of_char c div 64 = (2 :: nat)"

fun str_chars :: "string \<Rightarrow> string list" where
  "str_chars [] = []"
| "str_chars (c # s) =
     (case str_chars s of
        [] \<Rightarrow> [[c]]
      | ch # rest \<Rightarrow> if is_continuation (hd ch) then (c # ch) # rest else [c] # ch # rest)"

definition is_ascii_uppercase :: "char \<Rightarrow> bool" where
  "is_ascii_uppercase c \<longleftrightarrow> CHR ''A'' \<le> c \<and> c \<le> CHR ''Z''"

definition is_ascii_lowercase :: "char \<Rightarrow> bool" where
  "is_ascii_lowercase c \<longleftrightarrow> CHR ''a'' \<le> c \<and> c \<le> CHR ''z''"

definition is_ascii_alphanumeric :: "char \<Rightarrow> bool" where
  "is_ascii_alphanumeric c \<longleftrightarrow> is_ascii_uppercase c \<or> is_ascii_lowercase c \<or> is_ascii_digit c"

text \<open>\<open>char::is_control\<close>: the general category Cc.\<close>

definition is_control :: "string \<Rightarrow> bool" where
  "is_control ch \<longleftrightarrow>
     (case map of_char ch of
        [a] \<Rightarrow> a < 32 \<or> a = (127 :: nat)
      | [a, b] \<Rightarrow> a = 0xC2 \<and> 0x80 \<le> b \<and> b \<le> 0x9F
      | _ \<Rightarrow> False)"

text \<open>\<open>u64::to_string\<close>.\<close>

fun nat_digits :: "nat \<Rightarrow> string" where
  "nat_digits n =
     (if n < 10 then [char_of (48 + n)] else nat_digits (n div 10) @ [char_of (48 + n mod 10)])"

declare nat_digits.simps [simp del]

text \<open>The value of a string of decimal digits, which \<open>str::parse\<close> reads.\<close>

definition digits_value :: "string \<Rightarrow> nat" where
  "digits_value s = foldl (\<lambda>acc c. 10 * acc + (of_char c - 48)) 0 s"

lemma digits_value_snoc: "digits_value (s @ [c]) = 10 * digits_value s + (of_char c - 48)"
  by (simp add: digits_value_def)

lemma digit_char:
  fixes n :: nat
  shows "n < 10 \<Longrightarrow> is_ascii_digit (char_of (48 + n)) \<and> of_char (char_of (48 + n) :: char) = 48 + n"
  by (simp add: is_ascii_digit_def less_eq_char_def)

lemma nat_digits_value: "digits_value (nat_digits n) = n"
proof (induction n rule: nat_digits.induct)
  case (1 n)
  show ?case
  proof (cases "n < 10")
    case True
    then show ?thesis
      using digit_char [of n] by (simp add: nat_digits.simps [of n] digits_value_def)
  next
    case False
    then show ?thesis
      using 1 digit_char [of "n mod 10"] by (simp add: nat_digits.simps [of n] digits_value_snoc)
  qed
qed

lemma nat_digits_digits: "list_all is_ascii_digit (nat_digits n) \<and> nat_digits n \<noteq> []"
proof (induction n rule: nat_digits.induct)
  case (1 n)
  then show ?case
    using digit_char [of n] digit_char [of "n mod 10"] by (simp add: nat_digits.simps [of n])
qed

text \<open>\<open>String::from_utf8\<close>: well-formed UTF-8 (no overlong forms, surrogates or values past 10FFFF).\<close>

definition utf8_cont :: "u8 \<Rightarrow> bool" where
  "utf8_cont b \<longleftrightarrow> 0x80 \<le> b \<and> b \<le> 0xBF"

fun utf8_valid :: "bytes \<Rightarrow> bool" where
  "utf8_valid [] = True"
| "utf8_valid (a # bs) =
     (if a \<le> 0x7F then utf8_valid bs
      else case bs of
        [] \<Rightarrow> False
      | b # cs \<Rightarrow>
          if 0xC2 \<le> a \<and> a \<le> 0xDF then utf8_cont b \<and> utf8_valid cs
          else case cs of
            [] \<Rightarrow> False
          | c # ds \<Rightarrow>
              if 0xE0 \<le> a \<and> a \<le> 0xEF
              then (if a = 0xE0 then 0xA0 \<le> b \<and> b \<le> 0xBF
                    else if a = 0xED then 0x80 \<le> b \<and> b \<le> 0x9F else utf8_cont b)
                   \<and> utf8_cont c \<and> utf8_valid ds
              else case ds of
                [] \<Rightarrow> False
              | d # es \<Rightarrow>
                  0xF0 \<le> a \<and> a \<le> 0xF4 \<and>
                  (if a = 0xF0 then 0x90 \<le> b \<and> b \<le> 0xBF
                   else if a = 0xF4 then 0x80 \<le> b \<and> b \<le> 0x8F else utf8_cont b)
                  \<and> utf8_cont c \<and> utf8_cont d \<and> utf8_valid es)"

end
