(* ===== verification/Contracts.thy ===== *)
theory Contracts
  imports Rust_Str
begin

text \<open>
  The crate \<open>rag-contracts\<close> (\<open>crates/rag-contracts/src/lib.rs\<close>): the canonical SHA-256
  value \<open>sha256\<close>, the closed document-input format \<open>format_document_input\<close>, and the wire
  types of a search request. The lemmas characterise exactly which formats are accepted and
  what the result is.
\<close>

datatype contract_error = InvalidSha256 | InvalidDocumentFormat

definition DOCUMENT_INPUT_TOKEN :: string where
  "DOCUMENT_INPUT_TOKEN = ''{semantic_text}''"

definition MAX_DOCUMENT_FORMAT_BYTES :: nat where
  "MAX_DOCUMENT_FORMAT_BYTES = 4096"

definition MAX_FORMATTED_DOCUMENT_BYTES :: nat where
  "MAX_FORMATTED_DOCUMENT_BYTES = 1048576"

text \<open>
  \<open>usize::checked_sub\<close> fails exactly when the format is shorter than the token; the
  following \<open>checked_add\<close> of two lengths below \<open>2^63\<close> cannot overflow.
\<close>

definition format_document_input :: "string \<Rightarrow> string \<Rightarrow> contract_error + string" where
  "format_document_input document_format semantic_text =
     (if semantic_text = [] \<or> document_format = []
         \<or> length document_format > MAX_DOCUMENT_FORMAT_BYTES
         \<or> str_matches DOCUMENT_INPUT_TOKEN document_format \<noteq> 1
      then Inl InvalidDocumentFormat
      else let remaining = str_replace DOCUMENT_INPUT_TOKEN [] document_format in
        if str_contains (CHR ''{'') remaining \<or> str_contains (CHR ''}'') remaining
        then Inl InvalidDocumentFormat
        else if length document_format < length DOCUMENT_INPUT_TOKEN
        then Inl InvalidDocumentFormat
        else if length document_format - length DOCUMENT_INPUT_TOKEN + length semantic_text
                > MAX_FORMATTED_DOCUMENT_BYTES
        then Inl InvalidDocumentFormat
        else Inr (str_replace DOCUMENT_INPUT_TOKEN semantic_text document_format))"

text \<open>A closed format: text without braces around exactly one placeholder.\<close>

definition closed_format :: "string \<Rightarrow> string \<Rightarrow> string \<Rightarrow> bool" where
  "closed_format fmt pre post \<longleftrightarrow>
     fmt = pre @ DOCUMENT_INPUT_TOKEN @ post \<and>
     set (pre @ post) \<inter> {CHR ''{'', CHR ''}''} = {}"

lemma token_shape: "DOCUMENT_INPUT_TOKEN \<noteq> []" "hd DOCUMENT_INPUT_TOKEN = CHR ''{''"
  by (simp_all add: DOCUMENT_INPUT_TOKEN_def)

lemma closed_format_single:
  assumes "closed_format fmt pre post"
  shows "str_matches DOCUMENT_INPUT_TOKEN fmt = 1"
    and "str_replace DOCUMENT_INPUT_TOKEN w fmt = pre @ w @ post"
proof -
  from assms have fmt: "fmt = pre @ DOCUMENT_INPUT_TOKEN @ post"
    and pre: "hd DOCUMENT_INPUT_TOKEN \<notin> set pre" and post: "hd DOCUMENT_INPUT_TOKEN \<notin> set post"
    by (auto simp: closed_format_def token_shape)
  have s: "str_split_once DOCUMENT_INPUT_TOKEN fmt = Some (pre, post)"
    unfolding fmt by (rule str_split_once_first [OF pre token_shape(1)])
  have n: "str_split_once DOCUMENT_INPUT_TOKEN post = None"
    by (rule str_split_once_absent [OF post token_shape(1)])
  show "str_matches DOCUMENT_INPUT_TOKEN fmt = 1"
    using s n token_shape(1) by (simp add: str_matches.simps [of _ fmt] str_matches_0)
  show "str_replace DOCUMENT_INPUT_TOKEN w fmt = pre @ w @ post"
    using s n token_shape(1) by (simp add: str_replace.simps [of _ _ fmt] str_replace_no_match)
qed

lemma closed_format_unique:
  "closed_format fmt pre post \<Longrightarrow> closed_format fmt pre' post' \<Longrightarrow> pre = pre' \<and> post = post'"
proof -
  assume a: "closed_format fmt pre post" and b: "closed_format fmt pre' post'"
  have "str_split_once DOCUMENT_INPUT_TOKEN fmt = Some (pre, post)"
    using a str_split_once_first [OF _ token_shape(1)] by (auto simp: closed_format_def token_shape)
  moreover have "str_split_once DOCUMENT_INPUT_TOKEN fmt = Some (pre', post')"
    using b str_split_once_first [OF _ token_shape(1)] by (auto simp: closed_format_def token_shape)
  ultimately show ?thesis by simp
qed

text \<open>
  A document format is accepted exactly when it is closed (no braces outside one
  placeholder), within its byte limit, the text is not empty and the result is within its
  byte limit; the result is then the text between the format's two literal parts.
\<close>

theorem format_document_input_ok:
  "format_document_input fmt text = Inr out \<longleftrightarrow>
     (\<exists>pre post. closed_format fmt pre post \<and> text \<noteq> []
        \<and> length fmt \<le> MAX_DOCUMENT_FORMAT_BYTES
        \<and> length (pre @ text @ post) \<le> MAX_FORMATTED_DOCUMENT_BYTES
        \<and> out = pre @ text @ post)" (is "?ok \<longleftrightarrow> ?spec")
proof
  assume ?ok
  then have one: "str_matches DOCUMENT_INPUT_TOKEN fmt = 1" and ne: "text \<noteq> []"
    and fl: "length fmt \<le> MAX_DOCUMENT_FORMAT_BYTES"
    by (auto simp: format_document_input_def Let_def split: if_splits)
  obtain a b where fmt: "fmt = a @ DOCUMENT_INPUT_TOKEN @ b"
    and rep: "\<And>w. str_replace DOCUMENT_INPUT_TOKEN w fmt = a @ w @ b"
    using str_matches_1 [OF one] by metis
  have len: "length fmt - length DOCUMENT_INPUT_TOKEN = length a + length b"
    by (simp add: fmt)
  from \<open>?ok\<close> have "set (a @ b) \<inter> {CHR ''{'', CHR ''}''} = {}" and "out = a @ text @ b"
    and "length (a @ text @ b) \<le> MAX_FORMATTED_DOCUMENT_BYTES"
    by (auto simp: format_document_input_def Let_def rep str_contains_def len split: if_splits)
  with fmt have "closed_format fmt a b" "out = a @ text @ b"
    "length (a @ text @ b) \<le> MAX_FORMATTED_DOCUMENT_BYTES"
    by (auto simp: closed_format_def)
  with ne fl show ?spec by blast
next
  assume ?spec
  then obtain pre post where c: "closed_format fmt pre post" and "text \<noteq> []"
    and "length fmt \<le> MAX_DOCUMENT_FORMAT_BYTES"
    and "length (pre @ text @ post) \<le> MAX_FORMATTED_DOCUMENT_BYTES" and "out = pre @ text @ post"
    by blast
  then show ?ok
    using closed_format_single [OF c] by (auto simp: format_document_input_def Let_def
        str_contains_def closed_format_def DOCUMENT_INPUT_TOKEN_def)
qed

datatype sha256 = Sha256 (sha256_str: string)

definition sha256_new :: "string \<Rightarrow> contract_error + sha256" where
  "sha256_new value =
     (if length value \<noteq> 64 \<or> \<not> list_all is_lower_hex value then Inl InvalidSha256
      else Inr (Sha256 value))"

end
