(* ===== verification/Component.thy ===== *)
theory Component
  imports Rust_Str
begin

text \<open>
  Content-bound components of \<open>crates/rag-pipeline/src/lib.rs\<close>: digests, safe relative
  paths, component references, the JSON value a struct serialises to, and the sealing
  convention (a component's digest is that of its canonical JSON without its own
  \<open>component_sha256\<close> field). SHA-256, the RFC 8785 canonicaliser and the JSON parser are
  libraries outside the repository: they are the functions of the record \<open>externals\<close>, an
  argument of every definition that uses them.
\<close>

subsection \<open>Errors and external functions\<close>

datatype pipeline_error =
    Invalid string
  | PipelineIo
  | PipelineJson
  | Tokenizer string
  | Arrow
  | Parquet

datatype json =
    JNull
  | JBool bool
  | JNum nat
  | JStr string
  | JArr "json list"
  | JObj "(string \<times> json) list"

record externals =
  sha256_hex :: "bytes \<Rightarrow> string"
  jcs_bytes :: "json \<Rightarrow> bytes option"
  json_from_str :: "string \<Rightarrow> json option"

text \<open>What SHA-256 in lowercase hexadecimal promises: 64 lowercase hexadecimal characters.\<close>

definition sha256_format :: "externals \<Rightarrow> bool" where
  "sha256_format X \<longleftrightarrow> (\<forall>b. length (sha256_hex X b) = 64 \<and> list_all is_lower_hex (sha256_hex X b))"

definition str_bytes :: "string \<Rightarrow> bytes" where
  "str_bytes s = map (\<lambda>c. word_of_nat (of_char c)) s"

lemma str_bytes_append [simp]: "str_bytes (s @ t) = str_bytes s @ str_bytes t"
  by (simp add: str_bytes_def)

lemma length_str_bytes [simp]: "length (str_bytes s) = length s"
  by (simp add: str_bytes_def)

lemma byte_of_char_inj: "(word_of_nat (of_char c) :: u8) = word_of_nat (of_char d) \<longleftrightarrow> c = d"
proof
  assume h: "(word_of_nat (of_char c) :: u8) = word_of_nat (of_char d)"
  have "unat (word_of_nat (of_char c) :: u8) = of_char c" for c
    by (simp add: unat_of_nat take_bit_eq_mod)
  with h have "(of_char c :: nat) = of_char d" by metis
  then show "c = d" by simp
qed simp

lemma str_bytes_inj [simp]: "str_bytes s = str_bytes t \<longleftrightarrow> s = t"
  unfolding str_bytes_def by (metis (no_types, lifting) inj_map_eq_map injI byte_of_char_inj)

subsection \<open>Digests\<close>

datatype digest = Digest (digest_str: string)

instantiation digest :: linorder
begin

definition less_eq_digest :: "digest \<Rightarrow> digest \<Rightarrow> bool" where
  "less_eq_digest a b \<longleftrightarrow> digest_str a \<le> digest_str b"

definition less_digest :: "digest \<Rightarrow> digest \<Rightarrow> bool" where
  "less_digest a b \<longleftrightarrow> digest_str a < digest_str b"

instance
proof
  fix x y z :: digest
  show "x < y \<longleftrightarrow> x \<le> y \<and> \<not> y \<le> x"
    by (auto simp: less_eq_digest_def less_digest_def)
  show "x \<le> x" by (simp add: less_eq_digest_def)
  show "x \<le> y \<Longrightarrow> y \<le> z \<Longrightarrow> x \<le> z" by (simp add: less_eq_digest_def)
  show "x \<le> y \<Longrightarrow> y \<le> x \<Longrightarrow> x = y"
    by (simp add: less_eq_digest_def digest.expand)
  show "x \<le> y \<or> y \<le> x" by (auto simp: less_eq_digest_def)
qed

end

definition digest_new :: "string \<Rightarrow> pipeline_error + digest" where
  "digest_new value =
     (if length value \<noteq> 64 \<or> \<not> list_all is_lower_hex value
      then Inl (Invalid ''SHA-256 digest'') else Inr (Digest value))"

definition digest_bytes :: "externals \<Rightarrow> bytes \<Rightarrow> digest" where
  "digest_bytes X b = Digest (sha256_hex X b)"

lemma digest_bytes_canonical:
  "sha256_format X \<Longrightarrow> digest_new (digest_str (digest_bytes X b)) = Inr (digest_bytes X b)"
  by (simp add: digest_new_def digest_bytes_def sha256_format_def)

definition canonical_json_bytes :: "externals \<Rightarrow> json \<Rightarrow> pipeline_error + bytes" where
  "canonical_json_bytes X v = ok_or PipelineJson (jcs_bytes X v)"

definition canonical_digest :: "externals \<Rightarrow> json \<Rightarrow> pipeline_error + digest" where
  "canonical_digest X v = rbind (canonical_json_bytes X v) (\<lambda>b. Inr (digest_bytes X b))"

text \<open>\<open>Map::remove\<close> of the self digest: \<open>None\<close> when the key is absent.\<close>

definition without_self_digest :: "json \<Rightarrow> pipeline_error + json" where
  "without_self_digest v =
     (case v of
        JObj fs \<Rightarrow>
          (if ''component_sha256'' \<in> fst ` set fs
           then Inr (JObj (filter (\<lambda>(k, _). k \<noteq> ''component_sha256'') fs))
           else Inl (Invalid ''component digest field''))
      | _ \<Rightarrow> Inl (Invalid ''component object''))"

definition component_digest :: "externals \<Rightarrow> json \<Rightarrow> pipeline_error + digest" where
  "component_digest X v = rbind (without_self_digest v) (canonical_digest X)"

subsection \<open>The sealing convention\<close>

text \<open>
  Every manifest of the pipeline is sealed the same way. A component type supplies its
  stored digest, the update of that field, its JSON value and its validation; the laws say
  that the JSON without the self digest does not depend on the stored digest, and that
  validation is a check that does not read the digest followed by the digest comparison.
\<close>

locale sealed_component =
  fixes self_digest :: "'c \<Rightarrow> digest"
    and set_digest :: "digest \<Rightarrow> 'c \<Rightarrow> 'c"
    and to_json :: "'c \<Rightarrow> json"
    and body_ok :: "externals \<Rightarrow> 'c \<Rightarrow> bool"
    and validate :: "externals \<Rightarrow> 'c \<Rightarrow> pipeline_error + unit"
    and seal :: "externals \<Rightarrow> 'c \<Rightarrow> pipeline_error + 'c"
  assumes set_get: "self_digest (set_digest d c) = d"
    and get_set: "set_digest (self_digest c) c = c"
    and json_ignores_digest:
      "without_self_digest (to_json (set_digest d c)) = without_self_digest (to_json c)"
    and body_ignores_digest: "body_ok X (set_digest d c) = body_ok X c"
    and validate_iff: "validate X c = Inr u \<longleftrightarrow>
      body_ok X c \<and> component_digest X (to_json c) = Inr (self_digest c)"
    and seal_eq: "seal X c =
      rbind (component_digest X (to_json c))
        (\<lambda>d. rbind (validate X (set_digest d c)) (\<lambda>_. Inr (set_digest d c)))"
begin

lemma digest_of_resealed:
  "component_digest X (to_json (set_digest d c)) = component_digest X (to_json c)"
  by (simp add: component_digest_def json_ignores_digest)

lemma seal_iff:
  "seal X c = Inr c' \<longleftrightarrow>
     (\<exists>d. component_digest X (to_json c) = Inr d \<and> body_ok X c \<and> c' = set_digest d c)"
  by (auto simp: seal_eq result_simps validate_iff digest_of_resealed set_get body_ignores_digest)

lemma seal_validates: "seal X c = Inr c' \<Longrightarrow> validate X c' = Inr ()"
  by (auto simp: seal_iff validate_iff digest_of_resealed set_get body_ignores_digest)

lemma validated_is_sealed: "validate X c = Inr () \<Longrightarrow> seal X c = Inr c"
  by (auto simp: seal_iff validate_iff get_set)

lemma seal_idempotent: "seal X c = Inr c' \<Longrightarrow> seal X c' = Inr c'"
  by (rule validated_is_sealed) (rule seal_validates)

text \<open>
  Two validated components with the same stored digest have the same canonical body, or
  their canonical bytes are a SHA-256 collision.
\<close>

lemma same_digest_same_body:
  assumes a: "validate X a = Inr ()" and b: "validate X b = Inr ()"
    and eq: "self_digest a = self_digest b"
  shows "\<exists>ba bb xa xb. without_self_digest (to_json a) = Inr ba \<and> jcs_bytes X ba = Some xa \<and>
    without_self_digest (to_json b) = Inr bb \<and> jcs_bytes X bb = Some xb \<and>
    (xa = xb \<or> (xa \<noteq> xb \<and> sha256_hex X xa = sha256_hex X xb))"
  using a b eq by (auto simp: validate_iff component_digest_def canonical_digest_def
      canonical_json_bytes_def digest_bytes_def result_simps) (metis digest.inject)

end

subsection \<open>NUL-terminated framing\<close>

definition NUL :: char where
  "NUL = char_of (0 :: nat)"

text \<open>The loop \<open>hasher.update(field); hasher.update([0])\<close> over a list of fields.\<close>

definition nul_framed :: "string list \<Rightarrow> bytes" where
  "nul_framed fs = concat (map (\<lambda>f. str_bytes f @ [0]) fs)"

lemma nul_framed_Cons: "nul_framed (f # fs) = str_bytes f @ 0 # nul_framed fs"
  by (simp add: nul_framed_def)

lemma nul_framed_append: "nul_framed (fs @ gs) = nul_framed fs @ nul_framed gs"
  by (simp add: nul_framed_def)

lemma zero_in_str_bytes: "0 \<in> set (str_bytes s) \<longleftrightarrow> NUL \<in> set s"
proof -
  have "(word_of_nat (of_char c) :: u8) = 0 \<longleftrightarrow> c = NUL" for c
    using byte_of_char_inj [of c NUL] by (simp add: NUL_def)
  then show ?thesis by (auto simp: str_bytes_def)
qed

lemma first_zero_split:
  "xs @ 0 # ys = xs' @ 0 # ys' \<Longrightarrow> 0 \<notin> set xs \<Longrightarrow> 0 \<notin> set xs' \<Longrightarrow> xs = xs' \<and> ys = (ys' :: bytes)"
  by (induction xs arbitrary: xs') (auto simp: Cons_eq_append_conv append_eq_Cons_conv)

lemma nul_framed_inj:
  "nul_framed fs = nul_framed gs \<Longrightarrow> \<forall>f \<in> set fs. NUL \<notin> set f \<Longrightarrow> \<forall>g \<in> set gs. NUL \<notin> set g \<Longrightarrow> fs = gs"
proof (induction fs arbitrary: gs)
  case Nil
  then show ?case by (cases gs) (simp_all add: nul_framed_Cons, simp add: nul_framed_def)
next
  case (Cons f fs)
  then obtain g gs' where gs: "gs = g # gs'"
    by (cases gs) (simp_all add: nul_framed_Cons, simp add: nul_framed_def)
  from Cons.prems have "str_bytes f @ 0 # nul_framed fs = str_bytes g @ 0 # nul_framed gs'"
    by (simp add: gs nul_framed_Cons)
  with first_zero_split have "str_bytes f = str_bytes g \<and> nul_framed fs = nul_framed gs'"
    using Cons.prems by (metis gs list.set_intros(1) zero_in_str_bytes)
  with Cons gs show ?case by simp
qed

definition document_order_digest :: "externals \<Rightarrow> string list \<Rightarrow> digest" where
  "document_order_digest X ids = digest_bytes X (nul_framed ids)"

subsection \<open>Field checks\<close>

definition MAX_SAFE_JSON_INTEGER :: u64 where
  "MAX_SAFE_JSON_INTEGER = 9007199254740991"

definition require_text :: "string \<Rightarrow> pipeline_error + unit" where
  "require_text value = (if value = [] then Inl (Invalid ''non-empty text'') else Inr ())"

definition require_safe_u64 :: "u64 \<Rightarrow> pipeline_error + unit" where
  "require_safe_u64 value =
     (if value > MAX_SAFE_JSON_INTEGER then Inl (Invalid ''RFC 8785 safe integer'') else Inr ())"

definition require_sorted_unique :: "string list \<Rightarrow> pipeline_error + unit" where
  "require_sorted_unique values =
     (if list_ex (\<lambda>v. v = []) values \<or> \<not> successively (<) values
      then Inl (Invalid ''sorted unique values'') else Inr ())"

lemma require_text_ok [result_simps]: "require_text v = Inr u \<longleftrightarrow> v \<noteq> []"
  by (simp add: require_text_def)

lemma require_safe_u64_ok [result_simps]:
  "require_safe_u64 v = Inr u \<longleftrightarrow> v \<le> MAX_SAFE_JSON_INTEGER"
  by (auto simp: require_safe_u64_def linorder_not_less)

lemma require_sorted_unique_ok [result_simps]:
  "require_sorted_unique vs = Inr u \<longleftrightarrow> [] \<notin> set vs \<and> sorted_wrt (<) vs"
  by (auto simp: require_sorted_unique_def list_ex_iff successively_conv_sorted_wrt)

definition validate_canonical_json :: "externals \<Rightarrow> string \<Rightarrow> pipeline_error + unit" where
  "validate_canonical_json X text =
     rbind (ok_or PipelineJson (json_from_str X text)) (\<lambda>value.
     rbind (canonical_json_bytes X value) (\<lambda>b.
       if \<not> utf8_valid b then Inl (Invalid ''canonical JSON UTF-8'')
       else if b = str_bytes text then Inr () else Inl (Invalid ''canonical JSON text'')))"

subsection \<open>Safe relative paths\<close>

datatype safe_path = SafeRelativePath (path_str: string)

instantiation safe_path :: linorder
begin

definition less_eq_safe_path :: "safe_path \<Rightarrow> safe_path \<Rightarrow> bool" where
  "less_eq_safe_path a b \<longleftrightarrow> path_str a \<le> path_str b"

definition less_safe_path :: "safe_path \<Rightarrow> safe_path \<Rightarrow> bool" where
  "less_safe_path a b \<longleftrightarrow> path_str a < path_str b"

instance
proof
  fix x y z :: safe_path
  show "x < y \<longleftrightarrow> x \<le> y \<and> \<not> y \<le> x"
    by (auto simp: less_eq_safe_path_def less_safe_path_def)
  show "x \<le> x" by (simp add: less_eq_safe_path_def)
  show "x \<le> y \<Longrightarrow> y \<le> z \<Longrightarrow> x \<le> z" by (simp add: less_eq_safe_path_def)
  show "x \<le> y \<Longrightarrow> y \<le> x \<Longrightarrow> x = y"
    by (simp add: less_eq_safe_path_def safe_path.expand)
  show "x \<le> y \<or> y \<le> x" by (auto simp: less_eq_safe_path_def)
qed

end

datatype path_component = RootDir | CurDir | ParentDir | NormalDir string

text \<open>
  \<open>Path::components\<close> on Unix: a leading slash is the root, a leading \<open>.\<close> of a relative
  path is kept, other empty and \<open>.\<close> segments are dropped.
\<close>

fun segment_component :: "string \<Rightarrow> path_component list" where
  "segment_component p =
     (if p = [] \<or> p = ''.'' then [] else if p = ''..'' then [ParentDir] else [NormalDir p])"

definition path_components :: "string \<Rightarrow> path_component list" where
  "path_components s =
     (let segs = str_split (CHR ''/'') s;
          rest = concat (map segment_component segs)
      in if starts_with ''/'' s then RootDir # rest
         else if segs \<noteq> [] \<and> hd segs = ''.'' then CurDir # rest
         else rest)"

definition safe_relative_path_new :: "string \<Rightarrow> pipeline_error + safe_path" where
  "safe_relative_path_new value =
     (if value = [] \<or> str_contains (CHR 0x5C) value \<or> str_contains NUL value
         \<or> str_contains (CHR '':'') value
         \<or> list_ex (\<lambda>seg. seg = [] \<or> seg = ''.'' \<or> seg = ''..'') (str_split (CHR ''/'') value)
      then Inl (Invalid ''safe relative path'')
      else if starts_with ''/'' value
         \<or> list_ex (\<lambda>c. case c of NormalDir _ \<Rightarrow> False | _ \<Rightarrow> True) (path_components value)
      then Inl (Invalid ''safe relative path'')
      else Inr (SafeRelativePath value))"

definition safe_segment :: "string \<Rightarrow> bool" where
  "safe_segment seg \<longleftrightarrow> seg \<noteq> [] \<and> seg \<noteq> ''.'' \<and> seg \<noteq> ''..''"

lemma components_of_safe_segments:
  "\<forall>p \<in> set ps. safe_segment p \<Longrightarrow> concat (map segment_component ps) = map NormalDir ps"
  by (induction ps) (auto simp: safe_segment_def)

lemma starts_with_slash: "starts_with ''/'' s \<Longrightarrow> [] \<in> set (str_split (CHR ''/'') s)"
  by (cases s) (auto simp: starts_with_def)

lemma path_components_safe:
  assumes "\<forall>seg \<in> set (str_split (CHR ''/'') v). safe_segment seg"
  shows "path_components v = map NormalDir (str_split (CHR ''/'') v)" and "\<not> starts_with ''/'' v"
proof -
  show ns: "\<not> starts_with ''/'' v"
    using assms starts_with_slash by (auto simp: safe_segment_def)
  have "hd (str_split (CHR ''/'') v) \<noteq> ''.''"
    using assms hd_in_set [OF str_split_not_Nil] by (fastforce simp: safe_segment_def)
  with ns show "path_components v = map NormalDir (str_split (CHR ''/'') v)"
    by (simp add: path_components_def Let_def components_of_safe_segments [OF assms])
qed

text \<open>
  The accepted paths are exactly the non-empty ones without backslash, NUL or colon all
  of whose segments are plain names; the second check of the constructor adds nothing, and
  the components of an accepted path are its segments, so joining it to a root only descends.
\<close>

theorem safe_relative_path_ok:
  "safe_relative_path_new v = Inr p \<longleftrightarrow>
     p = SafeRelativePath v \<and> v \<noteq> [] \<and> {CHR 0x5C, NUL, CHR '':''} \<inter> set v = {} \<and>
     path_components v = map NormalDir (str_split (CHR ''/'') v) \<and>
     list_all safe_segment (str_split (CHR ''/'') v)"
proof (cases "\<forall>seg \<in> set (str_split (CHR ''/'') v). safe_segment seg")
  case True
  have ex: "\<not> list_ex (\<lambda>seg. seg = [] \<or> seg = ''.'' \<or> seg = ''..'') (str_split (CHR ''/'') v)"
    using True by (auto simp: list_ex_iff safe_segment_def)
  show ?thesis
    using path_components_safe [OF True] ex True
    by (auto simp: safe_relative_path_new_def str_contains_def list_ex_iff list_all_iff)
next
  case False
  then have "list_ex (\<lambda>seg. seg = [] \<or> seg = ''.'' \<or> seg = ''..'') (str_split (CHR ''/'') v)"
    by (auto simp: list_ex_iff safe_segment_def)
  with False show ?thesis
    by (auto simp: safe_relative_path_new_def list_all_iff)
qed

subsection \<open>Component references and dataset identity\<close>

record component_ref =
  cr_id :: string
  cr_version :: string
  cr_sha256 :: digest

definition component_ref_validate :: "component_ref \<Rightarrow> pipeline_error + unit" where
  "component_ref_validate c =
     rbind (require_text (cr_id c)) (\<lambda>_. require_text (cr_version c))"

lemma component_ref_validate_ok [result_simps]:
  "component_ref_validate c = Inr u \<longleftrightarrow> cr_id c \<noteq> [] \<and> cr_version c \<noteq> []"
  by (simp add: component_ref_validate_def result_simps)

record dataset_identity =
  ds_id :: string
  ds_version :: string
  source_snapshot :: component_ref
  ds_mapping :: component_ref
  source_admission :: "component_ref list"
  included_relations :: "string list"
  excluded_relations :: "string list"
  structured_only_relations :: "string list"

definition insert_relation :: "string set \<Rightarrow> string \<Rightarrow> pipeline_error + string set" where
  "insert_relation all relation =
     (if relation \<in> all then Inl (Invalid ''relation scopes overlap'')
      else Inr (insert relation all))"

definition insert_relations :: "string set \<Rightarrow> string list \<Rightarrow> pipeline_error + string set" where
  "insert_relations all relations =
     rbind (require_sorted_unique relations) (\<lambda>_. try_fold insert_relation all relations)"

definition dataset_identity_validate :: "dataset_identity \<Rightarrow> pipeline_error + unit" where
  "dataset_identity_validate d =
     rbind (require_text (ds_id d)) (\<lambda>_.
     rbind (require_text (ds_version d)) (\<lambda>_.
     rbind (component_ref_validate (source_snapshot d)) (\<lambda>_.
     rbind (component_ref_validate (ds_mapping d)) (\<lambda>_.
     rbind (try_all component_ref_validate (source_admission d)) (\<lambda>_.
     if \<not> successively (\<lambda>a b. cr_id a < cr_id b) (source_admission d)
     then Inl (Invalid ''source admission components must be sorted and unique by id'')
     else rbind (try_fold insert_relations {}
                  [included_relations d, excluded_relations d, structured_only_relations d])
            (\<lambda>_. Inr ()))))))"

lemma insert_relation_fold_ok:
  "try_fold insert_relation A xs = Inr B \<longleftrightarrow> distinct xs \<and> A \<inter> set xs = {} \<and> B = A \<union> set xs"
  by (induction xs arbitrary: A) (auto simp: insert_relation_def result_simps)

lemma sorted_wrt_less_distinct: "sorted_wrt (<) (xs :: 'a::order list) \<Longrightarrow> distinct xs"
  by (induction xs) auto

lemma insert_relations_fold_ok:
  "try_fold insert_relations A xss = Inr B \<longleftrightarrow>
     (\<forall>xs \<in> set xss. [] \<notin> set xs \<and> sorted_wrt (<) xs) \<and> distinct (concat xss) \<and>
     A \<inter> set (concat xss) = {} \<and> B = A \<union> set (concat xss)"
  by (induction xss arbitrary: A)
    (auto simp: insert_relations_def result_simps insert_relation_fold_ok sorted_wrt_less_distinct)

lemma dataset_identity_validate_ok [result_simps]:
  "dataset_identity_validate d = Inr u \<longleftrightarrow>
     ds_id d \<noteq> [] \<and> ds_version d \<noteq> [] \<and>
     component_ref_validate (source_snapshot d) = Inr () \<and>
     component_ref_validate (ds_mapping d) = Inr () \<and>
     (\<forall>c \<in> set (source_admission d). component_ref_validate c = Inr ()) \<and>
     sorted_wrt (\<lambda>a b. cr_id a < cr_id b) (source_admission d) \<and>
     (\<forall>rs \<in> {included_relations d, excluded_relations d, structured_only_relations d}.
        [] \<notin> set rs \<and> sorted_wrt (<) rs) \<and>
     distinct (included_relations d @ excluded_relations d @ structured_only_relations d)"
proof -
  have s: "successively (\<lambda>a b. cr_id a < cr_id b) cs \<longleftrightarrow> sorted_wrt (\<lambda>a b. cr_id a < cr_id b) cs"
    for cs :: "component_ref list"
    by (rule successively_conv_sorted_wrt) (auto intro: transpI)
  show ?thesis
    by (auto simp: dataset_identity_validate_def result_simps try_all_ok insert_relations_fold_ok s
        simp del: try_fold.simps)
qed

subsection \<open>JSON values of the shared fields\<close>

definition json_digest :: "digest \<Rightarrow> json" where
  "json_digest d = JStr (digest_str d)"

definition json_path :: "safe_path \<Rightarrow> json" where
  "json_path p = JStr (path_str p)"

definition json_u64 :: "u64 \<Rightarrow> json" where
  "json_u64 w = JNum (unat w)"

definition json_u32 :: "u32 \<Rightarrow> json" where
  "json_u32 w = JNum (unat w)"

definition json_strs :: "string list \<Rightarrow> json" where
  "json_strs ss = JArr (map JStr ss)"

definition component_ref_fields :: "component_ref \<Rightarrow> (string \<times> json) list" where
  "component_ref_fields c =
     [(''id'', JStr (cr_id c)), (''version'', JStr (cr_version c)),
      (''sha256'', json_digest (cr_sha256 c))]"

definition json_component_ref :: "component_ref \<Rightarrow> json" where
  "json_component_ref c = JObj (component_ref_fields c)"

text \<open>\<open>source_admission\<close> is skipped when empty, the other fields are always present.\<close>

definition json_dataset_identity :: "dataset_identity \<Rightarrow> json" where
  "json_dataset_identity d = JObj (
     [(''id'', JStr (ds_id d)), (''version'', JStr (ds_version d)),
      (''source_snapshot'', json_component_ref (source_snapshot d)),
      (''mapping'', json_component_ref (ds_mapping d))] @
     (if source_admission d = [] then []
      else [(''source_admission'', JArr (map json_component_ref (source_admission d)))]) @
     [(''included_relations'', json_strs (included_relations d)),
      (''excluded_relations'', json_strs (excluded_relations d)),
      (''structured_only_relations'', json_strs (structured_only_relations d))])"

end
