(* ===== verification/Ordered_Map.thy ===== *)
theory Ordered_Map
  imports Prelude
begin

text \<open>
  \<open>BTreeMap\<close> as the list of its entries in ascending key order, the order its iterators
  yield. The interface \<open>ordered_map\<close> states what the program relies on (a lookup after an
  insert or a removal, and that the length is the number of keys); the lemmas about
  \<open>collect\<close>, which the manifest checks use to find duplicate keys, are proved once in it.
\<close>

type_synonym ('k, 'v) btree = "('k \<times> 'v) list"

fun bt_insert :: "'k::linorder \<Rightarrow> 'v \<Rightarrow> ('k, 'v) btree \<Rightarrow> ('k, 'v) btree" where
  "bt_insert k v [] = [(k, v)]"
| "bt_insert k v ((k', v') # m) =
     (if k < k' then (k, v) # (k', v') # m
      else if k = k' then (k, v) # m
      else (k', v') # bt_insert k v m)"

definition bt_get :: "('k, 'v) btree \<Rightarrow> 'k \<Rightarrow> 'v option" where
  "bt_get m k = map_of m k"

definition bt_remove :: "'k \<Rightarrow> ('k, 'v) btree \<Rightarrow> ('k, 'v) btree" where
  "bt_remove k m = filter (\<lambda>(k', _). k' \<noteq> k) m"

definition bt_keys :: "('k, 'v) btree \<Rightarrow> 'k list" where
  "bt_keys m = map fst m"

definition bt_ok :: "('k::linorder, 'v) btree \<Rightarrow> bool" where
  "bt_ok m \<longleftrightarrow> sorted_wrt (<) (map fst m)"

definition bt_collect :: "('k::linorder \<times> 'v) list \<Rightarrow> ('k, 'v) btree" where
  "bt_collect kvs = fold (\<lambda>(k, v). bt_insert k v) kvs []"

locale ordered_map =
  fixes mempty :: "'m"
    and lookup :: "'m \<Rightarrow> 'k \<Rightarrow> 'v option"
    and minsert :: "'k \<Rightarrow> 'v \<Rightarrow> 'm \<Rightarrow> 'm"
    and mremove :: "'k \<Rightarrow> 'm \<Rightarrow> 'm"
    and msize :: "'m \<Rightarrow> nat"
    and invar :: "'m \<Rightarrow> bool"
  assumes lookup_empty: "lookup mempty k = None"
    and lookup_insert: "invar m \<Longrightarrow> lookup (minsert k v m) = (lookup m)(k \<mapsto> v)"
    and lookup_remove: "invar m \<Longrightarrow> lookup (mremove k m) = (lookup m)(k := None)"
    and invar_empty: "invar mempty"
    and invar_insert: "invar m \<Longrightarrow> invar (minsert k v m)"
    and invar_remove: "invar m \<Longrightarrow> invar (mremove k m)"
    and size_card: "invar m \<Longrightarrow> msize m = card (dom (lookup m))"
begin

lemma collect_invar: "invar m \<Longrightarrow> invar (fold (\<lambda>(k, v). minsert k v) kvs m)"
  by (induction kvs arbitrary: m) (auto simp: invar_insert)

lemma collect_lookup_from:
  "invar m \<Longrightarrow> lookup (fold (\<lambda>(k, v). minsert k v) kvs m) = lookup m ++ map_of (rev kvs)"
proof (induction kvs arbitrary: m)
  case (Cons kv kvs)
  obtain k v where "kv = (k, v)" by (cases kv)
  with Cons show ?case
    by (auto simp: invar_insert lookup_insert fun_eq_iff map_add_def split: option.splits)
qed simp

lemma collect_lookup: "lookup (fold (\<lambda>(k, v). minsert k v) kvs mempty) = map_of (rev kvs)"
  using collect_lookup_from [OF invar_empty, of kvs] by (simp add: lookup_empty map_add_def
      fun_eq_iff split: option.splits)

lemma collect_size: "msize (fold (\<lambda>(k, v). minsert k v) kvs mempty) = card (fst ` set kvs)"
  by (simp add: size_card collect_invar invar_empty collect_lookup dom_map_of_conv_image_fst)

text \<open>No duplicate keys: the collected map is as long as the list, and finds what the list has.\<close>

lemma collect_no_duplicates:
  "msize (fold (\<lambda>(k, v). minsert k v) kvs mempty) = length kvs \<longleftrightarrow> distinct (map fst kvs)"
  by (metis collect_size card_distinct distinct_card length_map set_map)

lemma collect_lookup_distinct:
  "distinct (map fst kvs) \<Longrightarrow> lookup (fold (\<lambda>(k, v). minsert k v) kvs mempty) = map_of kvs"
  using map_of_inject_set [of "rev kvs" kvs]
  by (simp add: collect_lookup rev_map [symmetric])

end

lemma bt_insert_keys: "set (map fst (bt_insert k v m)) = insert k (set (map fst m))"
  by (induction k v m rule: bt_insert.induct) auto

lemma bt_insert_ok: "bt_ok m \<Longrightarrow> bt_ok (bt_insert k v m)"
proof (induction k v m rule: bt_insert.induct)
  case (2 k v k' v' m)
  then show ?case
    using bt_insert_keys [of k v m] by (fastforce simp: bt_ok_def)
qed (simp add: bt_ok_def)

lemma bt_insert_get: "bt_ok m \<Longrightarrow> bt_get (bt_insert k v m) = (bt_get m)(k \<mapsto> v)"
proof (induction k v m rule: bt_insert.induct)
  case (2 k v k' v' m)
  then show ?case
    by (auto simp: bt_ok_def bt_get_def fun_eq_iff split: if_splits)
qed (simp add: bt_get_def fun_eq_iff)

lemma bt_remove_get: "bt_get (bt_remove k m) = (bt_get m)(k := None)"
  by (induction m) (auto simp: bt_get_def bt_remove_def fun_eq_iff)

lemma bt_remove_ok: "bt_ok m \<Longrightarrow> bt_ok (bt_remove k m)"
  unfolding bt_ok_def bt_remove_def by (induction m) auto

lemma bt_ok_distinct: "bt_ok m \<Longrightarrow> distinct (map fst m)"
  by (simp add: bt_ok_def strict_sorted_iff)

lemma bt_length: "bt_ok m \<Longrightarrow> length m = card (dom (bt_get m))"
  using distinct_card [OF bt_ok_distinct, of m]
  by (simp add: bt_get_def [abs_def] dom_map_of_conv_image_fst)

interpretation bt: ordered_map "[]" bt_get bt_insert bt_remove length bt_ok
  by unfold_locales
    (simp_all add: bt_insert_get bt_remove_get bt_insert_ok bt_remove_ok bt_length,
     simp_all add: bt_get_def bt_ok_def)

lemmas bt_collect_get = bt.collect_lookup [folded bt_collect_def]
  and bt_collect_size = bt.collect_size [folded bt_collect_def]
  and bt_collect_distinct = bt.collect_no_duplicates [folded bt_collect_def]
  and bt_collect_get_distinct = bt.collect_lookup_distinct [folded bt_collect_def]

lemma bt_collect_ok: "bt_ok (bt_collect kvs)"
  unfolding bt_collect_def by (rule bt.collect_invar) (simp add: bt_ok_def)

lemma bt_get_in: "bt_get m k = Some v \<Longrightarrow> (k, v) \<in> set m"
  by (simp add: bt_get_def map_of_SomeD)

lemma bt_insert_sum:
  fixes m :: "('k::linorder, nat) btree"
  shows "bt_ok m \<Longrightarrow> sum_list (map snd (bt_insert k v m)) + (case bt_get m k of None \<Rightarrow> 0 | Some n \<Rightarrow> n)
    = sum_list (map snd m) + v"
proof (induction k v m rule: bt_insert.induct)
  case (2 k v k' v' m)
  have n: "k < k' \<Longrightarrow> bt_get ((k', v') # m) k = None"
    using 2(2) by (auto simp: bt_get_def bt_ok_def map_of_eq_None_iff dest: less_trans)
  from 2 n show ?case by (auto simp: bt_get_def bt_ok_def)
qed (simp add: bt_get_def)

end
