(* ===== verification/Coverage.thy ===== *)
theory Coverage
  imports Prelude
begin

text \<open>
  Consecutive runs of ordinals. The manifests cut the ordinals \<open>0..<n\<close> into half-open
  ranges that follow one another; \<open>covers_from\<close> is that shape. The interface
  \<open>contiguous_plan\<close> is the contract of a task-list validation: what it accepts covers the
  ordinals, and its lemmas then hold for every plan format.
\<close>

fun covers_from :: "('t \<Rightarrow> nat) \<Rightarrow> ('t \<Rightarrow> nat) \<Rightarrow> nat \<Rightarrow> 't list \<Rightarrow> nat \<Rightarrow> bool" where
  "covers_from s e a [] n \<longleftrightarrow> a = n"
| "covers_from s e a (t # ts) n \<longleftrightarrow> s t = a \<and> a < e t \<and> covers_from s e (e t) ts n"

lemma covers_from_le: "covers_from s e a ts n \<Longrightarrow> a \<le> n"
  by (induction ts arbitrary: a) fastforce+

lemma covers_from_bounds: "covers_from s e a ts n \<Longrightarrow> t \<in> set ts \<Longrightarrow> a \<le> s t \<and> s t < e t \<and> e t \<le> n"
proof (induction ts arbitrary: a)
  case (Cons x ts)
  then have "a < e x" and "covers_from s e (e x) ts n" by simp_all
  with Cons covers_from_le [of s e "e x" ts n] show ?case by fastforce
qed simp

lemma covers_from_unique:
  "covers_from s e a ts n \<Longrightarrow> a \<le> i \<Longrightarrow> i < n \<Longrightarrow>
   \<exists>!k. k < length ts \<and> s (ts ! k) \<le> i \<and> i < e (ts ! k)"
proof (induction ts arbitrary: a)
  case (Cons t ts)
  then have st: "s t = a" "a < e t" and rest: "covers_from s e (e t) ts n" by simp_all
  show ?case
  proof (cases "i < e t")
    case True
    show ?thesis
    proof (rule ex1I [of _ 0])
      show "0 < length (t # ts) \<and> s ((t # ts) ! 0) \<le> i \<and> i < e ((t # ts) ! 0)"
        using st Cons.prems True by simp
    next
      fix k assume k: "k < length (t # ts) \<and> s ((t # ts) ! k) \<le> i \<and> i < e ((t # ts) ! k)"
      show "k = 0"
      proof (cases k)
        case (Suc j)
        with k have "ts ! j \<in> set ts" by simp
        from covers_from_bounds [OF rest this] k Suc True show ?thesis by simp
      qed
    qed
  next
    case False
    with Cons.IH [OF rest] Cons.prems obtain k where
      k: "k < length ts" "s (ts ! k) \<le> i" "i < e (ts ! k)"
      and u: "\<And>j. j < length ts \<and> s (ts ! j) \<le> i \<and> i < e (ts ! j) \<Longrightarrow> j = k"
      by (metis not_le)
    show ?thesis
    proof (rule ex1I [of _ "Suc k"])
      show "Suc k < length (t # ts) \<and> s ((t # ts) ! Suc k) \<le> i \<and> i < e ((t # ts) ! Suc k)"
        using k by simp
    next
      fix j assume j: "j < length (t # ts) \<and> s ((t # ts) ! j) \<le> i \<and> i < e ((t # ts) ! j)"
      with False obtain j' where "j = Suc j'" by (cases j) auto
      with j u [of j'] show "j = Suc k" by simp
    qed
  qed
qed simp

lemma covers_from_concat:
  "covers_from s e a ts n \<Longrightarrow> n \<le> length xs \<Longrightarrow>
   concat (map (\<lambda>t. take (e t - s t) (drop (s t) xs)) ts) = take (n - a) (drop a xs)"
proof (induction ts arbitrary: a)
  case (Cons t ts)
  then have h: "s t = a" "a < e t" "covers_from s e (e t) ts n" by simp_all
  with covers_from_le have "e t \<le> n" by blast
  with Cons.IH [OF h(3) Cons.prems(2)] h show ?case
    using take_drop_append [of a "e t" n xs] by simp
qed simp

lemma covers_from_sum:
  "covers_from s e a ts n \<Longrightarrow> a + sum_list (map (\<lambda>t. e t - s t) ts) = n"
  by (induction ts arbitrary: a) fastforce+

lemma covers_from_append:
  "covers_from s e a xs b \<Longrightarrow> covers_from s e b ys c \<Longrightarrow> covers_from s e a (xs @ ys) c"
  by (induction xs arbitrary: a) auto

lemma covers_from_ends:
  "covers_from s e a xs b \<Longrightarrow> xs \<noteq> [] \<Longrightarrow> s (hd xs) = a \<and> e (last xs) = b"
  by (induction xs arbitrary: a) (auto split: if_splits)

lemma covers_from_split:
  "covers_from s e a (xs @ ys) c \<Longrightarrow> \<exists>b. covers_from s e a xs b \<and> covers_from s e b ys c"
  by (induction xs arbitrary: a) auto

locale contiguous_plan =
  fixes start :: "'t \<Rightarrow> u64" and stop :: "'t \<Rightarrow> u64"
    and accepted :: "'c \<Rightarrow> 't list \<Rightarrow> u64 \<Rightarrow> bool"
  assumes accepted_covers:
    "accepted c ts n \<Longrightarrow> covers_from (\<lambda>t. unat (start t)) (\<lambda>t. unat (stop t)) 0 ts (unat n)"
begin

lemma ordinal_has_one_task:
  "accepted c ts n \<Longrightarrow> i < unat n \<Longrightarrow>
   \<exists>!k. k < length ts \<and> unat (start (ts ! k)) \<le> i \<and> i < unat (stop (ts ! k))"
  by (rule covers_from_unique [OF accepted_covers]) simp_all

lemma rows_partitioned:
  "accepted c ts n \<Longrightarrow> length xs = unat n \<Longrightarrow>
   concat (map (\<lambda>t. take (unat (stop t) - unat (start t)) (drop (unat (start t)) xs)) ts) = xs"
  using covers_from_concat [OF accepted_covers, of c ts n xs] by simp

lemma task_in_range:
  "accepted c ts n \<Longrightarrow> t \<in> set ts \<Longrightarrow> start t < stop t \<and> stop t \<le> n"
  using covers_from_bounds [OF accepted_covers] by (fastforce simp: word_less_nat_alt word_le_nat_alt)

lemma total_rows:
  "accepted c ts n \<Longrightarrow> sum_list (map (\<lambda>t. unat (stop t) - unat (start t)) ts) = unat n"
  using covers_from_sum [OF accepted_covers] by fastforce

end

end
