(* ===== verification/Prepared.thy ===== *)
theory Prepared
  imports Component Ordered_Map Coverage
begin

text \<open>
  The prepared corpus of \<open>crates/rag-pipeline/src/lib.rs\<close>: document and occurrence rows,
  the objects (Parquet shards) that hold them, relation accounting and the corpus manifest,
  with every check of their validation. The lemmas show what an accepted manifest promises:
  the objects cut the ordinals into consecutive runs with no overflow of the row total, and
  the rows are the concatenation of the objects' slices in strict identifier order.
\<close>

subsection \<open>Rows\<close>

datatype document_kind = Activity | State | Detection

fun document_kind_str :: "document_kind \<Rightarrow> string" where
  "document_kind_str Activity = ''activity''"
| "document_kind_str State = ''state''"
| "document_kind_str Detection = ''detection''"

definition document_kind_parse :: "string \<Rightarrow> pipeline_error + document_kind" where
  "document_kind_parse s =
     (if s = ''activity'' then Inr Activity
      else if s = ''state'' then Inr State
      else if s = ''detection'' then Inr Detection
      else Inl (Invalid ''document kind''))"

record prepared_document_row =
  pd_ordinal :: u64
  pd_document_id :: string
  pd_document_sha256 :: digest
  pd_text_sha256 :: digest
  pd_semantic_text :: string
  pd_kind :: document_kind
  pd_primary_relation :: string
  pd_facets_json :: string
  pd_relations_json :: string
  pd_occurrence_count :: u64

record index_document_fields =
  ix_document_id :: string
  ix_document_sha256 :: string
  ix_document_kind :: string
  ix_semantic_text :: string
  ix_facets_json :: string
  ix_relations_json :: string
  ix_occurrence_count :: u64
  ix_vector_ordinal :: u64

definition prepared_document_row_validate ::
    "externals \<Rightarrow> prepared_document_row \<Rightarrow> pipeline_error + unit" where
  "prepared_document_row_validate X r =
     rbind (require_safe_u64 (pd_ordinal r)) (\<lambda>_.
     rbind (require_safe_u64 (pd_occurrence_count r)) (\<lambda>_.
     rbind (require_text (pd_document_id r)) (\<lambda>_.
     rbind (require_text (pd_semantic_text r)) (\<lambda>_.
     rbind (require_text (pd_primary_relation r)) (\<lambda>_.
     rbind (validate_canonical_json X (pd_facets_json r)) (\<lambda>_.
     rbind (validate_canonical_json X (pd_relations_json r)) (\<lambda>_.
     if digest_bytes X (str_bytes (pd_semantic_text r)) \<noteq> pd_text_sha256 r
     then Inl (Invalid ''semantic text digest'')
     else if pd_occurrence_count r = 0 then Inl (Invalid ''document occurrence count'')
     else Inr ())))))))"

definition into_index_fields :: "prepared_document_row \<Rightarrow> index_document_fields" where
  "into_index_fields r = \<lparr>
     ix_document_id = pd_document_id r,
     ix_document_sha256 = digest_str (pd_document_sha256 r),
     ix_document_kind = document_kind_str (pd_kind r),
     ix_semantic_text = pd_semantic_text r,
     ix_facets_json = pd_facets_json r,
     ix_relations_json = pd_relations_json r,
     ix_occurrence_count = pd_occurrence_count r,
     ix_vector_ordinal = pd_ordinal r \<rparr>"

record prepared_occurrence_row =
  po_occurrence_id :: string
  po_document_id :: string
  po_event_time_ms :: "u64 option"
  po_relation :: string
  po_source_row_ordinal :: u64
  po_exact_attributes_json :: string
  po_snapshot_sha256 :: digest
  po_mapping_sha256 :: digest
  po_event_id :: string
  po_support_ref :: string

definition prepared_occurrence_row_validate ::
    "externals \<Rightarrow> prepared_occurrence_row \<Rightarrow> pipeline_error + unit" where
  "prepared_occurrence_row_validate X r =
     rbind (require_safe_u64 (po_source_row_ordinal r)) (\<lambda>_.
     rbind (case po_event_time_ms r of None \<Rightarrow> Inr () | Some v \<Rightarrow> require_safe_u64 v) (\<lambda>_.
     rbind (try_all require_text
              [po_occurrence_id r, po_document_id r, po_relation r, po_event_id r, po_support_ref r])
       (\<lambda>_. validate_canonical_json X (po_exact_attributes_json r))))"

definition json_document_row :: "prepared_document_row \<Rightarrow> json" where
  "json_document_row r = JObj
     [(''document_ordinal'', json_u64 (pd_ordinal r)),
      (''document_id'', JStr (pd_document_id r)),
      (''document_sha256'', json_digest (pd_document_sha256 r)),
      (''semantic_text_sha256'', json_digest (pd_text_sha256 r)),
      (''semantic_text'', JStr (pd_semantic_text r)),
      (''document_kind'', JStr (document_kind_str (pd_kind r))),
      (''primary_relation'', JStr (pd_primary_relation r)),
      (''facets_json'', JStr (pd_facets_json r)),
      (''relations_json'', JStr (pd_relations_json r)),
      (''occurrence_count'', json_u64 (pd_occurrence_count r))]"

definition json_occurrence_row :: "prepared_occurrence_row \<Rightarrow> json" where
  "json_occurrence_row r = JObj
     [(''occurrence_id'', JStr (po_occurrence_id r)),
      (''document_id'', JStr (po_document_id r)),
      (''event_time_ms'', case po_event_time_ms r of None \<Rightarrow> JNull | Some v \<Rightarrow> json_u64 v),
      (''relation'', JStr (po_relation r)),
      (''source_row_ordinal'', json_u64 (po_source_row_ordinal r)),
      (''exact_attributes_json'', JStr (po_exact_attributes_json r)),
      (''snapshot_sha256'', json_digest (po_snapshot_sha256 r)),
      (''mapping_sha256'', json_digest (po_mapping_sha256 r)),
      (''event_id'', JStr (po_event_id r)),
      (''support_ref'', JStr (po_support_ref r))]"

definition row_identity_fields :: "prepared_document_row \<Rightarrow> string list" where
  "row_identity_fields r =
     [pd_document_id r, digest_str (pd_document_sha256 r), digest_str (pd_text_sha256 r)]"

definition EMBEDDING_INPUT_ORDER_DOMAIN :: string where
  "EMBEDDING_INPUT_ORDER_DOMAIN = ''livefire.rag.embedding-input-order/1''"

definition embedding_input_order_digest ::
    "externals \<Rightarrow> prepared_document_row list \<Rightarrow> digest" where
  "embedding_input_order_digest X rows =
     digest_bytes X (str_bytes EMBEDDING_INPUT_ORDER_DOMAIN @ [0] @
       nul_framed (concat (map row_identity_fields rows)))"

subsection \<open>Objects and the corpus manifest\<close>

record object_entry =
  oe_path :: safe_path
  oe_rows :: u64
  oe_bytes :: u64
  oe_sha256 :: digest
  oe_logical_order_sha256 :: digest

record prepared_document_object =
  dobj_object :: object_entry
  dobj_ordinal :: u32
  dobj_first_document_id :: string
  dobj_last_document_id :: string
  dobj_embedding_input_order_sha256 :: digest

record prepared_occurrence_object =
  oobj_object :: object_entry
  oobj_ordinal :: u32
  oobj_relation :: string

record relation_accounting =
  ra_source_rows :: u64
  ra_searchable_occurrences :: u64
  ra_selected_occurrences :: u64
  ra_excluded_rows :: u64

record prepared_corpus_manifest =
  pc_schema_version :: string
  pc_component_sha256 :: digest
  pc_dataset :: dataset_identity
  pc_projection_policy :: component_ref
  pc_document_schema :: component_ref
  pc_occurrence_schema :: component_ref
  pc_preparation_implementation :: component_ref
  pc_document_count :: u64
  pc_occurrence_count :: u64
  pc_document_order_sha256 :: digest
  pc_embedding_input_order_sha256 :: digest
  pc_documents :: "prepared_document_object list"
  pc_occurrences :: "prepared_occurrence_object list"
  pc_relation_accounting :: "(string, relation_accounting) btree"

abbreviation dobj_rows :: "prepared_document_object \<Rightarrow> u64" where
  "dobj_rows ob \<equiv> oe_rows (dobj_object ob)"

abbreviation dobj_path :: "prepared_document_object \<Rightarrow> safe_path" where
  "dobj_path ob \<equiv> oe_path (dobj_object ob)"

definition PREPARED_CORPUS_SCHEMA :: string where
  "PREPARED_CORPUS_SCHEMA = ''livefire.rag.prepared-corpus/1''"

definition object_entry_fields :: "object_entry \<Rightarrow> (string \<times> json) list" where
  "object_entry_fields e =
     [(''path'', json_path (oe_path e)), (''rows'', json_u64 (oe_rows e)),
      (''bytes'', json_u64 (oe_bytes e)), (''sha256'', json_digest (oe_sha256 e)),
      (''logical_order_sha256'', json_digest (oe_logical_order_sha256 e))]"

definition json_document_object :: "prepared_document_object \<Rightarrow> json" where
  "json_document_object ob = JObj (object_entry_fields (dobj_object ob) @
     [(''ordinal'', json_u32 (dobj_ordinal ob)),
      (''first_document_id'', JStr (dobj_first_document_id ob)),
      (''last_document_id'', JStr (dobj_last_document_id ob)),
      (''embedding_input_order_sha256'', json_digest (dobj_embedding_input_order_sha256 ob))])"

definition json_occurrence_object :: "prepared_occurrence_object \<Rightarrow> json" where
  "json_occurrence_object ob = JObj (object_entry_fields (oobj_object ob) @
     [(''ordinal'', json_u32 (oobj_ordinal ob)), (''relation'', JStr (oobj_relation ob))])"

definition json_relation_accounting :: "relation_accounting \<Rightarrow> json" where
  "json_relation_accounting a = JObj
     [(''source_rows'', json_u64 (ra_source_rows a)),
      (''searchable_occurrences'', json_u64 (ra_searchable_occurrences a)),
      (''selected_occurrences'', json_u64 (ra_selected_occurrences a)),
      (''excluded_rows'', json_u64 (ra_excluded_rows a))]"

definition json_prepared_manifest :: "prepared_corpus_manifest \<Rightarrow> json" where
  "json_prepared_manifest m = JObj
     [(''schema_version'', JStr (pc_schema_version m)),
      (''component_sha256'', json_digest (pc_component_sha256 m)),
      (''dataset'', json_dataset_identity (pc_dataset m)),
      (''projection_policy'', json_component_ref (pc_projection_policy m)),
      (''document_schema'', json_component_ref (pc_document_schema m)),
      (''occurrence_schema'', json_component_ref (pc_occurrence_schema m)),
      (''preparation_implementation'', json_component_ref (pc_preparation_implementation m)),
      (''document_count'', json_u64 (pc_document_count m)),
      (''occurrence_count'', json_u64 (pc_occurrence_count m)),
      (''document_order_sha256'', json_digest (pc_document_order_sha256 m)),
      (''embedding_input_order_sha256'', json_digest (pc_embedding_input_order_sha256 m)),
      (''documents'', JArr (map json_document_object (pc_documents m))),
      (''occurrences'', JArr (map json_occurrence_object (pc_occurrences m))),
      (''relation_accounting'',
        JObj (map (\<lambda>(k, a). (k, json_relation_accounting a)) (pc_relation_accounting m)))]"

subsection \<open>Document and occurrence objects\<close>

text \<open>The state of the loop: the running row total, the last identifier seen, the paths.\<close>

type_synonym object_state = "u64 \<times> string option \<times> safe_path set"

fun validate_object_step ::
    "object_state \<Rightarrow> nat \<times> prepared_document_object \<Rightarrow> pipeline_error + object_state" where
  "validate_object_step (rows, previous_last, paths) (index, ob) =
     rbind (require_safe_u64 (dobj_rows ob)) (\<lambda>_.
     rbind (require_safe_u64 (oe_bytes (dobj_object ob))) (\<lambda>_.
     if unat (dobj_ordinal ob) \<noteq> index
        \<or> dobj_rows ob = 0
        \<or> oe_bytes (dobj_object ob) = 0
        \<or> dobj_first_document_id ob = []
        \<or> dobj_last_document_id ob < dobj_first_document_id ob
        \<or> (case previous_last of None \<Rightarrow> False | Some l \<Rightarrow> l \<ge> dobj_first_document_id ob)
        \<or> dobj_path ob \<in> paths
     then Inl (Invalid ''document object order'')
     else rbind (ok_or (Invalid ''document row total'') (checked_add rows (dobj_rows ob)))
            (\<lambda>rows'. Inr (rows', Some (dobj_last_document_id ob), insert (dobj_path ob) paths))))"

definition validate_objects :: "prepared_document_object list \<Rightarrow> u64 \<Rightarrow> pipeline_error + unit" where
  "validate_objects objects expected_rows =
     rbind (try_fold validate_object_step (0, None, {}) (enumerate 0 objects)) (\<lambda>(rows, _, _).
     if rows \<noteq> expected_rows \<or> (expected_rows > 0) \<noteq> (objects \<noteq> [])
     then Inl (Invalid ''document object coverage'') else Inr ())"

text \<open>The first index of a relation: \<open>iter().enumerate().find_map(...)\<close>.\<close>

fun find_index :: "'a \<Rightarrow> 'a list \<Rightarrow> nat option" where
  "find_index x [] = None"
| "find_index x (y # ys) = (if y = x then Some 0 else map_option Suc (find_index x ys))"

type_synonym occurrence_state = "u64 \<times> safe_path set \<times> nat option"

fun validate_occurrence_step ::
    "string list \<Rightarrow> occurrence_state \<Rightarrow> nat \<times> prepared_occurrence_object \<Rightarrow>
     pipeline_error + occurrence_state" where
  "validate_occurrence_step included (rows, paths, previous_relation_index) (index, ob) =
     rbind (require_safe_u64 (oe_rows (oobj_object ob))) (\<lambda>_.
     rbind (require_safe_u64 (oe_bytes (oobj_object ob))) (\<lambda>_.
     rbind (ok_or (Invalid ''occurrence object relation order'')
             (find_index (oobj_relation ob) included)) (\<lambda>relation_index.
     if unat (oobj_ordinal ob) \<noteq> index
        \<or> oe_rows (oobj_object ob) = 0
        \<or> oe_bytes (oobj_object ob) = 0
        \<or> oobj_relation ob = []
        \<or> oe_path (oobj_object ob) \<in> paths
        \<or> (case previous_relation_index of None \<Rightarrow> False | Some p \<Rightarrow> relation_index < p)
     then Inl (Invalid ''occurrence object order'')
     else rbind (ok_or (Invalid ''occurrence row total'')
                  (checked_add rows (oe_rows (oobj_object ob))))
            (\<lambda>rows'. Inr (rows', insert (oe_path (oobj_object ob)) paths, Some relation_index)))))"

definition validate_occurrence_objects ::
    "prepared_occurrence_object list \<Rightarrow> u64 \<Rightarrow> string list \<Rightarrow> pipeline_error + unit" where
  "validate_occurrence_objects objects expected_rows included =
     rbind (try_fold (validate_occurrence_step included) (0, {}, None) (enumerate 0 objects))
       (\<lambda>(rows, _, _).
     if rows \<noteq> expected_rows \<or> (expected_rows > 0) \<noteq> (objects \<noteq> [])
     then Inl (Invalid ''occurrence object coverage'') else Inr ())"

subsection \<open>Relation accounting\<close>

fun validate_accounting_step ::
    "string list \<Rightarrow> u64 \<Rightarrow> string \<times> relation_accounting \<Rightarrow> pipeline_error + u64" where
  "validate_accounting_step included selected_total (relation, a) =
     rbind (try_all require_safe_u64
              [ra_source_rows a, ra_searchable_occurrences a, ra_selected_occurrences a,
               ra_excluded_rows a]) (\<lambda>_.
     if ra_selected_occurrences a > ra_searchable_occurrences a
        \<or> ra_excluded_rows a > ra_source_rows a
     then Inl (Invalid ''relation accounting bounds'')
     else if relation \<in> set included then
       (if ra_selected_occurrences a \<noteq> ra_searchable_occurrences a
           \<or> checked_add (ra_searchable_occurrences a) (ra_excluded_rows a)
              \<noteq> Some (ra_source_rows a)
        then Inl (Invalid ''included relation accounting'')
        else ok_or (Invalid ''relation accounting total'')
               (checked_add selected_total (ra_selected_occurrences a)))
     else if ra_searchable_occurrences a \<noteq> 0 \<or> ra_selected_occurrences a \<noteq> 0
             \<or> ra_excluded_rows a \<noteq> ra_source_rows a
     then Inl (Invalid ''excluded relation accounting'')
     else Inr selected_total)"

definition validate_relation_accounting :: "prepared_corpus_manifest \<Rightarrow> pipeline_error + unit" where
  "validate_relation_accounting m =
     (let d = pc_dataset m;
          expected = set (included_relations d @ excluded_relations d @ structured_only_relations d)
      in if set (bt_keys (pc_relation_accounting m)) \<noteq> expected
         then Inl (Invalid ''relation accounting coverage'')
         else rbind (try_fold (validate_accounting_step (included_relations d)) 0
                       (pc_relation_accounting m)) (\<lambda>selected_total.
           if selected_total \<noteq> pc_occurrence_count m
           then Inl (Invalid ''relation accounting total'') else Inr ()))"

definition prepared_object_paths :: "prepared_corpus_manifest \<Rightarrow> safe_path list" where
  "prepared_object_paths m =
     map dobj_path (pc_documents m) @ map (\<lambda>ob. oe_path (oobj_object ob)) (pc_occurrences m)"

definition prepared_manifest_validate ::
    "externals \<Rightarrow> prepared_corpus_manifest \<Rightarrow> pipeline_error + unit" where
  "prepared_manifest_validate X m =
     rbind (require_safe_u64 (pc_document_count m)) (\<lambda>_.
     rbind (require_safe_u64 (pc_occurrence_count m)) (\<lambda>_.
     if pc_schema_version m \<noteq> PREPARED_CORPUS_SCHEMA
     then Inl (Invalid ''prepared manifest schema'')
     else
     rbind (dataset_identity_validate (pc_dataset m)) (\<lambda>_.
     rbind (component_ref_validate (pc_projection_policy m)) (\<lambda>_.
     rbind (component_ref_validate (pc_document_schema m)) (\<lambda>_.
     rbind (component_ref_validate (pc_occurrence_schema m)) (\<lambda>_.
     rbind (component_ref_validate (pc_preparation_implementation m)) (\<lambda>_.
     rbind (validate_objects (pc_documents m) (pc_document_count m)) (\<lambda>_.
     rbind (validate_occurrence_objects (pc_occurrences m) (pc_occurrence_count m)
              (included_relations (pc_dataset m))) (\<lambda>_.
     if \<not> distinct (prepared_object_paths m)
     then Inl (Invalid ''duplicate prepared object path'')
     else
     rbind (validate_relation_accounting m) (\<lambda>_.
     rbind (component_digest X (json_prepared_manifest m)) (\<lambda>d.
     if pc_component_sha256 m \<noteq> d then Inl (Invalid ''prepared component digest'')
     else Inr ())))))))))))"

definition prepared_manifest_seal ::
    "externals \<Rightarrow> prepared_corpus_manifest \<Rightarrow> pipeline_error + prepared_corpus_manifest" where
  "prepared_manifest_seal X m =
     rbind (component_digest X (json_prepared_manifest m)) (\<lambda>d.
       let m' = m\<lparr>pc_component_sha256 := d\<rparr>
       in rbind (prepared_manifest_validate X m') (\<lambda>_. Inr m'))"

subsection \<open>What the object checks promise\<close>

fun object_chain :: "string option \<Rightarrow> prepared_document_object list \<Rightarrow> bool" where
  "object_chain l [] \<longleftrightarrow> True"
| "object_chain l (ob # obs) \<longleftrightarrow>
     (case l of None \<Rightarrow> True | Some x \<Rightarrow> x < dobj_first_document_id ob) \<and>
     dobj_first_document_id ob \<le> dobj_last_document_id ob \<and>
     object_chain (Some (dobj_last_document_id ob)) obs"

definition document_object_ok :: "nat \<Rightarrow> prepared_document_object \<Rightarrow> bool" where
  "document_object_ok index ob \<longleftrightarrow>
     unat (dobj_ordinal ob) = index \<and> dobj_rows ob \<noteq> 0 \<and> dobj_rows ob \<le> MAX_SAFE_JSON_INTEGER \<and>
     oe_bytes (dobj_object ob) \<noteq> 0 \<and> oe_bytes (dobj_object ob) \<le> MAX_SAFE_JSON_INTEGER \<and>
     dobj_first_document_id ob \<noteq> []"

definition object_row_total :: "prepared_document_object list \<Rightarrow> nat" where
  "object_row_total obs = sum_list (map (\<lambda>ob. unat (dobj_rows ob)) obs)"

lemma validate_object_step_ok:
  "validate_object_step (rows, l, paths) (k, ob) = Inr (rows', l', paths') \<longleftrightarrow>
     document_object_ok k ob \<and> object_chain l [ob] \<and> dobj_path ob \<notin> paths \<and>
     unat rows' = unat rows + unat (dobj_rows ob) \<and>
     l' = Some (dobj_last_document_id ob) \<and> paths' = insert (dobj_path ob) paths"
  by (auto simp: result_simps word_facts document_object_ok_def linorder_not_less
      split: option.splits)

lemma validate_object_fold_ok:
  "try_fold validate_object_step (rows, l, paths) (enumerate k obs) = Inr (rows', l', paths') \<longleftrightarrow>
     list_all (\<lambda>(i, ob). document_object_ok i ob) (enumerate k obs) \<and> object_chain l obs \<and>
     distinct (map dobj_path obs) \<and> paths \<inter> set (map dobj_path obs) = {} \<and>
     unat rows' = unat rows + object_row_total obs \<and>
     l' = (if obs = [] then l else Some (dobj_last_document_id (last obs))) \<and>
     paths' = paths \<union> set (map dobj_path obs)"
proof (induction obs arbitrary: rows l paths k)
  case Nil
  show ?case by (auto simp: object_row_total_def word_unat_eq_iff)
next
  case (Cons ob obs)
  show ?case (is "?lhs \<longleftrightarrow> ?rhs")
  proof
    assume ?lhs
    then obtain r where "validate_object_step (rows, l, paths) (k, ob) =
        Inr (r, Some (dobj_last_document_id ob), insert (dobj_path ob) paths)"
      and "try_fold validate_object_step (r, Some (dobj_last_document_id ob),
        insert (dobj_path ob) paths) (enumerate (Suc k) obs) = Inr (rows', l', paths')"
      by (auto simp: result_simps simp del: validate_object_step.simps)
        (metis validate_object_step_ok prod_cases3)
    then show ?rhs
      unfolding validate_object_step_ok Cons.IH by (auto simp: object_row_total_def)
  next
    assume r: ?rhs
    then obtain w :: u64 where "unat w = unat rows + unat (dobj_rows ob)"
      using exists_word_unat [of "unat rows + unat (dobj_rows ob)" rows'] by (auto simp: object_row_total_def)
    with r have "validate_object_step (rows, l, paths) (k, ob) =
        Inr (w, Some (dobj_last_document_id ob), insert (dobj_path ob) paths)"
      and "try_fold validate_object_step (w, Some (dobj_last_document_id ob),
        insert (dobj_path ob) paths) (enumerate (Suc k) obs) = Inr (rows', l', paths')"
      unfolding validate_object_step_ok Cons.IH by (auto simp: object_row_total_def)
    then show ?lhs by simp
  qed
qed

text \<open>
  An accepted object list is numbered from 0, every object is non-empty, the identifier
  ranges ascend without overlap, the paths differ and the row counts add up to the expected
  total without overflow; nothing else is rejected.
\<close>

theorem validate_objects_ok:
  "validate_objects obs n = Inr u \<longleftrightarrow>
     list_all (\<lambda>(i, ob). document_object_ok i ob) (enumerate 0 obs) \<and> object_chain None obs \<and>
     distinct (map dobj_path obs) \<and> object_row_total obs = unat n"
proof -
  have ne: "(0 < object_row_total obs) = (obs \<noteq> [])"
    if "list_all (\<lambda>(i, ob). document_object_ok i ob) (enumerate 0 obs)"
    using that by (cases obs) (auto simp: object_row_total_def document_object_ok_def unat_gt_0)
  have gt: "(0 < n) = (0 < unat n)" by (simp add: word_less_nat_alt)
  show ?thesis
    using ne unfolding validate_objects_def gt
    by (auto simp: result_simps validate_object_fold_ok split: prod.splits if_splits)
qed

subsection \<open>What relation accounting promises\<close>

definition accounting_ok :: "string list \<Rightarrow> string \<Rightarrow> relation_accounting \<Rightarrow> bool" where
  "accounting_ok included relation a \<longleftrightarrow>
     (\<forall>v \<in> {ra_source_rows a, ra_searchable_occurrences a, ra_selected_occurrences a,
             ra_excluded_rows a}. v \<le> MAX_SAFE_JSON_INTEGER) \<and>
     (if relation \<in> set included
      then ra_selected_occurrences a = ra_searchable_occurrences a \<and>
        unat (ra_source_rows a) = unat (ra_searchable_occurrences a) + unat (ra_excluded_rows a)
      else ra_searchable_occurrences a = 0 \<and> ra_selected_occurrences a = 0 \<and>
        ra_excluded_rows a = ra_source_rows a)"

definition selected_sum :: "string list \<Rightarrow> (string, relation_accounting) btree \<Rightarrow> nat" where
  "selected_sum included m =
     sum_list (map (\<lambda>(r, a). if r \<in> set included then unat (ra_selected_occurrences a) else 0) m)"

lemma validate_accounting_step_ok:
  "validate_accounting_step included t (r, a) = Inr t' \<longleftrightarrow>
     accounting_ok included r a \<and>
     unat t' = unat t + (if r \<in> set included then unat (ra_selected_occurrences a) else 0)"
proof -
  have le: "b \<le> a" if "unat a = unat b" for a b :: u64
    using that by (simp add: word_le_nat_alt)
  have le_sum: "b \<le> a" if "unat a = unat c + unat b" for a b c :: u64
    using that by (simp add: word_le_nat_alt)
  show ?thesis
    by (auto simp: result_simps word_facts accounting_ok_def linorder_not_less word_unat_eq_iff
        intro: le le_sum)
qed

lemma validate_accounting_fold_ok:
  "try_fold (validate_accounting_step included) t m = Inr t' \<longleftrightarrow>
     (\<forall>(r, a) \<in> set m. accounting_ok included r a) \<and> unat t' = unat t + selected_sum included m"
proof (induction m arbitrary: t)
  case Nil
  show ?case by (auto simp: selected_sum_def word_unat_eq_iff)
next
  case (Cons x m)
  obtain r a where x: "x = (r, a)" by (cases x)
  let ?k = "if r \<in> set included then unat (ra_selected_occurrences a) else 0"
  have "(\<exists>w. unat (w :: u64) = unat t + ?k \<and> unat t' = unat w + selected_sum included m) \<longleftrightarrow>
      unat t' = unat t + ?k + selected_sum included m"
    using exists_word_unat [of "unat t + ?k" t'] by (auto 0 3 intro: exI)
  then show ?case
    by (auto simp: x rbind_eq_Inr validate_accounting_step_ok Cons.IH selected_sum_def
        simp del: validate_accounting_step.simps)
qed

text \<open>
  Relation accounting is accepted exactly when it names the three relation scopes and
  nothing else, every included relation selects all its searchable occurrences and accounts
  for each source row once, every other relation contributes none, and the selected counts of
  the included relations add up to the manifest's occurrence count without overflow.
\<close>

theorem validate_relation_accounting_ok:
  "validate_relation_accounting m = Inr u \<longleftrightarrow>
     set (bt_keys (pc_relation_accounting m)) =
       set (included_relations (pc_dataset m)) \<union> set (excluded_relations (pc_dataset m))
         \<union> set (structured_only_relations (pc_dataset m)) \<and>
     list_all (\<lambda>(r, a). accounting_ok (included_relations (pc_dataset m)) r a)
       (pc_relation_accounting m) \<and>
     selected_sum (included_relations (pc_dataset m)) (pc_relation_accounting m)
       = unat (pc_occurrence_count m)"
  by (auto simp: validate_relation_accounting_def Let_def result_simps validate_accounting_fold_ok
      word_unat_eq_iff Un_assoc list_all_iff)

subsection \<open>Sealing the manifest\<close>

definition prepared_manifest_body :: "externals \<Rightarrow> prepared_corpus_manifest \<Rightarrow> bool" where
  "prepared_manifest_body X m \<longleftrightarrow>
     pc_document_count m \<le> MAX_SAFE_JSON_INTEGER \<and>
     pc_occurrence_count m \<le> MAX_SAFE_JSON_INTEGER \<and>
     pc_schema_version m = PREPARED_CORPUS_SCHEMA \<and>
     dataset_identity_validate (pc_dataset m) = Inr () \<and>
     component_ref_validate (pc_projection_policy m) = Inr () \<and>
     component_ref_validate (pc_document_schema m) = Inr () \<and>
     component_ref_validate (pc_occurrence_schema m) = Inr () \<and>
     component_ref_validate (pc_preparation_implementation m) = Inr () \<and>
     validate_objects (pc_documents m) (pc_document_count m) = Inr () \<and>
     validate_occurrence_objects (pc_occurrences m) (pc_occurrence_count m)
       (included_relations (pc_dataset m)) = Inr () \<and>
     distinct (prepared_object_paths m) \<and>
     validate_relation_accounting m = Inr ()"

lemma prepared_manifest_validate_iff:
  "prepared_manifest_validate X m = Inr u \<longleftrightarrow>
     prepared_manifest_body X m \<and>
     component_digest X (json_prepared_manifest m) = Inr (pc_component_sha256 m)"
  unfolding prepared_manifest_validate_def prepared_manifest_body_def
  by (simp add: rbind_eq_Inr if_Inl_eq_Inr require_safe_u64_ok)

interpretation prepared_seal: sealed_component pc_component_sha256
  "\<lambda>d m :: prepared_corpus_manifest. m\<lparr>pc_component_sha256 := d\<rparr>" json_prepared_manifest prepared_manifest_body
  prepared_manifest_validate prepared_manifest_seal
proof
  fix d X u and m :: prepared_corpus_manifest
  show "pc_component_sha256 (m\<lparr>pc_component_sha256 := d\<rparr>) = d" by simp
  show "m\<lparr>pc_component_sha256 := pc_component_sha256 m\<rparr> = m" by simp
  show "without_self_digest (json_prepared_manifest (m\<lparr>pc_component_sha256 := d\<rparr>)) =
      without_self_digest (json_prepared_manifest m)"
    by (simp add: json_prepared_manifest_def without_self_digest_def)
  show "prepared_manifest_body X (m\<lparr>pc_component_sha256 := d\<rparr>) = prepared_manifest_body X m"
    unfolding prepared_manifest_body_def prepared_object_paths_def
      validate_relation_accounting_def Let_def
    by (cases m) (simp only: prepared_corpus_manifest.simps)
  show "prepared_manifest_validate X m = Inr u \<longleftrightarrow> prepared_manifest_body X m \<and>
      component_digest X (json_prepared_manifest m) = Inr (pc_component_sha256 m)"
    by (rule prepared_manifest_validate_iff)
  show "prepared_manifest_seal X m = rbind (component_digest X (json_prepared_manifest m))
      (\<lambda>d. rbind (prepared_manifest_validate X (m\<lparr>pc_component_sha256 := d\<rparr>))
        (\<lambda>_. Inr (m\<lparr>pc_component_sha256 := d\<rparr>)))"
    by (simp add: prepared_manifest_seal_def Let_def)
qed

subsection \<open>Rows against their manifest\<close>

definition check_row_order ::
    "externals \<Rightarrow> prepared_document_row list \<Rightarrow> nat \<times> prepared_document_row \<Rightarrow>
     pipeline_error + unit" where
  "check_row_order X rows ir =
     (case ir of (ordinal, row) \<Rightarrow>
       rbind (prepared_document_row_validate X row) (\<lambda>_.
         if unat (pd_ordinal row) \<noteq> ordinal
            \<or> (ordinal > 0 \<and> pd_document_id (rows ! (ordinal - 1)) \<ge> pd_document_id row)
         then Inl (Invalid ''prepared document order'') else Inr ()))"

definition object_rows_at ::
    "pipeline_error \<Rightarrow> 'r list \<Rightarrow> nat \<Rightarrow> u64 \<Rightarrow> pipeline_error + nat \<times> 'r list" where
  "object_rows_at e rows offset count =
     rbind (ok_or e (usize_checked_add offset (unat count))) (\<lambda>stop.
     rbind (ok_or e (get_range rows offset stop)) (\<lambda>object_rows. Inr (stop, object_rows)))"

definition check_object_rows ::
    "externals \<Rightarrow> prepared_document_row list \<Rightarrow> nat \<Rightarrow> prepared_document_object \<Rightarrow>
     pipeline_error + nat" where
  "check_object_rows X rows offset ob =
     rbind (object_rows_at (Invalid ''document object rows'') rows offset (dobj_rows ob))
       (\<lambda>(stop, object_rows).
     if object_rows = [] then Inl (Invalid ''document object rows'')
     else if pd_document_id (hd object_rows) \<noteq> dobj_first_document_id ob
          \<or> pd_document_id (last object_rows) \<noteq> dobj_last_document_id ob
     then Inl (Invalid ''document object metadata'')
     else rbind (canonical_digest X (JArr (map json_document_row object_rows))) (\<lambda>order.
       if order \<noteq> oe_logical_order_sha256 (dobj_object ob)
          \<or> embedding_input_order_digest X object_rows \<noteq> dobj_embedding_input_order_sha256 ob
       then Inl (Invalid ''document object metadata'') else Inr stop))"

definition validate_prepared_documents ::
    "externals \<Rightarrow> prepared_corpus_manifest \<Rightarrow> prepared_document_row list \<Rightarrow>
     pipeline_error + unit" where
  "validate_prepared_documents X m rows =
     (if try_from_nat (length rows) \<noteq> Some (pc_document_count m)
      then Inl (Invalid ''prepared document count'')
      else
      rbind (try_all (check_row_order X rows) (enumerate 0 rows)) (\<lambda>_.
      if document_order_digest X (map pd_document_id rows) \<noteq> pc_document_order_sha256 m
         \<or> embedding_input_order_digest X rows \<noteq> pc_embedding_input_order_sha256 m
      then Inl (Invalid ''prepared document order digest'')
      else
      rbind (try_fold (check_object_rows X rows) 0 (pc_documents m)) (\<lambda>offset.
      if offset \<noteq> length rows then Inl (Invalid ''document object coverage'') else Inr ())))"

type_synonym occurrence_tally = "(string, u64) btree \<times> string set"

definition check_occurrence ::
    "externals \<Rightarrow> prepared_corpus_manifest \<Rightarrow> occurrence_tally \<Rightarrow> prepared_occurrence_row \<Rightarrow>
     pipeline_error + occurrence_tally" where
  "check_occurrence X m tally row =
     (case tally of (counts, occurrence_ids) \<Rightarrow>
       rbind (prepared_occurrence_row_validate X row) (\<lambda>_.
       if po_snapshot_sha256 row \<noteq> cr_sha256 (source_snapshot (pc_dataset m))
          \<or> po_mapping_sha256 row \<noteq> cr_sha256 (ds_mapping (pc_dataset m))
          \<or> po_relation row \<notin> set (included_relations (pc_dataset m))
       then Inl (Invalid ''prepared occurrence source binding'')
       else if po_occurrence_id row \<in> occurrence_ids
       then Inl (Invalid ''prepared occurrence order'')
       else Inr
         (bt_insert (po_document_id row)
            ((case bt_get counts (po_document_id row) of None \<Rightarrow> 0 | Some c \<Rightarrow> c) + 1) counts,
          insert (po_occurrence_id row) occurrence_ids)))"

text \<open>\<open>documents.iter().any(...)\<close> with the counts removed as it goes; stops at a mismatch.\<close>

fun counts_mismatch ::
    "prepared_document_row list \<Rightarrow> (string, u64) btree \<Rightarrow> bool \<times> (string, u64) btree" where
  "counts_mismatch [] counts = (False, counts)"
| "counts_mismatch (d # ds) counts =
     (if bt_get counts (pd_document_id d) \<noteq> Some (pd_occurrence_count d)
      then (True, bt_remove (pd_document_id d) counts)
      else counts_mismatch ds (bt_remove (pd_document_id d) counts))"

definition check_occurrence_rows ::
    "externals \<Rightarrow> prepared_occurrence_row list \<Rightarrow> nat \<Rightarrow> prepared_occurrence_object \<Rightarrow>
     pipeline_error + nat" where
  "check_occurrence_rows X rows offset ob =
     rbind (object_rows_at (Invalid ''occurrence object rows'') rows offset
             (oe_rows (oobj_object ob))) (\<lambda>(stop, object_rows).
     if list_ex (\<lambda>row. po_relation row \<noteq> oobj_relation ob) object_rows
        \<or> \<not> successively (\<lambda>a b. po_source_row_ordinal a < po_source_row_ordinal b) object_rows
     then Inl (Invalid ''occurrence object metadata'')
     else rbind (canonical_digest X (JArr (map json_occurrence_row object_rows))) (\<lambda>order.
       if order \<noteq> oe_logical_order_sha256 (oobj_object ob)
       then Inl (Invalid ''occurrence object metadata'') else Inr stop))"

definition validate_prepared_occurrences ::
    "externals \<Rightarrow> prepared_corpus_manifest \<Rightarrow> prepared_document_row list \<Rightarrow>
     prepared_occurrence_row list \<Rightarrow> pipeline_error + unit" where
  "validate_prepared_occurrences X m documents occurrences =
     (if try_from_nat (length occurrences) \<noteq> Some (pc_occurrence_count m)
      then Inl (Invalid ''prepared occurrence count'')
      else
      rbind (try_fold (check_occurrence X m) ([], {}) occurrences) (\<lambda>(counts, _).
      let (mismatch, remaining) = counts_mismatch documents counts in
      if mismatch \<or> remaining \<noteq> [] then Inl (Invalid ''document occurrence closure'')
      else
      rbind (try_fold (check_occurrence_rows X occurrences) 0 (pc_occurrences m)) (\<lambda>offset.
      if offset \<noteq> length occurrences then Inl (Invalid ''occurrence object coverage'')
      else Inr ())))"

subsection \<open>What accepted rows promise\<close>

lemma object_rows_at_ok:
  assumes "length rows < 2 ^ 64"
  shows "object_rows_at e rows offset count = Inr (stop, object_rows) \<longleftrightarrow>
    stop = offset + unat count \<and> offset + unat count \<le> length rows \<and>
    object_rows = take (unat count) (drop offset rows)"
  using assms by (auto simp: object_rows_at_def result_simps word_facts get_range_Some)

definition document_slice_ok ::
    "externals \<Rightarrow> prepared_document_object \<Rightarrow> prepared_document_row list \<Rightarrow> bool" where
  "document_slice_ok X ob rows \<longleftrightarrow> rows \<noteq> [] \<and>
     pd_document_id (hd rows) = dobj_first_document_id ob \<and>
     pd_document_id (last rows) = dobj_last_document_id ob \<and>
     canonical_digest X (JArr (map json_document_row rows))
       = Inr (oe_logical_order_sha256 (dobj_object ob)) \<and>
     embedding_input_order_digest X rows = dobj_embedding_input_order_sha256 ob"

lemma check_object_rows_ok:
  assumes "length rows < 2 ^ 64"
  shows "check_object_rows X rows offset ob = Inr r \<longleftrightarrow>
    r = offset + unat (dobj_rows ob) \<and> offset + unat (dobj_rows ob) \<le> length rows \<and>
    document_slice_ok X ob (take (unat (dobj_rows ob)) (drop offset rows))"
  unfolding check_object_rows_def document_slice_ok_def
  by (auto simp: rbind_eq_Inr object_rows_at_ok [OF assms])

definition occurrence_slice_ok ::
    "externals \<Rightarrow> prepared_occurrence_object \<Rightarrow> prepared_occurrence_row list \<Rightarrow> bool" where
  "occurrence_slice_ok X ob rows \<longleftrightarrow>
     list_all (\<lambda>row. po_relation row = oobj_relation ob) rows \<and>
     sorted_wrt (\<lambda>a b. po_source_row_ordinal a < po_source_row_ordinal b) rows \<and>
     canonical_digest X (JArr (map json_occurrence_row rows))
       = Inr (oe_logical_order_sha256 (oobj_object ob))"

lemma check_occurrence_rows_ok:
  assumes "length rows < 2 ^ 64"
  shows "check_occurrence_rows X rows offset ob = Inr r \<longleftrightarrow>
    r = offset + unat (oe_rows (oobj_object ob)) \<and>
    offset + unat (oe_rows (oobj_object ob)) \<le> length rows \<and>
    occurrence_slice_ok X ob (take (unat (oe_rows (oobj_object ob))) (drop offset rows))"
proof -
  have s: "successively (\<lambda>a b. po_source_row_ordinal a < po_source_row_ordinal b) cs \<longleftrightarrow>
      sorted_wrt (\<lambda>a b. po_source_row_ordinal a < po_source_row_ordinal b) cs"
    for cs :: "prepared_occurrence_row list"
    by (rule successively_conv_sorted_wrt) (auto intro: transpI)
  show ?thesis
    unfolding check_occurrence_rows_def occurrence_slice_ok_def
    by (auto simp: rbind_eq_Inr object_rows_at_ok [OF assms] s list_ex_iff list_all_iff)
qed

lemma try_all_enumerate:
  "try_all f (enumerate 0 rows) = Inr u \<longleftrightarrow> (\<forall>i < length rows. f (i, rows ! i) = Inr ())"
  by (auto simp: try_all_ok in_set_enumerate_eq)

lemma all_nat_split: "(\<forall>i. 0 < i \<and> P i \<longrightarrow> Q i) \<longleftrightarrow> (\<forall>i. P (Suc i) \<longrightarrow> Q (Suc i))"
proof -
  have "Q i" if "\<forall>i. P (Suc i) \<longrightarrow> Q (Suc i)" and "0 < i" and "P i" for i
    using that by (cases i) simp_all
  then show ?thesis by blast
qed

lemma ascending_nth:
  "sorted_wrt (<) (xs :: 'a::order list) \<longleftrightarrow> (\<forall>i. 0 < i \<and> i < length xs \<longrightarrow> xs ! (i - 1) < xs ! i)"
proof -
  have "sorted_wrt (<) xs \<longleftrightarrow> (\<forall>i. Suc i < length xs \<longrightarrow> xs ! i < xs ! Suc i)"
    by (rule sorted_wrt_iff_nth_Suc_transp) (auto intro: transpI)
  also have "\<dots> \<longleftrightarrow> (\<forall>i. 0 < i \<and> i < length xs \<longrightarrow> xs ! (i - 1) < xs ! i)"
    by (subst all_nat_split) simp
  finally show ?thesis .
qed

lemma all_below_conj:
  "(\<forall>i < n. A i \<and> B i \<and> (0 < i \<longrightarrow> C i)) \<longleftrightarrow>
     (\<forall>i < n. A i) \<and> (\<forall>i < n. B i) \<and> (\<forall>i :: nat. 0 < i \<and> i < n \<longrightarrow> C i)"
  by auto

lemma check_row_order_one:
  "check_row_order X rows (i, r) = Inr () \<longleftrightarrow>
     prepared_document_row_validate X r = Inr () \<and> unat (pd_ordinal r) = i \<and>
     (0 < i \<longrightarrow> pd_document_id (rows ! (i - 1)) < pd_document_id r)"
  unfolding check_row_order_def prod.case rbind_eq_Inr
  by (simp only: if_Inl_eq_Inr linorder_not_less not_le de_Morgan_disj de_Morgan_conj not_not simp_thms) auto

lemma row_order_ok:
  "try_all (check_row_order X rows) (enumerate 0 rows) = Inr u \<longleftrightarrow>
     list_all (\<lambda>r. prepared_document_row_validate X r = Inr ()) rows \<and>
     map (\<lambda>r. unat (pd_ordinal r)) rows = [0..<length rows] \<and>
     sorted_wrt (<) (map pd_document_id rows)"
proof -
  have "try_all (check_row_order X rows) (enumerate 0 rows) = Inr u \<longleftrightarrow>
      (\<forall>i < length rows. prepared_document_row_validate X (rows ! i) = Inr ()) \<and>
      (\<forall>i < length rows. unat (pd_ordinal (rows ! i)) = i) \<and>
      (\<forall>i. 0 < i \<and> i < length rows \<longrightarrow>
        pd_document_id (rows ! (i - 1)) < pd_document_id (rows ! i))"
    unfolding try_all_enumerate check_row_order_one by (rule all_below_conj)
  moreover have "map (\<lambda>r. unat (pd_ordinal r)) rows = [0..<length rows] \<longleftrightarrow>
      (\<forall>i < length rows. unat (pd_ordinal (rows ! i)) = i)"
    unfolding list_eq_iff_nth_eq by simp
  moreover have "sorted_wrt (<) (map pd_document_id rows) \<longleftrightarrow>
      (\<forall>i. 0 < i \<and> i < length rows \<longrightarrow>
        pd_document_id (rows ! (i - 1)) < pd_document_id (rows ! i))"
    by (auto simp: ascending_nth)
  ultimately show ?thesis by (simp add: list_all_length)
qed

text \<open>
  Rows are accepted against a manifest exactly when every row is valid, the rows are
  numbered 0, 1, 2, ... in strictly ascending identifier order, the order digests match, and
  cutting the rows at the objects' row counts uses every row once and gives each object a
  non-empty slice with the first and last identifiers and digests it declares.
\<close>

theorem validate_prepared_documents_ok:
  "validate_prepared_documents X m rows = Inr u \<longleftrightarrow>
     length rows = unat (pc_document_count m) \<and>
     list_all (\<lambda>r. prepared_document_row_validate X r = Inr ()) rows \<and>
     map (\<lambda>r. unat (pd_ordinal r)) rows = [0..<length rows] \<and>
     sorted_wrt (<) (map pd_document_id rows) \<and>
     document_order_digest X (map pd_document_id rows) = pc_document_order_sha256 m \<and>
     embedding_input_order_digest X rows = pc_embedding_input_order_sha256 m \<and>
     concat (slices (map (\<lambda>ob. unat (dobj_rows ob)) (pc_documents m)) rows) = rows \<and>
     sum_list (map (\<lambda>ob. unat (dobj_rows ob)) (pc_documents m)) = length rows \<and>
     list_all2 (document_slice_ok X) (pc_documents m)
       (slices (map (\<lambda>ob. unat (dobj_rows ob)) (pc_documents m)) rows)"
proof (cases "length rows = unat (pc_document_count m)")
  case True
  then have small: "length rows < 2 ^ 64" using unat_bound [of "pc_document_count m"] by simp
  let ?n = "\<lambda>ob. unat (dobj_rows ob)"
  have cut: "try_fold (check_object_rows X rows) 0 obs = Inr r \<longleftrightarrow>
      r = sum_list (map ?n obs) \<and> r \<le> length rows \<and>
      list_all2 (document_slice_ok X) obs (slices (map ?n obs) rows)" for obs r
    using slice_fold_ok [where step = "check_object_rows X rows" and n = ?n and rows = rows
        and ok = "document_slice_ok X" and off = 0, OF check_object_rows_ok [OF small]] by simp
  have "try_from_nat (length rows) = Some (pc_document_count m)"
    using True by (simp add: try_from_nat_unat)
  then show ?thesis
    using True concat_slices [of "map ?n (pc_documents m)" rows]
    by (auto simp: validate_prepared_documents_def rbind_eq_Inr if_Inl_eq_Inr cut row_order_ok)
qed (auto simp: validate_prepared_documents_def try_from_nat_unat)

subsection \<open>What accepted occurrences promise\<close>

definition occurrence_bound ::
    "externals \<Rightarrow> prepared_corpus_manifest \<Rightarrow> prepared_occurrence_row \<Rightarrow> bool" where
  "occurrence_bound X m row \<longleftrightarrow>
     prepared_occurrence_row_validate X row = Inr () \<and>
     po_snapshot_sha256 row = cr_sha256 (source_snapshot (pc_dataset m)) \<and>
     po_mapping_sha256 row = cr_sha256 (ds_mapping (pc_dataset m)) \<and>
     po_relation row \<in> set (included_relations (pc_dataset m))"

definition occurrences_of :: "prepared_occurrence_row list \<Rightarrow> string \<Rightarrow> nat" where
  "occurrences_of rows k = count_list (map po_document_id rows) k"

text \<open>The tally holds, for each identifier seen, the number of its rows.\<close>

definition tally_of :: "prepared_occurrence_row list \<Rightarrow> (string, u64) btree \<Rightarrow> bool" where
  "tally_of rows counts \<longleftrightarrow> bt_ok counts \<and>
     (\<forall>k. bt_get counts k =
        (if occurrences_of rows k = 0 then None else Some (of_nat (occurrences_of rows k))))"

lemma check_occurrence_ok:
  "check_occurrence X m (counts, seen) row = Inr t \<longleftrightarrow>
     occurrence_bound X m row \<and> po_occurrence_id row \<notin> seen \<and>
     t = (bt_insert (po_document_id row)
            ((case bt_get counts (po_document_id row) of None \<Rightarrow> 0 | Some c \<Rightarrow> c) + 1) counts,
          insert (po_occurrence_id row) seen)"
  by (auto simp: check_occurrence_def occurrence_bound_def rbind_eq_Inr)

lemma tally_of_step:
  assumes "tally_of rows counts"
  shows "tally_of (rows @ [row]) (bt_insert (po_document_id row)
    ((case bt_get counts (po_document_id row) of None \<Rightarrow> 0 | Some c \<Rightarrow> c) + 1) counts)"
  using assms by (auto simp: tally_of_def bt_insert_ok bt_insert_get occurrences_of_def)

lemma check_occurrence_fold:
  "tally_of rows counts \<Longrightarrow>
   (\<exists>t. try_fold (check_occurrence X m) (counts, seen) rest = Inr t) \<longleftrightarrow>
     list_all (occurrence_bound X m) rest \<and> distinct (map po_occurrence_id rest) \<and>
     seen \<inter> set (map po_occurrence_id rest) = {}"
  "tally_of rows counts \<Longrightarrow> try_fold (check_occurrence X m) (counts, seen) rest = Inr (c', s') \<Longrightarrow>
     tally_of (rows @ rest) c'"
proof (induction rest arbitrary: rows counts seen)
  case (Cons row rest)
  {
    case 1
    from Cons.IH(1) [OF tally_of_step [OF 1, of row]] show ?case
      by (auto simp: rbind_eq_Inr check_occurrence_ok)
  next
    case 2
    from Cons.IH(2) [OF tally_of_step [OF 2(1), of row]] 2(2) show ?case
      by (auto simp: rbind_eq_Inr check_occurrence_ok)
  }
qed auto

lemma bt_get_empty: "bt_get counts = Map.empty \<longleftrightarrow> counts = []"
  by (cases counts) (auto simp: bt_get_def fun_eq_iff)

lemma map_remove_upd:
  "f k = Some v \<and> f(k := None) = m \<longleftrightarrow> m k = None \<and> f = m(k \<mapsto> v)"
  by (auto simp: fun_eq_iff)

lemma counts_match:
  "bt_ok counts \<Longrightarrow> counts_mismatch ds counts = (False, []) \<longleftrightarrow>
     distinct (map pd_document_id ds) \<and>
     bt_get counts = map_of (map (\<lambda>d. (pd_document_id d, pd_occurrence_count d)) ds)"
proof (induction ds arbitrary: counts)
  case Nil
  show ?case by (simp add: bt_get_empty)
next
  case (Cons d ds)
  let ?m = "map_of (map (\<lambda>d. (pd_document_id d, pd_occurrence_count d)) ds)"
  have dom: "?m (pd_document_id d) = None \<longleftrightarrow> pd_document_id d \<notin> set (map pd_document_id ds)"
    by (auto simp: map_of_eq_None_iff image_image)
  have upd: "bt_get counts (pd_document_id d) = Some (pd_occurrence_count d) \<and>
      (bt_get counts)(pd_document_id d := None) = ?m \<longleftrightarrow>
      ?m (pd_document_id d) = None \<and>
      bt_get counts = ?m(pd_document_id d \<mapsto> pd_occurrence_count d)"
    by (rule map_remove_upd)
  have "counts_mismatch (d # ds) counts = (False, []) \<longleftrightarrow>
      bt_get counts (pd_document_id d) = Some (pd_occurrence_count d) \<and>
      counts_mismatch ds (bt_remove (pd_document_id d) counts) = (False, [])"
    by simp
  also have "\<dots> \<longleftrightarrow> distinct (map pd_document_id ds) \<and> ?m (pd_document_id d) = None \<and>
      bt_get counts = ?m(pd_document_id d \<mapsto> pd_occurrence_count d)"
    unfolding Cons.IH [OF bt_remove_ok [OF Cons.prems]] bt_remove_get using upd by blast
  finally show ?case unfolding dom by (simp only: list.map distinct.simps map_of.simps fst_conv snd_conv) blast
qed

lemma closure_iff:
  assumes "distinct (map f ds)" and small: "\<And>k. n k < 2 ^ 64"
  shows "(\<lambda>k. if n k = 0 then None else Some (of_nat (n k) :: u64)) = map_of (map (\<lambda>d. (f d, c d)) ds) \<longleftrightarrow>
    f ` set ds = {k. n k \<noteq> 0} \<and> list_all (\<lambda>d. unat (c d) = n (f d)) ds"
    (is "?t = ?m \<longleftrightarrow> _")
proof -
  have dom: "dom ?m = f ` set ds"
    by (simp add: dom_map_of_conv_image_fst image_image)
  have at: "?m (f d) = Some (c d)" if "d \<in> set ds" for d
    using that assms(1) by (intro map_of_is_SomeI) (simp_all add: comp_def)
  have w: "unat (of_nat (n k) :: u64) = n k" for k
    using small [of k] by (simp add: unat_of_small)
  show ?thesis
  proof
    assume eq: "?t = ?m"
    have "{k. n k \<noteq> 0} = dom ?t" by (auto simp: dom_def)
    moreover have "unat (c d) = n (f d)" if "d \<in> set ds" for d
    proof -
      have "?t (f d) = Some (c d)" using fun_cong [OF eq, of "f d"] at [OF that] by (rule trans)
      then show ?thesis using w [of "f d"] by (simp split: if_splits)
    qed
    ultimately show "f ` set ds = {k. n k \<noteq> 0} \<and> list_all (\<lambda>d. unat (c d) = n (f d)) ds"
      using dom eq by (simp add: list_all_iff)
  next
    assume r: "f ` set ds = {k. n k \<noteq> 0} \<and> list_all (\<lambda>d. unat (c d) = n (f d)) ds"
    show "?t = ?m"
    proof
      fix k
      show "?t k = ?m k"
      proof (cases "n k = 0")
        case True
        with r dom have "k \<notin> dom ?m" by auto
        with True show ?thesis by (simp add: domIff)
      next
        case False
        with r obtain d where d: "d \<in> set ds" "k = f d" by auto
        with r have "c d = of_nat (n k)" by (auto simp: list_all_iff word_unat_eq_iff w)
        with at [OF d(1)] d(2) False show ?thesis by simp
      qed
    qed
  qed
qed

definition occurrence_closure :: "prepared_document_row list \<Rightarrow> prepared_occurrence_row list \<Rightarrow> bool" where
  "occurrence_closure ds occs \<longleftrightarrow>
     distinct (map pd_document_id ds) \<and>
     pd_document_id ` set ds = po_document_id ` set occs \<and>
     list_all (\<lambda>d. unat (pd_occurrence_count d) = occurrences_of occs (pd_document_id d)) ds"

lemma tally_closure:
  assumes tally: "tally_of occs counts" and small: "length occs < 2 ^ 64"
  shows "counts_mismatch ds counts = (False, []) \<longleftrightarrow> occurrence_closure ds occs"
proof -
  let ?n = "occurrences_of occs"
  have n: "?n k < 2 ^ 64" for k
    unfolding occurrences_of_def using count_le_length [of "map po_document_id occs" k] small by simp
  have ids: "{k. ?n k \<noteq> 0} = po_document_id ` set occs"
    by (auto simp: occurrences_of_def count_list_0_iff)
  have get: "bt_get counts = (\<lambda>k. if ?n k = 0 then None else Some (of_nat (?n k)))"
    using tally by (auto simp: tally_of_def)
  have ok: "bt_ok counts" using tally by (simp add: tally_of_def)
  show ?thesis
  proof (cases "distinct (map pd_document_id ds)")
    case True
    show ?thesis
      unfolding counts_match [OF ok] occurrence_closure_def get
        closure_iff [OF True n, where c = pd_occurrence_count] ids
      by (rule refl)
  qed (simp add: counts_match [OF ok] occurrence_closure_def)
qed

text \<open>
  Occurrences are accepted exactly when every row is valid and bound to the dataset's
  snapshot, mapping and included relations, the occurrence identifiers differ, the documents'
  occurrence counts are exactly the numbers of rows that name them and no row names another
  document, and the objects cut the rows into slices of one relation in ascending source order.
\<close>

theorem validate_prepared_occurrences_ok:
  "validate_prepared_occurrences X m docs occs = Inr u \<longleftrightarrow>
     length occs = unat (pc_occurrence_count m) \<and>
     list_all (occurrence_bound X m) occs \<and> distinct (map po_occurrence_id occs) \<and>
     occurrence_closure docs occs \<and>
     concat (slices (map (\<lambda>ob. unat (oe_rows (oobj_object ob))) (pc_occurrences m)) occs) = occs \<and>
     sum_list (map (\<lambda>ob. unat (oe_rows (oobj_object ob))) (pc_occurrences m)) = length occs \<and>
     list_all2 (occurrence_slice_ok X) (pc_occurrences m)
       (slices (map (\<lambda>ob. unat (oe_rows (oobj_object ob))) (pc_occurrences m)) occs)"
proof (cases "length occs = unat (pc_occurrence_count m)")
  case True
  then have small: "length occs < 2 ^ 64" using unat_bound [of "pc_occurrence_count m"] by simp
  let ?n = "\<lambda>ob. unat (oe_rows (oobj_object ob))"
  let ?tail = "\<lambda>counts. let (mismatch, remaining) = counts_mismatch docs counts in
      if mismatch \<or> remaining \<noteq> [] then Inl (Invalid ''document occurrence closure'')
      else rbind (try_fold (check_occurrence_rows X occs) 0 (pc_occurrences m)) (\<lambda>offset.
        if offset \<noteq> length occs then Inl (Invalid ''occurrence object coverage'') else Inr ())"
  have cut: "try_fold (check_occurrence_rows X occs) 0 obs = Inr r \<longleftrightarrow>
      r = sum_list (map ?n obs) \<and> r \<le> length occs \<and>
      list_all2 (occurrence_slice_ok X) obs (slices (map ?n obs) occs)" for obs r
    using slice_fold_ok [where step = "check_occurrence_rows X occs" and n = ?n and rows = occs
        and ok = "occurrence_slice_ok X" and off = 0, OF check_occurrence_rows_ok [OF small]] by simp
  have tail: "?tail counts = Inr u \<longleftrightarrow> counts_mismatch docs counts = (False, []) \<and>
      sum_list (map ?n (pc_occurrences m)) = length occs \<and>
      list_all2 (occurrence_slice_ok X) (pc_occurrences m) (slices (map ?n (pc_occurrences m)) occs)"
    for counts
    by (auto simp: rbind_eq_Inr cut split: prod.splits)
  have empty: "tally_of [] []" by (simp add: tally_of_def bt_ok_def bt_get_def occurrences_of_def)
  have fold: "(\<exists>t. try_fold (check_occurrence X m) ([], {}) occs = Inr t) \<longleftrightarrow>
      list_all (occurrence_bound X m) occs \<and> distinct (map po_occurrence_id occs)"
    using check_occurrence_fold(1) [OF empty, of X m "{}" occs] by simp
  have closed: "counts_mismatch docs counts = (False, []) \<longleftrightarrow> occurrence_closure docs occs"
    if "try_fold (check_occurrence X m) ([], {}) occs = Inr (counts, seen)" for counts seen
    using check_occurrence_fold(2) [OF empty that] tally_closure [OF _ small] by simp
  have eq: "validate_prepared_occurrences X m docs occs =
      rbind (try_fold (check_occurrence X m) ([], {}) occs) (\<lambda>(counts, _). ?tail counts)"
    using True by (simp add: validate_prepared_occurrences_def try_from_nat_unat)
  have inv: "validate_prepared_occurrences X m docs occs = Inr u \<longleftrightarrow>
      (\<exists>t. try_fold (check_occurrence X m) ([], {}) occs = Inr t \<and> ?tail (fst t) = Inr u)"
    unfolding eq rbind_eq_Inr case_prod_unfold ..
  have "validate_prepared_occurrences X m docs occs = Inr u \<longleftrightarrow>
      (\<exists>t. try_fold (check_occurrence X m) ([], {}) occs = Inr t) \<and> occurrence_closure docs occs \<and>
      sum_list (map ?n (pc_occurrences m)) = length occs \<and>
      list_all2 (occurrence_slice_ok X) (pc_occurrences m) (slices (map ?n (pc_occurrences m)) occs)"
    unfolding inv tail using closed by fastforce
  then show ?thesis
    unfolding fold using True concat_slices [of "map ?n (pc_occurrences m)" occs] by blast
qed (auto simp: validate_prepared_occurrences_def try_from_nat_unat)

end
