(* ===== verification/Plan.thy ===== *)
theory Plan
  imports Prepared
begin

text \<open>
  The embedding plan of \<open>crates/rag-pipeline/src/lib.rs\<close>: the profile reference, tasks and
  their input slices, the plan with its validation, its binding to a prepared corpus, the
  receipts of executed tasks and the result set that closes a plan. The lemmas show that an
  accepted plan partitions the document ordinals into tasks, and the tasks into slices that
  lie inside one prepared object each.
\<close>

subsection \<open>Data\<close>

record embedding_profile_ref =
  epr_component :: component_ref
  epr_model_artifact :: component_ref
  epr_tokenizer :: component_ref
  epr_maximum_input_tokens :: u32
  epr_pooling :: string
  epr_normalization :: string
  epr_dimensions :: u32
  epr_dtype :: string
  epr_document_format :: string

definition embedding_profile_ref_validate :: "embedding_profile_ref \<Rightarrow> pipeline_error + unit" where
  "embedding_profile_ref_validate e =
     rbind (component_ref_validate (epr_component e)) (\<lambda>_.
     rbind (component_ref_validate (epr_model_artifact e)) (\<lambda>_.
     rbind (component_ref_validate (epr_tokenizer e)) (\<lambda>_.
     if epr_maximum_input_tokens e = 0 \<or> epr_dimensions e = 0
     then Inl (Invalid ''embedding profile dimensions'')
     else if epr_normalization e \<notin> {''l2'', ''none''} \<or> epr_dtype e \<noteq> ''f32le''
     then Inl (Invalid ''embedding profile format'')
     else rbind (require_text (epr_pooling e)) (\<lambda>_. require_text (epr_document_format e)))))"

record embedding_input_slice =
  sl_path :: safe_path
  sl_object_sha256 :: digest
  sl_row_offset :: u64
  sl_rows :: u64
  sl_order_sha256 :: digest

record embedding_task =
  tk_task_id :: string
  tk_ordinal_start :: u64
  tk_ordinal_end :: u64
  tk_input_slices :: "embedding_input_slice list"
  tk_order_sha256 :: digest
  tk_result_path :: safe_path
  tk_receipt_path :: safe_path

definition task_row_count :: "embedding_task \<Rightarrow> u64" where
  "task_row_count t = saturating_sub (tk_ordinal_end t) (tk_ordinal_start t)"

record embedding_plan =
  pl_schema_version :: string
  pl_component_sha256 :: digest
  pl_prepared_corpus_sha256 :: digest
  pl_dataset :: dataset_identity
  pl_embedding_profile :: embedding_profile_ref
  pl_document_count :: u64
  pl_document_order_sha256 :: digest
  pl_tasks :: "embedding_task list"

definition EMBEDDING_PLAN_SCHEMA :: string where
  "EMBEDDING_PLAN_SCHEMA = ''livefire.rag.embedding-plan/1''"

text \<open>The component reference is flattened into the profile's object.\<close>

definition json_profile_ref :: "embedding_profile_ref \<Rightarrow> json" where
  "json_profile_ref e = JObj (component_ref_fields (epr_component e) @
     [(''model_artifact'', json_component_ref (epr_model_artifact e)),
      (''tokenizer'', json_component_ref (epr_tokenizer e)),
      (''maximum_input_tokens'', json_u32 (epr_maximum_input_tokens e)),
      (''pooling'', JStr (epr_pooling e)),
      (''normalization'', JStr (epr_normalization e)),
      (''dimensions'', json_u32 (epr_dimensions e)),
      (''dtype'', JStr (epr_dtype e)),
      (''document_format'', JStr (epr_document_format e))])"

definition json_input_slice :: "embedding_input_slice \<Rightarrow> json" where
  "json_input_slice s = JObj
     [(''path'', json_path (sl_path s)), (''object_sha256'', json_digest (sl_object_sha256 s)),
      (''row_offset'', json_u64 (sl_row_offset s)), (''rows'', json_u64 (sl_rows s)),
      (''embedding_input_order_sha256'', json_digest (sl_order_sha256 s))]"

definition json_embedding_task :: "embedding_task \<Rightarrow> json" where
  "json_embedding_task t = JObj
     [(''task_id'', JStr (tk_task_id t)), (''ordinal_start'', json_u64 (tk_ordinal_start t)),
      (''ordinal_end'', json_u64 (tk_ordinal_end t)),
      (''input_slices'', JArr (map json_input_slice (tk_input_slices t))),
      (''embedding_input_order_sha256'', json_digest (tk_order_sha256 t)),
      (''result_path'', json_path (tk_result_path t)),
      (''receipt_path'', json_path (tk_receipt_path t))]"

definition json_embedding_plan :: "embedding_plan \<Rightarrow> json" where
  "json_embedding_plan p = JObj
     [(''schema_version'', JStr (pl_schema_version p)),
      (''component_sha256'', json_digest (pl_component_sha256 p)),
      (''prepared_corpus_sha256'', json_digest (pl_prepared_corpus_sha256 p)),
      (''dataset'', json_dataset_identity (pl_dataset p)),
      (''embedding_profile'', json_profile_ref (pl_embedding_profile p)),
      (''document_count'', json_u64 (pl_document_count p)),
      (''document_order_sha256'', json_digest (pl_document_order_sha256 p)),
      (''tasks'', JArr (map json_embedding_task (pl_tasks p)))]"

subsection \<open>Task lists\<close>

definition add_slice_rows :: "u64 \<Rightarrow> embedding_input_slice \<Rightarrow> pipeline_error + u64" where
  "add_slice_rows acc s =
     rbind (require_safe_u64 (sl_row_offset s)) (\<lambda>_.
     rbind (require_safe_u64 (sl_rows s)) (\<lambda>_.
     if sl_rows s = 0 then Inl (Invalid ''empty task slice'')
     else ok_or (Invalid ''task slice total'') (checked_add acc (sl_rows s))))"

type_synonym task_state = "u64 \<times> string set \<times> safe_path set"

fun validate_task_step :: "task_state \<Rightarrow> embedding_task \<Rightarrow> pipeline_error + task_state" where
  "validate_task_step (next_ordinal, ids, paths) t =
     rbind (require_safe_u64 (tk_ordinal_start t)) (\<lambda>_.
     rbind (require_safe_u64 (tk_ordinal_end t)) (\<lambda>_.
     rbind (try_fold add_slice_rows 0 (tk_input_slices t)) (\<lambda>slice_rows.
     if tk_task_id t = []
        \<or> tk_ordinal_start t \<noteq> next_ordinal
        \<or> tk_ordinal_end t \<le> tk_ordinal_start t
        \<or> task_row_count t \<noteq> slice_rows
        \<or> tk_input_slices t = []
        \<or> tk_task_id t \<in> ids
        \<or> tk_result_path t \<in> paths
        \<or> tk_receipt_path t \<in> insert (tk_result_path t) paths
     then Inl (Invalid ''embedding task coverage'')
     else Inr (tk_ordinal_end t, insert (tk_task_id t) ids,
               insert (tk_receipt_path t) (insert (tk_result_path t) paths)))))"

definition validate_tasks :: "embedding_task list \<Rightarrow> u64 \<Rightarrow> pipeline_error + unit" where
  "validate_tasks tasks document_count =
     rbind (try_fold validate_task_step (0, {}, {}) tasks) (\<lambda>(next_ordinal, _, _).
     if next_ordinal \<noteq> document_count \<or> (document_count > 0) \<noteq> (tasks \<noteq> [])
     then Inl (Invalid ''embedding plan coverage'') else Inr ())"

subsection \<open>The plan\<close>

definition embedding_plan_validate :: "externals \<Rightarrow> embedding_plan \<Rightarrow> pipeline_error + unit" where
  "embedding_plan_validate X p =
     rbind (require_safe_u64 (pl_document_count p)) (\<lambda>_.
     if pl_schema_version p \<noteq> EMBEDDING_PLAN_SCHEMA then Inl (Invalid ''embedding plan schema'')
     else
     rbind (dataset_identity_validate (pl_dataset p)) (\<lambda>_.
     rbind (embedding_profile_ref_validate (pl_embedding_profile p)) (\<lambda>_.
     rbind (validate_tasks (pl_tasks p) (pl_document_count p)) (\<lambda>_.
     rbind (component_digest X (json_embedding_plan p)) (\<lambda>d.
     if pl_component_sha256 p \<noteq> d then Inl (Invalid ''embedding plan component digest'')
     else Inr ())))))"

definition embedding_plan_seal :: "externals \<Rightarrow> embedding_plan \<Rightarrow> pipeline_error + embedding_plan" where
  "embedding_plan_seal X p =
     rbind (component_digest X (json_embedding_plan p)) (\<lambda>d.
       let p' = p\<lparr>pl_component_sha256 := d\<rparr> in
       rbind (embedding_plan_validate X p') (\<lambda>_. Inr p'))"

definition plan_task :: "embedding_plan \<Rightarrow> string \<Rightarrow> embedding_task option" where
  "plan_task p i = find (\<lambda>t. tk_task_id t = i) (pl_tasks p)"

subsection \<open>Binding to the prepared corpus\<close>

type_synonym object_starts = "(safe_path, u64 \<times> prepared_document_object) btree"

definition object_starts_step ::
    "object_starts \<times> u64 \<Rightarrow> prepared_document_object \<Rightarrow> pipeline_error + object_starts \<times> u64" where
  "object_starts_step st ob =
     (case st of (m, start) \<Rightarrow>
       rbind (ok_or (Invalid ''document object ordinal'') (checked_add start (dobj_rows ob)))
         (\<lambda>start'. Inr (bt_insert (dobj_path ob) (start, ob) m, start')))"

definition object_starts_of ::
    "prepared_document_object list \<Rightarrow> pipeline_error + object_starts" where
  "object_starts_of objects =
     rbind (try_fold object_starts_step ([], 0) objects) (\<lambda>(m, _). Inr m)"

definition check_slice_binding ::
    "object_starts \<Rightarrow> u64 \<Rightarrow> u64 \<Rightarrow> embedding_input_slice \<Rightarrow> pipeline_error + u64" where
  "check_slice_binding starts ordinal_end next_ordinal s =
     rbind (ok_or (Invalid ''task input object'') (bt_get starts (sl_path s))) (\<lambda>(start, ob).
     rbind (ok_or (Invalid ''task input slice binding'')
             (checked_add (sl_row_offset s) (sl_rows s))) (\<lambda>slice_end.
     rbind (ok_or (Invalid ''task input slice binding'')
             (checked_add start (sl_row_offset s))) (\<lambda>global_start.
     rbind (ok_or (Invalid ''task input slice binding'')
             (checked_add start slice_end)) (\<lambda>global_end.
     if sl_object_sha256 s \<noteq> oe_sha256 (dobj_object ob)
        \<or> slice_end > dobj_rows ob
        \<or> global_start \<noteq> next_ordinal
        \<or> global_end > ordinal_end
     then Inl (Invalid ''task input slice binding'')
     else Inr global_end))))"

definition check_task_slices :: "object_starts \<Rightarrow> embedding_task \<Rightarrow> pipeline_error + unit" where
  "check_task_slices starts t =
     rbind (try_fold (check_slice_binding starts (tk_ordinal_end t)) (tk_ordinal_start t)
             (tk_input_slices t)) (\<lambda>next_ordinal.
     if next_ordinal \<noteq> tk_ordinal_end t then Inl (Invalid ''task input slice coverage'')
     else Inr ())"

definition validate_task_slices_against_manifest ::
    "embedding_task list \<Rightarrow> prepared_document_object list \<Rightarrow> pipeline_error + unit" where
  "validate_task_slices_against_manifest tasks objects =
     rbind (object_starts_of objects) (\<lambda>starts. try_all (check_task_slices starts) tasks)"

definition plan_validate_manifest_binding ::
    "externals \<Rightarrow> embedding_plan \<Rightarrow> prepared_corpus_manifest \<Rightarrow> pipeline_error + unit" where
  "plan_validate_manifest_binding X p m =
     rbind (embedding_plan_validate X p) (\<lambda>_.
     rbind (prepared_manifest_validate X m) (\<lambda>_.
     if pl_prepared_corpus_sha256 p \<noteq> pc_component_sha256 m
        \<or> pl_dataset p \<noteq> pc_dataset m
        \<or> pl_document_count p \<noteq> pc_document_count m
        \<or> pl_document_order_sha256 p \<noteq> pc_document_order_sha256 m
     then Inl (Invalid ''plan prepared-corpus binding'')
     else validate_task_slices_against_manifest (pl_tasks p) (pc_documents m)))"

definition check_slice_rows ::
    "externals \<Rightarrow> prepared_document_row list \<Rightarrow> object_starts \<Rightarrow> u64 \<Rightarrow> u64 \<Rightarrow>
     embedding_input_slice \<Rightarrow> pipeline_error + u64" where
  "check_slice_rows X documents starts ordinal_end next_ordinal s =
     rbind (ok_or (Invalid ''task input object'') (bt_get starts (sl_path s))) (\<lambda>(start, ob).
     rbind (ok_or (Invalid ''task input slice binding'')
             (checked_add (sl_row_offset s) (sl_rows s))) (\<lambda>slice_end.
     rbind (ok_or (Invalid ''task input slice binding'')
             (checked_add start (sl_row_offset s))) (\<lambda>global_start.
     rbind (ok_or (Invalid ''task input slice binding'')
             (checked_add start slice_end)) (\<lambda>global_end.
     rbind (ok_or (Invalid ''task input slice binding'')
             (get_range documents (unat global_start) (unat global_end))) (\<lambda>slice_rows.
     if oe_sha256 (dobj_object ob) \<noteq> sl_object_sha256 s
        \<or> slice_end > dobj_rows ob
        \<or> global_start \<noteq> next_ordinal
        \<or> global_end > ordinal_end
        \<or> embedding_input_order_digest X slice_rows \<noteq> sl_order_sha256 s
     then Inl (Invalid ''task input slice binding'')
     else Inr global_end)))))"

definition check_task_rows ::
    "externals \<Rightarrow> prepared_document_row list \<Rightarrow> object_starts \<Rightarrow> embedding_task \<Rightarrow>
     pipeline_error + unit" where
  "check_task_rows X documents starts t =
     rbind (ok_or (Invalid ''task row range'')
             (get_range documents (unat (tk_ordinal_start t)) (unat (tk_ordinal_end t))))
       (\<lambda>task_rows.
     if embedding_input_order_digest X task_rows \<noteq> tk_order_sha256 t
     then Inl (Invalid ''task input order'')
     else
     rbind (try_fold (check_slice_rows X documents starts (tk_ordinal_end t)) (tk_ordinal_start t)
             (tk_input_slices t)) (\<lambda>next_ordinal.
     if next_ordinal \<noteq> tk_ordinal_end t then Inl (Invalid ''task input slice coverage'')
     else Inr ()))"

definition plan_validate_against_prepared ::
    "externals \<Rightarrow> embedding_plan \<Rightarrow> prepared_corpus_manifest \<Rightarrow> prepared_document_row list \<Rightarrow>
     pipeline_error + unit" where
  "plan_validate_against_prepared X p m documents =
     rbind (plan_validate_manifest_binding X p m) (\<lambda>_.
     rbind (validate_prepared_documents X m documents) (\<lambda>_.
     rbind (object_starts_of (pc_documents m)) (\<lambda>starts.
     try_all (check_task_rows X documents starts) (pl_tasks p))))"

subsection \<open>Accepted task lists\<close>

definition task_ok :: "embedding_task \<Rightarrow> bool" where
  "task_ok t \<longleftrightarrow> tk_task_id t \<noteq> [] \<and>
     tk_ordinal_start t \<le> MAX_SAFE_JSON_INTEGER \<and> tk_ordinal_end t \<le> MAX_SAFE_JSON_INTEGER \<and>
     tk_input_slices t \<noteq> [] \<and>
     list_all (\<lambda>s. sl_row_offset s \<le> MAX_SAFE_JSON_INTEGER \<and>
       sl_rows s \<le> MAX_SAFE_JSON_INTEGER \<and> sl_rows s \<noteq> 0) (tk_input_slices t) \<and>
     sum_list (map (\<lambda>s. unat (sl_rows s)) (tk_input_slices t))
       = unat (tk_ordinal_end t) - unat (tk_ordinal_start t)"

definition task_paths :: "embedding_task list \<Rightarrow> safe_path list" where
  "task_paths ts = concat (map (\<lambda>t. [tk_result_path t, tk_receipt_path t]) ts)"

abbreviation tasks_cover :: "nat \<Rightarrow> embedding_task list \<Rightarrow> nat \<Rightarrow> bool" where
  "tasks_cover \<equiv> covers_from (\<lambda>t. unat (tk_ordinal_start t)) (\<lambda>t. unat (tk_ordinal_end t))"

abbreviation slice_ok :: "embedding_input_slice \<Rightarrow> bool" where
  "slice_ok s \<equiv> sl_row_offset s \<le> MAX_SAFE_JSON_INTEGER \<and>
     sl_rows s \<le> MAX_SAFE_JSON_INTEGER \<and> sl_rows s \<noteq> 0"

lemma add_slice_rows_step:
  "add_slice_rows a s = Inr b \<longleftrightarrow> slice_ok s \<and> unat b = unat a + unat (sl_rows s)"
  unfolding add_slice_rows_def
  by (simp only: rbind_eq_Inr if_Inl_eq_Inr require_safe_u64_ok ok_or_eq_Inr checked_add_unat) blast

lemmas add_slice_rows_fold = try_fold_sum [where step = add_slice_rows and P = slice_ok
    and f = "\<lambda>s. unat (sl_rows s)", OF add_slice_rows_step]

lemma validate_task_step_ok:
  "validate_task_step (n, ids, paths) t = Inr (n', ids', paths') \<longleftrightarrow>
     task_ok t \<and> tk_ordinal_start t = n \<and> n < tk_ordinal_end t \<and> tk_task_id t \<notin> ids \<and>
     distinct [tk_result_path t, tk_receipt_path t] \<and>
     {tk_result_path t, tk_receipt_path t} \<inter> paths = {} \<and>
     n' = tk_ordinal_end t \<and> ids' = insert (tk_task_id t) ids \<and>
     paths' = {tk_result_path t, tk_receipt_path t} \<union> paths"
proof -
  have rows: "(\<exists>w. list_all P ss \<and> unat w = k \<and> task_row_count t = w \<and> Q) \<longleftrightarrow>
      list_all P ss \<and> k = unat (tk_ordinal_end t) - unat (tk_ordinal_start t) \<and> Q" for P ss k Q
    by (auto simp: task_row_count_def word_facts)
  have "validate_task_step (n, ids, paths) t = Inr (n', ids', paths') \<longleftrightarrow>
      tk_ordinal_start t \<le> MAX_SAFE_JSON_INTEGER \<and> tk_ordinal_end t \<le> MAX_SAFE_JSON_INTEGER \<and>
      (\<exists>w. list_all (\<lambda>s. sl_row_offset s \<le> MAX_SAFE_JSON_INTEGER \<and>
        sl_rows s \<le> MAX_SAFE_JSON_INTEGER \<and> sl_rows s \<noteq> 0) (tk_input_slices t) \<and>
        unat w = sum_list (map (\<lambda>s. unat (sl_rows s)) (tk_input_slices t)) \<and>
        task_row_count t = w \<and>
        (tk_task_id t \<noteq> [] \<and> tk_ordinal_start t = n \<and> tk_ordinal_start t < tk_ordinal_end t \<and>
         tk_input_slices t \<noteq> [] \<and> tk_task_id t \<notin> ids \<and> tk_result_path t \<notin> paths \<and>
         tk_receipt_path t \<notin> insert (tk_result_path t) paths \<and>
         n' = tk_ordinal_end t \<and> ids' = insert (tk_task_id t) ids \<and>
         paths' = insert (tk_receipt_path t) (insert (tk_result_path t) paths)))"
    by (auto simp: result_simps add_slice_rows_fold linorder_not_le)
  then show ?thesis
    unfolding rows task_ok_def by auto
qed

lemma validate_task_fold_ok:
  "try_fold validate_task_step (n, ids, paths) ts = Inr (n', ids', paths') \<longleftrightarrow>
     list_all task_ok ts \<and> tasks_cover (unat n) ts (unat n') \<and>
     distinct (map tk_task_id ts) \<and> ids \<inter> tk_task_id ` set ts = {} \<and>
     distinct (task_paths ts) \<and> paths \<inter> set (task_paths ts) = {} \<and>
     ids' = ids \<union> tk_task_id ` set ts \<and> paths' = paths \<union> set (task_paths ts)"
proof (induction ts arbitrary: n ids paths)
  case Nil
  show ?case by (auto simp: task_paths_def word_unat_eq_iff)
next
  case (Cons t ts)
  have "try_fold validate_task_step (n, ids, paths) (t # ts) = Inr (n', ids', paths') \<longleftrightarrow>
      (\<exists>m i p. validate_task_step (n, ids, paths) t = Inr (m, i, p) \<and>
        try_fold validate_task_step (m, i, p) ts = Inr (n', ids', paths'))"
    by (simp add: rbind_eq_Inr split_paired_Ex del: validate_task_step.simps)
  also have "\<dots> \<longleftrightarrow> task_ok t \<and> tk_ordinal_start t = n \<and> n < tk_ordinal_end t \<and>
      tk_task_id t \<notin> ids \<and> distinct [tk_result_path t, tk_receipt_path t] \<and>
      {tk_result_path t, tk_receipt_path t} \<inter> paths = {} \<and>
      try_fold validate_task_step (tk_ordinal_end t, insert (tk_task_id t) ids,
        {tk_result_path t, tk_receipt_path t} \<union> paths) ts = Inr (n', ids', paths')"
    unfolding validate_task_step_ok by blast
  also have "\<dots> \<longleftrightarrow> list_all task_ok (t # ts) \<and> tasks_cover (unat n) (t # ts) (unat n') \<and>
      distinct (map tk_task_id (t # ts)) \<and> ids \<inter> tk_task_id ` set (t # ts) = {} \<and>
      distinct (task_paths (t # ts)) \<and> paths \<inter> set (task_paths (t # ts)) = {} \<and>
      ids' = ids \<union> tk_task_id ` set (t # ts) \<and> paths' = paths \<union> set (task_paths (t # ts))"
    unfolding Cons.IH by (auto simp: task_paths_def word_unat_eq_iff word_less_nat_alt)
  finally show ?case .
qed

text \<open>
  A task list is accepted exactly when the tasks follow one another from ordinal 0 to the
  document count without gap or overlap, every task has a non-empty identifier and slices
  with as many rows as its range, and no identifier, result path or receipt path repeats.
\<close>

theorem validate_tasks_ok:
  "validate_tasks ts n = Inr u \<longleftrightarrow>
     list_all task_ok ts \<and> tasks_cover 0 ts (unat n) \<and>
     distinct (map tk_task_id ts) \<and> distinct (task_paths ts)"
proof -
  have "tasks_cover 0 ts (unat n) \<Longrightarrow> (0 < n) = (ts \<noteq> [])"
    using covers_from_le [of "\<lambda>t. unat (tk_ordinal_start t)" "\<lambda>t. unat (tk_ordinal_end t)"]
    by (cases ts) (fastforce simp: word_less_nat_alt word_unat_eq_iff)+
  then show ?thesis
    by (auto simp: validate_tasks_def rbind_eq_Inr validate_task_fold_ok simp del: try_fold.simps
        split: if_splits)
qed

lemma validate_tasks_accepts:
  "validate_tasks ts n = Inr u \<Longrightarrow> list_all task_ok ts \<and> tasks_cover 0 ts (unat n) \<and>
     distinct (map tk_task_id ts)"
  by (auto simp: validate_tasks_def rbind_eq_Inr validate_task_fold_ok simp del: try_fold.simps
      split: if_splits)

interpretation v1_tasks: contiguous_plan tk_ordinal_start tk_ordinal_end
  "\<lambda>_ ts n. validate_tasks ts n = Inr ()"
  by unfold_locales (simp add: validate_tasks_accepts)

subsection \<open>Sealing the plan\<close>

definition embedding_plan_body :: "externals \<Rightarrow> embedding_plan \<Rightarrow> bool" where
  "embedding_plan_body X p \<longleftrightarrow>
     pl_document_count p \<le> MAX_SAFE_JSON_INTEGER \<and>
     pl_schema_version p = EMBEDDING_PLAN_SCHEMA \<and>
     dataset_identity_validate (pl_dataset p) = Inr () \<and>
     embedding_profile_ref_validate (pl_embedding_profile p) = Inr () \<and>
     validate_tasks (pl_tasks p) (pl_document_count p) = Inr ()"

lemma embedding_plan_validate_iff:
  "embedding_plan_validate X p = Inr u \<longleftrightarrow>
     embedding_plan_body X p \<and>
     component_digest X (json_embedding_plan p) = Inr (pl_component_sha256 p)"
  unfolding embedding_plan_validate_def embedding_plan_body_def
  by (simp add: rbind_eq_Inr require_safe_u64_ok)

interpretation plan_seal: sealed_component pl_component_sha256
  "\<lambda>d p :: embedding_plan. p\<lparr>pl_component_sha256 := d\<rparr>" json_embedding_plan embedding_plan_body
  embedding_plan_validate embedding_plan_seal
proof
  fix d X u and p :: embedding_plan
  show "pl_component_sha256 (p\<lparr>pl_component_sha256 := d\<rparr>) = d" by simp
  show "p\<lparr>pl_component_sha256 := pl_component_sha256 p\<rparr> = p" by simp
  show "without_self_digest (json_embedding_plan (p\<lparr>pl_component_sha256 := d\<rparr>)) =
      without_self_digest (json_embedding_plan p)"
    by (simp add: json_embedding_plan_def without_self_digest_def)
  show "embedding_plan_body X (p\<lparr>pl_component_sha256 := d\<rparr>) = embedding_plan_body X p"
    by (simp add: embedding_plan_body_def)
  show "embedding_plan_validate X p = Inr u \<longleftrightarrow> embedding_plan_body X p \<and>
      component_digest X (json_embedding_plan p) = Inr (pl_component_sha256 p)"
    by (rule embedding_plan_validate_iff)
  show "embedding_plan_seal X p = rbind (component_digest X (json_embedding_plan p))
      (\<lambda>d. rbind (embedding_plan_validate X (p\<lparr>pl_component_sha256 := d\<rparr>))
        (\<lambda>_. Inr (p\<lparr>pl_component_sha256 := d\<rparr>)))"
    by (simp add: embedding_plan_seal_def Let_def)
qed

subsection \<open>Slices inside their objects\<close>

abbreviation row_counts :: "embedding_input_slice list \<Rightarrow> nat list" where
  "row_counts \<equiv> map (\<lambda>s. unat (sl_rows s))"

definition objects_before :: "prepared_document_object list \<Rightarrow> nat \<Rightarrow> nat" where
  "objects_before objects i = sum_list (map (\<lambda>ob. unat (dobj_rows ob)) (take i objects))"

text \<open>The slice that starts at global ordinal \<open>g\<close> lies inside the object it names.\<close>

definition slice_in_object ::
    "prepared_document_object list \<Rightarrow> nat \<Rightarrow> embedding_input_slice \<Rightarrow> bool" where
  "slice_in_object objects g s \<longleftrightarrow> (\<exists>i < length objects.
     dobj_path (objects ! i) = sl_path s \<and>
     oe_sha256 (dobj_object (objects ! i)) = sl_object_sha256 s \<and>
     g = objects_before objects i + unat (sl_row_offset s) \<and>
     unat (sl_row_offset s) + unat (sl_rows s) \<le> unat (dobj_rows (objects ! i)))"

definition plan_slices :: "embedding_task list \<Rightarrow> embedding_input_slice list" where
  "plan_slices ts = concat (map tk_input_slices ts)"

definition starts_sound ::
    "prepared_document_object list \<Rightarrow> object_starts \<Rightarrow> bool" where
  "starts_sound objects m \<longleftrightarrow> bt_ok m \<and> (\<forall>p start ob. bt_get m p = Some (start, ob) \<longrightarrow>
     (\<exists>i < length objects. objects ! i = ob \<and> dobj_path ob = p \<and>
       unat start = objects_before objects i))"

lemma starts_sound_step:
  assumes "starts_sound objects m" and "unat start = objects_before objects (length objects)"
  shows "starts_sound (objects @ [ob]) (bt_insert (dobj_path ob) (start, ob) m)"
  unfolding starts_sound_def
proof (intro conjI allI impI)
  show "bt_ok (bt_insert (dobj_path ob) (start, ob) m)"
    using assms(1) by (simp add: starts_sound_def bt_insert_ok)
  fix p a b
  assume get: "bt_get (bt_insert (dobj_path ob) (start, ob) m) p = Some (a, b)"
  have ins: "bt_get (bt_insert (dobj_path ob) (start, ob) m) = (bt_get m)(dobj_path ob \<mapsto> (start, ob))"
    using assms(1) by (simp add: starts_sound_def bt_insert_get)
  show "\<exists>i < length (objects @ [ob]). (objects @ [ob]) ! i = b \<and> dobj_path b = p \<and>
      unat a = objects_before (objects @ [ob]) i"
  proof (cases "p = dobj_path ob")
    case True
    with get ins assms(2) show ?thesis
      by (intro exI [of _ "length objects"]) (simp add: objects_before_def)
  next
    case False
    with get ins have "bt_get m p = Some (a, b)" by simp
    with assms(1) obtain i where "i < length objects" "objects ! i = b" "dobj_path b = p"
        "unat a = objects_before objects i"
      unfolding starts_sound_def by blast
    then show ?thesis
      by (intro exI [of _ i]) (simp add: objects_before_def nth_append)
  qed
qed

lemma object_starts_step_ok:
  "object_starts_step (m, start) ob = Inr st \<longleftrightarrow>
     (\<exists>start'. unat start' = unat start + unat (dobj_rows ob) \<and>
       st = (bt_insert (dobj_path ob) (start, ob) m, start'))"
  by (auto simp: object_starts_step_def result_simps word_facts)

lemma object_starts_fold:
  "try_fold object_starts_step (m, start) obs = Inr (m', start') \<Longrightarrow>
   starts_sound objects m \<Longrightarrow> unat start = objects_before objects (length objects) \<Longrightarrow>
   starts_sound (objects @ obs) m'"
proof (induction obs arbitrary: m start objects)
  case (Cons ob obs)
  then obtain start'' where "unat start'' = unat start + unat (dobj_rows ob)"
    and "try_fold object_starts_step (bt_insert (dobj_path ob) (start, ob) m, start'') obs
      = Inr (m', start')"
    by (auto simp: rbind_eq_Inr object_starts_step_ok)
  with Cons.IH [of _ _ "objects @ [ob]"] starts_sound_step [OF Cons.prems(2,3), of ob] Cons.prems(3)
  show ?case by (simp add: objects_before_def)
qed simp

lemma object_starts_sound: "object_starts_of objects = Inr m \<Longrightarrow> starts_sound objects m"
  using object_starts_fold [of "[]" 0 objects m _ "[]"]
  by (auto simp: object_starts_of_def rbind_eq_Inr starts_sound_def objects_before_def
      bt_ok_def bt_get_def)

lemma check_slice_binding_sound:
  assumes "starts_sound objects starts" and "check_slice_binding starts e n s = Inr n'"
  shows "unat n' = unat n + unat (sl_rows s) \<and> n' \<le> e \<and> slice_in_object objects (unat n) s"
proof -
  from assms(2) obtain start ob w where get: "bt_get starts (sl_path s) = Some (start, ob)"
    and w: "unat w = unat (sl_row_offset s) + unat (sl_rows s)" "w \<le> dobj_rows ob"
    and n: "unat n = unat start + unat (sl_row_offset s)" "unat n' = unat start + unat w" "n' \<le> e"
    and h: "sl_object_sha256 s = oe_sha256 (dobj_object ob)"
    by (auto simp: check_slice_binding_def result_simps word_facts linorder_not_less split: prod.splits)
  from get assms(1) obtain i where "i < length objects" "objects ! i = ob" "dobj_path ob = sl_path s"
      "unat start = objects_before objects i"
    unfolding starts_sound_def by blast
  with w n h show ?thesis
    unfolding slice_in_object_def by (auto simp: word_le_nat_alt intro!: exI [of _ i])
qed

lemma check_slices_sound:
  assumes "starts_sound objects starts"
  shows "try_fold (check_slice_binding starts e) n ss = Inr n' \<Longrightarrow>
    unat n' = unat n + sum_list (row_counts ss) \<and>
    list_all2 (slice_in_object objects) (starts_from (unat n) (row_counts ss)) ss"
proof (induction ss arbitrary: n)
  case (Cons s ss)
  then obtain k where "check_slice_binding starts e n s = Inr k"
    and "try_fold (check_slice_binding starts e) k ss = Inr n'"
    by (auto simp: rbind_eq_Inr)
  with Cons.IH check_slice_binding_sound [OF assms] show ?case by fastforce
qed simp

definition task_slices_ok :: "prepared_document_object list \<Rightarrow> embedding_task \<Rightarrow> bool" where
  "task_slices_ok objects t \<longleftrightarrow>
     unat (tk_ordinal_end t) = unat (tk_ordinal_start t) + sum_list (row_counts (tk_input_slices t)) \<and>
     list_all2 (slice_in_object objects)
       (starts_from (unat (tk_ordinal_start t)) (row_counts (tk_input_slices t))) (tk_input_slices t)"

lemma check_task_slices_sound:
  "starts_sound objects starts \<Longrightarrow> check_task_slices starts t = Inr () \<Longrightarrow> task_slices_ok objects t"
  unfolding check_task_slices_def task_slices_ok_def
  by (auto simp: result_simps dest: check_slices_sound)

lemma plan_slices_in_objects:
  "tasks_cover a ts n \<Longrightarrow> list_all (task_slices_ok objects) ts \<Longrightarrow>
   a + sum_list (row_counts (plan_slices ts)) = n \<and>
   list_all2 (slice_in_object objects) (starts_from a (row_counts (plan_slices ts))) (plan_slices ts)"
proof (induction ts arbitrary: a)
  case (Cons t ts)
  then have "tasks_cover (unat (tk_ordinal_end t)) ts n" and t: "task_slices_ok objects t"
    and a: "a = unat (tk_ordinal_start t)" and r: "list_all (task_slices_ok objects) ts" by simp_all
  from Cons.IH [OF this(1) r] t show ?case
    by (auto simp: plan_slices_def a task_slices_ok_def starts_from_append add.assoc
        intro!: list_all2_appendI)
qed (simp add: plan_slices_def)

lemma validate_task_slices_sound:
  "validate_task_slices_against_manifest ts objects = Inr () \<Longrightarrow> list_all (task_slices_ok objects) ts"
  by (auto simp: validate_task_slices_against_manifest_def rbind_eq_Inr try_all_ok list_all_iff
      dest: object_starts_sound check_task_slices_sound)

lemma manifest_binding_iff:
  "plan_validate_manifest_binding X p m = Inr () \<longleftrightarrow>
     embedding_plan_validate X p = Inr () \<and> prepared_manifest_validate X m = Inr () \<and>
     pl_prepared_corpus_sha256 p = pc_component_sha256 m \<and> pl_dataset p = pc_dataset m \<and>
     pl_document_count p = pc_document_count m \<and>
     pl_document_order_sha256 p = pc_document_order_sha256 m \<and>
     validate_task_slices_against_manifest (pl_tasks p) (pc_documents m) = Inr ()"
  by (auto simp: plan_validate_manifest_binding_def rbind_eq_Inr split: if_splits)

lemma manifest_binding_parts:
  assumes "plan_validate_manifest_binding X p m = Inr ()"
  shows "list_all task_ok (pl_tasks p)" and "tasks_cover 0 (pl_tasks p) (unat (pc_document_count m))"
    and "list_all (task_slices_ok (pc_documents m)) (pl_tasks p)"
proof -
  from assms have "embedding_plan_validate X p = Inr ()"
    and n: "pl_document_count p = pc_document_count m"
    and s: "validate_task_slices_against_manifest (pl_tasks p) (pc_documents m) = Inr ()"
    unfolding manifest_binding_iff by simp_all
  then have "validate_tasks (pl_tasks p) (pc_document_count m) = Inr ()"
    unfolding embedding_plan_validate_iff embedding_plan_body_def by simp
  with validate_tasks_accepts show "list_all task_ok (pl_tasks p)"
    and "tasks_cover 0 (pl_tasks p) (unat (pc_document_count m))" by blast+
  show "list_all (task_slices_ok (pc_documents m)) (pl_tasks p)"
    by (rule validate_task_slices_sound [OF s])
qed

text \<open>
  In a plan bound to a manifest the slices of all tasks, in order, follow one another
  from ordinal 0 to the document count, and each lies inside the prepared object whose path
  and digest it names, at the object's own offset.
\<close>

theorem plan_slices_partition_objects:
  assumes "plan_validate_manifest_binding X p m = Inr ()"
  shows "sum_list (row_counts (plan_slices (pl_tasks p))) = unat (pc_document_count m) \<and>
    list_all2 (slice_in_object (pc_documents m))
      (starts_from 0 (row_counts (plan_slices (pl_tasks p)))) (plan_slices (pl_tasks p))"
  using plan_slices_in_objects [OF manifest_binding_parts(2,3) [OF assms]] by simp

subsection \<open>Plan rows\<close>

definition slice_rows_ok ::
    "externals \<Rightarrow> embedding_input_slice \<Rightarrow> prepared_document_row list \<Rightarrow> bool" where
  "slice_rows_ok X s rows \<longleftrightarrow> length rows = unat (sl_rows s) \<and>
     embedding_input_order_digest X rows = sl_order_sha256 s"

definition task_rows_ok ::
    "externals \<Rightarrow> embedding_task \<Rightarrow> prepared_document_row list \<Rightarrow> bool" where
  "task_rows_ok X t rows \<longleftrightarrow> length rows = unat (task_row_count t) \<and>
     embedding_input_order_digest X rows = tk_order_sha256 t"

lemma check_slice_rows_sound:
  assumes "check_slice_rows X docs starts e n s = Inr n'"
  shows "unat n' = unat n + unat (sl_rows s) \<and>
    slice_rows_ok X s (take (unat (sl_rows s)) (drop (unat n) docs))"
proof -
  from assms obtain a :: u64 and w :: u64 and rows' where
    w: "unat w = unat (sl_row_offset s) + unat (sl_rows s)"
    and n: "unat n = unat a + unat (sl_row_offset s)" "unat n' = unat a + unat w"
    and rows: "get_range docs (unat n) (unat n') = Some rows'"
      "embedding_input_order_digest X rows' = sl_order_sha256 s"
    by (auto simp: check_slice_rows_def result_simps word_facts split: prod.splits)
  from w n have "unat n' = unat n + unat (sl_rows s)" by simp
  with rows show ?thesis
    by (auto simp: slice_rows_ok_def get_range_def split: if_splits)
qed

lemma check_slice_rows_fold:
  "try_fold (check_slice_rows X docs starts e) n ss = Inr n' \<Longrightarrow>
   unat n' = unat n + sum_list (row_counts ss) \<and>
   list_all2 (slice_rows_ok X) ss (slices (row_counts ss) (drop (unat n) docs))"
proof (induction ss arbitrary: n)
  case (Cons s ss)
  then obtain k where k: "check_slice_rows X docs starts e n s = Inr k"
    and rest: "try_fold (check_slice_rows X docs starts e) k ss = Inr n'"
    by (auto simp: rbind_eq_Inr)
  from check_slice_rows_sound [OF k] Cons.IH [OF rest] show ?case
    by (simp add: add.commute)
qed simp

lemma check_task_rows_sound:
  assumes "check_task_rows X docs starts t = Inr ()"
  shows "task_rows_ok X t (take (unat (task_row_count t)) (drop (unat (tk_ordinal_start t)) docs)) \<and>
    list_all2 (slice_rows_ok X) (tk_input_slices t)
      (slices (row_counts (tk_input_slices t)) (drop (unat (tk_ordinal_start t)) docs))"
proof -
  from assms obtain rows where
    rows: "get_range docs (unat (tk_ordinal_start t)) (unat (tk_ordinal_end t)) = Some rows"
      "embedding_input_order_digest X rows = tk_order_sha256 t"
    and fold: "try_fold (check_slice_rows X docs starts (tk_ordinal_end t)) (tk_ordinal_start t)
      (tk_input_slices t) = Inr (tk_ordinal_end t)"
    by (auto simp: check_task_rows_def result_simps)
  from check_slice_rows_fold [OF fold] rows show ?thesis
    by (auto simp: task_rows_ok_def task_row_count_def word_facts get_range_def split: if_splits)
qed

lemma plan_rows_cut:
  "tasks_cover a ts n \<Longrightarrow> list_all (task_slices_ok objects) ts \<Longrightarrow>
   list_all (\<lambda>t. check_task_rows X docs starts t = Inr ()) ts \<Longrightarrow>
   list_all2 (slice_rows_ok X) (plan_slices ts) (slices (row_counts (plan_slices ts)) (drop a docs)) \<and>
   list_all2 (task_rows_ok X) ts (slices (map (\<lambda>t. unat (task_row_count t)) ts) (drop a docs))"
proof (induction ts arbitrary: a)
  case (Cons t ts)
  then have cov: "tasks_cover (unat (tk_ordinal_end t)) ts n" and sl: "task_slices_ok objects t"
    and a: "a = unat (tk_ordinal_start t)" and lt: "a < unat (tk_ordinal_end t)"
    and rest: "list_all (task_slices_ok objects) ts"
      "list_all (\<lambda>t. check_task_rows X docs starts t = Inr ()) ts"
    and t: "check_task_rows X docs starts t = Inr ()" by simp_all
  from sl have k: "sum_list (row_counts (tk_input_slices t)) = unat (tk_ordinal_end t) - a"
    by (simp add: task_slices_ok_def a)
  have c: "unat (task_row_count t) = unat (tk_ordinal_end t) - a"
    by (simp add: task_row_count_def word_facts a)
  show ?case
    using Cons.IH [OF cov rest] check_task_rows_sound [OF t] lt
    by (auto simp: plan_slices_def slices_append k c a [symmetric] intro!: list_all2_appendI)
qed (simp add: plan_slices_def)

text \<open>
  A plan validated against the rows cuts them: the slices of all tasks, and likewise the
  tasks, use every prepared row exactly once in ordinal order, and the rows of each slice and
  of each task have the input order digest the plan states for it.
\<close>

theorem plan_rows_partitioned:
  assumes "plan_validate_against_prepared X p m docs = Inr ()"
  defines "ss \<equiv> plan_slices (pl_tasks p)"
    and "ns \<equiv> map (\<lambda>t. unat (task_row_count t)) (pl_tasks p)"
  shows "concat (slices (row_counts ss) docs) = docs \<and>
    list_all2 (slice_rows_ok X) ss (slices (row_counts ss) docs) \<and>
    concat (slices ns docs) = docs \<and> list_all2 (task_rows_ok X) (pl_tasks p) (slices ns docs)"
proof -
  from assms(1) obtain starts where b: "plan_validate_manifest_binding X p m = Inr ()"
    and d: "validate_prepared_documents X m docs = Inr ()"
    and r: "list_all (\<lambda>t. check_task_rows X docs starts t = Inr ()) (pl_tasks p)"
    by (auto simp: plan_validate_against_prepared_def rbind_eq_Inr try_all_ok list_all_iff)
  have len: "length docs = unat (pc_document_count m)"
    using d by (auto simp: validate_prepared_documents_def try_from_nat_unat split: if_splits)
  note parts = manifest_binding_parts [OF b]
  have ss: "sum_list (row_counts ss) = length docs"
    using plan_slices_in_objects [OF parts(2,3)] by (simp add: ss_def len)
  have ns: "sum_list ns = length docs"
    using covers_from_sum [OF parts(2)] by (simp add: ns_def len task_row_count_def word_facts)
  show ?thesis
    using concat_slices [OF ss] concat_slices [OF ns] plan_rows_cut [OF parts(2,3) r]
    by (simp add: ss_def ns_def)
qed

subsection \<open>A small corpus\<close>

text \<open>
  The external functions of the witnesses: a constant hash of the right format, the string
  itself as the canonical form of a string and the empty text for other values.
\<close>

definition X0 :: externals where
  "X0 = \<lparr>sha256_hex = (\<lambda>_. replicate 64 (CHR ''a'')),
     jcs_bytes = (\<lambda>j. case j of JStr s \<Rightarrow> Some (str_bytes s) | _ \<Rightarrow> Some []),
     json_from_str = (\<lambda>s. Some (JStr s))\<rparr>"

definition D0 :: digest where
  "D0 = Digest (replicate 64 (CHR ''a''))"

definition C0 :: component_ref where
  "C0 = \<lparr>cr_id = ''c'', cr_version = ''1'', cr_sha256 = D0\<rparr>"

definition dataset0 :: dataset_identity where
  "dataset0 = \<lparr>ds_id = ''d'', ds_version = ''1'', source_snapshot = C0, ds_mapping = C0,
     source_admission = [C0], included_relations = [''r''], excluded_relations = [''s''],
     structured_only_relations = []\<rparr>"

definition object0 :: "string \<Rightarrow> u64 \<Rightarrow> object_entry" where
  "object0 p n = \<lparr>oe_path = SafeRelativePath p, oe_rows = n, oe_bytes = 9, oe_sha256 = D0,
     oe_logical_order_sha256 = D0\<rparr>"

definition manifest0 :: prepared_corpus_manifest where
  "manifest0 = \<lparr>pc_schema_version = PREPARED_CORPUS_SCHEMA, pc_component_sha256 = D0,
     pc_dataset = dataset0, pc_projection_policy = C0, pc_document_schema = C0,
     pc_occurrence_schema = C0, pc_preparation_implementation = C0, pc_document_count = 3,
     pc_occurrence_count = 4, pc_document_order_sha256 = D0, pc_embedding_input_order_sha256 = D0,
     pc_documents =
       [\<lparr>dobj_object = object0 ''documents/0'' 2, dobj_ordinal = 0, dobj_first_document_id = ''a'',
          dobj_last_document_id = ''b'', dobj_embedding_input_order_sha256 = D0\<rparr>,
        \<lparr>dobj_object = object0 ''documents/1'' 1, dobj_ordinal = 1, dobj_first_document_id = ''c'',
          dobj_last_document_id = ''c'', dobj_embedding_input_order_sha256 = D0\<rparr>],
     pc_occurrences =
       [\<lparr>oobj_object = object0 ''occurrences/0'' 4, oobj_ordinal = 0, oobj_relation = ''r''\<rparr>],
     pc_relation_accounting =
       [(''r'', \<lparr>ra_source_rows = 5, ra_searchable_occurrences = 4, ra_selected_occurrences = 4,
          ra_excluded_rows = 1\<rparr>),
        (''s'', \<lparr>ra_source_rows = 2, ra_searchable_occurrences = 0, ra_selected_occurrences = 0,
          ra_excluded_rows = 2\<rparr>)]\<rparr>"

definition profile0 :: embedding_profile_ref where
  "profile0 = \<lparr>epr_component = C0, epr_model_artifact = C0, epr_tokenizer = C0,
     epr_maximum_input_tokens = 8, epr_pooling = ''mean'', epr_normalization = ''l2'',
     epr_dimensions = 2, epr_dtype = ''f32le'', epr_document_format = ''{semantic_text}''\<rparr>"

definition slice0 :: "string \<Rightarrow> u64 \<Rightarrow> u64 \<Rightarrow> embedding_input_slice" where
  "slice0 p off n = \<lparr>sl_path = SafeRelativePath p, sl_object_sha256 = D0, sl_row_offset = off,
     sl_rows = n, sl_order_sha256 = D0\<rparr>"

definition task0 :: "string \<Rightarrow> u64 \<Rightarrow> u64 \<Rightarrow> embedding_input_slice list \<Rightarrow> embedding_task" where
  "task0 i a b ss = \<lparr>tk_task_id = i, tk_ordinal_start = a, tk_ordinal_end = b, tk_input_slices = ss,
     tk_order_sha256 = D0, tk_result_path = SafeRelativePath (''results/'' @ i),
     tk_receipt_path = SafeRelativePath (''receipts/'' @ i)\<rparr>"

definition plan0 :: embedding_plan where
  "plan0 = \<lparr>pl_schema_version = EMBEDDING_PLAN_SCHEMA, pl_component_sha256 = D0,
     pl_prepared_corpus_sha256 = D0, pl_dataset = dataset0, pl_embedding_profile = profile0,
     pl_document_count = 3, pl_document_order_sha256 = D0,
     pl_tasks =
       [task0 ''t0'' 0 1 [slice0 ''documents/0'' 0 1],
        task0 ''t1'' 1 3 [slice0 ''documents/0'' 1 1, slice0 ''documents/1'' 0 1]]\<rparr>"

lemmas data0 = plan0_def task0_def slice0_def profile0_def manifest0_def object0_def dataset0_def
  C0_def

lemmas checks = require_safe_u64_def MAX_SAFE_JSON_INTEGER_def require_text_def checked_add_def
  checked_mul_def saturating_sub_def component_ref_validate_def

lemma digest0: "component_digest X0 (json_prepared_manifest manifest0) = Inr D0"
  "component_digest X0 (json_embedding_plan plan0) = Inr D0"
  by (simp_all add: component_digest_def without_self_digest_def json_prepared_manifest_def
      json_embedding_plan_def canonical_digest_def canonical_json_bytes_def digest_bytes_def X0_def
      D0_def)

lemma dataset0_ok: "dataset_identity_validate dataset0 = Inr ()"
  by (simp add: data0 dataset_identity_validate_ok component_ref_validate_def require_text_def)

lemma manifest0_ok: "prepared_manifest_validate X0 manifest0 = Inr ()"
  unfolding prepared_manifest_validate_iff prepared_manifest_body_def
proof (intro conjI)
  show "validate_relation_accounting manifest0 = Inr ()"
    by (simp add: data0 validate_relation_accounting_def Let_def bt_keys_def checks insert_commute)
  show "validate_objects (pc_documents manifest0) (pc_document_count manifest0) = Inr ()"
    by (simp add: data0 validate_objects_def checks)
  show "validate_occurrence_objects (pc_occurrences manifest0) (pc_occurrence_count manifest0)
      (included_relations (pc_dataset manifest0)) = Inr ()"
    by (simp add: data0 validate_occurrence_objects_def checks)
  show "dataset_identity_validate (pc_dataset manifest0) = Inr ()"
    using dataset0_ok by (simp add: manifest0_def)
  show "component_digest X0 (json_prepared_manifest manifest0) = Inr (pc_component_sha256 manifest0)"
    unfolding digest0 by (simp add: manifest0_def)
qed (simp_all add: data0 checks prepared_object_paths_def)

lemma tasks0_ok: "validate_tasks (pl_tasks plan0) 3 = Inr ()"
  by (simp add: data0 validate_tasks_def add_slice_rows_def task_row_count_def checks word_le_nat_alt)

lemma plan0_ok: "embedding_plan_validate X0 plan0 = Inr ()"
  unfolding embedding_plan_validate_iff embedding_plan_body_def digest0
  using dataset0_ok tasks0_ok
  by (simp add: plan0_def profile0_def C0_def embedding_profile_ref_validate_def checks)

lemma plan0_bound: "plan_validate_manifest_binding X0 plan0 manifest0 = Inr ()"
proof -
  have "validate_task_slices_against_manifest (pl_tasks plan0) (pc_documents manifest0) = Inr ()"
    by (simp add: data0 validate_task_slices_against_manifest_def object_starts_of_def
        object_starts_step_def check_task_slices_def check_slice_binding_def bt_get_def
        less_safe_path_def checks)
  then show ?thesis
    unfolding manifest_binding_iff using plan0_ok manifest0_ok by (simp add: plan0_def manifest0_def)
qed

theorem plan_slices_partition_objects_witness:
  "sum_list (row_counts (plan_slices (pl_tasks plan0))) = 3 \<and>
   list_all2 (slice_in_object (pc_documents manifest0))
     (starts_from 0 (row_counts (plan_slices (pl_tasks plan0)))) (plan_slices (pl_tasks plan0))"
  using plan_slices_partition_objects [OF plan0_bound] by (simp add: manifest0_def)

definition row0 :: "u64 \<Rightarrow> string \<Rightarrow> prepared_document_row" where
  "row0 n i = \<lparr>pd_ordinal = n, pd_document_id = i, pd_document_sha256 = D0, pd_text_sha256 = D0,
     pd_semantic_text = ''text'', pd_kind = Activity, pd_primary_relation = ''r'',
     pd_facets_json = ''{}'', pd_relations_json = ''[]'', pd_occurrence_count = 1\<rparr>"

definition rows0 :: "prepared_document_row list" where
  "rows0 = [row0 0 ''a'', row0 1 ''b'', row0 2 ''c'']"

lemma digest_X0 [simp]: "digest_bytes X0 b = D0"
  by (simp add: digest_bytes_def X0_def D0_def)

lemma order_X0 [simp]: "embedding_input_order_digest X0 rows = D0" "document_order_digest X0 ids = D0"
  by (simp_all add: embedding_input_order_digest_def document_order_digest_def)

lemma row0_ok: "n \<le> MAX_SAFE_JSON_INTEGER \<Longrightarrow> i \<noteq> [] \<Longrightarrow> prepared_document_row_validate X0 (row0 n i) = Inr ()"
  by (simp add: prepared_document_row_validate_def row0_def checks validate_canonical_json_def
      canonical_json_bytes_def digest_X0, simp add: X0_def str_bytes_def)

lemma rows0_ok: "validate_prepared_documents X0 manifest0 rows0 = Inr ()"
proof -
  have "canonical_digest X0 (JArr (map json_document_row rs)) = Inr D0" for rs
    by (simp add: canonical_digest_def canonical_json_bytes_def) (simp add: X0_def)
  moreover have "length rows0 < 2 ^ 64" by (simp add: rows0_def)
  ultimately have "try_fold (check_object_rows X0 rows0) 0 (pc_documents manifest0) = Inr 3"
    by (simp add: manifest0_def object0_def rbind_eq_Inr check_object_rows_ok document_slice_ok_def)
      (simp add: rows0_def row0_def numeral_2_eq_2)
  moreover have "try_all (check_row_order X0 rows0) (enumerate 0 rows0) = Inr ()"
    unfolding rows0_def
    by (simp add: check_row_order_def row0_ok MAX_SAFE_JSON_INTEGER_def, simp add: row0_def)
  ultimately show ?thesis
    by (simp add: validate_prepared_documents_def)
      (simp add: rows0_def manifest0_def try_from_nat_def)
qed

lemma plan0_rows_ok: "plan_validate_against_prepared X0 plan0 manifest0 rows0 = Inr ()"
  unfolding plan_validate_against_prepared_def plan0_bound rows0_ok
  by (simp add: data0 object_starts_of_def object_starts_step_def check_task_rows_def
      check_slice_rows_def bt_get_def less_safe_path_def checks rows0_def get_range_def)

theorem plan_rows_partitioned_witness:
  "concat (slices [1, 1, 1] rows0) = rows0 \<and> concat (slices [1, 2] rows0) = rows0"
  using plan_rows_partitioned [OF plan0_rows_ok]
  by (simp add: plan_slices_def data0 task_row_count_def saturating_sub_def)

end
