(* ===== verification/Columns.thy ===== *)
theory Columns
  imports Plan
begin

text \<open>
  The Parquet tables of prepared documents and occurrences in
  \<open>crates/rag-pipeline/src/lib.rs\<close>: the schemas, the columns a row list is written to and the
  rows read back. The Arrow and Parquet libraries are outside the repository; a record batch is
  what the code uses of them, its schema and its columns of values, and a file is the list of
  batches the reader yields. The round trip holds however the library regroups the rows.
\<close>

datatype data_type = TUInt64 | TUtf8

datatype column = CUInt64 "u64 option list" | CUtf8 "string list"

type_synonym schema = "(string \<times> data_type \<times> bool) list"

record record_batch =
  rb_schema :: schema
  rb_columns :: "column list"
  rb_rows :: nat

definition prepared_document_schema :: schema where
  "prepared_document_schema =
     [(''document_ordinal'', TUInt64, False), (''document_id'', TUtf8, False),
      (''document_sha256'', TUtf8, False), (''semantic_text_sha256'', TUtf8, False),
      (''semantic_text'', TUtf8, False), (''document_kind'', TUtf8, False),
      (''primary_relation'', TUtf8, False), (''facets_json'', TUtf8, False),
      (''relations_json'', TUtf8, False), (''occurrence_count'', TUInt64, False)]"

definition prepared_occurrence_schema :: schema where
  "prepared_occurrence_schema =
     [(''occurrence_id'', TUtf8, False), (''document_id'', TUtf8, False),
      (''event_time_ms'', TUInt64, True), (''relation'', TUtf8, False),
      (''source_row_ordinal'', TUInt64, False), (''exact_attributes_json'', TUtf8, False),
      (''snapshot_sha256'', TUtf8, False), (''mapping_sha256'', TUtf8, False),
      (''event_id'', TUtf8, False), (''support_ref'', TUtf8, False)]"

definition document_batch :: "prepared_document_row list \<Rightarrow> record_batch" where
  "document_batch rows = \<lparr>rb_schema = prepared_document_schema,
     rb_columns =
       [CUInt64 (map (\<lambda>r. Some (pd_ordinal r)) rows),
        CUtf8 (map pd_document_id rows),
        CUtf8 (map (\<lambda>r. digest_str (pd_document_sha256 r)) rows),
        CUtf8 (map (\<lambda>r. digest_str (pd_text_sha256 r)) rows),
        CUtf8 (map pd_semantic_text rows),
        CUtf8 (map (\<lambda>r. document_kind_str (pd_kind r)) rows),
        CUtf8 (map pd_primary_relation rows),
        CUtf8 (map pd_facets_json rows),
        CUtf8 (map pd_relations_json rows),
        CUInt64 (map (\<lambda>r. Some (pd_occurrence_count r)) rows)],
     rb_rows = length rows\<rparr>"

definition write_prepared_documents ::
    "externals \<Rightarrow> prepared_document_row list \<Rightarrow> pipeline_error + record_batch" where
  "write_prepared_documents X rows =
     rbind (try_all (prepared_document_row_validate X) rows) (\<lambda>_. Inr (document_batch rows))"

definition u64_column :: "string \<Rightarrow> record_batch \<Rightarrow> nat \<Rightarrow> pipeline_error + u64 option list" where
  "u64_column what b i =
     (case rb_columns b ! i of CUInt64 vs \<Rightarrow> Inr vs | CUtf8 _ \<Rightarrow> Inl (Invalid what))"

definition utf8_column :: "string \<Rightarrow> record_batch \<Rightarrow> nat \<Rightarrow> pipeline_error + string list" where
  "utf8_column what b i =
     (case rb_columns b ! i of CUtf8 vs \<Rightarrow> Inr vs | CUInt64 _ \<Rightarrow> Inl (Invalid what))"

text \<open>\<open>UInt64Array::value\<close>: a null slot holds the default value.\<close>

definition u64_value :: "u64 option list \<Rightarrow> nat \<Rightarrow> u64" where
  "u64_value vs i = (case vs ! i of None \<Rightarrow> 0 | Some v \<Rightarrow> v)"

definition read_document_row ::
    "externals \<Rightarrow> u64 option list \<Rightarrow> string list list \<Rightarrow> u64 option list \<Rightarrow> nat \<Rightarrow>
     pipeline_error + prepared_document_row" where
  "read_document_row X ordinals cols counts i =
     (let at = (\<lambda>k. (cols ! k) ! i) in
     rbind (digest_new (at 1)) (\<lambda>document_sha256.
     rbind (digest_new (at 2)) (\<lambda>text_sha256.
     rbind (document_kind_parse (at 4)) (\<lambda>kind.
     let row = \<lparr>pd_ordinal = u64_value ordinals i, pd_document_id = at 0,
                pd_document_sha256 = document_sha256, pd_text_sha256 = text_sha256,
                pd_semantic_text = at 3, pd_kind = kind, pd_primary_relation = at 5,
                pd_facets_json = at 6, pd_relations_json = at 7,
                pd_occurrence_count = u64_value counts i\<rparr> in
     rbind (prepared_document_row_validate X row) (\<lambda>_. Inr row)))))"

definition read_document_batch ::
    "externals \<Rightarrow> record_batch \<Rightarrow> pipeline_error + prepared_document_row list" where
  "read_document_batch X b =
     (if rb_schema b \<noteq> prepared_document_schema
      then Inl (Invalid ''prepared document Parquet schema'')
      else
      rbind (u64_column ''document column'' b 0) (\<lambda>ordinals.
      rbind (try_map (utf8_column ''document column'' b) [1..<9]) (\<lambda>cols.
      rbind (u64_column ''document column'' b 9) (\<lambda>counts.
      try_map (read_document_row X ordinals cols counts) [0..<rb_rows b]))))"

definition read_prepared_documents ::
    "externals \<Rightarrow> record_batch list \<Rightarrow> pipeline_error + prepared_document_row list" where
  "read_prepared_documents X batches =
     rbind (try_map (read_document_batch X) batches) (\<lambda>rs. Inr (concat rs))"

definition occurrence_batch :: "prepared_occurrence_row list \<Rightarrow> record_batch" where
  "occurrence_batch rows = \<lparr>rb_schema = prepared_occurrence_schema,
     rb_columns =
       [CUtf8 (map po_occurrence_id rows),
        CUtf8 (map po_document_id rows),
        CUInt64 (map po_event_time_ms rows),
        CUtf8 (map po_relation rows),
        CUInt64 (map (\<lambda>r. Some (po_source_row_ordinal r)) rows),
        CUtf8 (map po_exact_attributes_json rows),
        CUtf8 (map (\<lambda>r. digest_str (po_snapshot_sha256 r)) rows),
        CUtf8 (map (\<lambda>r. digest_str (po_mapping_sha256 r)) rows),
        CUtf8 (map po_event_id rows),
        CUtf8 (map po_support_ref rows)],
     rb_rows = length rows\<rparr>"

definition write_prepared_occurrences ::
    "externals \<Rightarrow> prepared_occurrence_row list \<Rightarrow> pipeline_error + record_batch" where
  "write_prepared_occurrences X rows =
     rbind (try_all (prepared_occurrence_row_validate X) rows) (\<lambda>_. Inr (occurrence_batch rows))"

definition read_occurrence_row ::
    "externals \<Rightarrow> string list list \<Rightarrow> u64 option list \<Rightarrow> u64 option list \<Rightarrow> nat \<Rightarrow>
     pipeline_error + prepared_occurrence_row" where
  "read_occurrence_row X cols stamps ordinals i =
     (let at = (\<lambda>k. (cols ! k) ! i) in
     rbind (digest_new (at 4)) (\<lambda>snapshot.
     rbind (digest_new (at 5)) (\<lambda>mapping.
     let row = \<lparr>po_occurrence_id = at 0, po_document_id = at 1,
                po_event_time_ms = (if stamps ! i = None then None else Some (u64_value stamps i)),
                po_relation = at 2, po_source_row_ordinal = u64_value ordinals i,
                po_exact_attributes_json = at 3, po_snapshot_sha256 = snapshot,
                po_mapping_sha256 = mapping, po_event_id = at 6, po_support_ref = at 7\<rparr> in
     rbind (prepared_occurrence_row_validate X row) (\<lambda>_. Inr row))))"

definition read_occurrence_batch ::
    "externals \<Rightarrow> record_batch \<Rightarrow> pipeline_error + prepared_occurrence_row list" where
  "read_occurrence_batch X b =
     (if rb_schema b \<noteq> prepared_occurrence_schema
      then Inl (Invalid ''prepared occurrence Parquet schema'')
      else
      rbind (try_map (utf8_column ''occurrence column'' b) [0, 1]) (\<lambda>ids.
      rbind (u64_column ''occurrence column'' b 2) (\<lambda>stamps.
      rbind (utf8_column ''occurrence column'' b 3) (\<lambda>relations.
      rbind (u64_column ''occurrence column'' b 4) (\<lambda>ordinals.
      rbind (try_map (utf8_column ''occurrence column'' b) [5, 6, 7, 8, 9]) (\<lambda>rest.
      try_map (read_occurrence_row X (ids @ [relations] @ rest) stamps ordinals)
        [0..<rb_rows b]))))))"

definition read_prepared_occurrences ::
    "externals \<Rightarrow> record_batch list \<Rightarrow> pipeline_error + prepared_occurrence_row list" where
  "read_prepared_occurrences X batches =
     rbind (try_map (read_occurrence_batch X) batches) (\<lambda>rs. Inr (concat rs))"

subsection \<open>Round trips\<close>

definition digest_wf :: "digest \<Rightarrow> bool" where
  "digest_wf d \<longleftrightarrow> digest_new (digest_str d) = Inr d"

lemma document_kind_parse_str [simp]: "document_kind_parse (document_kind_str k) = Inr k"
  by (cases k) (simp_all add: document_kind_parse_def)

lemma document_row_eta [simp]:
  "\<lparr>pd_ordinal = pd_ordinal r, pd_document_id = pd_document_id r,
     pd_document_sha256 = pd_document_sha256 r, pd_text_sha256 = pd_text_sha256 r,
     pd_semantic_text = pd_semantic_text r, pd_kind = pd_kind r,
     pd_primary_relation = pd_primary_relation r, pd_facets_json = pd_facets_json r,
     pd_relations_json = pd_relations_json r, pd_occurrence_count = pd_occurrence_count r\<rparr> = r"
  by (cases r) simp

lemma occurrence_row_eta [simp]:
  "\<lparr>po_occurrence_id = po_occurrence_id r, po_document_id = po_document_id r,
     po_event_time_ms = po_event_time_ms r, po_relation = po_relation r,
     po_source_row_ordinal = po_source_row_ordinal r,
     po_exact_attributes_json = po_exact_attributes_json r,
     po_snapshot_sha256 = po_snapshot_sha256 r, po_mapping_sha256 = po_mapping_sha256 r,
     po_event_id = po_event_id r, po_support_ref = po_support_ref r\<rparr> = r"
  by (cases r) simp

lemma event_time_again: "(if t = None then None else Some (case t of None \<Rightarrow> 0 | Some v \<Rightarrow> v)) = t"
  by (cases t) simp_all

lemma try_map_upt:
  assumes "\<And>i. i < length rows \<Longrightarrow> f i = Inr (rows ! i)"
  shows "try_map f [0..<length rows] = Inr rows"
  using assms by (simp add: try_map_ok list_all2_conv_all_nth)

lemma read_document_batch_of:
  assumes "list_all (\<lambda>r. prepared_document_row_validate X r = Inr () \<and>
    digest_wf (pd_document_sha256 r) \<and> digest_wf (pd_text_sha256 r)) rows"
  shows "read_document_batch X (document_batch rows) = Inr rows"
proof -
  let ?cols = "[map pd_document_id rows, map (\<lambda>r. digest_str (pd_document_sha256 r)) rows,
    map (\<lambda>r. digest_str (pd_text_sha256 r)) rows, map pd_semantic_text rows,
    map (\<lambda>r. document_kind_str (pd_kind r)) rows, map pd_primary_relation rows,
    map pd_facets_json rows, map pd_relations_json rows]"
  have idx: "[1..<9] = [1, 2, 3, 4, 5, 6, 7, 8]" by (simp add: upt_rec)
  have cols: "try_map (utf8_column e (document_batch rows)) [1..<9] = Inr ?cols" for e
    unfolding idx by (simp add: utf8_column_def document_batch_def)
  have row: "read_document_row X (map (\<lambda>r. Some (pd_ordinal r)) rows) ?cols
      (map (\<lambda>r. Some (pd_occurrence_count r)) rows) i = Inr (rows ! i)" if "i < length rows" for i
    using assms that
    by (simp add: read_document_row_def u64_value_def list_all_length digest_wf_def Let_def)
  have ends: "u64_column e (document_batch rows) 0 = Inr (map (\<lambda>r. Some (pd_ordinal r)) rows)"
    "u64_column e (document_batch rows) 9 = Inr (map (\<lambda>r. Some (pd_occurrence_count r)) rows)" for e
    by (simp_all add: u64_column_def document_batch_def)
  have "rb_schema (document_batch rows) = prepared_document_schema"
    "rb_rows (document_batch rows) = length rows" by (simp_all add: document_batch_def)
  then show ?thesis
    by (simp only: read_document_batch_def ends cols rbind_simps simp_thms if_False
        try_map_upt [OF row])
qed

text \<open>
  Valid document rows survive the table: written as record batches in any grouping, they
  are read back unchanged.
\<close>

theorem read_written_documents:
  assumes "list_all (\<lambda>r. prepared_document_row_validate X r = Inr () \<and>
      digest_wf (pd_document_sha256 r) \<and> digest_wf (pd_text_sha256 r)) (concat groups)"
  shows "write_prepared_documents X (concat groups) = Inr (document_batch (concat groups)) \<and>
    read_prepared_documents X (map document_batch groups) = Inr (concat groups)"
proof
  show "write_prepared_documents X (concat groups) = Inr (document_batch (concat groups))"
    using assms by (auto simp: write_prepared_documents_def rbind_eq_Inr try_all_ok list_all_iff)
  have "try_map (read_document_batch X) (map document_batch groups) = Inr groups"
    using assms by (induction groups) (simp_all add: read_document_batch_of)
  then show "read_prepared_documents X (map document_batch groups) = Inr (concat groups)"
    by (simp add: read_prepared_documents_def)
qed

lemma read_occurrence_batch_of:
  assumes "list_all (\<lambda>r. prepared_occurrence_row_validate X r = Inr () \<and>
    digest_wf (po_snapshot_sha256 r) \<and> digest_wf (po_mapping_sha256 r)) rows"
  shows "read_occurrence_batch X (occurrence_batch rows) = Inr rows"
proof -
  let ?cols = "[map po_occurrence_id rows, map po_document_id rows] @ [map po_relation rows] @
    [map po_exact_attributes_json rows, map (\<lambda>r. digest_str (po_snapshot_sha256 r)) rows,
    map (\<lambda>r. digest_str (po_mapping_sha256 r)) rows, map po_event_id rows, map po_support_ref rows]"
  have row: "read_occurrence_row X ?cols (map po_event_time_ms rows)
      (map (\<lambda>r. Some (po_source_row_ordinal r)) rows) i = Inr (rows ! i)" if "i < length rows" for i
    unfolding read_occurrence_row_def Let_def u64_value_def nth_map [OF that] event_time_again
    using assms that by (simp add: list_all_length digest_wf_def)
  have cols: "try_map (utf8_column e (occurrence_batch rows)) [0, 1]
      = Inr [map po_occurrence_id rows, map po_document_id rows]"
    "u64_column e (occurrence_batch rows) 2 = Inr (map po_event_time_ms rows)"
    "utf8_column e (occurrence_batch rows) 3 = Inr (map po_relation rows)"
    "u64_column e (occurrence_batch rows) 4 = Inr (map (\<lambda>r. Some (po_source_row_ordinal r)) rows)"
    "try_map (utf8_column e (occurrence_batch rows)) [5, 6, 7, 8, 9]
      = Inr [map po_exact_attributes_json rows, map (\<lambda>r. digest_str (po_snapshot_sha256 r)) rows,
        map (\<lambda>r. digest_str (po_mapping_sha256 r)) rows, map po_event_id rows,
        map po_support_ref rows]" for e
    by (simp_all add: u64_column_def utf8_column_def occurrence_batch_def)
  have "rb_schema (occurrence_batch rows) = prepared_occurrence_schema"
    "rb_rows (occurrence_batch rows) = length rows" by (simp_all add: occurrence_batch_def)
  then show ?thesis
    by (simp only: read_occurrence_batch_def cols rbind_simps simp_thms if_False
        try_map_upt [OF row])
qed

text \<open>
  Valid occurrence rows survive the table as well, absent event times included.
\<close>

theorem read_written_occurrences:
  assumes "list_all (\<lambda>r. prepared_occurrence_row_validate X r = Inr () \<and>
      digest_wf (po_snapshot_sha256 r) \<and> digest_wf (po_mapping_sha256 r)) (concat groups)"
  shows "write_prepared_occurrences X (concat groups) = Inr (occurrence_batch (concat groups)) \<and>
    read_prepared_occurrences X (map occurrence_batch groups) = Inr (concat groups)"
proof
  show "write_prepared_occurrences X (concat groups) = Inr (occurrence_batch (concat groups))"
    using assms by (auto simp: write_prepared_occurrences_def rbind_eq_Inr try_all_ok list_all_iff)
  have "try_map (read_occurrence_batch X) (map occurrence_batch groups) = Inr groups"
    using assms by (induction groups) (simp_all add: read_occurrence_batch_of)
  then show "read_prepared_occurrences X (map occurrence_batch groups) = Inr (concat groups)"
    by (simp add: read_prepared_occurrences_def)
qed

subsection \<open>Concrete rows\<close>

definition occurrence0 :: "string \<Rightarrow> u64 option \<Rightarrow> prepared_occurrence_row" where
  "occurrence0 i t = \<lparr>po_occurrence_id = i, po_document_id = ''a'', po_event_time_ms = t,
     po_relation = ''r'', po_source_row_ordinal = 4, po_exact_attributes_json = ''{}'',
     po_snapshot_sha256 = D0, po_mapping_sha256 = D0, po_event_id = ''e'', po_support_ref = ''s''\<rparr>"

lemma D0_wf: "digest_wf D0"
  by (simp add: digest_wf_def D0_def digest_new_def list_all_iff is_lower_hex_def)

theorem read_written_documents_witness:
  "read_prepared_documents X0 (map document_batch [[row0 0 ''a''], [row0 1 ''b'', row0 2 ''c'']]) =
     Inr [row0 0 ''a'', row0 1 ''b'', row0 2 ''c'']"
proof -
  have "list_all (\<lambda>r. prepared_document_row_validate X0 r = Inr () \<and>
      digest_wf (pd_document_sha256 r) \<and> digest_wf (pd_text_sha256 r))
    (concat [[row0 0 ''a''], [row0 1 ''b'', row0 2 ''c'']])"
    by (simp add: row0_ok MAX_SAFE_JSON_INTEGER_def) (simp add: row0_def D0_wf)
  from read_written_documents [OF this] show ?thesis by simp
qed

theorem read_written_occurrences_witness:
  "read_prepared_occurrences X0 (map occurrence_batch
       [[occurrence0 ''x'' None], [occurrence0 ''y'' (Some 12)]]) =
     Inr [occurrence0 ''x'' None, occurrence0 ''y'' (Some 12)]"
proof -
  have "list_all (\<lambda>r. prepared_occurrence_row_validate X0 r = Inr () \<and>
      digest_wf (po_snapshot_sha256 r) \<and> digest_wf (po_mapping_sha256 r))
    (concat [[occurrence0 ''x'' None], [occurrence0 ''y'' (Some 12)]])"
    by (simp add: prepared_occurrence_row_validate_def occurrence0_def checks D0_wf
        validate_canonical_json_def canonical_json_bytes_def)
      (simp add: X0_def str_bytes_def)
  from read_written_occurrences [OF this] show ?thesis by simp
qed

end
