(* ===== verification/Receipts.thy ===== *)
theory Receipts
  imports Plan
begin

text \<open>
  Receipts and result sets of \<open>crates/rag-pipeline/src/lib.rs\<close>: what a finished task reports
  of its vectors, the validation of a receipt against its plan (three kinds of executor:
  model, synthetic test vectors, derivation from a parent result set) and the result set that
  binds one receipt to every task of a plan.
\<close>

subsection \<open>Data\<close>

record vector_object =
  vo_path :: safe_path
  vo_rows :: u64
  vo_bytes :: u64
  vo_sha256 :: digest
  vo_dimensions :: u32
  vo_dtype :: string
  vo_order_sha256 :: digest

record executor_receipt =
  ex_implementation :: component_ref
  ex_runtime :: component_ref
  ex_returned_model :: string
  ex_requests :: u64
  ex_retries :: u64
  ex_input_bytes_upper_bound :: u64
  ex_elapsed_ms :: u64
  ex_conformance_passed :: bool

record derived_vector_binding =
  dv_parent_embedding_profile_sha256 :: digest
  dv_parent_result_set_sha256 :: digest
  dv_parent_receipt_sha256 :: digest
  dv_parent_vector_sha256 :: digest
  dv_parent_dimensions :: u32
  dv_transformation :: string

record vector_result_receipt =
  vr_schema_version :: string
  vr_component_sha256 :: digest
  vr_plan_sha256 :: digest
  vr_prepared_corpus_sha256 :: digest
  vr_embedding_profile_sha256 :: digest
  vr_task_id :: string
  vr_ordinal_start :: u64
  vr_ordinal_end :: u64
  vr_order_sha256 :: digest
  vr_vector :: vector_object
  vr_executor :: executor_receipt
  vr_derivation :: "derived_vector_binding option"
  vr_finite_values_validated :: bool
  vr_normalization_validated :: bool

definition VECTOR_RECEIPT_SCHEMA :: string where
  "VECTOR_RECEIPT_SCHEMA = ''livefire.rag.vector-result-receipt/1''"

definition DERIVED_VECTOR_RECEIPT_SCHEMA :: string where
  "DERIVED_VECTOR_RECEIPT_SCHEMA = ''livefire.rag.vector-result-receipt/2''"

definition TEST_VECTOR_EXECUTOR_ID :: string where
  "TEST_VECTOR_EXECUTOR_ID = ''livefire.rag.embedding-executor.deterministic-test-vectors''"

definition DERIVED_VECTOR_EXECUTOR_ID :: string where
  "DERIVED_VECTOR_EXECUTOR_ID = ''livefire.rag.embedding-executor.prefix-l2-derivation''"

definition PREFIX_L2_DERIVATION_POLICY :: string where
  "PREFIX_L2_DERIVATION_POLICY = ''prefix_then_l2_normalize_v1''"

definition json_vector_object :: "vector_object \<Rightarrow> json" where
  "json_vector_object v = JObj
     [(''path'', json_path (vo_path v)), (''rows'', json_u64 (vo_rows v)),
      (''bytes'', json_u64 (vo_bytes v)), (''sha256'', json_digest (vo_sha256 v)),
      (''dimensions'', json_u32 (vo_dimensions v)), (''dtype'', JStr (vo_dtype v)),
      (''embedding_input_order_sha256'', json_digest (vo_order_sha256 v))]"

definition json_executor_receipt :: "executor_receipt \<Rightarrow> json" where
  "json_executor_receipt e = JObj
     [(''implementation'', json_component_ref (ex_implementation e)),
      (''runtime'', json_component_ref (ex_runtime e)),
      (''returned_model'', JStr (ex_returned_model e)),
      (''requests'', json_u64 (ex_requests e)), (''retries'', json_u64 (ex_retries e)),
      (''input_bytes_upper_bound'', json_u64 (ex_input_bytes_upper_bound e)),
      (''elapsed_ms'', json_u64 (ex_elapsed_ms e)),
      (''conformance_passed'', JBool (ex_conformance_passed e))]"

definition json_derived_vector_binding :: "derived_vector_binding \<Rightarrow> json" where
  "json_derived_vector_binding b = JObj
     [(''parent_embedding_profile_sha256'', json_digest (dv_parent_embedding_profile_sha256 b)),
      (''parent_result_set_sha256'', json_digest (dv_parent_result_set_sha256 b)),
      (''parent_receipt_sha256'', json_digest (dv_parent_receipt_sha256 b)),
      (''parent_vector_sha256'', json_digest (dv_parent_vector_sha256 b)),
      (''parent_dimensions'', json_u32 (dv_parent_dimensions b)),
      (''transformation'', JStr (dv_transformation b))]"

definition json_vector_receipt :: "vector_result_receipt \<Rightarrow> json" where
  "json_vector_receipt r = JObj (
     [(''schema_version'', JStr (vr_schema_version r)),
      (''component_sha256'', json_digest (vr_component_sha256 r)),
      (''plan_sha256'', json_digest (vr_plan_sha256 r)),
      (''prepared_corpus_sha256'', json_digest (vr_prepared_corpus_sha256 r)),
      (''embedding_profile_sha256'', json_digest (vr_embedding_profile_sha256 r)),
      (''task_id'', JStr (vr_task_id r)),
      (''ordinal_start'', json_u64 (vr_ordinal_start r)),
      (''ordinal_end'', json_u64 (vr_ordinal_end r)),
      (''embedding_input_order_sha256'', json_digest (vr_order_sha256 r)),
      (''vector'', json_vector_object (vr_vector r)),
      (''executor'', json_executor_receipt (vr_executor r))] @
     (case vr_derivation r of None \<Rightarrow> []
      | Some b \<Rightarrow> [(''derivation'', json_derived_vector_binding b)]) @
     [(''finite_values_validated'', JBool (vr_finite_values_validated r)),
      (''normalization_validated'', JBool (vr_normalization_validated r))])"

subsection \<open>Receipts\<close>

definition derived_vector_binding_validate ::
    "derived_vector_binding \<Rightarrow> u32 \<Rightarrow> pipeline_error + unit" where
  "derived_vector_binding_validate b target_dimensions =
     (if dv_parent_dimensions b \<le> target_dimensions
         \<or> dv_transformation b \<noteq> PREFIX_L2_DERIVATION_POLICY
      then Inl (Invalid ''derived vector binding'') else Inr ())"

definition receipt_test_only :: "vector_result_receipt \<Rightarrow> bool" where
  "receipt_test_only r \<longleftrightarrow> cr_id (ex_implementation (vr_executor r)) = TEST_VECTOR_EXECUTOR_ID"

definition receipt_derived :: "vector_result_receipt \<Rightarrow> bool" where
  "receipt_derived r \<longleftrightarrow> vr_derivation r \<noteq> None"

definition invalid_executor :: "vector_result_receipt \<Rightarrow> bool" where
  "invalid_executor r \<longleftrightarrow>
     (let e = vr_executor r in
      if receipt_test_only r
      then ex_requests e \<noteq> 0 \<or> ex_retries e \<noteq> 0 \<or> ex_conformance_passed e
      else if receipt_derived r
      then cr_id (ex_implementation e) \<noteq> DERIVED_VECTOR_EXECUTOR_ID
        \<or> ex_requests e \<noteq> 0 \<or> ex_retries e \<noteq> 0 \<or> ex_conformance_passed e
      else \<not> ex_conformance_passed e \<or> ex_retries e > ex_requests e \<or> ex_requests e = 0)"

definition expected_vector_bytes :: "vector_object \<Rightarrow> pipeline_error + u64" where
  "expected_vector_bytes v =
     rbind (ok_or (Invalid ''receipt vector byte length'')
       (Option.bind (checked_mul (vo_rows v) (u64_of_u32 (vo_dimensions v)))
          (\<lambda>values. checked_mul values 4))) (\<lambda>data.
     ok_or (Invalid ''receipt vector byte length'') (checked_add 64 data))"

definition receipt_validate_against ::
    "externals \<Rightarrow> embedding_plan \<Rightarrow> vector_result_receipt \<Rightarrow> pipeline_error + unit" where
  "receipt_validate_against X plan r =
     (let v = vr_vector r; e = vr_executor r in
     rbind (try_all require_safe_u64
              [vr_ordinal_start r, vr_ordinal_end r, vo_rows v, vo_bytes v, ex_requests e,
               ex_retries e, ex_input_bytes_upper_bound e, ex_elapsed_ms e]) (\<lambda>_.
     if (vr_schema_version r, receipt_derived r)
          \<notin> {(VECTOR_RECEIPT_SCHEMA, False), (DERIVED_VECTOR_RECEIPT_SCHEMA, True)}
     then Inl (Invalid ''vector receipt schema'')
     else
     rbind (ok_or (Invalid ''receipt task'') (plan_task plan (vr_task_id r))) (\<lambda>t.
     if vr_plan_sha256 r \<noteq> pl_component_sha256 plan
        \<or> vr_prepared_corpus_sha256 r \<noteq> pl_prepared_corpus_sha256 plan
        \<or> vr_embedding_profile_sha256 r \<noteq> cr_sha256 (epr_component (pl_embedding_profile plan))
        \<or> vr_ordinal_start r \<noteq> tk_ordinal_start t
        \<or> vr_ordinal_end r \<noteq> tk_ordinal_end t
        \<or> vr_order_sha256 r \<noteq> tk_order_sha256 t
        \<or> vo_path v \<noteq> tk_result_path t
        \<or> vo_rows v \<noteq> task_row_count t
        \<or> vo_dimensions v \<noteq> epr_dimensions (pl_embedding_profile plan)
        \<or> vo_dtype v \<noteq> epr_dtype (pl_embedding_profile plan)
        \<or> vo_order_sha256 v \<noteq> tk_order_sha256 t
     then Inl (Invalid ''receipt plan binding'')
     else if \<not> vr_finite_values_validated r \<or> \<not> vr_normalization_validated r
     then Inl (Invalid ''receipt validation flags'')
     else
     rbind (component_ref_validate (ex_implementation e)) (\<lambda>_.
     rbind (component_ref_validate (ex_runtime e)) (\<lambda>_.
     rbind (require_text (ex_returned_model e)) (\<lambda>_.
     rbind (case vr_derivation r of None \<Rightarrow> Inr ()
            | Some b \<Rightarrow> derived_vector_binding_validate b (vo_dimensions v)) (\<lambda>_.
     if invalid_executor r then Inl (Invalid ''receipt executor validation'')
     else
     rbind (expected_vector_bytes v) (\<lambda>expected_bytes.
     if vo_bytes v \<noteq> expected_bytes then Inl (Invalid ''receipt vector byte length'')
     else
     rbind (component_digest X (json_vector_receipt r)) (\<lambda>d.
     if vr_component_sha256 r \<noteq> d then Inl (Invalid ''receipt component digest'')
     else Inr ())))))))))"

definition receipt_seal ::
    "externals \<Rightarrow> vector_result_receipt \<Rightarrow> pipeline_error + vector_result_receipt" where
  "receipt_seal X r =
     rbind (component_digest X (json_vector_receipt r)) (\<lambda>d. Inr (r\<lparr>vr_component_sha256 := d\<rparr>))"

subsection \<open>Result sets\<close>

record receipt_entry =
  re_task_id :: string
  re_path :: safe_path
  re_sha256 :: digest

record derived_result_set_binding =
  dr_parent_embedding_profile_sha256 :: digest
  dr_parent_result_set_sha256 :: digest
  dr_parent_dimensions :: u32
  dr_transformation :: string

record embedding_result_set =
  rs_schema_version :: string
  rs_component_sha256 :: digest
  rs_plan_sha256 :: digest
  rs_prepared_corpus_sha256 :: digest
  rs_embedding_profile_sha256 :: digest
  rs_document_count :: u64
  rs_document_order_sha256 :: digest
  rs_receipts :: "receipt_entry list"
  rs_derivation :: "derived_result_set_binding option"
  rs_test_only :: bool

definition RESULT_SET_SCHEMA :: string where
  "RESULT_SET_SCHEMA = ''livefire.rag.embedding-result-set/1''"

definition TEST_RESULT_SET_SCHEMA :: string where
  "TEST_RESULT_SET_SCHEMA = ''livefire.rag.embedding-result-set/2''"

definition DERIVED_RESULT_SET_SCHEMA :: string where
  "DERIVED_RESULT_SET_SCHEMA = ''livefire.rag.embedding-result-set/3''"

definition json_receipt_entry :: "receipt_entry \<Rightarrow> json" where
  "json_receipt_entry e = JObj
     [(''task_id'', JStr (re_task_id e)), (''path'', json_path (re_path e)),
      (''sha256'', json_digest (re_sha256 e))]"

definition json_derived_result_set_binding :: "derived_result_set_binding \<Rightarrow> json" where
  "json_derived_result_set_binding b = JObj
     [(''parent_embedding_profile_sha256'', json_digest (dr_parent_embedding_profile_sha256 b)),
      (''parent_result_set_sha256'', json_digest (dr_parent_result_set_sha256 b)),
      (''parent_dimensions'', json_u32 (dr_parent_dimensions b)),
      (''transformation'', JStr (dr_transformation b))]"

text \<open>\<open>derivation\<close> is skipped when absent and \<open>test_only\<close> when false.\<close>

definition json_result_set :: "embedding_result_set \<Rightarrow> json" where
  "json_result_set s = JObj (
     [(''schema_version'', JStr (rs_schema_version s)),
      (''component_sha256'', json_digest (rs_component_sha256 s)),
      (''plan_sha256'', json_digest (rs_plan_sha256 s)),
      (''prepared_corpus_sha256'', json_digest (rs_prepared_corpus_sha256 s)),
      (''embedding_profile_sha256'', json_digest (rs_embedding_profile_sha256 s)),
      (''document_count'', json_u64 (rs_document_count s)),
      (''document_order_sha256'', json_digest (rs_document_order_sha256 s)),
      (''receipts'', JArr (map json_receipt_entry (rs_receipts s)))] @
     (case rs_derivation s of None \<Rightarrow> []
      | Some b \<Rightarrow> [(''derivation'', json_derived_result_set_binding b)]) @
     (if rs_test_only s then [(''test_only'', JBool True)] else []))"

definition derived_result_set_binding_validate ::
    "derived_result_set_binding \<Rightarrow> u32 \<Rightarrow> pipeline_error + unit" where
  "derived_result_set_binding_validate b target_dimensions =
     (if dr_parent_dimensions b \<le> target_dimensions
         \<or> dr_transformation b \<noteq> PREFIX_L2_DERIVATION_POLICY
      then Inl (Invalid ''derived result-set binding'') else Inr ())"

definition receipt_derivation_key ::
    "vector_result_receipt \<Rightarrow> (digest \<times> digest \<times> u32 \<times> string) option" where
  "receipt_derivation_key r = map_option (\<lambda>b.
     (dv_parent_embedding_profile_sha256 b, dv_parent_result_set_sha256 b,
      dv_parent_dimensions b, dv_transformation b)) (vr_derivation r)"

definition set_derivation_key ::
    "embedding_result_set \<Rightarrow> (digest \<times> digest \<times> u32 \<times> string) option" where
  "set_derivation_key s = map_option (\<lambda>b.
     (dr_parent_embedding_profile_sha256 b, dr_parent_result_set_sha256 b,
      dr_parent_dimensions b, dr_transformation b)) (rs_derivation s)"

definition check_result_task ::
    "externals \<Rightarrow> embedding_result_set \<Rightarrow> embedding_plan \<Rightarrow> (string, receipt_entry) btree \<Rightarrow>
     (string, vector_result_receipt) btree \<Rightarrow> embedding_task \<Rightarrow> pipeline_error + unit" where
  "check_result_task X s plan entries receipts t =
     rbind (ok_or (Invalid ''missing result task'') (bt_get entries (tk_task_id t))) (\<lambda>entry.
     rbind (ok_or (Invalid ''missing receipt'') (bt_get receipts (tk_task_id t))) (\<lambda>receipt.
     rbind (receipt_validate_against X plan receipt) (\<lambda>_.
     if receipt_test_only receipt \<noteq> rs_test_only s
     then Inl (Invalid ''result set test-only binding'')
     else if receipt_derivation_key receipt \<noteq> set_derivation_key s
     then Inl (Invalid ''result derivation binding'')
     else if re_path entry \<noteq> tk_receipt_path t \<or> re_sha256 entry \<noteq> vr_component_sha256 receipt
     then Inl (Invalid ''result receipt binding'')
     else Inr ())))"

definition result_set_validate ::
    "externals \<Rightarrow> embedding_result_set \<Rightarrow> embedding_plan \<Rightarrow> vector_result_receipt list \<Rightarrow>
     pipeline_error + unit" where
  "result_set_validate X s plan loaded =
     rbind (require_safe_u64 (rs_document_count s)) (\<lambda>_.
     if (rs_schema_version s, rs_test_only s, rs_derivation s \<noteq> None)
          \<notin> {(RESULT_SET_SCHEMA, False, False), (TEST_RESULT_SET_SCHEMA, True, False),
             (DERIVED_RESULT_SET_SCHEMA, False, True)}
        \<or> rs_plan_sha256 s \<noteq> pl_component_sha256 plan
        \<or> rs_prepared_corpus_sha256 s \<noteq> pl_prepared_corpus_sha256 plan
        \<or> rs_embedding_profile_sha256 s \<noteq> cr_sha256 (epr_component (pl_embedding_profile plan))
        \<or> rs_document_count s \<noteq> pl_document_count plan
        \<or> rs_document_order_sha256 s \<noteq> pl_document_order_sha256 plan
     then Inl (Invalid ''result set plan binding'')
     else if length (rs_receipts s) \<noteq> length (pl_tasks plan)
        \<or> length loaded \<noteq> length (pl_tasks plan)
     then Inl (Invalid ''result set coverage'')
     else
     rbind (case rs_derivation s of None \<Rightarrow> Inr ()
            | Some b \<Rightarrow> derived_result_set_binding_validate b
                        (epr_dimensions (pl_embedding_profile plan))) (\<lambda>_.
     let entries = bt_collect (map (\<lambda>e. (re_task_id e, e)) (rs_receipts s)) in
     if length entries \<noteq> length (rs_receipts s) then Inl (Invalid ''duplicate result task'')
     else
     let receipts = bt_collect (map (\<lambda>r. (vr_task_id r, r)) loaded) in
     if length receipts \<noteq> length loaded then Inl (Invalid ''duplicate receipt task'')
     else
     rbind (try_all (check_result_task X s plan entries receipts) (pl_tasks plan)) (\<lambda>_.
     rbind (component_digest X (json_result_set s)) (\<lambda>d.
     if rs_component_sha256 s \<noteq> d then Inl (Invalid ''result set component digest'')
     else Inr ()))))"

definition result_set_seal ::
    "externals \<Rightarrow> embedding_result_set \<Rightarrow> pipeline_error + embedding_result_set" where
  "result_set_seal X s =
     rbind (component_digest X (json_result_set s)) (\<lambda>d. Inr (s\<lparr>rs_component_sha256 := d\<rparr>))"

subsection \<open>What accepted receipts promise\<close>

lemma unat_small: "unat (4 :: u64) = 4" "unat (64 :: u64) = 64"
  by simp_all

lemma expected_vector_bytes_ok:
  "expected_vector_bytes v = Inr n \<longleftrightarrow>
     unat n = 64 + unat (vo_rows v) * unat (vo_dimensions v) * 4"
proof -
  have mul: "unat n = 64 + unat w \<Longrightarrow> unat w = k * 4 \<Longrightarrow> \<exists>x :: u64. unat x = k" for w :: u64 and k
    using exists_word_unat [of k w] by simp
  have "expected_vector_bytes v = Inr n \<longleftrightarrow> (\<exists>(w :: u64) (x :: u64).
      unat x = unat (vo_rows v) * unat (vo_dimensions v) \<and> unat w = unat x * 4 \<and>
      unat n = 64 + unat w)"
    unfolding expected_vector_bytes_def rbind_eq_Inr ok_or_eq_Inr Option.bind_eq_Some_conv
      checked_mul_unat checked_add_unat unat_u64_of_u32 by (simp only: unat_small) blast
  also have "\<dots> \<longleftrightarrow> unat n = 64 + unat (vo_rows v) * unat (vo_dimensions v) * 4"
  proof
    assume n: "unat n = 64 + unat (vo_rows v) * unat (vo_dimensions v) * 4"
    obtain w :: u64 where w: "unat w = unat (vo_rows v) * unat (vo_dimensions v) * 4"
      using exists_word_unat [of "unat (vo_rows v) * unat (vo_dimensions v) * 4" n] n by auto
    from mul [of w, OF _ w] n w obtain x :: u64 where
      "unat x = unat (vo_rows v) * unat (vo_dimensions v)" by auto
    with w n show "\<exists>(w :: u64) (x :: u64). unat x = unat (vo_rows v) * unat (vo_dimensions v) \<and>
        unat w = unat x * 4 \<and> unat n = 64 + unat w"
      by (intro exI [of _ w] exI [of _ x]) simp
  qed auto
  finally show ?thesis .
qed

text \<open>What the plan and the task say of a receipt.\<close>

definition receipt_bound :: "embedding_plan \<Rightarrow> embedding_task \<Rightarrow> vector_result_receipt \<Rightarrow> bool" where
  "receipt_bound plan t r \<longleftrightarrow>
     vr_plan_sha256 r = pl_component_sha256 plan \<and>
     vr_ordinal_start r = tk_ordinal_start t \<and> vr_ordinal_end r = tk_ordinal_end t \<and>
     vo_path (vr_vector r) = tk_result_path t \<and> vo_rows (vr_vector r) = task_row_count t \<and>
     vo_dimensions (vr_vector r) = epr_dimensions (pl_embedding_profile plan) \<and>
     vr_order_sha256 r = tk_order_sha256 t"

definition executor_ok :: "vector_result_receipt \<Rightarrow> bool" where
  "executor_ok r \<longleftrightarrow>
     (let e = vr_executor r in
      if receipt_test_only r \<or> receipt_derived r
      then ex_requests e = 0 \<and> ex_retries e = 0 \<and> \<not> ex_conformance_passed e
      else ex_conformance_passed e \<and> 0 < ex_requests e \<and> ex_retries e \<le> ex_requests e)"

lemma receipt_accepted:
  assumes "receipt_validate_against X plan r = Inr ()"
  obtains t where "plan_task plan (vr_task_id r) = Some t" and "receipt_bound plan t r"
    and "executor_ok r"
    and "unat (vo_bytes (vr_vector r)) =
      64 + unat (vo_rows (vr_vector r)) * unat (vo_dimensions (vr_vector r)) * 4"
    and "component_digest X (json_vector_receipt r) = Inr (vr_component_sha256 r)"
proof -
  from assms obtain t b where
    "plan_task plan (vr_task_id r) = Some t" and "receipt_bound plan t r"
    and "\<not> invalid_executor r" and "expected_vector_bytes (vr_vector r) = Inr b"
    and "vo_bytes (vr_vector r) = b"
    and "component_digest X (json_vector_receipt r) = Inr (vr_component_sha256 r)"
    unfolding receipt_validate_against_def Let_def rbind_eq_Inr if_Inl_eq_Inr ok_or_eq_Inr
      receipt_bound_def de_Morgan_disj not_not by blast
  moreover from this(3) have "executor_ok r"
    by (auto simp: invalid_executor_def executor_ok_def Let_def linorder_not_less word_gt_0
        split: if_splits)
  ultimately show thesis
    using that expected_vector_bytes_ok by blast
qed

subsection \<open>What accepted result sets promise\<close>

lemma same_keys:
  assumes "distinct ks" and "distinct ls" and "length ks = length ls" and "set ks \<subseteq> set ls"
  shows "set ks = set ls"
  using assms by (metis card_subset_eq distinct_card List.finite_set)

text \<open>The total over a list of values is the total over a list that indexes it by its keys.\<close>

lemma sum_by_key:
  fixes f :: "'r \<Rightarrow> nat"
  assumes "distinct (map key rs)" and "distinct (map tag ts)" and "length rs = length ts"
    and find: "\<And>t. t \<in> set ts \<Longrightarrow> \<exists>r \<in> set rs. key r = tag t \<and> f r = g t"
  shows "sum_list (map f rs) = sum_list (map g ts)"
proof -
  obtain h where h: "\<And>t. t \<in> set ts \<Longrightarrow> h t \<in> set rs \<and> key (h t) = tag t \<and> f (h t) = g t"
    using find by metis
  have inj: "inj_on h (set ts)"
    using h assms(2) by (metis distinct_map inj_on_def)
  have dr: "distinct rs" and dt: "distinct ts"
    using assms(1,2) by (simp_all add: distinct_map)
  have "h ` set ts = set rs"
    using h inj dr dt assms(3)
    by (metis card_image card_subset_eq distinct_card List.finite_set image_subsetI)
  then have "(\<Sum>r \<in> set rs. f r) = (\<Sum>t \<in> set ts. g t)"
    using sum.reindex [OF inj, of f] h by simp
  then show ?thesis
    using dr dt by (simp add: sum_list_distinct_conv_sum_set)
qed

definition result_task_ok ::
    "externals \<Rightarrow> embedding_result_set \<Rightarrow> embedding_plan \<Rightarrow> vector_result_receipt list \<Rightarrow>
     embedding_task \<Rightarrow> bool" where
  "result_task_ok X s plan loaded t \<longleftrightarrow> (\<exists>e \<in> set (rs_receipts s). \<exists>r \<in> set loaded.
     re_task_id e = tk_task_id t \<and> vr_task_id r = tk_task_id t \<and>
     receipt_validate_against X plan r = Inr () \<and>
     receipt_test_only r = rs_test_only s \<and> receipt_derivation_key r = set_derivation_key s \<and>
     re_path e = tk_receipt_path t \<and> re_sha256 e = vr_component_sha256 r)"

lemma check_result_task_sound:
  assumes "check_result_task X s plan (bt_collect (map (\<lambda>e. (re_task_id e, e)) (rs_receipts s)))
      (bt_collect (map (\<lambda>r. (vr_task_id r, r)) loaded)) t = Inr ()"
  shows "result_task_ok X s plan loaded t"
proof -
  have find: "x \<in> set xs \<and> key x = k" if "bt_get (bt_collect (map (\<lambda>x. (key x, x)) xs)) k = Some x"
    for key :: "'x \<Rightarrow> string" and xs x k
    using that map_of_SomeD [of "rev (map (\<lambda>x. (key x, x)) xs)" k x] by (auto simp: bt_collect_get)
  from assms obtain e r where
    "bt_get (bt_collect (map (\<lambda>e. (re_task_id e, e)) (rs_receipts s))) (tk_task_id t) = Some e"
    "bt_get (bt_collect (map (\<lambda>r. (vr_task_id r, r)) loaded)) (tk_task_id t) = Some r"
    and "receipt_validate_against X plan r = Inr ()" "receipt_test_only r = rs_test_only s"
    "receipt_derivation_key r = set_derivation_key s" "re_path e = tk_receipt_path t"
    "re_sha256 e = vr_component_sha256 r"
    unfolding check_result_task_def rbind_eq_Inr ok_or_eq_Inr if_Inl_eq_Inr by auto
  with find [of re_task_id] find [of vr_task_id] show ?thesis
    unfolding result_task_ok_def by blast
qed

lemma result_set_parts:
  assumes "result_set_validate X s plan loaded = Inr ()"
  shows "rs_document_count s = pl_document_count plan"
    and "length (rs_receipts s) = length (pl_tasks plan)" and "length loaded = length (pl_tasks plan)"
    and "distinct (map re_task_id (rs_receipts s))" and "distinct (map vr_task_id loaded)"
    and "list_all (result_task_ok X s plan loaded) (pl_tasks plan)"
proof -
  let ?es = "map (\<lambda>e. (re_task_id e, e)) (rs_receipts s)"
  let ?rs = "map (\<lambda>r. (vr_task_id r, r)) loaded"
  from assms have
    p: "rs_document_count s = pl_document_count plan"
      "length (rs_receipts s) = length (pl_tasks plan)" "length loaded = length (pl_tasks plan)"
    and d: "length (bt_collect ?es) = length (rs_receipts s)" "length (bt_collect ?rs) = length loaded"
    and t: "try_all (check_result_task X s plan (bt_collect ?es) (bt_collect ?rs)) (pl_tasks plan)
      = Inr ()"
    unfolding result_set_validate_def Let_def rbind_eq_Inr if_Inl_eq_Inr by auto
  from p show "rs_document_count s = pl_document_count plan"
    and "length (rs_receipts s) = length (pl_tasks plan)" and "length loaded = length (pl_tasks plan)"
    by simp_all
  show "distinct (map re_task_id (rs_receipts s))" "distinct (map vr_task_id loaded)"
    using d bt_collect_distinct [of ?es] bt_collect_distinct [of ?rs] by (simp_all add: comp_def)
  show "list_all (result_task_ok X s plan loaded) (pl_tasks plan)"
    using t by (auto simp: try_all_ok list_all_iff intro: check_result_task_sound)
qed

lemma plan_task_distinct:
  assumes "distinct (map tk_task_id (pl_tasks plan))" and "t \<in> set (pl_tasks plan)"
    and "plan_task plan (tk_task_id t) = Some t'"
  shows "t' = t"
proof -
  from assms(3) have "t' \<in> set (pl_tasks plan)" and "tk_task_id t' = tk_task_id t"
    by (auto simp: plan_task_def find_Some_iff)
  with assms(1,2) show ?thesis by (metis distinct_map inj_onD)
qed

lemma accepted_task_object:
  assumes "distinct (map tk_task_id (pl_tasks plan))" "t \<in> set (pl_tasks plan)"
    and "vr_task_id r = tk_task_id t" "receipt_validate_against X plan r = Inr ()"
  shows "vo_rows (vr_vector r) = task_row_count t \<and> unat (vo_bytes (vr_vector r)) =
    64 + 4 * unat (epr_dimensions (pl_embedding_profile plan)) * unat (task_row_count t)"
  using receipt_accepted [OF assms(4)] plan_task_distinct [OF assms(1,2)] assms(3)
  by (auto simp: receipt_bound_def algebra_simps)

lemma task_result_object:
  assumes ids: "distinct (map tk_task_id (pl_tasks plan))" and t: "t \<in> set (pl_tasks plan)"
    and acc: "result_set_validate X s plan loaded = Inr ()"
  shows "\<exists>e \<in> set (rs_receipts s). \<exists>r \<in> set loaded. re_task_id e = tk_task_id t \<and>
    vr_task_id r = tk_task_id t \<and> unat (vo_rows (vr_vector r)) = unat (task_row_count t) \<and>
    unat (vo_bytes (vr_vector r)) =
      64 + 4 * unat (epr_dimensions (pl_embedding_profile plan)) * unat (task_row_count t) \<and>
    receipt_test_only r = rs_test_only s \<and> receipt_derivation_key r = set_derivation_key s"
proof -
  from result_set_parts(6) [OF acc] t obtain e r where e: "e \<in> set (rs_receipts s)" "r \<in> set loaded"
    "re_task_id e = tk_task_id t" "vr_task_id r = tk_task_id t" "receipt_validate_against X plan r = Inr ()"
    "receipt_test_only r = rs_test_only s" "receipt_derivation_key r = set_derivation_key s"
    unfolding list_all_iff result_task_ok_def by blast
  moreover note accepted_task_object [OF ids t e(4,5)]
  ultimately show ?thesis by (intro bexI [of _ e] bexI [of _ r] conjI) simp_all
qed

lemma sum_list_affine:
  "sum_list (map (\<lambda>t. c + k * f t) ts) = c * length ts + k * sum_list (map f ts)" for c k :: nat
  by (induction ts) (simp_all add: algebra_simps)

text \<open>
  C3: a result set accepted for a valid plan closes it: its entries and the loaded receipts
  name every task of the plan exactly once and nothing else, the vectors hold as many rows as
  the plan has documents and, with 64 header bytes per task, exactly the bytes of those rows,
  and every receipt is of the same kind (model, test, derived) as the set.
\<close>

theorem result_set_closes_plan:
  assumes plan: "embedding_plan_validate X plan = Inr ()"
    and acc: "result_set_validate X s plan loaded = Inr ()"
  shows "distinct (map re_task_id (rs_receipts s)) \<and> distinct (map vr_task_id loaded) \<and>
    re_task_id ` set (rs_receipts s) = tk_task_id ` set (pl_tasks plan) \<and>
    vr_task_id ` set loaded = tk_task_id ` set (pl_tasks plan) \<and>
    sum_list (map (\<lambda>r. unat (vo_rows (vr_vector r))) loaded) = unat (pl_document_count plan) \<and>
    sum_list (map (\<lambda>r. unat (vo_bytes (vr_vector r))) loaded) = 64 * length (pl_tasks plan) +
      4 * unat (epr_dimensions (pl_embedding_profile plan)) * unat (pl_document_count plan) \<and>
    list_all (\<lambda>r. receipt_test_only r = rs_test_only s \<and>
      receipt_derivation_key r = set_derivation_key s) loaded"
proof -
  let ?ts = "pl_tasks plan" and ?d = "unat (epr_dimensions (pl_embedding_profile plan))"
  note parts = result_set_parts [OF acc]
  have v: "validate_tasks ?ts (pl_document_count plan) = Inr ()"
    using plan by (simp add: embedding_plan_validate_iff embedding_plan_body_def)
  then have ids: "distinct (map tk_task_id ?ts)" using validate_tasks_accepts by blast
  have total: "sum_list (map (\<lambda>t. unat (task_row_count t)) ?ts) = unat (pl_document_count plan)"
    using v1_tasks.total_rows [OF v] by (simp add: task_row_count_def word_facts)
  note ok = task_result_object [OF ids _ acc]
  have subs: "tk_task_id ` set ?ts \<subseteq> re_task_id ` set (rs_receipts s)"
    "tk_task_id ` set ?ts \<subseteq> vr_task_id ` set loaded"
    using ok by (simp_all add: image_subset_iff image_iff) metis+
  have es: "re_task_id ` set (rs_receipts s) = tk_task_id ` set ?ts"
    using same_keys [OF ids parts(4)] parts(2) subs(1) by simp
  have ls: "vr_task_id ` set loaded = tk_task_id ` set ?ts"
    using same_keys [OF ids parts(5)] parts(3) subs(2) by simp
  have rows: "sum_list (map (\<lambda>r. unat (vo_rows (vr_vector r))) loaded) =
      sum_list (map (\<lambda>t. unat (task_row_count t)) ?ts)"
    by (rule sum_by_key [OF parts(5) ids parts(3)]) (use ok in metis)
  have bytes: "sum_list (map (\<lambda>r. unat (vo_bytes (vr_vector r))) loaded) =
      sum_list (map (\<lambda>t. 64 + 4 * ?d * unat (task_row_count t)) ?ts)"
    by (rule sum_by_key [OF parts(5) ids parts(3)]) (use ok in metis)
  have kind: "receipt_test_only r = rs_test_only s \<and> receipt_derivation_key r = set_derivation_key s"
    if r: "r \<in> set loaded" for r
  proof -
    from r ls obtain t where t: "t \<in> set ?ts" "tk_task_id t = vr_task_id r" by (metis imageE imageI)
    with ok obtain r' where "r' \<in> set loaded" "vr_task_id r' = vr_task_id r"
      "receipt_test_only r' = rs_test_only s" "receipt_derivation_key r' = set_derivation_key s" by metis
    with r parts(5) show ?thesis by (metis distinct_map inj_onD)
  qed
  show ?thesis
    using parts(4,5) es ls rows bytes total kind by (simp add: sum_list_affine list_all_iff)
qed

subsection \<open>A small result set\<close>

definition receipt0 :: "string \<Rightarrow> u64 \<Rightarrow> u64 \<Rightarrow> u64 \<Rightarrow> vector_result_receipt" where
  "receipt0 i a b n = \<lparr>vr_schema_version = VECTOR_RECEIPT_SCHEMA, vr_component_sha256 = D0,
     vr_plan_sha256 = D0, vr_prepared_corpus_sha256 = D0, vr_embedding_profile_sha256 = D0,
     vr_task_id = i, vr_ordinal_start = a, vr_ordinal_end = b, vr_order_sha256 = D0,
     vr_vector = \<lparr>vo_path = SafeRelativePath (''results/'' @ i), vo_rows = b - a, vo_bytes = n,
       vo_sha256 = D0, vo_dimensions = 2, vo_dtype = ''f32le'', vo_order_sha256 = D0\<rparr>,
     vr_executor = \<lparr>ex_implementation = C0, ex_runtime = C0, ex_returned_model = ''m'',
       ex_requests = 2, ex_retries = 1, ex_input_bytes_upper_bound = 40, ex_elapsed_ms = 7,
       ex_conformance_passed = True\<rparr>,
     vr_derivation = None, vr_finite_values_validated = True, vr_normalization_validated = True\<rparr>"

definition entry0 :: "string \<Rightarrow> receipt_entry" where
  "entry0 i = \<lparr>re_task_id = i, re_path = SafeRelativePath (''receipts/'' @ i), re_sha256 = D0\<rparr>"

definition set0 :: embedding_result_set where
  "set0 = \<lparr>rs_schema_version = RESULT_SET_SCHEMA, rs_component_sha256 = D0, rs_plan_sha256 = D0,
     rs_prepared_corpus_sha256 = D0, rs_embedding_profile_sha256 = D0, rs_document_count = 3,
     rs_document_order_sha256 = D0, rs_receipts = [entry0 ''t0'', entry0 ''t1''],
     rs_derivation = None, rs_test_only = False\<rparr>"

definition loaded0 :: "vector_result_receipt list" where
  "loaded0 = [receipt0 ''t1'' 1 3 80, receipt0 ''t0'' 0 1 72]"

lemma component_digest_X0:
  "component_digest X0 (json_vector_receipt (receipt0 i a b n)) = Inr D0"
  "component_digest X0 (json_result_set set0) = Inr D0"
  by (simp_all add: component_digest_def without_self_digest_def json_vector_receipt_def receipt0_def
      json_result_set_def set0_def canonical_digest_def canonical_json_bytes_def)
    (simp_all add: X0_def)

lemma receipt0_ok:
  "receipt_validate_against X0 plan0 (receipt0 ''t0'' 0 1 72) = Inr ()"
  "receipt_validate_against X0 plan0 (receipt0 ''t1'' 1 3 80) = Inr ()"
  unfolding receipt_validate_against_def Let_def component_digest_X0
  by (simp_all add: receipt0_def plan0_def task0_def profile0_def C0_def plan_task_def
      receipt_derived_def receipt_test_only_def invalid_executor_def TEST_VECTOR_EXECUTOR_ID_def
      expected_vector_bytes_def u64_of_u32_def task_row_count_def checks word_le_nat_alt
      word_less_nat_alt)

lemma fields0:
  "tk_task_id (task0 i a b ss) = i" "tk_receipt_path (task0 i a b ss) = SafeRelativePath (''receipts/'' @ i)"
  "re_path (entry0 i) = SafeRelativePath (''receipts/'' @ i)" "re_sha256 (entry0 i) = D0"
  "vr_component_sha256 (receipt0 i c d n) = D0" "receipt_test_only (receipt0 i c d n) = rs_test_only set0"
  "receipt_derivation_key (receipt0 i c d n) = set_derivation_key set0"
  by (simp_all add: task0_def entry0_def receipt0_def set0_def receipt_test_only_def C0_def
      TEST_VECTOR_EXECUTOR_ID_def receipt_derivation_key_def set_derivation_key_def)

lemma set0_ok: "result_set_validate X0 set0 plan0 loaded0 = Inr ()"
proof -
  have e: "bt_collect (map (\<lambda>e. (re_task_id e, e)) (rs_receipts set0))
      = [(''t0'', entry0 ''t0''), (''t1'', entry0 ''t1'')]"
    by (simp add: set0_def bt_collect_def entry0_def)
  have r: "bt_collect (map (\<lambda>r. (vr_task_id r, r)) loaded0)
      = [(''t0'', receipt0 ''t0'' 0 1 72), (''t1'', receipt0 ''t1'' 1 3 80)]"
    by (simp add: loaded0_def bt_collect_def receipt0_def)
  have tasks: "pl_tasks plan0 = [task0 ''t0'' 0 1 [slice0 ''documents/0'' 0 1],
      task0 ''t1'' 1 3 [slice0 ''documents/0'' 1 1, slice0 ''documents/1'' 0 1]]"
    by (simp add: plan0_def)
  have "try_all (check_result_task X0 set0 plan0
        [(''t0'', entry0 ''t0''), (''t1'', entry0 ''t1'')]
        [(''t0'', receipt0 ''t0'' 0 1 72), (''t1'', receipt0 ''t1'' 1 3 80)]) (pl_tasks plan0) = Inr ()"
    unfolding tasks by (simp add: check_result_task_def bt_get_def receipt0_ok fields0)
  then show ?thesis
    unfolding result_set_validate_def Let_def e r component_digest_X0
    by simp (simp add: set0_def plan0_def loaded0_def profile0_def C0_def checks)
qed

theorem result_set_closes_plan_witness:
  "sum_list (map (\<lambda>r. unat (vo_bytes (vr_vector r))) loaded0) = 64 * 2 + 4 * 2 * 3"
  using result_set_closes_plan [OF plan0_ok set0_ok] by (simp add: plan0_def profile0_def)

end
