(* ===== verification/Le_Bytes.thy ===== *)
theory Le_Bytes
  imports Prelude
begin

text \<open>
  Little-endian integers (\<open>to_le_bytes\<close>, \<open>from_le_bytes\<close>) of the binary formats, by way of
  the number they denote, with the round trips in both directions. The interface
  \<open>fixed_codec\<close> is what a record of fixed-width elements needs of its element codec; its
  lemmas decode a concatenation element by element.
\<close>

fun to_le :: "nat \<Rightarrow> nat \<Rightarrow> bytes" where
  "to_le 0 n = []"
| "to_le (Suc k) n = word_of_nat n # to_le k (n div 256)"

fun from_le :: "bytes \<Rightarrow> nat" where
  "from_le [] = 0"
| "from_le (b # bs) = unat b + 256 * from_le bs"

lemma length_to_le [simp]: "length (to_le k n) = k"
  by (induction k arbitrary: n) simp_all

lemma unat_byte: "unat (word_of_nat n :: u8) = n mod 256"
  by (simp add: unat_of_nat take_bit_eq_mod)

lemma unat_byte_less: "unat (b :: u8) < 256"
  using unsigned_less [of b] by simp

lemma from_to_le: "n < 256 ^ k \<Longrightarrow> from_le (to_le k n) = n"
proof (induction k arbitrary: n)
  case (Suc k)
  then have "n div 256 < 256 ^ k"
    by (simp add: less_mult_imp_div_less mult.commute)
  with Suc.IH [OF this] show ?case by (simp add: unat_byte)
qed simp

lemma from_le_less: "from_le bs < 256 ^ length bs"
proof (induction bs)
  case (Cons b bs)
  have "unat b + 256 * from_le bs < 256 + 256 * from_le bs"
    using unat_byte_less [of b] by simp
  also have "\<dots> \<le> 256 * 256 ^ length bs" using Cons by simp
  finally show ?case by simp
qed simp

lemma to_from_le: "length bs = k \<Longrightarrow> to_le k (from_le bs) = bs"
proof (induction bs arbitrary: k)
  case (Cons b bs)
  have "(unat b + 256 * from_le bs) div 256 = from_le bs"
    using unat_byte_less [of b] by simp
  moreover have "(word_of_nat (unat b + 256 * from_le bs) :: u8) = b"
    unfolding word_unat_eq_iff using unat_byte_less [of b] by (simp only: unat_byte) simp
  ultimately show ?case using Cons by auto
qed simp

definition u16_to_le :: "u16 \<Rightarrow> bytes" where
  "u16_to_le w = to_le 2 (unat w)"

definition u32_to_le :: "u32 \<Rightarrow> bytes" where
  "u32_to_le w = to_le 4 (unat w)"

definition u64_to_le :: "u64 \<Rightarrow> bytes" where
  "u64_to_le w = to_le 8 (unat w)"

definition u16_from_le :: "bytes \<Rightarrow> u16" where
  "u16_from_le bs = word_of_nat (from_le bs)"

definition u32_from_le :: "bytes \<Rightarrow> u32" where
  "u32_from_le bs = word_of_nat (from_le bs)"

definition u64_from_le :: "bytes \<Rightarrow> u64" where
  "u64_from_le bs = word_of_nat (from_le bs)"

lemma le_lengths [simp]:
  "length (u16_to_le a) = 2" "length (u32_to_le b) = 4" "length (u64_to_le c) = 8"
  by (simp_all add: u16_to_le_def u32_to_le_def u64_to_le_def)

lemma unat_less_256_power:
  "unat (a :: u16) < 256 ^ 2" "unat (b :: u32) < 256 ^ 4" "unat (c :: u64) < 256 ^ 8"
  using unsigned_less [of a] unsigned_less [of b] unsigned_less [of c] by simp_all

lemma le_roundtrip [simp]:
  "u16_from_le (u16_to_le a) = a" "u32_from_le (u32_to_le b) = b" "u64_from_le (u64_to_le c) = c"
  using unat_less_256_power
  by (simp_all add: u16_to_le_def u32_to_le_def u64_to_le_def u16_from_le_def u32_from_le_def
      u64_from_le_def from_to_le)

lemma from_le_fits:
  "length bs = 2 \<Longrightarrow> from_le bs < 2 ^ 16" "length bs = 4 \<Longrightarrow> from_le bs < 2 ^ 32"
  "length bs = 8 \<Longrightarrow> from_le bs < 2 ^ 64"
  using from_le_less [of bs] by simp_all

lemma le_roundtrip_bytes:
  "length bs = 2 \<Longrightarrow> u16_to_le (u16_from_le bs) = bs"
  "length bs = 4 \<Longrightarrow> u32_to_le (u32_from_le bs) = bs"
  "length bs = 8 \<Longrightarrow> u64_to_le (u64_from_le bs) = bs"
  using from_le_fits [of bs]
  by (simp_all add: u16_to_le_def u32_to_le_def u64_to_le_def u16_from_le_def u32_from_le_def
      u64_from_le_def unat_of_nat take_bit_eq_mod to_from_le)

locale fixed_codec =
  fixes enc :: "'a \<Rightarrow> bytes" and dec :: "bytes \<Rightarrow> 'a" and width :: nat
  assumes width_pos: "0 < width"
    and enc_length: "length (enc x) = width"
    and dec_enc: "dec (enc x) = x"
    and enc_dec: "length bs = width \<Longrightarrow> enc (dec bs) = bs"
begin

lemma concat_length: "length (concat (map enc xs)) = width * length xs"
  by (induction xs) (simp_all add: enc_length)

lemma decode_concat: "map dec (chunks width (concat (map enc xs))) = xs"
proof (induction xs)
  case (Cons x xs)
  have "enc x \<noteq> []" using enc_length [of x] width_pos by auto
  with Cons width_pos show ?case
    by (simp add: chunks.simps [of width "enc x @ concat (map enc xs)"] enc_length dec_enc)
qed simp

lemma encode_chunks: "length bs mod width = 0 \<Longrightarrow> concat (map enc (map dec (chunks width bs))) = bs"
proof (induction bs rule: measure_induct_rule [of length])
  case (less bs)
  show ?case
  proof (cases "bs = []")
    case False
    with less.prems width_pos have le: "width \<le> length bs"
      by (metis length_0_conv mod_less not_le)
    then have "length (drop width bs) mod width = 0"
      using less.prems by (simp add: le_mod_geq)
    moreover have "length (drop width bs) < length bs"
      using False width_pos by simp
    ultimately have "concat (map enc (map dec (chunks width (drop width bs)))) = drop width bs"
      by (rule less.IH [rotated])
    with False width_pos le show ?thesis
      by (simp add: chunks.simps [of width bs] enc_dec)
  qed simp
qed

end

interpretation u32_le: fixed_codec u32_to_le u32_from_le 4
  by unfold_locales (simp_all add: le_roundtrip_bytes)

end
