(* ===== verification/Token_Counts.thy ===== *)
theory Token_Counts
  imports Component Coverage Le_Bytes "HOL-Library.Multiset"
begin

text \<open>
  Token counts of \<open>crates/rag-pipeline/src/token_plan.rs\<close>: the count object and its encoding,
  its digest, totals, maxima and nearest-rank percentiles, and the greedy loop that cuts the
  documents into tasks under a token and a document limit. The lemmas show the encoding is a
  bijection, what the percentiles are, and that the greedy cut is feasible and uses the fewest
  tasks possible.
\<close>

subsection \<open>Totals, maxima and the count object\<close>

definition sum_counts :: "u32 list \<Rightarrow> pipeline_error + u64" where
  "sum_counts counts =
     try_fold (\<lambda>acc count. ok_or (Invalid ''token total'') (checked_add acc (u64_of_u32 count)))
       0 counts"

definition maximum_count :: "u32 list \<Rightarrow> pipeline_error + u32" where
  "maximum_count counts =
     (case counts of [] \<Rightarrow> Inl (Invalid ''empty token counts'') | c # cs \<Rightarrow> Inr (fold max cs c))"

definition DOCUMENT_TOKEN_COUNTS_DOMAIN :: bytes where
  "DOCUMENT_TOKEN_COUNTS_DOMAIN = str_bytes ''livefire.rag.document-token-counts/1'' @ [0]"

definition token_count_entry ::
    "u64 \<Rightarrow> bytes \<Rightarrow> nat \<times> u32 \<Rightarrow> pipeline_error + bytes" where
  "token_count_entry start_ordinal acc oc =
     (case oc of (position, tokens) \<Rightarrow>
       rbind (ok_or (Invalid ''token count ordinal'') (try_from_nat position)) (\<lambda>offset.
       rbind (ok_or (Invalid ''token count ordinal'') (checked_add start_ordinal offset))
         (\<lambda>ordinal.
       rbind (require_safe_u64 ordinal) (\<lambda>_.
       Inr (acc @ u64_to_le ordinal @ u32_to_le tokens)))))"

definition document_token_counts_digest ::
    "externals \<Rightarrow> u64 \<Rightarrow> u32 list \<Rightarrow> pipeline_error + digest" where
  "document_token_counts_digest X start_ordinal counts =
     rbind (try_fold (token_count_entry start_ordinal) DOCUMENT_TOKEN_COUNTS_DOMAIN
             (enumerate 0 counts)) (\<lambda>b. Inr (digest_bytes X b))"

definition encode_document_token_counts :: "u32 list \<Rightarrow> bytes" where
  "encode_document_token_counts counts = concat (map u32_to_le counts)"

definition decode_document_token_counts :: "bytes \<Rightarrow> pipeline_error + u32 list" where
  "decode_document_token_counts b =
     (if length b mod 4 \<noteq> 0 then Inl (Invalid ''document token count object byte length'')
      else Inr (map u32_from_le (chunks 4 b)))"

subsection \<open>Statistics\<close>

record token_statistics =
  ts_total_tokens :: u64
  ts_p50_tokens :: u32
  ts_p90_tokens :: u32
  ts_p95_tokens :: u32
  ts_p99_tokens :: u32
  ts_maximum_tokens :: u32

definition percentile_rank :: "nat \<Rightarrow> nat \<Rightarrow> nat" where
  "percentile_rank n percent = (n div 100) * percent + ((n mod 100) * percent + 99) div 100"

definition percentile :: "u32 list \<Rightarrow> nat \<Rightarrow> u32" where
  "percentile counts percent =
     (let sorted = sort counts in sorted ! (percentile_rank (length sorted) percent - 1))"

definition token_statistics_of :: "u32 list \<Rightarrow> pipeline_error + token_statistics" where
  "token_statistics_of counts =
     (if 0 \<in> set counts then Inl (Invalid ''zero document token count'')
      else if counts = [] then Inr \<lparr>ts_total_tokens = 0, ts_p50_tokens = 0, ts_p90_tokens = 0,
        ts_p95_tokens = 0, ts_p99_tokens = 0, ts_maximum_tokens = 0\<rparr>
      else
      rbind (sum_counts counts) (\<lambda>total_tokens.
      Inr \<lparr>ts_total_tokens = total_tokens, ts_p50_tokens = percentile counts 50,
        ts_p90_tokens = percentile counts 90, ts_p95_tokens = percentile counts 95,
        ts_p99_tokens = percentile counts 99, ts_maximum_tokens = last (sort counts)\<rparr>))"

subsection \<open>The greedy cut\<close>

text \<open>
  The inner loop: how many of the remaining counts the current task takes, starting from
  \<open>taken\<close> documents with \<open>tokens\<close> tokens.
\<close>

fun extend_range :: "nat \<Rightarrow> u64 \<Rightarrow> u32 list \<Rightarrow> nat \<Rightarrow> u64 \<Rightarrow> nat" where
  "extend_range max_documents max_tokens [] taken tokens = taken"
| "extend_range max_documents max_tokens (c # cs) taken tokens =
     (if taken < max_documents
         \<and> (case checked_add tokens (u64_of_u32 c) of None \<Rightarrow> False | Some next \<Rightarrow> next \<le> max_tokens)
      then extend_range max_documents max_tokens cs (Suc taken) (tokens + u64_of_u32 c)
      else taken)"

function balance_ranges ::
    "nat \<Rightarrow> u64 \<Rightarrow> u32 list \<Rightarrow> nat \<Rightarrow> pipeline_error + (nat \<times> nat) list" where
  "balance_ranges max_documents max_tokens counts start =
     (if start < length counts then
        let stop = start + extend_range max_documents max_tokens (drop start counts) 0 0 in
        if stop = start then Inl (Invalid ''overlength embedding task'')
        else rbind (balance_ranges max_documents max_tokens counts stop)
               (\<lambda>ranges. Inr ((start, stop) # ranges))
      else Inr [])"
  by pat_completeness auto
termination
  by (relation "measure (\<lambda>(_, _, counts, start). length counts - start)") auto

declare balance_ranges.simps [simp del]

subsection \<open>Encoding\<close>

abbreviation token_sum :: "u32 list \<Rightarrow> nat" where
  "token_sum counts \<equiv> sum_list (map unat counts)"

lemma sum_counts_ok: "sum_counts counts = Inr s \<longleftrightarrow> unat s = token_sum counts"
  unfolding sum_counts_def
  using try_fold_sum [where step = "\<lambda>acc count. ok_or (Invalid ''token total'')
      (checked_add acc (u64_of_u32 count))" and P = "\<lambda>_. True" and f = unat and a = "0 :: u64"]
  by (simp add: ok_or_eq_Inr checked_add_unat list_all_iff)

lemma maximum_count_ok: "maximum_count counts = Inr m \<longleftrightarrow> counts \<noteq> [] \<and> m = Max (set counts)"
  by (cases counts) (auto simp: maximum_count_def Max.set_eq_fold [symmetric])

text \<open>
  C23: the count object is a faithful encoding: decoding what was encoded returns the counts,
  the decoder accepts exactly the byte strings whose length is a multiple of four, and what
  it accepts is the encoding of what it returns.
\<close>

theorem token_counts_codec:
  "decode_document_token_counts (encode_document_token_counts counts) = Inr counts \<and>
   (decode_document_token_counts b = Inr cs \<longleftrightarrow>
      length b mod 4 = 0 \<and> b = encode_document_token_counts cs)"
  using u32_le.encode_chunks [of b] u32_le.decode_concat u32_le.concat_length
  by (auto simp: decode_document_token_counts_def encode_document_token_counts_def)

lemma encode_length: "length (encode_document_token_counts counts) = 4 * length counts"
  by (simp add: encode_document_token_counts_def u32_le.concat_length)

lemma decode_encode [simp]:
  "decode_document_token_counts (encode_document_token_counts counts) = Inr counts"
  by (simp add: decode_document_token_counts_def encode_document_token_counts_def
      u32_le.decode_concat u32_le.concat_length)

subsection \<open>Percentiles\<close>

lemma percentile_rank_ceiling: "percentile_rank n p = (n * p + 99) div 100"
proof -
  have "n * p = 100 * ((n div 100) * p) + (n mod 100) * p"
    by (metis add_mult_distrib mult.assoc mult_div_mod_eq)
  then show ?thesis by (simp add: percentile_rank_def)
qed

lemma percentile_rank_bounds:
  assumes "0 < n" and "0 < p" and "p \<le> 100"
  shows "0 < percentile_rank n p \<and> percentile_rank n p \<le> n"
proof -
  have "n * p \<le> n * 100" using assms(3) by simp
  moreover have "1 \<le> n * p" using assms(1,2) by (simp add: Suc_leI)
  ultimately show ?thesis unfolding percentile_rank_ceiling by linarith
qed

lemma filter_sort_length: "length (filter P (sort xs)) = length (filter P xs)"
  by (metis mset_filter mset_sort size_mset)

lemma sorted_rank:
  assumes "sorted xs" and "i < length xs"
  shows "Suc i \<le> length (filter (\<lambda>x. x \<le> xs ! i) xs)" and "length (filter (\<lambda>x. x < xs ! i) xs) \<le> i"
proof -
  have low: "x \<le> xs ! i" if "x \<in> set (take (Suc i) xs)" for x
    using that assms by (auto simp: in_set_conv_nth sorted_iff_nth_mono)
  have high: "xs ! i \<le> x" if "x \<in> set (drop i xs)" for x
    using that assms by (auto simp: in_set_conv_nth sorted_iff_nth_mono)
  have "filter (\<lambda>x. x \<le> xs ! i) (take (Suc i) xs) = take (Suc i) xs"
    using low by (simp add: filter_id_conv)
  then have "length (filter (\<lambda>x. x \<le> xs ! i) (take (Suc i) xs)) = Suc i"
    using assms(2) by simp
  then show "Suc i \<le> length (filter (\<lambda>x. x \<le> xs ! i) xs)"
    using filter_append [of "\<lambda>x. x \<le> xs ! i" "take (Suc i) xs" "drop (Suc i) xs"]
    by (metis append_take_drop_id le_add1 length_append)
  have "filter (\<lambda>x. x < xs ! i) (drop i xs) = []"
    using high by (fastforce simp: filter_empty_conv)
  then have "filter (\<lambda>x. x < xs ! i) xs = filter (\<lambda>x. x < xs ! i) (take i xs)"
    using filter_append [of "\<lambda>x. x < xs ! i" "take i xs" "drop i xs"] by simp
  then show "length (filter (\<lambda>x. x < xs ! i) xs) \<le> i"
    by (metis length_filter_le length_take min.bounded_iff)
qed

text \<open>The nearest-rank percentile: the least count with enough counts at or below it.\<close>

definition nearest_rank :: "u32 list \<Rightarrow> nat \<Rightarrow> u32 \<Rightarrow> bool" where
  "nearest_rank counts p v \<longleftrightarrow> v \<in> set counts \<and>
     length counts * p \<le> 100 * length (filter (\<lambda>c. c \<le> v) counts) \<and>
     100 * length (filter (\<lambda>c. c < v) counts) < length counts * p"

lemma percentile_nearest_rank:
  assumes "counts \<noteq> []" and "0 < p" and "p \<le> 100"
  shows "nearest_rank counts p (percentile counts p)"
proof -
  let ?k = "percentile_rank (length counts) p" and ?xs = "sort counts"
  have k: "0 < ?k" "?k \<le> length counts"
    using percentile_rank_bounds [of "length counts" p] assms by auto
  then have i: "?k - 1 < length ?xs" by simp
  note r = sorted_rank [OF sorted_sort i]
  have v: "percentile counts p = ?xs ! (?k - 1)" by (simp add: percentile_def Let_def)
  have c: "?k = (length counts * p + 99) div 100" by (rule percentile_rank_ceiling)
  have "length counts * p \<le> 100 * ?k" and "100 * (?k - 1) < length counts * p"
    using k(1) unfolding c by linarith+
  moreover have "?k \<le> length (filter (\<lambda>c. c \<le> ?xs ! (?k - 1)) counts)"
    using r(1) k(1) by (simp add: filter_sort_length)
  moreover have "length (filter (\<lambda>c. c < ?xs ! (?k - 1)) counts) \<le> ?k - 1"
    using r(2) by (simp add: filter_sort_length)
  ultimately have "length counts * p \<le> 100 * length (filter (\<lambda>c. c \<le> ?xs ! (?k - 1)) counts)"
    and "100 * length (filter (\<lambda>c. c < ?xs ! (?k - 1)) counts) < length counts * p"
    by linarith+
  moreover have "?xs ! (?k - 1) \<in> set counts"
    using nth_mem [OF i] by simp
  ultimately show ?thesis by (simp add: nearest_rank_def v)
qed

lemma percentile_mono:
  assumes "counts \<noteq> []" and "0 < p" and "p \<le> q" and "q \<le> 100"
  shows "percentile counts p \<le> percentile counts q"
proof -
  have "percentile_rank (length counts) p \<le> percentile_rank (length counts) q"
    unfolding percentile_rank_ceiling using assms(3) by (simp add: div_le_mono)
  moreover have "percentile_rank (length counts) q - 1 < length (sort counts)"
    using percentile_rank_bounds [of "length counts" q] assms by auto
  ultimately show ?thesis
    unfolding percentile_def Let_def by (simp add: sorted_nth_mono)
qed

lemma last_sort: "counts \<noteq> [] \<Longrightarrow> last (sort counts) = Max (set (counts :: 'a::linorder list))"
proof -
  assume ne: "counts \<noteq> []"
  then have xs: "sort counts = butlast (sort counts) @ [last (sort counts)]"
    by (metis append_butlast_last_id set_empty set_sort)
  then have "\<forall>x \<in> set (butlast (sort counts)). x \<le> last (sort counts)"
    by (metis sorted_append sorted_sort list.set_intros(1))
  moreover have "set counts = insert (last (sort counts)) (set (butlast (sort counts)))"
    using arg_cong [OF xs, of set] by simp
  ultimately show ?thesis by (auto intro: Max_eqI [symmetric])
qed

text \<open>
  The statistics of a non-empty list of counts are accepted exactly when no count is zero
  and the total fits; they are the total, the maximum, and nearest-rank percentiles in
  ascending order.
\<close>

theorem token_statistics_correct:
  assumes "counts \<noteq> []"
  shows "(token_statistics_of counts = Inr s \<longleftrightarrow>
      0 \<notin> set counts \<and> unat (ts_total_tokens s) = token_sum counts \<and>
      s = \<lparr>ts_total_tokens = ts_total_tokens s, ts_p50_tokens = percentile counts 50,
        ts_p90_tokens = percentile counts 90, ts_p95_tokens = percentile counts 95,
        ts_p99_tokens = percentile counts 99, ts_maximum_tokens = Max (set counts)\<rparr>) \<and>
    list_all (\<lambda>p. nearest_rank counts p (percentile counts p)) [50, 90, 95, 99] \<and>
    sorted (map (percentile counts) [50, 90, 95, 99] @ [Max (set counts)])"
proof (intro conjI)
  show "token_statistics_of counts = Inr s \<longleftrightarrow>
      0 \<notin> set counts \<and> unat (ts_total_tokens s) = token_sum counts \<and>
      s = \<lparr>ts_total_tokens = ts_total_tokens s, ts_p50_tokens = percentile counts 50,
        ts_p90_tokens = percentile counts 90, ts_p95_tokens = percentile counts 95,
        ts_p99_tokens = percentile counts 99, ts_maximum_tokens = Max (set counts)\<rparr>"
    using assms by (cases s) (auto simp: token_statistics_of_def rbind_eq_Inr sum_counts_ok last_sort)
  show "list_all (\<lambda>p. nearest_rank counts p (percentile counts p)) [50, 90, 95, 99]"
    using percentile_nearest_rank [OF assms] by simp
  have "percentile counts p \<in> set counts" if "0 < p" "p \<le> 100" for p
    using percentile_nearest_rank [OF assms that] by (simp add: nearest_rank_def)
  then show "sorted (map (percentile counts) [50, 90, 95, 99] @ [Max (set counts)])"
    using percentile_mono [OF assms] by simp
qed

theorem token_statistics_correct_witness:
  "list_all (\<lambda>p. nearest_rank [3, 1, 2] p (percentile [3, 1, 2] p)) [50, 90, 95, 99]"
  using token_statistics_correct [of "[3, 1, 2]"] by blast

subsection \<open>The greedy cut is feasible and optimal\<close>

definition range_counts :: "u32 list \<Rightarrow> nat \<times> nat \<Rightarrow> u32 list" where
  "range_counts counts r = take (snd r - fst r) (drop (fst r) counts)"

text \<open>What one task may hold.\<close>

definition range_feasible :: "nat \<Rightarrow> u64 \<Rightarrow> u32 list \<Rightarrow> nat \<times> nat \<Rightarrow> bool" where
  "range_feasible max_documents max_tokens counts r \<longleftrightarrow>
     fst r < snd r \<and> snd r \<le> length counts \<and> snd r - fst r \<le> max_documents \<and>
     token_sum (range_counts counts r) \<le> unat max_tokens"

lemma next_fits:
  "(case checked_add tokens (u64_of_u32 c) of None \<Rightarrow> False | Some next \<Rightarrow> next \<le> max_tokens) \<longleftrightarrow>
     unat tokens + unat c \<le> unat max_tokens"
proof (cases "checked_add tokens (u64_of_u32 c)")
  case None
  then have "2 ^ 64 \<le> unat tokens + unat c" by (simp add: checked_add_None)
  with None show ?thesis
    using unat_bound [of max_tokens] by simp
next
  case (Some n)
  then have "unat n = unat tokens + unat c" by (simp add: checked_add_unat)
  with Some show ?thesis by (simp add: word_le_nat_alt del: checked_add_unat)
qed

lemma next_sum:
  assumes "unat tokens + unat c \<le> unat (m :: u64)"
  shows "unat (tokens + u64_of_u32 c) = unat tokens + unat c"
proof -
  have "unat tokens + unat (u64_of_u32 c) < 2 ^ LENGTH(64)"
    using assms unat_bound [of m] by simp
  then show ?thesis by (simp add: unat_word_ariths)
qed

lemma extend_range_spec:
  "unat tokens \<le> unat max_tokens \<Longrightarrow> taken \<le> max_documents \<Longrightarrow>
   \<exists>n. extend_range max_documents max_tokens cs taken tokens = taken + n \<and>
     taken + n \<le> max_documents \<and> n \<le> length cs \<and>
     unat tokens + token_sum (take n cs) \<le> unat max_tokens \<and>
     (n < length cs \<longrightarrow> taken + n < max_documents \<longrightarrow>
       unat max_tokens < unat tokens + token_sum (take (Suc n) cs))"
proof (induction cs arbitrary: taken tokens)
  case (Cons c cs)
  show ?case
  proof (cases "taken < max_documents \<and> unat tokens + unat c \<le> unat max_tokens")
    case True
    then have sum: "unat (tokens + u64_of_u32 c) = unat tokens + unat c"
      using next_sum by blast
    with True Cons.IH [of "tokens + u64_of_u32 c" "Suc taken"] obtain n where
      "extend_range max_documents max_tokens cs (Suc taken) (tokens + u64_of_u32 c) = Suc taken + n"
      "Suc taken + n \<le> max_documents" "n \<le> length cs"
      "unat tokens + unat c + token_sum (take n cs) \<le> unat max_tokens"
      "n < length cs \<longrightarrow> Suc taken + n < max_documents \<longrightarrow>
        unat max_tokens < unat tokens + unat c + token_sum (take (Suc n) cs)"
      by auto
    with True show ?thesis
      by (intro exI [of _ "Suc n"]) (simp add: next_fits add.assoc)
  next
    case False
    with Cons.prems show ?thesis by (intro exI [of _ 0]) (auto simp: next_fits)
  qed
qed simp

lemma extend_range_from:
  fixes max_documents :: nat and max_tokens :: u64
  assumes "start < length counts"
  defines "n \<equiv> extend_range max_documents max_tokens (drop start counts) 0 0"
  shows "n \<le> max_documents \<and> start + n \<le> length counts \<and>
    token_sum (range_counts counts (start, start + n)) \<le> unat max_tokens \<and>
    (start + n < length counts \<longrightarrow> n < max_documents \<longrightarrow>
      unat max_tokens < token_sum (range_counts counts (start, start + Suc n)))"
  using extend_range_spec [of 0 max_tokens 0 max_documents "drop start counts"] assms
  by (auto simp: range_counts_def)

abbreviation ranges_cover :: "nat \<Rightarrow> (nat \<times> nat) list \<Rightarrow> nat \<Rightarrow> bool" where
  "ranges_cover \<equiv> covers_from fst snd"

lemma balance_ranges_feasible:
  "balance_ranges max_documents max_tokens counts start = Inr rs \<Longrightarrow> start \<le> length counts \<Longrightarrow>
   ranges_cover start rs (length counts) \<and>
   list_all (range_feasible max_documents max_tokens counts) rs"
proof (induction max_documents max_tokens counts start arbitrary: rs rule: balance_ranges.induct)
  case (1 d t counts start)
  show ?case
  proof (cases "start < length counts")
    case True
    let ?n = "extend_range d t (drop start counts) 0 0"
    from True 1(2) obtain rs' where n: "?n \<noteq> 0" and rs: "rs = (start, start + ?n) # rs'"
      and rest: "balance_ranges d t counts (start + ?n) = Inr rs'"
      by (subst (asm) balance_ranges.simps) (auto simp: Let_def rbind_eq_Inr split: if_splits)
    note ext = extend_range_from [OF True, of d t]
    from 1(1) [OF True refl _ rest] n ext
    have "ranges_cover (start + ?n) rs' (length counts) \<and> list_all (range_feasible d t counts) rs'"
      by simp
    moreover have "range_feasible d t counts (start, start + ?n)"
      using n ext by (simp add: range_feasible_def)
    ultimately show ?thesis using n by (simp add: rs)
  next
    case False
    with 1(2,3) show ?thesis by (simp add: balance_ranges.simps [of d t counts start])
  qed
qed

lemma token_sum_mono:
  "a \<le> b \<Longrightarrow> c \<le> d \<Longrightarrow> token_sum (range_counts counts (b, c)) \<le> token_sum (range_counts counts (a, d))"
proof -
  assume ab: "a \<le> b" and cd: "c \<le> d"
  show ?thesis
  proof (cases "b \<le> c")
    case True
    have "range_counts counts (a, d) =
        range_counts counts (a, b) @ range_counts counts (b, c) @ range_counts counts (c, d)"
      using ab cd True by (simp add: range_counts_def take_drop_append)
    then show ?thesis by simp
  qed (simp add: range_counts_def)
qed

lemma greedy_stays_ahead:
  assumes n: "n = extend_range d t (drop a counts) 0 0" and a: "a < length counts"
    and ba: "b \<le> a" and feas: "range_feasible d t counts (b, e)"
  shows "e \<le> a + n"
proof (rule ccontr)
  assume "\<not> e \<le> a + n"
  then have lt: "a + Suc n \<le> e" by simp
  have e: "e \<le> length counts" "e - b \<le> d" "token_sum (range_counts counts (b, e)) \<le> unat t"
    using feas by (simp_all add: range_feasible_def)
  with lt ba have "a + n < length counts" and "n < d" by simp_all
  with extend_range_from [OF a, of d t] n
  have "unat t < token_sum (range_counts counts (a, a + Suc n))" by simp
  also have "\<dots> \<le> token_sum (range_counts counts (b, e))"
    by (rule token_sum_mono [OF ba lt])
  finally show False using e(3) by simp
qed

lemma balance_ranges_optimal:
  "balance_ranges d t counts a = Inr rs \<Longrightarrow> ranges_cover b other (length counts) \<Longrightarrow> b \<le> a \<Longrightarrow>
   list_all (range_feasible d t counts) other \<Longrightarrow> length rs \<le> length other"
proof (induction other arbitrary: a b rs)
  case Nil
  then show ?case by (simp add: balance_ranges.simps [of d t counts a])
next
  case (Cons r other)
  show ?case
  proof (cases "a < length counts")
    case True
    let ?n = "extend_range d t (drop a counts) 0 0"
    from True Cons.prems(1) obtain rs' where rs: "rs = (a, a + ?n) # rs'"
      and rest: "balance_ranges d t counts (a + ?n) = Inr rs'"
      by (subst (asm) balance_ranges.simps) (auto simp: Let_def rbind_eq_Inr split: if_splits)
    from Cons.prems(2,4) have r: "r = (b, snd r)" and cov: "ranges_cover (snd r) other (length counts)"
      and f: "range_feasible d t counts r" "list_all (range_feasible d t counts) other"
      by (cases r; simp)+
    have "snd r \<le> a + ?n"
      using greedy_stays_ahead [OF refl True Cons.prems(3)] f(1) r by metis
    from Cons.IH [OF rest cov this f(2)] show ?thesis by (simp add: rs)
  next
    case False
    with Cons.prems(1) show ?thesis by (simp add: balance_ranges.simps [of d t counts a])
  qed
qed

lemma balance_ranges_total:
  assumes "0 < d" and "list_all (\<lambda>c. unat c \<le> unat t) counts"
  shows "\<exists>rs. balance_ranges d t counts start = Inr rs"
  using assms
proof (induction d t counts start rule: balance_ranges.induct)
  case (1 d t counts start)
  show ?case
  proof (cases "start < length counts")
    case True
    let ?n = "extend_range d t (drop start counts) 0 0"
    have "token_sum (range_counts counts (start, start + Suc 0)) = unat (counts ! start)"
      using True by (simp add: range_counts_def take_Suc_conv_app_nth)
    moreover have "unat (counts ! start) \<le> unat t"
      using 1(3) True by (simp add: list_all_length)
    ultimately have n: "?n \<noteq> 0"
      using extend_range_from [OF True, of d t] 1(2) True by (metis add.right_neutral not_less)
    with 1(1) [OF True refl _ 1(2,3)] obtain rs where
      "balance_ranges d t counts (start + ?n) = Inr rs" by auto
    with True n show ?thesis by (simp add: balance_ranges.simps [of d t counts start] Let_def)
  next
    case False
    then show ?thesis by (simp add: balance_ranges.simps [of d t counts start])
  qed
qed

text \<open>
  C2: whenever every document fits a task by itself, the greedy loop succeeds; its tasks follow
  one another over all documents, each within both limits, and no other cut of the documents
  into tasks within the limits has fewer tasks.
\<close>

theorem balance_ranges_correct:
  assumes "0 < max_documents" and "list_all (\<lambda>c. unat c \<le> unat max_tokens) counts"
  shows "\<exists>rs. balance_ranges max_documents max_tokens counts 0 = Inr rs \<and>
    ranges_cover 0 rs (length counts) \<and>
    list_all (range_feasible max_documents max_tokens counts) rs \<and>
    (\<forall>other. ranges_cover 0 other (length counts) \<and>
       list_all (range_feasible max_documents max_tokens counts) other \<longrightarrow>
       length rs \<le> length other)"
proof -
  obtain rs where rs: "balance_ranges max_documents max_tokens counts 0 = Inr rs"
    using balance_ranges_total [OF assms] by blast
  with balance_ranges_feasible [OF rs] balance_ranges_optimal [OF rs] show ?thesis by blast
qed

theorem balance_ranges_correct_witness:
  "\<exists>rs. balance_ranges 2 10 [4, 5, 1, 9, 2] 0 = Inr rs \<and> length rs \<le> 3"
proof -
  have "list_all (\<lambda>c. unat c \<le> unat (10 :: u64)) [4, 5, 1, 9, 2 :: u32]" by simp
  from balance_ranges_correct [OF _ this, of 2] obtain rs where
    rs: "balance_ranges 2 10 [4, 5, 1, 9, 2] 0 = Inr rs"
    and best: "\<forall>other. ranges_cover 0 other (length [4, 5, 1, 9, 2 :: u32]) \<and>
      list_all (range_feasible 2 10 [4, 5, 1, 9, 2]) other \<longrightarrow> length rs \<le> length other"
    by fastforce
  have "length rs \<le> length [(0 :: nat, 2 :: nat), (2, 4), (4, 5)]"
    by (rule best [rule_format]) (simp add: range_feasible_def range_counts_def)
  with rs show ?thesis by auto
qed

end
