(* ===== verification/Token_Plan.thy ===== *)
theory Token_Plan
  imports Receipts Contracts Token_Counts
begin

text \<open>
  The token-balanced plan of \<open>crates/rag-pipeline/src/token_plan.rs\<close>: executable tokenizers,
  the second plan format with its validation, the builder, the derivation of a plan for a
  post-processed profile, and receipts and result sets against it. The tokenizer library is
  outside the repository: a loaded tokenizer is the record \<open>tokenizer\<close> and loading is the
  argument \<open>load\<close>.
\<close>

subsection \<open>Executable tokenizers\<close>

record tokenizer =
  tok_truncation :: bool
  tok_padding :: bool
  tok_encode :: "string \<Rightarrow> bool \<Rightarrow> string + u32 list"

type_synonym tokenizer_loader = "bytes \<Rightarrow> string + tokenizer"

datatype tokenizer_artifact_format = HuggingFaceTokenizerJson

record executable_tokenizer_ref =
  et_artifact :: component_ref
  et_format :: tokenizer_artifact_format
  et_model_revision :: string
  et_target_tokenizer :: component_ref
  et_add_special_tokens :: bool
  et_maximum_input_bytes :: u64

definition executable_tokenizer_validate :: "executable_tokenizer_ref \<Rightarrow> pipeline_error + unit" where
  "executable_tokenizer_validate t =
     rbind (component_ref_validate (et_artifact t)) (\<lambda>_.
     rbind (component_ref_validate (et_target_tokenizer t)) (\<lambda>_.
     rbind (require_safe_u64 (et_maximum_input_bytes t)) (\<lambda>_.
     if et_model_revision t = [] \<or> et_maximum_input_bytes t = 0
     then Inl (Invalid ''executable tokenizer identity'') else Inr ())))"

definition tokenizer_validate_for_profile ::
    "executable_tokenizer_ref \<Rightarrow> embedding_profile_ref \<Rightarrow> pipeline_error + unit" where
  "tokenizer_validate_for_profile t e =
     rbind (executable_tokenizer_validate t) (\<lambda>_.
     if et_model_revision t \<noteq> cr_version (epr_model_artifact e)
     then Inl (Invalid ''tokenizer model revision binding'')
     else if et_target_tokenizer t \<noteq> epr_tokenizer e
     then Inl (Invalid ''tokenizer profile binding'')
     else Inr ())"

record exact_tokenizer =
  xt_reference :: executable_tokenizer_ref
  xt_tokenizer :: tokenizer

definition exact_tokenizer_from_bytes ::
    "externals \<Rightarrow> tokenizer_loader \<Rightarrow> executable_tokenizer_ref \<Rightarrow> bytes \<Rightarrow>
     pipeline_error + exact_tokenizer" where
  "exact_tokenizer_from_bytes X load reference b =
     rbind (executable_tokenizer_validate reference) (\<lambda>_.
     if digest_bytes X b \<noteq> cr_sha256 (et_artifact reference)
     then Inl (Invalid ''tokenizer artifact byte digest'')
     else case load b of Inl e \<Rightarrow> Inl (Tokenizer e)
     | Inr t \<Rightarrow>
       if tok_truncation t \<or> tok_padding t
       then Inl (Invalid ''tokenizer artifact truncation or padding'')
       else Inr \<lparr>xt_reference = reference, xt_tokenizer = t\<rparr>)"

definition exact_token_ids :: "exact_tokenizer \<Rightarrow> string \<Rightarrow> pipeline_error + u32 list" where
  "exact_token_ids x input =
     rbind (ok_or (Invalid ''tokenizer input byte length'') (try_from_nat (length input)))
       (\<lambda>input_bytes.
     rbind (require_safe_u64 input_bytes) (\<lambda>_.
     if input_bytes > et_maximum_input_bytes (xt_reference x)
     then Inl (Invalid ''tokenizer input byte limit'')
     else case tok_encode (xt_tokenizer x) input (et_add_special_tokens (xt_reference x)) of
       Inl e \<Rightarrow> Inl (Tokenizer e) | Inr ids \<Rightarrow> Inr ids))"

definition exact_count :: "exact_tokenizer \<Rightarrow> string \<Rightarrow> pipeline_error + u64" where
  "exact_count x input =
     rbind (exact_token_ids x input) (\<lambda>ids.
     rbind (ok_or (Invalid ''token count'') (try_from_nat (length ids))) (\<lambda>n.
     rbind (require_safe_u64 n) (\<lambda>_. Inr n)))"

definition format_document_input_exact :: "string \<Rightarrow> string \<Rightarrow> pipeline_error + string" where
  "format_document_input_exact fmt semantic_text =
     (case format_document_input fmt semantic_text of
        Inl _ \<Rightarrow> Inl (Invalid ''document input format'') | Inr s \<Rightarrow> Inr s)"

subsection \<open>The plan\<close>

record embedding_input_slice_v2 =
  s2_path :: safe_path
  s2_object_sha256 :: digest
  s2_row_offset :: u64
  s2_rows :: u64
  s2_order_sha256 :: digest
  s2_token_count :: u64
  s2_maximum_document_tokens :: u32
  s2_counts_sha256 :: digest

record embedding_task_v2 =
  t2_task_id :: string
  t2_ordinal_start :: u64
  t2_ordinal_end :: u64
  t2_input_slices :: "embedding_input_slice_v2 list"
  t2_order_sha256 :: digest
  t2_token_count :: u64
  t2_maximum_document_tokens :: u32
  t2_counts_sha256 :: digest
  t2_result_path :: safe_path
  t2_receipt_path :: safe_path

definition task_v2_row_count :: "embedding_task_v2 \<Rightarrow> u64" where
  "task_v2_row_count t = saturating_sub (t2_ordinal_end t) (t2_ordinal_start t)"

record document_token_counts_object =
  dc_path :: safe_path
  dc_rows :: u64
  dc_bytes :: u64
  dc_sha256 :: digest
  dc_counts_sha256 :: digest

record embedding_plan_v2 =
  p2_schema_version :: string
  p2_component_sha256 :: digest
  p2_prepared_corpus_sha256 :: digest
  p2_dataset :: dataset_identity
  p2_embedding_profile :: embedding_profile_ref
  p2_executable_tokenizer :: executable_tokenizer_ref
  p2_document_count :: u64
  p2_document_order_sha256 :: digest
  p2_counts_sha256 :: digest
  p2_counts_object :: document_token_counts_object
  p2_token_statistics :: token_statistics
  p2_maximum_task_tokens :: u64
  p2_maximum_task_documents :: u32
  p2_tasks :: "embedding_task_v2 list"

definition EMBEDDING_PLAN_V2_SCHEMA :: string where
  "EMBEDDING_PLAN_V2_SCHEMA = ''livefire.rag.embedding-plan/2''"

definition DOCUMENT_TOKEN_COUNTS_PATH :: string where
  "DOCUMENT_TOKEN_COUNTS_PATH = ''token-counts/document-token-counts.u32le''"

definition json_executable_tokenizer :: "executable_tokenizer_ref \<Rightarrow> json" where
  "json_executable_tokenizer t = JObj
     [(''artifact'', json_component_ref (et_artifact t)),
      (''format'', JStr ''hugging_face_tokenizer_json''),
      (''model_revision'', JStr (et_model_revision t)),
      (''target_tokenizer'', json_component_ref (et_target_tokenizer t)),
      (''add_special_tokens'', JBool (et_add_special_tokens t)),
      (''maximum_input_bytes'', json_u64 (et_maximum_input_bytes t))]"

definition json_input_slice_v2 :: "embedding_input_slice_v2 \<Rightarrow> json" where
  "json_input_slice_v2 s = JObj
     [(''path'', json_path (s2_path s)), (''object_sha256'', json_digest (s2_object_sha256 s)),
      (''row_offset'', json_u64 (s2_row_offset s)), (''rows'', json_u64 (s2_rows s)),
      (''embedding_input_order_sha256'', json_digest (s2_order_sha256 s)),
      (''token_count'', json_u64 (s2_token_count s)),
      (''maximum_document_tokens'', json_u32 (s2_maximum_document_tokens s)),
      (''document_token_counts_sha256'', json_digest (s2_counts_sha256 s))]"

definition json_embedding_task_v2 :: "embedding_task_v2 \<Rightarrow> json" where
  "json_embedding_task_v2 t = JObj
     [(''task_id'', JStr (t2_task_id t)), (''ordinal_start'', json_u64 (t2_ordinal_start t)),
      (''ordinal_end'', json_u64 (t2_ordinal_end t)),
      (''input_slices'', JArr (map json_input_slice_v2 (t2_input_slices t))),
      (''embedding_input_order_sha256'', json_digest (t2_order_sha256 t)),
      (''token_count'', json_u64 (t2_token_count t)),
      (''maximum_document_tokens'', json_u32 (t2_maximum_document_tokens t)),
      (''document_token_counts_sha256'', json_digest (t2_counts_sha256 t)),
      (''result_path'', json_path (t2_result_path t)),
      (''receipt_path'', json_path (t2_receipt_path t))]"

definition json_counts_object :: "document_token_counts_object \<Rightarrow> json" where
  "json_counts_object d = JObj
     [(''path'', json_path (dc_path d)), (''rows'', json_u64 (dc_rows d)),
      (''bytes'', json_u64 (dc_bytes d)), (''sha256'', json_digest (dc_sha256 d)),
      (''document_token_counts_sha256'', json_digest (dc_counts_sha256 d))]"

definition json_token_statistics :: "token_statistics \<Rightarrow> json" where
  "json_token_statistics s = JObj
     [(''total_tokens'', json_u64 (ts_total_tokens s)), (''p50_tokens'', json_u32 (ts_p50_tokens s)),
      (''p90_tokens'', json_u32 (ts_p90_tokens s)), (''p95_tokens'', json_u32 (ts_p95_tokens s)),
      (''p99_tokens'', json_u32 (ts_p99_tokens s)),
      (''maximum_tokens'', json_u32 (ts_maximum_tokens s))]"

definition json_embedding_plan_v2 :: "embedding_plan_v2 \<Rightarrow> json" where
  "json_embedding_plan_v2 p = JObj
     [(''schema_version'', JStr (p2_schema_version p)),
      (''component_sha256'', json_digest (p2_component_sha256 p)),
      (''prepared_corpus_sha256'', json_digest (p2_prepared_corpus_sha256 p)),
      (''dataset'', json_dataset_identity (p2_dataset p)),
      (''embedding_profile'', json_profile_ref (p2_embedding_profile p)),
      (''executable_tokenizer'', json_executable_tokenizer (p2_executable_tokenizer p)),
      (''document_count'', json_u64 (p2_document_count p)),
      (''document_order_sha256'', json_digest (p2_document_order_sha256 p)),
      (''document_token_counts_sha256'', json_digest (p2_counts_sha256 p)),
      (''document_token_counts_object'', json_counts_object (p2_counts_object p)),
      (''token_statistics'', json_token_statistics (p2_token_statistics p)),
      (''maximum_task_tokens'', json_u64 (p2_maximum_task_tokens p)),
      (''maximum_task_documents'', json_u32 (p2_maximum_task_documents p)),
      (''tasks'', JArr (map json_embedding_task_v2 (p2_tasks p)))]"

subsection \<open>Task identity\<close>

record task_identity =
  ti_prepared_corpus_sha256 :: digest
  ti_embedding_profile_sha256 :: digest
  ti_tokenizer_sha256 :: digest

definition plan_identity :: "embedding_plan_v2 \<Rightarrow> task_identity" where
  "plan_identity p = \<lparr>
     ti_prepared_corpus_sha256 = p2_prepared_corpus_sha256 p,
     ti_embedding_profile_sha256 = cr_sha256 (epr_component (p2_embedding_profile p)),
     ti_tokenizer_sha256 = cr_sha256 (et_artifact (p2_executable_tokenizer p)) \<rparr>"

definition embedding_task_v2_id ::
    "externals \<Rightarrow> task_identity \<Rightarrow> u64 \<Rightarrow> u64 \<Rightarrow> digest \<Rightarrow> digest \<Rightarrow> u64 \<Rightarrow>
     pipeline_error + digest" where
  "embedding_task_v2_id X ti ordinal_start ordinal_end order counts token_count =
     canonical_digest X (JObj
       [(''schema_version'', JStr ''livefire.rag.embedding-task/2''),
        (''prepared_corpus_sha256'', json_digest (ti_prepared_corpus_sha256 ti)),
        (''embedding_profile_sha256'', json_digest (ti_embedding_profile_sha256 ti)),
        (''tokenizer_sha256'', json_digest (ti_tokenizer_sha256 ti)),
        (''ordinal_start'', json_u64 ordinal_start), (''ordinal_end'', json_u64 ordinal_end),
        (''embedding_input_order_sha256'', json_digest order),
        (''document_token_counts_sha256'', json_digest counts),
        (''token_count'', json_u64 token_count)])"

subsection \<open>Validation of the task list\<close>

definition add_slice_v2_rows ::
    "u32 \<Rightarrow> u64 \<Rightarrow> embedding_input_slice_v2 \<Rightarrow> pipeline_error + u64" where
  "add_slice_v2_rows maximum_input_tokens acc s =
     rbind (try_all require_safe_u64 [s2_row_offset s, s2_rows s, s2_token_count s]) (\<lambda>_.
     if s2_rows s = 0 \<or> s2_token_count s = 0 \<or> s2_token_count s < s2_rows s
        \<or> s2_maximum_document_tokens s = 0
        \<or> s2_maximum_document_tokens s > maximum_input_tokens
        \<or> u64_of_u32 (s2_maximum_document_tokens s) > s2_token_count s
     then Inl (Invalid ''embedding task v2 slice tokens'')
     else ok_or (Invalid ''embedding task v2 slice rows'') (checked_add acc (s2_rows s)))"

definition add_slice_v2_tokens :: "u64 \<Rightarrow> embedding_input_slice_v2 \<Rightarrow> pipeline_error + u64" where
  "add_slice_v2_tokens acc s =
     ok_or (Invalid ''embedding task v2 slice tokens'') (checked_add acc (s2_token_count s))"

definition maximum_of :: "'b::linorder list \<Rightarrow> 'b option" where
  "maximum_of xs = (case xs of [] \<Rightarrow> None | y # ys \<Rightarrow> Some (fold max ys y))"

definition validate_v2_task_step ::
    "externals \<Rightarrow> u64 \<Rightarrow> u32 \<Rightarrow> u32 \<Rightarrow> task_identity \<Rightarrow> task_state \<Rightarrow> embedding_task_v2 \<Rightarrow>
     pipeline_error + task_state" where
  "validate_v2_task_step X maximum_task_tokens maximum_task_documents maximum_input_tokens ti st t =
     (case st of (next_ordinal, ids, paths) \<Rightarrow>
     rbind (require_safe_u64 (t2_ordinal_start t)) (\<lambda>_.
     rbind (require_safe_u64 (t2_ordinal_end t)) (\<lambda>_.
     rbind (require_safe_u64 (t2_token_count t)) (\<lambda>_.
     let rows = task_v2_row_count t in
     rbind (try_fold (add_slice_v2_rows maximum_input_tokens) 0 (t2_input_slices t))
       (\<lambda>slice_rows.
     rbind (try_fold add_slice_v2_tokens 0 (t2_input_slices t)) (\<lambda>slice_tokens.
     rbind (ok_or (Invalid ''embedding task v2 slices'')
             (maximum_of (map s2_maximum_document_tokens (t2_input_slices t)))) (\<lambda>slice_max.
     rbind (embedding_task_v2_id X ti (t2_ordinal_start t) (t2_ordinal_end t) (t2_order_sha256 t)
             (t2_counts_sha256 t) (t2_token_count t)) (\<lambda>expected_task_id.
     if t2_task_id t \<noteq> digest_str expected_task_id
        \<or> t2_ordinal_start t \<noteq> next_ordinal
        \<or> t2_ordinal_end t \<le> t2_ordinal_start t
        \<or> rows \<noteq> slice_rows
        \<or> rows > u64_of_u32 maximum_task_documents
        \<or> t2_input_slices t = []
        \<or> t2_token_count t = 0
        \<or> t2_token_count t < rows
        \<or> t2_token_count t > maximum_task_tokens
        \<or> t2_token_count t \<noteq> slice_tokens
        \<or> t2_maximum_document_tokens t \<noteq> slice_max
        \<or> t2_maximum_document_tokens t > maximum_input_tokens
        \<or> u64_of_u32 (t2_maximum_document_tokens t) > t2_token_count t
        \<or> t2_task_id t \<in> ids
        \<or> t2_result_path t \<in> paths
        \<or> t2_receipt_path t \<in> insert (t2_result_path t) paths
     then Inl (Invalid ''embedding task v2 coverage'')
     else Inr (t2_ordinal_end t, insert (t2_task_id t) ids,
               insert (t2_receipt_path t) (insert (t2_result_path t) paths))))))))))"

definition validate_v2_tasks ::
    "externals \<Rightarrow> embedding_task_v2 list \<Rightarrow> u64 \<Rightarrow> u64 \<Rightarrow> u32 \<Rightarrow> u32 \<Rightarrow> task_identity \<Rightarrow>
     pipeline_error + unit" where
  "validate_v2_tasks X tasks document_count maximum_task_tokens maximum_task_documents
       maximum_input_tokens ti =
     rbind (try_fold (validate_v2_task_step X maximum_task_tokens maximum_task_documents
              maximum_input_tokens ti) (0, {}, {}) tasks) (\<lambda>(next_ordinal, _, _).
     if next_ordinal \<noteq> document_count \<or> (document_count > 0) \<noteq> (tasks \<noteq> [])
     then Inl (Invalid ''embedding plan v2 coverage'') else Inr ())"

subsection \<open>Count metadata\<close>

definition validate_token_count_metadata :: "embedding_plan_v2 \<Rightarrow> pipeline_error + unit" where
  "validate_token_count_metadata p =
     (let c = p2_counts_object p; s = p2_token_statistics p in
     rbind (try_all require_safe_u64 [dc_rows c, dc_bytes c, ts_total_tokens s]) (\<lambda>_.
     rbind (ok_or (Invalid ''document token count object bytes'')
             (checked_mul (p2_document_count p) 4)) (\<lambda>expected_bytes.
     rbind (try_fold (\<lambda>acc t. ok_or (Invalid ''plan token total'')
              (checked_add acc (t2_token_count t))) 0 (p2_tasks p)) (\<lambda>task_total.
     let task_maximum = (case maximum_of (map t2_maximum_document_tokens (p2_tasks p)) of
                           None \<Rightarrow> 0 | Some m \<Rightarrow> m) in
     if path_str (dc_path c) \<noteq> DOCUMENT_TOKEN_COUNTS_PATH
        \<or> dc_rows c \<noteq> p2_document_count p
        \<or> dc_bytes c \<noteq> expected_bytes
        \<or> dc_counts_sha256 c \<noteq> p2_counts_sha256 p
        \<or> ts_total_tokens s \<noteq> task_total
        \<or> ts_maximum_tokens s \<noteq> task_maximum
        \<or> ts_maximum_tokens s > epr_maximum_input_tokens (p2_embedding_profile p)
        \<or> ts_p50_tokens s > ts_p90_tokens s
        \<or> ts_p90_tokens s > ts_p95_tokens s
        \<or> ts_p95_tokens s > ts_p99_tokens s
        \<or> ts_p99_tokens s > ts_maximum_tokens s
        \<or> (p2_document_count p = 0) \<noteq>
            (ts_total_tokens s = 0 \<and> ts_p50_tokens s = 0 \<and> ts_p90_tokens s = 0
             \<and> ts_p95_tokens s = 0 \<and> ts_p99_tokens s = 0 \<and> ts_maximum_tokens s = 0)
     then Inl (Invalid ''document token count metadata'') else Inr ()))))"

definition check_slice_counts ::
    "externals \<Rightarrow> u32 list \<Rightarrow> nat \<Rightarrow> embedding_input_slice_v2 \<Rightarrow> pipeline_error + nat" where
  "check_slice_counts X counts slice_start s =
     rbind (ok_or (Invalid ''slice token range'')
             (usize_checked_add slice_start (unat (s2_rows s)))) (\<lambda>slice_end.
     rbind (ok_or (Invalid ''slice token range'') (get_range counts slice_start slice_end))
       (\<lambda>slice_counts.
     rbind (ok_or (Invalid ''slice token range'') (try_from_nat slice_start)) (\<lambda>absolute_start.
     rbind (sum_counts slice_counts) (\<lambda>token_count.
     if token_count \<noteq> s2_token_count s then Inl (Invalid ''slice token count binding'')
     else
     rbind (maximum_count slice_counts) (\<lambda>maximum.
     if maximum \<noteq> s2_maximum_document_tokens s then Inl (Invalid ''slice token count binding'')
     else
     rbind (document_token_counts_digest X absolute_start slice_counts) (\<lambda>d.
     if d \<noteq> s2_counts_sha256 s then Inl (Invalid ''slice token count binding'')
     else Inr slice_end))))))"

definition check_task_counts ::
    "externals \<Rightarrow> u32 list \<Rightarrow> embedding_task_v2 \<Rightarrow> pipeline_error + unit" where
  "check_task_counts X counts t =
     (let start = unat (t2_ordinal_start t); stop = unat (t2_ordinal_end t) in
     rbind (ok_or (Invalid ''task token range'') (get_range counts start stop)) (\<lambda>task_counts.
     rbind (sum_counts task_counts) (\<lambda>token_count.
     if token_count \<noteq> t2_token_count t then Inl (Invalid ''task token count binding'')
     else
     rbind (maximum_count task_counts) (\<lambda>maximum.
     if maximum \<noteq> t2_maximum_document_tokens t then Inl (Invalid ''task token count binding'')
     else
     rbind (document_token_counts_digest X (t2_ordinal_start t) task_counts) (\<lambda>d.
     if d \<noteq> t2_counts_sha256 t then Inl (Invalid ''task token count binding'')
     else
     rbind (try_fold (check_slice_counts X counts) start (t2_input_slices t)) (\<lambda>slice_start.
     if slice_start \<noteq> stop then Inl (Invalid ''slice token count coverage'') else Inr ()))))))"

definition validate_counts_against_plan ::
    "externals \<Rightarrow> embedding_plan_v2 \<Rightarrow> u32 list \<Rightarrow> pipeline_error + unit" where
  "validate_counts_against_plan X p counts =
     (if try_from_nat (length counts) \<noteq> Some (p2_document_count p)
         \<or> list_ex (\<lambda>c. c = 0 \<or> c > epr_maximum_input_tokens (p2_embedding_profile p)) counts
      then Inl (Invalid ''document token count coverage'')
      else
      let encoded = encode_document_token_counts counts in
      if try_from_nat (length encoded) \<noteq> Some (dc_bytes (p2_counts_object p))
         \<or> digest_bytes X encoded \<noteq> dc_sha256 (p2_counts_object p)
      then Inl (Invalid ''document token count object binding'')
      else
      rbind (document_token_counts_digest X 0 counts) (\<lambda>d.
      if d \<noteq> p2_counts_sha256 p then Inl (Invalid ''document token count object binding'')
      else
      rbind (token_statistics_of counts) (\<lambda>s.
      if s \<noteq> p2_token_statistics p then Inl (Invalid ''document token count object binding'')
      else try_all (check_task_counts X counts) (p2_tasks p))))"

subsection \<open>Validation of the plan\<close>

definition plan_v2_validate :: "externals \<Rightarrow> embedding_plan_v2 \<Rightarrow> pipeline_error + unit" where
  "plan_v2_validate X p =
     rbind (require_safe_u64 (p2_document_count p)) (\<lambda>_.
     rbind (require_safe_u64 (p2_maximum_task_tokens p)) (\<lambda>_.
     if p2_schema_version p \<noteq> EMBEDDING_PLAN_V2_SCHEMA \<or> p2_maximum_task_tokens p = 0
        \<or> p2_maximum_task_documents p = 0
     then Inl (Invalid ''embedding plan v2 schema or limits'')
     else
     rbind (dataset_identity_validate (p2_dataset p)) (\<lambda>_.
     rbind (embedding_profile_ref_validate (p2_embedding_profile p)) (\<lambda>_.
     rbind (format_document_input_exact (epr_document_format (p2_embedding_profile p))
             ''validation'') (\<lambda>_.
     rbind (tokenizer_validate_for_profile (p2_executable_tokenizer p) (p2_embedding_profile p))
       (\<lambda>_.
     rbind (validate_token_count_metadata p) (\<lambda>_.
     rbind (validate_v2_tasks X (p2_tasks p) (p2_document_count p) (p2_maximum_task_tokens p)
             (p2_maximum_task_documents p) (epr_maximum_input_tokens (p2_embedding_profile p))
             (plan_identity p)) (\<lambda>_.
     rbind (component_digest X (json_embedding_plan_v2 p)) (\<lambda>d.
     if p2_component_sha256 p \<noteq> d then Inl (Invalid ''embedding plan v2 component digest'')
     else Inr ())))))))))"

definition plan_v2_seal ::
    "externals \<Rightarrow> embedding_plan_v2 \<Rightarrow> pipeline_error + embedding_plan_v2" where
  "plan_v2_seal X p =
     rbind (component_digest X (json_embedding_plan_v2 p)) (\<lambda>d.
       let p' = p\<lparr>p2_component_sha256 := d\<rparr> in
       rbind (plan_v2_validate X p') (\<lambda>_. Inr p'))"

definition plan_v2_task :: "embedding_plan_v2 \<Rightarrow> string \<Rightarrow> embedding_task_v2 option" where
  "plan_v2_task p i = find (\<lambda>t. t2_task_id t = i) (p2_tasks p)"

definition validate_document_token_counts ::
    "externals \<Rightarrow> embedding_plan_v2 \<Rightarrow> u32 list \<Rightarrow> pipeline_error + unit" where
  "validate_document_token_counts X p counts =
     rbind (plan_v2_validate X p) (\<lambda>_. validate_counts_against_plan X p counts)"

definition check_v2_slice_binding ::
    "object_starts \<Rightarrow> u64 \<Rightarrow> u64 \<Rightarrow> embedding_input_slice_v2 \<Rightarrow> pipeline_error + u64" where
  "check_v2_slice_binding starts ordinal_end next_ordinal s =
     rbind (ok_or (Invalid ''task v2 input object'') (bt_get starts (s2_path s))) (\<lambda>(start, ob).
     rbind (ok_or (Invalid ''task v2 input slice'')
             (checked_add (s2_row_offset s) (s2_rows s))) (\<lambda>slice_end.
     rbind (ok_or (Invalid ''task v2 input slice'')
             (checked_add start (s2_row_offset s))) (\<lambda>global_start.
     rbind (ok_or (Invalid ''task v2 input slice'')
             (checked_add start slice_end)) (\<lambda>global_end.
     if s2_object_sha256 s \<noteq> oe_sha256 (dobj_object ob)
        \<or> slice_end > dobj_rows ob
        \<or> global_start \<noteq> next_ordinal
        \<or> global_end > ordinal_end
     then Inl (Invalid ''task v2 input slice binding'')
     else Inr global_end))))"

definition check_v2_task_slices :: "object_starts \<Rightarrow> embedding_task_v2 \<Rightarrow> pipeline_error + unit" where
  "check_v2_task_slices starts t =
     rbind (try_fold (check_v2_slice_binding starts (t2_ordinal_end t)) (t2_ordinal_start t)
             (t2_input_slices t)) (\<lambda>next_ordinal.
     if next_ordinal \<noteq> t2_ordinal_end t then Inl (Invalid ''task v2 input slice coverage'')
     else Inr ())"

definition validate_v2_slices_against_manifest ::
    "embedding_task_v2 list \<Rightarrow> prepared_document_object list \<Rightarrow> pipeline_error + unit" where
  "validate_v2_slices_against_manifest tasks objects =
     rbind (object_starts_of objects) (\<lambda>starts. try_all (check_v2_task_slices starts) tasks)"

definition plan_v2_validate_manifest_binding ::
    "externals \<Rightarrow> embedding_plan_v2 \<Rightarrow> prepared_corpus_manifest \<Rightarrow> pipeline_error + unit" where
  "plan_v2_validate_manifest_binding X p m =
     rbind (plan_v2_validate X p) (\<lambda>_.
     rbind (prepared_manifest_validate X m) (\<lambda>_.
     if p2_prepared_corpus_sha256 p \<noteq> pc_component_sha256 m
        \<or> p2_dataset p \<noteq> pc_dataset m
        \<or> p2_document_count p \<noteq> pc_document_count m
        \<or> p2_document_order_sha256 p \<noteq> pc_document_order_sha256 m
     then Inl (Invalid ''embedding plan v2 corpus binding'')
     else validate_v2_slices_against_manifest (p2_tasks p) (pc_documents m)))"

subsection \<open>Accepted task lists\<close>

abbreviation v2_tasks_cover :: "nat \<Rightarrow> embedding_task_v2 list \<Rightarrow> nat \<Rightarrow> bool" where
  "v2_tasks_cover \<equiv> covers_from (\<lambda>t. unat (t2_ordinal_start t)) (\<lambda>t. unat (t2_ordinal_end t))"

text \<open>
  A task within the limits whose slices add up to its rows and tokens and whose identifier is
  the digest of its content.
\<close>

definition v2_task_ok ::
    "externals \<Rightarrow> u64 \<Rightarrow> u32 \<Rightarrow> u32 \<Rightarrow> task_identity \<Rightarrow> embedding_task_v2 \<Rightarrow> bool" where
  "v2_task_ok X max_tokens max_documents max_input ti t \<longleftrightarrow>
     embedding_task_v2_id X ti (t2_ordinal_start t) (t2_ordinal_end t) (t2_order_sha256 t)
       (t2_counts_sha256 t) (t2_token_count t) = Inr (Digest (t2_task_id t)) \<and>
     unat (task_v2_row_count t) \<le> unat max_documents \<and>
     task_v2_row_count t \<le> t2_token_count t \<and> t2_token_count t \<le> max_tokens \<and>
     sum_list (map (\<lambda>s. unat (s2_rows s)) (t2_input_slices t)) = unat (task_v2_row_count t) \<and>
     sum_list (map (\<lambda>s. unat (s2_token_count s)) (t2_input_slices t)) = unat (t2_token_count t) \<and>
     t2_maximum_document_tokens t = Max (s2_maximum_document_tokens ` set (t2_input_slices t)) \<and>
     t2_maximum_document_tokens t \<le> max_input \<and>
     list_all (\<lambda>s. 0 < s2_rows s \<and> s2_rows s \<le> s2_token_count s \<and>
       0 < s2_maximum_document_tokens s) (t2_input_slices t)"

abbreviation slice_v2_ok :: "u32 \<Rightarrow> embedding_input_slice_v2 \<Rightarrow> bool" where
  "slice_v2_ok max_input s \<equiv> s2_row_offset s \<le> MAX_SAFE_JSON_INTEGER \<and>
     s2_rows s \<le> MAX_SAFE_JSON_INTEGER \<and> s2_token_count s \<le> MAX_SAFE_JSON_INTEGER \<and>
     0 < s2_rows s \<and> s2_rows s \<le> s2_token_count s \<and> 0 < s2_maximum_document_tokens s \<and>
     s2_maximum_document_tokens s \<le> max_input \<and>
     u64_of_u32 (s2_maximum_document_tokens s) \<le> s2_token_count s"

lemma add_slice_v2_rows_step:
  "add_slice_v2_rows m a s = Inr b \<longleftrightarrow> slice_v2_ok m s \<and> unat b = unat a + unat (s2_rows s)"
  unfolding add_slice_v2_rows_def
  by (auto simp: rbind_eq_Inr try_all_ok require_safe_u64_ok ok_or_eq_Inr checked_add_unat
      linorder_not_less word_gt_0)

lemmas add_slice_v2_rows_fold = try_fold_sum [where step = "add_slice_v2_rows m"
    and P = "slice_v2_ok m" and f = "\<lambda>s. unat (s2_rows s)", OF add_slice_v2_rows_step] for m

lemma add_slice_v2_tokens_fold:
  "try_fold add_slice_v2_tokens a ss = Inr b \<longleftrightarrow>
     unat b = unat a + sum_list (map (\<lambda>s. unat (s2_token_count s)) ss)"
  using try_fold_sum [where step = add_slice_v2_tokens and P = "\<lambda>_. True"
      and f = "\<lambda>s. unat (s2_token_count s)"]
  by (simp add: add_slice_v2_tokens_def ok_or_eq_Inr checked_add_unat list_all_iff)

lemma maximum_of_Some: "maximum_of xs = Some m \<longleftrightarrow> xs \<noteq> [] \<and> m = Max (set xs)"
  by (cases xs) (auto simp: maximum_of_def Max.set_eq_fold [symmetric])

lemma validate_v2_task_step_ok:
  assumes "validate_v2_task_step X mt md mi ti (n, ids, paths) t = Inr (n', ids', paths')"
  shows "v2_task_ok X mt md mi ti t \<and> t2_ordinal_start t = n \<and> n < t2_ordinal_end t \<and>
    t2_task_id t \<notin> ids \<and> n' = t2_ordinal_end t \<and> ids' = insert (t2_task_id t) ids"
proof -
  from assms obtain a b m d where
    rows: "try_fold (add_slice_v2_rows mi) 0 (t2_input_slices t) = Inr a" "task_v2_row_count t = a"
    and tokens: "try_fold add_slice_v2_tokens 0 (t2_input_slices t) = Inr b" "t2_token_count t = b"
    and max: "maximum_of (map s2_maximum_document_tokens (t2_input_slices t)) = Some m"
      "t2_maximum_document_tokens t = m"
    and ident: "embedding_task_v2_id X ti (t2_ordinal_start t) (t2_ordinal_end t) (t2_order_sha256 t)
       (t2_counts_sha256 t) (t2_token_count t) = Inr d" "t2_task_id t = digest_str d"
    and lim: "t2_ordinal_start t = n" "n < t2_ordinal_end t"
      "task_v2_row_count t \<le> u64_of_u32 md" "task_v2_row_count t \<le> t2_token_count t"
      "t2_token_count t \<le> mt" "t2_maximum_document_tokens t \<le> mi" "t2_task_id t \<notin> ids"
      "n' = t2_ordinal_end t" "ids' = insert (t2_task_id t) ids"
    unfolding validate_v2_task_step_def prod.case Let_def rbind_eq_Inr ok_or_eq_Inr if_Inl_eq_Inr
      de_Morgan_disj not_not linorder_not_less linorder_not_le
    by auto
  have "list_all (\<lambda>s. 0 < s2_rows s \<and> s2_rows s \<le> s2_token_count s \<and>
       0 < s2_maximum_document_tokens s) (t2_input_slices t)"
    using rows(1) by (auto simp: add_slice_v2_rows_fold list_all_iff)
  moreover have "unat (task_v2_row_count t) \<le> unat md"
    using lim(3) by (simp add: word_le_nat_alt)
  ultimately show ?thesis
    using rows tokens max ident lim
    by (auto simp: v2_task_ok_def add_slice_v2_rows_fold add_slice_v2_tokens_fold maximum_of_Some)
qed

lemma validate_v2_task_fold:
  "try_fold (validate_v2_task_step X mt md mi ti) (n, ids, paths) ts = Inr (n', ids', paths') \<Longrightarrow>
   list_all (v2_task_ok X mt md mi ti) ts \<and> v2_tasks_cover (unat n) ts (unat n') \<and>
   distinct (map t2_task_id ts) \<and> ids \<inter> t2_task_id ` set ts = {}"
proof (induction ts arbitrary: n ids paths)
  case (Cons t ts)
  then obtain a b c where step: "validate_v2_task_step X mt md mi ti (n, ids, paths) t = Inr (a, b, c)"
    and rest: "try_fold (validate_v2_task_step X mt md mi ti) (a, b, c) ts = Inr (n', ids', paths')"
    by (auto simp: rbind_eq_Inr)
  from validate_v2_task_step_ok [OF step] Cons.IH [OF rest] show ?case
    by (auto simp: word_less_nat_alt)
qed simp

lemma validate_v2_tasks_accepts:
  assumes "validate_v2_tasks X ts n mt md mi ti = Inr ()"
  shows "list_all (v2_task_ok X mt md mi ti) ts \<and> v2_tasks_cover 0 ts (unat n) \<and>
    distinct (map t2_task_id ts)"
proof -
  from assms obtain i p where
    "try_fold (validate_v2_task_step X mt md mi ti) (0, {}, {}) ts = Inr (n, i, p)"
    unfolding validate_v2_tasks_def rbind_eq_Inr by (auto split: prod.splits if_splits)
  from validate_v2_task_fold [OF this] show ?thesis by simp
qed

interpretation v2_tasks: contiguous_plan t2_ordinal_start t2_ordinal_end
  "\<lambda>(X, mt, md, mi, ti) ts n. validate_v2_tasks X ts n mt md mi ti = Inr ()"
  by unfold_locales (auto simp: validate_v2_tasks_accepts)

subsection \<open>Sealing\<close>

definition plan_v2_body :: "externals \<Rightarrow> embedding_plan_v2 \<Rightarrow> bool" where
  "plan_v2_body X p \<longleftrightarrow>
     p2_document_count p \<le> MAX_SAFE_JSON_INTEGER \<and>
     p2_maximum_task_tokens p \<le> MAX_SAFE_JSON_INTEGER \<and>
     p2_schema_version p = EMBEDDING_PLAN_V2_SCHEMA \<and> p2_maximum_task_tokens p \<noteq> 0 \<and>
     p2_maximum_task_documents p \<noteq> 0 \<and>
     dataset_identity_validate (p2_dataset p) = Inr () \<and>
     embedding_profile_ref_validate (p2_embedding_profile p) = Inr () \<and>
     is_ok (format_document_input_exact (epr_document_format (p2_embedding_profile p)) ''validation'') \<and>
     tokenizer_validate_for_profile (p2_executable_tokenizer p) (p2_embedding_profile p) = Inr () \<and>
     validate_token_count_metadata p = Inr () \<and>
     validate_v2_tasks X (p2_tasks p) (p2_document_count p) (p2_maximum_task_tokens p)
       (p2_maximum_task_documents p) (epr_maximum_input_tokens (p2_embedding_profile p))
       (plan_identity p) = Inr ()"

lemma plan_v2_validate_iff:
  "plan_v2_validate X p = Inr u \<longleftrightarrow>
     plan_v2_body X p \<and> component_digest X (json_embedding_plan_v2 p) = Inr (p2_component_sha256 p)"
  unfolding plan_v2_validate_def plan_v2_body_def
  by (auto simp: rbind_eq_Inr require_safe_u64_ok is_ok_iff split: if_splits)

interpretation plan_v2_seal: sealed_component p2_component_sha256
  "\<lambda>d p :: embedding_plan_v2. p\<lparr>p2_component_sha256 := d\<rparr>" json_embedding_plan_v2 plan_v2_body
  plan_v2_validate plan_v2_seal
proof
  fix d X u and p :: embedding_plan_v2
  show "p2_component_sha256 (p\<lparr>p2_component_sha256 := d\<rparr>) = d" by simp
  show "p\<lparr>p2_component_sha256 := p2_component_sha256 p\<rparr> = p" by simp
  show "without_self_digest (json_embedding_plan_v2 (p\<lparr>p2_component_sha256 := d\<rparr>)) =
      without_self_digest (json_embedding_plan_v2 p)"
    by (simp add: json_embedding_plan_v2_def without_self_digest_def)
  have "plan_identity (p\<lparr>p2_component_sha256 := d\<rparr>) = plan_identity p"
    by (simp add: plan_identity_def)
  moreover have "validate_token_count_metadata (p\<lparr>p2_component_sha256 := d\<rparr>) =
      validate_token_count_metadata p"
    unfolding validate_token_count_metadata_def Let_def
    by (cases p) (simp only: embedding_plan_v2.simps)
  ultimately show "plan_v2_body X (p\<lparr>p2_component_sha256 := d\<rparr>) = plan_v2_body X p"
    by (simp add: plan_v2_body_def)
  show "plan_v2_validate X p = Inr u \<longleftrightarrow> plan_v2_body X p \<and>
      component_digest X (json_embedding_plan_v2 p) = Inr (p2_component_sha256 p)"
    by (rule plan_v2_validate_iff)
  show "plan_v2_seal X p = rbind (component_digest X (json_embedding_plan_v2 p))
      (\<lambda>d. rbind (plan_v2_validate X (p\<lparr>p2_component_sha256 := d\<rparr>))
        (\<lambda>_. Inr (p\<lparr>p2_component_sha256 := d\<rparr>)))"
    by (simp add: plan_v2_seal_def Let_def)
qed

subsection \<open>What the stored counts promise\<close>

definition task_range :: "embedding_task_v2 \<Rightarrow> nat \<times> nat" where
  "task_range t = (unat (t2_ordinal_start t), unat (t2_ordinal_end t))"

text \<open>The token total, the maximum and the digest of a run of counts.\<close>

definition run_described :: "externals \<Rightarrow> u64 \<Rightarrow> u32 list \<Rightarrow> u64 \<Rightarrow> u32 \<Rightarrow> digest \<Rightarrow> bool" where
  "run_described X start run tokens maximum d \<longleftrightarrow>
     run \<noteq> [] \<and> unat tokens = token_sum run \<and> maximum = Max (set run) \<and>
     document_token_counts_digest X start run = Inr d"

definition task_described :: "externals \<Rightarrow> u32 list \<Rightarrow> embedding_task_v2 \<Rightarrow> bool" where
  "task_described X counts t \<longleftrightarrow>
     run_described X (t2_ordinal_start t) (range_counts counts (task_range t))
       (t2_token_count t) (t2_maximum_document_tokens t) (t2_counts_sha256 t)"

definition slice_described ::
    "externals \<Rightarrow> u32 list \<Rightarrow> nat \<Rightarrow> embedding_input_slice_v2 \<Rightarrow> bool" where
  "slice_described X counts start s \<longleftrightarrow>
     run_described X (of_nat start) (range_counts counts (start, start + unat (s2_rows s)))
       (s2_token_count s) (s2_maximum_document_tokens s) (s2_counts_sha256 s)"

abbreviation v2_row_counts :: "embedding_input_slice_v2 list \<Rightarrow> nat list" where
  "v2_row_counts \<equiv> map (\<lambda>s. unat (s2_rows s))"

definition task_slices_described :: "externals \<Rightarrow> u32 list \<Rightarrow> embedding_task_v2 \<Rightarrow> bool" where
  "task_slices_described X counts t \<longleftrightarrow>
     list_all2 (slice_described X counts)
       (starts_from (unat (t2_ordinal_start t)) (v2_row_counts (t2_input_slices t)))
       (t2_input_slices t)"

lemma check_slice_counts_ok:
  assumes "length counts < 2 ^ 64"
  shows "check_slice_counts X counts start s = Inr stop \<longleftrightarrow>
    stop = start + unat (s2_rows s) \<and> stop \<le> length counts \<and> slice_described X counts start s"
proof -
  have small: "start \<le> length counts \<Longrightarrow> unat (of_nat start :: u64) = start"
    using assms by (simp add: unat_of_small)
  show ?thesis
    unfolding check_slice_counts_def slice_described_def run_described_def range_counts_def
    using small assms
    by (auto simp: rbind_eq_Inr ok_or_eq_Inr usize_checked_add_Some get_range_Some sum_counts_ok
        maximum_count_ok try_from_nat_def split: if_splits)
qed

lemma check_slice_counts_fold:
  assumes "length counts < 2 ^ 64"
  shows "try_fold (check_slice_counts X counts) start ss = Inr stop \<Longrightarrow>
    stop = start + sum_list (v2_row_counts ss) \<and>
    list_all2 (slice_described X counts) (starts_from start (v2_row_counts ss)) ss"
proof (induction ss arbitrary: start)
  case (Cons s ss)
  then obtain k where "check_slice_counts X counts start s = Inr k"
    and rest: "try_fold (check_slice_counts X counts) k ss = Inr stop"
    by (auto simp: rbind_eq_Inr)
  then have "k = start + unat (s2_rows s)" and "slice_described X counts start s"
    by (simp_all add: check_slice_counts_ok [OF assms])
  with Cons.IH [OF rest] show ?case by simp
qed simp

lemma check_task_counts_ok:
  assumes small: "length counts < 2 ^ 64" and acc: "check_task_counts X counts t = Inr ()"
  shows "task_described X counts t \<and> task_slices_described X counts t"
proof -
  from acc obtain run n m d where
    run: "get_range counts (unat (t2_ordinal_start t)) (unat (t2_ordinal_end t)) = Some run"
    and n: "sum_counts run = Inr n" "t2_token_count t = n"
    and m: "maximum_count run = Inr m" "t2_maximum_document_tokens t = m"
    and d: "document_token_counts_digest X (t2_ordinal_start t) run = Inr d" "t2_counts_sha256 t = d"
    and fold: "try_fold (check_slice_counts X counts) (unat (t2_ordinal_start t)) (t2_input_slices t)
      = Inr (unat (t2_ordinal_end t))"
    unfolding check_task_counts_def Let_def rbind_eq_Inr ok_or_eq_Inr if_Inl_eq_Inr by auto
  have "range_counts counts (task_range t) = run"
    using run by (simp add: range_counts_def task_range_def get_range_Some)
  with n m d have "task_described X counts t"
    by (simp add: task_described_def run_described_def sum_counts_ok maximum_count_ok)
  moreover have "task_slices_described X counts t"
    using check_slice_counts_fold [OF small fold] by (simp add: task_slices_described_def)
  ultimately show ?thesis ..
qed

lemma counts_against_plan_parts:
  assumes "validate_counts_against_plan X p counts = Inr ()"
  shows "length counts = unat (p2_document_count p)"
    and "list_all (\<lambda>c. 0 < c \<and> c \<le> epr_maximum_input_tokens (p2_embedding_profile p)) counts"
    and "digest_bytes X (encode_document_token_counts counts) = dc_sha256 (p2_counts_object p)"
    and "token_statistics_of counts = Inr (p2_token_statistics p)"
    and "list_all (\<lambda>t. task_described X counts t \<and> task_slices_described X counts t) (p2_tasks p)"
proof -
  from assms have n: "try_from_nat (length counts) = Some (p2_document_count p)"
    and c: "\<not> list_ex (\<lambda>c. c = 0 \<or> c > epr_maximum_input_tokens (p2_embedding_profile p)) counts"
    and d: "digest_bytes X (encode_document_token_counts counts) = dc_sha256 (p2_counts_object p)"
    and s: "token_statistics_of counts = Inr (p2_token_statistics p)"
    and t: "try_all (check_task_counts X counts) (p2_tasks p) = Inr ()"
    unfolding validate_counts_against_plan_def Let_def rbind_eq_Inr if_Inl_eq_Inr by auto
  show len: "length counts = unat (p2_document_count p)" using n by (simp add: try_from_nat_unat)
  show "list_all (\<lambda>c. 0 < c \<and> c \<le> epr_maximum_input_tokens (p2_embedding_profile p)) counts"
    using c by (auto simp: list_ex_iff list_all_iff word_gt_0 linorder_not_less)
  show "digest_bytes X (encode_document_token_counts counts) = dc_sha256 (p2_counts_object p)"
    by (rule d)
  show "token_statistics_of counts = Inr (p2_token_statistics p)" by (rule s)
  have small: "length counts < 2 ^ 64" using len unat_bound [of "p2_document_count p"] by simp
  show "list_all (\<lambda>t. task_described X counts t \<and> task_slices_described X counts t) (p2_tasks p)"
    using t check_task_counts_ok [OF small] unfolding try_all_ok list_all_iff by blast
qed

lemma count_within_task:
  assumes cov: "v2_tasks_cover 0 ts (length counts)"
    and feas: "\<And>t. t \<in> set ts \<Longrightarrow> range_feasible max_documents max_tokens counts (task_range t)"
  shows "list_all (\<lambda>c. unat c \<le> unat max_tokens) counts"
proof (unfold list_all_length, intro allI impI)
  fix i assume i: "i < length counts"
  from covers_from_unique [OF cov _ i] obtain k where k: "k < length ts"
    "unat (t2_ordinal_start (ts ! k)) \<le> i" "i < unat (t2_ordinal_end (ts ! k))" by auto
  have "token_sum (range_counts counts (i, Suc i)) \<le> token_sum (range_counts counts (task_range (ts ! k)))"
    using k(2,3) by (simp add: task_range_def token_sum_mono)
  moreover have "token_sum (range_counts counts (i, Suc i)) = unat (counts ! i)"
    using i by (simp add: range_counts_def take_Suc_conv_app_nth)
  moreover have "token_sum (range_counts counts (task_range (ts ! k))) \<le> unat max_tokens"
    using feas [of "ts ! k"] k(1) by (simp add: range_feasible_def)
  ultimately show "unat (counts ! i) \<le> unat max_tokens" by simp
qed

text \<open>
  C15: in a plan validated with its counts the tasks are a feasible cut of the documents (each
  document in one task, every task within the document and token limits by the actual counts),
  every task and every slice states the total and maximum of its own counts, and no cut the
  greedy builder makes of these counts has more tasks.
\<close>

theorem plan_counts_feasible:
  assumes "validate_document_token_counts X p counts = Inr ()"
  shows "length counts = unat (p2_document_count p) \<and>
    ranges_cover 0 (map task_range (p2_tasks p)) (length counts) \<and>
    list_all (range_feasible (unat (p2_maximum_task_documents p)) (p2_maximum_task_tokens p) counts)
      (map task_range (p2_tasks p)) \<and>
    list_all (\<lambda>t. task_described X counts t \<and> task_slices_described X counts t) (p2_tasks p) \<and>
    (\<exists>rs. balance_ranges (unat (p2_maximum_task_documents p)) (p2_maximum_task_tokens p) counts 0
       = Inr rs \<and> length rs \<le> length (p2_tasks p))"
proof -
  let ?md = "unat (p2_maximum_task_documents p)" and ?mt = "p2_maximum_task_tokens p"
  from assms have v: "plan_v2_validate X p = Inr ()"
    and c: "validate_counts_against_plan X p counts = Inr ()"
    by (auto simp: validate_document_token_counts_def rbind_eq_Inr)
  note parts = counts_against_plan_parts [OF c]
  from v have body: "p2_maximum_task_documents p \<noteq> 0"
    and "validate_v2_tasks X (p2_tasks p) (p2_document_count p) ?mt
       (p2_maximum_task_documents p) (epr_maximum_input_tokens (p2_embedding_profile p))
       (plan_identity p) = Inr ()"
    by (simp_all add: plan_v2_validate_iff plan_v2_body_def)
  from validate_v2_tasks_accepts [OF this(2)]
  have ok: "list_all (v2_task_ok X ?mt (p2_maximum_task_documents p)
      (epr_maximum_input_tokens (p2_embedding_profile p)) (plan_identity p)) (p2_tasks p)"
    and cov: "v2_tasks_cover 0 (p2_tasks p) (length counts)" by (simp_all add: parts(1))
  have map_cover: "ranges_cover a (map task_range ts) n = v2_tasks_cover a ts n" for a ts n
    by (induction ts arbitrary: a) (simp_all add: task_range_def)
  have feas: "range_feasible ?md ?mt counts (task_range t)" if t: "t \<in> set (p2_tasks p)" for t
  proof -
    from covers_from_bounds [OF cov t] have "fst (task_range t) < snd (task_range t)"
      "snd (task_range t) \<le> length counts" by (simp_all add: task_range_def)
    moreover from ok t have "unat (task_v2_row_count t) \<le> ?md" "t2_token_count t \<le> ?mt"
      by (auto simp: list_all_iff v2_task_ok_def)
    moreover from parts(5) t have "unat (t2_token_count t) = token_sum (range_counts counts (task_range t))"
      by (auto simp: list_all_iff task_described_def run_described_def)
    ultimately show ?thesis
      by (simp add: range_feasible_def task_v2_row_count_def word_facts task_range_def word_le_nat_alt)
  qed
  then have all: "list_all (range_feasible ?md ?mt counts) (map task_range (p2_tasks p))"
    by (simp add: list_all_iff)
  have single: "list_all (\<lambda>c. unat c \<le> unat ?mt) counts"
    by (rule count_within_task [OF cov feas])
  obtain rs where rs: "balance_ranges ?md ?mt counts 0 = Inr rs"
    using balance_ranges_total [OF _ single] body by (metis unat_gt_0)
  have cov': "ranges_cover 0 (map task_range (p2_tasks p)) (length counts)"
    using cov by (simp add: map_cover)
  from balance_ranges_optimal [OF rs cov' _ all] show ?thesis
    using parts(1,5) cov' all rs by simp
qed

end
