(* ===== verification/Token_Build.thy ===== *)
theory Token_Build
  imports Token_Plan
begin

text \<open>
  The builder of token-balanced plans (\<open>build_token_balanced_plan_with_counts\<close>) and its
  re-check (\<open>validate_with_tokenizer\<close>), the derivation of a plan for a shortened profile, and
  the validation of receipts and result sets against a token-balanced plan, all of
  \<open>crates/rag-pipeline/src/token_plan.rs\<close>.
\<close>

subsection \<open>The builder\<close>

record token_balance_options =
  tb_maximum_task_tokens :: u64
  tb_maximum_task_documents :: u32

definition count_document ::
    "exact_tokenizer \<Rightarrow> embedding_profile_ref \<Rightarrow> token_balance_options \<Rightarrow>
     prepared_document_row \<Rightarrow> pipeline_error + u32" where
  "count_document x e opts row =
     rbind (format_document_input_exact (epr_document_format e) (pd_semantic_text row)) (\<lambda>input.
     rbind (exact_count x input) (\<lambda>n.
     rbind (ok_or (Invalid ''document tokens'') (try_from_nat (unat n))) (\<lambda>tokens.
     if tokens = 0 \<or> tokens > epr_maximum_input_tokens e
        \<or> u64_of_u32 tokens > tb_maximum_task_tokens opts
     then Inl (Invalid ''overlength embedding document'') else Inr tokens)))"

definition build_slice_step ::
    "externals \<Rightarrow> prepared_document_row list \<Rightarrow> u32 list \<Rightarrow> u64 \<Rightarrow> u64 \<Rightarrow>
     embedding_input_slice_v2 list \<times> u64 \<Rightarrow> prepared_document_object \<Rightarrow>
     pipeline_error + embedding_input_slice_v2 list \<times> u64" where
  "build_slice_step X documents counts task_start task_end st ob =
     (case st of (acc, object_start) \<Rightarrow>
     rbind (ok_or (Invalid ''document object range'') (checked_add object_start (dobj_rows ob)))
       (\<lambda>object_end.
     let start = max task_start object_start; stop = min task_end object_end in
     if start < stop then
       rbind (ok_or (Invalid ''document slice token range'')
               (get_range counts (unat start) (unat stop))) (\<lambda>slice_counts.
       rbind (ok_or (Invalid ''document slice range'')
               (get_range documents (unat start) (unat stop))) (\<lambda>slice_rows.
       rbind (sum_counts slice_counts) (\<lambda>token_count.
       rbind (maximum_count slice_counts) (\<lambda>maximum.
       rbind (document_token_counts_digest X start slice_counts) (\<lambda>d.
       Inr (acc @ [\<lparr>s2_path = dobj_path ob, s2_object_sha256 = oe_sha256 (dobj_object ob),
              s2_row_offset = start - object_start, s2_rows = stop - start,
              s2_order_sha256 = embedding_input_order_digest X slice_rows,
              s2_token_count = token_count, s2_maximum_document_tokens = maximum,
              s2_counts_sha256 = d\<rparr>], object_end))))))
     else Inr (acc, object_end)))"

definition build_v2_slices ::
    "externals \<Rightarrow> prepared_document_object list \<Rightarrow> prepared_document_row list \<Rightarrow> u32 list \<Rightarrow>
     u64 \<Rightarrow> u64 \<Rightarrow> pipeline_error + embedding_input_slice_v2 list" where
  "build_v2_slices X objects documents counts task_start task_end =
     rbind (try_fold (build_slice_step X documents counts task_start task_end) ([], 0) objects)
       (\<lambda>(acc, _).
     if acc = [] then Inl (Invalid ''empty document slices'') else Inr acc)"

definition parts_path :: "string \<Rightarrow> pipeline_error + safe_path" where
  "parts_path task_id = safe_relative_path_new (''parts/'' @ task_id @ ''.f32'')"

definition receipts_path :: "string \<Rightarrow> pipeline_error + safe_path" where
  "receipts_path task_id = safe_relative_path_new (''receipts/'' @ task_id @ ''.json'')"

definition build_task ::
    "externals \<Rightarrow> prepared_corpus_manifest \<Rightarrow> prepared_document_row list \<Rightarrow> u32 list \<Rightarrow>
     task_identity \<Rightarrow> nat \<times> nat \<Rightarrow> pipeline_error + embedding_task_v2" where
  "build_task X m documents counts ti r =
     (case r of (start, stop) \<Rightarrow>
     rbind (ok_or (Invalid ''task ordinal'') (try_from_nat start)) (\<lambda>ordinal_start.
     rbind (ok_or (Invalid ''task ordinal'') (try_from_nat stop)) (\<lambda>ordinal_end.
     let task_counts = take (stop - start) (drop start counts) in
     rbind (sum_counts task_counts) (\<lambda>token_count.
     rbind (maximum_count task_counts) (\<lambda>maximum.
     rbind (document_token_counts_digest X ordinal_start task_counts) (\<lambda>token_digest.
     let order_digest =
       embedding_input_order_digest X (take (stop - start) (drop start documents)) in
     rbind (build_v2_slices X (pc_documents m) documents counts ordinal_start ordinal_end)
       (\<lambda>input_slices.
     rbind (embedding_task_v2_id X ti ordinal_start ordinal_end order_digest token_digest token_count)
       (\<lambda>ident. let task_id = digest_str ident in
     rbind (parts_path task_id) (\<lambda>result_path.
     rbind (receipts_path task_id) (\<lambda>receipt_path.
     Inr \<lparr>t2_task_id = task_id, t2_ordinal_start = ordinal_start, t2_ordinal_end = ordinal_end,
          t2_input_slices = input_slices, t2_order_sha256 = order_digest,
          t2_token_count = token_count, t2_maximum_document_tokens = maximum,
          t2_counts_sha256 = token_digest, t2_result_path = result_path,
          t2_receipt_path = receipt_path\<rparr>))))))))))"

definition build_plan_from_counts ::
    "externals \<Rightarrow> prepared_corpus_manifest \<Rightarrow> prepared_document_row list \<Rightarrow>
     embedding_profile_ref \<Rightarrow> executable_tokenizer_ref \<Rightarrow> token_balance_options \<Rightarrow> u32 list \<Rightarrow>
     pipeline_error + embedding_plan_v2" where
  "build_plan_from_counts X m documents e et opts counts =
     rbind (balance_ranges (unat (tb_maximum_task_documents opts)) (tb_maximum_task_tokens opts)
             counts 0) (\<lambda>ranges.
     rbind (try_map (build_task X m documents counts
              \<lparr>ti_prepared_corpus_sha256 = pc_component_sha256 m,
               ti_embedding_profile_sha256 = cr_sha256 (epr_component e),
               ti_tokenizer_sha256 = cr_sha256 (et_artifact et)\<rparr>) ranges) (\<lambda>tasks.
     let counts_bytes = encode_document_token_counts counts in
     rbind (document_token_counts_digest X 0 counts) (\<lambda>counts_digest.
     rbind (digest_new (replicate 64 (CHR ''0''))) (\<lambda>zero_digest.
     rbind (safe_relative_path_new DOCUMENT_TOKEN_COUNTS_PATH) (\<lambda>counts_path.
     rbind (ok_or (Invalid ''document token count object bytes'')
             (try_from_nat (length counts_bytes))) (\<lambda>bytes_len.
     rbind (token_statistics_of counts) (\<lambda>statistics.
     plan_v2_seal X \<lparr>p2_schema_version = EMBEDDING_PLAN_V2_SCHEMA,
       p2_component_sha256 = zero_digest,
       p2_prepared_corpus_sha256 = pc_component_sha256 m, p2_dataset = pc_dataset m,
       p2_embedding_profile = e, p2_executable_tokenizer = et,
       p2_document_count = pc_document_count m,
       p2_document_order_sha256 = pc_document_order_sha256 m,
       p2_counts_sha256 = counts_digest,
       p2_counts_object = \<lparr>dc_path = counts_path, dc_rows = pc_document_count m,
         dc_bytes = bytes_len, dc_sha256 = digest_bytes X counts_bytes,
         dc_counts_sha256 = counts_digest\<rparr>,
       p2_token_statistics = statistics,
       p2_maximum_task_tokens = tb_maximum_task_tokens opts,
       p2_maximum_task_documents = tb_maximum_task_documents opts, p2_tasks = tasks\<rparr>)))))))"

definition build_token_balanced_plan_with_counts ::
    "externals \<Rightarrow> tokenizer_loader \<Rightarrow> prepared_corpus_manifest \<Rightarrow> prepared_document_row list \<Rightarrow>
     embedding_profile_ref \<Rightarrow> executable_tokenizer_ref \<Rightarrow> bytes \<Rightarrow> token_balance_options \<Rightarrow>
     pipeline_error + embedding_plan_v2 \<times> u32 list" where
  "build_token_balanced_plan_with_counts X load m documents e et tokenizer_bytes opts =
     rbind (prepared_manifest_validate X m) (\<lambda>_.
     rbind (validate_prepared_documents X m documents) (\<lambda>_.
     rbind (embedding_profile_ref_validate e) (\<lambda>_.
     rbind (tokenizer_validate_for_profile et e) (\<lambda>_.
     rbind (require_safe_u64 (tb_maximum_task_tokens opts)) (\<lambda>_.
     if tb_maximum_task_tokens opts = 0 \<or> tb_maximum_task_documents opts = 0
     then Inl (Invalid ''token balance limits'')
     else
     rbind (exact_tokenizer_from_bytes X load et tokenizer_bytes) (\<lambda>x.
     rbind (try_map (count_document x e opts) documents) (\<lambda>counts.
     rbind (build_plan_from_counts X m documents e et opts counts) (\<lambda>plan.
     Inr (plan, counts)))))))))"

definition build_token_balanced_plan ::
    "externals \<Rightarrow> tokenizer_loader \<Rightarrow> prepared_corpus_manifest \<Rightarrow> prepared_document_row list \<Rightarrow>
     embedding_profile_ref \<Rightarrow> executable_tokenizer_ref \<Rightarrow> bytes \<Rightarrow> token_balance_options \<Rightarrow>
     pipeline_error + embedding_plan_v2" where
  "build_token_balanced_plan X load m documents e et tokenizer_bytes opts =
     rbind (build_token_balanced_plan_with_counts X load m documents e et tokenizer_bytes opts)
       (\<lambda>(plan, _). Inr plan)"

definition plan_v2_validate_with_tokenizer ::
    "externals \<Rightarrow> tokenizer_loader \<Rightarrow> embedding_plan_v2 \<Rightarrow> prepared_corpus_manifest \<Rightarrow>
     prepared_document_row list \<Rightarrow> bytes \<Rightarrow> pipeline_error + unit" where
  "plan_v2_validate_with_tokenizer X load p m documents tokenizer_bytes =
     rbind (plan_v2_validate_manifest_binding X p m) (\<lambda>_.
     rbind (build_token_balanced_plan X load m documents (p2_embedding_profile p)
             (p2_executable_tokenizer p) tokenizer_bytes
             \<lparr>tb_maximum_task_tokens = p2_maximum_task_tokens p,
              tb_maximum_task_documents = p2_maximum_task_documents p\<rparr>) (\<lambda>expected.
     if expected \<noteq> p then Inl (Invalid ''embedding plan v2 exact token binding'') else Inr ()))"

subsection \<open>Derived plans\<close>

definition derive_task ::
    "externals \<Rightarrow> task_identity \<Rightarrow> embedding_task_v2 \<Rightarrow> pipeline_error + embedding_task_v2" where
  "derive_task X ti t =
     rbind (embedding_task_v2_id X ti (t2_ordinal_start t) (t2_ordinal_end t) (t2_order_sha256 t)
             (t2_counts_sha256 t) (t2_token_count t)) (\<lambda>ident.
     let task_id = digest_str ident in
     rbind (parts_path task_id) (\<lambda>result_path.
     rbind (receipts_path task_id) (\<lambda>receipt_path.
     Inr (t\<lparr>t2_task_id := task_id, t2_result_path := result_path,
            t2_receipt_path := receipt_path\<rparr>))))"

definition derive_embedding_plan_v2 ::
    "externals \<Rightarrow> embedding_plan_v2 \<Rightarrow> embedding_profile_ref \<Rightarrow> pipeline_error + embedding_plan_v2" where
  "derive_embedding_plan_v2 X src e =
     rbind (plan_v2_validate X src) (\<lambda>_.
     rbind (embedding_profile_ref_validate e) (\<lambda>_.
     let s = p2_embedding_profile src in
     if epr_model_artifact s \<noteq> epr_model_artifact e
        \<or> epr_tokenizer s \<noteq> epr_tokenizer e
        \<or> epr_maximum_input_tokens s \<noteq> epr_maximum_input_tokens e
        \<or> epr_pooling s \<noteq> epr_pooling e
        \<or> epr_document_format s \<noteq> epr_document_format e
        \<or> epr_dtype s \<noteq> epr_dtype e
        \<or> epr_dimensions s \<le> epr_dimensions e
        \<or> epr_normalization e \<noteq> ''l2''
     then Inl (Invalid ''derived plan profile'')
     else
     let p = src\<lparr>p2_embedding_profile := e\<rparr> in
     rbind (try_map (derive_task X (plan_identity p)) (p2_tasks p)) (\<lambda>tasks.
     plan_v2_seal X (p\<lparr>p2_tasks := tasks\<rparr>))))"

subsection \<open>Receipts and result sets\<close>

definition receipt_validate_against_v2 ::
    "externals \<Rightarrow> embedding_plan_v2 \<Rightarrow> vector_result_receipt \<Rightarrow> pipeline_error + unit" where
  "receipt_validate_against_v2 X plan r =
     (let v = vr_vector r; e = vr_executor r in
     rbind (plan_v2_validate X plan) (\<lambda>_.
     rbind (try_all require_safe_u64
              [vr_ordinal_start r, vr_ordinal_end r, vo_rows v, vo_bytes v, ex_requests e,
               ex_retries e, ex_input_bytes_upper_bound e, ex_elapsed_ms e]) (\<lambda>_.
     if (vr_schema_version r, receipt_derived r)
          \<notin> {(VECTOR_RECEIPT_SCHEMA, False), (DERIVED_VECTOR_RECEIPT_SCHEMA, True)}
     then Inl (Invalid ''vector receipt schema'')
     else
     rbind (ok_or (Invalid ''receipt task'') (plan_v2_task plan (vr_task_id r))) (\<lambda>t.
     if vr_plan_sha256 r \<noteq> p2_component_sha256 plan
        \<or> vr_prepared_corpus_sha256 r \<noteq> p2_prepared_corpus_sha256 plan
        \<or> vr_embedding_profile_sha256 r \<noteq> cr_sha256 (epr_component (p2_embedding_profile plan))
        \<or> vr_ordinal_start r \<noteq> t2_ordinal_start t
        \<or> vr_ordinal_end r \<noteq> t2_ordinal_end t
        \<or> vr_order_sha256 r \<noteq> t2_order_sha256 t
        \<or> vo_path v \<noteq> t2_result_path t
        \<or> vo_rows v \<noteq> task_v2_row_count t
        \<or> vo_dimensions v \<noteq> epr_dimensions (p2_embedding_profile plan)
        \<or> vo_dtype v \<noteq> epr_dtype (p2_embedding_profile plan)
        \<or> vo_order_sha256 v \<noteq> t2_order_sha256 t
     then Inl (Invalid ''receipt plan binding'')
     else if \<not> vr_finite_values_validated r \<or> \<not> vr_normalization_validated r
     then Inl (Invalid ''receipt validation flags'')
     else
     rbind (component_ref_validate (ex_implementation e)) (\<lambda>_.
     rbind (component_ref_validate (ex_runtime e)) (\<lambda>_.
     rbind (require_text (ex_returned_model e)) (\<lambda>_.
     rbind (case vr_derivation r of None \<Rightarrow> Inr ()
            | Some b \<Rightarrow> derived_vector_binding_validate b (vo_dimensions v)) (\<lambda>_.
     if invalid_executor r then Inl (Invalid ''receipt executor validation'')
     else
     rbind (expected_vector_bytes v) (\<lambda>expected_bytes.
     if vo_bytes v \<noteq> expected_bytes then Inl (Invalid ''receipt vector byte length'')
     else
     rbind (component_digest X (json_vector_receipt r)) (\<lambda>d.
     if vr_component_sha256 r \<noteq> d then Inl (Invalid ''receipt component digest'')
     else Inr ()))))))))))"

definition check_result_task_v2 ::
    "externals \<Rightarrow> embedding_result_set \<Rightarrow> embedding_plan_v2 \<Rightarrow> (string, receipt_entry) btree \<Rightarrow>
     (string, vector_result_receipt) btree \<Rightarrow> component_ref option \<Rightarrow> embedding_task_v2 \<Rightarrow>
     pipeline_error + component_ref option" where
  "check_result_task_v2 X s plan entries receipts executor_implementation t =
     rbind (ok_or (Invalid ''missing result task'') (bt_get entries (t2_task_id t))) (\<lambda>entry.
     rbind (ok_or (Invalid ''missing receipt'') (bt_get receipts (t2_task_id t))) (\<lambda>receipt.
     rbind (receipt_validate_against_v2 X plan receipt) (\<lambda>_.
     let implementation = ex_implementation (vr_executor receipt) in
     if executor_implementation \<noteq> None \<and> executor_implementation \<noteq> Some implementation
     then Inl (Invalid ''result executor implementation differs'')
     else if receipt_test_only receipt \<noteq> rs_test_only s
     then Inl (Invalid ''result set test-only binding'')
     else if receipt_derivation_key receipt \<noteq> set_derivation_key s
     then Inl (Invalid ''result derivation binding'')
     else if re_path entry \<noteq> t2_receipt_path t \<or> re_sha256 entry \<noteq> vr_component_sha256 receipt
     then Inl (Invalid ''result receipt binding'')
     else Inr (Some (case executor_implementation of None \<Rightarrow> implementation | Some i \<Rightarrow> i)))))"

definition result_set_validate_v2 ::
    "externals \<Rightarrow> embedding_result_set \<Rightarrow> embedding_plan_v2 \<Rightarrow> vector_result_receipt list \<Rightarrow>
     pipeline_error + unit" where
  "result_set_validate_v2 X s plan loaded =
     rbind (plan_v2_validate X plan) (\<lambda>_.
     rbind (require_safe_u64 (rs_document_count s)) (\<lambda>_.
     if (rs_schema_version s, rs_test_only s, rs_derivation s \<noteq> None)
          \<notin> {(RESULT_SET_SCHEMA, False, False), (TEST_RESULT_SET_SCHEMA, True, False),
             (DERIVED_RESULT_SET_SCHEMA, False, True)}
        \<or> rs_plan_sha256 s \<noteq> p2_component_sha256 plan
        \<or> rs_prepared_corpus_sha256 s \<noteq> p2_prepared_corpus_sha256 plan
        \<or> rs_embedding_profile_sha256 s \<noteq> cr_sha256 (epr_component (p2_embedding_profile plan))
        \<or> rs_document_count s \<noteq> p2_document_count plan
        \<or> rs_document_order_sha256 s \<noteq> p2_document_order_sha256 plan
     then Inl (Invalid ''result set plan binding'')
     else if length (rs_receipts s) \<noteq> length (p2_tasks plan)
        \<or> length loaded \<noteq> length (p2_tasks plan)
     then Inl (Invalid ''result set coverage'')
     else
     rbind (case rs_derivation s of None \<Rightarrow> Inr ()
            | Some b \<Rightarrow> derived_result_set_binding_validate b
                        (epr_dimensions (p2_embedding_profile plan))) (\<lambda>_.
     let entries = bt_collect (map (\<lambda>e. (re_task_id e, e)) (rs_receipts s));
         receipts = bt_collect (map (\<lambda>r. (vr_task_id r, r)) loaded) in
     if length entries \<noteq> length (rs_receipts s) \<or> length receipts \<noteq> length loaded
     then Inl (Invalid ''duplicate result task'')
     else
     rbind (try_fold (check_result_task_v2 X s plan entries receipts) None (p2_tasks plan)) (\<lambda>_.
     rbind (component_digest X (json_result_set s)) (\<lambda>d.
     if rs_component_sha256 s \<noteq> d then Inl (Invalid ''result set component digest'')
     else Inr ())))))"

subsection \<open>Object starts are complete\<close>

lemma object_starts_complete_fold:
  "try_fold object_starts_step (m, start) obs = Inr (m', start') \<Longrightarrow> bt_ok m \<Longrightarrow>
   distinct (map dobj_path obs) \<Longrightarrow>
   unat start' = unat start + sum_list (map (\<lambda>ob. unat (dobj_rows ob)) obs) \<and>
   (\<forall>p. p \<notin> dobj_path ` set obs \<longrightarrow> bt_get m' p = bt_get m p) \<and>
   (\<forall>i < length obs. \<exists>s. bt_get m' (dobj_path (obs ! i)) = Some (s, obs ! i) \<and>
      unat s = unat start + objects_before obs i)"
proof (induction obs arbitrary: m start)
  case (Cons ob obs)
  then obtain start'' where nx: "unat start'' = unat start + unat (dobj_rows ob)"
    and rest: "try_fold object_starts_step (bt_insert (dobj_path ob) (start, ob) m, start'') obs
      = Inr (m', start')"
    by (auto simp: rbind_eq_Inr object_starts_step_ok)
  let ?m = "bt_insert (dobj_path ob) (start, ob) m"
  from Cons.prems have "bt_ok ?m" and fresh: "dobj_path ob \<notin> dobj_path ` set obs"
    and "distinct (map dobj_path obs)" by (simp_all add: bt_insert_ok)
  note ih = Cons.IH [OF rest this(1,3)]
  have get: "bt_get ?m = (bt_get m)(dobj_path ob \<mapsto> (start, ob))"
    using Cons.prems(2) by (simp add: bt_insert_get)
  have "\<exists>s. bt_get m' (dobj_path ((ob # obs) ! i)) = Some (s, (ob # obs) ! i) \<and>
      unat s = unat start + objects_before (ob # obs) i" if "i < length (ob # obs)" for i
  proof (cases i)
    case 0
    with ih fresh get show ?thesis by (auto simp: objects_before_def)
  next
    case (Suc j)
    with ih that nx show ?thesis by (fastforce simp: objects_before_def)
  qed
  moreover have "bt_get m' p = bt_get m p" if "p \<notin> dobj_path ` set (ob # obs)" for p
    using that ih get by auto
  moreover have "unat start' = unat start + sum_list (map (\<lambda>ob. unat (dobj_rows ob)) (ob # obs))"
    using ih nx by simp
  ultimately show ?case by blast
qed simp

lemma object_starts_fold_total:
  "unat start + sum_list (map (\<lambda>ob. unat (dobj_rows ob)) obs) \<le> unat (limit :: u64) \<Longrightarrow>
   \<exists>r. try_fold object_starts_step (m, start) obs = Inr r"
proof (induction obs arbitrary: m start)
  case (Cons ob obs)
  from Cons.prems have "(unat start + unat (dobj_rows ob)) +
      sum_list (map (\<lambda>ob. unat (dobj_rows ob)) obs) \<le> unat limit" by (simp add: add.assoc)
  then have "unat start + unat (dobj_rows ob) \<le> unat limit" by (rule add_leD1)
  from exists_word_unat [OF this] obtain start' :: u64 where
    s: "unat start' = unat start + unat (dobj_rows ob)" by auto
  have "object_starts_step (m, start) ob = Inr (bt_insert (dobj_path ob) (start, ob) m, start')"
    using s by (auto simp: object_starts_step_ok)
  with Cons.IH [of start'] Cons.prems s show ?case by simp
qed simp

lemma object_starts_complete:
  assumes "distinct (map dobj_path objects)"
    and "sum_list (map (\<lambda>ob. unat (dobj_rows ob)) objects) \<le> unat (limit :: u64)"
  obtains starts where "object_starts_of objects = Inr starts"
    and "\<And>i. i < length objects \<Longrightarrow> \<exists>s. bt_get starts (dobj_path (objects ! i)) = Some (s, objects ! i) \<and>
      unat s = objects_before objects i"
proof -
  have "unat (0 :: u64) + sum_list (map (\<lambda>ob. unat (dobj_rows ob)) objects) \<le> unat (limit :: u64)"
    using assms(2) by simp
  from object_starts_fold_total [OF this, of "[]"] obtain starts n where
    f: "try_fold object_starts_step ([], 0) objects = Inr (starts, n)" by fastforce
  have "bt_ok ([] :: object_starts)" by (simp add: bt_ok_def)
  from object_starts_complete_fold [OF f this assms(1)] f show thesis
    by (intro that [of starts]) (simp_all add: object_starts_of_def)
qed

subsection \<open>The slices of a built task\<close>

text \<open>The position the slices have reached when the objects before ordinal \<open>os\<close> are done.\<close>

definition slice_position :: "u64 \<Rightarrow> u64 \<Rightarrow> nat \<Rightarrow> nat" where
  "slice_position a b os = max (unat a) (min (unat b) os)"

definition slices_reach ::
    "externals \<Rightarrow> object_starts \<Rightarrow> u32 list \<Rightarrow> u64 \<Rightarrow> u64 \<Rightarrow> nat \<Rightarrow> embedding_input_slice_v2 list \<Rightarrow> bool" where
  "slices_reach X starts counts a b n acc \<longleftrightarrow>
     (\<exists>w. try_fold (check_v2_slice_binding starts b) a acc = Inr w \<and> unat w = n) \<and>
     unat a + sum_list (v2_row_counts acc) = n \<and>
     list_all2 (slice_described X counts) (starts_from (unat a) (v2_row_counts acc)) acc"

lemma slices_reach_append:
  assumes "slices_reach X starts counts a b (unat w) acc"
    and "check_v2_slice_binding starts b w s = Inr w'" and "unat w' = unat w + unat (s2_rows s)"
    and "slice_described X counts (unat w) s"
  shows "slices_reach X starts counts a b (unat w') (acc @ [s])"
  using assms
  by (auto simp: slices_reach_def try_fold_append starts_from_append word_unat_eq_iff [symmetric]
      intro!: list_all2_appendI)

lemma unat_max_min:
  "unat (max a b) = max (unat a) (unat (b :: u64))" "unat (min a b) = min (unat a) (unat b)"
  by (simp_all add: max_def min_def word_le_nat_alt)

lemma unat_diff: "b \<le> a \<Longrightarrow> unat (a - b) = unat a - unat (b :: u64)"
  by (simp add: unat_sub word_le_nat_alt)

lemma check_v2_slice_binding_built:
  assumes get: "bt_get starts (dobj_path ob) = Some (os, ob)"
    and "os \<le> start" and "start < stop" and "stop \<le> b"
    and rows: "unat stop \<le> unat os + unat (dobj_rows ob)"
    and s: "s2_path s = dobj_path ob" "s2_object_sha256 s = oe_sha256 (dobj_object ob)"
      "s2_row_offset s = start - os" "s2_rows s = stop - start"
  shows "check_v2_slice_binding starts b start s = Inr stop"
proof -
  have u: "unat (start - os) = unat start - unat os" "unat (stop - start) = unat stop - unat start"
    using assms(2,3) by (simp_all add: unat_diff)
  have le: "unat os \<le> unat start" "unat start \<le> unat stop"
    using assms(2,3) by (simp_all add: word_le_nat_alt word_less_nat_alt)
  have a: "checked_add (start - os) (stop - start) = Some (stop - os)"
    unfolding checked_add_unat using u le by (simp add: unat_diff word_le_nat_alt)
  have b: "checked_add os (start - os) = Some start" "checked_add os (stop - os) = Some stop"
    unfolding checked_add_unat using u le by (simp_all add: unat_diff word_le_nat_alt)
  have c: "\<not> dobj_rows ob < stop - os"
    using rows le by (simp add: word_less_nat_alt unat_diff word_le_nat_alt)
  show ?thesis
    using assms(4) by (simp add: check_v2_slice_binding_def get s a b c linorder_not_less)
qed

lemma build_slice_step_reach:
  assumes step: "build_slice_step X docs counts a b (acc, os) ob = Inr (acc', os')"
    and get: "bt_get starts (dobj_path ob) = Some (os, ob)" and ab: "a < b"
    and reach: "slices_reach X starts counts a b (slice_position a b (unat os)) acc"
  shows "unat os' = unat os + unat (dobj_rows ob) \<and>
    slices_reach X starts counts a b (slice_position a b (unat os')) acc'"
proof -
  from step have os': "checked_add os (dobj_rows ob) = Some os'"
    by (auto simp: build_slice_step_def Let_def rbind_eq_Inr ok_or_eq_Inr split: if_splits)
  then have u: "unat os' = unat os + unat (dobj_rows ob)" by (simp add: checked_add_unat)
  let ?start = "max a os" and ?stop = "min b os'"
  show ?thesis
  proof (cases "?start < ?stop")
    case True
    from step obtain run rows n mx d where
      run: "get_range counts (unat ?start) (unat ?stop) = Some run"
      and n: "sum_counts run = Inr n" and mx: "maximum_count run = Inr mx"
      and d: "document_token_counts_digest X ?start run = Inr d"
      and acc': "acc' = acc @ [\<lparr>s2_path = dobj_path ob, s2_object_sha256 = oe_sha256 (dobj_object ob),
              s2_row_offset = ?start - os, s2_rows = ?stop - ?start,
              s2_order_sha256 = embedding_input_order_digest X rows,
              s2_token_count = n, s2_maximum_document_tokens = mx, s2_counts_sha256 = d\<rparr>]"
      unfolding build_slice_step_def prod.case Let_def os' ok_or_simps rbind_simps if_P [OF True]
        rbind_eq_Inr ok_or_eq_Inr by auto
    let ?s = "last acc'"
    have s: "s2_path ?s = dobj_path ob" "s2_object_sha256 ?s = oe_sha256 (dobj_object ob)"
      "s2_row_offset ?s = ?start - os" "s2_rows ?s = ?stop - ?start"
      by (simp_all add: acc')
    have le: "os \<le> ?start" "?stop \<le> b" "?stop \<le> os'" by simp_all
    have chk: "check_v2_slice_binding starts b ?start ?s = Inr ?stop"
      using check_v2_slice_binding_built [OF get le(1) True le(2) _ s] le(3) u
      by (simp add: word_le_nat_alt)
    have lt: "unat ?start < unat ?stop" using True by (simp add: word_less_nat_alt)
    have diff: "unat (?stop - ?start) = unat ?stop - unat ?start"
      by (rule unat_diff [OF less_imp_le [OF True]])
    have "slice_described X counts (unat ?start) ?s"
      using run n mx d lt
      by (auto simp: slice_described_def run_described_def range_counts_def acc' diff get_range_Some
          sum_counts_ok maximum_count_ok)
    moreover have "slice_position a b (unat os) = unat ?start" "slice_position a b (unat os') = unat ?stop"
      using lt by (auto simp: slice_position_def unat_max_min)
    ultimately have "slices_reach X starts counts a b (slice_position a b (unat os')) (acc @ [?s])"
      using slices_reach_append [OF _ chk, of X counts a acc] reach lt by (simp add: s diff)
    with u show ?thesis by (simp add: acc')
  next
    case False
    from step have acc': "acc' = acc"
      unfolding build_slice_step_def prod.case Let_def os' ok_or_simps rbind_simps if_not_P [OF False]
      by simp
    have "unat ?stop \<le> unat ?start" and "unat a < unat b"
      using False ab by (simp_all add: word_less_nat_alt)
    then have "slice_position a b (unat os') = slice_position a b (unat os)"
      using u by (auto simp: slice_position_def unat_max_min)
    with reach acc' u show ?thesis by simp
  qed
qed

lemma build_slices_fold:
  assumes "a < b"
    and starts: "\<And>i. i < length objects \<Longrightarrow> \<exists>s. bt_get starts (dobj_path (objects ! i)) =
      Some (s, objects ! i) \<and> unat s = objects_before objects i"
  shows "objects = pre @ obs \<Longrightarrow>
    try_fold (build_slice_step X docs counts a b) (acc, os) obs = Inr (acc', os') \<Longrightarrow>
    unat os = objects_before objects (length pre) \<Longrightarrow>
    slices_reach X starts counts a b (slice_position a b (unat os)) acc \<Longrightarrow>
    unat os' = objects_before objects (length objects) \<and>
    slices_reach X starts counts a b (slice_position a b (unat os')) acc'"
proof (induction obs arbitrary: pre acc os)
  case Nil
  then show ?case by simp
next
  case (Cons ob obs)
  then obtain acc1 os1 where step: "build_slice_step X docs counts a b (acc, os) ob = Inr (acc1, os1)"
    and rest: "try_fold (build_slice_step X docs counts a b) (acc1, os1) obs = Inr (acc', os')"
    by (auto simp: rbind_eq_Inr)
  from Cons.prems(1) have "length pre < length objects" and ob: "objects ! length pre = ob" by simp_all
  from starts [OF this(1)] ob Cons.prems(3) have "bt_get starts (dobj_path ob) = Some (os, ob)"
    by (auto simp: word_unat_eq_iff)
  note one = build_slice_step_reach [OF step this assms(1) Cons.prems(4)]
  then have os1: "unat os1 = unat os + unat (dobj_rows ob)" by (rule conjunct1)
  from one have reach: "slices_reach X starts counts a b (slice_position a b (unat os1)) acc1"
    by (rule conjunct2)
  have "unat os1 = objects_before objects (length (pre @ [ob]))"
    using os1 Cons.prems(1,3) by (simp add: objects_before_def)
  moreover have "objects = (pre @ [ob]) @ obs" using Cons.prems(1) by simp
  ultimately show ?case using Cons.IH [OF _ rest _ reach] by blast
qed

lemma build_v2_slices_reach:
  assumes "build_v2_slices X objects docs counts a b = Inr ss" and "a < b"
    and "unat b \<le> sum_list (map (\<lambda>ob. unat (dobj_rows ob)) objects)"
    and "\<And>i. i < length objects \<Longrightarrow> \<exists>s. bt_get starts (dobj_path (objects ! i)) =
      Some (s, objects ! i) \<and> unat s = objects_before objects i"
  shows "slices_reach X starts counts a b (unat b) ss"
proof -
  from assms(1) obtain os' where
    fold: "try_fold (build_slice_step X docs counts a b) ([], 0) objects = Inr (ss, os')"
    by (auto simp: build_v2_slices_def rbind_eq_Inr split: if_splits)
  have init: "slices_reach X starts counts a b (slice_position a b (unat (0 :: u64))) []"
    by (simp add: slices_reach_def slice_position_def)
  have "objects = [] @ objects" and "unat (0 :: u64) = objects_before objects (length [])"
    by (simp_all add: objects_before_def)
  note all = build_slices_fold [OF assms(2,4) this(1) fold this(2) init]
  have "unat a < unat b" using assms(2) by (simp add: word_less_nat_alt)
  then have "slice_position a b (unat os') = unat b"
    using conjunct1 [OF all] assms(3) by (simp add: slice_position_def objects_before_def)
  with conjunct2 [OF all] show ?thesis by simp
qed

subsection \<open>A built task passes its checks\<close>

lemma check_slice_counts_described:
  assumes "length counts < 2 ^ 64"
  shows "start + sum_list (v2_row_counts ss) \<le> length counts \<Longrightarrow>
    list_all2 (slice_described X counts) (starts_from start (v2_row_counts ss)) ss \<Longrightarrow>
    try_fold (check_slice_counts X counts) start ss = Inr (start + sum_list (v2_row_counts ss))"
proof (induction ss arbitrary: start)
  case (Cons s ss)
  then have "check_slice_counts X counts start s = Inr (start + unat (s2_rows s))"
    by (simp add: check_slice_counts_ok [OF assms])
  with Cons show ?case by (simp add: add.assoc)
qed simp

text \<open>What \<open>build_task\<close> returns for a range of the documents.\<close>

lemma build_task_parts:
  assumes "build_task X m docs counts ti (start, stop) = Inr t"
  shows "task_range t = (start, stop)" and "task_described X counts t"
    and "build_v2_slices X (pc_documents m) docs counts (t2_ordinal_start t) (t2_ordinal_end t)
      = Inr (t2_input_slices t)"
proof -
  from assms obtain a b n mx d ss where
    a: "try_from_nat start = Some a" and b: "try_from_nat stop = Some b"
    and n: "sum_counts (take (stop - start) (drop start counts)) = Inr n"
    and mx: "maximum_count (take (stop - start) (drop start counts)) = Inr mx"
    and d: "document_token_counts_digest X a (take (stop - start) (drop start counts)) = Inr d"
    and ss: "build_v2_slices X (pc_documents m) docs counts a b = Inr ss"
    and t: "t2_ordinal_start t = a" "t2_ordinal_end t = b" "t2_input_slices t = ss"
      "t2_token_count t = n" "t2_maximum_document_tokens t = mx" "t2_counts_sha256 t = d"
    unfolding build_task_def prod.case Let_def rbind_eq_Inr ok_or_eq_Inr by auto
  show r: "task_range t = (start, stop)"
    using a b t by (simp add: task_range_def try_from_nat_unat)
  show "task_described X counts t"
    using n mx d t r
    by (auto simp: task_described_def run_described_def range_counts_def sum_counts_ok maximum_count_ok)
  show "build_v2_slices X (pc_documents m) docs counts (t2_ordinal_start t) (t2_ordinal_end t)
      = Inr (t2_input_slices t)" using ss t by simp
qed

lemma built_task_passes:
  assumes build: "build_task X m docs counts ti r = Inr t"
    and feas: "range_feasible md mt counts r" and small: "length counts < 2 ^ 64"
    and total: "length counts = sum_list (map (\<lambda>ob. unat (dobj_rows ob)) (pc_documents m))"
    and starts: "\<And>i. i < length (pc_documents m) \<Longrightarrow>
      \<exists>s. bt_get starts (dobj_path (pc_documents m ! i)) = Some (s, pc_documents m ! i) \<and>
        unat s = objects_before (pc_documents m) i"
  shows "task_range t = r \<and> check_task_counts X counts t = Inr () \<and>
    check_v2_task_slices starts t = Inr ()"
proof -
  obtain start stop where r: "r = (start, stop)" by (cases r)
  note parts = build_task_parts [OF build [unfolded r]]
  from parts(1) have u: "unat (t2_ordinal_start t) = start" "unat (t2_ordinal_end t) = stop"
    by (simp_all add: task_range_def)
  from feas have lim: "start < stop" "stop \<le> length counts" by (simp_all add: range_feasible_def r)
  have "slices_reach X starts counts (t2_ordinal_start t) (t2_ordinal_end t)
      (unat (t2_ordinal_end t)) (t2_input_slices t)"
    using lim total u by (intro build_v2_slices_reach [OF parts(3)] starts) (simp_all add: word_less_nat_alt)
  then obtain w where
    w: "try_fold (check_v2_slice_binding starts (t2_ordinal_end t)) (t2_ordinal_start t)
      (t2_input_slices t) = Inr w" "unat w = stop"
    and rows: "start + sum_list (v2_row_counts (t2_input_slices t)) = stop"
    and desc: "list_all2 (slice_described X counts)
      (starts_from start (v2_row_counts (t2_input_slices t))) (t2_input_slices t)"
    by (auto simp: slices_reach_def u)
  have "w = t2_ordinal_end t" using w(2) u(2) by (simp add: word_unat_eq_iff)
  with w have "check_v2_task_slices starts t = Inr ()" by (simp add: check_v2_task_slices_def)
  moreover have "try_fold (check_slice_counts X counts) start (t2_input_slices t) = Inr stop"
    using check_slice_counts_described [OF small _ desc] rows lim by simp
  then have "check_task_counts X counts t = Inr ()"
    using parts(2) lim
    by (auto simp: check_task_counts_def Let_def u get_range_def task_described_def run_described_def
        range_counts_def task_range_def sum_counts_ok [THEN iffD2] maximum_count_ok [THEN iffD2])
  ultimately show ?thesis using parts(1) r by simp
qed

subsection \<open>A built plan passes its checks\<close>

lemma counted_bounds:
  assumes "count_document x e opts row = Inr c"
  shows "0 < c \<and> c \<le> epr_maximum_input_tokens e \<and> unat c \<le> unat (tb_maximum_task_tokens opts)"
  using assms
  by (auto simp: count_document_def rbind_eq_Inr word_gt_0 linorder_not_less word_le_nat_alt split: if_splits)

lemma counted_list:
  assumes "try_map (count_document x e opts) docs = Inr counts"
  shows "length counts = length docs" and
    "list_all (\<lambda>c. 0 < c \<and> c \<le> epr_maximum_input_tokens e \<and> unat c \<le> unat (tb_maximum_task_tokens opts)) counts"
proof -
  show "length counts = length docs" using assms by (rule try_map_length)
  from assms have "list_all2 (\<lambda>row c. count_document x e opts row = Inr c) docs counts"
    by (simp add: try_map_ok)
  then show "list_all (\<lambda>c. 0 < c \<and> c \<le> epr_maximum_input_tokens e \<and> unat c \<le> unat (tb_maximum_task_tokens opts)) counts"
    by (induction rule: list_all2_induct) (auto dest: counted_bounds)
qed

lemma manifest_rows_total:
  assumes "prepared_manifest_validate X m = Inr ()"
  shows "distinct (map dobj_path (pc_documents m))"
    and "sum_list (map (\<lambda>ob. unat (dobj_rows ob)) (pc_documents m)) = unat (pc_document_count m)"
proof -
  from assms have b: "prepared_manifest_body X m" by (simp add: prepared_manifest_validate_iff)
  then show "distinct (map dobj_path (pc_documents m))"
    by (simp add: prepared_manifest_body_def prepared_object_paths_def)
  from b obtain l p where "try_fold validate_object_step (0, None, {}) (enumerate 0 (pc_documents m))
      = Inr (pc_document_count m, l, p)"
    by (auto simp: prepared_manifest_body_def validate_objects_def rbind_eq_Inr split: prod.splits if_splits)
  then show "sum_list (map (\<lambda>ob. unat (dobj_rows ob)) (pc_documents m)) = unat (pc_document_count m)"
    by (simp add: validate_object_fold_ok object_row_total_def)
qed

lemma build_plan_from_counts_parts:
  assumes "build_plan_from_counts X m docs e et opts counts = Inr p"
  obtains ranges where
    "balance_ranges (unat (tb_maximum_task_documents opts)) (tb_maximum_task_tokens opts) counts 0 = Inr ranges"
    and "list_all2 (\<lambda>r t. \<exists>ti. build_task X m docs counts ti r = Inr t) ranges (p2_tasks p)"
    and "plan_v2_validate X p = Inr ()"
    and "document_token_counts_digest X 0 counts = Inr (p2_counts_sha256 p)"
    and "token_statistics_of counts = Inr (p2_token_statistics p)"
    and "try_from_nat (length (encode_document_token_counts counts)) = Some (dc_bytes (p2_counts_object p))"
    and "dc_sha256 (p2_counts_object p) = digest_bytes X (encode_document_token_counts counts)"
    and "p2_embedding_profile p = e" and "p2_executable_tokenizer p = et"
    and "p2_prepared_corpus_sha256 p = pc_component_sha256 m" and "p2_dataset p = pc_dataset m"
    and "p2_document_count p = pc_document_count m"
    and "p2_document_order_sha256 p = pc_document_order_sha256 m"
    and "p2_maximum_task_tokens p = tb_maximum_task_tokens opts"
    and "p2_maximum_task_documents p = tb_maximum_task_documents opts"
proof -
  from assms obtain ranges ti ts q where
    r: "balance_ranges (unat (tb_maximum_task_documents opts)) (tb_maximum_task_tokens opts) counts 0 = Inr ranges"
    and t: "try_map (build_task X m docs counts ti) ranges = Inr ts"
    and seal: "plan_v2_seal X q = Inr p"
    and q: "p2_tasks q = ts" "document_token_counts_digest X 0 counts = Inr (p2_counts_sha256 q)"
      "token_statistics_of counts = Inr (p2_token_statistics q)"
      "try_from_nat (length (encode_document_token_counts counts)) = Some (dc_bytes (p2_counts_object q))"
      "dc_sha256 (p2_counts_object q) = digest_bytes X (encode_document_token_counts counts)"
      "p2_embedding_profile q = e" "p2_executable_tokenizer q = et"
      "p2_prepared_corpus_sha256 q = pc_component_sha256 m" "p2_dataset q = pc_dataset m"
      "p2_document_count q = pc_document_count m"
      "p2_document_order_sha256 q = pc_document_order_sha256 m"
      "p2_maximum_task_tokens q = tb_maximum_task_tokens opts"
      "p2_maximum_task_documents q = tb_maximum_task_documents opts"
    unfolding build_plan_from_counts_def Let_def rbind_eq_Inr ok_or_eq_Inr
    by - (elim exE conjE, rule that, assumption, assumption, assumption, simp_all)
  from seal obtain d where p: "p = q\<lparr>p2_component_sha256 := d\<rparr>"
    by (auto simp: plan_v2_seal.seal_iff)
  have "plan_v2_validate X p = Inr ()" using seal by (rule plan_v2_seal.seal_validates)
  moreover have "list_all2 (\<lambda>r t. \<exists>ti. build_task X m docs counts ti r = Inr t) ranges ts"
    using t by (auto simp: try_map_ok elim!: list_all2_mono)
  ultimately show thesis
    using that [OF r] q by (simp add: p)
qed

lemma build_parts:
  assumes "build_token_balanced_plan_with_counts X load m docs e et b opts = Inr (p, counts)"
  obtains x where "prepared_manifest_validate X m = Inr ()"
    and "validate_prepared_documents X m docs = Inr ()"
    and "try_map (count_document x e opts) docs = Inr counts"
    and "build_plan_from_counts X m docs e et opts counts = Inr p"
  using assms unfolding build_token_balanced_plan_with_counts_def rbind_eq_Inr if_Inl_eq_Inr by auto

lemma plan_v2_binding_iff:
  "plan_v2_validate_manifest_binding X p m = Inr () \<longleftrightarrow>
     plan_v2_validate X p = Inr () \<and> prepared_manifest_validate X m = Inr () \<and>
     p2_prepared_corpus_sha256 p = pc_component_sha256 m \<and> p2_dataset p = pc_dataset m \<and>
     p2_document_count p = pc_document_count m \<and>
     p2_document_order_sha256 p = pc_document_order_sha256 m \<and>
     validate_v2_slices_against_manifest (p2_tasks p) (pc_documents m) = Inr ()"
  by (auto simp: plan_v2_validate_manifest_binding_def rbind_eq_Inr split: if_splits)

lemma counts_against_plan_iff:
  "validate_counts_against_plan X p counts = Inr () \<longleftrightarrow>
     try_from_nat (length counts) = Some (p2_document_count p) \<and>
     list_all (\<lambda>c. 0 < c \<and> c \<le> epr_maximum_input_tokens (p2_embedding_profile p)) counts \<and>
     try_from_nat (length (encode_document_token_counts counts)) = Some (dc_bytes (p2_counts_object p)) \<and>
     digest_bytes X (encode_document_token_counts counts) = dc_sha256 (p2_counts_object p) \<and>
     document_token_counts_digest X 0 counts = Inr (p2_counts_sha256 p) \<and>
     token_statistics_of counts = Inr (p2_token_statistics p) \<and>
     try_all (check_task_counts X counts) (p2_tasks p) = Inr ()"
proof -
  have ex: "(\<not> list_ex (\<lambda>c. c = 0 \<or> c > k) cs) = list_all (\<lambda>c. 0 < c \<and> c \<le> k) cs" for k :: u32 and cs
    by (auto simp: list_ex_iff list_all_iff word_gt_0 linorder_not_less)
  show ?thesis
    unfolding validate_counts_against_plan_def Let_def if_Inl_eq_Inr rbind_eq_Inr de_Morgan_disj not_not ex
    by auto
qed

lemma built_plan_parts:
  assumes built: "build_token_balanced_plan_with_counts X load m docs e et b opts = Inr (p, counts)"
  obtains starts where "prepared_manifest_validate X m = Inr ()" and "plan_v2_validate X p = Inr ()"
    and "length counts = unat (pc_document_count m)"
    and "list_all (\<lambda>c. 0 < c \<and> c \<le> epr_maximum_input_tokens e) counts"
    and "object_starts_of (pc_documents m) = Inr starts"
    and "\<forall>t \<in> set (p2_tasks p). check_task_counts X counts t = Inr () \<and> check_v2_task_slices starts t = Inr ()"
    and "balance_ranges (unat (tb_maximum_task_documents opts)) (tb_maximum_task_tokens opts) counts 0
      = Inr (map task_range (p2_tasks p))"
    and "document_token_counts_digest X 0 counts = Inr (p2_counts_sha256 p)"
      "token_statistics_of counts = Inr (p2_token_statistics p)"
      "try_from_nat (length (encode_document_token_counts counts)) = Some (dc_bytes (p2_counts_object p))"
      "dc_sha256 (p2_counts_object p) = digest_bytes X (encode_document_token_counts counts)"
      "p2_embedding_profile p = e" "p2_executable_tokenizer p = et"
      "p2_prepared_corpus_sha256 p = pc_component_sha256 m" "p2_dataset p = pc_dataset m"
      "p2_document_count p = pc_document_count m"
      "p2_document_order_sha256 p = pc_document_order_sha256 m"
      "p2_maximum_task_tokens p = tb_maximum_task_tokens opts"
      "p2_maximum_task_documents p = tb_maximum_task_documents opts"
proof -
  from built obtain x where man: "prepared_manifest_validate X m = Inr ()"
    and docs: "validate_prepared_documents X m docs = Inr ()"
    and count: "try_map (count_document x e opts) docs = Inr counts"
    and plan: "build_plan_from_counts X m docs e et opts counts = Inr p" by (rule build_parts)
  note counts = counted_list [OF count]
  have n: "length counts = unat (pc_document_count m)"
    using docs counts(1) by (auto simp: validate_prepared_documents_def try_from_nat_unat split: if_splits)
  then have small: "length counts < 2 ^ 64" using unat_bound [of "pc_document_count m"] by simp
  have total: "length counts = sum_list (map (\<lambda>ob. unat (dobj_rows ob)) (pc_documents m))"
    using manifest_rows_total(2) [OF man] n by simp
  have "sum_list (map (\<lambda>ob. unat (dobj_rows ob)) (pc_documents m)) \<le> unat (pc_document_count m)"
    using total n by simp
  from object_starts_complete [OF manifest_rows_total(1) [OF man] this] obtain starts where
    starts: "object_starts_of (pc_documents m) = Inr starts"
    and at: "\<And>i. i < length (pc_documents m) \<Longrightarrow>
      \<exists>s. bt_get starts (dobj_path (pc_documents m ! i)) = Some (s, pc_documents m ! i) \<and>
        unat s = objects_before (pc_documents m) i" by blast
  from plan obtain ranges where
    ranges: "balance_ranges (unat (tb_maximum_task_documents opts)) (tb_maximum_task_tokens opts) counts 0
      = Inr ranges"
    and tasks: "list_all2 (\<lambda>r t. \<exists>ti. build_task X m docs counts ti r = Inr t) ranges (p2_tasks p)"
    and valid: "plan_v2_validate X p = Inr ()"
    and fields: "document_token_counts_digest X 0 counts = Inr (p2_counts_sha256 p)"
      "token_statistics_of counts = Inr (p2_token_statistics p)"
      "try_from_nat (length (encode_document_token_counts counts)) = Some (dc_bytes (p2_counts_object p))"
      "dc_sha256 (p2_counts_object p) = digest_bytes X (encode_document_token_counts counts)"
      "p2_embedding_profile p = e" "p2_executable_tokenizer p = et"
      "p2_prepared_corpus_sha256 p = pc_component_sha256 m" "p2_dataset p = pc_dataset m"
      "p2_document_count p = pc_document_count m"
      "p2_document_order_sha256 p = pc_document_order_sha256 m"
      "p2_maximum_task_tokens p = tb_maximum_task_tokens opts"
      "p2_maximum_task_documents p = tb_maximum_task_documents opts"
    by (rule build_plan_from_counts_parts)
  have feas: "list_all (range_feasible (unat (tb_maximum_task_documents opts))
      (tb_maximum_task_tokens opts) counts) ranges"
    using balance_ranges_feasible [OF ranges] by simp
  have pass: "list_all2 (\<lambda>r t. task_range t = r \<and> check_task_counts X counts t = Inr () \<and>
      check_v2_task_slices starts t = Inr ()) ranges (p2_tasks p)"
    using tasks feas
    by (induction rule: list_all2_induct) (auto dest!: built_task_passes [OF _ _ small total at])
  then have r: "map task_range (p2_tasks p) = ranges"
    by (induction rule: list_all2_induct) simp_all
  from pass have all: "\<forall>t \<in> set (p2_tasks p). check_task_counts X counts t = Inr () \<and>
      check_v2_task_slices starts t = Inr ()"
    by (induction rule: list_all2_induct) simp_all
  have "list_all (\<lambda>c. 0 < c \<and> c \<le> epr_maximum_input_tokens e) counts"
    using counts(2) by (simp add: list_all_iff)
  from that [OF man valid n this starts all _ fields] ranges r show thesis by simp
qed

text \<open>
  C1: the builder and the validators agree: a plan the builder returns is bound to its manifest
  slice by slice, is accepted with the counts it was built from and by the re-tokenizing check,
  and its tasks are exactly the greedy cut of those counts.
\<close>

theorem built_plan_accepted:
  assumes built: "build_token_balanced_plan_with_counts X load m docs e et b opts = Inr (p, counts)"
  shows "plan_v2_validate_manifest_binding X p m = Inr () \<and>
    validate_document_token_counts X p counts = Inr () \<and>
    plan_v2_validate_with_tokenizer X load p m docs b = Inr () \<and>
    balance_ranges (unat (tb_maximum_task_documents opts)) (tb_maximum_task_tokens opts) counts 0
      = Inr (map task_range (p2_tasks p))"
proof -
  from built obtain starts where man: "prepared_manifest_validate X m = Inr ()"
    and valid: "plan_v2_validate X p = Inr ()" and n: "length counts = unat (pc_document_count m)"
    and inputs: "list_all (\<lambda>c. 0 < c \<and> c \<le> epr_maximum_input_tokens e) counts"
    and starts: "object_starts_of (pc_documents m) = Inr starts"
    and all: "\<forall>t \<in> set (p2_tasks p). check_task_counts X counts t = Inr () \<and>
      check_v2_task_slices starts t = Inr ()"
    and ranges: "balance_ranges (unat (tb_maximum_task_documents opts)) (tb_maximum_task_tokens opts) counts 0
      = Inr (map task_range (p2_tasks p))"
    and fields: "document_token_counts_digest X 0 counts = Inr (p2_counts_sha256 p)"
      "token_statistics_of counts = Inr (p2_token_statistics p)"
      "try_from_nat (length (encode_document_token_counts counts)) = Some (dc_bytes (p2_counts_object p))"
      "dc_sha256 (p2_counts_object p) = digest_bytes X (encode_document_token_counts counts)"
      "p2_embedding_profile p = e" "p2_executable_tokenizer p = et"
      "p2_prepared_corpus_sha256 p = pc_component_sha256 m" "p2_dataset p = pc_dataset m"
      "p2_document_count p = pc_document_count m"
      "p2_document_order_sha256 p = pc_document_order_sha256 m"
      "p2_maximum_task_tokens p = tb_maximum_task_tokens opts"
      "p2_maximum_task_documents p = tb_maximum_task_documents opts"
    by (rule built_plan_parts)
  have bind: "plan_v2_validate_manifest_binding X p m = Inr ()"
    unfolding plan_v2_binding_iff validate_v2_slices_against_manifest_def starts
    using valid man fields all by (simp add: try_all_ok)
  moreover have "validate_document_token_counts X p counts = Inr ()"
  proof -
    from inputs have "validate_counts_against_plan X p counts = Inr ()"
      unfolding counts_against_plan_iff using fields n all by (simp add: try_all_ok try_from_nat_unat)
    with valid show ?thesis by (simp add: validate_document_token_counts_def)
  qed
  moreover have "plan_v2_validate_with_tokenizer X load p m docs b = Inr ()"
  proof -
    have eta: "\<lparr>tb_maximum_task_tokens = tb_maximum_task_tokens opts,
        tb_maximum_task_documents = tb_maximum_task_documents opts\<rparr> = opts"
      by simp
    show ?thesis
      by (simp add: plan_v2_validate_with_tokenizer_def bind build_token_balanced_plan_def fields eta built)
  qed
  ultimately show ?thesis using ranges by simp
qed

subsection \<open>Derived plans keep the work\<close>

definition same_work :: "embedding_task_v2 \<Rightarrow> embedding_task_v2 \<Rightarrow> bool" where
  "same_work t t' \<longleftrightarrow> (\<exists>i r c. t' = t\<lparr>t2_task_id := i, t2_result_path := r, t2_receipt_path := c\<rparr>)"

lemma derive_task_same_work: "derive_task X ti t = Inr t' \<Longrightarrow> same_work t t'"
  by (auto simp: derive_task_def rbind_eq_Inr Let_def same_work_def)

lemma same_work_checks:
  "same_work t t' \<Longrightarrow> check_task_counts X counts t' = check_task_counts X counts t"
  "same_work t t' \<Longrightarrow> check_v2_task_slices starts t' = check_v2_task_slices starts t"
  "same_work t t' \<Longrightarrow> task_range t' = task_range t"
  by (auto simp: same_work_def check_task_counts_def check_v2_task_slices_def task_range_def
      cong: if_cong)

lemma same_work_all:
  "list_all2 same_work ts ts' \<Longrightarrow>
     try_all (check_task_counts X counts) ts' = try_all (check_task_counts X counts) ts \<and>
     try_all (check_v2_task_slices starts) ts' = try_all (check_v2_task_slices starts) ts \<and>
     map task_range ts' = map task_range ts"
  by (induction rule: list_all2_induct) (simp_all add: same_work_checks)

lemma derive_parts:
  assumes "derive_embedding_plan_v2 X src e = Inr p"
  obtains ts d where "plan_v2_validate X src = Inr ()" and "list_all2 same_work (p2_tasks src) ts"
    and "p = src\<lparr>p2_embedding_profile := e, p2_tasks := ts, p2_component_sha256 := d\<rparr>"
    and "plan_v2_validate X p = Inr ()"
    and "epr_maximum_input_tokens (p2_embedding_profile src) = epr_maximum_input_tokens e"
    and "epr_dimensions e < epr_dimensions (p2_embedding_profile src)" and "epr_normalization e = ''l2''"
proof -
  from assms obtain ts where src: "plan_v2_validate X src = Inr ()"
    and ts: "try_map (derive_task X (plan_identity (src\<lparr>p2_embedding_profile := e\<rparr>))) (p2_tasks src) = Inr ts"
    and seal: "plan_v2_seal X (src\<lparr>p2_embedding_profile := e, p2_tasks := ts\<rparr>) = Inr p"
    and prof: "epr_maximum_input_tokens (p2_embedding_profile src) = epr_maximum_input_tokens e"
      "epr_dimensions e < epr_dimensions (p2_embedding_profile src)" "epr_normalization e = ''l2''"
    unfolding derive_embedding_plan_v2_def rbind_eq_Inr Let_def if_Inl_eq_Inr
    by (auto simp: linorder_not_le)
  from ts have "list_all2 same_work (p2_tasks src) ts"
    by (auto simp: try_map_ok elim!: list_all2_mono dest: derive_task_same_work)
  moreover from seal obtain d where
    "p = src\<lparr>p2_embedding_profile := e, p2_tasks := ts, p2_component_sha256 := d\<rparr>"
    by (auto simp: plan_v2_seal.seal_iff)
  ultimately show thesis
    using that src prof plan_v2_seal.seal_validates [OF seal] by blast
qed

text \<open>
  C22: a plan derived for a shorter, normalised profile is valid, keeps the document ranges of
  the source plan, and stays bound to the manifest and to the token counts the source plan was
  bound to.
\<close>

theorem derived_plan_keeps_work:
  assumes "derive_embedding_plan_v2 X src e = Inr p"
  shows "plan_v2_validate X p = Inr () \<and>
    map task_range (p2_tasks p) = map task_range (p2_tasks src) \<and>
    epr_dimensions (p2_embedding_profile p) < epr_dimensions (p2_embedding_profile src) \<and>
    epr_normalization (p2_embedding_profile p) = ''l2'' \<and>
    (plan_v2_validate_manifest_binding X src m = Inr () \<longrightarrow>
       plan_v2_validate_manifest_binding X p m = Inr ()) \<and>
    (validate_document_token_counts X src counts = Inr () \<longrightarrow>
       validate_document_token_counts X p counts = Inr ())"
proof -
  from assms obtain ts d where w: "list_all2 same_work (p2_tasks src) ts"
    and p: "p = src\<lparr>p2_embedding_profile := e, p2_tasks := ts, p2_component_sha256 := d\<rparr>"
    and v: "plan_v2_validate X p = Inr ()"
    and max: "epr_maximum_input_tokens (p2_embedding_profile src) = epr_maximum_input_tokens e"
    and dims: "epr_dimensions e < epr_dimensions (p2_embedding_profile src)" "epr_normalization e = ''l2''"
    by (rule derive_parts)
  have f: "p2_tasks p = ts" "p2_prepared_corpus_sha256 p = p2_prepared_corpus_sha256 src"
    "p2_dataset p = p2_dataset src" "p2_document_count p = p2_document_count src"
    "p2_document_order_sha256 p = p2_document_order_sha256 src"
    "p2_counts_object p = p2_counts_object src" "p2_counts_sha256 p = p2_counts_sha256 src"
    "p2_token_statistics p = p2_token_statistics src"
    "epr_maximum_input_tokens (p2_embedding_profile p) = epr_maximum_input_tokens (p2_embedding_profile src)"
    "p2_embedding_profile p = e" by (simp_all add: p max)
  have "validate_v2_slices_against_manifest (p2_tasks p) objs =
      validate_v2_slices_against_manifest (p2_tasks src) objs" for objs
    using same_work_all [OF w] by (simp add: validate_v2_slices_against_manifest_def f(1))
  moreover have "validate_counts_against_plan X p counts = Inr () \<longleftrightarrow>
      validate_counts_against_plan X src counts = Inr ()"
    unfolding counts_against_plan_iff f using same_work_all [OF w] max by simp
  ultimately show ?thesis
    using v dims same_work_all [OF w]
    by (simp add: plan_v2_binding_iff validate_document_token_counts_def rbind_eq_Inr f(1-5,10))
qed

end
