(* ===== verification/Token_Example.thy ===== *)
theory Token_Example
  imports Token_Build
begin

text \<open>
  A concrete corpus built into a token-balanced plan: three documents of four tokens each in
  two objects, at most two documents and eight tokens a task. The tokenizer gives one token
  per byte, and the hash tells the two task identities apart. The evaluation shows that the
  hypotheses of the properties of the token-balanced plan hold together.
\<close>

definition hex_of :: "char \<Rightarrow> string" where "hex_of c = replicate 64 c"

definition X1 :: externals where
  "X1 = \<lparr>sha256_hex = (\<lambda>b. if b = [2] then hex_of (CHR ''b'') else hex_of (CHR ''a'')),
     jcs_bytes = (\<lambda>j. case j of JStr s \<Rightarrow> Some (str_bytes s)
       | JObj fs \<Rightarrow> (case (map_of fs ''tokenizer_sha256'', map_of fs ''ordinal_start'') of
           (Some _, Some (JNum n)) \<Rightarrow> Some [of_nat n] | _ \<Rightarrow> Some [])
       | _ \<Rightarrow> Some []),
     json_from_str = (\<lambda>s. Some (JStr s))\<rparr>"

definition load1 :: tokenizer_loader where
  "load1 b = Inr \<lparr>tok_truncation = False, tok_padding = False,
     tok_encode = (\<lambda>s _. Inr (map (\<lambda>_. 7) s))\<rparr>"

definition tokenizer1 :: executable_tokenizer_ref where
  "tokenizer1 = \<lparr>et_artifact = C0, et_format = HuggingFaceTokenizerJson, et_model_revision = ''1'',
     et_target_tokenizer = C0, et_add_special_tokens = True, et_maximum_input_bytes = 100\<rparr>"

lemma fmt_parts: "str_matches DOCUMENT_INPUT_TOKEN ''{semantic_text}'' = 1"
  "str_replace DOCUMENT_INPUT_TOKEN [] ''{semantic_text}'' = []"
  "str_replace DOCUMENT_INPUT_TOKEN ''text'' ''{semantic_text}'' = ''text''"
  "str_replace DOCUMENT_INPUT_TOKEN ''validation'' ''{semantic_text}'' = ''validation''"
  by code_simp+

lemma fmt1: "format_document_input ''{semantic_text}'' ''text'' = Inr ''text''" 
"format_document_input ''{semantic_text}'' ''validation'' = Inr ''validation''"
  unfolding format_document_input_def fmt_parts Let_def
  by (simp_all add: MAX_DOCUMENT_FORMAT_BYTES_def MAX_FORMATTED_DOCUMENT_BYTES_def str_contains_def DOCUMENT_INPUT_TOKEN_def)

definition opts1 :: token_balance_options where
  "opts1 = \<lparr>tb_maximum_task_tokens = 8, tb_maximum_task_documents = 2\<rparr>"

definition xt1 :: exact_tokenizer where
  "xt1 = \<lparr>xt_reference = tokenizer1, xt_tokenizer = \<lparr>tok_truncation = False, tok_padding = False,
     tok_encode = (\<lambda>s _. Inr (map (\<lambda>_. 7) s))\<rparr>\<rparr>"

lemma count1: "try_map (count_document xt1 profile0 opts1) rows0 = Inr [4,4,4]"
  by (simp add: rows0_def row0_def count_document_def profile0_def format_document_input_exact_def fmt1
    exact_count_def exact_token_ids_def xt1_def tokenizer1_def try_from_nat_def checks opts1_def u64_of_u32_def)

definition part1 :: "string \<Rightarrow> u64 \<Rightarrow> u64 \<Rightarrow> u64 \<Rightarrow> embedding_input_slice_v2" where "part1 p off n k = \<lparr>s2_path = SafeRelativePath p, s2_object_sha256 = D0, s2_row_offset = off,
     s2_rows = n, s2_order_sha256 = D0, s2_token_count = k, s2_maximum_document_tokens = 4, s2_counts_sha256 = D0\<rparr>"

lemma d1: "b \<noteq> [2] \<Longrightarrow> digest_bytes X1 b = D0"
  by (simp add: digest_bytes_def X1_def hex_of_def D0_def)

lemma o1: "embedding_input_order_digest X1 rows = D0"
  unfolding embedding_input_order_digest_def by (rule d1) (simp add: EMBEDDING_INPUT_ORDER_DOMAIN_def str_bytes_def)

lemma cd1: "document_token_counts_digest X1 0 [4,4] = Inr D0" 
  "document_token_counts_digest X1 2 [4] = Inr D0"
  "document_token_counts_digest X1 0 [4,4,4] = Inr D0"
  by (simp_all add: document_token_counts_digest_def token_count_entry_def try_from_nat_def checks d1 DOCUMENT_TOKEN_COUNTS_DOMAIN_def str_bytes_def)

lemma sc1: "sum_counts [4,4] = Inr 8" "sum_counts [4] = Inr 4" "sum_counts [4,4,4] = Inr 12"
  by (simp_all add: sum_counts_def checked_add_def u64_of_u32_def)

lemma bs1: "build_v2_slices X1 (pc_documents manifest0) rows0 [4,4,4] 0 2 = Inr [part1 ''documents/0'' 0 2 8]"
  "build_v2_slices X1 (pc_documents manifest0) rows0 [4,4,4] 2 3 = Inr [part1 ''documents/1'' 0 1 4]"
  by (simp_all add: build_v2_slices_def build_slice_step_def data0 checks get_range_def rows0_def max_def min_def
    word_le_nat_alt word_less_nat_alt cd1 sc1 maximum_count_def o1 part1_def)

definition ti1 :: task_identity where
  "ti1 = \<lparr>ti_prepared_corpus_sha256 = D0, ti_embedding_profile_sha256 = D0, ti_tokenizer_sha256 = D0\<rparr>"

definition E0 :: digest where
  "E0 = Digest (hex_of (CHR ''b''))"

lemma id1: "embedding_task_v2_id X1 ti1 0 2 D0 D0 8 = Inr D0"
  "embedding_task_v2_id X1 ti1 2 3 D0 D0 4 = Inr E0"
  by (simp_all add: embedding_task_v2_id_def canonical_digest_def canonical_json_bytes_def digest_bytes_def X1_def hex_of_def D0_def E0_def json_u64_def)

definition paths1 :: "string \<Rightarrow> digest \<Rightarrow> string \<Rightarrow> safe_path" where
  "paths1 p d s = SafeRelativePath (p @ digest_str d @ s)"

lemma pp1: "parts_path (digest_str D0) = Inr (paths1 ''parts/'' D0 ''.f32'')" 
 "parts_path (digest_str E0) = Inr (paths1 ''parts/'' E0 ''.f32'')"
 "receipts_path (digest_str D0) = Inr (paths1 ''receipts/'' D0 ''.json'')"
 "receipts_path (digest_str E0) = Inr (paths1 ''receipts/'' E0 ''.json'')"
  by code_simp+

lemma pp2: "safe_relative_path_new DOCUMENT_TOKEN_COUNTS_PATH = Inr (SafeRelativePath DOCUMENT_TOKEN_COUNTS_PATH)"
  by code_simp

lemma br1: "balance_ranges 2 8 [4,4,4] 0 = Inr [(0,2),(2,3)]" 
  by (simp add: balance_ranges.simps checked_add_def u64_of_u32_def)

lemma st1: "token_statistics_of [4,4,4] = Inr \<lparr>ts_total_tokens = 12, ts_p50_tokens = 4,
        ts_p90_tokens = 4, ts_p95_tokens = 4, ts_p99_tokens = 4, ts_maximum_tokens = 4\<rparr>"
  by (simp add: token_statistics_of_def sum_counts_def checked_add_def u64_of_u32_def percentile_def percentile_rank_def Let_def)

definition task1 :: "u64 \<Rightarrow> u64 \<Rightarrow> embedding_input_slice_v2 \<Rightarrow> u64 \<Rightarrow> digest \<Rightarrow> embedding_task_v2" where
  "task1 a b s k d = \<lparr>t2_task_id = digest_str d, t2_ordinal_start = a, t2_ordinal_end = b,
     t2_input_slices = [s], t2_order_sha256 = D0, t2_token_count = k,
     t2_maximum_document_tokens = 4, t2_counts_sha256 = D0,
     t2_result_path = paths1 ''parts/'' d ''.f32'', t2_receipt_path = paths1 ''receipts/'' d ''.json''\<rparr>"

lemma bt1: "build_task X1 manifest0 rows0 [4, 4, 4] ti1 (0, 2) =
    Inr (task1 0 2 (part1 ''documents/0'' 0 2 8) 8 D0)"
  "build_task X1 manifest0 rows0 [4, 4, 4] ti1 (2, 3) =
    Inr (task1 2 3 (part1 ''documents/1'' 0 1 4) 4 E0)"
  by (simp_all add: build_task_def try_from_nat_def sc1 maximum_count_def cd1 o1 bs1 id1 pp1 Let_def task1_def)

definition plan1 :: embedding_plan_v2 where
  "plan1 = \<lparr>p2_schema_version = EMBEDDING_PLAN_V2_SCHEMA,
       p2_component_sha256 = D0,
       p2_prepared_corpus_sha256 = D0, p2_dataset = dataset0,
       p2_embedding_profile = profile0, p2_executable_tokenizer = tokenizer1,
       p2_document_count = 3,
       p2_document_order_sha256 = D0,
       p2_counts_sha256 = D0,
       p2_counts_object = \<lparr>dc_path = SafeRelativePath DOCUMENT_TOKEN_COUNTS_PATH, dc_rows = 3,
         dc_bytes = 12, dc_sha256 = D0, dc_counts_sha256 = D0\<rparr>,
       p2_token_statistics = \<lparr>ts_total_tokens = 12, ts_p50_tokens = 4,
        ts_p90_tokens = 4, ts_p95_tokens = 4, ts_p99_tokens = 4, ts_maximum_tokens = 4\<rparr>,
       p2_maximum_task_tokens = 8,
       p2_maximum_task_documents = 2, p2_tasks = [task1 0 2 (part1 ''documents/0'' 0 2 8) 8 D0,
         task1 2 3 (part1 ''documents/1'' 0 1 4) 4 E0]\<rparr>"

lemma ne1: "digest_str D0 \<noteq> digest_str E0" "D0 \<noteq> E0" "paths1 ''parts/'' D0 ''.f32'' \<noteq> paths1 ''parts/'' E0 ''.f32''"
  "paths1 ''receipts/'' D0 ''.json'' \<noteq> paths1 ''receipts/'' E0 ''.json''"
  "paths1 ''parts/'' d ''.f32'' \<noteq> paths1 ''receipts/'' e ''.json''"
  by (simp_all add: D0_def E0_def hex_of_def paths1_def numeral_eq_Suc)

lemma vt1: "validate_v2_tasks X1 (p2_tasks plan1) 3 8 2 8 ti1 = Inr ()"
  using ne1 ne1 [symmetric] by (simp add: plan1_def validate_v2_tasks_def task1_def part1_def validate_v2_task_step_def add_slice_v2_rows_def add_slice_v2_tokens_def
   checks task_v2_row_count_def u64_of_u32_def maximum_of_def id1 word_le_nat_alt word_less_nat_alt)

lemma vm1: "validate_token_count_metadata plan1 = Inr ()"
  by (simp add: plan1_def validate_token_count_metadata_def Let_def task1_def part1_def
   checks maximum_of_def profile0_def)

lemma plan_identity1: "plan_identity plan1 = ti1"
  by (simp add: plan_identity_def plan1_def profile0_def tokenizer1_def C0_def ti1_def)

lemma cj1: "component_digest X1 (json_embedding_plan_v2 plan1) = Inr D0"
  "component_digest X1 (json_prepared_manifest manifest0) = Inr D0"
  by (simp_all add: component_digest_def without_self_digest_def json_embedding_plan_v2_def json_prepared_manifest_def canonical_digest_def canonical_json_bytes_def)
   (simp_all add: X1_def digest_bytes_def hex_of_def D0_def)

lemma pv1: "plan_v2_validate X1 plan1 = Inr ()"
  unfolding plan_v2_validate_iff plan_v2_body_def cj1 plan_identity1 vm1
  using vt1 dataset0_ok
  by (simp add: plan1_def profile0_def C0_def embedding_profile_ref_validate_def checks format_document_input_exact_def fmt1 tokenizer_validate_for_profile_def executable_tokenizer_validate_def tokenizer1_def)

lemma bp1: "build_plan_from_counts X1 manifest0 rows0 profile0 tokenizer1 opts1 [4, 4, 4] = Inr plan1"
proof -
  have z: "digest_new (replicate 64 (CHR ''0'')) = Inr (Digest (replicate 64 (CHR ''0'')))"
    by (simp add: digest_new_def list_all_iff is_lower_hex_def is_ascii_digit_def)
  have ti: "\<lparr>ti_prepared_corpus_sha256 = pc_component_sha256 manifest0,
      ti_embedding_profile_sha256 = cr_sha256 (epr_component profile0),
      ti_tokenizer_sha256 = cr_sha256 (et_artifact tokenizer1)\<rparr> = ti1"
    by (simp add: manifest0_def profile0_def tokenizer1_def C0_def ti1_def)
  have e: "encode_document_token_counts [4, 4, 4] \<noteq> [2]"
    using encode_length [of "[4, 4, 4]"] by auto
  have n: "(try_from_nat (length (encode_document_token_counts [4, 4, 4])) :: u64 option) = Some 12"
    by (simp add: encode_length try_from_nat_def)
  have d: "digest_bytes X1 (encode_document_token_counts [4, 4, 4]) = D0"
    by (rule d1 [OF e])
  have o: "unat (tb_maximum_task_documents opts1) = 2" "tb_maximum_task_tokens opts1 = 8"
    by (simp_all add: opts1_def)
  have "plan1\<lparr>p2_component_sha256 := D0\<rparr> = plan1" by (simp add: plan1_def)
  then have seal: "plan_v2_seal X1 (plan1\<lparr>p2_component_sha256 := z\<rparr>) = Inr plan1" for z
    by (simp add: plan_v2_seal_def Let_def plan_v2_seal.digest_of_resealed cj1 pv1)
  have tm: "try_map (build_task X1 manifest0 rows0 [4, 4, 4] ti1) [(0, 2), (2, 3)] = Inr (p2_tasks plan1)"
    by (simp add: bt1 plan1_def)
  show ?thesis
    unfolding build_plan_from_counts_def o br1 rbind_simps ti cd1 z pp2 n d st1 ok_or_simps Let_def tm
    using seal [of "Digest (replicate 64 (CHR ''0''))"] by (simp add: plan1_def manifest0_def opts1_def)
qed

lemma rv1: "n \<le> MAX_SAFE_JSON_INTEGER \<Longrightarrow> i \<noteq> [] \<Longrightarrow> prepared_document_row_validate X1 (row0 n i) = Inr ()"
  by (simp add: prepared_document_row_validate_def row0_def checks validate_canonical_json_def
      canonical_json_bytes_def d1 str_bytes_def, simp add: X1_def str_bytes_def)

lemma vp1: "validate_prepared_documents X1 manifest0 rows0 = Inr ()"
proof -
  have "canonical_digest X1 (JArr js) = Inr D0" for js
    by (simp add: canonical_digest_def canonical_json_bytes_def d1) (simp add: X1_def digest_bytes_def hex_of_def D0_def)
  moreover have "length rows0 < 2 ^ 64" by (simp add: rows0_def)
  ultimately have "try_fold (check_object_rows X1 rows0) 0 (pc_documents manifest0) = Inr 3"
    by (simp add: manifest0_def object0_def rbind_eq_Inr check_object_rows_ok document_slice_ok_def o1)
      (simp add: rows0_def row0_def numeral_2_eq_2)
  moreover have "try_all (check_row_order X1 rows0) (enumerate 0 rows0) = Inr ()"
    unfolding rows0_def
    by (simp add: check_row_order_def rv1 MAX_SAFE_JSON_INTEGER_def, simp add: row0_def)
  moreover have "document_order_digest X1 (map pd_document_id rows0) = D0"
    unfolding document_order_digest_def by (rule d1) (simp add: rows0_def row0_def nul_framed_def str_bytes_def)
  ultimately show ?thesis
    by (simp add: validate_prepared_documents_def o1)
      (simp add: rows0_def manifest0_def try_from_nat_def)
qed

lemma mv1: "prepared_manifest_validate X1 manifest0 = Inr ()"
  using manifest0_ok cj1(2)
  by (simp add: prepared_manifest_validate_iff prepared_manifest_body_def) (simp add: manifest0_def)

lemma built1: "build_token_balanced_plan_with_counts X1 load1 manifest0 rows0 profile0 tokenizer1 [] opts1 =
    Inr (plan1, [4, 4, 4])"
proof -
  have x: "exact_tokenizer_from_bytes X1 load1 tokenizer1 [] = Inr xt1"
    by (simp add: exact_tokenizer_from_bytes_def executable_tokenizer_validate_def tokenizer1_def checks C0_def d1
      load1_def xt1_def)
  have "embedding_profile_ref_validate profile0 = Inr ()" "tokenizer_validate_for_profile tokenizer1 profile0 = Inr ()"
    using plan_v2_validate_iff [THEN iffD1, OF pv1] by (simp_all add: plan_v2_body_def plan1_def)
  then show ?thesis
    unfolding build_token_balanced_plan_with_counts_def mv1 vp1 x count1 rbind_simps bp1
    by (simp add: opts1_def require_safe_u64_def MAX_SAFE_JSON_INTEGER_def)
qed

definition profile2 :: embedding_profile_ref where
  "profile2 = profile0\<lparr>epr_dimensions := 1\<rparr>"

theorem built_plan_accepted_witness:
  "\<exists>p. plan_v2_validate_manifest_binding X1 p manifest0 = Inr () \<and>
     validate_document_token_counts X1 p [4, 4, 4] = Inr () \<and>
     plan_v2_validate_with_tokenizer X1 load1 p manifest0 rows0 [] = Inr () \<and>
     length (p2_tasks p) = 2"
  using built_plan_accepted [OF built1] by (intro exI [of _ plan1]) (simp add: plan1_def)

lemma range1: "range_counts [4, 4, 4] (0, 2) = [4, 4]" "range_counts [4, 4, 4] (2, 3) = [4]"
  by (simp_all add: range_counts_def)

lemma counts1: "validate_document_token_counts X1 plan1 [4, 4, 4] = Inr ()"
proof -
  have e: "encode_document_token_counts [4, 4, 4] \<noteq> [2]"
    using encode_length [of "[4, 4, 4]"] by auto
  have "try_all (check_task_counts X1 [4, 4, 4]) (p2_tasks plan1) = Inr ()"
    by (simp add: plan1_def task1_def part1_def check_task_counts_def check_slice_counts_def get_range_def
      usize_checked_add_def sc1 maximum_count_def cd1 try_from_nat_def)
  then have "validate_counts_against_plan X1 plan1 [4, 4, 4] = Inr ()"
    unfolding counts_against_plan_iff d1 [OF e] cd1 st1 encode_length
    by (simp add: plan1_def profile0_def try_from_nat_def)
  then show ?thesis by (simp add: validate_document_token_counts_def pv1)
qed

theorem plan_counts_feasible_witness:
  "\<exists>rs. balance_ranges 2 8 [4, 4, 4] 0 = Inr rs \<and> length rs \<le> 2"
  using plan_counts_feasible [OF counts1] by (auto simp: plan1_def)

lemma derived1: "derive_embedding_plan_v2 X1 plan1 profile2 = Inr (plan1\<lparr>p2_embedding_profile := profile2\<rparr>)"
proof -
  let ?p = "plan1\<lparr>p2_embedding_profile := profile2\<rparr>"
  have ti: "plan_identity ?p = ti1"
    by (simp add: plan_identity_def plan1_def profile2_def profile0_def tokenizer1_def C0_def ti1_def)
  have tasks: "try_map (derive_task X1 ti1) (p2_tasks plan1) = Inr (p2_tasks plan1)"
    by (simp add: plan1_def derive_task_def task1_def id1 pp1)
  have valid: "embedding_profile_ref_validate profile2 = Inr ()"
    by (simp add: profile2_def profile0_def C0_def embedding_profile_ref_validate_def checks)
  have tok: "tokenizer_validate_for_profile tokenizer1 profile2 = Inr ()"
    by (simp add: tokenizer_validate_for_profile_def executable_tokenizer_validate_def tokenizer1_def
        profile2_def profile0_def C0_def checks)
  have meta: "validate_token_count_metadata ?p = Inr ()"
    by (simp add: plan1_def validate_token_count_metadata_def Let_def task1_def part1_def checks
        maximum_of_def profile2_def profile0_def)
  have cd: "component_digest X1 (json_embedding_plan_v2 ?p) = Inr D0"
    by (simp add: component_digest_def without_self_digest_def json_embedding_plan_v2_def
        canonical_digest_def canonical_json_bytes_def)
      (simp add: X1_def digest_bytes_def hex_of_def D0_def)
  have seal: "plan_v2_seal X1 ?p = Inr ?p"
  proof (rule plan_v2_seal.validated_is_sealed)
    show "plan_v2_validate X1 ?p = Inr ()"
      unfolding plan_v2_validate_iff plan_v2_body_def cd ti meta
      using vt1 dataset0_ok valid tok plan_v2_validate_iff [THEN iffD1, OF pv1]
      by (simp add: plan_v2_body_def plan1_def) (simp add: profile2_def profile0_def)
  qed
  have "?p\<lparr>p2_tasks := p2_tasks plan1\<rparr> = ?p" by simp
  then show ?thesis
    unfolding derive_embedding_plan_v2_def pv1 valid rbind_simps Let_def ti
    using seal tasks by (simp add: plan1_def) (simp add: profile2_def profile0_def word_le_nat_alt)
qed

theorem derived_plan_keeps_work_witness:
  "validate_document_token_counts X1 (plan1\<lparr>p2_embedding_profile := profile2\<rparr>) [4, 4, 4] = Inr ()"
  using derived_plan_keeps_work [OF derived1, of manifest0 "[4, 4, 4]"] counts1 by simp

lemma plan1_bound: "plan_v2_validate_manifest_binding X1 plan1 manifest0 = Inr ()"
proof -
  have "validate_v2_slices_against_manifest (p2_tasks plan1) (pc_documents manifest0) = Inr ()"
    by (simp add: validate_v2_slices_against_manifest_def plan1_def task1_def part1_def manifest0_def
        object0_def object_starts_of_def object_starts_step_def check_v2_task_slices_def
        check_v2_slice_binding_def bt_get_def less_safe_path_def checks)
  then show ?thesis
    by (simp add: plan_v2_validate_manifest_binding_def pv1 mv1) (simp add: plan1_def manifest0_def)
qed

end
