(* ===== verification/Floats.thy ===== *)
theory Floats
  imports Complex_Main Prelude
begin

unbundle bit_operations_syntax

text \<open>
  IEEE 754 arithmetic as far as the program computes with it. An \<open>f32\<close> is its bit pattern;
  a finite one denotes a signed integer times a power of two. The \<open>f64\<close> values the program
  computes are squares of \<open>f32\<close> values, their sums, a square root and quotients; their
  magnitudes stay far inside the range of normal \<open>f64\<close> numbers (the square of an \<open>f32\<close> lies
  between \<open>2^-298\<close> and \<open>2^256\<close>), so an \<open>f64\<close> is modelled by its magnitude, a natural
  number times a power of two, and every operation rounds to 53 significant bits, ties to
  even. The lemmas bound the error of each operation and show that converting an \<open>f32\<close> to
  \<open>f64\<close> and back is the identity.
\<close>

subsection \<open>Rounding to a number of significant bits\<close>

type_synonym magnitude = "nat \<times> int"

fun bit_len :: "nat \<Rightarrow> nat" where
  "bit_len n = (if n = 0 then 0 else Suc (bit_len (n div 2)))"

declare bit_len.simps [simp del]

lemma bit_len_0 [simp]: "bit_len 0 = 0"
  by (simp add: bit_len.simps)

lemma bit_len_eval [simp]:
  "bit_len (Suc 0) = Suc 0"
  "bit_len (numeral n) = Suc (bit_len (numeral n div 2))"
  by (simp_all add: bit_len.simps)

lemma bit_len_upper: "n < 2 ^ bit_len n"
proof (induction n rule: bit_len.induct)
  case (1 n)
  then show ?case by (cases "n = 0") (auto simp: bit_len.simps [of n])
qed

lemma bit_len_lower: "0 < n \<Longrightarrow> 2 ^ (bit_len n - 1) \<le> n"
proof (induction n rule: bit_len.induct)
  case (1 n)
  show ?case
  proof (cases "n div 2 = 0")
    case True
    with 1 have "n = 1" by auto
    then show ?thesis by (simp add: bit_len.simps)
  next
    case False
    with 1 have ih: "2 ^ (bit_len (n div 2) - 1) \<le> n div 2" by auto
    from False have "bit_len (n div 2) \<noteq> 0" by (simp add: bit_len.simps [of "n div 2"])
    then obtain b where "bit_len (n div 2) = Suc b" by (cases "bit_len (n div 2)") auto
    with ih 1(2) show ?thesis by (simp add: bit_len.simps [of n])
  qed
qed

lemma bit_len_unique: "2 ^ b \<le> n \<Longrightarrow> n < 2 ^ Suc b \<Longrightarrow> bit_len n = Suc b"
proof -
  assume a: "2 ^ b \<le> n" "n < 2 ^ Suc b"
  then have pos: "0 < n" by (metis less_le_trans zero_less_numeral zero_less_power)
  have "(2::nat) ^ b < 2 ^ bit_len n" using a(1) bit_len_upper [of n] by (rule le_less_trans)
  moreover have "(2::nat) ^ (bit_len n - 1) < 2 ^ Suc b"
    using bit_len_lower [OF pos] a(2) by (rule le_less_trans)
  then have "bit_len n - 1 < Suc b" by (simp only: power_strict_increasing_iff one_less_numeral_iff
        semiring_norm)
  ultimately show ?thesis by simp
qed

definition round_shift :: "nat \<Rightarrow> nat \<Rightarrow> nat" where
  "round_shift k m =
     (if k = 0 then m
      else let q = m div 2 ^ k; r = m mod 2 ^ k; half = 2 ^ (k - 1)
        in if r > half \<or> r = half \<and> odd q then q + 1 else q)"

definition round_sig :: "nat \<Rightarrow> magnitude \<Rightarrow> magnitude" where
  "round_sig p = (\<lambda>(m, e). let k = bit_len m - p in (round_shift k m, e + int k))"

definition mag_val :: "magnitude \<Rightarrow> real" where
  "mag_val = (\<lambda>(m, e). real m * 2 powi e)"

lemma mag_val_nonneg [simp]: "0 \<le> mag_val x"
  by (cases x) (simp add: mag_val_def)

lemma round_shift_error: "\<bar>real (round_shift k m) * 2 ^ k - real m\<bar> \<le> 2 ^ k / 2"
proof (cases k)
  case (Suc j)
  define q r where "q = m div 2 ^ k" and "r = m mod 2 ^ k"
  have m: "m = q * 2 ^ k + r" 
    unfolding q_def r_def by (rule div_mult_mod_eq [symmetric])
  have rk: "r < 2 ^ k" by (simp add: r_def)
  have half: "(2::nat) ^ k = 2 * 2 ^ j" by (simp add: Suc)
  have rs: "round_shift k m = (if r > 2 ^ j \<or> r = 2 ^ j \<and> odd q then q + 1 else q)"
    by (simp add: round_shift_def Suc q_def r_def Let_def)
  have rm: "real m = real q * (2 * 2 ^ j) + real r" by (subst m) (simp add: Suc)
  have kk: "(2::real) ^ k = 2 * 2 ^ j" by (simp add: Suc)
  have rr: "real r \<le> 2 * 2 ^ j" using rk half by (metis less_imp_le of_nat_le_iff of_nat_mult
        of_nat_numeral of_nat_power)
  show ?thesis
  proof (cases "r > 2 ^ j \<or> r = 2 ^ j \<and> odd q")
    case True
    then have "2 ^ j \<le> r" by auto
    then have "(2::real) ^ j \<le> real r" by (metis of_nat_le_iff of_nat_numeral of_nat_power)
    with True rr show ?thesis unfolding rs rm kk by (simp add: algebra_simps)
  next
    case False
    then have "r \<le> 2 ^ j" by auto
    then have "real r \<le> 2 ^ j" by (metis of_nat_le_iff of_nat_numeral of_nat_power)
    with False show ?thesis unfolding rs rm kk by (simp add: algebra_simps)
  qed
qed (simp add: round_shift_def)

text \<open>The relative error of rounding to \<open>p\<close> significant bits is at most \<open>2^-p\<close>.\<close>

lemma round_sig_error: "0 < p \<Longrightarrow> \<bar>mag_val (round_sig p x) - mag_val x\<bar> \<le> mag_val x / 2 ^ p"
proof -
  assume p: "0 < p"
  obtain m e where x: "x = (m, e)" by (cases x)
  define k where "k = bit_len m - p"
  have v: "mag_val (round_sig p x) = real (round_shift k m) * 2 ^ k * 2 powi e"
    by (simp add: x round_sig_def mag_val_def Let_def k_def power_int_add)
  show ?thesis
  proof (cases "k = 0")
    case True
    then show ?thesis unfolding v by (simp add: x mag_val_def round_shift_def)
  next
    case False
    then have "bit_len m = p + k" by (simp add: k_def)
    moreover from this p have "0 < m" by (cases m) simp_all
    ultimately have "2 ^ (p + k - 1) \<le> m" using bit_len_lower [of m] by simp
    then have "(2::real) ^ (p + k - 1) \<le> real m" by (metis of_nat_le_iff of_nat_numeral of_nat_power)
    moreover have "(2::real) ^ (p + k) = 2 * 2 ^ (p + k - 1)" using p by (cases "p + k") auto
    ultimately have "2 ^ k / 2 \<le> real m / 2 ^ p"
      by (simp add: power_add field_simps)
    with round_shift_error [of k m]
    have "\<bar>real (round_shift k m) * 2 ^ k - real m\<bar> \<le> real m / 2 ^ p" by linarith
    then have "\<bar>real (round_shift k m) * 2 ^ k - real m\<bar> * 2 powi e \<le> real m / 2 ^ p * 2 powi e"
      by (intro mult_right_mono) simp_all
    moreover have "\<bar>real (round_shift k m) * 2 ^ k - real m\<bar> * 2 powi e =
        \<bar>mag_val (round_sig p x) - mag_val x\<bar>"
      unfolding v by (simp add: x mag_val_def abs_mult flip: left_diff_distrib)
    ultimately show ?thesis by (simp add: x mag_val_def)
  qed
qed

subsection \<open>The bit pattern of an \<open>f32\<close>\<close>

definition f32_exponent :: "u32 \<Rightarrow> nat" where
  "f32_exponent w = unat w div 2 ^ 23 mod 256"

definition f32_fraction :: "u32 \<Rightarrow> nat" where
  "f32_fraction w = unat w mod 2 ^ 23"

definition f32_negative :: "u32 \<Rightarrow> bool" where
  "f32_negative w \<longleftrightarrow> 2 ^ 31 \<le> unat w"

definition f32_is_finite :: "u32 \<Rightarrow> bool" where
  "f32_is_finite w \<longleftrightarrow> f32_exponent w \<noteq> 255"

definition f32_mag :: "u32 \<Rightarrow> magnitude" where
  "f32_mag w =
     (if f32_exponent w = 0 then (f32_fraction w, - 149)
      else (2 ^ 23 + f32_fraction w, int (f32_exponent w) - 150))"

definition f32_val :: "u32 \<Rightarrow> real" where
  "f32_val w = (if f32_negative w then - mag_val (f32_mag w) else mag_val (f32_mag w))"

text \<open>\<open>as f32\<close>: round to 24 bits, or to a multiple of \<open>2^-149\<close> below the normal range.\<close>

definition f32_pack :: "bool \<Rightarrow> magnitude \<Rightarrow> u32" where
  "f32_pack neg = (\<lambda>(m, e).
     let k = max (bit_len m - 24) (nat (- 149 - e));
         m1 = round_shift k m;
         e1 = e + int k;
         (m2, e2) = (if bit_len m1 > 24 then (m1 div 2, e1 + 1)
                     else let s = min (24 - bit_len m1) (nat (e1 + 149)) in (m1 * 2 ^ s, e1 - int s));
         body = (if bit_len m2 = 24
                 then (if e2 + 150 \<ge> 255 then 255 * 2 ^ 23
                       else nat (e2 + 150) * 2 ^ 23 + (m2 - 2 ^ 23))
                 else m2)
     in word_of_nat ((if neg then 2 ^ 31 else 0) + body))"

lemma f32_parts:
  "unat w = (if f32_negative w then 2 ^ 31 else 0) + f32_exponent w * 2 ^ 23 + f32_fraction w"
proof -
  have lt: "unat w < 2 ^ 32" using unat_bound [of w] by simp
  have a: "unat w div 2 ^ 31 = (if f32_negative w then 1 else 0)"
    using lt unfolding f32_negative_def
    by (auto simp: div_nat_eqI div_less)
  have "unat w = unat w div 2 ^ 31 * 2 ^ 31 + unat w mod 2 ^ 31"
    by (rule div_mult_mod_eq [symmetric])
  also have "\<dots> = (if f32_negative w then 2 ^ 31 else 0) + unat w mod 2 ^ 31"
    unfolding a by simp
  also have "unat w mod 2 ^ 31 = unat w div 2 ^ 23 mod 256 * 2 ^ 23 + unat w mod 2 ^ 23"
    using mod_mult2_eq [of "unat w" "2 ^ 23" 256] by simp
  finally show ?thesis by (simp only: f32_exponent_def f32_fraction_def add.assoc)
qed

lemma f32_fraction_less: "f32_fraction w < 2 ^ 23"
  by (simp add: f32_fraction_def)

lemma bit_len_small: "n < 2 ^ b \<Longrightarrow> bit_len n \<le> b"
proof (rule ccontr)
  assume n: "n < 2 ^ b" and "\<not> bit_len n \<le> b"
  then have "b \<le> bit_len n - 1" and "0 < n" by (cases "n = 0"; simp)+
  then have "(2::nat) ^ b \<le> 2 ^ (bit_len n - 1)" by (intro power_increasing) simp_all
  also have "\<dots> \<le> n" by (rule bit_len_lower [OF \<open>0 < n\<close>])
  finally show False using n by (simp only: leD)
qed

text \<open>A magnitude that \<open>f32\<close> represents is packed without rounding.\<close>

lemma f32_pack_exact:
  assumes "bit_len m \<le> 24" and "- 149 \<le> e" and "e \<le> 104" and "bit_len m = 24 \<or> e = - 149"
  shows "f32_pack neg (m, e) = word_of_nat ((if neg then 2 ^ 31 else 0) +
    (if bit_len m = 24 then nat (e + 150) * 2 ^ 23 + (m - 2 ^ 23) else m))"
proof -
  have k: "max (bit_len m - 24) (nat (- 149 - e)) = 0" using assms(1,2) by simp
  have s: "min (24 - bit_len m) (nat (e + 149)) = 0" using assms(4) by auto
  have n: "\<not> bit_len m > 24" using assms(1) by simp
  have o: "\<not> e + 150 \<ge> 255" using assms(3) by simp
  show ?thesis
    unfolding f32_pack_def prod.case k Let_def round_shift_def simp_thms if_True int_ops add_0_right
      if_not_P [OF n] s if_not_P [OF o] power_0 mult_1_right diff_0_right
    by (simp only: if_not_P [OF o] diff_zero)
qed

lemma f32_exponent_le: "f32_exponent w \<le> 255"
  by (simp add: f32_exponent_def less_Suc_eq_le [symmetric])

lemma f32_pack_mag: "f32_is_finite w \<Longrightarrow> f32_pack (f32_negative w) (f32_mag w) = w"
proof -
  assume fin: "f32_is_finite w"
  let ?s = "if f32_negative w then 2 ^ 31 else 0 :: nat"
  have le: "f32_exponent w \<le> 254"
    using fin f32_exponent_le [of w] by (simp add: f32_is_finite_def)
  have "f32_pack (f32_negative w) (f32_mag w) =
      word_of_nat (?s + (f32_exponent w * 2 ^ 23 + f32_fraction w))"
  proof (cases "f32_exponent w = 0")
    case True
    have b: "bit_len (f32_fraction w) \<le> 23" by (rule bit_len_small) (rule f32_fraction_less)
    have m: "f32_mag w = (f32_fraction w, - 149)" by (simp add: f32_mag_def True)
    show ?thesis
      unfolding m by (subst f32_pack_exact) (use b in \<open>auto simp: True\<close>)
  next
    case False
    have b: "bit_len (2 ^ 23 + f32_fraction w) = 24"
      using bit_len_unique [of 23 "2 ^ 23 + f32_fraction w"] f32_fraction_less [of w] by simp
    have m: "f32_mag w = (2 ^ 23 + f32_fraction w, int (f32_exponent w) - 150)"
      by (simp add: f32_mag_def False)
    have e: "nat (int (f32_exponent w) - 150 + 150) = f32_exponent w" by simp
    show ?thesis
      unfolding m by (subst f32_pack_exact) (use b False le in \<open>simp_all only: b e if_True
          diff_add_inverse\<close>, simp_all)
  qed
  also have "\<dots> = word_of_nat (unat w)" by (simp only: f32_parts [of w] add.assoc)
  finally show ?thesis by simp
qed

subsection \<open>Sums of squares, square roots and quotients in \<open>f64\<close>\<close>

definition mag_align :: "magnitude \<Rightarrow> magnitude \<Rightarrow> nat \<times> nat \<times> int" where
  "mag_align = (\<lambda>(m1, e1) (m2, e2).
     let e = min e1 e2 in (m1 * 2 ^ nat (e1 - e), m2 * 2 ^ nat (e2 - e), e))"

definition f64_sq :: "u32 \<Rightarrow> magnitude" where
  "f64_sq w = (case f32_mag w of (m, e) \<Rightarrow> round_sig 53 (m * m, 2 * e))"

definition f64_add :: "magnitude \<Rightarrow> magnitude \<Rightarrow> magnitude" where
  "f64_add x y = (case mag_align x y of (a, b, e) \<Rightarrow> round_sig 53 (a + b, e))"

definition sum_of_squares :: "u32 list \<Rightarrow> magnitude" where
  "sum_of_squares ws = foldl (\<lambda>acc w. f64_add acc (f64_sq w)) (0, 0) ws"

definition isqrt_step :: "nat \<Rightarrow> nat \<Rightarrow> nat" where
  "isqrt_step n r = (if (r + 1) * (r + 1) \<le> n then r + 1 else r)"

fun isqrt :: "nat \<Rightarrow> nat" where
  "isqrt n = (if n = 0 then 0 else isqrt_step n (2 * isqrt (n div 4)))"

declare isqrt.simps [simp del]

lemma isqrt_eval [simp]:
  "isqrt 0 = 0"
  "isqrt (Suc 0) = Suc 0"
  "isqrt (numeral n) = isqrt_step (numeral n) (2 * isqrt (numeral n div 4))"
  "isqrt_step (Suc 0) 0 = Suc 0"
  "isqrt_step (numeral n) 0 = Suc 0"
  "isqrt_step (numeral n) (numeral r) =
     (if (numeral r + 1) * (numeral r + 1) \<le> (numeral n :: nat) then numeral r + 1 else numeral r)"
  by (simp_all add: isqrt.simps isqrt_step_def)

definition f64_sqrt :: "magnitude \<Rightarrow> magnitude" where
  "f64_sqrt = (\<lambda>(m, e).
     if m = 0 then (0, 0)
     else let s0 = 108 - bit_len m;
              s = (if even (e - int s0) then s0 else s0 + 1);
              n = m * 2 ^ s;
              q = isqrt n
          in round_sig 53 (2 * q + (if q * q = n then 0 else 1), (e - int s) div 2 - 1))"

definition f64_div :: "magnitude \<Rightarrow> magnitude \<Rightarrow> magnitude" where
  "f64_div = (\<lambda>(m1, e1) (m2, e2).
     let s = 55 + bit_len m2; n = m1 * 2 ^ s; q = n div m2
     in round_sig 53 (2 * q + (if q * m2 = n then 0 else 1), e1 - e2 - int s - 1))"

text \<open>\<open>(x - 1.0).abs()\<close> and the comparison of magnitudes.\<close>

definition f64_dist_one :: "magnitude \<Rightarrow> magnitude" where
  "f64_dist_one x = (case mag_align x (1, 0) of (a, b, e) \<Rightarrow>
     round_sig 53 (if b \<le> a then a - b else b - a, e))"

definition mag_less :: "magnitude \<Rightarrow> magnitude \<Rightarrow> bool" where
  "mag_less x y = (case mag_align x y of (a, b, e) \<Rightarrow> a < b)"

text \<open>The literal \<open>1.0e-4\<close> and \<open>f64::EPSILON\<close>.\<close>

definition F64_1E_4 :: magnitude where
  "F64_1E_4 = (7378697629483821, - 66)"

definition F64_EPSILON :: magnitude where
  "F64_EPSILON = (1, - 52)"

subsection \<open>Error bounds\<close>

lemma mag_align_val:
  "mag_align x y = (a, b, e) \<Longrightarrow> mag_val x = real a * 2 powi e \<and> mag_val y = real b * 2 powi e"
proof -
  obtain m1 e1 m2 e2 where x: "x = (m1, e1)" and y: "y = (m2, e2)" by (cases x, cases y)
  have p: "real (m * 2 ^ nat (k - j)) * 2 powi j = real m * 2 powi k" if "j \<le> k" for m and j k :: int
  proof -
    have "(2::real) ^ nat (k - j) * 2 powi j = 2 powi (k - j) * 2 powi j"
      using that by (simp add: power_int_def)
    also have "\<dots> = 2 powi k" by (simp flip: power_int_add)
    finally show ?thesis by simp
  qed
  assume "mag_align x y = (a, b, e)"
  then have "e = min e1 e2" and "a = m1 * 2 ^ nat (e1 - e)" and "b = m2 * 2 ^ nat (e2 - e)"
    by (auto simp: mag_align_def x y Let_def)
  then show ?thesis
    using p [of e e1 m1, symmetric] p [of e e2 m2, symmetric] by (simp add: x y mag_val_def)
qed

lemma mag_less_iff: "mag_less x y \<longleftrightarrow> mag_val x < mag_val y"
proof -
  obtain a b e where al: "mag_align x y = (a, b, e)" by (cases "mag_align x y")
  from mag_align_val [OF al] show ?thesis by (simp add: mag_less_def al)
qed

lemma f64_add_error:
  "\<bar>mag_val (f64_add x y) - (mag_val x + mag_val y)\<bar> \<le> (mag_val x + mag_val y) / 2 ^ 53"
proof -
  obtain a b e where al: "mag_align x y = (a, b, e)" by (cases "mag_align x y")
  have "mag_val (a + b, e) = mag_val x + mag_val y"
    using mag_align_val [OF al] by (simp add: mag_val_def algebra_simps)
  then show ?thesis using round_sig_error [of 53 "(a + b, e)"] by (simp add: f64_add_def al)
qed

lemma f64_sq_error: "\<bar>mag_val (f64_sq w) - (f32_val w)\<^sup>2\<bar> \<le> (f32_val w)\<^sup>2 / 2 ^ 53"
proof -
  obtain m e where m: "f32_mag w = (m, e)" by (cases "f32_mag w")
  have "mag_val (m * m, 2 * e) = (f32_val w)\<^sup>2"
  proof -
    have "(2::real) powi (2 * e) = 2 powi e * 2 powi e"
      unfolding mult_2 by (rule power_int_add) simp
    moreover have "(f32_val w)\<^sup>2 = (real m * 2 powi e)\<^sup>2"
      by (simp add: f32_val_def mag_val_def m)
    ultimately show ?thesis by (simp add: mag_val_def power2_eq_square)
  qed
  then show ?thesis using round_sig_error [of 53 "(m * m, 2 * e)"] by (simp add: f64_sq_def m)
qed

lemma f64_dist_one_error:
  "\<bar>mag_val (f64_dist_one x) - \<bar>mag_val x - 1\<bar>\<bar> \<le> \<bar>mag_val x - 1\<bar> / 2 ^ 53"
proof -
  obtain a b e where al: "mag_align x (1, 0) = (a, b, e)" by (cases "mag_align x (1, 0)")
  have v: "mag_val x = real a * 2 powi e" "1 = real b * 2 powi e"
    using mag_align_val [OF al] by (auto simp: mag_val_def)
  have "mag_val (if b \<le> a then a - b else b - a, e) = \<bar>real a - real b\<bar> * 2 powi e"
    by (auto simp: mag_val_def of_nat_diff)
  also have "\<dots> = \<bar>mag_val x - 1\<bar>"
    by (simp add: v abs_mult flip: left_diff_distrib)
  finally show ?thesis
    using round_sig_error [of 53 "(if b \<le> a then a - b else b - a, e)"]
    unfolding f64_dist_one_def al prod.case by simp
qed

lemma isqrt_bounds: "isqrt n * isqrt n \<le> n \<and> n < (isqrt n + 1) * (isqrt n + 1)"
proof (induction n rule: isqrt.induct)
  case (1 n)
  show ?case
  proof (cases "n = 0")
    case False
    define q where "q = isqrt (n div 4)"
    from 1 [OF False] have q: "q * q \<le> n div 4" "n div 4 < (q + 1) * (q + 1)"
      by (simp_all add: q_def)
    then have "4 * (q * q) \<le> n" and "n < 4 * ((q + 1) * (q + 1))" by linarith+
    then show ?thesis
      by (simp add: isqrt.simps [of n] False isqrt_step_def flip: q_def)
  qed (simp add: isqrt.simps)
qed

lemma abs_le_both: "\<bar>x - y\<bar> \<le> (b :: real) \<longleftrightarrow> x - y \<le> b \<and> y - x \<le> b"
  by (simp add: abs_le_iff)

lemma chain_error:
  fixes a v s p :: real
  assumes "\<bar>a - v\<bar> \<le> v / 2 ^ 53" "\<bar>v - s\<bar> \<le> p" "p \<le> s / 2 ^ 54" "0 \<le> s"
  shows "\<bar>a - s\<bar> \<le> s / 2 ^ 52"
  using assms unfolding abs_le_both by auto

text \<open>The square root rounds the exact root, read off two extra bits and a sticky bit.\<close>

lemma f64_sqrt_error: "\<bar>mag_val (f64_sqrt x) - sqrt (mag_val x)\<bar> \<le> sqrt (mag_val x) / 2 ^ 52"
proof -
  obtain m e where x: "x = (m, e)" by (cases x)
  show ?thesis
  proof (cases "m = 0")
    case True
    then show ?thesis by (simp add: x f64_sqrt_def mag_val_def)
  next
    case False
    define s0 where "s0 = 108 - bit_len m"
    define s where "s = (if even (e - int s0) then s0 else s0 + 1)"
    define n where "n = m * 2 ^ s"
    define q where "q = isqrt n"
    define t where "t = (if q * q = n then 0 else 1 :: nat)"
    define h where "h = (e - int s) div 2"
    define p :: real where "p = 2 powi (h - 1)"
    have even: "e - int s = 2 * h" by (auto simp: h_def s_def)
    have f: "f64_sqrt x = round_sig 53 (2 * q + t, h - 1)"
      by (simp only: x f64_sqrt_def prod.case Let_def if_not_P [OF False] s0_def [symmetric]
          s_def [symmetric] n_def [symmetric] q_def [symmetric] t_def [symmetric] h_def [symmetric])
    have ppos: "0 < p" by (simp add: p_def)
    have pp: "2 powi (2 * h) = (2 * p)\<^sup>2"
      by (simp add: p_def power2_eq_square power_int_diff flip: power_int_add)
    have "mag_val x = real n * 2 powi (2 * h)"
      by (simp add: x mag_val_def n_def even [symmetric] power_int_diff)
    then have val: "mag_val x = real n * (2 * p)\<^sup>2" by (simp only: pp)
    define r where "r = sqrt (real n)"
    have root: "sqrt (mag_val x) = 2 * r * p"
      using ppos by (simp add: val r_def real_sqrt_mult)
    have nq: "real (q * q) \<le> real n" "real n < real ((q + 1) * (q + 1))"
      using isqrt_bounds [of n] unfolding q_def of_nat_le_iff of_nat_less_iff by blast+
    have q1: "real q \<le> r"
      using nq(1) by (simp add: r_def real_le_rsqrt power2_eq_square)
    have q2: "r < real q + 1"
      unfolding r_def by (rule real_less_lsqrt) (use nq(2) in \<open>simp_all add: power2_eq_square algebra_simps\<close>)
    have exact: "t = 0 \<Longrightarrow> real q = r"
      by (auto simp: t_def r_def real_sqrt_mult split: if_splits)
    have near: "\<bar>real (2 * q + t) - 2 * r\<bar> \<le> 1"
      using q1 q2 exact by (cases "t = 0") (auto simp: t_def)
    have len: "2 ^ 107 \<le> n"
    proof -
      have "s0 \<le> s" by (simp add: s_def)
      have "(2::nat) ^ 107 \<le> 2 ^ (bit_len m - 1 + s)"
        using \<open>s0 \<le> s\<close> False bit_len.simps [of m] by (intro power_increasing) (auto simp: s0_def)
      also have "\<dots> \<le> n"
        using bit_len_lower [of m] False by (simp add: n_def power_add)
      finally show ?thesis .
    qed
    have "(2::real) ^ 53 = sqrt (2 ^ 106)" by (rule real_sqrt_unique [symmetric]) simp_all
    also have "\<dots> \<le> r"
    proof -
      have "(2::nat) ^ 106 \<le> 2 ^ 107" by simp
      with len have "(2::nat) ^ 106 \<le> n" by (rule order_trans [rotated])
      then have "(2::real) ^ 106 \<le> real n" by (metis of_nat_le_iff of_nat_numeral of_nat_power)
      then show ?thesis unfolding r_def by (rule real_sqrt_le_mono)
    qed
    finally have big: "2 ^ 53 \<le> r" .
    define v where "v = mag_val (2 * q + t, h - 1)"
    have v: "\<bar>v - sqrt (mag_val x)\<bar> \<le> p"
    proof -
      have "v - sqrt (mag_val x) = (real (2 * q + t) - 2 * r) * p"
        unfolding root v_def by (simp add: mag_val_def p_def algebra_simps)
      then have "\<bar>v - sqrt (mag_val x)\<bar> = \<bar>real (2 * q + t) - 2 * r\<bar> * p"
        using ppos by (simp only: abs_mult abs_of_pos)
      then show ?thesis using near ppos by (simp add: mult_left_le_one_le)
    qed
    have pr: "p \<le> sqrt (mag_val x) / 2 ^ 54"
      using mult_right_mono [OF big, of p] ppos by (simp add: root)
    have "\<bar>mag_val (f64_sqrt x) - v\<bar> \<le> v / 2 ^ 53"
      using round_sig_error [of 53 "(2 * q + t, h - 1)"] by (simp add: f v_def)
    moreover have "0 \<le> sqrt (mag_val x)" by simp
    ultimately show ?thesis using v pr by (blast intro: chain_error)
  qed
qed

text \<open>
  The computed sum of \<open>n\<close> squares is within the factors \<open>(1 - 2^-53)^2n\<close> and
  \<open>(1 + 2^-53)^2n\<close> of the exact one.
\<close>

definition sum_sq :: "u32 list \<Rightarrow> real" where
  "sum_sq ws = sum_list (map (\<lambda>w. (f32_val w)\<^sup>2) ws)"

lemma sum_sq_nonneg [simp]: "0 \<le> sum_sq ws"
  by (induction ws) (simp_all add: sum_sq_def)

lemma near_mult:
  fixes x y z u l h :: real
  assumes u: "0 \<le> u" "u \<le> 1" and y: "\<bar>y - x\<bar> \<le> x * u" and x: "l * z \<le> x" "x \<le> h * z"
    and nn: "0 \<le> l" "0 \<le> z"
  shows "l * (1 - u) * z \<le> y \<and> y \<le> h * (1 + u) * z"
proof
  have "l * (1 - u) * z = l * z * (1 - u)" by (simp add: algebra_simps)
  also have "\<dots> \<le> x * (1 - u)" using x(1) u by (intro mult_right_mono) simp_all
  also have "\<dots> \<le> y" using y by (simp add: algebra_simps abs_le_iff)
  finally show "l * (1 - u) * z \<le> y" .
  have "y \<le> x * (1 + u)" using y by (simp add: algebra_simps abs_le_iff)
  also have "\<dots> \<le> h * z * (1 + u)" using x(2) u by (intro mult_right_mono) simp_all
  finally show "y \<le> h * (1 + u) * z" by (simp add: algebra_simps)
qed

lemma sum_of_squares_bounds:
  defines "u \<equiv> 1 / 2 ^ 53 :: real"
  shows "(1 - u) ^ (2 * length ws) * sum_sq ws \<le> mag_val (sum_of_squares ws)
    \<and> mag_val (sum_of_squares ws) \<le> (1 + u) ^ (2 * length ws) * sum_sq ws"
proof (induction ws rule: rev_induct)
  case Nil
  show ?case by (simp add: sum_of_squares_def sum_sq_def mag_val_def)
next
  case (snoc w ws)
  let ?a = "mag_val (sum_of_squares ws)" and ?b = "mag_val (f64_sq w)"
  let ?l = "(1 - u) ^ (2 * length ws)" and ?h = "(1 + u) ^ (2 * length ws)"
  have u: "0 \<le> u" "u \<le> 1" by (simp_all add: u_def)
  have pw: "0 \<le> ?l * (1 - u)" using u by simp
  have l1: "?l \<le> 1" using u by (intro power_le_one) simp_all
  have h1: "1 \<le> ?h" using u by (intro one_le_power) simp_all
  have b: "(1 - u) * (f32_val w)\<^sup>2 \<le> ?b" "?b \<le> (1 + u) * (f32_val w)\<^sup>2"
    using f64_sq_error [of w] unfolding abs_le_both u_def by (auto simp: algebra_simps)
  have total: "sum_sq (ws @ [w]) = sum_sq ws + (f32_val w)\<^sup>2" by (simp add: sum_sq_def)
  have "?l * (1 - u) * sum_sq ws \<le> ?l * sum_sq ws"
    using u by (intro mult_right_mono) (simp_all add: mult_left_le)
  moreover have "?l * (1 - u) * (f32_val w)\<^sup>2 \<le> (1 - u) * (f32_val w)\<^sup>2"
    using u l1 by (intro mult_right_mono) (simp_all add: mult_left_le_one_le)
  ultimately have lo: "?l * (1 - u) * sum_sq (ws @ [w]) \<le> ?a + ?b"
    using snoc b(1) by (simp add: total ring_distribs)
  have "?h * sum_sq ws \<le> ?h * (1 + u) * sum_sq ws"
    using u h1 by (intro mult_right_mono) simp_all
  moreover have "(1 + u) * (f32_val w)\<^sup>2 \<le> ?h * (1 + u) * (f32_val w)\<^sup>2"
    using u h1 by (intro mult_right_mono) simp_all
  ultimately have hi: "?a + ?b \<le> ?h * (1 + u) * sum_sq (ws @ [w])"
    using snoc b(2) by (simp add: total ring_distribs)
  have step: "sum_of_squares (ws @ [w]) = f64_add (sum_of_squares ws) (f64_sq w)"
    by (simp add: sum_of_squares_def)
  have "\<bar>mag_val (sum_of_squares (ws @ [w])) - (?a + ?b)\<bar> \<le> (?a + ?b) * u"
    using f64_add_error [of "sum_of_squares ws" "f64_sq w"] by (simp add: step u_def)
  from near_mult [OF u this lo hi pw] show ?case
    by (simp add: mult.assoc mult.left_commute power_add)
qed

lemma one_plus_power: "0 \<le> u \<Longrightarrow> 2 * real n * u \<le> 1 \<Longrightarrow> (1 + u) ^ n \<le> 1 + 2 * real n * u"
proof (induction n)
  case (Suc n)
  have n: "2 * real n * u \<le> 1" using Suc.prems by (simp add: algebra_simps)
  have "(1 + u) ^ Suc n \<le> (1 + u) * (1 + 2 * real n * u)"
    using Suc.IH [OF Suc.prems(1) n] Suc.prems(1) by (simp add: mult_left_mono)
  also have "\<dots> = 1 + 2 * real n * u + u + (2 * real n * u) * u" by (simp add: algebra_simps)
  also have "\<dots> \<le> 1 + 2 * real n * u + u + 1 * u"
    using mult_right_mono [OF n Suc.prems(1)] by linarith
  finally show ?case by (simp add: algebra_simps)
qed simp

text \<open>For up to \<open>2^20\<close> components the computed norm is within \<open>4 * 10^-10\<close> of the exact one.\<close>

lemma norm_error:
  assumes "length ws \<le> 2 ^ 20"
  shows "\<bar>mag_val (f64_sqrt (sum_of_squares ws)) - sqrt (sum_sq ws)\<bar> \<le> sqrt (sum_sq ws) * (4 / 10 ^ 10)"
proof -
  define u :: real where "u = 1 / 2 ^ 53"
  define n where "n = length ws"
  define s r where "s = sqrt (sum_sq ws)" and "r = sqrt (mag_val (sum_of_squares ws))"
  have s: "0 \<le> s" by (simp add: s_def)
  have n: "real n \<le> 2 ^ 20" using assms by (simp add: n_def)
  have nu: "real n * u \<le> 1 / 2 ^ 33" using n by (simp add: u_def)
  have u: "0 \<le> u" "u \<le> 1" by (simp_all add: u_def)
  have sq: "sqrt (x ^ (2 * n) * sum_sq ws) = x ^ n * s" if "0 \<le> x" for x
  proof -
    have "sqrt (x ^ (2 * n)) = x ^ n"
      by (rule real_sqrt_unique) (simp_all add: that mult.commute flip: power_mult)
    then show ?thesis by (simp add: s_def real_sqrt_mult)
  qed
  note bounds = sum_of_squares_bounds [of ws, folded u_def n_def]
  have "sqrt ((1 - u) ^ (2 * n) * sum_sq ws) \<le> r" and "r \<le> sqrt ((1 + u) ^ (2 * n) * sum_sq ws)"
    unfolding r_def using bounds by (auto intro: real_sqrt_le_mono simp only:)
  then have "(1 - u) ^ n * s \<le> r" and "r \<le> (1 + u) ^ n * s"
    using sq [of "1 - u"] sq [of "1 + u"] u by simp_all
  moreover have "1 - 1 / 2 ^ 33 \<le> (1 - u) ^ n"
    using Bernoulli_inequality [of "- u" n] nu u by simp
  moreover have "(1 + u) ^ n \<le> 1 + 1 / 2 ^ 32"
    using one_plus_power [of u n] nu u by simp
  ultimately have rs: "(1 - 1 / 2 ^ 33) * s \<le> r" "r \<le> (1 + 1 / 2 ^ 32) * s"
    using s by (meson mult_right_mono order_trans)+
  have "\<bar>mag_val (f64_sqrt (sum_of_squares ws)) - r\<bar> \<le> r / 2 ^ 52"
    using f64_sqrt_error [of "sum_of_squares ws"] by (simp add: r_def)
  then show ?thesis using rs s unfolding s_def [symmetric] abs_le_both by auto
qed

end
