(* ===== verification/Files.thy ===== *)
theory Files
  imports Ordered_Map Rust_Str
begin

text \<open>
  The part of \<open>std::fs\<close> and \<open>std::path\<close> the program uses. A path is the list of its
  components below the root; a file system is the list of its entries (a regular file with
  its bytes, a directory, a symbolic link with the absolute path it leads to, or another
  node). Every operation is one call that can fail: the world carries a schedule of faults,
  and a scheduled fault makes the next call fail with an I/O error, a write after the number
  of bytes it names. A theorem over all worlds therefore covers a failure of every call.
  Directories on the way to an operation's path are real directories; only
  \<open>canonicalize\<close> and the reads follow symbolic links.
\<close>

type_synonym path = "string list"

datatype node = Regular (node_bytes: bytes) | Directory | Symlink path | Special

datatype io_error = NotFound | AlreadyExists | OtherIo

type_synonym files = "(path \<times> node) list"

definition fs_get :: "files \<Rightarrow> path \<Rightarrow> node option" where
  "fs_get ns p = map_of ns p"

definition fs_del :: "path \<Rightarrow> files \<Rightarrow> files" where
  "fs_del p ns = filter (\<lambda>(q, _). q \<noteq> p) ns"

definition fs_set :: "path \<Rightarrow> node \<Rightarrow> files \<Rightarrow> files" where
  "fs_set p n ns = (p, n) # fs_del p ns"

lemma fs_get_del [simp]: "fs_get (fs_del p ns) = (fs_get ns)(p := None)"
  by (induction ns) (auto simp: fs_get_def fs_del_def)

lemma fs_get_set [simp]: "fs_get (fs_set p n ns) = (fs_get ns)(p \<mapsto> n)"
proof
  fix q
  have "map_of (fs_del p ns) q = fs_get (fs_del p ns) q" by (simp only: fs_get_def)
  also have "\<dots> = ((fs_get ns)(p := None)) q" by simp
  finally show "fs_get (fs_set p n ns) q = ((fs_get ns)(p \<mapsto> n)) q"
    by (cases "q = p") (simp_all add: fs_set_def fs_get_def)
qed

lemma fs_get_Nil [simp]: "fs_get [] p = None"
  by (simp add: fs_get_def)

definition fs_ok :: "files \<Rightarrow> bool" where
  "fs_ok ns \<longleftrightarrow> distinct (map fst ns)"

interpretation tree: ordered_map "[] :: files" fs_get fs_set fs_del length fs_ok
proof unfold_locales
  fix ns :: files and p n
  show "fs_get [] p = None" by simp
  show "fs_get (fs_set p n ns) = (fs_get ns)(p \<mapsto> n)" by simp
  show "fs_get (fs_del p ns) = (fs_get ns)(p := None)" by simp
  show "fs_ok []" by (simp add: fs_ok_def)
  assume ok: "fs_ok ns"
  have "map fst (fs_del p ns) = filter (\<lambda>q. q \<noteq> p) (map fst ns)"
    by (induction ns) (auto simp: fs_del_def)
  with ok show "fs_ok (fs_del p ns)" by (simp add: fs_ok_def)
  with \<open>map fst (fs_del p ns) = _\<close> show "fs_ok (fs_set p n ns)"
    by (simp add: fs_ok_def fs_set_def)
  from ok show "length ns = card (dom (fs_get ns))"
    unfolding fs_ok_def fs_get_def by (metis dom_map_of_conv_image_fst distinct_card length_map
        list.set_map)
qed

subsection \<open>Paths\<close>

text \<open>\<open>Path::parent\<close>, \<open>Path::file_name\<close> and \<open>OsStr::to_str\<close>.\<close>

definition path_parent :: "path \<Rightarrow> path option" where
  "path_parent p = (if p = [] then None else Some (butlast p))"

definition path_file_name :: "path \<Rightarrow> string option" where
  "path_file_name p = (if p = [] \<or> last p = ''..'' then None else Some (last p))"

definition to_str :: "string \<Rightarrow> string option" where
  "to_str s = (if utf8_valid (map of_char s) then Some s else None)"

definition join :: "path \<Rightarrow> string \<Rightarrow> path" where
  "join d name = d @ [name]"

lemma path_parent_join [simp]: "path_parent (join d n) = Some d"
  by (simp add: path_parent_def join_def)

lemma path_file_name_join: "n \<noteq> ''..'' \<Longrightarrow> path_file_name (join d n) = Some n"
  by (simp add: path_file_name_def join_def)

lemma join_inject [simp]: "join d m = join d n \<longleftrightarrow> m = n"
  by (simp add: join_def)

lemma path_decompose:
  "path_parent p = Some d \<Longrightarrow> path_file_name p = Some n \<Longrightarrow> p = join d n"
  by (auto simp: path_parent_def path_file_name_def join_def split: if_splits)

definition dir_at :: "files \<Rightarrow> path \<Rightarrow> bool" where
  "dir_at ns p \<longleftrightarrow> p = [] \<or> fs_get ns p = Some Directory"

text \<open>
  \<open>fs::canonicalize\<close>: follow the components from the root, at most 40 symbolic links, the
  kernel's limit.
\<close>

function walk :: "nat \<Rightarrow> files \<Rightarrow> path \<Rightarrow> path \<Rightarrow> io_error + path" where
  "walk links ns cur [] = Inr cur"
| "walk links ns cur (c # cs) =
     (case fs_get ns (cur @ [c]) of
        None \<Rightarrow> Inl NotFound
      | Some Directory \<Rightarrow> walk links ns (cur @ [c]) cs
      | Some (Symlink t) \<Rightarrow> (case links of 0 \<Rightarrow> Inl OtherIo | Suc k \<Rightarrow> walk k ns [] (t @ cs))
      | Some _ \<Rightarrow> if cs = [] then Inr (cur @ [c]) else Inl OtherIo)"
  by pat_completeness auto
termination
  by (relation "measures [\<lambda>(k, ns, cur, cs). k, \<lambda>(k, ns, cur, cs). length cs]") auto

definition canonicalize :: "files \<Rightarrow> path \<Rightarrow> io_error + path" where
  "canonicalize ns p = walk 40 ns [] p"

text \<open>A canonical path: it exists and every proper prefix is a directory.\<close>

definition dirs_to :: "files \<Rightarrow> path \<Rightarrow> bool" where
  "dirs_to ns p \<longleftrightarrow> (\<forall>k < length p. dir_at ns (take k p))"

definition real_path :: "files \<Rightarrow> path \<Rightarrow> bool" where
  "real_path ns p \<longleftrightarrow> dirs_to ns p
     \<and> (p \<noteq> [] \<longrightarrow> (\<exists>n. fs_get ns p = Some n \<and> (\<forall>t. n \<noteq> Symlink t)))"

lemma walk_real:
  assumes "\<And>k. k < length cs \<Longrightarrow> dir_at ns (cur @ take k cs)"
    and "cs \<noteq> [] \<Longrightarrow> fs_get ns (cur @ cs) = Some n \<and> (\<forall>t. n \<noteq> Symlink t)"
  shows "walk links ns cur cs = Inr (cur @ cs)"
  using assms
proof (induction cs arbitrary: cur)
  case (Cons c cs)
  show ?case
  proof (cases "cs = []")
    case True
    with Cons.prems(2) show ?thesis by (cases n) auto
  next
    case False
    then have "dir_at ns (cur @ [c])" using Cons.prems(1) [of 1] by (cases cs) auto
    then have d: "fs_get ns (cur @ [c]) = Some Directory" by (simp add: dir_at_def)
    have "walk links ns (cur @ [c]) cs = Inr ((cur @ [c]) @ cs)"
    proof (rule Cons.IH)
      show "dir_at ns ((cur @ [c]) @ take k cs)" if "k < length cs" for k
        using Cons.prems(1) [of "Suc k"] that by simp
      show "cs \<noteq> [] \<Longrightarrow> fs_get ns ((cur @ [c]) @ cs) = Some n \<and> (\<forall>t. n \<noteq> Symlink t)"
        using Cons.prems(2) by simp
    qed
    with d show ?thesis by simp
  qed
qed simp

lemma canonicalize_real: "real_path ns p \<Longrightarrow> canonicalize ns p = Inr p"
  unfolding canonicalize_def real_path_def dirs_to_def
  using walk_real [of p ns "[]"] by (cases "p = []") auto

lemma walk_result:
  assumes "walk links ns cur cs = Inr q" and "\<And>k. k \<le> length cur \<Longrightarrow> dir_at ns (take k cur)"
  shows "real_path ns q"
  using assms
proof (induction links ns cur cs rule: walk.induct)
  case (1 links ns cur)
  have "cur \<noteq> [] \<Longrightarrow> fs_get ns cur = Some Directory"
    using 1(2) [of "length cur"] by (simp add: dir_at_def)
  with 1 show ?case by (auto simp: real_path_def dirs_to_def)
next
  case (2 links ns cur c cs)
  have leafc: "real_path ns (cur @ [c])"
    if "fs_get ns (cur @ [c]) = Some n" "\<forall>t. n \<noteq> Symlink t" for n
    using that 2(4) by (auto simp: real_path_def dirs_to_def less_Suc_eq_le)
  show ?case
  proof (cases "fs_get ns (cur @ [c])")
    case None
    with 2(3) show ?thesis by simp
  next
    case (Some n)
    show ?thesis
    proof (cases n)
      case (Regular b)
      with 2(3) Some leafc show ?thesis by (auto split: if_splits)
    next
      case Directory
      show ?thesis
      proof (rule 2(1) [OF Some Directory])
        show "walk links ns (cur @ [c]) cs = Inr q" using 2(3) Some Directory by simp
        fix k assume "k \<le> length (cur @ [c])"
        then show "dir_at ns (take k (cur @ [c]))"
          using 2(4) [of k] Some Directory by (cases "k = Suc (length cur)") (auto simp: dir_at_def)
      qed
    next
      case (Symlink t)
      with 2(3) Some obtain k where "links = Suc k" "walk k ns [] (t @ cs) = Inr q"
        by (auto split: nat.splits)
      with 2(2) [OF Some Symlink] show ?thesis by (simp add: dir_at_def)
    next
      case Special
      with 2(3) Some leafc show ?thesis by (auto split: if_splits)
    qed
  qed
qed

lemma canonicalize_ok: "canonicalize ns p = Inr q \<Longrightarrow> real_path ns q"
  unfolding canonicalize_def
proof (erule walk_result)
  show "dir_at ns (take k [])" for k by (simp add: dir_at_def)
qed

subsection \<open>Calls on the tree of files\<close>

text \<open>
  Each call as a function of the tree: the error it reports, or its result and the new tree.
\<close>

definition lstat_op :: "path \<Rightarrow> files \<Rightarrow> io_error + node \<times> files" where
  "lstat_op p ns =
     (case (if p = [] then Some Directory else fs_get ns p) of
        None \<Rightarrow> Inl NotFound | Some n \<Rightarrow> Inr (n, ns))"

definition stat_op :: "path \<Rightarrow> files \<Rightarrow> io_error + node \<times> files" where
  "stat_op p ns = rbind (canonicalize ns p) (\<lambda>q. lstat_op q ns)"

definition canonicalize_op :: "path \<Rightarrow> files \<Rightarrow> io_error + path \<times> files" where
  "canonicalize_op p ns = rbind (canonicalize ns p) (\<lambda>q. Inr (q, ns))"

definition read_op :: "path \<Rightarrow> files \<Rightarrow> io_error + bytes \<times> files" where
  "read_op p ns =
     rbind (stat_op p ns) (\<lambda>(n, ns').
       case n of Regular b \<Rightarrow> Inr (b, ns') | _ \<Rightarrow> Inl OtherIo)"

definition create_new_op :: "path \<Rightarrow> files \<Rightarrow> io_error + unit \<times> files" where
  "create_new_op p ns =
     (if p = [] \<or> fs_get ns p \<noteq> None then Inl AlreadyExists
      else if \<not> dir_at ns (butlast p) then Inl NotFound
      else Inr ((), fs_set p (Regular []) ns))"

text \<open>\<open>OpenOptions::new().write(true).truncate(true).open\<close>: the file must exist.\<close>

definition truncate_op :: "path \<Rightarrow> files \<Rightarrow> io_error + path \<times> files" where
  "truncate_op p ns =
     rbind (canonicalize ns p) (\<lambda>q.
       case fs_get ns q of
         Some (Regular b) \<Rightarrow> Inr (q, fs_set q (Regular []) ns)
       | _ \<Rightarrow> Inl OtherIo)"

definition append_op :: "path \<Rightarrow> bytes \<Rightarrow> files \<Rightarrow> io_error + unit \<times> files" where
  "append_op p b ns =
     (case fs_get ns p of
        Some (Regular c) \<Rightarrow> Inr ((), fs_set p (Regular (c @ b)) ns)
      | _ \<Rightarrow> Inl OtherIo)"

definition hard_link_op :: "path \<Rightarrow> path \<Rightarrow> files \<Rightarrow> io_error + unit \<times> files" where
  "hard_link_op src dst ns =
     (case fs_get ns src of
        None \<Rightarrow> Inl NotFound
      | Some (Regular b) \<Rightarrow>
          if dst = [] \<or> fs_get ns dst \<noteq> None then Inl AlreadyExists
          else if \<not> dir_at ns (butlast dst) then Inl NotFound
          else Inr ((), fs_set dst (Regular b) ns)
      | Some _ \<Rightarrow> Inl OtherIo)"

definition remove_file_op :: "path \<Rightarrow> files \<Rightarrow> io_error + unit \<times> files" where
  "remove_file_op p ns =
     (case fs_get ns p of
        None \<Rightarrow> Inl NotFound
      | Some Directory \<Rightarrow> Inl OtherIo
      | Some _ \<Rightarrow> Inr ((), fs_del p ns))"

definition has_children :: "files \<Rightarrow> path \<Rightarrow> bool" where
  "has_children ns p \<longleftrightarrow> list_ex (\<lambda>(q, _). strict_prefix p q) ns"

definition fs_move :: "path \<Rightarrow> path \<Rightarrow> files \<Rightarrow> files" where
  "fs_move src dst ns =
     map (\<lambda>(q, n). (if prefix src q then dst @ drop (length src) q else q, n))
       (filter (\<lambda>(q, _). \<not> prefix dst q) ns)"

text \<open>
  \<open>fs::rename\<close> on Unix: a file replaces a file, a directory an absent or empty directory;
  a directory cannot move below itself.
\<close>

definition rename_op :: "path \<Rightarrow> path \<Rightarrow> files \<Rightarrow> io_error + unit \<times> files" where
  "rename_op src dst ns =
     (case fs_get ns src of
        None \<Rightarrow> Inl NotFound
      | Some n \<Rightarrow>
          if dst = [] \<or> \<not> dir_at ns (butlast dst) then Inl NotFound
          else if src = dst then Inr ((), ns)
          else if prefix src dst \<or> prefix dst src then Inl OtherIo
          else (case fs_get ns dst of
              None \<Rightarrow> Inr ((), fs_move src dst ns)
            | Some Directory \<Rightarrow>
                if n = Directory \<and> \<not> has_children ns dst then Inr ((), fs_move src dst ns)
                else Inl OtherIo
            | Some _ \<Rightarrow>
                if n = Directory then Inl OtherIo else Inr ((), fs_move src dst ns)))"

definition create_dir_op :: "path \<Rightarrow> files \<Rightarrow> io_error + unit \<times> files" where
  "create_dir_op p ns =
     (if p = [] \<or> fs_get ns p \<noteq> None then Inl AlreadyExists
      else if \<not> dir_at ns (butlast p) then Inl NotFound
      else Inr ((), fs_set p Directory ns))"

text \<open>\<open>fs::create_dir_all\<close>: make each missing ancestor in turn.\<close>

fun create_dirs_below :: "path \<Rightarrow> path \<Rightarrow> files \<Rightarrow> io_error + unit \<times> files" where
  "create_dirs_below cur [] ns = Inr ((), ns)"
| "create_dirs_below cur (c # cs) ns =
     (case fs_get ns (cur @ [c]) of
        None \<Rightarrow> create_dirs_below (cur @ [c]) cs (fs_set (cur @ [c]) Directory ns)
      | Some Directory \<Rightarrow> create_dirs_below (cur @ [c]) cs ns
      | Some _ \<Rightarrow> Inl AlreadyExists)"

definition create_dir_all_op :: "path \<Rightarrow> files \<Rightarrow> io_error + unit \<times> files" where
  "create_dir_all_op p ns = create_dirs_below [] p ns"

definition remove_dir_op :: "path \<Rightarrow> files \<Rightarrow> io_error + unit \<times> files" where
  "remove_dir_op p ns =
     (if fs_get ns p \<noteq> Some Directory then Inl (if fs_get ns p = None then NotFound else OtherIo)
      else if has_children ns p then Inl OtherIo
      else Inr ((), fs_del p ns))"

definition remove_dir_all_op :: "path \<Rightarrow> files \<Rightarrow> io_error + unit \<times> files" where
  "remove_dir_all_op p ns =
     (if fs_get ns p = None then Inl NotFound
      else Inr ((), filter (\<lambda>(q, _). \<not> prefix p q) ns))"

text \<open>\<open>sync_all\<close> on an open file: nothing to see in the tree.\<close>

definition sync_op :: "files \<Rightarrow> io_error + unit \<times> files" where
  "sync_op ns = Inr ((), ns)"

text \<open>The names in a directory with the node each denotes.\<close>

definition read_dir_op :: "path \<Rightarrow> files \<Rightarrow> io_error + (string \<times> node) list \<times> files" where
  "read_dir_op p ns =
     rbind (canonicalize ns p) (\<lambda>q.
       if \<not> dir_at ns q then Inl OtherIo
       else Inr (map (\<lambda>(r, n). (last r, n))
                   (filter (\<lambda>(r, _). r \<noteq> [] \<and> butlast r = q) ns), ns))"

subsection \<open>The world and its fallible calls\<close>

record world =
  tree :: files
  staging_sequence :: u64
  process_id :: u32
  faults :: "nat option list"

type_synonym ('e, 'a) io = "world \<Rightarrow> ('e + 'a) \<times> world"

definition io_of :: "'e + 'a \<Rightarrow> ('e, 'a) io" where
  "io_of r w = (r, w)"

definition io_bind :: "('e, 'a) io \<Rightarrow> ('a \<Rightarrow> ('e, 'b) io) \<Rightarrow> ('e, 'b) io" where
  "io_bind m f w = (case m w of (Inl e, w') \<Rightarrow> (Inl e, w') | (Inr x, w') \<Rightarrow> f x w')"

text \<open>A call whose result is matched instead of propagated by \<open>?\<close>.\<close>

definition io_match :: "('d, 'a) io \<Rightarrow> ('d + 'a \<Rightarrow> ('e, 'b) io) \<Rightarrow> ('e, 'b) io" where
  "io_match m f w = (case m w of (r, w') \<Rightarrow> f r w')"

definition io_err :: "('d \<Rightarrow> 'e) \<Rightarrow> ('d, 'a) io \<Rightarrow> ('e, 'a) io" where
  "io_err c m w = (case m w of (Inl e, w') \<Rightarrow> (Inl (c e), w') | (Inr x, w') \<Rightarrow> (Inr x, w'))"

definition next_fault :: "world \<Rightarrow> nat option" where
  "next_fault w = (case faults w of [] \<Rightarrow> None | f # _ \<Rightarrow> f)"

definition drop_fault :: "world \<Rightarrow> world" where
  "drop_fault w = w\<lparr>faults := tl (faults w)\<rparr>"

definition syscall :: "(files \<Rightarrow> io_error + 'a \<times> files) \<Rightarrow> (io_error, 'a) io" where
  "syscall op w =
     (case next_fault w of
        Some _ \<Rightarrow> (Inl OtherIo, drop_fault w)
      | None \<Rightarrow> (case op (tree w) of
            Inl e \<Rightarrow> (Inl e, drop_fault w)
          | Inr (x, ns) \<Rightarrow> (Inr x, (drop_fault w)\<lparr>tree := ns\<rparr>)))"

text \<open>A write that fails may have written part of its bytes.\<close>

definition write_all :: "path \<Rightarrow> bytes \<Rightarrow> (io_error, unit) io" where
  "write_all p b w =
     (case next_fault w of
        Some n \<Rightarrow> (Inl OtherIo,
          case append_op p (take n b) (tree w) of
            Inl _ \<Rightarrow> drop_fault w
          | Inr (_, ns) \<Rightarrow> (drop_fault w)\<lparr>tree := ns\<rparr>)
      | None \<Rightarrow> syscall (append_op p b) w)"

text \<open>\<open>AtomicU64::fetch_add(1)\<close> on the sequence of staging names; it wraps.\<close>

definition next_sequence :: "('e, u64) io" where
  "next_sequence w = (Inr (staging_sequence w), w\<lparr>staging_sequence := staging_sequence w + 1\<rparr>)"

lemma io_of_app [simp]: "io_of r w = (r, w)"
  by (simp add: io_of_def)

lemma drop_fault_simps [simp]:
  "tree (drop_fault w) = tree w"
  "staging_sequence (drop_fault w) = staging_sequence w"
  "process_id (drop_fault w) = process_id w"
  by (simp_all add: drop_fault_def)

text \<open>What a call can do: fail and leave the tree, or succeed as its tree function says.\<close>

lemma syscall_cases:
  assumes "syscall op w = (r, w')"
  obtains (err) e where "r = Inl e" and "tree w' = tree w"
    and "next_fault w = None \<Longrightarrow> op (tree w) = Inl e"
  | (ok) x ns where "next_fault w = None" and "op (tree w) = Inr (x, ns)" and "r = Inr x"
    and "tree w' = ns"
  using assms by (auto simp: syscall_def split: option.splits sum.splits)

lemma syscall_nofault:
  "faults w = [] \<Longrightarrow> syscall op w =
     (case op (tree w) of Inl e \<Rightarrow> (Inl e, w) | Inr (x, ns) \<Rightarrow> (Inr x, w\<lparr>tree := ns\<rparr>))"
  by (simp add: syscall_def next_fault_def drop_fault_def split: sum.splits)

lemma write_all_nofault:
  "faults w = [] \<Longrightarrow> write_all p b w = syscall (append_op p b) w"
  by (simp add: write_all_def next_fault_def)

lemma io_bind_cases:
  assumes "io_bind m f w = (r, w')"
  obtains (err) e where "m w = (Inl e, w')" and "r = Inl e"
  | (ok) x w'' where "m w = (Inr x, w'')" and "f x w'' = (r, w')"
  using assms by (auto simp: io_bind_def split: prod.splits sum.splits)

lemma io_match_cases:
  assumes "io_match m f w = (r, w')"
  obtains s w'' where "m w = (s, w'')" and "f s w'' = (r, w')"
  using assms by (auto simp: io_match_def split: prod.splits)

lemma io_err_cases:
  assumes "io_err c m w = (r, w')"
  obtains (err) e where "m w = (Inl e, w')" and "r = Inl (c e)"
  | (ok) x where "m w = (Inr x, w')" and "r = Inr x"
  using assms by (auto simp: io_err_def split: prod.splits sum.splits)

text \<open>Operations that keep a property of the tree whatever fails.\<close>

definition keeps :: "(files \<Rightarrow> bool) \<Rightarrow> ('e, 'a) io \<Rightarrow> bool" where
  "keeps I m \<longleftrightarrow> (\<forall>w. I (tree w) \<longrightarrow> I (tree (snd (m w))))"

named_theorems keeps_intros \<open>composition rules for operations that keep an invariant\<close>

lemma keepsD: "keeps I m \<Longrightarrow> m w = (r, w') \<Longrightarrow> I (tree w) \<Longrightarrow> I (tree w')"
  unfolding keeps_def by (metis snd_conv)

lemma keeps_io_of [keeps_intros]: "keeps I (io_of r)"
  by (simp add: keeps_def)

lemma keeps_next_sequence [keeps_intros]: "keeps I next_sequence"
  by (simp add: keeps_def next_sequence_def)

lemma keeps_bind [keeps_intros]: "keeps I m \<Longrightarrow> (\<And>x. keeps I (f x)) \<Longrightarrow> keeps I (io_bind m f)"
  by (auto simp: keeps_def io_bind_def split: prod.splits sum.splits)

lemma keeps_match [keeps_intros]:
  "keeps I m \<Longrightarrow> (\<And>r. keeps I (f r)) \<Longrightarrow> keeps I (io_match m f)"
  by (auto simp: keeps_def io_match_def split: prod.splits)

lemma keeps_err [keeps_intros]: "keeps I m \<Longrightarrow> keeps I (io_err c m)"
  by (auto simp: keeps_def io_err_def split: prod.splits sum.splits)

lemma keeps_syscall:
  "(\<And>ns x ns'. op ns = Inr (x, ns') \<Longrightarrow> I ns \<Longrightarrow> I ns') \<Longrightarrow> keeps I (syscall op)"
  by (auto simp: keeps_def syscall_def split: option.splits sum.splits prod.splits)

lemma keeps_write_all:
  "(\<And>ns b x ns'. append_op p b ns = Inr (x, ns') \<Longrightarrow> I ns \<Longrightarrow> I ns') \<Longrightarrow> keeps I (write_all p b)"
  by (auto simp: keeps_def write_all_def syscall_def split: option.splits sum.splits prod.splits)

lemma keeps_if [keeps_intros]:
  "(b \<Longrightarrow> keeps I m) \<Longrightarrow> (\<not> b \<Longrightarrow> keeps I m') \<Longrightarrow> keeps I (if b then m else m')"
  by simp

text \<open>Calls that only read.\<close>

definition reads_only :: "(files \<Rightarrow> io_error + 'a \<times> files) \<Rightarrow> bool" where
  "reads_only op \<longleftrightarrow> (\<forall>ns x ns'. op ns = Inr (x, ns') \<longrightarrow> ns' = ns)"

lemma reads_only_ops [simp]:
  "reads_only (lstat_op p)" "reads_only (stat_op p)" "reads_only (read_op p)"
  "reads_only (canonicalize_op p)" "reads_only (read_dir_op p)" "reads_only sync_op"
proof -
  show l: "reads_only (lstat_op p)" for p
    by (auto simp: reads_only_def lstat_op_def split: option.splits if_splits)
  show s: "reads_only (stat_op p)"
    using l by (auto simp: reads_only_def stat_op_def rbind_eq_Inr)
  show "reads_only (read_op p)"
    unfolding reads_only_def
  proof (intro allI impI)
    fix ns x ns'
    assume "read_op p ns = Inr (x, ns')"
    then obtain n m where n: "stat_op p ns = Inr (n, m)"
      and c: "(case n of Regular b \<Rightarrow> Inr (b, m) | _ \<Rightarrow> Inl OtherIo) = Inr (x, ns')"
      by (auto simp: read_op_def rbind_eq_Inr)
    from c have "ns' = m" by (cases n) auto
    with n s show "ns' = ns" by (auto simp: reads_only_def)
  qed
  show "reads_only (canonicalize_op p)" "reads_only (read_dir_op p)" "reads_only sync_op"
    by (auto simp: sync_op_def reads_only_def canonicalize_op_def read_dir_op_def rbind_eq_Inr split: if_splits)
qed

lemma keeps_reads [keeps_intros]: "reads_only op \<Longrightarrow> keeps I (syscall op)"
  by (rule keeps_syscall) (auto simp: reads_only_def)

lemma reads_tree: "reads_only op \<Longrightarrow> syscall op w = (r, w') \<Longrightarrow> tree w' = tree w"
  by (erule syscall_cases) (auto simp: reads_only_def)

lemma fs_get_move:
  assumes "\<not> prefix src dst" and "\<not> prefix dst src"
  shows "fs_get (fs_move src dst ns) q =
     (if prefix dst q then fs_get ns (src @ drop (length dst) q)
      else if prefix src q then None else fs_get ns q)"
  using assms
proof (induction ns)
  case (Cons e ns)
  obtain r n where e: "e = (r, n)" by (cases e)
  have both: "\<not> (prefix dst r \<and> prefix src r)" for r
    using assms prefix_same_cases by blast
  have c: "fs_get (e # ns) = (fs_get ns)(r \<mapsto> n)" by (auto simp: fs_get_def e)
  show ?case
  proof (cases "prefix dst r")
    case True
    then have "fs_move src dst (e # ns) = fs_move src dst ns" by (simp add: fs_move_def e)
    moreover have "r \<noteq> src @ drop (length dst) q" using both [of r] True by (auto simp: prefix_def)
    ultimately show ?thesis using Cons True by (auto simp: c)
  next
    case False
    then have m: "fs_get (fs_move src dst (e # ns)) q =
        (if q = (if prefix src r then dst @ drop (length src) r else r) then Some n
         else fs_get (fs_move src dst ns) q)"
      by (simp add: fs_move_def e fs_get_def)
    show ?thesis
    proof (cases "prefix src r")
      case True
      then obtain t where "r = src @ t" by (auto simp: prefix_def)
      then show ?thesis unfolding m c using Cons both [of q] by (auto simp: prefix_def)
    next
      case nsrc: False
      then have "r \<noteq> src @ drop (length dst) q" by auto
      with nsrc False show ?thesis unfolding m c using Cons by auto
    qed
  qed
qed (simp add: fs_move_def)

lemma hard_link_ok:
  "hard_link_op src dst ns = Inr (u, ns') \<longleftrightarrow>
     (\<exists>b. fs_get ns src = Some (Regular b) \<and> dst \<noteq> [] \<and> fs_get ns dst = None
       \<and> dir_at ns (butlast dst) \<and> ns' = fs_set dst (Regular b) ns)"
  by (auto simp: hard_link_op_def split: option.splits node.splits if_splits)

lemma hard_link_exists:
  "hard_link_op src dst ns = Inl AlreadyExists \<longleftrightarrow>
     (\<exists>b. fs_get ns src = Some (Regular b)) \<and> (dst = [] \<or> fs_get ns dst \<noteq> None)"
  by (auto simp: hard_link_op_def split: option.splits node.splits if_splits)

lemma remove_file_ok:
  "remove_file_op p ns = Inr (u, ns') \<longleftrightarrow>
     (\<exists>n. fs_get ns p = Some n \<and> n \<noteq> Directory \<and> ns' = fs_del p ns)"
  by (auto simp: remove_file_op_def split: option.splits node.splits)

lemma create_dirs_below_ok:
  assumes "create_dirs_below cur cs ns = Inr (u, ns')"
    and "\<And>k. k \<le> length cur \<Longrightarrow> dir_at ns (take k cur)"
  shows "(\<forall>k \<le> length (cur @ cs). dir_at ns' (take k (cur @ cs)))
    \<and> (\<forall>q. \<not> prefix q (cur @ cs) \<longrightarrow> fs_get ns' q = fs_get ns q)"
  using assms
proof (induction cur cs ns rule: create_dirs_below.induct)
  case (2 cur c cs ns)
  let ?p = "cur @ [c]"
  have dirs: "dir_at ns1 (take k ?p)" if "k \<le> length ?p" and "fs_get ns1 ?p = Some Directory"
    and "\<And>q. q \<noteq> ?p \<Longrightarrow> fs_get ns1 q = fs_get ns q" for ns1 k
  proof (cases "k = length ?p")
    case True
    with that show ?thesis by (simp add: dir_at_def)
  next
    case False
    with that(1) have "k \<le> length cur" by simp
    have "take k cur \<noteq> ?p" by (auto dest: arg_cong [where f = length])
    with 2(4) [OF \<open>k \<le> length cur\<close>] that(3) [of "take k cur"] \<open>k \<le> length cur\<close> show ?thesis
      by (auto simp: dir_at_def)
  qed
  show ?case
  proof (cases "fs_get ns ?p")
    case None
    let ?n1 = "fs_set ?p Directory ns"
    have d: "dir_at ?n1 (take k ?p)" if "k \<le> length ?p" for k by (rule dirs [OF that]) simp_all
    from 2(3) None have r: "create_dirs_below ?p cs ?n1 = Inr (u, ns')" by simp
    from 2(1) [OF None r d] show ?thesis by auto
  next
    case (Some n)
    with 2(3) have n: "n = Directory" and r: "create_dirs_below ?p cs ns = Inr (u, ns')"
      by (auto split: node.splits)
    have d: "dir_at ns (take k ?p)" if "k \<le> length ?p" for k
      by (rule dirs [OF that]) (simp_all add: Some n)
    from 2(2) [OF Some n r d] show ?thesis by simp
  qed
qed simp

lemma create_dir_all_ok:
  assumes "create_dir_all_op p ns = Inr (u, ns')"
  shows "\<forall>k \<le> length p. dir_at ns' (take k p)" and "\<not> prefix q p \<Longrightarrow> fs_get ns' q = fs_get ns q"
  using create_dirs_below_ok [of "[]" p ns u ns'] assms
  by (simp_all add: create_dir_all_op_def dir_at_def)

lemma append_ok: "append_op p b ns = Inr (u, ns') \<longleftrightarrow>
    (\<exists>c. fs_get ns p = Some (Regular c) \<and> ns' = fs_set p (Regular (c @ b)) ns)"
  by (auto simp: append_op_def split: option.splits node.splits)

lemma create_dirs_below_frame:
  "create_dirs_below cur cs ns = Inr (u, ns') \<Longrightarrow>
   fs_get ns' q = fs_get ns q \<or> fs_get ns q = None \<and> fs_get ns' q = Some Directory"
proof (induction cur cs ns rule: create_dirs_below.induct)
  case (2 cur c cs ns)
  show ?case
  proof (cases "fs_get ns (cur @ [c])")
    case None
    with 2(1) 2(3) show ?thesis by (auto split: if_splits)
  next
    case (Some n)
    with 2(2) 2(3) show ?thesis by (auto split: node.splits)
  qed
qed simp

lemma create_dir_all_frame:
  "create_dir_all_op p ns = Inr (u, ns') \<Longrightarrow>
   fs_get ns' q = fs_get ns q \<or> fs_get ns q = None \<and> fs_get ns' q = Some Directory"
  unfolding create_dir_all_op_def by (rule create_dirs_below_frame)

lemma create_new_ok:
  "create_new_op p ns = Inr (u, ns') \<longleftrightarrow>
     p \<noteq> [] \<and> fs_get ns p = None \<and> dir_at ns (butlast p) \<and> ns' = fs_set p (Regular []) ns"
  by (auto simp: create_new_op_def)

text \<open>Renaming a regular file onto a name that is free or names something that is not a directory.\<close>

lemma rename_file_ok:
  assumes "rename_op src dst ns = Inr (u, ns')" and "fs_get ns src = Some (Regular b)" and "src \<noteq> dst"
  shows "ns' = fs_move src dst ns \<and> \<not> prefix src dst \<and> \<not> prefix dst src \<and> fs_get ns dst \<noteq> Some Directory"
  using assms by (auto simp: rename_op_def split: if_splits option.splits node.splits)

end
