(* ===== verification/Profile.thy ===== *)
theory Profile
  imports Component Contracts Floats Files
begin

text \<open>
  The embedding profile of \<open>crates/rag-embedding/src/lib.rs\<close>: errors and their retry class,
  the loopback endpoint policy, the profile and its validation, the two JSON forms it is read
  from, composed queries, and the checks and the reduction of a model's vector. An \<open>f32\<close> is
  its bit pattern (theory \<open>Floats\<close>). The URL parser and \<open>serde_json\<close> are outside the
  repository: they are the functions of \<open>embedding_externals\<close>.
\<close>

subsection \<open>Errors\<close>

text \<open>
  An HTTP error is what the retry decision reads of it: a timeout, a failed connection, the
  status if a response arrived.
\<close>

datatype embedding_error =
    Cache
  | Http bool bool "nat option"
  | Io io_error
  | Json
  | Task string
  | Temporary string
  | Invalid string

datatype retry_class = RetryTemporary | RetryPermanent

definition status_retries :: "nat \<Rightarrow> bool" where
  "status_retries code \<longleftrightarrow> code \<in> {408, 429} \<or> (500 \<le> code \<and> code \<le> 599)"

definition retry_class_of :: "embedding_error \<Rightarrow> retry_class" where
  "retry_class_of e =
     (case e of
        Http timeout connect status \<Rightarrow>
          (if timeout \<or> connect \<or> (case status of None \<Rightarrow> False | Some c \<Rightarrow> status_retries c)
           then RetryTemporary else RetryPermanent)
      | Temporary _ \<Rightarrow> RetryTemporary
      | _ \<Rightarrow> RetryPermanent)"

subsection \<open>External functions\<close>

datatype url_host = Domain string | Ipv4 "u8 list" | Ipv6 "128 word"

record parsed_url =
  url_scheme :: string
  url_username :: string
  url_password :: "string option"
  url_query :: "string option"
  url_fragment :: "string option"
  url_path :: string
  url_host :: "url_host option"
  url_port_or_default :: "u16 option"

record embedding_externals = externals +
  json_from_slice :: "bytes \<Rightarrow> json option"
  json_to_vec :: "json \<Rightarrow> bytes"
  url_parse :: "string \<Rightarrow> parsed_url option"
  sha256_raw :: "bytes \<Rightarrow> bytes"

subsection \<open>The loopback endpoint\<close>

text \<open>\<open>str::rsplit_once\<close> with a character, and \<open>str::parse::<u16>\<close> of decimal digits.\<close>

definition str_rsplit_once :: "char \<Rightarrow> string \<Rightarrow> (string \<times> string) option" where
  "str_rsplit_once d s =
     map_option (\<lambda>(a, b). (rev b, rev a)) (str_split_once [d] (rev s))"

definition parse_u16 :: "string \<Rightarrow> u16 option" where
  "parse_u16 s = try_from_nat (digits_value s)"

definition port_text_of :: "string \<Rightarrow> string option" where
  "port_text_of authority =
     (if starts_with ''['' authority
      then (case str_split_once '']:'' authority of
              None \<Rightarrow> None
            | Some (_, port) \<Rightarrow>
                if authority \<noteq> [] \<and> is_ascii_digit (last authority) then Some port else None)
      else map_option snd (str_rsplit_once (CHR '':'') authority))"

definition authority_of :: "string \<Rightarrow> string option" where
  "authority_of endpoint =
     (if starts_with ''http://'' endpoint
      then Some (hd (str_split (CHR ''/'') (drop 7 endpoint))) else None)"

definition explicit_port :: "string \<Rightarrow> parsed_url \<Rightarrow> embedding_error + u16" where
  "explicit_port endpoint parsed =
     rbind (ok_or (Invalid ''embedding endpoint port'') (authority_of endpoint)) (\<lambda>authority.
     rbind (ok_or (Invalid ''embedding endpoint port'') (port_text_of authority)) (\<lambda>port_text.
     if port_text = [] \<or> \<not> list_all is_ascii_digit port_text
     then Inl (Invalid ''embedding endpoint port'')
     else case parse_u16 port_text of
         None \<Rightarrow> Inl (Invalid ''embedding endpoint port'')
       | Some port \<Rightarrow>
           if port = 0 then Inl (Invalid ''embedding endpoint port'')
           else if url_port_or_default parsed \<noteq> Some port
           then Inl (Invalid ''embedding endpoint port'')
           else Inr port))"

definition loopback_host :: "url_host option \<Rightarrow> string option" where
  "loopback_host h =
     (case h of
        Some (Domain d) \<Rightarrow> if d = ''localhost'' then Some ''localhost'' else None
      | Some (Ipv4 octets) \<Rightarrow> if octets = [127, 0, 0, 1] then Some ''127.0.0.1'' else None
      | Some (Ipv6 address) \<Rightarrow> if address = 1 then Some ''[::1]'' else None
      | None \<Rightarrow> None)"

definition normalize_loopback_http_endpoint ::
    "embedding_externals \<Rightarrow> string \<Rightarrow> embedding_error + string" where
  "normalize_loopback_http_endpoint E endpoint =
     rbind (ok_or (Invalid ''embedding endpoint URL'') (url_parse E endpoint)) (\<lambda>parsed.
     if url_scheme parsed \<noteq> ''http'' \<or> url_username parsed \<noteq> []
        \<or> url_password parsed \<noteq> None \<or> url_query parsed \<noteq> None
        \<or> url_fragment parsed \<noteq> None \<or> url_path parsed \<noteq> ''/''
     then Inl (Invalid ''embedding endpoint policy'')
     else rbind (explicit_port endpoint parsed) (\<lambda>port.
       rbind (ok_or (Invalid ''embedding endpoint host'') (loopback_host (url_host parsed)))
         (\<lambda>host. Inr (''http://'' @ host @ '':'' @ nat_digits (unat port)))))"

subsection \<open>The profile\<close>

record vector_derivation =
  vd_parent_embedding_profile_sha256 :: string
  vd_parent_dimensions :: u32
  vd_transformation :: string

record embedding_profile =
  ep_id :: string
  ep_version :: string
  ep_sha256 :: string
  ep_model :: string
  ep_dimensions :: u32
  ep_normalization :: string
  ep_vector_derivation :: "vector_derivation option"
  ep_query_instruction :: "string option"
  ep_query_composition :: "string option"

definition PREFIX_L2_NORMALIZE_V1 :: string where
  "PREFIX_L2_NORMALIZE_V1 = ''prefix_then_l2_normalize_v1''"

definition MAX_QUERY_BYTES :: nat where "MAX_QUERY_BYTES = 8192"
definition MAX_QUERY_INSTRUCTION_BYTES :: nat where "MAX_QUERY_INSTRUCTION_BYTES = 8192"
definition MAX_QUERY_COMPOSITION_BYTES :: nat where "MAX_QUERY_COMPOSITION_BYTES = 1024"
definition MAX_COMPOSED_QUERY_BYTES :: nat where "MAX_COMPOSED_QUERY_BYTES = 16384"

definition QUERY_TOKEN :: string where "QUERY_TOKEN = ''{query}''"
definition INSTRUCTION_TOKEN :: string where "INSTRUCTION_TOKEN = ''{query_instruction}''"

definition canonical_sha256 :: "string \<Rightarrow> bool" where
  "canonical_sha256 s \<longleftrightarrow> length s = 64 \<and> list_all is_lower_hex s"

definition derivation_invalid :: "embedding_profile \<Rightarrow> vector_derivation \<Rightarrow> bool" where
  "derivation_invalid p d \<longleftrightarrow>
     vd_transformation d \<noteq> PREFIX_L2_NORMALIZE_V1 \<or> vd_parent_dimensions d \<noteq> 4096
     \<or> ep_dimensions p \<notin> {1024, 2048} \<or> ep_normalization p \<noteq> ''l2''
     \<or> \<not> canonical_sha256 (vd_parent_embedding_profile_sha256 d)"

text \<open>
  \<open>checked_sub\<close> fails when the composition is shorter than the two placeholders; the
  additions are of lengths below the limits just checked.
\<close>

definition validate_query_composition :: "string \<Rightarrow> string \<Rightarrow> embedding_error + unit" where
  "validate_query_composition instruction composition =
     (if length instruction > MAX_QUERY_INSTRUCTION_BYTES
         \<or> length composition > MAX_QUERY_COMPOSITION_BYTES
         \<or> str_matches QUERY_TOKEN composition \<noteq> 1
         \<or> str_matches INSTRUCTION_TOKEN composition \<noteq> 1
      then Inl (Invalid ''query composition contract'')
      else let remaining = str_replace QUERY_TOKEN [] (str_replace INSTRUCTION_TOKEN [] composition)
        in if str_contains (CHR ''{'') remaining \<or> str_contains (CHR ''}'') remaining
        then Inl (Invalid ''query composition placeholder'')
        else if length composition < length INSTRUCTION_TOKEN + length QUERY_TOKEN
        then Inl (Invalid ''query composition size'')
        else if length composition - (length INSTRUCTION_TOKEN + length QUERY_TOKEN)
                + length instruction + MAX_QUERY_BYTES > MAX_COMPOSED_QUERY_BYTES
        then Inl (Invalid ''query composition expansion'')
        else Inr ())"

definition validate_embedding_profile :: "embedding_profile \<Rightarrow> embedding_error + unit" where
  "validate_embedding_profile p =
     (if ep_id p = [] \<or> ep_version p = [] \<or> ep_model p = [] \<or> ep_dimensions p = 0
         \<or> ep_normalization p \<notin> {''l2'', ''none''}
         \<or> \<not> canonical_sha256 (ep_sha256 p)
         \<or> (ep_query_instruction p = None) \<noteq> (ep_query_composition p = None)
      then Inl (Invalid ''embedding profile fields'')
      else if (case ep_vector_derivation p of None \<Rightarrow> False | Some d \<Rightarrow> derivation_invalid p d)
      then Inl (Invalid ''vector derivation'')
      else case (ep_query_instruction p, ep_query_composition p) of
          (None, None) \<Rightarrow> Inr ()
        | (Some instruction, Some composition) \<Rightarrow>
            validate_query_composition instruction composition
        | _ \<Rightarrow> Inl (Invalid ''embedding profile fields''))"

subsection \<open>Reading a profile\<close>

definition json_get :: "string \<Rightarrow> json \<Rightarrow> json option" where
  "json_get k v = (case v of JObj fs \<Rightarrow> map_of fs k | _ \<Rightarrow> None)"

definition as_str :: "json \<Rightarrow> string option" where
  "as_str v = (case v of JStr s \<Rightarrow> Some s | _ \<Rightarrow> None)"

definition as_u64 :: "json \<Rightarrow> u64 option" where
  "as_u64 v = (case v of JNum n \<Rightarrow> try_from_nat n | _ \<Rightarrow> None)"

definition as_u32 :: "json \<Rightarrow> u32 option" where
  "as_u32 v = (case v of JNum n \<Rightarrow> try_from_nat n | _ \<Rightarrow> None)"

definition as_object :: "json \<Rightarrow> json option" where
  "as_object v = (case v of JObj _ \<Rightarrow> Some v | _ \<Rightarrow> None)"

text \<open>
  A field of a derived \<open>Deserialize\<close>: present with the right type, or for an \<open>Option\<close>
  absent or null.
\<close>

definition field :: "(json \<Rightarrow> 'a option) \<Rightarrow> string \<Rightarrow> json \<Rightarrow> 'a option" where
  "field get k v = Option.bind (json_get k v) get"

definition opt_field :: "(json \<Rightarrow> 'a option) \<Rightarrow> string \<Rightarrow> json \<Rightarrow> 'a option option" where
  "opt_field get k v =
     (case json_get k v of
        None \<Rightarrow> Some None
      | Some JNull \<Rightarrow> Some None
      | Some x \<Rightarrow> map_option Some (get x))"

definition known_fields :: "string list \<Rightarrow> json \<Rightarrow> bool" where
  "known_fields ks v =
     (case v of JObj fs \<Rightarrow> list_all (\<lambda>(k, _). k \<in> set ks) fs | _ \<Rightarrow> False)"

definition derivation_from_json :: "json \<Rightarrow> vector_derivation option" where
  "derivation_from_json v =
     (if \<not> known_fields
          [''parent_embedding_profile_sha256'', ''parent_dimensions'', ''transformation''] v
      then None
      else case (field as_str ''parent_embedding_profile_sha256'' v,
                 field as_u32 ''parent_dimensions'' v, field as_str ''transformation'' v) of
          (Some s, Some d, Some t) \<Rightarrow>
            Some \<lparr>vd_parent_embedding_profile_sha256 = s, vd_parent_dimensions = d,
                  vd_transformation = t\<rparr>
        | _ \<Rightarrow> None)"

definition profile_fields :: "string list" where
  "profile_fields = [''id'', ''version'', ''sha256'', ''model'', ''dimensions'', ''normalization'',
     ''vector_derivation'', ''query_instruction'', ''query_composition'']"

definition profile_from_json :: "json \<Rightarrow> embedding_profile option" where
  "profile_from_json v =
     (if \<not> known_fields profile_fields v then None
      else case (field as_str ''id'' v, field as_str ''version'' v, field as_str ''sha256'' v,
                 field as_str ''model'' v, field as_u32 ''dimensions'' v,
                 field as_str ''normalization'' v,
                 opt_field derivation_from_json ''vector_derivation'' v,
                 opt_field as_str ''query_instruction'' v,
                 opt_field as_str ''query_composition'' v) of
          (Some i, Some ver, Some s, Some m, Some d, Some n, Some vd, Some qi, Some qc) \<Rightarrow>
            Some \<lparr>ep_id = i, ep_version = ver, ep_sha256 = s, ep_model = m, ep_dimensions = d,
                  ep_normalization = n, ep_vector_derivation = vd, ep_query_instruction = qi,
                  ep_query_composition = qc\<rparr>
        | _ \<Rightarrow> None)"

subsection \<open>Composed queries\<close>

text \<open>Slices by byte offset: \<open>&s[..i]\<close>, \<open>&s[i..j]\<close>, \<open>&s[i..]\<close>.\<close>

definition splice_two ::
    "string \<Rightarrow> nat \<Rightarrow> nat \<Rightarrow> string \<Rightarrow> nat \<Rightarrow> nat \<Rightarrow> string \<Rightarrow> string" where
  "splice_two s i il first j jl second =
     take i s @ first @ take (j - (i + il)) (drop (i + il) s) @ second @ drop (j + jl) s"

definition try_compose_query :: "embedding_profile \<Rightarrow> string \<Rightarrow> embedding_error + string" where
  "try_compose_query p query =
     rbind (validate_embedding_profile p) (\<lambda>_.
     if query = [] \<or> length query > MAX_QUERY_BYTES then Inl (Invalid ''query length'')
     else case (ep_query_instruction p, ep_query_composition p) of
         (Some instruction, Some composition) \<Rightarrow>
           rbind (ok_or (Invalid ''query composition contract'')
             (str_find INSTRUCTION_TOKEN composition)) (\<lambda>instruction_at.
           rbind (ok_or (Invalid ''query composition contract'')
             (str_find QUERY_TOKEN composition)) (\<lambda>query_at.
           let value =
             (if instruction_at < query_at
              then splice_two composition instruction_at (length INSTRUCTION_TOKEN) instruction
                     query_at (length QUERY_TOKEN) query
              else splice_two composition query_at (length QUERY_TOKEN) query
                     instruction_at (length INSTRUCTION_TOKEN) instruction)
           in if length value > MAX_COMPOSED_QUERY_BYTES
              then Inl (Invalid ''composed query length'') else Inr value))
       | (None, None) \<Rightarrow> Inr query
       | _ \<Rightarrow> Inl (Invalid ''embedding profile fields''))"

text \<open>The text that results when each placeholder is replaced where it stands.\<close>

definition composed :: "string \<Rightarrow> string \<Rightarrow> string \<Rightarrow> string \<Rightarrow> bool" where
  "composed composition instruction query out \<longleftrightarrow>
     (\<exists>a b c. (composition = a @ INSTRUCTION_TOKEN @ b @ QUERY_TOKEN @ c
               \<and> out = a @ instruction @ b @ query @ c)
            \<or> (composition = a @ QUERY_TOKEN @ b @ INSTRUCTION_TOKEN @ c
               \<and> out = a @ query @ b @ instruction @ c))"

text \<open>
  Two placeholders that each start with the only brace they open cannot overlap, so the
  earlier one ends before the later one starts.
\<close>

lemma later_token:
  assumes s: "s = a @ p @ b" and t: "s = c @ q @ d" and lt: "length a < length c"
    and p: "hd q \<notin> set (tl p)" "p \<noteq> []" and q: "q \<noteq> []"
  obtains m where "c = a @ p @ m" and "b = m @ q @ d"
proof -
  have eq: "a @ p @ b = c @ q @ d" using s t by simp
  then obtain m where "(a = c @ m \<and> m @ p @ b = q @ d) \<or> (a @ m = c \<and> p @ b = m @ q @ d)"
    unfolding append_eq_append_conv2 by blast
  with lt have m: "c = a @ m" "p @ b = m @ q @ d" and mne: "m \<noteq> []" by auto
  have "length p \<le> length m"
  proof (rule ccontr)
    assume "\<not> length p \<le> length m"
    moreover obtain r where "(p = m @ r \<and> r @ b = q @ d) \<or> (p @ r = m \<and> b = r @ q @ d)"
      using m(2) unfolding append_eq_append_conv2 by blast
    ultimately have r: "p = m @ r" "r @ b = q @ d" "r \<noteq> []" by auto
    then have "hd q = hd r" using q by (metis hd_append2)
    moreover have "hd r \<in> set (tl p)" using r mne by (cases m) auto
    ultimately show False using p(1) by simp
  qed
  moreover obtain n where "(p = m @ n \<and> n @ b = q @ d) \<or> (p @ n = m \<and> b = n @ q @ d)"
    using m(2) unfolding append_eq_append_conv2 by blast
  ultimately have "m = p @ n" "b = n @ q @ d" by auto
  with m(1) that [of n] show ?thesis by simp
qed

lemma splice_two_parts:
  assumes "s = a @ p @ m @ q @ d"
  shows "splice_two s (length a) (length p) x (length (a @ p @ m)) (length q) y = a @ x @ m @ y @ d"
  by (simp add: splice_two_def assms)

lemma tokens_disjoint:
  "hd QUERY_TOKEN \<notin> set (tl INSTRUCTION_TOKEN)" "hd INSTRUCTION_TOKEN \<notin> set (tl QUERY_TOKEN)"
  "INSTRUCTION_TOKEN \<noteq> []" "QUERY_TOKEN \<noteq> []"
  by (simp_all add: QUERY_TOKEN_def INSTRUCTION_TOKEN_def)

lemma str_find_once:
  assumes "str_matches pat s = 1"
  obtains a b where "str_find pat s = Some (length a)" and "s = a @ pat @ b"
proof -
  from str_matches_1 [OF assms] obtain a b where "str_split_once pat s = Some (a, b)"
    and "s = a @ pat @ b" by metis
  then show thesis by (intro that [of a b]) (simp_all add: str_find_def)
qed

lemma same_position_tokens:
  "a @ INSTRUCTION_TOKEN @ b \<noteq> c @ QUERY_TOKEN @ d" if "length a = length c"
  using that by (auto simp: QUERY_TOKEN_def INSTRUCTION_TOKEN_def)

lemma compose_value:
  assumes i: "str_find INSTRUCTION_TOKEN s = Some (length a)" "s = a @ INSTRUCTION_TOKEN @ b"
    and q: "str_find QUERY_TOKEN s = Some (length c)" "s = c @ QUERY_TOKEN @ d"
  shows "composed s x y
    (if length a < length c
     then splice_two s (length a) (length INSTRUCTION_TOKEN) x (length c) (length QUERY_TOKEN) y
     else splice_two s (length c) (length QUERY_TOKEN) y (length a) (length INSTRUCTION_TOKEN) x)"
proof (cases "length a < length c")
  case True
  from later_token [OF i(2) q(2) True tokens_disjoint(1,3,4)]
  obtain m where c: "c = a @ INSTRUCTION_TOKEN @ m" and "b = m @ QUERY_TOKEN @ d" .
  then have s: "s = a @ INSTRUCTION_TOKEN @ m @ QUERY_TOKEN @ d" using i(2) by simp
  from splice_two_parts [OF s, of x y] True show ?thesis
    unfolding composed_def c by (simp only: if_True) (use s in blast)
next
  case False
  have "length a \<noteq> length c" using same_position_tokens i(2) q(2) by metis
  with False have lt: "length c < length a" by simp
  from later_token [OF q(2) i(2) lt tokens_disjoint(2,4,3)]
  obtain m where a: "a = c @ QUERY_TOKEN @ m" and "d = m @ INSTRUCTION_TOKEN @ b" .
  then have s: "s = c @ QUERY_TOKEN @ m @ INSTRUCTION_TOKEN @ b" using q(2) by simp
  from splice_two_parts [OF s, of y x] False show ?thesis
    unfolding composed_def a by (simp only: if_False) (use s in blast)
qed

lemma composed_length:
  "composed s x y out \<Longrightarrow>
     length out + length INSTRUCTION_TOKEN + length QUERY_TOKEN = length s + length x + length y"
  by (auto simp: composed_def)

lemma validate_query_composition_ok:
  "validate_query_composition i s = Inr u \<Longrightarrow>
     str_matches QUERY_TOKEN s = 1 \<and> str_matches INSTRUCTION_TOKEN s = 1
     \<and> length s - (length INSTRUCTION_TOKEN + length QUERY_TOKEN) + length i + MAX_QUERY_BYTES
         \<le> MAX_COMPOSED_QUERY_BYTES"
  by (auto simp: validate_query_composition_def Let_def split: if_splits)

text \<open>
  C25: a validated profile composes every non-empty query within the query limit: composing
  never fails, and the text is the composition with each placeholder replaced where it
  stands, within the limit on composed queries; a profile without a composition passes the
  query through.
\<close>

theorem compose_query_total:
  assumes valid: "validate_embedding_profile p = Inr ()"
    and query: "query \<noteq> []" "length query \<le> MAX_QUERY_BYTES"
  shows "\<exists>out. try_compose_query p query = Inr out \<and> length out \<le> MAX_COMPOSED_QUERY_BYTES
    \<and> (case (ep_query_instruction p, ep_query_composition p) of
         (Some i, Some s) \<Rightarrow> composed s i query out
       | _ \<Rightarrow> out = query)"
proof (cases "ep_query_instruction p")
  case None
  with valid have "ep_query_composition p = None"
    by (auto simp: validate_embedding_profile_def split: if_splits)
  with None valid query show ?thesis
    by (simp add: try_compose_query_def MAX_QUERY_BYTES_def MAX_COMPOSED_QUERY_BYTES_def)
next
  case (Some i)
  with valid obtain s where s: "ep_query_composition p = Some s"
    and v: "validate_query_composition i s = Inr ()"
    by (auto simp: validate_embedding_profile_def split: if_splits option.splits)
  note c = validate_query_composition_ok [OF v]
  obtain a b where ia: "str_find INSTRUCTION_TOKEN s = Some (length a)"
      "s = a @ INSTRUCTION_TOKEN @ b"
    using str_find_once c by blast
  obtain e d where qa: "str_find QUERY_TOKEN s = Some (length e)" "s = e @ QUERY_TOKEN @ d"
    using str_find_once c by blast
  define out where "out =
    (if length a < length e
     then splice_two s (length a) (length INSTRUCTION_TOKEN) i (length e) (length QUERY_TOKEN) query
     else splice_two s (length e) (length QUERY_TOKEN) query (length a) (length INSTRUCTION_TOKEN) i)"
  have comp: "composed s i query out" unfolding out_def by (rule compose_value [OF ia qa])
  with c query(2) have len: "length out \<le> MAX_COMPOSED_QUERY_BYTES"
    using composed_length [OF comp] by linarith
  have "try_compose_query p query = Inr out"
    using valid query Some s ia(1) qa(1) len
    by (simp add: try_compose_query_def Let_def out_def)
  with comp len Some s show ?thesis by simp
qed

subsection \<open>The endpoint a client may use\<close>

lemma str_split_head: "\<exists>rest. s = hd (str_split d s) @ rest"
proof (induction d s rule: str_split.induct)
  case (2 d c cs)
  then show ?case by (auto split: list.splits)
qed simp

lemma port_text_suffix:
  assumes "port_text_of authority = Some port"
  obtains pre where "authority = pre @ CHR '':'' # port"
proof (cases "starts_with ''['' authority")
  case True
  with assms obtain a where "str_split_once '']:'' authority = Some (a, port)"
    by (auto simp: port_text_of_def split: option.splits prod.splits if_splits)
  from str_split_once_Some [OF this] that [of "a @ '']''"] show ?thesis by simp
next
  case False
  with assms obtain a b where r: "str_split_once '':'' (rev authority) = Some (a, b)" and "port = rev a"
    by (auto simp: port_text_of_def str_rsplit_once_def)
  from str_split_once_Some [OF r] have "authority = rev (a @ '':'' @ b)"
    by (metis rev_rev_ident)
  with \<open>port = rev a\<close> that [of "rev b"] show ?thesis by simp
qed

lemma explicit_port_ok:
  assumes "explicit_port endpoint u = Inr port"
  shows "\<exists>pre digits rest. endpoint = ''http://'' @ pre @ '':'' @ digits @ rest
    \<and> digits \<noteq> [] \<and> list_all is_ascii_digit digits \<and> digits_value digits = unat port
    \<and> port \<noteq> 0 \<and> url_port_or_default u = Some port"
proof -
  from assms obtain authority digits where a: "authority_of endpoint = Some authority"
    and d: "port_text_of authority = Some digits" "digits \<noteq> []" "list_all is_ascii_digit digits"
    and p: "parse_u16 digits = Some port" "port \<noteq> 0" "url_port_or_default u = Some port"
    by (auto simp: explicit_port_def rbind_eq_Inr ok_or_eq_Inr if_Inl_eq_Inr split: option.splits
        if_splits)
  from a have "starts_with ''http://'' endpoint"
    and auth: "authority = hd (str_split (CHR ''/'') (drop 7 endpoint))"
    by (auto simp: authority_of_def split: if_splits)
  then have e: "endpoint = ''http://'' @ drop 7 endpoint"
    by (auto simp: starts_with_def prefix_def)
  obtain rest where rest: "drop 7 endpoint = authority @ rest"
    using str_split_head auth by metis
  obtain pre where "authority = pre @ CHR '':'' # digits"
    using port_text_suffix [OF d(1)] .
  with e rest have "endpoint = ''http://'' @ pre @ '':'' @ digits @ rest" by simp
  moreover have "digits_value digits = unat port"
    using p(1) by (simp add: parse_u16_def try_from_nat_unat)
  ultimately show ?thesis using d(2,3) p(2,3) by blast
qed

text \<open>
  The only endpoints that pass are plain HTTP URLs of the local machine without
  credentials, query or fragment, whose text spells out a non-zero port; the client is given
  the canonical URL of that host and that port.
\<close>

theorem loopback_endpoint_only:
  assumes "normalize_loopback_http_endpoint E endpoint = Inr out"
  shows "\<exists>u host port pre digits rest. url_parse E endpoint = Some u
    \<and> loopback_host (url_host u) = Some host
    \<and> host \<in> {''localhost'', ''127.0.0.1'', ''[::1]''}
    \<and> url_scheme u = ''http'' \<and> url_username u = [] \<and> url_password u = None
    \<and> url_query u = None \<and> url_fragment u = None
    \<and> endpoint = ''http://'' @ pre @ '':'' @ digits @ rest
    \<and> digits_value digits = unat port \<and> port \<noteq> 0 \<and> url_port_or_default u = Some port
    \<and> out = ''http://'' @ host @ '':'' @ nat_digits (unat port)"
proof -
  from assms obtain u host port where u: "url_parse E endpoint = Some u"
    "url_scheme u = ''http''" "url_username u = []" "url_password u = None" "url_query u = None"
    "url_fragment u = None" and h: "loopback_host (url_host u) = Some host"
    and p: "explicit_port endpoint u = Inr port"
    and out: "out = ''http://'' @ host @ '':'' @ nat_digits (unat port)"
    by (auto simp: normalize_loopback_http_endpoint_def rbind_eq_Inr ok_or_eq_Inr if_Inl_eq_Inr)
  from h have "host \<in> {''localhost'', ''127.0.0.1'', ''[::1]''}"
    by (auto simp: loopback_host_def split: option.splits url_host.splits if_splits)
  with u h out explicit_port_ok [OF p] show ?thesis by blast
qed

definition example_externals :: embedding_externals where
  "example_externals =
     \<lparr>sha256_hex = (\<lambda>b. replicate 64 (CHR ''a'')), jcs_bytes = (\<lambda>v. Some []),
      json_from_str = (\<lambda>s. None), json_from_slice = (\<lambda>b. None), json_to_vec = (\<lambda>v. []),
      url_parse = (\<lambda>s.
        if s = ''http://127.0.0.1:80''
        then Some \<lparr>url_scheme = ''http'', url_username = [], url_password = None,
                   url_query = None, url_fragment = None, url_path = ''/'',
                   url_host = Some (Ipv4 [127, 0, 0, 1]), url_port_or_default = Some 80\<rparr>
        else None), sha256_raw = (\<lambda>b. replicate 32 0)\<rparr>"

lemma loopback_endpoint_only_witness:
  "\<exists>u port. url_parse example_externals ''http://127.0.0.1:80'' = Some u
     \<and> url_port_or_default u = Some port \<and> port \<noteq> 0"
proof -
  have "normalize_loopback_http_endpoint example_externals ''http://127.0.0.1:80'' =
      Inr ''http://127.0.0.1:80''"
    by (simp add: normalize_loopback_http_endpoint_def example_externals_def explicit_port_def
        authority_of_def starts_with_def port_text_of_def str_rsplit_once_def is_ascii_digit_def
        parse_u16_def digits_value_def try_from_nat_def loopback_host_def nat_digits.simps
        char_of_def bit_iff_odd)
  from loopback_endpoint_only [OF this] show ?thesis by blast
qed

subsection \<open>A placeholder inside another\<close>

text \<open>
  The check for stray braces first removes the instruction placeholder, so that text around
  it can join into a second query placeholder, which is then removed too: this composition is
  accepted, and its composed queries keep the braces.
\<close>

definition nested_composition :: string where
  "nested_composition = ''{query}{que{query_instruction}ry}''"

lemma nested_placeholder_accepted:
  "validate_query_composition ''find'' nested_composition = Inr ()"
  "composed nested_composition ''find'' ''who'' ''who{quefindry}''"
proof -
  show "validate_query_composition ''find'' nested_composition = Inr ()"
    by (simp add: nested_composition_def validate_query_composition_def QUERY_TOKEN_def
        INSTRUCTION_TOKEN_def str_matches.simps str_replace.simps Let_def str_contains_def
        MAX_QUERY_BYTES_def MAX_QUERY_INSTRUCTION_BYTES_def MAX_QUERY_COMPOSITION_BYTES_def
        MAX_COMPOSED_QUERY_BYTES_def)
  have "nested_composition = [] @ QUERY_TOKEN @ ''{que'' @ INSTRUCTION_TOKEN @ ''ry}''"
    by (simp add: nested_composition_def QUERY_TOKEN_def INSTRUCTION_TOKEN_def)
  then show "composed nested_composition ''find'' ''who'' ''who{quefindry}''"
    unfolding composed_def by (intro exI [of _ "[]"] exI [of _ "''{que''"] exI [of _ "''ry}''"]) simp
qed

end
