(* ===== verification/Vectors.thy ===== *)
theory Vectors
  imports Profile
begin

text \<open>
  The checks on a model's vector in \<open>crates/rag-embedding/src/lib.rs\<close>:
  \<open>validate_vector\<close> (shape, finiteness, and for \<open>l2\<close> a norm within \<open>1.0e-4\<close> of one) and
  \<open>adapt_model_vector\<close>, which cuts a vector to the dimensions of a reduced profile and
  normalises it again. The theorems relate the \<open>f64\<close> computation to the exact norm.
\<close>

definition validate_vector :: "u32 list \<Rightarrow> nat \<Rightarrow> string \<Rightarrow> embedding_error + unit" where
  "validate_vector v dimensions normalization =
     (if length v \<noteq> dimensions \<or> list_ex (\<lambda>x. \<not> f32_is_finite x) v
      then Inl (Invalid ''vector shape or finiteness'')
      else if normalization = ''l2''
           \<and> mag_less F64_1E_4 (f64_dist_one (f64_sqrt (sum_of_squares v)))
      then Inl (Invalid ''vector norm'')
      else Inr ())"

text \<open>
  The squared norm of finite values is finite, so \<open>is_finite\<close> always holds here: at most
  \<open>2^32\<close> squares below \<open>2^256\<close> each.
\<close>

definition reduce_vector :: "u32 list \<Rightarrow> nat \<Rightarrow> embedding_error + u32 list" where
  "reduce_vector v target =
     (let reduced = take target v;
          squared_norm = sum_of_squares reduced
      in if \<not> mag_less F64_EPSILON squared_norm then Inl (Invalid ''reduced vector norm'')
         else let divisor = f64_sqrt squared_norm;
                  scaled = map (\<lambda>x. f32_pack (f32_negative x) (f64_div (f32_mag x) divisor)) reduced
           in rbind (validate_vector scaled target ''l2'') (\<lambda>_. Inr scaled))"

definition adapt_model_vector :: "embedding_profile \<Rightarrow> u32 list \<Rightarrow> embedding_error + u32 list" where
  "adapt_model_vector p v =
     rbind (validate_embedding_profile p) (\<lambda>_.
     case ep_vector_derivation p of
       None \<Rightarrow> rbind (validate_vector v (unat (ep_dimensions p)) (ep_normalization p)) (\<lambda>_. Inr v)
     | Some d \<Rightarrow>
         if length v \<noteq> unat (vd_parent_dimensions d) \<or> list_ex (\<lambda>x. \<not> f32_is_finite x) v
         then Inl (Invalid ''parent vector dimensions'')
         else reduce_vector v (unat (ep_dimensions p)))"

text \<open>The exact Euclidean norm of a vector of \<open>f32\<close> values.\<close>

definition exact_norm :: "u32 list \<Rightarrow> real" where
  "exact_norm v = sqrt (sum_sq v)"

lemma validate_vector_ok [result_simps]:
  "validate_vector v n nrm = Inr u \<longleftrightarrow> length v = n \<and> list_all f32_is_finite v \<and>
     (nrm = ''l2'' \<longrightarrow> \<not> mag_less F64_1E_4 (f64_dist_one (f64_sqrt (sum_of_squares v))))"
  by (auto simp: validate_vector_def list_ex_iff list_all_iff)

lemma validate_vector_none:
  "nrm \<noteq> ''l2'' \<Longrightarrow> validate_vector v n nrm = Inr u \<longleftrightarrow> length v = n \<and> list_all f32_is_finite v"
  by (simp add: validate_vector_ok)

lemma tolerance_value: "\<bar>mag_val F64_1E_4 - 1 / 10 ^ 4\<bar> \<le> 1 / 10 ^ 19"
proof -
  have "(2::real) powi (- 66) = 1 / 2 ^ 66" by (simp add: power_int_def field_simps)
  then show ?thesis unfolding abs_le_both by (simp add: F64_1E_4_def mag_val_def)
qed

lemma norm_within:
  fixes t d n s :: real
  assumes "\<bar>t - 1 / 10 ^ 4\<bar> \<le> 1 / 10 ^ 19" "\<bar>d - \<bar>n - 1\<bar>\<bar> \<le> \<bar>n - 1\<bar> / 2 ^ 53"
    and "\<bar>n - s\<bar> \<le> s * (4 / 10 ^ 10)" "0 \<le> s"
  shows "d \<le> t \<Longrightarrow> \<bar>s - 1\<bar> \<le> 10001 / 10 ^ 8"
    and "\<bar>s - 1\<bar> \<le> 9999 / 10 ^ 8 \<Longrightarrow> d \<le> t"
proof -
  define a where "a = \<bar>n - 1\<bar>"
  have n: "n - 1 \<le> a" "1 - n \<le> a" "a = n - 1 \<or> a = 1 - n" by (auto simp: a_def)
  have e: "n - s \<le> s * (4 / 10 ^ 10)" "s - n \<le> s * (4 / 10 ^ 10)"
    using assms(3) unfolding abs_le_both by blast+
  have t: "t \<le> 1 / 10 ^ 4 + 1 / 10 ^ 19" "1 / 10 ^ 4 - 1 / 10 ^ 19 \<le> t"
    using assms(1) unfolding abs_le_both by linarith+
  have d: "a - d \<le> a / 2 ^ 53" "d - a \<le> a / 2 ^ 53"
    using assms(2) unfolding abs_le_both a_def by blast+
  show "\<bar>s - 1\<bar> \<le> 10001 / 10 ^ 8" if "d \<le> t"
  proof -
    have "a \<le> 100001 / 10 ^ 9" using d(1) t(1) that by simp
    then show ?thesis using n(1,2) e assms(4) unfolding abs_le_both by auto
  qed
  show "d \<le> t" if "\<bar>s - 1\<bar> \<le> 9999 / 10 ^ 8"
  proof -
    have "s - 1 \<le> 9999 / 10 ^ 8" "1 - s \<le> 9999 / 10 ^ 8" using that unfolding abs_le_both by blast+
    then have "a \<le> 99991 / 10 ^ 9" using n(3) e by auto
    then show ?thesis using d(2) t(2) by auto
  qed
qed

lemma l2_norms:
  assumes "n \<le> 2 ^ 20" and "length v = n"
  shows "\<not> mag_less F64_1E_4 (f64_dist_one (f64_sqrt (sum_of_squares v))) \<Longrightarrow>
      \<bar>exact_norm v - 1\<bar> \<le> 10001 / 10 ^ 8"
    and "\<bar>exact_norm v - 1\<bar> \<le> 9999 / 10 ^ 8 \<Longrightarrow>
      \<not> mag_less F64_1E_4 (f64_dist_one (f64_sqrt (sum_of_squares v)))"
proof -
  let ?n = "f64_sqrt (sum_of_squares v)"
  have a: "\<bar>mag_val ?n - exact_norm v\<bar> \<le> exact_norm v * (4 / 10 ^ 10)"
    unfolding exact_norm_def using norm_error [of v] assms by simp
  have b: "0 \<le> exact_norm v" by (simp add: exact_norm_def)
  note within = norm_within [OF tolerance_value f64_dist_one_error [of ?n] a b]
  show "\<not> mag_less F64_1E_4 (f64_dist_one ?n) \<Longrightarrow> \<bar>exact_norm v - 1\<bar> \<le> 10001 / 10 ^ 8"
    unfolding mag_less_iff not_less by (rule within(1))
  show "\<bar>exact_norm v - 1\<bar> \<le> 9999 / 10 ^ 8 \<Longrightarrow> \<not> mag_less F64_1E_4 (f64_dist_one ?n)"
    unfolding mag_less_iff not_less by (rule within(2))
qed

lemma l2_accepted:
  assumes "n \<le> 2 ^ 20" and "validate_vector v n ''l2'' = Inr ()"
  shows "length v = n \<and> list_all f32_is_finite v \<and> \<bar>exact_norm v - 1\<bar> \<le> 10001 / 10 ^ 8"
proof -
  from assms(2) have v: "length v = n" "list_all f32_is_finite v"
    and m: "\<not> mag_less F64_1E_4 (f64_dist_one (f64_sqrt (sum_of_squares v)))"
    by (simp_all only: validate_vector_ok simp_thms)
  from v l2_norms(1) [OF assms(1) v(1) m] show ?thesis by blast
qed

text \<open>
  For vectors of up to \<open>2^20\<close> components, an accepted \<open>l2\<close> vector has the right length,
  finite components and an exact norm within \<open>1.0001e-4\<close> of one; and a vector of the right
  length with finite components and an exact norm within \<open>0.9999e-4\<close> of one is accepted.
\<close>

theorem validate_vector_l2:
  assumes "n \<le> 2 ^ 20"
  shows "(validate_vector v n ''l2'' = Inr () \<longrightarrow>
      length v = n \<and> list_all f32_is_finite v \<and> \<bar>exact_norm v - 1\<bar> \<le> 10001 / 10 ^ 8)
    \<and> (length v = n \<and> list_all f32_is_finite v \<and> \<bar>exact_norm v - 1\<bar> \<le> 9999 / 10 ^ 8 \<longrightarrow>
      validate_vector v n ''l2'' = Inr ())"
  using l2_accepted [OF assms] l2_norms(2) [OF assms]
  unfolding validate_vector_ok by blast

lemma reduce_vector_ok:
  "reduce_vector v target = Inr out \<Longrightarrow> validate_vector out target ''l2'' = Inr ()"
  by (auto simp: reduce_vector_def Let_def rbind_eq_Inr if_Inl_eq_Inr)

text \<open>
  C24: whatever vector the model returned, the vector of an \<open>l2\<close> profile has the profile's
  dimensions, finite components and an exact norm within \<open>1.0001e-4\<close> of one (for profiles
  of up to \<open>2^20\<close> dimensions); a profile without a derivation keeps the vector as it is.
\<close>

theorem adapted_vector_is_unit:
  assumes ok: "adapt_model_vector p v = Inr out" and "unat (ep_dimensions p) \<le> 2 ^ 20"
    and l2: "ep_normalization p = ''l2''"
  shows "length out = unat (ep_dimensions p) \<and> list_all f32_is_finite out
    \<and> \<bar>exact_norm out - 1\<bar> \<le> 10001 / 10 ^ 8
    \<and> (ep_vector_derivation p = None \<longrightarrow> out = v)"
proof (cases "ep_vector_derivation p")
  case None
  with ok l2 have "validate_vector out (unat (ep_dimensions p)) ''l2'' = Inr ()" and "out = v"
    by (auto simp: adapt_model_vector_def rbind_eq_Inr)
  with None show ?thesis using l2_accepted [OF assms(2)] by blast
next
  case (Some d)
  with ok have "reduce_vector v (unat (ep_dimensions p)) = Inr out"
    by (auto simp: adapt_model_vector_def rbind_eq_Inr split: if_splits)
  with Some show ?thesis using l2_accepted [OF assms(2) reduce_vector_ok] by simp
qed

subsection \<open>Examples\<close>

text \<open>The vector \<open>[1.0, 0.0]\<close>, computed step by step.\<close>

lemma unit_vector_squares:
  "f64_sq 0x3f800000 = (70368744177664, - 46)" "f64_sq 0 = (0, - 298)"
  by (simp_all add: f64_sq_def f32_mag_def f32_exponent_def f32_fraction_def round_sig_def
      round_shift_def)

lemma unit_vector_norm:
  "sum_of_squares [0x3f800000, 0] = (4503599627370496, - 52)"
  "f64_sqrt (4503599627370496, - 52) = (4503599627370496, - 52)"
  by (simp_all add: sum_of_squares_def unit_vector_squares f64_add_def mag_align_def Let_def
      f64_sqrt_def round_sig_def round_shift_def)

lemma unit_vector_accepted: "validate_vector [0x3f800000, 0] 2 ''l2'' = Inr ()"
  by (simp add: validate_vector_def f32_is_finite_def f32_exponent_def unit_vector_norm
      f64_dist_one_def mag_align_def Let_def round_sig_def round_shift_def mag_less_def F64_1E_4_def)

lemma validate_vector_l2_witness:
  "length [0x3f800000 :: u32, 0] = 2 \<and> \<bar>exact_norm [0x3f800000, 0] - 1\<bar> \<le> 10001 / 10 ^ 8"
  using validate_vector_l2 [of 2 "[0x3f800000, 0]"] unit_vector_accepted by simp

definition example_profile :: embedding_profile where
  "example_profile =
     \<lparr>ep_id = ''qwen'', ep_version = ''1'', ep_sha256 = replicate 64 (CHR ''a''),
       ep_model = ''model'', ep_dimensions = 2, ep_normalization = ''l2'',
       ep_vector_derivation = None, ep_query_instruction = Some ''find'',
       ep_query_composition = Some ''I: {query_instruction} Q: {query}''\<rparr>"

lemma list_all_replicate: "list_all P (replicate n x) \<longleftrightarrow> n = 0 \<or> P x"
  by (auto simp: list_all_iff)

lemma example_profile_valid: "validate_embedding_profile example_profile = Inr ()"
  by (simp add: list_all_replicate validate_embedding_profile_def example_profile_def
      canonical_sha256_def
      is_lower_hex_def is_ascii_digit_def validate_query_composition_def QUERY_TOKEN_def
      INSTRUCTION_TOKEN_def str_matches.simps str_replace.simps Let_def str_contains_def
      MAX_QUERY_BYTES_def MAX_QUERY_INSTRUCTION_BYTES_def MAX_QUERY_COMPOSITION_BYTES_def
      MAX_COMPOSED_QUERY_BYTES_def)

lemma adapted_vector_is_unit_witness:
  "adapt_model_vector example_profile [0x3f800000, 0] = Inr [0x3f800000, 0]
   \<and> \<bar>exact_norm [0x3f800000, 0] - 1\<bar> \<le> 10001 / 10 ^ 8"
proof -
  have a: "adapt_model_vector example_profile [0x3f800000, 0] = Inr [0x3f800000, 0]"
    using unit_vector_accepted example_profile_valid
    by (simp add: adapt_model_vector_def example_profile_def)
  from adapted_vector_is_unit [OF a] show ?thesis using a by (simp add: example_profile_def)
qed

lemma compose_query_total_witness:
  "\<exists>out. try_compose_query example_profile ''who'' = Inr out
     \<and> composed ''I: {query_instruction} Q: {query}'' ''find'' ''who'' out"
  using compose_query_total [OF example_profile_valid, of "''who''"]
  by (auto simp: MAX_QUERY_BYTES_def example_profile_def)

end
