(* ===== verification/Batch.thy ===== *)
theory Batch
  imports Vectors
begin

unbundle bit_operations_syntax

text \<open>
  One batch of an embedding task, \<open>crates/rag-embedding/src/task.rs\<close>: the retry policy with
  its deterministic jitter, the options of a task, task selections, and the future that
  \<open>spawn_batch\<close> spawns, which calls the embedder until it answers, fails for good or runs out
  of attempts. A \<open>Duration\<close> is its number of nanoseconds. The embedder, an asynchronous
  trait object, and the clock are functions of the batch ordinal and the attempt.
\<close>

subsection \<open>Durations\<close>

type_synonym duration = nat

definition DURATION_MAX :: duration where
  "DURATION_MAX = (2 ^ 64 - 1) * 10 ^ 9 + 999999999"

definition duration_mul :: "duration \<Rightarrow> u32 \<Rightarrow> duration" where
  "duration_mul d k = min (d * unat k) DURATION_MAX"

definition duration_add :: "duration \<Rightarrow> duration \<Rightarrow> duration" where
  "duration_add a b = min (a + b) DURATION_MAX"

definition duration_micros :: "duration \<Rightarrow> u64" where
  "duration_micros d = (case try_from_nat (d div 1000) of None \<Rightarrow> - 1 | Some n \<Rightarrow> n)"

definition u32_checked_pow :: "u32 \<Rightarrow> nat \<Rightarrow> u32 option" where
  "u32_checked_pow b n = try_from_nat (unat b ^ n)"

subsection \<open>The retry policy\<close>

record retry_policy =
  rp_max_attempts :: nat
  rp_initial_backoff :: duration
  rp_max_backoff :: duration

definition default_retry_policy :: retry_policy where
  "default_retry_policy =
     \<lparr>rp_max_attempts = 4, rp_initial_backoff = 250 * 10 ^ 6, rp_max_backoff = 8 * 10 ^ 9\<rparr>"

definition retry_base :: "retry_policy \<Rightarrow> nat \<Rightarrow> duration" where
  "retry_base p retry_number =
     (let exponent = (case (try_from_nat (retry_number - 1) :: u32 option) of
                        None \<Rightarrow> - 1 | Some e \<Rightarrow> e);
          multiplier = (case u32_checked_pow 2 (unat (min exponent 31)) of
                          None \<Rightarrow> - 1 | Some m \<Rightarrow> m)
      in min (duration_mul (rp_initial_backoff p) multiplier) (rp_max_backoff p))"

definition delay_for_retry :: "retry_policy \<Rightarrow> nat \<Rightarrow> u64 \<Rightarrow> duration" where
  "delay_for_retry p retry_number jitter_seed =
     (let base = retry_base p retry_number
      in if base = 0 then base
         else let quarter_nanos = base div 4;
                  jitter_nanos = (if quarter_nanos = 0 then 0
                    else unat (jitter_seed * 0x9e3779b97f4a7c15) mod quarter_nanos);
                  jitter = (case (try_from_nat jitter_nanos :: u64 option) of
                              None \<Rightarrow> - 1 | Some n \<Rightarrow> n)
              in min (duration_add base (unat jitter)) (rp_max_backoff p))"

definition retry_policy_validate :: "retry_policy \<Rightarrow> embedding_error + unit" where
  "retry_policy_validate p =
     (if rp_max_attempts p = 0 \<or> rp_max_attempts p > 32
         \<or> rp_max_backoff p < rp_initial_backoff p
      then Inl (Invalid ''embedding retry policy'') else Inr ())"

subsection \<open>Options and selections\<close>

record task_options =
  to_batch_size :: nat
  to_max_in_flight :: nat
  to_retry :: retry_policy

definition default_task_options :: task_options where
  "default_task_options =
     \<lparr>to_batch_size = 16, to_max_in_flight = 1, to_retry = default_retry_policy\<rparr>"

definition task_options_validate :: "task_options \<Rightarrow> embedding_error + unit" where
  "task_options_validate o' =
     (if to_batch_size o' = 0 \<or> to_batch_size o' > 32
         \<or> to_max_in_flight o' = 0 \<or> to_max_in_flight o' > 256
      then Inl (Invalid ''embedding task concurrency'')
      else retry_policy_validate (to_retry o'))"

datatype task_selection = SelectAll | SelectRange nat nat

definition selection_resolve :: "task_selection \<Rightarrow> nat \<Rightarrow> embedding_error + nat \<times> nat" where
  "selection_resolve s task_count =
     (case s of
        SelectAll \<Rightarrow> Inr (0, task_count)
      | SelectRange start stop \<Rightarrow>
          if start < stop \<and> stop \<le> task_count then Inr (start, stop)
          else Inl (Invalid ''embedding task selection''))"

text \<open>\<open>slice::get(start..end)\<close>.\<close>

definition slice_get :: "'a list \<Rightarrow> nat \<times> nat \<Rightarrow> 'a list option" where
  "slice_get xs r = (case r of (start, stop) \<Rightarrow>
     if start \<le> stop \<and> stop \<le> length xs then Some (take (stop - start) (drop start xs)) else None)"

definition selection_select :: "task_selection \<Rightarrow> 'a list \<Rightarrow> embedding_error + 'a list" where
  "selection_select s tasks =
     rbind (selection_resolve s (length tasks)) (\<lambda>range.
       ok_or (Invalid ''embedding task selection'') (slice_get tasks range))"

subsection \<open>Reports\<close>

datatype attempt_outcome = Success | TemporaryFailure

record attempt_report =
  ar_attempt :: nat
  ar_input_rows :: u64
  ar_input_text_bytes :: u64
  ar_vector_bytes :: u64
  ar_elapsed_micros :: u64
  ar_backoff_micros :: u64
  ar_outcome :: attempt_outcome

record batch_report =
  br_batch_ordinal :: nat
  br_row_start :: u64
  br_row_end :: u64
  br_input_text_bytes :: u64
  br_vector_bytes :: u64
  br_elapsed_micros :: u64
  br_backoff_micros :: u64
  br_attempts :: "attempt_report list"

record completed_batch =
  cb_ordinal :: nat
  cb_vectors :: "u32 list list"
  cb_attempts :: nat
  cb_returned_model :: string
  cb_report :: batch_report

subsection \<open>The attempts of a batch\<close>

record identified_batch =
  ib_vectors :: "u32 list list"
  ib_returned_model :: string

text \<open>
  What the embedder answers to the attempts of each batch, and what the clock measures: the
  duration of an attempt, of the sleep asked for, of a batch and of the task.
\<close>

record task_env =
  te_embed :: "nat \<Rightarrow> nat \<Rightarrow> string list \<Rightarrow> embedding_error + identified_batch"
  te_panic :: "nat \<Rightarrow> string option"
  te_attempt_elapsed :: "nat \<Rightarrow> nat \<Rightarrow> duration"
  te_slept :: "nat \<Rightarrow> nat \<Rightarrow> duration \<Rightarrow> duration"
  te_batch_elapsed :: "nat \<Rightarrow> duration"
  te_task_elapsed :: duration

definition saturating_total :: "('a \<Rightarrow> u64) \<Rightarrow> 'a list \<Rightarrow> u64" where
  "saturating_total f xs = foldl (\<lambda>total x. saturating_add total (f x)) 0 xs"

definition texts_bytes :: "string list \<Rightarrow> u64" where
  "texts_bytes texts = saturating_total (\<lambda>text. word_of_nat (length text)) texts"

definition vectors_bytes :: "u32 list list \<Rightarrow> u64" where
  "vectors_bytes vectors =
     saturating_total (\<lambda>v. saturating_mul (word_of_nat (length v)) 4) vectors"

definition attempt_entry ::
    "task_env \<Rightarrow> nat \<Rightarrow> nat \<Rightarrow> string list \<Rightarrow> u64 \<Rightarrow> attempt_outcome \<Rightarrow> attempt_report" where
  "attempt_entry T ordinal attempts batch vector_bytes outcome =
     \<lparr>ar_attempt = attempts, ar_input_rows = word_of_nat (length batch),
      ar_input_text_bytes = texts_bytes batch, ar_vector_bytes = vector_bytes,
      ar_elapsed_micros = duration_micros (te_attempt_elapsed T ordinal attempts),
      ar_backoff_micros = 0, ar_outcome = outcome\<rparr>"

definition batch_success ::
    "task_env \<Rightarrow> nat \<Rightarrow> nat \<Rightarrow> nat \<Rightarrow> string list \<Rightarrow> nat \<Rightarrow> attempt_report list \<Rightarrow> u64 \<Rightarrow>
     identified_batch \<Rightarrow> embedding_error + completed_batch" where
  "batch_success T ordinal start stop batch attempts reports backoff response =
     (if length (ib_vectors response) \<noteq> length batch then Inl (Invalid ''batch cardinality'')
      else let vector_bytes = vectors_bytes (ib_vectors response);
               reports' = reports @ [attempt_entry T ordinal attempts batch vector_bytes Success]
        in Inr \<lparr>cb_ordinal = ordinal, cb_vectors = ib_vectors response, cb_attempts = attempts,
             cb_returned_model = ib_returned_model response,
             cb_report =
               \<lparr>br_batch_ordinal = ordinal, br_row_start = word_of_nat start,
                br_row_end = word_of_nat stop, br_input_text_bytes = texts_bytes batch,
                br_vector_bytes = vector_bytes,
                br_elapsed_micros = duration_micros (te_batch_elapsed T ordinal),
                br_backoff_micros = backoff, br_attempts = reports'\<rparr>\<rparr>)"

text \<open>The report of a failed attempt, with the measured backoff put in after the sleep.\<close>

definition push_failure ::
    "task_env \<Rightarrow> nat \<Rightarrow> nat \<Rightarrow> string list \<Rightarrow> u64 \<Rightarrow> attempt_report list \<Rightarrow> attempt_report list" where
  "push_failure T ordinal attempts batch elapsed reports =
     (let i = length reports;
          reports' = reports @ [attempt_entry T ordinal attempts batch 0 TemporaryFailure]
      in reports'[i := (reports' ! i)\<lparr>ar_backoff_micros := elapsed\<rparr>])"

definition retry_elapsed :: "task_env \<Rightarrow> retry_policy \<Rightarrow> nat \<Rightarrow> nat \<Rightarrow> u64" where
  "retry_elapsed T retry ordinal attempts =
     duration_micros (te_slept T ordinal attempts
       (delay_for_retry retry attempts (word_of_nat ordinal XOR word_of_nat attempts)))"

function attempt_loop ::
    "task_env \<Rightarrow> retry_policy \<Rightarrow> nat \<Rightarrow> nat \<Rightarrow> nat \<Rightarrow> string list \<Rightarrow> nat \<Rightarrow> attempt_report list \<Rightarrow>
     u64 \<Rightarrow> embedding_error + completed_batch" where
  "attempt_loop T retry ordinal start stop batch attempts reports backoff =
     (let attempts' = attempts + 1
      in case te_embed T ordinal attempts' batch of
           Inr response \<Rightarrow>
             batch_success T ordinal start stop batch attempts' reports backoff response
         | Inl error \<Rightarrow>
             if retry_class_of error = RetryTemporary \<and> attempts' < rp_max_attempts retry
             then let elapsed = retry_elapsed T retry ordinal attempts'
                  in attempt_loop T retry ordinal start stop batch attempts'
                       (push_failure T ordinal attempts' batch elapsed reports)
                       (saturating_add backoff elapsed)
             else Inl error)"
  by pat_completeness auto
termination
  by (relation "measure (\<lambda>(T, retry, _, _, _, _, attempts, _). rp_max_attempts retry - attempts)") auto

declare attempt_loop.simps [simp del]

text \<open>The rows of a batch and the result of the future that \<open>spawn_batch\<close> spawns for it.\<close>

definition batch_start :: "task_options \<Rightarrow> nat \<Rightarrow> nat" where
  "batch_start options ordinal = ordinal * to_batch_size options"

definition batch_end :: "task_options \<Rightarrow> string list \<Rightarrow> nat \<Rightarrow> nat" where
  "batch_end options texts ordinal =
     min (batch_start options ordinal + to_batch_size options) (length texts)"

definition batch_texts :: "task_options \<Rightarrow> string list \<Rightarrow> nat \<Rightarrow> string list" where
  "batch_texts options texts ordinal =
     take (batch_end options texts ordinal - batch_start options ordinal)
       (drop (batch_start options ordinal) texts)"

definition batch_result ::
    "task_env \<Rightarrow> task_options \<Rightarrow> string list \<Rightarrow> nat \<Rightarrow> embedding_error + completed_batch" where
  "batch_result T options texts ordinal =
     attempt_loop T (to_retry options) ordinal (batch_start options ordinal)
       (batch_end options texts ordinal) (batch_texts options texts ordinal) 0 [] 0"

subsection \<open>Bounds on the delay\<close>

lemma duration_quarter: "d \<le> DURATION_MAX \<Longrightarrow> d div 4 < 2 ^ 93"
  by (simp add: DURATION_MAX_def)

lemma retry_multiplier:
  "(case u32_checked_pow 2 (unat (min (case (try_from_nat n :: u32 option) of None \<Rightarrow> - 1 | Some e \<Rightarrow> e) 31)) of
      None \<Rightarrow> - 1 | Some m \<Rightarrow> m) = (word_of_nat (2 ^ min n 31) :: u32)"
proof -
  define e where "e = min (case (try_from_nat n :: u32 option) of None \<Rightarrow> - 1 | Some e \<Rightarrow> e) 31"
  have e: "unat e = min n 31"
    unfolding e_def
    by (auto simp: try_from_nat_def min_def word_le_nat_alt unat_of_nat unsigned_minus_1_eq_mask
        mask_eq_exp_minus_1 split: option.splits if_splits)
  have "(2::nat) ^ min n 31 < 2 ^ 32" by (rule power_strict_increasing) auto
  then show ?thesis
    unfolding e_def [symmetric] e u32_checked_pow_def by (simp add: try_from_nat_def)
qed

lemma retry_base_value:
  assumes "rp_max_backoff p \<le> DURATION_MAX"
  shows "retry_base p n = min (rp_initial_backoff p * 2 ^ min (n - 1) 31) (rp_max_backoff p)"
proof -
  have "(2::nat) ^ min (n - 1) 31 < 2 ^ 32" by (rule power_strict_increasing) auto
  then have "unat (word_of_nat (2 ^ min (n - 1) 31) :: u32) = 2 ^ min (n - 1) 31"
    by (simp add: unat_of_nat del: of_nat_power)
  with assms show ?thesis
    by (simp add: retry_base_def Let_def retry_multiplier duration_mul_def min.assoc del: of_nat_power)
qed

lemma cut_delay:
  assumes "b \<le> m" and "j \<le> b div 4" and "m \<le> (d::nat)"
  shows "b \<le> min (min (b + j) d) m" and "4 * min (min (b + j) d) m \<le> 5 * b"
    and "min (min (b + j) d) m \<le> m"
  using assms by (auto simp: min_def)

text \<open>
  The delay before retry \<open>n\<close> is at least the exponential backoff
  \<open>initial * 2^(n-1)\<close> (the exponent stops at 31), cut to the maximum, exceeds it by at most a
  quarter, and never exceeds the maximum, whatever the seed; no step of the computation
  overflows.
\<close>

theorem delay_for_retry_bounds:
  assumes "rp_max_backoff p \<le> DURATION_MAX"
  defines "base n \<equiv> min (rp_initial_backoff p * 2 ^ min (n - 1) 31) (rp_max_backoff p)"
  shows "base n \<le> delay_for_retry p n seed
    \<and> 4 * delay_for_retry p n seed \<le> 5 * base n
    \<and> delay_for_retry p n seed \<le> rp_max_backoff p"
proof -
  let ?b = "base n"
  define j where "j = (if ?b div 4 = 0 then 0
    else unat (seed * 0x9e3779b97f4a7c15) mod (?b div 4))"
  have b: "?b \<le> rp_max_backoff p" by (simp add: base_def)
  have rb: "retry_base p n = ?b" unfolding base_def by (rule retry_base_value [OF assms(1)])
  have j: "j \<le> ?b div 4" by (simp add: j_def less_imp_le_nat)
  have "j < 2 ^ 64"
    unfolding j_def using unat_bound [of "seed * 0x9e3779b97f4a7c15"]
    by (auto intro: le_less_trans [OF mod_less_eq_dividend])
  then have "delay_for_retry p n seed =
      (if ?b = 0 then 0 else min (duration_add ?b j) (rp_max_backoff p))"
    unfolding delay_for_retry_def Let_def rb j_def [symmetric]
    by (simp add: try_from_nat_def unat_of_nat)
  then show ?thesis
    using cut_delay [OF b j assms(1)] by (simp add: duration_add_def)
qed

lemma delay_for_retry_bounds_witness:
  "500 * 10 ^ 6 \<le> delay_for_retry default_retry_policy 2 7
   \<and> delay_for_retry default_retry_policy 2 7 \<le> 625 * 10 ^ 6"
  using delay_for_retry_bounds [of default_retry_policy 2 7]
  by (simp add: default_retry_policy_def DURATION_MAX_def)

subsection \<open>Which attempt decides\<close>

definition temporary :: "embedding_error + 'a \<Rightarrow> bool" where
  "temporary r \<longleftrightarrow> (\<exists>e. r = Inl e \<and> retry_class_of e = RetryTemporary)"

definition failed_attempt :: "task_env \<Rightarrow> retry_policy \<Rightarrow> nat \<Rightarrow> string list \<Rightarrow> nat \<Rightarrow> attempt_report" where
  "failed_attempt T retry ordinal batch k =
     (attempt_entry T ordinal k batch 0 TemporaryFailure)
       \<lparr>ar_backoff_micros := retry_elapsed T retry ordinal k\<rparr>"

lemma push_failure_eq:
  "push_failure T ordinal k batch (retry_elapsed T retry ordinal k) reports =
     reports @ [failed_attempt T retry ordinal batch k]"
  by (simp add: push_failure_def Let_def failed_attempt_def)

lemma saturating_total_snoc:
  "saturating_total f (xs @ [x]) = saturating_add (saturating_total f xs) (f x)"
  by (simp add: saturating_total_def)

definition decided ::
    "task_env \<Rightarrow> retry_policy \<Rightarrow> nat \<Rightarrow> string list \<Rightarrow> nat \<Rightarrow> bool" where
  "decided T retry ordinal batch n \<longleftrightarrow>
     (\<forall>k. 1 \<le> k \<and> k < n \<longrightarrow> temporary (te_embed T ordinal k batch))
     \<and> (n < rp_max_attempts retry \<longrightarrow> \<not> temporary (te_embed T ordinal n batch))"

lemma attempt_loop_decides:
  assumes "attempts < rp_max_attempts retry"
    and "\<forall>k. 1 \<le> k \<and> k \<le> attempts \<longrightarrow> temporary (te_embed T ordinal k batch)"
  shows "\<exists>n. attempts < n \<and> n \<le> rp_max_attempts retry \<and> decided T retry ordinal batch n
    \<and> attempt_loop T retry ordinal start stop batch attempts
          (map (failed_attempt T retry ordinal batch) [1..<Suc attempts])
          (saturating_total (retry_elapsed T retry ordinal) [1..<Suc attempts]) =
        rbind (te_embed T ordinal n batch)
          (batch_success T ordinal start stop batch n
            (map (failed_attempt T retry ordinal batch) [1..<n])
            (saturating_total (retry_elapsed T retry ordinal) [1..<n]))"
  using assms
proof (induction "rp_max_attempts retry - attempts" arbitrary: attempts rule: less_induct)
  case less
  let ?a = "Suc attempts"
  show ?case
  proof (cases "temporary (te_embed T ordinal ?a batch) \<and> ?a < rp_max_attempts retry")
    case True
    then obtain e where e: "te_embed T ordinal ?a batch = Inl e" "retry_class_of e = RetryTemporary"
      by (auto simp: temporary_def)
    have "\<forall>k. 1 \<le> k \<and> k \<le> ?a \<longrightarrow> temporary (te_embed T ordinal k batch)"
      using less.prems(2) True le_Suc_eq by auto
    moreover have "rp_max_attempts retry - ?a < rp_max_attempts retry - attempts"
      using less.prems(1) by arith
    ultimately obtain n where
      n: "?a < n" "n \<le> rp_max_attempts retry" "decided T retry ordinal batch n" and
      r: "attempt_loop T retry ordinal start stop batch ?a
          (map (failed_attempt T retry ordinal batch) [1..<Suc ?a])
          (saturating_total (retry_elapsed T retry ordinal) [1..<Suc ?a]) =
        rbind (te_embed T ordinal n batch)
          (batch_success T ordinal start stop batch n
            (map (failed_attempt T retry ordinal batch) [1..<n])
            (saturating_total (retry_elapsed T retry ordinal) [1..<n]))"
      using less.hyps [of ?a] True by metis
    have up: "[Suc 0..<Suc ?a] = [Suc 0..<Suc attempts] @ [?a]" by simp
    from n r e True show ?thesis
      by (intro exI [of _ n])
        (simp add: attempt_loop.simps [of _ _ _ _ _ _ attempts] push_failure_eq
          saturating_total_snoc up del: upt_Suc)
  next
    case False
    have "attempt_loop T retry ordinal start stop batch attempts
          (map (failed_attempt T retry ordinal batch) [1..<?a])
          (saturating_total (retry_elapsed T retry ordinal) [1..<?a]) =
        rbind (te_embed T ordinal ?a batch)
          (batch_success T ordinal start stop batch ?a
            (map (failed_attempt T retry ordinal batch) [1..<?a])
            (saturating_total (retry_elapsed T retry ordinal) [1..<?a]))"
      using False by (auto simp: attempt_loop.simps [of _ _ _ _ _ _ attempts] temporary_def Let_def
          simp del: upt_Suc split: sum.splits)
    moreover have "decided T retry ordinal batch ?a"
      using less.prems(2) False by (auto simp: decided_def less_Suc_eq_le)
    ultimately show ?thesis using less.prems(1) by (intro exI [of _ ?a]) simp
  qed
qed

lemma batch_result_decides:
  assumes "0 < rp_max_attempts (to_retry options)"
  obtains n where "1 \<le> n" and "n \<le> rp_max_attempts (to_retry options)"
    and "decided T (to_retry options) ordinal (batch_texts options texts ordinal) n"
    and "batch_result T options texts ordinal =
      rbind (te_embed T ordinal n (batch_texts options texts ordinal))
        (batch_success T ordinal (batch_start options ordinal) (batch_end options texts ordinal)
          (batch_texts options texts ordinal) n
          (map (failed_attempt T (to_retry options) ordinal (batch_texts options texts ordinal)) [1..<n])
          (saturating_total (retry_elapsed T (to_retry options) ordinal) [1..<n]))"
proof -
  let ?B = "batch_texts options texts ordinal"
  have no: "map g [1..<Suc 0] = []" "saturating_total f [1..<Suc 0] = 0"
    "\<forall>k. 1 \<le> k \<and> k \<le> (0::nat) \<longrightarrow> P k" for f g P
    by (auto simp: saturating_total_def)
  from attempt_loop_decides [OF assms no(3), where T = T and ordinal = ordinal and batch = ?B
      and start = "batch_start options ordinal" and stop = "batch_end options texts ordinal"]
  obtain n where "0 < n" and n: "n \<le> rp_max_attempts (to_retry options)"
    "decided T (to_retry options) ordinal ?B n"
    "attempt_loop T (to_retry options) ordinal (batch_start options ordinal)
        (batch_end options texts ordinal) ?B 0 [] 0 =
      rbind (te_embed T ordinal n ?B)
        (batch_success T ordinal (batch_start options ordinal) (batch_end options texts ordinal) ?B n
          (map (failed_attempt T (to_retry options) ordinal ?B) [1..<n])
          (saturating_total (retry_elapsed T (to_retry options) ordinal) [1..<n]))"
    unfolding no(1,2) by blast
  show thesis
    by (rule that [of n]) (use \<open>0 < n\<close> n in \<open>simp_all add: batch_result_def\<close>)
qed

text \<open>
  C30: with a validated retry policy a batch makes between one and \<open>max_attempts\<close> calls: every
  call but the last failed temporarily, the last one did not unless the attempts are used up,
  and its answer decides. Success carries the vectors of that answer, as many as texts, the
  number of calls, and one report per call in order, each failed one with the backoff slept
  after it; a failure is the error of that answer or the cardinality error.
\<close>

theorem batch_attempts:
  fixes ordinal :: nat and texts :: "string list"
  assumes "task_options_validate options = Inr ()"
  defines "batch \<equiv> batch_texts options texts ordinal"
  shows "\<exists>n. 1 \<le> n \<and> n \<le> rp_max_attempts (to_retry options)
    \<and> decided T (to_retry options) ordinal batch n
    \<and> (case te_embed T ordinal n batch of
         Inl e \<Rightarrow> batch_result T options texts ordinal = Inl e
       | Inr response \<Rightarrow>
           if length (ib_vectors response) \<noteq> length batch
           then batch_result T options texts ordinal = Inl (Invalid ''batch cardinality'')
           else \<exists>b. batch_result T options texts ordinal = Inr b
             \<and> cb_ordinal b = ordinal \<and> cb_vectors b = ib_vectors response
             \<and> cb_attempts b = n \<and> cb_returned_model b = ib_returned_model response
             \<and> br_attempts (cb_report b) =
                 map (failed_attempt T (to_retry options) ordinal batch) [1..<n]
                 @ [attempt_entry T ordinal n batch (vectors_bytes (ib_vectors response)) Success]
             \<and> br_backoff_micros (cb_report b) =
                 saturating_total (retry_elapsed T (to_retry options) ordinal) [1..<n])"
proof -
  have "0 < rp_max_attempts (to_retry options)"
    using assms(1) by (auto simp: task_options_validate_def retry_policy_validate_def split: if_splits)
  from batch_result_decides [OF this] obtain n where n: "1 \<le> n" "n \<le> rp_max_attempts (to_retry options)"
    "decided T (to_retry options) ordinal batch n"
    and r: "batch_result T options texts ordinal = rbind (te_embed T ordinal n batch)
      (batch_success T ordinal (batch_start options ordinal) (batch_end options texts ordinal) batch n
        (map (failed_attempt T (to_retry options) ordinal batch) [1..<n])
        (saturating_total (retry_elapsed T (to_retry options) ordinal) [1..<n]))"
    unfolding batch_def by metis
  then show ?thesis
    by (intro exI [of _ n]) (simp add: batch_success_def Let_def split: sum.split)
qed

text \<open>An embedder that fails temporarily once and then answers with one unit vector a text.\<close>

definition example_env :: task_env where
  "example_env =
     \<lparr>te_embed = (\<lambda>ordinal attempt texts. if attempt = 1 then Inl (Temporary ''busy'')
        else Inr \<lparr>ib_vectors = map (\<lambda>_. [0x3f800000, 0]) texts, ib_returned_model = ''model''\<rparr>),
      te_panic = (\<lambda>_. None), te_attempt_elapsed = (\<lambda>_ _. 2000), te_slept = (\<lambda>_ _ d. d),
      te_batch_elapsed = (\<lambda>_. 5000), te_task_elapsed = 9000\<rparr>"

lemma default_options_valid: "task_options_validate default_task_options = Inr ()"
  by (simp add: task_options_validate_def default_task_options_def retry_policy_validate_def
      default_retry_policy_def)

lemma batch_attempts_witness:
  "decided example_env default_retry_policy 0 [''a''] 2
   \<and> (\<exists>n\<ge>1. decided example_env default_retry_policy 0 (batch_texts default_task_options [''a''] 0) n)"
proof -
  have "decided example_env default_retry_policy 0 [''a''] 2"
    by (auto simp: decided_def example_env_def temporary_def default_retry_policy_def
        retry_class_of_def)
  with batch_attempts [OF default_options_valid, of example_env 0 "[''a'']"] show ?thesis
    by (auto simp: default_task_options_def)
qed

end
