(* ===== verification/Shard_Format.thy ===== *)
theory Shard_Format
  imports Vectors Le_Bytes
begin

text \<open>
  The \<open>LFREMB01\<close> file format of \<open>crates/rag-embedding/src/shard.rs\<close>: the 64-byte header,
  the length check and the row reader, on the bytes of the file. The lemmas give the accepted
  byte strings exactly: a header, then the little-endian rows, nothing else.
\<close>

subsection \<open>The header\<close>

record shard_metadata =
  sm_row_count :: u64
  sm_dimensions :: u32
  sm_order_sha256 :: bytes

definition EMBEDDING_SHARD_MAGIC :: bytes where
  "EMBEDDING_SHARD_MAGIC = str_bytes ''LFREMB01''"

definition EMBEDDING_SHARD_HEADER_BYTES :: u32 where "EMBEDDING_SHARD_HEADER_BYTES = 64"
definition EMBEDDING_SHARD_VERSION :: u16 where "EMBEDDING_SHARD_VERSION = 1"
definition EMBEDDING_SHARD_DTYPE_F32_LE :: u8 where "EMBEDDING_SHARD_DTYPE_F32_LE = 1"
definition EMBEDDING_SHARD_FLAGS :: u8 where "EMBEDDING_SHARD_FLAGS = 0"
definition EMBEDDING_SHARD_RESERVED :: u32 where "EMBEDDING_SHARD_RESERVED = 0"

definition encode_header :: "shard_metadata \<Rightarrow> bytes" where
  "encode_header md =
     EMBEDDING_SHARD_MAGIC @ u32_to_le EMBEDDING_SHARD_HEADER_BYTES
     @ u16_to_le EMBEDDING_SHARD_VERSION @ [EMBEDDING_SHARD_DTYPE_F32_LE, EMBEDDING_SHARD_FLAGS]
     @ u64_to_le (sm_row_count md) @ u32_to_le (sm_dimensions md)
     @ u32_to_le EMBEDDING_SHARD_RESERVED @ sm_order_sha256 md"

text \<open>\<open>bytes[i..j]\<close>.\<close>

definition sub_bytes :: "nat \<Rightarrow> nat \<Rightarrow> bytes \<Rightarrow> bytes" where
  "sub_bytes i j b = take (j - i) (drop i b)"

definition read_header :: "bytes \<Rightarrow> embedding_error + shard_metadata" where
  "read_header file =
     (if length file < 64 then Inl (Io OtherIo)
      else let header = take 64 file in
        if sub_bytes 0 8 header \<noteq> EMBEDDING_SHARD_MAGIC
           \<or> u32_from_le (sub_bytes 8 12 header) \<noteq> EMBEDDING_SHARD_HEADER_BYTES
           \<or> u16_from_le (sub_bytes 12 14 header) \<noteq> EMBEDDING_SHARD_VERSION
           \<or> header ! 14 \<noteq> EMBEDDING_SHARD_DTYPE_F32_LE
           \<or> header ! 15 \<noteq> EMBEDDING_SHARD_FLAGS
           \<or> u32_from_le (sub_bytes 28 32 header) \<noteq> EMBEDDING_SHARD_RESERVED
        then Inl (Invalid ''embedding shard header'')
        else let row_count = u64_from_le (sub_bytes 16 24 header);
                 dimensions = u32_from_le (sub_bytes 24 28 header)
          in if dimensions = 0 then Inl (Invalid ''embedding shard dimensions'')
             else Inr \<lparr>sm_row_count = row_count, sm_dimensions = dimensions,
                       sm_order_sha256 = sub_bytes 32 64 header\<rparr>)"

definition validate_file_length :: "nat \<Rightarrow> shard_metadata \<Rightarrow> embedding_error + unit" where
  "validate_file_length len md =
     rbind (ok_or (Invalid ''embedding shard byte length'')
       (Option.bind (checked_mul (sm_row_count md) (u64_of_u32 (sm_dimensions md)))
         (\<lambda>values. checked_mul values 4))) (\<lambda>payload.
     rbind (ok_or (Invalid ''embedding shard byte length'')
       (checked_add (u64_of_u32 EMBEDDING_SHARD_HEADER_BYTES) payload)) (\<lambda>expected.
     if len \<noteq> unat expected then Inl (Invalid ''embedding shard byte length'') else Inr ()))"

subsection \<open>The rows\<close>

record vector_reader =
  vr_reader :: bytes
  vr_dimensions :: nat
  vr_remaining :: u64

text \<open>
  \<open>Iterator::next\<close>: the item, if any, and the reader afterwards. A short read ends the
  iteration after its error; a non-finite row does not.
\<close>

definition reader_next ::
    "vector_reader \<Rightarrow> (embedding_error + u32 list) option \<times> vector_reader" where
  "reader_next r =
     (if vr_remaining r = 0 then (None, r)
      else if vr_dimensions r * 4 \<ge> 2 ^ 64
      then (Some (Inl (Invalid ''embedding shard vector bytes'')), r)
      else let byte_count = vr_dimensions r * 4 in
        if length (vr_reader r) < byte_count
        then (Some (Inl (Io OtherIo)), r\<lparr>vr_remaining := 0\<rparr>)
        else let vector = map u32_from_le (chunks 4 (take byte_count (vr_reader r)));
                 r' = r\<lparr>vr_reader := drop byte_count (vr_reader r),
                        vr_remaining := vr_remaining r - 1\<rparr>
          in if list_ex (\<lambda>x. \<not> f32_is_finite x) vector
             then (Some (Inl (Invalid ''embedding shard non-finite vector'')), r')
             else (Some (Inr vector), r'))"

lemma reader_next_remaining:
  "reader_next r = (Some (Inr v), r') \<Longrightarrow> unat (vr_remaining r') < unat (vr_remaining r)"
  by (auto simp: reader_next_def Let_def unat_minus_one word_neq_0_conv unat_gt_0
      split: if_splits)

text \<open>A \<open>for\<close> loop over the reader that leaves at the first error.\<close>

function read_rows :: "vector_reader \<Rightarrow> embedding_error + u32 list list" where
  "read_rows r =
     (case reader_next r of
        (None, _) \<Rightarrow> Inr []
      | (Some (Inl e), _) \<Rightarrow> Inl e
      | (Some (Inr v), r') \<Rightarrow> rbind (read_rows r') (\<lambda>vs. Inr (v # vs)))"
  by pat_completeness auto
termination
  by (relation "measure (\<lambda>r. unat (vr_remaining r))") (auto dest: sym intro: reader_next_remaining)

declare read_rows.simps [simp del]

definition encode_row :: "u32 list \<Rightarrow> bytes" where
  "encode_row v = concat (map u32_to_le v)"

definition row_ok :: "nat \<Rightarrow> u32 list \<Rightarrow> bool" where
  "row_ok d v \<longleftrightarrow> length v = d \<and> list_all f32_is_finite v"

lemma length_encode_row: "length (encode_row v) = 4 * length v"
  unfolding encode_row_def by (rule u32_le.concat_length)

lemma decode_row: "map u32_from_le (chunks 4 (encode_row v)) = v"
  unfolding encode_row_def by (rule u32_le.decode_concat)

lemma encode_decoded_row: "length b = 4 * d \<Longrightarrow> encode_row (map u32_from_le (chunks 4 b)) = b"
  unfolding encode_row_def by (rule u32_le.encode_chunks) simp

lemma reader_next_row:
  assumes "vr_remaining r \<noteq> 0" and "vr_dimensions r < 2 ^ 62"
  shows "reader_next r = (Some (Inr v), r') \<longleftrightarrow>
    row_ok (vr_dimensions r) v \<and> vr_reader r = encode_row v @ vr_reader r'
    \<and> r' = r\<lparr>vr_reader := vr_reader r', vr_remaining := vr_remaining r - 1\<rparr>"
    (is "?l \<longleftrightarrow> ?r")
proof
  assume ?l
  let ?b = "take (vr_dimensions r * 4) (vr_reader r)"
  from \<open>?l\<close> assms have v: "v = map u32_from_le (chunks 4 ?b)" and len: "vr_dimensions r * 4 \<le> length (vr_reader r)"
    and fin: "list_all f32_is_finite v"
    and r': "r' = r\<lparr>vr_reader := drop (vr_dimensions r * 4) (vr_reader r), vr_remaining := vr_remaining r - 1\<rparr>"
    by (auto simp: reader_next_def Let_def list_ex_iff list_all_iff split: if_splits)
  have "length ?b = 4 * vr_dimensions r" using len by simp
  then have e: "encode_row v = ?b" unfolding v by (rule encode_decoded_row)
  then have "length v = vr_dimensions r" using length_encode_row [of v] len by simp
  with fin e r' show ?r by (simp add: row_ok_def)
next
  assume ?r
  then have len: "length v = vr_dimensions r" and fin: "list_all f32_is_finite v"
    and b: "vr_reader r = encode_row v @ vr_reader r'"
    and r': "r' = r\<lparr>vr_reader := vr_reader r', vr_remaining := vr_remaining r - 1\<rparr>"
    by (auto simp: row_ok_def)
  have n: "length (encode_row v) = vr_dimensions r * 4" by (simp add: length_encode_row len)
  have t: "take (vr_dimensions r * 4) (vr_reader r) = encode_row v"
    and d: "drop (vr_dimensions r * 4) (vr_reader r) = vr_reader r'"
    by (simp_all add: b flip: n)
  have nofin: "\<not> list_ex (\<lambda>x. \<not> f32_is_finite x) v"
    using fin by (simp add: list_ex_iff list_all_iff)
  have "\<not> vr_dimensions r * 4 \<ge> 2 ^ 64" using assms(2) by simp
  moreover have "\<not> length (vr_reader r) < vr_dimensions r * 4" using b n by simp
  ultimately show ?l
    using assms(1) nofin r' by (simp add: reader_next_def Let_def t d decode_row)
qed

lemma read_rows_ok:
  assumes "vr_dimensions r < 2 ^ 62"
  shows "read_rows r = Inr vs \<longleftrightarrow> length vs = unat (vr_remaining r)
    \<and> list_all (row_ok (vr_dimensions r)) vs \<and> (\<exists>rest. vr_reader r = concat (map encode_row vs) @ rest)"
  using assms
proof (induction vs arbitrary: r)
  case Nil
  show ?case
    by (cases "vr_remaining r = 0")
      (auto simp: read_rows.simps [of r] reader_next_def Let_def rbind_eq_Inr unat_eq_0
        split: prod.splits option.splits sum.splits)
next
  case (Cons v vs)
  show ?case
  proof (cases "vr_remaining r = 0")
    case True
    then show ?thesis by (simp add: read_rows.simps [of r] reader_next_def)
  next
    case False
    then have pos: "0 < unat (vr_remaining r)" by (simp add: unat_gt_0)
    have "read_rows r = Inr (v # vs) \<longleftrightarrow>
        (\<exists>r'. reader_next r = (Some (Inr v), r') \<and> read_rows r' = Inr vs)"
      by (auto simp: read_rows.simps [of r] rbind_eq_Inr split: prod.splits option.splits sum.splits)
    also have "\<dots> \<longleftrightarrow> (\<exists>b. row_ok (vr_dimensions r) v \<and> vr_reader r = encode_row v @ b \<and>
        read_rows (r\<lparr>vr_reader := b, vr_remaining := vr_remaining r - 1\<rparr>) = Inr vs)"
      unfolding reader_next_row [OF False Cons.prems]
      by (metis (no_types, lifting) vector_reader.select_convs(1) vector_reader.simps(4)
          vector_reader.surjective vector_reader.update_convs(1,3))
    also have "\<dots> \<longleftrightarrow> length (v # vs) = unat (vr_remaining r)
        \<and> list_all (row_ok (vr_dimensions r)) (v # vs)
        \<and> (\<exists>rest. vr_reader r = concat (map encode_row (v # vs)) @ rest)"
      using Cons.prems False pos by (subst Cons.IH) (auto simp: unat_minus_one)
    finally show ?thesis .
  qed
qed

subsection \<open>Whole files\<close>

text \<open>\<open>EmbeddingShard::open\<close> on the bytes it reads, with the rows its validation loop visits.\<close>

definition rows_of :: "bytes \<Rightarrow> shard_metadata \<Rightarrow> embedding_error + u32 list list" where
  "rows_of file md =
     read_rows \<lparr>vr_reader = drop 64 file, vr_dimensions = unat (sm_dimensions md),
                vr_remaining = sm_row_count md\<rparr>"

definition parse_shard :: "bytes \<Rightarrow> embedding_error + shard_metadata \<times> u32 list list" where
  "parse_shard file =
     rbind (read_header file) (\<lambda>md.
     rbind (validate_file_length (length file) md) (\<lambda>_.
     rbind (rows_of file md) (\<lambda>vs. Inr (md, vs))))"

definition encode_shard :: "shard_metadata \<Rightarrow> u32 list list \<Rightarrow> bytes" where
  "encode_shard md vs = encode_header md @ concat (map encode_row vs)"

definition shard_ok :: "shard_metadata \<Rightarrow> u32 list list \<Rightarrow> bool" where
  "shard_ok md vs \<longleftrightarrow> sm_dimensions md \<noteq> 0 \<and> length (sm_order_sha256 md) = 32
     \<and> length vs = unat (sm_row_count md) \<and> list_all (row_ok (unat (sm_dimensions md))) vs
     \<and> 64 + 4 * (unat (sm_row_count md) * unat (sm_dimensions md)) < 2 ^ 64"

lemma drop_sub_bytes: "i \<le> j \<Longrightarrow> drop i b = sub_bytes i j b @ drop j b"
  unfolding sub_bytes_def by (metis append_take_drop_id drop_drop le_add_diff_inverse2)

lemma length_sub_bytes: "j \<le> length b \<Longrightarrow> length (sub_bytes i j b) = j - i"
  by (simp add: sub_bytes_def)

lemma header_fields:
  assumes "length h = 64"
  shows "h = sub_bytes 0 8 h @ sub_bytes 8 12 h @ sub_bytes 12 14 h @ [h ! 14, h ! 15]
    @ sub_bytes 16 24 h @ sub_bytes 24 28 h @ sub_bytes 28 32 h @ sub_bytes 32 64 h"
proof -
  have "drop 14 h = [h ! 14, h ! 15] @ drop 16 h"
    using assms by (simp add: Cons_nth_drop_Suc numeral_eq_Suc)
  moreover have "h = sub_bytes 0 8 h @ drop 8 h" using drop_sub_bytes [of 0 8 h] by simp
  moreover have "drop 8 h = sub_bytes 8 12 h @ drop 12 h" "drop 12 h = sub_bytes 12 14 h @ drop 14 h"
    "drop 16 h = sub_bytes 16 24 h @ drop 24 h" "drop 24 h = sub_bytes 24 28 h @ drop 28 h"
    "drop 28 h = sub_bytes 28 32 h @ drop 32 h"
    by (rule drop_sub_bytes; simp)+
  moreover have "drop 32 h = sub_bytes 32 64 h" using drop_sub_bytes [of 32 64 h] assms by simp
  ultimately show ?thesis by simp
qed

lemma length_encode_header: "length (encode_header md) = 32 + length (sm_order_sha256 md)"
  by (simp add: encode_header_def EMBEDDING_SHARD_MAGIC_def)

lemma encoded_fields:
  fixes md rest
  defines "h \<equiv> encode_header md @ rest"
  assumes "length (sm_order_sha256 md) = 32"
  shows "sub_bytes 0 8 h = EMBEDDING_SHARD_MAGIC" "sub_bytes 8 12 h = u32_to_le EMBEDDING_SHARD_HEADER_BYTES"
    "sub_bytes 12 14 h = u16_to_le EMBEDDING_SHARD_VERSION" "h ! 14 = EMBEDDING_SHARD_DTYPE_F32_LE"
    "h ! 15 = EMBEDDING_SHARD_FLAGS" "sub_bytes 16 24 h = u64_to_le (sm_row_count md)"
    "sub_bytes 24 28 h = u32_to_le (sm_dimensions md)" "sub_bytes 28 32 h = u32_to_le EMBEDDING_SHARD_RESERVED"
    "sub_bytes 32 64 h = sm_order_sha256 md"
proof -
  have m: "length EMBEDDING_SHARD_MAGIC = 8" by (simp add: EMBEDDING_SHARD_MAGIC_def)
  note defs = h_def encode_header_def sub_bytes_def m assms(2) nth_append
  show "sub_bytes 0 8 h = EMBEDDING_SHARD_MAGIC" "sub_bytes 8 12 h = u32_to_le EMBEDDING_SHARD_HEADER_BYTES"
    "sub_bytes 12 14 h = u16_to_le EMBEDDING_SHARD_VERSION" "h ! 14 = EMBEDDING_SHARD_DTYPE_F32_LE"
    "h ! 15 = EMBEDDING_SHARD_FLAGS" "sub_bytes 16 24 h = u64_to_le (sm_row_count md)"
    "sub_bytes 24 28 h = u32_to_le (sm_dimensions md)" "sub_bytes 28 32 h = u32_to_le EMBEDDING_SHARD_RESERVED"
    "sub_bytes 32 64 h = sm_order_sha256 md"
    by (simp_all add: defs)
qed

lemma read_header_ok:
  "read_header b = Inr md \<longleftrightarrow>
     sm_dimensions md \<noteq> 0 \<and> length (sm_order_sha256 md) = 32 \<and> (\<exists>rest. b = encode_header md @ rest)"
    (is "?l \<longleftrightarrow> ?r")
proof
  assume ?l
  define h where "h = take 64 b"
  from \<open>?l\<close> have "64 \<le> length b" and f: "sub_bytes 0 8 h = EMBEDDING_SHARD_MAGIC"
    "u32_from_le (sub_bytes 8 12 h) = EMBEDDING_SHARD_HEADER_BYTES"
    "u16_from_le (sub_bytes 12 14 h) = EMBEDDING_SHARD_VERSION"
    "h ! 14 = EMBEDDING_SHARD_DTYPE_F32_LE" "h ! 15 = EMBEDDING_SHARD_FLAGS"
    "u32_from_le (sub_bytes 28 32 h) = EMBEDDING_SHARD_RESERVED"
    and md: "md = \<lparr>sm_row_count = u64_from_le (sub_bytes 16 24 h),
      sm_dimensions = u32_from_le (sub_bytes 24 28 h), sm_order_sha256 = sub_bytes 32 64 h\<rparr>"
    and d: "u32_from_le (sub_bytes 24 28 h) \<noteq> 0"
    unfolding read_header_def Let_def if_Inl_eq_Inr h_def by auto
  then have len: "length h = 64" by (simp add: h_def)
  have l: "length (sub_bytes 8 12 h) = 4" "length (sub_bytes 12 14 h) = 2"
    "length (sub_bytes 28 32 h) = 4" "length (sub_bytes 16 24 h) = 8"
    "length (sub_bytes 24 28 h) = 4" "length (sub_bytes 32 64 h) = 32"
    by (simp_all add: length_sub_bytes len)
  have s: "sub_bytes 8 12 h = u32_to_le EMBEDDING_SHARD_HEADER_BYTES"
    "sub_bytes 12 14 h = u16_to_le EMBEDDING_SHARD_VERSION"
    "sub_bytes 28 32 h = u32_to_le EMBEDDING_SHARD_RESERVED"
    using l f(2,3,6) le_roundtrip_bytes by metis+
  have "h = encode_header md"
    by (subst header_fields [OF len])
      (simp add: encode_header_def f(1,4,5) s md le_roundtrip_bytes l)
  then have "b = encode_header md @ drop 64 b" by (metis append_take_drop_id h_def)
  with md d l show ?r by auto
next
  assume ?r
  then obtain rest where d: "sm_dimensions md \<noteq> 0" "length (sm_order_sha256 md) = 32"
    and b: "b = encode_header md @ rest" by blast
  have t: "take 64 b = encode_header md @ []" "\<not> length b < 64"
    using d(2) by (simp_all add: b length_encode_header)
  show ?l
    unfolding read_header_def Let_def t(1) encoded_fields [OF d(2)] if_not_P [OF t(2)]
    using d by simp
qed

lemma validate_file_length_ok:
  "validate_file_length len md = Inr u \<longleftrightarrow>
     len = 64 + 4 * (unat (sm_row_count md) * unat (sm_dimensions md)) \<and> len < 2 ^ 64"
proof -
  have e: "unat EMBEDDING_SHARD_HEADER_BYTES = 64" "unat (4 :: u64) = 4"
    by (simp_all add: EMBEDDING_SHARD_HEADER_BYTES_def)
  define n where "n = unat (sm_row_count md) * unat (sm_dimensions md)"
  have "validate_file_length len md = Inr u \<longleftrightarrow>
      (\<exists>(v :: u64) (p :: u64) (x :: u64). unat v = n \<and> unat p = unat v * 4 \<and> unat x = 64 + unat p \<and> len = unat x)"
    unfolding validate_file_length_def rbind_eq_Inr ok_or_eq_Inr bind_eq_Some_conv
      checked_mul_unat checked_add_unat unat_u64_of_u32 e if_Inl_eq_Inr n_def by auto
  also have "\<dots> \<longleftrightarrow> len = 64 + 4 * n \<and> len < 2 ^ 64"
  proof
    assume r: "len = 64 + 4 * n \<and> len < 2 ^ 64"
    then have "unat (word_of_nat n :: u64) = n" "unat (word_of_nat (n * 4) :: u64) = n * 4"
      "unat (word_of_nat len :: u64) = len"
      by (intro unat_of_small; simp)+
    with r show "\<exists>(v :: u64) (p :: u64) (x :: u64). unat v = n \<and> unat p = unat v * 4 \<and> unat x = 64 + unat p \<and> len = unat x"
      by (intro exI [of _ "word_of_nat n"] exI [of _ "word_of_nat (n * 4)"]
          exI [of _ "word_of_nat len"]) (simp add: mult.commute)
  next
    assume "\<exists>(v :: u64) (p :: u64) (x :: u64). unat v = n \<and> unat p = unat v * 4 \<and> unat x = 64 + unat p \<and> len = unat x"
    then show "len = 64 + 4 * n \<and> len < 2 ^ 64"
      using unat_bound [where 'a = 64] by auto
  qed
  finally show ?thesis by (simp only: n_def)
qed

lemma length_rows:
  "list_all (row_ok d) vs \<Longrightarrow> length (concat (map encode_row vs)) = 4 * (length vs * d)"
  by (induction vs) (auto simp: row_ok_def length_encode_row algebra_simps)

text \<open>
  C26: the files \<open>EmbeddingShard::open\<close> accepts are exactly the header of their metadata
  followed by the little-endian rows: the header determines the file's length, every value is
  a finite \<open>f32\<close>, no byte is left over; and the metadata and rows it reads are the ones that
  were encoded.
\<close>

theorem parse_shard_ok:
  "parse_shard file = Inr (md, vs) \<longleftrightarrow> shard_ok md vs \<and> file = encode_shard md vs"
proof -
  let ?d = "unat (sm_dimensions md)" and ?n = "unat (sm_row_count md)"
  have d: "?d < 2 ^ 62"
    using unat_bound [of "sm_dimensions md"] by (rule less_le_trans) simp
  have rows: "rows_of (encode_header md @ rest) md = Inr vs \<longleftrightarrow> length vs = ?n
      \<and> list_all (row_ok ?d) vs \<and> (\<exists>r. rest = concat (map encode_row vs) @ r)"
    if "length (sm_order_sha256 md) = 32" for rest
    unfolding rows_of_def using d that
    by (subst read_rows_ok) (simp_all add: length_encode_header)
  have "parse_shard file = Inr (md, vs) \<longleftrightarrow> read_header file = Inr md
      \<and> validate_file_length (length file) md = Inr () \<and> rows_of file md = Inr vs"
    by (auto simp: parse_shard_def rbind_eq_Inr)
  also have "\<dots> \<longleftrightarrow> shard_ok md vs \<and> file = encode_shard md vs"
  proof
    assume l: "read_header file = Inr md
      \<and> validate_file_length (length file) md = Inr () \<and> rows_of file md = Inr vs"
    then obtain rest where h: "sm_dimensions md \<noteq> 0" "length (sm_order_sha256 md) = 32"
      and f: "file = encode_header md @ rest" by (auto simp: read_header_ok)
    from l f rows [OF h(2)] obtain r where v: "length vs = ?n" "list_all (row_ok ?d) vs"
      and r: "rest = concat (map encode_row vs) @ r" by auto
    from l have n: "length file = 64 + 4 * (?n * ?d)" "length file < 2 ^ 64"
      by (auto simp: validate_file_length_ok)
    with f r h(2) v length_rows [OF v(2)] have "r = []"
      by (simp add: length_encode_header)
    with f r h v n show "shard_ok md vs \<and> file = encode_shard md vs"
      by (simp add: shard_ok_def encode_shard_def)
  next
    assume r: "shard_ok md vs \<and> file = encode_shard md vs"
    then have h: "sm_dimensions md \<noteq> 0" "length (sm_order_sha256 md) = 32" "length vs = ?n"
      "list_all (row_ok ?d) vs" "64 + 4 * (?n * ?d) < 2 ^ 64"
      and f: "file = encode_header md @ concat (map encode_row vs)"
      by (auto simp: shard_ok_def encode_shard_def)
    have "rows_of file md = Inr vs" unfolding f rows [OF h(2)] using h by simp
    moreover have "length file = 64 + 4 * (?n * ?d)"
      using h length_rows [OF h(4)] by (simp add: f length_encode_header)
    ultimately show "read_header file = Inr md
      \<and> validate_file_length (length file) md = Inr () \<and> rows_of file md = Inr vs"
      using h f by (auto simp: read_header_ok validate_file_length_ok)
  qed
  finally show ?thesis .
qed

end
