(* ===== verification/Shard.thy ===== *)
theory Shard
  imports Shard_Format
begin

text \<open>
  Embedding result files on disk, \<open>crates/rag-embedding/src/shard.rs\<close>: the publication of a
  staged file without overwriting, the writer, opening and verifying a part, and the
  quarantine of an invalid part with its recovery. Every operation is a sequence of file
  system calls (theory \<open>Files\<close>), each of which can fail; the theorems hold for every
  schedule of failures.
\<close>

definition file_call :: "(files \<Rightarrow> io_error + 'a \<times> files) \<Rightarrow> (embedding_error, 'a) io" where
  "file_call op = io_err Io (syscall op)"

lemma file_call_cases:
  assumes "file_call op w = (r, w')"
  obtains (err) e where "r = Inl (Io e)" and "tree w' = tree w"
    and "next_fault w = None \<Longrightarrow> op (tree w) = Inl e"
  | (ok) x where "next_fault w = None" and "op (tree w) = Inr (x, tree w')" and "r = Inr x"
  using assms unfolding file_call_def
  by (elim io_err_cases syscall_cases) auto

lemma keeps_file_call [keeps_intros]:
  "(\<And>ns x ns'. op ns = Inr (x, ns') \<Longrightarrow> I ns \<Longrightarrow> I ns') \<Longrightarrow> keeps I (file_call op)"
  unfolding file_call_def by (intro keeps_err keeps_syscall)

lemma keeps_file_reads [keeps_intros]: "reads_only op \<Longrightarrow> keeps I (file_call op)"
  unfolding file_call_def by (intro keeps_intros)

lemma reads_file_call: "reads_only op \<Longrightarrow> file_call op w = (r, w') \<Longrightarrow> tree w' = tree w"
  by (erule file_call_cases) (auto simp: reads_only_def)

lemma file_call_nofault:
  "faults w = [] \<Longrightarrow> file_call op w =
     (case op (tree w) of Inl e \<Rightarrow> (Inl (Io e), w) | Inr (x, ns) \<Rightarrow> (Inr x, w\<lparr>tree := ns\<rparr>))"
  by (auto simp: file_call_def io_err_def syscall_nofault split: sum.splits prod.splits)

subsection \<open>Publication\<close>

datatype publish_outcome = Published | AlreadyPublished

record file_publication =
  fp_destination :: path
  fp_staging :: path

definition staging_name :: "string \<Rightarrow> u32 \<Rightarrow> u64 \<Rightarrow> string" where
  "staging_name name pid sequence =
     ''.'' @ name @ ''.'' @ nat_digits (unat pid) @ ''.'' @ nat_digits (unat sequence) @ ''.partial''"

text \<open>The attempts of \<open>AtomicFilePublication::new\<close> to create a fresh staging file.\<close>

fun try_staging :: "nat \<Rightarrow> path \<Rightarrow> string \<Rightarrow> (embedding_error, path) io" where
  "try_staging 0 parent name = io_of (Inl (Invalid ''embedding staging path exhaustion''))"
| "try_staging (Suc n) parent name =
     io_bind next_sequence (\<lambda>sequence. \<lambda>w.
       let staging = join parent (staging_name name (process_id w) sequence)
       in io_match (syscall (create_new_op staging)) (\<lambda>r.
            case r of
              Inr _ \<Rightarrow> io_of (Inr staging)
            | Inl AlreadyExists \<Rightarrow> try_staging n parent name
            | Inl e \<Rightarrow> io_of (Inl (Io e))) w)"

definition publication_new :: "path \<Rightarrow> (embedding_error, file_publication) io" where
  "publication_new destination =
     io_bind (io_of (ok_or (Invalid ''embedding result parent'') (path_parent destination))) (\<lambda>parent.
     io_bind (file_call (create_dir_all_op parent)) (\<lambda>_.
     io_bind (io_of (ok_or (Invalid ''embedding result file name'')
       (Option.bind (path_file_name destination) to_str))) (\<lambda>name.
     io_bind (try_staging 128 parent name) (\<lambda>staging.
     io_of (Inr \<lparr>fp_destination = destination, fp_staging = staging\<rparr>)))))"

text \<open>
  The part of \<open>commit\<close> before \<open>committed\<close> is set: sync the staging file, link it to the
  destination unless that exists, remove the staging name.
\<close>

definition commit_link :: "file_publication \<Rightarrow> (embedding_error, publish_outcome) io" where
  "commit_link p =
     io_bind (file_call (stat_op (fp_staging p))) (\<lambda>_.
     io_bind (file_call sync_op) (\<lambda>_.
     io_bind (io_match (syscall (hard_link_op (fp_staging p) (fp_destination p))) (\<lambda>r.
       case r of
         Inr _ \<Rightarrow> io_of (Inr Published)
       | Inl AlreadyExists \<Rightarrow> io_of (Inr AlreadyPublished)
       | Inl e \<Rightarrow> io_of (Inl (Io e)))) (\<lambda>outcome.
     io_bind (file_call (remove_file_op (fp_staging p))) (\<lambda>_.
     io_of (Inr outcome)))))"

text \<open>\<open>Drop\<close> of an uncommitted publication: remove the staging file, ignoring a failure.\<close>

definition publication_drop :: "file_publication \<Rightarrow> (embedding_error, unit) io" where
  "publication_drop p = io_match (syscall (remove_file_op (fp_staging p))) (\<lambda>_. io_of (Inr ()))"

definition sync_parent :: "path \<Rightarrow> (embedding_error, unit) io" where
  "sync_parent p =
     io_bind (io_of (ok_or (Invalid ''embedding result parent'') (path_parent p))) (\<lambda>parent.
     io_bind (file_call (stat_op parent)) (\<lambda>_. file_call sync_op))"

definition publication_commit :: "file_publication \<Rightarrow> (embedding_error, publish_outcome) io" where
  "publication_commit p =
     io_match (commit_link p) (\<lambda>r.
       case r of
         Inl e \<Rightarrow> io_bind (publication_drop p) (\<lambda>_. io_of (Inl e))
       | Inr outcome \<Rightarrow>
           (case path_parent (fp_destination p) of
              None \<Rightarrow> io_of (Inr outcome)
            | Some parent \<Rightarrow>
                io_bind (file_call (stat_op parent)) (\<lambda>_.
                io_bind (file_call sync_op) (\<lambda>_. io_of (Inr outcome)))))"

subsection \<open>The writer\<close>

record shard_writer =
  sw_file :: path
  sw_metadata :: shard_metadata
  sw_rows_written :: u64

definition writer_create :: "path \<Rightarrow> shard_metadata \<Rightarrow> (embedding_error, shard_writer) io" where
  "writer_create p md =
     (if sm_dimensions md = 0 then io_of (Inl (Invalid ''embedding shard dimensions''))
      else io_bind (file_call (truncate_op p)) (\<lambda>file.
        io_bind (io_err Io (write_all file (encode_header md))) (\<lambda>_.
        io_of (Inr \<lparr>sw_file = file, sw_metadata = md, sw_rows_written = 0\<rparr>))))"

fun write_values :: "path \<Rightarrow> u32 list \<Rightarrow> (embedding_error, unit) io" where
  "write_values file [] = io_of (Inr ())"
| "write_values file (x # xs) =
     io_bind (io_err Io (write_all file (u32_to_le x))) (\<lambda>_. write_values file xs)"

definition write_vector :: "shard_writer \<Rightarrow> u32 list \<Rightarrow> (embedding_error, shard_writer) io" where
  "write_vector sw v =
     (if sw_rows_written sw \<ge> sm_row_count (sw_metadata sw)
         \<or> length v \<noteq> unat (sm_dimensions (sw_metadata sw))
      then io_of (Inl (Invalid ''embedding shard vector shape''))
      else if list_ex (\<lambda>x. \<not> f32_is_finite x) v
      then io_of (Inl (Invalid ''embedding shard non-finite vector''))
      else io_bind (write_values (sw_file sw) v) (\<lambda>_.
        io_of (Inr (sw\<lparr>sw_rows_written := sw_rows_written sw + 1\<rparr>))))"

definition writer_finish :: "shard_writer \<Rightarrow> (embedding_error, unit) io" where
  "writer_finish sw =
     (if sw_rows_written sw \<noteq> sm_row_count (sw_metadata sw)
      then io_of (Inl (Invalid ''embedding shard row count''))
      else io_bind (file_call sync_op) (\<lambda>_. file_call sync_op))"

subsection \<open>Opening and verifying\<close>

record embedding_shard =
  es_path :: path
  es_metadata :: shard_metadata

definition shard_vectors :: "embedding_shard \<Rightarrow> (embedding_error, u32 list list) io" where
  "shard_vectors s =
     io_bind (file_call (read_op (es_path s))) (\<lambda>b. io_of (rows_of b (es_metadata s)))"

definition shard_open :: "path \<Rightarrow> (embedding_error, embedding_shard) io" where
  "shard_open p =
     io_bind (file_call (read_op p)) (\<lambda>b.
     io_bind (io_of (read_header b)) (\<lambda>md.
     io_bind (io_of (validate_file_length (length b) md)) (\<lambda>_.
     let shard = \<lparr>es_path = p, es_metadata = md\<rparr>
     in io_bind (shard_vectors shard) (\<lambda>_. io_of (Inr shard)))))"

definition shard_open_expected :: "path \<Rightarrow> shard_metadata \<Rightarrow> (embedding_error, embedding_shard) io" where
  "shard_open_expected p expected =
     io_bind (shard_open p) (\<lambda>shard.
       if es_metadata shard \<noteq> expected then io_of (Inl (Invalid ''embedding shard identity''))
       else io_of (Inr shard))"

definition validate_normalization :: "embedding_shard \<Rightarrow> string \<Rightarrow> (embedding_error, unit) io" where
  "validate_normalization s normalization =
     (if normalization = ''none'' then io_of (Inr ())
      else if normalization \<noteq> ''l2'' then io_of (Inl (Invalid ''embedding shard normalization''))
      else io_bind (shard_vectors s) (\<lambda>vs.
        io_of (try_all (\<lambda>v. validate_vector v (unat (sm_dimensions (es_metadata s))) normalization) vs)))"

record verified_part =
  vp_metadata :: shard_metadata
  vp_bytes :: u64
  vp_sha256 :: bytes

definition file_sha256 :: "embedding_externals \<Rightarrow> path \<Rightarrow> (embedding_error, bytes) io" where
  "file_sha256 E p = io_bind (file_call (read_op p)) (\<lambda>b. io_of (Inr (sha256_raw E b)))"

definition verify_part ::
    "embedding_externals \<Rightarrow> path \<Rightarrow> shard_metadata \<Rightarrow> string \<Rightarrow> bytes option
     \<Rightarrow> (embedding_error, verified_part) io" where
  "verify_part E p expected normalization expected_sha256 =
     io_bind (shard_open_expected p expected) (\<lambda>shard.
     io_bind (validate_normalization shard normalization) (\<lambda>_.
     io_bind (file_sha256 E p) (\<lambda>sha.
     if (case expected_sha256 of None \<Rightarrow> False | Some x \<Rightarrow> x \<noteq> sha)
     then io_of (Inl (Invalid ''embedding shard digest''))
     else io_bind (file_call (read_op p)) (\<lambda>b.
       io_of (Inr \<lparr>vp_metadata = es_metadata shard, vp_bytes = word_of_nat (length b),
                   vp_sha256 = sha\<rparr>)))))"

subsection \<open>Quarantine and recovery\<close>

datatype part_preparation =
    Missing
  | Verified verified_part bool
  | Quarantined path

definition quarantine_path :: "path \<Rightarrow> embedding_error + path" where
  "quarantine_path p =
     rbind (ok_or (Invalid ''embedding result parent'') (path_parent p)) (\<lambda>parent.
     rbind (ok_or (Invalid ''embedding result file name'')
       (Option.bind (path_file_name p) to_str)) (\<lambda>name.
     Inr (join parent (''.'' @ name @ ''.quarantine''))))"

text \<open>\<open>fs::symlink_metadata\<close> with a missing file as \<open>None\<close>.\<close>

definition lstat_opt :: "path \<Rightarrow> (embedding_error, node option) io" where
  "lstat_opt p =
     io_match (syscall (lstat_op p)) (\<lambda>r.
       case r of
         Inr n \<Rightarrow> io_of (Inr (Some n))
       | Inl NotFound \<Rightarrow> io_of (Inr None)
       | Inl e \<Rightarrow> io_of (Inl (Io e)))"

definition is_file :: "node \<Rightarrow> bool" where
  "is_file n = (case n of Regular _ \<Rightarrow> True | _ \<Rightarrow> False)"

definition not_a_file :: "node option \<Rightarrow> bool" where
  "not_a_file m = (case m of None \<Rightarrow> False | Some n \<Rightarrow> \<not> is_file n)"

text \<open>The verdict on a part that exists.\<close>

definition prepare_existing ::
    "embedding_externals \<Rightarrow> path \<Rightarrow> shard_metadata \<Rightarrow> string \<Rightarrow> bytes option \<Rightarrow> path \<Rightarrow> bool
     \<Rightarrow> (embedding_error, part_preparation) io" where
  "prepare_existing E p expected normalization expected_sha256 quarantine quarantined =
     io_match (verify_part E p expected normalization expected_sha256) (\<lambda>r.
       case r of
         Inr part \<Rightarrow> io_of (Inr (Verified part quarantined))
       | Inl _ \<Rightarrow>
           if quarantined
           then io_of (Inl (Invalid ''embedding task part and quarantine both exist''))
           else io_bind (file_call (rename_op p quarantine)) (\<lambda>_.
                io_bind (sync_parent p) (\<lambda>_.
                io_of (Inr (Quarantined quarantine)))))"

definition prepare_part ::
    "embedding_externals \<Rightarrow> path \<Rightarrow> shard_metadata \<Rightarrow> string \<Rightarrow> bytes option
     \<Rightarrow> (embedding_error, part_preparation) io" where
  "prepare_part E p expected normalization expected_sha256 =
     (if normalization \<notin> {''l2'', ''none''}
      then io_of (Inl (Invalid ''embedding shard normalization''))
      else io_bind (io_of (quarantine_path p)) (\<lambda>quarantine.
        io_bind (lstat_opt p) (\<lambda>original.
        io_bind (lstat_opt quarantine) (\<lambda>quarantined.
        if not_a_file original \<or> not_a_file quarantined
        then io_of (Inl (Invalid ''embedding task part path''))
        else if original = None
        then io_of (Inr (if quarantined \<noteq> None then Quarantined quarantine else Missing))
        else prepare_existing E p expected normalization expected_sha256 quarantine
               (quarantined \<noteq> None)))))"

definition complete_recovery ::
    "embedding_externals \<Rightarrow> path \<Rightarrow> shard_metadata \<Rightarrow> string \<Rightarrow> bytes option
     \<Rightarrow> (embedding_error, verified_part) io" where
  "complete_recovery E p expected normalization expected_sha256 =
     io_bind (verify_part E p expected normalization expected_sha256) (\<lambda>part.
     io_bind (io_of (quarantine_path p)) (\<lambda>quarantine.
     io_bind (lstat_opt quarantine) (\<lambda>m.
       case m of
         None \<Rightarrow> io_of (Inr part)
       | Some n \<Rightarrow>
           if is_file n
           then io_bind (file_call (remove_file_op quarantine)) (\<lambda>_.
                io_bind (sync_parent p) (\<lambda>_. io_of (Inr part)))
           else io_of (Inl (Invalid ''embedding task part quarantine path'')))))"

definition restore_quarantined :: "path \<Rightarrow> (embedding_error, unit) io" where
  "restore_quarantined p =
     io_bind (lstat_opt p) (\<lambda>m.
       if m \<noteq> None then io_of (Inl (Invalid ''embedding task part already exists''))
       else io_bind (io_of (quarantine_path p)) (\<lambda>quarantine.
         io_bind (file_call (lstat_op quarantine)) (\<lambda>n.
         if \<not> is_file n then io_of (Inl (Invalid ''embedding task part quarantine path''))
         else io_bind (file_call (rename_op quarantine p)) (\<lambda>_. sync_parent p))))"

subsection \<open>Digests in hexadecimal\<close>

definition hex_value :: "char \<Rightarrow> nat" where
  "hex_value c =
     (if is_ascii_digit c then of_char c - 48
      else if CHR ''a'' \<le> c \<and> c \<le> CHR ''f'' then of_char c - 87 else of_char c - 55)"

fun hex_pairs :: "string \<Rightarrow> bytes" where
  "hex_pairs (a # b # cs) = word_of_nat (16 * hex_value a + hex_value b) # hex_pairs cs"
| "hex_pairs _ = []"

definition decode_sha256_hex :: "string \<Rightarrow> embedding_error + bytes" where
  "decode_sha256_hex value =
     (if length value \<noteq> 64 \<or> \<not> list_all is_ascii_hexdigit value
      then Inl (Invalid ''SHA-256 hex digest'') else Inr (hex_pairs value))"

end
