(* ===== verification/Task_Run.thy ===== *)
theory Task_Run
  imports Batch Shard
begin

text \<open>
  Running an embedding task, \<open>crates/rag-embedding/src/task.rs\<close>: batches are spawned up to a
  concurrency limit, joined in whatever order they finish, held in a reorder buffer and
  written to the staged shard in order, which is then published. The state of the loop is a
  record; which of the batches in flight finishes next is a parameter of the executable loop
  and the choice of the step relation.
\<close>

subsection \<open>The state of the loop\<close>

record task_state =
  ts_in_flight :: "nat list"
  ts_next_spawn :: nat
  ts_next_write :: nat
  ts_active :: nat
  ts_completed :: "(nat, completed_batch) btree"
  ts_requests :: nat
  ts_retries :: nat
  ts_returned_model :: "string option"
  ts_peak_in_flight :: nat
  ts_batch_reports :: "batch_report list"
  ts_writer :: shard_writer

definition initial_state :: "shard_writer \<Rightarrow> task_state" where
  "initial_state sw =
     \<lparr>ts_in_flight = [], ts_next_spawn = 0, ts_next_write = 0, ts_active = 0, ts_completed = [],
      ts_requests = 0, ts_retries = 0, ts_returned_model = None, ts_peak_in_flight = 0,
      ts_batch_reports = [], ts_writer = sw\<rparr>"

definition spawn_next :: "task_state \<Rightarrow> task_state" where
  "spawn_next s =
     s\<lparr>ts_in_flight := ts_in_flight s @ [ts_next_spawn s], ts_active := ts_active s + 1,
       ts_next_spawn := ts_next_spawn s + 1,
       ts_peak_in_flight := max (ts_peak_in_flight s) (ts_active s + 1)\<rparr>"

function first_fill :: "nat \<Rightarrow> nat \<Rightarrow> task_state \<Rightarrow> task_state" where
  "first_fill max_in_flight n s =
     (if ts_active s < max_in_flight \<and> ts_next_spawn s < n
      then first_fill max_in_flight n (spawn_next s) else s)"
  by pat_completeness auto
termination
  by (relation "measure (\<lambda>(_, n, s). n - ts_next_spawn s)") (auto simp: spawn_next_def)

function refill :: "nat \<Rightarrow> nat \<Rightarrow> task_state \<Rightarrow> task_state" where
  "refill max_in_flight n s =
     (if ts_active s < max_in_flight \<and> ts_next_spawn s < n
         \<and> length (ts_completed s) < max_in_flight
      then refill max_in_flight n (spawn_next s) else s)"
  by pat_completeness auto
termination
  by (relation "measure (\<lambda>(_, n, s). n - ts_next_spawn s)") (auto simp: spawn_next_def)

declare first_fill.simps [simp del] refill.simps [simp del]

subsection \<open>Writing completed batches in order\<close>

fun write_batch ::
    "nat \<Rightarrow> string \<Rightarrow> shard_writer \<Rightarrow> u32 list list \<Rightarrow> (embedding_error, shard_writer) io" where
  "write_batch dimensions normalization sw [] = io_of (Inr sw)"
| "write_batch dimensions normalization sw (v # vs) =
     io_bind (io_of (validate_vector v dimensions normalization)) (\<lambda>_.
     io_bind (write_vector sw v) (\<lambda>sw'. write_batch dimensions normalization sw' vs))"

definition model_mismatch :: "embedding_profile \<Rightarrow> task_state \<Rightarrow> completed_batch \<Rightarrow> bool" where
  "model_mismatch p s b \<longleftrightarrow>
     cb_returned_model b \<noteq> ep_model p
     \<or> (case ts_returned_model s of None \<Rightarrow> False | Some m \<Rightarrow> m \<noteq> cb_returned_model b)"

definition account_batch :: "task_state \<Rightarrow> completed_batch \<Rightarrow> task_state" where
  "account_batch s b =
     s\<lparr>ts_completed := bt_remove (ts_next_write s) (ts_completed s),
       ts_returned_model := Some (cb_returned_model b),
       ts_requests := ts_requests s + cb_attempts b,
       ts_retries := ts_retries s + (cb_attempts b - 1),
       ts_batch_reports := ts_batch_reports s @ [cb_report b]\<rparr>"

lemma bt_remove_shorter: "bt_get m k = Some v \<Longrightarrow> length (bt_remove k m) < length m"
  unfolding bt_remove_def by (rule length_filter_less [OF bt_get_in]) auto

function write_completed ::
    "embedding_profile \<Rightarrow> task_state \<Rightarrow> world \<Rightarrow> (embedding_error + task_state) \<times> world" where
  "write_completed p s w =
     (case bt_get (ts_completed s) (ts_next_write s) of
        None \<Rightarrow> (Inr s, w)
      | Some b \<Rightarrow>
          if model_mismatch p s b then (Inl (Invalid ''embedding response model''), w)
          else case write_batch (unat (ep_dimensions p)) (ep_normalization p) (ts_writer s)
                      (cb_vectors b) w of
              (Inl e, w') \<Rightarrow> (Inl e, w')
            | (Inr sw, w') \<Rightarrow>
                write_completed p
                  ((account_batch s b)\<lparr>ts_writer := sw, ts_next_write := ts_next_write s + 1\<rparr>) w')"
  by pat_completeness auto
termination
  by (relation "measure (\<lambda>(_, s, _). length (ts_completed s))")
    (auto simp: account_batch_def bt_remove_shorter)

declare write_completed.simps [simp del]

subsection \<open>Joining a batch\<close>

definition joined_batch ::
    "task_env \<Rightarrow> task_options \<Rightarrow> string list \<Rightarrow> nat \<Rightarrow> embedding_error + completed_batch" where
  "joined_batch T options texts ordinal =
     (case te_panic T ordinal of
        Some message \<Rightarrow> Inl (Task message)
      | None \<Rightarrow> batch_result T options texts ordinal)"

definition total_batches :: "task_options \<Rightarrow> string list \<Rightarrow> nat" where
  "total_batches options texts =
     length texts div to_batch_size options
     + (if length texts mod to_batch_size options = 0 then 0 else 1)"

definition join_step ::
    "task_env \<Rightarrow> embedding_profile \<Rightarrow> task_options \<Rightarrow> string list \<Rightarrow> nat \<Rightarrow> task_state
     \<Rightarrow> (embedding_error, task_state) io" where
  "join_step T p options texts ordinal s =
     io_bind (io_of (joined_batch T options texts ordinal)) (\<lambda>joined.
     if bt_get (ts_completed s) (cb_ordinal joined) \<noteq> None
     then io_of (Inl (Invalid ''duplicate embedding batch''))
     else io_bind (write_completed p
            (s\<lparr>ts_in_flight := remove1 ordinal (ts_in_flight s), ts_active := ts_active s - 1,
               ts_completed := bt_insert (cb_ordinal joined) joined (ts_completed s)\<rparr>)) (\<lambda>s'.
          io_of (Inr (refill (to_max_in_flight options) (total_batches options texts) s'))))"

lemma spawn_measure:
  "ts_next_spawn s < n \<Longrightarrow>
   n - ts_next_spawn (spawn_next s) + length (ts_in_flight (spawn_next s)) =
   n - ts_next_spawn s + length (ts_in_flight s)"
  by (simp add: spawn_next_def)

lemma refill_measure:
  "n - ts_next_spawn (refill m n s) + length (ts_in_flight (refill m n s)) =
   n - ts_next_spawn s + length (ts_in_flight s)"
  by (induction m n s rule: refill.induct) (subst (1 2) refill.simps, auto simp: spawn_measure)

lemma write_completed_keeps:
  "write_completed p s w = (Inr s', w') \<Longrightarrow>
   ts_in_flight s' = ts_in_flight s \<and> ts_next_spawn s' = ts_next_spawn s
   \<and> ts_active s' = ts_active s \<and> ts_peak_in_flight s' = ts_peak_in_flight s"
proof (induction p s w rule: write_completed.induct)
  case (1 p s w)
  show ?case
  proof (cases "bt_get (ts_completed s) (ts_next_write s)")
    case None
    with 1(2) show ?thesis by (simp add: write_completed.simps [of p s w])
  next
    case (Some b)
    with 1(2) obtain sw w1 where b: "\<not> model_mismatch p s b"
      and wb: "write_batch (unat (ep_dimensions p)) (ep_normalization p) (ts_writer s)
          (cb_vectors b) w = (Inr sw, w1)"
      and r: "write_completed p
          ((account_batch s b)\<lparr>ts_writer := sw, ts_next_write := ts_next_write s + 1\<rparr>) w1 = (Inr s', w')"
      by (auto simp: write_completed.simps [of p s w] split: if_splits prod.splits sum.splits)
    from 1(1) [OF Some b wb [symmetric] refl r] show ?thesis by (simp add: account_batch_def)
  qed
qed

lemma join_step_measure:
  assumes "join_step T p options texts ordinal s w = (Inr s', w')" and "ordinal \<in> set (ts_in_flight s)"
  defines "n \<equiv> total_batches options texts"
  shows "n - ts_next_spawn s' + length (ts_in_flight s') < n - ts_next_spawn s + length (ts_in_flight s)"
proof -
  from assms(1) obtain joined s1 where
    "write_completed p
       (s\<lparr>ts_in_flight := remove1 ordinal (ts_in_flight s), ts_active := ts_active s - 1,
          ts_completed := bt_insert (cb_ordinal joined) joined (ts_completed s)\<rparr>) w = (Inr s1, w')"
    and s': "s' = refill (to_max_in_flight options) n s1"
    unfolding join_step_def n_def by (elim io_bind_cases) (auto split: if_splits elim!: io_bind_cases)
  from write_completed_keeps [OF this(1)]
  have "ts_in_flight s1 = remove1 ordinal (ts_in_flight s)" "ts_next_spawn s1 = ts_next_spawn s"
    by simp_all
  with assms(2) show ?thesis
    unfolding s' refill_measure using length_pos_if_in_set [OF assms(2)]
    by (simp add: length_remove1)
qed

text \<open>
  The loop; \<open>pick k\<close> chooses which of the batches in flight the \<open>k\<close>-th \<open>join_next\<close> returns.
\<close>

function join_loop ::
    "task_env \<Rightarrow> embedding_profile \<Rightarrow> task_options \<Rightarrow> string list \<Rightarrow> (nat \<Rightarrow> nat) \<Rightarrow> nat \<Rightarrow> task_state
     \<Rightarrow> world \<Rightarrow> (embedding_error + task_state) \<times> world" where
  "join_loop T p options texts pick k s w =
     (if ts_next_write s \<ge> total_batches options texts then (Inr s, w)
      else if ts_in_flight s = [] then (Inl (Invalid ''embedding task join set''), w)
      else let ordinal = ts_in_flight s ! (pick k mod length (ts_in_flight s))
        in case join_step T p options texts ordinal s w of
             (Inl e, w') \<Rightarrow> (Inl e, w')
           | (Inr s', w') \<Rightarrow> join_loop T p options texts pick (Suc k) s' w')"
  by pat_completeness auto
termination
proof (relation "measure (\<lambda>(_, _, options, texts, _, _, s, _).
    total_batches options texts - ts_next_spawn s + length (ts_in_flight s))", goal_cases)
  case (2 T p options texts pick k s w ordinal x w' s')
  then have "ordinal \<in> set (ts_in_flight s)" by (simp add: nth_mem)
  from join_step_measure [OF _ this] 2(3-) show ?case by (simp flip: split_paired_all) (metis)
qed simp

declare join_loop.simps [simp del]

subsection \<open>The whole task\<close>

record task_stats =
  st_rows :: u64
  st_requests :: nat
  st_retries :: nat
  st_skipped :: bool
  st_returned_model :: string

record task_report =
  tr_rows :: u64
  tr_batches :: nat
  tr_attempts :: nat
  tr_retries :: nat
  tr_unique_input_text_bytes :: u64
  tr_sent_input_text_bytes :: u64
  tr_vector_bytes :: u64
  tr_shard_bytes :: u64
  tr_elapsed_micros :: u64
  tr_request_elapsed_micros :: u64
  tr_retry_backoff_micros :: u64
  tr_peak_in_flight :: nat
  tr_batch_reports :: "batch_report list"

text \<open>A saturating sum over every attempt of every batch.\<close>

definition attempts_total :: "(attempt_report \<Rightarrow> u64) \<Rightarrow> batch_report list \<Rightarrow> u64" where
  "attempts_total f reports = saturating_total f (concat (map br_attempts reports))"

definition finish_report ::
    "task_env \<Rightarrow> task_options \<Rightarrow> string list \<Rightarrow> u64 \<Rightarrow> u64 \<Rightarrow> task_state \<Rightarrow> task_report" where
  "finish_report T options texts row_count shard_bytes s =
     \<lparr>tr_rows = row_count, tr_batches = total_batches options texts, tr_attempts = ts_requests s,
      tr_retries = ts_retries s, tr_unique_input_text_bytes = texts_bytes texts,
      tr_sent_input_text_bytes = attempts_total ar_input_text_bytes (ts_batch_reports s),
      tr_vector_bytes = saturating_total br_vector_bytes (ts_batch_reports s),
      tr_shard_bytes = shard_bytes, tr_elapsed_micros = duration_micros (te_task_elapsed T),
      tr_request_elapsed_micros = attempts_total ar_elapsed_micros (ts_batch_reports s),
      tr_retry_backoff_micros = saturating_total br_backoff_micros (ts_batch_reports s),
      tr_peak_in_flight = ts_peak_in_flight s, tr_batch_reports = ts_batch_reports s\<rparr>"

text \<open>
  What happens while the publication is alive: an early return drops it, which removes the
  staging file.
\<close>

definition stage_task ::
    "embedding_externals \<Rightarrow> task_env \<Rightarrow> embedding_profile \<Rightarrow> task_options \<Rightarrow> string list
     \<Rightarrow> (nat \<Rightarrow> nat) \<Rightarrow> shard_metadata \<Rightarrow> file_publication
     \<Rightarrow> (embedding_error, task_state \<times> bytes) io" where
  "stage_task E T p options texts pick md publication =
     io_bind (writer_create (fp_staging publication) md) (\<lambda>sw.
     io_bind (join_loop T p options texts pick 0
       (first_fill (to_max_in_flight options) (total_batches options texts) (initial_state sw)))
       (\<lambda>s.
     io_bind (writer_finish (ts_writer s)) (\<lambda>_.
     io_bind (file_sha256 E (fp_staging publication)) (\<lambda>staged_sha256.
     io_of (Inr (s, staged_sha256))))))"

definition execute_embedding_task_reported ::
    "embedding_externals \<Rightarrow> task_env \<Rightarrow> embedding_profile \<Rightarrow> string list \<Rightarrow> path \<Rightarrow> bytes
     \<Rightarrow> task_options \<Rightarrow> (nat \<Rightarrow> nat) \<Rightarrow> (embedding_error, task_stats \<times> task_report) io" where
  "execute_embedding_task_reported E T p texts output_path order_sha256 options pick =
     io_bind (io_of (validate_embedding_profile p)) (\<lambda>_.
     io_bind (io_of (task_options_validate options)) (\<lambda>_.
     if texts = [] then io_of (Inl (Invalid ''empty embedding task''))
     else io_bind (io_of (ok_or (Invalid ''embedding task row count'')
            (try_from_nat (length texts)))) (\<lambda>row_count.
     let expected = \<lparr>sm_row_count = row_count, sm_dimensions = ep_dimensions p,
                     sm_order_sha256 = order_sha256\<rparr>
     in io_bind (publication_new output_path) (\<lambda>publication.
        io_bind (io_match (stage_task E T p options texts pick expected publication) (\<lambda>r.
          case r of
            Inl e \<Rightarrow> io_bind (publication_drop publication) (\<lambda>_. io_of (Inl e))
          | Inr staged \<Rightarrow> io_of (Inr staged))) (\<lambda>(s, staged_sha256).
        io_bind (publication_commit publication) (\<lambda>outcome.
        io_bind (case outcome of
            Published \<Rightarrow> io_of (Inr ())
          | AlreadyPublished \<Rightarrow>
              io_bind (file_sha256 E output_path) (\<lambda>sha.
                if sha \<noteq> staged_sha256
                then io_of (Inl (Invalid ''existing embedding shard differs from executed result''))
                else io_of (Inr ()))) (\<lambda>_.
        io_bind (shard_open_expected output_path expected) (\<lambda>shard.
        io_bind (validate_normalization shard (ep_normalization p)) (\<lambda>_.
        io_bind (io_of (ok_or (Invalid ''missing embedding response model'')
          (ts_returned_model s))) (\<lambda>returned_model.
        io_bind (file_call (read_op output_path)) (\<lambda>b.
        io_of (Inr
          (\<lparr>st_rows = row_count, st_requests = ts_requests s, st_retries = ts_retries s,
            st_skipped = False, st_returned_model = returned_model\<rparr>,
           finish_report T options texts row_count (word_of_nat (length b)) s)))))))))))))"

definition execute_embedding_task ::
    "embedding_externals \<Rightarrow> task_env \<Rightarrow> embedding_profile \<Rightarrow> string list \<Rightarrow> path \<Rightarrow> bytes
     \<Rightarrow> task_options \<Rightarrow> (nat \<Rightarrow> nat) \<Rightarrow> (embedding_error, task_stats) io" where
  "execute_embedding_task E T p texts output_path order_sha256 options pick =
     io_bind (execute_embedding_task_reported E T p texts output_path order_sha256 options pick)
       (\<lambda>(stats, _). io_of (Inr stats))"

end
