(* ===== verification/Shard_Parts.thy ===== *)
theory Shard_Parts
  imports Shard
begin

text \<open>
  What the operations of theory \<open>Shard\<close> do to the files: a completed write leaves exactly the
  encoded shard, a verified part is one, quarantine and recovery lose no bytes.
\<close>

subsection \<open>Writing\<close>

lemma write_all_ok:
  assumes "io_err Io (write_all p b) w = (Inr u, w')" and "fs_get (tree w) p = Some (Regular c)"
  shows "fs_get (tree w') p = Some (Regular (c @ b))"
  using assms
  by (auto simp: write_all_def io_err_def syscall_def append_op_def split: option.splits sum.splits
      prod.splits)

lemma write_values_ok:
  "write_values p xs w = (Inr u, w') \<Longrightarrow> fs_get (tree w) p = Some (Regular c) \<Longrightarrow>
   fs_get (tree w') p = Some (Regular (c @ encode_row xs))"
proof (induction xs arbitrary: w c)
  case (Cons x xs)
  from Cons.prems(1) obtain u' w'' where a: "io_err Io (write_all p (u32_to_le x)) w = (Inr u', w'')"
    and b: "write_values p xs w'' = (Inr u, w')"
    by (auto elim: io_bind_cases)
  from Cons.IH [OF b write_all_ok [OF a Cons.prems(2)]] show ?case
    by (simp add: encode_row_def)
qed (simp add: encode_row_def)

fun write_rows :: "shard_writer \<Rightarrow> u32 list list \<Rightarrow> (embedding_error, shard_writer) io" where
  "write_rows sw [] = io_of (Inr sw)"
| "write_rows sw (v # vs) = io_bind (write_vector sw v) (\<lambda>sw'. write_rows sw' vs)"

definition write_shard :: "path \<Rightarrow> shard_metadata \<Rightarrow> u32 list list \<Rightarrow> (embedding_error, path) io" where
  "write_shard p md vs =
     io_bind (writer_create p md) (\<lambda>sw.
     io_bind (write_rows sw vs) (\<lambda>sw'.
     io_bind (writer_finish sw') (\<lambda>_. io_of (Inr (sw_file sw)))))"

lemma write_vector_ok:
  assumes "write_vector sw v w = (Inr sw', w')" and "fs_get (tree w) (sw_file sw) = Some (Regular c)"
  shows "row_ok (unat (sm_dimensions (sw_metadata sw))) v
    \<and> fs_get (tree w') (sw_file sw) = Some (Regular (c @ encode_row v))
    \<and> sw_file sw' = sw_file sw \<and> sw_metadata sw' = sw_metadata sw
    \<and> unat (sw_rows_written sw') = Suc (unat (sw_rows_written sw))"
proof -
  from assms(1) have row: "row_ok (unat (sm_dimensions (sw_metadata sw))) v"
    and lt: "sw_rows_written sw < sm_row_count (sw_metadata sw)"
    by (auto simp: write_vector_def row_ok_def list_ex_iff list_all_iff not_le split: if_splits)
  from assms(1) obtain u where v: "write_values (sw_file sw) v w = (Inr u, w')"
    and s: "sw' = sw\<lparr>sw_rows_written := sw_rows_written sw + 1\<rparr>"
    by (auto simp: write_vector_def split: if_splits elim!: io_bind_cases)
  have "unat (sw_rows_written sw + 1) = Suc (unat (sw_rows_written sw))"
    using lt unat_bound [of "sm_row_count (sw_metadata sw)"]
    by (simp add: word_less_nat_alt unat_word_ariths)
  with row write_values_ok [OF v assms(2)] s show ?thesis by simp
qed

lemma write_rows_ok:
  "write_rows sw vs w = (Inr sw', w') \<Longrightarrow> fs_get (tree w) (sw_file sw) = Some (Regular c) \<Longrightarrow>
   list_all (row_ok (unat (sm_dimensions (sw_metadata sw)))) vs
   \<and> fs_get (tree w') (sw_file sw) = Some (Regular (c @ concat (map encode_row vs)))
   \<and> sw_file sw' = sw_file sw \<and> sw_metadata sw' = sw_metadata sw
   \<and> unat (sw_rows_written sw') = unat (sw_rows_written sw) + length vs"
proof (induction vs arbitrary: sw w c)
  case (Cons v vs)
  from Cons.prems(1) obtain s w'' where a: "write_vector sw v w = (Inr s, w'')"
    and b: "write_rows s vs w'' = (Inr sw', w')"
    by (auto elim: io_bind_cases)
  note step = write_vector_ok [OF a Cons.prems(2)]
  then have "fs_get (tree w'') (sw_file s) = Some (Regular (c @ encode_row v))" by simp
  from Cons.IH [OF b this] step show ?case by simp
qed simp

lemma truncate_ok:
  "truncate_op p ns = Inr (q, ns') \<Longrightarrow> fs_get ns' q = Some (Regular [])"
proof -
  assume t: "truncate_op p ns = Inr (q, ns')"
  then obtain x where c: "(case fs_get ns x of Some (Regular b) \<Rightarrow> Inr (x, fs_set x (Regular []) ns)
      | _ \<Rightarrow> Inl OtherIo) = Inr (q, ns')"
    unfolding truncate_op_def rbind_eq_Inr by blast
  show ?thesis
  proof (cases "fs_get ns x")
    case (Some n)
    with c show ?thesis by (cases n) auto
  qed (use c in simp)
qed

lemma sync_calls: "file_call sync_op w = (Inr u, w') \<Longrightarrow> tree w' = tree w"
  by (erule file_call_cases) (auto simp: sync_op_def)

text \<open>
  C28: if creating, writing all rows and finishing succeed, under any schedule of failures, the
  file holds exactly the encoded shard, and opening that content gives back the metadata and
  the rows.
\<close>

theorem written_shard_reads_back:
  assumes run: "write_shard p md vs w = (Inr file, w')"
    and md: "length (sm_order_sha256 md) = 32"
      "64 + 4 * (unat (sm_row_count md) * unat (sm_dimensions md)) < 2 ^ 64"
  shows "fs_get (tree w') file = Some (Regular (encode_shard md vs))
    \<and> parse_shard (encode_shard md vs) = Inr (md, vs)"
proof -
  from run obtain sw w1 sw' w2 u where c: "writer_create p md w = (Inr sw, w1)"
    and r: "write_rows sw vs w1 = (Inr sw', w2)" and f: "writer_finish sw' w2 = (Inr u, w')"
    and fl: "file = sw_file sw"
    unfolding write_shard_def by (elim io_bind_cases) auto
  from c obtain w0 u' where d: "sm_dimensions md \<noteq> 0"
    and t: "file_call (truncate_op p) w = (Inr (sw_file sw), w0)"
    and h: "io_err Io (write_all (sw_file sw) (encode_header md)) w0 = (Inr u', w1)"
    and sw: "sw_metadata sw = md" "sw_rows_written sw = 0"
    unfolding writer_create_def by (auto split: if_splits elim!: io_bind_cases)
  from t have "fs_get (tree w0) (sw_file sw) = Some (Regular [])"
    by (elim file_call_cases) (auto dest: truncate_ok)
  from write_rows_ok [OF r write_all_ok [OF h this]] sw
  have rows: "list_all (row_ok (unat (sm_dimensions md))) vs"
    and content: "fs_get (tree w2) file = Some (Regular (encode_shard md vs))"
    and n: "unat (sw_rows_written sw') = length vs" "sw_metadata sw' = md"
    by (simp_all add: encode_shard_def fl)
  from f n have "sw_rows_written sw' = sm_row_count md" and "tree w' = tree w2"
    unfolding writer_finish_def by (auto split: if_splits elim!: io_bind_cases dest!: sync_calls)
  with n content rows d md show ?thesis
    by (simp add: parse_shard_ok shard_ok_def)
qed

subsection \<open>Verifying\<close>

lemma keeps_shard_open: "keeps I (shard_open p)"
  unfolding shard_open_def shard_vectors_def Let_def
  by (intro keeps_bind keeps_io_of keeps_file_reads reads_only_ops)

lemma keeps_verify: "keeps I (verify_part E p md nrm sha)"
  unfolding verify_part_def shard_open_expected_def validate_normalization_def file_sha256_def
    shard_vectors_def
  by (intro keeps_bind keeps_if keeps_io_of keeps_file_reads keeps_shard_open reads_only_ops)

lemma verify_tree: "verify_part E p md nrm sha w = (r, w') \<Longrightarrow> tree w' = tree w"
  using keepsD [OF keeps_verify [of "\<lambda>ns. ns = tree w"]] by blast

text \<open>The content at a path is a complete result for the expected task.\<close>

definition part_valid ::
    "embedding_externals \<Rightarrow> shard_metadata \<Rightarrow> string \<Rightarrow> bytes option \<Rightarrow> bytes \<Rightarrow> bool" where
  "part_valid E md nrm sha b \<longleftrightarrow>
     (\<exists>vs. shard_ok md vs \<and> b = encode_shard md vs
       \<and> (nrm = ''none'' \<or> nrm = ''l2'' \<and>
            list_all (\<lambda>v. validate_vector v (unat (sm_dimensions md)) nrm = Inr ()) vs))
     \<and> (\<forall>x. sha = Some x \<longrightarrow> sha256_raw E b = x)"

lemma read_call:
  "file_call (read_op p) w = (Inr b, w') \<Longrightarrow> read_op p (tree w) = Inr (b, tree w) \<and> tree w' = tree w"
proof -
  assume r: "file_call (read_op p) w = (Inr b, w')"
  from reads_file_call [OF reads_only_ops(3) r] r show ?thesis
    by (auto elim: file_call_cases)
qed

lemma shard_open_ok:
  assumes "shard_open p w = (Inr s, w')"
  obtains b vs where "read_op p (tree w) = Inr (b, tree w)" and "parse_shard b = Inr (es_metadata s, vs)"
    and "es_path s = p" and "tree w' = tree w"
proof -
  from assms obtain b w1 md vs w2 where r: "file_call (read_op p) w = (Inr b, w1)"
    and h: "read_header b = Inr md" "validate_file_length (length b) md = Inr ()"
    and v: "shard_vectors \<lparr>es_path = p, es_metadata = md\<rparr> w1 = (Inr vs, w2)"
    and s: "s = \<lparr>es_path = p, es_metadata = md\<rparr>" "w' = w2"
    unfolding shard_open_def Let_def by (elim io_bind_cases) auto
  from v obtain b' where r': "file_call (read_op p) w1 = (Inr b', w2)" and rows: "rows_of b' md = Inr vs"
    unfolding shard_vectors_def by (elim io_bind_cases) auto
  from read_call [OF r] read_call [OF r'] have "b' = b" "tree w2 = tree w"
    and "read_op p (tree w) = Inr (b, tree w)" by auto
  with that [of b vs] h rows s show ?thesis by (simp add: parse_shard_def)
qed

lemma verify_ok:
  assumes "verify_part E p md nrm sha w = (Inr part, w')"
  shows "\<exists>b. read_op p (tree w) = Inr (b, tree w) \<and> part_valid E md nrm sha b
    \<and> part = \<lparr>vp_metadata = md, vp_bytes = word_of_nat (length b), vp_sha256 = sha256_raw E b\<rparr>"
proof -
  from assms obtain s w1 w2 w3 w4 d b1 u where o: "shard_open_expected p md w = (Inr s, w1)"
    and n: "validate_normalization s nrm w1 = (Inr u, w2)"
    and f: "file_sha256 E p w2 = (Inr d, w3)" and d: "\<forall>x. sha = Some x \<longrightarrow> x = d"
    and l: "file_call (read_op p) w3 = (Inr b1, w4)"
    and part: "part = \<lparr>vp_metadata = es_metadata s, vp_bytes = word_of_nat (length b1), vp_sha256 = d\<rparr>"
    unfolding verify_part_def by (elim io_bind_cases) (auto split: if_splits option.splits elim!: io_bind_cases)
  from o have md: "es_metadata s = md" and so: "shard_open p w = (Inr s, w1)"
    unfolding shard_open_expected_def by (auto split: if_splits elim!: io_bind_cases)
  from shard_open_ok [OF so] obtain b vs where r: "read_op p (tree w) = Inr (b, tree w)"
    and v: "parse_shard b = Inr (md, vs)" and sp: "es_path s = p" and t1: "tree w1 = tree w"
    unfolding md by blast
  have t2: "tree w2 = tree w"
    using n t1 unfolding validate_normalization_def shard_vectors_def
    by (auto split: if_splits elim!: io_bind_cases dest!: read_call)
  from f obtain b2 where "file_call (read_op p) w2 = (Inr b2, w3)" and "d = sha256_raw E b2"
    unfolding file_sha256_def by (elim io_bind_cases) auto
  with read_call t2 r have db: "d = sha256_raw E b" and t3: "tree w3 = tree w" by fastforce+
  from read_call [OF l] t3 r have b1: "b1 = b" by simp
  have nv: "nrm = ''none'' \<or> nrm = ''l2'' \<and>
      list_all (\<lambda>v. validate_vector v (unat (sm_dimensions md)) nrm = Inr ()) vs"
  proof (cases "nrm = ''none''")
    case False
    with n obtain vs' w5 where "nrm = ''l2''" and sv: "shard_vectors s w1 = (Inr vs', w5)"
      and tv: "try_all (\<lambda>v. validate_vector v (unat (sm_dimensions (es_metadata s))) nrm) vs' = Inr ()"
      unfolding validate_normalization_def by (auto split: if_splits elim!: io_bind_cases)
    from sv sp obtain b3 where "file_call (read_op p) w1 = (Inr b3, w5)" and "rows_of b3 md = Inr vs'"
      unfolding shard_vectors_def md by (elim io_bind_cases) auto
    with read_call t1 r v have "vs' = vs" by (fastforce simp: parse_shard_def rbind_eq_Inr)
    with tv \<open>nrm = ''l2''\<close> show ?thesis by (simp add: try_all_ok list_all_iff md)
  qed simp
  from v have "shard_ok md vs" and "b = encode_shard md vs" by (auto simp: parse_shard_ok)
  with nv d db have "part_valid E md nrm sha b" by (auto simp: part_valid_def)
  with r part md b1 db show ?thesis by auto
qed

subsection \<open>Quarantine\<close>

lemma quarantine_path_parts:
  assumes "quarantine_path p = Inr q"
  obtains d n where "p = d @ [n]" and "q = d @ [''.'' @ n @ ''.quarantine'']"
  using assms
  by (auto simp: quarantine_path_def rbind_eq_Inr ok_or_eq_Inr path_parent_def path_file_name_def
      to_str_def join_def bind_eq_Some_conv split: if_splits) (metis append_butlast_last_id)

lemma quarantine_path_other:
  assumes "quarantine_path p = Inr q"
  shows "p \<noteq> q" and "\<not> prefix p q" and "\<not> prefix q p" and "p \<noteq> []" and "q \<noteq> []"
proof -
  obtain d n where "p = d @ [n]" and "q = d @ [''.'' @ n @ ''.quarantine'']"
    using quarantine_path_parts [OF assms] .
  moreover have "n \<noteq> ''.'' @ n @ ''.quarantine''"
    using arg_cong [of n "''.'' @ n @ ''.quarantine''" length] by auto
  ultimately show "p \<noteq> q" "\<not> prefix p q" "\<not> prefix q p" "p \<noteq> []" "q \<noteq> []"
    by (auto simp: prefix_def)
qed

lemma lstat_opt_ok:
  assumes "lstat_opt p w = (Inr m, w')" and "p \<noteq> []"
  shows "tree w' = tree w \<and> m = fs_get (tree w) p"
  using assms unfolding lstat_opt_def
  by (auto simp: lstat_op_def syscall_def split: option.splits sum.splits io_error.splits
      elim!: io_match_cases)

lemma lstat_opt_tree: "lstat_opt p w = (r, w') \<Longrightarrow> tree w' = tree w"
  unfolding lstat_opt_def
  by (elim io_match_cases) (auto dest!: reads_tree [OF reads_only_ops(1)] split: sum.splits io_error.splits)

lemma not_a_file_cases: "not_a_file m \<or> m = None \<or> (\<exists>b. m = Some (Regular b))"
proof (cases m)
  case (Some n)
  then show ?thesis by (cases n) (simp_all add: not_a_file_def is_file_def)
qed simp

lemma sync_parent_tree: "sync_parent p w = (r, w') \<Longrightarrow> tree w' = tree w"
  unfolding sync_parent_def
  by (elim io_bind_cases) (auto dest!: reads_file_call [OF reads_only_ops(2)]
      reads_file_call [OF reads_only_ops(6)])

text \<open>What \<open>prepare_part\<close> may do to the files.\<close>

definition quarantined_move :: "path \<Rightarrow> path \<Rightarrow> files \<Rightarrow> files \<Rightarrow> bool" where
  "quarantined_move p q ns ns' \<longleftrightarrow>
     (\<exists>b. fs_get ns p = Some (Regular b) \<and> fs_get ns q = None
       \<and> fs_get ns' p = None \<and> fs_get ns' q = Some (Regular b)
       \<and> (\<forall>r. \<not> prefix p r \<and> \<not> prefix q r \<longrightarrow> fs_get ns' r = fs_get ns r))"

lemma quarantined_moveI:
  assumes "fs_get ns p = Some (Regular b)" "fs_get ns q = None" "\<not> prefix p q" "\<not> prefix q p"
  shows "quarantined_move p q ns (fs_move p q ns)"
  unfolding quarantined_move_def
  using assms fs_get_move [OF assms(3,4)] by (intro exI [of _ b]) simp

lemma prepare_existing_cases:
  assumes run: "prepare_existing E p md nrm sha q pending w = (r, w')"
    and part: "fs_get (tree w) p = Some (Regular b)" and pending: "pending \<longleftrightarrow> fs_get (tree w) q \<noteq> None"
    and other: "p \<noteq> q" "\<not> prefix p q" "\<not> prefix q p"
  shows "tree w' = tree w \<and> (\<exists>e. r = Inl e)
    \<or> tree w' = tree w \<and> (\<exists>vp. r = Inr (Verified vp pending))
        \<and> (\<exists>c. read_op p (tree w) = Inr (c, tree w) \<and> part_valid E md nrm sha c)
    \<or> quarantined_move p q (tree w) (tree w') \<and> (r = Inr (Quarantined q) \<or> (\<exists>e. r = Inl e))"
proof -
  from run obtain r3 w3 where v: "verify_part E p md nrm sha w = (r3, w3)"
    and c: "(case r3 of Inr part \<Rightarrow> io_of (Inr (Verified part pending))
      | Inl _ \<Rightarrow> if pending
          then io_of (Inl (Invalid ''embedding task part and quarantine both exist''))
          else io_bind (file_call (rename_op p q)) (\<lambda>_.
               io_bind (sync_parent p) (\<lambda>_. io_of (Inr (Quarantined q))))) w3 = (r, w')"
    unfolding prepare_existing_def by (elim io_match_cases) blast
  from verify_tree [OF v] have t3: "tree w3 = tree w" .
  show ?thesis
  proof (cases r3)
    case (Inr vp)
    with c verify_ok [of E p md nrm sha w vp w3] v t3 show ?thesis by auto
  next
    case (Inl e)
    show ?thesis
    proof (cases pending)
      case True
      with c Inl t3 show ?thesis by auto
    next
      case False
      with c Inl have mv: "io_bind (file_call (rename_op p q)) (\<lambda>_.
          io_bind (sync_parent p) (\<lambda>_. io_of (Inr (Quarantined q)))) w3 = (r, w')" by simp
      show ?thesis
        using mv
      proof (cases rule: io_bind_cases)
        case (err e)
        then show ?thesis using t3 by (auto elim!: file_call_cases)
      next
        case (ok u w4)
        have "rename_op p q (tree w) = Inr (u, tree w4)"
          using ok(1) t3 by (auto elim: file_call_cases)
        from rename_file_ok [OF this part other(1)]
        have w4: "tree w4 = fs_move p q (tree w)" by simp
        have "quarantined_move p q (tree w) (tree w4)"
          unfolding w4 using quarantined_moveI [OF part _ other(2,3)] pending False by simp
        moreover have "tree w' = tree w4" and "r = Inr (Quarantined q) \<or> (\<exists>e. r = Inl e)"
          using ok(2) by (auto elim!: io_bind_cases dest: sync_parent_tree)
        ultimately show ?thesis by simp
      qed
    qed
  qed
qed

lemma prepare_effect:
  assumes run: "prepare_part E p md nrm sha w = (r, w')" and q: "quarantine_path p = Inr q"
  shows "(tree w' = tree w \<or> quarantined_move p q (tree w) (tree w'))
    \<and> (\<forall>part pending. r = Inr (Verified part pending) \<longrightarrow> tree w' = tree w
         \<and> (pending \<longleftrightarrow> fs_get (tree w) q \<noteq> None)
         \<and> (\<exists>b. read_op p (tree w) = Inr (b, tree w) \<and> part_valid E md nrm sha b))
    \<and> (r = Inr Missing \<longrightarrow> fs_get (tree w') p = None \<and> fs_get (tree w') q = None)
    \<and> (\<forall>x. r = Inr (Quarantined x) \<longrightarrow> x = q \<and> fs_get (tree w') p = None
         \<and> (\<exists>b. fs_get (tree w') q = Some (Regular b)))"
proof -
  note other = quarantine_path_other [OF q]
  show ?thesis
  proof (cases "nrm \<notin> {''l2'', ''none''}")
    case True
    then have "r = Inl (Invalid ''embedding shard normalization'') \<and> w' = w"
      using run by (auto simp: prepare_part_def)
    then show ?thesis by simp
  next
    case nrm: False
    obtain r1 w1 where l1: "lstat_opt p w = (r1, w1)" by (cases "lstat_opt p w")
    show ?thesis
    proof (cases r1)
      case (Inl e)
      with run l1 nrm q have "r = Inl e \<and> w' = w1"
        by (auto simp: prepare_part_def io_bind_def)
      with lstat_opt_tree [OF l1] show ?thesis by simp
    next
      case m: (Inr m)
      with lstat_opt_ok [of p w m w1] l1 other have t1: "tree w1 = tree w" "m = fs_get (tree w) p"
        by auto
      obtain r2 w2 where l2: "lstat_opt q w1 = (r2, w2)" by (cases "lstat_opt q w1")
      show ?thesis
      proof (cases r2)
        case (Inl e)
        with run l1 l2 m nrm q have "r = Inl e \<and> w' = w2"
          by (auto simp: prepare_part_def io_bind_def)
        with lstat_opt_tree [OF l2] t1 show ?thesis by simp
      next
        case qm: (Inr qm)
        with lstat_opt_ok [of q w1 qm w2] l2 other t1
        have t2: "tree w2 = tree w" "qm = fs_get (tree w) q" by auto
        have run2: "(if not_a_file m \<or> not_a_file qm
            then io_of (Inl (Invalid ''embedding task part path''))
            else if m = None then io_of (Inr (if qm \<noteq> None then Quarantined q else Missing))
            else prepare_existing E p md nrm sha q (qm \<noteq> None)) w2 = (r, w')"
          using run unfolding prepare_part_def if_not_P [OF nrm] io_bind_def io_of_app q prod.case
            sum.case l1 m l2 qm .
        consider (bad) "not_a_file m \<or> not_a_file qm" | (absent) "\<not> not_a_file qm" "m = None"
          | (present) b where "\<not> not_a_file qm" "m = Some (Regular b)"
          using not_a_file_cases [of m] by blast
        then show ?thesis
        proof cases
          case bad
          with run2 t2 show ?thesis by auto
        next
          case absent
          then have "r = Inr (if qm \<noteq> None then Quarantined q else Missing) \<and> w' = w2"
            using run2 by (auto simp: not_a_file_def split: option.splits if_splits)
          with absent t1 t2 show ?thesis
            by (cases qm) (auto simp: not_a_file_def is_file_def split: node.splits)
        next
          case present
          then have "prepare_existing E p md nrm sha q (qm \<noteq> None) w2 = (r, w')"
            using run2 by (simp add: not_a_file_def is_file_def split: option.splits)
          from prepare_existing_cases [OF this, of b] present t1 t2 other
          show ?thesis by (auto simp: quarantined_move_def)
        qed
      qed
    qed
  qed
qed

text \<open>
  C29: preparing a task part loses no bytes, whichever call fails: the files are unchanged, or
  the part was moved to the free quarantine name with its content. A part is reported
  verified only if the file is a complete shard of the expected identity, normalisation and
  digest (and nothing was moved); missing only if neither name exists; quarantined only if
  the part's name is free and the quarantine name holds a file.
\<close>

theorem prepare_keeps_evidence:
  assumes run: "prepare_part E p md nrm sha w = (r, w')" and q: "quarantine_path p = Inr q"
  shows "(tree w' = tree w \<or> quarantined_move p q (tree w) (tree w'))
    \<and> (\<forall>part pending. r = Inr (Verified part pending) \<longrightarrow> tree w' = tree w
         \<and> (pending \<longleftrightarrow> fs_get (tree w) q \<noteq> None)
         \<and> (\<exists>b. read_op p (tree w) = Inr (b, tree w) \<and> part_valid E md nrm sha b))
    \<and> (r = Inr Missing \<longrightarrow> fs_get (tree w') p = None \<and> fs_get (tree w') q = None)
    \<and> (\<forall>x. r = Inr (Quarantined x) \<longrightarrow> x = q \<and> fs_get (tree w') p = None
         \<and> (\<exists>b. fs_get (tree w') q = Some (Regular b)))"
  by (rule prepare_effect [OF assms])

subsection \<open>Recovery and restoration\<close>

text \<open>
  Completing a recovery never touches the part or any other file; it deletes the
  quarantined predecessor only after the replacement has been verified in full, and success
  means the predecessor is gone and the replacement is valid.
\<close>

theorem recovery_keeps_part:
  assumes run: "complete_recovery E p md nrm sha w = (r, w')" and q: "quarantine_path p = Inr q"
  shows "(\<forall>x. x \<noteq> q \<longrightarrow> fs_get (tree w') x = fs_get (tree w) x)
    \<and> (fs_get (tree w') q \<noteq> fs_get (tree w) q \<longrightarrow>
        (\<exists>b. fs_get (tree w) q = Some (Regular b)) \<and> fs_get (tree w') q = None
        \<and> (\<exists>b. read_op p (tree w) = Inr (b, tree w) \<and> part_valid E md nrm sha b))
    \<and> (\<forall>part. r = Inr part \<longrightarrow> fs_get (tree w') q = None
        \<and> (\<exists>b. read_op p (tree w) = Inr (b, tree w) \<and> part_valid E md nrm sha b
             \<and> vp_sha256 part = sha256_raw E b))"
proof -
  note other = quarantine_path_other [OF q]
  obtain r1 w1 where v: "verify_part E p md nrm sha w = (r1, w1)" by (cases "verify_part E p md nrm sha w")
  from verify_tree [OF v] have t1: "tree w1 = tree w" .
  show ?thesis
  proof (cases r1)
    case (Inl e)
    with run v have "r = Inl e" "w' = w1" by (auto simp: complete_recovery_def io_bind_def)
    with t1 show ?thesis by simp
  next
    case (Inr part)
    with verify_ok [of E p md nrm sha w part w1] v
    have valid: "\<exists>b. read_op p (tree w) = Inr (b, tree w) \<and> part_valid E md nrm sha b
        \<and> vp_sha256 part = sha256_raw E b" by auto
    obtain r2 w2 where l: "lstat_opt q w1 = (r2, w2)" by (cases "lstat_opt q w1")
    from lstat_opt_tree [OF l] t1 have t2: "tree w2 = tree w" by simp
    show ?thesis
    proof (cases r2)
      case (Inl e)
      with run v Inr l q have "r = Inl e" "w' = w2" by (auto simp: complete_recovery_def io_bind_def)
      with t2 show ?thesis by simp
    next
      case m: (Inr m)
      with lstat_opt_ok [of q w1 m w2] l other(5) t1 have fm: "m = fs_get (tree w) q" by auto
      have rest: "(case m of None \<Rightarrow> io_of (Inr part)
          | Some n \<Rightarrow> if is_file n
              then io_bind (file_call (remove_file_op q)) (\<lambda>_.
                   io_bind (sync_parent p) (\<lambda>_. io_of (Inr part)))
              else io_of (Inl (Invalid ''embedding task part quarantine path''))) w2 = (r, w')"
        using run unfolding complete_recovery_def io_bind_def io_of_app q prod.case sum.case v Inr l m .
      from not_a_file_cases [of m]
      consider "m = None" | n where "m = Some n" "\<not> is_file n" | b where "m = Some (Regular b)"
        by (cases m) (auto simp: not_a_file_def)
      then show ?thesis
      proof cases
        case 1
        with rest t2 fm valid show ?thesis by auto
      next
        case 2
        with rest t2 show ?thesis by auto
      next
        case (3 b)
        then have "io_bind (file_call (remove_file_op q)) (\<lambda>_.
            io_bind (sync_parent p) (\<lambda>_. io_of (Inr part))) w2 = (r, w')"
          using rest by (simp add: is_file_def)
        then show ?thesis
        proof (cases rule: io_bind_cases)
          case (err e)
          with t2 show ?thesis by (auto elim!: file_call_cases)
        next
          case (ok u w3)
          then have "tree w3 = fs_del q (tree w)"
            using t2 by (auto elim!: file_call_cases simp: remove_file_ok)
          moreover have "tree w' = tree w3" and "r = Inr part \<or> (\<exists>e. r = Inl e)"
            using ok(2) by (auto elim!: io_bind_cases dest: sync_parent_tree)
          ultimately show ?thesis using valid 3 fm by auto
        qed
      qed
    qed
  qed
qed

lemma restore_cases:
  assumes run: "restore_quarantined p w = (r, w')" and q: "quarantine_path p = Inr q"
  shows "tree w' = tree w \<and> (\<exists>e. r = Inl e)
    \<or> quarantined_move q p (tree w) (tree w') \<and> (r = Inr () \<or> (\<exists>e. r = Inl e))"
proof -
  note other = quarantine_path_other [OF q]
  obtain r1 w1 where l: "lstat_opt p w = (r1, w1)" by (cases "lstat_opt p w")
  from lstat_opt_tree [OF l] have t1: "tree w1 = tree w" .
  show ?thesis
  proof (cases "\<exists>e. r1 = Inl e \<or> (\<exists>n. r1 = Inr (Some n))")
    case True
    with run l t1 show ?thesis by (auto simp: restore_quarantined_def io_bind_def)
  next
    case False
    then have r1: "r1 = Inr None" by (metis old.sum.exhaust not_None_eq)
    with lstat_opt_ok [of p w None w1] l other(4) have pn: "fs_get (tree w) p = None" by simp
    have rest: "io_bind (file_call (lstat_op q)) (\<lambda>n.
        if \<not> is_file n then io_of (Inl (Invalid ''embedding task part quarantine path''))
        else io_bind (file_call (rename_op q p)) (\<lambda>_. sync_parent p)) w1 = (r, w')"
      using run q unfolding restore_quarantined_def io_bind_def l r1 by simp
    then show ?thesis
    proof (cases rule: io_bind_cases)
      case (err e)
      with t1 show ?thesis by (auto elim!: file_call_cases)
    next
      case (ok n w2)
      then have "tree w2 = tree w" and n: "fs_get (tree w) q = Some n"
        using t1 other(5) by (auto elim!: file_call_cases simp: lstat_op_def split: option.splits)
      show ?thesis
      proof (cases "is_file n")
        case False
        with ok \<open>tree w2 = tree w\<close> show ?thesis by auto
      next
        case True
        then obtain b where b: "n = Regular b" by (cases n) (auto simp: is_file_def)
        with ok have "io_bind (file_call (rename_op q p)) (\<lambda>_. sync_parent p) w2 = (r, w')"
          by (simp add: is_file_def)
        then show ?thesis
        proof (cases rule: io_bind_cases)
          case (err e)
          with \<open>tree w2 = tree w\<close> show ?thesis by (auto elim!: file_call_cases)
        next
          case (ok u w3)
          have "rename_op q p (tree w) = Inr (u, tree w3)"
            using ok(1) \<open>tree w2 = tree w\<close> by (auto elim: file_call_cases)
          with n b other have "quarantined_move q p (tree w) (tree w3)"
            using rename_file_ok [of q p "tree w" u "tree w3" b]
              quarantined_moveI [of "tree w" q b p] pn by simp
          moreover have "tree w' = tree w3" by (rule sync_parent_tree [OF ok(2)])
          ultimately show ?thesis by (cases r) simp_all
        qed
      qed
    qed
  qed
qed

text \<open>
  A part that was quarantined and then restored is back under its name with the same
  bytes, and the quarantine name is free again; and a restoration never replaces a part that
  exists.
\<close>

theorem quarantine_then_restore:
  assumes q: "quarantine_path p = Inr q"
    and prep: "prepare_part E p md nrm sha w = (Inr (Quarantined x), w1)"
    and part: "fs_get (tree w) p = Some (Regular b)"
    and restore: "restore_quarantined p w1 = (Inr (), w2)"
  shows "fs_get (tree w2) p = Some (Regular b) \<and> fs_get (tree w2) q = None
    \<and> (\<forall>v r v'. restore_quarantined p v = (r, v') \<and> fs_get (tree v) p \<noteq> None \<longrightarrow>
         tree v' = tree v \<and> (\<exists>e. r = Inl e))"
proof -
  from prepare_effect [OF prep q] part
  have "quarantined_move p q (tree w) (tree w1)" by auto
  with part have w1: "fs_get (tree w1) q = Some (Regular b)" by (auto simp: quarantined_move_def)
  from restore_cases [OF restore q]
  have "quarantined_move q p (tree w1) (tree w2)" by auto
  with w1 have "fs_get (tree w2) p = Some (Regular b)" "fs_get (tree w2) q = None"
    by (auto simp: quarantined_move_def)
  moreover have "tree v' = tree v \<and> (\<exists>e. r = Inl e)"
    if "restore_quarantined p v = (r, v')" "fs_get (tree v) p \<noteq> None" for v r v'
    using restore_cases [OF that(1) q] that(2) by (auto simp: quarantined_move_def)
  ultimately show ?thesis by blast
qed

subsection \<open>Without failures\<close>

lemma read_call_nofault:
  "faults w = [] \<Longrightarrow> read_op p (tree w) = Inr (b, tree w) \<Longrightarrow> file_call (read_op p) w = (Inr b, w)"
  by (simp add: file_call_nofault)

lemma lstat_opt_nofault:
  "faults w = [] \<Longrightarrow> p \<noteq> [] \<Longrightarrow> lstat_opt p w = (Inr (fs_get (tree w) p), w)"
  by (cases "fs_get (tree w) p")
    (simp_all add: lstat_opt_def io_match_def syscall_nofault lstat_op_def)

lemma verify_complete:
  assumes nf: "faults w = []" and r: "read_op p (tree w) = Inr (b, tree w)"
    and valid: "part_valid E md nrm sha b"
  shows "\<exists>part. verify_part E p md nrm sha w = (Inr part, w)"
proof -
  from valid obtain vs where ok: "shard_ok md vs" and b: "b = encode_shard md vs"
    and n: "nrm = ''none'' \<or> nrm = ''l2'' \<and>
      list_all (\<lambda>v. validate_vector v (unat (sm_dimensions md)) nrm = Inr ()) vs"
    and sha: "\<forall>x. sha = Some x \<longrightarrow> sha256_raw E b = x"
    unfolding part_valid_def by blast
  have p: "parse_shard b = Inr (md, vs)" using ok b by (simp add: parse_shard_ok)
  then have h: "read_header b = Inr md" "validate_file_length (length b) md = Inr ()"
    "rows_of b md = Inr vs" by (auto simp: parse_shard_def rbind_eq_Inr)
  let ?s = "\<lparr>es_path = p, es_metadata = md\<rparr>"
  note rd = read_call_nofault [OF nf r]
  have v: "shard_vectors ?s w = (Inr vs, w)"
    by (simp add: shard_vectors_def io_bind_def rd h)
  have o: "shard_open_expected p md w = (Inr ?s, w)"
    by (simp add: shard_open_expected_def shard_open_def io_bind_def rd h Let_def v)
  have m: "validate_normalization ?s nrm w = (Inr (), w)"
    using n by (auto simp: validate_normalization_def io_bind_def v try_all_ok list_all_iff)
  have "\<not> (case sha of None \<Rightarrow> False | Some x \<Rightarrow> x \<noteq> sha256_raw E b)"
    using sha by (auto split: option.splits)
  then show ?thesis
    by (simp add: verify_part_def io_bind_def o m file_sha256_def rd)
qed

text \<open>
  When no call fails, a readable part is verified exactly when its content is the encoded
  shard of the expected metadata whose rows have the right shape, finite values and, under
  \<open>l2\<close>, accepted norms, and whose digest is the expected one.
\<close>

theorem verify_part_exact:
  assumes "faults w = []" and "read_op p (tree w) = Inr (b, tree w)"
  shows "(\<exists>part w'. verify_part E p md nrm sha w = (Inr part, w')) \<longleftrightarrow> part_valid E md nrm sha b"
  using verify_complete [OF assms] verify_ok assms(2) by fastforce

subsection \<open>Examples\<close>

definition part_metadata :: shard_metadata where
  "part_metadata = \<lparr>sm_row_count = 1, sm_dimensions = 1, sm_order_sha256 = replicate 32 0\<rparr>"

definition part_path :: path where
  "part_path = [''d'', ''part'']"

definition part_quarantine :: path where
  "part_quarantine = [''d'', ''.part.quarantine'']"

definition part_world :: "bytes \<Rightarrow> (path \<times> node) list \<Rightarrow> world" where
  "part_world b extra =
     \<lparr>tree = [([''d''], Directory), (part_path, Regular b)] @ extra,
      staging_sequence = 0, process_id = 1, faults = []\<rparr>"

lemma part_quarantine_path: "quarantine_path part_path = Inr part_quarantine"
  by (simp add: quarantine_path_def part_path_def part_quarantine_def path_parent_def
      path_file_name_def to_str_def join_def)

lemma part_reads: "read_op part_path (tree (part_world b extra)) = Inr (b, tree (part_world b extra))"
  by (simp add: read_op_def stat_op_def lstat_op_def canonicalize_def part_world_def part_path_def
      fs_get_def)

lemma part_example_ok: "shard_ok part_metadata [[0x3f800000]]"
  by (simp add: shard_ok_def part_metadata_def row_ok_def f32_is_finite_def f32_exponent_def)

lemma part_example_valid:
  "part_valid example_externals part_metadata ''none'' None (encode_shard part_metadata [[0x3f800000]])"
  using part_example_ok by (auto simp: part_valid_def)

lemma verify_part_exact_witness:
  "\<exists>part w'. verify_part example_externals part_path part_metadata ''none'' None
     (part_world (encode_shard part_metadata [[0x3f800000]]) []) = (Inr part, w')"
  using verify_part_exact [OF _ part_reads] part_example_valid by (simp add: part_world_def)

lemma corrupt_part_prepared:
  "\<exists>w'. prepare_part example_externals part_path part_metadata ''none'' None (part_world [1] []) =
     (Inr (Quarantined part_quarantine), w')
     \<and> tree w' = [([''d''], Directory), (part_quarantine, Regular [1])]
     \<and> faults w' = []"
proof -
  let ?w = "part_world [1] []"
  have nf: "faults ?w = []" by (simp add: part_world_def)
  have "shard_open part_path ?w = (Inl (Io OtherIo), ?w)"
    by (simp add: shard_open_def io_bind_def read_call_nofault [OF nf part_reads] read_header_def)
  then have v: "verify_part example_externals part_path part_metadata ''none'' None ?w =
      (Inl (Io OtherIo), ?w)"
    by (simp add: verify_part_def shard_open_expected_def io_bind_def)
  have l: "lstat_opt part_path ?w = (Inr (Some (Regular [1])), ?w)"
    "lstat_opt part_quarantine ?w = (Inr None, ?w)"
    by (simp_all add: lstat_opt_nofault part_world_def
        part_path_def part_quarantine_def fs_get_def)
  let ?t = "[([''d''], Directory), (part_quarantine, Regular [1])]"
  have mv: "rename_op part_path part_quarantine (tree ?w) = Inr ((), ?t)"
    by (simp add: rename_op_def part_world_def part_path_def part_quarantine_def fs_get_def dir_at_def
        fs_move_def)
  have sy: "sync_parent part_path (?w\<lparr>tree := ?t\<rparr>) = (Inr (), ?w\<lparr>tree := ?t\<rparr>)"
    by (simp add: sync_parent_def io_bind_def path_parent_def part_path_def file_call_nofault
        part_world_def stat_op_def lstat_op_def canonicalize_def fs_get_def sync_op_def)
  have "prepare_part example_externals part_path part_metadata ''none'' None ?w =
      (Inr (Quarantined part_quarantine), ?w\<lparr>tree := ?t\<rparr>)"
    by (simp add: prepare_part_def io_bind_def part_quarantine_path l not_a_file_def is_file_def
        prepare_existing_def io_match_def v file_call_nofault [OF nf] mv sy)
  then show ?thesis by (auto simp: part_world_def)
qed

lemma prepare_keeps_evidence_witness:
  "\<exists>w'. prepare_part example_externals part_path part_metadata ''none'' None (part_world [1] []) =
     (Inr (Quarantined part_quarantine), w') \<and> fs_get (tree w') part_path = None"
  using corrupt_part_prepared prepare_keeps_evidence [OF _ part_quarantine_path] by blast

lemma quarantine_then_restore_witness:
  "\<exists>w1 w2. prepare_part example_externals part_path part_metadata ''none'' None (part_world [1] []) =
      (Inr (Quarantined part_quarantine), w1)
    \<and> restore_quarantined part_path w1 = (Inr (), w2)
    \<and> fs_get (tree w2) part_path = Some (Regular [1])"
proof -
  obtain w1 where p: "prepare_part example_externals part_path part_metadata ''none'' None
      (part_world [1] []) = (Inr (Quarantined part_quarantine), w1)"
    and t: "tree w1 = [([''d''], Directory), (part_quarantine, Regular [1])]" and nf: "faults w1 = []"
    using corrupt_part_prepared by blast
  let ?t = "[([''d''], Directory), (part_path, Regular [1])]"
  have l: "lstat_opt part_path w1 = (Inr None, w1)"
    by (simp add: lstat_opt_nofault nf t part_path_def
        part_quarantine_def fs_get_def)
  have q: "file_call (lstat_op part_quarantine) w1 = (Inr (Regular [1]), w1)"
    by (simp add: file_call_nofault [OF nf] lstat_op_def t part_quarantine_def fs_get_def)
  have mv: "rename_op part_quarantine part_path (tree w1) = Inr ((), ?t)"
    by (simp add: rename_op_def t part_path_def part_quarantine_def fs_get_def dir_at_def fs_move_def)
  have sy: "sync_parent part_path (w1\<lparr>tree := ?t\<rparr>) = (Inr (), w1\<lparr>tree := ?t\<rparr>)"
    by (simp add: sync_parent_def io_bind_def path_parent_def part_path_def file_call_nofault nf
        stat_op_def lstat_op_def canonicalize_def fs_get_def sync_op_def)
  have rn: "file_call (rename_op part_quarantine part_path) w1 = (Inr (), w1\<lparr>tree := ?t\<rparr>)"
    by (simp add: file_call_nofault [OF nf] mv)
  have r: "restore_quarantined part_path w1 = (Inr (), w1\<lparr>tree := ?t\<rparr>)"
    by (simp add: restore_quarantined_def io_bind_def l part_quarantine_path q is_file_def rn sy)
  have "fs_get (tree (part_world [1] [])) part_path = Some (Regular [1])"
    by (simp add: part_world_def part_path_def fs_get_def)
  from quarantine_then_restore [OF part_quarantine_path p this r] p r show ?thesis by blast
qed

lemma recovery_keeps_part_witness:
  "\<exists>part w'. complete_recovery example_externals part_path part_metadata ''none'' None
      (part_world (encode_shard part_metadata [[0x3f800000]]) [(part_quarantine, Regular [9])])
      = (Inr part, w') \<and> fs_get (tree w') part_quarantine = None"
proof -
  let ?b = "encode_shard part_metadata [[0x3f800000]]"
  let ?w = "part_world ?b [(part_quarantine, Regular [9])]"
  have nf: "faults ?w = []" by (simp add: part_world_def)
  obtain part where v: "verify_part example_externals part_path part_metadata ''none'' None ?w =
      (Inr part, ?w)"
    using verify_complete [OF nf part_reads part_example_valid] by blast
  have l: "lstat_opt part_quarantine ?w = (Inr (Some (Regular [9])), ?w)"
    by (simp add: lstat_opt_nofault part_world_def
        part_path_def part_quarantine_def fs_get_def)
  let ?t = "[([''d''], Directory), (part_path, Regular ?b)]"
  have rm: "remove_file_op part_quarantine (tree ?w) = Inr ((), ?t)"
    by (simp add: remove_file_op_def part_world_def part_path_def part_quarantine_def fs_get_def
        fs_del_def)
  have sy: "sync_parent part_path (?w\<lparr>tree := ?t\<rparr>) = (Inr (), ?w\<lparr>tree := ?t\<rparr>)"
    by (simp add: sync_parent_def io_bind_def path_parent_def part_path_def file_call_nofault
        part_world_def stat_op_def lstat_op_def canonicalize_def fs_get_def sync_op_def)
  have r: "complete_recovery example_externals part_path part_metadata ''none'' None ?w =
      (Inr part, ?w\<lparr>tree := ?t\<rparr>)"
    by (simp add: complete_recovery_def io_bind_def v part_quarantine_path l is_file_def
        file_call_nofault [OF nf] rm sy)
  with recovery_keeps_part [OF r part_quarantine_path] show ?thesis by blast
qed

lemma written_shard_reads_back_witness:
  "\<exists>w'. write_shard part_path part_metadata [[0x3f800000]] (part_world [] []) = (Inr part_path, w')
    \<and> parse_shard (encode_shard part_metadata [[0x3f800000]]) = Inr (part_metadata, [[0x3f800000]])"
proof -
  let ?w = "\<lambda>b. (part_world [] [])\<lparr>tree := [(part_path, Regular b), ([''d''], Directory)]\<rparr>"
  have nf: "faults (?w b) = []" for b by (simp add: part_world_def)
  have t: "truncate_op part_path (tree (part_world [] [])) =
      Inr (part_path, [(part_path, Regular []), ([''d''], Directory)])"
    by (simp add: truncate_op_def canonicalize_def part_world_def part_path_def fs_get_def fs_set_def
        fs_del_def)
  have a: "append_op part_path b (tree (?w c)) =
      Inr ((), [(part_path, Regular (c @ b)), ([''d''], Directory)])" for b c
    by (simp add: append_op_def part_path_def fs_get_def fs_set_def fs_del_def)
  have wr: "io_err Io (write_all part_path b) (?w c) = (Inr (), ?w (c @ b))" for b c
    using a [of b c] by (simp add: io_err_def write_all_nofault [OF nf] syscall_nofault [OF nf])
  have sy: "file_call sync_op (?w b) = (Inr (), ?w b)" for b
    by (simp add: file_call_nofault [OF nf] sync_op_def)
  let ?sw = "\<lparr>sw_file = part_path, sw_metadata = part_metadata, sw_rows_written = 0\<rparr>"
  have c: "writer_create part_path part_metadata (part_world [] []) =
      (Inr ?sw, ?w (encode_header part_metadata))"
    using wr [of "encode_header part_metadata" "[]"] t
    by (simp add: writer_create_def io_bind_def file_call_nofault part_world_def part_metadata_def)
  have v: "write_vector ?sw [0x3f800000] (?w b) =
      (Inr (?sw\<lparr>sw_rows_written := 1\<rparr>), ?w (b @ u32_to_le 0x3f800000))" for b
    using wr [of "u32_to_le 0x3f800000" b]
    by (simp add: write_vector_def part_metadata_def io_bind_def f32_is_finite_def f32_exponent_def)
  have f: "writer_finish (?sw\<lparr>sw_rows_written := 1\<rparr>) (?w b) = (Inr (), ?w b)" for b
    using sy [of b] by (simp add: writer_finish_def part_metadata_def io_bind_def)
  have r: "write_shard part_path part_metadata [[0x3f800000]] (part_world [] []) =
      (Inr part_path, ?w (encode_header part_metadata @ u32_to_le 0x3f800000))"
    by (simp only: write_shard_def io_bind_def c v f write_rows.simps io_of_app prod.case sum.case
        shard_writer.select_convs)
  from written_shard_reads_back [OF r] r show ?thesis
    by (auto simp: part_metadata_def)
qed

subsection \<open>Digests in hexadecimal\<close>

text \<open>\<open>{:x}\<close> of a byte array: two lowercase digits per byte.\<close>

definition hex_digit :: "nat \<Rightarrow> char" where
  "hex_digit n = (if n < 10 then char_of (48 + n) else char_of (87 + n))"

definition hex_lower :: "bytes \<Rightarrow> string" where
  "hex_lower b = concat (map (\<lambda>x. [hex_digit (unat x div 16), hex_digit (unat x mod 16)]) b)"

lemma hex_digit_value:
  assumes "n < 16"
  shows "hex_value (hex_digit n) = n" and "is_ascii_hexdigit (hex_digit n)"
  using assms
  by (auto simp: hex_value_def hex_digit_def is_ascii_digit_def is_ascii_hexdigit_def is_lower_hex_def
      less_eq_char_def)

lemma hex_pairs_lower: "hex_pairs (hex_lower b) = b"
proof (induction b)
  case (Cons x b)
  have "unat x div 16 < 16" using unat_byte_less [of x] by simp
  moreover have "unat x mod 16 < 16" by simp
  ultimately have "16 * hex_value (hex_digit (unat x div 16)) + hex_value (hex_digit (unat x mod 16)) = unat x"
    by (simp add: hex_digit_value)
  then show ?case using Cons by (simp add: hex_lower_def)
qed (simp add: hex_lower_def)

text \<open>
  Decoding the hexadecimal form of a SHA-256 digest gives the digest back.
\<close>

theorem decode_sha256_hex_roundtrip:
  assumes "length d = 32"
  shows "decode_sha256_hex (hex_lower d) = Inr d"
proof -
  have "length (hex_lower d) = 2 * length d" by (induction d) (simp_all add: hex_lower_def)
  moreover have "list_all is_ascii_hexdigit (hex_lower d)"
  proof (induction d)
    case (Cons x d)
    have "unat x div 16 < 16" using unat_byte_less [of x] by simp
    then show ?case using Cons by (simp add: hex_lower_def hex_digit_value)
  qed (simp add: hex_lower_def)
  ultimately show ?thesis using assms by (simp add: decode_sha256_hex_def hex_pairs_lower)
qed

lemma decode_sha256_hex_roundtrip_witness:
  "decode_sha256_hex (hex_lower (replicate 32 7)) = Inr (replicate 32 7)"
  by (rule decode_sha256_hex_roundtrip) simp

end
