(* ===== verification/Publication.thy ===== *)
theory Publication
  imports Shard
begin

text \<open>
  What publishing a staged file guarantees: one \<open>commit\<close> under every schedule of failures,
  and any number of processes committing to one destination at the same time, as a step
  relation whose steps are the calls of \<open>commit\<close>.
\<close>

subsection \<open>One commit\<close>

definition commit_inv :: "file_publication \<Rightarrow> files \<Rightarrow> files \<Rightarrow> bool" where
  "commit_inv p old ns \<longleftrightarrow>
     (\<forall>q. q \<noteq> fp_destination p \<longrightarrow> q \<noteq> fp_staging p \<longrightarrow> fs_get ns q = fs_get old q)
     \<and> (fs_get ns (fp_staging p) = fs_get old (fp_staging p) \<or> fs_get ns (fp_staging p) = None)
     \<and> (fs_get ns (fp_destination p) = fs_get old (fp_destination p)
        \<or> fs_get old (fp_destination p) = None
          \<and> fs_get ns (fp_destination p) = fs_get old (fp_staging p))"

lemma commit_inv_link:
  "fp_destination p \<noteq> fp_staging p \<Longrightarrow> commit_inv p old ns \<Longrightarrow>
   hard_link_op (fp_staging p) (fp_destination p) ns = Inr (u, ns') \<Longrightarrow> commit_inv p old ns'"
  by (auto simp: commit_inv_def hard_link_ok)

lemma commit_inv_remove:
  "fp_destination p \<noteq> fp_staging p \<Longrightarrow> commit_inv p old ns \<Longrightarrow>
   remove_file_op (fp_staging p) ns = Inr (u, ns') \<Longrightarrow> commit_inv p old ns'"
  by (auto simp: commit_inv_def remove_file_ok)

lemma commit_keeps:
  assumes "fp_destination p \<noteq> fp_staging p"
  shows "keeps (commit_inv p old) (publication_commit p)"
proof -
  have rm: "keeps (commit_inv p old) (syscall (remove_file_op (fp_staging p)))"
    by (rule keeps_syscall) (use assms commit_inv_remove in blast)
  have link: "keeps (commit_inv p old) (commit_link p)"
    unfolding commit_link_def
  proof (intro keeps_bind keeps_match keeps_io_of)
    show "keeps (commit_inv p old) (file_call (stat_op (fp_staging p)))"
      and "keeps (commit_inv p old) (file_call sync_op)"
      by (intro keeps_intros reads_only_ops)+
    show "keeps (commit_inv p old) (syscall (hard_link_op (fp_staging p) (fp_destination p)))"
      by (rule keeps_syscall) (use assms commit_inv_link in blast)
    show "keeps (commit_inv p old) (file_call (remove_file_op (fp_staging p)))"
      unfolding file_call_def by (intro keeps_err rm)
    show "keeps (commit_inv p old)
       (case r of Inr u \<Rightarrow> io_of (Inr Published) | Inl AlreadyExists \<Rightarrow> io_of (Inr AlreadyPublished)
        | Inl e \<Rightarrow> io_of (Inl (Io e)))" for r :: "io_error + unit"
      by (auto intro: keeps_io_of split: sum.split io_error.split)
  qed
  have drop: "keeps (commit_inv p old) (publication_drop p)"
    unfolding publication_drop_def by (intro keeps_match keeps_io_of rm)
  show ?thesis
    unfolding publication_commit_def
    by (intro keeps_match link) (auto intro!: keeps_intros drop split: sum.split option.split)
qed

lemma commit_link_ok:
  assumes "commit_link p w = (Inr outcome, w')" and "fp_destination p \<noteq> fp_staging p"
    and "fp_destination p \<noteq> []"
  shows "\<exists>b. fs_get (tree w) (fp_staging p) = Some (Regular b) \<and> fs_get (tree w') (fp_staging p) = None
    \<and> (case outcome of
        Published \<Rightarrow> fs_get (tree w) (fp_destination p) = None
          \<and> fs_get (tree w') (fp_destination p) = Some (Regular b)
      | AlreadyPublished \<Rightarrow> fs_get (tree w) (fp_destination p) \<noteq> None
          \<and> fs_get (tree w') (fp_destination p) = fs_get (tree w) (fp_destination p))"
proof -
  from assms(1) obtain n w1 w2 w3 r u v where
    a: "file_call (stat_op (fp_staging p)) w = (Inr n, w1)" and b: "file_call sync_op w1 = (Inr u, w2)"
    and c: "syscall (hard_link_op (fp_staging p) (fp_destination p)) w2 = (r, w3)"
    and o: "(case r of Inr u \<Rightarrow> io_of (Inr Published) | Inl AlreadyExists \<Rightarrow> io_of (Inr AlreadyPublished)
        | Inl e \<Rightarrow> io_of (Inl (Io e))) w3 = (Inr outcome, w3)"
    and d: "file_call (remove_file_op (fp_staging p)) w3 = (Inr v, w')"
    unfolding commit_link_def
    by (elim io_bind_cases io_match_cases)
      (auto split: sum.splits io_error.splits simp del: split_paired_All)
  have t: "tree w2 = tree w"
    using a b by (elim file_call_cases) (auto simp: stat_op_def lstat_op_def sync_op_def rbind_eq_Inr
        split: option.splits if_splits)
  have rm: "tree w' = fs_del (fp_staging p) (tree w3)"
    using d by (elim file_call_cases) (auto simp: remove_file_ok)
  show ?thesis
    using c
  proof (cases rule: syscall_cases)
    case (err e)
    with o have e: "e = AlreadyExists" and out: "outcome = AlreadyPublished"
      by (auto split: io_error.splits)
    have "next_fault w2 = None"
      using c err(1) e by (auto simp: syscall_def split: option.splits)
    with err(3) e t have "hard_link_op (fp_staging p) (fp_destination p) (tree w) = Inl AlreadyExists"
      by simp
    then show ?thesis
      using out err(2) rm t assms(2,3) by (auto simp: hard_link_exists)
  next
    case (ok x ns)
    with o have "outcome = Published" by simp
    with ok t rm assms(2) show ?thesis by (auto simp: hard_link_ok)
  qed
qed

lemma commit_ok:
  assumes "publication_commit p w = (Inr outcome, w')"
  obtains w1 where "commit_link p w = (Inr outcome, w1)" and "tree w' = tree w1"
proof -
  obtain s w1 where s: "commit_link p w = (s, w1)" by (cases "commit_link p w")
  show thesis
  proof (cases s)
    case (Inl e)
    with assms s show ?thesis
      by (auto simp: publication_commit_def io_match_def io_bind_def split: prod.splits sum.splits)
  next
    case (Inr out)
    have "out = outcome \<and> tree w' = tree w1"
      using assms s Inr
      by (auto simp: publication_commit_def io_match_def split: option.splits elim!: io_bind_cases
          file_call_cases dest!: reads_only_ops [unfolded reads_only_def, rule_format])
    with s Inr that show ?thesis by simp
  qed
qed

text \<open>
  Committing never changes an existing destination and never touches another path,
  whichever call fails; a destination that was absent stays absent or holds exactly the
  staged bytes. \<open>Published\<close> is reported only when the destination was absent and now holds
  the staged bytes, \<open>AlreadyPublished\<close> only when it existed and is unchanged, and in both
  cases the staging name is gone.
\<close>

theorem commit_never_overwrites:
  assumes run: "publication_commit p w = (r, w')"
    and d: "fp_destination p \<noteq> fp_staging p" "fp_destination p \<noteq> []"
  shows "(\<forall>q. q \<noteq> fp_destination p \<and> q \<noteq> fp_staging p \<longrightarrow> fs_get (tree w') q = fs_get (tree w) q)
    \<and> (fs_get (tree w') (fp_destination p) = fs_get (tree w) (fp_destination p)
       \<or> fs_get (tree w) (fp_destination p) = None
         \<and> fs_get (tree w') (fp_destination p) = fs_get (tree w) (fp_staging p))
    \<and> (\<forall>outcome. r = Inr outcome \<longrightarrow>
        (\<exists>b. fs_get (tree w) (fp_staging p) = Some (Regular b)
         \<and> fs_get (tree w') (fp_staging p) = None
         \<and> (case outcome of
             Published \<Rightarrow> fs_get (tree w) (fp_destination p) = None
               \<and> fs_get (tree w') (fp_destination p) = Some (Regular b)
           | AlreadyPublished \<Rightarrow> fs_get (tree w) (fp_destination p) \<noteq> None
               \<and> fs_get (tree w') (fp_destination p) = fs_get (tree w) (fp_destination p))))"
proof -
  have inv: "commit_inv p (tree w) (tree w')"
    using keepsD [OF commit_keeps [OF d(1), of "tree w"] run] by (simp add: commit_inv_def)
  from inv have "fs_get (tree w') q = fs_get (tree w) q"
    if "q \<noteq> fp_destination p \<and> q \<noteq> fp_staging p" for q
    using that by (simp add: commit_inv_def)
  moreover from inv have "fs_get (tree w') (fp_destination p) = fs_get (tree w) (fp_destination p)
      \<or> fs_get (tree w) (fp_destination p) = None
        \<and> fs_get (tree w') (fp_destination p) = fs_get (tree w) (fp_staging p)"
    by (simp add: commit_inv_def)
  moreover have "\<exists>b. fs_get (tree w) (fp_staging p) = Some (Regular b)
      \<and> fs_get (tree w') (fp_staging p) = None
      \<and> (case outcome of
          Published \<Rightarrow> fs_get (tree w) (fp_destination p) = None
            \<and> fs_get (tree w') (fp_destination p) = Some (Regular b)
        | AlreadyPublished \<Rightarrow> fs_get (tree w) (fp_destination p) \<noteq> None
            \<and> fs_get (tree w') (fp_destination p) = fs_get (tree w) (fp_destination p))"
    if o: "r = Inr outcome" for outcome
  proof -
    obtain w1 where "commit_link p w = (Inr outcome, w1)" and t: "tree w' = tree w1"
      using commit_ok [OF run [unfolded o]] .
    from commit_link_ok [OF this(1) d] show ?thesis unfolding t .
  qed
  ultimately show ?thesis by blast
qed

definition example_publication :: file_publication where
  "example_publication = \<lparr>fp_destination = [''d'', ''part''], fp_staging = [''d'', ''.part.1.0.partial'']\<rparr>"

definition example_world :: world where
  "example_world =
     \<lparr>tree = [([''d''], Directory), ([''d'', ''.part.1.0.partial''], Regular [7])],
      staging_sequence = 1, process_id = 1, faults = []\<rparr>"

lemma example_calls:
  "stat_op [''d'', ''.part.1.0.partial''] (tree example_world) = Inr (Regular [7], tree example_world)"
  "hard_link_op [''d'', ''.part.1.0.partial''] [''d'', ''part''] (tree example_world) =
     Inr ((), fs_set [''d'', ''part''] (Regular [7]) (tree example_world))"
  "remove_file_op [''d'', ''.part.1.0.partial''] (fs_set [''d'', ''part''] (Regular [7]) (tree example_world)) =
     Inr ((), [([''d'', ''part''], Regular [7]), ([''d''], Directory)])"
  "stat_op [''d''] [([''d'', ''part''], Regular [7]), ([''d''], Directory)] =
     Inr (Directory, [([''d'', ''part''], Regular [7]), ([''d''], Directory)])"
  by (simp_all add: stat_op_def lstat_op_def canonicalize_def hard_link_op_def remove_file_op_def
      example_world_def fs_get_def fs_set_def fs_del_def dir_at_def)

lemma example_commit:
  "\<exists>w'. publication_commit example_publication example_world = (Inr Published, w')"
  using example_calls
  by (simp add: publication_commit_def io_match_def commit_link_def io_bind_def file_call_nofault
      syscall_nofault sync_op_def example_publication_def path_parent_def example_world_def)

lemma commit_never_overwrites_witness:
  "\<exists>w'. publication_commit example_publication example_world = (Inr Published, w')
     \<and> fs_get (tree w') [''d'', ''part''] = Some (Regular [7])"
proof -
  obtain w' where r: "publication_commit example_publication example_world = (Inr Published, w')"
    using example_commit by blast
  have "fs_get (tree example_world) [''d'', ''.part.1.0.partial''] = Some (Regular [7])"
    by (simp add: example_world_def fs_get_def)
  with commit_never_overwrites [OF r] have "fs_get (tree w') [''d'', ''part''] = Some (Regular [7])"
    by (auto simp: example_publication_def)
  with r show ?thesis by blast
qed

subsection \<open>Concurrent commits\<close>

text \<open>
  Processes numbered by \<open>nat\<close>, each with its own staging name, commit to one destination. A
  step is one process making its next call of \<open>commit\<close>, or stopping for good; the calls of
  different processes interleave arbitrarily.
\<close>

datatype publisher = Staged | Linked publish_outcome | Done publish_outcome | Stopped

record race =
  race_tree :: files
  publishers :: "nat \<Rightarrow> publisher"

inductive race_step :: "path \<Rightarrow> (nat \<Rightarrow> path) \<Rightarrow> race \<Rightarrow> race \<Rightarrow> bool" for dest staging where
  link: "publishers s i = Staged \<Longrightarrow> hard_link_op (staging i) dest (race_tree s) = Inr (u, ns) \<Longrightarrow>
    race_step dest staging s
      (s\<lparr>race_tree := ns, publishers := (publishers s)(i := Linked Published)\<rparr>)"
| exists: "publishers s i = Staged \<Longrightarrow>
    hard_link_op (staging i) dest (race_tree s) = Inl AlreadyExists \<Longrightarrow>
    race_step dest staging s (s\<lparr>publishers := (publishers s)(i := Linked AlreadyPublished)\<rparr>)"
| cleanup: "publishers s i = Linked out \<Longrightarrow>
    remove_file_op (staging i) (race_tree s) = Inr (u, ns) \<Longrightarrow>
    race_step dest staging s (s\<lparr>race_tree := ns, publishers := (publishers s)(i := Done out)\<rparr>)"
| stop: "race_step dest staging s (s\<lparr>publishers := (publishers s)(i := Stopped)\<rparr>)"
| drop: "publishers s i = Staged \<or> publishers s i = Linked out \<Longrightarrow>
    remove_file_op (staging i) (race_tree s) = Inr (u, ns) \<Longrightarrow>
    race_step dest staging s (s\<lparr>race_tree := ns, publishers := (publishers s)(i := Stopped)\<rparr>)"

inductive race_reachable :: "path \<Rightarrow> (nat \<Rightarrow> path) \<Rightarrow> files \<Rightarrow> race \<Rightarrow> bool" for dest staging start where
  init: "race_reachable dest staging start \<lparr>race_tree = start, publishers = (\<lambda>i. Staged)\<rparr>"
| step: "race_reachable dest staging start s \<Longrightarrow> race_step dest staging s t \<Longrightarrow>
    race_reachable dest staging start t"

inductive_cases race_stepE: "race_step dest staging s t"

definition published_by :: "race \<Rightarrow> nat \<Rightarrow> bool" where
  "published_by s i \<longleftrightarrow> publishers s i \<in> {Linked Published, Done Published}"

text \<open>
  The winner, if there is one, is remembered by the destination: either the destination is
  as at the start and nobody has been told \<open>Published\<close>, or it was absent and holds the bytes
  of one process, the only one that may have been told so.
\<close>

definition race_inv :: "path \<Rightarrow> (nat \<Rightarrow> path) \<Rightarrow> files \<Rightarrow> race \<Rightarrow> bool" where
  "race_inv dest staging start s \<longleftrightarrow>
     (\<forall>i. fs_get (race_tree s) (staging i) \<in> {fs_get start (staging i), None})
     \<and> (fs_get (race_tree s) dest = fs_get start dest \<and> (\<forall>i. \<not> published_by s i)
        \<or> fs_get start dest = None \<and>
          (\<exists>w b. fs_get start (staging w) = Some (Regular b)
             \<and> fs_get (race_tree s) dest = Some (Regular b)
             \<and> (\<forall>i. published_by s i \<longrightarrow> i = w)))"

lemma race_inv_init:
  "race_inv dest staging start \<lparr>race_tree = start, publishers = (\<lambda>i. Staged)\<rparr>"
  by (simp add: race_inv_def published_by_def)

lemma race_inv_fewer:
  assumes inv: "race_inv dest staging start s"
    and "\<And>i. published_by t i \<Longrightarrow> published_by s i"
    and "fs_get (race_tree t) dest = fs_get (race_tree s) dest"
    and "\<And>i. fs_get (race_tree t) (staging i) \<in> {fs_get (race_tree s) (staging i), None}"
  shows "race_inv dest staging start t"
proof -
  have "fs_get (race_tree t) (staging i) \<in> {fs_get start (staging i), None}" for i
  proof -
    from inv have "fs_get (race_tree s) (staging i) \<in> {fs_get start (staging i), None}"
      by (simp add: race_inv_def)
    with assms(4) [of i] show ?thesis by (metis insert_iff singletonD)
  qed
  moreover from inv consider
      "fs_get (race_tree s) dest = fs_get start dest" "\<forall>i. \<not> published_by s i"
    | w b where "fs_get start dest = None" "fs_get start (staging w) = Some (Regular b)"
        "fs_get (race_tree s) dest = Some (Regular b)" "\<forall>i. published_by s i \<longrightarrow> i = w"
    unfolding race_inv_def by blast
  then have "fs_get (race_tree t) dest = fs_get start dest \<and> (\<forall>i. \<not> published_by t i)
      \<or> fs_get start dest = None \<and>
        (\<exists>w b. fs_get start (staging w) = Some (Regular b)
           \<and> fs_get (race_tree t) dest = Some (Regular b) \<and> (\<forall>i. published_by t i \<longrightarrow> i = w))"
    by cases (use assms(2,3) in metis)+
  ultimately show ?thesis unfolding race_inv_def by blast
qed

lemma race_step_inv:
  assumes step: "race_step dest staging s t" and inv: "race_inv dest staging start s"
    and names: "\<And>i. staging i \<noteq> dest" "inj staging"
  shows "race_inv dest staging start t"
  using step
proof (cases rule: race_step.cases)
  case (link i u ns)
  then obtain b where b: "fs_get (race_tree s) (staging i) = Some (Regular b)"
    and d: "fs_get (race_tree s) dest = None" and ns: "ns = fs_set dest (Regular b) (race_tree s)"
    by (auto simp: hard_link_ok)
  from inv b have "fs_get start (staging i) = Some (Regular b)"
    by (auto simp: race_inv_def dest!: spec [of _ i])
  moreover from inv d have "fs_get start dest = None" "\<forall>j. \<not> published_by s j"
    by (auto simp: race_inv_def)
  moreover have "fs_get ns (staging j) = fs_get (race_tree s) (staging j)" for j
    using names(1) by (simp add: ns)
  ultimately show ?thesis
    using inv by (auto simp: race_inv_def link ns published_by_def split: if_splits)
next
  case (exists i)
  then show ?thesis
    by (intro race_inv_fewer [OF inv]) (auto simp: published_by_def split: if_splits)
next
  case (cleanup i out u ns)
  then have "ns = fs_del (staging i) (race_tree s)" by (auto simp: remove_file_ok)
  with cleanup names(1) [of i] show ?thesis
    by (intro race_inv_fewer [OF inv]) (auto simp: published_by_def split: if_splits)
next
  case (stop i)
  then show ?thesis
    by (intro race_inv_fewer [OF inv]) (auto simp: published_by_def split: if_splits)
next
  case (drop i out u ns)
  then have "ns = fs_del (staging i) (race_tree s)" by (auto simp: remove_file_ok)
  with drop(1) names(1) [of i] show ?thesis
    by (intro race_inv_fewer [OF inv]) (auto simp: published_by_def split: if_splits)
qed

lemma race_reachable_inv:
  assumes "race_reachable dest staging start s"
    and "\<And>i. staging i \<noteq> dest" "inj staging"
  shows "race_inv dest staging start s"
  using assms(1) by induction (auto intro: race_inv_init race_step_inv [OF _ _ assms(2,3)])

text \<open>
  C27: however the calls of concurrent publishers interleave, and whichever of them stop, at
  most one is told \<open>Published\<close>; when one is, the destination was absent at the start and holds
  exactly the bytes that process staged; and a destination that existed never changes.
\<close>

theorem one_publisher_wins:
  assumes "race_reachable dest staging start s"
    and "\<And>i. staging i \<noteq> dest" "inj staging"
  shows "(\<forall>i j. published_by s i \<and> published_by s j \<longrightarrow> i = j)
    \<and> (\<forall>i. published_by s i \<longrightarrow> fs_get start dest = None
         \<and> fs_get (race_tree s) dest = fs_get start (staging i) \<and> fs_get (race_tree s) dest \<noteq> None)
    \<and> (fs_get start dest \<noteq> None \<longrightarrow> fs_get (race_tree s) dest = fs_get start dest)"
proof -
  from race_reachable_inv [OF assms] consider
      "fs_get (race_tree s) dest = fs_get start dest" "\<forall>i. \<not> published_by s i"
    | w b where "fs_get start dest = None" "fs_get start (staging w) = Some (Regular b)"
        "fs_get (race_tree s) dest = Some (Regular b)" "\<forall>i. published_by s i \<longrightarrow> i = w"
    unfolding race_inv_def by blast
  then show ?thesis by cases auto
qed

lemma one_publisher_wins_witness:
  fixes staging :: "nat \<Rightarrow> path"
  defines "staging \<equiv> \<lambda>i. [''d'', replicate i (CHR ''x'')]"
    and "start \<equiv> [([''d''], Directory), ([''d'', []], Regular [1]), ([''d'', ''x''], Regular [2])]"
  shows "\<exists>s. race_reachable [''d'', ''part''] staging start s \<and> published_by s 0
    \<and> fs_get (race_tree s) [''d'', ''part''] = Some (Regular [1])"
proof -
  let ?d = "[''d'', ''part'']" and ?i = "\<lparr>race_tree = start, publishers = (\<lambda>i. Staged)\<rparr>"
  have ne: "staging i \<noteq> ?d" for i by (cases i) (auto simp: staging_def)
  have inj: "inj staging" by (auto simp: staging_def inj_on_def)
  define t where "t = \<lparr>race_tree = fs_set ?d (Regular [1]) start,
    publishers = (publishers ?i)(0 := Linked Published)\<rparr>"
  have "hard_link_op (staging 0) ?d start = Inr ((), fs_set ?d (Regular [1]) start)"
    by (simp add: hard_link_op_def staging_def start_def fs_get_def dir_at_def)
  then have "race_step ?d staging ?i t"
    using race_step.link [of ?i 0 staging ?d "()"] by (simp add: t_def)
  then have r: "race_reachable ?d staging start t" by (rule race_reachable.step [OF race_reachable.init])
  have p: "published_by t 0" by (simp add: published_by_def t_def)
  from one_publisher_wins [OF r ne inj] p
  have "fs_get (race_tree t) ?d = fs_get start (staging 0)" by blast
  also have "\<dots> = Some (Regular [1])" by (simp add: start_def staging_def fs_get_def)
  finally show ?thesis using r p by blast
qed

end
