(* ===== verification/Scheduler.thy ===== *)
theory Scheduler
  imports Task_Run Shard_Parts Publication
begin

text \<open>
  What running an embedding task guarantees. The loop of theory \<open>Task_Run\<close> is a step relation
  whose steps join any batch in flight; the invariant of its reachable states bounds the
  memory it holds and shows that it is never stuck. Every order of completion writes the same
  rows, and a task that succeeds leaves the encoded shard of its batches at its destination.
\<close>

subsection \<open>The batches of a task\<close>

lemma batch_texts_alt:
  "batch_texts options texts k = take (to_batch_size options) (drop (k * to_batch_size options) texts)"
  by (simp add: batch_texts_def batch_start_def batch_end_def min_def)

lemma batch_prefix:
  "concat (map (batch_texts options texts) [0..<n]) = take (n * to_batch_size options) texts"
  by (induction n) (simp_all add: batch_texts_alt add.commute flip: take_add)

lemma total_batches_cover:
  assumes "0 < to_batch_size options"
  shows "length texts \<le> total_batches options texts * to_batch_size options"
proof -
  let ?r = "length texts mod to_batch_size options" and ?q = "length texts div to_batch_size options"
  have r: "?r \<le> to_batch_size options"
    using mod_less_divisor [OF assms, of "length texts"] by (rule less_imp_le)
  have "length texts = ?q * to_batch_size options + ?r" by simp
  then have "length texts \<le> ?q * to_batch_size options + to_batch_size options" using r by linarith
  then show ?thesis
    using div_mult_mod_eq [of "length texts" "to_batch_size options"]
    unfolding total_batches_def by (cases "?r = 0") (simp_all add: add_mult_distrib)
qed

lemma total_batches_pos: "texts \<noteq> [] \<Longrightarrow> 0 < total_batches options texts"
  by (cases "length texts mod to_batch_size options = 0")
    (auto simp: total_batches_def mod_eq_0_iff_dvd dvd_div_eq_0_iff neq0_conv [symmetric]
      simp del: neq0_conv)

lemma batches_partition: "0 < to_batch_size options \<Longrightarrow>
    concat (map (batch_texts options texts) [0..<total_batches options texts]) = texts"
  by (simp add: batch_prefix total_batches_cover)

lemma attempt_loop_shape:
  "attempt_loop T retry ordinal start stop batch attempts reports backoff = Inr b \<Longrightarrow>
   cb_ordinal b = ordinal \<and> length (cb_vectors b) = length batch"
proof (induction T retry ordinal start stop batch attempts reports backoff rule: attempt_loop.induct)
  case (1 T retry ordinal start stop batch attempts reports backoff)
  show ?case
  proof (cases "te_embed T ordinal (attempts + 1) batch")
    case (Inl e)
    have c: "retry_class_of e = RetryTemporary \<and> attempts + 1 < rp_max_attempts retry"
      using 1(2) Inl by (auto simp: attempt_loop.simps [of _ _ _ _ _ _ attempts] split: if_splits)
    show ?thesis
      using 1(2) Inl c by (intro 1(1) [OF refl Inl c refl])
        (simp add: attempt_loop.simps [of _ _ _ _ _ _ attempts] Let_def)
  next
    case (Inr response)
    with 1(2) show ?thesis
      by (auto simp: attempt_loop.simps [of _ _ _ _ _ _ attempts] batch_success_def Let_def
          split: if_splits)
  qed
qed

lemma joined_shape:
  "joined_batch T options texts k = Inr b \<Longrightarrow>
   cb_ordinal b = k \<and> length (cb_vectors b) = length (batch_texts options texts k)"
  by (auto simp: joined_batch_def batch_result_def dest: attempt_loop_shape split: option.splits)

subsection \<open>Slots\<close>

text \<open>
  The batches spawned and not yet written are in flight or in the reorder buffer, each once;
  the limits hold.
\<close>

definition slots_ok :: "nat \<Rightarrow> nat \<Rightarrow> task_state \<Rightarrow> bool" where
  "slots_ok m n s \<longleftrightarrow>
     distinct (ts_in_flight s) \<and> ts_active s = length (ts_in_flight s) \<and> bt_ok (ts_completed s)
     \<and> ts_next_write s \<le> ts_next_spawn s \<and> ts_next_spawn s \<le> n
     \<and> set (ts_in_flight s) \<union> dom (bt_get (ts_completed s)) = {ts_next_write s ..< ts_next_spawn s}
     \<and> set (ts_in_flight s) \<inter> dom (bt_get (ts_completed s)) = {}
     \<and> ts_active s \<le> m \<and> ts_active s + length (ts_completed s) < 2 * m
     \<and> ts_active s \<le> ts_peak_in_flight s \<and> ts_peak_in_flight s \<le> m"

definition buffered_from ::
    "task_env \<Rightarrow> task_options \<Rightarrow> string list \<Rightarrow> task_state \<Rightarrow> bool" where
  "buffered_from T options texts s \<longleftrightarrow>
     (\<forall>k b. bt_get (ts_completed s) k = Some b \<longrightarrow> joined_batch T options texts k = Inr b)"

text \<open>At the head of the loop the next batch to write is missing and no slot is free.\<close>

definition at_head :: "nat \<Rightarrow> nat \<Rightarrow> task_state \<Rightarrow> bool" where
  "at_head m n s \<longleftrightarrow>
     bt_get (ts_completed s) (ts_next_write s) = None
     \<and> \<not> (ts_active s < m \<and> ts_next_spawn s < n \<and> length (ts_completed s) < m)"

lemma spawn_slots:
  assumes "slots_ok m n s" and "ts_active s < m" "ts_next_spawn s < n" "length (ts_completed s) < m"
  shows "slots_ok m n (spawn_next s)"
proof -
  let ?D = "dom (bt_get (ts_completed s))"
  have eq: "set (ts_in_flight s) \<union> ?D = {ts_next_write s ..< ts_next_spawn s}"
    using assms(1) by (simp add: slots_ok_def)
  then have "ts_next_spawn s \<notin> set (ts_in_flight s)" "ts_next_spawn s \<notin> ?D" by auto
  moreover have "set (ts_in_flight s @ [ts_next_spawn s]) \<union> ?D = {ts_next_write s ..< ts_next_spawn s + 1}"
    using eq assms(1) by (auto simp: slots_ok_def)
  ultimately show ?thesis
    using assms unfolding slots_ok_def spawn_next_def by auto
qed

lemma refill_slots:
  "slots_ok m n s \<Longrightarrow> slots_ok m n (refill m n s)
   \<and> \<not> (ts_active (refill m n s) < m \<and> ts_next_spawn (refill m n s) < n
         \<and> length (ts_completed (refill m n s)) < m)"
proof (induction m n s rule: refill.induct)
  case (1 m n s)
  show ?case
  proof (cases "ts_active s < m \<and> ts_next_spawn s < n \<and> length (ts_completed s) < m")
    case True
    then have "refill m n s = refill m n (spawn_next s)" by (subst refill.simps) (rule if_P)
    with 1 True spawn_slots show ?thesis by simp
  next
    case False
    then have "refill m n s = s" by (subst refill.simps) (rule if_not_P)
    with 1(2) False show ?thesis by simp
  qed
qed

lemma refill_rule: "P s \<Longrightarrow> (\<And>s. P s \<Longrightarrow> P (spawn_next s)) \<Longrightarrow> P (refill m n s)"
proof (induction m n s rule: refill.induct)
  case (1 m n s)
  show ?case
  proof (cases "ts_active s < m \<and> ts_next_spawn s < n \<and> length (ts_completed s) < m")
    case True
    then have "refill m n s = refill m n (spawn_next s)" by (subst refill.simps) (rule if_P)
    with 1 True show ?thesis by simp
  next
    case False
    then have "refill m n s = s" by (subst refill.simps) (rule if_not_P)
    with 1(2) show ?thesis by simp
  qed
qed

lemma refill_keeps:
  "ts_completed (refill m n s) = ts_completed s" "ts_next_write (refill m n s) = ts_next_write s"
  "ts_requests (refill m n s) = ts_requests s" "ts_retries (refill m n s) = ts_retries s"
  "ts_returned_model (refill m n s) = ts_returned_model s"
  "ts_batch_reports (refill m n s) = ts_batch_reports s" "ts_writer (refill m n s) = ts_writer s"
  by (rule refill_rule; simp add: spawn_next_def)+

lemma first_fill_refill: "length (ts_completed s) < m \<Longrightarrow> first_fill m n s = refill m n s"
proof (induction m n s rule: first_fill.induct)
  case (1 m n s)
  then show ?case
    by (subst first_fill.simps, subst refill.simps) (simp add: spawn_next_def)
qed

lemma write_completed_rule:
  assumes "write_completed p s w = (Inr s', w')" and "P s w"
    and "\<And>s w b sw w1. P s w \<Longrightarrow> bt_get (ts_completed s) (ts_next_write s) = Some b \<Longrightarrow>
      \<not> model_mismatch p s b \<Longrightarrow>
      write_batch (unat (ep_dimensions p)) (ep_normalization p) (ts_writer s) (cb_vectors b) w
        = (Inr sw, w1) \<Longrightarrow>
      P ((account_batch s b)\<lparr>ts_writer := sw, ts_next_write := ts_next_write s + 1\<rparr>) w1"
  shows "P s' w' \<and> bt_get (ts_completed s') (ts_next_write s') = None"
  using assms
proof (induction p s w rule: write_completed.induct)
  case (1 p s w)
  show ?case
  proof (cases "bt_get (ts_completed s) (ts_next_write s)")
    case None
    with 1(2,3) show ?thesis by (simp add: write_completed.simps [of p s w])
  next
    case (Some b)
    with 1(2) obtain sw w1 where b: "\<not> model_mismatch p s b"
      and wb: "write_batch (unat (ep_dimensions p)) (ep_normalization p) (ts_writer s)
          (cb_vectors b) w = (Inr sw, w1)"
      and r: "write_completed p
          ((account_batch s b)\<lparr>ts_writer := sw, ts_next_write := ts_next_write s + 1\<rparr>) w1 = (Inr s', w')"
      by (auto simp: write_completed.simps [of p s w] split: if_splits prod.splits sum.splits)
    show ?thesis by (rule 1(1) [OF Some b wb [symmetric] refl r 1(4) [OF 1(3) Some b wb] 1(4)])
  qed
qed

lemma account_slots:
  assumes "slots_ok m n s" and b: "bt_get (ts_completed s) (ts_next_write s) = Some b"
  shows "slots_ok m n ((account_batch s b)\<lparr>ts_writer := sw, ts_next_write := ts_next_write s + 1\<rparr>)"
proof -
  let ?c = "ts_completed s" and ?k = "ts_next_write s"
  from b have k: "?k \<in> dom (bt_get ?c)" by auto
  have eq: "set (ts_in_flight s) \<union> dom (bt_get ?c) = {?k ..< ts_next_spawn s}"
    and dis: "set (ts_in_flight s) \<inter> dom (bt_get ?c) = {}"
    using assms(1) by (simp_all add: slots_ok_def)
  have "?k \<in> {?k ..< ts_next_spawn s}" using k eq by blast
  then have k': "Suc ?k \<le> ts_next_spawn s" by simp
  have dom: "dom (bt_get (bt_remove ?k ?c)) = dom (bt_get ?c) - {?k}"
    by (auto simp: bt_remove_get)
  have eq': "set (ts_in_flight s) \<union> (dom (bt_get ?c) - {?k}) = {Suc ?k ..< ts_next_spawn s}"
  proof -
    have "set (ts_in_flight s) \<union> (dom (bt_get ?c) - {?k}) = {?k ..< ts_next_spawn s} - {?k}"
      using eq dis k by blast
    moreover have "{k ..< n} - {k} = {Suc k ..< n}" for k n :: nat by auto
    ultimately show ?thesis by (simp only:)
  qed
  have dis': "set (ts_in_flight s) \<inter> (dom (bt_get ?c) - {?k}) = {}" using dis by blast
  have l: "ts_active s + length (bt_remove ?k ?c) < 2 * m"
    using assms(1) bt_remove_shorter [OF b] by (simp add: slots_ok_def)
  show ?thesis
    using assms(1) l k' eq' dis'
    by (simp add: slots_ok_def account_batch_def dom bt_remove_ok)
qed

lemma join_slots:
  fixes b :: completed_batch
  assumes "slots_ok m n s" and o: "ordinal \<in> set (ts_in_flight s)"
  defines "s1 \<equiv> s\<lparr>ts_in_flight := remove1 ordinal (ts_in_flight s), ts_active := ts_active s - 1,
      ts_completed := bt_insert ordinal b (ts_completed s)\<rparr>"
  shows "slots_ok m n s1"
proof -
  have d: "distinct (ts_in_flight s)" and ok: "bt_ok (ts_completed s)"
    and eq: "set (ts_in_flight s) \<union> dom (bt_get (ts_completed s)) = {ts_next_write s ..< ts_next_spawn s}"
    and dis: "set (ts_in_flight s) \<inter> dom (bt_get (ts_completed s)) = {}"
    and lim: "ts_active s = length (ts_in_flight s)" "ts_active s + length (ts_completed s) < 2 * m"
    using assms(1) by (simp_all add: slots_ok_def)
  have dom: "dom (bt_get (bt_insert ordinal b (ts_completed s))) = insert ordinal (dom (bt_get (ts_completed s)))"
    by (simp add: bt_insert_get [OF ok])
  have fresh: "ordinal \<notin> dom (bt_get (ts_completed s))" using o dis by blast
  have fin: "finite (dom (bt_get (ts_completed s)))"
    by (simp add: bt_get_def [abs_def] finite_dom_map_of)
  have "length (bt_insert ordinal b (ts_completed s)) = Suc (length (ts_completed s))"
    by (simp only: bt_length ok bt_insert_ok dom card_insert_disjoint [OF fin fresh])
  moreover have "0 < length (ts_in_flight s)" using o by (auto intro: length_pos_if_in_set)
  ultimately have l: "ts_active s - 1 + length (bt_insert ordinal b (ts_completed s)) < 2 * m"
    using lim by arith
  have l': "ts_active s - 1 = length (remove1 ordinal (ts_in_flight s))"
    using lim(1) o by (simp add: length_remove1)
  have eq': "(set (ts_in_flight s) - {ordinal}) \<union> insert ordinal (dom (bt_get (ts_completed s)))
      = {ts_next_write s ..< ts_next_spawn s}"
    using eq o by blast
  have dis': "(set (ts_in_flight s) - {ordinal}) \<inter> insert ordinal (dom (bt_get (ts_completed s))) = {}"
    using dis by blast
  have "ts_active s \<le> m" "ts_active s \<le> ts_peak_in_flight s"
    using assms(1) by (simp_all add: slots_ok_def)
  then have lim': "ts_active s - 1 \<le> m" "ts_active s - 1 \<le> ts_peak_in_flight s" by linarith+
  show ?thesis
    using assms(1) l l' eq' dis' lim' d
    by (simp add: slots_ok_def s1_def dom bt_insert_ok distinct_remove1)
qed

subsection \<open>Rows written and counters\<close>

abbreviation batch_at :: "task_env \<Rightarrow> task_options \<Rightarrow> string list \<Rightarrow> nat \<Rightarrow> completed_batch" where
  "batch_at T options texts k \<equiv> projr (joined_batch T options texts k)"

definition batches_upto :: "task_env \<Rightarrow> task_options \<Rightarrow> string list \<Rightarrow> nat \<Rightarrow> completed_batch list" where
  "batches_upto T options texts n = map (batch_at T options texts) [0..<n]"

text \<open>A batch that may be written: it succeeded, names the model and its vectors are valid.\<close>

definition batch_good ::
    "task_env \<Rightarrow> embedding_profile \<Rightarrow> task_options \<Rightarrow> string list \<Rightarrow> nat \<Rightarrow> bool" where
  "batch_good T p options texts k \<longleftrightarrow>
     (\<exists>b. joined_batch T options texts k = Inr b \<and> cb_returned_model b = ep_model p
       \<and> list_all (\<lambda>v. validate_vector v (unat (ep_dimensions p)) (ep_normalization p) = Inr ())
           (cb_vectors b))"

definition accounted ::
    "task_env \<Rightarrow> embedding_profile \<Rightarrow> task_options \<Rightarrow> string list \<Rightarrow> task_state \<Rightarrow> bool" where
  "accounted T p options texts s \<longleftrightarrow>
     (let bs = batches_upto T options texts (ts_next_write s)
      in (\<forall>k < ts_next_write s. batch_good T p options texts k)
       \<and> ts_requests s = sum_list (map cb_attempts bs)
       \<and> ts_retries s = sum_list (map (\<lambda>b. cb_attempts b - 1) bs)
       \<and> ts_batch_reports s = map cb_report bs
       \<and> ts_returned_model s = (if ts_next_write s = 0 then None else Some (ep_model p)))"

definition rows_upto :: "task_env \<Rightarrow> task_options \<Rightarrow> string list \<Rightarrow> nat \<Rightarrow> u32 list list" where
  "rows_upto T options texts n = concat (map cb_vectors (batches_upto T options texts n))"

lemma batches_upto_Suc:
  "batches_upto T options texts (Suc n) = batches_upto T options texts n @ [batch_at T options texts n]"
  by (simp add: batches_upto_def)

text \<open>The staging file holds the header and the rows written, and nothing else has changed.\<close>

definition staged ::
    "path \<Rightarrow> shard_metadata \<Rightarrow> files \<Rightarrow> u32 list list \<Rightarrow> shard_writer \<Rightarrow> files \<Rightarrow> bool" where
  "staged q md ns0 rows sw ns \<longleftrightarrow>
     sw_file sw = q \<and> sw_metadata sw = md \<and> unat (sw_rows_written sw) = length rows
     \<and> list_all (row_ok (unat (sm_dimensions md))) rows
     \<and> fs_get ns q = Some (Regular (encode_header md @ concat (map encode_row rows)))
     \<and> (\<forall>r. r \<noteq> q \<longrightarrow> fs_get ns r = fs_get ns0 r)"

lemma write_batch_eq:
  "write_batch d nrm sw vs w = (Inr sw', w') \<longleftrightarrow>
     list_all (\<lambda>v. validate_vector v d nrm = Inr ()) vs \<and> write_rows sw vs w = (Inr sw', w')"
proof (induction vs arbitrary: sw w)
  case (Cons v vs)
  show ?case
    by (cases "validate_vector v d nrm") (auto simp: io_bind_def Cons split: prod.splits sum.splits)
qed simp

definition only_at :: "path \<Rightarrow> files \<Rightarrow> files \<Rightarrow> bool" where
  "only_at q ns0 ns \<longleftrightarrow> (\<forall>r. r \<noteq> q \<longrightarrow> fs_get ns r = fs_get ns0 r)"

lemma keeps_only_at_append: "append_op q b ns = Inr (u, ns') \<Longrightarrow> only_at q ns0 ns \<Longrightarrow> only_at q ns0 ns'"
  by (auto simp: append_ok only_at_def)

lemma keeps_write_values: "keeps (only_at q ns0) (write_values q xs)"
proof (induction xs)
  case (Cons x xs)
  have "keeps (only_at q ns0) (write_all q (u32_to_le x))"
    by (rule keeps_write_all) (rule keeps_only_at_append)
  with Cons show ?case
    unfolding write_values.simps by (intro keeps_bind keeps_err)
qed (simp only: write_values.simps keeps_io_of)

lemma write_rows_only_at:
  "write_rows sw vs w = (r, w') \<Longrightarrow> only_at (sw_file sw) ns0 (tree w) \<Longrightarrow> only_at (sw_file sw) ns0 (tree w')"
proof (induction vs arbitrary: sw w)
  case (Cons v vs)
  have k: "keeps (only_at (sw_file sw) ns0) (write_vector sw v)"
    unfolding write_vector_def by (intro keeps_intros keeps_write_values)
  from Cons.prems(1) show ?case
    unfolding write_rows.simps
  proof (cases rule: io_bind_cases)
    case (err e)
    with keepsD [OF k] Cons.prems(2) show ?thesis by blast
  next
    case (ok sw1 w1)
    then have "sw_file sw1 = sw_file sw"
      unfolding write_vector_def by (auto split: if_splits elim!: io_bind_cases)
    with Cons.IH [OF ok(2)] keepsD [OF k ok(1) Cons.prems(2)] show ?thesis by simp
  qed
qed simp

lemma write_batch_staged:
  assumes "write_batch d nrm sw vs w = (Inr sw', w')" and "staged q md ns0 rows sw (tree w)"
  shows "staged q md ns0 (rows @ vs) sw' (tree w')"
    and "list_all (\<lambda>v. validate_vector v d nrm = Inr ()) vs"
proof -
  from assms(1) show "list_all (\<lambda>v. validate_vector v d nrm = Inr ()) vs"
    by (simp add: write_batch_eq)
  from assms(1) have r: "write_rows sw vs w = (Inr sw', w')" by (simp add: write_batch_eq)
  from assms(2) have s: "sw_file sw = q" "sw_metadata sw = md" "unat (sw_rows_written sw) = length rows"
    "list_all (row_ok (unat (sm_dimensions md))) rows"
    "fs_get (tree w) (sw_file sw) = Some (Regular (encode_header md @ concat (map encode_row rows)))"
    and o: "only_at (sw_file sw) ns0 (tree w)"
    by (auto simp: staged_def only_at_def)
  from write_rows_ok [OF r s(5)] write_rows_only_at [OF r o] s(1-4)
  show "staged q md ns0 (rows @ vs) sw' (tree w')"
    by (simp add: staged_def only_at_def)
qed

subsection \<open>The invariant\<close>

definition task_inv ::
    "task_env \<Rightarrow> embedding_profile \<Rightarrow> task_options \<Rightarrow> string list \<Rightarrow> path \<Rightarrow> shard_metadata \<Rightarrow> files
     \<Rightarrow> task_state \<Rightarrow> world \<Rightarrow> bool" where
  "task_inv T p options texts q md ns0 s w \<longleftrightarrow>
     slots_ok (to_max_in_flight options) (total_batches options texts) s
     \<and> buffered_from T options texts s \<and> accounted T p options texts s
     \<and> staged q md ns0 (rows_upto T options texts (ts_next_write s)) (ts_writer s) (tree w)"

lemma account_inv:
  assumes inv: "task_inv T p options texts q md ns0 s w"
    and b: "bt_get (ts_completed s) (ts_next_write s) = Some b" and m: "\<not> model_mismatch p s b"
    and wb: "write_batch (unat (ep_dimensions p)) (ep_normalization p) (ts_writer s) (cb_vectors b) w
        = (Inr sw, w1)"
  shows "task_inv T p options texts q md ns0
     ((account_batch s b)\<lparr>ts_writer := sw, ts_next_write := ts_next_write s + 1\<rparr>) w1"
proof -
  let ?k = "ts_next_write s"
  from inv b have j: "joined_batch T options texts ?k = Inr b"
    by (simp add: task_inv_def buffered_from_def)
  have st: "staged q md ns0 (rows_upto T options texts ?k) (ts_writer s) (tree w)"
    using inv by (simp add: task_inv_def)
  from write_batch_staged [OF wb st] j m
  have g: "batch_good T p options texts ?k"
    and st': "staged q md ns0 (rows_upto T options texts (Suc ?k)) sw (tree w1)"
    by (auto simp: batch_good_def model_mismatch_def rows_upto_def batches_upto_Suc)
  have "accounted T p options texts
      ((account_batch s b)\<lparr>ts_writer := sw, ts_next_write := ts_next_write s + 1\<rparr>)"
    using inv g m j
    by (auto simp: task_inv_def accounted_def Let_def account_batch_def batches_upto_Suc
        model_mismatch_def less_Suc_eq)
  moreover have "buffered_from T options texts
      ((account_batch s b)\<lparr>ts_writer := sw, ts_next_write := ts_next_write s + 1\<rparr>)"
    using inv by (auto simp: task_inv_def buffered_from_def account_batch_def bt_remove_get split: if_splits)
  ultimately show ?thesis
    using inv account_slots [OF _ b] st' by (simp add: task_inv_def)
qed

lemma join_step_inv:
  assumes inv: "task_inv T p options texts q md ns0 s w" and o: "ordinal \<in> set (ts_in_flight s)"
    and step: "join_step T p options texts ordinal s w = (Inr s', w')"
  shows "task_inv T p options texts q md ns0 s' w'
    \<and> at_head (to_max_in_flight options) (total_batches options texts) s'"
proof -
  let ?M = "to_max_in_flight options" and ?n = "total_batches options texts"
  from step obtain b s2 where j: "joined_batch T options texts ordinal = Inr b"
    and wc: "write_completed p
       (s\<lparr>ts_in_flight := remove1 ordinal (ts_in_flight s), ts_active := ts_active s - 1,
          ts_completed := bt_insert (cb_ordinal b) b (ts_completed s)\<rparr>) w = (Inr s2, w')"
    and s': "s' = refill ?M ?n s2"
    unfolding join_step_def by (elim io_bind_cases) (auto split: if_splits elim!: io_bind_cases)
  have ord: "cb_ordinal b = ordinal" using joined_shape [OF j] by simp
  let ?s1 = "s\<lparr>ts_in_flight := remove1 ordinal (ts_in_flight s), ts_active := ts_active s - 1,
      ts_completed := bt_insert ordinal b (ts_completed s)\<rparr>"
  have "bt_ok (ts_completed s)" using inv by (simp add: task_inv_def slots_ok_def)
  then have "task_inv T p options texts q md ns0 ?s1 w"
    using inv join_slots [OF _ o, of ?M ?n b] j
    by (auto simp: task_inv_def buffered_from_def accounted_def bt_insert_get split: if_splits)
  then have "task_inv T p options texts q md ns0 s2 w'
      \<and> bt_get (ts_completed s2) (ts_next_write s2) = None"
    by (rule write_completed_rule [OF wc [unfolded ord], where P = "task_inv T p options texts q md ns0"])
      (rule account_inv)
  then have i2: "task_inv T p options texts q md ns0 s2 w'"
    and h: "bt_get (ts_completed s2) (ts_next_write s2) = None" by blast+
  from refill_slots [of ?M ?n s2] i2 h show ?thesis
    by (auto simp: s' task_inv_def at_head_def refill_keeps buffered_from_def accounted_def)
qed

definition start_state :: "task_options \<Rightarrow> string list \<Rightarrow> shard_writer \<Rightarrow> task_state" where
  "start_state options texts sw =
     first_fill (to_max_in_flight options) (total_batches options texts) (initial_state sw)"

lemma start_inv:
  assumes "staged q md ns0 [] sw (tree w)" and m: "0 < to_max_in_flight options"
  shows "task_inv T p options texts q md ns0 (start_state options texts sw) w
    \<and> at_head (to_max_in_flight options) (total_batches options texts) (start_state options texts sw)"
proof -
  let ?s = "initial_state sw" and ?M = "to_max_in_flight options" and ?n = "total_batches options texts"
  have f: "start_state options texts sw = refill ?M ?n ?s"
    unfolding start_state_def by (rule first_fill_refill) (simp add: initial_state_def m)
  have "slots_ok ?M ?n ?s"
    using m by (simp add: slots_ok_def initial_state_def bt_ok_def bt_get_def [abs_def])
  from refill_slots [OF this] assms show ?thesis
    unfolding f task_inv_def at_head_def
    by (simp add: refill_keeps initial_state_def buffered_from_def accounted_def rows_upto_def
        batches_upto_def bt_get_def)
qed

lemma writer_create_staged:
  assumes "writer_create f md w = (Inr sw, w0)"
  shows "staged (sw_file sw) md (tree w) [] sw (tree w0)"
    and "canonicalize (tree w) f = Inr (sw_file sw)"
    and "\<exists>b. fs_get (tree w) (sw_file sw) = Some (Regular b)"
proof -
  from assms obtain w1 u where
    t: "file_call (truncate_op f) w = (Inr (sw_file sw), w1)"
    and h: "io_err Io (write_all (sw_file sw) (encode_header md)) w1 = (Inr u, w0)"
    and sw: "sw_metadata sw = md" "sw_rows_written sw = 0"
    unfolding writer_create_def by (auto split: if_splits elim!: io_bind_cases)
  from t have op: "truncate_op f (tree w) = Inr (sw_file sw, tree w1)"
    by (auto elim: file_call_cases)
  then obtain x where x: "canonicalize (tree w) f = Inr x"
    and c: "(case fs_get (tree w) x of Some (Regular b) \<Rightarrow> Inr (x, fs_set x (Regular []) (tree w))
      | _ \<Rightarrow> Inl OtherIo) = Inr (sw_file sw, tree w1)"
    unfolding truncate_op_def rbind_eq_Inr by blast
  from c have w1: "tree w1 = fs_set (sw_file sw) (Regular []) (tree w)" and q: "sw_file sw = x"
    and old: "\<exists>b. fs_get (tree w) x = Some (Regular b)"
    by (auto split: option.splits node.splits)
  from x q old show "canonicalize (tree w) f = Inr (sw_file sw)"
    and "\<exists>b. fs_get (tree w) (sw_file sw) = Some (Regular b)" by simp_all
  have k: "keeps (only_at (sw_file sw) (tree w)) (io_err Io (write_all (sw_file sw) (encode_header md)))"
    by (rule keeps_err, rule keeps_write_all) (rule keeps_only_at_append)
  have "only_at (sw_file sw) (tree w) (tree w1)" by (simp add: only_at_def w1)
  from keepsD [OF k h this] write_all_ok [OF h, of "[]"] sw
  show "staged (sw_file sw) md (tree w) [] sw (tree w0)"
    by (simp add: staged_def only_at_def w1)
qed

subsection \<open>The loop as a step relation\<close>

inductive task_step ::
    "task_env \<Rightarrow> embedding_profile \<Rightarrow> task_options \<Rightarrow> string list
     \<Rightarrow> task_state \<times> world \<Rightarrow> task_state \<times> world \<Rightarrow> bool"
  for T p options texts where
  join: "ts_next_write s < total_batches options texts \<Longrightarrow> ordinal \<in> set (ts_in_flight s) \<Longrightarrow>
     join_step T p options texts ordinal s w = (Inr s', w') \<Longrightarrow>
     task_step T p options texts (s, w) (s', w')"

inductive_cases task_stepE: "task_step T p options texts (s, w) c"

lemma reachable_inv:
  assumes "(task_step T p options texts)\<^sup>*\<^sup>* (s, w) (s', w')"
    and "task_inv T p options texts q md ns0 s w
      \<and> at_head (to_max_in_flight options) (total_batches options texts) s"
  shows "task_inv T p options texts q md ns0 s' w'
      \<and> at_head (to_max_in_flight options) (total_batches options texts) s'"
  using assms
proof (induction "(s', w')" arbitrary: s' w' rule: rtranclp_induct)
  case (step c)
  obtain s1 w1 where c: "c = (s1, w1)" by (cases c)
  from step.hyps(2) show ?case
    unfolding c
  proof (rule task_stepE)
    fix ordinal s2 w2
    assume o: "ordinal \<in> set (ts_in_flight s1)" and e: "(s', w') = (s2, w2)"
      and j: "join_step T p options texts ordinal s1 w1 = (Inr s2, w2)"
    from step.hyps(3) [OF c step.prems] have "task_inv T p options texts q md ns0 s1 w1" ..
    from join_step_inv [OF this o j] e show ?thesis by simp
  qed
qed simp

lemma never_stuck:
  assumes "task_inv T p options texts q md ns0 s w"
    and "at_head (to_max_in_flight options) (total_batches options texts) s"
    and "0 < to_max_in_flight options" and "ts_next_write s < total_batches options texts"
  shows "ts_in_flight s \<noteq> []"
proof
  assume e: "ts_in_flight s = []"
  from assms(1) e have eq: "dom (bt_get (ts_completed s)) = {ts_next_write s ..< ts_next_spawn s}"
    and act: "ts_active s = 0" and ok: "bt_ok (ts_completed s)"
    and le: "ts_next_write s \<le> ts_next_spawn s"
    by (simp_all add: task_inv_def slots_ok_def)
  have "ts_next_write s \<notin> dom (bt_get (ts_completed s))"
    using assms(2) by (auto simp: at_head_def)
  with eq le have "ts_next_spawn s = ts_next_write s" by auto
  moreover from this eq have "length (ts_completed s) = 0"
    by (simp only: bt_length [OF ok]) simp
  ultimately show False using assms(2-4) act by (simp add: at_head_def)
qed

lemma in_flight_range:
  assumes "task_inv T p options texts q md ns0 s w" and "ordinal \<in> set (ts_in_flight s)"
  shows "ordinal < total_batches options texts" and "bt_get (ts_completed s) ordinal = None"
proof -
  from assms(1) have "set (ts_in_flight s) \<union> dom (bt_get (ts_completed s)) =
      {ts_next_write s ..< ts_next_spawn s}" "ts_next_spawn s \<le> total_batches options texts"
    and dis: "set (ts_in_flight s) \<inter> dom (bt_get (ts_completed s)) = {}"
    by (simp_all add: task_inv_def slots_ok_def)
  with assms(2) have "ordinal \<in> {ts_next_write s ..< ts_next_spawn s}" by blast
  then show "ordinal < total_batches options texts"
    using \<open>ts_next_spawn s \<le> total_batches options texts\<close> by simp
  show "bt_get (ts_completed s) ordinal = None" using dis assms(2) by auto
qed

text \<open>
  C20: in every state the loop can reach, whichever batches finish first and whatever fails,
  the counter of active batches is right, at most \<open>max_in_flight\<close> batches are in flight and
  fewer than twice as many are held altogether; while batches are missing one is in flight
  and its result is not in the buffer, so the errors ``join set'' and ``duplicate batch''
  cannot happen; and the staging file holds exactly the header and the rows of the batches
  written, each of them a valid answer of the profile's model.
\<close>

theorem scheduler_invariant:
  assumes valid: "task_options_validate options = Inr ()"
    and create: "writer_create f md w00 = (Inr sw, w0)"
    and reach: "(task_step T p options texts)\<^sup>*\<^sup>* (start_state options texts sw, w0) (s, w)"
  shows "ts_active s = length (ts_in_flight s) \<and> ts_active s \<le> to_max_in_flight options
    \<and> ts_active s + length (ts_completed s) < 2 * to_max_in_flight options
    \<and> ts_peak_in_flight s \<le> to_max_in_flight options
    \<and> (ts_next_write s < total_batches options texts \<longrightarrow> ts_in_flight s \<noteq> [])
    \<and> (\<forall>ordinal \<in> set (ts_in_flight s). \<forall>b. joined_batch T options texts ordinal = Inr b \<longrightarrow>
        bt_get (ts_completed s) (cb_ordinal b) = None)
    \<and> (\<forall>k < ts_next_write s. batch_good T p options texts k)
    \<and> fs_get (tree w) (sw_file sw) = Some (Regular (encode_header md @
        concat (map encode_row (rows_upto T options texts (ts_next_write s)))))"
proof -
  have m: "0 < to_max_in_flight options"
    using valid by (simp add: task_options_validate_def split: if_splits)
  from reachable_inv [OF reach start_inv [OF writer_create_staged(1) [OF create] m]]
  have inv: "task_inv T p options texts (sw_file sw) md (tree w00) s w"
    and h: "at_head (to_max_in_flight options) (total_batches options texts) s" by auto
  have "ts_active s = length (ts_in_flight s)" "ts_active s \<le> to_max_in_flight options"
    "ts_active s + length (ts_completed s) < 2 * to_max_in_flight options"
    "ts_peak_in_flight s \<le> to_max_in_flight options"
    using inv by (simp_all add: task_inv_def slots_ok_def)
  moreover have "\<forall>k < ts_next_write s. batch_good T p options texts k"
    using inv by (simp add: task_inv_def accounted_def Let_def)
  moreover have "fs_get (tree w) (sw_file sw) = Some (Regular (encode_header md @
        concat (map encode_row (rows_upto T options texts (ts_next_write s)))))"
    using inv by (simp add: task_inv_def staged_def)
  moreover have "\<forall>ordinal \<in> set (ts_in_flight s). \<forall>b. joined_batch T options texts ordinal = Inr b \<longrightarrow>
        bt_get (ts_completed s) (cb_ordinal b) = None"
    using in_flight_range(2) [OF inv] by (auto dest: joined_shape)
  ultimately show ?thesis using never_stuck [OF inv h m] by blast
qed

subsection \<open>Without faults the loop writes everything\<close>

definition writable :: "path \<Rightarrow> world \<Rightarrow> bool" where
  "writable q w \<longleftrightarrow> faults w = [] \<and> (\<exists>c. fs_get (tree w) q = Some (Regular c))"

lemma write_all_total:
  assumes "writable q w"
  shows "\<exists>w'. io_err Io (write_all q b) w = (Inr (), w') \<and> writable q w'"
proof -
  from assms obtain c where nf: "faults w = []" and c: "fs_get (tree w) q = Some (Regular c)"
    by (auto simp: writable_def)
  have "append_op q b (tree w) = Inr ((), fs_set q (Regular (c @ b)) (tree w))"
    by (simp add: append_op_def c)
  then have "io_err Io (write_all q b) w = (Inr (), w\<lparr>tree := fs_set q (Regular (c @ b)) (tree w)\<rparr>)"
    by (simp add: io_err_def write_all_nofault [OF nf] syscall_nofault [OF nf])
  then show ?thesis using nf by (auto simp: writable_def)
qed

lemma write_values_total:
  "writable q w \<Longrightarrow> \<exists>w'. write_values q xs w = (Inr (), w') \<and> writable q w'"
proof (induction xs arbitrary: w)
  case (Cons x xs)
  from write_all_total [OF Cons.prems] obtain w1 where
    w1: "io_err Io (write_all q (u32_to_le x)) w = (Inr (), w1)" "writable q w1" by blast
  from Cons.IH [OF w1(2)] obtain w' where "write_values q xs w1 = (Inr (), w')" "writable q w'" by blast
  with w1 show ?case by (auto simp: io_bind_def)
qed simp

lemma write_rows_total:
  assumes "writable (sw_file sw) w"
    and "list_all (row_ok (unat (sm_dimensions (sw_metadata sw)))) vs"
    and "unat (sw_rows_written sw) + length vs \<le> unat (sm_row_count (sw_metadata sw))"
  shows "\<exists>sw' w'. write_rows sw vs w = (Inr sw', w') \<and> writable (sw_file sw) w'"
  using assms
proof (induction vs arbitrary: sw w)
  case (Cons v vs)
  from write_values_total [OF Cons.prems(1)] obtain w1 where
    w1: "write_values (sw_file sw) v w = (Inr (), w1)" "writable (sw_file sw) w1" by blast
  have lt: "unat (sw_rows_written sw) < unat (sm_row_count (sw_metadata sw))" using Cons.prems(3) by simp
  let ?sw = "sw\<lparr>sw_rows_written := sw_rows_written sw + 1\<rparr>"
  have "write_vector sw v w = (Inr ?sw, w1)"
    using Cons.prems(2) lt w1(1)
    by (simp add: write_vector_def row_ok_def list_ex_iff list_all_iff word_less_nat_alt io_bind_def
        not_le [symmetric] word_le_nat_alt)
  moreover have "unat (sw_rows_written sw + 1) = Suc (unat (sw_rows_written sw))"
    using lt unat_bound [of "sm_row_count (sw_metadata sw)"] by (simp add: unat_word_ariths)
  then have "unat (sw_rows_written ?sw) + length vs \<le> unat (sm_row_count (sw_metadata ?sw))"
    using Cons.prems(3) by simp
  moreover from Cons.IH [of ?sw w1] w1(2) Cons.prems(2) calculation(2) obtain sw' w' where
    "write_rows ?sw vs w1 = (Inr sw', w')" "writable (sw_file sw) w'" by auto
  ultimately show ?case by (auto simp: io_bind_def)
qed simp

lemma rows_upto_length:
  assumes "\<forall>k < n. batch_good T p options texts k"
  shows "length (rows_upto T options texts n) = min (n * to_batch_size options) (length texts)"
proof -
  have "length (cb_vectors (batch_at T options texts k)) = length (batch_texts options texts k)"
    if "k < n" for k
    using assms that joined_shape [of T options texts k] by (auto simp: batch_good_def)
  then have "map (\<lambda>k. length (cb_vectors (batch_at T options texts k))) [0..<n] =
      map (\<lambda>k. length (batch_texts options texts k)) [0..<n]" by simp
  from arg_cong [OF this, of sum_list] have "length (rows_upto T options texts n) =
      length (concat (map (batch_texts options texts) [0..<n]))"
    by (simp only: rows_upto_def batches_upto_def length_concat map_map comp_def)
  then show ?thesis by (simp add: batch_prefix min.commute)
qed

lemma write_completed_total:
  assumes "task_inv T p options texts q md ns0 s w" and "writable q w"
    and "\<forall>k < total_batches options texts. batch_good T p options texts k"
    and "sm_dimensions md = ep_dimensions p" and "unat (sm_row_count md) = length texts"
  shows "\<exists>s' w'. write_completed p s w = (Inr s', w') \<and> writable q w'"
  using assms
proof (induction p s w rule: write_completed.induct)
  case (1 p s w)
  let ?k = "ts_next_write s"
  show ?case
  proof (cases "bt_get (ts_completed s) ?k")
    case None
    with 1(3) show ?thesis by (simp add: write_completed.simps [of p s w])
  next
    case (Some b)
    from 1(2) have acc: "accounted T p options texts s"
      and st: "staged q md ns0 (rows_upto T options texts ?k) (ts_writer s) (tree w)"
      and j: "joined_batch T options texts ?k = Inr b"
      using Some by (simp_all add: task_inv_def buffered_from_def)
    have "?k \<in> dom (bt_get (ts_completed s))" using Some by auto
    with 1(2) have k: "?k < total_batches options texts"
      unfolding task_inv_def slots_ok_def by (auto dest: equalityD1)
    with 1(4) j have good: "cb_returned_model b = ep_model p"
      "list_all (\<lambda>v. validate_vector v (unat (ep_dimensions p)) (ep_normalization p) = Inr ()) (cb_vectors b)"
      by (auto simp: batch_good_def)
    have m: "\<not> model_mismatch p s b"
      using acc good by (simp add: model_mismatch_def accounted_def Let_def)
    have "\<forall>i < Suc ?k. batch_good T p options texts i" using 1(4) k by simp
    from rows_upto_length [OF this]
    have "length (rows_upto T options texts ?k) + length (cb_vectors b) \<le> length texts"
      using j by (simp add: rows_upto_def batches_upto_Suc)
    then have room: "unat (sw_rows_written (ts_writer s)) + length (cb_vectors b)
        \<le> unat (sm_row_count (sw_metadata (ts_writer s)))"
      using st 1(6) by (simp add: staged_def)
    have rows: "list_all (row_ok (unat (sm_dimensions (sw_metadata (ts_writer s))))) (cb_vectors b)"
      using good(2) st 1(5) by (simp add: staged_def validate_vector_ok row_ok_def list_all_iff)
    have q: "sw_file (ts_writer s) = q" using st by (simp add: staged_def)
    from write_rows_total [OF _ rows room, of w] 1(3) obtain sw w1 where
      wr: "write_rows (ts_writer s) (cb_vectors b) w = (Inr sw, w1)" and w1: "writable q w1"
      unfolding q by blast
    from wr good(2) have wb: "write_batch (unat (ep_dimensions p)) (ep_normalization p)
        (ts_writer s) (cb_vectors b) w = (Inr sw, w1)"
      by (simp add: write_batch_eq)
    from 1(1) [OF Some m wb [symmetric] refl account_inv [OF 1(2) Some m wb] w1 1(4-6)]
    show ?thesis
      using Some m wb by (simp add: write_completed.simps [of p s w])
  qed
qed

lemma join_loop_total:
  assumes "task_inv T p options texts q md ns0 s w"
    and "at_head (to_max_in_flight options) (total_batches options texts) s" and "writable q w"
    and "\<forall>k < total_batches options texts. batch_good T p options texts k"
    and "sm_dimensions md = ep_dimensions p" and "unat (sm_row_count md) = length texts"
    and "0 < to_max_in_flight options"
  shows "\<exists>s' w'. join_loop T p options texts pick k s w = (Inr s', w') \<and> writable q w'"
  using assms
proof (induction T p options texts pick k s w rule: join_loop.induct)
  case (1 T p options texts pick k s w)
  let ?o = "ts_in_flight s ! (pick k mod length (ts_in_flight s))"
  show ?case
  proof (cases "ts_next_write s \<ge> total_batches options texts")
    case True
    with 1(4) show ?thesis by (simp add: join_loop.simps [of _ _ _ _ _ _ s])
  next
    case False
    then have ne: "ts_in_flight s \<noteq> []" using never_stuck [OF 1(2,3,8)] by simp
    then have o: "?o \<in> set (ts_in_flight s)" by simp
    from in_flight_range [OF 1(2) o] 1(5) obtain b where j: "joined_batch T options texts ?o = Inr b"
      and none: "bt_get (ts_completed s) ?o = None"
      by (auto simp: batch_good_def)
    have ord: "cb_ordinal b = ?o" using joined_shape [OF j] by simp
    let ?s1 = "s\<lparr>ts_in_flight := remove1 ?o (ts_in_flight s), ts_active := ts_active s - 1,
        ts_completed := bt_insert ?o b (ts_completed s)\<rparr>"
    have "bt_ok (ts_completed s)" using 1(2) by (simp add: task_inv_def slots_ok_def)
    then have "task_inv T p options texts q md ns0 ?s1 w"
      using 1(2) join_slots [OF _ o, of "to_max_in_flight options" "total_batches options texts" b] j
      by (auto simp: task_inv_def buffered_from_def accounted_def bt_insert_get split: if_splits)
    from write_completed_total [OF this 1(4-7)] obtain s2 w2 where
      "write_completed p ?s1 w = (Inr s2, w2)" and w2: "writable q w2" by blast
    then have js: "join_step T p options texts ?o s w =
        (Inr (refill (to_max_in_flight options) (total_batches options texts) s2), w2)"
      by (simp add: join_step_def io_bind_def j ord none)
    from join_step_inv [OF 1(2) o js]
    show ?thesis
      using 1(1) [OF False ne refl js [symmetric] refl _ _ w2 1(5-8)] False ne js
      by (simp add: join_loop.simps [of _ _ _ _ _ k s] Let_def)
  qed
qed

lemma join_loop_inv:
  assumes "join_loop T p options texts pick k s w = (Inr s', w')"
    and "task_inv T p options texts q md ns0 s w
      \<and> at_head (to_max_in_flight options) (total_batches options texts) s"
  shows "task_inv T p options texts q md ns0 s' w' \<and> ts_next_write s' = total_batches options texts
    \<and> (task_step T p options texts)\<^sup>*\<^sup>* (s, w) (s', w')"
  using assms
proof (induction T p options texts pick k s w rule: join_loop.induct)
  case (1 T p options texts pick k s w)
  let ?o = "ts_in_flight s ! (pick k mod length (ts_in_flight s))"
  show ?case
  proof (cases "ts_next_write s \<ge> total_batches options texts")
    case True
    then show ?thesis using 1(2,3)
      by (simp add: join_loop.simps [of _ _ _ _ _ k s] task_inv_def slots_ok_def)
  next
    case False
    with 1(2) obtain s1 w1 where ne: "ts_in_flight s \<noteq> []"
      and js: "join_step T p options texts ?o s w = (Inr s1, w1)"
      and r: "join_loop T p options texts pick (Suc k) s1 w1 = (Inr s', w')"
      by (auto simp: join_loop.simps [of _ _ _ _ _ k s] Let_def split: if_splits prod.splits sum.splits)
    have o: "?o \<in> set (ts_in_flight s)" using ne by simp
    have "task_step T p options texts (s, w) (s1, w1)"
      by (rule task_step.join [OF _ o js]) (use False in simp)
    with 1(1) [OF False ne refl js [symmetric] refl r] join_step_inv [OF _ o js] 1(3) show ?thesis
      by (meson converse_rtranclp_into_rtranclp)
  qed
qed

text \<open>
  If no call fails and every batch gets a valid answer of the profile's model, then for
  every order in which the batches finish the loop ends, and the staging file is the encoded
  shard of one row per text: the vectors of all batches in the order of the texts. The
  counters are the sums over the batches.
\<close>

lemma every_order_writes_all:
  assumes valid: "task_options_validate options = Inr ()"
    and create: "writer_create f md w00 = (Inr sw, w0)" and nf: "faults w0 = []"
    and good: "\<forall>k < total_batches options texts. batch_good T p options texts k"
    and md: "sm_dimensions md = ep_dimensions p" "unat (sm_row_count md) = length texts"
  shows "\<exists>s w. join_loop T p options texts pick 0 (start_state options texts sw) w0 = (Inr s, w)
    \<and> fs_get (tree w) (sw_file sw) = Some (Regular (encode_shard md
        (rows_upto T options texts (total_batches options texts))))
    \<and> length (rows_upto T options texts (total_batches options texts)) = length texts
    \<and> unat (sw_rows_written (ts_writer s)) = length texts
    \<and> ts_requests s = sum_list (map cb_attempts (batches_upto T options texts (total_batches options texts)))
    \<and> ts_batch_reports s = map cb_report (batches_upto T options texts (total_batches options texts))"
proof -
  have m: "0 < to_max_in_flight options" and b: "0 < to_batch_size options"
    using valid by (simp_all add: task_options_validate_def split: if_splits)
  note st = writer_create_staged [OF create]
  from start_inv [OF st(1) m]
  have i: "task_inv T p options texts (sw_file sw) md (tree w00) (start_state options texts sw) w0
      \<and> at_head (to_max_in_flight options) (total_batches options texts) (start_state options texts sw)" .
  have "writable (sw_file sw) w0" using st(1) nf by (simp add: writable_def staged_def)
  from join_loop_total [OF conjunct1 [OF i] conjunct2 [OF i] this good md m] obtain s w where
    r: "join_loop T p options texts pick 0 (start_state options texts sw) w0 = (Inr s, w)" by blast
  from join_loop_inv [OF r i] have inv: "task_inv T p options texts (sw_file sw) md (tree w00) s w"
    and n: "ts_next_write s = total_batches options texts" by blast+
  have len: "length (rows_upto T options texts (total_batches options texts)) = length texts"
    using rows_upto_length [OF good] total_batches_cover [OF b, of texts] by simp
  from r inv n len show ?thesis
    by (auto simp: task_inv_def staged_def accounted_def Let_def encode_shard_def)
qed

subsection \<open>An example\<close>

lemma writer_create_total:
  assumes nf: "faults w = []" and c: "canonicalize (tree w) f = Inr q"
    and b: "fs_get (tree w) q = Some (Regular b)" and d: "sm_dimensions md \<noteq> 0"
  shows "\<exists>w'. writer_create f md w = (Inr \<lparr>sw_file = q, sw_metadata = md, sw_rows_written = 0\<rparr>, w')
    \<and> faults w' = []"
proof -
  let ?w = "w\<lparr>tree := fs_set q (Regular []) (tree w)\<rparr>"
  have "truncate_op f (tree w) = Inr (q, fs_set q (Regular []) (tree w))"
    by (simp add: truncate_op_def c b)
  then have t: "file_call (truncate_op f) w = (Inr q, ?w)" by (simp add: file_call_nofault [OF nf])
  have "writable q ?w" using nf by (simp add: writable_def)
  from write_all_total [OF this, of "encode_header md"] obtain w' where
    "io_err Io (write_all q (encode_header md)) ?w = (Inr (), w')" "writable q w'" by blast
  then show ?thesis by (simp add: writer_create_def d io_bind_def t writable_def)
qed

definition task_metadata :: shard_metadata where
  "task_metadata = \<lparr>sm_row_count = 1, sm_dimensions = 2, sm_order_sha256 = replicate 32 0\<rparr>"

lemma example_writer:
  obtains w0 where "writer_create part_path task_metadata (part_world [] []) =
      (Inr \<lparr>sw_file = part_path, sw_metadata = task_metadata, sw_rows_written = 0\<rparr>, w0)"
    and "faults w0 = []"
proof -
  have "canonicalize (tree (part_world [] [])) part_path = Inr part_path"
    "fs_get (tree (part_world [] [])) part_path = Some (Regular [])"
    "faults (part_world [] []) = []" "sm_dimensions task_metadata \<noteq> 0"
    by (simp_all add: canonicalize_def part_world_def part_path_def fs_get_def task_metadata_def)
  from writer_create_total [OF this(3,1,2,4)] that show thesis by blast
qed

lemma example_batch: "batch_good example_env example_profile default_task_options [''a''] 0"
  and example_total: "total_batches default_task_options [''a''] = 1"
  by (simp_all add: batch_good_def joined_batch_def batch_result_def batch_texts_def batch_start_def
      batch_end_def default_task_options_def default_retry_policy_def attempt_loop.simps
      example_env_def retry_class_of_def batch_success_def Let_def example_profile_def
      total_batches_def unit_vector_accepted)

lemma scheduler_invariant_witness:
  "\<exists>sw w0. writer_create part_path task_metadata (part_world [] []) = (Inr sw, w0)
     \<and> fs_get (tree w0) (sw_file sw) = Some (Regular (encode_header task_metadata))
     \<and> ts_in_flight (start_state default_task_options [''a''] sw) \<noteq> []"
proof -
  obtain sw w0 where c: "writer_create part_path task_metadata (part_world [] []) = (Inr sw, w0)"
    using example_writer by blast
  have z: "ts_next_write (start_state default_task_options [''a''] sw) = 0"
    unfolding start_state_def
    by (subst first_fill_refill) (simp_all add: refill_keeps initial_state_def default_task_options_def)
  from scheduler_invariant [OF default_options_valid c rtranclp.rtrancl_refl, where T = example_env
      and p = example_profile and texts = "[''a'']"] c z example_total
  show ?thesis by (auto simp: rows_upto_def batches_upto_def)
qed

end
