(* ===== verification/Task_Result.thy ===== *)
theory Task_Result
  imports Scheduler
begin

text \<open>
  A whole embedding task: what is on disk and in the report when it succeeds, whichever calls
  failed on the way and in whatever order the batches finished, and that it does succeed when
  nothing fails.
\<close>

subsection \<open>Staging\<close>

lemma staging_name_other: "staging_name name pid sequence \<noteq> name"
  using arg_cong [of "staging_name name pid sequence" name length] by (auto simp: staging_name_def)

lemma try_staging_ok:
  "try_staging n parent name w = (Inr st, w') \<Longrightarrow>
   (\<exists>pid sequence. st = join parent (staging_name name pid sequence))
   \<and> fs_get (tree w) st = None \<and> tree w' = fs_set st (Regular []) (tree w)"
proof (induction n arbitrary: w)
  case (Suc n)
  let ?w1 = "w\<lparr>staging_sequence := staging_sequence w + 1\<rparr>"
  let ?st = "join parent (staging_name name (process_id w) (staging_sequence w))"
  from Suc.prems obtain r w2 where c: "syscall (create_new_op ?st) ?w1 = (r, w2)"
    and k: "(case r of Inr _ \<Rightarrow> io_of (Inr ?st)
        | Inl AlreadyExists \<Rightarrow> try_staging n parent name
        | Inl e \<Rightarrow> io_of (Inl (Io e))) w2 = (Inr st, w')"
    by (auto simp: next_sequence_def io_bind_def Let_def elim!: io_match_cases)
  show ?case
    using c
  proof (cases rule: syscall_cases)
    case (err e)
    with k have "try_staging n parent name w2 = (Inr st, w')" by (auto split: io_error.splits)
    from Suc.IH [OF this] err(2) show ?thesis by simp
  next
    case (ok u ns)
    with k have "st = ?st" and "w' = w2" by auto
    moreover from ok(2) have "fs_get (tree w) ?st = None" "ns = fs_set ?st (Regular []) (tree w)"
      by (auto simp: create_new_op_def split: if_splits)
    ultimately show ?thesis using ok(4) by auto
  qed
qed simp

text \<open>The staging file of a new publication: beside the destination, empty, below real directories.\<close>

definition fresh_publication :: "file_publication \<Rightarrow> path \<Rightarrow> files \<Rightarrow> files \<Rightarrow> bool" where
  "fresh_publication pub output ns0 ns \<longleftrightarrow>
     fp_destination pub = output \<and> output \<noteq> [] \<and> fp_staging pub \<noteq> output
     \<and> length (fp_staging pub) = length output \<and> butlast (fp_staging pub) = butlast output
     \<and> (\<forall>k < length output. dir_at ns (take k output))
     \<and> fs_get ns (fp_staging pub) = Some (Regular []) \<and> fs_get ns output = fs_get ns0 output"

lemma publication_new_fresh:
  assumes "publication_new output w = (Inr pub, w')"
  shows "fresh_publication pub output (tree w) (tree w')"
proof -
  from assms obtain parent name w1 st w2 u where pp: "path_parent output = Some parent"
    and nm: "path_file_name output = Some name"
    and mk: "file_call (create_dir_all_op parent) w = (Inr u, w1)"
    and ts: "try_staging 128 parent name w1 = (Inr st, w')"
    and pub: "pub = \<lparr>fp_destination = output, fp_staging = st\<rparr>"
    unfolding publication_new_def
    by (elim io_bind_cases) (auto simp: ok_or_eq_Inr to_str_def bind_eq_Some_conv split: if_splits)
  have o: "output = join parent name" by (rule path_decompose [OF pp nm])
  from mk have "create_dir_all_op parent (tree w) = Inr (u, tree w1)" by (auto elim: file_call_cases)
  note dirs = create_dir_all_ok [OF this]
  from try_staging_ok [OF ts] obtain pid sequence where
    st: "st = join parent (staging_name name pid sequence)" and none: "fs_get (tree w1) st = None"
    and t: "tree w' = fs_set st (Regular []) (tree w1)" by blast
  have ne: "st \<noteq> output" by (simp add: st o staging_name_other)
  have "dir_at (tree w') (take k output)" if "k < length output" for k
  proof -
    have "take k output = take k parent" and le: "k \<le> length parent" using that by (simp_all add: o join_def)
    moreover from this have "dir_at (tree w1) (take k parent)" using dirs(1) by simp
    moreover have "take k parent \<noteq> st" by (auto simp: st join_def dest: arg_cong [where f = length])
    ultimately show ?thesis by (simp add: t dir_at_def)
  qed
  moreover have "\<not> prefix output parent" by (auto simp: o join_def dest: prefix_length_le)
  then have "fs_get (tree w') output = fs_get (tree w) output" using dirs(2) ne by (simp add: t)
  ultimately show ?thesis
    using ne by (simp add: fresh_publication_def pub o st t join_def)
qed

lemma fresh_real_path:
  assumes "fresh_publication pub output ns0 ns" and "only_at (fp_staging pub) ns ns'"
    and "fs_get ns' (fp_staging pub) = Some (Regular b)"
  shows "canonicalize ns' (fp_staging pub) = Inr (fp_staging pub)"
proof (rule canonicalize_real)
  let ?st = "fp_staging pub"
  have "dir_at ns' (take k ?st)" if k: "k < length ?st" for k
  proof -
    from assms(1) have len: "length ?st = length output" and bl: "butlast ?st = butlast output"
      by (simp_all add: fresh_publication_def)
    have "take k ?st = take k (butlast ?st)" using k by (simp add: butlast_conv_take)
    also have "\<dots> = take k output" using k len bl by (simp add: butlast_conv_take)
    finally have "take k ?st = take k output" .
    moreover have "dir_at ns (take k output)" using assms(1) k len by (simp add: fresh_publication_def)
    moreover have "take k ?st \<noteq> ?st" using k by (auto dest: arg_cong [where f = length])
    ultimately show ?thesis using assms(2) by (auto simp: dir_at_def only_at_def)
  qed
  then show "real_path ns' ?st" using assms(3) by (auto simp: real_path_def dirs_to_def)
qed

lemma read_real: "canonicalize ns q = Inr q \<Longrightarrow> q \<noteq> [] \<Longrightarrow> fs_get ns q = Some (Regular b) \<Longrightarrow>
    read_op q ns = Inr (b, ns)"
  by (simp add: read_op_def stat_op_def lstat_op_def)

lemma stage_task_ok:
  assumes run: "stage_task E T p options texts pick md pub w = (Inr (s, sha), w')"
    and fresh: "fresh_publication pub output ns0 (tree w)" and m: "0 < to_max_in_flight options"
  defines "n \<equiv> total_batches options texts"
  shows "fs_get (tree w') (fp_staging pub) = Some (Regular (encode_shard md (rows_upto T options texts n)))
    \<and> only_at (fp_staging pub) (tree w) (tree w')
    \<and> sha = sha256_raw E (encode_shard md (rows_upto T options texts n))
    \<and> length (rows_upto T options texts n) = unat (sm_row_count md)
    \<and> accounted T p options texts s \<and> ts_next_write s = n
    \<and> ts_peak_in_flight s \<le> to_max_in_flight options"
proof -
  let ?st = "fp_staging pub"
  from run obtain sw w1 w2 w3 u where c: "writer_create ?st md w = (Inr sw, w1)"
    and l: "join_loop T p options texts pick 0 (start_state options texts sw) w1 = (Inr s, w2)"
    and f: "writer_finish (ts_writer s) w2 = (Inr u, w3)"
    and h: "file_sha256 E ?st w3 = (Inr sha, w')"
    unfolding stage_task_def start_state_def by (elim io_bind_cases) auto
  note st = writer_create_staged [OF c]
  have "only_at ?st (tree w) (tree w)" by (simp add: only_at_def)
  from fresh_real_path [OF fresh this] fresh st(2) have q: "sw_file sw = ?st"
    by (auto simp: fresh_publication_def)
  from join_loop_inv [OF l start_inv [OF st(1) m]]
  have inv: "task_inv T p options texts ?st md (tree w) s w2" and nw: "ts_next_write s = n"
    by (simp_all add: q n_def)
  from f have t3: "tree w3 = tree w2" and rows: "sw_rows_written (ts_writer s) = sm_row_count (sw_metadata (ts_writer s))"
    unfolding writer_finish_def by (auto split: if_splits elim!: io_bind_cases dest!: sync_calls)
  have content: "fs_get (tree w3) ?st = Some (Regular (encode_shard md (rows_upto T options texts n)))"
    and only: "only_at ?st (tree w) (tree w3)"
    using inv t3 nw by (simp_all add: task_inv_def staged_def encode_shard_def only_at_def)
  have "?st \<noteq> []" using fresh by (auto simp: fresh_publication_def)
  from read_real [OF fresh_real_path [OF fresh only content] this content]
  have rd: "read_op ?st (tree w3) = Inr (encode_shard md (rows_upto T options texts n), tree w3)" .
  from h obtain b where "file_call (read_op ?st) w3 = (Inr b, w')" and sha: "sha = sha256_raw E b"
    unfolding file_sha256_def by (elim io_bind_cases) auto
  with read_call rd have "b = encode_shard md (rows_upto T options texts n)" and "tree w' = tree w3"
    by fastforce+
  with content only sha inv nw rows show ?thesis
    by (auto simp: task_inv_def slots_ok_def staged_def)
qed

text \<open>What publishing the staged file does.\<close>

lemma publish_ok:
  assumes run: "publication_commit pub w = (Inr outcome, w')"
    and fresh: "fresh_publication pub output ns0 ns" and only: "only_at (fp_staging pub) ns (tree w)"
    and b: "fs_get (tree w) (fp_staging pub) = Some (Regular b)"
  shows "(outcome = Published \<longrightarrow> fs_get ns0 output = None \<and> read_op output (tree w') = Inr (b, tree w'))
    \<and> (outcome = AlreadyPublished \<longrightarrow> fs_get ns0 output \<noteq> None \<and> fs_get (tree w') output = fs_get ns0 output)"
proof -
  from fresh have d: "fp_destination pub = output" "output \<noteq> []" "output \<noteq> fp_staging pub"
    and dirs: "\<forall>k < length output. dir_at ns (take k output)"
    and out: "fs_get (tree w) output = fs_get ns0 output"
    using only by (auto simp: fresh_publication_def only_at_def)
  have "commit_inv pub (tree w) (tree w')"
    using keepsD [OF commit_keeps run] d by (simp add: commit_inv_def)
  then have other: "fs_get (tree w') q = fs_get (tree w) q" if "q \<noteq> output" "q \<noteq> fp_staging pub" for q
    using that d by (simp add: commit_inv_def)
  obtain w1 where l: "commit_link pub w = (Inr outcome, w1)" and t: "tree w' = tree w1"
    using commit_ok [OF run] .
  from commit_link_ok [OF l] d b have o: "case outcome of
        Published \<Rightarrow> fs_get (tree w) output = None \<and> fs_get (tree w1) output = Some (Regular b)
      | AlreadyPublished \<Rightarrow> fs_get (tree w) output \<noteq> None
          \<and> fs_get (tree w1) output = fs_get (tree w) output"
    by (auto split: publish_outcome.splits)
  show ?thesis
  proof (cases outcome)
    case Published
    with o t have c: "fs_get (tree w') output = Some (Regular b)" and "fs_get ns0 output = None"
      by (simp_all add: out)
    have "dir_at (tree w') (take k output)" if k: "k < length output" for k
    proof -
      have "length (fp_staging pub) = length output" using fresh by (simp add: fresh_publication_def)
      then have "take k output \<noteq> output" "take k output \<noteq> fp_staging pub"
        using k by (auto dest: arg_cong [where f = length])
      with other only dirs k show ?thesis by (auto simp: dir_at_def only_at_def)
    qed
    then have "real_path (tree w') output" using c by (auto simp: real_path_def dirs_to_def)
    from read_real [OF canonicalize_real [OF this] d(2) c] Published \<open>fs_get ns0 output = None\<close>
    show ?thesis by simp
  next
    case AlreadyPublished
    with o t out show ?thesis by simp
  qed
qed

lemma keeps_validate_normalization: "keeps I (validate_normalization s nrm)"
  unfolding validate_normalization_def shard_vectors_def
  by (intro keeps_if keeps_bind keeps_io_of keeps_file_reads reads_only_ops)

lemma executed_task_parts:
  assumes run: "execute_embedding_task_reported E T p texts output order options pick w
      = (Inr (stats, report), w')"
  obtains rc pub s sha outcome shard model bytes w1 w2 w3 w4 w5 w6 u v where
    "task_options_validate options = Inr ()" and "texts \<noteq> []"
    and "try_from_nat (length texts) = Some rc"
    and "publication_new output w = (Inr pub, w1)"
    and "stage_task E T p options texts pick
        \<lparr>sm_row_count = rc, sm_dimensions = ep_dimensions p, sm_order_sha256 = order\<rparr> pub w1
        = (Inr (s, sha), w2)"
    and "publication_commit pub w2 = (Inr outcome, w3)"
    and "(case outcome of Published \<Rightarrow> io_of (Inr ()) | AlreadyPublished \<Rightarrow>
        io_bind (file_sha256 E output) (\<lambda>x. if x \<noteq> sha
          then io_of (Inl (Invalid ''existing embedding shard differs from executed result''))
          else io_of (Inr ()))) w3 = (Inr u, w4)"
    and "shard_open_expected output
        \<lparr>sm_row_count = rc, sm_dimensions = ep_dimensions p, sm_order_sha256 = order\<rparr> w4
        = (Inr shard, w5)"
    and "validate_normalization shard (ep_normalization p) w5 = (Inr v, w6)"
    and "ts_returned_model s = Some model"
    and "file_call (read_op output) w6 = (Inr bytes, w')"
    and "stats = \<lparr>st_rows = rc, st_requests = ts_requests s, st_retries = ts_retries s,
        st_skipped = False, st_returned_model = model\<rparr>"
    and "report = finish_report T options texts rc (word_of_nat (length bytes)) s"
  using run unfolding execute_embedding_task_reported_def Let_def
  by (elim io_bind_cases io_match_cases)
    (auto split: if_splits sum.splits prod.splits simp: ok_or_eq_Inr elim!: io_bind_cases io_match_cases)

lemma executed_task_published:
  assumes run: "execute_embedding_task_reported E T p texts output order options pick w
      = (Inr (stats, report), w')"
    and n_def: "n = total_batches options texts"
    and rows_def: "rows = rows_upto T options texts (total_batches options texts)"
    and md_def: "md = \<lparr>sm_row_count = word_of_nat (length texts), sm_dimensions = ep_dimensions p,
      sm_order_sha256 = order\<rparr>"
  obtains s x vs where "task_options_validate options = Inr ()" and "texts \<noteq> []"
    and "accounted T p options texts s" and "ts_next_write s = n"
    and "ts_peak_in_flight s \<le> to_max_in_flight options"
    and "read_op output (tree w') = Inr (x, tree w')" and "parse_shard x = Inr (md, vs)"
    and "sha256_raw E x = sha256_raw E (encode_shard md rows)"
    and "fs_get (tree w) output = None \<longrightarrow> x = encode_shard md rows"
    and "fs_get (tree w) output \<noteq> None \<longrightarrow> fs_get (tree w') output = fs_get (tree w) output"
    and "ts_returned_model s = Some (st_returned_model stats)"
    and "st_rows stats = word_of_nat (length texts)" and "st_requests stats = ts_requests s"
    and "st_retries stats = ts_retries s" and "tr_batch_reports report = ts_batch_reports s"
    and "tr_peak_in_flight report = ts_peak_in_flight s"
proof -
  from run obtain rc pub s sha outcome shard model bytes w1 w2 w3 w4 w5 w6 u v where
    valid: "task_options_validate options = Inr ()" and ne: "texts \<noteq> []"
    and rc: "try_from_nat (length texts) = Some rc"
    and pn: "publication_new output w = (Inr pub, w1)"
    and stg: "stage_task E T p options texts pick
        \<lparr>sm_row_count = rc, sm_dimensions = ep_dimensions p, sm_order_sha256 = order\<rparr> pub w1
        = (Inr (s, sha), w2)"
    and cm: "publication_commit pub w2 = (Inr outcome, w3)"
    and chk: "(case outcome of Published \<Rightarrow> io_of (Inr ()) | AlreadyPublished \<Rightarrow>
        io_bind (file_sha256 E output) (\<lambda>x. if x \<noteq> sha
          then io_of (Inl (Invalid ''existing embedding shard differs from executed result''))
          else io_of (Inr ()))) w3 = (Inr u, w4)"
    and op: "shard_open_expected output
        \<lparr>sm_row_count = rc, sm_dimensions = ep_dimensions p, sm_order_sha256 = order\<rparr> w4
        = (Inr shard, w5)"
    and nv: "validate_normalization shard (ep_normalization p) w5 = (Inr v, w6)"
    and model: "ts_returned_model s = Some model"
    and rd: "file_call (read_op output) w6 = (Inr bytes, w')"
    and stats: "stats = \<lparr>st_rows = rc, st_requests = ts_requests s, st_retries = ts_retries s,
        st_skipped = False, st_returned_model = model\<rparr>"
    and report: "report = finish_report T options texts rc (word_of_nat (length bytes)) s"
    by (rule executed_task_parts) blast
  have rcw: "rc = word_of_nat (length texts)" and rcl: "unat rc = length texts"
    using rc by (auto simp: try_from_nat_def unat_of_nat split: if_splits)
  have md: "\<lparr>sm_row_count = rc, sm_dimensions = ep_dimensions p, sm_order_sha256 = order\<rparr> = md"
    by (simp add: md_def rcw)
  have b: "0 < to_batch_size options" and m: "0 < to_max_in_flight options"
    using valid by (simp_all add: task_options_validate_def split: if_splits)
  note fresh = publication_new_fresh [OF pn]
  from stage_task_ok [OF stg [unfolded md] fresh m]
  have content: "fs_get (tree w2) (fp_staging pub) = Some (Regular (encode_shard md rows))"
    and only: "only_at (fp_staging pub) (tree w1) (tree w2)"
    and sha: "sha = sha256_raw E (encode_shard md rows)"
    and acc: "accounted T p options texts s" and nw: "ts_next_write s = n"
    and peak: "ts_peak_in_flight s \<le> to_max_in_flight options"
    by (simp_all add: rows_def n_def)
  note pb = publish_ok [OF cm fresh only content]
  have t4: "tree w4 = tree w3" and shas: "outcome = AlreadyPublished \<Longrightarrow>
      \<exists>x. read_op output (tree w3) = Inr (x, tree w3) \<and> sha256_raw E x = sha"
    using chk by (auto simp: file_sha256_def split: publish_outcome.splits if_splits
        elim!: io_bind_cases dest!: read_call)
  from op have so: "shard_open output w4 = (Inr shard, w5)" and em: "es_metadata shard = md"
    unfolding shard_open_expected_def md by (auto split: if_splits elim!: io_bind_cases)
  from shard_open_ok [OF so] obtain x vs where x: "read_op output (tree w4) = Inr (x, tree w4)"
    and ps: "parse_shard x = Inr (md, vs)" and t5: "tree w5 = tree w4"
    unfolding em by blast
  have t6: "tree w6 = tree w5"
    using keepsD [OF keeps_validate_normalization [of "\<lambda>ns. ns = tree w5"] nv] by simp
  have t': "tree w' = tree w3" using read_call [OF rd] t4 t5 t6 by simp
  have "sha256_raw E x = sha256_raw E (encode_shard md rows)
    \<and> (fs_get (tree w) output = None \<longrightarrow> x = encode_shard md rows)
    \<and> (fs_get (tree w) output \<noteq> None \<longrightarrow> fs_get (tree w') output = fs_get (tree w) output)"
  proof (cases outcome)
    case Published
    with pb have none: "fs_get (tree w) output = None"
      and r: "read_op output (tree w3) = Inr (encode_shard md rows, tree w3)" by simp_all
    from r x t4 have "x = encode_shard md rows" by simp
    with none show ?thesis by simp
  next
    case AlreadyPublished
    with pb have old: "fs_get (tree w) output \<noteq> None" "fs_get (tree w3) output = fs_get (tree w) output"
      by simp_all
    from shas [OF AlreadyPublished] x t4 have "sha256_raw E x = sha" by auto
    with old show ?thesis by (auto simp: sha t')
  qed
  then have dig: "sha256_raw E x = sha256_raw E (encode_shard md rows)"
    and exact: "fs_get (tree w) output = None \<longrightarrow> x = encode_shard md rows"
    and keep: "fs_get (tree w) output \<noteq> None \<longrightarrow> fs_get (tree w') output = fs_get (tree w) output"
    by blast+
  show thesis
    by (rule that [OF valid ne acc nw peak _ ps dig exact keep]) (use x t4 t' in \<open>simp_all add: stats report rcw model finish_report_def\<close>)
qed

text \<open>
  C21: if a task succeeds, whichever calls were made to fail and in whatever order the batches
  finished, then the batches cut the texts without gap or overlap, every batch was answered
  with valid vectors by the profile's model, and the destination is a complete shard for the
  task with the digest of the encoded vectors in text order; it is exactly that encoding
  when the destination did not exist before, and an existing destination is unchanged.
  The statistics are the sums over the batches.
\<close>

theorem task_result:
  assumes run: "execute_embedding_task_reported E T p texts output order options pick w
      = (Inr (stats, report), w')"
  defines "n \<equiv> total_batches options texts"
  defines "rows \<equiv> rows_upto T options texts (total_batches options texts)"
  defines "md \<equiv> \<lparr>sm_row_count = word_of_nat (length texts), sm_dimensions = ep_dimensions p,
      sm_order_sha256 = order\<rparr>"
  shows "concat (map (batch_texts options texts) [0..<n]) = texts
    \<and> (\<forall>k < n. batch_good T p options texts k) \<and> length rows = length texts
    \<and> (\<exists>b vs. read_op output (tree w') = Inr (b, tree w') \<and> parse_shard b = Inr (md, vs)
        \<and> sha256_raw E b = sha256_raw E (encode_shard md rows)
        \<and> (fs_get (tree w) output = None \<longrightarrow> b = encode_shard md rows))
    \<and> (fs_get (tree w) output \<noteq> None \<longrightarrow> fs_get (tree w') output = fs_get (tree w) output)
    \<and> st_rows stats = word_of_nat (length texts) \<and> st_returned_model stats = ep_model p
    \<and> st_requests stats = sum_list (map cb_attempts (batches_upto T options texts n))
    \<and> st_retries stats = sum_list (map (\<lambda>b. cb_attempts b - 1) (batches_upto T options texts n))
    \<and> tr_batch_reports report = map cb_report (batches_upto T options texts n)
    \<and> tr_peak_in_flight report \<le> to_max_in_flight options"
proof -
  obtain s x vs where
    valid: "task_options_validate options = Inr ()" and ne: "texts \<noteq> []"
    and acc: "accounted T p options texts s" and nw: "ts_next_write s = n"
    and peak: "ts_peak_in_flight s \<le> to_max_in_flight options"
    and shard: "read_op output (tree w') = Inr (x, tree w')" "parse_shard x = Inr (md, vs)"
      "sha256_raw E x = sha256_raw E (encode_shard md rows)"
      "fs_get (tree w) output = None \<longrightarrow> x = encode_shard md rows"
    and keep: "fs_get (tree w) output \<noteq> None \<longrightarrow> fs_get (tree w') output = fs_get (tree w) output"
    and model: "ts_returned_model s = Some (st_returned_model stats)"
    and counted: "st_rows stats = word_of_nat (length texts)" "st_requests stats = ts_requests s"
      "st_retries stats = ts_retries s" "tr_batch_reports report = ts_batch_reports s"
      "tr_peak_in_flight report = ts_peak_in_flight s"
    by (rule executed_task_published [OF run n_def [THEN meta_eq_to_obj_eq] rows_def [THEN meta_eq_to_obj_eq]
        md_def [THEN meta_eq_to_obj_eq]])
  have b: "0 < to_batch_size options"
    using valid by (simp add: task_options_validate_def split: if_splits)
  have good: "\<forall>k < n. batch_good T p options texts k"
    using acc nw by (simp add: accounted_def Let_def)
  have len: "length rows = length texts"
    using rows_upto_length [OF good] total_batches_cover [OF b, of texts] by (simp add: rows_def n_def)
  have tot: "0 < n" unfolding n_def by (rule total_batches_pos [OF ne])
  from acc tot nw model have "st_returned_model stats = ep_model p"
    and sums: "ts_requests s = sum_list (map cb_attempts (batches_upto T options texts n))"
      "ts_retries s = sum_list (map (\<lambda>b. cb_attempts b - 1) (batches_upto T options texts n))"
      "ts_batch_reports s = map cb_report (batches_upto T options texts n)"
    by (simp_all add: accounted_def Let_def)
  moreover have "\<exists>b vs. read_op output (tree w') = Inr (b, tree w') \<and> parse_shard b = Inr (md, vs)
      \<and> sha256_raw E b = sha256_raw E (encode_shard md rows)
      \<and> (fs_get (tree w) output = None \<longrightarrow> b = encode_shard md rows)"
    using shard by (intro exI [of _ x] exI [of _ vs] conjI)
  moreover have "concat (map (batch_texts options texts) [0..<n]) = texts"
    unfolding n_def by (rule batches_partition [OF b])
  ultimately show ?thesis
    using good len keep peak by (simp add: counted)
qed

subsection \<open>Without faults\<close>

lemma read_ok:
  "faults w = [] \<Longrightarrow> op (tree w) = Inr (x, tree w) \<Longrightarrow> file_call op w = (Inr x, w)"
  by (simp add: file_call_nofault)

lemma create_dirs_below_exist:
  "(\<And>k. k \<le> length cs \<Longrightarrow> dir_at ns (cur @ take k cs)) \<Longrightarrow> create_dirs_below cur cs ns = Inr ((), ns)"
proof (induction cs arbitrary: cur)
  case (Cons c cs)
  have "fs_get ns (cur @ [c]) = Some Directory" using Cons.prems [of 1] by (simp add: dir_at_def)
  moreover have "create_dirs_below (cur @ [c]) cs ns = Inr ((), ns)"
    by (rule Cons.IH) (use Cons.prems [of "Suc k" for k] in simp)
  ultimately show ?case by simp
qed simp

lemma publication_new_total:
  assumes nf: "faults w = []" and dirs: "\<forall>k \<le> length d. dir_at (tree w) (take k d)"
    and nm: "name \<noteq> ''..''" "to_str name = Some name"
    and free: "fs_get (tree w) (join d (staging_name name (process_id w) (staging_sequence w))) = None"
  shows "\<exists>pub w'. publication_new (join d name) w = (Inr pub, w') \<and> faults w' = []"
proof -
  let ?st = "join d (staging_name name (process_id w) (staging_sequence w))"
  let ?w1 = "w\<lparr>staging_sequence := staging_sequence w + 1\<rparr>"
  have mk: "file_call (create_dir_all_op d) w = (Inr (), w)"
    using create_dirs_below_exist [of d "tree w" "[]"] dirs
    by (simp add: file_call_nofault [OF nf] create_dir_all_op_def)
  have "create_new_op ?st (tree ?w1) = Inr ((), fs_set ?st (Regular []) (tree w))"
    using free dirs [rule_format, of "length d"] by (simp add: create_new_op_def join_def)
  moreover have "faults ?w1 = []" using nf by simp
  ultimately have "syscall (create_new_op ?st) ?w1 = (Inr (), ?w1\<lparr>tree := fs_set ?st (Regular []) (tree w)\<rparr>)"
    by (simp add: syscall_nofault)
  then have "try_staging 128 d name w = (Inr ?st, ?w1\<lparr>tree := fs_set ?st (Regular []) (tree w)\<rparr>)"
    by (simp add: numeral_eq_Suc next_sequence_def io_bind_def io_match_def Let_def)
  with mk nf show ?thesis
    by (simp add: publication_new_def io_bind_def path_file_name_join nm)
qed

lemma real_dir: "(\<And>k. k \<le> length q \<Longrightarrow> dir_at ns (take k q)) \<Longrightarrow> real_path ns q"
  using order_refl [of "length q"] unfolding real_path_def dirs_to_def dir_at_def
  by (metis node.distinct(7) order_less_imp_le take_all_iff)

lemma stage_task_total:
  assumes nf: "faults w = []" and fresh: "fresh_publication pub output ns0 (tree w)"
    and valid: "task_options_validate options = Inr ()"
    and good: "\<forall>k < total_batches options texts. batch_good T p options texts k"
    and md: "sm_dimensions md = ep_dimensions p" "unat (sm_row_count md) = length texts"
    and d: "ep_dimensions p \<noteq> 0"
  shows "\<exists>s sha w'. stage_task E T p options texts pick md pub w = (Inr (s, sha), w') \<and> faults w' = []"
proof -
  let ?st = "fp_staging pub"
  have m: "0 < to_max_in_flight options" and b: "0 < to_batch_size options"
    using valid by (simp_all add: task_options_validate_def split: if_splits)
  have st: "fs_get (tree w) ?st = Some (Regular [])" "?st \<noteq> []"
    using fresh by (auto simp: fresh_publication_def)
  have "only_at ?st (tree w) (tree w)" by (simp add: only_at_def)
  note can = fresh_real_path [OF fresh this st(1)]
  have "sm_dimensions md \<noteq> 0" using d md by simp
  from writer_create_total [OF nf can st(1) this] obtain w1 where
    c: "writer_create ?st md w = (Inr \<lparr>sw_file = ?st, sw_metadata = md, sw_rows_written = 0\<rparr>, w1)"
    and nf1: "faults w1 = []" by blast
  let ?sw = "\<lparr>sw_file = ?st, sw_metadata = md, sw_rows_written = 0\<rparr>"
  from start_inv [OF writer_create_staged(1) [OF c] m, of T p texts]
  have i: "task_inv T p options texts ?st md (tree w) (start_state options texts ?sw) w1
      \<and> at_head (to_max_in_flight options) (total_batches options texts) (start_state options texts ?sw)"
    by simp
  have "writable ?st w1" using writer_create_staged(1) [OF c] nf1 by (simp add: writable_def staged_def)
  from join_loop_total [OF conjunct1 [OF i] conjunct2 [OF i] this good md m] obtain s w2 where
    l: "join_loop T p options texts pick 0 (start_state options texts ?sw) w1 = (Inr s, w2)"
    and w2: "writable ?st w2" by blast
  from join_loop_inv [OF l i] have inv: "task_inv T p options texts ?st md (tree w) s w2"
    and n: "ts_next_write s = total_batches options texts" by blast+
  have "length (rows_upto T options texts (total_batches options texts)) = length texts"
    using rows_upto_length [OF good] total_batches_cover [OF b, of texts] by simp
  with inv n md(2) have rows: "unat (sw_rows_written (ts_writer s)) = unat (sm_row_count (sw_metadata (ts_writer s)))"
    by (auto simp: task_inv_def staged_def)
  have nf2: "faults w2 = []" using w2 by (simp add: writable_def)
  have "file_call sync_op w2 = (Inr (), w2)" by (rule read_ok [OF nf2]) (simp add: sync_op_def)
  then have f: "writer_finish (ts_writer s) w2 = (Inr (), w2)"
    using rows by (simp add: writer_finish_def io_bind_def word_unat_eq_iff)
  obtain b where "fs_get (tree w2) ?st = Some (Regular b)" using w2 by (auto simp: writable_def)
  moreover have "only_at ?st (tree w) (tree w2)" using inv by (simp add: task_inv_def staged_def only_at_def)
  ultimately have "read_op ?st (tree w2) = Inr (b, tree w2)"
    using read_real [OF fresh_real_path [OF fresh] st(2)] by blast
  then have h: "file_sha256 E ?st w2 = (Inr (sha256_raw E b), w2)"
    by (simp add: file_sha256_def io_bind_def read_ok [OF nf2])
  show ?thesis
    using c l f h nf2 by (simp add: stage_task_def io_bind_def start_state_def)
qed

lemma publication_commit_total:
  assumes nf: "faults w = []" and fresh: "fresh_publication pub output ns0 ns"
    and only: "only_at (fp_staging pub) ns (tree w)"
    and b: "fs_get (tree w) (fp_staging pub) = Some (Regular b)" and none: "fs_get ns0 output = None"
  shows "\<exists>w'. publication_commit pub w = (Inr Published, w') \<and> faults w' = []"
proof -
  let ?st = "fp_staging pub"
  from fresh have d: "fp_destination pub = output" "output \<noteq> []" "output \<noteq> ?st" "?st \<noteq> []"
    and len: "length ?st = length output"
    and dirs: "\<forall>k < length output. dir_at ns (take k output)" and out: "fs_get ns output = None"
    using none by (auto simp: fresh_publication_def)
  let ?t1 = "fs_set output (Regular b) (tree w)" and ?par = "butlast output"
  let ?w1 = "w\<lparr>tree := ?t1\<rparr>" and ?w2 = "w\<lparr>tree := fs_del ?st ?t1\<rparr>"
  have dirs': "dir_at (tree w) (take k output)" "take k output \<noteq> output" "take k output \<noteq> ?st"
    if "k < length output" for k
  proof -
    show ne: "take k output \<noteq> output" "take k output \<noteq> ?st"
      using that len by (auto dest: arg_cong [where f = length])
    show "dir_at (tree w) (take k output)"
      using dirs that only ne by (auto simp: dir_at_def only_at_def)
  qed
  have par: "?par = take (length output - 1) output" by (simp add: butlast_conv_take)
  have parent: "dir_at (tree w) ?par" using dirs'(1) [of "length output - 1"] d(2) by (simp add: par)
  have "stat_op ?st (tree w) = Inr (Regular b, tree w)"
    using fresh_real_path [OF fresh only b] b d(4) by (simp add: stat_op_def lstat_op_def)
  then have s1: "file_call (stat_op ?st) w = (Inr (Regular b), w)" by (rule read_ok [OF nf])
  have sync: "file_call sync_op v = (Inr (), v)" if "faults v = []" for v
    by (rule read_ok [OF that]) (simp add: sync_op_def)
  have "fs_get (tree w) output = None" using out only d(3) by (simp add: only_at_def)
  then have "hard_link_op ?st output (tree w) = Inr ((), ?t1)"
    using b d(2) parent by (simp add: hard_link_op_def)
  then have hl: "syscall (hard_link_op ?st output) w = (Inr (), ?w1)" by (simp add: syscall_nofault [OF nf])
  have "remove_file_op ?st ?t1 = Inr ((), fs_del ?st ?t1)" using b d(3) by (simp add: remove_file_op_def)
  then have rm: "file_call (remove_file_op ?st) ?w1 = (Inr (), ?w2)" using nf by (simp add: file_call_nofault)
  have "dir_at (tree ?w2) (take k output)" if "k < length output" for k
    using dirs' [OF that] by (auto simp: dir_at_def)
  moreover have "k < length output \<and> take k ?par = take k output" if "k \<le> length ?par" for k
    using that d(2) by (cases "output") (auto simp: butlast_conv_take min_def)
  ultimately have "real_path (tree ?w2) ?par"
    by (intro real_dir) simp
  then have "canonicalize (tree ?w2) ?par = Inr ?par" by (rule canonicalize_real)
  moreover have "dir_at (tree ?w2) ?par"
    using dirs' [of "length output - 1"] d(2) by (auto simp: par dir_at_def)
  ultimately have "stat_op ?par (tree ?w2) = Inr (Directory, tree ?w2)"
    by (auto simp: stat_op_def lstat_op_def dir_at_def)
  then have s2: "file_call (stat_op ?par) ?w2 = (Inr Directory, ?w2)"
    using nf by (intro read_ok) simp_all
  have "commit_link pub w = (Inr Published, ?w2)"
    using s1 sync [OF nf] hl rm by (simp add: commit_link_def io_bind_def io_match_def d(1))
  then show ?thesis
    using s2 sync [of ?w2] nf d(2)
    by (simp add: publication_commit_def io_match_def io_bind_def path_parent_def d(1))
qed

lemma task_total:
  assumes valid: "validate_embedding_profile p = Inr ()" "task_options_validate options = Inr ()"
    and texts: "texts \<noteq> []" "64 + 4 * (length texts * unat (ep_dimensions p)) < 2 ^ 64"
      "length order = 32"
    and good: "\<forall>k < total_batches options texts. batch_good T p options texts k"
    and nf: "faults w = []" and dirs: "\<forall>k \<le> length d. dir_at (tree w) (take k d)"
    and nm: "name \<noteq> ''..''" "to_str name = Some name"
    and free: "fs_get (tree w) (join d name) = None"
      "fs_get (tree w) (join d (staging_name name (process_id w) (staging_sequence w))) = None"
  shows "\<exists>stats report w'.
    execute_embedding_task_reported E T p texts (join d name) order options pick w
      = (Inr (stats, report), w')"
proof -
  let ?out = "join d name"
  let ?rows = "rows_upto T options texts (total_batches options texts)"
  let ?rc = "word_of_nat (length texts) :: u64"
  let ?md = "\<lparr>sm_row_count = ?rc, sm_dimensions = ep_dimensions p, sm_order_sha256 = order\<rparr>"
  have d0: "ep_dimensions p \<noteq> 0" and nrm: "ep_normalization p \<in> {''l2'', ''none''}"
    using valid(1) by (auto simp: validate_embedding_profile_def split: if_splits)
  have m: "0 < to_max_in_flight options" and b: "0 < to_batch_size options"
    using valid(2) by (simp_all add: task_options_validate_def split: if_splits)
  have "0 < unat (ep_dimensions p)" using d0 by (simp add: unat_gt_0)
  then have "length texts \<le> length texts * unat (ep_dimensions p)" by simp
  then have "length texts < 2 ^ 64" using texts(2) by linarith
  then have rc: "try_from_nat (length texts) = Some ?rc" and rcl: "unat ?rc = length texts"
    by (simp_all add: try_from_nat_def unat_of_nat)
  from publication_new_total [OF nf dirs nm free(2)] obtain pub w1 where
    pn: "publication_new ?out w = (Inr pub, w1)" and nf1: "faults w1 = []" by blast
  note fresh = publication_new_fresh [OF pn]
  from stage_task_total [OF nf1 fresh valid(2) good _ _ d0, where md = ?md and E = E and pick = pick]
    rcl obtain s sha w2 where
    st: "stage_task E T p options texts pick ?md pub w1 = (Inr (s, sha), w2)" and nf2: "faults w2 = []"
    by auto
  note so = stage_task_ok [OF st fresh m]
  from publication_commit_total [OF nf2 fresh _ _ free(1)] so obtain w3 where
    cm: "publication_commit pub w2 = (Inr Published, w3)" and nf3: "faults w3 = []" by blast
  from publish_ok [OF cm fresh] so
  have rd: "read_op ?out (tree w3) = Inr (encode_shard ?md ?rows, tree w3)" by blast
  have "\<forall>i < total_batches options texts. list_all (\<lambda>v. validate_vector v (unat (ep_dimensions p))
      (ep_normalization p) = Inr ()) (cb_vectors (batch_at T options texts i))"
    using good by (auto simp: batch_good_def)
  then have vals: "list_all (\<lambda>v. validate_vector v (unat (ep_dimensions p)) (ep_normalization p) = Inr ()) ?rows"
    by (auto simp: rows_upto_def batches_upto_def list_all_iff)
  then have "list_all (row_ok (unat (ep_dimensions p))) ?rows"
    by (simp add: validate_vector_ok row_ok_def list_all_iff)
  with so d0 texts rcl have "shard_ok ?md ?rows" by (simp add: shard_ok_def)
  then have ps: "parse_shard (encode_shard ?md ?rows) = Inr (?md, ?rows)" by (simp add: parse_shard_ok)
  have rc3: "file_call (read_op ?out) w3 = (Inr (encode_shard ?md ?rows), w3)" by (rule read_ok [OF nf3]) (rule rd)
  let ?sh = "\<lparr>es_path = ?out, es_metadata = ?md\<rparr>"
  from ps have sv: "shard_vectors ?sh w3 = (Inr ?rows, w3)"
    and hd: "read_header (encode_shard ?md ?rows) = Inr ?md"
      "validate_file_length (length (encode_shard ?md ?rows)) ?md = Inr ()"
    using rc3 by (auto simp: parse_shard_def rbind_eq_Inr shard_vectors_def io_bind_def)
  have op: "shard_open_expected ?out ?md w3 = (Inr ?sh, w3)"
    using rc3 hd sv by (simp add: shard_open_expected_def shard_open_def io_bind_def Let_def)
  have "try_all (\<lambda>v. validate_vector v (unat (ep_dimensions p)) (ep_normalization p)) ?rows = Inr ()"
    using vals by (simp add: try_all_ok list_all_iff)
  then have nv: "validate_normalization ?sh (ep_normalization p) w3 = (Inr (), w3)"
    using sv nrm by (auto simp: validate_normalization_def io_bind_def)
  have md: "ts_returned_model s = Some (ep_model p)"
    using so total_batches_pos [OF texts(1), of options] by (simp add: accounted_def Let_def)
  show ?thesis
    using valid texts(1) rc pn st cm op nv md rc3
    by (simp add: execute_embedding_task_reported_def io_bind_def io_match_def Let_def)
qed

text \<open>
  C31: if no call fails, the profile and the options are valid, the destination is free in an
  existing directory, the result fits an embedding shard, and every batch of the non-empty
  task gets a valid answer of the profile's model, then the task succeeds for every order in
  which its batches finish.
\<close>

theorem task_completes:
  assumes valid: "validate_embedding_profile p = Inr ()" "task_options_validate options = Inr ()"
    and texts: "texts \<noteq> []" "64 + 4 * (length texts * unat (ep_dimensions p)) < 2 ^ 64"
      "length order = 32"
    and good: "\<forall>k < total_batches options texts. batch_good T p options texts k"
    and nf: "faults w = []" and dirs: "\<forall>k \<le> length d. dir_at (tree w) (take k d)"
    and nm: "name \<noteq> ''..''" "to_str name = Some name"
    and free: "fs_get (tree w) (join d name) = None"
      "fs_get (tree w) (join d (staging_name name (process_id w) (staging_sequence w))) = None"
  shows "\<exists>stats report w'.
    execute_embedding_task_reported E T p texts (join d name) order options pick w
      = (Inr (stats, report), w')"
  using assms by (rule task_total)

subsection \<open>An example\<close>

definition task_world :: world where
  "task_world = \<lparr>tree = [([''d''], Directory)], staging_sequence = 0, process_id = 1, faults = []\<rparr>"

lemma example_task_facts:
  "\<forall>k \<le> length [''d'']. dir_at (tree task_world) (take k [''d''])"
  "fs_get (tree task_world) (join [''d''] x) = None" "faults task_world = []"
  "unat (ep_dimensions example_profile) = 2" "to_str ''part'' = Some ''part''"
  "\<forall>k < total_batches default_task_options [''a'']. batch_good example_env example_profile
      default_task_options [''a''] k"
  using example_batch
  by (auto simp: dir_at_def task_world_def fs_get_def join_def take_Cons' le_Suc_eq to_str_def
      example_profile_def example_total)

lemma task_result_witness:
  "\<exists>stats report w'. execute_embedding_task_reported example_externals example_env example_profile
      [''a''] [''d'', ''part''] (replicate 32 0) default_task_options id task_world
      = (Inr (stats, report), w')
    \<and> st_returned_model stats = ''model'' \<and> st_rows stats = 1
    \<and> (\<exists>b. read_op [''d'', ''part''] (tree w') = Inr (b, tree w'))"
proof -
  from task_total [OF example_profile_valid default_options_valid, of "[''a'']" "replicate 32 0"
      example_env task_world "[''d'']" "''part''" example_externals id] example_task_facts
  obtain stats report w' where r: "execute_embedding_task_reported example_externals example_env
      example_profile [''a''] [''d'', ''part''] (replicate 32 0) default_task_options id task_world
      = (Inr (stats, report), w')"
    by (auto simp: join_def)
  from task_result [OF r] r show ?thesis by (auto simp: example_profile_def)
qed

lemma task_completes_witness:
  "\<exists>stats report w'. execute_embedding_task_reported example_externals example_env example_profile
      [''a''] [''d'', ''part''] (replicate 32 0) default_task_options id task_world
      = (Inr (stats, report), w')"
  using task_completes [OF example_profile_valid default_options_valid, of "[''a'']" "replicate 32 0"
      example_env task_world "[''d'']" "''part''" example_externals id] example_task_facts
  by (simp add: join_def)

end
