(* ===== verification/Benchmark.thy ===== *)
theory Benchmark
  imports Prepared "HOL-Library.Product_Lexorder"
begin

text \<open>
  Benchmark corpora, \<open>crates/rag-pipeline/src/benchmark_selection.rs\<close>: the sampling policy
  (length strata and cumulative quotas per relation and stratum for three nested sizes), the
  selection of documents by the hash of their identity, the selection manifest and its checks.
  A tuple key of a \<open>BTreeMap\<close> is a pair with the lexicographic order.
\<close>

definition BENCHMARK_SELECTION_SCHEMA :: string where
  "BENCHMARK_SELECTION_SCHEMA = ''livefire.rag.benchmark-selection/1''"

definition STANDARD_BENCHMARK_SIZES :: "u64 list" where
  "STANDARD_BENCHMARK_SIZES = [512, 2000, 10000]"

definition POLICY_SCHEMA :: string where
  "POLICY_SCHEMA = ''livefire.rag.benchmark-selection-policy/1''"

definition SELECTION_KEY_DOMAIN :: string where
  "SELECTION_KEY_DOMAIN = ''livefire.rag.benchmark-selection-key/1''"

definition CANDIDATE_UNIVERSE_DOMAIN :: bytes where
  "CANDIDATE_UNIVERSE_DOMAIN = str_bytes ''livefire.rag.benchmark-candidate-universe/1'' @ [0]"

definition SELECTION_PREFIX_DOMAIN :: bytes where
  "SELECTION_PREFIX_DOMAIN = str_bytes ''livefire.rag.benchmark-selection-prefix/1'' @ [0]"

definition MEMBERSHIP_DOMAIN :: bytes where
  "MEMBERSHIP_DOMAIN = str_bytes ''livefire.rag.benchmark-membership/1'' @ [0]"

subsection \<open>Policy\<close>

record length_stratum =
  ls_id :: string
  ls_minimum :: u64
  ls_maximum :: "u64 option"

record stratum_quota =
  sq_relation :: string
  sq_length_stratum :: string
  sq_documents :: u64

record target_quota =
  tq_document_count :: u64
  tq_quotas :: "stratum_quota list"

record selection_policy =
  sp_schema_version :: string
  sp_component_sha256 :: digest
  sp_algorithm :: string
  sp_selection_seed :: string
  sp_length_strata :: "length_stratum list"
  sp_targets :: "target_quota list"

definition json_length_stratum :: "length_stratum \<Rightarrow> json" where
  "json_length_stratum s = JObj
     [(''id'', JStr (ls_id s)), (''minimum_utf8_bytes'', json_u64 (ls_minimum s)),
      (''maximum_utf8_bytes'', case ls_maximum s of None \<Rightarrow> JNull | Some m \<Rightarrow> json_u64 m)]"

definition json_stratum_quota :: "stratum_quota \<Rightarrow> json" where
  "json_stratum_quota q = JObj
     [(''relation'', JStr (sq_relation q)), (''length_stratum'', JStr (sq_length_stratum q)),
      (''documents'', json_u64 (sq_documents q))]"

definition json_target_quota :: "target_quota \<Rightarrow> json" where
  "json_target_quota t = JObj
     [(''document_count'', json_u64 (tq_document_count t)),
      (''quotas'', JArr (map json_stratum_quota (tq_quotas t)))]"

definition json_selection_policy :: "selection_policy \<Rightarrow> json" where
  "json_selection_policy p = JObj
     [(''schema_version'', JStr (sp_schema_version p)),
      (''component_sha256'', json_digest (sp_component_sha256 p)),
      (''algorithm'', JStr (sp_algorithm p)), (''selection_seed'', JStr (sp_selection_seed p)),
      (''length_strata'', JArr (map json_length_stratum (sp_length_strata p))),
      (''targets'', JArr (map json_target_quota (sp_targets p)))]"

definition check_length_stratum ::
    "nat \<Rightarrow> string set \<times> u64 \<Rightarrow> nat \<times> length_stratum \<Rightarrow> pipeline_error + string set \<times> u64" where
  "check_length_stratum n st item = (case (st, item) of ((ids, next), (index, stratum)) \<Rightarrow>
     rbind (require_text (ls_id stratum)) (\<lambda>_.
     rbind (require_safe_u64 (ls_minimum stratum)) (\<lambda>_.
     if ls_id stratum \<in> ids \<or> ls_minimum stratum \<noteq> next
     then Inl (Invalid ''benchmark length strata'')
     else case ls_maximum stratum of
         Some maximum \<Rightarrow>
           rbind (require_safe_u64 maximum) (\<lambda>_.
           if maximum < ls_minimum stratum \<or> index + 1 = n
           then Inl (Invalid ''benchmark length strata'')
           else rbind (ok_or (Invalid ''benchmark length strata'') (checked_add maximum 1)) (\<lambda>next'.
             Inr (insert (ls_id stratum) ids, next')))
       | None \<Rightarrow>
           if index + 1 = n then Inr (insert (ls_id stratum) ids, next)
           else Inl (Invalid ''benchmark length strata''))))"

definition validate_length_strata :: "length_stratum list \<Rightarrow> pipeline_error + unit" where
  "validate_length_strata strata =
     (if strata = [] then Inl (Invalid ''benchmark length strata'')
      else rbind (try_fold (check_length_stratum (length strata)) ({}, 0) (enumerate 0 strata))
             (\<lambda>_. Inr ()))"

type_synonym cell = "string \<times> string"

definition quota_cell :: "stratum_quota \<Rightarrow> cell" where
  "quota_cell q = (sq_relation q, sq_length_stratum q)"

definition expected_cells :: "selection_policy \<Rightarrow> dataset_identity \<Rightarrow> cell list" where
  "expected_cells p d =
     concat (map (\<lambda>relation. map (\<lambda>s. (relation, ls_id s)) (sp_length_strata p)) (included_relations d))"

definition check_quota ::
    "u64 \<times> (cell, u64) btree \<Rightarrow> stratum_quota \<Rightarrow> pipeline_error + u64 \<times> (cell, u64) btree" where
  "check_quota st quota = (case st of (subtotal, previous) \<Rightarrow>
     rbind (require_safe_u64 (sq_documents quota)) (\<lambda>_.
     if sq_documents quota < (case bt_get previous (quota_cell quota) of None \<Rightarrow> 0 | Some n \<Rightarrow> n)
     then Inl (Invalid ''benchmark quota nesting'')
     else rbind (ok_or (Invalid ''benchmark quota total'') (checked_add subtotal (sq_documents quota)))
       (\<lambda>subtotal'. Inr (subtotal', bt_insert (quota_cell quota) (sq_documents quota) previous))))"

definition check_target_quota ::
    "cell list \<Rightarrow> (cell, u64) btree \<Rightarrow> target_quota \<times> u64 \<Rightarrow> pipeline_error + (cell, u64) btree" where
  "check_target_quota cells previous item = (case item of (target, expected_size) \<Rightarrow>
     rbind (require_safe_u64 (tq_document_count target)) (\<lambda>_.
     if tq_document_count target \<noteq> expected_size \<or> length (tq_quotas target) \<noteq> length cells
     then Inl (Invalid ''standard benchmark target sizes'')
     else if map quota_cell (tq_quotas target) \<noteq> cells
     then Inl (Invalid ''benchmark quota coverage or order'')
     else rbind (try_fold check_quota (0, previous) (tq_quotas target)) (\<lambda>(subtotal, previous').
       if subtotal \<noteq> expected_size then Inl (Invalid ''benchmark quota total'')
       else Inr previous')))"

definition selection_policy_validate ::
    "externals \<Rightarrow> selection_policy \<Rightarrow> dataset_identity \<Rightarrow> pipeline_error + unit" where
  "selection_policy_validate X p d =
     rbind (dataset_identity_validate d) (\<lambda>_.
     if sp_schema_version p \<noteq> POLICY_SCHEMA \<or> sp_algorithm p \<noteq> ''staged_stratified_sha256_v1''
     then Inl (Invalid ''benchmark selection policy schema'')
     else
     rbind (require_text (sp_selection_seed p)) (\<lambda>_.
     rbind (validate_length_strata (sp_length_strata p)) (\<lambda>_.
     if length (sp_targets p) \<noteq> length STANDARD_BENCHMARK_SIZES
     then Inl (Invalid ''standard benchmark target sizes'')
     else
     rbind (try_fold (check_target_quota (expected_cells p d)) []
              (zip (sp_targets p) STANDARD_BENCHMARK_SIZES)) (\<lambda>_.
     rbind (component_digest X (json_selection_policy p)) (\<lambda>sha.
     if sp_component_sha256 p \<noteq> sha then Inl (Invalid ''benchmark policy component digest'')
     else Inr ())))))"

definition selection_policy_seal ::
    "externals \<Rightarrow> dataset_identity \<Rightarrow> selection_policy \<Rightarrow> pipeline_error + selection_policy" where
  "selection_policy_seal X d p =
     rbind (component_digest X (json_selection_policy p)) (\<lambda>sha.
       let p' = p\<lparr>sp_component_sha256 := sha\<rparr>
       in rbind (selection_policy_validate X p' d) (\<lambda>_. Inr p'))"

subsection \<open>Candidates and selected rows\<close>

record selection_candidate =
  sc_document_id :: string
  sc_document_sha256 :: digest
  sc_text_sha256 :: digest
  sc_utf8_bytes :: u64
  sc_primary_relation :: string

definition candidate_from_prepared ::
    "externals \<Rightarrow> prepared_document_row \<Rightarrow> pipeline_error + selection_candidate" where
  "candidate_from_prepared X row =
     rbind (prepared_document_row_validate X row) (\<lambda>_.
     rbind (ok_or (Invalid ''semantic text byte length'')
              (try_from_nat (length (pd_semantic_text row)))) (\<lambda>n.
     rbind (require_safe_u64 n) (\<lambda>_.
     Inr \<lparr>sc_document_id = pd_document_id row, sc_document_sha256 = pd_document_sha256 row,
          sc_text_sha256 = pd_text_sha256 row, sc_utf8_bytes = n,
          sc_primary_relation = pd_primary_relation row\<rparr>)))"

record selection_row =
  sr_rank :: u64
  sr_document_id :: string
  sr_document_sha256 :: digest
  sr_text_sha256 :: digest
  sr_utf8_bytes :: u64
  sr_primary_relation :: string
  sr_length_stratum :: string
  sr_key :: digest

definition json_selection_row :: "selection_row \<Rightarrow> json" where
  "json_selection_row r = JObj
     [(''selection_rank'', json_u64 (sr_rank r)), (''document_id'', JStr (sr_document_id r)),
      (''document_sha256'', json_digest (sr_document_sha256 r)),
      (''semantic_text_sha256'', json_digest (sr_text_sha256 r)),
      (''semantic_text_utf8_bytes'', json_u64 (sr_utf8_bytes r)),
      (''primary_relation'', JStr (sr_primary_relation r)),
      (''length_stratum'', JStr (sr_length_stratum r)),
      (''selection_key_sha256'', json_digest (sr_key r))]"

definition validate_candidate :: "selection_candidate \<Rightarrow> dataset_identity \<Rightarrow> pipeline_error + unit" where
  "validate_candidate c d =
     rbind (require_text (sc_document_id c)) (\<lambda>_.
     rbind (require_text (sc_primary_relation c)) (\<lambda>_.
     rbind (require_safe_u64 (sc_utf8_bytes c)) (\<lambda>_.
     if sc_utf8_bytes c = 0 \<or> sc_primary_relation c \<notin> set (included_relations d)
     then Inl (Invalid ''benchmark candidate fields'') else Inr ())))"

definition in_stratum :: "u64 \<Rightarrow> length_stratum \<Rightarrow> bool" where
  "in_stratum n s \<longleftrightarrow> ls_minimum s \<le> n \<and> (case ls_maximum s of None \<Rightarrow> True | Some m \<Rightarrow> n \<le> m)"

definition find_length_stratum :: "length_stratum list \<Rightarrow> u64 \<Rightarrow> pipeline_error + length_stratum" where
  "find_length_stratum strata n =
     ok_or (Invalid ''semantic text length stratum'') (find (in_stratum n) strata)"

definition selection_key ::
    "externals \<Rightarrow> digest \<Rightarrow> digest \<Rightarrow> digest \<Rightarrow> string \<Rightarrow> selection_candidate \<Rightarrow> string \<Rightarrow>
     pipeline_error + digest" where
  "selection_key X dataset_sha256 projection_sha256 policy_sha256 seed c stratum =
     canonical_digest X (JObj
       [(''schema_version'', JStr SELECTION_KEY_DOMAIN),
        (''dataset_sha256'', json_digest dataset_sha256),
        (''projection_policy_sha256'', json_digest projection_sha256),
        (''selection_policy_sha256'', json_digest policy_sha256),
        (''selection_seed'', JStr seed), (''document_id'', JStr (sc_document_id c)),
        (''document_sha256'', json_digest (sc_document_sha256 c)),
        (''semantic_text_sha256'', json_digest (sc_text_sha256 c)),
        (''semantic_text_utf8_bytes'', json_u64 (sc_utf8_bytes c)),
        (''primary_relation'', JStr (sc_primary_relation c)),
        (''length_stratum'', JStr stratum)])"

definition candidate_json :: "selection_candidate \<Rightarrow> json" where
  "candidate_json c = JObj
     [(''document_id'', JStr (sc_document_id c)),
      (''document_sha256'', json_digest (sc_document_sha256 c)),
      (''semantic_text_sha256'', json_digest (sc_text_sha256 c)),
      (''semantic_text_utf8_bytes'', json_u64 (sc_utf8_bytes c)),
      (''primary_relation'', JStr (sc_primary_relation c))]"

definition candidate_universe_digest ::
    "externals \<Rightarrow> selection_candidate list \<Rightarrow> pipeline_error + digest" where
  "candidate_universe_digest X candidates =
     rbind (try_fold (\<lambda>bytes c. rbind (canonical_digest X (candidate_json c)) (\<lambda>d.
              Inr (bytes @ str_bytes (digest_str d) @ [0])))
            CANDIDATE_UNIVERSE_DOMAIN (sort_key sc_document_id candidates))
       (\<lambda>bytes. Inr (digest_bytes X bytes))"

definition selection_prefix_digest :: "externals \<Rightarrow> selection_row list \<Rightarrow> digest" where
  "selection_prefix_digest X rows = digest_bytes X (SELECTION_PREFIX_DOMAIN @
     concat (map (\<lambda>r. nul_framed
       [nat_digits (unat (sr_rank r)), sr_document_id r, digest_str (sr_document_sha256 r),
        digest_str (sr_text_sha256 r), digest_str (sr_key r)]) rows))"

definition selected_membership_digest :: "externals \<Rightarrow> selection_row list \<Rightarrow> digest" where
  "selected_membership_digest X rows = digest_bytes X (MEMBERSHIP_DOMAIN @
     concat (map (\<lambda>r. nul_framed
       [sr_document_id r, digest_str (sr_document_sha256 r), digest_str (sr_text_sha256 r)])
       (sort_key sr_document_id rows)))"

definition prepared_membership_digest :: "externals \<Rightarrow> prepared_document_row list \<Rightarrow> digest" where
  "prepared_membership_digest X rows = digest_bytes X (MEMBERSHIP_DOMAIN @
     concat (map (\<lambda>r. nul_framed
       [pd_document_id r, digest_str (pd_document_sha256 r), digest_str (pd_text_sha256 r)]) rows))"

subsection \<open>Selection\<close>

type_synonym groups = "(cell, selection_row list) btree"

text \<open>\<open>groups.entry(cell).or_default().push(row)\<close>.\<close>

definition push_group :: "cell \<Rightarrow> selection_row \<Rightarrow> groups \<Rightarrow> groups" where
  "push_group cell row groups =
     bt_insert cell ((case bt_get groups cell of None \<Rightarrow> [] | Some rows \<Rightarrow> rows) @ [row]) groups"

definition candidate_row :: "selection_candidate \<Rightarrow> string \<Rightarrow> digest \<Rightarrow> selection_row" where
  "candidate_row c stratum key =
     \<lparr>sr_rank = 0, sr_document_id = sc_document_id c, sr_document_sha256 = sc_document_sha256 c,
      sr_text_sha256 = sc_text_sha256 c, sr_utf8_bytes = sc_utf8_bytes c,
      sr_primary_relation = sc_primary_relation c, sr_length_stratum = stratum, sr_key = key\<rparr>"

definition group_candidate ::
    "externals \<Rightarrow> dataset_identity \<Rightarrow> digest \<Rightarrow> digest \<Rightarrow> selection_policy \<Rightarrow>
     string set \<times> digest set \<times> groups \<Rightarrow> selection_candidate \<Rightarrow>
     pipeline_error + string set \<times> digest set \<times> groups" where
  "group_candidate X d dataset_sha256 projection_sha256 p st c = (case st of (ids, keys, groups) \<Rightarrow>
     rbind (validate_candidate c d) (\<lambda>_.
     if sc_document_id c \<in> ids then Inl (Invalid ''duplicate benchmark candidate id'')
     else
     rbind (find_length_stratum (sp_length_strata p) (sc_utf8_bytes c)) (\<lambda>stratum.
     rbind (selection_key X dataset_sha256 projection_sha256 (sp_component_sha256 p)
              (sp_selection_seed p) c (ls_id stratum)) (\<lambda>key.
     if key \<in> keys then Inl (Invalid ''duplicate benchmark selection key'')
     else Inr (insert (sc_document_id c) ids, insert key keys,
            push_group (sc_primary_relation c, ls_id stratum) (candidate_row c (ls_id stratum) key)
              groups)))))"

definition row_order :: "selection_row \<Rightarrow> string \<times> string" where
  "row_order r = (digest_str (sr_key r), sr_document_id r)"

definition sort_rows :: "selection_row list \<Rightarrow> selection_row list" where
  "sort_rows = sort_key row_order"

text \<open>One quota of a target: the additions so far and where each cell was left.\<close>

definition take_quota ::
    "groups \<Rightarrow> selection_row list \<times> (cell, nat) btree \<Rightarrow> stratum_quota \<Rightarrow>
     pipeline_error + selection_row list \<times> (cell, nat) btree" where
  "take_quota groups st quota = (case st of (additions, previous) \<Rightarrow>
     let cell = quota_cell quota;
         start = (case bt_get previous cell of None \<Rightarrow> 0 | Some n \<Rightarrow> n);
         stop = unat (sq_documents quota)
     in case bt_get groups cell of
          None \<Rightarrow>
            if start = 0 \<and> stop = 0 then Inr (additions, bt_insert cell 0 previous)
            else Inl (Invalid ''benchmark stratum has no candidates'')
        | Some candidates \<Rightarrow>
            if stop > length candidates \<or> start > stop
            then Inl (Invalid ''benchmark stratum capacity'')
            else Inr (additions @ take (stop - start) (drop start candidates),
                      bt_insert cell stop previous))"

definition rank_rows ::
    "selection_row list \<Rightarrow> selection_row list \<Rightarrow> pipeline_error + selection_row list" where
  "rank_rows selected additions =
     try_fold (\<lambda>selected row.
       rbind (ok_or (Invalid ''benchmark selection rank'') (try_from_nat (length selected))) (\<lambda>rank.
       Inr (selected @ [row\<lparr>sr_rank := rank\<rparr>]))) selected additions"

definition take_target ::
    "groups \<Rightarrow> selection_row list \<times> (cell, nat) btree \<Rightarrow> target_quota \<Rightarrow>
     pipeline_error + selection_row list \<times> (cell, nat) btree" where
  "take_target groups st target = (case st of (selected, previous) \<Rightarrow>
     rbind (try_fold (take_quota groups) ([], previous) (tq_quotas target)) (\<lambda>(additions, previous').
     rbind (rank_rows selected (sort_rows additions)) (\<lambda>selected'.
     if try_from_nat (length selected') \<noteq> Some (tq_document_count target)
     then Inl (Invalid ''benchmark target selection count'') else Inr (selected', previous'))))"

definition select_benchmark_documents ::
    "externals \<Rightarrow> dataset_identity \<Rightarrow> component_ref \<Rightarrow> selection_policy \<Rightarrow> selection_candidate list \<Rightarrow>
     pipeline_error + u64 \<times> digest \<times> selection_row list" where
  "select_benchmark_documents X d projection p candidates =
     rbind (dataset_identity_validate d) (\<lambda>_.
     rbind (component_ref_validate projection) (\<lambda>_.
     rbind (selection_policy_validate X p d) (\<lambda>_.
     rbind (ok_or (Invalid ''benchmark candidate count'') (try_from_nat (length candidates))) (\<lambda>n.
     rbind (require_safe_u64 n) (\<lambda>_.
     if n < STANDARD_BENCHMARK_SIZES ! 2 then Inl (Invalid ''benchmark candidate capacity'')
     else
     rbind (canonical_digest X (json_dataset_identity d)) (\<lambda>dataset_sha256.
     rbind (try_fold (group_candidate X d dataset_sha256 (cr_sha256 projection) p) ({}, {}, [])
              candidates) (\<lambda>(_, _, groups).
     rbind (candidate_universe_digest X candidates) (\<lambda>universe.
     rbind (try_fold (take_target (map (\<lambda>(cell, rows). (cell, sort_rows rows)) groups)) ([], [])
              (sp_targets p)) (\<lambda>(selected, _).
     Inr (n, universe, selected))))))))))"

subsection \<open>The manifest\<close>

record prepared_identity =
  pi_prepared_corpus_sha256 :: digest
  pi_dataset_sha256 :: digest
  pi_projection_policy_sha256 :: digest
  pi_document_count :: u64
  pi_occurrence_count :: u64
  pi_document_order_sha256 :: digest
  pi_embedding_input_order_sha256 :: digest
  pi_selected_documents_sha256 :: digest

record published_corpus =
  bp_document_count :: u64
  bp_selection_prefix_sha256 :: digest
  bp_prepared_corpus :: prepared_identity

record selection_target =
  st_document_count :: u64
  st_quotas :: "stratum_quota list"
  st_selection_prefix_sha256 :: digest
  st_prepared_corpus :: prepared_identity

record selection_manifest =
  sm_schema_version :: string
  sm_component_sha256 :: digest
  sm_dataset :: dataset_identity
  sm_dataset_sha256 :: digest
  sm_projection_policy :: component_ref
  sm_selection_implementation :: component_ref
  sm_selection_policy :: selection_policy
  sm_candidate_count :: u64
  sm_candidate_universe_sha256 :: digest
  sm_selection_count :: u64
  sm_selection_order_sha256 :: digest
  sm_selections :: "selection_row list"
  sm_targets :: "selection_target list"

definition json_prepared_identity :: "prepared_identity \<Rightarrow> json" where
  "json_prepared_identity i = JObj
     [(''prepared_corpus_sha256'', json_digest (pi_prepared_corpus_sha256 i)),
      (''dataset_sha256'', json_digest (pi_dataset_sha256 i)),
      (''projection_policy_sha256'', json_digest (pi_projection_policy_sha256 i)),
      (''document_count'', json_u64 (pi_document_count i)),
      (''occurrence_count'', json_u64 (pi_occurrence_count i)),
      (''document_order_sha256'', json_digest (pi_document_order_sha256 i)),
      (''embedding_input_order_sha256'', json_digest (pi_embedding_input_order_sha256 i)),
      (''selected_documents_sha256'', json_digest (pi_selected_documents_sha256 i))]"

definition json_selection_target :: "selection_target \<Rightarrow> json" where
  "json_selection_target t = JObj
     [(''document_count'', json_u64 (st_document_count t)),
      (''quotas'', JArr (map json_stratum_quota (st_quotas t))),
      (''selection_prefix_sha256'', json_digest (st_selection_prefix_sha256 t)),
      (''prepared_corpus'', json_prepared_identity (st_prepared_corpus t))]"

definition json_selection_manifest :: "selection_manifest \<Rightarrow> json" where
  "json_selection_manifest m = JObj
     [(''schema_version'', JStr (sm_schema_version m)),
      (''component_sha256'', json_digest (sm_component_sha256 m)),
      (''dataset'', json_dataset_identity (sm_dataset m)),
      (''dataset_sha256'', json_digest (sm_dataset_sha256 m)),
      (''projection_policy'', json_component_ref (sm_projection_policy m)),
      (''selection_implementation'', json_component_ref (sm_selection_implementation m)),
      (''selection_policy'', json_selection_policy (sm_selection_policy m)),
      (''candidate_count'', json_u64 (sm_candidate_count m)),
      (''candidate_universe_sha256'', json_digest (sm_candidate_universe_sha256 m)),
      (''selection_count'', json_u64 (sm_selection_count m)),
      (''selection_order_sha256'', json_digest (sm_selection_order_sha256 m)),
      (''selections'', JArr (map json_selection_row (sm_selections m))),
      (''targets'', JArr (map json_selection_target (sm_targets m)))]"

subsection \<open>Checks on the selected rows\<close>

definition row_candidate :: "selection_row \<Rightarrow> selection_candidate" where
  "row_candidate r =
     \<lparr>sc_document_id = sr_document_id r, sc_document_sha256 = sr_document_sha256 r,
      sc_text_sha256 = sr_text_sha256 r, sc_utf8_bytes = sr_utf8_bytes r,
      sc_primary_relation = sr_primary_relation r\<rparr>"

definition check_selection_row ::
    "externals \<Rightarrow> digest \<Rightarrow> digest \<Rightarrow> selection_policy \<Rightarrow> string set \<times> digest set \<Rightarrow>
     nat \<times> selection_row \<Rightarrow> pipeline_error + string set \<times> digest set" where
  "check_selection_row X dataset_sha256 projection_sha256 p st item =
     (case (st, item) of ((ids, keys), (rank, row)) \<Rightarrow>
       rbind (require_safe_u64 (sr_rank row)) (\<lambda>_.
       rbind (require_safe_u64 (sr_utf8_bytes row)) (\<lambda>_.
       if unat (sr_rank row) \<noteq> rank \<or> sr_document_id row \<in> ids \<or> sr_key row \<in> keys
       then Inl (Invalid ''benchmark selection rank or identity'')
       else
       rbind (find_length_stratum (sp_length_strata p) (sr_utf8_bytes row)) (\<lambda>stratum.
       if ls_id stratum \<noteq> sr_length_stratum row then Inl (Invalid ''benchmark selection key'')
       else
       rbind (selection_key X dataset_sha256 projection_sha256 (sp_component_sha256 p)
                (sp_selection_seed p) (row_candidate row) (sr_length_stratum row)) (\<lambda>key.
       if key \<noteq> sr_key row then Inl (Invalid ''benchmark selection key'')
       else Inr (insert (sr_document_id row) ids, insert (sr_key row) keys))))))"

text \<open>
  \<open>rows[stage_start..stage_end].windows(2)\<close>; the manifest's validation has checked that
  there are as many rows as the last stage ends at, so the slices are in range.
\<close>

definition check_stage ::
    "selection_row list \<Rightarrow> nat \<Rightarrow> u64 \<Rightarrow> pipeline_error + nat" where
  "check_stage rows stage_start stage_size =
     (let stage_end = unat stage_size
      in if \<not> successively (\<lambda>a b. row_order a < row_order b)
              (take (stage_end - stage_start) (drop stage_start rows))
         then Inl (Invalid ''benchmark selection stage order'') else Inr stage_end)"

definition validate_selection_rows ::
    "externals \<Rightarrow> selection_row list \<Rightarrow> digest \<Rightarrow> digest \<Rightarrow> selection_policy \<Rightarrow>
     pipeline_error + unit" where
  "validate_selection_rows X rows dataset_sha256 projection_sha256 p =
     rbind (try_fold (check_selection_row X dataset_sha256 projection_sha256 p) ({}, {})
              (enumerate 0 rows)) (\<lambda>_.
     rbind (try_fold (check_stage rows) 0 STANDARD_BENCHMARK_SIZES) (\<lambda>_. Inr ()))"

definition row_cell :: "selection_row \<Rightarrow> cell" where
  "row_cell r = (sr_primary_relation r, sr_length_stratum r)"

definition count_row :: "(cell, u64) btree \<Rightarrow> selection_row \<Rightarrow> (cell, u64) btree" where
  "count_row counts row =
     bt_insert (row_cell row)
       ((case bt_get counts (row_cell row) of None \<Rightarrow> 0 | Some n \<Rightarrow> n) + 1) counts"

definition validate_prefix_quotas ::
    "selection_row list \<Rightarrow> stratum_quota list \<Rightarrow> pipeline_error + unit" where
  "validate_prefix_quotas rows quotas =
     (let actual = foldl count_row [] rows
      in try_all (\<lambda>quota.
           if (case bt_get actual (quota_cell quota) of None \<Rightarrow> 0 | Some n \<Rightarrow> n) \<noteq> sq_documents quota
           then Inl (Invalid ''benchmark target quota'') else Inr ()) quotas)"

definition validate_prepared_identity ::
    "externals \<Rightarrow> prepared_identity \<Rightarrow> u64 \<Rightarrow> digest \<Rightarrow> digest \<Rightarrow> selection_row list \<Rightarrow>
     pipeline_error + unit" where
  "validate_prepared_identity X i expected_size dataset_sha256 projection_sha256 selections =
     rbind (require_safe_u64 (pi_document_count i)) (\<lambda>_.
     rbind (require_safe_u64 (pi_occurrence_count i)) (\<lambda>_.
     if pi_document_count i \<noteq> expected_size \<or> pi_dataset_sha256 i \<noteq> dataset_sha256
        \<or> pi_projection_policy_sha256 i \<noteq> projection_sha256
        \<or> pi_selected_documents_sha256 i \<noteq> selected_membership_digest X selections
     then Inl (Invalid ''benchmark prepared corpus identity'') else Inr ()))"

definition check_selection_target ::
    "externals \<Rightarrow> selection_manifest \<Rightarrow> (selection_target \<times> target_quota) \<times> u64 \<Rightarrow>
     pipeline_error + unit" where
  "check_selection_target X m item = (case item of ((target, quota), expected_size) \<Rightarrow>
     if st_document_count target \<noteq> expected_size \<or> tq_document_count quota \<noteq> expected_size
        \<or> st_quotas target \<noteq> tq_quotas quota
     then Inl (Invalid ''benchmark target binding'')
     else let prefix = take (unat expected_size) (sm_selections m)
       in if st_selection_prefix_sha256 target \<noteq> selection_prefix_digest X prefix
          then Inl (Invalid ''benchmark target prefix digest'')
          else rbind (validate_prefix_quotas prefix (st_quotas target)) (\<lambda>_.
            validate_prepared_identity X (st_prepared_corpus target) expected_size
              (sm_dataset_sha256 m) (cr_sha256 (sm_projection_policy m)) prefix))"

definition selection_manifest_validate ::
    "externals \<Rightarrow> selection_manifest \<Rightarrow> pipeline_error + unit" where
  "selection_manifest_validate X m =
     rbind (require_safe_u64 (sm_candidate_count m)) (\<lambda>_.
     rbind (require_safe_u64 (sm_selection_count m)) (\<lambda>_.
     rbind (if sm_schema_version m \<noteq> BENCHMARK_SELECTION_SCHEMA
            then Inl (Invalid ''benchmark selection manifest binding'')
            else canonical_digest X (json_dataset_identity (sm_dataset m))) (\<lambda>dataset_sha256.
     if sm_dataset_sha256 m \<noteq> dataset_sha256
        \<or> sm_selection_count m \<noteq> STANDARD_BENCHMARK_SIZES ! 2
        \<or> try_from_nat (length (sm_selections m)) \<noteq> Some (sm_selection_count m)
        \<or> sm_candidate_count m < sm_selection_count m
     then Inl (Invalid ''benchmark selection manifest binding'')
     else
     rbind (dataset_identity_validate (sm_dataset m)) (\<lambda>_.
     rbind (component_ref_validate (sm_projection_policy m)) (\<lambda>_.
     rbind (component_ref_validate (sm_selection_implementation m)) (\<lambda>_.
     rbind (selection_policy_validate X (sm_selection_policy m) (sm_dataset m)) (\<lambda>_.
     rbind (validate_selection_rows X (sm_selections m) (sm_dataset_sha256 m)
              (cr_sha256 (sm_projection_policy m)) (sm_selection_policy m)) (\<lambda>_.
     if sm_selection_order_sha256 m \<noteq> selection_prefix_digest X (sm_selections m)
     then Inl (Invalid ''benchmark selection order digest'')
     else if length (sm_targets m) \<noteq> length STANDARD_BENCHMARK_SIZES
     then Inl (Invalid ''benchmark target coverage'')
     else
     rbind (try_all (check_selection_target X m)
              (zip (zip (sm_targets m) (sp_targets (sm_selection_policy m))) STANDARD_BENCHMARK_SIZES))
       (\<lambda>_.
     rbind (component_digest X (json_selection_manifest m)) (\<lambda>sha.
     if sm_component_sha256 m \<noteq> sha then Inl (Invalid ''benchmark selection component digest'')
     else Inr ()))))))))))"

definition validate_against_candidates ::
    "externals \<Rightarrow> selection_manifest \<Rightarrow> selection_candidate list \<Rightarrow> pipeline_error + unit" where
  "validate_against_candidates X m candidates =
     rbind (selection_manifest_validate X m) (\<lambda>_.
     rbind (select_benchmark_documents X (sm_dataset m) (sm_projection_policy m)
              (sm_selection_policy m) candidates) (\<lambda>(n, universe, selections).
     if n \<noteq> sm_candidate_count m \<or> universe \<noteq> sm_candidate_universe_sha256 m
        \<or> selections \<noteq> sm_selections m
     then Inl (Invalid ''benchmark candidate universe binding'') else Inr ()))"

subsection \<open>Binding to prepared corpora\<close>

definition bind_benchmark_prepared_corpus ::
    "externals \<Rightarrow> u64 \<Rightarrow> selection_row list \<Rightarrow> dataset_identity \<Rightarrow> component_ref \<Rightarrow>
     prepared_corpus_manifest \<Rightarrow> prepared_document_row list \<Rightarrow> pipeline_error + published_corpus" where
  "bind_benchmark_prepared_corpus X document_count selections d projection prepared documents =
     (if document_count \<notin> set STANDARD_BENCHMARK_SIZES
      then Inl (Invalid ''standard benchmark target size'')
      else
      rbind (prepared_manifest_validate X prepared) (\<lambda>_.
      rbind (validate_prepared_documents X prepared documents) (\<lambda>_.
      rbind (if unat document_count \<le> length selections
             then Inr (take (unat document_count) selections)
             else Inl (Invalid ''benchmark selection prefix'')) (\<lambda>prefix.
      if pc_dataset prepared \<noteq> d \<or> pc_projection_policy prepared \<noteq> projection
         \<or> pc_document_count prepared \<noteq> document_count
      then Inl (Invalid ''benchmark prepared corpus binding'')
      else
      let selected_membership = selected_membership_digest X prefix
      in if selected_membership \<noteq> prepared_membership_digest X documents
         then Inl (Invalid ''benchmark prepared document membership'')
         else rbind (canonical_digest X (json_dataset_identity d)) (\<lambda>dataset_sha256.
           Inr \<lparr>bp_document_count = document_count,
                bp_selection_prefix_sha256 = selection_prefix_digest X prefix,
                bp_prepared_corpus =
                  \<lparr>pi_prepared_corpus_sha256 = pc_component_sha256 prepared,
                   pi_dataset_sha256 = dataset_sha256,
                   pi_projection_policy_sha256 = cr_sha256 projection,
                   pi_document_count = document_count,
                   pi_occurrence_count = pc_occurrence_count prepared,
                   pi_document_order_sha256 = pc_document_order_sha256 prepared,
                   pi_embedding_input_order_sha256 = pc_embedding_input_order_sha256 prepared,
                   pi_selected_documents_sha256 = selected_membership\<rparr>\<rparr>)))))"

definition check_prepared_corpus ::
    "externals \<Rightarrow> selection_manifest \<Rightarrow>
     selection_target \<times> (prepared_corpus_manifest \<times> prepared_document_row list) \<Rightarrow>
     pipeline_error + unit" where
  "check_prepared_corpus X m item = (case item of (target, (prepared, documents)) \<Rightarrow>
     rbind (bind_benchmark_prepared_corpus X (st_document_count target) (sm_selections m)
              (sm_dataset m) (sm_projection_policy m) prepared documents) (\<lambda>actual.
     if bp_document_count actual \<noteq> st_document_count target
        \<or> bp_selection_prefix_sha256 actual \<noteq> st_selection_prefix_sha256 target
        \<or> bp_prepared_corpus actual \<noteq> st_prepared_corpus target
     then Inl (Invalid ''benchmark prepared corpus identity'') else Inr ()))"

definition validate_prepared_corpora ::
    "externals \<Rightarrow> selection_manifest \<Rightarrow> (prepared_corpus_manifest \<times> prepared_document_row list) list \<Rightarrow>
     pipeline_error + unit" where
  "validate_prepared_corpora X m corpora =
     rbind (selection_manifest_validate X m) (\<lambda>_.
     if length corpora \<noteq> length (sm_targets m)
     then Inl (Invalid ''benchmark prepared corpus coverage'')
     else try_all (check_prepared_corpus X m) (zip (sm_targets m) corpora))"

definition published_target :: "published_corpus \<times> target_quota \<Rightarrow> selection_target" where
  "published_target item = (case item of (published, quota) \<Rightarrow>
     \<lparr>st_document_count = bp_document_count published, st_quotas = tq_quotas quota,
      st_selection_prefix_sha256 = bp_selection_prefix_sha256 published,
      st_prepared_corpus = bp_prepared_corpus published\<rparr>)"

definition build_benchmark_selection_manifest ::
    "externals \<Rightarrow> dataset_identity \<Rightarrow> component_ref \<Rightarrow> component_ref \<Rightarrow> selection_policy \<Rightarrow> u64 \<Rightarrow>
     digest \<Rightarrow> selection_row list \<Rightarrow> published_corpus list \<Rightarrow> pipeline_error + selection_manifest" where
  "build_benchmark_selection_manifest X d projection implementation p n universe selections published =
     (if length published \<noteq> length STANDARD_BENCHMARK_SIZES
      then Inl (Invalid ''benchmark published corpus coverage'')
      else
      rbind (canonical_digest X (json_dataset_identity d)) (\<lambda>dataset_sha256.
      rbind (ok_or (Invalid ''benchmark selection count'') (try_from_nat (length selections))) (\<lambda>count.
      let m = \<lparr>sm_schema_version = BENCHMARK_SELECTION_SCHEMA,
               sm_component_sha256 = digest_bytes X (str_bytes ''unsealed benchmark selection''),
               sm_dataset = d, sm_dataset_sha256 = dataset_sha256,
               sm_projection_policy = projection, sm_selection_implementation = implementation,
               sm_selection_policy = p, sm_candidate_count = n,
               sm_candidate_universe_sha256 = universe, sm_selection_count = count,
               sm_selection_order_sha256 = selection_prefix_digest X selections,
               sm_selections = selections,
               sm_targets = map published_target (zip published (sp_targets p))\<rparr>
      in rbind (component_digest X (json_selection_manifest m)) (\<lambda>sha.
         let m' = m\<lparr>sm_component_sha256 := sha\<rparr>
         in rbind (selection_manifest_validate X m') (\<lambda>_. Inr m')))))"

end
