(* ===== verification/Benchmark_Selection.thy ===== *)
theory Benchmark_Selection
  imports Benchmark "HOL-Library.Multiset"
begin

text \<open>
  What the benchmark selection computes: for every target the smallest selection keys of each
  cell, as many as its quota, whatever the order of the candidates; the rows it returns pass
  the checks of the manifest.
\<close>

subsection \<open>Grouping\<close>

text \<open>The row of a candidate: its checks, its stratum and its key.\<close>

definition classify ::
    "externals \<Rightarrow> dataset_identity \<Rightarrow> digest \<Rightarrow> digest \<Rightarrow> selection_policy \<Rightarrow> selection_candidate \<Rightarrow>
     pipeline_error + selection_row" where
  "classify X d dsha psha p c =
     rbind (validate_candidate c d) (\<lambda>_.
     rbind (find_length_stratum (sp_length_strata p) (sc_utf8_bytes c)) (\<lambda>stratum.
     rbind (selection_key X dsha psha (sp_component_sha256 p) (sp_selection_seed p) c (ls_id stratum))
       (\<lambda>key. Inr (candidate_row c (ls_id stratum) key))))"

definition push_rows :: "groups \<Rightarrow> selection_row list \<Rightarrow> groups" where
  "push_rows g rows = foldl (\<lambda>g r. push_group (row_cell r) r g) g rows"

lemma group_fold:
  "try_fold (group_candidate X d dsha psha p) (ids, keys, g) cs = Inr (ids', keys', g') \<longleftrightarrow>
     (\<exists>rows. try_map (classify X d dsha psha p) cs = Inr rows
        \<and> distinct (map sc_document_id cs) \<and> ids \<inter> set (map sc_document_id cs) = {}
        \<and> distinct (map sr_key rows) \<and> keys \<inter> set (map sr_key rows) = {}
        \<and> ids' = ids \<union> set (map sc_document_id cs) \<and> keys' = keys \<union> set (map sr_key rows)
        \<and> g' = push_rows g rows)"
proof (induction cs arbitrary: ids keys g)
  case (Cons c cs)
  have step: "group_candidate X d dsha psha p (ids, keys, g) c = Inr s \<longleftrightarrow>
      (\<exists>r. classify X d dsha psha p c = Inr r \<and> sc_document_id c \<notin> ids \<and> sr_key r \<notin> keys
        \<and> s = (insert (sc_document_id c) ids, insert (sr_key r) keys, push_group (row_cell r) r g))" for s
    by (auto simp: group_candidate_def classify_def rbind_eq_Inr candidate_row_def row_cell_def)
  show ?case
    unfolding try_fold.simps try_map.simps rbind_eq_Inr step
    by (auto simp: Cons push_rows_def)
qed (auto simp: push_rows_def)

lemma push_rows_ok: "bt_ok g \<Longrightarrow> bt_ok (push_rows g rows)"
  unfolding push_rows_def
  by (induction rows arbitrary: g) (simp_all add: push_group_def bt_insert_ok)

definition rows_in :: "groups \<Rightarrow> cell \<Rightarrow> selection_row list" where
  "rows_in g cell = (case bt_get g cell of None \<Rightarrow> [] | Some rows \<Rightarrow> rows)"

abbreviation of_cell :: "cell \<Rightarrow> selection_row list \<Rightarrow> selection_row list" where
  "of_cell cell rows \<equiv> filter (\<lambda>r. row_cell r = cell) rows"

lemma rows_in_push:
  "bt_ok g \<Longrightarrow> rows_in (push_rows g rows) cell = rows_in g cell @ of_cell cell rows"
proof (induction rows arbitrary: g)
  case (Cons r rows)
  from Cons.IH [of "push_group (row_cell r) r g"] Cons.prems show ?case
    by (simp add: push_rows_def push_group_def bt_insert_ok rows_in_def bt_insert_get
        split: option.splits)
qed (simp add: push_rows_def)

definition sorted_groups :: "groups \<Rightarrow> groups" where
  "sorted_groups g = map (\<lambda>(cell, rows). (cell, sort_rows rows)) g"

lemma rows_in_sorted: "rows_in (sorted_groups g) cell = sort_rows (rows_in g cell)"
  by (simp add: rows_in_def sorted_groups_def bt_get_def map_of_map sort_rows_def split: option.splits)

lemma rows_in_empty [simp]: "rows_in [] cell = []" "bt_ok ([] :: groups)"
  by (simp_all add: rows_in_def bt_get_def bt_ok_def)

subsection \<open>Taking quotas\<close>

definition taken :: "(cell, nat) btree \<Rightarrow> cell \<Rightarrow> nat" where
  "taken previous cell = (case bt_get previous cell of None \<Rightarrow> 0 | Some n \<Rightarrow> n)"

definition quota_rows :: "groups \<Rightarrow> (cell, nat) btree \<Rightarrow> stratum_quota \<Rightarrow> selection_row list" where
  "quota_rows g previous q =
     take (unat (sq_documents q) - taken previous (quota_cell q))
       (drop (taken previous (quota_cell q)) (rows_in g (quota_cell q)))"

definition quota_fits :: "groups \<Rightarrow> (cell, nat) btree \<Rightarrow> stratum_quota \<Rightarrow> bool" where
  "quota_fits g previous q \<longleftrightarrow>
     taken previous (quota_cell q) \<le> unat (sq_documents q)
     \<and> unat (sq_documents q) \<le> length (rows_in g (quota_cell q))"

definition advance :: "stratum_quota list \<Rightarrow> (cell, nat) btree \<Rightarrow> (cell, nat) btree" where
  "advance qs previous = fold (\<lambda>q. bt_insert (quota_cell q) (unat (sq_documents q))) qs previous"

lemma take_quota_step:
  "take_quota g (additions, previous) q = Inr s \<longleftrightarrow> quota_fits g previous q
     \<and> s = (additions @ quota_rows g previous q,
            bt_insert (quota_cell q) (unat (sq_documents q)) previous)"
  by (auto simp: take_quota_def quota_fits_def quota_rows_def rows_in_def taken_def Let_def
      split: option.splits)

lemma taken_insert:
  "bt_ok previous \<Longrightarrow> taken (bt_insert c n previous) c' = (if c' = c then n else taken previous c')"
  by (simp add: taken_def bt_insert_get)

lemma take_quotas:
  assumes "distinct (map quota_cell qs)" and "bt_ok previous"
  shows "try_fold (take_quota g) (additions, previous) qs = Inr (additions', previous') \<longleftrightarrow>
     (\<forall>q \<in> set qs. quota_fits g previous q)
     \<and> additions' = additions @ concat (map (quota_rows g previous) qs)
     \<and> previous' = advance qs previous"
  using assms
proof (induction qs arbitrary: additions previous)
  case (Cons q qs)
  let ?p = "bt_insert (quota_cell q) (unat (sq_documents q)) previous"
  have ok: "bt_ok ?p" using Cons.prems(2) by (rule bt_insert_ok)
  have "quota_fits g ?p q' = quota_fits g previous q' \<and> quota_rows g ?p q' = quota_rows g previous q'"
    if "q' \<in> set qs" for q'
  proof -
    from that Cons.prems(1) have "quota_cell q' \<noteq> quota_cell q" by (auto simp: image_iff)
    then show ?thesis by (simp add: quota_fits_def quota_rows_def taken_insert Cons.prems(2))
  qed
  then have same: "map (quota_rows g ?p) qs = map (quota_rows g previous) qs"
    "(\<forall>q \<in> set qs. quota_fits g ?p q) = (\<forall>q \<in> set qs. quota_fits g previous q)" by auto
  have d: "distinct (map quota_cell qs)" using Cons.prems(1) by simp
  show ?case
    by (simp only: try_fold.simps rbind_eq_Inr take_quota_step) (auto simp: Cons.IH [OF d ok] same advance_def)
qed (auto simp: advance_def)

lemma advance_ok: "bt_ok previous \<Longrightarrow> bt_ok (advance qs previous)"
  unfolding advance_def by (induction qs arbitrary: previous) (simp_all add: bt_insert_ok)

lemma taken_advance:
  assumes "distinct (map quota_cell qs)" and "bt_ok previous"
  shows "q \<in> set qs \<Longrightarrow> taken (advance qs previous) (quota_cell q) = unat (sq_documents q)"
    and "c \<notin> quota_cell ` set qs \<Longrightarrow> taken (advance qs previous) c = taken previous c"
proof -
  have both: "(q \<in> set qs \<longrightarrow> taken (advance qs previous) (quota_cell q) = unat (sq_documents q))
      \<and> (c \<notin> quota_cell ` set qs \<longrightarrow> taken (advance qs previous) c = taken previous c)" for q c
    using assms
  proof (induction qs arbitrary: previous q c)
    case (Cons q0 qs)
    let ?p = "bt_insert (quota_cell q0) (unat (sq_documents q0)) previous"
    have ok: "bt_ok ?p" using Cons.prems(2) by (rule bt_insert_ok)
    have a: "advance (q0 # qs) previous = advance qs ?p" by (simp add: advance_def)
    have d: "distinct (map quota_cell qs)" and n: "quota_cell q0 \<notin> quota_cell ` set qs"
      using Cons.prems(1) by auto
    show ?case
      unfolding a using Cons.IH [OF d ok, of q "quota_cell q0"] Cons.IH [OF d ok, of q c] n
      by (auto simp: taken_insert [OF Cons.prems(2)])
  qed (simp add: advance_def)
  show "q \<in> set qs \<Longrightarrow> taken (advance qs previous) (quota_cell q) = unat (sq_documents q)"
    "c \<notin> quota_cell ` set qs \<Longrightarrow> taken (advance qs previous) c = taken previous c"
    using both by blast+
qed

subsection \<open>Ranks\<close>

abbreviation unranked :: "selection_row \<Rightarrow> selection_row" where
  "unranked r \<equiv> r\<lparr>sr_rank := 0\<rparr>"

definition ranked_from :: "nat \<Rightarrow> selection_row list \<Rightarrow> selection_row list" where
  "ranked_from n rows = map (\<lambda>(i, r). r\<lparr>sr_rank := word_of_nat i\<rparr>) (enumerate n rows)"

lemma rank_rows_ok:
  "rank_rows selected rows = Inr out \<longleftrightarrow>
     (rows \<noteq> [] \<longrightarrow> length selected + length rows \<le> 2 ^ 64)
     \<and> out = selected @ ranked_from (length selected) rows"
proof (induction rows arbitrary: selected)
  case (Cons r rows)
  show ?case
  proof (cases "length selected < 2 ^ 64")
    case True
    let ?r = "r\<lparr>sr_rank := word_of_nat (length selected)\<rparr>"
    have "rank_rows selected (r # rows) = rank_rows (selected @ [?r]) rows"
      using True by (simp add: rank_rows_def try_from_nat_def)
    with Cons.IH [of "selected @ [?r]"] True show ?thesis
      by (auto simp: ranked_from_def)
  next
    case False
    then have "rank_rows selected (r # rows) = Inl (Invalid ''benchmark selection rank'')"
      by (simp add: rank_rows_def try_from_nat_def)
    with False show ?thesis by simp
  qed
qed (auto simp: rank_rows_def ranked_from_def)

lemma length_ranked [simp]: "length (ranked_from n rows) = length rows"
  by (simp add: ranked_from_def)

lemma nth_ranked: "i < length rows \<Longrightarrow> ranked_from n rows ! i = (rows ! i)\<lparr>sr_rank := word_of_nat (n + i)\<rparr>"
  by (simp add: ranked_from_def nth_enumerate_eq)

lemma map_ranked:
  "(\<And>r k. f (r\<lparr>sr_rank := k\<rparr>) = f r) \<Longrightarrow> map f (ranked_from n rows) = map f rows"
  by (rule nth_equalityI) (simp_all add: nth_ranked)

lemma row_fields_ranked [simp]:
  "map row_order (ranked_from n rows) = map row_order rows"
  "map row_cell (ranked_from n rows) = map row_cell rows"
  "map unranked (ranked_from n rows) = map unranked rows"
  by (rule map_ranked, simp add: row_order_def row_cell_def)+

definition ranks_ok :: "selection_row list \<Rightarrow> bool" where
  "ranks_ok rows \<longleftrightarrow> (\<forall>i < length rows. unat (sr_rank (rows ! i)) = i)"

lemma ranks_append:
  "ranks_ok rows \<Longrightarrow> length rows + length new \<le> 2 ^ 64 \<Longrightarrow>
   ranks_ok (rows @ ranked_from (length rows) new)"
  by (auto simp: ranks_ok_def nth_append nth_ranked unat_of_nat)

subsection \<open>Targets\<close>

text \<open>What the rows taken so far amount to, cell by cell.\<close>

definition held :: "groups \<Rightarrow> (cell, nat) btree \<Rightarrow> cell list \<Rightarrow> selection_row multiset" where
  "held g previous cells = (\<Sum>c\<leftarrow>cells. mset (take (taken previous c) (rows_in g c)))"

definition target_rows :: "groups \<Rightarrow> stratum_quota list \<Rightarrow> selection_row multiset" where
  "target_rows g qs = (\<Sum>q\<leftarrow>qs. mset (take (unat (sq_documents q)) (rows_in g (quota_cell q))))"

lemma sum_list_map_cong: "(\<And>x. x \<in> set xs \<Longrightarrow> f x = g x) \<Longrightarrow> sum_list (map f xs) = sum_list (map g xs)"
  by (metis map_eq_conv)

lemma held_advance:
  assumes "distinct cells" and "map quota_cell qs = cells" and "bt_ok previous"
  shows "held g (advance qs previous) cells = target_rows g qs"
proof -
  have "held g (advance qs previous) cells =
      (\<Sum>q\<leftarrow>qs. mset (take (taken (advance qs previous) (quota_cell q)) (rows_in g (quota_cell q))))"
    by (simp add: held_def comp_def flip: assms(2))
  also have "\<dots> = target_rows g qs"
    unfolding target_rows_def
    using assms by (intro sum_list_map_cong) (simp add: taken_advance(1))
  finally show ?thesis .
qed

lemma taken_more:
  assumes "\<forall>q \<in> set qs. quota_fits g previous q" and "map quota_cell qs = cells"
  shows "held g previous cells + mset (concat (map (quota_rows g previous) qs)) = target_rows g qs"
proof -
  have one: "mset (take (taken previous (quota_cell q)) (rows_in g (quota_cell q)))
        + mset (quota_rows g previous q)
      = mset (take (unat (sq_documents q)) (rows_in g (quota_cell q)))" if "q \<in> set qs" for q
  proof -
    let ?a = "taken previous (quota_cell q)" and ?b = "unat (sq_documents q)"
    have "?a \<le> ?b" using assms(1) that by (simp add: quota_fits_def)
    then have "take ?b (rows_in g (quota_cell q)) =
        take ?a (rows_in g (quota_cell q)) @ take (?b - ?a) (drop ?a (rows_in g (quota_cell q)))"
      by (metis le_add_diff_inverse take_add)
    then show ?thesis by (simp add: quota_rows_def)
  qed
  have "held g previous cells = (\<Sum>q\<leftarrow>qs. mset (take (taken previous (quota_cell q)) (rows_in g (quota_cell q))))"
    by (simp add: held_def comp_def flip: assms(2))
  moreover have "mset (concat (map (quota_rows g previous) qs)) = (\<Sum>q\<leftarrow>qs. mset (quota_rows g previous q))"
    by (induction qs) simp_all
  ultimately show ?thesis
    unfolding target_rows_def using sum_list_map_cong [OF one] by (simp add: sum_list_addf)
qed

text \<open>
  The rows of the stages: as many as each target says, sorted by key within a stage, ranked by
  position, and for every target the rows of its quotas.
\<close>

fun staged_rows :: "groups \<Rightarrow> nat \<Rightarrow> target_quota list \<Rightarrow> selection_row list \<Rightarrow> bool" where
  "staged_rows g a [] rows \<longleftrightarrow> length rows = a"
| "staged_rows g a (t # ts) rows \<longleftrightarrow>
     (let b = unat (tq_document_count t)
      in a \<le> b \<and> b \<le> length rows
         \<and> mset (map unranked (take b rows)) = target_rows g (tq_quotas t)
         \<and> (\<forall>q \<in> set (tq_quotas t). unat (sq_documents q) \<le> length (rows_in g (quota_cell q)))
         \<and> sorted (map row_order (take (b - a) (drop a rows)))
         \<and> staged_rows g b ts rows)"

definition unranked_groups :: "groups \<Rightarrow> bool" where
  "unranked_groups g \<longleftrightarrow> (\<forall>c. \<forall>r \<in> set (rows_in g c). sr_rank r = 0)"

lemma unranked_id: "sr_rank r = 0 \<Longrightarrow> unranked r = r"
  by simp

lemma target_step:
  assumes run: "take_target g (selected, previous) t = Inr (selected', previous')"
    and cells: "map quota_cell (tq_quotas t) = cells" "distinct cells" and ok: "bt_ok previous"
    and g: "unranked_groups g" and sel: "mset (map unranked selected) = held g previous cells"
    and ranks: "ranks_ok selected" and len: "length selected < 2 ^ 64"
  shows "previous' = advance (tq_quotas t) previous \<and> bt_ok previous'
    \<and> mset (map unranked selected') = held g previous' cells
    \<and> mset (map unranked selected') = target_rows g (tq_quotas t)
    \<and> ranks_ok selected' \<and> length selected' = unat (tq_document_count t)
    \<and> (\<forall>q \<in> set (tq_quotas t). unat (sq_documents q) \<le> length (rows_in g (quota_cell q)))
    \<and> (\<exists>rows. selected' = selected @ rows \<and> sorted (map row_order rows))"
proof -
  let ?qs = "tq_quotas t"
  have d: "distinct (map quota_cell ?qs)" using cells by simp
  from run obtain additions where
    tq: "try_fold (take_quota g) ([], previous) ?qs = Inr (additions, previous')"
    and rk: "rank_rows selected (sort_rows additions) = Inr selected'"
    and n: "try_from_nat (length selected') = Some (tq_document_count t)"
    by (auto simp: take_target_def rbind_eq_Inr split: prod.splits if_splits)
  from tq have fits: "\<forall>q \<in> set ?qs. quota_fits g previous q"
    and add: "additions = concat (map (quota_rows g previous) ?qs)"
    and p': "previous' = advance ?qs previous"
    by (simp_all add: take_quotas [OF d ok])
  from rk have s': "selected' = selected @ ranked_from (length selected) (sort_rows additions)"
    and room: "sort_rows additions \<noteq> [] \<longrightarrow> length selected + length (sort_rows additions) \<le> 2 ^ 64"
    by (simp_all add: rank_rows_ok)
  have "\<forall>r \<in> set additions. sr_rank r = 0"
  proof
    fix r
    assume "r \<in> set additions"
    then obtain q where "r \<in> set (rows_in g (quota_cell q))"
      by (auto simp: add quota_rows_def dest!: in_set_takeD in_set_dropD)
    with g show "sr_rank r = 0" unfolding unranked_groups_def by blast
  qed
  then have "map unranked (sort_rows additions) = sort_rows additions"
    by (intro map_idI) (simp add: sort_rows_def)
  then have un: "mset (map unranked (sort_rows additions)) = mset additions"
    by (simp add: sort_rows_def)
  have "mset (map unranked selected') = held g previous cells + mset additions"
    by (simp only: s' map_append row_fields_ranked mset_append sel un)
  also have "\<dots> = target_rows g ?qs" unfolding add by (rule taken_more [OF fits cells(1)])
  finally have m: "mset (map unranked selected') = target_rows g ?qs" .
  have "ranks_ok selected'"
    using ranks_append [OF ranks, of "sort_rows additions"] room len ranks
    by (cases "sort_rows additions = []") (auto simp: s' ranked_from_def)
  moreover have "length selected' = unat (tq_document_count t)"
    using n try_from_nat_unat by metis
  moreover have "sorted (map row_order (ranked_from (length selected) (sort_rows additions)))"
    by (simp add: sort_rows_def)
  ultimately show ?thesis
    using m held_advance [OF cells(2,1) ok, of g] advance_ok [OF ok] fits
    by (auto simp: p' s' quota_fits_def)
qed

lemma targets_fold:
  assumes "try_fold (take_target g) (selected, previous) ts = Inr (selected', previous')"
    and "\<forall>t \<in> set ts. map quota_cell (tq_quotas t) = cells" "distinct cells" and "bt_ok previous"
    and "unranked_groups g" and "mset (map unranked selected) = held g previous cells"
    and "ranks_ok selected" and "length selected < 2 ^ 64"
  shows "staged_rows g (length selected) ts selected' \<and> ranks_ok selected' \<and> prefix selected selected'
    \<and> mset (map unranked selected') = held g previous' cells"
  using assms
proof (induction ts arbitrary: selected previous)
  case (Cons t ts)
  from Cons.prems(1) obtain s1 p1 where st: "take_target g (selected, previous) t = Inr (s1, p1)"
    and rest: "try_fold (take_target g) (s1, p1) ts = Inr (selected', previous')"
    by (auto simp: rbind_eq_Inr)
  from Cons.prems(2) have c: "map quota_cell (tq_quotas t) = cells" by simp
  from target_step [OF st c Cons.prems(3-8)] obtain rows where
    p1: "bt_ok p1" and h: "mset (map unranked s1) = held g p1 cells"
    and m: "mset (map unranked s1) = target_rows g (tq_quotas t)"
    and r: "ranks_ok s1" and l: "length s1 = unat (tq_document_count t)"
    and cap: "\<forall>q \<in> set (tq_quotas t). unat (sq_documents q) \<le> length (rows_in g (quota_cell q))"
    and s1: "s1 = selected @ rows" and so: "sorted (map row_order rows)" by blast
  have l': "length s1 < 2 ^ 64" using l unat_bound [of "tq_document_count t"] by simp
  have "\<forall>t \<in> set ts. map quota_cell (tq_quotas t) = cells" using Cons.prems(2) by simp
  from Cons.IH [OF rest this Cons.prems(3) p1 Cons.prems(5) h r l'] obtain new where
    ih: "staged_rows g (length s1) ts selected'" "ranks_ok selected'"
      "mset (map unranked selected') = held g previous' cells"
    and s': "selected' = s1 @ new" by (auto simp: prefix_def)
  have "take (unat (tq_document_count t)) selected' = s1" by (simp add: s' flip: l)
  moreover have "take (unat (tq_document_count t) - length selected) (drop (length selected) selected') = rows"
    by (simp add: s' s1 flip: l)
  ultimately show ?case
    using ih m l cap so s1 s' by (auto simp: Let_def prefix_def)
qed auto

subsection \<open>The policy\<close>

lemma stratum_step:
  "check_length_stratum n (ids, next) (k, x) = Inr s \<Longrightarrow> ls_id x \<notin> ids \<and> fst s = insert (ls_id x) ids"
  by (auto simp: check_length_stratum_def rbind_eq_Inr ok_or_eq_Inr split: if_splits option.splits)

lemma strata_fold_ids:
  "try_fold (check_length_stratum n) st (enumerate k strata) = Inr s \<Longrightarrow>
   distinct (map ls_id strata) \<and> fst st \<inter> ls_id ` set strata = {}"
proof (induction strata arbitrary: st k)
  case (Cons x strata)
  obtain ids m where st: "st = (ids, m)" by (cases st)
  from Cons.prems obtain s1 where "check_length_stratum n (ids, m) (k, x) = Inr s1"
    and r: "try_fold (check_length_stratum n) s1 (enumerate (Suc k) strata) = Inr s"
    by (auto simp: rbind_eq_Inr st)
  with stratum_step have "ls_id x \<notin> ids" and "fst s1 = insert (ls_id x) ids" by blast+
  with Cons.IH [OF r] show ?case by (auto simp: st)
qed simp

lemma cells_product: "expected_cells p d = List.product (included_relations d) (map ls_id (sp_length_strata p))"
  by (simp add: expected_cells_def product_concat_map comp_def)

lemma policy_parts:
  assumes "selection_policy_validate X p d = Inr ()"
  shows "distinct (expected_cells p d)" and "map tq_document_count (sp_targets p) = STANDARD_BENCHMARK_SIZES"
    and "\<forall>t \<in> set (sp_targets p). map quota_cell (tq_quotas t) = expected_cells p d"
proof -
  from assms obtain z z' where ds: "dataset_identity_validate d = Inr ()"
    and st: "validate_length_strata (sp_length_strata p) = Inr z"
    and len: "length (sp_targets p) = length STANDARD_BENCHMARK_SIZES"
    and f: "try_fold (check_target_quota (expected_cells p d)) [] (zip (sp_targets p) STANDARD_BENCHMARK_SIZES)
        = Inr z'"
    by (auto simp: selection_policy_validate_def rbind_eq_Inr split: if_splits)
  from st have "distinct (map ls_id (sp_length_strata p))"
    by (auto simp: validate_length_strata_def rbind_eq_Inr split: if_splits dest: strata_fold_ids)
  moreover have "distinct (included_relations d)" using ds by (simp add: dataset_identity_validate_ok)
  ultimately show "distinct (expected_cells p d)" by (simp add: cells_product distinct_product)
  have step: "tq_document_count t = n \<and> map quota_cell (tq_quotas t) = expected_cells p d"
    if "check_target_quota (expected_cells p d) m (t, n) = Inr m'" for t n m m'
    using that by (auto simp: check_target_quota_def rbind_eq_Inr split: if_splits)
  have all: "\<forall>(t, n) \<in> set xs. tq_document_count t = n \<and> map quota_cell (tq_quotas t) = expected_cells p d"
    if "try_fold (check_target_quota (expected_cells p d)) m xs = Inr m'" for xs m m'
    using that
  proof (induction xs arbitrary: m)
    case (Cons x xs)
    then obtain m1 where "check_target_quota (expected_cells p d) m x = Inr m1"
      and "try_fold (check_target_quota (expected_cells p d)) m1 xs = Inr m'"
      by (auto simp: rbind_eq_Inr)
    with Cons.IH step show ?case by (cases x) auto
  qed simp
  note a = all [OF f]
  show "map tq_document_count (sp_targets p) = STANDARD_BENCHMARK_SIZES"
  proof (rule nth_equalityI)
    fix i
    assume "i < length (map tq_document_count (sp_targets p))"
    then have i: "i < length (sp_targets p)" by simp
    then have "(sp_targets p ! i, STANDARD_BENCHMARK_SIZES ! i)
        \<in> set (zip (sp_targets p) STANDARD_BENCHMARK_SIZES)"
      using len by (auto simp: set_zip)
    with a i show "map tq_document_count (sp_targets p) ! i = STANDARD_BENCHMARK_SIZES ! i" by auto
  qed (simp add: len)
  show "\<forall>t \<in> set (sp_targets p). map quota_cell (tq_quotas t) = expected_cells p d"
  proof
    fix t
    assume "t \<in> set (sp_targets p)"
    then obtain n where "(t, n) \<in> set (zip (sp_targets p) STANDARD_BENCHMARK_SIZES)"
      using len by (metis in_set_impl_in_set_zip1)
    with a show "map quota_cell (tq_quotas t) = expected_cells p d" by auto
  qed
qed

subsection \<open>The selected rows\<close>

lemma sub_cells:
  "distinct cells \<Longrightarrow> (\<Sum>c\<leftarrow>cells. mset (of_cell c R)) = filter_mset (\<lambda>r. row_cell r \<in> set cells) (mset R)"
proof (induction cells)
  case (Cons c cells)
  have "filter_mset (\<lambda>r. row_cell r \<in> set (c # cells)) (mset R) =
      filter_mset (\<lambda>r. row_cell r = c) (mset R) + filter_mset (\<lambda>r. row_cell r \<in> set cells) (mset R)"
    using Cons.prems by (induction R) auto
  with Cons show ?case by simp
qed simp

lemma held_sub:
  assumes "distinct cells" and "\<And>c. rows_in g c = sort_rows (of_cell c R)"
  shows "held g previous cells \<subseteq># mset R"
proof -
  have take: "mset (take n xs) \<subseteq># mset xs" for n and xs :: "selection_row list"
    by (metis append_take_drop_id mset_append mset_subset_eq_add_left)
  have "held g previous cells \<subseteq># (\<Sum>c\<leftarrow>cells. mset (of_cell c R))"
    unfolding held_def
  proof (induction cells)
    case (Cons c cells)
    have "mset (take (taken previous c) (rows_in g c)) \<subseteq># mset (of_cell c R)"
      using take [of "taken previous c" "rows_in g c"] assms(2) by (simp add: sort_rows_def)
    with Cons show ?case by (simp add: subset_mset.add_mono)
  qed simp
  also have "\<dots> = filter_mset (\<lambda>r. row_cell r \<in> set cells) (mset R)" by (rule sub_cells [OF assms(1)])
  also have "\<dots> \<subseteq># mset R" by simp
  finally show ?thesis .
qed

lemma classify_parts:
  assumes "classify X d dsha psha p c = Inr r"
  shows "row_candidate r = c" and "sr_rank r = 0" and "validate_candidate c d = Inr ()"
    and "\<exists>s. find_length_stratum (sp_length_strata p) (sr_utf8_bytes r) = Inr s \<and> ls_id s = sr_length_stratum r"
    and "selection_key X dsha psha (sp_component_sha256 p) (sp_selection_seed p) (row_candidate r)
        (sr_length_stratum r) = Inr (sr_key r)"
  using assms by (cases c; auto simp: classify_def rbind_eq_Inr candidate_row_def row_candidate_def)+

lemma classify_id: "classify X d dsha psha p c = Inr r \<Longrightarrow> sr_document_id r = sc_document_id c"
  by (auto simp: classify_def rbind_eq_Inr candidate_row_def)

definition row_checks ::
    "externals \<Rightarrow> digest \<Rightarrow> digest \<Rightarrow> selection_policy \<Rightarrow> selection_row \<Rightarrow> bool" where
  "row_checks X dsha psha p r \<longleftrightarrow>
     sr_rank r \<le> MAX_SAFE_JSON_INTEGER \<and> sr_utf8_bytes r \<le> MAX_SAFE_JSON_INTEGER
     \<and> (\<exists>s. find_length_stratum (sp_length_strata p) (sr_utf8_bytes r) = Inr s \<and> ls_id s = sr_length_stratum r)
     \<and> selection_key X dsha psha (sp_component_sha256 p) (sp_selection_seed p) (row_candidate r)
         (sr_length_stratum r) = Inr (sr_key r)"

lemma check_rows_ok:
  assumes "\<forall>r \<in> set rows. row_checks X dsha psha p r"
    and "\<forall>i < length rows. unat (sr_rank (rows ! i)) = n + i"
    and "distinct (map sr_document_id rows)" "distinct (map sr_key rows)"
    and "ids \<inter> sr_document_id ` set rows = {}" "keys \<inter> sr_key ` set rows = {}"
  shows "\<exists>s. try_fold (check_selection_row X dsha psha p) (ids, keys) (enumerate n rows) = Inr s"
  using assms
proof (induction rows arbitrary: n ids keys)
  case (Cons r rows)
  have r: "row_checks X dsha psha p r" and rk: "unat (sr_rank r) = n"
    using Cons.prems(1,2) by fastforce+
  then have "check_selection_row X dsha psha p (ids, keys) (n, r) =
      Inr (insert (sr_document_id r) ids, insert (sr_key r) keys)"
    using Cons.prems(5,6)
    by (auto simp: check_selection_row_def row_checks_def require_safe_u64_def rbind_def not_le)
  moreover have "\<forall>i < length rows. unat (sr_rank (rows ! i)) = Suc n + i"
    using Cons.prems(2) by fastforce
  from Cons.IH [OF _ this, of "insert (sr_document_id r) ids" "insert (sr_key r) keys"] Cons.prems
  obtain s where "try_fold (check_selection_row X dsha psha p)
      (insert (sr_document_id r) ids, insert (sr_key r) keys) (enumerate (Suc n) rows) = Inr s"
    by (auto simp: image_iff)
  ultimately show ?case by simp
qed simp

lemma check_stages_ok:
  assumes "staged_rows g a ts rows" and "distinct (map row_order rows)"
  shows "\<exists>b. try_fold (check_stage rows) a (map tq_document_count ts) = Inr b"
  using assms
proof (induction ts arbitrary: a)
  case (Cons t ts)
  let ?b = "unat (tq_document_count t)"
  let ?rows = "take (?b - a) (drop a rows)"
  from Cons.prems(1) have "sorted (map row_order ?rows)" and st: "staged_rows g ?b ts rows"
    by (simp_all add: Let_def)
  moreover have "distinct (map row_order ?rows)"
    using Cons.prems(2) by (simp add: take_map [symmetric] drop_map [symmetric])
  ultimately have "sorted_wrt (<) (map row_order ?rows)" by (simp add: strict_sorted_iff)
  then have "sorted_wrt (\<lambda>x y. row_order x < row_order y) ?rows" by (simp add: sorted_wrt_map)
  moreover have "transp (\<lambda>x y. row_order x < row_order y)" by (auto intro: transpI)
  ultimately have "successively (\<lambda>x y. row_order x < row_order y) ?rows"
    by (simp add: successively_conv_sorted_wrt)
  with Cons.IH [OF st Cons.prems(2)] show ?case by (simp add: check_stage_def Let_def)
qed simp

lemma count_rows:
  assumes "bt_ok m"
  shows "(case bt_get (foldl count_row m rows) c of None \<Rightarrow> 0 | Some n \<Rightarrow> n) =
    (case bt_get m c of None \<Rightarrow> 0 | Some n \<Rightarrow> n) + word_of_nat (length (of_cell c rows))"
  using assms
proof (induction rows arbitrary: m)
  case (Cons r rows)
  from Cons.prems have "bt_ok (count_row m r)" by (simp add: count_row_def bt_insert_ok)
  from Cons.IH [OF this] Cons.prems show ?case
    by (auto simp: count_row_def bt_insert_get algebra_simps split: option.splits)
qed simp

lemma count_target:
  assumes "distinct (map quota_cell qs)" and "\<And>c r. r \<in> set (rows_in g c) \<Longrightarrow> row_cell r = c"
    and "\<forall>q \<in> set qs. unat (sq_documents q) \<le> length (rows_in g (quota_cell q))" and "q \<in> set qs"
  shows "size (filter_mset (\<lambda>r. row_cell r = quota_cell q) (target_rows g qs)) = unat (sq_documents q)"
  using assms(1,3,4)
proof (induction qs)
  case (Cons q0 qs)
  let ?t = "\<lambda>q. mset (take (unat (sq_documents q)) (rows_in g (quota_cell q)))"
  have "of_cell (quota_cell q) (take n (rows_in g c)) =
      (if c = quota_cell q then take n (rows_in g c) else [])" for n c
  proof -
    have "row_cell r = c" if "r \<in> set (take n (rows_in g c))" for r
      using that assms(2) by (blast dest: in_set_takeD)
    then show ?thesis by (simp add: filter_empty_conv)
  qed
  then have same: "filter_mset (\<lambda>r. row_cell r = quota_cell q) (?t q') =
      (if quota_cell q' = quota_cell q then ?t q' else {#})" for q'
    by (simp flip: mset_filter)
  have none: "filter_mset (\<lambda>r. row_cell r = quota_cell q) (target_rows g qs) = {#}"
    if "quota_cell q \<notin> quota_cell ` set qs"
    using that
  proof (induction qs)
    case (Cons q1 qs)
    then show ?case using same [of q1] by (auto simp: target_rows_def)
  qed (simp add: target_rows_def)
  have tr: "target_rows g (q0 # qs) = ?t q0 + target_rows g qs" by (simp add: target_rows_def)
  show ?case
  proof (cases "q = q0")
    case True
    with Cons.prems have "quota_cell q \<notin> quota_cell ` set qs"
      and "unat (sq_documents q) \<le> length (rows_in g (quota_cell q))" by auto
    with none True same [of q0] show ?thesis by (simp add: tr)
  next
    case False
    with Cons.prems have q: "q \<in> set qs" and "quota_cell q0 \<noteq> quota_cell q" by (auto simp: image_iff)
    with Cons same [of q0] show ?thesis by (simp add: tr)
  qed
qed simp

definition selects ::
    "externals \<Rightarrow> dataset_identity \<Rightarrow> component_ref \<Rightarrow> selection_policy \<Rightarrow> selection_candidate list \<Rightarrow>
     digest \<Rightarrow> selection_row list \<Rightarrow> selection_row list \<Rightarrow> bool" where
  "selects X d projection p cs dsha R rows \<longleftrightarrow>
     canonical_digest X (json_dataset_identity d) = Inr dsha
     \<and> try_map (classify X d dsha (cr_sha256 projection) p) cs = Inr R
     \<and> distinct (map sc_document_id cs) \<and> distinct (map sr_key R)
     \<and> (\<exists>previous. try_fold (take_target (sorted_groups (push_rows [] R))) ([], []) (sp_targets p)
          = Inr (rows, previous))"

lemma group_all:
  "try_fold (group_candidate X d dsha psha p) ({}, {}, []) cs = Inr st \<longleftrightarrow>
     (\<exists>R. try_map (classify X d dsha psha p) cs = Inr R \<and> distinct (map sc_document_id cs)
       \<and> distinct (map sr_key R)
       \<and> st = (set (map sc_document_id cs), set (map sr_key R), push_rows [] R))"
  by (cases st) (simp add: group_fold)

lemma select_parts:
  "select_benchmark_documents X d projection p cs = Inr (n, universe, rows) \<longleftrightarrow>
     dataset_identity_validate d = Inr () \<and> component_ref_validate projection = Inr ()
     \<and> selection_policy_validate X p d = Inr () \<and> try_from_nat (length cs) = Some n
     \<and> n \<le> MAX_SAFE_JSON_INTEGER \<and> STANDARD_BENCHMARK_SIZES ! 2 \<le> n
     \<and> candidate_universe_digest X cs = Inr universe
     \<and> (\<exists>dsha R. selects X d projection p cs dsha R rows)"
    (is "?l \<longleftrightarrow> ?r")
proof
  assume ?l
  then show ?r
    unfolding select_benchmark_documents_def sorted_groups_def [symmetric] selects_def
      rbind_eq_Inr if_Inl_eq_Inr group_all ok_or_eq_Inr require_safe_u64_ok not_less
    by (clarsimp simp: rbind_eq_Inr)
next
  assume ?r
  then obtain dsha R previous where "dataset_identity_validate d = Inr ()"
    "component_ref_validate projection = Inr ()" "selection_policy_validate X p d = Inr ()"
    "try_from_nat (length cs) = Some n" "require_safe_u64 n = Inr ()"
    "\<not> n < STANDARD_BENCHMARK_SIZES ! 2" "candidate_universe_digest X cs = Inr universe"
    "canonical_digest X (json_dataset_identity d) = Inr dsha"
    "try_fold (group_candidate X d dsha (cr_sha256 projection) p) ({}, {}, []) cs =
       Inr (set (map sc_document_id cs), set (map sr_key R), push_rows [] R)"
    "try_fold (take_target (sorted_groups (push_rows [] R))) ([], []) (sp_targets p)
       = Inr (rows, previous)"
    unfolding selects_def group_all require_safe_u64_ok not_less by blast
  then show ?l
    unfolding select_benchmark_documents_def sorted_groups_def [symmetric] by simp
qed

text \<open>For each quota the rows of its cell with the smallest keys.\<close>

definition sample :: "selection_row list \<Rightarrow> stratum_quota list \<Rightarrow> selection_row multiset" where
  "sample R qs = (\<Sum>q\<leftarrow>qs. mset (take (unat (sq_documents q)) (sort_rows (of_cell (quota_cell q) R))))"

lemma group_rows: "rows_in (sorted_groups (push_rows [] R)) c = sort_rows (of_cell c R)"
  by (simp add: rows_in_sorted rows_in_push)

lemma distinct_sub_mset:
  assumes "mset xs \<subseteq># mset ys" and "distinct ys"
  shows "distinct xs"
  unfolding distinct_count_atmost_1
proof
  fix a
  have "count (mset xs) a \<le> count (mset ys) a" by (rule mset_subset_eq_count [OF assms(1)])
  also have "\<dots> \<le> 1" using assms(2) by (simp add: distinct_count_atmost_1)
  finally have le: "count (mset xs) a \<le> 1" .
  show "count (mset xs) a = (if a \<in> set xs then 1 else 0)"
  proof (cases "a \<in> set xs")
    case True
    then have "0 < count (mset xs) a" by (rule count_mset_gt_0)
    with le show ?thesis unfolding if_P [OF True] by linarith
  next
    case False
    then show ?thesis by (simp add: count_mset_0_iff)
  qed
qed

lemma unranked_sub:
  assumes "mset (map unranked rows) \<subseteq># mset R" and "\<And>r. f (unranked r) = f r"
  shows "mset (map f rows) \<subseteq># mset (map f R)"
proof -
  have "image_mset f (mset (map unranked rows)) \<subseteq># image_mset f (mset R)"
    by (rule image_mset_subseteq_mono [OF assms(1)])
  moreover have "image_mset f (mset (map unranked rows)) = mset (map f rows)"
    using assms(2) by (induction rows) simp_all
  ultimately show ?thesis by simp
qed

lemma selected_row_checks:
  assumes c: "classify X d dsha psha p c = Inr (unranked r)" and rank: "unat (sr_rank r) < 10000"
  shows "row_checks X dsha psha p r"
proof -
  from rank have "sr_rank r \<le> MAX_SAFE_JSON_INTEGER"
    by (simp add: word_le_nat_alt MAX_SAFE_JSON_INTEGER_def)
  moreover have "row_candidate (unranked r) = c" by (rule classify_parts(1) [OF c])
  then have "sc_utf8_bytes c = sr_utf8_bytes r" by (auto simp: row_candidate_def)
  then have "sr_utf8_bytes r \<le> MAX_SAFE_JSON_INTEGER"
    using classify_parts(3) [OF c] by (simp add: validate_candidate_def rbind_eq_Inr require_safe_u64_ok)
  moreover have "row_candidate (unranked r) = row_candidate r" by (simp add: row_candidate_def)
  ultimately show ?thesis
    using classify_parts(4,5) [OF c] by (simp add: row_checks_def)
qed

lemma staged_target:
  assumes "staged_rows g a ts rows" and "t \<in> set ts"
  shows "mset (map unranked (take (unat (tq_document_count t)) rows)) = target_rows g (tq_quotas t)"
    and "\<forall>q \<in> set (tq_quotas t). unat (sq_documents q) \<le> length (rows_in g (quota_cell q))"
  using assms by (induction ts arbitrary: a) (auto simp: Let_def)

lemma of_cell_unranked: "length (of_cell c (map unranked xs)) = length (of_cell c xs)"
  by (induction xs) (simp_all add: row_cell_def)

lemma size_of_cell: "size (filter_mset (\<lambda>r. row_cell r = c) (mset xs)) = length (of_cell c xs)"
  by (metis mset_filter size_mset)

lemma prefix_quotas_met:
  assumes m: "mset (map unranked pre) = target_rows g qs"
    and cap: "\<forall>q \<in> set qs. unat (sq_documents q) \<le> length (rows_in g (quota_cell q))"
    and d: "distinct (map quota_cell qs)" and cell: "\<And>c r. r \<in> set (rows_in g c) \<Longrightarrow> row_cell r = c"
  shows "validate_prefix_quotas pre qs = Inr ()"
proof -
  have "length (of_cell (quota_cell q) pre) = unat (sq_documents q)" if q: "q \<in> set qs" for q
    using count_target [OF d cell cap q]
    unfolding m [symmetric] size_of_cell of_cell_unranked by simp
  then show ?thesis
    using count_rows [of "[]" pre]
    by (simp add: validate_prefix_quotas_def Let_def try_all_ok bt_ok_def bt_get_def)
qed

lemma staged_sample:
  assumes st: "staged_rows (sorted_groups (push_rows [] R)) a ts rows" and t: "t \<in> set ts"
    and d: "distinct (map quota_cell (tq_quotas t))"
  shows "validate_prefix_quotas (take (unat (tq_document_count t)) rows) (tq_quotas t) = Inr ()
    \<and> mset (map unranked (take (unat (tq_document_count t)) rows)) = sample R (tq_quotas t)"
proof -
  let ?G = "sorted_groups (push_rows [] R)"
  note m = staged_target [OF st t]
  have "row_cell r = c" if "r \<in> set (rows_in ?G c)" for r c
    using that by (simp add: group_rows sort_rows_def)
  from prefix_quotas_met [OF m d this]
  have "validate_prefix_quotas (take (unat (tq_document_count t)) rows) (tq_quotas t) = Inr ()" .
  moreover have "target_rows ?G (tq_quotas t) = sample R (tq_quotas t)"
    by (simp add: target_rows_def sample_def group_rows)
  ultimately show ?thesis using m by simp
qed

lemma selection_staged:
  assumes sel: "select_benchmark_documents X d projection p cs = Inr (n, universe, rows)"
  obtains dsha R where "selection_policy_validate X p d = Inr ()"
    and "canonical_digest X (json_dataset_identity d) = Inr dsha"
    and "try_map (classify X d dsha (cr_sha256 projection) p) cs = Inr R"
    and "\<And>r. r \<in> set R \<Longrightarrow> \<exists>c. classify X d dsha (cr_sha256 projection) p c = Inr r"
    and "staged_rows (sorted_groups (push_rows [] R)) 0 (sp_targets p) rows" and "ranks_ok rows"
    and "mset (map unranked rows) \<subseteq># mset R"
    and "distinct (map sr_key rows)" and "distinct (map sr_document_id rows)"
proof -
  from sel obtain dsha R previous where pol: "selection_policy_validate X p d = Inr ()"
    and dsha: "canonical_digest X (json_dataset_identity d) = Inr dsha"
    and R: "try_map (classify X d dsha (cr_sha256 projection) p) cs = Inr R"
    and ids: "distinct (map sc_document_id cs)" and keys: "distinct (map sr_key R)"
    and fold: "try_fold (take_target (sorted_groups (push_rows [] R))) ([], []) (sp_targets p)
      = Inr (rows, previous)"
    unfolding select_parts selects_def by blast
  let ?G = "sorted_groups (push_rows [] R)" and ?cells = "expected_cells p d"
  let ?psha = "cr_sha256 projection"
  note pp = policy_parts [OF pol]
  have all2: "list_all2 (\<lambda>c r. classify X d dsha ?psha p c = Inr r) cs R"
    using R by (simp only: try_map_ok)
  have cl: "\<exists>c. classify X d dsha ?psha p c = Inr r" if "r \<in> set R" for r
    using all2 that by (auto simp: list_all2_conv_all_nth in_set_conv_nth)
  have un: "unranked_groups ?G"
    unfolding unranked_groups_def group_rows sort_rows_def using cl classify_parts(2) by fastforce
  have init: "mset (map unranked []) = held ?G [] ?cells" by (simp add: held_def taken_def bt_get_def)
  from targets_fold [OF fold pp(3,1) _ un init]
  have st: "staged_rows ?G 0 (sp_targets p) rows" and rk: "ranks_ok rows"
    and hd: "mset (map unranked rows) = held ?G previous ?cells"
    by (simp_all add: ranks_ok_def bt_ok_def)
  have sub: "mset (map unranked rows) \<subseteq># mset R"
    unfolding hd by (rule held_sub [OF pp(1) group_rows])
  have dk: "distinct (map sr_key rows)" and di: "distinct (map sr_document_id rows)"
  proof -
    have "map sr_document_id R = map sc_document_id cs"
      using all2 by (induction rule: list_all2_induct) (simp_all add: classify_id)
    with ids have ids': "distinct (map sr_document_id R)" by simp
    show "distinct (map sr_document_id rows)"
      by (rule distinct_sub_mset [OF unranked_sub [OF sub] ids']) simp
    show "distinct (map sr_key rows)"
      by (rule distinct_sub_mset [OF unranked_sub [OF sub] keys]) simp
  qed
  from that [OF pol dsha R cl st rk sub dk di] show thesis .
qed

text \<open>
  C32: a successful selection returns as many rows as the largest standard size; the first rows
  up to each target's size are, for every quota, the candidates of its relation and length
  stratum with the smallest selection keys, so the samples are nested and stratified; and the
  rows pass the checks of the manifest: ranks, identities, recomputed keys, the order within
  each stage and the quotas of every target.
\<close>

theorem selected_rows_accepted:
  assumes sel: "select_benchmark_documents X d projection p cs = Inr (n, universe, rows)"
  shows "\<exists>dsha R. canonical_digest X (json_dataset_identity d) = Inr dsha
    \<and> try_map (classify X d dsha (cr_sha256 projection) p) cs = Inr R
    \<and> validate_selection_rows X rows dsha (cr_sha256 projection) p = Inr ()
    \<and> length rows = 10000
    \<and> (\<forall>t \<in> set (sp_targets p).
        validate_prefix_quotas (take (unat (tq_document_count t)) rows) (tq_quotas t) = Inr ()
        \<and> mset (map unranked (take (unat (tq_document_count t)) rows)) = sample R (tq_quotas t))"
proof -
  let ?psha = "cr_sha256 projection"
  from selection_staged [OF sel] obtain dsha R where pol: "selection_policy_validate X p d = Inr ()"
    and dsha: "canonical_digest X (json_dataset_identity d) = Inr dsha"
    and R: "try_map (classify X d dsha ?psha p) cs = Inr R"
    and cl: "\<And>r. r \<in> set R \<Longrightarrow> \<exists>c. classify X d dsha ?psha p c = Inr r"
    and st: "staged_rows (sorted_groups (push_rows [] R)) 0 (sp_targets p) rows" and rk: "ranks_ok rows"
    and sub: "mset (map unranked rows) \<subseteq># mset R"
    and dk: "distinct (map sr_key rows)" and di: "distinct (map sr_document_id rows)" by blast
  let ?G = "sorted_groups (push_rows [] R)"
  note pp = policy_parts [OF pol]
  have sizes: "map tq_document_count (sp_targets p) = [512, 2000, 10000]"
    using pp(2) by (simp add: STANDARD_BENCHMARK_SIZES_def)
  have len: "length rows = 10000"
    using st sizes by (auto simp: Let_def)
  have checks: "row_checks X dsha ?psha p r" if r: "r \<in> set rows" for r
  proof -
    from r have "unranked r \<in># mset (map unranked rows)" by simp
    with sub have "unranked r \<in> set R" by (meson mset_subset_eqD in_multiset_in_set)
    from cl [OF this] obtain c where c: "classify X d dsha ?psha p c = Inr (unranked r)" ..
    from r obtain i where "i < length rows" "r = rows ! i" by (auto simp: in_set_conv_nth)
    with rk len have "unat (sr_rank r) < 10000" by (simp add: ranks_ok_def)
    with c show ?thesis by (rule selected_row_checks)
  qed
  have "distinct (map row_order rows)"
    using di by (auto simp: row_order_def distinct_map inj_on_def)
  from check_stages_ok [OF st this] obtain b where
    b: "try_fold (check_stage rows) 0 STANDARD_BENCHMARK_SIZES = Inr b" unfolding pp(2) by blast
  have "\<forall>i < length rows. unat (sr_rank (rows ! i)) = 0 + i" using rk by (simp add: ranks_ok_def)
  from check_rows_ok [OF _ this di dk, of X dsha ?psha p "{}" "{}"] checks b
  have valid: "validate_selection_rows X rows dsha ?psha p = Inr ()"
    by (auto simp: validate_selection_rows_def)
  have targets: "validate_prefix_quotas (take (unat (tq_document_count t)) rows) (tq_quotas t) = Inr ()
      \<and> mset (map unranked (take (unat (tq_document_count t)) rows)) = sample R (tq_quotas t)"
    if t: "t \<in> set (sp_targets p)" for t
    using staged_sample [OF st t] pp(1,3) t by simp
  show ?thesis
    using dsha R valid len targets by blast
qed

subsection \<open>The order of the candidates\<close>

lemma sort_key_perm:
  fixes f :: "'a \<Rightarrow> 'b::linorder"
  assumes "mset xs = mset ys" and "distinct (map f xs)"
  shows "sort_key f xs = sort_key f ys"
proof (rule sort_key_inj_key_eq)
  show "mset xs = mset (sort_key f ys)" using assms(1) by simp
  show "inj_on f (set xs)" using assms(2) by (simp add: distinct_map)
qed simp

lemma try_map_perm:
  assumes "mset xs = mset ys" and "try_map f xs = Inr rs"
  obtains ss where "try_map f ys = Inr ss" and "mset ss = mset rs"
proof -
  have ok: "\<exists>r. f x = Inr r" if "x \<in> set xs" for x
    using assms(2) that by (auto simp: try_map_ok list_all2_conv_all_nth in_set_conv_nth)
  have map: "try_map f zs = Inr (map (projr \<circ> f) zs)" if "set zs \<subseteq> set xs" for zs
    using that by (induction zs) (use ok in fastforce)+
  have "set ys \<subseteq> set xs" using assms(1) by (metis set_mset_mset subset_refl)
  moreover have rs: "rs = map (projr \<circ> f) xs" using map [OF subset_refl] assms(2) by simp
  moreover have "mset (map (projr \<circ> f) ys) = mset rs" using assms(1) unfolding rs by simp
  ultimately show thesis using map that by blast
qed

lemma try_fold_same:
  assumes "\<And>s x r. f s x = Inr r \<longleftrightarrow> g s x = Inr r"
  shows "try_fold f s xs = Inr r \<longleftrightarrow> try_fold g s xs = Inr r"
  by (induction xs arbitrary: s) (simp_all add: rbind_eq_Inr assms)

lemma take_target_same:
  assumes "rows_in g = rows_in h"
  shows "take_target g st t = Inr r \<longleftrightarrow> take_target h st t = Inr r"
proof -
  have "take_quota g s q = Inr r \<longleftrightarrow> take_quota h s q = Inr r" for s q r
    by (cases s) (simp add: take_quota_step quota_fits_def quota_rows_def assms)
  note same = try_fold_same [of "take_quota g" "take_quota h", OF this]
  obtain selected previous where st: "st = (selected, previous)" by (cases st)
  show ?thesis
    by (simp only: take_target_def st prod.case rbind_eq_Inr same)
qed

lemma universe_perm:
  "mset cs = mset cs' \<Longrightarrow> distinct (map sc_document_id cs) \<Longrightarrow>
   candidate_universe_digest X cs = candidate_universe_digest X cs'"
  by (simp add: candidate_universe_digest_def sort_key_perm [of cs cs' sc_document_id])

lemma selects_perm:
  assumes "mset cs = mset cs'" and "selects X d projection p cs dsha R rows"
  shows "\<exists>R'. selects X d projection p cs' dsha R' rows"
proof -
  from assms(2) obtain previous where dsha: "canonical_digest X (json_dataset_identity d) = Inr dsha"
    and R: "try_map (classify X d dsha (cr_sha256 projection) p) cs = Inr R"
    and ids: "distinct (map sc_document_id cs)" and keys: "distinct (map sr_key R)"
    and fold: "try_fold (take_target (sorted_groups (push_rows [] R))) ([], []) (sp_targets p)
        = Inr (rows, previous)"
    unfolding selects_def by blast
  obtain R' where R': "try_map (classify X d dsha (cr_sha256 projection) p) cs' = Inr R'"
    and m: "mset R' = mset R" using try_map_perm [OF assms(1) R] .
  have "mset (map sc_document_id cs') = mset (map sc_document_id cs)"
    "mset (map sr_key R') = mset (map sr_key R)" using assms(1) m by simp_all
  with ids keys have ids': "distinct (map sc_document_id cs')" and keys': "distinct (map sr_key R')"
    by (metis mset_eq_imp_distinct_iff)+
  have "rows_in (sorted_groups (push_rows [] R)) = rows_in (sorted_groups (push_rows [] R'))"
  proof
    fix c
    have "distinct (map sr_key (of_cell c R))" using keys by (rule distinct_map_filter)
    then have "distinct (map row_order (of_cell c R))"
      by (auto simp: distinct_map inj_on_def row_order_def digest.expand)
    moreover have "mset (of_cell c R) = mset (of_cell c R')" using m by simp
    ultimately show "rows_in (sorted_groups (push_rows [] R)) c = rows_in (sorted_groups (push_rows [] R')) c"
      unfolding group_rows sort_rows_def by (intro sort_key_perm)
  qed
  note same = try_fold_same [of "take_target (sorted_groups (push_rows [] R))", OF take_target_same [OF this]]
  from fold have "try_fold (take_target (sorted_groups (push_rows [] R'))) ([], []) (sp_targets p)
      = Inr (rows, previous)" unfolding same .
  with dsha R' ids' keys' show ?thesis unfolding selects_def by blast
qed

lemma select_perm_one:
  assumes "mset cs = mset cs'"
    and "select_benchmark_documents X d projection p cs = Inr (n, universe, rows)"
  shows "select_benchmark_documents X d projection p cs' = Inr (n, universe, rows)"
proof -
  from assms(2) obtain dsha R where s: "selects X d projection p cs dsha R rows"
    unfolding select_parts by blast
  then have "distinct (map sc_document_id cs)" by (simp add: selects_def)
  from universe_perm [OF assms(1) this, of X] selects_perm [OF assms(1) s] mset_eq_length [OF assms(1)]
  show ?thesis using assms(2) unfolding select_parts by metis
qed

text \<open>
  The selection does not depend on the order of the candidates: reordering them gives the
  same count, the same universe digest and the same ranked rows, or fails as well.
\<close>

theorem selection_order_independent:
  assumes "mset cs = mset cs'"
  shows "select_benchmark_documents X d projection p cs = Inr (n, universe, rows) \<longleftrightarrow>
    select_benchmark_documents X d projection p cs' = Inr (n, universe, rows)"
  using select_perm_one [OF assms] select_perm_one [OF assms [symmetric]] by blast

subsection \<open>An example\<close>

text \<open>
  Ten thousand documents of one relation and one length stratum. The hash of the example gives
  back the document id it was asked about, so the keys are the ids.
\<close>

definition bench_externals :: externals where
  "bench_externals =
     \<lparr>sha256_hex = map (\<lambda>b. char_of (unat b)),
      jcs_bytes = (\<lambda>v. Some (case v of
         JObj fs \<Rightarrow> (case map_of fs ''document_id'' of Some (JStr s) \<Rightarrow> str_bytes s | _ \<Rightarrow> [])
       | _ \<Rightarrow> [])),
      json_from_str = (\<lambda>_. None)\<rparr>"

definition bench_ref :: component_ref where
  "bench_ref = \<lparr>cr_id = ''c'', cr_version = ''1'', cr_sha256 = Digest []\<rparr>"

definition bench_dataset :: dataset_identity where
  "bench_dataset =
     \<lparr>ds_id = ''d'', ds_version = ''1'', source_snapshot = bench_ref, ds_mapping = bench_ref,
      source_admission = [], included_relations = [''r''], excluded_relations = [],
      structured_only_relations = []\<rparr>"

definition bench_target :: "u64 \<Rightarrow> target_quota" where
  "bench_target n =
     \<lparr>tq_document_count = n,
      tq_quotas = [\<lparr>sq_relation = ''r'', sq_length_stratum = ''all'', sq_documents = n\<rparr>]\<rparr>"

definition bench_policy :: selection_policy where
  "bench_policy =
     \<lparr>sp_schema_version = POLICY_SCHEMA, sp_component_sha256 = Digest [],
      sp_algorithm = ''staged_stratified_sha256_v1'', sp_selection_seed = ''seed'',
      sp_length_strata = [\<lparr>ls_id = ''all'', ls_minimum = 0, ls_maximum = None\<rparr>],
      sp_targets = map bench_target STANDARD_BENCHMARK_SIZES\<rparr>"

definition bench_candidate :: "nat \<Rightarrow> selection_candidate" where
  "bench_candidate n =
     \<lparr>sc_document_id = replicate (Suc n) (CHR ''a''), sc_document_sha256 = Digest [],
      sc_text_sha256 = Digest [], sc_utf8_bytes = 1, sc_primary_relation = ''r''\<rparr>"

definition bench_candidates :: "selection_candidate list" where
  "bench_candidates = map bench_candidate [0..<10000]"

lemma bench_hash: "map (\<lambda>b. char_of (unat b)) (str_bytes s) = s"
proof -
  have "char_of (unat (word_of_nat (of_char c) :: u8)) = c" for c
    by (simp add: unat_of_nat take_bit_eq_mod)
  then show ?thesis by (simp add: str_bytes_def comp_def)
qed

lemma bench_policy_valid: "selection_policy_validate bench_externals bench_policy bench_dataset = Inr ()"
proof -
  have d: "dataset_identity_validate bench_dataset = Inr ()"
    by (simp add: dataset_identity_validate_ok bench_dataset_def bench_ref_def component_ref_validate_ok)
  have s: "validate_length_strata (sp_length_strata bench_policy) = Inr ()"
    by (simp add: validate_length_strata_def bench_policy_def check_length_stratum_def require_text_def
        require_safe_u64_def)
  have c: "expected_cells bench_policy bench_dataset = [(''r'', ''all'')]"
    by (simp add: expected_cells_def bench_policy_def bench_dataset_def)
  have t: "check_target_quota [(''r'', ''all'')] m (bench_target n, n) = Inr (bt_insert (''r'', ''all'') n m)"
    if "n \<le> MAX_SAFE_JSON_INTEGER" "bt_get m (''r'', ''all'') = None \<or>
      (\<exists>k \<le> n. bt_get m (''r'', ''all'') = Some k)" for m n
    using that by (auto simp: check_target_quota_def bench_target_def quota_cell_def check_quota_def
        require_safe_u64_def checked_add_def not_less unat_bound [of n, simplified])
  have j: "component_digest bench_externals (json_selection_policy bench_policy) = Inr (Digest [])"
    by (simp add: component_digest_def without_self_digest_def json_selection_policy_def
        canonical_digest_def canonical_json_bytes_def bench_externals_def digest_bytes_def)
  have f: "\<exists>m. try_fold (check_target_quota [(''r'', ''all'')]) []
      (zip (map bench_target STANDARD_BENCHMARK_SIZES) STANDARD_BENCHMARK_SIZES) = Inr m"
    by (simp add: STANDARD_BENCHMARK_SIZES_def t MAX_SAFE_JSON_INTEGER_def bt_get_def)
  have p: "sp_schema_version bench_policy = POLICY_SCHEMA" "sp_selection_seed bench_policy = ''seed''"
    "sp_algorithm bench_policy = ''staged_stratified_sha256_v1''"
    "sp_targets bench_policy = map bench_target STANDARD_BENCHMARK_SIZES"
    "sp_component_sha256 bench_policy = Digest []"
    by (simp_all add: bench_policy_def)
  from f show ?thesis
    by (auto simp: selection_policy_validate_def d s c p j require_text_def)
qed

abbreviation bench_cell :: cell where
  "bench_cell \<equiv> (''r'', ''all'')"

definition bench_row :: "selection_candidate \<Rightarrow> selection_row" where
  "bench_row c = candidate_row c ''all'' (Digest (sc_document_id c))"

lemma bench_classify:
  assumes "c \<in> set bench_candidates"
  shows "classify bench_externals bench_dataset dsha psha bench_policy c = Inr (bench_row c)"
proof -
  from assms obtain n where c: "c = bench_candidate n" by (auto simp: bench_candidates_def)
  have v: "validate_candidate c bench_dataset = Inr ()"
    by (simp add: c validate_candidate_def bench_candidate_def bench_dataset_def require_text_def
        require_safe_u64_def MAX_SAFE_JSON_INTEGER_def)
  have s: "find_length_stratum (sp_length_strata bench_policy) (sc_utf8_bytes c) =
      Inr \<lparr>ls_id = ''all'', ls_minimum = 0, ls_maximum = None\<rparr>"
    by (simp add: find_length_stratum_def bench_policy_def in_stratum_def)
  have k: "selection_key bench_externals dsha psha (sp_component_sha256 bench_policy)
      (sp_selection_seed bench_policy) c ''all'' = Inr (Digest (sc_document_id c))"
    by (simp add: selection_key_def canonical_digest_def canonical_json_bytes_def digest_bytes_def
        bench_externals_def bench_hash)
  show ?thesis by (simp add: classify_def v s k bench_row_def)
qed

lemma bench_rows:
  "try_map (classify bench_externals bench_dataset dsha psha bench_policy) bench_candidates =
     Inr (map bench_row bench_candidates)"
proof -
  have "try_map f cs = Inr (map g cs)" if "\<And>c. c \<in> set cs \<Longrightarrow> f c = Inr (g c)"
    for f :: "selection_candidate \<Rightarrow> pipeline_error + selection_row" and g cs
    using that by (induction cs) simp_all
  from this [OF bench_classify] show ?thesis .
qed

lemma bench_length: "length bench_candidates = 10000"
  by (simp only: bench_candidates_def length_map length_upt diff_zero)

lemma bench_distinct:
  "distinct (map sc_document_id bench_candidates)"
  "distinct (map sr_key (map bench_row bench_candidates))"
proof -
  have "inj_on (sc_document_id \<circ> bench_candidate) (set xs)" for xs
  proof (rule inj_onI)
    fix m n assume "(sc_document_id \<circ> bench_candidate) m = (sc_document_id \<circ> bench_candidate) n"
    then have "length (replicate (Suc m) (CHR ''a'')) = length (replicate (Suc n) (CHR ''a''))"
      by (simp only: bench_candidate_def comp_def selection_candidate.select_convs)
    then show "m = n" by (simp only: length_replicate nat.inject)
  qed
  then show d: "distinct (map sc_document_id bench_candidates)"
    by (simp only: bench_candidates_def map_map distinct_map distinct_upt simp_thms)
  have "map sr_key (map bench_row bench_candidates) = map Digest (map sc_document_id bench_candidates)"
    by (simp add: bench_row_def candidate_row_def)
  moreover have "distinct (map Digest xs) = distinct xs" for xs by (simp add: distinct_map inj_on_def)
  ultimately show "distinct (map sr_key (map bench_row bench_candidates))" using d by (simp only:)
qed

lemma bench_group:
  "length (rows_in (sorted_groups (push_rows [] (map bench_row bench_candidates))) bench_cell) = 10000"
proof -
  have "filter (\<lambda>r. row_cell r = bench_cell) (map bench_row bench_candidates) =
      map bench_row bench_candidates"
    by (rule filter_True) (auto simp: row_cell_def bench_row_def candidate_row_def bench_candidates_def
        bench_candidate_def)
  then show ?thesis by (simp add: group_rows sort_rows_def bench_length)
qed

lemma bench_take_target:
  assumes "bt_ok previous" and "length selected = taken previous bench_cell"
    and "taken previous bench_cell \<le> unat n" and "unat n \<le> length (rows_in g bench_cell)"
  obtains selected' previous' where "take_target g (selected, previous) (bench_target n) = Inr (selected', previous')"
    and "bt_ok previous'" and "length selected' = unat n" and "taken previous' bench_cell = unat n"
proof -
  let ?q = "\<lparr>sq_relation = ''r'', sq_length_stratum = ''all'', sq_documents = n\<rparr>"
  let ?rows = "sort_rows (quota_rows g previous ?q)"
  let ?out = "selected @ ranked_from (length selected) ?rows"
  have c: "quota_cell ?q = bench_cell" by (simp add: quota_cell_def)
  have fits: "quota_fits g previous ?q" using assms by (simp add: quota_fits_def c)
  have l: "length ?out = unat n"
    using assms by (simp add: ranked_from_def sort_rows_def quota_rows_def c)
  have n: "unat n < 2 ^ 64" using unat_bound [of n] by simp
  have "rank_rows selected ?rows = Inr ?out"
    using l n by (simp add: rank_rows_ok ranked_from_def)
  moreover have "try_from_nat (length ?out) = Some n" unfolding l using n by (simp add: try_from_nat_def)
  ultimately have "take_target g (selected, previous) (bench_target n) =
      Inr (?out, bt_insert bench_cell (unat n) previous)"
    using fits by (simp add: take_target_def bench_target_def take_quota_step [THEN iffD2] c)
  from this bt_insert_ok [OF assms(1)] l show thesis
    by (rule that) (simp add: taken_insert [OF assms(1)])
qed

lemma bench_selects:
  obtains n universe rows where
    "select_benchmark_documents bench_externals bench_dataset bench_ref bench_policy bench_candidates =
       Inr (n, universe, rows)"
proof -
  let ?g = "sorted_groups (push_rows [] (map bench_row bench_candidates))"
  obtain s1 p1 where 1: "take_target ?g ([], []) (bench_target 512) = Inr (s1, p1)" "bt_ok p1"
    "length s1 = unat (512 :: u64)" "taken p1 bench_cell = unat (512 :: u64)"
    by (rule bench_take_target [of "[]" "[]" 512 ?g])
      (simp_all add: bt_ok_def taken_def bt_get_def bench_group)
  obtain s2 p2 where 2: "take_target ?g (s1, p1) (bench_target 2000) = Inr (s2, p2)" "bt_ok p2"
    "length s2 = unat (2000 :: u64)" "taken p2 bench_cell = unat (2000 :: u64)"
    by (rule bench_take_target [of p1 s1 2000 ?g]) (use 1 in \<open>simp_all add: bench_group\<close>)
  obtain s3 p3 where 3: "take_target ?g (s2, p2) (bench_target 10000) = Inr (s3, p3)"
    by (rule bench_take_target [of p2 s2 10000 ?g]) (use 2 in \<open>simp_all add: bench_group\<close>)
  have fold: "try_fold (take_target ?g) ([], []) (sp_targets bench_policy) = Inr (s3, p3)"
    by (simp add: bench_policy_def STANDARD_BENCHMARK_SIZES_def 1 2 3)
  obtain dsha where dsha: "canonical_digest bench_externals (json_dataset_identity bench_dataset) = Inr dsha"
    by (simp add: canonical_digest_def canonical_json_bytes_def bench_externals_def)
  have any: "\<exists>d. canonical_digest bench_externals v = Inr d" for v
    by (simp add: canonical_digest_def canonical_json_bytes_def bench_externals_def)
  have "\<exists>out. try_fold (\<lambda>bytes c. rbind (canonical_digest bench_externals (candidate_json c)) (\<lambda>d.
      Inr (bytes @ str_bytes (digest_str d) @ [0]))) b cs = Inr out" for b :: bytes and cs
  proof (induction cs arbitrary: b)
    case (Cons c cs)
    obtain d where "canonical_digest bench_externals (candidate_json c) = Inr d" using any by blast
    with Cons show ?case by simp
  qed simp
  then obtain universe where u: "candidate_universe_digest bench_externals bench_candidates = Inr universe"
    unfolding candidate_universe_digest_def by (metis (lifting) rbind_simps(2))
  have s: "selects bench_externals bench_dataset bench_ref bench_policy bench_candidates dsha
      (map bench_row bench_candidates) s3"
    unfolding selects_def using dsha bench_rows bench_distinct fold by blast
  have d: "dataset_identity_validate bench_dataset = Inr ()" "component_ref_validate bench_ref = Inr ()"
    by (simp_all add: dataset_identity_validate_ok bench_dataset_def bench_ref_def component_ref_validate_ok)
  have "try_from_nat (length bench_candidates) = Some (10000 :: u64)"
    by (simp add: bench_length try_from_nat_def)
  with s d u bench_policy_valid have "select_benchmark_documents bench_externals bench_dataset bench_ref
      bench_policy bench_candidates = Inr (10000, universe, s3)"
    unfolding select_parts by (auto simp: MAX_SAFE_JSON_INTEGER_def STANDARD_BENCHMARK_SIZES_def)
  then show thesis by (rule that)
qed

theorem selected_rows_accepted_witness:
  "\<exists>n universe rows. select_benchmark_documents bench_externals bench_dataset bench_ref bench_policy
       bench_candidates = Inr (n, universe, rows) \<and> length rows = 10000"
  using bench_selects selected_rows_accepted by metis

theorem selection_order_independent_witness:
  "\<exists>n universe rows. select_benchmark_documents bench_externals bench_dataset bench_ref bench_policy
       (rev bench_candidates) = Inr (n, universe, rows)"
proof -
  obtain n universe rows where "select_benchmark_documents bench_externals bench_dataset bench_ref
      bench_policy bench_candidates = Inr (n, universe, rows)" by (rule bench_selects)
  then show ?thesis
    using selection_order_independent [of bench_candidates "rev bench_candidates"] by auto
qed

end
