(* ===== verification/Artifacts.thy ===== *)
theory Artifacts
  imports Prepared Files
begin

text \<open>
  Artifacts on disk, \<open>crates/rag-pipeline/src/lib.rs\<close>: resolving a manifest path below a root,
  checking an object against its manifest entry, atomic replacement of a file, removal of what
  an interrupted replacement leaves, and the staging directory that is published by one rename.
  Every operation is a sequence of file system calls (theory \<open>Files\<close>), each of which can fail.
  The values fetched from the static counters and the random part of a \<open>tempfile\<close> name are
  arguments.
\<close>

definition pipeline_call :: "(files \<Rightarrow> io_error + 'a \<times> files) \<Rightarrow> (pipeline_error, 'a) io" where
  "pipeline_call op = io_err (\<lambda>_. PipelineIo) (syscall op)"

lemma pipeline_call_cases:
  assumes "pipeline_call op w = (r, w')"
  obtains (err) "r = Inl PipelineIo" and "tree w' = tree w"
  | (ok) x where "next_fault w = None" and "op (tree w) = Inr (x, tree w')" and "r = Inr x"
  using assms unfolding pipeline_call_def
  by (elim io_err_cases syscall_cases) auto

lemma keeps_pipeline_call:
  "(\<And>ns x ns'. op ns = Inr (x, ns') \<Longrightarrow> I ns \<Longrightarrow> I ns') \<Longrightarrow> keeps I (pipeline_call op)"
  unfolding pipeline_call_def by (intro keeps_err keeps_syscall)

lemma pipeline_reads_tree: "reads_only op \<Longrightarrow> pipeline_call op w = (r, w') \<Longrightarrow> tree w' = tree w"
  by (erule pipeline_call_cases) (auto simp: reads_only_def)

lemma io_bind_ok:
  "io_bind m f w = (Inr y, w') \<longleftrightarrow> (\<exists>x w1. m w = (Inr x, w1) \<and> f x w1 = (Inr y, w'))"
  by (auto simp: io_bind_def split: prod.splits sum.splits)

lemma if_io_ok:
  "(if b then io_of (Inl e) else m) w = (Inr x, w') \<longleftrightarrow> \<not> b \<and> m w = (Inr x, w')"
  by simp

lemma io_of_ok: "io_of r w = (Inr x, w') \<longleftrightarrow> r = Inr x \<and> w' = w"
  by auto

lemmas io_ok = io_bind_ok if_io_ok io_of_ok

subsection \<open>Resolving artifact paths\<close>

text \<open>
  \<open>SafeRelativePath::join_to\<close>; the components of a safe path are its segments
  (\<open>Component.safe_relative_path_ok\<close>).
\<close>

definition join_to :: "path \<Rightarrow> safe_path \<Rightarrow> path" where
  "join_to root relative = root @ str_split (CHR ''/'') (path_str relative)"

definition resolve_existing_artifact :: "path \<Rightarrow> safe_path \<Rightarrow> (pipeline_error, path) io" where
  "resolve_existing_artifact root relative =
     io_bind (pipeline_call (canonicalize_op root)) (\<lambda>root.
     io_bind (pipeline_call (canonicalize_op (join_to root relative))) (\<lambda>artifact.
     if artifact = root \<or> \<not> prefix root artifact
     then io_of (Inl (Invalid ''artifact path containment''))
     else io_of (Inr artifact)))"

definition validate_object_file ::
    "externals \<Rightarrow> path \<Rightarrow> object_entry \<Rightarrow> (pipeline_error, path) io" where
  "validate_object_file X root entry =
     io_bind (resolve_existing_artifact root (oe_path entry)) (\<lambda>p.
     io_bind (pipeline_call (stat_op p)) (\<lambda>metadata.
     if (case metadata of Regular b \<Rightarrow> length b \<noteq> unat (oe_bytes entry) | _ \<Rightarrow> True)
     then io_of (Inl (Invalid ''artifact object metadata''))
     else
     io_bind (pipeline_call (read_op p)) (\<lambda>contents.
     if digest_bytes X contents \<noteq> oe_sha256 entry
     then io_of (Inl (Invalid ''artifact object digest''))
     else io_of (Inr p))))"

text \<open>\<open>symlink_metadata\<close> of each component on the way; a missing one is accepted.\<close>

fun resolve_components :: "path \<Rightarrow> path_component list \<Rightarrow> (pipeline_error, path) io" where
  "resolve_components candidate [] = io_of (Inr candidate)"
| "resolve_components candidate (component # rest) =
     (case component of
        NormalDir name \<Rightarrow>
          io_match (syscall (lstat_op (join candidate name))) (\<lambda>r.
            case r of
              Inr metadata \<Rightarrow>
                if is_Symlink metadata \<or> rest \<noteq> [] \<and> metadata \<noteq> Directory
                then io_of (Inl (Invalid ''artifact path containment''))
                else resolve_components (join candidate name) rest
            | Inl NotFound \<Rightarrow> resolve_components (join candidate name) rest
            | Inl e \<Rightarrow> io_of (Inl PipelineIo))
      | _ \<Rightarrow> io_of (Inl (Invalid ''artifact path containment'')))"

definition resolve_output_artifact :: "path \<Rightarrow> safe_path \<Rightarrow> (pipeline_error, path) io" where
  "resolve_output_artifact root relative =
     io_bind (pipeline_call (canonicalize_op root)) (\<lambda>root.
     io_bind (resolve_components root (path_components (path_str relative))) (\<lambda>candidate.
     if candidate = root \<or> \<not> prefix root candidate
     then io_of (Inl (Invalid ''artifact path containment''))
     else io_of (Inr candidate)))"

subsection \<open>Atomic replacement of a file\<close>

definition ATOMIC_PREFIX :: string where "ATOMIC_PREFIX = ''.livefire-rag-atomic-''"
definition PARTIAL_SUFFIX :: string where "PARTIAL_SUFFIX = ''.partial''"

definition temporary_name :: "u32 \<Rightarrow> u64 \<Rightarrow> string \<Rightarrow> string" where
  "temporary_name pid sequence random =
     ATOMIC_PREFIX @ nat_digits (unat pid) @ ''-'' @ nat_digits (unat sequence) @ ''-'' @ random
       @ PARTIAL_SUFFIX"

text \<open>Writing, \<open>sync_all\<close> and \<open>persist\<close>, which renames.\<close>

definition fill_and_persist :: "path \<Rightarrow> path \<Rightarrow> bytes \<Rightarrow> (pipeline_error, unit) io" where
  "fill_and_persist temporary p bytes =
     io_bind (io_err (\<lambda>_. PipelineIo) (write_all temporary bytes)) (\<lambda>_.
     io_bind (pipeline_call sync_op) (\<lambda>_. pipeline_call (rename_op temporary p)))"

text \<open>A temporary file that was not persisted is removed when its handle is dropped.\<close>

definition atomic_write :: "u64 \<Rightarrow> string \<Rightarrow> path \<Rightarrow> bytes \<Rightarrow> (pipeline_error, unit) io" where
  "atomic_write sequence random p bytes w =
     (case path_parent p of
        None \<Rightarrow> (Inl (Invalid ''output parent''), w)
      | Some parent \<Rightarrow>
          let temporary = join parent (temporary_name (process_id w) sequence random)
          in io_bind (pipeline_call (create_dir_all_op parent)) (\<lambda>_.
             io_bind (pipeline_call (create_new_op temporary)) (\<lambda>_.
             io_match (fill_and_persist temporary p bytes) (\<lambda>r.
               case r of
                 Inr u \<Rightarrow> io_of (Inr ())
               | Inl e \<Rightarrow> io_match (syscall (remove_file_op temporary)) (\<lambda>_. io_of (Inl e))))) w)"

definition write_canonical_json ::
    "externals \<Rightarrow> u64 \<Rightarrow> string \<Rightarrow> path \<Rightarrow> json \<Rightarrow> (pipeline_error, unit) io" where
  "write_canonical_json X sequence random p v =
     io_bind (io_of (canonical_json_bytes X v)) (atomic_write sequence random p)"

definition stale_name :: "string \<Rightarrow> bool" where
  "stale_name name \<longleftrightarrow> starts_with ATOMIC_PREFIX name \<and> ends_with PARTIAL_SUFFIX name"

fun remove_stale_entries :: "path \<Rightarrow> (string \<times> node) list \<Rightarrow> (pipeline_error, unit) io" where
  "remove_stale_entries directory [] = io_of (Inr ())"
| "remove_stale_entries directory ((name, n) # entries) =
     io_bind (io_of (ok_or (Invalid ''atomic temporary path is not UTF-8'') (to_str name))) (\<lambda>name.
     if stale_name name
     then (if \<not> is_Regular n
           then io_of (Inl (Invalid ''atomic temporary path is not a regular file''))
           else io_bind (pipeline_call (remove_file_op (join directory name))) (\<lambda>_.
             remove_stale_entries directory entries))
     else remove_stale_entries directory entries)"

text \<open>\<open>try_exists\<close> answers no only when the path is not found.\<close>

definition remove_stale_atomic_writes :: "path \<Rightarrow> (pipeline_error, unit) io" where
  "remove_stale_atomic_writes directory =
     io_match (syscall (stat_op directory)) (\<lambda>r.
       case r of
         Inl NotFound \<Rightarrow> io_of (Inr ())
       | Inl e \<Rightarrow> io_of (Inl PipelineIo)
       | Inr metadata \<Rightarrow>
           io_bind (pipeline_call (read_dir_op directory)) (remove_stale_entries directory))"

subsection \<open>A directory published by one rename\<close>

record atomic_directory =
  ad_staging :: path
  ad_destination :: path

definition atomic_directory_new :: "u64 \<Rightarrow> path \<Rightarrow> (pipeline_error, atomic_directory) io" where
  "atomic_directory_new sequence destination =
     io_match (syscall (stat_op destination)) (\<lambda>exists_result.
     if is_ok exists_result then io_of (Inl (Invalid ''publish destination exists''))
     else
     io_bind (io_of (ok_or (Invalid ''publish parent'') (path_parent destination))) (\<lambda>parent.
     io_bind (pipeline_call (create_dir_all_op parent)) (\<lambda>_.
     io_bind (io_of (ok_or (Invalid ''publish name'')
                       (Option.bind (path_file_name destination) to_str))) (\<lambda>name. \<lambda>w.
       let staging = join parent (''.'' @ name @ ''.partial-'' @ nat_digits (unat (process_id w))
                                  @ ''-'' @ nat_digits (unat sequence))
       in io_bind (pipeline_call (create_dir_op staging)) (\<lambda>_.
            io_of (Inr \<lparr>ad_staging = staging, ad_destination = destination\<rparr>)) w))))"

text \<open>\<open>Drop\<close>: unless published, the staging directory is removed and errors are ignored.\<close>

definition atomic_directory_drop :: "atomic_directory \<Rightarrow> (pipeline_error, unit) io" where
  "atomic_directory_drop d = io_match (syscall (remove_dir_all_op (ad_staging d))) (\<lambda>_. io_of (Inr ()))"

text \<open>The body of a method that takes the directory by value: it drops it when it fails.\<close>

definition or_drop :: "atomic_directory \<Rightarrow> (pipeline_error, 'a) io \<Rightarrow> (pipeline_error, 'a) io" where
  "or_drop d m = io_match m (\<lambda>r.
     case r of
       Inr x \<Rightarrow> io_of (Inr x)
     | Inl e \<Rightarrow> io_match (atomic_directory_drop d) (\<lambda>_. io_of (Inl e)))"

definition publish :: "atomic_directory \<Rightarrow> (pipeline_error, path) io" where
  "publish d = or_drop d
     (io_bind (pipeline_call (rename_op (ad_staging d) (ad_destination d))) (\<lambda>_.
      io_of (Inr (ad_destination d))))"

definition publish_child :: "string \<Rightarrow> atomic_directory \<Rightarrow> (pipeline_error, path) io" where
  "publish_child child_name d = or_drop d
     (if child_name = [] \<or> child_name = ''.'' \<or> child_name = ''..''
         \<or> str_contains (CHR ''/'') child_name \<or> str_contains (CHR 0x5C) child_name
      then io_of (Inl (Invalid ''publish child name''))
      else
      let child = join (ad_staging d) child_name in
      io_match (syscall (stat_op child)) (\<lambda>r.
      if r \<noteq> Inr Directory then io_of (Inl (Invalid ''publish child directory''))
      else
      io_bind (pipeline_call (rename_op child (ad_destination d))) (\<lambda>_.
      io_bind (pipeline_call (remove_dir_op (ad_staging d))) (\<lambda>_.
      io_of (Inr (ad_destination d))))))"

subsection \<open>Resolved artifacts stay below the root\<close>

lemma resolve_existing_ok:
  assumes "resolve_existing_artifact root relative w = (Inr p, w')"
  shows "tree w' = tree w \<and> real_path (tree w) p
    \<and> (\<exists>r. canonicalize (tree w) root = Inr r \<and> strict_prefix r p
        \<and> canonicalize (tree w) (join_to r relative) = Inr p)"
proof -
  from assms obtain r w1 where r: "pipeline_call (canonicalize_op root) w = (Inr r, w1)"
    and p: "pipeline_call (canonicalize_op (join_to r relative)) w1 = (Inr p, w')"
    and c: "p \<noteq> r" "prefix r p"
    unfolding resolve_existing_artifact_def io_ok by blast
  from r p have t: "tree w1 = tree w" "tree w' = tree w1" by (auto dest: pipeline_reads_tree [OF reads_only_ops(4)])
  from r have "canonicalize (tree w) root = Inr r"
    by (elim pipeline_call_cases) (auto simp: canonicalize_op_def rbind_eq_Inr)
  moreover from p have "canonicalize (tree w1) (join_to r relative) = Inr p"
    by (elim pipeline_call_cases) (auto simp: canonicalize_op_def rbind_eq_Inr)
  ultimately show ?thesis using t c canonicalize_ok by (metis strict_prefix_def)
qed

text \<open>
  C35: an object that passes \<open>validate_object_file\<close> lies strictly below the canonical root,
  whatever symbolic links the tree holds, is a regular file, and has exactly the length and
  the digest of its manifest entry; the check changes nothing.
\<close>

theorem validated_object_contained:
  assumes "validate_object_file X root entry w = (Inr p, w')"
  shows "tree w' = tree w
    \<and> (\<exists>r b. canonicalize (tree w) root = Inr r \<and> strict_prefix r p \<and> real_path (tree w) p
        \<and> fs_get (tree w) p = Some (Regular b) \<and> length b = unat (oe_bytes entry)
        \<and> digest_bytes X b = oe_sha256 entry)"
proof -
  from assms obtain w1 n w2 b where p: "resolve_existing_artifact root (oe_path entry) w = (Inr p, w1)"
    and st: "pipeline_call (stat_op p) w1 = (Inr n, w2)"
    and n: "\<not> (case n of Regular b \<Rightarrow> length b \<noteq> unat (oe_bytes entry) | _ \<Rightarrow> True)"
    and rd: "pipeline_call (read_op p) w2 = (Inr b, w')" and d: "digest_bytes X b = oe_sha256 entry"
    unfolding validate_object_file_def io_ok by blast
  note res = resolve_existing_ok [OF p]
  from n obtain b' where b': "n = Regular b'" "length b' = unat (oe_bytes entry)" by (cases n) auto
  have t: "tree w2 = tree w1" "tree w' = tree w2"
    using st rd by (auto dest: pipeline_reads_tree [OF reads_only_ops(2)] pipeline_reads_tree [OF reads_only_ops(3)])
  have c: "canonicalize (tree w1) p = Inr p" using res by (simp add: canonicalize_real)
  from res have ne: "p \<noteq> []" by auto
  from st have "stat_op p (tree w1) = Inr (n, tree w2)" by (elim pipeline_call_cases) auto
  then have g: "fs_get (tree w1) p = Some (Regular b')"
    by (auto simp: stat_op_def c lstat_op_def ne b' split: option.splits)
  from rd have "read_op p (tree w2) = Inr (b, tree w')" by (elim pipeline_call_cases) auto
  then have "b = b'" by (auto simp: read_op_def stat_op_def c t lstat_op_def ne g)
  with res t g b' d show ?thesis by auto
qed

text \<open>What the loop over the components of an output path has seen: no symbolic link.\<close>

lemma resolve_components_ok:
  assumes "resolve_components candidate cs w = (Inr p, w')"
  shows "tree w' = tree w \<and> (\<exists>names. cs = map NormalDir names \<and> p = candidate @ names
    \<and> (\<forall>k. 0 < k \<and> k \<le> length names \<longrightarrow> (case fs_get (tree w) (candidate @ take k names) of
          None \<Rightarrow> True | Some n \<Rightarrow> \<not> is_Symlink n \<and> (k < length names \<longrightarrow> n = Directory))))"
  using assms
proof (induction cs arbitrary: candidate w)
  case Nil
  then show ?case by auto
next
  case (Cons c rest)
  from Cons.prems obtain name where c: "c = NormalDir name"
    by (cases c) auto
  let ?q = "join candidate name"
  from Cons.prems obtain r w1 where r: "syscall (lstat_op ?q) w = (r, w1)"
    and k: "(case r of
        Inr metadata \<Rightarrow> if is_Symlink metadata \<or> rest \<noteq> [] \<and> metadata \<noteq> Directory
          then io_of (Inl (Invalid ''artifact path containment'')) else resolve_components ?q rest
      | Inl NotFound \<Rightarrow> resolve_components ?q rest
      | Inl e \<Rightarrow> io_of (Inl PipelineIo)) w1 = (Inr p, w')"
    unfolding c by (auto elim: io_match_cases)
  from r have t1: "tree w1 = tree w" by (rule reads_tree [OF reads_only_ops(1)])
  have q: "?q = candidate @ [name]" by (simp add: join_def)
  have go: "resolve_components ?q rest w1 = (Inr p, w')"
    using k by (auto split: sum.splits io_error.splits if_splits)
  have ok: "case fs_get (tree w) ?q of None \<Rightarrow> True
      | Some n \<Rightarrow> \<not> is_Symlink n \<and> (rest \<noteq> [] \<longrightarrow> n = Directory)"
  proof (cases "fs_get (tree w) ?q")
    case (Some n)
    from r show ?thesis
    proof (cases rule: syscall_cases)
      case (err e)
      with k have "e = NotFound" by (auto split: io_error.splits)
      with err r Some show ?thesis
        by (auto simp: syscall_def lstat_op_def q split: option.splits)
    next
      case (ok x ns)
      then have "x = n" by (auto simp: lstat_op_def q Some [unfolded q])
      with k ok Some show ?thesis by (auto split: if_splits)
    qed
  qed simp
  from Cons.IH [OF go] obtain names where n: "rest = map NormalDir names" "p = ?q @ names"
    and t: "tree w' = tree w1"
    and each: "\<forall>k. 0 < k \<and> k \<le> length names \<longrightarrow> (case fs_get (tree w1) (?q @ take k names) of
      None \<Rightarrow> True | Some n \<Rightarrow> \<not> is_Symlink n \<and> (k < length names \<longrightarrow> n = Directory))"
    by blast
  have "case fs_get (tree w) (candidate @ take k (name # names)) of None \<Rightarrow> True
      | Some n \<Rightarrow> \<not> is_Symlink n \<and> (k < length (name # names) \<longrightarrow> n = Directory)"
    if "0 < k \<and> k \<le> length (name # names)" for k
  proof (cases "k = 1")
    case True
    with ok show ?thesis by (auto simp: q n split: option.splits)
  next
    case False
    with that obtain j where "k = Suc j" "0 < j \<and> j \<le> length names" by (cases k) auto
    with each show ?thesis by (auto simp: q t1 split: option.splits)
  qed
  with n t t1 show ?case by (intro conjI exI [of _ "name # names"]) (auto simp: c q)
qed

lemma walk_no_links:
  assumes "\<And>k. 0 < k \<Longrightarrow> k \<le> length cs \<Longrightarrow> case fs_get ns (cur @ take k cs) of
      None \<Rightarrow> True | Some n \<Rightarrow> \<not> is_Symlink n"
    and "walk links ns cur cs = Inr q"
  shows "q = cur @ cs"
  using assms
proof (induction cs arbitrary: cur)
  case (Cons c cs)
  from Cons.prems(1) [of 1] have n: "case fs_get ns (cur @ [c]) of None \<Rightarrow> True | Some n \<Rightarrow> \<not> is_Symlink n"
    by simp
  have "case fs_get ns ((cur @ [c]) @ take k cs) of None \<Rightarrow> True | Some n \<Rightarrow> \<not> is_Symlink n"
    if "0 < k" "k \<le> length cs" for k
    using Cons.prems(1) [of "Suc k"] that by simp
  from Cons.IH [OF this] Cons.prems(2) n show ?case
    by (auto split: option.splits node.splits if_splits)
qed simp

text \<open>
  A path that \<open>resolve_output_artifact\<close> returns is the canonical root followed by the
  segments of the relative path, no component below the root is a symbolic link, and so what the
  path denotes, if anything, is that very path: a later create cannot be redirected elsewhere.
\<close>

theorem resolved_output_contained:
  assumes "resolve_output_artifact root relative w = (Inr p, w')"
  shows "tree w' = tree w \<and> (\<exists>r names. canonicalize (tree w) root = Inr r
    \<and> path_components (path_str relative) = map NormalDir names \<and> names \<noteq> [] \<and> p = r @ names
    \<and> (case canonicalize (tree w) p of Inl _ \<Rightarrow> True | Inr q \<Rightarrow> q = p))"
proof -
  from assms obtain r w1 where r: "pipeline_call (canonicalize_op root) w = (Inr r, w1)"
    and c: "resolve_components r (path_components (path_str relative)) w1 = (Inr p, w')"
    and ne: "p \<noteq> r" "prefix r p"
    unfolding resolve_output_artifact_def io_ok by blast
  from r have t: "tree w1 = tree w" by (rule pipeline_reads_tree [OF reads_only_ops(4)])
  from r have root: "canonicalize (tree w) root = Inr r"
    by (elim pipeline_call_cases) (auto simp: canonicalize_op_def rbind_eq_Inr)
  from resolve_components_ok [OF c] obtain names where t': "tree w' = tree w1"
    and names: "path_components (path_str relative) = map NormalDir names" "p = r @ names"
    and each: "\<forall>k. 0 < k \<and> k \<le> length names \<longrightarrow> (case fs_get (tree w1) (r @ take k names) of
      None \<Rightarrow> True | Some n \<Rightarrow> \<not> is_Symlink n \<and> (k < length names \<longrightarrow> n = Directory))"
    by blast
  have "q = p" if "canonicalize (tree w) p = Inr q" for q
  proof -
    have "case fs_get (tree w) ([] @ take k p) of None \<Rightarrow> True | Some n \<Rightarrow> \<not> is_Symlink n"
      if k: "0 < k" "k \<le> length p" for k
    proof (cases "k \<le> length r")
      case True
      from canonicalize_ok [OF root] have "\<exists>n. fs_get (tree w) (take k r) = Some n \<and> \<not> is_Symlink n"
      proof (cases "k = length r")
        case eq: True
        with k canonicalize_ok [OF root] show ?thesis by (auto simp: real_path_def) (metis node.collapse(2))
      next
        case False
        with True have "dir_at (tree w) (take k r)"
          using canonicalize_ok [OF root] by (simp add: real_path_def dirs_to_def)
        with k True show ?thesis by (auto simp: dir_at_def)
      qed
      with True show ?thesis by (auto simp: names)
    next
      case False
      with k names(2) each show ?thesis
        by (auto simp: t split: option.splits dest!: spec [of _ "k - length r"])
    qed
    from walk_no_links [OF this] that show ?thesis by (simp add: canonicalize_def)
  qed
  then have "case canonicalize (tree w) p of Inl _ \<Rightarrow> True | Inr q \<Rightarrow> q = p"
    by (cases "canonicalize (tree w) p") auto
  moreover have "names \<noteq> []" using ne names by auto
  ultimately show ?thesis using t t' root names by (intro conjI exI [of _ r] exI [of _ names]) simp_all
qed

subsection \<open>Atomic replacement\<close>

lemma temporary_stale: "stale_name (temporary_name pid sequence random)"
  by (simp add: stale_name_def temporary_name_def starts_with_def ends_with_def)

text \<open>Nothing but the entry at \<open>t\<close> has changed.\<close>

definition only_entry :: "path \<Rightarrow> files \<Rightarrow> files \<Rightarrow> bool" where
  "only_entry t old ns \<longleftrightarrow> (\<forall>q. q \<noteq> t \<longrightarrow> fs_get ns q = fs_get old q)"

lemma only_entry_refl [simp]: "only_entry t ns ns"
  by (simp add: only_entry_def)

lemma pipeline_write_result:
  assumes "io_err (\<lambda>_. PipelineIo) (write_all t b) w = (r, w')"
    and "fs_get (tree w) t = Some (Regular c)"
  shows "only_entry t (tree w) (tree w') \<and> (\<exists>d. fs_get (tree w') t = Some (Regular d))
    \<and> (r = Inr () \<longrightarrow> fs_get (tree w') t = Some (Regular (c @ b)))"
  using assms
  by (auto simp: io_err_def write_all_def syscall_def append_op_def only_entry_def
      split: option.splits sum.splits prod.splits)

lemma fill_and_persist_result:
  assumes run: "fill_and_persist t p b w = (r, w')" and t: "fs_get (tree w) t = Some (Regular [])"
    and ne: "t \<noteq> p"
  shows "case r of
      Inr _ \<Rightarrow> fs_get (tree w') p = Some (Regular b)
        \<and> fs_get (tree w') t = None
        \<and> (\<forall>q. \<not> prefix p q \<longrightarrow> \<not> prefix t q \<longrightarrow> fs_get (tree w') q = fs_get (tree w) q)
    | Inl _ \<Rightarrow> only_entry t (tree w) (tree w')"
proof -
  obtain r1 w1 where wr: "io_err (\<lambda>_. PipelineIo) (write_all t b) w = (r1, w1)"
    by (metis prod.exhaust)
  note after = pipeline_write_result [OF wr t]
  show ?thesis
  proof (cases r1)
    case (Inl e)
    with run wr have "r = Inl e" "w' = w1" by (simp_all add: fill_and_persist_def io_bind_def)
    with after show ?thesis by simp
  next
    case (Inr u)
    then have full: "fs_get (tree w1) t = Some (Regular b)" using after by simp
    obtain r2 w2 where sy: "pipeline_call sync_op w1 = (r2, w2)" by (metis prod.exhaust)
    have t2: "tree w2 = tree w1" by (rule pipeline_reads_tree [OF _ sy]) simp
    have rest: "(case r2 of Inl e \<Rightarrow> (Inl e, w2) | Inr x \<Rightarrow> pipeline_call (rename_op t p) w2) = (r, w')"
      using run wr Inr sy by (simp add: fill_and_persist_def io_bind_def split: sum.splits)
    show ?thesis
    proof (cases r2)
      case (Inl e)
      with rest after t2 show ?thesis by auto
    next
      case (Inr u')
      with rest have rn: "pipeline_call (rename_op t p) w2 = (r, w')" by simp
      then show ?thesis
      proof (cases rule: pipeline_call_cases)
        case err
        with after t2 show ?thesis by simp
      next
        case (ok x)
        from rename_file_ok [OF ok(2)] full t2 ne have m: "tree w' = fs_move t p (tree w1)"
          "\<not> prefix t p" "\<not> prefix p t" by simp_all
        with after ok(3) full show ?thesis
          by (auto simp: fs_get_move only_entry_def)
      qed
    qed
  qed
qed

lemma filled_or_removed:
  assumes run: "io_match (fill_and_persist t p bytes) (\<lambda>r. case r of
        Inr u \<Rightarrow> io_of (Inr ())
      | Inl e \<Rightarrow> io_match (syscall (remove_file_op t)) (\<lambda>_. io_of (Inl e))) w2 = (r, w')"
    and w2: "tree w2 = fs_set t (Regular []) T" and ne: "t \<noteq> p"
  shows "case r of
      Inr _ \<Rightarrow> fs_get (tree w') p = Some (Regular bytes) \<and> fs_get (tree w') t = None
        \<and> (\<forall>q. \<not> prefix p q \<longrightarrow> \<not> prefix t q \<longrightarrow> fs_get (tree w') q = fs_get (tree w2) q)
    | Inl _ \<Rightarrow> only_entry t T (tree w')"
proof -
  from run obtain r3 w3 where fp: "fill_and_persist t p bytes w2 = (r3, w3)"
    and rest: "(case r3 of Inr u \<Rightarrow> io_of (Inr ())
      | Inl e \<Rightarrow> io_match (syscall (remove_file_op t)) (\<lambda>_. io_of (Inl e))) w3 = (r, w')"
    by (auto elim: io_match_cases)
  from fill_and_persist_result [OF fp _ ne] w2
  have res: "case r3 of
      Inr _ \<Rightarrow> fs_get (tree w3) p = Some (Regular bytes) \<and> fs_get (tree w3) t = None
        \<and> (\<forall>q. \<not> prefix p q \<longrightarrow> \<not> prefix t q \<longrightarrow> fs_get (tree w3) q = fs_get (tree w2) q)
    | Inl _ \<Rightarrow> only_entry t (tree w2) (tree w3)" by simp
  show ?thesis
  proof (cases r3)
    case (Inr u)
    with rest res show ?thesis by auto
  next
    case (Inl e)
    with rest obtain s where rm: "syscall (remove_file_op t) w3 = (s, w')" and r: "r = Inl e"
      by (auto elim: io_match_cases)
    have "only_entry t (tree w3) (tree w')"
      using rm by (cases rule: syscall_cases) (auto simp: only_entry_def remove_file_ok)
    with res Inl w2 r show ?thesis by (simp add: only_entry_def)
  qed
qed

text \<open>
  C33: \<open>atomic_write\<close> is all or nothing. Whichever call fails, the file at the path afterwards is
  the new one, when the write reports success, and otherwise what it was; nothing else changes
  except that missing parent directories may exist and, after a failure, one file with a
  temporary name may be left.
\<close>

theorem atomic_write_all_or_nothing:
  assumes run: "atomic_write sequence random p bytes w = (r, w')" and name: "\<not> stale_name (last p)"
    and t: "t = join (butlast p) (temporary_name (process_id w) sequence random)"
  shows "(case r of
        Inr _ \<Rightarrow> fs_get (tree w') p = Some (Regular bytes) \<and> fs_get (tree w') t = None
      | Inl _ \<Rightarrow> fs_get (tree w') p = fs_get (tree w) p)
    \<and> (\<forall>q. \<not> prefix p q \<longrightarrow> \<not> prefix t q \<longrightarrow> fs_get (tree w') q = fs_get (tree w) q
        \<or> fs_get (tree w) q = None \<and> fs_get (tree w') q = Some Directory)"
proof (cases "p = []")
  case True
  with run show ?thesis by (auto simp: atomic_write_def path_parent_def)
next
  case False
  then have parent: "path_parent p = Some (butlast p)" by (simp add: path_parent_def)
  have ne: "t \<noteq> p"
  proof
    assume "t = p"
    then have "last p = temporary_name (process_id w) sequence random" by (metis t join_def last_snoc)
    with name temporary_stale show False by metis
  qed
  have np: "\<not> prefix p (butlast p)" using False prefix_length_le [of p "butlast p"] by (cases p) auto
  have run': "io_bind (pipeline_call (create_dir_all_op (butlast p))) (\<lambda>_.
      io_bind (pipeline_call (create_new_op t)) (\<lambda>_.
      io_match (fill_and_persist t p bytes) (\<lambda>r. case r of
          Inr u \<Rightarrow> io_of (Inr ())
        | Inl e \<Rightarrow> io_match (syscall (remove_file_op t)) (\<lambda>_. io_of (Inl e))))) w = (r, w')"
    using run unfolding atomic_write_def parent option.case Let_def t by assumption
  from run' show ?thesis
  proof (cases rule: io_bind_cases)
    case (err e)
    then have "tree w' = tree w" by (auto elim: pipeline_call_cases)
    with err show ?thesis by simp
  next
    case (ok x w1)
    from ok(1) have "create_dir_all_op (butlast p) (tree w) = Inr (x, tree w1)"
      by (auto elim: pipeline_call_cases)
    note dirs = create_dir_all_frame [OF this] create_dir_all_ok(2) [OF this np]
    from ok(2) show ?thesis
    proof (cases rule: io_bind_cases)
      case (err e)
      then have "tree w' = tree w1" by (auto elim: pipeline_call_cases)
      with err dirs show ?thesis by simp
    next
      case (ok y w2)
      from ok(1) have "create_new_op t (tree w1) = Inr (y, tree w2)" by (auto elim: pipeline_call_cases)
      then have w2: "tree w2 = fs_set t (Regular []) (tree w1)" by (simp add: create_new_ok)
      from filled_or_removed [OF ok(2) w2 ne] dirs ne show ?thesis
        by (cases r) (auto simp: only_entry_def w2)
    qed
  qed
qed

subsection \<open>Removing what interrupted writes left\<close>

definition stale_entry :: "path \<Rightarrow> path \<Rightarrow> bool" where
  "stale_entry directory q \<longleftrightarrow> q \<noteq> [] \<and> butlast q = directory \<and> stale_name (last q)"

definition only_stale_gone :: "path \<Rightarrow> files \<Rightarrow> files \<Rightarrow> bool" where
  "only_stale_gone directory old ns \<longleftrightarrow> (\<forall>q. fs_get ns q = fs_get old q
     \<or> stale_entry directory q \<and> fs_get ns q = None
        \<and> (\<exists>n. fs_get old q = Some n \<and> n \<noteq> Directory))"

lemma only_stale_refl [simp]: "only_stale_gone d ns ns"
  by (simp add: only_stale_gone_def)

lemma remove_stale_entries_result:
  assumes "remove_stale_entries d entries w = (r, w')" and "only_stale_gone d old (tree w)"
  shows "only_stale_gone d old (tree w')
    \<and> (r = Inr () \<longrightarrow> (\<forall>(name, n) \<in> set entries. stale_name name \<longrightarrow> fs_get (tree w') (join d name) = None))"
  using assms
proof (induction entries arbitrary: w old)
  case Nil
  then show ?case by simp
next
  case (Cons entry entries)
  obtain name n where e: "entry = (name, n)" by (cases entry)
  show ?case
  proof (cases "to_str name = None \<or> stale_name name \<and> \<not> is_Regular n")
    case True
    with Cons.prems show ?thesis by (auto simp: e io_bind_def to_str_def split: if_splits)
  next
    case ok: False
    then have u: "to_str name = Some name" by (auto simp: to_str_def split: if_splits)
    show ?thesis
    proof (cases "stale_name name")
      case False
      with Cons.prems u have "remove_stale_entries d entries w = (r, w')" by (simp add: e io_bind_def)
      from Cons.IH [OF this Cons.prems(2)] False show ?thesis by (simp add: e)
    next
      case True
      with ok Cons.prems(1) u have run: "io_bind (pipeline_call (remove_file_op (join d name)))
          (\<lambda>_. remove_stale_entries d entries) w = (r, w')" by (simp add: e io_bind_def [of "io_of _"])
      have st: "stale_entry d (join d name)" using True by (simp add: stale_entry_def join_def)
      from run show ?thesis
      proof (cases rule: io_bind_cases)
        case (err x)
        then have "tree w' = tree w" by (auto elim: pipeline_call_cases)
        with err Cons.prems(2) show ?thesis by simp
      next
        case (ok x w1)
        from ok(1) have "remove_file_op (join d name) (tree w) = Inr (x, tree w1)"
          by (auto elim: pipeline_call_cases)
        then have rm: "tree w1 = fs_del (join d name) (tree w)"
          and was: "\<exists>n. fs_get (tree w) (join d name) = Some n \<and> n \<noteq> Directory"
          by (auto simp: remove_file_ok)
        have o1: "only_stale_gone d old (tree w1)"
          using Cons.prems(2) st was unfolding only_stale_gone_def rm
          by (auto; metis option.distinct(1))
        from Cons.IH [OF ok(2) o1] have o: "only_stale_gone d old (tree w')"
          and gone: "r = Inr () \<longrightarrow> (\<forall>(name, n) \<in> set entries. stale_name name \<longrightarrow>
            fs_get (tree w') (join d name) = None)" by blast+
        have "only_stale_gone d (tree w1) (tree w')" using Cons.IH [OF ok(2) only_stale_refl] by blast
        then have "fs_get (tree w') (join d name) = None"
          by (auto simp: only_stale_gone_def rm dest: spec [of _ "join d name"])
        with o gone show ?thesis by (auto simp: e)
      qed
    qed
  qed
qed

lemma scanned_and_removed:
  assumes run: "io_bind (pipeline_call (read_dir_op d)) (remove_stale_entries d) w = (r, w')"
    and c: "canonicalize (tree w) d = Inr d"
  shows "only_stale_gone d (tree w) (tree w')
    \<and> (r = Inr () \<longrightarrow> (\<forall>q. stale_entry d q \<longrightarrow> fs_get (tree w') q = None))"
  using run
proof (cases rule: io_bind_cases)
  case (err e)
  then have "tree w' = tree w" by (auto elim: pipeline_call_cases)
  with err show ?thesis by simp
next
  case (ok entries w2)
  from ok(1) have rd: "read_dir_op d (tree w) = Inr (entries, tree w2)" by (auto elim: pipeline_call_cases)
  then have entries: "entries = map (\<lambda>(r, n). (last r, n)) (filter (\<lambda>(r, _). r \<noteq> [] \<and> butlast r = d) (tree w))"
    and t2: "tree w2 = tree w" by (auto simp: read_dir_op_def rbind_eq_Inr c split: if_splits)
  from remove_stale_entries_result [OF ok(2), of "tree w"] t2
  have o: "only_stale_gone d (tree w) (tree w')"
    and gone: "r = Inr () \<longrightarrow> (\<forall>(name, n) \<in> set entries. stale_name name \<longrightarrow>
      fs_get (tree w') (join d name) = None)" by simp_all
  have "fs_get (tree w') q = None" if "r = Inr ()" and q: "stale_entry d q" for q
  proof (cases "fs_get (tree w) q")
    case None
    with o show ?thesis by (auto simp: only_stale_gone_def dest: spec [of _ q])
  next
    case (Some n)
    then have "(q, n) \<in> set (tree w)" by (simp add: fs_get_def map_of_SomeD)
    with q have "(last q, n) \<in> set entries"
      unfolding entries stale_entry_def by (force simp: image_iff)
    with gone that have "fs_get (tree w') (join d (last q)) = None" by (auto simp: stale_entry_def)
    with q show ?thesis by (auto simp: join_def stale_entry_def)
  qed
  with o show ?thesis by blast
qed

text \<open>
  C36: \<open>remove_stale_atomic_writes\<close> removes nothing but files with the name of a temporary file
  directly in the directory, also when it fails halfway, and when it succeeds none is left.
\<close>

theorem stale_writes_removed:
  assumes run: "remove_stale_atomic_writes d w = (r, w')" and d: "real_path (tree w) d" "dir_at (tree w) d"
  shows "only_stale_gone d (tree w) (tree w')
    \<and> (r = Inr () \<longrightarrow> (\<forall>q. stale_entry d q \<longrightarrow> fs_get (tree w') q = None))"
proof -
  have c: "canonicalize (tree w) d = Inr d" using d(1) by (rule canonicalize_real)
  obtain s w1 where st: "syscall (stat_op d) w = (s, w1)" by (metis prod.exhaust)
  have t1: "tree w1 = tree w" by (rule reads_tree [OF _ st]) simp
  have found: "s \<noteq> Inl NotFound"
  proof
    assume "s = Inl NotFound"
    with st have "stat_op d (tree w) = Inl NotFound"
      by (auto simp: syscall_def split: option.splits sum.splits)
    with c d(2) show False by (auto simp: stat_op_def lstat_op_def dir_at_def split: if_splits)
  qed
  have rest: "(case s of Inl e \<Rightarrow> (Inl PipelineIo, w1)
      | Inr m \<Rightarrow> io_bind (pipeline_call (read_dir_op d)) (remove_stale_entries d) w1) = (r, w')"
    using run st found
    by (auto simp: remove_stale_atomic_writes_def io_match_def split: sum.splits io_error.splits)
  show ?thesis
  proof (cases s)
    case (Inl e)
    with rest t1 show ?thesis by auto
  next
    case (Inr m)
    with rest have "io_bind (pipeline_call (read_dir_op d)) (remove_stale_entries d) w1 = (r, w')" by simp
    from scanned_and_removed [OF this] t1 c show ?thesis by simp
  qed
qed

subsection \<open>Publishing a directory\<close>

lemma rename_subtree:
  assumes "rename_op src dst ns = Inr (u, ns')" and "src \<noteq> dst"
  shows "fs_get ns' (dst @ rel) = fs_get ns (src @ rel)" and "fs_get ns' (src @ rel) = None"
    and "\<not> prefix src q \<Longrightarrow> \<not> prefix dst q \<Longrightarrow> fs_get ns' q = fs_get ns q"
proof -
  have m: "ns' = fs_move src dst ns" and n: "\<not> prefix src dst" "\<not> prefix dst src"
    using assms by (auto simp: rename_op_def split: if_splits option.splits node.splits)
  show "fs_get ns' (dst @ rel) = fs_get ns (src @ rel)" using n by (simp add: m fs_get_move)
  have "\<not> prefix dst (src @ rel)" using n by (auto dest: prefix_same_cases [of _ _ src])
  then show "fs_get ns' (src @ rel) = None" using n by (simp add: m fs_get_move)
  show "\<not> prefix src q \<Longrightarrow> \<not> prefix dst q \<Longrightarrow> fs_get ns' q = fs_get ns q"
    using n by (simp add: m fs_get_move)
qed

lemma remove_tree_frame:
  assumes "remove_dir_all_op p ns = Inr (u, ns')" and "\<not> prefix p q"
  shows "fs_get ns' q = fs_get ns q"
proof -
  have "map_of (filter (\<lambda>(r, _). \<not> prefix p r) ns) q = map_of ns q"
    using assms(2) by (induction ns) auto
  with assms(1) show ?thesis by (auto simp: remove_dir_all_op_def fs_get_def split: if_splits)
qed

text \<open>
  C34: publishing a staging directory is all or nothing: on success the whole staged tree is at
  the destination and nothing is left at the staging path; on failure nothing outside the staging
  directory has changed, whichever calls fail, the clean-up included.
\<close>

theorem publish_all_or_nothing:
  assumes "publish d w = (r, w')" and "ad_staging d \<noteq> ad_destination d"
  shows "case r of
      Inr q \<Rightarrow> q = ad_destination d
        \<and> (\<forall>rel. fs_get (tree w') (ad_destination d @ rel) = fs_get (tree w) (ad_staging d @ rel)
            \<and> fs_get (tree w') (ad_staging d @ rel) = None)
        \<and> (\<forall>q. \<not> prefix (ad_staging d) q \<longrightarrow> \<not> prefix (ad_destination d) q \<longrightarrow>
            fs_get (tree w') q = fs_get (tree w) q)
    | Inl _ \<Rightarrow> \<forall>q. \<not> prefix (ad_staging d) q \<longrightarrow> fs_get (tree w') q = fs_get (tree w) q"
proof -
  obtain s w1 where rn: "pipeline_call (rename_op (ad_staging d) (ad_destination d)) w = (s, w1)"
    by (metis prod.exhaust)
  show ?thesis
  proof (cases s)
    case (Inr u)
    with rn have "rename_op (ad_staging d) (ad_destination d) (tree w) = Inr (u, tree w1)"
      by (auto elim: pipeline_call_cases)
    note moved = rename_subtree [OF this assms(2)]
    from assms(1) rn Inr have "r = Inr (ad_destination d)" "w' = w1"
      by (auto simp: publish_def or_drop_def io_match_def io_bind_def)
    with moved show ?thesis by simp
  next
    case (Inl e)
    with rn have t1: "tree w1 = tree w" by (auto elim: pipeline_call_cases)
    from assms(1) rn Inl obtain v where rm: "syscall (remove_dir_all_op (ad_staging d)) w1 = (v, w')"
      and r: "r = Inl e"
      by (auto simp: publish_def or_drop_def io_match_def io_bind_def atomic_directory_drop_def
          split: prod.splits)
    have "fs_get (tree w') q = fs_get (tree w1) q" if "\<not> prefix (ad_staging d) q" for q
      using rm by (cases rule: syscall_cases) (auto dest: remove_tree_frame [OF _ that])
    with t1 r show ?thesis by simp
  qed
qed

subsection \<open>Examples\<close>

definition artifact_world :: world where
  "artifact_world =
     \<lparr>tree = [([''out''], Directory), ([''out'', ''a.json''], Regular [1, 2]), ([''link''], Symlink [''out'']),
              ([''out'', ''.livefire-rag-atomic-1-0-x.partial''], Regular [3]),
              ([''out'', ''staged''], Directory), ([''out'', ''staged'', ''child''], Directory),
              ([''out'', ''staged'', ''notes''], Regular [4])],
      staging_sequence = 0, process_id = 7, faults = []\<rparr>"

definition artifact_externals :: externals where
  "artifact_externals =
     \<lparr>sha256_hex = (\<lambda>b. replicate (length b) (CHR ''0'')), jcs_bytes = (\<lambda>_. None), json_from_str = (\<lambda>_. None)\<rparr>"

definition artifact_entry :: object_entry where
  "artifact_entry =
     \<lparr>oe_path = SafeRelativePath ''a.json'', oe_rows = 1, oe_bytes = 2, oe_sha256 = Digest ''00'',
      oe_logical_order_sha256 = Digest []\<rparr>"

theorem validated_object_contained_witness:
  "fst (validate_object_file artifact_externals [''link''] artifact_entry artifact_world) = Inr [''out'', ''a.json'']
   \<and> canonicalize (tree artifact_world) [''link''] = Inr [''out'']
   \<and> (\<exists>b. fs_get (tree artifact_world) [''out'', ''a.json''] = Some (Regular b) \<and> length b = 2)"
proof -
  have v: "fst (validate_object_file artifact_externals [''link''] artifact_entry artifact_world) =
      Inr [''out'', ''a.json'']" by code_simp
  have c: "canonicalize (tree artifact_world) [''link''] = Inr [''out'']" by code_simp
  obtain w' where "validate_object_file artifact_externals [''link''] artifact_entry artifact_world =
      (Inr [''out'', ''a.json''], w')" using v by (metis prod.collapse)
  from validated_object_contained [OF this] v c show ?thesis by (auto simp: artifact_entry_def)
qed

theorem resolved_output_contained_witness:
  "fst (resolve_output_artifact [''link''] (SafeRelativePath ''b/c'') artifact_world) = Inr [''out'', ''b'', ''c'']
   \<and> (case canonicalize (tree artifact_world) [''out'', ''b'', ''c''] of
        Inl _ \<Rightarrow> True | Inr q \<Rightarrow> q = [''out'', ''b'', ''c''])"
proof -
  have v: "fst (resolve_output_artifact [''link''] (SafeRelativePath ''b/c'') artifact_world) =
      Inr [''out'', ''b'', ''c'']" by code_simp
  then obtain w' where "resolve_output_artifact [''link''] (SafeRelativePath ''b/c'') artifact_world =
      (Inr [''out'', ''b'', ''c''], w')" by (metis prod.collapse)
  from resolved_output_contained [OF this] v show ?thesis by auto
qed

theorem atomic_write_all_or_nothing_witness:
  "(case fst (atomic_write 0 ''x'' [''out'', ''a.json''] [9] artifact_world) of
      Inr _ \<Rightarrow> fs_get (tree (snd (atomic_write 0 ''x'' [''out'', ''a.json''] [9] artifact_world)))
        [''out'', ''a.json''] = Some (Regular [9])
    | Inl _ \<Rightarrow> False)
   \<and> fs_get (tree (snd (atomic_write 0 ''x'' [''out'', ''a.json''] [9] artifact_world)))
        [''out'', ''staged'', ''notes''] = Some (Regular [4])"
proof -
  have v: "is_ok (fst (atomic_write 0 ''x'' [''out'', ''a.json''] [9] artifact_world))" by code_simp
  have n: "\<not> stale_name (last [''out'', ''a.json''])" by code_simp
  have q: "\<not> prefix (join (butlast [''out'', ''a.json'']) (temporary_name (process_id artifact_world) 0 ''x''))
      [''out'', ''staged'', ''notes'']" by code_simp
  have g: "fs_get (tree artifact_world) [''out'', ''staged'', ''notes''] = Some (Regular [4])" by code_simp
  obtain r w' where run: "atomic_write 0 ''x'' [''out'', ''a.json''] [9] artifact_world = (r, w')"
    by (metis prod.exhaust)
  from atomic_write_all_or_nothing [OF run n refl] v q g show ?thesis
    by (auto simp: run is_ok_iff dest!: spec [of _ "[''out'', ''staged'', ''notes'']"])
qed

theorem stale_writes_removed_witness:
  "fst (remove_stale_atomic_writes [''out''] artifact_world) = Inr ()
   \<and> fs_get (tree (snd (remove_stale_atomic_writes [''out''] artifact_world)))
        [''out'', ''.livefire-rag-atomic-1-0-x.partial''] = None
   \<and> fs_get (tree (snd (remove_stale_atomic_writes [''out''] artifact_world))) [''out'', ''a.json''] =
       Some (Regular [1, 2])"
proof -
  have v: "fst (remove_stale_atomic_writes [''out''] artifact_world) = Inr ()" by code_simp
  have d: "dir_at (tree artifact_world) [''out'']" "real_path (tree artifact_world) [''out'']"
    by (simp_all add: artifact_world_def dir_at_def real_path_def dirs_to_def fs_get_def)
  have s: "stale_entry [''out''] [''out'', ''.livefire-rag-atomic-1-0-x.partial'']"
    "\<not> stale_entry [''out''] [''out'', ''a.json'']" by code_simp+
  have g: "fs_get (tree artifact_world) [''out'', ''a.json''] = Some (Regular [1, 2])" by code_simp
  obtain w' where run: "remove_stale_atomic_writes [''out''] artifact_world = (Inr (), w')"
    using v by (metis prod.collapse)
  from stale_writes_removed [OF run d(2,1)] s g show ?thesis
    by (simp add: run only_stale_gone_def) metis
qed

definition example_directory :: atomic_directory where
  "example_directory = \<lparr>ad_staging = [''out'', ''staged''], ad_destination = [''out'', ''index'']\<rparr>"

theorem publish_all_or_nothing_witness:
  "fst (publish example_directory artifact_world) = Inr [''out'', ''index'']
   \<and> fs_get (tree (snd (publish example_directory artifact_world))) [''out'', ''index'', ''notes''] =
       Some (Regular [4])"
proof -
  have v: "fst (publish example_directory artifact_world) = Inr [''out'', ''index'']" by code_simp
  have g: "fs_get (tree artifact_world) ([''out'', ''staged''] @ [''notes'']) = Some (Regular [4])" by code_simp
  have ne: "ad_staging example_directory \<noteq> ad_destination example_directory"
    by (simp add: example_directory_def)
  obtain w' where run: "publish example_directory artifact_world = (Inr [''out'', ''index''], w')"
    using v by (metis prod.collapse)
  have d: "ad_staging example_directory = [''out'', ''staged'']" "ad_destination example_directory = [''out'', ''index'']"
    by (simp_all add: example_directory_def)
  from publish_all_or_nothing [OF run ne] g show ?thesis
    by (auto simp: run d dest!: spec [of _ "[''notes'']"])
qed

text \<open>
  \<open>publish_child\<close> is not all or nothing: it renames the child to the destination and then removes
  the staging directory with \<open>remove_dir\<close>, which fails when another entry is left there. The
  caller gets an error although the destination has been published.
\<close>

theorem publish_child_error_after_publishing:
  "fst (publish_child ''child'' example_directory artifact_world) = Inl PipelineIo
   \<and> fs_get (tree artifact_world) (ad_destination example_directory) = None
   \<and> fs_get (tree (snd (publish_child ''child'' example_directory artifact_world)))
        (ad_destination example_directory) = Some Directory"
  by code_simp

end
