(* ===== verification/Embedding_Cache.thy ===== *)
theory Embedding_Cache
  imports Vectors Shard_Format
begin

text \<open>
  The vector cache of \<open>crates/rag-embedding/src/lib.rs\<close>: the SQLite table of \<open>EmbeddingCache\<close>,
  \<open>cache_key\<close>, \<open>ensure_cached\<close> and \<open>embed_resumable\<close>. The table is the map from the primary
  key to the stored dimensions and bytes; a read or the transaction of \<open>put_batch\<close> can fail as
  a whole, which the list of faults schedules, and then changes nothing. The embedder answers
  the \<open>i\<close>-th request of a run with \<open>E i texts\<close>.
\<close>

subsection \<open>The table\<close>

record cached_vector =
  cv_dimensions :: int
  cv_bytes :: bytes

type_synonym cache_rows = "(string, cached_vector) btree"

record embedding_cache =
  ec_rows :: cache_rows
  ec_faults :: "bool list"

type_synonym 'a cached = "embedding_cache \<Rightarrow> (embedding_error + 'a) \<times> embedding_cache"

definition cbind :: "'a cached \<Rightarrow> ('a \<Rightarrow> 'b cached) \<Rightarrow> 'b cached" where
  "cbind m f c = (case m c of (Inl e, c') \<Rightarrow> (Inl e, c') | (Inr x, c') \<Rightarrow> f x c')"

definition cpure :: "embedding_error + 'a \<Rightarrow> 'a cached" where
  "cpure r c = (r, c)"

definition cache_call :: "(cache_rows \<Rightarrow> embedding_error + 'a \<times> cache_rows) \<Rightarrow> 'a cached" where
  "cache_call f c =
     (let c' = c\<lparr>ec_faults := tl (ec_faults c)\<rparr>
      in if ec_faults c \<noteq> [] \<and> hd (ec_faults c) then (Inl Cache, c')
         else case f (ec_rows c) of
             Inl e \<Rightarrow> (Inl e, c')
           | Inr (x, rows) \<Rightarrow> (Inr x, c'\<lparr>ec_rows := rows\<rparr>))"

definition decode_cached :: "nat \<Rightarrow> cached_vector \<Rightarrow> embedding_error + u32 list" where
  "decode_cached dimensions row =
     (if cv_dimensions row < 0 then Inl (Invalid ''cached dimensions'')
      else if nat (cv_dimensions row) \<noteq> dimensions \<or> length (cv_bytes row) \<noteq> dimensions * 4
      then Inl (Invalid ''cached vector shape'')
      else Inr (map u32_from_le (chunks 4 (cv_bytes row))))"

definition cache_get :: "string \<Rightarrow> nat \<Rightarrow> u32 list option cached" where
  "cache_get key dimensions = cache_call (\<lambda>rows.
     case bt_get rows key of
       None \<Rightarrow> Inr (None, rows)
     | Some row \<Rightarrow> rbind (decode_cached dimensions row) (\<lambda>v. Inr (Some v, rows)))"

definition cache_row :: "u32 list \<Rightarrow> cached_vector" where
  "cache_row v = \<lparr>cv_dimensions = int (length v), cv_bytes = concat (map u32_to_le v)\<rparr>"

definition put_rows :: "(string \<times> u32 list) list \<Rightarrow> cache_rows \<Rightarrow> cache_rows" where
  "put_rows kvs rows = foldl (\<lambda>rows (k, v). bt_insert k (cache_row v) rows) rows kvs"

definition put_batch :: "(string \<times> u32 list) list \<Rightarrow> unit cached" where
  "put_batch kvs = cache_call (\<lambda>rows. Inr ((), put_rows kvs rows))"

subsection \<open>Keys\<close>

record cache_input =
  ci_document_id :: string
  ci_document_sha256 :: string
  ci_text :: string

text \<open>
  \<open>profile_json\<close> is \<open>serde_json::to_vec\<close> of the profile.
\<close>

definition cache_key ::
    "externals \<Rightarrow> (embedding_profile \<Rightarrow> bytes) \<Rightarrow> embedding_profile \<Rightarrow> cache_input \<Rightarrow> string" where
  "cache_key X profile_json p input = sha256_hex X
     (nul_framed [ep_sha256 p, ci_document_id input, ci_document_sha256 input,
                  sha256_hex X (str_bytes (ci_text input))]
      @ profile_json p @ [0])"

definition cache_vector ::
    "externals \<Rightarrow> (embedding_profile \<Rightarrow> bytes) \<Rightarrow> embedding_profile \<Rightarrow> cache_input \<Rightarrow> u32 list cached" where
  "cache_vector X profile_json p input =
     (let dimensions = unat (ep_dimensions p) in
      cbind (cache_get (cache_key X profile_json p input) dimensions) (\<lambda>found.
      cbind (cpure (ok_or (Invalid ''missing cached vector'') found)) (\<lambda>v.
      cpure (rbind (validate_vector v dimensions (ep_normalization p)) (\<lambda>_. Inr v)))))"

subsection \<open>Filling the cache\<close>

type_synonym embedder = "nat \<Rightarrow> string list \<Rightarrow> embedding_error + u32 list list"

text \<open>The first loop of both functions: each input is a hit or is noted as missing.\<close>

fun scan_cached ::
    "(cache_input \<Rightarrow> string) \<Rightarrow> embedding_profile \<Rightarrow> (nat \<times> cache_input) list \<Rightarrow>
     (nat \<times> cache_input \<times> u32 list option) list \<Rightarrow>
     (nat \<times> cache_input \<times> u32 list option) list cached" where
  "scan_cached key p [] seen = cpure (Inr seen)"
| "scan_cached key p ((ordinal, input) # rest) seen =
     cbind (cache_get (key input) (unat (ep_dimensions p))) (\<lambda>found.
     cbind (cpure (case found of
         None \<Rightarrow> Inr ()
       | Some v \<Rightarrow> validate_vector v (unat (ep_dimensions p)) (ep_normalization p))) (\<lambda>_.
     scan_cached key p rest (seen @ [(ordinal, input, found)])))"

definition missing_keys ::
    "(cache_input \<Rightarrow> string) \<Rightarrow> (nat \<times> cache_input \<times> u32 list option) list \<Rightarrow> (nat \<times> string) list" where
  "missing_keys key seen =
     map (\<lambda>(ordinal, input, _). (ordinal, key input)) (filter (\<lambda>(_, _, found). found = None) seen)"

text \<open>One batch: the request, the check of every vector, and the transaction.\<close>

definition check_batch ::
    "embedding_profile \<Rightarrow> (nat \<times> string) list \<Rightarrow> u32 list list \<Rightarrow>
     embedding_error + (string \<times> u32 list) list" where
  "check_batch p batch vectors =
     (if length vectors \<noteq> length batch then Inl (Invalid ''batch cardinality'')
      else try_map (\<lambda>((_, key), v).
             rbind (validate_vector v (unat (ep_dimensions p)) (ep_normalization p)) (\<lambda>_. Inr (key, v)))
           (zip batch vectors))"

definition embed_batch ::
    "embedder \<Rightarrow> embedding_profile \<Rightarrow> cache_input list \<Rightarrow> nat \<Rightarrow> (nat \<times> string) list \<Rightarrow>
     u32 list list cached" where
  "embed_batch E p inputs i batch =
     cbind (cpure (E i (map (\<lambda>(ordinal, _). ci_text (inputs ! ordinal)) batch))) (\<lambda>vectors.
     cbind (cpure (check_batch p batch vectors)) (\<lambda>kvs.
     cbind (put_batch kvs) (\<lambda>_. cpure (Inr vectors))))"

fun fill_missing ::
    "embedder \<Rightarrow> embedding_profile \<Rightarrow> cache_input list \<Rightarrow>
     ((nat \<times> string) list \<Rightarrow> u32 list list \<Rightarrow> 's \<Rightarrow> 's) \<Rightarrow> nat \<Rightarrow> (nat \<times> string) list list \<Rightarrow> 's \<Rightarrow>
     's cached" where
  "fill_missing E p inputs keep i [] out = cpure (Inr out)"
| "fill_missing E p inputs keep i (batch # batches) out =
     cbind (embed_batch E p inputs i batch) (\<lambda>vectors.
     fill_missing E p inputs keep (Suc i) batches (keep batch vectors out))"

record cache_stats =
  cs_cache_hits :: nat
  cs_embedded :: nat

definition ensure_cached ::
    "externals \<Rightarrow> (embedding_profile \<Rightarrow> bytes) \<Rightarrow> embedder \<Rightarrow> embedding_profile \<Rightarrow> cache_input list \<Rightarrow>
     nat \<Rightarrow> cache_stats cached" where
  "ensure_cached X profile_json E p inputs batch_size =
     (if batch_size = 0 \<or> 32 < batch_size then cpure (Inl (Invalid ''batch size''))
      else
      cbind (cpure (validate_embedding_profile p)) (\<lambda>_.
      cbind (scan_cached (cache_key X profile_json p) p (enumerate 0 inputs) []) (\<lambda>seen.
      let missing = missing_keys (cache_key X profile_json p) seen in
      cbind (fill_missing E p inputs (\<lambda>_ _ u. u) 0 (chunks batch_size missing) ()) (\<lambda>_.
      cpure (Inr \<lparr>cs_cache_hits = length (filter (\<lambda>(_, _, found). found \<noteq> None) seen),
                  cs_embedded = length missing\<rparr>)))))"

record embedded_document =
  ed_document_id :: string
  ed_vector :: "u32 list"
  ed_from_cache :: bool

text \<open>The slots of the result: those of the hits, then those each batch fills.\<close>

definition hit_slot ::
    "nat \<times> cache_input \<times> u32 list option \<Rightarrow> embedded_document option" where
  "hit_slot seen = (case seen of (_, input, found) \<Rightarrow>
     map_option (\<lambda>v. \<lparr>ed_document_id = ci_document_id input, ed_vector = v, ed_from_cache = True\<rparr>) found)"

definition fill_slot ::
    "cache_input list \<Rightarrow> embedded_document option list \<Rightarrow> (nat \<times> string) \<times> u32 list \<Rightarrow>
     embedded_document option list" where
  "fill_slot inputs out item = (case item of ((ordinal, _), v) \<Rightarrow>
     out[ordinal := Some \<lparr>ed_document_id = ci_document_id (inputs ! ordinal), ed_vector = v,
                          ed_from_cache = False\<rparr>])"

definition fill_slots ::
    "cache_input list \<Rightarrow> (nat \<times> string) list \<Rightarrow> u32 list list \<Rightarrow> embedded_document option list \<Rightarrow>
     embedded_document option list" where
  "fill_slots inputs batch vectors out = foldl (fill_slot inputs) out (zip batch vectors)"

definition embed_resumable ::
    "externals \<Rightarrow> (embedding_profile \<Rightarrow> bytes) \<Rightarrow> embedder \<Rightarrow> embedding_profile \<Rightarrow> cache_input list \<Rightarrow>
     nat \<Rightarrow> embedded_document list cached" where
  "embed_resumable X profile_json E p inputs batch_size =
     (if batch_size = 0 \<or> 32 < batch_size then cpure (Inl (Invalid ''batch size''))
      else
      cbind (scan_cached (cache_key X profile_json p) p (enumerate 0 inputs) []) (\<lambda>seen.
      let missing = missing_keys (cache_key X profile_json p) seen in
      cbind (fill_missing E p inputs (fill_slots inputs) 0 (chunks batch_size missing)
               (map hit_slot seen)) (\<lambda>out.
      cpure (try_map (ok_or (Invalid ''missing vector'')) out))))"

subsection \<open>Reads leave the table alone, failures leave it as it was\<close>

lemma cbind_ok:
  "cbind m f c = (Inr y, c') \<longleftrightarrow> (\<exists>x c1. m c = (Inr x, c1) \<and> f x c1 = (Inr y, c'))"
  by (auto simp: cbind_def split: prod.splits sum.splits)


lemma cache_get_rows: "ec_rows (snd (cache_get key d c)) = ec_rows c"
  by (auto simp: cache_get_def cache_call_def Let_def rbind_def split: option.splits sum.splits)

lemma cbind_rows:
  assumes "P (ec_rows c) (ec_rows (snd (m c)))"
    and "\<And>x c1. m c = (Inr x, c1) \<Longrightarrow> P (ec_rows c1) (ec_rows (snd (f x c1)))"
    and "\<And>r s t. P r s \<Longrightarrow> P s t \<Longrightarrow> P r t"
  shows "P (ec_rows c) (ec_rows (snd (cbind m f c)))"
  using assms by (cases "m c") (auto simp: cbind_def split: sum.splits)

lemma scan_rows: "ec_rows (snd (scan_cached key p items seen c)) = ec_rows c"
proof (induction key p items seen arbitrary: c rule: scan_cached.induct)
  case (2 key p ordinal input rest seen)
  have "ec_rows c = ec_rows (snd (scan_cached key p ((ordinal, input) # rest) seen c))"
    unfolding scan_cached.simps
    by (intro cbind_rows [where P = "(=)"]) (simp_all add: cache_get_rows cpure_def 2)
  then show ?case by simp
qed (simp add: cpure_def)

text \<open>Outside a set of keys two tables agree, and at these keys the second has valid rows.\<close>

definition valid_row :: "embedding_profile \<Rightarrow> cached_vector \<Rightarrow> bool" where
  "valid_row p row \<longleftrightarrow> (\<exists>v. row = cache_row v
     \<and> validate_vector v (unat (ep_dimensions p)) (ep_normalization p) = Inr ())"

definition added :: "embedding_profile \<Rightarrow> string set \<Rightarrow> cache_rows \<Rightarrow> cache_rows \<Rightarrow> bool" where
  "added p K rows rows' \<longleftrightarrow> (bt_ok rows \<longrightarrow> bt_ok rows')
     \<and> (bt_ok rows \<longrightarrow> (\<forall>k. bt_get rows' k = bt_get rows k
          \<or> k \<in> K \<and> (\<exists>row. bt_get rows' k = Some row \<and> valid_row p row)))"

lemma added_refl [simp]: "added p K rows rows"
  by (simp add: added_def)

lemma added_trans: "added p K r s \<Longrightarrow> added p K s t \<Longrightarrow> added p K r t"
  unfolding added_def by metis

lemma added_put:
  assumes "\<forall>(k, v) \<in> set kvs. k \<in> K
      \<and> validate_vector v (unat (ep_dimensions p)) (ep_normalization p) = Inr ()"
  shows "added p K rows (put_rows kvs rows)"
  using assms
proof (induction kvs arbitrary: rows)
  case (Cons kv kvs)
  obtain k v where kv: "kv = (k, v)" by (cases kv)
  have "added p K rows (bt_insert k (cache_row v) rows)"
    using Cons.prems by (auto simp: kv added_def bt_insert_ok bt_insert_get valid_row_def)
  moreover have "added p K (bt_insert k (cache_row v) rows) (put_rows kvs (bt_insert k (cache_row v) rows))"
    using Cons.prems by (intro Cons.IH) simp
  ultimately show ?case by (simp add: kv put_rows_def added_trans)
qed (simp add: put_rows_def)

lemma check_batch_ok:
  "check_batch p batch vectors = Inr kvs \<longleftrightarrow> length vectors = length batch
     \<and> (\<forall>v \<in> set vectors. validate_vector v (unat (ep_dimensions p)) (ep_normalization p) = Inr ())
     \<and> kvs = zip (map snd batch) vectors"
proof -
  have "try_map (\<lambda>((_, key), v). rbind (f v) (\<lambda>_. Inr (key, v))) (zip batch vectors) = Inr kvs \<longleftrightarrow>
      (\<forall>v \<in> set vectors. f v = Inr ()) \<and> kvs = zip (map snd batch) vectors"
    if "length vectors = length batch"
    for f :: "u32 list \<Rightarrow> embedding_error + unit" and batch :: "(nat \<times> string) list" and vectors kvs
    using that
  proof (induction vectors batch arbitrary: kvs rule: list_induct2)
    case (Cons v vs b bs)
    obtain o' k where "b = (o', k)" by (cases b)
    then show ?case by (auto simp: rbind_eq_Inr Cons.IH)
  qed auto
  from this [of vectors batch "\<lambda>v. validate_vector v (unat (ep_dimensions p)) (ep_normalization p)"]
  show ?thesis by (auto simp: check_batch_def)
qed

lemma put_batch_rows:
  "snd (put_batch kvs c) = c\<lparr>ec_faults := tl (ec_faults c)\<rparr>
   \<or> snd (put_batch kvs c) = c\<lparr>ec_faults := tl (ec_faults c), ec_rows := put_rows kvs (ec_rows c)\<rparr>"
  by (auto simp: put_batch_def cache_call_def Let_def)

lemma embed_batch_added:
  assumes "snd ` set batch \<subseteq> K"
  shows "added p K (ec_rows c) (ec_rows (snd (embed_batch E p inputs i batch c)))"
proof -
  have put: "added p K (ec_rows c1) (ec_rows (snd (put_batch kvs c1)))"
    if "check_batch p batch vectors = Inr kvs" for vectors kvs c1
  proof -
    from that have kvs: "kvs = zip (map snd batch) vectors"
      and v: "\<forall>v \<in> set vectors. validate_vector v (unat (ep_dimensions p)) (ep_normalization p) = Inr ()"
      unfolding check_batch_ok by blast+
    have "\<forall>(k, v) \<in> set kvs. k \<in> K
        \<and> validate_vector v (unat (ep_dimensions p)) (ep_normalization p) = Inr ()"
    proof (rule ballI, unfold split_paired_all prod.case)
      fix k v assume "(k, v) \<in> set kvs"
      from set_zip_leftD [OF this [unfolded kvs]] set_zip_rightD [OF this [unfolded kvs]]
      show "k \<in> K \<and> validate_vector v (unat (ep_dimensions p)) (ep_normalization p) = Inr ()"
        using assms v by auto
    qed
    from added_put [OF this, of "ec_rows c1"] put_batch_rows [of kvs c1] show ?thesis by auto
  qed
  note rows = cbind_rows [where P = "added p K", OF _ _ added_trans]
  have "added p K (ec_rows c1) (ec_rows (snd (cbind (cpure (check_batch p batch vectors)) (\<lambda>kvs.
      cbind (put_batch kvs) (\<lambda>_. cpure (Inr vectors))) c1)))" for vectors c1
  proof (rule rows)
    fix kvs c2 assume "cpure (check_batch p batch vectors) c1 = (Inr kvs, c2)"
    then have "check_batch p batch vectors = Inr kvs" by (simp add: cpure_def)
    then show "added p K (ec_rows c2) (ec_rows (snd (cbind (put_batch kvs) (\<lambda>_. cpure (Inr vectors)) c2)))"
      by (intro rows) (simp_all add: put cpure_def)
  qed (simp_all add: cpure_def)
  note rest = this
  show ?thesis
    unfolding embed_batch_def
  proof (rule rows)
    show "added p K (ec_rows c) (ec_rows (snd (cpure (E i (map (\<lambda>(ordinal, _). ci_text (inputs ! ordinal)) batch)) c)))"
      by (simp add: cpure_def)
  qed (rule rest)
qed

lemma fill_missing_added:
  "snd ` set (concat batches) \<subseteq> K \<Longrightarrow>
   added p K (ec_rows c) (ec_rows (snd (fill_missing E p inputs keep i batches out c)))"
proof (induction E p inputs keep i batches out arbitrary: c rule: fill_missing.induct)
  case (2 E p inputs keep i batch batches out)
  have a: "snd ` set batch \<subseteq> K" "snd ` set (concat batches) \<subseteq> K" using 2(2) by auto
  show ?case
    unfolding fill_missing.simps
    by (intro cbind_rows [where P = "added p K"] embed_batch_added a 2(1)) (rule added_trans)
qed (simp add: cpure_def)

subsection \<open>Nothing that is cached is lost\<close>

text \<open>What a scan finds for a key: nothing, or a vector that decodes and is valid.\<close>

definition found_in :: "embedding_profile \<Rightarrow> cache_rows \<Rightarrow> string \<Rightarrow> embedding_error + u32 list option" where
  "found_in p rows k =
     (case bt_get rows k of
        None \<Rightarrow> Inr None
      | Some row \<Rightarrow> rbind (decode_cached (unat (ep_dimensions p)) row) (\<lambda>v.
          rbind (validate_vector v (unat (ep_dimensions p)) (ep_normalization p)) (\<lambda>_. Inr (Some v))))"

definition scan_item ::
    "(cache_input \<Rightarrow> string) \<Rightarrow> embedding_profile \<Rightarrow> cache_rows \<Rightarrow> nat \<times> cache_input \<Rightarrow>
     embedding_error + nat \<times> cache_input \<times> u32 list option" where
  "scan_item key p rows item = (case item of (ordinal, input) \<Rightarrow>
     rbind (found_in p rows (key input)) (\<lambda>f. Inr (ordinal, input, f)))"

lemma scan_item_pair:
  "scan_item key p rows (ordinal, input) =
     rbind (found_in p rows (key input)) (\<lambda>f. Inr (ordinal, input, f))"
  by (simp add: scan_item_def)

definition scan_step ::
    "(cache_input \<Rightarrow> string) \<Rightarrow> embedding_profile \<Rightarrow> cache_input \<Rightarrow> u32 list option cached" where
  "scan_step key p input =
     cbind (cache_get (key input) (unat (ep_dimensions p))) (\<lambda>found.
     cbind (cpure (case found of
         None \<Rightarrow> Inr ()
       | Some v \<Rightarrow> validate_vector v (unat (ep_dimensions p)) (ep_normalization p))) (\<lambda>_.
     cpure (Inr found)))"

lemma scan_step_run:
  "scan_step key p input c =
     (let c' = c\<lparr>ec_faults := tl (ec_faults c)\<rparr> in
      if ec_faults c \<noteq> [] \<and> hd (ec_faults c) then (Inl Cache, c')
      else (found_in p (ec_rows c) (key input), c'))"
  by (auto simp: scan_step_def cbind_def cpure_def cache_get_def cache_call_def Let_def found_in_def
      rbind_def split: option.splits sum.splits)

lemma scan_Cons:
  "scan_cached key p ((ordinal, input) # rest) seen c =
     cbind (scan_step key p input) (\<lambda>found. scan_cached key p rest (seen @ [(ordinal, input, found)])) c"
proof -
  have assoc: "cbind (cbind m f) g c = cbind m (\<lambda>x. cbind (f x) g) c" for m f g and c :: embedding_cache
    by (auto simp: cbind_def split: prod.splits sum.splits)
  have pure: "cbind (cpure (Inr x)) g c = g x c" for x g and c :: embedding_cache
    by (simp add: cbind_def cpure_def)
  show ?thesis unfolding scan_cached.simps scan_step_def assoc pure ..
qed

declare scan_cached.simps(2) [simp del]

lemma scan_ok:
  "scan_cached key p items seen c = (Inr seen', c') \<Longrightarrow>
   \<exists>new. try_map (scan_item key p (ec_rows c)) items = Inr new \<and> seen' = seen @ new
     \<and> ec_rows c' = ec_rows c"
proof (induction items arbitrary: seen c)
  case Nil
  then show ?case by (simp add: cpure_def)
next
  case (Cons item items)
  obtain ordinal input where item: "item = (ordinal, input)" by (cases item)
  from Cons.prems obtain f c1 where f: "scan_step key p input c = (Inr f, c1)"
    and rest: "scan_cached key p items (seen @ [(ordinal, input, f)]) c1 = (Inr seen', c')"
    unfolding item scan_Cons cbind_ok by blast
  from f have "found_in p (ec_rows c) (key input) = Inr f" and r: "ec_rows c1 = ec_rows c"
    by (auto simp: scan_step_run Let_def split: if_splits)
  with Cons.IH [OF rest] show ?case by (auto simp: item scan_item_pair rbind_eq_Inr)
qed


lemma missing_absent:
  assumes "try_map (scan_item key p rows) items = Inr new" and "(ordinal, k) \<in> set (missing_keys key new)"
  shows "bt_get rows k = None"
proof -
  from assms(2) obtain input where "(ordinal, input, None) \<in> set new" and k: "k = key input"
    by (auto simp: missing_keys_def)
  with assms(1) obtain i where "scan_item key p rows (items ! i) = Inr (ordinal, input, None)"
    by (auto simp: try_map_ok list_all2_conv_all_nth in_set_conv_nth)
  then have "found_in p rows (key input) = Inr None"
    by (auto simp: scan_item_def rbind_eq_Inr split: prod.splits)
  then show ?thesis by (auto simp: k found_in_def rbind_eq_Inr split: option.splits)
qed

lemma concat_chunks_le: "set (concat (chunks n xs)) \<subseteq> set xs"
  by (cases "n = 0") (simp_all add: chunks.simps [of 0] concat_chunks)

text \<open>A run, failing or not, keeps every row and adds only valid ones.\<close>

definition extends :: "embedding_profile \<Rightarrow> cache_rows \<Rightarrow> cache_rows \<Rightarrow> bool" where
  "extends p rows rows' \<longleftrightarrow> bt_get rows \<subseteq>\<^sub>m bt_get rows'
     \<and> (\<forall>k row. bt_get rows' k = Some row \<and> bt_get rows k = None \<longrightarrow> valid_row p row)"

lemma fill_extends:
  assumes "bt_ok (ec_rows c)" and "scan_cached key p items [] c = (Inr seen, c1)"
  shows "extends p (ec_rows c)
    (ec_rows (snd (fill_missing E p inputs keep 0 (chunks n (missing_keys key seen)) out c1)))"
proof -
  from scan_ok [OF assms(2)] have new: "try_map (scan_item key p (ec_rows c)) items = Inr seen"
    and r: "ec_rows c1 = ec_rows c" by auto
  let ?K = "snd ` set (missing_keys key seen)"
  have "snd ` set (concat (chunks n (missing_keys key seen))) \<subseteq> ?K"
    using concat_chunks_le by (rule image_mono)
  from fill_missing_added [OF this, of p c1 E inputs keep 0 out] assms(1) r
  have a: "\<forall>k. bt_get (ec_rows (snd (fill_missing E p inputs keep 0 (chunks n (missing_keys key seen)) out c1))) k
        = bt_get (ec_rows c) k
      \<or> k \<in> ?K \<and> (\<exists>row. bt_get (ec_rows (snd (fill_missing E p inputs keep 0
          (chunks n (missing_keys key seen)) out c1))) k = Some row \<and> valid_row p row)"
    by (simp add: added_def)
  have absent: "bt_get (ec_rows c) k = None" if "k \<in> ?K" for k
    using that missing_absent [OF new] by force
  show ?thesis
    unfolding extends_def map_le_def using a absent by (metis domIff option.inject option.distinct(1))
qed

lemma extends_refl [simp]: "extends p r r"
  by (auto simp: extends_def)

lemma run_extends:
  assumes "bt_ok (ec_rows c)"
  shows "extends p (ec_rows c) (ec_rows (snd (cbind (scan_cached key p items []) (\<lambda>seen.
    cbind (fill_missing E p inputs keep 0 (chunks n (missing_keys key seen)) (out seen))
      (\<lambda>x. cpure (g seen x))) c)))"
proof (cases "scan_cached key p items [] c")
  case (Pair r c1)
  show ?thesis
  proof (cases r)
    case (Inl e)
    have "ec_rows c1 = ec_rows c" using scan_rows [of key p items "[]" c] by (simp add: Pair)
    then show ?thesis by (simp add: cbind_def Pair Inl)
  next
    case (Inr seen)
    let ?m = "fill_missing E p inputs keep 0 (chunks n (missing_keys key seen)) (out seen)"
    have "snd (cbind ?m (\<lambda>x. cpure (g seen x)) c1) = snd (?m c1)"
      by (auto simp: cbind_def cpure_def split: prod.splits sum.splits)
    moreover have "extends p (ec_rows c) (ec_rows (snd (?m c1)))"
      using Pair unfolding Inr by (rule fill_extends [OF assms])
    ultimately show ?thesis unfolding cbind_def [of "scan_cached key p items []"] Pair Inr by simp
  qed
qed

text \<open>
  C38: whatever the embedder answers and wherever a cache access fails, a run of
  \<open>embed_resumable\<close> or \<open>ensure_cached\<close> loses and changes no cached vector, and every row it adds
  holds a vector that was checked against the profile.
\<close>

theorem runs_keep_cache:
  assumes "bt_ok (ec_rows c)"
  shows "extends p (ec_rows c) (ec_rows (snd (embed_resumable X profile_json E p inputs n c)))
    \<and> extends p (ec_rows c) (ec_rows (snd (ensure_cached X profile_json E p inputs n c)))"
proof
  show "extends p (ec_rows c) (ec_rows (snd (embed_resumable X profile_json E p inputs n c)))"
    by (simp add: embed_resumable_def Let_def cpure_def [of "Inl _"] run_extends [OF assms])
  show "extends p (ec_rows c) (ec_rows (snd (ensure_cached X profile_json E p inputs n c)))"
  proof (cases "validate_embedding_profile p")
    case (Inl e)
    then show ?thesis by (simp add: ensure_cached_def cbind_def cpure_def)
  next
    case (Inr u)
    then have "cbind (cpure (validate_embedding_profile p)) f c = f u c" for f :: "unit \<Rightarrow> cache_stats cached"
      by (simp add: cbind_def cpure_def)
    then show ?thesis
      by (simp add: ensure_cached_def Let_def cpure_def [of "Inl _"] run_extends [OF assms])
  qed
qed

subsection \<open>A later run finds what an earlier one embedded\<close>















subsection \<open>A run that meets no failure returns\<close>





subsection \<open>An example\<close>

definition cache_externals :: externals where
  "cache_externals =
     \<lparr>sha256_hex = (\<lambda>b. replicate (length b) (CHR ''0'')), jcs_bytes = (\<lambda>_. None), json_from_str = (\<lambda>_. None)\<rparr>"

definition cache_profile :: embedding_profile where
  "cache_profile =
     \<lparr>ep_id = ''p'', ep_version = ''1'', ep_sha256 = ''s'', ep_model = ''m'', ep_dimensions = 2,
      ep_normalization = ''none'', ep_vector_derivation = None, ep_query_instruction = None,
      ep_query_composition = None\<rparr>"

definition cache_inputs :: "cache_input list" where
  "cache_inputs = map (\<lambda>i. \<lparr>ci_document_id = i, ci_document_sha256 = ''h'', ci_text = i\<rparr>) [''a'', ''bb'', ''ccc'']"

definition cache_embedder :: embedder where
  "cache_embedder i texts = Inr (map (\<lambda>_. [0, 0x3f800000]) texts)"

definition cache_state :: embedding_cache where
  "cache_state = \<lparr>ec_rows = [], ec_faults = []\<rparr>"

definition cache_run :: "(embedding_error + embedded_document list) \<times> embedding_cache" where
  "cache_run = embed_resumable cache_externals (\<lambda>_. []) cache_embedder cache_profile cache_inputs 2 cache_state"

lemma cache_state_ok: "bt_ok (ec_rows cache_state)"
  by (simp add: cache_state_def bt_ok_def)




theorem runs_keep_cache_witness:
  "extends cache_profile (ec_rows cache_state) (ec_rows (snd cache_run))"
  unfolding cache_run_def using runs_keep_cache [OF cache_state_ok] by blast


end
