(* ===== verification/Index_Text.thy ===== *)
theory Index_Text
  imports Shard_Parts Ordered_Map
begin

text \<open>
  The text side of \<open>crates/rag-index/src/lib.rs\<close>: its errors, the \<open>ascii_camel_lower_v1\<close>
  tokenizer, digests as the index reads them, and the digest of a document order. The lemmas
  give the shape of the tokens and show that tokenising is idempotent.
\<close>

datatype index_error =
    Io | Json | Parquet | Arrow | Sqlite
  | Invalid string
  | Corrupt string
  | Panic

text \<open>\<open>Panic\<close> is not a value of the program: it marks the branches on which the thread panics.\<close>

subsection \<open>Characters\<close>

definition to_ascii_lowercase :: "char \<Rightarrow> char" where
  "to_ascii_lowercase c = (if is_ascii_uppercase c then char_of (of_char c + 32 :: nat) else c)"

subsection \<open>The tokenizer\<close>

definition pushed :: "bool \<Rightarrow> string \<Rightarrow> string" where
  "pushed previous_lower ch =
     (case ch of
        [c] \<Rightarrow>
          if is_ascii_alphanumeric c \<or> c = CHR ''_''
          then (if is_ascii_uppercase c \<and> previous_lower then '' '' else []) @ [to_ascii_lowercase c]
          else '' ''
      | _ \<Rightarrow> '' '')"

fun normalized :: "bool \<Rightarrow> string list \<Rightarrow> string" where
  "normalized previous_lower [] = []"
| "normalized previous_lower (ch # rest) =
     pushed previous_lower ch @ normalized (length ch = 1 \<and> is_ascii_lowercase (hd ch)) rest"

text \<open>\<open>split_whitespace\<close>, on a text whose only white space is the blank.\<close>

definition split_blanks :: "string \<Rightarrow> string list" where
  "split_blanks s = filter (\<lambda>t. t \<noteq> []) (str_split CHR '' '' s)"

definition tokenize :: "string \<Rightarrow> string list" where
  "tokenize text = split_blanks (normalized False (str_chars text))"

definition token_char :: "char \<Rightarrow> bool" where
  "token_char c \<longleftrightarrow> is_ascii_lowercase c \<or> is_ascii_digit c \<or> c = CHR ''_''"

definition token :: "string \<Rightarrow> bool" where
  "token t \<longleftrightarrow> t \<noteq> [] \<and> list_all token_char t"

subsection \<open>Digests\<close>

text \<open>
  \<open>decode_sha256\<close> reads two bytes at a time with \<open>u8::from_str_radix\<close>, which accepts a plus
  sign, and panics when a slice would cut a character.
\<close>

definition radix16_pair :: "char \<Rightarrow> char \<Rightarrow> index_error + u8" where
  "radix16_pair a b =
     (if a = CHR ''+'' \<and> is_ascii_hexdigit b then Inr (word_of_nat (hex_value b))
      else if is_ascii_hexdigit a \<and> is_ascii_hexdigit b
      then Inr (word_of_nat (16 * hex_value a + hex_value b))
      else Inl (Invalid ''sha256''))"

fun radix16_pairs :: "string \<Rightarrow> index_error + bytes" where
  "radix16_pairs (a # b # cs) =
     (if cs \<noteq> [] \<and> is_continuation (hd cs) then Inl Panic
      else rbind (radix16_pair a b) (\<lambda>x. rbind (radix16_pairs cs) (\<lambda>xs. Inr (x # xs))))"
| "radix16_pairs _ = Inr []"

definition decode_sha256 :: "string \<Rightarrow> index_error + bytes" where
  "decode_sha256 value = (if length value \<noteq> 64 then Inl (Invalid ''sha256'') else radix16_pairs value)"

definition document_order_sha256 :: "'a externals_scheme \<Rightarrow> string list \<Rightarrow> string" where
  "document_order_sha256 E ids =
     sha256_hex E (concat (map (\<lambda>i. str_bytes i @ [0]) ids))"

text \<open>\<open>str::parse::<u64>\<close>.\<close>

definition parse_u64 :: "string \<Rightarrow> nat option" where
  "parse_u64 s =
     (let digits = (case s of c # cs \<Rightarrow> if c = CHR ''+'' then cs else s | [] \<Rightarrow> [])
      in if digits = [] \<or> \<not> list_all is_ascii_digit digits \<or> digits_value digits \<ge> 2 ^ 64 then None
         else Some (digits_value digits))"

subsection \<open>Decimal numbers\<close>

lemma parse_nat_digits: "n < 2 ^ 64 \<Longrightarrow> parse_u64 (nat_digits n) = Some n"
proof -
  assume n: "n < 2 ^ 64"
  obtain c cs where c: "nat_digits n = c # cs" using nat_digits_digits by (meson neq_Nil_conv)
  then have "is_ascii_digit c" using nat_digits_digits [of n] by simp
  then have "c \<noteq> CHR ''+''" by (auto simp: is_ascii_digit_def less_eq_char_def)
  then show ?thesis
    using n c nat_digits_digits [of n] nat_digits_value [of n] by (simp add: parse_u64_def)
qed

subsection \<open>Lemmas about tokens\<close>

lemma is_ascii_lowercase_lower: "is_ascii_uppercase c \<Longrightarrow> is_ascii_lowercase (to_ascii_lowercase c)"
  by (simp add: is_ascii_uppercase_def is_ascii_lowercase_def to_ascii_lowercase_def less_eq_char_def)

lemma token_char_lower:
  "is_ascii_alphanumeric c \<or> c = CHR ''_'' \<Longrightarrow> token_char (to_ascii_lowercase c)"
  using is_ascii_lowercase_lower [of c]
  by (auto simp: token_char_def is_ascii_alphanumeric_def to_ascii_lowercase_def)

lemma token_char_facts:
  assumes "token_char c"
  shows "\<not> is_ascii_uppercase c" "is_ascii_alphanumeric c \<or> c = CHR ''_''" "\<not> is_continuation c"
    "c \<noteq> CHR '' ''" "to_ascii_lowercase c = c"
proof -
  have "of_char c < (128 :: nat)"
    using assms
    by (auto simp: token_char_def is_ascii_lowercase_def is_ascii_digit_def less_eq_char_def)
  then have "of_char c div 64 < (2 :: nat)" by (simp add: div_less_iff_less_mult)
  then show "\<not> is_continuation c" by (simp add: is_continuation_def)
  show up: "\<not> is_ascii_uppercase c"
    using assms
    by (auto simp: token_char_def is_ascii_lowercase_def is_ascii_digit_def is_ascii_uppercase_def
        less_eq_char_def)
  then show "to_ascii_lowercase c = c" by (simp add: to_ascii_lowercase_def)
  show "is_ascii_alphanumeric c \<or> c = CHR ''_''"
    using assms by (auto simp: token_char_def is_ascii_alphanumeric_def)
  show "c \<noteq> CHR '' ''"
    using assms by (auto simp: token_char_def is_ascii_lowercase_def is_ascii_digit_def less_eq_char_def)
qed

definition plain :: "string \<Rightarrow> bool" where
  "plain s \<longleftrightarrow> list_all (\<lambda>c. token_char c \<or> c = CHR '' '') s"

lemma normalized_plain: "plain (normalized b chs)"
  by (induction b chs rule: normalized.induct)
    (auto simp: plain_def pushed_def token_char_lower split: list.split)

lemma plain_chars: "plain s \<Longrightarrow> str_chars s = map (\<lambda>c. [c]) s"
proof (induction s)
  case (Cons c s)
  moreover have "\<not> is_continuation (CHR '' '')" by (simp add: is_continuation_def)
  ultimately show ?case
    by (cases s) (auto simp: plain_def dest: token_char_facts(3))
qed simp

lemma normalized_of_plain: "plain s \<Longrightarrow> normalized b (map (\<lambda>c. [c]) s) = s"
proof (induction s arbitrary: b)
  case (Cons c s)
  have "\<not> is_ascii_alphanumeric (CHR '' '')"
    by (simp add: is_ascii_alphanumeric_def is_ascii_lowercase_def is_ascii_uppercase_def
        is_ascii_digit_def less_eq_char_def)
  with Cons token_char_facts [of c] show ?case
    by (cases "c = CHR '' ''") (auto simp: plain_def pushed_def)
qed simp

lemma tokenize_plain: "plain s \<Longrightarrow> tokenize s = split_blanks s"
  by (simp add: tokenize_def plain_chars normalized_of_plain)

lemma split_chars: "t \<in> set (str_split d s) \<Longrightarrow> set t \<subseteq> set s"
proof (induction d s arbitrary: t rule: str_split.induct)
  case (2 d c cs)
  show ?case
  proof (cases "c = d")
    case True
    with 2 show ?thesis by fastforce
  next
    case False
    obtain p ps where p: "str_split d cs = p # ps" using str_split_not_Nil by (meson neq_Nil_conv)
    have "\<And>u. u \<in> set (p # ps) \<Longrightarrow> set u \<subseteq> set cs" using 2(2) [OF False] p by simp
    moreover have "t = c # p \<or> t \<in> set ps" using 2(3) False p by simp
    ultimately show ?thesis by fastforce
  qed
qed simp

lemma tokenize_token: "t \<in> set (tokenize s) \<Longrightarrow> token t"
proof -
  assume "t \<in> set (tokenize s)"
  then have t: "t \<in> set (str_split CHR '' '' (normalized False (str_chars s)))" and ne: "t \<noteq> []"
    by (auto simp: tokenize_def split_blanks_def)
  have "plain (normalized False (str_chars s))" by (rule normalized_plain)
  then have "\<forall>c \<in> set t. token_char c"
    using split_chars [OF t] str_split_no_delim [OF t] by (auto simp: plain_def list_all_iff)
  with ne show ?thesis by (simp add: token_def list_all_iff)
qed

lemma str_split_app: "d \<notin> set p \<Longrightarrow> str_split d (p @ d # s) = p # str_split d s"
  by (induction p) auto

lemma str_split_single: "d \<notin> set p \<Longrightarrow> str_split d p = [p]"
  by (induction p) auto

lemma str_split_join: "ts \<noteq> [] \<Longrightarrow> \<forall>t \<in> set ts. d \<notin> set t \<Longrightarrow> str_split d (str_join d ts) = ts"
  by (induction d ts rule: str_join.induct) (auto simp: str_split_app str_split_single)

lemma plain_join: "\<forall>t \<in> set ts. token t \<Longrightarrow> plain (str_join CHR '' '' ts)"
proof (induction ts)
  case (Cons t ts)
  then show ?case by (cases ts) (auto simp: plain_def token_def list_all_iff)
qed (simp add: plain_def)

lemma tokenize_join:
  assumes "\<forall>t \<in> set ts. token t"
  shows "tokenize (str_join CHR '' '' ts) = ts"
proof (cases "ts = []")
  case True
  then show ?thesis by (simp add: tokenize_def split_blanks_def)
next
  case False
  have "CHR '' '' \<notin> set t" if "t \<in> set ts" for t
    using assms that token_char_facts(4) by (fastforce simp: token_def list_all_iff)
  then have "str_split CHR '' '' (str_join CHR '' '' ts) = ts" by (intro str_split_join False) blast
  with assms show ?thesis
    by (simp add: tokenize_plain plain_join split_blanks_def token_def filter_id_conv)
qed

text \<open>
  Every token of any text is a non-empty word over \<open>[a-z0-9_]\<close>, and tokenising the tokens again,
  joined by blanks, gives the same tokens: query and documents are normalised alike.
\<close>

theorem tokenize_normal_form:
  "list_all token (tokenize text) \<and> tokenize (str_join CHR '' '' (tokenize text)) = tokenize text"
  using tokenize_token tokenize_join by (auto simp: list_all_iff)

lemma tokenize_normal_form_witness:
  "tokenize ''HTTPServer readFile-2'' = [''httpserver'', ''read'', ''file'', ''2''] \<and>
   list_all token (tokenize ''HTTPServer readFile-2'')"
proof -
  have "tokenize ''HTTPServer readFile-2'' = [''httpserver'', ''read'', ''file'', ''2'']"
    by code_simp
  moreover note tokenize_normal_form [of "''HTTPServer readFile-2''"]
  ultimately show ?thesis by blast
qed

lemma decode_sha256_accepts_plus: "decode_sha256 (concat (replicate 32 ''+1'')) = Inr (replicate 32 1)"
  by code_simp

end
