(* ===== verification/F64.thy ===== *)
theory F64
  imports Floats
begin

text \<open>
  IEEE 754 double precision, as far as the search code of \<open>crates/rag-index\<close> computes with it.
  Every finite \<open>f64\<close> is an integer multiple of \<open>2^-1074\<close>; it is represented by that integer, so
  sums are exact before rounding and comparisons are comparisons of integers. Each operation
  rounds the exact result to 53 significant bits, ties to even, and to infinity from \<open>2^1024\<close>.
  The two zeros are one value: the code compares and adds scores, it never divides by one.
\<close>

datatype f64 = Finite int | Infinite bool | Nan

definition half_even :: "nat \<Rightarrow> nat \<Rightarrow> nat" where
  "half_even n d =
     (let q = n div d; r = n mod d
      in if d < 2 * r \<or> 2 * r = d \<and> odd q then q + 1 else q)"

text \<open>The fraction \<open>n / d\<close> rounded to an integer of at most 53 significant bits.\<close>

definition round_ratio :: "nat \<Rightarrow> nat \<Rightarrow> nat" where
  "round_ratio n d = (let u = 2 ^ (bit_len (n div d) - 53) in half_even n (d * u) * u)"

definition d_limit :: nat where
  "d_limit = 2 ^ 2098"

definition d_unit :: nat where
  "d_unit = 2 ^ 1074"

definition d_pack :: "bool \<Rightarrow> nat \<Rightarrow> f64" where
  "d_pack negative m =
     (if d_limit \<le> m then Infinite negative else Finite (if negative then - int m else int m))"

definition d_ratio :: "int \<Rightarrow> nat \<Rightarrow> f64" where
  "d_ratio n d = d_pack (n < 0) (round_ratio (nat \<bar>n\<bar>) d)"

fun d_add :: "f64 \<Rightarrow> f64 \<Rightarrow> f64" where
  "d_add (Finite a) (Finite b) = d_ratio (a + b) 1"
| "d_add (Infinite s) (Infinite t) = (if s = t then Infinite s else Nan)"
| "d_add (Infinite s) (Finite b) = Infinite s"
| "d_add (Finite a) (Infinite t) = Infinite t"
| "d_add _ _ = Nan"

fun d_neg :: "f64 \<Rightarrow> f64" where
  "d_neg (Finite a) = Finite (- a)"
| "d_neg (Infinite s) = Infinite (\<not> s)"
| "d_neg Nan = Nan"

definition d_sub :: "f64 \<Rightarrow> f64 \<Rightarrow> f64" where
  "d_sub a b = d_add a (d_neg b)"

fun d_mul :: "f64 \<Rightarrow> f64 \<Rightarrow> f64" where
  "d_mul (Finite a) (Finite b) = d_ratio (a * b) d_unit"
| "d_mul (Infinite s) (Infinite t) = Infinite (s \<noteq> t)"
| "d_mul (Infinite s) (Finite b) = (if b = 0 then Nan else Infinite (s \<noteq> (b < 0)))"
| "d_mul (Finite a) (Infinite t) = (if a = 0 then Nan else Infinite (t \<noteq> (a < 0)))"
| "d_mul _ _ = Nan"

fun d_div :: "f64 \<Rightarrow> f64 \<Rightarrow> f64" where
  "d_div (Finite a) (Finite b) =
     (if b = 0 then (if a = 0 then Nan else Infinite (a < 0))
      else d_ratio (sgn b * a * int d_unit) (nat \<bar>b\<bar>))"
| "d_div (Infinite s) (Finite b) = Infinite (s \<noteq> (b < 0))"
| "d_div (Finite a) (Infinite t) = Finite 0"
| "d_div _ _ = Nan"

definition d_of_nat :: "nat \<Rightarrow> f64" where
  "d_of_nat n = d_ratio (int n * int d_unit) 1"

text \<open>A decimal literal \<open>n / d\<close> denotes the nearest \<open>f64\<close>.\<close>

definition d_lit :: "nat \<Rightarrow> nat \<Rightarrow> f64" where
  "d_lit n d = d_ratio (int n * int d_unit) d"

fun d_is_finite :: "f64 \<Rightarrow> bool" where
  "d_is_finite (Finite a) = True"
| "d_is_finite _ = False"

fun d_less :: "f64 \<Rightarrow> f64 \<Rightarrow> bool" where
  "d_less (Finite a) (Finite b) = (a < b)"
| "d_less (Infinite s) (Infinite t) = (s \<and> \<not> t)"
| "d_less (Infinite s) (Finite b) = s"
| "d_less (Finite a) (Infinite t) = (\<not> t)"
| "d_less _ _ = False"

definition d_max :: "f64 \<Rightarrow> f64 \<Rightarrow> f64" where
  "d_max a b = (if a = Nan then b else if b = Nan then a else if d_less a b then b else a)"

text \<open>\<open>f64::from\<close> of an \<open>f32\<close>, which is exact.\<close>

definition d_of_f32 :: "u32 \<Rightarrow> f64" where
  "d_of_f32 w =
     (if f32_exponent w = 255
      then (if f32_fraction w = 0 then Infinite (f32_negative w) else Nan)
      else let (m, e) = f32_mag w; n = int (m * 2 ^ nat (e + 1074))
        in Finite (if f32_negative w then - n else n))"

subsection \<open>Rounding\<close>

lemma d_limit_pos: "0 < d_limit"
  by (simp add: d_limit_def)

lemma half_even_exact: "0 < d \<Longrightarrow> d dvd n \<Longrightarrow> half_even n d = n div d"
  by (simp add: half_even_def)

lemma half_even_le: "0 < d \<Longrightarrow> n div d < b \<Longrightarrow> half_even n d \<le> b"
  by (simp add: half_even_def Let_def)

text \<open>Numbers with at most 53 significant bits.\<close>

definition representable :: "nat \<Rightarrow> bool" where
  "representable m \<longleftrightarrow> 2 ^ (bit_len m - 53) dvd m"

lemma representableI:
  assumes "h \<le> 2 ^ 53"
  shows "representable (h * 2 ^ k)"
proof (cases "h = 2 ^ 53")
  case True
  then have m: "h * 2 ^ k = 2 ^ (53 + k)" by (simp add: power_add)
  have "bit_len (2 ^ (53 + k)) = Suc (53 + k)" by (rule bit_len_unique) simp_all
  then have "bit_len (h * 2 ^ k) - 53 \<le> 53 + k" by (simp only: m)
  then show ?thesis unfolding representable_def m by (intro le_imp_power_dvd)
next
  case False
  with assms have "h < 2 ^ 53" by simp
  then have "h * 2 ^ k < 2 ^ (53 + k)" by (simp add: power_add)
  then have "bit_len (h * 2 ^ k) - 53 \<le> k" using bit_len_small [of "h * 2 ^ k" "53 + k"] by simp
  then have "(2::nat) ^ (bit_len (h * 2 ^ k) - 53) dvd 2 ^ k" by (rule le_imp_power_dvd)
  then show ?thesis unfolding representable_def by simp
qed

lemma round_ratio_representable: "0 < d \<Longrightarrow> representable (round_ratio n d)"
proof -
  assume d: "0 < d"
  define k where "k = bit_len (n div d) - 53"
  have "n div d < 2 ^ (53 + k)"
  proof (rule less_le_trans [OF bit_len_upper])
    show "(2::nat) ^ bit_len (n div d) \<le> 2 ^ (53 + k)" by (rule power_increasing) (simp_all add: k_def)
  qed
  then have "n div (d * 2 ^ k) < 2 ^ 53"
    by (simp add: div_mult2_eq power_add less_mult_imp_div_less)
  then have "half_even n (d * 2 ^ k) \<le> 2 ^ 53" using d by (intro half_even_le) simp_all
  then show ?thesis unfolding round_ratio_def Let_def k_def [symmetric] by (rule representableI)
qed

lemma round_representable: "representable m \<Longrightarrow> round_ratio m (Suc 0) = m"
  by (simp add: round_ratio_def representable_def Let_def half_even_exact)

text \<open>The finite numbers the operations produce.\<close>

fun d_ok :: "f64 \<Rightarrow> bool" where
  "d_ok (Finite a) = (representable (nat \<bar>a\<bar>) \<and> nat \<bar>a\<bar> < d_limit)"
| "d_ok _ = True"

lemma d_ratio_ok: "0 < d \<Longrightarrow> d_ok (d_ratio n d)"
  by (simp add: d_ratio_def d_pack_def round_ratio_representable)

lemma d_add_zero: "d_ok a \<Longrightarrow> d_add a (Finite 0) = a"
  by (cases a) (auto simp: d_ratio_def d_pack_def round_representable)

lemma d_zero_add: "d_ok a \<Longrightarrow> d_add (Finite 0) a = a"
  by (cases a) (auto simp: d_ratio_def d_pack_def round_representable)

lemma d_add_ok: "d_ok a \<Longrightarrow> d_ok b \<Longrightarrow> d_ok (d_add a b)"
  by (cases a; cases b) (simp_all add: d_ratio_ok)

lemma d_unit_pos: "0 < d_unit"
  by (simp add: d_unit_def)

lemma d_mul_ok: "d_ok (d_mul a b)"
  by (cases a; cases b) (simp_all add: d_ratio_ok d_unit_pos)

lemma d_div_ok: "d_ok (d_div a b)"
proof (cases a)
  case (Finite x)
  then show ?thesis
  proof (cases b)
    fix y assume "b = Finite y"
    with Finite show ?thesis using d_ratio_ok [of "nat \<bar>y\<bar>"] by (simp add: representable_def d_limit_pos)
  qed (simp_all add: representable_def d_limit_pos)
qed (cases b, simp_all)+

abbreviation d_pos :: "f64 \<Rightarrow> bool" where
  "d_pos a \<equiv> d_less (Finite 0) a"

lemma round_ratio_pos: "0 < n \<Longrightarrow> 0 < round_ratio n 1"
proof -
  assume n: "0 < n"
  define u :: nat where "u = 2 ^ (bit_len n - 53)"
  have "u \<le> n"
  proof (cases "bit_len n \<le> 53")
    case True
    with n show ?thesis by (simp add: u_def)
  next
    case False
    then have "u \<le> 2 ^ (bit_len n - 1)" unfolding u_def by (intro power_increasing) simp_all
    with bit_len_lower [OF n] show ?thesis by simp
  qed
  then have "0 < n div u" using n by (simp add: div_greater_zero_iff u_def)
  then have "0 < half_even n u" by (simp add: half_even_def Let_def)
  then show ?thesis by (simp add: round_ratio_def Let_def u_def)
qed

lemma d_add_pos: "d_pos a \<Longrightarrow> d_pos b \<Longrightarrow> d_pos (d_add a b)"
  using round_ratio_pos [of "nat (x + y)" for x y]
  by (cases a; cases b) (auto simp: d_ratio_def d_pack_def)

subsection \<open>Bounds\<close>

text \<open>Rounding respects representable bounds.\<close>

lemma bit_len_mono: "m \<le> n \<Longrightarrow> bit_len m \<le> bit_len n"
  using bit_len_upper [of n] by (intro bit_len_small) (rule le_less_trans)

lemma representable_dvd: "representable r \<Longrightarrow> k \<le> bit_len r - 53 \<Longrightarrow> 2 ^ k dvd r"
  unfolding representable_def by (rule dvd_trans [OF le_imp_power_dvd])

lemma round_ratio_lower:
  assumes "0 < d" "representable r" "r * d \<le> n"
  shows "r \<le> round_ratio n d"
proof -
  define q k where "q = n div d" and "k = bit_len q - 53"
  have rq: "r \<le> q" unfolding q_def using assms(1,3) by (simp add: less_eq_div_iff_mult_less_eq)
  have "q div 2 ^ k * 2 ^ k \<le> round_ratio n d"
    by (simp add: round_ratio_def Let_def half_even_def q_def k_def div_mult2_eq)
  moreover have "r \<le> q div 2 ^ k * 2 ^ k"
  proof (cases "bit_len r = bit_len q")
    case True
    then have "2 ^ k dvd r" by (intro representable_dvd [OF assms(2)]) (simp add: k_def)
    then obtain r' where "r = 2 ^ k * r'" by (auto simp: dvd_def)
    with rq show ?thesis by (simp add: less_eq_div_iff_mult_less_eq mult.commute)
  next
    case False
    then have lt: "bit_len r < bit_len q" using bit_len_mono [OF rq] by simp
    then have "0 < q" by (cases "q = 0") simp_all
    define j where "j = bit_len q - 1"
    have kj: "k \<le> j" by (simp add: k_def j_def)
    then have p: "(2::nat) ^ j = 2 ^ k * 2 ^ (j - k)" by (simp flip: power_add)
    have "2 ^ j \<le> q" using bit_len_lower [OF \<open>0 < q\<close>] by (simp only: j_def)
    then have "2 ^ k * 2 ^ (j - k) \<le> q" by (simp only: p)
    then have "2 ^ (j - k) \<le> q div 2 ^ k" by (simp add: less_eq_div_iff_mult_less_eq mult.commute)
    then have "2 ^ k * 2 ^ (j - k) \<le> q div 2 ^ k * 2 ^ k" by (simp add: mult.commute)
    moreover have "r < 2 ^ bit_len r" by (rule bit_len_upper)
    moreover have "(2::nat) ^ bit_len r \<le> 2 ^ j" using lt by (intro power_increasing) (simp_all add: j_def)
    ultimately show ?thesis by (simp only: p)
  qed
  ultimately show ?thesis by simp
qed

lemma round_ratio_upper:
  assumes "0 < d" "representable r" "n \<le> r * d"
  shows "round_ratio n d \<le> r"
proof -
  define q k where "q = n div d" and "k = bit_len q - 53"
  have "n div d \<le> r * d div d" using assms(3) by (rule div_le_mono)
  then have "q \<le> r" using assms(1) by (simp add: q_def)
  then have "2 ^ k dvd r"
    using bit_len_mono [of q r] by (intro representable_dvd [OF assms(2)]) (simp add: k_def)
  then obtain r' where r: "r = r' * 2 ^ k" by (metis dvd_div_mult_self)
  have D: "0 < d * 2 ^ k" using assms(1) by simp
  have n: "n \<le> r' * (d * 2 ^ k)" using assms(3) by (simp add: r ac_simps)
  have "half_even n (d * 2 ^ k) \<le> r'"
  proof (cases "n = r' * (d * 2 ^ k)")
    case True
    then have "half_even n (d * 2 ^ k) = n div (d * 2 ^ k)" by (intro half_even_exact D) simp
    with True D show ?thesis by simp
  next
    case False
    with n have "n div (d * 2 ^ k) < r'" using D by (simp add: div_less_iff_less_mult)
    with D show ?thesis by (rule half_even_le)
  qed
  then show ?thesis by (simp add: round_ratio_def Let_def r flip: q_def k_def)
qed

lemma power_representable: "representable (2 ^ k)"
  using representableI [of 1 k] by simp

text \<open>\<open>between a b x\<close>: \<open>x\<close> lies between \<open>2^(a - 1074)\<close> and \<open>2^(b - 1074)\<close>.\<close>

definition between :: "nat \<Rightarrow> nat \<Rightarrow> f64 \<Rightarrow> bool" where
  "between a b x \<longleftrightarrow> (\<exists>v :: nat. x = Finite (int v) \<and> 2 ^ a \<le> v \<and> v \<le> 2 ^ b)"

lemma d_ratio_nat:
  assumes "0 < d" "representable h" "h < d_limit" "n \<le> h * d"
  shows "d_ratio (int n) d = Finite (int (round_ratio n d))"
  using round_ratio_upper [OF assms(1,2,4)] assms(3) by (simp add: d_ratio_def d_pack_def)

lemma between_ratio:
  assumes "0 < d" "2 ^ a * d \<le> n" "n \<le> 2 ^ b * d" "b < 2098"
  shows "between a b (d_ratio (int n) d)"
proof -
  have "(2::nat) ^ b < d_limit" unfolding d_limit_def using assms(4) by (intro power_strict_increasing) simp_all
  from d_ratio_nat [OF assms(1) power_representable this assms(3)] show ?thesis
    using round_ratio_lower [OF assms(1) power_representable assms(2)]
      round_ratio_upper [OF assms(1) power_representable assms(3)] by (simp add: between_def)
qed

lemma between_add:
  assumes "between a b x" "between a' b' y" "b'' < 2098" "b < b''" "b' < b''"
  shows "between (max a a') b'' (d_add x y)"
proof -
  from assms(1,2) obtain v w where x: "x = Finite (int v)" "2 ^ a \<le> v" "v \<le> 2 ^ b"
    and y: "y = Finite (int w)" "2 ^ a' \<le> w" "w \<le> 2 ^ b'" by (auto simp: between_def)
  have "(2::nat) ^ b \<le> 2 ^ (b'' - 1)" "(2::nat) ^ b' \<le> 2 ^ (b'' - 1)"
    using assms(4,5) by (intro power_increasing; simp)+
  moreover have "(2::nat) ^ b'' = 2 ^ (b'' - 1) + 2 ^ (b'' - 1)"
    using assms(4) power_Suc [of "2::nat" "b'' - 1"] by simp
  ultimately have u: "v + w \<le> 2 ^ b'' * 1" using x(3) y(3) by linarith
  have l: "2 ^ max a a' * 1 \<le> v + w" using x(2) y(2) by (simp add: max_def)
  have "d_add x y = d_ratio (int (v + w)) 1" by (simp add: x y)
  then show ?thesis using between_ratio [OF zero_less_one l u assms(3)] by simp
qed

lemma between_mul:
  assumes "between a b x" "between a' b' y" "c + 1074 \<le> a + a'" "b + b' \<le> e + 1074" "e < 2098"
  shows "between c e (d_mul x y)"
proof -
  from assms(1,2) obtain v w where x: "x = Finite (int v)" "2 ^ a \<le> v" "v \<le> 2 ^ b"
    and y: "y = Finite (int w)" "2 ^ a' \<le> w" "w \<le> 2 ^ b'" by (auto simp: between_def)
  have "2 ^ c * d_unit \<le> 2 ^ (a + a')"
    unfolding d_unit_def power_add [symmetric] using assms(3) by (intro power_increasing) simp_all
  also have "\<dots> \<le> v * w" unfolding power_add using x(2) y(2) by (intro mult_le_mono)
  finally have l: "2 ^ c * d_unit \<le> v * w" .
  have "v * w \<le> 2 ^ (b + b')" unfolding power_add using x(3) y(3) by (intro mult_le_mono)
  also have "\<dots> \<le> 2 ^ e * d_unit"
    unfolding d_unit_def power_add [symmetric] using assms(4) by (intro power_increasing) simp_all
  finally have u: "v * w \<le> 2 ^ e * d_unit" .
  have "d_mul x y = d_ratio (int (v * w)) d_unit" by (simp add: x y)
  moreover have "0 < d_unit" by (simp add: d_unit_def)
  ultimately show ?thesis using between_ratio [OF _ l u assms(5)] by simp
qed

lemma between_div:
  assumes "between a b x" "between a' b' y" "c + b' \<le> a + 1074" "b + 1074 \<le> e + a'" "e < 2098"
  shows "between c e (d_div x y)"
proof -
  from assms(1,2) obtain v w where x: "x = Finite (int v)" "2 ^ a \<le> v" "v \<le> 2 ^ b"
    and y: "y = Finite (int w)" "2 ^ a' \<le> w" "w \<le> 2 ^ b'" by (auto simp: between_def)
  have pos: "0 < w" using less_le_trans [OF _ y(2), of 0] by simp
  have "2 ^ c * w \<le> 2 ^ (c + b')" unfolding power_add using y(3) by simp
  also have "\<dots> \<le> 2 ^ (a + 1074)" using assms(3) by (intro power_increasing) simp_all
  also have "\<dots> \<le> v * d_unit" unfolding power_add d_unit_def using x(2) by (intro mult_le_mono) simp_all
  finally have l: "2 ^ c * w \<le> v * d_unit" .
  have "v * d_unit \<le> 2 ^ (b + 1074)" unfolding power_add d_unit_def using x(3) by (intro mult_le_mono) simp_all
  also have "\<dots> \<le> 2 ^ (e + a')" using assms(4) by (intro power_increasing) simp_all
  also have "\<dots> \<le> 2 ^ e * w" unfolding power_add using y(2) by simp
  finally have u: "v * d_unit \<le> 2 ^ e * w" .
  have "d_div x y = d_ratio (int (v * d_unit)) w" using pos by (simp add: x y)
  then show ?thesis using between_ratio [OF pos l u assms(5)] by simp
qed

end
