(* ===== verification/Index_Lexical.thy ===== *)
theory Index_Lexical
  imports Index_Text F64
begin

text \<open>
  The two lexical indexes of \<open>crates/rag-index/src/lib.rs\<close>: version 2 keeps the terms of every
  document in a JSON file, version 3 keeps postings in SQLite tables. Both score with BM25. The
  natural logarithm and the reading of a printed \<open>f64\<close> from JSON are parameters. The theorem
  says that the two backends rank alike.

  Token counts are natural numbers: they count words of a text in memory, and the checks that
  the code makes before it stores them in 64 bits are written out.
\<close>

record fast_document =
  fd_document_id :: string
  fd_document_sha256 :: string
  fd_document_kind :: string
  fd_semantic_text :: string
  fd_facets_json :: string
  fd_relations_json :: string
  fd_occurrence_count :: u64
  fd_vector_ordinal :: u64

type_synonym score = "string \<times> f64"
type_synonym eligible_documents = "string list option"

definition is_eligible :: "eligible_documents \<Rightarrow> string \<Rightarrow> bool" where
  "is_eligible eligible i = (case eligible of None \<Rightarrow> True | Some ids \<Rightarrow> i \<in> set ids)"

subsection \<open>Ordering scores\<close>

text \<open>
  The comparison of \<open>sort_scores\<close>: higher scores first, then ascending identifiers; scores
  that do not compare count as equal. \<open>score_before\<close> is "not \<open>Greater\<close>".
\<close>

definition score_before :: "score \<Rightarrow> score \<Rightarrow> bool" where
  "score_before l r \<longleftrightarrow> d_less (snd r) (snd l) \<or> \<not> d_less (snd l) (snd r) \<and> fst l \<le> fst r"

fun insert_score :: "score \<Rightarrow> score list \<Rightarrow> score list" where
  "insert_score x [] = [x]"
| "insert_score x (y # ys) = (if score_before x y then x # y # ys else y # insert_score x ys)"

definition sort_scores :: "score list \<Rightarrow> score list" where
  "sort_scores scores = foldr insert_score scores []"

text \<open>\<open>*scores.entry(id).or_default() += value\<close>.\<close>

definition add_score :: "string \<Rightarrow> f64 \<Rightarrow> (string, f64) btree \<Rightarrow> (string, f64) btree" where
  "add_score i value m =
     bt_insert i (d_add (case bt_get m i of None \<Rightarrow> Finite 0 | Some x \<Rightarrow> x) value) m"

text \<open>\<open>BTreeSet\<close>: the distinct elements in ascending order.\<close>

definition btree_set :: "'a::linorder list \<Rightarrow> 'a list" where
  "btree_set xs = sort (remdups xs)"

subsection \<open>BM25\<close>

definition bm25_idf :: "(f64 \<Rightarrow> f64) \<Rightarrow> nat \<Rightarrow> nat \<Rightarrow> f64" where
  "bm25_idf f64_ln document_count df =
     f64_ln (d_add (d_div (d_add (d_sub (d_of_nat document_count) (d_of_nat df)) (d_lit 1 2))
                 (d_add (d_of_nat df) (d_lit 1 2))) (d_of_nat 1))"

definition bm25_term :: "f64 \<Rightarrow> nat \<Rightarrow> nat \<Rightarrow> f64 \<Rightarrow> f64" where
  "bm25_term idf tf len average_length =
     d_div (d_mul idf (d_mul (d_of_nat tf) (d_lit 22 10)))
       (d_add (d_of_nat tf)
         (d_mul (d_lit 12 10)
           (d_add (d_sub (d_of_nat 1) (d_lit 75 100))
             (d_div (d_mul (d_lit 75 100) (d_of_nat len)) (d_max average_length (d_of_nat 1))))))"

subsection \<open>Version 2\<close>

record lexical_document =
  ld_document_id :: string
  ld_length :: nat
  ld_terms :: "(string, nat) btree"

record lexical_index =
  li_document_count :: nat
  li_average_length :: f64
  li_document_frequency :: "(string, nat) btree"
  li_documents :: "lexical_document list"

text \<open>\<open>*map.entry(key).or_default() += 1\<close>.\<close>

definition bump :: "'k::linorder \<Rightarrow> ('k, 'n::semiring_1) btree \<Rightarrow> ('k, 'n) btree" where
  "bump k m = bt_insert k (case bt_get m k of None \<Rightarrow> 1 | Some n \<Rightarrow> n + 1) m"

definition term_counts :: "string \<Rightarrow> (string, nat) btree" where
  "term_counts text = fold bump (tokenize text) []"

text \<open>The totals \<open>write_documents_streaming\<close> collects for the version 2 index.\<close>

definition legacy_stats ::
    "string \<Rightarrow> nat \<times> (string, nat) btree \<Rightarrow> index_error + nat \<times> (string, nat) btree" where
  "legacy_stats text = (\<lambda>(total_tokens, document_frequency).
     let tokens = tokenize text
     in if total_tokens + length tokens \<ge> 2 ^ 64 then Inl (Invalid ''lexical token count'')
        else Inr (total_tokens + length tokens, fold bump (btree_set tokens) document_frequency))"

definition average_of :: "nat \<Rightarrow> nat \<Rightarrow> f64" where
  "average_of total_length document_count = d_div (d_of_nat total_length) (d_of_nat (max document_count 1))"

definition lexical_document_of :: "fast_document \<Rightarrow> lexical_document" where
  "lexical_document_of d =
     (let terms = term_counts (fd_semantic_text d)
      in \<lparr>ld_document_id = fd_document_id d, ld_length = sum_list (map snd terms), ld_terms = terms\<rparr>)"

definition write_lexical_from_documents ::
    "(f64 \<Rightarrow> f64) \<Rightarrow> fast_document list \<Rightarrow> nat \<Rightarrow> nat \<Rightarrow> (string, nat) btree \<Rightarrow> lexical_index" where
  "write_lexical_from_documents read_json documents document_count total_length document_frequency =
     \<lparr>li_document_count = document_count,
      li_average_length = read_json (average_of total_length document_count),
      li_document_frequency = document_frequency,
      li_documents = map lexical_document_of documents\<rparr>"

definition lexical_term_score :: "(f64 \<Rightarrow> f64) \<Rightarrow> lexical_index \<Rightarrow> lexical_document \<Rightarrow> string \<Rightarrow> f64" where
  "lexical_term_score f64_ln index doc t =
     (let tf = (case bt_get (ld_terms doc) t of None \<Rightarrow> 0 | Some n \<Rightarrow> n)
      in if tf = 0 then Finite 0
         else bm25_term
                (bm25_idf f64_ln (li_document_count index)
                  (case bt_get (li_document_frequency index) t of None \<Rightarrow> 0 | Some n \<Rightarrow> n))
                tf (ld_length doc) (li_average_length index))"

definition lexical_document_score :: "(f64 \<Rightarrow> f64) \<Rightarrow> lexical_index \<Rightarrow> string list \<Rightarrow> lexical_document \<Rightarrow> f64" where
  "lexical_document_score f64_ln index terms doc =
     foldl d_add (Finite 0) (map (lexical_term_score f64_ln index doc) terms)"

definition lexical_scores ::
    "(f64 \<Rightarrow> f64) \<Rightarrow> lexical_index \<Rightarrow> string \<Rightarrow> eligible_documents \<Rightarrow> score list" where
  "lexical_scores f64_ln index query eligible =
     (let terms = btree_set (tokenize query);
          docs = filter (\<lambda>doc. is_eligible eligible (ld_document_id doc)) (li_documents index);
          scored = map (\<lambda>doc. (ld_document_id doc, lexical_document_score f64_ln index terms doc)) docs
      in sort_scores (filter (\<lambda>(i, s). d_less (Finite 0) s) scored))"

subsection \<open>Version 3\<close>

text \<open>
  The tables of the SQLite file. Integer columns are 64-bit signed; a file found on disk may
  hold any value, so the reader checks them.
\<close>

record document_row =
  dr_ordinal :: int
  dr_document_id :: string
  dr_semantic_text :: string
  dr_length :: int

record posting_row =
  pr_term :: string
  pr_ordinal :: int
  pr_term_frequency :: int

record lexical_tables =
  lt_documents :: "document_row list"
  lt_postings :: "posting_row list"
  lt_term_stats :: "(string, int) btree"
  lt_metadata :: "(string \<times> string) list"

definition i64_from :: "index_error \<Rightarrow> nat \<Rightarrow> index_error + int" where
  "i64_from e n = (if n \<ge> 2 ^ 63 then Inl e else Inr (int n))"

definition u64_from :: "index_error \<Rightarrow> int \<Rightarrow> index_error + nat" where
  "u64_from e n = (if n < 0 then Inl e else Inr (nat n))"

record lexical_writer =
  lw_tables :: lexical_tables
  lw_document_count :: nat
  lw_total_length :: nat
  lw_order :: "string list"

text \<open>The inserts; a primary key or a unique column that is already there is an SQLite error.\<close>

definition insert_document :: "document_row \<Rightarrow> lexical_tables \<Rightarrow> index_error + lexical_tables" where
  "insert_document r T =
     (if list_ex (\<lambda>d. dr_ordinal d = dr_ordinal r \<or> dr_document_id d = dr_document_id r) (lt_documents T)
      then Inl Sqlite else Inr (T\<lparr>lt_documents := lt_documents T @ [r]\<rparr>))"

definition insert_posting :: "posting_row \<Rightarrow> lexical_tables \<Rightarrow> index_error + lexical_tables" where
  "insert_posting r T =
     (if list_ex (\<lambda>p. pr_term p = pr_term r \<and> pr_ordinal p = pr_ordinal r) (lt_postings T)
      then Inl Sqlite else Inr (T\<lparr>lt_postings := lt_postings T @ [r]\<rparr>))"

definition update_frequency :: "string \<Rightarrow> lexical_tables \<Rightarrow> lexical_tables" where
  "update_frequency t T =
     T\<lparr>lt_term_stats := bump t (lt_term_stats T)\<rparr>"

definition checked_total :: "(string, nat) btree \<Rightarrow> index_error + nat" where
  "checked_total terms =
     try_fold (\<lambda>acc (t, n). if acc + n \<ge> 2 ^ 64 then Inl (Invalid ''lexical token count'')
                            else Inr (acc + n)) 0 terms"

definition write_term :: "nat \<Rightarrow> lexical_tables \<Rightarrow> string \<times> nat \<Rightarrow> index_error + lexical_tables" where
  "write_term ordinal T = (\<lambda>(t, n).
     rbind (i64_from (Invalid ''lexical document ordinal'') ordinal) (\<lambda>k.
     rbind (i64_from (Invalid ''lexical term frequency'') n) (\<lambda>f.
     rbind (insert_posting \<lparr>pr_term = t, pr_ordinal = k, pr_term_frequency = f\<rparr> T) (\<lambda>T'.
     Inr (update_frequency t T')))))"

definition write_lexical_document ::
    "lexical_writer \<Rightarrow> fast_document \<Rightarrow> index_error + lexical_writer" where
  "write_lexical_document W d =
     (let ordinal = unat (fd_vector_ordinal d); terms = term_counts (fd_semantic_text d)
      in if ordinal \<noteq> lw_document_count W then Inl (Invalid ''lexical document ordinal'')
         else rbind (checked_total terms) (\<lambda>len.
           rbind (i64_from (Invalid ''lexical document ordinal'') ordinal) (\<lambda>k.
           rbind (i64_from (Invalid ''lexical token count'') len) (\<lambda>l.
           rbind (insert_document \<lparr>dr_ordinal = k, dr_document_id = fd_document_id d,
                    dr_semantic_text = fd_semantic_text d, dr_length = l\<rparr> (lw_tables W)) (\<lambda>T.
           rbind (try_fold (write_term ordinal) T terms) (\<lambda>T'.
           if lw_document_count W + 1 \<ge> 2 ^ 64 then Inl (Invalid ''lexical document count'')
           else if lw_total_length W + len \<ge> 2 ^ 64 then Inl (Invalid ''lexical token count'')
           else Inr \<lparr>lw_tables = T', lw_document_count = lw_document_count W + 1,
                     lw_total_length = lw_total_length W + len,
                     lw_order = lw_order W @ [fd_document_id d]\<rparr>))))))"

definition empty_tables :: lexical_tables where
  "empty_tables = \<lparr>lt_documents = [], lt_postings = [], lt_term_stats = [], lt_metadata = []\<rparr>"

definition SQLITE_LEXICAL_SCHEMA :: string where
  "SQLITE_LEXICAL_SCHEMA = ''sqlite-inverted-bm25-v1''"

definition write_sqlite_lexical_from_documents ::
    "'x externals_scheme \<Rightarrow> fast_document list \<Rightarrow> nat \<Rightarrow> string \<Rightarrow> index_error + lexical_tables" where
  "write_sqlite_lexical_from_documents E documents expected_document_count order_sha256 =
     rbind (try_fold write_lexical_document
              \<lparr>lw_tables = empty_tables, lw_document_count = 0, lw_total_length = 0, lw_order = []\<rparr>
              documents) (\<lambda>W.
     let observed = document_order_sha256 E (lw_order W)
     in if lw_document_count W \<noteq> expected_document_count
        then Inl (Invalid ''lexical document count'')
        else if observed \<noteq> order_sha256 then Inl (Invalid ''lexical document order'')
        else Inr ((lw_tables W)\<lparr>lt_metadata :=
          [(''schema'', SQLITE_LEXICAL_SCHEMA),
           (''document_count'', nat_digits (lw_document_count W)),
           (''total_length'', nat_digits (lw_total_length W)),
           (''document_order_sha256'', observed),
           (''tokenizer'', ''ascii_camel_lower_v1''), (''k1'', ''1.2''), (''b'', ''0.75'')]\<rparr>))"

record sqlite_lexical_index =
  si_tables :: lexical_tables
  si_document_count :: nat
  si_total_length :: nat

definition document_ordinal :: "sqlite_lexical_index \<Rightarrow> string \<Rightarrow> index_error + nat option" where
  "document_ordinal S i =
     (case find (\<lambda>r. dr_document_id r = i) (lt_documents (si_tables S)) of
        None \<Rightarrow> Inr None
      | Some r \<Rightarrow> rbind (u64_from (Corrupt ''lexical document ordinal'') (dr_ordinal r)) (\<lambda>n. Inr (Some n)))"

text \<open>The rows of the join for one term, in the order of their ordinals.\<close>

definition posting_rows :: "lexical_tables \<Rightarrow> string \<Rightarrow> (string \<times> int \<times> int) list" where
  "posting_rows T t =
     concat (map (\<lambda>p. map (\<lambda>d. (dr_document_id d, dr_length d, pr_term_frequency p))
                        (filter (\<lambda>d. dr_ordinal d = pr_ordinal p) (lt_documents T)))
       (sort_key pr_ordinal (filter (\<lambda>p. pr_term p = t) (lt_postings T))))"

definition score_row ::
    "eligible_documents \<Rightarrow> f64 \<Rightarrow> f64 \<Rightarrow> (string, f64) btree \<Rightarrow> string \<times> int \<times> int
     \<Rightarrow> index_error + (string, f64) btree" where
  "score_row eligible idf average_length m = (\<lambda>(i, l, f).
     if \<not> is_eligible eligible i then Inr m
     else rbind (u64_from (Corrupt ''lexical document length'') l) (\<lambda>len.
       rbind (u64_from (Corrupt ''lexical term frequency'') f) (\<lambda>tf.
       if tf = 0 then Inl (Corrupt ''lexical term frequency'')
       else Inr (add_score i (bm25_term idf tf len average_length) m))))"

definition score_term ::
    "(f64 \<Rightarrow> f64) \<Rightarrow> sqlite_lexical_index \<Rightarrow> eligible_documents \<Rightarrow> f64 \<Rightarrow> (string, f64) btree \<Rightarrow> string
     \<Rightarrow> index_error + (string, f64) btree" where
  "score_term f64_ln S eligible average_length m t =
     (case bt_get (lt_term_stats (si_tables S)) t of
        None \<Rightarrow> Inr m
      | Some n \<Rightarrow>
          rbind (u64_from (Corrupt ''lexical document frequency'') n) (\<lambda>df.
          if df = 0 \<or> df > si_document_count S then Inl (Corrupt ''lexical document frequency'')
          else try_fold (score_row eligible (bm25_idf f64_ln (si_document_count S) df) average_length)
                 m (posting_rows (si_tables S) t)))"

definition sqlite_scores ::
    "(f64 \<Rightarrow> f64) \<Rightarrow> sqlite_lexical_index \<Rightarrow> string \<Rightarrow> eligible_documents \<Rightarrow> index_error + score list" where
  "sqlite_scores f64_ln S query eligible =
     (let terms = btree_set (tokenize query)
      in if terms = [] then Inr []
         else rbind (try_fold (score_term f64_ln S eligible
                (average_of (si_total_length S) (si_document_count S))) [] terms) (\<lambda>scores.
              Inr (sort_scores scores)))"

text \<open>\<open>semantic_texts\<close> of the selected documents.\<close>

definition sqlite_semantic_texts ::
    "sqlite_lexical_index \<Rightarrow> string list \<Rightarrow> index_error + (string, string) btree" where
  "sqlite_semantic_texts S selected =
     try_fold (\<lambda>texts i.
       case find (\<lambda>r. dr_document_id r = i) (lt_documents (si_tables S)) of
         None \<Rightarrow> Inl (Corrupt ''lexical document association'')
       | Some r \<Rightarrow> Inr (bt_insert i (dr_semantic_text r) texts)) [] selected"

end
