(* ===== verification/Lexical_Ranking.thy ===== *)
theory Lexical_Ranking
  imports Index_Lexical
begin

text \<open>
  Facts about the two lexical backends of \<open>Index_Lexical\<close>: what their writers store, in terms
  of the documents, and that searching either gives the same ranking. The ordering of scores
  does not depend on the order in which a hash map yields them.
\<close>

subsection \<open>Counting\<close>

lemma bump_ok: "bt_ok m \<Longrightarrow> bt_ok (bump k m)"
  by (simp add: bump_def bt_insert_ok)

lemma bump_get: "bt_ok m \<Longrightarrow> bt_get (bump k m) =
  (bt_get m)(k \<mapsto> (case bt_get m k of None \<Rightarrow> 1 | Some n \<Rightarrow> n + 1))"
  by (simp add: bump_def bt_insert_get)

lemma fold_bump_ok: "bt_ok m \<Longrightarrow> bt_ok (fold bump xs m)"
  by (induction xs arbitrary: m) (simp_all add: bump_ok)

lemma fold_bump_get:
  "bt_ok m \<Longrightarrow> bt_get (fold bump xs m) t =
     (if t \<in> set xs
      then Some (of_nat (count_list xs t) + (case bt_get m t of None \<Rightarrow> 0 | Some n \<Rightarrow> n))
      else bt_get m t)"
proof (induction xs arbitrary: m)
  case (Cons x xs)
  have *: "t \<notin> set xs \<Longrightarrow> count_list xs t = 0" by simp
  show ?case
    using Cons.IH [OF bump_ok [OF Cons.prems]] *
    by (auto simp: bump_get [OF Cons.prems] add_ac split: option.splits)
qed simp

lemma fold_bump_sum:
  fixes m :: "('k::linorder, nat) btree"
  shows "bt_ok m \<Longrightarrow> sum_list (map snd (fold bump xs m)) = length xs + sum_list (map snd m)"
proof (induction xs arbitrary: m)
  case (Cons x xs)
  have "sum_list (map snd (bump x m)) = Suc (sum_list (map snd m))"
    using bt_insert_sum [OF Cons.prems, of x 1]
      bt_insert_sum [OF Cons.prems, of x "the (bt_get m x) + 1"]
    by (auto simp: bump_def split: option.splits)
  with Cons.IH [OF bump_ok [OF Cons.prems, of x]] show ?case by simp
qed simp

lemma bt_ok_Nil [simp]: "bt_ok []"
  by (simp add: bt_ok_def)

lemma bt_get_Nil [simp]: "bt_get [] k = None"
  by (simp add: bt_get_def)

lemma term_counts_ok: "bt_ok (term_counts text)"
  by (simp add: term_counts_def fold_bump_ok)

lemma term_counts_get:
  "bt_get (term_counts text) t = (if t \<in> set (tokenize text) then Some (count_list (tokenize text) t) else None)"
  by (simp add: term_counts_def fold_bump_get)

lemma term_counts_sum: "sum_list (map snd (term_counts text)) = length (tokenize text)"
  by (simp add: term_counts_def fold_bump_sum)

text \<open>A sorted map is determined by its lookups, and a sorted list by its elements.\<close>

lemma strict_sorted_unique:
  "sorted_wrt (<) xs \<Longrightarrow> sorted_wrt (<) (ys :: 'a::linorder list) \<Longrightarrow> set xs = set ys \<Longrightarrow> xs = ys"
  by (simp add: strict_sorted_equal)

lemma bt_get_iff: "bt_ok m \<Longrightarrow> bt_get m k = Some v \<longleftrightarrow> (k, v) \<in> set m"
  by (simp add: bt_get_def bt_ok_distinct)

lemma bt_entries_unique:
  assumes "bt_ok m" "bt_ok m'" "\<And>k v. (k, v) \<in> set m \<longleftrightarrow> (k, v) \<in> set m'"
  shows "m = m'"
proof -
  have s: "set m = set m'" using assms(3) by auto
  then have "map fst m = map fst m'"
    using assms(1,2) by (intro strict_sorted_unique) (simp_all add: bt_ok_def)
  moreover have "inj_on fst (set m \<union> set m')"
    using bt_ok_distinct [OF assms(1)] by (simp add: distinct_map flip: s)
  ultimately show ?thesis by (simp add: inj_on_map_eq_map)
qed

lemma distinct_count_list: "distinct xs \<Longrightarrow> count_list xs t = (if t \<in> set xs then 1 else 0)"
  by (induction xs) auto

lemma term_counts_keys: "map fst (term_counts text) = btree_set (tokenize text)"
proof (rule strict_sorted_unique)
  show "sorted_wrt (<) (map fst (term_counts text))"
    using term_counts_ok [of "text"] by (simp add: bt_ok_def)
  show "sorted_wrt (<) (btree_set (tokenize text))"
    by (simp add: btree_set_def strict_sorted_iff)
  have "k \<in> fst ` set (term_counts text) \<longleftrightarrow> bt_get (term_counts text) k \<noteq> None" for k
    by (simp add: bt_get_def map_of_eq_None_iff)
  then have "k \<in> fst ` set (term_counts text) \<longleftrightarrow> k \<in> set (tokenize text)" for k
    unfolding term_counts_get by simp
  then show "set (map fst (term_counts text)) = set (btree_set (tokenize text))"
    by (simp only: set_map set_eq_iff btree_set_def set_sort set_remdups simp_thms)
qed

lemma fold_bump_once:
  assumes "bt_ok m"
  shows "bt_get (fold bump (btree_set xs) m) t =
     (if t \<in> set xs then Some (1 + (case bt_get m t of None \<Rightarrow> 0 | Some n \<Rightarrow> n)) else bt_get m t)"
proof -
  have "t \<in> set xs \<Longrightarrow> count_list (btree_set xs) t = 1"
    using distinct_count_list [of "btree_set xs" t] by (simp add: btree_set_def)
  then show ?thesis by (simp add: fold_bump_get [OF assms] btree_set_def)
qed

subsection \<open>Ordering scores\<close>

lemma d_less_irrefl: "\<not> d_less a a"
  by (cases a) auto

lemma d_less_trans: "d_less a b \<Longrightarrow> d_less b c \<Longrightarrow> d_less a c"
  by (cases a; cases b; cases c) auto

lemma d_less_linear: "a \<noteq> Nan \<Longrightarrow> b \<noteq> Nan \<Longrightarrow> d_less a b \<or> a = b \<or> d_less b a"
  by (cases a; cases b) auto

definition no_nan :: "score list \<Rightarrow> bool" where
  "no_nan xs \<longleftrightarrow> (\<forall>x \<in> set xs. snd x \<noteq> Nan)"

lemma score_before_total:
  "snd x \<noteq> Nan \<Longrightarrow> snd y \<noteq> Nan \<Longrightarrow> score_before x y \<or> score_before y x"
  using d_less_linear [of "snd x" "snd y"] linear [of "fst x" "fst y"]
  by (auto simp: score_before_def d_less_irrefl)

lemma score_before_trans:
  assumes "snd x \<noteq> Nan" "snd y \<noteq> Nan" "snd z \<noteq> Nan" "score_before x y" "score_before y z"
  shows "score_before x z"
proof -
  note lin = d_less_linear [OF assms(1,2)] d_less_linear [OF assms(2,3)] d_less_linear [OF assms(1,3)]
  show ?thesis
    using assms(4,5) lin d_less_trans [of "snd z" "snd y" "snd x"] d_less_trans [of "snd x" "snd y" "snd z"]
      d_less_trans [of "snd x" "snd z" "snd y"] d_less_trans [of "snd y" "snd x" "snd z"]
      order_trans [of "fst x" "fst y" "fst z"]
    by (auto simp: score_before_def d_less_irrefl)
qed

lemma score_before_antisym:
  assumes "snd x \<noteq> Nan" "snd y \<noteq> Nan" "score_before x y" "score_before y x"
  shows "x = y"
  using assms d_less_linear [of "snd x" "snd y"] d_less_trans [of "snd x" "snd y" "snd x"]
  by (auto simp: score_before_def d_less_irrefl prod_eq_iff)

lemma insert_score_set: "set (insert_score x ys) = insert x (set ys)"
  by (induction ys) auto

lemma sort_scores_set: "set (sort_scores xs) = set xs"
  by (induction xs) (simp_all add: sort_scores_def insert_score_set)

lemma insert_score_length: "length (insert_score x ys) = Suc (length ys)"
  by (induction ys) auto

lemma sort_scores_length: "length (sort_scores xs) = length xs"
  by (induction xs) (simp_all add: sort_scores_def insert_score_length)

lemma insert_score_distinct:
  "distinct (map fst ys) \<Longrightarrow> fst x \<notin> set (map fst ys) \<Longrightarrow> distinct (map fst (insert_score x ys))"
  by (induction ys) (auto simp: insert_score_set)

lemma sort_scores_distinct: "distinct (map fst xs) \<Longrightarrow> distinct (map fst (sort_scores xs))"
proof (induction xs)
  case (Cons x xs)
  have "set (foldr insert_score xs []) = set xs"
    using sort_scores_set [of xs] by (simp add: sort_scores_def)
  with Cons show ?case by (simp add: sort_scores_def insert_score_distinct)
qed (simp add: sort_scores_def)

lemma insert_score_sorted:
  assumes "sorted_wrt score_before ys" "no_nan (x # ys)"
  shows "sorted_wrt score_before (insert_score x ys)"
  using assms
proof (induction ys)
  case (Cons y ys)
  have n: "snd x \<noteq> Nan" "snd y \<noteq> Nan" "\<forall>z \<in> set ys. snd z \<noteq> Nan" "no_nan (x # ys)"
    using Cons.prems(2) by (auto simp: no_nan_def)
  show ?case
  proof (cases "score_before x y")
    case True
    then have "\<forall>z \<in> set ys. score_before x z"
      using Cons.prems(1) n score_before_trans [of x y] by simp
    with True Cons.prems(1) show ?thesis by simp
  next
    case False
    then have "score_before y x" using score_before_total n by blast
    moreover have "sorted_wrt score_before (insert_score x ys)"
      using Cons.IH Cons.prems(1) n(4) by simp
    ultimately show ?thesis using Cons.prems(1) False by (auto simp: insert_score_set)
  qed
qed simp

lemma sort_scores_sorted: "no_nan xs \<Longrightarrow> sorted_wrt score_before (sort_scores xs)"
proof (induction xs)
  case (Cons x xs)
  have "set (foldr insert_score xs []) = set xs"
    using sort_scores_set [of xs] by (simp add: sort_scores_def)
  then have "no_nan (x # foldr insert_score xs [])" using Cons.prems by (simp add: no_nan_def)
  with Cons show ?case by (simp add: sort_scores_def no_nan_def insert_score_sorted)
qed (simp add: sort_scores_def)

lemma sorted_scores_unique:
  assumes "sorted_wrt score_before xs" "sorted_wrt score_before ys" "set xs = set ys" "no_nan xs"
    and "distinct xs" "distinct ys"
  shows "xs = ys"
  using assms
proof (induction xs arbitrary: ys)
  case (Cons x xs)
  then obtain y ys' where ys: "ys = y # ys'" by (cases ys) auto
  have nan: "\<And>z. z \<in> set (x # xs) \<Longrightarrow> snd z \<noteq> Nan" using Cons.prems(4) by (auto simp: no_nan_def)
  have xy: "x = y"
  proof (rule ccontr)
    assume ne: "x \<noteq> y"
    then have "x \<in> set ys'" "y \<in> set xs" using Cons.prems(3) ys by auto
    then have "score_before y x" "score_before x y" using Cons.prems(1,2) ys by auto
    with ne show False using nan \<open>y \<in> set xs\<close> score_before_antisym [of x y] by auto
  qed
  have "set xs = set ys'" using Cons.prems(3,5,6) ys xy by auto
  then have "xs = ys'" using Cons.prems ys by (intro Cons.IH) (auto simp: no_nan_def)
  with ys xy show ?case by simp
qed simp

text \<open>The ranking does not depend on the order of the scores.\<close>

lemma sort_scores_order_irrelevant:
  assumes "set xs = set ys" "distinct (map fst xs)" "distinct (map fst ys)" "no_nan xs"
  shows "sort_scores xs = sort_scores ys"
proof (rule sorted_scores_unique)
  have "no_nan ys" using assms(1,4) by (simp add: no_nan_def)
  then show "sorted_wrt score_before (sort_scores ys)" by (rule sort_scores_sorted)
  show "sorted_wrt score_before (sort_scores xs)" using assms(4) by (rule sort_scores_sorted)
  show "set (sort_scores xs) = set (sort_scores ys)" by (simp add: sort_scores_set assms(1))
  show "no_nan (sort_scores xs)" using assms(4) by (simp add: no_nan_def sort_scores_set)
  show "distinct (sort_scores xs)" "distinct (sort_scores ys)"
    using sort_scores_distinct [OF assms(2)] sort_scores_distinct [OF assms(3)]
    by (simp_all add: distinct_map)
qed

subsection \<open>What the writers store\<close>

abbreviation doc_tokens :: "fast_document \<Rightarrow> string list" where
  "doc_tokens d \<equiv> tokenize (fd_semantic_text d)"

definition hit_documents :: "fast_document list \<Rightarrow> string \<Rightarrow> fast_document list" where
  "hit_documents D t = filter (\<lambda>d. t \<in> set (doc_tokens d)) D"

definition df_of :: "fast_document list \<Rightarrow> string \<Rightarrow> nat" where
  "df_of D t = length (hit_documents D t)"

definition tokens_of :: "fast_document list \<Rightarrow> nat" where
  "tokens_of D = sum_list (map (\<lambda>d. length (doc_tokens d)) D)"

text \<open>The frequencies after every document has counted each of its terms once.\<close>

definition frequencies :: "fast_document list \<Rightarrow> (string, 'n::semiring_1) btree \<Rightarrow> (string, 'n) btree" where
  "frequencies D m = fold (\<lambda>d. fold bump (btree_set (doc_tokens d))) D m"

lemma frequencies_Cons: "frequencies (d # D) m = frequencies D (fold bump (btree_set (doc_tokens d)) m)"
  by (simp add: frequencies_def)

lemma frequencies_ok: "bt_ok m \<Longrightarrow> bt_ok (frequencies D m)"
  by (induction D arbitrary: m) (simp_all add: frequencies_def fold_bump_ok)

lemma frequencies_get:
  "bt_ok m \<Longrightarrow> bt_get (frequencies D m) t =
     (if hit_documents D t = [] then bt_get m t
      else Some (of_nat (df_of D t) + (case bt_get m t of None \<Rightarrow> 0 | Some n \<Rightarrow> n)))"
proof (induction D arbitrary: m)
  case (Cons d D)
  have ok: "bt_ok (fold bump (btree_set (doc_tokens d)) m)" by (rule fold_bump_ok) fact
  show ?case
  proof (cases "t \<in> set (doc_tokens d)")
    case True
    then show ?thesis
      unfolding frequencies_Cons Cons.IH [OF ok]
      by (simp add: fold_bump_once [OF Cons.prems] hit_documents_def df_of_def add_ac)
  next
    case False
    then show ?thesis
      unfolding frequencies_Cons Cons.IH [OF ok]
      by (simp add: fold_bump_once [OF Cons.prems] hit_documents_def df_of_def)
  qed
qed (simp add: frequencies_def hit_documents_def)

lemma legacy_stats_fold:
  "try_fold (\<lambda>s d. legacy_stats (fd_semantic_text d) s) (n, m) D = Inr (n', m') \<Longrightarrow>
     n' = n + tokens_of D \<and> m' = frequencies D m"
proof (induction D arbitrary: n m)
  case (Cons d D)
  then have "try_fold (\<lambda>s d. legacy_stats (fd_semantic_text d) s)
      (n + length (doc_tokens d), fold bump (btree_set (doc_tokens d)) m) D = Inr (n', m')"
    by (auto simp: legacy_stats_def Let_def split: if_splits)
  from Cons.IH [OF this] show ?case by (simp add: tokens_of_def frequencies_Cons)
qed (simp add: tokens_of_def frequencies_def)

definition row_of :: "nat \<Rightarrow> fast_document \<Rightarrow> document_row" where
  "row_of k d = \<lparr>dr_ordinal = int k, dr_document_id = fd_document_id d,
     dr_semantic_text = fd_semantic_text d, dr_length = int (length (doc_tokens d))\<rparr>"

definition posting_of :: "nat \<Rightarrow> string \<times> nat \<Rightarrow> posting_row" where
  "posting_of k = (\<lambda>(t, n). \<lparr>pr_term = t, pr_ordinal = int k, pr_term_frequency = int n\<rparr>)"

definition postings_of :: "nat \<Rightarrow> fast_document \<Rightarrow> posting_row list" where
  "postings_of k d = map (posting_of k) (term_counts (fd_semantic_text d))"

lemma checked_total_ok: "checked_total terms = Inr n \<Longrightarrow> n = sum_list (map snd terms)"
proof -
  have "try_fold (\<lambda>acc (t :: string, n). if acc + n \<ge> 2 ^ 64 then Inl (Invalid ''lexical token count'')
      else Inr (acc + n)) a terms = Inr n \<Longrightarrow> n = a + sum_list (map snd terms)" for a
  proof (induction terms arbitrary: a)
    case (Cons x terms)
    obtain t m where x: "x = (t, m)" by (cases x)
    from Cons.prems x have "try_fold (\<lambda>acc (t :: string, n). if acc + n \<ge> 2 ^ 64
        then Inl (Invalid ''lexical token count'') else Inr (acc + n)) (a + m) terms = Inr n"
      by (auto split: if_splits)
    from Cons.IH [OF this] x show ?case by simp
  qed simp
  from this [of 0] show "checked_total terms = Inr n \<Longrightarrow> n = sum_list (map snd terms)"
    by (simp add: checked_total_def)
qed

lemma write_terms_ok:
  "try_fold (write_term k) T terms = Inr T' \<Longrightarrow>
     T' = T\<lparr>lt_postings := lt_postings T @ map (posting_of k) terms,
            lt_term_stats := fold bump (map fst terms) (lt_term_stats T)\<rparr>"
proof (induction terms arbitrary: T)
  case (Cons x terms)
  obtain t n where x: "x = (t, n)" by (cases x)
  from Cons.prems x obtain T1 where w: "write_term k T (t, n) = Inr T1"
    and r: "try_fold (write_term k) T1 terms = Inr T'" by (auto simp: rbind_eq_Inr)
  from w have "T1 = T\<lparr>lt_postings := lt_postings T @ [posting_of k (t, n)],
      lt_term_stats := bump t (lt_term_stats T)\<rparr>"
    by (auto simp: write_term_def rbind_eq_Inr i64_from_def insert_posting_def update_frequency_def
        posting_of_def split: if_splits)
  with Cons.IH [OF r] x show ?case by simp
qed simp

lemma write_lexical_document_ok:
  assumes "write_lexical_document W d = Inr W'"
  shows "W' = \<lparr>lw_tables = (lw_tables W)\<lparr>
        lt_documents := lt_documents (lw_tables W) @ [row_of (lw_document_count W) d],
        lt_postings := lt_postings (lw_tables W) @ postings_of (lw_document_count W) d,
        lt_term_stats := fold bump (btree_set (doc_tokens d)) (lt_term_stats (lw_tables W))\<rparr>,
      lw_document_count = lw_document_count W + 1,
      lw_total_length = lw_total_length W + length (doc_tokens d),
      lw_order = lw_order W @ [fd_document_id d]\<rparr>"
proof -
  let ?terms = "term_counts (fd_semantic_text d)" and ?k = "lw_document_count W"
  from assms obtain len T T' where len: "checked_total ?terms = Inr len"
    and ins: "insert_document \<lparr>dr_ordinal = int ?k, dr_document_id = fd_document_id d,
        dr_semantic_text = fd_semantic_text d, dr_length = int len\<rparr> (lw_tables W) = Inr T"
    and terms: "try_fold (write_term ?k) T ?terms = Inr T'"
    and W': "W' = \<lparr>lw_tables = T', lw_document_count = ?k + 1,
        lw_total_length = lw_total_length W + len, lw_order = lw_order W @ [fd_document_id d]\<rparr>"
    by (auto simp: write_lexical_document_def Let_def rbind_eq_Inr i64_from_def split: if_splits)
  have l: "len = length (doc_tokens d)" using checked_total_ok [OF len] by (simp add: term_counts_sum)
  have T: "T = (lw_tables W)\<lparr>lt_documents := lt_documents (lw_tables W) @ [row_of ?k d]\<rparr>"
    using ins by (auto simp: insert_document_def row_of_def l split: if_splits)
  show ?thesis
    unfolding W' write_terms_ok [OF terms] T
    by (simp add: l postings_of_def term_counts_keys)
qed

lemma write_lexical_fold:
  "try_fold write_lexical_document W D = Inr W' \<Longrightarrow>
     W' = \<lparr>lw_tables = (lw_tables W)\<lparr>
        lt_documents := lt_documents (lw_tables W) @
          map2 row_of [lw_document_count W..<lw_document_count W + length D] D,
        lt_postings := lt_postings (lw_tables W) @
          concat (map2 postings_of [lw_document_count W..<lw_document_count W + length D] D),
        lt_term_stats := frequencies D (lt_term_stats (lw_tables W))\<rparr>,
      lw_document_count = lw_document_count W + length D,
      lw_total_length = lw_total_length W + tokens_of D,
      lw_order = lw_order W @ map fd_document_id D\<rparr>"
proof (induction D arbitrary: W)
  case (Cons d D)
  then obtain W1 where w: "write_lexical_document W d = Inr W1"
    and r: "try_fold write_lexical_document W1 D = Inr W'" by (auto simp: rbind_eq_Inr)
  have upt: "[lw_document_count W..<lw_document_count W + length (d # D)] =
      lw_document_count W # [Suc (lw_document_count W)..<Suc (lw_document_count W) + length D]"
    using upt_conv_Cons [of "lw_document_count W" "lw_document_count W + length (d # D)"] by simp
  show ?case
    unfolding Cons.IH [OF r] write_lexical_document_ok [OF w] upt
    by (simp add: frequencies_Cons tokens_of_def)
qed (simp add: frequencies_def tokens_of_def)

subsection \<open>The rows of a term\<close>

lemma filter_key:
  "bt_ok m \<Longrightarrow> filter (\<lambda>(a, _). a = t) m = (case bt_get m t of None \<Rightarrow> [] | Some v \<Rightarrow> [(t, v)])"
proof (induction m)
  case (Cons x m)
  obtain a b where x: "x = (a, b)" by (cases x)
  have "bt_ok m" using Cons.prems by (simp add: bt_ok_def)
  moreover have "a = t \<Longrightarrow> map_of m t = None"
    using Cons.prems x by (auto simp: bt_ok_def map_of_eq_None_iff)
  ultimately show ?case using Cons.IH x by (auto simp: bt_get_def)
qed simp

definition hit_posting :: "string \<Rightarrow> nat \<times> fast_document \<Rightarrow> posting_row" where
  "hit_posting t = (\<lambda>(k, d). posting_of k (t, count_list (doc_tokens d) t))"

lemma postings_of_term:
  "filter (\<lambda>p. pr_term p = t) (postings_of k d) = (if t \<in> set (doc_tokens d) then [hit_posting t (k, d)] else [])"
proof -
  have "filter (\<lambda>p. pr_term p = t) (postings_of k d) =
      map (posting_of k) (filter (\<lambda>(a, _). a = t) (term_counts (fd_semantic_text d)))"
    unfolding postings_of_def filter_map comp_def
    by (rule arg_cong [of _ _ "map (posting_of k)"], rule filter_cong) (auto simp: posting_of_def)
  then show ?thesis
    by (simp add: filter_key [OF term_counts_ok] term_counts_get hit_posting_def)
qed

lemma all_postings_of_term:
  "filter (\<lambda>p. pr_term p = t) (concat (map2 postings_of [k..<k + length D] D)) =
     map (hit_posting t) (filter (\<lambda>x. t \<in> set (doc_tokens (snd x))) (zip [k..<k + length D] D))"
proof (induction D arbitrary: k)
  case (Cons d D)
  have upt: "[k..<k + length (d # D)] = k # [Suc k..<Suc k + length D]"
    using upt_conv_Cons [of k "k + length (d # D)"] by simp
  show ?case
    unfolding upt using Cons.IH [of "Suc k"] by (simp add: postings_of_term)
qed simp

lemma rows_of_ordinal:
  "(j, d) \<in> set (zip [k..<k + length D] D) \<Longrightarrow>
     filter (\<lambda>r. dr_ordinal r = int j) (map2 row_of [k..<k + length D] D) = [row_of j d]"
proof (induction D arbitrary: k)
  case (Cons e D)
  have upt: "[k..<k + length (e # D)] = k # [Suc k..<Suc k + length D]"
    using upt_conv_Cons [of k "k + length (e # D)"] by simp
  have later: "\<And>i x. (i, x) \<in> set (zip [Suc k..<Suc k + length D] D) \<Longrightarrow> k < i"
    by (drule set_zip_leftD) (simp only: set_upt atLeastLessThan_iff Suc_le_eq)
  show ?case
  proof (cases "j = k")
    case True
    then have "d = e" using Cons.prems unfolding upt using later by auto
    moreover have "filter (\<lambda>r. dr_ordinal r = int k) (map2 row_of [Suc k..<Suc k + length D] D) = []"
      using later by (fastforce simp: filter_empty_conv row_of_def)
    ultimately show ?thesis using True unfolding upt by (simp add: row_of_def)
  next
    case False
    then have "(j, d) \<in> set (zip [Suc k..<Suc k + length D] D)" using Cons.prems unfolding upt by simp
    from Cons.IH [OF this] False show ?thesis unfolding upt by (simp add: row_of_def)
  qed
qed simp

definition hit_row :: "string \<Rightarrow> fast_document \<Rightarrow> string \<times> int \<times> int" where
  "hit_row t d = (fd_document_id d, int (length (doc_tokens d)), int (count_list (doc_tokens d) t))"

lemma map_filter_zip:
  "length is = length D \<Longrightarrow> map (\<lambda>x. f (snd x)) (filter (\<lambda>x. P (snd x)) (zip is D)) = map f (filter P D)"
  by (induction "is" D rule: list_induct2) auto

lemma posting_rows_written:
  assumes "lt_documents T = map2 row_of [0..<length D] D"
    and "lt_postings T = concat (map2 postings_of [0..<length D] D)"
  shows "posting_rows T t = map (hit_row t) (hit_documents D t)"
proof -
  define Z where "Z = filter (\<lambda>x. t \<in> set (doc_tokens (snd x))) (zip [0..<length D] D)"
  have post: "filter (\<lambda>p. pr_term p = t) (lt_postings T) = map (hit_posting t) Z"
    using all_postings_of_term [of t 0 D] by (simp add: assms(2) Z_def)
  have ord: "map (pr_ordinal \<circ> hit_posting t) Z = map int (map fst Z)"
    by (auto simp: hit_posting_def posting_of_def)
  have "sorted (map fst (zip [0..<length D] D))" by simp
  then have "sorted (map fst Z)" unfolding Z_def by (rule sorted_filter)
  then have "sorted (map (pr_ordinal \<circ> hit_posting t) Z)"
    unfolding ord by (simp add: sorted_map sorted_wrt_map)
  then have sk: "sort_key pr_ordinal (map (hit_posting t) Z) = map (hit_posting t) Z"
    by (intro sort_key_id_if_sorted) simp
  have "map (\<lambda>d. (dr_document_id d, dr_length d, pr_term_frequency (hit_posting t x)))
      (filter (\<lambda>d. dr_ordinal d = pr_ordinal (hit_posting t x)) (lt_documents T)) = [hit_row t (snd x)]"
    if "x \<in> set Z" for x
  proof -
    obtain j d where x: "x = (j, d)" by (cases x)
    with that have "(j, d) \<in> set (zip [0..<0 + length D] D)" by (simp add: Z_def)
    from rows_of_ordinal [OF this] show ?thesis
      by (simp add: x assms(1) hit_posting_def posting_of_def row_of_def hit_row_def)
  qed
  then have "posting_rows T t = concat (map (\<lambda>x. [hit_row t (snd x)]) Z)"
    unfolding posting_rows_def post sk map_map
    by (intro arg_cong [of _ _ concat] map_cong) simp_all
  also have "\<dots> = map (\<lambda>x. hit_row t (snd x)) Z" by (induction Z) simp_all
  also have "\<dots> = map (hit_row t) (hit_documents D t)"
    unfolding Z_def hit_documents_def by (rule map_filter_zip) simp
  finally show ?thesis .
qed

end
