(* ===== verification/Bm25.thy ===== *)
theory Bm25
  imports Index_Lexical
begin

text \<open>
  The BM25 score of a matched term is positive and finite: rounding, the constants and the
  corpus size cannot make it vanish or overflow, for corpora of up to \<open>2^40\<close> documents and
  tokens. The logarithm is a parameter; \<open>ln_spec\<close> is what is used of it.
\<close>

text \<open>For a finite \<open>x\<close> above one, \<open>ln x\<close> lies between \<open>2^-74\<close> and \<open>2^26\<close>.\<close>

definition ln_spec :: "(f64 \<Rightarrow> f64) \<Rightarrow> bool" where
  "ln_spec f64_ln \<longleftrightarrow> (\<forall>a. d_unit < a \<and> a < d_limit \<longrightarrow> between 1000 1100 (f64_ln (Finite (int a))))"

lemma pow_less: "a < b \<Longrightarrow> (2::nat) ^ a < 2 ^ b"
  by (rule power_strict_increasing) simp_all

lemma pow_le: "a \<le> b \<Longrightarrow> (2::nat) ^ a \<le> 2 ^ b"
  by (rule power_increasing) simp_all

lemma d_of_nat_exact:
  assumes "n \<le> 2 ^ 40"
  shows "d_of_nat n = Finite (int (n * d_unit))"
proof -
  have "n \<le> 2 ^ 53" using assms by simp
  then have r: "representable (n * d_unit)" unfolding d_unit_def by (rule representableI)
  have "n * d_unit \<le> 2 ^ 40 * d_unit" using assms by simp
  also have "\<dots> < d_limit" unfolding d_unit_def d_limit_def power_add [symmetric] by (rule pow_less) simp
  finally have "n * d_unit < d_limit" .
  with r d_ratio_nat [of 1 "n * d_unit" "n * d_unit"] show ?thesis
    by (simp add: d_of_nat_def round_representable)
qed

lemma d_of_nat_between:
  assumes "0 < n" "n \<le> 2 ^ 40"
  shows "between 1074 1114 (d_of_nat n)"
proof -
  have "2 ^ 1074 \<le> n * d_unit" using assms(1) by (simp add: d_unit_def)
  moreover have "n * d_unit \<le> 2 ^ 40 * d_unit" using assms(2) by simp
  then have "n * d_unit \<le> 2 ^ 1114" by (simp add: d_unit_def)
  ultimately show ?thesis unfolding between_def d_of_nat_exact [OF assms(2)] by blast
qed

lemma d_lit_between:
  assumes "0 < d" "2 ^ a * d \<le> n * d_unit" "n * d_unit \<le> 2 ^ b * d" "b < 2098"
  shows "between a b (d_lit n d)"
  using between_ratio [OF assms] by (simp add: d_lit_def)

lemma constants_between:
  "between 1075 1076 (d_lit 22 10)" "between 1074 1075 (d_lit 12 10)" "between 1073 1074 (d_lit 75 100)"
  by (rule d_lit_between; simp add: d_unit_def)+

lemma lit_half: "d_lit 1 2 = Finite (2 ^ 1073)"
proof -
  have r: "representable (2 ^ 1073)" by (rule power_representable)
  have "round_ratio d_unit 2 = 2 ^ 1073"
  proof (rule antisym)
    show "round_ratio d_unit 2 \<le> 2 ^ 1073" by (rule round_ratio_upper [OF _ r]) (simp_all add: d_unit_def)
    show "2 ^ 1073 \<le> round_ratio d_unit 2" by (rule round_ratio_lower [OF _ r]) (simp_all add: d_unit_def)
  qed
  moreover have "(2::nat) ^ 1073 < d_limit" unfolding d_limit_def by (rule pow_less) simp
  ultimately show ?thesis
    using d_ratio_nat [OF _ r, of 2 d_unit] by (simp add: d_lit_def d_unit_def)
qed

lemma lit_three_quarters: "d_lit 75 100 = Finite (3 * 2 ^ 1072)"
proof -
  have r: "representable (3 * 2 ^ 1072)" by (rule representableI) simp
  have "round_ratio (75 * d_unit) 100 = 3 * 2 ^ 1072"
  proof (rule antisym)
    show "round_ratio (75 * d_unit) 100 \<le> 3 * 2 ^ 1072"
      by (rule round_ratio_upper [OF _ r]) (simp_all add: d_unit_def)
    show "3 * 2 ^ 1072 \<le> round_ratio (75 * d_unit) 100"
      by (rule round_ratio_lower [OF _ r]) (simp_all add: d_unit_def)
  qed
  moreover have "(3::nat) * 2 ^ 1072 < d_limit"
  proof -
    have "(3::nat) * 2 ^ 1072 < 2 ^ 1074" by simp
    also have "\<dots> < d_limit" unfolding d_limit_def by (rule pow_less) simp
    finally show ?thesis .
  qed
  ultimately show ?thesis
    using d_ratio_nat [OF _ r, of 100 "75 * d_unit"] by (simp add: d_lit_def d_unit_def)
qed

lemma quarter_between: "between 1072 1072 (d_sub (d_of_nat 1) (d_lit 75 100))"
proof -
  have "d_sub (d_of_nat 1) (d_lit 75 100) = d_ratio (int (2 ^ 1072)) 1"
    by (simp add: d_sub_def lit_three_quarters d_of_nat_exact d_unit_def)
  then show ?thesis using between_ratio [of 1 1072 "2 ^ 1072" 1072] by simp
qed

lemma between_max:
  assumes "between a b x" "between a' b' y"
  shows "between (max a a') (max b b') (d_max x y)"
proof -
  from assms obtain v w where x: "x = Finite (int v)" "2 ^ a \<le> v" "v \<le> 2 ^ b"
    and y: "y = Finite (int w)" "2 ^ a' \<le> w" "w \<le> 2 ^ b'" by (auto simp: between_def)
  have m: "d_max x y = Finite (int (max v w))" by (simp add: x y d_max_def max_def)
  have "2 ^ max a a' \<le> max v w" using x(2) y(2) by (simp add: max_def)
  moreover have "max v w \<le> 2 ^ max b b'"
    using order_trans [OF x(3) pow_le [of b "max b b'"]] order_trans [OF y(3) pow_le [of b' "max b b'"]]
    by simp
  ultimately show ?thesis unfolding between_def m by blast
qed

lemma average_between:
  assumes "0 < t" "t \<le> 2 ^ 40" "n \<le> 2 ^ 40"
  shows "between 1034 1114 (average_of t n)"
  unfolding average_of_def
  by (rule between_div [OF d_of_nat_between d_of_nat_between]) (use assms in simp_all)

lemma bm25_term_between:
  assumes "between 1000 1100 idf" "0 < tf" "tf \<le> 2 ^ 40" "0 < len" "len \<le> 2 ^ 40" "between 1034 1114 avg"
  shows "between 958 1142 (bm25_term idf tf len avg)"
proof -
  have one: "between 1074 1114 (d_of_nat 1)" by (rule d_of_nat_between) simp_all
  note tf = d_of_nat_between [OF assms(2,3)] and len = d_of_nat_between [OF assms(4,5)]
  have "between 1074 1114 (d_max avg (d_of_nat 1))" using between_max [OF assms(6) one] by simp
  moreover have "between 1073 1114 (d_mul (d_lit 75 100) (d_of_nat len))"
    by (rule between_mul [OF constants_between(3) len]) simp_all
  ultimately have "between 1033 1114 (d_div (d_mul (d_lit 75 100) (d_of_nat len)) (d_max avg (d_of_nat 1)))"
    by (intro between_div [where a = 1073 and b = 1114 and a' = 1074 and b' = 1114]) simp_all
  then have "between 1072 1115 (d_add (d_sub (d_of_nat 1) (d_lit 75 100))
      (d_div (d_mul (d_lit 75 100) (d_of_nat len)) (d_max avg (d_of_nat 1))))"
    using between_add [OF quarter_between, where b'' = 1115] by fastforce
  then have "between 1072 1116 (d_mul (d_lit 12 10) (d_add (d_sub (d_of_nat 1) (d_lit 75 100))
      (d_div (d_mul (d_lit 75 100) (d_of_nat len)) (d_max avg (d_of_nat 1)))))"
    by (rule between_mul [OF constants_between(2)]) simp_all
  then have den: "between 1074 1117 (d_add (d_of_nat tf) (d_mul (d_lit 12 10)
      (d_add (d_sub (d_of_nat 1) (d_lit 75 100))
        (d_div (d_mul (d_lit 75 100) (d_of_nat len)) (d_max avg (d_of_nat 1))))))"
    using between_add [OF tf, where b'' = 1117] by fastforce
  have "between 1075 1116 (d_mul (d_of_nat tf) (d_lit 22 10))"
    by (rule between_mul [OF tf constants_between(1)]) simp_all
  then have num: "between 1001 1142 (d_mul idf (d_mul (d_of_nat tf) (d_lit 22 10)))"
    by (rule between_mul [OF assms(1)]) simp_all
  show ?thesis unfolding bm25_term_def by (rule between_div [OF num den]) simp_all
qed

lemma idf_argument:
  assumes "0 < df" "df \<le> n" "n \<le> 2 ^ 40"
  shows "\<exists>a. d_unit < a \<and> a < d_limit \<and>
    d_add (d_div (d_add (d_sub (d_of_nat n) (d_of_nat df)) (d_lit 1 2)) (d_add (d_of_nat df) (d_lit 1 2)))
      (d_of_nat 1) = Finite (int a)"
proof -
  have df: "df \<le> 2 ^ 40" using assms by simp
  have k: "n - df \<le> 2 ^ 40" using assms by simp
  have "d_sub (d_of_nat n) (d_of_nat df) = d_ratio (int ((n - df) * d_unit)) 1"
    using assms(2) by (simp add: d_sub_def d_of_nat_exact [OF assms(3)] d_of_nat_exact [OF df] of_nat_diff
        left_diff_distrib)
  also have "\<dots> = Finite (int ((n - df) * d_unit))"
    using d_of_nat_exact [OF k] by (simp add: d_of_nat_def)
  finally have "d_add (d_sub (d_of_nat n) (d_of_nat df)) (d_lit 1 2) =
      d_ratio (int ((n - df) * d_unit + 2 ^ 1073)) 1"
    by (simp only: lit_half d_add.simps of_nat_add of_nat_power of_nat_numeral)
  moreover have "between 1073 1116 (d_ratio (int ((n - df) * d_unit + 2 ^ 1073)) 1)"
  proof (rule between_ratio)
    have "(n - df) * d_unit \<le> 2 ^ 40 * d_unit" using k by simp
    then show "(n - df) * d_unit + 2 ^ 1073 \<le> 2 ^ 1116 * 1" by (simp add: d_unit_def)
  qed simp_all
  ultimately have num: "between 1073 1116 (d_add (d_sub (d_of_nat n) (d_of_nat df)) (d_lit 1 2))" by simp
  have half: "between 1073 1073 (d_lit 1 2)" unfolding lit_half between_def by (rule exI [of _ "2 ^ 1073"]) simp
  have den: "between 1074 1115 (d_add (d_of_nat df) (d_lit 1 2))"
    using between_add [OF d_of_nat_between [OF assms(1) df] half, where b'' = 1115] by simp
  have "between 1032 1116 (d_div (d_add (d_sub (d_of_nat n) (d_of_nat df)) (d_lit 1 2))
      (d_add (d_of_nat df) (d_lit 1 2)))" by (rule between_div [OF num den]) simp_all
  then obtain v where v: "d_div (d_add (d_sub (d_of_nat n) (d_of_nat df)) (d_lit 1 2))
      (d_add (d_of_nat df) (d_lit 1 2)) = Finite (int v)" and lo: "2 ^ 1032 \<le> v" and hi: "v \<le> 2 ^ 1116"
    by (auto simp: between_def)
  have sum: "d_add (Finite (int v)) (d_of_nat 1) = d_ratio (int (v + d_unit)) 1"
    by (simp add: d_of_nat_exact)
  have r: "representable (2 ^ 1117)" by (rule power_representable)
  have u: "v + d_unit \<le> 2 ^ 1117 * 1" using hi by (simp add: d_unit_def)
  have lim: "(2::nat) ^ 1117 < d_limit" unfolding d_limit_def by (rule pow_less) simp
  have r': "representable ((2 ^ 42 + 1) * 2 ^ 1032)" by (rule representableI) simp
  have "(2 ^ 42 + 1) * 2 ^ 1032 \<le> round_ratio (v + d_unit) 1"
    by (rule round_ratio_lower [OF _ r']) (use lo in \<open>simp_all add: d_unit_def\<close>)
  moreover have "d_unit < (2 ^ 42 + 1) * 2 ^ 1032" by (simp add: d_unit_def)
  ultimately have "d_unit < round_ratio (v + d_unit) 1" by simp
  moreover have "round_ratio (v + d_unit) 1 < d_limit"
    using round_ratio_upper [OF zero_less_one r u] lim by simp
  ultimately show ?thesis
    unfolding v sum d_ratio_nat [OF zero_less_one r lim u] by blast
qed

lemma bm25_idf_between:
  assumes "ln_spec f64_ln" "0 < df" "df \<le> n" "n \<le> 2 ^ 40"
  shows "between 1000 1100 (bm25_idf f64_ln n df)"
  using idf_argument [OF assms(2-4)] assms(1) unfolding bm25_idf_def ln_spec_def by metis

lemma between_pos: "between a b x \<Longrightarrow> d_pos x"
  unfolding between_def using less_le_trans [of 0 "(2::nat) ^ a"] by fastforce

lemma constant_ln_spec: "ln_spec (\<lambda>_. d_of_nat 1)"
proof -
  have "between 1000 1100 (d_of_nat 1)"
    unfolding between_def by (rule exI [of _ d_unit]) (simp add: d_of_nat_exact d_unit_def)
  then show ?thesis by (simp add: ln_spec_def)
qed

end
