(* ===== verification/Lexical_Agreement.thy ===== *)
theory Lexical_Agreement
  imports Lexical_Ranking Bm25
begin

text \<open>
  The two lexical backends give the same ranking. Version 3 adds the scores of one term after
  another to a map, version 2 sums the terms of one document after another; the theorem follows
  the map through the terms and compares it with the sums.
\<close>

subsection \<open>Accumulated scores\<close>

definition matches :: "string list \<Rightarrow> fast_document \<Rightarrow> bool" where
  "matches ts d \<longleftrightarrow> (\<exists>t \<in> set ts. t \<in> set (doc_tokens d))"

definition total_score :: "(fast_document \<Rightarrow> string \<Rightarrow> f64) \<Rightarrow> string list \<Rightarrow> fast_document \<Rightarrow> f64" where
  "total_score value ts d =
     foldl d_add (Finite 0) (map (value d) (filter (\<lambda>t. t \<in> set (doc_tokens d)) ts))"

definition accumulated ::
    "fast_document list \<Rightarrow> eligible_documents \<Rightarrow> (fast_document \<Rightarrow> string \<Rightarrow> f64) \<Rightarrow> string list
     \<Rightarrow> (string, f64) btree \<Rightarrow> bool" where
  "accumulated D eligible value ts m \<longleftrightarrow> bt_ok m \<and>
     (\<forall>d \<in> set D. bt_get m (fd_document_id d) =
        (if is_eligible eligible (fd_document_id d) \<and> matches ts d then Some (total_score value ts d) else None)) \<and>
     (\<forall>i. i \<notin> fd_document_id ` set D \<longrightarrow> bt_get m i = None)"

lemma add_score_ok: "bt_ok m \<Longrightarrow> bt_ok (add_score i v m)"
  by (simp add: add_score_def bt_insert_ok)

lemma fold_add_score:
  fixes v :: "fast_document \<Rightarrow> f64"
  assumes "distinct (map fd_document_id H)" "bt_ok m"
  defines "m' \<equiv> fold (\<lambda>d. add_score (fd_document_id d) (v d)) H m"
  shows "bt_ok m'"
    and "i \<notin> fd_document_id ` set H \<Longrightarrow> bt_get m' i = bt_get m i"
    and "d \<in> set H \<Longrightarrow> bt_get m' (fd_document_id d) =
      Some (d_add (case bt_get m (fd_document_id d) of None \<Rightarrow> Finite 0 | Some x \<Rightarrow> x) (v d))"
proof -
  have g: "bt_ok m \<Longrightarrow> bt_get (add_score i v m) = (bt_get m)(i \<mapsto>
      d_add (case bt_get m i of None \<Rightarrow> Finite 0 | Some x \<Rightarrow> x) v)" for i v m
    by (simp add: add_score_def bt_insert_get)
  have *: "bt_ok (fold (\<lambda>d. add_score (fd_document_id d) (v d)) H m) \<and>
    (\<forall>i. i \<notin> fd_document_id ` set H \<longrightarrow>
      bt_get (fold (\<lambda>d. add_score (fd_document_id d) (v d)) H m) i = bt_get m i) \<and>
    (\<forall>d \<in> set H. bt_get (fold (\<lambda>d. add_score (fd_document_id d) (v d)) H m) (fd_document_id d) =
      Some (d_add (case bt_get m (fd_document_id d) of None \<Rightarrow> Finite 0 | Some x \<Rightarrow> x) (v d)))"
    using assms(1,2)
  proof (induction H arbitrary: m)
    case (Cons e H)
    have "fd_document_id d \<noteq> fd_document_id e" if "d \<in> set H" for d
      using Cons.prems(1) that by (auto simp: rev_image_eqI)
    with Cons.IH [of "add_score (fd_document_id e) (v e) m"] Cons.prems
    show ?case by (simp add: add_score_ok g)
  qed simp
  then show "bt_ok m'" and "i \<notin> fd_document_id ` set H \<Longrightarrow> bt_get m' i = bt_get m i"
    and "d \<in> set H \<Longrightarrow> bt_get m' (fd_document_id d) =
      Some (d_add (case bt_get m (fd_document_id d) of None \<Rightarrow> Finite 0 | Some x \<Rightarrow> x) (v d))"
    by (simp_all add: m'_def)
qed

lemma score_rows_ok:
  assumes "\<forall>d \<in> set H. t \<in> set (doc_tokens d)"
  shows "try_fold (score_row eligible idf avg) m (map (hit_row t) H) =
    Inr (fold (\<lambda>d. add_score (fd_document_id d)
        (bm25_term idf (count_list (doc_tokens d) t) (length (doc_tokens d)) avg))
      (filter (\<lambda>d. is_eligible eligible (fd_document_id d)) H) m)"
  using assms
proof (induction H arbitrary: m)
  case (Cons d H)
  have "count_list (doc_tokens d) t \<noteq> 0" using Cons.prems by (simp add: count_list_0_iff)
  with Cons show ?case
    by (simp add: hit_row_def score_row_def u64_from_def)
qed simp

lemma accumulated_step:
  assumes "accumulated D eligible value ts m" and dist: "distinct (map fd_document_id D)"
  shows "accumulated D eligible value (ts @ [t])
    (fold (\<lambda>d. add_score (fd_document_id d) (value d t))
       (filter (\<lambda>d. is_eligible eligible (fd_document_id d)) (hit_documents D t)) m)"
proof -
  define H where "H = filter (\<lambda>d. is_eligible eligible (fd_document_id d)) (hit_documents D t)"
  have m: "bt_ok m" using assms(1) by (simp add: accumulated_def)
  have dH: "distinct (map fd_document_id H)"
    unfolding H_def hit_documents_def using dist by (simp add: distinct_map_filter)
  have inH: "d \<in> set H \<longleftrightarrow> t \<in> set (doc_tokens d) \<and> is_eligible eligible (fd_document_id d)" if "d \<in> set D" for d
    using that by (auto simp: H_def hit_documents_def)
  have sub: "set H \<subseteq> set D" by (auto simp: H_def hit_documents_def)
  note F = fold_add_score [OF dH m, where v = "\<lambda>d. value d t"]
  have "bt_get (fold (\<lambda>d. add_score (fd_document_id d) (value d t)) H m) (fd_document_id d) =
      (if is_eligible eligible (fd_document_id d) \<and> matches (ts @ [t]) d
       then Some (total_score value (ts @ [t]) d) else None)" if d: "d \<in> set D" for d
  proof -
    have old: "bt_get m (fd_document_id d) =
        (if is_eligible eligible (fd_document_id d) \<and> matches ts d then Some (total_score value ts d) else None)"
      using assms(1) d by (simp add: accumulated_def)
    have zero: "\<not> matches ts d \<Longrightarrow> total_score value ts d = Finite 0"
    proof -
      assume "\<not> matches ts d"
      then have "filter (\<lambda>t. t \<in> set (doc_tokens d)) ts = []" by (simp add: matches_def filter_empty_conv)
      then show "total_score value ts d = Finite 0" by (simp add: total_score_def)
    qed
    show ?thesis
    proof (cases "d \<in> set H")
      case True
      then have "t \<in> set (doc_tokens d)" "is_eligible eligible (fd_document_id d)" using inH [OF d] by auto
      with F(3) [OF True] old zero show ?thesis by (simp add: matches_def total_score_def)
    next
      case False
      have "fd_document_id d \<notin> fd_document_id ` set H"
        using False sub d dist by (auto simp: distinct_map dest: inj_onD)
      then have new: "bt_get (fold (\<lambda>d. add_score (fd_document_id d) (value d t)) H m) (fd_document_id d) =
          bt_get m (fd_document_id d)" by (rule F(2))
      show ?thesis
      proof (cases "is_eligible eligible (fd_document_id d)")
        case True
        then have "t \<notin> set (doc_tokens d)" using False inH [OF d] by simp
        then have "matches (ts @ [t]) d = matches ts d" "total_score value (ts @ [t]) d = total_score value ts d"
          by (simp_all add: matches_def total_score_def)
        then show ?thesis by (simp only: new old)
      next
        case False
        then show ?thesis by (simp only: new old simp_thms if_False)
      qed
    qed
  qed
  moreover have "\<forall>i. i \<notin> fd_document_id ` set D \<longrightarrow>
      bt_get (fold (\<lambda>d. add_score (fd_document_id d) (value d t)) H m) i = None"
  proof (intro allI impI)
    fix i assume i: "i \<notin> fd_document_id ` set D"
    then have "i \<notin> fd_document_id ` set H" using sub by blast
    from F(2) [OF this] i assms(1)
    show "bt_get (fold (\<lambda>d. add_score (fd_document_id d) (value d t)) H m) i = None"
      by (simp add: accumulated_def)
  qed
  ultimately show ?thesis using F(1) by (simp add: accumulated_def H_def)
qed

subsection \<open>Both backends\<close>

definition term_value :: "(f64 \<Rightarrow> f64) \<Rightarrow> fast_document list \<Rightarrow> fast_document \<Rightarrow> string \<Rightarrow> f64" where
  "term_value f64_ln D d t =
     bm25_term (bm25_idf f64_ln (length D) (df_of D t)) (count_list (doc_tokens d) t)
       (length (doc_tokens d)) (average_of (tokens_of D) (length D))"

lemma score_terms_ok:
  assumes "lt_documents T = map2 row_of [0..<length D] D"
    and "lt_postings T = concat (map2 postings_of [0..<length D] D)"
    and "lt_term_stats T = frequencies D []"
    and "distinct (map fd_document_id D)"
    and "accumulated D eligible (term_value f64_ln D) ts m"
  shows "\<exists>m'. try_fold (score_term f64_ln \<lparr>si_tables = T, si_document_count = length D,
        si_total_length = tokens_of D\<rparr> eligible (average_of (tokens_of D) (length D))) m us = Inr m' \<and>
      accumulated D eligible (term_value f64_ln D) (ts @ us) m'"
  using assms(5)
proof (induction us arbitrary: ts m)
  case (Cons t us)
  let ?S = "\<lparr>si_tables = T, si_document_count = length D, si_total_length = tokens_of D\<rparr>"
  let ?avg = "average_of (tokens_of D) (length D)"
  let ?m = "fold (\<lambda>d. add_score (fd_document_id d) (term_value f64_ln D d t))
      (filter (\<lambda>d. is_eligible eligible (fd_document_id d)) (hit_documents D t)) m"
  have acc: "accumulated D eligible (term_value f64_ln D) (ts @ [t]) ?m"
    by (rule accumulated_step [OF Cons.prems assms(4)])
  have "score_term f64_ln ?S eligible ?avg m t = Inr ?m"
  proof (cases "hit_documents D t = []")
    case True
    then show ?thesis by (simp add: score_term_def assms(3) frequencies_get)
  next
    case False
    have le: "df_of D t \<le> length D" by (simp add: df_of_def hit_documents_def)
    have pos: "df_of D t \<noteq> 0" using False by (simp add: df_of_def)
    have all: "\<forall>d \<in> set (hit_documents D t). t \<in> set (doc_tokens d)" by (simp add: hit_documents_def)
    show ?thesis
      using False le pos score_rows_ok [OF all, of eligible
          "bm25_idf f64_ln (length D) (df_of D t)" ?avg m]
      by (simp add: score_term_def assms(3) frequencies_get u64_from_def
          posting_rows_written [OF assms(1,2)] term_value_def)
  qed
  with Cons.IH [OF acc] show ?case by simp
qed simp

lemma total_score_ok:
  assumes "\<And>t. d_ok (value d t)"
  shows "d_ok (total_score value ts d)"
    and "total_score value ts d =
      foldl d_add (Finite 0) (map (\<lambda>t. if t \<in> set (doc_tokens d) then value d t else Finite 0) ts)"
proof -
  have "d_ok (total_score value ts d) \<and> total_score value ts d =
      foldl d_add (Finite 0) (map (\<lambda>t. if t \<in> set (doc_tokens d) then value d t else Finite 0) ts)"
  proof (induction ts rule: rev_induct)
    case (snoc t ts)
    have *: "total_score value (ts @ [t]) d =
        (if t \<in> set (doc_tokens d) then d_add (total_score value ts d) (value d t) else total_score value ts d)"
      by (simp add: total_score_def)
    show ?case
      unfolding * using snoc d_add_zero [of "total_score value ts d"] d_add_ok assms by auto
  qed (simp add: total_score_def representable_def d_limit_pos)
  then show "d_ok (total_score value ts d)"
    and "total_score value ts d =
      foldl d_add (Finite 0) (map (\<lambda>t. if t \<in> set (doc_tokens d) then value d t else Finite 0) ts)"
    by blast+
qed

lemma total_score_pos:
  assumes "\<And>t. d_ok (value d t)" and "\<And>t. t \<in> set (doc_tokens d) \<Longrightarrow> d_pos (value d t)"
  shows "d_pos (total_score value ts d) \<longleftrightarrow> matches ts d"
proof (induction ts rule: rev_induct)
  case (snoc t ts)
  have *: "total_score value (ts @ [t]) d =
      (if t \<in> set (doc_tokens d) then d_add (total_score value ts d) (value d t) else total_score value ts d)"
    by (simp add: total_score_def)
  show ?case
  proof (cases "t \<in> set (doc_tokens d)")
    case True
    have "d_pos (d_add (total_score value ts d) (value d t))"
    proof (cases "matches ts d")
      case True
      with snoc show ?thesis using assms(2) [OF \<open>t \<in> set (doc_tokens d)\<close>] by (simp add: d_add_pos)
    next
      case False
      then have "filter (\<lambda>t. t \<in> set (doc_tokens d)) ts = []" by (simp add: matches_def filter_empty_conv)
      then have "total_score value ts d = Finite 0" by (simp add: total_score_def)
      then show ?thesis using assms(2) [OF \<open>t \<in> set (doc_tokens d)\<close>] d_zero_add [OF assms(1)] by simp
    qed
    with True show ?thesis by (simp add: * matches_def)
  next
    case False
    with snoc show ?thesis by (simp add: * matches_def)
  qed
qed (simp add: total_score_def matches_def)

lemma term_value_ok: "d_ok (term_value f64_ln D d t)"
  by (simp add: term_value_def bm25_term_def d_div_ok)

lemma term_value_pos:
  assumes "ln_spec f64_ln" "length D \<le> 2 ^ 40" "tokens_of D \<le> 2 ^ 40" "d \<in> set D" "t \<in> set (doc_tokens d)"
  shows "d_pos (term_value f64_ln D d t)"
proof -
  have "d \<in> set (hit_documents D t)" using assms(4,5) by (simp add: hit_documents_def)
  then have df: "0 < df_of D t" unfolding df_of_def by (cases "hit_documents D t") simp_all
  have le: "df_of D t \<le> length D" by (simp add: df_of_def hit_documents_def)
  have len: "length (doc_tokens d) \<le> tokens_of D"
    unfolding tokens_of_def by (rule member_le_sum_list) (use assms(4) in auto)
  have tf: "0 < count_list (doc_tokens d) t" using assms(5) by (simp add: count_list_0_iff flip: neq0_conv)
  have tf_len: "count_list (doc_tokens d) t \<le> length (doc_tokens d)" by (rule count_le_length)
  have pos: "0 < length (doc_tokens d)" using assms(5) by (cases "doc_tokens d") simp_all
  have total_pos: "0 < tokens_of D" using less_le_trans [OF pos len] .
  have "between 958 1142 (term_value f64_ln D d t)"
    unfolding term_value_def
    by (rule bm25_term_between [OF bm25_idf_between [OF assms(1) df le assms(2)] tf _ pos _ average_between])
      (use assms(2,3) len tf_len pos total_pos in simp_all)
  then show ?thesis by (rule between_pos)
qed

lemma accumulated_entries:
  assumes "accumulated D eligible value ts m" and "sorted_wrt (<) (map fd_document_id D)"
  shows "m = map (\<lambda>d. (fd_document_id d, total_score value ts d))
      (filter (\<lambda>d. is_eligible eligible (fd_document_id d) \<and> matches ts d) D)" (is "m = ?L")
proof (rule bt_entries_unique)
  show m: "bt_ok m" using assms(1) by (simp add: accumulated_def)
  have "map fst ?L = map fd_document_id (filter (\<lambda>d. is_eligible eligible (fd_document_id d) \<and> matches ts d) D)"
    by simp
  moreover have "sorted_wrt (<) (map fd_document_id (filter P D))" for P
    using assms(2) by (simp add: sorted_wrt_map sorted_wrt_filter)
  ultimately show "bt_ok ?L" by (simp only: bt_ok_def)
  have inj: "distinct (map fd_document_id D)"
    using assms(2) by (simp add: strict_sorted_iff)
  fix k v
  show "(k, v) \<in> set m \<longleftrightarrow> (k, v) \<in> set ?L"
  proof
    assume "(k, v) \<in> set m"
    then have get: "bt_get m k = Some v" using m by (simp add: bt_get_iff)
    then have "k \<in> fd_document_id ` set D" using assms(1) by (auto simp: accumulated_def)
    then obtain d where d: "d \<in> set D" "k = fd_document_id d" by blast
    with get assms(1) show "(k, v) \<in> set ?L" by (auto simp: accumulated_def split: if_splits)
  next
    assume "(k, v) \<in> set ?L"
    then have "bt_get m k = Some v" using assms(1) by (auto simp: accumulated_def)
    with m show "(k, v) \<in> set m" by (simp add: bt_get_iff)
  qed
qed

lemma lexical_document_score_written:
  fixes D :: "fast_document list" and read_json :: "f64 \<Rightarrow> f64"
  defines "index \<equiv> write_lexical_from_documents read_json D (length D) (tokens_of D) (frequencies D [])"
  assumes "read_json (average_of (tokens_of D) (length D)) = average_of (tokens_of D) (length D)"
    and "d \<in> set D"
  shows "lexical_document_score f64_ln index ts (lexical_document_of d) = total_score (term_value f64_ln D) ts d"
proof -
  have "lexical_term_score f64_ln index (lexical_document_of d) =
      (\<lambda>t. if t \<in> set (doc_tokens d) then term_value f64_ln D d t else Finite 0)"
  proof
    fix t
    show "lexical_term_score f64_ln index (lexical_document_of d) t =
        (if t \<in> set (doc_tokens d) then term_value f64_ln D d t else Finite 0)"
  proof (cases "t \<in> set (doc_tokens d)")
    case True
    then have "hit_documents D t \<noteq> []" using assms(3) by (auto simp: hit_documents_def filter_empty_conv)
    moreover have "count_list (doc_tokens d) t \<noteq> 0" using True by (simp add: count_list_0_iff)
    ultimately show ?thesis
      using True by (simp add: lexical_term_score_def lexical_document_of_def Let_def term_counts_get
          index_def write_lexical_from_documents_def frequencies_get term_counts_sum assms(2) term_value_def)
  next
    case False
    then show ?thesis
      by (simp add: lexical_term_score_def lexical_document_of_def Let_def term_counts_get)
  qed
  qed
  then show ?thesis
    by (simp add: lexical_document_score_def total_score_ok(2) term_value_ok)
qed

lemma written_lexical_scores:
  assumes "read_json (average_of (tokens_of D) (length D)) = average_of (tokens_of D) (length D)"
    and "ln_spec f64_ln" "length D \<le> 2 ^ 40" "tokens_of D \<le> 2 ^ 40"
  shows "lexical_scores f64_ln
      (write_lexical_from_documents read_json D (length D) (tokens_of D) (frequencies D [])) query eligible =
    sort_scores (map (\<lambda>d. (fd_document_id d, total_score (term_value f64_ln D) (btree_set (tokenize query)) d))
      (filter (\<lambda>d. is_eligible eligible (fd_document_id d) \<and> matches (btree_set (tokenize query)) d) D))"
proof -
  let ?ts = "btree_set (tokenize query)"
  let ?index = "write_lexical_from_documents read_json D (length D) (tokens_of D) (frequencies D [])"
  let ?el = "\<lambda>d. is_eligible eligible (fd_document_id d)"
  have pos: "d_pos (total_score (term_value f64_ln D) ?ts d) \<longleftrightarrow> matches ?ts d" if "d \<in> set D" for d
    using that by (intro total_score_pos term_value_ok term_value_pos [OF assms(2-4)])
  have "filter (\<lambda>doc. is_eligible eligible (ld_document_id doc)) (li_documents ?index) =
      map lexical_document_of (filter ?el D)"
    by (simp add: write_lexical_from_documents_def filter_map comp_def lexical_document_of_def Let_def)
  then have "map (\<lambda>doc. (ld_document_id doc, lexical_document_score f64_ln ?index ?ts doc))
      (filter (\<lambda>doc. is_eligible eligible (ld_document_id doc)) (li_documents ?index)) =
      map (\<lambda>d. (fd_document_id d, total_score (term_value f64_ln D) ?ts d)) (filter ?el D)"
    using lexical_document_score_written [where D = D and read_json = read_json, OF assms(1)]
    by (simp add: lexical_document_of_def [of _] Let_def)
  moreover have "filter (\<lambda>(i, s). d_pos s) (map (\<lambda>d. (fd_document_id d, total_score (term_value f64_ln D) ?ts d))
      (filter ?el D)) = map (\<lambda>d. (fd_document_id d, total_score (term_value f64_ln D) ?ts d))
      (filter (\<lambda>d. ?el d \<and> matches ?ts d) D)"
    using pos by (simp add: filter_map comp_def conj_commute cong: filter_cong)
  ultimately show ?thesis by (simp add: lexical_scores_def Let_def)
qed

text \<open>
  C18: The JSON index of version 2 and the SQLite index of version 3 rank alike: built from the same
  documents, in ascending order of their identifiers, they return the same scores in the same
  order for every query and every set of eligible documents. Required are the range of
  the logarithm, a corpus of at most \<open>2^40\<close> documents and tokens, and that the average length
  survives being printed to JSON and read back.
\<close>

theorem lexical_backends_agree:
  assumes "sorted_wrt (<) (map fd_document_id D)"
    and "try_fold (\<lambda>s d. legacy_stats (fd_semantic_text d) s) (0, []) D = Inr (total_tokens, frequency)"
    and "write_sqlite_lexical_from_documents E D n order_sha256 = Inr T"
    and "read_json (average_of total_tokens n) = average_of total_tokens n"
    and "ln_spec f64_ln" and "n \<le> 2 ^ 40" and "total_tokens \<le> 2 ^ 40"
  shows "map_of (lt_metadata T) ''total_length'' = Some (nat_digits total_tokens) \<and>
    sqlite_scores f64_ln \<lparr>si_tables = T, si_document_count = n, si_total_length = total_tokens\<rparr> query eligible =
      Inr (lexical_scores f64_ln (write_lexical_from_documents read_json D n total_tokens frequency) query eligible)"
proof -
  have freq: "total_tokens = tokens_of D" "frequency = frequencies D []"
    using legacy_stats_fold [OF assms(2)] by simp_all
  from assms(3) obtain W where W: "try_fold write_lexical_document
      \<lparr>lw_tables = empty_tables, lw_document_count = 0, lw_total_length = 0, lw_order = []\<rparr> D = Inr W"
    and n: "n = lw_document_count W" and T: "lt_documents T = lt_documents (lw_tables W)"
      "lt_postings T = lt_postings (lw_tables W)" "lt_term_stats T = lt_term_stats (lw_tables W)"
      "map_of (lt_metadata T) ''total_length'' = Some (nat_digits (lw_total_length W))"
    by (auto simp: write_sqlite_lexical_from_documents_def rbind_eq_Inr Let_def split: if_splits)
  note W = write_lexical_fold [OF W]
  have n: "n = length D" and total_tokens: "lw_total_length W = total_tokens" by (simp_all add: n W freq)
  have tables: "lt_documents T = map2 row_of [0..<length D] D"
    "lt_postings T = concat (map2 postings_of [0..<length D] D)" "lt_term_stats T = frequencies D []"
    by (simp_all add: T W empty_tables_def)
  let ?S = "\<lparr>si_tables = T, si_document_count = n, si_total_length = total_tokens\<rparr>"
  let ?ts = "btree_set (tokenize query)"
  have dist: "distinct (map fd_document_id D)" using assms(1) by (simp add: strict_sorted_iff)
  have empty: "accumulated D eligible (term_value f64_ln D) [] []"
    by (simp add: accumulated_def matches_def)
  obtain m where m: "try_fold (score_term f64_ln ?S eligible (average_of total_tokens n)) [] ?ts = Inr m"
    and acc: "accumulated D eligible (term_value f64_ln D) ?ts m"
    using score_terms_ok [OF tables dist empty, of ?ts] n freq(1) by auto
  have "lexical_scores f64_ln (write_lexical_from_documents read_json D n total_tokens frequency) query eligible =
      sort_scores m"
    unfolding accumulated_entries [OF acc assms(1)] n freq
    by (rule written_lexical_scores) (use assms(4-7) n freq in simp_all)
  moreover have "m = []" if "?ts = []"
    using accumulated_entries [OF acc assms(1)] that by (simp add: matches_def)
  ultimately have "sqlite_scores f64_ln ?S query eligible =
      Inr (lexical_scores f64_ln (write_lexical_from_documents read_json D n total_tokens frequency) query eligible)"
    using m by (auto simp: sqlite_scores_def Let_def sort_scores_def)
  then show ?thesis by (simp add: T(4) total_tokens)
qed

definition agreement_documents :: "fast_document list" where
  "agreement_documents =
     [\<lparr>fd_document_id = ''a'', fd_document_sha256 = [], fd_document_kind = [], fd_semantic_text = ''x y x'',
       fd_facets_json = [], fd_relations_json = [], fd_occurrence_count = 1, fd_vector_ordinal = 0\<rparr>,
      \<lparr>fd_document_id = ''b'', fd_document_sha256 = [], fd_document_kind = [], fd_semantic_text = ''y'',
       fd_facets_json = [], fd_relations_json = [], fd_occurrence_count = 1, fd_vector_ordinal = 1\<rparr>]"

definition agreement_externals :: externals where
  "agreement_externals = \<lparr>sha256_hex = (\<lambda>_. []), jcs_bytes = (\<lambda>_. None), json_from_str = (\<lambda>_. None)\<rparr>"

lemma lexical_backends_agree_witness:
  "\<exists>T. write_sqlite_lexical_from_documents agreement_externals agreement_documents 2 [] = Inr T \<and>
     sqlite_scores (\<lambda>x. d_of_nat 1) \<lparr>si_tables = T, si_document_count = 2, si_total_length = 4\<rparr> ''Y'' None =
       Inr (lexical_scores (\<lambda>x. d_of_nat 1)
         (write_lexical_from_documents (\<lambda>x. x) agreement_documents 2 4 [(''x'', 1), (''y'', 2)]) ''Y'' None)"
proof -
  have s: "sorted_wrt (<) (map fd_document_id agreement_documents)" by code_simp
  have t: "tokenize ''x y x'' = [''x'', ''y'', ''x'']" "tokenize ''y'' = [''y'']"
    "btree_set [''x'', ''y'', ''x''] = [''x'', ''y'']" "btree_set [''y''] = [''y'']" by code_simp+
  have f: "try_fold (\<lambda>s d. legacy_stats (fd_semantic_text d) s) (0, []) agreement_documents =
      Inr (4, [(''x'', 1), (''y'', 2)])"
    by (simp add: agreement_documents_def legacy_stats_def t bump_def bt_get_def)
  have c: "term_counts ''x y x'' = [(''x'', 2), (''y'', 1)]" "term_counts ''y'' = [(''y'', 1)]" by code_simp+
  have "is_ok (write_sqlite_lexical_from_documents agreement_externals agreement_documents 2 [])"
    by (simp add: write_sqlite_lexical_from_documents_def agreement_documents_def write_lexical_document_def
        c checked_total_def i64_from_def insert_document_def write_term_def insert_posting_def
        update_frequency_def empty_tables_def document_order_sha256_def agreement_externals_def)
  then obtain T where T: "write_sqlite_lexical_from_documents agreement_externals agreement_documents 2 [] = Inr T"
    by (auto simp: is_ok_iff)
  have "map_of (lt_metadata T) ''total_length'' = Some (nat_digits 4) \<and>
      sqlite_scores (\<lambda>x. d_of_nat 1) \<lparr>si_tables = T, si_document_count = 2, si_total_length = 4\<rparr> ''Y'' None =
        Inr (lexical_scores (\<lambda>x. d_of_nat 1)
          (write_lexical_from_documents (\<lambda>x. x) agreement_documents 2 4 [(''x'', 1), (''y'', 2)]) ''Y'' None)"
    by (rule lexical_backends_agree [OF s f T _ constant_ln_spec]) simp_all
  with T show ?thesis by blast
qed

end
