(* ===== verification/Index_Occurrences.thy ===== *)
theory Index_Occurrences
  imports Index_Lexical
begin

text \<open>
  The occurrence lookup of \<open>crates/rag-index/src/lib.rs\<close>: the SQLite table the writers fill
  while they stream documents and occurrences, the closure check that seals it, and the two
  filtered reads a search makes. The lemmas say what a sealed table contains and what the
  reads return.
\<close>

record fast_occurrence =
  fo_occurrence_id :: string
  fo_document_id :: string
  fo_event_time_ms :: "u64 option"
  fo_relation :: string
  fo_exact_attributes_json :: string
  fo_snapshot_sha256 :: string
  fo_mapping_sha256 :: string
  fo_event_id :: string
  fo_support_ref :: string

record source_binding =
  sb_snapshot_sha256 :: string
  sb_mapping_sha256 :: string

subsection \<open>The tables\<close>

record occurrence_row =
  or_occurrence_id :: string
  or_document_id :: string
  or_event_time_ms :: "int option"
  or_relation :: string
  or_snapshot_sha256 :: string
  or_mapping_sha256 :: string
  or_event_id :: string
  or_support_ref :: string

record occurrence_lookup =
  ol_assembly_documents :: "(string \<times> int) list"
  ol_occurrences :: "occurrence_row list"
  ol_metadata :: "(string \<times> string) list"

definition create_occurrence_lookup :: occurrence_lookup where
  "create_occurrence_lookup = \<lparr>ol_assembly_documents = [], ol_occurrences = [], ol_metadata = []\<rparr>"

definition insert_assembly_document ::
    "string \<Rightarrow> int \<Rightarrow> occurrence_lookup \<Rightarrow> index_error + occurrence_lookup" where
  "insert_assembly_document i n L =
     (if i \<in> fst ` set (ol_assembly_documents L) then Inl Sqlite
      else Inr (L\<lparr>ol_assembly_documents := ol_assembly_documents L @ [(i, n)]\<rparr>))"

subsection \<open>Writing documents\<close>

record document_writer =
  dw_lookup :: occurrence_lookup
  dw_rows :: "fast_document list"
  dw_previous_id :: "string option"
  dw_stats :: "(nat \<times> (string, nat) btree) option"

definition write_document ::
    "document_writer \<Rightarrow> index_error + fast_document \<Rightarrow> index_error + document_writer" where
  "write_document W item =
     rbind item (\<lambda>d.
     if fd_document_id d = [] \<or> CHR 0x00 \<in> set (fd_document_id d) \<or> fd_occurrence_count d = 0
        \<or> unat (fd_vector_ordinal d) \<noteq> length (dw_rows W)
        \<or> (case dw_previous_id W of None \<Rightarrow> False | Some p \<Rightarrow> fd_document_id d \<le> p)
     then Inl (Invalid ''document association'')
     else rbind (i64_from (Invalid ''document occurrence count'') (unat (fd_occurrence_count d))) (\<lambda>n.
       rbind (insert_assembly_document (fd_document_id d) n (dw_lookup W)) (\<lambda>L.
       rbind (case dw_stats W of None \<Rightarrow> Inr None
              | Some st \<Rightarrow> rbind (legacy_stats (fd_semantic_text d) st) (\<lambda>st'. Inr (Some st'))) (\<lambda>stats.
       if length (dw_rows W) + 1 \<ge> 2 ^ 64 then Inl (Invalid ''document count'')
       else Inr \<lparr>dw_lookup = L, dw_rows = dw_rows W @ [d], dw_previous_id = Some (fd_document_id d),
                 dw_stats = stats\<rparr>))))"

record document_write_summary =
  ds_rows :: nat
  ds_order_sha256 :: string
  ds_stats :: "(nat \<times> (string, nat) btree) option"

text \<open>\<open>write_documents_streaming\<close>: the summary, the tables and the rows of the Parquet file.\<close>

definition write_documents_streaming ::
    "'x externals_scheme \<Rightarrow> (index_error + fast_document) list \<Rightarrow> bool \<Rightarrow> occurrence_lookup
     \<Rightarrow> index_error + document_write_summary \<times> occurrence_lookup \<times> fast_document list" where
  "write_documents_streaming E documents legacy L =
     rbind (try_fold write_document
       \<lparr>dw_lookup = L, dw_rows = [], dw_previous_id = None,
        dw_stats = (if legacy then Some (0, []) else None)\<rparr> documents) (\<lambda>W.
     if dw_rows W = [] then Inl (Invalid ''output/documents'')
     else Inr (\<lparr>ds_rows = length (dw_rows W),
                ds_order_sha256 = document_order_sha256 E (map fd_document_id (dw_rows W)),
                ds_stats = dw_stats W\<rparr>, dw_lookup W, dw_rows W))"

subsection \<open>Writing occurrences\<close>

definition occurrence_row_of :: "fast_occurrence \<Rightarrow> occurrence_row" where
  "occurrence_row_of r =
     \<lparr>or_occurrence_id = fo_occurrence_id r, or_document_id = fo_document_id r,
      or_event_time_ms = (case fo_event_time_ms r of None \<Rightarrow> None
        | Some t \<Rightarrow> if unat t \<ge> 2 ^ 63 then None else Some (int (unat t))),
      or_relation = fo_relation r, or_snapshot_sha256 = fo_snapshot_sha256 r,
      or_mapping_sha256 = fo_mapping_sha256 r, or_event_id = fo_event_id r,
      or_support_ref = fo_support_ref r\<rparr>"

definition write_occurrence ::
    "source_binding \<Rightarrow> occurrence_lookup \<times> fast_occurrence list \<Rightarrow> index_error + fast_occurrence
     \<Rightarrow> index_error + occurrence_lookup \<times> fast_occurrence list" where
  "write_occurrence source = (\<lambda>(L, rows) item.
     rbind item (\<lambda>r.
     if fo_occurrence_id r = [] \<or> fo_event_id r = [] \<or> fo_support_ref r = []
        \<or> fo_snapshot_sha256 r \<noteq> sb_snapshot_sha256 source
        \<or> fo_mapping_sha256 r \<noteq> sb_mapping_sha256 source
        \<or> unat (case fo_event_time_ms r of None \<Rightarrow> 0 | Some t \<Rightarrow> t) \<ge> 2 ^ 63
     then Inl (Invalid ''occurrence source closure'')
     else if length rows + 1 \<ge> 2 ^ 64 then Inl (Invalid ''occurrence count'')
     else Inr (L\<lparr>ol_occurrences := ol_occurrences L @ [occurrence_row_of r]\<rparr>, rows @ [r])))"

definition write_occurrences_streaming ::
    "(index_error + fast_occurrence) list \<Rightarrow> source_binding \<Rightarrow> occurrence_lookup
     \<Rightarrow> index_error + nat \<times> occurrence_lookup \<times> fast_occurrence list" where
  "write_occurrences_streaming rows source L =
     rbind (try_fold (write_occurrence source) (L, []) rows) (\<lambda>(L', written).
     Inr (length written, L', written))"

subsection \<open>Sealing\<close>

definition count_mismatch :: "occurrence_lookup \<Rightarrow> bool" where
  "count_mismatch L \<longleftrightarrow>
     list_ex (\<lambda>(i, expected). expected \<noteq> int (length (filter (\<lambda>r. or_document_id r = i) (ol_occurrences L))))
       (ol_assembly_documents L) \<or>
     list_ex (\<lambda>r. or_document_id r \<notin> fst ` set (ol_assembly_documents L)) (ol_occurrences L)"

definition OCCURRENCE_LOOKUP_SCHEMA :: string where
  "OCCURRENCE_LOOKUP_SCHEMA = ''sqlite-occurrence-lookup-v1''"

text \<open>The unique indexes cannot be created over duplicates.\<close>

definition finalize_occurrence_lookup ::
    "occurrence_lookup \<Rightarrow> nat \<Rightarrow> source_binding \<Rightarrow> index_error + occurrence_lookup" where
  "finalize_occurrence_lookup L rows source =
     (if \<not> distinct (map or_occurrence_id (ol_occurrences L)) then Inl Sqlite
      else if \<not> distinct (map or_event_id (ol_occurrences L)) then Inl Sqlite
      else if count_mismatch L then Inl (Invalid ''occurrence count closure'')
      else Inr (L\<lparr>ol_assembly_documents := [],
                  ol_metadata := [(''schema'', OCCURRENCE_LOOKUP_SCHEMA), (''rows'', nat_digits rows),
                    (''snapshot_sha256'', sb_snapshot_sha256 source),
                    (''mapping_sha256'', sb_mapping_sha256 source)]\<rparr>))"

subsection \<open>Filtered reads\<close>

text \<open>The relations are a \<open>BTreeSet\<close>.\<close>

record search_filters =
  sf_relations :: "string list"
  sf_time_start_ms :: "u64 option"
  sf_time_end_ms :: "u64 option"

text \<open>\<open>i64::try_from(value).unwrap_or(i64::MAX)\<close>.\<close>

definition i64_clamp :: "u64 \<Rightarrow> int" where
  "i64_clamp v = min (int (unat v)) (2 ^ 63 - 1)"

text \<open>The condition \<open>append_filter_sql\<close> adds; a comparison with NULL is not true.\<close>

definition filter_condition :: "search_filters \<Rightarrow> occurrence_row \<Rightarrow> bool" where
  "filter_condition filters r \<longleftrightarrow>
     (sf_relations filters = [] \<or> or_relation r \<in> set (sf_relations filters)) \<and>
     (case sf_time_start_ms filters of None \<Rightarrow> True
      | Some start \<Rightarrow> (case or_event_time_ms r of None \<Rightarrow> False | Some t \<Rightarrow> i64_clamp start \<le> t)) \<and>
     (case sf_time_end_ms filters of None \<Rightarrow> True
      | Some end_ms \<Rightarrow> (case or_event_time_ms r of None \<Rightarrow> False | Some t \<Rightarrow> t < i64_clamp end_ms))"

record evidence_occurrence =
  ev_event_time_ms :: "nat option"
  ev_relation :: string
  ev_snapshot_sha256 :: string
  ev_mapping_sha256 :: string
  ev_event_id :: string
  ev_support_ref :: string

record matched_occurrences =
  mo_eligible_count :: nat
  mo_rows :: "evidence_occurrence list"

definition MAX_RETURNED_OCCURRENCES_PER_HIT :: nat where
  "MAX_RETURNED_OCCURRENCES_PER_HIT = 50"

definition evidence_of :: "nat option \<Rightarrow> occurrence_row \<Rightarrow> evidence_occurrence" where
  "evidence_of time r =
     \<lparr>ev_event_time_ms = time, ev_relation = or_relation r, ev_snapshot_sha256 = or_snapshot_sha256 r,
      ev_mapping_sha256 = or_mapping_sha256 r, ev_event_id = or_event_id r, ev_support_ref = or_support_ref r\<rparr>"

definition read_time :: "occurrence_row \<Rightarrow> index_error + nat option" where
  "read_time r =
     (case or_event_time_ms r of None \<Rightarrow> Inr None
      | Some t \<Rightarrow> rbind (u64_from (Corrupt ''negative occurrence timestamp'') t) (\<lambda>n. Inr (Some n)))"

definition add_match ::
    "(string, matched_occurrences) btree \<Rightarrow> occurrence_row \<Rightarrow> index_error + (string, matched_occurrences) btree" where
  "add_match m r =
     rbind (read_time r) (\<lambda>time.
     let e = (case bt_get m (or_document_id r) of None \<Rightarrow> \<lparr>mo_eligible_count = 0, mo_rows = []\<rparr> | Some e \<Rightarrow> e)
     in Inr (bt_insert (or_document_id r)
          \<lparr>mo_eligible_count = mo_eligible_count e + 1,
           mo_rows = (if length (mo_rows e) < MAX_RETURNED_OCCURRENCES_PER_HIT
                      then mo_rows e @ [evidence_of time r] else mo_rows e)\<rparr> m))"

definition read_matching_occurrences ::
    "occurrence_lookup \<Rightarrow> string list \<Rightarrow> search_filters
     \<Rightarrow> index_error + (string, matched_occurrences) btree" where
  "read_matching_occurrences L document_ids filters =
     (if document_ids = [] then Inr []
      else try_fold add_match []
        (sort_key or_document_id (sort_key or_occurrence_id
          (filter (\<lambda>r. or_document_id r \<in> set document_ids \<and> filter_condition filters r) (ol_occurrences L)))))"

definition read_eligible_document_ids :: "occurrence_lookup \<Rightarrow> search_filters \<Rightarrow> string list" where
  "read_eligible_document_ids L filters =
     btree_set (map or_document_id (filter (filter_condition filters) (ol_occurrences L)))"

subsection \<open>What the writers establish\<close>

definition document_row_ok :: "fast_document \<Rightarrow> bool" where
  "document_row_ok d \<longleftrightarrow>
     fd_document_id d \<noteq> [] \<and> CHR 0x00 \<notin> set (fd_document_id d) \<and> fd_occurrence_count d \<noteq> 0"

definition document_writer_ok :: "document_writer \<Rightarrow> bool" where
  "document_writer_ok W \<longleftrightarrow>
     sorted_wrt (<) (map fd_document_id (dw_rows W)) \<and>
     dw_previous_id W = (if dw_rows W = [] then None else Some (fd_document_id (last (dw_rows W)))) \<and>
     map (\<lambda>d. unat (fd_vector_ordinal d)) (dw_rows W) = [0..<length (dw_rows W)] \<and>
     ol_assembly_documents (dw_lookup W) =
       map (\<lambda>d. (fd_document_id d, int (unat (fd_occurrence_count d)))) (dw_rows W) \<and>
     ol_occurrences (dw_lookup W) = [] \<and> list_all document_row_ok (dw_rows W)"

lemma write_document_ok:
  assumes "write_document W item = Inr W'"
  obtains d n L stats where "item = Inr d" and "document_row_ok d"
    and "unat (fd_vector_ordinal d) = length (dw_rows W)"
    and "\<And>p. dw_previous_id W = Some p \<Longrightarrow> p < fd_document_id d"
    and "L = (dw_lookup W)\<lparr>ol_assembly_documents := ol_assembly_documents (dw_lookup W)
          @ [(fd_document_id d, int (unat (fd_occurrence_count d)))]\<rparr>"
    and "W' = \<lparr>dw_lookup = L, dw_rows = dw_rows W @ [d], dw_previous_id = Some (fd_document_id d),
          dw_stats = stats\<rparr>"
    and "case dw_stats W of None \<Rightarrow> stats = None
         | Some st \<Rightarrow> \<exists>st'. legacy_stats (fd_semantic_text d) st = Inr st' \<and> stats = Some st'"
proof -
  from assms obtain d where d: "item = Inr d" by (auto simp: write_document_def rbind_eq_Inr)
  with assms obtain n L stats where ok: "document_row_ok d"
    "unat (fd_vector_ordinal d) = length (dw_rows W)" "\<And>p. dw_previous_id W = Some p \<Longrightarrow> p < fd_document_id d"
    and ins: "insert_assembly_document (fd_document_id d) (int (unat (fd_occurrence_count d))) (dw_lookup W) = Inr L"
    and st: "(case dw_stats W of None \<Rightarrow> Inr None
              | Some st \<Rightarrow> rbind (legacy_stats (fd_semantic_text d) st) (\<lambda>st'. Inr (Some st'))) = Inr stats"
    and W': "W' = \<lparr>dw_lookup = L, dw_rows = dw_rows W @ [d], dw_previous_id = Some (fd_document_id d),
          dw_stats = stats\<rparr>"
    by (auto simp: write_document_def rbind_eq_Inr i64_from_def document_row_ok_def not_le
        split: if_splits option.splits)
  have "L = (dw_lookup W)\<lparr>ol_assembly_documents := ol_assembly_documents (dw_lookup W)
          @ [(fd_document_id d, int (unat (fd_occurrence_count d)))]\<rparr>"
    using ins by (simp add: insert_assembly_document_def split: if_splits)
  moreover have "case dw_stats W of None \<Rightarrow> stats = None
         | Some st \<Rightarrow> \<exists>st'. legacy_stats (fd_semantic_text d) st = Inr st' \<and> stats = Some st'"
    using st by (auto simp: rbind_eq_Inr split: option.splits)
  ultimately show ?thesis using that d ok W' by blast
qed

lemma document_writer_step:
  assumes "write_document W item = Inr W'" "document_writer_ok W"
  shows "document_writer_ok W'"
proof -
  from assms(1) obtain d n L stats where d: "document_row_ok d"
    "unat (fd_vector_ordinal d) = length (dw_rows W)"
    and prev: "\<And>p. dw_previous_id W = Some p \<Longrightarrow> p < fd_document_id d"
    and L: "L = (dw_lookup W)\<lparr>ol_assembly_documents := ol_assembly_documents (dw_lookup W)
          @ [(fd_document_id d, int (unat (fd_occurrence_count d)))]\<rparr>"
    and W': "W' = \<lparr>dw_lookup = L, dw_rows = dw_rows W @ [d], dw_previous_id = Some (fd_document_id d),
          dw_stats = stats\<rparr>"
    by (rule write_document_ok) blast
  have lt: "i < fd_document_id d" if i: "i \<in> set (map fd_document_id (dw_rows W))" for i
  proof -
    let ?ids = "map fd_document_id (dw_rows W)"
    have ne: "?ids \<noteq> []" using i by auto
    then have p: "last ?ids < fd_document_id d"
      using prev assms(2) by (auto simp: document_writer_ok_def last_map)
    have "sorted_wrt (<) ?ids" using assms(2) by (simp add: document_writer_ok_def)
    moreover have "?ids = butlast ?ids @ [last ?ids]" using ne by simp
    ultimately have "sorted_wrt (<) (butlast ?ids @ [last ?ids])" by argo
    then have "\<forall>x \<in> set (butlast ?ids). x < last ?ids" by (simp only: sorted_wrt_append) simp
    moreover have "i \<in> set (butlast ?ids @ [last ?ids])" using i by (simp only: append_butlast_last_id [OF ne])
    ultimately have "i \<le> last ?ids" by auto
    with p show ?thesis by simp
  qed
  show ?thesis
    using assms(2) d lt by (simp add: document_writer_ok_def W' L sorted_wrt_append)
qed

lemma write_documents_ok:
  "try_fold write_document W items = Inr W' \<Longrightarrow> document_writer_ok W \<Longrightarrow>
     document_writer_ok W' \<and> (\<exists>D. items = map Inr D \<and> dw_rows W' = dw_rows W @ D \<and>
       (case dw_stats W of None \<Rightarrow> dw_stats W' = None
        | Some st \<Rightarrow> \<exists>st'. try_fold (\<lambda>s d. legacy_stats (fd_semantic_text d) s) st D = Inr st' \<and> dw_stats W' = Some st'))"
proof (induction items arbitrary: W)
  case Nil
  then show ?case by (auto split: option.splits)
next
  case (Cons item items)
  then obtain W1 where w: "write_document W item = Inr W1" and r: "try_fold write_document W1 items = Inr W'"
    by (auto simp: rbind_eq_Inr)
  from document_writer_step [OF w Cons.prems(2)] have ok: "document_writer_ok W1" .
  from w obtain d n L stats where d: "item = Inr d"
    and W1: "W1 = \<lparr>dw_lookup = L, dw_rows = dw_rows W @ [d], dw_previous_id = Some (fd_document_id d),
          dw_stats = stats\<rparr>"
    and st: "case dw_stats W of None \<Rightarrow> stats = None
         | Some st \<Rightarrow> \<exists>st'. legacy_stats (fd_semantic_text d) st = Inr st' \<and> stats = Some st'"
    by (rule write_document_ok) blast
  from Cons.IH [OF r ok] obtain D where D: "document_writer_ok W'" "items = map Inr D"
    "dw_rows W' = dw_rows W1 @ D"
    "case dw_stats W1 of None \<Rightarrow> dw_stats W' = None
        | Some st \<Rightarrow> \<exists>st'. try_fold (\<lambda>s d. legacy_stats (fd_semantic_text d) s) st D = Inr st' \<and> dw_stats W' = Some st'"
    by blast
  show ?case
    using D d W1 st by (auto intro!: exI [of _ "d # D"] simp: rbind_eq_Inr split: option.splits)
qed

lemma write_occurrences_ok:
  "try_fold (write_occurrence source) (L, rows) items = Inr (L', rows') \<Longrightarrow>
     \<exists>R. items = map Inr R \<and> rows' = rows @ R \<and>
       L' = L\<lparr>ol_occurrences := ol_occurrences L @ map occurrence_row_of R\<rparr> \<and>
       (\<forall>r \<in> set R. fo_snapshot_sha256 r = sb_snapshot_sha256 source \<and>
          fo_mapping_sha256 r = sb_mapping_sha256 source)"
proof (induction items arbitrary: L rows)
  case (Cons item items)
  then obtain r where r: "item = Inr r" "fo_snapshot_sha256 r = sb_snapshot_sha256 source"
      "fo_mapping_sha256 r = sb_mapping_sha256 source"
    and f: "try_fold (write_occurrence source)
      (L\<lparr>ol_occurrences := ol_occurrences L @ [occurrence_row_of r]\<rparr>, rows @ [r]) items = Inr (L', rows')"
    by (auto simp: rbind_eq_Inr write_occurrence_def split: if_splits)
  from Cons.IH [OF f] obtain R where "items = map Inr R" "rows' = (rows @ [r]) @ R"
    "L' = L\<lparr>ol_occurrences := ol_occurrences L @ map occurrence_row_of (r # R)\<rparr>"
    "\<forall>r \<in> set R. fo_snapshot_sha256 r = sb_snapshot_sha256 source \<and>
          fo_mapping_sha256 r = sb_mapping_sha256 source"
    by auto
  with r show ?case by (intro exI [of _ "r # R"]) simp
qed simp

text \<open>
  C14: A sealed lookup is closed: every document has exactly the occurrences it counts, at least one,
  every occurrence belongs to a document and to the bound source, and neither occurrences nor
  events repeat. The identifiers of the documents ascend and their ordinals are their positions.
\<close>

theorem sealed_lookup_closed:
  assumes "write_documents_streaming E documents legacy create_occurrence_lookup = Inr (summary, L1, D)"
    and "write_occurrences_streaming occurrences source L1 = Inr (n, L2, R)"
    and "finalize_occurrence_lookup L2 n source = Inr L"
  shows "sorted_wrt (<) (map fd_document_id D) \<and>
    map (\<lambda>d. unat (fd_vector_ordinal d)) D = [0..<ds_rows summary] \<and>
    ol_occurrences L = map occurrence_row_of R \<and> n = length R \<and>
    (\<forall>d \<in> set D. fd_occurrence_count d \<noteq> 0 \<and>
      length (filter (\<lambda>r. or_document_id r = fd_document_id d) (ol_occurrences L)) = unat (fd_occurrence_count d)) \<and>
    (\<forall>r \<in> set (ol_occurrences L). or_document_id r \<in> fd_document_id ` set D \<and>
      or_snapshot_sha256 r = sb_snapshot_sha256 source \<and> or_mapping_sha256 r = sb_mapping_sha256 source) \<and>
    distinct (map or_occurrence_id (ol_occurrences L)) \<and> distinct (map or_event_id (ol_occurrences L))"
proof -
  let ?W0 = "\<lparr>dw_lookup = create_occurrence_lookup, dw_rows = [], dw_previous_id = None,
      dw_stats = (if legacy then Some (0, []) else None)\<rparr>"
  from assms(1) obtain W where W: "try_fold write_document ?W0 documents = Inr W"
    and D: "D = dw_rows W" "L1 = dw_lookup W" "ds_rows summary = length D"
    by (auto simp: write_documents_streaming_def rbind_eq_Inr split: if_splits)
  have "document_writer_ok ?W0" by (simp add: document_writer_ok_def create_occurrence_lookup_def)
  with write_documents_ok [OF W] have ok: "document_writer_ok W" by blast
  from assms(2) obtain L' where f: "try_fold (write_occurrence source) (L1, []) occurrences = Inr (L2, R)"
    and n: "n = length R"
    by (auto simp: write_occurrences_streaming_def rbind_eq_Inr)
  from write_occurrences_ok [OF f]
  have L2: "L2 = L1\<lparr>ol_occurrences := ol_occurrences L1 @ map occurrence_row_of R\<rparr>"
    and src: "\<forall>r \<in> set R. fo_snapshot_sha256 r = sb_snapshot_sha256 source \<and>
          fo_mapping_sha256 r = sb_mapping_sha256 source" by auto
  have L1: "ol_occurrences L1 = []" "ol_assembly_documents L1 =
       map (\<lambda>d. (fd_document_id d, int (unat (fd_occurrence_count d)))) D"
    using ok D by (simp_all add: document_writer_ok_def)
  have fin: "distinct (map or_occurrence_id (ol_occurrences L2))" "distinct (map or_event_id (ol_occurrences L2))"
    "\<not> count_mismatch L2" "ol_occurrences L = ol_occurrences L2"
    using assms(3) by (auto simp: finalize_occurrence_lookup_def split: if_splits)
  have occ: "ol_occurrences L = map occurrence_row_of R" by (simp add: fin(4) L2 L1)
  have closed: "(\<forall>d \<in> set D. int (unat (fd_occurrence_count d)) =
      int (length (filter (\<lambda>r. or_document_id r = fd_document_id d) (ol_occurrences L)))) \<and>
    (\<forall>r \<in> set (ol_occurrences L). or_document_id r \<in> fd_document_id ` set D)"
    using fin(3) unfolding count_mismatch_def list_ex_iff fin(4) by (auto simp: L2 L1 image_image)
  then have count: "\<forall>d \<in> set D.
      length (filter (\<lambda>r. or_document_id r = fd_document_id d) (ol_occurrences L)) = unat (fd_occurrence_count d)"
    and belongs: "\<forall>r \<in> set (ol_occurrences L). or_document_id r \<in> fd_document_id ` set D"
    unfolding of_nat_eq_iff by auto
  have "\<forall>d \<in> set D. fd_occurrence_count d \<noteq> 0"
    using ok by (simp add: document_writer_ok_def D list_all_iff document_row_ok_def)
  moreover have "\<forall>r \<in> set (ol_occurrences L). or_snapshot_sha256 r = sb_snapshot_sha256 source \<and>
      or_mapping_sha256 r = sb_mapping_sha256 source"
    using src by (auto simp: occ occurrence_row_of_def)
  ultimately show ?thesis
    using ok count belongs occ fin n D by (simp add: document_writer_ok_def)
qed

lemma sealed_lookup_closed_witness:
  "\<exists>summary L1 D L2 R L.
     write_documents_streaming \<lparr>sha256_hex = (\<lambda>_. []), jcs_bytes = (\<lambda>_. None), json_from_str = (\<lambda>_. None)\<rparr>
       [Inr \<lparr>fd_document_id = ''a'', fd_document_sha256 = [], fd_document_kind = [], fd_semantic_text = ''x'',
          fd_facets_json = [], fd_relations_json = [], fd_occurrence_count = 1, fd_vector_ordinal = 0\<rparr>]
       False create_occurrence_lookup = Inr (summary, L1, D) \<and>
     write_occurrences_streaming
       [Inr \<lparr>fo_occurrence_id = ''o'', fo_document_id = ''a'', fo_event_time_ms = Some 5, fo_relation = ''r'',
          fo_exact_attributes_json = [], fo_snapshot_sha256 = ''s'', fo_mapping_sha256 = ''m'', fo_event_id = ''e'',
          fo_support_ref = ''f''\<rparr>]
       \<lparr>sb_snapshot_sha256 = ''s'', sb_mapping_sha256 = ''m''\<rparr> L1 = Inr (1, L2, R) \<and>
     finalize_occurrence_lookup L2 1 \<lparr>sb_snapshot_sha256 = ''s'', sb_mapping_sha256 = ''m''\<rparr> = Inr L \<and>
     list_all (\<lambda>r. or_document_id r \<in> fd_document_id ` set D) (ol_occurrences L)"
    (is "\<exists>summary L1 D L2 R L. ?A summary L1 D \<and> ?B L1 L2 R \<and> ?C L2 L \<and> ?P L D")
proof -
  have a: "\<exists>summary L1 D. ?A summary L1 D \<and> ol_assembly_documents L1 = [(''a'', 1)] \<and> ol_occurrences L1 = []"
    by (simp add: write_documents_streaming_def write_document_def i64_from_def insert_assembly_document_def
        create_occurrence_lookup_def)
  then obtain summary L1 D where A: "?A summary L1 D" "ol_assembly_documents L1 = [(''a'', 1)]" "ol_occurrences L1 = []"
    by blast
  have "\<exists>L2 R. ?B L1 L2 R \<and> ol_assembly_documents L2 = [(''a'', 1)] \<and> map or_document_id (ol_occurrences L2) = [''a'']"
    by (simp add: write_occurrences_streaming_def write_occurrence_def occurrence_row_of_def A)
  then obtain L2 R where B: "?B L1 L2 R" "ol_assembly_documents L2 = [(''a'', 1)]"
    "map or_document_id (ol_occurrences L2) = [''a'']" by (elim exE conjE) (rule that)
  then obtain r where r: "ol_occurrences L2 = [r]" "or_document_id r = ''a''" by auto
  obtain L where C: "?C L2 L"
    by (simp add: finalize_occurrence_lookup_def count_mismatch_def B(2) r)
  from sealed_lookup_closed [OF A(1) B(1) C] have "?P L D" by (simp add: list_all_iff)
  with A(1) B(1) C show ?thesis by blast
qed

subsection \<open>What the reads return\<close>

text \<open>The matching rows of one document, in the order of their identifiers.\<close>

definition matching_rows :: "occurrence_lookup \<Rightarrow> search_filters \<Rightarrow> string \<Rightarrow> occurrence_row list" where
  "matching_rows L filters i =
     sort_key or_occurrence_id (filter (\<lambda>r. or_document_id r = i \<and> filter_condition filters r) (ol_occurrences L))"

definition time_of :: "occurrence_row \<Rightarrow> nat option" where
  "time_of r = map_option nat (or_event_time_ms r)"

definition matched_of :: "occurrence_row list \<Rightarrow> matched_occurrences" where
  "matched_of rows =
     \<lparr>mo_eligible_count = length rows,
      mo_rows = map (\<lambda>r. evidence_of (time_of r) r) (take MAX_RETURNED_OCCURRENCES_PER_HIT rows)\<rparr>"

lemma read_time_ok: "read_time r = Inr t \<Longrightarrow> t = time_of r"
  by (auto simp: read_time_def time_of_def u64_from_def rbind_eq_Inr split: option.splits if_splits)

lemma matched_of_snoc:
  "matched_of (rows @ [r]) =
     \<lparr>mo_eligible_count = mo_eligible_count (matched_of rows) + 1,
      mo_rows = (if length (mo_rows (matched_of rows)) < MAX_RETURNED_OCCURRENCES_PER_HIT
                 then mo_rows (matched_of rows) @ [evidence_of (time_of r) r] else mo_rows (matched_of rows))\<rparr>"
  by (auto simp: matched_of_def)

lemma add_matches_ok:
  "try_fold add_match [] rows = Inr m \<Longrightarrow> bt_ok m \<and>
     (\<forall>i. bt_get m i = (let R = filter (\<lambda>r. or_document_id r = i) rows
                        in if R = [] then None else Some (matched_of R)))"
proof (induction rows arbitrary: m rule: rev_induct)
  case Nil
  then show ?case by (simp add: bt_ok_def bt_get_def)
next
  case (snoc r rows)
  from snoc.prems obtain m1 where m1: "try_fold add_match [] rows = Inr m1" and a: "add_match m1 r = Inr m"
    by (auto simp: try_fold_append rbind_eq_Inr)
  let ?R = "\<lambda>i. filter (\<lambda>r. or_document_id r = i) rows" and ?i = "or_document_id r"
  from snoc.IH [OF m1] have ok: "bt_ok m1"
    and get: "\<And>i. bt_get m1 i = (if ?R i = [] then None else Some (matched_of (?R i)))"
    by (simp_all add: Let_def)
  define e where "e = (case bt_get m1 ?i of None \<Rightarrow> \<lparr>mo_eligible_count = 0, mo_rows = []\<rparr> | Some e \<Rightarrow> e)"
  have e: "e = matched_of (?R ?i)" by (simp add: e_def get matched_of_def)
  have m: "m = bt_insert ?i (matched_of (?R ?i @ [r])) m1"
    using a by (auto simp: add_match_def Let_def rbind_eq_Inr matched_of_snoc dest!: read_time_ok
        simp flip: e_def e)
  have "bt_get m i = (if filter (\<lambda>r. or_document_id r = i) (rows @ [r]) = [] then None
      else Some (matched_of (filter (\<lambda>r. or_document_id r = i) (rows @ [r]))))" for i
    using get [of i] by (simp add: m bt_insert_get [OF ok])
  with ok show ?case by (simp add: m bt_insert_ok Let_def)
qed

lemma matching_rows_sorted:
  assumes "i \<in> set ids"
  shows "filter (\<lambda>r. or_document_id r = i) (sort_key or_document_id (sort_key or_occurrence_id
      (filter (\<lambda>r. or_document_id r \<in> set ids \<and> filter_condition filters r) rows))) =
    sort_key or_occurrence_id (filter (\<lambda>r. or_document_id r = i \<and> filter_condition filters r) rows)"
proof -
  have *: "filter (\<lambda>r. or_document_id r = i) (sort_key or_document_id xs) =
      filter (\<lambda>r. or_document_id r = i) xs" for xs
  proof (cases "\<exists>x \<in> set xs. or_document_id x = i")
    case True
    then obtain x where "x \<in> set xs" "or_document_id x = i" by blast
    with sort_key_stable [of or_document_id i xs] show ?thesis by simp
  next
    case False
    then have "filter (\<lambda>r. or_document_id r = i) (sort_key or_document_id xs) = []"
      "filter (\<lambda>r. or_document_id r = i) xs = []" by (auto simp: filter_empty_conv)
    then show ?thesis by simp
  qed
  show ?thesis
    unfolding * unfolding filter_sort filter_filter
    by (rule arg_cong [where f = "sort_key or_occurrence_id"], rule filter_cong) (use assms in auto)
qed

lemma read_matching_ok:
  assumes "read_matching_occurrences L ids filters = Inr m" and "i \<in> set ids"
  shows "bt_get m i = (if matching_rows L filters i = [] then None else Some (matched_of (matching_rows L filters i)))"
proof -
  have "ids \<noteq> []" using assms(2) by auto
  with assms(1) have "try_fold add_match [] (sort_key or_document_id (sort_key or_occurrence_id
      (filter (\<lambda>r. or_document_id r \<in> set ids \<and> filter_condition filters r) (ol_occurrences L)))) = Inr m"
    by (simp add: read_matching_occurrences_def)
  from conjunct2 [OF add_matches_ok [OF this], THEN spec, of i] show ?thesis
    unfolding matching_rows_sorted [OF assms(2)] matching_rows_def Let_def .
qed

lemma eligible_iff_matching:
  "i \<in> set (read_eligible_document_ids L filters) \<longleftrightarrow> matching_rows L filters i \<noteq> []"
proof -
  have "sort_key f xs = [] \<longleftrightarrow> xs = []" for f :: "occurrence_row \<Rightarrow> string" and xs
    by (metis length_0_conv length_sort)
  then show ?thesis
    by (auto simp: read_eligible_document_ids_def btree_set_def matching_rows_def filter_empty_conv)
qed

end
