(* ===== verification/Index_Vectors.thy ===== *)
theory Index_Vectors
  imports Index_Lexical
begin

text \<open>
  The vectors of \<open>crates/rag-index/src/lib.rs\<close>: the \<open>LFRAGV1\<close> file the assembly writes, its
  check on opening, rows read at an offset, and the iterator over the \<open>LFREMB01\<close> parts that the
  embedding tasks left. Files are their bytes; a failing system call is not modelled here. The
  lemmas say that a written file is accepted and that row \<open>k\<close> is vector \<open>k\<close>.
\<close>

subsection \<open>Checks on values\<close>

record ordered_vector =
  ov_vector_ordinal :: u64
  ov_values :: "u32 list"

definition norm_off :: "u32 list \<Rightarrow> bool" where
  "norm_off v \<longleftrightarrow> mag_less F64_1E_4 (f64_dist_one (f64_sqrt (sum_of_squares v)))"

definition validate_vector_values :: "u32 list \<Rightarrow> nat \<Rightarrow> string \<Rightarrow> index_error + unit" where
  "validate_vector_values v dimensions normalization =
     (if length v \<noteq> dimensions \<or> list_ex (\<lambda>x. \<not> f32_is_finite x) v
      then Inl (Invalid ''vector shape or finiteness'')
      else if normalization = ''l2'' \<and> norm_off v then Inl (Invalid ''vector normalization'')
      else Inr ())"

definition validate_query_vector_values :: "u32 list \<Rightarrow> nat \<Rightarrow> string \<Rightarrow> index_error + unit" where
  "validate_query_vector_values v dimensions normalization =
     (if length v \<noteq> dimensions \<or> list_ex (\<lambda>x. \<not> f32_is_finite x) v then Inl (Invalid ''query vector'')
      else if normalization = ''l2'' \<and> norm_off v then Inl (Invalid ''query vector normalization'')
      else Inr ())"

lemma validate_vector_values_ok:
  "validate_vector_values v n nrm = Inr u \<longleftrightarrow>
     length v = n \<and> list_all f32_is_finite v \<and> (nrm = ''l2'' \<longrightarrow> \<not> norm_off v)"
  by (auto simp: validate_vector_values_def list_ex_iff list_all_iff)

lemma validate_query_vector_values_ok:
  "validate_query_vector_values v n nrm = Inr u \<longleftrightarrow>
     length v = n \<and> list_all f32_is_finite v \<and> (nrm = ''l2'' \<longrightarrow> \<not> norm_off v)"
  by (auto simp: validate_query_vector_values_def list_ex_iff list_all_iff)

subsection \<open>The vector file\<close>

definition VECTOR_MAGIC :: bytes where
  "VECTOR_MAGIC = str_bytes ''LFRAGV1'' @ [0]"

definition VECTOR_HEADER_BYTES :: u32 where "VECTOR_HEADER_BYTES = 64"

definition vector_header :: "u64 \<Rightarrow> u32 \<Rightarrow> bytes \<Rightarrow> bytes" where
  "vector_header count dimensions order =
     VECTOR_MAGIC @ u32_to_le VECTOR_HEADER_BYTES @ u16_to_le 1 @ [1, 0] @ u64_to_le count
     @ u32_to_le dimensions @ u32_to_le 0 @ order"

definition write_vector ::
    "u32 \<Rightarrow> string \<Rightarrow> nat \<times> bytes \<Rightarrow> index_error + ordered_vector \<Rightarrow> index_error + nat \<times> bytes" where
  "write_vector dimensions normalization = (\<lambda>(n, body) item.
     rbind item (\<lambda>v.
     if unat (ov_vector_ordinal v) \<noteq> n then Inl (Invalid ''vector ordinal'')
     else rbind (validate_vector_values (ov_values v) (unat dimensions) normalization) (\<lambda>_.
       if n + 1 \<ge> 2 ^ 64 then Inl (Invalid ''vector count'')
       else Inr (n + 1, body @ encode_row (ov_values v)))))"

text \<open>The count is patched into the header after the last row.\<close>

definition patch_count :: "nat \<Rightarrow> bytes \<Rightarrow> bytes" where
  "patch_count n written = take 16 written @ u64_to_le (word_of_nat n) @ drop 24 written"

definition write_vectors_streaming ::
    "(index_error + ordered_vector) list \<Rightarrow> u32 \<Rightarrow> string \<Rightarrow> string \<Rightarrow> index_error + nat \<times> bytes" where
  "write_vectors_streaming vectors dimensions order_sha normalization =
     rbind (decode_sha256 order_sha) (\<lambda>order.
     rbind (try_fold (write_vector dimensions normalization) (0, []) vectors) (\<lambda>(n, body).
     Inr (n, patch_count n (vector_header 0 dimensions order @ body))))"

record vector_summary =
  vs_path :: string
  vs_count :: u64
  vs_bytes :: u64
  vs_sha256 :: string
  vs_dimensions :: u32
  vs_dtype :: string
  vs_header_bytes :: u32
  vs_document_order_sha256 :: string

definition vector_file_bytes :: "index_error \<Rightarrow> u64 \<Rightarrow> u32 \<Rightarrow> index_error + u64" where
  "vector_file_bytes e count dimensions =
     rbind (ok_or e (Option.bind (checked_mul count (u64_of_u32 dimensions)) (\<lambda>values. checked_mul values 4)))
       (\<lambda>payload. ok_or e (checked_add (u64_of_u32 VECTOR_HEADER_BYTES) payload))"

definition validate_vector_file :: "bytes \<Rightarrow> vector_summary \<Rightarrow> index_error + unit" where
  "validate_vector_file content expected =
     (if length content < 64 then Inl Io
      else let header = take 64 content in
        if sub_bytes 0 8 header \<noteq> VECTOR_MAGIC
           \<or> u32_from_le (sub_bytes 8 12 header) \<noteq> 64
           \<or> u16_from_le (sub_bytes 12 14 header) \<noteq> 1
           \<or> header ! 14 \<noteq> 1 \<or> header ! 15 \<noteq> 0
           \<or> sub_bytes 28 32 header \<noteq> [0, 0, 0, 0]
           \<or> u64_from_le (sub_bytes 16 24 header) \<noteq> vs_count expected
           \<or> u32_from_le (sub_bytes 24 28 header) \<noteq> vs_dimensions expected
        then Inl (Invalid ''vector header'')
        else rbind (decode_sha256 (vs_document_order_sha256 expected)) (\<lambda>order.
          if sub_bytes 32 64 header \<noteq> order then Inl (Invalid ''vector header'')
          else rbind (vector_file_bytes (Invalid ''vector bytes'') (vs_count expected) (vs_dimensions expected))
            (\<lambda>expected_bytes.
              if length content \<noteq> unat expected_bytes then Inl (Invalid ''vector file length'') else Inr ())))"

definition read_exact_at :: "bytes \<Rightarrow> nat \<Rightarrow> nat \<Rightarrow> index_error + bytes" where
  "read_exact_at content len offset =
     (if length content < offset + len then Inl Io else Inr (take len (drop offset content)))"

text \<open>The offset of a row; \<open>usize\<close> has 64 bits.\<close>

definition row_bytes :: "u32 \<Rightarrow> index_error + u64" where
  "row_bytes dimensions = ok_or (Invalid ''vector row bytes'') (checked_mul (u64_of_u32 dimensions) 4)"

definition row_offset :: "u64 \<Rightarrow> u64 \<Rightarrow> index_error + u64" where
  "row_offset ordinal width =
     rbind (ok_or (Invalid ''vector offset'') (checked_mul ordinal width)) (\<lambda>skip.
     ok_or (Invalid ''vector offset'') (checked_add (u64_of_u32 VECTOR_HEADER_BYTES) skip))"

definition read_row :: "bytes \<Rightarrow> u32 \<Rightarrow> u64 \<Rightarrow> index_error + u32 list" where
  "read_row content dimensions ordinal =
     rbind (row_bytes dimensions) (\<lambda>width.
     rbind (row_offset ordinal width) (\<lambda>offset.
     rbind (read_exact_at content (unat width) (unat offset)) (\<lambda>b.
     Inr (map u32_from_le (chunks 4 b)))))"

subsection \<open>Embedding shards\<close>

record ordered_vector_shard =
  os_path :: string
  os_first_vector_ordinal :: u64
  os_vector_count :: u64
  os_dimensions :: u32
  os_order_sha256 :: string

definition check_shard ::
    "u64 \<times> u32 option \<Rightarrow> ordered_vector_shard \<Rightarrow> index_error + u64 \<times> u32 option" where
  "check_shard = (\<lambda>(expected, dimensions) s.
     if os_vector_count s = 0 \<or> os_first_vector_ordinal s \<noteq> expected
     then Inl (Invalid ''embedding vector shard order'')
     else case decode_sha256 (os_order_sha256 s) of
       Inl Panic \<Rightarrow> Inl Panic
     | Inl _ \<Rightarrow> Inl (Invalid ''embedding vector shard order'')
     | Inr _ \<Rightarrow>
         if (case dimensions of None \<Rightarrow> False | Some d \<Rightarrow> d \<noteq> os_dimensions s)
         then Inl (Invalid ''embedding vector shard order'')
         else rbind (ok_or (Invalid ''embedding vector shard order'') (checked_add expected (os_vector_count s)))
           (\<lambda>next. Inr (next, Some (os_dimensions s))))"

definition open_embedding_vector_shard ::
    "(string \<Rightarrow> bytes option) \<Rightarrow> ordered_vector_shard \<Rightarrow> index_error + bytes" where
  "open_embedding_vector_shard disk s =
     rbind (ok_or Io (disk (os_path s))) (\<lambda>content.
     if length content < 64 then Inl Io
     else let header = take 64 content in
       if sub_bytes 0 8 header \<noteq> EMBEDDING_SHARD_MAGIC
          \<or> u32_from_le (sub_bytes 8 12 header) \<noteq> 64
          \<or> u16_from_le (sub_bytes 12 14 header) \<noteq> 1
          \<or> header ! 14 \<noteq> 1 \<or> header ! 15 \<noteq> 0
          \<or> u64_from_le (sub_bytes 16 24 header) \<noteq> os_vector_count s
          \<or> u32_from_le (sub_bytes 24 28 header) \<noteq> os_dimensions s
          \<or> sub_bytes 28 32 header \<noteq> [0, 0, 0, 0]
       then Inl (Invalid ''embedding vector shard header'')
       else rbind (decode_sha256 (os_order_sha256 s)) (\<lambda>order.
         if sub_bytes 32 64 header \<noteq> order then Inl (Invalid ''embedding vector shard header'')
         else rbind (vector_file_bytes (Invalid ''embedding vector shard bytes'') (os_vector_count s)
                (os_dimensions s)) (\<lambda>expected_bytes.
           if length content \<noteq> unat expected_bytes then Inl (Invalid ''embedding vector shard bytes'')
           else Inr (drop 64 content))))"

text \<open>
  The items of an open shard: \<open>remaining\<close> rows, as long as the bytes last. The iterator is
  consumed up to its first error, so the list ends there.
\<close>

fun shard_rows :: "nat \<Rightarrow> nat \<Rightarrow> u64 \<Rightarrow> bytes \<Rightarrow> (index_error + ordered_vector) list" where
  "shard_rows 0 dimensions ordinal content = []"
| "shard_rows (Suc remaining) dimensions ordinal content =
     (if length content < 4 * dimensions then [Inl Io]
      else Inr \<lparr>ov_vector_ordinal = ordinal,
                ov_values = map u32_from_le (chunks 4 (take (4 * dimensions) content))\<rparr>
           # shard_rows remaining dimensions (ordinal + 1) (drop (4 * dimensions) content))"

fun embedding_items ::
    "(string \<Rightarrow> bytes option) \<Rightarrow> u64 \<Rightarrow> ordered_vector_shard list \<Rightarrow> (index_error + ordered_vector) list" where
  "embedding_items disk next_ordinal [] = []"
| "embedding_items disk next_ordinal (s # shards) =
     (case open_embedding_vector_shard disk s of
        Inl e \<Rightarrow> [Inl e]
      | Inr rows \<Rightarrow>
          let items = shard_rows (unat (os_vector_count s)) (unat (os_dimensions s)) next_ordinal rows
          in if list_all is_ok items
             then items @ embedding_items disk (next_ordinal + os_vector_count s) shards else items)"

definition vectors_from_embedding_shards ::
    "(string \<Rightarrow> bytes option) \<Rightarrow> ordered_vector_shard list \<Rightarrow> index_error + (index_error + ordered_vector) list" where
  "vectors_from_embedding_shards disk shards =
     rbind (try_fold check_shard (0, None) shards) (\<lambda>_. Inr (embedding_items disk 0 shards))"

subsection \<open>A written file\<close>

lemma radix16_pairs_length: "radix16_pairs s = Inr b \<Longrightarrow> length b = length s div 2"
  by (induction s arbitrary: b rule: radix16_pairs.induct) (auto simp: rbind_eq_Inr split: if_splits)

lemma decode_sha256_length: "decode_sha256 s = Inr b \<Longrightarrow> length b = 32"
  by (auto simp: decode_sha256_def dest: radix16_pairs_length split: if_splits)

definition vector_row_ok :: "u32 \<Rightarrow> string \<Rightarrow> ordered_vector \<Rightarrow> bool" where
  "vector_row_ok dimensions normalization v \<longleftrightarrow>
     length (ov_values v) = unat dimensions \<and> list_all f32_is_finite (ov_values v) \<and>
     (normalization = ''l2'' \<longrightarrow> \<not> norm_off (ov_values v))"

lemma write_vectors_ok:
  "try_fold (write_vector dimensions normalization) (n, body) items = Inr (n', body') \<Longrightarrow>
     \<exists>vs. items = map Inr vs \<and> n' = n + length vs \<and> list_all (vector_row_ok dimensions normalization) vs \<and>
       map (\<lambda>v. unat (ov_vector_ordinal v)) vs = [n..<n + length vs] \<and>
       body' = body @ concat (map (\<lambda>v. encode_row (ov_values v)) vs)"
proof (induction items arbitrary: n body)
  case (Cons item items)
  then obtain v where v: "item = Inr v" "vector_row_ok dimensions normalization v"
      "unat (ov_vector_ordinal v) = n"
    and r: "try_fold (write_vector dimensions normalization) (n + 1, body @ encode_row (ov_values v)) items =
      Inr (n', body')"
    by (auto simp: rbind_eq_Inr write_vector_def validate_vector_values_ok vector_row_ok_def split: if_splits)
  from Cons.IH [OF r] obtain vs where vs: "items = map Inr vs" "n' = n + 1 + length vs"
    "list_all (vector_row_ok dimensions normalization) vs"
    "map (\<lambda>v. unat (ov_vector_ordinal v)) vs = [n + 1..<n + 1 + length vs]"
    "body' = (body @ encode_row (ov_values v)) @ concat (map (\<lambda>v. encode_row (ov_values v)) vs)" by blast
  have "[n..<n + length (v # vs)] = n # [n + 1..<n + 1 + length vs]"
    using upt_conv_Cons [of n "n + length (v # vs)"] by simp
  with vs v show ?case by (intro exI [of _ "v # vs"]) simp
qed simp

lemma length_vector_header: "length order = 32 \<Longrightarrow> length (vector_header n d order) = 64"
  by (simp add: vector_header_def VECTOR_MAGIC_def)

lemma patched_header:
  "length order = 32 \<Longrightarrow>
     patch_count n (vector_header 0 d order @ body) = vector_header (word_of_nat n) d order @ body"
  by (simp add: patch_count_def vector_header_def VECTOR_MAGIC_def)

lemma vector_file_bytes_ok:
  assumes "64 + 4 * (unat count * unat dimensions) < 2 ^ 64"
  shows "\<exists>b. vector_file_bytes e count dimensions = Inr b \<and> unat b = 64 + 4 * (unat count * unat dimensions)"
proof -
  define n where "n = unat count * unat dimensions"
  have w: "unat (word_of_nat n :: u64) = n" "unat (word_of_nat (n * 4) :: u64) = n * 4"
    "unat (word_of_nat (64 + n * 4) :: u64) = 64 + n * 4"
    by (intro unat_of_small; use assms in \<open>simp add: n_def [symmetric]\<close>)+
  have "checked_mul count (u64_of_u32 dimensions) = Some (word_of_nat n)"
    using w(1) by (simp add: checked_mul_unat n_def unat_u64_of_u32)
  moreover have "checked_mul (word_of_nat n :: u64) 4 = Some (word_of_nat (n * 4))"
    using w by (simp add: checked_mul_unat)
  moreover have "checked_add (u64_of_u32 VECTOR_HEADER_BYTES) (word_of_nat (n * 4)) = Some (word_of_nat (64 + n * 4))"
    using w by (simp add: checked_add_unat unat_u64_of_u32 VECTOR_HEADER_BYTES_def)
  ultimately show ?thesis using w by (simp add: vector_file_bytes_def n_def mult.commute)
qed

lemma written_file_accepted:
  assumes "decode_sha256 order_sha = Inr order" "vs_count S = word_of_nat n" "vs_dimensions S = dimensions"
    and "vs_document_order_sha256 S = order_sha"
    and "length body = 4 * (n * unat dimensions)" "64 + 4 * (n * unat dimensions) < 2 ^ 64" "n < 2 ^ 64"
  shows "validate_vector_file (vector_header (word_of_nat n) dimensions order @ body) S = Inr ()"
proof -
  have len: "length order = 32" using assms(1) by (rule decode_sha256_length)
  let ?h = "vector_header (word_of_nat n) dimensions order"
  have un: "unat (word_of_nat n :: u64) = n" using assms(7) by (simp add: unat_of_small)
  have m: "length VECTOR_MAGIC = 8" by (simp add: VECTOR_MAGIC_def)
  have h: "take 64 (?h @ body) = ?h" "\<not> length (?h @ body) < 64" using length_vector_header [OF len] by simp_all
  have z: "u32_to_le 0 = [0, 0, 0, 0]" by code_simp
  have f: "sub_bytes 0 8 ?h = VECTOR_MAGIC" "sub_bytes 8 12 ?h = u32_to_le VECTOR_HEADER_BYTES"
    "sub_bytes 12 14 ?h = u16_to_le 1" "?h ! 14 = 1" "?h ! 15 = 0"
    "sub_bytes 16 24 ?h = u64_to_le (word_of_nat n)" "sub_bytes 24 28 ?h = u32_to_le dimensions"
    "sub_bytes 28 32 ?h = [0, 0, 0, 0]" "sub_bytes 32 64 ?h = order"
    by (simp_all add: vector_header_def sub_bytes_def m len nth_append z)
  obtain b where b: "vector_file_bytes (Invalid ''vector bytes'') (vs_count S) (vs_dimensions S) = Inr b"
    "unat b = 64 + 4 * (n * unat dimensions)"
    using vector_file_bytes_ok [of "word_of_nat n" dimensions "Invalid ''vector bytes''"] assms(2,3,6) un by auto
  show ?thesis
    unfolding validate_vector_file_def Let_def h(1) if_not_P [OF h(2)] f
    using b assms len by (simp add: VECTOR_HEADER_BYTES_def length_vector_header)
qed

lemma row_of_concat:
  "list_all (\<lambda>r. length r = w) rows \<Longrightarrow> k < length rows \<Longrightarrow> take w (drop (k * w) (concat rows)) = rows ! k"
proof (induction rows arbitrary: k)
  case (Cons r rows)
  then show ?case by (cases k) simp_all
qed simp

lemma concat_rows_length: "list_all (\<lambda>r. length r = w) rows \<Longrightarrow> length (concat rows) = length rows * w"
  by (induction rows) simp_all

lemma read_row_written:
  assumes "length h = 64" "list_all (\<lambda>v. length v = unat dimensions) vs" "k < length vs"
    and "64 + 4 * (length vs * unat dimensions) < 2 ^ 64" "length vs < 2 ^ 64"
  shows "read_row (h @ concat (map encode_row vs)) dimensions (word_of_nat k) = Inr (vs ! k)"
proof -
  define w where "w = 4 * unat dimensions"
  define rows where "rows = map encode_row vs"
  have rw: "list_all (\<lambda>r. length r = w) rows"
    using assms(2) by (simp add: rows_def w_def list_all_iff length_encode_row)
  have all: "length (concat rows) = length vs * w" using concat_rows_length [OF rw] by (simp add: rows_def)
  have fit: "(k + 1) * w \<le> length vs * w" using assms(3) by (intro mult_le_mono1) simp
  have small: "64 + length vs * w < 2 ^ 64" using assms(4) by (simp add: w_def ac_simps)
  have uw: "unat (word_of_nat w :: u64) = w" using fit small by (intro unat_of_small) simp
  have uk: "unat (word_of_nat k :: u64) = k" using assms(3,5) by (intro unat_of_small) simp
  have us: "unat (word_of_nat (k * w) :: u64) = k * w" using fit small by (intro unat_of_small) simp
  have uo: "unat (word_of_nat (64 + k * w) :: u64) = 64 + k * w" using fit small by (intro unat_of_small) simp
  have rb: "row_bytes dimensions = Inr (word_of_nat w)"
    using uw by (simp add: row_bytes_def ok_or_eq_Inr checked_mul_unat unat_u64_of_u32 w_def)
  have m: "checked_mul (word_of_nat k :: u64) (word_of_nat w) = Some (word_of_nat (k * w))"
    by (simp only: checked_mul_unat uk uw us)
  have h: "unat (u64_of_u32 VECTOR_HEADER_BYTES) = 64"
    by (simp add: unat_u64_of_u32 VECTOR_HEADER_BYTES_def)
  have a: "checked_add (u64_of_u32 VECTOR_HEADER_BYTES) (word_of_nat (k * w)) = Some (word_of_nat (64 + k * w))"
    by (simp only: checked_add_unat h us uo)
  have ro: "row_offset (word_of_nat k) (word_of_nat w) = Inr (word_of_nat (64 + k * w))"
    by (simp only: row_offset_def m a ok_or_simps rbind_simps)
  have "length (h @ concat rows) \<ge> 64 + k * w + w" using fit assms(1) all by simp
  moreover have "take w (drop (64 + k * w) (h @ concat rows)) = encode_row (vs ! k)"
    using row_of_concat [OF rw, of k] assms(1,3) by (simp add: rows_def)
  ultimately show ?thesis
    unfolding read_row_def rb ro rbind_simps uw uo read_exact_at_def rows_def [symmetric]
    by (simp add: decode_row)
qed

subsection \<open>From embedding shards to the index\<close>

text \<open>The file at a shard's path is a well-formed embedding shard with the given rows.\<close>

definition shard_holds :: "(string \<Rightarrow> bytes option) \<Rightarrow> ordered_vector_shard \<Rightarrow> u32 list list \<Rightarrow> bool" where
  "shard_holds disk s rows \<longleftrightarrow>
     (case decode_sha256 (os_order_sha256 s) of Inl _ \<Rightarrow> False | Inr order \<Rightarrow>
       let md = \<lparr>sm_row_count = os_vector_count s, sm_dimensions = os_dimensions s, sm_order_sha256 = order\<rparr>
       in shard_ok md rows \<and> disk (os_path s) = Some (encode_shard md rows))"

fun number_from :: "u64 \<Rightarrow> u32 list list \<Rightarrow> ordered_vector list" where
  "number_from k [] = []"
| "number_from k (v # vs) = \<lparr>ov_vector_ordinal = k, ov_values = v\<rparr> # number_from (k + 1) vs"

lemma number_from_append: "number_from k (vs @ ws) = number_from k vs @ number_from (k + word_of_nat (length vs)) ws"
  by (induction vs arbitrary: k) (simp_all add: add.assoc)

lemma number_from_values: "map ov_values (number_from k vs) = vs"
  by (induction vs arbitrary: k) simp_all

lemma shard_rows_encoded:
  "list_all (row_ok d) rows \<Longrightarrow>
     shard_rows (length rows) d k (concat (map encode_row rows) @ rest) = map Inr (number_from k rows)"
proof (induction rows arbitrary: k)
  case (Cons v rows)
  have l: "length (encode_row v) = 4 * d" using Cons.prems by (simp add: length_encode_row row_ok_def)
  with Cons show ?case by (simp add: decode_row)
qed simp

lemma open_encoded_shard:
  assumes "shard_holds disk s rows"
  shows "open_embedding_vector_shard disk s = Inr (concat (map encode_row rows))"
    and "length rows = unat (os_vector_count s)" and "list_all (row_ok (unat (os_dimensions s))) rows"
proof -
  from assms obtain order where d: "decode_sha256 (os_order_sha256 s) = Inr order"
    by (auto simp: shard_holds_def split: sum.splits)
  define md where "md = \<lparr>sm_row_count = os_vector_count s, sm_dimensions = os_dimensions s, sm_order_sha256 = order\<rparr>"
  from assms d have ok: "shard_ok md rows" and held: "disk (os_path s) = Some (encode_shard md rows)"
    by (simp_all add: shard_holds_def md_def Let_def)
  have md: "sm_row_count md = os_vector_count s" "sm_dimensions md = os_dimensions s" "sm_order_sha256 md = order"
    by (simp_all add: md_def)
  show n: "length rows = unat (os_vector_count s)" and r: "list_all (row_ok (unat (os_dimensions s))) rows"
    using ok by (simp_all add: shard_ok_def md)
  let ?h = "encode_header md"
  have len: "length (sm_order_sha256 md) = 32" using ok by (simp add: shard_ok_def)
  have lh: "length ?h = 64" by (simp add: length_encode_header len)
  have h: "take 64 (encode_shard md rows) = ?h @ []" "\<not> length (encode_shard md rows) < 64"
    "drop 64 (encode_shard md rows) = concat (map encode_row rows)"
    using lh by (simp_all add: encode_shard_def)
  have z: "u32_to_le EMBEDDING_SHARD_RESERVED = [0, 0, 0, 0]" by code_simp
  have w: "list_all (\<lambda>r. length r = 4 * unat (os_dimensions s)) (map encode_row rows)"
    using r by (simp add: list_all_iff row_ok_def length_encode_row)
  have total: "length (encode_shard md rows) = 64 + 4 * (unat (os_vector_count s) * unat (os_dimensions s))"
    using concat_rows_length [OF w] lh n by (simp add: encode_shard_def)
  have small: "64 + 4 * (unat (os_vector_count s) * unat (os_dimensions s)) < 2 ^ 64"
    using ok by (simp add: shard_ok_def md)
  obtain b where b: "vector_file_bytes (Invalid ''embedding vector shard bytes'') (os_vector_count s) (os_dimensions s) = Inr b"
    "unat b = 64 + 4 * (unat (os_vector_count s) * unat (os_dimensions s))"
    using vector_file_bytes_ok [OF small] by blast
  show "open_embedding_vector_shard disk s = Inr (concat (map encode_row rows))"
    unfolding open_embedding_vector_shard_def held ok_or_simps rbind_simps Let_def h(1) if_not_P [OF h(2)]
      encoded_fields [OF len] d b total
    by (simp add: md z EMBEDDING_SHARD_HEADER_BYTES_def EMBEDDING_SHARD_VERSION_def
        EMBEDDING_SHARD_DTYPE_F32_LE_def EMBEDDING_SHARD_FLAGS_def b h(3))
qed

lemma embedding_items_encoded:
  "list_all2 (shard_holds disk) shards rowss \<Longrightarrow>
     embedding_items disk k shards = map Inr (number_from k (concat rowss))"
proof (induction shards rowss arbitrary: k rule: list_all2_induct)
  case (Cons s shards rows rowss)
  note o = open_encoded_shard [OF Cons(1)]
  have "shard_rows (unat (os_vector_count s)) (unat (os_dimensions s)) k (concat (map encode_row rows)) =
      map Inr (number_from k rows)"
    using shard_rows_encoded [OF o(3), of k "[]"] o(2) by simp
  moreover have "word_of_nat (length rows) = os_vector_count s" by (simp add: o(2))
  ultimately show ?case
    using Cons(3) by (simp add: o(1) Let_def list_all_iff number_from_append)
qed simp

text \<open>What the writer of a stream of vectors leaves is accepted, and holds its rows.\<close>

lemma written_vectors_read:
  assumes "write_vectors_streaming items dimensions order_sha normalization = Inr (n, written)"
    and "64 + 4 * (n * unat dimensions) < 2 ^ 64" and "n < 2 ^ 64"
  obtains vs where "items = map Inr vs" and "n = length vs"
    and "\<And>S :: vector_summary. vs_count S = word_of_nat n \<Longrightarrow> vs_dimensions S = dimensions \<Longrightarrow>
      vs_document_order_sha256 S = order_sha \<Longrightarrow> validate_vector_file written S = Inr ()"
    and "\<And>k. k < n \<Longrightarrow> read_row written dimensions (word_of_nat k) = Inr (map ov_values vs ! k)"
proof -
  from assms(1) obtain order body where d: "decode_sha256 order_sha = Inr order"
    and f: "try_fold (write_vector dimensions normalization) (0, []) items = Inr (n, body)"
    and b: "written = patch_count n (vector_header 0 dimensions order @ body)"
    by (auto simp: write_vectors_streaming_def rbind_eq_Inr)
  from write_vectors_ok [OF f] obtain vs where vs: "items = map Inr vs" "n = length vs"
    "list_all (vector_row_ok dimensions normalization) vs"
    "body = concat (map (\<lambda>v. encode_row (ov_values v)) vs)" by auto
  define rows where "rows = map ov_values vs"
  have n: "n = length rows" by (simp add: rows_def vs(2))
  have body: "body = concat (map encode_row rows)" by (simp add: vs(4) rows_def comp_def)
  have w: "list_all (\<lambda>v. length v = unat dimensions) rows"
    using vs(3) by (auto simp: rows_def list_all_iff vector_row_ok_def)
  have len: "length order = 32" using d by (rule decode_sha256_length)
  have fw: "written = vector_header (word_of_nat n) dimensions order @ concat (map encode_row rows)"
    unfolding b patched_header [OF len] body ..
  have "list_all (\<lambda>r. length r = 4 * unat dimensions) (map encode_row rows)"
    using w by (simp add: list_all_iff length_encode_row)
  from concat_rows_length [OF this]
  have l: "length (concat (map encode_row rows)) = 4 * (n * unat dimensions)" by (simp add: n)
  show ?thesis
  proof (rule that [OF vs(1,2)])
    fix S :: vector_summary
    assume "vs_count S = word_of_nat n" "vs_dimensions S = dimensions" "vs_document_order_sha256 S = order_sha"
    from written_file_accepted [OF d this l assms(2,3)] show "validate_vector_file written S = Inr ()"
      by (simp only: fw)
  next
    fix k
    assume "k < n"
    then show "read_row written dimensions (word_of_nat k) = Inr (map ov_values vs ! k)"
      unfolding fw rows_def [symmetric]
      by (intro read_row_written) (use w assms(2,3) n length_vector_header [OF len] in simp_all)
  qed
qed

text \<open>
  C39: Assembly keeps the vectors: when the parts are well-formed embedding shards, the file written
  from their iterator holds exactly their rows, in the order of the shards; it passes the check
  made on opening the index, and reading row \<open>k\<close> gives the \<open>k\<close>-th embedded vector.
\<close>

theorem assembled_vectors_read_back:
  assumes "list_all2 (shard_holds disk) shards rowss"
    and "vectors_from_embedding_shards disk shards = Inr items"
    and "write_vectors_streaming items dimensions order_sha normalization = Inr (n, written)"
    and "64 + 4 * (n * unat dimensions) < 2 ^ 64" and "n < 2 ^ 64"
    and "vs_count S = word_of_nat n" "vs_dimensions S = dimensions" "vs_document_order_sha256 S = order_sha"
  shows "n = length (concat rowss) \<and> validate_vector_file written S = Inr () \<and>
    (\<forall>k < n. read_row written dimensions (word_of_nat k) = Inr (concat rowss ! k))"
proof -
  have items: "items = map Inr (number_from 0 (concat rowss))"
    using assms(2) embedding_items_encoded [OF assms(1)]
    by (auto simp: vectors_from_embedding_shards_def rbind_eq_Inr)
  obtain vs where vs: "items = map Inr vs" "n = length vs" "validate_vector_file written S = Inr ()"
    "\<And>k. k < n \<Longrightarrow> read_row written dimensions (word_of_nat k) = Inr (map ov_values vs ! k)"
    using written_vectors_read [OF assms(3-5)] assms(6-8) by metis
  have "map Inr vs = (map Inr (number_from 0 (concat rowss)) :: (index_error + ordered_vector) list)"
    using vs(1) items by simp
  then have "map ov_values vs = concat rowss" by (simp add: inj_map_eq_map number_from_values)
  with vs show ?thesis using length_map [of ov_values vs] by simp
qed

definition zero_sha :: string where
  "zero_sha = replicate 64 (CHR ''0'')"

definition sample_shard :: ordered_vector_shard where
  "sample_shard = \<lparr>os_path = ''p'', os_first_vector_ordinal = 0, os_vector_count = 1, os_dimensions = 1,
     os_order_sha256 = zero_sha\<rparr>"

definition sample_disk :: "string \<Rightarrow> bytes option" where
  "sample_disk = [''p'' \<mapsto> encode_shard \<lparr>sm_row_count = 1, sm_dimensions = 1, sm_order_sha256 = replicate 32 0\<rparr>
     [[0x3f800000]]]"

lemma assembled_vectors_read_back_witness:
  "\<exists>items written. vectors_from_embedding_shards sample_disk [sample_shard] = Inr items \<and>
     write_vectors_streaming items 1 zero_sha ''none'' = Inr (1, written) \<and>
     read_row written 1 0 = Inr [0x3f800000]"
proof -
  have z: "decode_sha256 zero_sha = Inr (replicate 32 0)" by code_simp
  have fin: "f32_is_finite 0x3f800000" by (simp add: f32_is_finite_def f32_exponent_def)
  have "shard_holds sample_disk sample_shard [[0x3f800000]]"
    using fin by (simp add: shard_holds_def sample_shard_def z sample_disk_def shard_ok_def row_ok_def)
  then have h: "list_all2 (shard_holds sample_disk) [sample_shard] [[[0x3f800000]]]" by simp
  define items where "items = embedding_items sample_disk 0 [sample_shard]"
  have it: "items = [Inr \<lparr>ov_vector_ordinal = 0, ov_values = [0x3f800000]\<rparr>]"
    using embedding_items_encoded [OF h, of 0] by (simp add: items_def)
  have v: "vectors_from_embedding_shards sample_disk [sample_shard] = Inr items"
    by (simp add: vectors_from_embedding_shards_def check_shard_def sample_shard_def z items_def
        checked_add_def)
  obtain written where w: "write_vectors_streaming items 1 zero_sha ''none'' = Inr (1, written)"
    using fin by (simp add: write_vectors_streaming_def z it write_vector_def validate_vector_values_def)
  define S where "S = \<lparr>vs_path = [], vs_count = 1, vs_bytes = 0, vs_sha256 = [], vs_dimensions = 1,
      vs_dtype = [], vs_header_bytes = 64, vs_document_order_sha256 = zero_sha\<rparr>"
  have "1 = length (concat [[[0x3f800000 :: u32]]]) \<and> validate_vector_file written S = Inr () \<and>
      (\<forall>k < 1. read_row written 1 (word_of_nat k) = Inr (concat [[[0x3f800000]]] ! k))"
    by (rule assembled_vectors_read_back [OF h v w]) (simp_all add: S_def)
  with v w show ?thesis by auto
qed

end
