(* ===== verification/Index_Manifest.thy ===== *)
theory Index_Manifest
  imports Index_Occurrences Index_Vectors
begin

text \<open>
  The manifest of a fast index (\<open>index.json\<close> of \<open>crates/rag-index/src/lib.rs\<close>): its parts, the
  provenance of the pipeline that built it, and the JSON value whose canonical digest names it.
\<close>

record object_summary =
  ob_path :: string
  ob_rows :: u64
  ob_bytes :: u64
  ob_sha256 :: string
  ob_order_sha256 :: "string option"

record lexical_summary =
  ls_path :: string
  ls_document_count :: u64
  ls_bytes :: u64
  ls_sha256 :: string
  ls_schema :: "string option"
  ls_tokenizer :: string
  ls_k1 :: f64
  ls_b :: f64

record occurrence_lookup_summary =
  os_lookup_path :: string
  os_lookup_rows :: u64
  os_lookup_bytes :: u64
  os_lookup_sha256 :: string
  os_lookup_schema :: string

datatype build_scope = Full | Sample

record pipeline_provenance =
  pp_dataset_sha256 :: string
  pp_prepared_corpus_sha256 :: string
  pp_embedding_plan_sha256 :: string
  pp_embedding_result_set_sha256 :: string

record fast_index_manifest =
  fm_schema_version :: string
  fm_component_sha256 :: string
  fm_source :: source_binding
  fm_build_scope :: build_scope
  fm_complete :: bool
  fm_documents :: object_summary
  fm_occurrences :: object_summary
  fm_vectors :: vector_summary
  fm_lexical :: lexical_summary
  fm_occurrence_lookup :: occurrence_lookup_summary
  fm_embedding_profile :: embedding_profile
  fm_pipeline_provenance :: "pipeline_provenance option"
  fm_test_only :: bool

definition is_err :: "index_error + 'a \<Rightarrow> index_error + bool" where
  "is_err m = (case m of Inl Panic \<Rightarrow> Inl Panic | Inl _ \<Rightarrow> Inr True | Inr _ \<Rightarrow> Inr False)"

definition provenance_digest :: "string \<Rightarrow> index_error + unit" where
  "provenance_digest d =
     rbind (decode_sha256 d) (\<lambda>_.
     if list_ex is_ascii_uppercase d then Inl (Invalid ''pipeline provenance digest'') else Inr ())"

definition provenance_validate :: "pipeline_provenance \<Rightarrow> index_error + unit" where
  "provenance_validate p =
     try_all provenance_digest
       [pp_dataset_sha256 p, pp_prepared_corpus_sha256 p, pp_embedding_plan_sha256 p,
        pp_embedding_result_set_sha256 p]"

definition validate_assembly_identity :: "source_binding \<Rightarrow> embedding_profile \<Rightarrow> index_error + unit" where
  "validate_assembly_identity source profile =
     rbind (is_err (decode_sha256 (sb_snapshot_sha256 source))) (\<lambda>a.
     if a then Inl (Invalid ''assembly identity'')
     else rbind (is_err (decode_sha256 (sb_mapping_sha256 source))) (\<lambda>b.
       if b \<or> \<not> is_ok (validate_embedding_profile profile) then Inl (Invalid ''assembly identity'')
       else Inr ()))"

end
