(* ===== verification/Index_Build.thy ===== *)
theory Index_Build
  imports Index_Manifest
begin

text \<open>
  Assembling a fast index, \<open>write_fast_index_from_streams_with_format\<close> of
  \<open>crates/rag-index/src/lib.rs\<close>: the files of the index and its sealed manifest, computed from
  the three streams. A file holds a typed value: what the Parquet, SQLite and JSON libraries
  wrote is what they read; \<open>file_bytes\<close>, a parameter, is its serialisation, of which the program
  uses the length and the digest. The vector file is bytes written by the code itself.
\<close>

subsection \<open>Files of an index\<close>

record build_report =
  br_schema_version :: string
  br_source :: source_binding
  br_build_scope :: build_scope
  br_complete :: bool
  br_document_count :: nat
  br_occurrence_count :: nat
  br_vector_count :: nat
  br_embedding_profile_sha256 :: string
  br_accounting :: json
  br_cache_hits :: nat
  br_embedded :: nat
  br_test_only :: bool

datatype index_file =
    DocumentsParquet "fast_document list"
  | OccurrencesParquet "fast_occurrence list"
  | LookupSqlite occurrence_lookup
  | LexicalSqlite lexical_tables
  | LexicalJson lexical_index
  | ManifestJson fast_index_manifest
  | ReportJson build_report
  | RawFile bytes

record index_externals = externals +
  file_bytes :: "index_file \<Rightarrow> bytes"
  f64_json :: "f64 \<Rightarrow> json"
  read_json :: "f64 \<Rightarrow> f64"

definition content_of :: "index_externals \<Rightarrow> index_file \<Rightarrow> bytes" where
  "content_of E x = (case x of RawFile b \<Rightarrow> b | _ \<Rightarrow> file_bytes E x)"

type_synonym index_directory = "(string \<times> index_file) list"

definition file_len :: "index_externals \<Rightarrow> index_file \<Rightarrow> u64" where
  "file_len E x = word_of_nat (length (content_of E x))"

definition file_sha256 :: "index_externals \<Rightarrow> index_file \<Rightarrow> string" where
  "file_sha256 E x = sha256_hex E (content_of E x)"

subsection \<open>The identity of a manifest\<close>

definition json_option :: "string option \<Rightarrow> json" where
  "json_option v = (case v of None \<Rightarrow> JNull | Some s \<Rightarrow> JStr s)"

text \<open>A field with \<open>skip_serializing_if = "Option::is_none"\<close>.\<close>

definition skip_none :: "string \<Rightarrow> json option \<Rightarrow> (string \<times> json) list" where
  "skip_none name v = (case v of None \<Rightarrow> [] | Some j \<Rightarrow> [(name, j)])"

definition json_source :: "source_binding \<Rightarrow> json" where
  "json_source s = JObj [(''snapshot_sha256'', JStr (sb_snapshot_sha256 s)),
     (''mapping_sha256'', JStr (sb_mapping_sha256 s))]"

definition json_scope :: "build_scope \<Rightarrow> json" where
  "json_scope s = JStr (case s of Full \<Rightarrow> ''full'' | Sample \<Rightarrow> ''sample'')"

definition json_object_summary :: "object_summary \<Rightarrow> json" where
  "json_object_summary o1 = JObj [(''path'', JStr (ob_path o1)), (''rows'', JNum (unat (ob_rows o1))),
     (''bytes'', JNum (unat (ob_bytes o1))), (''sha256'', JStr (ob_sha256 o1)),
     (''order_sha256'', json_option (ob_order_sha256 o1))]"

definition json_vector_summary :: "vector_summary \<Rightarrow> json" where
  "json_vector_summary v = JObj [(''path'', JStr (vs_path v)), (''count'', JNum (unat (vs_count v))),
     (''bytes'', JNum (unat (vs_bytes v))), (''sha256'', JStr (vs_sha256 v)),
     (''dimensions'', JNum (unat (vs_dimensions v))), (''dtype'', JStr (vs_dtype v)),
     (''header_bytes'', JNum (unat (vs_header_bytes v))),
     (''document_order_sha256'', JStr (vs_document_order_sha256 v))]"

definition json_lexical_summary :: "index_externals \<Rightarrow> lexical_summary \<Rightarrow> json" where
  "json_lexical_summary E l = JObj ([(''path'', JStr (ls_path l)),
     (''document_count'', JNum (unat (ls_document_count l))), (''bytes'', JNum (unat (ls_bytes l))),
     (''sha256'', JStr (ls_sha256 l))] @ skip_none ''schema'' (map_option JStr (ls_schema l))
     @ [(''tokenizer'', JStr (ls_tokenizer l)), (''k1'', f64_json E (ls_k1 l)), (''b'', f64_json E (ls_b l))])"

definition json_lookup_summary :: "occurrence_lookup_summary \<Rightarrow> json" where
  "json_lookup_summary s = JObj [(''path'', JStr (os_lookup_path s)), (''rows'', JNum (unat (os_lookup_rows s))),
     (''bytes'', JNum (unat (os_lookup_bytes s))), (''sha256'', JStr (os_lookup_sha256 s)),
     (''schema'', JStr (os_lookup_schema s))]"

definition json_derivation :: "vector_derivation \<Rightarrow> json" where
  "json_derivation d = JObj [(''parent_embedding_profile_sha256'', JStr (vd_parent_embedding_profile_sha256 d)),
     (''parent_dimensions'', JNum (unat (vd_parent_dimensions d))),
     (''transformation'', JStr (vd_transformation d))]"

definition json_profile :: "embedding_profile \<Rightarrow> json" where
  "json_profile p = JObj ([(''id'', JStr (ep_id p)), (''version'', JStr (ep_version p)),
     (''sha256'', JStr (ep_sha256 p)), (''model'', JStr (ep_model p)),
     (''dimensions'', JNum (unat (ep_dimensions p))), (''normalization'', JStr (ep_normalization p))]
     @ skip_none ''vector_derivation'' (map_option json_derivation (ep_vector_derivation p))
     @ skip_none ''query_instruction'' (map_option JStr (ep_query_instruction p))
     @ skip_none ''query_composition'' (map_option JStr (ep_query_composition p)))"

definition json_provenance :: "pipeline_provenance \<Rightarrow> json" where
  "json_provenance p = JObj [(''dataset_sha256'', JStr (pp_dataset_sha256 p)),
     (''prepared_corpus_sha256'', JStr (pp_prepared_corpus_sha256 p)),
     (''embedding_plan_sha256'', JStr (pp_embedding_plan_sha256 p)),
     (''embedding_result_set_sha256'', JStr (pp_embedding_result_set_sha256 p))]"

definition manifest_material :: "index_externals \<Rightarrow> fast_index_manifest \<Rightarrow> json" where
  "manifest_material E m = JObj ([(''schema_version'', JStr (fm_schema_version m)),
     (''source'', json_source (fm_source m)), (''build_scope'', json_scope (fm_build_scope m)),
     (''complete'', JBool (fm_complete m)), (''documents'', json_object_summary (fm_documents m)),
     (''occurrences'', json_object_summary (fm_occurrences m)),
     (''vectors'', json_vector_summary (fm_vectors m)), (''lexical'', json_lexical_summary E (fm_lexical m)),
     (''occurrence_lookup'', json_lookup_summary (fm_occurrence_lookup m)),
     (''embedding_profile'', json_profile (fm_embedding_profile m))]
     @ skip_none ''pipeline_provenance'' (map_option json_provenance (fm_pipeline_provenance m))
     @ (if fm_test_only m then [(''test_only'', JBool True)] else []))"

definition manifest_component_sha256 :: "index_externals \<Rightarrow> fast_index_manifest \<Rightarrow> index_error + string" where
  "manifest_component_sha256 E m =
     rbind (ok_or (Invalid ''component identity canonicalization'') (jcs_bytes E (manifest_material E m)))
       (\<lambda>b. Inr (sha256_hex E b))"

subsection \<open>Assembly\<close>

datatype lexical_format = JsonFormat | SqliteFormat

record index_assembly_options =
  ao_source :: source_binding
  ao_build_scope :: build_scope
  ao_embedding_profile :: embedding_profile
  ao_lexical_format :: lexical_format
  ao_pipeline_provenance :: "pipeline_provenance option"
  ao_test_only :: bool

definition artifact_summary ::
    "index_externals \<Rightarrow> index_file \<Rightarrow> string \<Rightarrow> nat \<Rightarrow> string option \<Rightarrow> object_summary" where
  "artifact_summary E x relative rows order =
     \<lparr>ob_path = relative, ob_rows = word_of_nat rows, ob_bytes = file_len E x, ob_sha256 = file_sha256 E x,
      ob_order_sha256 = order\<rparr>"

text \<open>The lexical index: the storage schema, its path and its file.\<close>

definition write_lexical ::
    "index_externals \<Rightarrow> lexical_format \<Rightarrow> document_write_summary \<Rightarrow> fast_document list
     \<Rightarrow> index_error + string \<times> string \<times> index_file" where
  "write_lexical E format summary D =
     (case format of
        JsonFormat \<Rightarrow>
          rbind (ok_or (Invalid ''legacy lexical token count'') (ds_stats summary)) (\<lambda>(tokens, frequency).
          Inr (''livefire.rag.fast-index/2'', ''lexical/index.json'',
               LexicalJson (write_lexical_from_documents (read_json E) D (ds_rows summary) tokens frequency)))
      | SqliteFormat \<Rightarrow>
          rbind (write_sqlite_lexical_from_documents E D (ds_rows summary) (ds_order_sha256 summary)) (\<lambda>T.
          Inr (''livefire.rag.fast-index/3'', ''lexical/index.sqlite3'', LexicalSqlite T)))"

definition sealed_manifest ::
    "index_externals \<Rightarrow> fast_index_manifest \<Rightarrow> index_error + fast_index_manifest" where
  "sealed_manifest E m =
     rbind (manifest_component_sha256 E m) (\<lambda>sha. Inr (m\<lparr>fm_component_sha256 := sha\<rparr>))"

definition assembled_manifest ::
    "index_externals \<Rightarrow> index_assembly_options \<Rightarrow> document_write_summary \<Rightarrow> fast_document list
     \<Rightarrow> fast_occurrence list \<Rightarrow> occurrence_lookup \<Rightarrow> nat \<Rightarrow> bytes \<Rightarrow> string \<times> string \<times> index_file
     \<Rightarrow> fast_index_manifest" where
  "assembled_manifest E A summary D R L vectors vector_bytes lexical =
     (case lexical of (storage_schema, relative, lexical_file) \<Rightarrow>
     \<lparr>fm_schema_version = (if ao_test_only A then ''livefire.rag.fast-index/4'' else storage_schema),
      fm_component_sha256 = [], fm_source = ao_source A, fm_build_scope = ao_build_scope A,
      fm_complete = (ao_build_scope A = Full),
      fm_documents = artifact_summary E (DocumentsParquet D) ''documents.parquet'' (ds_rows summary)
        (Some (ds_order_sha256 summary)),
      fm_occurrences = artifact_summary E (OccurrencesParquet R) ''occurrences.parquet'' (length R) None,
      fm_vectors = \<lparr>vs_path = ''vectors.f32'', vs_count = word_of_nat vectors,
        vs_bytes = file_len E (RawFile vector_bytes), vs_sha256 = file_sha256 E (RawFile vector_bytes),
        vs_dimensions = ep_dimensions (ao_embedding_profile A), vs_dtype = ''f32le'',
        vs_header_bytes = VECTOR_HEADER_BYTES, vs_document_order_sha256 = ds_order_sha256 summary\<rparr>,
      fm_lexical = \<lparr>ls_path = relative, ls_document_count = word_of_nat (ds_rows summary),
        ls_bytes = file_len E lexical_file, ls_sha256 = file_sha256 E lexical_file,
        ls_schema = (if ao_lexical_format A = SqliteFormat then Some SQLITE_LEXICAL_SCHEMA else None),
        ls_tokenizer = ''ascii_camel_lower_v1'', ls_k1 = d_lit 12 10, ls_b = d_lit 75 100\<rparr>,
      fm_occurrence_lookup = \<lparr>os_lookup_path = ''occurrence-index.sqlite3'',
        os_lookup_rows = word_of_nat (length R), os_lookup_bytes = file_len E (LookupSqlite L),
        os_lookup_sha256 = file_sha256 E (LookupSqlite L), os_lookup_schema = OCCURRENCE_LOOKUP_SCHEMA\<rparr>,
      fm_embedding_profile = ao_embedding_profile A, fm_pipeline_provenance = ao_pipeline_provenance A,
      fm_test_only = ao_test_only A\<rparr>)"

definition build_report_of :: "fast_index_manifest \<Rightarrow> nat \<Rightarrow> nat \<Rightarrow> nat \<Rightarrow> build_report" where
  "build_report_of m documents occurrences vectors =
     \<lparr>br_schema_version = (if fm_test_only m then ''livefire.rag.fast-build-report/2''
                          else ''livefire.rag.fast-build-report/1''),
      br_source = fm_source m, br_build_scope = fm_build_scope m, br_complete = fm_complete m,
      br_document_count = documents, br_occurrence_count = occurrences, br_vector_count = vectors,
      br_embedding_profile_sha256 = ep_sha256 (fm_embedding_profile m),
      br_accounting = JObj
        [(''coverage_semantics'', JStr ''assembled_input_stream_only_not_source_row_coverage''),
         (''semantic_source_coverage_complete'', JBool False), (''input_documents'', JNum documents),
         (''input_occurrences'', JNum occurrences), (''input_vectors'', JNum vectors)],
      br_cache_hits = 0, br_embedded = 0,
      br_test_only = fm_test_only m\<rparr>"

definition assemble_index ::
    "index_externals \<Rightarrow> index_assembly_options \<Rightarrow> (index_error + fast_document) list
     \<Rightarrow> (index_error + fast_occurrence) list \<Rightarrow> (index_error + ordered_vector) list
     \<Rightarrow> index_error + fast_index_manifest \<times> index_directory" where
  "assemble_index E A documents occurrences vectors =
     rbind (write_documents_streaming E documents (ao_lexical_format A = JsonFormat) create_occurrence_lookup)
       (\<lambda>(summary, L1, D).
     rbind (write_occurrences_streaming occurrences (ao_source A) L1) (\<lambda>(rows, L2, R).
     rbind (finalize_occurrence_lookup L2 rows (ao_source A)) (\<lambda>L.
     rbind (write_vectors_streaming vectors (ep_dimensions (ao_embedding_profile A)) (ds_order_sha256 summary)
              (ep_normalization (ao_embedding_profile A))) (\<lambda>(vector_count, vector_bytes).
     if vector_count \<noteq> ds_rows summary then Inl (Invalid ''document/vector count'')
     else
     rbind (write_lexical E (ao_lexical_format A) summary D) (\<lambda>(storage_schema, relative, lexical_file).
     rbind (sealed_manifest E (assembled_manifest E A summary D R L vector_count vector_bytes
              (storage_schema, relative, lexical_file))) (\<lambda>m.
     Inr (m, [(''occurrence-index.sqlite3'', LookupSqlite L), (''documents.parquet'', DocumentsParquet D),
              (''occurrences.parquet'', OccurrencesParquet R), (''vectors.f32'', RawFile vector_bytes),
              (relative, lexical_file), (''index.json'', ManifestJson m),
              (''build-report.json'', ReportJson (build_report_of m (ds_rows summary) rows vector_count))])))))))"

text \<open>
  \<open>write_fast_index_from_streams_with_format\<close> on the index at the output path: it is refused
  when something is there, otherwise the whole directory appears, or nothing.
\<close>

definition write_index ::
    "index_externals \<Rightarrow> index_assembly_options \<Rightarrow> (index_error + fast_document) list
     \<Rightarrow> (index_error + fast_occurrence) list \<Rightarrow> (index_error + ordered_vector) list
     \<Rightarrow> index_directory option \<Rightarrow> (index_error + fast_index_manifest) \<times> index_directory option" where
  "write_index E A documents occurrences vectors old =
     (if old \<noteq> None then (Inl (Invalid ''output/documents''), old)
      else case rbind (validate_assembly_identity (ao_source A) (ao_embedding_profile A))
                  (\<lambda>_. assemble_index E A documents occurrences vectors) of
             Inl e \<Rightarrow> (Inl e, old)
           | Inr (m, files) \<Rightarrow> (Inr m, Some files))"

subsection \<open>Entry points\<close>

record pipeline_index_options =
  po_source :: source_binding
  po_build_scope :: build_scope
  po_embedding_profile :: embedding_profile
  po_provenance :: pipeline_provenance
  po_test_only :: bool

definition plain_options ::
    "lexical_format \<Rightarrow> source_binding \<Rightarrow> build_scope \<Rightarrow> embedding_profile \<Rightarrow> index_assembly_options" where
  "plain_options format source scope profile =
     \<lparr>ao_source = source, ao_build_scope = scope, ao_embedding_profile = profile,
      ao_lexical_format = format, ao_pipeline_provenance = None, ao_test_only = False\<rparr>"

definition bound_options :: "lexical_format \<Rightarrow> pipeline_index_options \<Rightarrow> index_assembly_options" where
  "bound_options format P =
     \<lparr>ao_source = po_source P, ao_build_scope = po_build_scope P,
      ao_embedding_profile = po_embedding_profile P, ao_lexical_format = format,
      ao_pipeline_provenance = Some (po_provenance P), ao_test_only = po_test_only P\<rparr>"

text \<open>\<open>write_bound_fast_index_from_streams\<close> and \<open>write_bound_scalable_fast_index_from_streams\<close>.\<close>

definition write_bound_index ::
    "lexical_format \<Rightarrow> index_externals \<Rightarrow> pipeline_index_options \<Rightarrow> (index_error + fast_document) list
     \<Rightarrow> (index_error + fast_occurrence) list \<Rightarrow> (index_error + ordered_vector) list
     \<Rightarrow> index_directory option \<Rightarrow> (index_error + fast_index_manifest) \<times> index_directory option" where
  "write_bound_index format E P documents occurrences vectors old =
     (case provenance_validate (po_provenance P) of
        Inl e \<Rightarrow> (Inl e, old)
      | Inr _ \<Rightarrow> write_index E (bound_options format P) documents occurrences vectors old)"

text \<open>\<open>write_fast_index\<close>: every document and vector in memory, numbered in order.\<close>

definition write_fast_index ::
    "index_externals \<Rightarrow> source_binding \<Rightarrow> build_scope \<Rightarrow> fast_document list \<Rightarrow> fast_occurrence list
     \<Rightarrow> u32 list list \<Rightarrow> embedding_profile \<Rightarrow> index_directory option
     \<Rightarrow> (index_error + fast_index_manifest) \<times> index_directory option" where
  "write_fast_index E source scope documents occurrences vectors profile old =
     write_index E (plain_options JsonFormat source scope profile) (map Inr documents) (map Inr occurrences)
       (map Inr (number_from 0 vectors)) old"

end
