(* ===== verification/Index_Search.thy ===== *)
theory Index_Search
  imports Index_Manifest Lexical_Ranking
begin

text \<open>
  Searching a fast index (\<open>FastIndex\<close> of \<open>crates/rag-index/src/lib.rs\<close>): the documents and
  their binding to the manifest, dense scores over the vector file, lexical scores from either
  backend, reciprocal rank fusion, the filters, and the hits with their evidence. The lazily
  filled caches (\<open>OnceLock\<close>) hold what the functions here compute.
\<close>

subsection \<open>The open index\<close>

datatype lexical_backend =
    JsonV2 "index_error + lexical_index"
  | SqliteV3 sqlite_lexical_index

record fast_index =
  fx_manifest :: fast_index_manifest
  fx_documents :: "index_error + fast_document list"
  fx_occurrence_lookup :: occurrence_lookup
  fx_vectors :: bytes
  fx_lexical :: lexical_backend

datatype search_mode = Dense | Lexical | Fused

record profile_bound_query_vector =
  pb_values :: "u32 list"
  pb_embedding_profile :: embedding_profile

datatype query_vector_input = Absent | Unvalidated "u32 list" | Bound "u32 list"

fun query_values :: "query_vector_input \<Rightarrow> u32 list option" where
  "query_values Absent = None"
| "query_values (Unvalidated v) = Some v"
| "query_values (Bound v) = Some v"

record search_hit =
  sh_rank :: nat
  sh_document_id :: string
  sh_semantic_text :: string
  sh_score :: f64
  sh_dense_score :: "f64 option"
  sh_lexical_score :: "f64 option"
  sh_eligible_occurrence_count :: nat
  sh_occurrences_exhausted :: bool
  sh_occurrences :: "evidence_occurrence list"

definition profile_dimensions :: "fast_index \<Rightarrow> nat" where
  "profile_dimensions X = unat (ep_dimensions (fm_embedding_profile (fx_manifest X)))"

definition profile_normalization :: "fast_index \<Rightarrow> string" where
  "profile_normalization X = ep_normalization (fm_embedding_profile (fx_manifest X))"

definition validate_query_vector :: "fast_index \<Rightarrow> u32 list \<Rightarrow> index_error + profile_bound_query_vector" where
  "validate_query_vector X query =
     rbind (validate_query_vector_values query (profile_dimensions X) (profile_normalization X)) (\<lambda>_.
     Inr \<lparr>pb_values = query, pb_embedding_profile = fm_embedding_profile (fx_manifest X)\<rparr>)"

definition validate_query_binding :: "fast_index \<Rightarrow> profile_bound_query_vector \<Rightarrow> index_error + unit" where
  "validate_query_binding X q =
     (if pb_embedding_profile q \<noteq> fm_embedding_profile (fx_manifest X)
      then Inl (Invalid ''query vector profile binding'') else Inr ())"

text \<open>\<open>documents\<close>: the rows of the Parquet file, checked against the manifest.\<close>

definition documents :: "'x externals_scheme \<Rightarrow> fast_index \<Rightarrow> index_error + fast_document list" where
  "documents E X =
     rbind (fx_documents X) (\<lambda>D.
     let m = fx_manifest X; order = vs_document_order_sha256 (fm_vectors m)
     in if length D \<noteq> unat (ob_rows (fm_documents m))
           \<or> document_order_sha256 E (map fd_document_id D) \<noteq> order
           \<or> ob_order_sha256 (fm_documents m) \<noteq> Some order
           \<or> map (\<lambda>d. unat (fd_vector_ordinal d)) D \<noteq> [0..<length D]
        then Inl (Corrupt ''manifest row/order binding'') else Inr D)"

definition eligible :: "fast_index \<Rightarrow> search_filters \<Rightarrow> eligible_documents" where
  "eligible X filters =
     (if sf_relations filters = [] \<and> sf_time_start_ms filters = None \<and> sf_time_end_ms filters = None
      then None else Some (read_eligible_document_ids (fx_occurrence_lookup X) filters))"

subsection \<open>Scores\<close>

definition dot_product :: "(u32 \<times> u32) list \<Rightarrow> f64" where
  "dot_product pairs =
     foldl (\<lambda>score (value, query_value). d_add score (d_mul (d_of_f32 value) (d_of_f32 query_value)))
       (Finite 0) pairs"

definition dense_score :: "fast_index \<Rightarrow> u32 list \<Rightarrow> fast_document \<Rightarrow> index_error + score" where
  "dense_score X query d =
     rbind (read_row (fx_vectors X) (vs_dimensions (fm_vectors (fx_manifest X))) (fd_vector_ordinal d)) (\<lambda>row.
     let pairs = zip row query; values = map fst pairs; score = dot_product pairs
     in if list_ex (\<lambda>x. \<not> f32_is_finite x) values then Inl (Corrupt ''non-finite vector value'')
        else if \<not> d_is_finite score \<or> profile_normalization X = ''l2'' \<and> norm_off values
        then Inl (Corrupt ''vector normalization'')
        else Inr (fd_document_id d, score))"

definition dense_scores ::
    "fast_index \<Rightarrow> fast_document list \<Rightarrow> u32 list \<Rightarrow> eligible_documents \<Rightarrow> string list option
     \<Rightarrow> index_error + score list" where
  "dense_scores X D query eligible_documents excluded =
     rbind (row_bytes (vs_dimensions (fm_vectors (fx_manifest X)))) (\<lambda>_.
     rbind (try_map (dense_score X query)
       (filter (\<lambda>d. is_eligible eligible_documents (fd_document_id d) \<and>
                    (case excluded of None \<Rightarrow> True | Some ids \<Rightarrow> fd_document_id d \<notin> set ids)) D)) (\<lambda>scores.
     Inr (sort_scores scores)))"

definition search_lexical_scores ::
    "'x externals_scheme \<Rightarrow> (f64 \<Rightarrow> f64) \<Rightarrow> fast_index \<Rightarrow> string \<Rightarrow> eligible_documents \<Rightarrow> index_error + score list" where
  "search_lexical_scores E f64_ln X query eligible_documents =
     (case fx_lexical X of
        SqliteV3 index \<Rightarrow> sqlite_scores f64_ln index query eligible_documents
      | JsonV2 content \<Rightarrow>
          rbind content (\<lambda>lexical.
          rbind (documents E X) (\<lambda>D.
          let lexical_ids = map ld_document_id (li_documents lexical)
          in if li_document_count lexical \<noteq> length D \<or> length (li_documents lexical) \<noteq> length D
                \<or> \<not> distinct lexical_ids \<or> set lexical_ids \<noteq> set (map fd_document_id D)
             then Inl (Corrupt ''lexical document association'')
             else Inr (lexical_scores f64_ln lexical query eligible_documents))))"

definition fuse_ranking :: "nat \<Rightarrow> score list \<Rightarrow> (string, f64) btree \<Rightarrow> (string, f64) btree" where
  "fuse_ranking k ranking scores =
     fold (\<lambda>(rank, i). add_score i
             (d_div (d_of_nat 1) (d_add (d_add (d_of_nat k) (d_of_nat rank)) (d_of_nat 1))))
       (zip [0..<length ranking] (map fst ranking)) scores"

definition reciprocal_rank_fusion :: "score list \<Rightarrow> score list \<Rightarrow> nat \<Rightarrow> score list" where
  "reciprocal_rank_fusion dense lexical k = sort_scores (fuse_ranking k lexical (fuse_ranking k dense []))"

subsection \<open>Searching\<close>

definition semantic_texts ::
    "'x externals_scheme \<Rightarrow> fast_index \<Rightarrow> string list \<Rightarrow> index_error + (string, string) btree" where
  "semantic_texts E X selected =
     (case fx_lexical X of
        SqliteV3 index \<Rightarrow> sqlite_semantic_texts index selected
      | JsonV2 _ \<Rightarrow>
          rbind (documents E X) (\<lambda>D.
          Inr (bt_collect (map (\<lambda>d. (fd_document_id d, fd_semantic_text d))
                 (filter (\<lambda>d. fd_document_id d \<in> set selected) D)))))"

definition filters_invalid :: "search_filters \<Rightarrow> bool" where
  "filters_invalid filters \<longleftrightarrow>
     length (sf_relations filters) > 256
     \<or> list_ex (\<lambda>r. r = [] \<or> length r > 128 \<or> CHR 0x00 \<in> set r) (sf_relations filters)
     \<or> (case (sf_time_start_ms filters, sf_time_end_ms filters) of
          (Some start, Some end_ms) \<Rightarrow> start \<ge> end_ms | _ \<Rightarrow> False)"

definition hit_of ::
    "(string \<Rightarrow> f64 option) \<Rightarrow> (string \<Rightarrow> f64 option) \<Rightarrow> (string, matched_occurrences) btree
     \<Rightarrow> nat \<Rightarrow> string \<Rightarrow> f64 \<Rightarrow> string \<Rightarrow> search_hit" where
  "hit_of dense_map lexical_map matched index i score text =
     \<lparr>sh_rank = index + 1, sh_document_id = i, sh_semantic_text = text, sh_score = score,
      sh_dense_score = dense_map i, sh_lexical_score = lexical_map i,
      sh_eligible_occurrence_count =
        (case bt_get matched i of None \<Rightarrow> 0 | Some e \<Rightarrow> mo_eligible_count e),
      sh_occurrences_exhausted =
        (case bt_get matched i of None \<Rightarrow> False | Some e \<Rightarrow> length (mo_rows e) = mo_eligible_count e),
      sh_occurrences = (case bt_get matched i of None \<Rightarrow> [] | Some e \<Rightarrow> mo_rows e)\<rparr>"

text \<open>The three rankings of a search: the ranking by mode, the dense one and the lexical one.\<close>

definition rankings ::
    "'x externals_scheme \<Rightarrow> (f64 \<Rightarrow> f64) \<Rightarrow> fast_index \<Rightarrow> search_mode \<Rightarrow> string \<Rightarrow> query_vector_input
     \<Rightarrow> search_filters \<Rightarrow> string list option \<Rightarrow> index_error + score list \<times> score list \<times> score list" where
  "rankings E f64_ln X mode query_text query_vector filters excluded =
     (let el = eligible X filters in
      rbind (if mode = Dense \<or> mode = Fused
             then rbind (ok_or (Invalid ''query vector'') (query_values query_vector)) (\<lambda>values.
               rbind (case query_vector of
                        Unvalidated _ \<Rightarrow>
                          validate_query_vector_values values (profile_dimensions X) (profile_normalization X)
                      | _ \<Rightarrow> Inr ()) (\<lambda>_.
               rbind (documents E X) (\<lambda>D. dense_scores X D values el excluded)))
             else Inr []) (\<lambda>dense.
      rbind (if mode = Lexical \<or> mode = Fused
             then search_lexical_scores E f64_ln X query_text el else Inr []) (\<lambda>lexical.
      Inr (case mode of Dense \<Rightarrow> dense | Lexical \<Rightarrow> lexical
           | Fused \<Rightarrow> reciprocal_rank_fusion dense lexical 60, dense, lexical))))"

definition search_internal ::
    "'x externals_scheme \<Rightarrow> (f64 \<Rightarrow> f64) \<Rightarrow> fast_index \<Rightarrow> search_mode \<Rightarrow> string \<Rightarrow> query_vector_input
     \<Rightarrow> search_filters \<Rightarrow> nat \<Rightarrow> string list option \<Rightarrow> index_error + search_hit list" where
  "search_internal E f64_ln X mode query_text query_vector filters top_n excluded =
     (if top_n = 0 \<or> top_n > 100 then Inl (Invalid ''top_n'')
      else if filters_invalid filters then Inl (Invalid ''search filters'')
      else rbind (rankings E f64_ln X mode query_text query_vector filters excluded)
        (\<lambda>(scores, dense, lexical).
        let selected = take top_n scores; selected_ids = btree_set (map fst selected)
        in rbind (semantic_texts E X selected_ids) (\<lambda>texts.
           rbind (read_matching_occurrences (fx_occurrence_lookup X) selected_ids filters) (\<lambda>matched.
           try_map (\<lambda>(index, i, score).
             rbind (ok_or Panic (bt_get texts i)) (\<lambda>text.
             Inr (hit_of (map_of (rev dense)) (map_of (rev lexical)) matched index i score text)))
             (zip [0..<length selected] selected)))))"

definition search ::
    "'x externals_scheme \<Rightarrow> (f64 \<Rightarrow> f64) \<Rightarrow> fast_index \<Rightarrow> search_mode \<Rightarrow> string \<Rightarrow> u32 list option
     \<Rightarrow> search_filters \<Rightarrow> nat \<Rightarrow> index_error + search_hit list" where
  "search E f64_ln X mode query_text query_vector filters top_n =
     search_internal E f64_ln X mode query_text
       (case query_vector of None \<Rightarrow> Absent | Some v \<Rightarrow> Unvalidated v) filters top_n None"

definition search_with_bound_vector ::
    "'x externals_scheme \<Rightarrow> (f64 \<Rightarrow> f64) \<Rightarrow> fast_index \<Rightarrow> search_mode \<Rightarrow> string \<Rightarrow> profile_bound_query_vector
     \<Rightarrow> search_filters \<Rightarrow> nat \<Rightarrow> string list option \<Rightarrow> index_error + search_hit list" where
  "search_with_bound_vector E f64_ln X mode query_text query filters top_n excluded =
     (if mode = Lexical then Inl (Invalid ''bound query search mode'')
      else rbind (validate_query_binding X query) (\<lambda>_.
        search_internal E f64_ln X mode query_text (Bound (pb_values query)) filters top_n excluded))"

definition search_dense_with_vector ::
    "'x externals_scheme \<Rightarrow> (f64 \<Rightarrow> f64) \<Rightarrow> fast_index \<Rightarrow> profile_bound_query_vector \<Rightarrow> search_filters \<Rightarrow> nat
     \<Rightarrow> index_error + search_hit list" where
  "search_dense_with_vector E f64_ln X query filters top_n =
     search_with_bound_vector E f64_ln X Dense [] query filters top_n None"

definition search_dense_with_vector_excluding ::
    "'x externals_scheme \<Rightarrow> (f64 \<Rightarrow> f64) \<Rightarrow> fast_index \<Rightarrow> profile_bound_query_vector \<Rightarrow> search_filters
     \<Rightarrow> string list \<Rightarrow> nat \<Rightarrow> index_error + search_hit list" where
  "search_dense_with_vector_excluding E f64_ln X query filters excluded top_n =
     search_with_bound_vector E f64_ln X Dense [] query filters top_n (Some excluded)"

definition search_fused_with_vector ::
    "'x externals_scheme \<Rightarrow> (f64 \<Rightarrow> f64) \<Rightarrow> fast_index \<Rightarrow> string \<Rightarrow> profile_bound_query_vector \<Rightarrow> search_filters
     \<Rightarrow> nat \<Rightarrow> index_error + search_hit list" where
  "search_fused_with_vector E f64_ln X query_text query filters top_n =
     search_with_bound_vector E f64_ln X Fused query_text query filters top_n None"

subsection \<open>Stored documents as queries\<close>

definition read_profile_bound_vector :: "fast_index \<Rightarrow> u64 \<Rightarrow> index_error + profile_bound_query_vector" where
  "read_profile_bound_vector X ordinal =
     (if ordinal \<ge> vs_count (fm_vectors (fx_manifest X)) then Inl (Corrupt ''vector ordinal'')
      else rbind (read_row (fx_vectors X) (vs_dimensions (fm_vectors (fx_manifest X))) ordinal) (\<lambda>values.
        case validate_query_vector X values of
          Inl _ \<Rightarrow> Inl (Corrupt ''stored document vector'') | Inr q \<Rightarrow> Inr q))"

text \<open>\<open>binary_search_by\<close> finds the identifier in the ascending documents, if it is there.\<close>

definition document_vector ::
    "'x externals_scheme \<Rightarrow> fast_index \<Rightarrow> string \<Rightarrow> index_error + profile_bound_query_vector option" where
  "document_vector E X i =
     (if i = [] \<or> CHR 0x00 \<in> set i then Inl (Invalid ''document id'')
      else rbind (case fx_lexical X of
             SqliteV3 index \<Rightarrow>
               rbind (document_ordinal index i) (\<lambda>n. Inr (map_option (\<lambda>k. word_of_nat k :: u64) n))
           | JsonV2 _ \<Rightarrow>
               rbind (documents E X) (\<lambda>D. Inr (map_option fd_vector_ordinal (find (\<lambda>d. fd_document_id d = i) D))))
        (\<lambda>ordinal. case ordinal of None \<Rightarrow> Inr None
           | Some k \<Rightarrow> rbind (read_profile_bound_vector X k) (\<lambda>q. Inr (Some q))))"

definition similar ::
    "'x externals_scheme \<Rightarrow> (f64 \<Rightarrow> f64) \<Rightarrow> fast_index \<Rightarrow> string \<Rightarrow> search_filters \<Rightarrow> nat \<Rightarrow> bool
     \<Rightarrow> index_error + search_hit list option" where
  "similar E f64_ln X i filters top_n exclude_seed =
     rbind (document_vector E X i) (\<lambda>seed.
     case seed of None \<Rightarrow> Inr None
     | Some q \<Rightarrow>
         rbind (search_dense_with_vector_excluding E f64_ln X q filters (if exclude_seed then [i] else []) top_n)
           (\<lambda>hits. Inr (Some hits)))"

end
