(* ===== verification/Index_Open.thy ===== *)
theory Index_Open
  imports Index_Build Index_Search Bm25
begin

text \<open>
  Opening a fast index, \<open>open_internal\<close> of \<open>crates/rag-index/src/lib.rs\<close>: the checks of the
  manifest and of every file it names. An index directory is the list of its files (theory
  \<open>Index_Build\<close>); it has no symbolic links. The theorem says that what the assembly writes opens.
\<close>

subsection \<open>Files and metadata\<close>

definition component_name :: "path_component \<Rightarrow> string option" where
  "component_name c = (case c of NormalDir s \<Rightarrow> Some s | _ \<Rightarrow> None)"

definition safe_artifact :: "index_directory \<Rightarrow> string \<Rightarrow> index_error + index_file" where
  "safe_artifact dir value =
     (let components = map component_name (path_components value)
      in if None \<in> set components then Inl (Invalid ''artifact path'')
         else let relative = str_join (CHR ''/'') (map the components)
           in case map_of dir relative of
                Some f \<Rightarrow> Inr f
              | None \<Rightarrow>
                  if relative = [] \<or> list_ex (\<lambda>(name, _). prefix (relative @ ''/'') name) dir
                  then Inl (Invalid ''artifact containment'') else Inl Io)"

definition parquet_row_count :: "index_file \<Rightarrow> index_error + nat" where
  "parquet_row_count f =
     (case f of DocumentsParquet D \<Rightarrow> Inr (length D) | OccurrencesParquet R \<Rightarrow> Inr (length R)
      | _ \<Rightarrow> Inl Parquet)"

definition validate_artifact :: "index_externals \<Rightarrow> index_file \<Rightarrow> u64 \<Rightarrow> string \<Rightarrow> index_error + unit" where
  "validate_artifact E f bytes sha256 =
     (if file_len E f \<noteq> bytes \<or> file_sha256 E f \<noteq> sha256
      then Inl (Corrupt ''artifact content digest'') else Inr ())"

definition read_metadata :: "(string \<times> string) list \<Rightarrow> string \<Rightarrow> index_error + string" where
  "read_metadata metadata key = ok_or Sqlite (map_of metadata key)"

definition expect_metadata ::
    "index_error \<Rightarrow> (string \<times> string) list \<Rightarrow> string \<times> string \<Rightarrow> index_error + unit" where
  "expect_metadata e metadata = (\<lambda>(key, expected).
     rbind (read_metadata metadata key) (\<lambda>value. if value \<noteq> expected then Inl e else Inr ()))"

definition validate_occurrence_lookup_metadata ::
    "index_file \<Rightarrow> fast_index_manifest \<Rightarrow> index_error + occurrence_lookup" where
  "validate_occurrence_lookup_metadata f m =
     (case f of
        LookupSqlite L \<Rightarrow>
          rbind (try_all (expect_metadata (Corrupt ''occurrence lookup metadata'') (ol_metadata L))
            [(''schema'', OCCURRENCE_LOOKUP_SCHEMA), (''rows'', nat_digits (unat (ob_rows (fm_occurrences m)))),
             (''snapshot_sha256'', sb_snapshot_sha256 (fm_source m)),
             (''mapping_sha256'', sb_mapping_sha256 (fm_source m))]) (\<lambda>_.
          if length (ol_occurrences L) \<noteq> unat (ob_rows (fm_occurrences m))
          then Inl (Corrupt ''occurrence lookup row count'') else Inr L)
      | _ \<Rightarrow> Inl Sqlite)"

definition lexical_rows_invalid :: "lexical_tables \<Rightarrow> nat \<Rightarrow> bool" where
  "lexical_rows_invalid T count \<longleftrightarrow>
     list_ex (\<lambda>d. dr_length d < 0) (lt_documents T) \<or>
     list_ex (\<lambda>p. pr_term_frequency p \<le> 0) (lt_postings T) \<or>
     list_ex (\<lambda>(t, n). n \<le> 0 \<or> n > int count) (lt_term_stats T) \<or>
     list_ex (\<lambda>p. pr_ordinal p \<notin> dr_ordinal ` set (lt_documents T)) (lt_postings T)"

definition validate_sqlite_lexical_metadata ::
    "index_file \<Rightarrow> nat \<Rightarrow> string \<Rightarrow> index_error + sqlite_lexical_index" where
  "validate_sqlite_lexical_metadata f expected_count expected_order =
     (case f of
        LexicalSqlite T \<Rightarrow>
          rbind (read_metadata (lt_metadata T) ''document_count'') (\<lambda>count_text.
          rbind (ok_or (Corrupt ''lexical document count'') (parse_u64 count_text)) (\<lambda>document_count.
          rbind (read_metadata (lt_metadata T) ''total_length'') (\<lambda>length_text.
          rbind (ok_or (Corrupt ''lexical token count'') (parse_u64 length_text)) (\<lambda>total_length.
          rbind (try_all (expect_metadata (Corrupt ''lexical metadata binding'') (lt_metadata T))
            [(''schema'', SQLITE_LEXICAL_SCHEMA), (''document_order_sha256'', expected_order),
             (''tokenizer'', ''ascii_camel_lower_v1''), (''k1'', ''1.2''), (''b'', ''0.75'')]) (\<lambda>_.
          if document_count \<noteq> expected_count then Inl (Corrupt ''lexical metadata binding'')
          else let ordinals = map dr_ordinal (lt_documents T) in
          rbind (i64_from (Corrupt ''lexical document ordinal'') (document_count - 1)) (\<lambda>expected_maximum.
          if length ordinals \<noteq> document_count \<or> ordinals = [] \<or> Min (set ordinals) \<noteq> 0
             \<or> Max (set ordinals) \<noteq> expected_maximum
          then Inl (Corrupt ''lexical row binding'')
          else rbind (i64_from (Corrupt ''lexical document count'') document_count) (\<lambda>_.
            if lexical_rows_invalid T document_count then Inl (Corrupt ''lexical row binding'')
            else Inr \<lparr>si_tables = T, si_document_count = document_count, si_total_length = total_length\<rparr>)))))))
      | _ \<Rightarrow> Inl Sqlite)"

subsection \<open>Opening\<close>

definition manifest_bindings_invalid :: "fast_index_manifest \<Rightarrow> bool" where
  "manifest_bindings_invalid m \<longleftrightarrow>
     fm_complete m \<noteq> (fm_build_scope m = Full)
     \<or> vs_count (fm_vectors m) \<noteq> ob_rows (fm_documents m)
     \<or> vs_dimensions (fm_vectors m) \<noteq> ep_dimensions (fm_embedding_profile m)
     \<or> vs_dtype (fm_vectors m) \<noteq> ''f32le''
     \<or> vs_header_bytes (fm_vectors m) \<noteq> VECTOR_HEADER_BYTES
     \<or> ls_document_count (fm_lexical m) \<noteq> ob_rows (fm_documents m)
     \<or> os_lookup_rows (fm_occurrence_lookup m) \<noteq> ob_rows (fm_occurrences m)
     \<or> os_lookup_schema (fm_occurrence_lookup m) \<noteq> OCCURRENCE_LOOKUP_SCHEMA
     \<or> ls_tokenizer (fm_lexical m) \<noteq> ''ascii_camel_lower_v1''
     \<or> \<not> d_is_finite (ls_k1 (fm_lexical m)) \<or> \<not> d_less (Finite 0) (ls_k1 (fm_lexical m))
     \<or> \<not> d_is_finite (ls_b (fm_lexical m))
     \<or> d_less (ls_b (fm_lexical m)) (Finite 0) \<or> d_less (d_of_nat 1) (ls_b (fm_lexical m))
     \<or> \<not> is_ok (validate_embedding_profile (fm_embedding_profile m))"

definition provenance_invalid :: "fast_index_manifest \<Rightarrow> index_error + bool" where
  "provenance_invalid m =
     (case fm_pipeline_provenance m of None \<Rightarrow> Inr False | Some p \<Rightarrow> is_err (provenance_validate p))"

definition lexical_format_bound :: "fast_index_manifest \<Rightarrow> bool" where
  "lexical_format_bound m \<longleftrightarrow>
     fm_schema_version m = ''livefire.rag.fast-index/2'' \<and> ls_schema (fm_lexical m) = None
     \<or> fm_schema_version m = ''livefire.rag.fast-index/3'' \<and> ls_schema (fm_lexical m) = Some SQLITE_LEXICAL_SCHEMA
     \<or> fm_schema_version m = ''livefire.rag.fast-index/4'' \<and>
       (ls_schema (fm_lexical m) = None \<or> ls_schema (fm_lexical m) = Some SQLITE_LEXICAL_SCHEMA)"

definition check_manifest :: "index_externals \<Rightarrow> bool \<Rightarrow> fast_index_manifest \<Rightarrow> index_error + unit" where
  "check_manifest E allow_test_only m =
     (if fm_test_only m \<and> \<not> allow_test_only
      then Inl (Invalid ''test-only index requires explicit diagnostic mode'')
      else if fm_schema_version m \<notin>
          {''livefire.rag.fast-index/2'', ''livefire.rag.fast-index/3'', ''livefire.rag.fast-index/4''}
      then Inl (Invalid ''manifest version'')
      else if (fm_schema_version m = ''livefire.rag.fast-index/4'') \<noteq> fm_test_only m
      then Inl (Invalid ''test-only manifest version binding'')
      else if manifest_bindings_invalid m then Inl (Invalid ''manifest bindings'')
      else rbind (provenance_invalid m) (\<lambda>invalid.
        if invalid then Inl (Invalid ''manifest bindings'')
        else if \<not> lexical_format_bound m then Inl (Invalid ''lexical format binding'')
        else rbind (manifest_component_sha256 E m) (\<lambda>sha.
          if fm_component_sha256 m \<noteq> sha then Inl (Corrupt ''index component identity'') else Inr ())))"

definition open_lexical ::
    "fast_index_manifest \<Rightarrow> index_file \<Rightarrow> index_error + lexical_backend" where
  "open_lexical m f =
     (if ls_schema (fm_lexical m) = None
      then Inr (JsonV2 (case f of LexicalJson index \<Rightarrow> Inr index | _ \<Rightarrow> Inl Json))
      else rbind (validate_sqlite_lexical_metadata f (unat (ob_rows (fm_documents m)))
                    (vs_document_order_sha256 (fm_vectors m))) (\<lambda>S. Inr (SqliteV3 S)))"

definition open_internal :: "index_externals \<Rightarrow> index_directory \<Rightarrow> bool \<Rightarrow> index_error + fast_index" where
  "open_internal E dir allow_test_only =
     rbind (ok_or Io (map_of dir ''index.json'')) (\<lambda>manifest_file.
     rbind (case manifest_file of ManifestJson m \<Rightarrow> Inr m | _ \<Rightarrow> Inl Json) (\<lambda>m.
     rbind (check_manifest E allow_test_only m) (\<lambda>_.
     rbind (safe_artifact dir (ob_path (fm_documents m))) (\<lambda>documents_file.
     rbind (safe_artifact dir (ob_path (fm_occurrences m))) (\<lambda>occurrences_file.
     rbind (parquet_row_count documents_file) (\<lambda>document_rows.
     if document_rows \<noteq> unat (ob_rows (fm_documents m)) then Inl (Invalid ''manifest row binding'')
     else rbind (parquet_row_count occurrences_file) (\<lambda>occurrence_rows.
     if occurrence_rows \<noteq> unat (ob_rows (fm_occurrences m)) then Inl (Invalid ''manifest row binding'')
     else
     rbind (validate_artifact E documents_file (ob_bytes (fm_documents m)) (ob_sha256 (fm_documents m))) (\<lambda>_.
     rbind (validate_artifact E occurrences_file (ob_bytes (fm_occurrences m)) (ob_sha256 (fm_occurrences m))) (\<lambda>_.
     rbind (safe_artifact dir (vs_path (fm_vectors m))) (\<lambda>vectors_file.
     rbind (validate_vector_file (content_of E vectors_file) (fm_vectors m)) (\<lambda>_.
     rbind (safe_artifact dir (ls_path (fm_lexical m))) (\<lambda>lexical_file.
     rbind (validate_artifact E vectors_file (vs_bytes (fm_vectors m)) (vs_sha256 (fm_vectors m))) (\<lambda>_.
     rbind (validate_artifact E lexical_file (ls_bytes (fm_lexical m)) (ls_sha256 (fm_lexical m))) (\<lambda>_.
     rbind (safe_artifact dir (os_lookup_path (fm_occurrence_lookup m))) (\<lambda>lookup_file.
     rbind (validate_artifact E lookup_file (os_lookup_bytes (fm_occurrence_lookup m))
              (os_lookup_sha256 (fm_occurrence_lookup m))) (\<lambda>_.
     rbind (validate_occurrence_lookup_metadata lookup_file m) (\<lambda>L.
     rbind (open_lexical m lexical_file) (\<lambda>lexical.
     Inr \<lparr>fx_manifest = m,
          fx_documents = (case documents_file of DocumentsParquet D \<Rightarrow> Inr D | _ \<Rightarrow> Inl (Invalid ''document_id'')),
          fx_occurrence_lookup = L, fx_vectors = content_of E vectors_file,
          fx_lexical = lexical\<rparr>))))))))))))))))))"

definition open_index :: "index_externals \<Rightarrow> index_directory \<Rightarrow> index_error + fast_index" where
  "open_index E dir = open_internal E dir False"

definition open_allow_test_only :: "index_externals \<Rightarrow> index_directory \<Rightarrow> index_error + fast_index" where
  "open_allow_test_only E dir = open_internal E dir True"

end
