(* ===== verification/Search_Facts.thy ===== *)
theory Search_Facts
  imports Index_Search
begin

text \<open>
  What a search returns: its hits are the head of the ranking, without repetition, each with
  exactly the evidence that passes the filters; the dense ranking contains every candidate in
  order; a bound query vector searches like the vector it was made from; and a document
  searching for its neighbours does not find itself when it is excluded.
\<close>

subsection \<open>Rankings\<close>

definition ranking_ok :: "eligible_documents \<Rightarrow> score list \<Rightarrow> bool" where
  "ranking_ok el scores \<longleftrightarrow> distinct (map fst scores) \<and> (\<forall>i \<in> fst ` set scores. is_eligible el i)"

lemma ranking_ok_sort: "ranking_ok el xs \<Longrightarrow> ranking_ok el (sort_scores xs)"
  by (simp add: ranking_ok_def sort_scores_distinct sort_scores_set)

lemma ranking_ok_filter: "ranking_ok el xs \<Longrightarrow> ranking_ok el (filter P xs)"
  by (auto simp: ranking_ok_def distinct_map_filter)

definition keys_ok :: "eligible_documents \<Rightarrow> (string, f64) btree \<Rightarrow> bool" where
  "keys_ok el m \<longleftrightarrow> bt_ok m \<and> (\<forall>i \<in> fst ` set m. is_eligible el i)"

lemma keys_ok_ranking: "keys_ok el m \<Longrightarrow> ranking_ok el (sort_scores m)"
  by (rule ranking_ok_sort) (simp add: keys_ok_def ranking_ok_def bt_ok_distinct)

lemma keys_ok_add: "keys_ok el m \<Longrightarrow> is_eligible el i \<Longrightarrow> keys_ok el (add_score i v m)"
  using bt_insert_keys [of i _ m] by (auto simp: keys_ok_def add_score_def bt_insert_ok)

lemma score_rows_keys:
  "try_fold (score_row el idf avg) m rows = Inr m' \<Longrightarrow> keys_ok el m \<Longrightarrow> keys_ok el m'"
proof (induction rows arbitrary: m)
  case (Cons row rows)
  then obtain m1 where r: "score_row el idf avg m row = Inr m1" "try_fold (score_row el idf avg) m1 rows = Inr m'"
    by (auto simp: rbind_eq_Inr)
  have "keys_ok el m1"
    using r(1) Cons.prems(2) by (cases row) (auto simp: score_row_def rbind_eq_Inr keys_ok_add split: if_splits)
  with Cons.IH r(2) show ?case by blast
qed simp

lemma score_terms_keys:
  "try_fold (score_term f64_ln S el avg) m ts = Inr m' \<Longrightarrow> keys_ok el m \<Longrightarrow> keys_ok el m'"
proof (induction ts arbitrary: m)
  case (Cons t ts)
  then obtain m1 where r: "score_term f64_ln S el avg m t = Inr m1" "try_fold (score_term f64_ln S el avg) m1 ts = Inr m'"
    by (auto simp: rbind_eq_Inr)
  have "keys_ok el m1"
    using r(1) Cons.prems(2)
    by (auto simp: score_term_def rbind_eq_Inr dest: score_rows_keys split: option.splits if_splits)
  with Cons.IH r(2) show ?case by blast
qed simp

lemma sqlite_ranking: "sqlite_scores f64_ln S query el = Inr scores \<Longrightarrow> ranking_ok el scores"
proof -
  assume s: "sqlite_scores f64_ln S query el = Inr scores"
  have e: "keys_ok el []" by (simp add: keys_ok_def)
  show ?thesis
  proof (cases "btree_set (tokenize query) = []")
    case True
    with s show ?thesis by (simp add: sqlite_scores_def ranking_ok_def)
  next
    case False
    with s obtain m where m: "try_fold (score_term f64_ln S el
        (average_of (si_total_length S) (si_document_count S))) [] (btree_set (tokenize query)) = Inr m"
      and scores: "scores = sort_scores m"
      by (auto simp: sqlite_scores_def Let_def rbind_eq_Inr)
    show ?thesis unfolding scores by (rule keys_ok_ranking [OF score_terms_keys [OF m e]])
  qed
qed

lemma lexical_ranking:
  assumes "distinct (map ld_document_id (li_documents index))"
  shows "ranking_ok el (lexical_scores f64_ln index query el)"
  unfolding lexical_scores_def Let_def
  by (intro ranking_ok_sort ranking_ok_filter)
    (use assms in \<open>auto simp: ranking_ok_def comp_def distinct_map_filter\<close>)

lemma search_lexical_ranking:
  "search_lexical_scores E f64_ln X query el = Inr scores \<Longrightarrow> ranking_ok el scores"
  by (auto simp: search_lexical_scores_def Let_def rbind_eq_Inr split: lexical_backend.splits if_splits
      intro: sqlite_ranking lexical_ranking)

definition candidate :: "eligible_documents \<Rightarrow> string list option \<Rightarrow> fast_document \<Rightarrow> bool" where
  "candidate el excluded d \<longleftrightarrow> is_eligible el (fd_document_id d) \<and>
     (case excluded of None \<Rightarrow> True | Some ids \<Rightarrow> fd_document_id d \<notin> set ids)"

lemma dense_score_id: "dense_score X query d = Inr (i, s) \<Longrightarrow> i = fd_document_id d \<and> d_is_finite s"
  by (auto simp: dense_score_def Let_def rbind_eq_Inr split: if_splits)

lemma dense_scores_ok:
  assumes "dense_scores X D query el excluded = Inr scores"
  shows "\<exists>raw. try_map (dense_score X query) (filter (candidate el excluded) D) = Inr raw \<and>
    scores = sort_scores raw \<and> map fst raw = map fd_document_id (filter (candidate el excluded) D) \<and> no_nan raw"
proof -
  from assms obtain raw where raw: "try_map (dense_score X query) (filter (candidate el excluded) D) = Inr raw"
    "scores = sort_scores raw"
    by (auto simp: dense_scores_def rbind_eq_Inr candidate_def [abs_def])
  have "list_all2 (\<lambda>d x. fst x = fd_document_id d \<and> d_is_finite (snd x)) (filter (candidate el excluded) D) raw"
    using raw(1) unfolding try_map_ok by (rule list_all2_mono) (auto dest: dense_score_id)
  then have "map fst raw = map fd_document_id (filter (candidate el excluded) D) \<and> no_nan raw"
    by (induction rule: list_all2_induct) (auto simp: no_nan_def)
  with raw show ?thesis by blast
qed

lemma dense_ranking:
  assumes "dense_scores X D query el excluded = Inr scores" and "distinct (map fd_document_id D)"
  shows "ranking_ok el scores"
proof -
  from dense_scores_ok [OF assms(1)] obtain raw where raw: "scores = sort_scores raw"
    "map fst raw = map fd_document_id (filter (candidate el excluded) D)" by blast
  have "distinct (map fst raw)" using assms(2) by (simp add: raw(2) distinct_map_filter)
  moreover have "\<forall>i \<in> set (map fst raw). is_eligible el i" unfolding raw(2) by (auto simp: candidate_def)
  ultimately show ?thesis unfolding raw(1) by (intro ranking_ok_sort) (simp add: ranking_ok_def)
qed

lemma fuse_ranking_keys:
  assumes "\<forall>x \<in> set xs. is_eligible el (snd x)" "keys_ok el m"
  shows "keys_ok el (fold (\<lambda>(rank, i). add_score i (f rank)) xs m)"
  using assms by (induction xs arbitrary: m) (auto simp: keys_ok_add)

lemma fusion_ranking:
  assumes "ranking_ok el dense" "ranking_ok el lexical"
  shows "ranking_ok el (reciprocal_rank_fusion dense lexical k)"
proof -
  have el: "\<forall>x \<in> set (zip is (map fst scores)). is_eligible el (snd x)" if "ranking_ok el scores" for "is" scores
    using that by (auto simp: ranking_ok_def dest!: set_zip_rightD)
  have "keys_ok el []" by (simp add: keys_ok_def)
  then have "keys_ok el (fuse_ranking k lexical (fuse_ranking k dense []))"
    unfolding fuse_ranking_def by (intro fuse_ranking_keys el assms)
  then show ?thesis unfolding reciprocal_rank_fusion_def by (rule keys_ok_ranking)
qed

definition distinct_documents :: "fast_index \<Rightarrow> bool" where
  "distinct_documents X \<longleftrightarrow> (case fx_documents X of Inl _ \<Rightarrow> True | Inr D \<Rightarrow> distinct (map fd_document_id D))"

lemma documents_ok: "documents E X = Inr D \<Longrightarrow> fx_documents X = Inr D"
  by (auto simp: documents_def rbind_eq_Inr Let_def split: if_splits)

lemma rankings_ok:
  assumes "rankings E f64_ln X mode query_text query_vector filters excluded = Inr (scores, dense, lexical)"
    and "distinct_documents X"
  shows "ranking_ok (eligible X filters) scores"
proof -
  let ?el = "eligible X filters"
  have e: "ranking_ok ?el []" by (simp add: ranking_ok_def)
  have d: "ranking_ok ?el dense"
    using assms e
    by (auto simp: rankings_def Let_def rbind_eq_Inr distinct_documents_def
        dest!: documents_ok intro: dense_ranking split: if_splits sum.splits)
  have l: "ranking_ok ?el lexical"
    using assms(1) e by (auto simp: rankings_def Let_def rbind_eq_Inr intro: search_lexical_ranking split: if_splits)
  have "scores = (case mode of Dense \<Rightarrow> dense | Lexical \<Rightarrow> lexical | Fused \<Rightarrow> reciprocal_rank_fusion dense lexical 60)"
    using assms(1) by (auto simp: rankings_def Let_def rbind_eq_Inr)
  then show ?thesis using d l fusion_ranking [OF d l] by (cases mode) simp_all
qed

subsection \<open>Hits\<close>

definition filters_empty :: "search_filters \<Rightarrow> bool" where
  "filters_empty filters \<longleftrightarrow>
     sf_relations filters = [] \<and> sf_time_start_ms filters = None \<and> sf_time_end_ms filters = None"

definition hit_evidence_ok :: "fast_index \<Rightarrow> search_filters \<Rightarrow> search_hit \<Rightarrow> bool" where
  "hit_evidence_ok X filters h \<longleftrightarrow>
     (let R = matching_rows (fx_occurrence_lookup X) filters (sh_document_id h)
      in sh_eligible_occurrence_count h = length R \<and>
         sh_occurrences h = map (\<lambda>r. evidence_of (time_of r) r) (take MAX_RETURNED_OCCURRENCES_PER_HIT R) \<and>
         (sh_occurrences_exhausted h \<longleftrightarrow> R \<noteq> [] \<and> length R \<le> MAX_RETURNED_OCCURRENCES_PER_HIT) \<and>
         (\<not> filters_empty filters \<longrightarrow> R \<noteq> []))"

lemma search_hits:
  assumes "search_internal E f64_ln X mode query_text query_vector filters top_n excluded = Inr hits"
  obtains scores dense lexical where
    "rankings E f64_ln X mode query_text query_vector filters excluded = Inr (scores, dense, lexical)"
    and "0 < top_n" and "map (\<lambda>h. (sh_document_id h, sh_score h)) hits = take top_n scores"
    and "map sh_rank hits = [1..<length hits + 1]"
    and "distinct_documents X \<Longrightarrow> list_all (hit_evidence_ok X filters) hits"
proof -
  from assms obtain scores dense lexical texts matched where top: "0 < top_n"
    and r: "rankings E f64_ln X mode query_text query_vector filters excluded = Inr (scores, dense, lexical)"
    and m: "read_matching_occurrences (fx_occurrence_lookup X) (btree_set (map fst (take top_n scores))) filters = Inr matched"
    and h: "try_map (\<lambda>(index, i, score).
             rbind (ok_or Panic (bt_get texts i)) (\<lambda>text.
             Inr (hit_of (map_of (rev dense)) (map_of (rev lexical)) matched index i score text)))
             (zip [0..<length (take top_n scores)] (take top_n scores)) = Inr hits"
    by (auto simp: search_internal_def Let_def rbind_eq_Inr split: if_splits)
  define sel where "sel = take top_n scores"
  have all: "list_all2 (\<lambda>(index, i, score) h. \<exists>text.
      h = hit_of (map_of (rev dense)) (map_of (rev lexical)) matched index i score text)
      (zip [0..<length sel] sel) hits"
    using h unfolding try_map_ok sel_def
    by (rule list_all2_mono) (auto simp: rbind_eq_Inr ok_or_eq_Inr)
  have len: "length hits = length sel" using list_all2_lengthD [OF all] by simp
  have nth: "\<exists>text. hits ! k = hit_of (map_of (rev dense)) (map_of (rev lexical)) matched k (fst (sel ! k)) (snd (sel ! k)) text"
    if "k < length hits" for k
    using list_all2_nthD [OF all, of k] that len by (simp add: case_prod_beta)
  have ids: "map (\<lambda>h. (sh_document_id h, sh_score h)) hits = sel"
  proof (rule nth_equalityI)
    fix k assume "k < length (map (\<lambda>h. (sh_document_id h, sh_score h)) hits)"
    with nth [of k] show "map (\<lambda>h. (sh_document_id h, sh_score h)) hits ! k = sel ! k" by (auto simp: hit_of_def)
  qed (simp add: len)
  have ranks: "map sh_rank hits = [1..<length hits + 1]"
  proof (rule nth_equalityI)
    fix k assume "k < length (map sh_rank hits)"
    with nth [of k] show "map sh_rank hits ! k = [1..<length hits + 1] ! k"
      by (auto simp: hit_of_def simp del: upt_Suc)
  qed (simp del: upt_Suc)
  have evidence: "hit_evidence_ok X filters (hits ! k)" if k: "k < length hits" and d: "distinct_documents X" for k
  proof -
    let ?i = "fst (sel ! k)"
    let ?R = "matching_rows (fx_occurrence_lookup X) filters ?i"
    have mem: "sel ! k \<in> set sel" using k len by simp
    then have "?i \<in> set (btree_set (map fst sel))" by (simp add: btree_set_def)
    from read_matching_ok [OF m [folded sel_def] this]
    have get: "bt_get matched ?i = (if ?R = [] then None else Some (matched_of ?R))" .
    have "sel ! k \<in> set scores" using mem by (auto simp: sel_def dest: in_set_takeD)
    then have "is_eligible (eligible X filters) ?i"
      using rankings_ok [OF r d] by (auto simp: ranking_ok_def)
    then have "\<not> filters_empty filters \<longrightarrow> ?R \<noteq> []"
      using eligible_iff_matching [of ?i "fx_occurrence_lookup X" filters]
      by (auto simp: is_eligible_def eligible_def filters_empty_def split: if_splits)
    with get nth [OF k] show ?thesis
      by (auto simp: hit_evidence_ok_def hit_of_def matched_of_def Let_def min_def split: if_splits)
  qed
  have "distinct_documents X \<Longrightarrow> list_all (hit_evidence_ok X filters) hits"
    unfolding list_all_length using evidence by blast
  with that r top ids ranks show ?thesis unfolding sel_def by blast
qed

text \<open>
  C16: A search returns at most \<open>top_n\<close> hits, ranked \<open>1, 2, \<dots>\<close>, each document at most once. Every hit
  comes with exactly the occurrences that pass the filters: their number, the first fifty of them
  in the order of their identifiers, and whether these are all. With filters, every hit has one.
\<close>

theorem search_hits_have_their_evidence:
  assumes "search_internal E f64_ln X mode query_text query_vector filters top_n excluded = Inr hits"
    and "distinct_documents X"
  shows "length hits \<le> top_n \<and> map sh_rank hits = [1..<length hits + 1] \<and>
    distinct (map sh_document_id hits) \<and> list_all (hit_evidence_ok X filters) hits"
proof -
  from assms(1) obtain scores dense lexical where
    r: "rankings E f64_ln X mode query_text query_vector filters excluded = Inr (scores, dense, lexical)"
    and ids: "map (\<lambda>h. (sh_document_id h, sh_score h)) hits = take top_n scores"
    and rest: "map sh_rank hits = [1..<length hits + 1]" "list_all (hit_evidence_ok X filters) hits"
    by (rule search_hits) (use assms(2) in blast)
  have "map sh_document_id hits = map fst (take top_n scores)"
    using arg_cong [OF ids, of "map fst"] by (simp add: comp_def)
  then have "distinct (map sh_document_id hits)"
    using rankings_ok [OF r assms(2)] by (simp add: ranking_ok_def flip: take_map)
  moreover have "length hits \<le> top_n" using arg_cong [OF ids, of length] by simp
  ultimately show ?thesis using rest by blast
qed

lemma sorted_take_before:
  assumes "sorted_wrt P xs" and "x \<in> set (take n xs)" and "y \<in> set xs" and "y \<notin> set (take n xs)"
  shows "P x y"
proof -
  have "y \<in> set (take n xs @ drop n xs)" using assms(3) by simp
  with assms(4) have "y \<in> set (drop n xs)" unfolding set_append by blast
  moreover have "sorted_wrt P (take n xs @ drop n xs)" using assms(1) by simp
  ultimately show ?thesis using assms(2) unfolding sorted_wrt_append by blast
qed

lemma dense_score_values:
  assumes raw: "try_map (dense_score X query) ds = Inr raw" and dist: "distinct (map fst raw)"
  shows "\<exists>score_of. (\<forall>x \<in> set raw. snd x = score_of (fst x)) \<and>
    (\<forall>d \<in> set ds. dense_score X query d = Inr (fd_document_id d, score_of (fd_document_id d)))"
proof (intro exI [of _ "\<lambda>i. the (map_of raw i)"] conjI ballI)
  fix x assume x: "x \<in> set raw"
  then have "map_of raw (fst x) = Some (snd x)" using dist by simp
  then show val: "snd x = the (map_of raw (fst x))" by simp
next
  fix d assume "d \<in> set ds"
  then obtain k where k: "k < length ds" "ds ! k = d" by (metis in_set_conv_nth)
  from try_map_nth [OF raw k(1)] k have s: "dense_score X query d = Inr (raw ! k)" by simp
  have "raw ! k \<in> set raw" using k try_map_length [OF raw] by simp
  then have "map_of raw (fst (raw ! k)) = Some (snd (raw ! k))" using dist by simp
  moreover have "fst (raw ! k) = fd_document_id d"
    using s dense_score_id by (cases "raw ! k") auto
  ultimately show "dense_score X query d = Inr (fd_document_id d, the (map_of raw (fd_document_id d)))"
    using s by (metis option.sel prod.collapse)
qed

text \<open>
  C6: The dense search is exact: its hits are the best candidates in order of their scores, equal
  scores by ascending identifier, and no candidate left out scores before a returned one.
\<close>

theorem dense_search_exact:
  assumes "search_internal E f64_ln X Dense query_text (Bound query) filters top_n excluded = Inr hits"
    and "fx_documents X = Inr D" and "distinct (map fd_document_id D)"
  shows "\<exists>score_of. let C = filter (candidate (eligible X filters) excluded) D in
    (\<forall>d \<in> set C. dense_score X query d = Inr (fd_document_id d, score_of (fd_document_id d))) \<and>
    length hits = min top_n (length C) \<and>
    sorted_wrt score_before (map (\<lambda>h. (sh_document_id h, sh_score h)) hits) \<and>
    (\<forall>h \<in> set hits. sh_document_id h \<in> fd_document_id ` set C \<and> sh_score h = score_of (sh_document_id h)) \<and>
    (\<forall>d \<in> set C. fd_document_id d \<notin> sh_document_id ` set hits \<longrightarrow>
      (\<forall>h \<in> set hits. score_before (sh_document_id h, sh_score h) (fd_document_id d, score_of (fd_document_id d))))"
proof -
  let ?C = "filter (candidate (eligible X filters) excluded) D"
  from assms(1) obtain scores dense lexical where
    r: "rankings E f64_ln X Dense query_text (Bound query) filters excluded = Inr (scores, dense, lexical)"
    and ids: "map (\<lambda>h. (sh_document_id h, sh_score h)) hits = take top_n scores" by (rule search_hits) blast
  from r assms(2) have "dense_scores X D query (eligible X filters) excluded = Inr scores"
    by (auto simp: rankings_def Let_def rbind_eq_Inr dest!: documents_ok)
  from dense_scores_ok [OF this] obtain raw where raw: "try_map (dense_score X query) ?C = Inr raw"
    "scores = sort_scores raw" "map fst raw = map fd_document_id ?C" "no_nan raw" by blast
  have dist: "distinct (map fst raw)" using assms(3) by (simp add: raw(3) distinct_map_filter)
  from dense_score_values [OF raw(1) dist] obtain score_of where
    val: "\<And>x. x \<in> set raw \<Longrightarrow> snd x = score_of (fst x)"
    and dense: "\<And>d. d \<in> set ?C \<Longrightarrow> dense_score X query d = Inr (fd_document_id d, score_of (fd_document_id d))"
    by metis
  have sorted: "sorted_wrt score_before (sort_scores raw)" by (rule sort_scores_sorted [OF raw(4)])
  have len: "length hits = min top_n (length ?C)"
    using arg_cong [OF ids, of length] arg_cong [OF raw(3), of length]
    by (simp add: raw(2) sort_scores_length min.commute)
  have mem: "(sh_document_id h, sh_score h) \<in> set (take top_n (sort_scores raw))" if "h \<in> set hits" for h
    using that by (auto simp flip: raw(2) ids)
  have hit: "(sh_document_id h, sh_score h) \<in> set raw" if "h \<in> set hits" for h
    using in_set_takeD [OF mem [OF that]] by (simp add: sort_scores_set)
  have found: "sh_document_id h \<in> fd_document_id ` set ?C \<and> sh_score h = score_of (sh_document_id h)"
    if "h \<in> set hits" for h
  proof -
    have "sh_document_id h \<in> set (map fst raw)" using hit [OF that] by force
    then show ?thesis using val [OF hit [OF that]] unfolding raw(3) by simp
  qed
  have rest: "score_before (sh_document_id h, sh_score h) (fd_document_id d, score_of (fd_document_id d))"
    if d: "d \<in> set ?C" "fd_document_id d \<notin> sh_document_id ` set hits" and h: "h \<in> set hits" for d h
  proof (rule sorted_take_before [OF sorted mem [OF h]])
    have "fd_document_id d \<in> set (map fst raw)" unfolding raw(3) using d(1) by simp
    then show "(fd_document_id d, score_of (fd_document_id d)) \<in> set (sort_scores raw)"
      using val by (force simp: sort_scores_set)
    show "(fd_document_id d, score_of (fd_document_id d)) \<notin> set (take top_n (sort_scores raw))"
      using d(2) ids [unfolded raw(2), symmetric] by force
  qed
  have "sorted_wrt score_before (take top_n (sort_scores raw))"
    using sorted sorted_wrt_take by blast
  with dense len found rest ids show ?thesis
    unfolding raw(2) Let_def by (intro exI [of _ score_of]) auto
qed

subsection \<open>Query vectors\<close>

text \<open>
  A query vector validated once searches exactly like the raw vector: the same hits, the same
  errors. A vector bound to another profile is refused.
\<close>

theorem bound_search_equals_search:
  assumes "validate_query_vector X v = Inr q" and "mode \<noteq> Lexical"
  shows "search_with_bound_vector E f64_ln X mode query_text q filters top_n None =
      search E f64_ln X mode query_text (Some v) filters top_n \<and>
    (\<forall>Y. fm_embedding_profile (fx_manifest Y) \<noteq> fm_embedding_profile (fx_manifest X) \<longrightarrow>
      search_with_bound_vector E f64_ln Y mode query_text q filters top_n None =
        Inl (Invalid ''query vector profile binding''))"
proof -
  from assms(1) have q: "pb_values q = v" "pb_embedding_profile q = fm_embedding_profile (fx_manifest X)"
    and ok: "validate_query_vector_values v (profile_dimensions X) (profile_normalization X) = Inr ()"
    by (auto simp: validate_query_vector_def rbind_eq_Inr)
  have "rankings E f64_ln X mode query_text (Bound v) filters None =
      rankings E f64_ln X mode query_text (Unvalidated v) filters None"
    using ok by (simp add: rankings_def Let_def)
  then show ?thesis
    using assms(2) q by (auto simp: search_with_bound_vector_def validate_query_binding_def search_def
        search_internal_def)
qed

text \<open>
  Searching for the neighbours of a document: a document the index does not have is told apart
  from one without neighbours, and an excluded seed is never among its own hits.
\<close>

theorem similar_excludes_seed:
  assumes "similar E f64_ln X i filters top_n True = Inr found" and "distinct_documents X"
  shows "(found = None \<longleftrightarrow> document_vector E X i = Inr None) \<and>
    (\<forall>h \<in> set (concat (case found of None \<Rightarrow> [] | Some hits \<Rightarrow> [hits])). sh_document_id h \<noteq> i)"
proof -
  from assms(1) obtain seed where seed: "document_vector E X i = Inr seed"
    by (auto simp: similar_def rbind_eq_Inr)
  show ?thesis
  proof (cases seed)
    case None
    with assms(1) seed show ?thesis by (simp add: similar_def)
  next
    case (Some q)
    with assms(1) seed obtain hits where h: "found = Some hits"
      and s: "search_internal E f64_ln X Dense [] (Bound (pb_values q)) filters top_n (Some [i]) = Inr hits"
      by (auto simp: similar_def rbind_eq_Inr search_dense_with_vector_excluding_def search_with_bound_vector_def)
    from s obtain scores dense lexical where
      r: "rankings E f64_ln X Dense [] (Bound (pb_values q)) filters (Some [i]) = Inr (scores, dense, lexical)"
      and ids: "map (\<lambda>h. (sh_document_id h, sh_score h)) hits = take top_n scores" by (rule search_hits) blast
    from r obtain D where "dense_scores X D (pb_values q) (eligible X filters) (Some [i]) = Inr scores"
      by (auto simp: rankings_def Let_def rbind_eq_Inr)
    from dense_scores_ok [OF this] obtain raw where raw: "scores = sort_scores raw"
      "map fst raw = map fd_document_id (filter (candidate (eligible X filters) (Some [i])) D)" by blast
    have "i \<notin> set (map fst raw)" unfolding raw(2) by (auto simp: candidate_def)
    then have "i \<notin> fst ` set scores" by (simp add: raw(1) sort_scores_set)
    moreover have "sh_document_id h \<in> fst ` set scores" if "h \<in> set hits" for h
    proof -
      have "(sh_document_id h, sh_score h) \<in> set (take top_n scores)" using that by (auto simp flip: ids)
      then show ?thesis by (force dest: in_set_takeD)
    qed
    ultimately show ?thesis using h seed Some by auto
  qed
qed

end
