(* ===== verification/Search_Example.thy ===== *)
theory Search_Example
  imports Search_Facts
begin

text \<open>
  An index of one document with one occurrence and a one-dimensional vector, at which the
  theorems of \<open>Search_Facts\<close> are applied.
\<close>

definition example_externals :: externals where
  "example_externals = \<lparr>sha256_hex = (\<lambda>_. zero_sha), jcs_bytes = (\<lambda>_. None), json_from_str = (\<lambda>_. None)\<rparr>"

definition example_document :: fast_document where
  "example_document = \<lparr>fd_document_id = ''a'', fd_document_sha256 = [], fd_document_kind = [],
     fd_semantic_text = ''x'', fd_facets_json = [], fd_relations_json = [], fd_occurrence_count = 1,
     fd_vector_ordinal = 0\<rparr>"

definition example_lookup :: occurrence_lookup where
  "example_lookup = \<lparr>ol_assembly_documents = [],
     ol_occurrences = [\<lparr>or_occurrence_id = ''o'', or_document_id = ''a'', or_event_time_ms = Some 5,
       or_relation = ''r'', or_snapshot_sha256 = [], or_mapping_sha256 = [], or_event_id = ''e'',
       or_support_ref = ''s''\<rparr>], ol_metadata = []\<rparr>"

definition example_tables :: lexical_tables where
  "example_tables = \<lparr>lt_documents = [\<lparr>dr_ordinal = 0, dr_document_id = ''a'', dr_semantic_text = ''x'',
     dr_length = 1\<rparr>], lt_postings = [\<lparr>pr_term = ''x'', pr_ordinal = 0, pr_term_frequency = 1\<rparr>],
     lt_term_stats = [(''x'', 1)], lt_metadata = []\<rparr>"

definition example_profile :: embedding_profile where
  "example_profile = \<lparr>ep_id = ''i'', ep_version = ''1'', ep_sha256 = zero_sha, ep_model = ''m'',
     ep_dimensions = 1, ep_normalization = ''none'', ep_vector_derivation = None,
     ep_query_instruction = None, ep_query_composition = None\<rparr>"

definition example_object :: object_summary where
  "example_object = \<lparr>ob_path = ''documents.parquet'', ob_rows = 1, ob_bytes = 0, ob_sha256 = zero_sha,
     ob_order_sha256 = Some zero_sha\<rparr>"

definition example_manifest :: fast_index_manifest where
  "example_manifest = \<lparr>fm_schema_version = ''livefire.rag.fast-index/3'', fm_component_sha256 = [],
     fm_source = \<lparr>sb_snapshot_sha256 = [], sb_mapping_sha256 = []\<rparr>, fm_build_scope = Full, fm_complete = True,
     fm_documents = example_object, fm_occurrences = example_object,
     fm_vectors = \<lparr>vs_path = ''vectors.f32'', vs_count = 1, vs_bytes = 68, vs_sha256 = [], vs_dimensions = 1,
       vs_dtype = ''f32le'', vs_header_bytes = 64, vs_document_order_sha256 = zero_sha\<rparr>,
     fm_lexical = \<lparr>ls_path = ''lexical/index.sqlite3'', ls_document_count = 1, ls_bytes = 0, ls_sha256 = [],
       ls_schema = Some SQLITE_LEXICAL_SCHEMA, ls_tokenizer = ''ascii_camel_lower_v1'', ls_k1 = d_lit 12 10,
       ls_b = d_lit 75 100\<rparr>,
     fm_occurrence_lookup = \<lparr>os_lookup_path = ''occurrence-index.sqlite3'', os_lookup_rows = 1,
       os_lookup_bytes = 0, os_lookup_sha256 = [], os_lookup_schema = OCCURRENCE_LOOKUP_SCHEMA\<rparr>,
     fm_embedding_profile = example_profile, fm_pipeline_provenance = None, fm_test_only = False\<rparr>"

definition example_index :: fast_index where
  "example_index = \<lparr>fx_manifest = example_manifest, fx_documents = Inr [example_document],
     fx_occurrence_lookup = example_lookup,
     fx_vectors = vector_header 1 1 (replicate 32 0) @ concat (map encode_row [[0x3f800000]]),
     fx_lexical = SqliteV3 \<lparr>si_tables = example_tables, si_document_count = 1, si_total_length = 1\<rparr>\<rparr>"

definition example_filters :: search_filters where
  "example_filters = \<lparr>sf_relations = [''r''], sf_time_start_ms = Some 5, sf_time_end_ms = None\<rparr>"

definition no_filters :: search_filters where
  "no_filters = \<lparr>sf_relations = [], sf_time_start_ms = None, sf_time_end_ms = None\<rparr>"

lemma example_distinct: "distinct_documents example_index"
  by (simp add: distinct_documents_def example_index_def)

lemma example_documents: "documents example_externals example_index = Inr [example_document]"
  by (simp add: documents_def example_index_def example_manifest_def example_object_def
      example_document_def document_order_sha256_def example_externals_def)

lemma example_row:
  "read_row (fx_vectors example_index) (vs_dimensions (fm_vectors (fx_manifest example_index)))
     (fd_vector_ordinal example_document) = Inr [0x3f800000]"
  using read_row_written [of "vector_header 1 1 (replicate 32 0)" 1 "[[0x3f800000]]" 0] length_vector_header
  by (simp add: example_index_def example_document_def example_manifest_def)

lemma d_of_f32_one: "d_of_f32 0x3f800000 = Finite (int d_unit)"
  by (simp add: d_of_f32_def f32_exponent_def f32_fraction_def f32_negative_def f32_mag_def d_unit_def)

lemma one_times_one: "d_mul (Finite (int d_unit)) (Finite (int d_unit)) = Finite (int d_unit)"
proof -
  have r: "representable d_unit" unfolding d_unit_def by (rule power_representable)
  have l: "d_unit < d_limit" unfolding d_unit_def d_limit_def by (rule power_strict_increasing) simp_all
  have "d_mul (Finite (int d_unit)) (Finite (int d_unit)) = d_ratio (int (d_unit * d_unit)) d_unit" by simp
  also have "\<dots> = Finite (int (round_ratio (d_unit * d_unit) d_unit))"
    by (rule d_ratio_nat [OF d_unit_pos r l]) simp
  also have "round_ratio (d_unit * d_unit) d_unit = d_unit"
    using round_ratio_upper [OF d_unit_pos r, of "d_unit * d_unit"]
      round_ratio_lower [OF d_unit_pos r, of "d_unit * d_unit"] by simp
  finally show ?thesis .
qed

lemma example_dot: "dot_product [(0x3f800000, 0x3f800000)] = Finite (int d_unit)"
proof -
  have r: "representable d_unit" unfolding d_unit_def by (rule power_representable)
  have l: "d_unit < d_limit" unfolding d_unit_def d_limit_def by (rule power_strict_increasing) simp_all
  have "d_ok (Finite (int d_unit))" using r l by simp
  then show ?thesis
    by (simp add: dot_product_def d_of_f32_one one_times_one d_zero_add del: d_mul.simps d_add.simps)
qed

lemma example_dense_score: "dense_score example_index [0x3f800000] example_document = Inr (''a'', Finite (int d_unit))"
proof -
  have "f32_is_finite 0x3f800000" by (simp add: f32_is_finite_def f32_exponent_def)
  then show ?thesis
    unfolding dense_score_def example_row
    by (simp add: example_dot Let_def profile_normalization_def example_index_def example_manifest_def
        example_profile_def example_document_def)
qed

lemma example_dense_scores:
  assumes "is_eligible el ''a''" "excluded = None \<or> excluded = Some []"
  shows "dense_scores example_index [example_document] [0x3f800000] el excluded = Inr [(''a'', Finite (int d_unit))]"
proof -
  have "row_bytes (vs_dimensions (fm_vectors (fx_manifest example_index))) = Inr 4"
    by (simp add: row_bytes_def checked_mul_def example_index_def example_manifest_def unat_u64_of_u32 u64_of_u32_def ok_or_eq_Inr)
  moreover have "filter (\<lambda>d. is_eligible el (fd_document_id d) \<and>
      (case excluded of None \<Rightarrow> True | Some ids \<Rightarrow> fd_document_id d \<notin> set ids)) [example_document] = [example_document]"
    using assms by (auto simp: example_document_def)
  ultimately show ?thesis
    unfolding dense_scores_def by (simp add: example_dense_score sort_scores_def)
qed

lemma example_matching:
  "read_matching_occurrences (fx_occurrence_lookup example_index) [''a''] example_filters =
     Inr [(''a'', \<lparr>mo_eligible_count = 1, mo_rows = [\<lparr>ev_event_time_ms = Some 5, ev_relation = ''r'',
        ev_snapshot_sha256 = [], ev_mapping_sha256 = [], ev_event_id = ''e'', ev_support_ref = ''s''\<rparr>]\<rparr>)]"
  by (simp add: read_matching_occurrences_def example_index_def example_lookup_def example_filters_def
      filter_condition_def i64_clamp_def add_match_def read_time_def u64_from_def bt_get_def
      MAX_RETURNED_OCCURRENCES_PER_HIT_def evidence_of_def)

lemma example_eligible: "eligible example_index example_filters = Some [''a'']"
  by (simp add: eligible_def read_eligible_document_ids_def example_index_def example_lookup_def
      example_filters_def filter_condition_def i64_clamp_def btree_set_def)

lemma example_rankings:
  "rankings example_externals f64_ln example_index Dense query_text (Bound [0x3f800000]) example_filters None =
     Inr ([(''a'', Finite (int d_unit))], [(''a'', Finite (int d_unit))], [])"
  by (simp add: rankings_def example_documents example_eligible example_dense_scores is_eligible_def)

lemma example_search:
  "\<exists>h. search_internal example_externals f64_ln example_index Dense query_text (Bound [0x3f800000])
     example_filters 3 None = Inr [h] \<and> sh_document_id h = ''a'' \<and> sh_eligible_occurrence_count h = 1"
proof -
  have t: "semantic_texts example_externals example_index [''a''] = Inr [(''a'', ''x'')]"
    by (simp add: semantic_texts_def example_index_def sqlite_semantic_texts_def example_tables_def)
  have f: "\<not> filters_invalid example_filters"
    by (simp add: filters_invalid_def example_filters_def)
  show ?thesis
    by (simp add: search_internal_def f example_rankings t example_matching btree_set_def bt_get_def hit_of_def)
qed

lemma search_hits_have_their_evidence_witness:
  "\<exists>h. search_internal example_externals (\<lambda>x. x) example_index Dense [] (Bound [0x3f800000])
     example_filters 3 None = Inr [h] \<and> hit_evidence_ok example_index example_filters h"
proof -
  obtain h where h: "search_internal example_externals (\<lambda>x. x) example_index Dense [] (Bound [0x3f800000])
     example_filters 3 None = Inr [h]" using example_search by blast
  from search_hits_have_their_evidence [OF h example_distinct] h show ?thesis by auto
qed

lemma dense_search_exact_witness:
  "\<exists>h. search_internal example_externals (\<lambda>x. x) example_index Dense [] (Bound [0x3f800000])
     example_filters 3 None = Inr [h] \<and> sh_document_id h = ''a''"
proof -
  obtain h where h: "search_internal example_externals (\<lambda>x. x) example_index Dense [] (Bound [0x3f800000])
     example_filters 3 None = Inr [h]" using example_search by blast
  have D: "fx_documents example_index = Inr [example_document]" by (simp add: example_index_def)
  from dense_search_exact [OF h D] h show ?thesis by (auto simp: Let_def example_document_def split: if_splits)
qed

lemma bound_search_equals_search_witness:
  "\<exists>q. validate_query_vector example_index [0x3f800000] = Inr q \<and>
     search_with_bound_vector example_externals (\<lambda>x. x) example_index Dense [] q example_filters 3 None =
       search example_externals (\<lambda>x. x) example_index Dense [] (Some [0x3f800000]) example_filters 3"
proof -
  have "f32_is_finite 0x3f800000" by (simp add: f32_is_finite_def f32_exponent_def)
  then obtain q where q: "validate_query_vector example_index [0x3f800000] = Inr q"
    by (simp add: validate_query_vector_def validate_query_vector_values_def profile_dimensions_def
        profile_normalization_def example_index_def example_manifest_def example_profile_def)
  from bound_search_equals_search [OF q, of Dense] q show ?thesis by blast
qed

lemma similar_excludes_seed_witness:
  "\<exists>found. similar example_externals (\<lambda>x. x) example_index ''a'' example_filters 3 True = Inr found \<and>
     found \<noteq> None \<and> ''a'' \<notin> sh_document_id ` set (the found)"
proof -
  have lx: "fx_lexical example_index =
      SqliteV3 \<lparr>si_tables = example_tables, si_document_count = 1, si_total_length = 1\<rparr>"
    and pf: "fm_embedding_profile (fx_manifest example_index) = example_profile"
    by (simp_all add: example_index_def example_manifest_def)
  define q where "q = \<lparr>pb_values = [0x3f800000], pb_embedding_profile = example_profile\<rparr>"
  have "f32_is_finite 0x3f800000" by (simp add: f32_is_finite_def f32_exponent_def)
  then have v: "validate_query_vector example_index [0x3f800000] = Inr q"
    by (simp add: validate_query_vector_def validate_query_vector_values_def profile_dimensions_def
        profile_normalization_def example_index_def example_manifest_def example_profile_def q_def)
  have "read_row (fx_vectors example_index) (vs_dimensions (fm_vectors (fx_manifest example_index))) 0 =
      Inr [0x3f800000]" using example_row by (simp add: example_document_def)
  moreover have "vs_count (fm_vectors (fx_manifest example_index)) = 1"
    by (simp add: example_index_def example_manifest_def)
  ultimately have r: "read_profile_bound_vector example_index 0 = Inr q"
    unfolding read_profile_bound_vector_def by (simp add: v)
  then have d: "document_vector example_externals example_index ''a'' = Inr (Some q)"
    by (simp add: document_vector_def lx document_ordinal_def example_tables_def u64_from_def)
  have "row_bytes (vs_dimensions (fm_vectors (fx_manifest example_index))) = Inr 4"
    by (simp add: row_bytes_def checked_mul_def example_index_def example_manifest_def unat_u64_of_u32
        u64_of_u32_def ok_or_eq_Inr)
  then have "dense_scores example_index [example_document] [0x3f800000] el (Some [''a'']) = Inr []" for el
    unfolding dense_scores_def by (simp add: example_document_def sort_scores_def)
  then have "rankings example_externals (\<lambda>x. x) example_index Dense [] (Bound [0x3f800000]) example_filters
      (Some [''a'']) = Inr ([], [], [])" by (simp add: rankings_def example_documents)
  moreover have "semantic_texts example_externals example_index [] = Inr []"
    by (simp add: semantic_texts_def example_index_def sqlite_semantic_texts_def)
  moreover have "\<not> filters_invalid example_filters"
    by (simp add: filters_invalid_def example_filters_def)
  ultimately have "search_internal example_externals (\<lambda>x. x) example_index Dense [] (Bound [0x3f800000])
      example_filters 3 (Some [''a'']) = Inr []"
    by (simp add: search_internal_def btree_set_def read_matching_occurrences_def)
  then have s: "similar example_externals (\<lambda>x. x) example_index ''a'' example_filters 3 True = Inr (Some [])"
    by (simp add: similar_def d search_dense_with_vector_excluding_def search_with_bound_vector_def
        validate_query_binding_def q_def pf)
  from similar_excludes_seed [OF s example_distinct] s show ?thesis by auto
qed

end
