(* ===== verification/Index_Roundtrip.thy ===== *)
theory Index_Roundtrip
  imports Index_Open Search_Example
begin

text \<open>
  What the assembly writes, opening accepts: the manifest, the files and their metadata pass
  every check, and the opened index holds the documents, the vectors and the occurrences of
  the streams.
\<close>

subsection \<open>Written lexical tables\<close>

lemma term_counts_pos: "(t, n) \<in> set (term_counts s) \<Longrightarrow> 0 < n"
  using bt_get_iff [OF term_counts_ok, of s t n]
  by (auto simp: term_counts_get count_list_0_iff simp flip: neq0_conv split: if_splits)

lemma written_postings:
  "p \<in> set (concat (map2 postings_of [0..<length D] D)) \<Longrightarrow>
     0 < pr_term_frequency p \<and> (\<exists>k < length D. pr_ordinal p = int k)"
  by (auto simp: postings_of_def posting_of_def dest!: term_counts_pos set_zip_leftD)

lemma written_ordinals: "map dr_ordinal (map2 row_of [0..<length D] D) = map int [0..<length D]"
proof -
  have "map dr_ordinal (map2 row_of [0..<length D] D) = map (\<lambda>x. int (fst x)) (zip [0..<length D] D)"
    by (auto simp: row_of_def)
  also have "\<dots> = map int (map fst (zip [0..<length D] D))" by (simp only: map_map comp_def)
  also have "map fst (zip [0..<length D] D) = [0..<length D]" by simp
  finally show ?thesis .
qed

lemma written_total_bound: "write_lexical_document W d = Inr W' \<Longrightarrow> lw_total_length W' < 2 ^ 64"
  by (auto simp: write_lexical_document_def Let_def rbind_eq_Inr split: if_splits)

lemma written_total_bound_fold:
  "try_fold write_lexical_document W D = Inr W' \<Longrightarrow> D \<noteq> [] \<Longrightarrow> lw_total_length W' < 2 ^ 64"
proof (induction D arbitrary: W)
  case (Cons d D)
  then obtain W1 where "write_lexical_document W d = Inr W1" "try_fold write_lexical_document W1 D = Inr W'"
    by (auto simp: rbind_eq_Inr)
  with Cons.IH show ?case by (cases "D = []") (auto dest: written_total_bound)
qed simp

lemma written_tables_valid:
  assumes "write_sqlite_lexical_from_documents E D n order_sha = Inr T" "D \<noteq> []" "n < 2 ^ 63"
  shows "validate_sqlite_lexical_metadata (LexicalSqlite T) n order_sha =
    Inr \<lparr>si_tables = T, si_document_count = n, si_total_length = tokens_of D\<rparr>"
proof -
  from assms(1) obtain W where W: "try_fold write_lexical_document
      \<lparr>lw_tables = empty_tables, lw_document_count = 0, lw_total_length = 0, lw_order = []\<rparr> D = Inr W"
    and n: "n = lw_document_count W"
    and T: "T = (lw_tables W)\<lparr>lt_metadata :=
          [(''schema'', SQLITE_LEXICAL_SCHEMA),
           (''document_count'', nat_digits (lw_document_count W)),
           (''total_length'', nat_digits (lw_total_length W)),
           (''document_order_sha256'', order_sha),
           (''tokenizer'', ''ascii_camel_lower_v1''), (''k1'', ''1.2''), (''b'', ''0.75'')]\<rparr>"
    by (auto simp: write_sqlite_lexical_from_documents_def rbind_eq_Inr Let_def split: if_splits)
  note tot = written_total_bound_fold [OF W assms(2)]
  note W = write_lexical_fold [OF W]
  have len: "n = length D" and total: "lw_total_length W = tokens_of D" by (simp_all add: n W)
  have rows: "lt_documents T = map2 row_of [0..<length D] D"
    and post: "lt_postings T = concat (map2 postings_of [0..<length D] D)"
    and stats: "lt_term_stats T = frequencies D []" by (simp_all add: T W empty_tables_def)
  have "list_ex (\<lambda>(t, k). k \<le> 0 \<or> k > int n) (lt_term_stats T) = False"
  proof -
    have ok: "bt_ok (frequencies D [] :: (string, int) btree)" by (rule frequencies_ok) simp
    have "0 < k \<and> k \<le> int n" if "(t, k) \<in> set (lt_term_stats T)" for t k
    proof -
      have "bt_get (frequencies D []) t = Some k" using that bt_get_iff [OF ok] by (simp add: stats)
      then have "hit_documents D t \<noteq> []" "k = int (df_of D t)"
        by (auto simp: frequencies_get split: if_splits)
      moreover have "df_of D t \<le> length D" by (simp add: df_of_def hit_documents_def)
      ultimately show ?thesis by (simp add: df_of_def len)
    qed
    then show ?thesis by (fastforce simp: list_ex_iff)
  qed
  moreover have "dr_ordinal ` set (lt_documents T) = int ` {0..<length D}"
    using arg_cong [OF written_ordinals [of D], of set] by (simp add: rows image_image)
  then have "list_ex (\<lambda>p. pr_ordinal p \<notin> dr_ordinal ` set (lt_documents T)) (lt_postings T) = False"
    and "list_ex (\<lambda>p. pr_term_frequency p \<le> 0) (lt_postings T) = False"
    using written_postings unfolding post list_ex_iff by (fastforce, fastforce)
  moreover have "list_ex (\<lambda>d. dr_length d < 0) (lt_documents T) = False"
    by (auto simp: rows list_ex_iff row_of_def)
  ultimately have valid: "\<not> lexical_rows_invalid T n" by (simp only: lexical_rows_invalid_def simp_thms)
  have ordinals: "map dr_ordinal (lt_documents T) = map int [0..<n]"
    unfolding rows len by (rule written_ordinals)
  have n0: "0 < n" using assms(2) by (simp add: len)
  have "Min (int ` {0..<n}) = 0" using n0 by (intro Min_eqI) auto
  moreover have "Max (int ` {0..<n}) = int (n - 1)" using n0 by (intro Max_eqI) (auto simp: image_iff intro!: bexI [of _ "n - 1"])
  ultimately have mm: "Min (set (map int [0..<n])) = 0" "Max (set (map int [0..<n])) = int (n - 1)" by simp_all
  have p: "parse_u64 (nat_digits n) = Some n" "parse_u64 (nat_digits (tokens_of D)) = Some (tokens_of D)"
    using assms(3) tot by (simp_all add: parse_nat_digits total)
  have meta: "lt_metadata T = [(''schema'', SQLITE_LEXICAL_SCHEMA), (''document_count'', nat_digits n),
      (''total_length'', nat_digits (tokens_of D)), (''document_order_sha256'', order_sha),
      (''tokenizer'', ''ascii_camel_lower_v1''), (''k1'', ''1.2''), (''b'', ''0.75'')]"
    by (simp add: T n total)
  show ?thesis
    using n0 assms(3) unfolding validate_sqlite_lexical_metadata_def index_file.case ordinals mm Let_def
    by (simp add: meta read_metadata_def expect_metadata_def p valid i64_from_def of_nat_diff)
qed

subsection \<open>Opening what was assembled\<close>

lemma safe_artifact_found:
  "map component_name (path_components v) = map Some cs \<Longrightarrow> str_join (CHR ''/'') cs = v \<Longrightarrow>
     map_of dir v = Some f \<Longrightarrow> safe_artifact dir v = Inr f"
  by (auto simp: safe_artifact_def Let_def)

lemma artifact_names:
  "map component_name (path_components ''documents.parquet'') = map Some [''documents.parquet'']"
  "map component_name (path_components ''occurrences.parquet'') = map Some [''occurrences.parquet'']"
  "map component_name (path_components ''vectors.f32'') = map Some [''vectors.f32'']"
  "map component_name (path_components ''occurrence-index.sqlite3'') = map Some [''occurrence-index.sqlite3'']"
  "map component_name (path_components ''lexical/index.json'') = map Some [''lexical'', ''index.json'']"
  "map component_name (path_components ''lexical/index.sqlite3'') = map Some [''lexical'', ''index.sqlite3'']"
  by code_simp+

lemma written_document_order:
  assumes "write_documents_streaming E docs legacy create_occurrence_lookup = Inr (summary, L1, D)"
  shows "docs = map Inr D" and "D \<noteq> []" and "ds_rows summary = length D"
    and "ds_order_sha256 summary = document_order_sha256 E (map fd_document_id D)"
    and "map (\<lambda>d. unat (fd_vector_ordinal d)) D = [0..<length D]"
    and "sorted_wrt (<) (map fd_document_id D)"
proof -
  let ?W0 = "\<lparr>dw_lookup = create_occurrence_lookup, dw_rows = [], dw_previous_id = None,
      dw_stats = (if legacy then Some (0, []) else None)\<rparr>"
  from assms obtain W where W: "try_fold write_document ?W0 docs = Inr W" and ne: "dw_rows W \<noteq> []"
    and D: "D = dw_rows W" "ds_rows summary = length (dw_rows W)"
      "ds_order_sha256 summary = document_order_sha256 E (map fd_document_id (dw_rows W))"
    by (auto simp: write_documents_streaming_def rbind_eq_Inr split: if_splits)
  have "document_writer_ok ?W0" by (simp add: document_writer_ok_def create_occurrence_lookup_def)
  with write_documents_ok [OF W] have ok: "document_writer_ok W"
    and d: "\<exists>D. docs = map Inr D \<and> dw_rows W = dw_rows ?W0 @ D" by blast+
  show "docs = map Inr D" "D \<noteq> []" "ds_rows summary = length D"
    "ds_order_sha256 summary = document_order_sha256 E (map fd_document_id D)"
    "map (\<lambda>d. unat (fd_vector_ordinal d)) D = [0..<length D]" "sorted_wrt (<) (map fd_document_id D)"
    using d D ne ok by (auto simp: document_writer_ok_def)
qed

text \<open>The parts of a successful assembly.\<close>

lemma assemble_index_parts:
  assumes "assemble_index E A docs occs vecs = Inr (m, dir)"
  obtains summary L1 D L2 R L n content storage relative lexical where
    "write_documents_streaming E docs (ao_lexical_format A = JsonFormat) create_occurrence_lookup =
      Inr (summary, L1, D)"
    and "write_occurrences_streaming occs (ao_source A) L1 = Inr (length R, L2, R)"
    and "finalize_occurrence_lookup L2 (length R) (ao_source A) = Inr L"
    and "write_vectors_streaming vecs (ep_dimensions (ao_embedding_profile A)) (ds_order_sha256 summary)
              (ep_normalization (ao_embedding_profile A)) = Inr (n, content)"
    and "n = ds_rows summary"
    and "write_lexical E (ao_lexical_format A) summary D = Inr (storage, relative, lexical)"
    and "sealed_manifest E (assembled_manifest E A summary D R L n content (storage, relative, lexical)) = Inr m"
    and "dir = [(''occurrence-index.sqlite3'', LookupSqlite L), (''documents.parquet'', DocumentsParquet D),
              (''occurrences.parquet'', OccurrencesParquet R), (''vectors.f32'', RawFile content),
              (relative, lexical), (''index.json'', ManifestJson m),
              (''build-report.json'', ReportJson (build_report_of m (ds_rows summary) (length R) n))]"
proof -
  from assms obtain summary L1 D rows L2 R L n content storage relative lexical where
    a: "write_documents_streaming E docs (ao_lexical_format A = JsonFormat) create_occurrence_lookup =
      Inr (summary, L1, D)"
    and b: "write_occurrences_streaming occs (ao_source A) L1 = Inr (rows, L2, R)"
    and c: "finalize_occurrence_lookup L2 rows (ao_source A) = Inr L"
    and d: "write_vectors_streaming vecs (ep_dimensions (ao_embedding_profile A)) (ds_order_sha256 summary)
              (ep_normalization (ao_embedding_profile A)) = Inr (n, content)"
    and n: "n = ds_rows summary"
    and e: "write_lexical E (ao_lexical_format A) summary D = Inr (storage, relative, lexical)"
    and f: "sealed_manifest E (assembled_manifest E A summary D R L n content (storage, relative, lexical)) = Inr m"
    and g: "dir = [(''occurrence-index.sqlite3'', LookupSqlite L), (''documents.parquet'', DocumentsParquet D),
              (''occurrences.parquet'', OccurrencesParquet R), (''vectors.f32'', RawFile content),
              (relative, lexical), (''index.json'', ManifestJson m),
              (''build-report.json'', ReportJson (build_report_of m (ds_rows summary) rows n))]"
    unfolding assemble_index_def
    by (auto simp: rbind_eq_Inr split: if_splits)
  have "rows = length R" using b by (auto simp: write_occurrences_streaming_def rbind_eq_Inr)
  then show ?thesis using that a b c d n e f g by simp
qed

text \<open>The constants of BM25 pass the checks of the manifest.\<close>

lemma constants_accepted:
  "d_is_finite (d_lit 12 10)" "d_less (Finite 0) (d_lit 12 10)"
  "d_is_finite (d_lit 75 100)" "\<not> d_less (d_lit 75 100) (Finite 0)" "\<not> d_less (d_of_nat 1) (d_lit 75 100)"
proof -
  from constants_between(2) obtain k where k: "d_lit 12 10 = Finite (int k)" "2 ^ 1074 \<le> k"
    by (auto simp: between_def)
  from constants_between(3) obtain b where b: "d_lit 75 100 = Finite (int b)" "b \<le> 2 ^ 1074"
    by (auto simp: between_def)
  have "between 1074 1114 (d_of_nat 1)" by (rule d_of_nat_between) simp_all
  then obtain v where v: "d_of_nat 1 = Finite (int v)" "2 ^ 1074 \<le> v" by (auto simp: between_def)
  have k0: "0 < k" using k(2) by (rule less_le_trans [rotated]) simp
  show "d_is_finite (d_lit 12 10)" "d_less (Finite 0) (d_lit 12 10)" "d_is_finite (d_lit 75 100)"
    "\<not> d_less (d_lit 75 100) (Finite 0)"
    using k0 by (simp_all add: k(1) b(1))
  have "b \<le> v" using b(2) v(2) by (rule le_trans)
  then show "\<not> d_less (d_of_nat 1) (d_lit 75 100)" unfolding b(1) v(1) by simp
qed

lemma identity_without_digest:
  "manifest_component_sha256 E (m\<lparr>fm_component_sha256 := sha\<rparr>) = manifest_component_sha256 E m"
  by (simp add: manifest_component_sha256_def manifest_material_def)

text \<open>The format of the lexical index decides the schema and the path of its file.\<close>

lemma write_lexical_cases:
  assumes "write_lexical E format summary D = Inr (storage, relative, lexical)"
  shows "(format = JsonFormat \<and> storage = ''livefire.rag.fast-index/2'' \<and> relative = ''lexical/index.json'' \<and>
      (\<exists>index. lexical = LexicalJson index)) \<or>
    (format = SqliteFormat \<and> storage = ''livefire.rag.fast-index/3'' \<and> relative = ''lexical/index.sqlite3'' \<and>
      (\<exists>T. lexical = LexicalSqlite T \<and>
         write_sqlite_lexical_from_documents E D (ds_rows summary) (ds_order_sha256 summary) = Inr T))"
  using assms by (cases format) (auto simp: write_lexical_def rbind_eq_Inr ok_or_eq_Inr)

lemma sealed_manifest_checked:
  assumes m0: "m0 = assembled_manifest E A summary D R L n content (storage, relative, lexical)"
    and "write_lexical E (ao_lexical_format A) summary D = Inr (storage, relative, lexical)"
    and "sealed_manifest E m0 = Inr m" and "n = ds_rows summary"
    and "is_ok (validate_embedding_profile (ao_embedding_profile A))"
    and "\<forall>p. ao_pipeline_provenance A = Some p \<longrightarrow> provenance_validate p = Inr ()"
    and "ao_test_only A \<longrightarrow> allow"
  shows "check_manifest E allow m = Inr ()"
proof -
  from assms(3) obtain sha where sha: "manifest_component_sha256 E m0 = Inr sha"
    and m: "m = m0\<lparr>fm_component_sha256 := sha\<rparr>" by (auto simp: sealed_manifest_def rbind_eq_Inr)
  note lex = write_lexical_cases [OF assms(2)]
  have "\<not> manifest_bindings_invalid m"
    using assms(4,5)
    by (simp add: manifest_bindings_invalid_def m m0 assembled_manifest_def artifact_summary_def
        constants_accepted OCCURRENCE_LOOKUP_SCHEMA_def del: One_nat_def)
  moreover have "provenance_invalid m = Inr False"
    using assms(6)
    by (auto simp: provenance_invalid_def m m0 assembled_manifest_def is_err_def split: option.splits)
  moreover have "lexical_format_bound m"
    using lex by (auto simp: lexical_format_bound_def m m0 assembled_manifest_def)
  moreover have "fm_test_only m = ao_test_only A"
    "fm_schema_version m = (if ao_test_only A then ''livefire.rag.fast-index/4'' else storage)"
    by (simp_all add: m m0 assembled_manifest_def)
  moreover have "storage = ''livefire.rag.fast-index/2'' \<or> storage = ''livefire.rag.fast-index/3''"
    using lex by auto
  ultimately show ?thesis
    using assms(7) sha
    by (cases "ao_test_only A") (auto simp: check_manifest_def m identity_without_digest)
qed

lemma written_lookup_opens:
  assumes "write_documents_streaming E docs legacy create_occurrence_lookup = Inr (summary, L1, D)"
    and "write_occurrences_streaming occs source L1 = Inr (length R, L2, R)"
    and "finalize_occurrence_lookup L2 (length R) source = Inr L"
    and "length R < 2 ^ 64" and "ob_rows (fm_occurrences m) = word_of_nat (length R)" and "fm_source m = source"
  shows "occs = map Inr R \<and> ol_occurrences L = map occurrence_row_of R \<and>
    validate_occurrence_lookup_metadata (LookupSqlite L) m = Inr L"
proof -
  let ?W0 = "\<lparr>dw_lookup = create_occurrence_lookup, dw_rows = [], dw_previous_id = None,
      dw_stats = (if legacy then Some (0, []) else None)\<rparr>"
  from assms(1) obtain W where W: "try_fold write_document ?W0 docs = Inr W" and L1: "L1 = dw_lookup W"
    by (auto simp: write_documents_streaming_def rbind_eq_Inr split: if_splits)
  have "document_writer_ok ?W0" by (simp add: document_writer_ok_def create_occurrence_lookup_def)
  with write_documents_ok [OF W] have "ol_occurrences L1 = []" by (simp add: document_writer_ok_def L1)
  moreover have "\<exists>L'. try_fold (write_occurrence source) (L1, []) occs = Inr (L2, R)"
    using assms(2) by (auto simp: write_occurrences_streaming_def rbind_eq_Inr)
  then have "occs = map Inr R \<and> L2 = L1\<lparr>ol_occurrences := ol_occurrences L1 @ map occurrence_row_of R\<rparr>"
    using write_occurrences_ok by fastforce
  moreover have "ol_occurrences L = ol_occurrences L2" "ol_metadata L =
      [(''schema'', OCCURRENCE_LOOKUP_SCHEMA), (''rows'', nat_digits (length R)),
       (''snapshot_sha256'', sb_snapshot_sha256 source), (''mapping_sha256'', sb_mapping_sha256 source)]"
    using assms(3) by (auto simp: finalize_occurrence_lookup_def split: if_splits)
  moreover have "unat (word_of_nat (length R) :: u64) = length R" using assms(4) by (simp add: unat_of_small)
  ultimately show ?thesis
    by (simp add: validate_occurrence_lookup_metadata_def expect_metadata_def read_metadata_def assms(5,6))
qed

lemma written_lexical_opens:
  assumes "write_lexical E (ao_lexical_format A) summary D = Inr (storage, relative, lexical)"
    and "D \<noteq> []" and "ds_rows summary = length D" and "length D < 2 ^ 63"
    and "ob_rows (fm_documents m) = word_of_nat (length D)"
    and "vs_document_order_sha256 (fm_vectors m) = ds_order_sha256 summary"
    and "ls_schema (fm_lexical m) = (if ao_lexical_format A = SqliteFormat then Some SQLITE_LEXICAL_SCHEMA else None)"
  shows "\<exists>X. open_lexical m lexical = Inr X"
proof -
  have "unat (word_of_nat (length D) :: u64) = length D" using assms(4) by (simp add: unat_of_small)
  with write_lexical_cases [OF assms(1)] show ?thesis
    using written_tables_valid [of E D "length D" "ds_order_sha256 summary"] assms(2-7)
    by (auto simp: open_lexical_def)
qed

lemma assembly_identity_ok:
  "validate_assembly_identity source profile = Inr () \<Longrightarrow> is_ok (validate_embedding_profile profile)"
  by (auto simp: validate_assembly_identity_def rbind_eq_Inr split: if_splits)

text \<open>Opening, given the parts of the assembly.\<close>

lemma open_assembled_parts:
  fixes D :: "fast_document list"
  assumes dir: "dir = [(''occurrence-index.sqlite3'', LookupSqlite L), (''documents.parquet'', DocumentsParquet D),
      (''occurrences.parquet'', OccurrencesParquet R), (''vectors.f32'', RawFile content),
      (relative, lexical), (''index.json'', ManifestJson m), (''build-report.json'', report)]"
    and lex: "write_lexical E format summary D' = Inr (storage, relative, lexical)"
    and m: "m = assembled_manifest E A summary D R L n content (storage, relative, lexical)\<lparr>fm_component_sha256 := sha\<rparr>"
    and ds: "ds_rows summary = length D" "length D < 2 ^ 64" "length R < 2 ^ 64"
    and ok: "check_manifest E allow m = Inr ()" "validate_vector_file content (fm_vectors m) = Inr ()"
      "validate_occurrence_lookup_metadata (LookupSqlite L) m = Inr L" "open_lexical m lexical = Inr X"
  shows "open_internal E dir allow = Inr \<lparr>fx_manifest = m, fx_documents = Inr D, fx_occurrence_lookup = L,
    fx_vectors = content, fx_lexical = X\<rparr>"
proof -
  have rel: "relative = ''lexical/index.json'' \<or> relative = ''lexical/index.sqlite3''"
    using write_lexical_cases [OF lex] by auto
  have u: "unat (word_of_nat (length D) :: u64) = length D" "unat (word_of_nat (length R) :: u64) = length R"
    using ds by (simp_all add: unat_of_small)
  have paths: "ob_path (fm_documents m) = ''documents.parquet''" "ob_path (fm_occurrences m) = ''occurrences.parquet''"
    "vs_path (fm_vectors m) = ''vectors.f32''" "ls_path (fm_lexical m) = relative"
    "os_lookup_path (fm_occurrence_lookup m) = ''occurrence-index.sqlite3''"
    by (simp_all add: m assembled_manifest_def artifact_summary_def)
  have rows: "unat (ob_rows (fm_documents m)) = length D" "unat (ob_rows (fm_occurrences m)) = length R"
    by (simp_all add: m assembled_manifest_def artifact_summary_def ds(1) u)
  have digests: "validate_artifact E (DocumentsParquet D) (ob_bytes (fm_documents m)) (ob_sha256 (fm_documents m)) = Inr ()"
    "validate_artifact E (OccurrencesParquet R) (ob_bytes (fm_occurrences m)) (ob_sha256 (fm_occurrences m)) = Inr ()"
    "validate_artifact E (RawFile content) (vs_bytes (fm_vectors m)) (vs_sha256 (fm_vectors m)) = Inr ()"
    "validate_artifact E lexical (ls_bytes (fm_lexical m)) (ls_sha256 (fm_lexical m)) = Inr ()"
    "validate_artifact E (LookupSqlite L) (os_lookup_bytes (fm_occurrence_lookup m))
       (os_lookup_sha256 (fm_occurrence_lookup m)) = Inr ()"
    by (simp_all add: validate_artifact_def m assembled_manifest_def artifact_summary_def)
  have lookup: "map_of dir ''occurrence-index.sqlite3'' = Some (LookupSqlite L)"
    "map_of dir ''documents.parquet'' = Some (DocumentsParquet D)"
    "map_of dir ''occurrences.parquet'' = Some (OccurrencesParquet R)"
    "map_of dir ''vectors.f32'' = Some (RawFile content)"
    "map_of dir relative = Some lexical" "map_of dir ''index.json'' = Some (ManifestJson m)"
    using rel by (auto simp: dir)
  have artifacts: "safe_artifact dir ''documents.parquet'' = Inr (DocumentsParquet D)"
    "safe_artifact dir ''occurrences.parquet'' = Inr (OccurrencesParquet R)"
    "safe_artifact dir ''vectors.f32'' = Inr (RawFile content)"
    "safe_artifact dir relative = Inr lexical"
    "safe_artifact dir ''occurrence-index.sqlite3'' = Inr (LookupSqlite L)"
    using rel lookup by (auto intro!: safe_artifact_found artifact_names)
  show ?thesis
    by (simp add: open_internal_def lookup ok_or_def paths artifacts ok digests rows parquet_row_count_def
        content_of_def)
qed

text \<open>
  C5: What the assembly writes opens, and holds what it was given. When the index directory has been
  written (within the sizes a \<open>u64\<close> can count, with a valid provenance, and opened in diagnostic
  mode if it is test-only), every check of opening passes and the open index has the manifest that
  was returned, the documents of the stream in their order, one occurrence row per occurrence of
  the stream, and row \<open>k\<close> of the vector file is the \<open>k\<close>-th vector of the stream.
\<close>

theorem assembled_index_opens:
  assumes "write_index E A docs occs vecs None = (Inr m, Some dir)"
    and "\<forall>p. ao_pipeline_provenance A = Some p \<longrightarrow> provenance_validate p = Inr ()"
    and "ao_test_only A \<longrightarrow> allow"
    and "length docs < 2 ^ 63" "length occs < 2 ^ 64"
    and "64 + 4 * (length docs * unat (ep_dimensions (ao_embedding_profile A))) < 2 ^ 64"
  shows "\<exists>X D R vs. open_internal E dir allow = Inr X \<and> fx_manifest X = m \<and>
    docs = map Inr D \<and> documents E X = Inr D \<and> sorted_wrt (<) (map fd_document_id D) \<and>
    occs = map Inr R \<and> ol_occurrences (fx_occurrence_lookup X) = map occurrence_row_of R \<and>
    vecs = map Inr vs \<and> length vs = length D \<and>
    (\<forall>k < length vs. read_row (fx_vectors X) (ep_dimensions (ao_embedding_profile A)) (word_of_nat k) =
       Inr (map ov_values vs ! k))"
proof -
  from assms(1) have identity: "validate_assembly_identity (ao_source A) (ao_embedding_profile A) = Inr ()"
    and assembled: "assemble_index E A docs occs vecs = Inr (m, dir)"
    by (auto simp: write_index_def rbind_eq_Inr split: sum.splits prod.splits if_splits)
  from assembled obtain summary L1 D L2 R L n content storage relative lexical where
    a: "write_documents_streaming E docs (ao_lexical_format A = JsonFormat) create_occurrence_lookup =
      Inr (summary, L1, D)"
    and b: "write_occurrences_streaming occs (ao_source A) L1 = Inr (length R, L2, R)"
    and c: "finalize_occurrence_lookup L2 (length R) (ao_source A) = Inr L"
    and d: "write_vectors_streaming vecs (ep_dimensions (ao_embedding_profile A)) (ds_order_sha256 summary)
              (ep_normalization (ao_embedding_profile A)) = Inr (n, content)"
    and n: "n = ds_rows summary"
    and e: "write_lexical E (ao_lexical_format A) summary D = Inr (storage, relative, lexical)"
    and f: "sealed_manifest E (assembled_manifest E A summary D R L n content (storage, relative, lexical)) = Inr m"
    and g: "dir = [(''occurrence-index.sqlite3'', LookupSqlite L), (''documents.parquet'', DocumentsParquet D),
              (''occurrences.parquet'', OccurrencesParquet R), (''vectors.f32'', RawFile content),
              (relative, lexical), (''index.json'', ManifestJson m),
              (''build-report.json'', ReportJson (build_report_of m (ds_rows summary) (length R) n))]"
    by (rule assemble_index_parts)
  note D = written_document_order [OF a]
  obtain sha where m: "m = assembled_manifest E A summary D R L n content (storage, relative, lexical)
      \<lparr>fm_component_sha256 := sha\<rparr>"
    using f by (auto simp: sealed_manifest_def rbind_eq_Inr)
  have len: "length D < 2 ^ 63" "length D < 2 ^ 64" "n = length D" using assms(4) D(1,3) n by simp_all
  have "\<exists>R'. occs = map Inr R' \<and> length R' = length R"
    using b by (auto simp: write_occurrences_streaming_def rbind_eq_Inr dest!: write_occurrences_ok)
  then have R64: "length R < 2 ^ 64" using assms(5) by auto
  have fields: "ob_rows (fm_occurrences m) = word_of_nat (length R)" "fm_source m = ao_source A"
    "ob_rows (fm_documents m) = word_of_nat (length D)" "ob_order_sha256 (fm_documents m) = Some (ds_order_sha256 summary)"
    "vs_document_order_sha256 (fm_vectors m) = ds_order_sha256 summary" "vs_count (fm_vectors m) = word_of_nat n"
    "vs_dimensions (fm_vectors m) = ep_dimensions (ao_embedding_profile A)"
    "ls_schema (fm_lexical m) = (if ao_lexical_format A = SqliteFormat then Some SQLITE_LEXICAL_SCHEMA else None)"
    by (simp_all add: m assembled_manifest_def artifact_summary_def D(3))
  note occ = written_lookup_opens [OF a b c R64 fields(1,2)]
  have bounds: "64 + 4 * (n * unat (ep_dimensions (ao_embedding_profile A))) < 2 ^ 64" "n < 2 ^ 64"
    using assms(6) len D(1) by simp_all
  from written_vectors_read [OF d bounds] obtain vs where vs: "vecs = map Inr vs" "n = length vs"
    "validate_vector_file content (fm_vectors m) = Inr ()"
    "\<And>k. k < n \<Longrightarrow> read_row content (ep_dimensions (ao_embedding_profile A)) (word_of_nat k) = Inr (map ov_values vs ! k)"
    using fields(5-7) by metis
  from written_lexical_opens [OF e D(2,3) len(1) fields(3,5,8)] obtain X where X: "open_lexical m lexical = Inr X" ..
  have "check_manifest E allow m = Inr ()"
    by (rule sealed_manifest_checked [OF refl e f n assembly_identity_ok [OF identity] assms(2,3)])
  from open_assembled_parts [OF g e m D(3) len(2) R64 this vs(3) conjunct2 [OF conjunct2 [OF occ]] X]
  have opened: "open_internal E dir allow = Inr \<lparr>fx_manifest = m, fx_documents = Inr D, fx_occurrence_lookup = L,
    fx_vectors = content, fx_lexical = X\<rparr>" .
  moreover have "documents E \<lparr>fx_manifest = m, fx_documents = Inr D, fx_occurrence_lookup = L,
    fx_vectors = content, fx_lexical = X\<rparr> = Inr D"
    using len(2) by (simp add: documents_def fields D(4,5) unat_of_small)
  ultimately show ?thesis
    using D(1,6) occ vs len(3) by (intro exI [of _ D] exI [of _ R] exI [of _ vs] exI conjI) auto
qed

subsection \<open>An example\<close>

definition build_externals :: index_externals where
  "build_externals = \<lparr>sha256_hex = (\<lambda>_. zero_sha), jcs_bytes = (\<lambda>_. Some []), json_from_str = (\<lambda>_. None),
     file_bytes = (\<lambda>_. []), f64_json = (\<lambda>_. JNull), read_json = (\<lambda>x. x)\<rparr>"

definition build_options :: index_assembly_options where
  "build_options = plain_options JsonFormat \<lparr>sb_snapshot_sha256 = zero_sha, sb_mapping_sha256 = zero_sha\<rparr>
     Full example_profile"

definition build_occurrence :: fast_occurrence where
  "build_occurrence = \<lparr>fo_occurrence_id = ''o'', fo_document_id = ''a'', fo_event_time_ms = Some 5,
     fo_relation = ''r'', fo_exact_attributes_json = [], fo_snapshot_sha256 = zero_sha,
     fo_mapping_sha256 = zero_sha, fo_event_id = ''e'', fo_support_ref = ''f''\<rparr>"

lemma build_writes:
  "\<exists>m dir. write_index build_externals build_options [Inr example_document] [Inr build_occurrence]
     [Inr \<lparr>ov_vector_ordinal = 0, ov_values = [0x3f800000]\<rparr>] None = (Inr m, Some dir)"
proof -
  have source: "ao_source build_options = \<lparr>sb_snapshot_sha256 = zero_sha, sb_mapping_sha256 = zero_sha\<rparr>"
    and format: "ao_lexical_format build_options = JsonFormat"
    and profile: "ao_embedding_profile build_options = example_profile"
    by (simp_all add: build_options_def plain_options_def)
  have z: "decode_sha256 zero_sha = Inr (replicate 32 0)" by code_simp
  have p: "is_ok (validate_embedding_profile example_profile)" by code_simp
  have identity: "validate_assembly_identity (ao_source build_options) example_profile = Inr ()"
    by (simp add: validate_assembly_identity_def source z is_err_def p)
  have "tokenize ''x'' = [''x'']" by code_simp
  then have stats: "legacy_stats ''x'' (0, []) = Inr (1, fold bump (btree_set [''x'']) [])"
    by (simp add: legacy_stats_def)
  have a: "\<exists>summary L1. write_documents_streaming build_externals [Inr example_document] True create_occurrence_lookup =
        Inr (summary, L1, [example_document]) \<and> ol_assembly_documents L1 = [(''a'', 1)] \<and> ol_occurrences L1 = [] \<and>
        ds_order_sha256 summary = zero_sha \<and> ds_rows summary = 1 \<and> ds_stats summary \<noteq> None"
    by (simp add: write_documents_streaming_def write_document_def i64_from_def insert_assembly_document_def
        create_occurrence_lookup_def example_document_def stats document_order_sha256_def build_externals_def)
  then obtain summary L1 where A: "write_documents_streaming build_externals [Inr example_document] True
      create_occurrence_lookup = Inr (summary, L1, [example_document])"
    "ol_assembly_documents L1 = [(''a'', 1)]" "ol_occurrences L1 = []"
    "ds_order_sha256 summary = zero_sha" "ds_rows summary = 1" "ds_stats summary \<noteq> None" by blast
  have "\<exists>L2 R. write_occurrences_streaming [Inr build_occurrence] (ao_source build_options) L1 = Inr (1, L2, R) \<and>
      ol_assembly_documents L2 = [(''a'', 1)] \<and> map or_document_id (ol_occurrences L2) = [''a'']"
    by (simp add: write_occurrences_streaming_def write_occurrence_def occurrence_row_of_def A source build_occurrence_def)
  then obtain L2 R where B: "write_occurrences_streaming [Inr build_occurrence] (ao_source build_options) L1 = Inr (1, L2, R)"
    "ol_assembly_documents L2 = [(''a'', 1)]" "map or_document_id (ol_occurrences L2) = [''a'']"
    by (elim exE conjE) (rule that)
  then obtain r where r: "ol_occurrences L2 = [r]" "or_document_id r = ''a''" by auto
  obtain L where C: "finalize_occurrence_lookup L2 1 (ao_source build_options) = Inr L"
    by (simp add: finalize_occurrence_lookup_def count_mismatch_def B(2) r)
  have fin: "f32_is_finite 0x3f800000" by (simp add: f32_is_finite_def f32_exponent_def)
  have e: "ep_dimensions example_profile = 1" "ep_normalization example_profile = ''none''"
    by (simp_all add: example_profile_def)
  obtain content where D: "write_vectors_streaming [Inr \<lparr>ov_vector_ordinal = 0, ov_values = [0x3f800000]\<rparr>] 1 zero_sha
      ''none'' = Inr (1, content)"
    using fin by (simp add: write_vectors_streaming_def z write_vector_def validate_vector_values_def)
  obtain lexical where F: "write_lexical build_externals JsonFormat summary [example_document] = Inr lexical"
    using A(6) by (auto simp: write_lexical_def)
  note C = C [unfolded One_nat_def]
  have G: "\<exists>m'. sealed_manifest build_externals m = Inr m'" for m
    by (simp add: sealed_manifest_def manifest_component_sha256_def build_externals_def)
  obtain storage relative file1 where F': "lexical = (storage, relative, file1)" by (cases lexical)
  obtain m where M: "sealed_manifest build_externals (assembled_manifest build_externals build_options summary
      [example_document] R L (Suc 0) content (storage, relative, file1)) = Inr m" using G by blast
  show ?thesis
    by (simp add: write_index_def profile identity assemble_index_def format A B(1) C e D F F' M)
qed

lemma assembled_index_opens_witness:
  "\<exists>m dir X. write_index build_externals build_options [Inr example_document] [Inr build_occurrence]
       [Inr \<lparr>ov_vector_ordinal = 0, ov_values = [0x3f800000]\<rparr>] None = (Inr m, Some dir) \<and>
     open_internal build_externals dir False = Inr X \<and> documents build_externals X = Inr [example_document]"
proof -
  from build_writes obtain m dir where w: "write_index build_externals build_options [Inr example_document]
      [Inr build_occurrence] [Inr \<lparr>ov_vector_ordinal = 0, ov_values = [0x3f800000]\<rparr>] None = (Inr m, Some dir)"
    by blast
  have b: "ao_pipeline_provenance build_options = None" "\<not> ao_test_only build_options"
    "ep_dimensions (ao_embedding_profile build_options) = 1"
    by (simp_all add: build_options_def plain_options_def example_profile_def)
  from assembled_index_opens [OF w, of False] b
  obtain X D where "open_internal build_externals dir False = Inr X" "documents build_externals X = Inr D"
    "[Inr example_document] = (map Inr D :: (index_error + fast_document) list)" by auto
  with w show ?thesis by (cases D) auto
qed

end
