(* ===== verification/Projection_Text.thy ===== *)
theory Projection_Text
  imports Index_Text F64
begin

text \<open>
  The text side of \<open>crates/rag-projection/src/lib.rs\<close>: typed JSON values, field paths and their
  classification, redaction of free text, and lengths in characters. The regular expressions are
  matched by the \<open>regex\<close> crate: \<open>find_iter\<close> gives the spans of the matches of a pattern, in order.
  JSON, the time library and the tables of Unicode and of decimal floats are parameters too.
\<close>

subsection \<open>Values and libraries\<close>

datatype number = PosInt nat | NegInt int | Float f64

datatype "value" =
    VNull
  | VBool bool
  | VNumber number
  | VString string
  | VArray "value list"
  | VObject "(string \<times> value) list"

datatype pattern =
    LIST_INDEX_RE | WORD_CHAR_RE | CAMEL_BOUNDARY_RE | NON_KEY_RE | POSITIONAL_TOKEN_RE
  | SECRET_ASSIGNMENT_RE | BEARER_RE | EMAIL_RE | IPV4_RE | UUID_RE | LONG_HEX_RE
  | CLOUD_IDENTIFIER_RE | ACCESS_KEY_RE | JWT_RE | MAC_RE | POWERSHELL_ENCODED_RE

text \<open>
  A match is its start, the boundary of a capture group that the code uses, and its end: for
  \<open>SECRET_ASSIGNMENT_RE\<close> the end of group 2, for \<open>POWERSHELL_ENCODED_RE\<close> the start of group 1
  (which ends with the match), for \<open>CAMEL_BOUNDARY_RE\<close> the end of group 1. A moment is its second
  and its nanosecond.
\<close>

type_synonym span = "nat \<times> nat \<times> nat"
type_synonym moment = "int \<times> nat"

record projection_externals = externals +
  find_iter :: "pattern \<Rightarrow> string \<Rightarrow> span list"
  to_lowercase :: "string \<Rightarrow> string"
  parse_value :: "string \<Rightarrow> value option"
  print_value :: "value \<Rightarrow> string"
  parse_f64 :: "string \<Rightarrow> f64 option"
  log10_floor :: "f64 \<Rightarrow> int"
  timestamp_opt :: "int \<Rightarrow> nat \<Rightarrow> moment option"
  parse_from_rfc3339 :: "string \<Rightarrow> moment option"
  to_rfc3339 :: "moment \<Rightarrow> string"
  to_rfc3339_secs :: "moment \<Rightarrow> string"
  to_rfc3339_millis :: "moment \<Rightarrow> string"
  base64_decode :: "string \<Rightarrow> bytes option"

definition is_null :: "value \<Rightarrow> bool" where
  "is_null v \<longleftrightarrow> v = VNull"

definition is_object :: "value \<Rightarrow> bool" where
  "is_object v \<longleftrightarrow> (case v of VObject _ \<Rightarrow> True | _ \<Rightarrow> False)"

definition as_str :: "value \<Rightarrow> string option" where
  "as_str v = (case v of VString s \<Rightarrow> Some s | _ \<Rightarrow> None)"

definition as_array :: "value \<Rightarrow> value list option" where
  "as_array v = (case v of VArray items \<Rightarrow> Some items | _ \<Rightarrow> None)"

definition as_object :: "value \<Rightarrow> (string \<times> value) list option" where
  "as_object v = (case v of VObject entries \<Rightarrow> Some entries | _ \<Rightarrow> None)"

fun as_f64 :: "number \<Rightarrow> f64" where
  "as_f64 (PosInt n) = d_of_nat n"
| "as_f64 (NegInt i) = d_ratio (i * int d_unit) 1"
| "as_f64 (Float f) = f"

fun as_i64 :: "number \<Rightarrow> int option" where
  "as_i64 (PosInt n) = (if n < 2 ^ 63 then Some (int n) else None)"
| "as_i64 (NegInt i) = Some i"
| "as_i64 (Float f) = None"

subsection \<open>Characters\<close>

definition char_count :: "string \<Rightarrow> nat" where
  "char_count s = length (str_chars s)"

text \<open>\<open>char::is_whitespace\<close>: the characters of the Unicode property White\_Space, in UTF-8.\<close>

definition is_whitespace :: "string \<Rightarrow> bool" where
  "is_whitespace ch \<longleftrightarrow>
     (case map of_char ch of
        [a] \<Rightarrow> 9 \<le> a \<and> a \<le> 13 \<or> a = (32 :: nat)
      | [a, b] \<Rightarrow> a = 0xC2 \<and> (b = 0x85 \<or> b = 0xA0)
      | [a, b, c] \<Rightarrow>
          a = 0xE1 \<and> b = 0x9A \<and> c = 0x80 \<or>
          a = 0xE2 \<and> b = 0x80 \<and> (0x80 \<le> c \<and> c \<le> 0x8A \<or> c = 0xA8 \<or> c = 0xA9 \<or> c = 0xAF) \<or>
          a = 0xE2 \<and> b = 0x81 \<and> c = 0x9F \<or>
          a = 0xE3 \<and> b = 0x80 \<and> c = 0x80
      | _ \<Rightarrow> False)"

definition trim :: "string \<Rightarrow> string" where
  "trim s = concat (rev (dropWhile is_whitespace (rev (dropWhile is_whitespace (str_chars s)))))"

fun words_of :: "string list \<Rightarrow> string list" where
  "words_of [] = [[]]"
| "words_of (ch # chs) =
     (if is_whitespace ch then [] # words_of chs
      else case words_of chs of [] \<Rightarrow> [ch] | w # ws \<Rightarrow> (ch @ w) # ws)"

definition split_whitespace :: "string \<Rightarrow> string list" where
  "split_whitespace s = filter (\<lambda>w. w \<noteq> []) (words_of (str_chars s))"

text \<open>\<open>str::join\<close> with a separator of any length.\<close>

fun join_with :: "string \<Rightarrow> string list \<Rightarrow> string" where
  "join_with sep [] = []"
| "join_with sep [p] = p"
| "join_with sep (p # q # ps) = p @ sep @ join_with sep (q # ps)"

definition replace_char :: "char \<Rightarrow> string \<Rightarrow> string \<Rightarrow> string" where
  "replace_char c w s = concat (map (\<lambda>x. if x = c then w else [x]) s)"

text \<open>An ellipsis (three bytes) and a label.\<close>

definition TRUNCATED :: string where
  "TRUNCATED = map char_of [0xE2, 0x80, 0xA6 :: nat] @ ''[truncated]''"

definition bounded :: "string \<Rightarrow> nat \<Rightarrow> string" where
  "bounded value limit =
     (if char_count value \<le> limit then value
      else concat (take (limit - char_count TRUNCATED) (str_chars value)) @ TRUNCATED)"

subsection \<open>Regular expressions\<close>

definition is_match :: "'x projection_externals_scheme \<Rightarrow> pattern \<Rightarrow> string \<Rightarrow> bool" where
  "is_match E p s \<longleftrightarrow> find_iter E p s \<noteq> []"

definition substring :: "string \<Rightarrow> nat \<Rightarrow> nat \<Rightarrow> string" where
  "substring s a b = take (b - a) (drop a s)"

text \<open>\<open>Regex::replace_all\<close>: every match is replaced, what lies between matches is kept.\<close>

fun replace_spans :: "(span \<Rightarrow> string) \<Rightarrow> string \<Rightarrow> nat \<Rightarrow> span list \<Rightarrow> string" where
  "replace_spans f s from [] = drop from s"
| "replace_spans f s from ((a, g, b) # spans) = substring s from a @ f (a, g, b) @ replace_spans f s b spans"

definition replace_all ::
    "'x projection_externals_scheme \<Rightarrow> pattern \<Rightarrow> (span \<Rightarrow> string) \<Rightarrow> string \<Rightarrow> string" where
  "replace_all E p f s = replace_spans f s 0 (find_iter E p s)"

definition without_indexes :: "'x projection_externals_scheme \<Rightarrow> string \<Rightarrow> string" where
  "without_indexes E path = replace_all E LIST_INDEX_RE (\<lambda>_. []) path"

end
