(* ===== verification/Projection_Paths.thy ===== *)
theory Projection_Paths
  imports Projection_Text
begin

text \<open>
  The fields of an event: their names and how \<open>crates/rag-projection/src/lib.rs\<close> classifies them
  by path, and the text a leaf contributes, with secrets and identifiers redacted.
\<close>

subsection \<open>The vocabulary\<close>

definition SECRET_KEYS :: "string list" where
  "SECRET_KEYS =
     [''api_key'', ''authorization'', ''access_token'', ''auth_token'', ''client_secret'',
      ''cookie'', ''password'', ''passwd'', ''private_key'', ''secret'', ''secret_key'',
      ''session_token'', ''refresh_token'', ''token'']"

definition SECRET_TOKENS :: "string list" where
  "SECRET_TOKENS =
     [''apikey'', ''passphrase'', ''passwd'', ''password'', ''secret'', ''token'']"

definition IDENTIFIER_KEYS :: "string list" where
  "IDENTIFIER_KEYS =
     [''account'', ''actor'', ''actor_aliases'', ''address'', ''addresses'',
      ''credential_id'', ''device'', ''domain'', ''dst_ip'', ''email'', ''event_id'',
      ''host'', ''hostname'', ''identity'', ''identities'', ''interface'',
      ''message_trace_uid'', ''message_uid'', ''mac'', ''mac_address'', ''native_event_uid'',
      ''parent_process_uid'', ''principal'', ''record_uid'', ''recipients'', ''request_id'',
      ''support_ref'', ''resource'', ''resources'', ''sender'', ''session_id'',
      ''source_address'', ''src_ip'', ''src_mac'', ''subject'', ''target'', ''user'',
      ''pid'', ''ppid'', ''uid'', ''gid'', ''sid'', ''host_identifier'', ''auid'', ''euid'',
      ''egid'', ''ruid'', ''rgid'', ''uuid'', ''host_uuid'', ''dst_mac'']"

definition IDENTIFIER_ALIASES :: "string list" where
  "IDENTIFIER_ALIASES =
     [''account_name'', ''client_hostname'', ''computer_name'', ''destination_hostname'',
      ''source_hostname'', ''tenant_name'', ''user_name'', ''username'', ''workstation_name'']"

definition IDENTIFIER_SUFFIXES :: "string list" where
  "IDENTIFIER_SUFFIXES =
     [''_id'', ''_uid'', ''_pid'', ''_gid'', ''_sid'', ''_ref'', ''_sha256'', ''_hash'',
      ''_identifier'', ''_address'', ''_ip'', ''_mac'', ''_mac_address'', ''_arn'', ''_uuid'']"

definition IDENTIFIER_PREFIXES :: "string list" where
  "IDENTIFIER_PREFIXES =
     [''account'', ''actor'', ''client'', ''computer'', ''destination'', ''device'',
      ''host'', ''identity'', ''principal'', ''recipient'', ''sender'', ''source'',
      ''tenant'', ''user'', ''username'', ''workstation'']"

definition IDENTIFIER_CONTAINERS :: "string list" where
  "IDENTIFIER_CONTAINERS =
     [''account'', ''actor'', ''actor_aliases'', ''address'', ''addresses'', ''bucket'',
      ''credential'', ''databucket'', ''device'', ''domain'', ''endpoint'', ''event'',
      ''host'', ''hostname'', ''identities'', ''identity'', ''interface'', ''ip'',
      ''principal'', ''recipient'', ''recipients'', ''record'', ''resource'', ''resources'',
      ''sender'', ''session'', ''user'']"

definition IDENTIFIER_PLACEHOLDERS :: "string list" where
  "IDENTIFIER_PLACEHOLDERS =
     [''account'', ''actor'', ''address'', ''device'', ''domain'', ''dst_ip'', ''email'',
      ''host'', ''hostname'', ''principal'', ''recipient'', ''recipients'', ''resource'',
      ''resources'', ''sender'', ''source_address'', ''src_ip'', ''subject'', ''target'',
      ''user'']"

definition SEMANTIC_UID_KEYS :: "string list" where
  "SEMANTIC_UID_KEYS =
     [''activity_id'', ''activity_name'', ''category_name'', ''category_uid'',
      ''class_name'', ''class_uid'', ''severity_id'', ''severity_name'', ''status_id'',
      ''status_code'', ''type_name'', ''type_uid'']"

definition TIME_KEYS :: "string list" where
  "TIME_KEYS =
     [''time'', ''event_time'', ''timestamp'', ''observed_time'', ''start_time'',
      ''end_time'', ''calendar_time'', ''atime'', ''ctime'', ''mtime'', ''uptime'',
      ''btime'', ''unix_time'', ''endtime'', ''starttime'']"

definition VOLATILE_KEYS :: "string list" where
  "VOLATILE_KEYS =
     [''counter'', ''epoch'', ''line_number'', ''ordinal'', ''record_number'', ''sequence'',
      ''sequence_number'']"

definition FREE_TEXT_KEYS :: "string list" where
  "FREE_TEXT_KEYS =
     [''body'', ''cmd_line'', ''command'', ''command_line'', ''content'', ''description'',
      ''details'', ''headers'', ''message'', ''payload'', ''query'', ''raw'', ''request'',
      ''script'', ''script_block'', ''stack_trace'', ''user_agent'']"

definition ACTION_TOKENS :: "string list" where
  "ACTION_TOKENS =
     [''action'', ''activity'', ''command'', ''command_line'', ''event_name'', ''method'',
      ''operation'', ''query_type'', ''request'', ''verb'']"

definition TARGET_TOKENS :: "string list" where
  "TARGET_TOKENS =
     [''application'', ''bucket'', ''databucket'', ''destination'', ''device'', ''domain'',
      ''dst_endpoint'', ''dst_ip'', ''file'', ''hostname'', ''object'', ''path'',
      ''process'', ''recipients'', ''resource'', ''service'', ''subject'', ''target'',
      ''user'']"

definition OUTCOME_TOKENS :: "string list" where
  "OUTCOME_TOKENS =
     [''blocked'', ''compliance'', ''disposition'', ''error'', ''finding'', ''from'',
      ''log_status'', ''outcome'', ''result'', ''severity'', ''state'', ''status'',
      ''status_code'', ''target_status_code'', ''to'', ''transition'']"

definition QUANTITY_TOKENS :: "string list" where
  "QUANTITY_TOKENS =
     [''bytes'', ''count'', ''duration'', ''length'', ''millis'', ''milliseconds'',
      ''packets'', ''rtt'', ''size'', ''time_taken'', ''total'', ''value'']"

definition PRIORITY_TOKENS :: "string list" where
  "PRIORITY_TOKENS =
     [''blocked'', ''compliance'', ''disposition'', ''error'', ''finding'', ''from'',
      ''log_status'', ''outcome'', ''result'', ''severity'', ''state'', ''status'',
      ''status_code'', ''target_status_code'', ''to'', ''transition'', ''action'',
      ''activity'', ''command'', ''command_line'', ''event_name'', ''method'', ''operation'',
      ''query_type'', ''request'', ''verb'', ''application'', ''bucket'', ''databucket'',
      ''destination'', ''device'', ''domain'', ''dst_endpoint'', ''dst_ip'', ''file'',
      ''hostname'', ''object'', ''path'', ''process'', ''recipients'', ''resource'',
      ''service'', ''subject'', ''target'', ''user'', ''body'', ''cmd_line'', ''content'',
      ''description'', ''details'', ''headers'', ''message'', ''payload'', ''raw'',
      ''script'', ''script_block'', ''stack_trace'', ''user_agent'', ''response'']"

subsection \<open>Names\<close>

definition contains :: "string \<Rightarrow> string \<Rightarrow> bool" where
  "contains pat s \<longleftrightarrow> str_find pat s \<noteq> None"

definition trim_matches :: "char \<Rightarrow> string \<Rightarrow> string" where
  "trim_matches c s = rev (dropWhile (\<lambda>x. x = c) (rev (dropWhile (\<lambda>x. x = c) s)))"

function trim_end_matches :: "string \<Rightarrow> string \<Rightarrow> string" where
  "trim_end_matches pat s =
     (if pat \<noteq> [] \<and> ends_with pat s then trim_end_matches pat (take (length s - length pat) s) else s)"
  by pat_completeness auto
termination
proof (relation "measure (\<lambda>(pat, s). length s)")
  fix pat s :: string
  assume "pat \<noteq> [] \<and> ends_with pat s"
  then have "0 < length pat" "length pat \<le> length s"
    using prefix_length_le [of "rev pat" "rev s"] by (auto simp: ends_with_def)
  then have "length s - length pat < length s" by linarith
  then show "((pat, take (length s - length pat) s), (pat, s)) \<in> measure (\<lambda>(pat, s). length s)" by simp
qed simp

declare trim_end_matches.simps [simp del]

definition normalize_key :: "'x projection_externals_scheme \<Rightarrow> string \<Rightarrow> string" where
  "normalize_key E value =
     (let camel = to_lowercase E (replace_all E CAMEL_BOUNDARY_RE
            (\<lambda>(a, g, b). substring value a g @ ''_'' @ substring value g b) value)
      in trim_matches (CHR ''_'') (replace_all E NON_KEY_RE (\<lambda>_. ''_'') camel))"

definition leaf_name :: "'x projection_externals_scheme \<Rightarrow> string \<Rightarrow> string" where
  "leaf_name E path = normalize_key E (without_indexes E (last (str_split (CHR ''.'') path)))"

text \<open>\<open>path_tokens\<close> is a set: only membership is asked.\<close>

definition path_tokens :: "'x projection_externals_scheme \<Rightarrow> string \<Rightarrow> string list" where
  "path_tokens E path =
     filter (\<lambda>token. token \<noteq> [])
       (concat (map (\<lambda>part. let key = normalize_key E part in key # str_split (CHR ''_'') key)
          (str_split (CHR ''.'') (without_indexes E path))))"

definition any_token :: "string list \<Rightarrow> string list \<Rightarrow> bool" where
  "any_token wanted tokens \<longleftrightarrow> list_ex (\<lambda>token. token \<in> set wanted) tokens"

definition label :: "string \<Rightarrow> string" where
  "label path =
     (let parts = filter (\<lambda>part. part \<noteq> ''ocsf'') (str_split (CHR ''.'') path)
      in str_join (CHR ''.'') (drop (length parts - 3) parts))"

definition semantic_leaf_alias :: "string \<Rightarrow> string" where
  "semantic_leaf_alias leaf =
     (if leaf = ''dest_ip'' then ''dst_ip'' else if leaf = ''dest_mac'' then ''dst_mac''
      else if leaf = ''dest_port'' then ''dst_port'' else if leaf = ''source_ip'' then ''src_ip''
      else if leaf = ''source_mac'' then ''src_mac'' else if leaf = ''source_port'' then ''src_port''
      else leaf)"

subsection \<open>Classes of paths\<close>

definition is_secret :: "'x projection_externals_scheme \<Rightarrow> string \<Rightarrow> bool" where
  "is_secret E path =
     (let leaf = leaf_name E path; tokens = path_tokens E path
      in leaf \<in> set SECRET_KEYS \<or> ends_with ''_secret'' leaf \<or> ends_with ''_password'' leaf
         \<or> ends_with ''_token'' leaf \<or> any_token SECRET_TOKENS tokens
         \<or> list_all (\<lambda>token. token \<in> set tokens) [''api'', ''key'']
         \<or> list_all (\<lambda>token. token \<in> set tokens) [''access'', ''key'']
         \<or> list_all (\<lambda>token. token \<in> set tokens) [''private'', ''key''])"

definition is_identifier :: "'x projection_externals_scheme \<Rightarrow> string \<Rightarrow> bool" where
  "is_identifier E path =
     (let leaf = leaf_name E path; tokens = path_tokens E path
      in if leaf \<in> set SEMANTIC_UID_KEYS then False
         else leaf \<in> set IDENTIFIER_KEYS \<or> leaf \<in> set IDENTIFIER_ALIASES
            \<or> list_ex (\<lambda>suffix. ends_with suffix leaf) IDENTIFIER_SUFFIXES
            \<or> ends_with ''_name'' leaf \<and>
               any_token IDENTIFIER_PREFIXES (str_split (CHR ''_'') (trim_end_matches ''_name'' leaf))
            \<or> (leaf = ''name'' \<or> leaf = ''value'') \<and> any_token IDENTIFIER_CONTAINERS tokens)"

definition is_time :: "'x projection_externals_scheme \<Rightarrow> string \<Rightarrow> bool" where
  "is_time E path =
     (let leaf = leaf_name E path
      in leaf \<in> set TIME_KEYS \<or> ends_with ''_time'' leaf \<or> ends_with ''_timestamp'' leaf
         \<or> ends_with ''_date'' leaf)"

definition is_volatile :: "'x projection_externals_scheme \<Rightarrow> string \<Rightarrow> bool" where
  "is_volatile E path \<longleftrightarrow> leaf_name E path \<in> set VOLATILE_KEYS"

definition is_positional_raw_token :: "'x projection_externals_scheme \<Rightarrow> string \<Rightarrow> bool" where
  "is_positional_raw_token E path = is_match E POSITIONAL_TOKEN_RE path"

definition is_free_text :: "'x projection_externals_scheme \<Rightarrow> string \<Rightarrow> bool" where
  "is_free_text E path \<longleftrightarrow> leaf_name E path \<in> set FREE_TEXT_KEYS \<or> is_positional_raw_token E path"

definition is_quantity :: "'x projection_externals_scheme \<Rightarrow> string \<Rightarrow> bool" where
  "is_quantity E path \<longleftrightarrow>
     leaf_name E path \<in> set QUANTITY_TOKENS \<or> any_token QUANTITY_TOKENS (path_tokens E path)"

definition is_semantic_noise :: "'x projection_externals_scheme \<Rightarrow> string \<Rightarrow> bool" where
  "is_semantic_noise E path =
     (let normalized = str_join (CHR ''.'')
            (map (normalize_key E) (str_split (CHR ''.'') (without_indexes E path)));
          leaf = leaf_name E path
      in contains ''.metadata.product.'' (''.'' @ normalized @ ''.'')
         \<or> ends_with ''metadata.version'' normalized \<or> leaf = ''support_ref''
         \<or> leaf = ''dest_content'' \<or> leaf = ''src_content'')"

datatype field_role = OutcomeRole | ActionRole | TargetRole | ContextRole

definition role :: "'x projection_externals_scheme \<Rightarrow> string \<Rightarrow> field_role" where
  "role E path =
     (let tokens = path_tokens E path
      in if any_token OUTCOME_TOKENS tokens then OutcomeRole
         else if any_token ACTION_TOKENS tokens then ActionRole
         else if any_token TARGET_TOKENS tokens then TargetRole else ContextRole)"

definition subtree_priority :: "'x projection_externals_scheme \<Rightarrow> string \<Rightarrow> nat" where
  "subtree_priority E key =
     (let tokens = path_tokens E (normalize_key E key)
      in if ''unmapped'' \<in> set tokens \<or> ''raw'' \<in> set tokens then 2
         else if any_token PRIORITY_TOKENS tokens then 0 else 1)"

definition dotted_path :: "'x projection_externals_scheme \<Rightarrow> string \<Rightarrow> string" where
  "dotted_path E path = ''.'' @ to_lowercase E (without_indexes E path) @ ''.''"

definition leaf_priority :: "'x projection_externals_scheme \<Rightarrow> string \<Rightarrow> nat" where
  "leaf_priority E path =
     (if is_time E path \<or> role E path \<noteq> ContextRole \<or> is_free_text E path then 0
      else if \<not> contains ''.unmapped.'' (dotted_path E path) \<and> \<not> is_positional_raw_token E path then 1
      else 2)"

subsection \<open>Redaction of free text\<close>

definition replace_with_boundaries ::
    "'x projection_externals_scheme \<Rightarrow> string \<Rightarrow> pattern \<Rightarrow> string
     \<Rightarrow> (string \<Rightarrow> bool) \<Rightarrow> (string \<Rightarrow> bool) \<Rightarrow> string" where
  "replace_with_boundaries E text p replacement left_forbidden right_forbidden =
     replace_all E p (\<lambda>(a, g, b).
       let before = str_chars (take a text); after = str_chars (drop b text);
           invalid_left = before \<noteq> [] \<and> left_forbidden (last before);
           invalid_right = after \<noteq> [] \<and> right_forbidden (hd after)
       in if invalid_left \<or> invalid_right then substring text a b else replacement) text"

definition is_regex_word :: "'x projection_externals_scheme \<Rightarrow> string \<Rightarrow> bool" where
  "is_regex_word E ch = is_match E WORD_CHAR_RE ch"

definition email_left_forbidden :: "'x projection_externals_scheme \<Rightarrow> string \<Rightarrow> bool" where
  "email_left_forbidden E ch \<longleftrightarrow> is_regex_word E ch \<or> ch \<in> {''.'', ''+'', ''-''}"

definition email_right_forbidden :: "'x projection_externals_scheme \<Rightarrow> string \<Rightarrow> bool" where
  "email_right_forbidden E ch \<longleftrightarrow> is_regex_word E ch \<or> ch \<in> {''.'', ''-''}"

definition word_or_dot :: "'x projection_externals_scheme \<Rightarrow> string \<Rightarrow> bool" where
  "word_or_dot E ch \<longleftrightarrow> is_regex_word E ch \<or> ch = ''.''"

definition ascii_hex :: "string \<Rightarrow> bool" where
  "ascii_hex ch \<longleftrightarrow> (case ch of [c] \<Rightarrow> is_ascii_hexdigit c | _ \<Rightarrow> False)"

definition jwt_character :: "string \<Rightarrow> bool" where
  "jwt_character ch \<longleftrightarrow>
     (case ch of [c] \<Rightarrow> is_ascii_alphanumeric c \<or> c = CHR ''_'' \<or> c = CHR ''-'' | _ \<Rightarrow> False)"

definition replace_in_band_identifiers ::
    "'x projection_externals_scheme \<Rightarrow> string \<Rightarrow> bool \<Rightarrow> string" where
  "replace_in_band_identifiers E text include_email_and_ip =
     (let t1 = replace_with_boundaries E text JWT_RE ''<redacted:jwt>'' jwt_character jwt_character;
          t2 = replace_with_boundaries E t1 MAC_RE ''<redacted:mac-address>'' ascii_hex ascii_hex
      in if \<not> include_email_and_ip then t2
         else let
           t3 = replace_with_boundaries E t2 EMAIL_RE ''<redacted:email-address>''
                  (email_left_forbidden E) (email_right_forbidden E);
           t4 = replace_with_boundaries E t3 IPV4_RE ''<redacted:ip-address>'' (word_or_dot E) (word_or_dot E);
           t5 = replace_with_boundaries E t4 UUID_RE ''<redacted:uuid>'' ascii_hex ascii_hex
         in replace_with_boundaries E t5 LONG_HEX_RE ''<redacted:long-identifier>'' ascii_hex ascii_hex)"

definition MAX_VALUE_CHARS :: nat where
  "MAX_VALUE_CHARS = 240"

definition sanitize_free_text :: "'x projection_externals_scheme \<Rightarrow> string \<Rightarrow> string" where
  "sanitize_free_text E value =
     (let t1 = map (\<lambda>c. if c \<in> {CHR 0x00, CHR 0x0D, CHR 0x0A} then CHR '' '' else c) value;
          t2 = replace_all E SECRET_ASSIGNMENT_RE (\<lambda>(a, g, b). substring t1 a g @ ''<redacted:secret>'') t1;
          t3 = replace_all E BEARER_RE (\<lambda>_. ''Bearer <redacted:secret>'') t2;
          t4 = replace_all E ACCESS_KEY_RE (\<lambda>_. ''<redacted:cloud-credential>'') t3;
          t5 = replace_all E CLOUD_IDENTIFIER_RE (\<lambda>_. ''<redacted:cloud-identifier>'') t4;
          t6 = replace_in_band_identifiers E t5 True
      in bounded (str_join (CHR '' '') (split_whitespace t6)) MAX_VALUE_CHARS)"

definition has_unsafe_credential_text :: "'x projection_externals_scheme \<Rightarrow> string \<Rightarrow> bool" where
  "has_unsafe_credential_text E value \<longleftrightarrow>
     is_match E SECRET_ASSIGNMENT_RE value \<or> is_match E BEARER_RE value \<or> is_match E ACCESS_KEY_RE value
     \<or> replace_with_boundaries E value JWT_RE ''<redacted:jwt>'' jwt_character jwt_character \<noteq> value"

subsection \<open>The text of a value\<close>

fun d_trunc :: "f64 \<Rightarrow> f64" where
  "d_trunc (Finite a) = Finite (sgn a * (\<bar>a\<bar> div int d_unit) * int d_unit)"
| "d_trunc x = x"

definition d_fract :: "f64 \<Rightarrow> f64" where
  "d_fract x = d_sub x (d_trunc x)"

fun d_abs :: "f64 \<Rightarrow> f64" where
  "d_abs (Finite a) = Finite \<bar>a\<bar>"
| "d_abs (Infinite s) = Infinite False"
| "d_abs Nan = Nan"

definition d_eq :: "f64 \<Rightarrow> f64 \<Rightarrow> bool" where
  "d_eq a b \<longleftrightarrow> a \<noteq> Nan \<and> a = b"

definition d_le :: "f64 \<Rightarrow> f64 \<Rightarrow> bool" where
  "d_le a b \<longleftrightarrow> d_less a b \<or> d_eq a b"

text \<open>\<open>as u64\<close>.\<close>

fun d_to_u64 :: "f64 \<Rightarrow> nat" where
  "d_to_u64 (Finite a) = min (2 ^ 64 - 1) (nat a div d_unit)"
| "d_to_u64 (Infinite s) = (if s then 0 else 2 ^ 64 - 1)"
| "d_to_u64 Nan = 0"

definition int_text :: "int \<Rightarrow> string" where
  "int_text i = (if i < 0 then ''-'' @ nat_digits (nat (- i)) else nat_digits (nat i))"

definition source_port :: "'x projection_externals_scheme \<Rightarrow> string \<Rightarrow> bool" where
  "source_port E path =
     (let leaf = semantic_leaf_alias (leaf_name E path); tokens = path_tokens E path
      in leaf = ''src_port'' \<or> leaf = ''port'' \<and> (''src'' \<in> set tokens \<or> ''source'' \<in> set tokens))"

definition port_text :: "f64 \<Rightarrow> string" where
  "port_text value =
     (if \<not> d_eq (d_fract value) (Finite 0) \<or> \<not> (d_le (Finite 0) value \<and> d_le value (d_of_nat 65535))
      then ''<port:invalid>''
      else let port = d_to_u64 value
        in if port < 1024 then ''<port:privileged:'' @ nat_digits port @ ''>''
           else if port < 49152 then ''<port:registered>'' else ''<port:dynamic>'')"

definition numeric_semantic_value :: "'x projection_externals_scheme \<Rightarrow> string \<Rightarrow> number \<Rightarrow> string" where
  "numeric_semantic_value E path number =
     (let leaf = semantic_leaf_alias (leaf_name E path); value = as_f64 number
      in if source_port E path then port_text value
         else if leaf \<in> set SEMANTIC_UID_KEYS \<or> leaf = ''dst_port'' \<or> leaf = ''port''
         then print_value E (VNumber number)
         else if \<not> is_quantity E path then print_value E (VNumber number)
         else if d_eq value (Finite 0) then ''<quantity:zero>''
         else ''<quantity:'' @ (if d_less value (Finite 0) then ''negative-'' else []) @ ''1e''
            @ int_text (log10_floor E (d_abs value)) @ ''>'')"

definition semantic_value :: "'x projection_externals_scheme \<Rightarrow> string \<Rightarrow> value \<Rightarrow> string" where
  "semantic_value E path v =
     (if is_secret E path then ''<redacted:secret>''
      else if is_identifier E path
      then ''<redacted:'' @ replace_char (CHR ''_'') ''-'' (leaf_name E path) @ ''>''
      else case v of
        VNull \<Rightarrow> ''null''
      | VBool b \<Rightarrow> if b then ''true'' else ''false''
      | VNumber number \<Rightarrow> numeric_semantic_value E path number
      | VString s \<Rightarrow> sanitize_free_text E s
      | _ \<Rightarrow> print_value E v)"

end
