(* ===== verification/Projection.thy ===== *)
theory Projection
  imports Projection_Paths "HOL-Library.Product_Lexorder"
begin

text \<open>
  The projection of \<open>crates/rag-projection/src/lib.rs\<close>: an event of a typed relation becomes a
  semantic document (what can be searched) and an occurrence (what identifies the event and the
  exact attributes that can be shown). \<open>Panic\<close> is the \<open>expect\<close> of the canonical serialisation.
\<close>

datatype projection_error = InvalidJson | DigestPanic

record component_ref =
  cr_id :: string
  cr_version :: string
  cr_sha256 :: string
  cr_uri :: "string option"

record projection_context =
  pc_snapshot :: component_ref
  pc_mapping_pack :: component_ref

record projection_input =
  pi_relation_name :: string
  pi_event_id :: string
  pi_typed_event_json :: string
  pi_support_ref :: string
  pi_context :: projection_context

datatype projected_kind = Activity | StateKind | Detection | StructuredOnly
datatype terminal_disposition = DirectSemanticDocument | StructuredOnlyOccurrence
datatype event_time_availability = Available | Missing | PresentUnparsed

definition kind_label :: "projected_kind \<Rightarrow> string" where
  "kind_label k = (case k of Activity \<Rightarrow> ''activity'' | StateKind \<Rightarrow> ''state'' | Detection \<Rightarrow> ''detection''
     | StructuredOnly \<Rightarrow> ''structured_only'')"

definition semantic_label :: "projected_kind \<Rightarrow> string" where
  "semantic_label k = (if k = StructuredOnly then ''structured only'' else kind_label k)"

record semantic_facets =
  sf_action :: string
  sf_target :: string
  sf_context :: string
  sf_outcome :: string

record projected_document =
  pd_document_id :: string
  pd_document_kind :: projected_kind
  pd_semantic_text :: string
  pd_facets :: semantic_facets
  pd_semantic_group_sha256 :: string
  pd_snapshot :: component_ref
  pd_mapping_pack :: component_ref

subsection \<open>Leaves\<close>

record leaf =
  lf_path :: string
  lf_value :: "value"

record flatten_state =
  fl_scanned :: nat
  fl_truncated :: bool
  fl_output :: "leaf list"

definition MAX_LEAVES :: nat where
  "MAX_LEAVES = 160"

definition MAX_LIST_ITEMS :: nat where
  "MAX_LIST_ITEMS = 24"

definition MAX_PROJECTION_SCALARS_SCANNED :: nat where
  "MAX_PROJECTION_SCALARS_SCANNED = 1024"

definition push_leaf :: "string \<Rightarrow> value \<Rightarrow> flatten_state \<Rightarrow> flatten_state" where
  "push_leaf path v st =
     st\<lparr>fl_scanned := fl_scanned st + 1, fl_output := fl_output st @ [\<lparr>lf_path = path, lf_value = v\<rparr>]\<rparr>"

definition field_path :: "string \<Rightarrow> string \<Rightarrow> string" where
  "field_path path key = (if path = [] then key else path @ ''.'' @ key)"

definition item_path :: "string \<Rightarrow> nat \<Rightarrow> string" where
  "item_path path index = path @ ''['' @ nat_digits index @ '']''"

definition sorted_children ::
    "'x projection_externals_scheme \<Rightarrow> (string \<times> value) list \<Rightarrow> (string \<times> value) list" where
  "sorted_children E entries = sort_key (\<lambda>(key, _). (subtree_priority E key, normalize_key E key)) entries"

lemma set_sorted_children [simp]: "set (sorted_children E entries) = set entries"
  by (simp add: sorted_children_def)

lemma size_entry [termination_simp]: "(key, child) \<in> set entries \<Longrightarrow> size child < Suc (size_list (size_prod (\<lambda>_. 0) size) entries)"
  using size_list_estimation' [of "(key, child)" entries "size child" "size_prod (\<lambda>_. 0) size"] by simp

lemma size_item [termination_simp]:
  "(index, child) \<in> set (zip ks (take n items)) \<Longrightarrow> size child < Suc (size_list size items)"
  using size_list_estimation' [of child items "size child" size]
  by (auto dest!: set_zip_rightD in_set_takeD)

function (sequential) flatten_value ::
    "'x projection_externals_scheme \<Rightarrow> value \<Rightarrow> string \<Rightarrow> flatten_state \<Rightarrow> flatten_state" where
  "flatten_value E v path st =
     (if MAX_PROJECTION_SCALARS_SCANNED \<le> fl_scanned st then st\<lparr>fl_truncated := True\<rparr>
      else case v of
        VObject entries \<Rightarrow>
          let st' = fold (\<lambda>(key, child). flatten_value E child (field_path path key)) (sorted_children E entries) st
          in if entries = [] \<and> path \<noteq> [] then push_leaf path VNull st' else st'
      | VArray items \<Rightarrow>
          let st0 = (if MAX_LIST_ITEMS < length items then st\<lparr>fl_truncated := True\<rparr> else st);
              st' = fold (\<lambda>(index, child). flatten_value E child (item_path path index))
                      (zip [0..<length items] (take MAX_LIST_ITEMS items)) st0
          in if items = [] \<and> path \<noteq> [] then push_leaf path VNull st' else st'
      | _ \<Rightarrow> push_leaf (if path = [] then ''value'' else path) v st)"
  by pat_completeness auto
termination
  by (relation "measure (\<lambda>(E, v, path, st). size v)") (auto simp: termination_simp)

declare flatten_value.simps [simp del]

definition flattened_leaves :: "'x projection_externals_scheme \<Rightarrow> value \<Rightarrow> leaf list" where
  "flattened_leaves E typed_event =
     (let st = flatten_value E typed_event [] \<lparr>fl_scanned = 0, fl_truncated = False, fl_output = []\<rparr>;
          leaves = sort_key (\<lambda>leaf. (leaf_priority E (lf_path leaf), lf_path leaf)) (fl_output st)
      in take MAX_LEAVES leaves)"

definition relation_kind :: "string \<Rightarrow> projected_kind option" where
  "relation_kind relation =
     (if relation \<in> {''ocsf_cloud_resources_inventory_info'', ''ocsf_ext_livefire_configuration_snapshot'',
           ''ocsf_inventory_info'', ''ocsf_user_inventory''} then Some StateKind
      else if relation = ''ocsf_detection_finding'' then Some Detection
      else if relation = ''ocsf_ext_livefire_system_metric'' then Some StructuredOnly
      else if relation \<in> {''ocsf_account_change'', ''ocsf_api_activity'', ''ocsf_application_lifecycle'',
           ''ocsf_authentication'', ''ocsf_datastore_activity'', ''ocsf_dns_activity'', ''ocsf_email_activity'',
           ''ocsf_entity_management'', ''ocsf_event_log_activity'', ''ocsf_file_activity'', ''ocsf_http_activity'',
           ''ocsf_network_activity'', ''ocsf_process_activity''} then Some Activity
      else None)"

subsection \<open>Semantic text\<close>

definition typed_names :: "'x projection_externals_scheme \<Rightarrow> leaf list \<Rightarrow> string list" where
  "typed_names E leaves =
     map (\<lambda>leaf. semantic_leaf_alias (leaf_name E (lf_path leaf)))
       (filter (\<lambda>leaf. \<not> contains ''.unmapped.'' (dotted_path E (lf_path leaf)) \<and> \<not> is_null (lf_value leaf)
          \<and> \<not> is_time E (lf_path leaf) \<and> \<not> is_volatile E (lf_path leaf)
          \<and> \<not> is_positional_raw_token E (lf_path leaf) \<and> \<not> is_semantic_noise E (lf_path leaf)) leaves)"

definition semantic_entry :: "'x projection_externals_scheme \<Rightarrow> string list \<Rightarrow> leaf \<Rightarrow> bool" where
  "semantic_entry E names leaf \<longleftrightarrow>
     \<not> is_null (lf_value leaf) \<and> \<not> is_time E (lf_path leaf) \<and> \<not> is_volatile E (lf_path leaf)
     \<and> \<not> is_positional_raw_token E (lf_path leaf) \<and> \<not> is_semantic_noise E (lf_path leaf)
     \<and> (\<not> is_identifier E (lf_path leaf) \<or> leaf_name E (lf_path leaf) \<in> set IDENTIFIER_PLACEHOLDERS)
     \<and> \<not> (contains ''.unmapped.'' (dotted_path E (lf_path leaf))
          \<and> semantic_leaf_alias (leaf_name E (lf_path leaf)) \<in> set names)"

definition semantic_entries :: "'x projection_externals_scheme \<Rightarrow> leaf list \<Rightarrow> leaf list" where
  "semantic_entries E leaves = filter (semantic_entry E (typed_names E leaves)) leaves"

definition MAX_FACET_TEXT_CHARS :: nat where
  "MAX_FACET_TEXT_CHARS = 1024"

definition MAX_SEMANTIC_TEXT_CHARS :: nat where
  "MAX_SEMANTIC_TEXT_CHARS = 3072"

definition facet_text :: "'x projection_externals_scheme \<Rightarrow> leaf list \<Rightarrow> field_role \<Rightarrow> string" where
  "facet_text E leaves wanted =
     bounded (join_with ''; ''
       (map (\<lambda>leaf. label (lf_path leaf) @ ''='' @ semantic_value E (lf_path leaf) (lf_value leaf))
         (filter (\<lambda>leaf. role E (lf_path leaf) = wanted) leaves))) MAX_FACET_TEXT_CHARS"

definition facet_part :: "string \<times> string \<times> nat \<Rightarrow> string list" where
  "facet_part = (\<lambda>(name, text, budget). if text = [] then [] else [name @ '': '' @ bounded text budget])"

definition compose_semantic_text :: "projected_kind \<Rightarrow> string \<Rightarrow> semantic_facets \<Rightarrow> bool \<Rightarrow> string" where
  "compose_semantic_text kind relation facets unavailable =
     join_with '' | ''
       ([''kind: '' @ semantic_label kind, ''relation: '' @ bounded relation 128]
        @ concat (map facet_part
            [(''outcome'', sf_outcome facets, 768), (''action'', sf_action facets, 640),
             (''target'', sf_target facets, 640), (''context'', sf_context facets, 768)])
        @ (if unavailable then [''content: unavailable typed event''] else []))"

subsection \<open>Event time\<close>

definition time_key :: "leaf \<Rightarrow> nat \<times> string" where
  "time_key leaf = (length (filter (\<lambda>c. c = CHR ''.'') (lf_path leaf)), lf_path leaf)"

text \<open>\<open>min_by_key\<close> keeps the first of equal elements.\<close>

fun min_leaf :: "leaf list \<Rightarrow> leaf option" where
  "min_leaf [] = None"
| "min_leaf (l # ls) =
     (case min_leaf ls of None \<Rightarrow> Some l | Some m \<Rightarrow> Some (if time_key l \<le> time_key m then l else m))"

text \<open>\<open>as i64\<close>, \<open>round\<close> and \<open>as u32\<close>.\<close>

fun d_to_i64 :: "f64 \<Rightarrow> int" where
  "d_to_i64 (Finite a) = max (- (2 ^ 63)) (min (2 ^ 63 - 1) (sgn a * (\<bar>a\<bar> div int d_unit)))"
| "d_to_i64 (Infinite s) = (if s then - (2 ^ 63) else 2 ^ 63 - 1)"
| "d_to_i64 Nan = 0"

fun d_round_u32 :: "f64 \<Rightarrow> nat" where
  "d_round_u32 (Finite a) = min (2 ^ 32 - 1) ((2 * nat a + d_unit) div (2 * d_unit))"
| "d_round_u32 (Infinite s) = (if s then 0 else 2 ^ 32 - 1)"
| "d_round_u32 Nan = 0"

definition epoch_seconds :: "f64 \<Rightarrow> f64" where
  "epoch_seconds seconds =
     (let magnitude = d_abs seconds
      in if d_le (d_of_nat (10 ^ 17)) magnitude then d_div seconds (d_of_nat (10 ^ 9))
         else if d_le (d_of_nat (10 ^ 14)) magnitude then d_div seconds (d_of_nat (10 ^ 6))
         else if d_le (d_of_nat (10 ^ 11)) magnitude then d_div seconds (d_of_nat (10 ^ 3))
         else seconds)"

definition numeric_moment :: "'x projection_externals_scheme \<Rightarrow> value \<Rightarrow> moment option" where
  "numeric_moment E v =
     (case (case v of VNumber n \<Rightarrow> Some (as_f64 n) | VString text \<Rightarrow> parse_f64 E (trim text) | _ \<Rightarrow> None) of
        None \<Rightarrow> None
      | Some x \<Rightarrow>
          let seconds = epoch_seconds x; whole = d_to_i64 (d_trunc seconds);
              nanos = d_round_u32 (d_mul (d_abs (d_fract seconds)) (d_of_nat (10 ^ 9)))
          in timestamp_opt E whole nanos)"

definition normalize_time ::
    "'x projection_externals_scheme \<Rightarrow> value \<Rightarrow> string option \<times> event_time_availability" where
  "normalize_time E v =
     (case numeric_moment E v of
        Some stamp \<Rightarrow> (Some (to_rfc3339_millis E stamp), Available)
      | None \<Rightarrow>
          case v of
            VString text \<Rightarrow>
              (case parse_from_rfc3339 E (trim text) of
                 Some utc \<Rightarrow>
                   (Some (if snd utc = 0 then to_rfc3339_secs E utc else to_rfc3339 E utc), Available)
               | None \<Rightarrow> (Some (bounded (trim text) MAX_VALUE_CHARS), PresentUnparsed))
          | _ \<Rightarrow> (Some (print_value E v), PresentUnparsed))"

definition TIME_NAMES :: "string list" where
  "TIME_NAMES = [''time'', ''event_time'', ''timestamp'', ''observed_time'', ''start_time'']"

fun event_time_from ::
    "'x projection_externals_scheme \<Rightarrow> leaf list \<Rightarrow> string list \<Rightarrow> string option \<times> event_time_availability" where
  "event_time_from E leaves [] = (None, Missing)"
| "event_time_from E leaves (name # names) =
     (case min_leaf (filter (\<lambda>leaf. leaf_name E (lf_path leaf) = name) leaves) of
        Some leaf \<Rightarrow> normalize_time E (lf_value leaf)
      | None \<Rightarrow> event_time_from E leaves names)"

definition event_time ::
    "'x projection_externals_scheme \<Rightarrow> leaf list \<Rightarrow> string option \<times> event_time_availability" where
  "event_time E leaves = event_time_from E leaves TIME_NAMES"

end
