(* ===== verification/Projection_Exact.thy ===== *)
theory Projection_Exact
  imports Projection "HOL-Library.Multiset"
begin

text \<open>
  The exact attributes of an occurrence (\<open>exact_visit\<close> of \<open>crates/rag-projection/src/lib.rs\<close>):
  the scalars of the event with their JSON pointers, and an account of what was left out. The
  lemmas relate the visit to the list of all scalars of the event.
\<close>

record exact_attribute =
  ea_namespace :: string
  ea_path :: string
  ea_value :: "value"

record omission_count =
  oc_reason :: string
  oc_count :: nat

record exact_attribute_projection =
  ep_selected_count :: nat
  ep_scalars_scanned :: nat
  ep_known_omitted_scalar_count :: nat
  ep_omitted_subtree_count :: nat
  ep_omission_counts :: "omission_count list"
  ep_scan_truncated :: bool
  ep_source_hydration_required :: bool

definition MAX_EXACT_ATTRIBUTES :: nat where
  "MAX_EXACT_ATTRIBUTES = 256"

definition MAX_EXACT_SCALARS_SCANNED :: nat where
  "MAX_EXACT_SCALARS_SCANNED = 512"

definition MAX_EXACT_LIST_ITEMS :: nat where
  "MAX_EXACT_LIST_ITEMS = 64"

definition MAX_EXACT_STRING_UTF8_BYTES :: nat where
  "MAX_EXACT_STRING_UTF8_BYTES = 1024"

definition MAX_EXACT_PATH_CHARS :: nat where
  "MAX_EXACT_PATH_CHARS = 1024"

definition MAX_JCS_SAFE_INTEGER :: int where
  "MAX_JCS_SAFE_INTEGER = 2 ^ 53 - 1"

subsection \<open>The visit\<close>

record exact_state =
  xs_attributes :: "exact_attribute list"
  xs_omissions :: "(string, nat) btree"
  xs_scanned :: nat
  xs_truncated :: bool
  xs_omitted_subtrees :: nat

definition omit :: "string \<Rightarrow> exact_state \<Rightarrow> exact_state" where
  "omit reason st =
     st\<lparr>xs_omissions := bt_insert reason
          (case bt_get (xs_omissions st) reason of None \<Rightarrow> 1 | Some n \<Rightarrow> n + 1) (xs_omissions st)\<rparr>"

definition unsafe_integer :: "value \<Rightarrow> bool" where
  "unsafe_integer v \<longleftrightarrow>
     (case v of
        VNumber n \<Rightarrow> (case as_i64 n of
            Some i \<Rightarrow> \<not> (- MAX_JCS_SAFE_INTEGER \<le> i \<and> i \<le> MAX_JCS_SAFE_INTEGER) | None \<Rightarrow> False)
      | _ \<Rightarrow> False)"

text \<open>Why a scalar is left out, the checks in the order of the code.\<close>

definition omission_reason ::
    "'x projection_externals_scheme \<Rightarrow> value \<Rightarrow> string \<Rightarrow> string \<Rightarrow> exact_state \<Rightarrow> string option" where
  "omission_reason E scalar pointer semantic_path st =
     (if is_null scalar then Some ''null_value''
      else if MAX_EXACT_PATH_CHARS < char_count pointer then Some ''oversize_path''
      else if is_secret E semantic_path then Some ''secret_field''
      else if is_free_text E semantic_path then Some ''free_text_field''
      else if (case as_str scalar of Some text \<Rightarrow> MAX_EXACT_STRING_UTF8_BYTES < length text | None \<Rightarrow> False)
      then Some ''oversize_string''
      else if (case as_str scalar of Some text \<Rightarrow> has_unsafe_credential_text E text | None \<Rightarrow> False)
      then Some ''unsafe_credential_value''
      else if unsafe_integer scalar then Some ''non_jcs_safe_integer''
      else if MAX_EXACT_ATTRIBUTES \<le> length (xs_attributes st) then Some ''attribute_limit''
      else None)"

definition visit_scalar ::
    "'x projection_externals_scheme \<Rightarrow> value \<Rightarrow> string \<Rightarrow> string \<Rightarrow> exact_state \<Rightarrow> exact_state" where
  "visit_scalar E scalar pointer semantic_path st =
     (let st' = st\<lparr>xs_scanned := xs_scanned st + 1\<rparr>
      in case omission_reason E scalar pointer semantic_path st' of
           Some reason \<Rightarrow> omit reason st'
         | None \<Rightarrow> st'\<lparr>xs_attributes := xs_attributes st'
             @ [\<lparr>ea_namespace = ''ocsf'', ea_path = pointer, ea_value = scalar\<rparr>]\<rparr>)"

definition escape :: "string \<Rightarrow> string" where
  "escape key = replace_char (CHR ''/'') ''~1'' (replace_char (CHR ''~'') ''~0'' key)"

definition sorted_rows :: "(string \<times> value) list \<Rightarrow> (string \<times> value) list" where
  "sorted_rows entries = sort_key fst entries"

lemma set_sorted_rows [simp]: "set (sorted_rows entries) = set entries"
  by (simp add: sorted_rows_def)

function (sequential) exact_visit ::
    "'x projection_externals_scheme \<Rightarrow> value \<Rightarrow> string \<Rightarrow> string \<Rightarrow> exact_state \<Rightarrow> exact_state" where
  "exact_visit E v pointer semantic_path st =
     (if MAX_EXACT_SCALARS_SCANNED \<le> xs_scanned st
      then st\<lparr>xs_truncated := True, xs_omitted_subtrees := xs_omitted_subtrees st + 1\<rparr>
      else case v of
        VObject entries \<Rightarrow>
          fold (\<lambda>(key, child). exact_visit E child (pointer @ ''/'' @ escape key) (field_path semantic_path key))
            (sorted_rows entries) st
      | VArray items \<Rightarrow>
          let st' = fold (\<lambda>(index, child).
                exact_visit E child (pointer @ ''/'' @ nat_digits index) (item_path semantic_path index))
                (zip [0..<length items] (take MAX_EXACT_LIST_ITEMS items)) st
          in if MAX_EXACT_LIST_ITEMS < length items
             then st'\<lparr>xs_truncated := True,
                      xs_omitted_subtrees := xs_omitted_subtrees st' + (length items - MAX_EXACT_LIST_ITEMS)\<rparr>
             else st'
      | scalar \<Rightarrow> visit_scalar E scalar pointer semantic_path st)"
  by pat_completeness auto
termination
  by (relation "measure (\<lambda>(E, v, pointer, path, st). size v)") (auto simp: termination_simp)

declare exact_visit.simps [simp del]

definition exact_attribute_subset ::
    "'x projection_externals_scheme \<Rightarrow> value \<Rightarrow> exact_attribute list \<times> exact_attribute_projection" where
  "exact_attribute_subset E typed_event =
     (let st = exact_visit E typed_event [] [] \<lparr>xs_attributes = [], xs_omissions = [], xs_scanned = 0,
                 xs_truncated = False, xs_omitted_subtrees = 0\<rparr>;
          attributes = sort_key ea_path (xs_attributes st);
          omission_counts = map (\<lambda>(reason, n). \<lparr>oc_reason = reason, oc_count = n\<rparr>) (xs_omissions st);
          known_omitted_scalar_count = sum_list (map oc_count omission_counts)
      in (attributes,
          \<lparr>ep_selected_count = length attributes, ep_scalars_scanned = xs_scanned st,
           ep_known_omitted_scalar_count = known_omitted_scalar_count,
           ep_omitted_subtree_count = xs_omitted_subtrees st, ep_omission_counts = omission_counts,
           ep_scan_truncated = xs_truncated st,
           ep_source_hydration_required = (0 < known_omitted_scalar_count \<or> xs_truncated st)\<rparr>))"

subsection \<open>Every scalar of a value\<close>

lemma size_zip_item [termination_simp]:
  "(index, child) \<in> set (zip ks items) \<Longrightarrow> size child < Suc (size_list size items)"
  using size_item [of index child ks "length items" items] by simp

text \<open>The scalars with their JSON pointers, in the order of the visit.\<close>

function (sequential) scalars :: "value \<Rightarrow> string \<Rightarrow> (string \<times> value) list" where
  "scalars v pointer =
     (case v of
        VObject entries \<Rightarrow>
          concat (map (\<lambda>(key, child). scalars child (pointer @ ''/'' @ escape key)) (sorted_rows entries))
      | VArray items \<Rightarrow>
          concat (map (\<lambda>(index, child). scalars child (pointer @ ''/'' @ nat_digits index))
            (zip [0..<length items] items))
      | scalar \<Rightarrow> [(pointer, scalar)])"
  by pat_completeness auto
termination
  by (relation "measure (\<lambda>(v, pointer). size v)") (auto simp: termination_simp)

declare scalars.simps [simp del]

subsection \<open>The account of a visit\<close>

definition omitted :: "exact_state \<Rightarrow> nat" where
  "omitted st = sum_list (map snd (xs_omissions st))"

definition exact_ok :: "exact_state \<Rightarrow> bool" where
  "exact_ok st \<longleftrightarrow>
     bt_ok (xs_omissions st) \<and> xs_scanned st \<le> MAX_EXACT_SCALARS_SCANNED \<and>
     length (xs_attributes st) \<le> MAX_EXACT_ATTRIBUTES \<and>
     length (xs_attributes st) + omitted st = xs_scanned st"

definition attribute_ok :: "'x projection_externals_scheme \<Rightarrow> exact_attribute \<Rightarrow> bool" where
  "attribute_ok E a \<longleftrightarrow>
     ea_namespace a = ''ocsf'' \<and> char_count (ea_path a) \<le> MAX_EXACT_PATH_CHARS \<and>
     \<not> is_null (ea_value a) \<and> \<not> unsafe_integer (ea_value a) \<and>
     (\<forall>text. as_str (ea_value a) = Some text \<longrightarrow>
        length text \<le> MAX_EXACT_STRING_UTF8_BYTES \<and> \<not> has_unsafe_credential_text E text)"

definition entry_of :: "exact_attribute \<Rightarrow> string \<times> value" where
  "entry_of a = (ea_path a, ea_value a)"

text \<open>A visit of the scalars \<open>S\<close> keeps some of them, all when nothing is left out.\<close>

definition visited ::
    "'x projection_externals_scheme \<Rightarrow> (string \<times> value) list \<Rightarrow> exact_state \<Rightarrow> exact_state \<Rightarrow> bool" where
  "visited E S st st' \<longleftrightarrow>
     exact_ok st' \<and> omitted st \<le> omitted st' \<and> (xs_truncated st \<longrightarrow> xs_truncated st') \<and>
     (\<exists>A. xs_attributes st' = xs_attributes st @ A \<and> subseq (map entry_of A) S \<and> list_all (attribute_ok E) A \<and>
        (\<not> xs_truncated st' \<and> omitted st' = omitted st \<longrightarrow> map entry_of A = S))"

lemma visited_refl: "exact_ok st \<Longrightarrow> visited E [] st st"
  by (simp add: visited_def)

lemma visited_append:
  assumes "visited E S st st'" "visited E T st' st''"
  shows "visited E (S @ T) st st''"
proof -
  from assms(1) obtain A where A: "xs_attributes st' = xs_attributes st @ A" "subseq (map entry_of A) S"
    "list_all (attribute_ok E) A" "\<not> xs_truncated st' \<and> omitted st' = omitted st \<longrightarrow> map entry_of A = S"
    and s: "omitted st \<le> omitted st'" "xs_truncated st \<longrightarrow> xs_truncated st'"
    by (auto simp: visited_def)
  from assms(2) obtain B where B: "xs_attributes st'' = xs_attributes st' @ B" "subseq (map entry_of B) T"
    "list_all (attribute_ok E) B" "\<not> xs_truncated st'' \<and> omitted st'' = omitted st' \<longrightarrow> map entry_of B = T"
    and t: "exact_ok st''" "omitted st' \<le> omitted st''" "xs_truncated st' \<longrightarrow> xs_truncated st''"
    by (auto simp: visited_def)
  show ?thesis
    unfolding visited_def
    using A B s t by (intro conjI exI [of _ "A @ B"]) (auto intro: list_emb_append_mono)
qed

lemma visited_fold:
  "(\<And>x st. x \<in> set xs \<Longrightarrow> exact_ok st \<Longrightarrow> visited E (g x) st (f x st)) \<Longrightarrow> exact_ok st \<Longrightarrow>
     visited E (concat (map g xs)) st (fold f xs st)"
proof (induction xs arbitrary: st)
  case (Cons x xs)
  then have x: "visited E (g x) st (f x st)" by simp
  then have "exact_ok (f x st)" by (simp add: visited_def)
  with Cons have "visited E (concat (map g xs)) (f x st) (fold f xs (f x st))" by simp
  from visited_append [OF x this] show ?case by simp
qed (simp add: visited_refl)

text \<open>A truncated visit need only keep some of the scalars.\<close>

lemma visited_truncated:
  assumes "visited E S st st'" "prefix S T"
  shows "visited E T st (st'\<lparr>xs_truncated := True, xs_omitted_subtrees := n\<rparr>)"
proof -
  from assms(1) obtain A where A: "xs_attributes st' = xs_attributes st @ A" "subseq (map entry_of A) S"
    "list_all (attribute_ok E) A" and o: "exact_ok st'" "omitted st \<le> omitted st'"
    by (auto simp: visited_def)
  have "subseq (map entry_of A) T" using A(2) prefix_imp_subseq [OF assms(2)] by (rule subseq_order.order_trans)
  with A o show ?thesis by (auto simp: visited_def exact_ok_def omitted_def)
qed

lemma omitted_omit:
  assumes "bt_ok (xs_omissions st)"
  shows "omitted (omit reason st) = omitted st + 1" "bt_ok (xs_omissions (omit reason st))"
    "xs_attributes (omit reason st) = xs_attributes st" "xs_scanned (omit reason st) = xs_scanned st"
    "xs_truncated (omit reason st) = xs_truncated st"
  using bt_insert_sum [OF assms, of reason "case bt_get (xs_omissions st) reason of None \<Rightarrow> 1 | Some n \<Rightarrow> n + 1"]
    bt_insert_ok [OF assms]
  by (auto simp: omitted_def omit_def split: option.splits)

lemma kept_attribute:
  "omission_reason E scalar pointer path st = None \<Longrightarrow>
     attribute_ok E \<lparr>ea_namespace = ''ocsf'', ea_path = pointer, ea_value = scalar\<rparr> \<and>
     length (xs_attributes st) < MAX_EXACT_ATTRIBUTES"
  by (auto simp: omission_reason_def attribute_ok_def split: if_splits)

lemma visited_scalar:
  assumes "exact_ok st" "xs_scanned st < MAX_EXACT_SCALARS_SCANNED"
  shows "visited E [(pointer, scalar)] st (visit_scalar E scalar pointer path st)"
proof -
  define st1 where "st1 = st\<lparr>xs_scanned := xs_scanned st + 1\<rparr>"
  have st1: "bt_ok (xs_omissions st1)" "xs_attributes st1 = xs_attributes st" "omitted st1 = omitted st"
    "xs_scanned st1 = xs_scanned st + 1" "xs_truncated st1 = xs_truncated st"
    using assms by (simp_all add: st1_def exact_ok_def omitted_def)
  have visit: "visit_scalar E scalar pointer path st =
      (case omission_reason E scalar pointer path st1 of
         Some reason \<Rightarrow> omit reason st1
       | None \<Rightarrow> st1\<lparr>xs_attributes := xs_attributes st1
           @ [\<lparr>ea_namespace = ''ocsf'', ea_path = pointer, ea_value = scalar\<rparr>]\<rparr>)"
    by (simp only: visit_scalar_def Let_def st1_def)
  show ?thesis
  proof (cases "omission_reason E scalar pointer path st1")
    case None
    with kept_attribute [OF None] assms st1 show ?thesis
      by (simp add: visit visited_def exact_ok_def omitted_def entry_of_def)
  next
    case (Some reason)
    with omitted_omit [OF st1(1), of reason] assms st1 show ?thesis
      by (simp add: visit visited_def exact_ok_def)
  qed
qed

lemma visited_exact_visit:
  "exact_ok st \<Longrightarrow> visited E (scalars v pointer) st (exact_visit E v pointer path st)"
proof (induction E v pointer path st rule: exact_visit.induct)
  case (1 E v pointer path st)
  show ?case
  proof (cases "MAX_EXACT_SCALARS_SCANNED \<le> xs_scanned st")
    case True
    have "visited E [] st st" using "1.prems" by (rule visited_refl)
    from visited_truncated [OF this, of "scalars v pointer"] True show ?thesis
      by (simp add: exact_visit.simps [of E v])
  next
    case False
    show ?thesis
    proof (cases v)
      case (VObject entries)
      have "visited E (concat (map (\<lambda>(key, child). scalars child (pointer @ ''/'' @ escape key)) (sorted_rows entries)))
          st (fold (\<lambda>(key, child). exact_visit E child (pointer @ ''/'' @ escape key) (field_path path key))
            (sorted_rows entries) st)"
        using "1.IH"(2) [OF False VObject] "1.prems" by (intro visited_fold) (auto split: prod.splits)
      then show ?thesis
        using False by (simp add: VObject exact_visit.simps [of E "VObject entries"] scalars.simps [of "VObject entries"])
    next
      case (VArray items)
      define g where "g = (\<lambda>(index, child). scalars child (pointer @ ''/'' @ nat_digits index))"
      let ?f = "\<lambda>(index, child). exact_visit E child (pointer @ ''/'' @ nat_digits index) (item_path path index)"
      have v: "visited E (concat (map g (zip [0..<length items] (take MAX_EXACT_LIST_ITEMS items)))) st
          (fold ?f (zip [0..<length items] (take MAX_EXACT_LIST_ITEMS items)) st)"
        using "1.IH"(1) [OF False VArray] "1.prems" unfolding g_def
        by (intro visited_fold) (auto split: prod.splits)
      have sc: "scalars v pointer = concat (map g (zip [0..<length items] items))"
        by (simp add: VArray scalars.simps [of "VArray items"] g_def)
      show ?thesis
      proof (cases "MAX_EXACT_LIST_ITEMS < length items")
        case True
        have "zip [0..<length items] (take MAX_EXACT_LIST_ITEMS items) =
            take MAX_EXACT_LIST_ITEMS (zip [0..<length items] items)"
          by (rule nth_equalityI) simp_all
        then have "prefix (concat (map g (zip [0..<length items] (take MAX_EXACT_LIST_ITEMS items)))) (scalars v pointer)"
          unfolding sc by (metis append_take_drop_id concat_append map_append prefixI)
        from visited_truncated [OF v this] True False show ?thesis
          by (simp add: VArray exact_visit.simps [of E "VArray items"] Let_def)
      next
        case F: False
        with v False sc show ?thesis by (simp add: VArray exact_visit.simps [of E "VArray items"] Let_def)
      qed
    qed (use False "1.prems" in \<open>simp_all add: exact_visit.simps [of E] scalars.simps visited_scalar\<close>)
  qed
qed

subsection \<open>Pointers\<close>

text \<open>A JSON pointer (RFC 6901) and the part of a value it denotes.\<close>

fun unescape :: "string \<Rightarrow> string" where
  "unescape (a # b # cs) =
     (if a = CHR ''~'' \<and> b = CHR ''1'' then CHR ''/'' # unescape cs
      else if a = CHR ''~'' \<and> b = CHR ''0'' then CHR ''~'' # unescape cs
      else a # unescape (b # cs))"
| "unescape s = s"

fun resolve :: "value \<Rightarrow> string list \<Rightarrow> value option" where
  "resolve v [] = Some v"
| "resolve (VObject entries) (t # ts) =
     (case map_of entries t of None \<Rightarrow> None | Some child \<Rightarrow> resolve child ts)"
| "resolve (VArray items) (t # ts) =
     (case map_of (zip (map nat_digits [0..<length items]) items) t of
        None \<Rightarrow> None | Some child \<Rightarrow> resolve child ts)"
| "resolve _ _ = None"

definition pointer_get :: "value \<Rightarrow> string \<Rightarrow> value option" where
  "pointer_get v pointer = resolve v (map unescape (tl (str_split (CHR ''/'') pointer)))"

fun distinct_keys :: "value \<Rightarrow> bool" where
  "distinct_keys (VObject entries) = (distinct (map fst entries) \<and> list_all (distinct_keys \<circ> snd) entries)"
| "distinct_keys (VArray items) = list_all distinct_keys items"
| "distinct_keys _ = True"

lemma escape_Nil [simp]: "escape [] = []"
  by (simp add: escape_def replace_char_def)

lemma escape_Cons:
  "escape (c # s) = (if c = CHR ''~'' then ''~0'' else if c = CHR ''/'' then ''~1'' else [c]) @ escape s"
  by (simp add: escape_def replace_char_def)

lemma unescape_Cons: "c \<noteq> CHR ''~'' \<Longrightarrow> unescape (c # s) = c # unescape s"
  by (cases s) simp_all

lemma unescape_escape: "unescape (escape s) = s"
  by (induction s) (simp_all add: escape_Cons unescape_Cons)

lemma escape_no_slash: "CHR ''/'' \<notin> set (escape s)"
  by (induction s) (simp_all add: escape_Cons)

lemma digits_plain: "CHR ''/'' \<notin> set (nat_digits n) \<and> CHR ''~'' \<notin> set (nat_digits n)"
proof -
  have d: "x \<in> set (nat_digits n) \<Longrightarrow> is_ascii_digit x" for x
    using nat_digits_digits [of n] by (simp add: list_all_iff)
  show ?thesis using d [of "CHR ''/''"] d [of "CHR ''~''"] by (auto simp: is_ascii_digit_def less_eq_char_def)
qed

lemma unescape_plain: "CHR ''~'' \<notin> set s \<Longrightarrow> unescape s = s"
  by (induction s) (auto simp: unescape_Cons)

lemma str_split_step: "d \<notin> set t \<Longrightarrow> str_split d (t @ d # s) = t # str_split d s"
  by (induction t) auto

lemma str_split_plain: "d \<notin> set t \<Longrightarrow> str_split d t = [t]"
  by (induction t) auto

definition pointer_of :: "string list \<Rightarrow> string" where
  "pointer_of ts = concat (map (\<lambda>t. CHR ''/'' # t) ts)"

lemma split_pointer_of:
  "list_all (\<lambda>t. CHR ''/'' \<notin> set t) ts \<Longrightarrow> CHR ''/'' \<notin> set h \<Longrightarrow>
     str_split (CHR ''/'') (h @ pointer_of ts) = h # ts"
proof (induction ts arbitrary: h)
  case (Cons t ts)
  then show ?case by (simp add: pointer_of_def str_split_step)
qed (simp add: pointer_of_def str_split_plain)

lemma scalars_resolve:
  "distinct_keys v \<Longrightarrow> (p, s) \<in> set (scalars v pointer) \<Longrightarrow>
     \<exists>ts. p = pointer @ pointer_of ts \<and> list_all (\<lambda>t. CHR ''/'' \<notin> set t) ts \<and>
       resolve v (map unescape ts) = Some s"
proof (induction v pointer arbitrary: p s rule: scalars.induct)
  case (1 v pointer)
  have leaf: "\<exists>ts. pointer = pointer @ pointer_of ts \<and> list_all (\<lambda>t. CHR ''/'' \<notin> set t) ts \<and>
      resolve v (map unescape ts) = Some v"
    by (rule exI [of _ "[]"]) (simp add: pointer_of_def)
  show ?case
  proof (cases v)
    case (VObject entries)
    then obtain key child where c: "(key, child) \<in> set entries"
      and m: "(p, s) \<in> set (scalars child (pointer @ ''/'' @ escape key))"
      using "1.prems"(2) by (auto simp: scalars.simps [of "VObject entries"])
    then have "distinct_keys child" and dist: "distinct (map fst entries)"
      using "1.prems"(1) VObject by (auto simp: list_all_iff)
    with "1.IH"(2) [OF VObject _ refl] c m obtain ts where
      ts: "p = (pointer @ ''/'' @ escape key) @ pointer_of ts" "list_all (\<lambda>t. CHR ''/'' \<notin> set t) ts"
        "resolve child (map unescape ts) = Some s" by (metis set_sorted_rows)
    have "map_of entries key = Some child" using c dist by (simp add: map_of_eq_Some_iff)
    with ts show ?thesis
      by (intro exI [of _ "escape key # ts"])
        (simp add: VObject pointer_of_def escape_no_slash unescape_escape)
  next
    case (VArray items)
    then obtain index child where c: "(index, child) \<in> set (zip [0..<length items] items)"
      and m: "(p, s) \<in> set (scalars child (pointer @ ''/'' @ nat_digits index))"
      using "1.prems"(2) by (auto simp: scalars.simps [of "VArray items"])
    then have "distinct_keys child" using "1.prems"(1) VArray by (auto simp: list_all_iff dest: set_zip_rightD)
    with "1.IH"(1) [OF VArray c refl _ m] obtain ts where
      ts: "p = (pointer @ ''/'' @ nat_digits index) @ pointer_of ts" "list_all (\<lambda>t. CHR ''/'' \<notin> set t) ts"
        "resolve child (map unescape ts) = Some s" by blast
    have inj: "inj_on nat_digits (set [0..<length items])"
      by (rule inj_on_inverseI [where g = digits_value]) (simp add: nat_digits_value)
    have "map_of (zip (map nat_digits [0..<length items]) items) (nat_digits index) = Some child"
    proof -
      have "distinct (map fst (zip (map nat_digits [0..<length items]) items))"
        using inj by (simp add: distinct_map)
      moreover have "(nat_digits index, child) \<in> set (zip (map nat_digits [0..<length items]) items)"
        using c by (auto simp: zip_map1)
      ultimately show ?thesis by (simp add: map_of_eq_Some_iff)
    qed
    with ts show ?thesis
      by (intro exI [of _ "nat_digits index # ts"])
        (simp add: VArray pointer_of_def digits_plain unescape_plain)
  qed (use "1.prems"(2) leaf in \<open>auto simp: scalars.simps\<close>)
qed

lemma scalars_pointer:
  "distinct_keys v \<Longrightarrow> (p, s) \<in> set (scalars v []) \<Longrightarrow> pointer_get v p = Some s"
  using scalars_resolve [of v p s "[]"] split_pointer_of [of _ "[]"] by (auto simp: pointer_get_def)

text \<open>
  C7: The exact attributes of an event are true and accounted for: each is a scalar of the event,
  found at its JSON pointer, never null, never longer than the limits, without credentials in its
  text; they are sorted by pointer, at most 256; every scanned scalar is either selected or counted
  as omitted; and unless the projection asks for the source to be read, they are all the scalars of
  the event.
\<close>

theorem exact_attributes_accounted:
  assumes "exact_attribute_subset E v = (attributes, projection)" and "distinct_keys v"
  shows "list_all (\<lambda>a. pointer_get v (ea_path a) = Some (ea_value a) \<and> attribute_ok E a) attributes \<and>
    sorted (map ea_path attributes) \<and> length attributes \<le> 256 \<and>
    ep_selected_count projection = length attributes \<and>
    ep_selected_count projection + ep_known_omitted_scalar_count projection = ep_scalars_scanned projection \<and>
    ep_scalars_scanned projection \<le> 512 \<and>
    (\<not> ep_source_hydration_required projection \<longrightarrow> mset (map entry_of attributes) = mset (scalars v []))"
proof -
  let ?s0 = "\<lparr>xs_attributes = [], xs_omissions = [], xs_scanned = 0, xs_truncated = False, xs_omitted_subtrees = 0\<rparr>"
  define st where "st = exact_visit E v [] [] ?s0"
  have "exact_ok ?s0" by (simp add: exact_ok_def omitted_def bt_ok_def)
  from visited_exact_visit [OF this, of E v "[]" "[]"] have vis: "visited E (scalars v []) ?s0 st"
    by (simp add: st_def)
  then have sub: "subseq (map entry_of (xs_attributes st)) (scalars v [])"
    and aok: "list_all (attribute_ok E) (xs_attributes st)" and ok: "exact_ok st"
    and all: "\<not> xs_truncated st \<and> omitted st = 0 \<longrightarrow> map entry_of (xs_attributes st) = scalars v []"
    by (auto simp: visited_def omitted_def)
  have om: "sum_list (map oc_count (map (\<lambda>(reason, n). \<lparr>oc_reason = reason, oc_count = n\<rparr>) (xs_omissions st))) = omitted st"
    by (simp add: omitted_def comp_def case_prod_unfold)
  note om = om [unfolded map_map]
  from assms(1) have attrs: "attributes = sort_key ea_path (xs_attributes st)"
    and proj: "ep_selected_count projection = length attributes" "ep_scalars_scanned projection = xs_scanned st"
      "ep_known_omitted_scalar_count projection = omitted st"
      "ep_source_hydration_required projection = (0 < omitted st \<or> xs_truncated st)"
    by (auto simp: exact_attribute_subset_def Let_def om simp flip: st_def)
  have len: "length attributes = length (xs_attributes st)" by (simp add: attrs)
  have "pointer_get v (ea_path a) = Some (ea_value a) \<and> attribute_ok E a" if "a \<in> set attributes" for a
  proof -
    have a: "a \<in> set (xs_attributes st)" using that by (simp add: attrs)
    then have "entry_of a \<in> set (map entry_of (xs_attributes st))" by simp
    with sub have "entry_of a \<in> set (scalars v [])" by (rule list_emb_set [THEN bexE]) auto
    with a aok show ?thesis using scalars_pointer [OF assms(2)] by (simp add: entry_of_def list_all_iff)
  qed
  moreover have "sorted (map ea_path attributes)" by (simp add: attrs)
  moreover have "mset (map entry_of attributes) = mset (map entry_of (xs_attributes st))" by (simp add: attrs)
  moreover have "omitted st = 0 \<and> \<not> xs_truncated st \<longrightarrow> mset (map entry_of (xs_attributes st)) = mset (scalars v [])"
    using all by (metis (no_types))
  ultimately show ?thesis
    using ok proj len
    by (simp add: list_all_iff exact_ok_def MAX_EXACT_ATTRIBUTES_def MAX_EXACT_SCALARS_SCANNED_def)
qed

end
