(* ===== verification/Projection_Core.thy ===== *)
theory Projection_Core
  imports Projection_Exact
begin

text \<open>
  The entry points of \<open>crates/rag-projection/src/lib.rs\<close>: \<open>project\<close>, its view for the document
  census, its view for event times, and the command-focused projection.
\<close>

definition PROJECTION_SCHEMA_VERSION :: string where
  "PROJECTION_SCHEMA_VERSION = ''livefire.rag.evidence-projection/1''"

record projected_document_summary =
  ps_document :: "projected_document option"
  ps_event_time :: "string option"
  ps_event_time_availability :: event_time_availability

record projected_occurrence =
  po_schema_version :: string
  po_event_id :: string
  po_support_ref :: string
  po_relation_name :: string
  po_document_kind :: projected_kind
  po_terminal_disposition :: terminal_disposition
  po_disposition_reason :: string
  po_semantic_group_id :: string
  po_semantic_group_sha256 :: string
  po_event_time :: "string option"
  po_event_time_availability :: event_time_availability
  po_exact_attributes :: "exact_attribute list"
  po_exact_attribute_projection :: exact_attribute_projection
  po_snapshot :: component_ref
  po_mapping_pack :: component_ref

record projection_output =
  pr_document :: "projected_document option"
  pr_occurrence :: projected_occurrence

record projection_core =
  co_typed_event :: "value"
  co_parse_error :: bool
  co_document_kind :: projected_kind
  co_semantic_group_id :: string
  co_semantic_group_sha256 :: string
  co_terminal_disposition :: terminal_disposition
  co_disposition_reason :: string
  co_document :: "projected_document option"
  co_event_time :: "string option"
  co_event_time_availability :: event_time_availability

subsection \<open>The core\<close>

definition digest_value :: "'x projection_externals_scheme \<Rightarrow> json \<Rightarrow> projection_error + string" where
  "digest_value E v = rbind (ok_or DigestPanic (jcs_bytes E v)) (\<lambda>canonical. Inr (sha256_hex E canonical))"

definition facets_of :: "'x projection_externals_scheme \<Rightarrow> leaf list \<Rightarrow> semantic_facets" where
  "facets_of E semantic_leaves =
     \<lparr>sf_action = facet_text E semantic_leaves ActionRole, sf_target = facet_text E semantic_leaves TargetRole,
      sf_context = facet_text E semantic_leaves ContextRole, sf_outcome = facet_text E semantic_leaves OutcomeRole\<rparr>"

definition group_material ::
    "'x projection_externals_scheme \<Rightarrow> string \<Rightarrow> projected_kind \<Rightarrow> semantic_facets \<Rightarrow> leaf list \<Rightarrow> json" where
  "group_material E relation_name kind facets semantic_leaves =
     JObj [(''schema_version'', JStr PROJECTION_SCHEMA_VERSION), (''relation_name'', JStr relation_name),
       (''document_kind'', JStr (kind_label kind)), (''action_text'', JStr (sf_action facets)),
       (''target_text'', JStr (sf_target facets)), (''context_text'', JStr (sf_context facets)),
       (''outcome_text'', JStr (sf_outcome facets)),
       (''semantic_leaves'', JArr (map (\<lambda>leaf. JArr [JStr (lf_path leaf),
            JStr (semantic_value E (lf_path leaf) (lf_value leaf))])
          (filter (\<lambda>leaf. \<not> is_positional_raw_token E (lf_path leaf) \<and> \<not> is_identifier E (lf_path leaf)
             \<and> \<not> is_secret E (lf_path leaf)) semantic_leaves)))]"

definition typed_event_of :: "'x projection_externals_scheme \<Rightarrow> string \<Rightarrow> value option" where
  "typed_event_of E typed_event_json =
     (case parse_value E typed_event_json of
        Some v \<Rightarrow> if is_object v then Some v else None
      | None \<Rightarrow> None)"

definition object_or_empty :: "value option \<Rightarrow> value" where
  "object_or_empty v = (case v of Some x \<Rightarrow> x | None \<Rightarrow> VObject [])"

definition derivation_only :: "string \<Rightarrow> bool" where
  "derivation_only relation_name \<longleftrightarrow> relation_name = ''ocsf_ext_livefire_system_metric''"

definition disposition :: "bool \<Rightarrow> string \<Rightarrow> terminal_disposition \<times> string" where
  "disposition parse_error relation_name =
     (if parse_error then (StructuredOnlyOccurrence, ''typed_event_unavailable'')
      else if relation_kind relation_name = None then (StructuredOnlyOccurrence, ''unknown_typed_relation'')
      else if derivation_only relation_name
      then (StructuredOnlyOccurrence, ''awaits_deterministic_window_derivation'')
      else (DirectSemanticDocument, ''projected_by_generic_typed_field_policy''))"

definition project_core ::
    "'x projection_externals_scheme \<Rightarrow> string \<Rightarrow> string \<Rightarrow> projection_context
     \<Rightarrow> projection_error + projection_core" where
  "project_core E relation_name typed_event_json context =
     (let parsed = typed_event_of E typed_event_json; parse_error = (parsed = None);
          typed_event = object_or_empty parsed; leaves = flattened_leaves E typed_event;
          kind = (case relation_kind relation_name of Some k \<Rightarrow> k | None \<Rightarrow> StructuredOnly);
          searchable = (relation_kind relation_name \<noteq> None \<and> \<not> derivation_only relation_name \<and> \<not> parse_error);
          semantic_leaves = semantic_entries E leaves; facets = facets_of E semantic_leaves
      in rbind (digest_value E (group_material E relation_name kind facets semantic_leaves)) (\<lambda>sha.
         Inr \<lparr>co_typed_event = typed_event, co_parse_error = parse_error, co_document_kind = kind,
              co_semantic_group_id = ''sha256:'' @ sha, co_semantic_group_sha256 = sha,
              co_terminal_disposition = fst (disposition parse_error relation_name),
              co_disposition_reason = snd (disposition parse_error relation_name),
              co_document =
                (if searchable
                 then Some \<lparr>pd_document_id = ''sha256:'' @ sha, pd_document_kind = kind,
                   pd_semantic_text = compose_semantic_text kind relation_name facets parse_error,
                   pd_facets = facets, pd_semantic_group_sha256 = sha,
                   pd_snapshot = pc_snapshot context, pd_mapping_pack = pc_mapping_pack context\<rparr>
                 else None),
              co_event_time = fst (event_time E leaves),
              co_event_time_availability = snd (event_time E leaves)\<rparr>))"

definition project ::
    "'x projection_externals_scheme \<Rightarrow> projection_input \<Rightarrow> projection_error + projection_output" where
  "project E input =
     rbind (project_core E (pi_relation_name input) (pi_typed_event_json input) (pi_context input)) (\<lambda>core.
     let (exact_attributes, exact0) = exact_attribute_subset E (co_typed_event core);
         exact_projection =
           (if co_parse_error core then exact0\<lparr>ep_source_hydration_required := True\<rparr> else exact0)
     in Inr \<lparr>pr_document = co_document core,
       pr_occurrence = \<lparr>po_schema_version = PROJECTION_SCHEMA_VERSION, po_event_id = pi_event_id input,
         po_support_ref = pi_support_ref input, po_relation_name = pi_relation_name input,
         po_document_kind = co_document_kind core, po_terminal_disposition = co_terminal_disposition core,
         po_disposition_reason = co_disposition_reason core, po_semantic_group_id = co_semantic_group_id core,
         po_semantic_group_sha256 = co_semantic_group_sha256 core, po_event_time = co_event_time core,
         po_event_time_availability = co_event_time_availability core,
         po_exact_attributes = exact_attributes, po_exact_attribute_projection = exact_projection,
         po_snapshot = pc_snapshot (pi_context input), po_mapping_pack = pc_mapping_pack (pi_context input)\<rparr>\<rparr>)"

definition project_document_summary ::
    "'x projection_externals_scheme \<Rightarrow> string \<Rightarrow> string \<Rightarrow> projection_context
     \<Rightarrow> projection_error + projected_document_summary" where
  "project_document_summary E relation_name typed_event_json context =
     rbind (project_core E relation_name typed_event_json context) (\<lambda>core.
     Inr \<lparr>ps_document = co_document core, ps_event_time = co_event_time core,
          ps_event_time_availability = co_event_time_availability core\<rparr>)"

definition project_event_time ::
    "'x projection_externals_scheme \<Rightarrow> string \<Rightarrow> string option \<times> event_time_availability" where
  "project_event_time E typed_event_json =
     event_time E (flattened_leaves E (object_or_empty (typed_event_of E typed_event_json)))"

subsection \<open>The command-focused projection\<close>

fun value_at :: "value \<Rightarrow> string list \<Rightarrow> value option" where
  "value_at v [] = Some v"
| "value_at (VObject entries) (key # path) =
     (case map_of entries key of None \<Rightarrow> None | Some child \<Rightarrow> value_at child path)"
| "value_at _ (key # path) = None"

definition bind_option :: "'a option \<Rightarrow> ('a \<Rightarrow> 'b option) \<Rightarrow> 'b option" where
  "bind_option x f = (case x of None \<Rightarrow> None | Some y \<Rightarrow> f y)"

definition or_else :: "'a option \<Rightarrow> 'a option \<Rightarrow> 'a option" where
  "or_else x y = (case x of None \<Rightarrow> y | Some z \<Rightarrow> Some z)"

definition str_at :: "value \<Rightarrow> string list \<Rightarrow> string option" where
  "str_at v path = bind_option (value_at v path) as_str"

definition eq_ignore_ascii_case :: "string \<Rightarrow> string \<Rightarrow> bool" where
  "eq_ignore_ascii_case a b \<longleftrightarrow> map to_ascii_lowercase a = map to_ascii_lowercase b"

text \<open>The value whose name stands at the same place of the names array.\<close>

definition named_data :: "(string \<times> value) list \<Rightarrow> string \<Rightarrow> string option" where
  "named_data entries wanted =
     bind_option (find (\<lambda>(key, _). ends_with ''/Data/@Name'' key) entries) (\<lambda>(_, v1).
     bind_option (as_array v1) (\<lambda>names.
     bind_option (find (\<lambda>(key, _). ends_with ''/Data/#text'' key) entries) (\<lambda>(_, v2).
     bind_option (as_array v2) (\<lambda>texts.
     bind_option (find (\<lambda>(index, name). case as_str name of Some s \<Rightarrow> eq_ignore_ascii_case s wanted | None \<Rightarrow> False)
                   (zip [0..<length names] names)) (\<lambda>(index, _).
     if index < length texts then as_str (texts ! index) else None)))))"

definition sysmon_named_command :: "value \<Rightarrow> string option" where
  "sysmon_named_command unmapped =
     bind_option (as_object unmapped) (\<lambda>entries. named_data entries ''CommandLine'')"

definition history_token :: "string \<times> value \<Rightarrow> (nat \<times> string) list" where
  "history_token = (\<lambda>(key, v).
     if starts_with ''$token/'' key
     then case (parse_u64 (drop 7 key), as_str v) of
            (Some ordinal, Some word) \<Rightarrow> [(ordinal, word)]
          | _ \<Rightarrow> []
     else [])"

definition bash_history_command :: "value \<Rightarrow> string option" where
  "bash_history_command unmapped =
     bind_option (as_object unmapped) (\<lambda>entries.
     let tokens = sort_key fst (concat (map history_token entries))
     in if tokens = [] then None else Some (str_join (CHR '' '') (map snd tokens)))"

fun first_str :: "value \<Rightarrow> string list list \<Rightarrow> string option" where
  "first_str v [] = None"
| "first_str v (path # paths) = or_else (str_at v path) (first_str v paths)"

definition osquery_command :: "value \<Rightarrow> string option" where
  "osquery_command unmapped =
     first_str unmapped [[''columns'', ''cmdline''], [''columns'', ''command_line''], [''cmdline''],
       [''command_line''], [''CommandLine'']]"

definition powershell_script_body :: "value \<Rightarrow> string option" where
  "powershell_script_body unmapped =
     bind_option (as_object unmapped) (\<lambda>entries.
     or_else (first_str unmapped [[''ScriptBlockText''], [''script_block''], [''script''], [''body'']])
       (named_data entries ''ScriptBlockText''))"

text \<open>\<open>String::from_utf16\<close>, into UTF-8.\<close>

definition utf8_encode :: "nat \<Rightarrow> string" where
  "utf8_encode n = map char_of
     (if n < 0x80 then [n]
      else if n < 0x800 then [0xC0 + n div 64, 0x80 + n mod 64]
      else if n < 0x10000 then [0xE0 + n div 4096, 0x80 + n div 64 mod 64, 0x80 + n mod 64]
      else [0xF0 + n div 262144, 0x80 + n div 4096 mod 64, 0x80 + n div 64 mod 64, 0x80 + n mod 64])"

fun from_utf16 :: "nat list \<Rightarrow> string option" where
  "from_utf16 [] = Some []"
| "from_utf16 (u # us) =
     (if u < 0xD800 \<or> 0xDFFF < u then map_option (\<lambda>s. utf8_encode u @ s) (from_utf16 us)
      else if 0xDC00 \<le> u then None
      else case us of
        [] \<Rightarrow> None
      | v # vs \<Rightarrow>
          if 0xDC00 \<le> v \<and> v \<le> 0xDFFF
          then map_option (\<lambda>s. utf8_encode (0x10000 + (u - 0xD800) * 1024 + (v - 0xDC00)) @ s) (from_utf16 vs)
          else None)"

fun utf16_units :: "bytes \<Rightarrow> nat list" where
  "utf16_units (a # b # bs) = (unat a + 256 * unat b) # utf16_units bs"
| "utf16_units _ = []"

definition decode_powershell_encoded_command ::
    "'x projection_externals_scheme \<Rightarrow> string \<Rightarrow> string option" where
  "decode_powershell_encoded_command E command =
     (case find_iter E POWERSHELL_ENCODED_RE command of
        [] \<Rightarrow> None
      | (_, g, b) # _ \<Rightarrow>
          let encoded = substring command g b
          in if 65536 < length encoded then None
             else bind_option (base64_decode E encoded) (\<lambda>content.
               if 49152 < length content then None
               else case (if 2 \<le> length content \<and> even (length content)
                          then from_utf16 (utf16_units content) else None) of
                   Some decoded \<Rightarrow>
                     if list_all (\<lambda>ch. \<not> is_control ch \<or> is_whitespace ch) (str_chars decoded) then Some decoded
                     else if utf8_valid content then Some (map (\<lambda>x. char_of (unat x)) content) else None
                 | None \<Rightarrow> if utf8_valid content then Some (map (\<lambda>x. char_of (unat x)) content) else None))"

definition insert_str ::
    "string \<Rightarrow> string option \<Rightarrow> (string, value) btree \<Rightarrow> (string, value) btree" where
  "insert_str key v m = (case v of None \<Rightarrow> m | Some s \<Rightarrow> bt_insert key (VString s) m)"

definition tagged :: "string \<Rightarrow> string option \<Rightarrow> (string \<times> string) option" where
  "tagged kind v = map_option (\<lambda>s. (s, kind)) v"

definition process_projection ::
    "'x projection_externals_scheme \<Rightarrow> value \<Rightarrow> (string, value) btree option" where
  "process_projection E event =
     (let unmapped = value_at event [''ocsf'', ''unmapped'']
      in bind_option
           (or_else (tagged ''typed_process_command''
              (first_str event [[''ocsf'', ''process'', ''cmd_line''], [''process'', ''cmd_line''], [''command_line'']]))
            (or_else (tagged ''sysmon_command_line'' (bind_option unmapped sysmon_named_command))
            (or_else (tagged ''bash_history_tokens'' (bind_option unmapped bash_history_command))
              (tagged ''normalized_unmapped_command'' (bind_option unmapped osquery_command)))))
           (\<lambda>(command, source_kind).
         let f1 = bt_insert ''action'' (VString ''execute command'') [];
             f2 = bt_insert ''command'' (VString command) f1;
             f3 = bt_insert ''source_kind'' (VString source_kind) f2;
             f4 = insert_str ''decoded_script'' (decode_powershell_encoded_command E command) f3
         in Some (fold (\<lambda>name. insert_str name (str_at event [name])) [''image'', ''parent_image'', ''status''] f4)))"

definition event_log_projection :: "value \<Rightarrow> (string, value) btree option" where
  "event_log_projection event =
     (let unmapped = value_at event [''ocsf'', ''unmapped'']
      in bind_option
           (or_else (tagged ''powershell_script_body'' (bind_option unmapped powershell_script_body))
              (tagged ''powershell_4104_message''
                (if str_at event [''event_id''] = Some ''4104'' then str_at event [''ocsf'', ''message''] else None)))
           (\<lambda>(script, source_kind).
         let f1 = bt_insert ''action'' (VString ''event log script'') [];
             f2 = bt_insert ''script'' (VString script) f1;
             f3 = bt_insert ''source_kind'' (VString source_kind) f2
         in Some (fold (\<lambda>name. insert_str name (str_at event [name])) [''event_id'', ''device'', ''status''] f3)))"

definition api_projection :: "value \<Rightarrow> (string, value) btree option" where
  "api_projection event =
     bind_option (bind_option (or_else (value_at event [''operation''])
                                 (value_at event [''ocsf'', ''api'', ''operation''])) as_str)
       (\<lambda>operation.
     let f1 = bt_insert ''action'' (VString operation) [];
         f2 = bt_insert ''source_kind'' (VString ''normalized_api_operation'') f1;
         f3 = insert_str ''service'' (first_str event [[''service''], [''ocsf'', ''api'', ''service'', ''name'']]) f2;
         f4 = insert_str ''resource'' (first_str event [[''resource''], [''ocsf'', ''resource'', ''name'']]) f3;
         f5 = insert_str ''status'' (first_str event [[''status''], [''ocsf'', ''status'']]) f4
     in Some (case value_at event [''ocsf'', ''unmapped'', ''requestParameters''] of
                None \<Rightarrow> f5 | Some parameters \<Rightarrow> bt_insert ''request_parameters'' parameters f5))"

definition command_projection_value ::
    "'x projection_externals_scheme \<Rightarrow> string \<Rightarrow> value \<Rightarrow> (string, value) btree option" where
  "command_projection_value E relation event =
     (if relation = ''ocsf_process_activity'' then process_projection E event
      else if relation = ''ocsf_event_log_activity'' then event_log_projection event
      else if relation = ''ocsf_api_activity'' then api_projection event
      else None)"

definition with_time :: "value \<Rightarrow> (string, value) btree \<Rightarrow> (string, value) btree" where
  "with_time event focused =
     (case or_else (value_at event [''ocsf'', ''time'']) (value_at event [''time'']) of
        None \<Rightarrow> focused | Some time \<Rightarrow> bt_insert ''time'' time focused)"

definition project_m45_command ::
    "'x projection_externals_scheme \<Rightarrow> projection_input \<Rightarrow> projection_error + projection_output option" where
  "project_m45_command E input =
     rbind (ok_or InvalidJson (parse_value E (pi_typed_event_json input))) (\<lambda>typed_event.
     if \<not> is_object typed_event then Inr None
     else case command_projection_value E (pi_relation_name input) typed_event of
         None \<Rightarrow> Inr None
       | Some focused \<Rightarrow>
           rbind (project E (input\<lparr>pi_typed_event_json :=
                    print_value E (VObject (with_time typed_event focused))\<rparr>)) (\<lambda>out.
              Inr (Some (out\<lparr>pr_occurrence :=
                (pr_occurrence out)\<lparr>po_disposition_reason := ''projected_by_m45_command_policy''\<rparr>\<rparr>))))"

end
