(* ===== verification/Projection_Blind.thy ===== *)
theory Projection_Blind
  imports Projection_Core
begin

text \<open>
  What a projection cannot depend on. Two events agree outside a set of hidden paths when they have
  the same shape and differ only in scalars at hidden paths. The document of an event does not
  depend on its identifiers, times and volatile values, and nothing in the whole output depends on
  the value of a secret field.
\<close>

subsection \<open>Events that agree\<close>

definition scalar :: "value \<Rightarrow> bool" where
  "scalar v \<longleftrightarrow> (case v of VBool _ \<Rightarrow> True | VNumber _ \<Rightarrow> True | VString _ \<Rightarrow> True | _ \<Rightarrow> False)"

inductive agree :: "(string \<Rightarrow> bool) \<Rightarrow> string \<Rightarrow> value \<Rightarrow> value \<Rightarrow> bool"
  for H :: "string \<Rightarrow> bool" where
  agree_same: "agree H p v v"
| agree_hidden: "p \<noteq> [] \<Longrightarrow> H p \<Longrightarrow> scalar v \<Longrightarrow> scalar w \<Longrightarrow> agree H p v w"
| agree_object: "length es = length fs \<Longrightarrow> map fst es = map fst fs \<Longrightarrow>
    (\<forall>i < length es. agree H (field_path p (fst (es ! i))) (snd (es ! i)) (snd (fs ! i))) \<Longrightarrow>
    agree H p (VObject es) (VObject fs)"
| agree_array: "length vs = length ws \<Longrightarrow>
    (\<forall>i < length vs. agree H (item_path p i) (vs ! i) (ws ! i)) \<Longrightarrow> agree H p (VArray vs) (VArray ws)"

inductive_cases agree_objectE: "agree H p (VObject es) w"
inductive_cases agree_arrayE: "agree H p (VArray vs) w"

definition entry_agree :: "(string \<Rightarrow> bool) \<Rightarrow> string \<Rightarrow> string \<times> value \<Rightarrow> string \<times> value \<Rightarrow> bool" where
  "entry_agree H p e f \<longleftrightarrow> fst e = fst f \<and> agree H (field_path p (fst e)) (snd e) (snd f)"

definition item_agree :: "(string \<Rightarrow> bool) \<Rightarrow> string \<Rightarrow> nat \<times> value \<Rightarrow> nat \<times> value \<Rightarrow> bool" where
  "item_agree H p e f \<longleftrightarrow> fst e = fst f \<and> agree H (item_path p (fst e)) (snd e) (snd f)"

lemma agree_object_iff:
  "agree H p (VObject es) w \<Longrightarrow> \<exists>fs. w = VObject fs \<and> list_all2 (entry_agree H p) es fs"
proof -
  assume a: "agree H p (VObject es) w"
  then obtain fs where w: "w = VObject fs"
    by (rule agree_objectE) (auto simp: scalar_def)
  from a have "length es = length fs \<and> map fst es = map fst fs \<and>
      (\<forall>i < length es. agree H (field_path p (fst (es ! i))) (snd (es ! i)) (snd (fs ! i)))"
    unfolding w by (rule agree_objectE) (auto simp: scalar_def agree_same)
  moreover from this have "fst (es ! i) = fst (fs ! i)" if "i < length es" for i
    using that by (metis nth_map)
  ultimately show ?thesis by (auto simp: w list_all2_conv_all_nth entry_agree_def)
qed

lemma agree_array_iff:
  "agree H p (VArray vs) w \<Longrightarrow> \<exists>ws. w = VArray ws \<and> length ws = length vs \<and>
     list_all2 (item_agree H p) (zip [0..<length vs] (take n vs)) (zip [0..<length ws] (take n ws))"
  by (erule agree_arrayE)
    (auto intro!: list_all2_refl simp: item_agree_def agree_same scalar_def list_all2_conv_all_nth)

lemma agree_scalar:
  "agree H p v w \<Longrightarrow> scalar v \<or> v = VNull \<Longrightarrow> v = w \<or> p \<noteq> [] \<and> H p \<and> scalar v \<and> scalar w"
  by (erule agree.cases) (auto simp: scalar_def)

lemma value_cases:
  obtains (object) es where "v = VObject es" | (array) vs where "v = VArray vs" | (leaf) "scalar v \<or> v = VNull"
  by (cases v) (auto simp: scalar_def)

subsection \<open>Folding and sorting related lists\<close>

lemma fold_rel:
  "list_all2 R xs ys \<Longrightarrow>
     (\<And>x y s t. x \<in> set xs \<Longrightarrow> R x y \<Longrightarrow> S s t \<Longrightarrow> S (f x s) (g y t)) \<Longrightarrow> S s t \<Longrightarrow>
     S (fold f xs s) (fold g ys t)"
  by (induction xs ys arbitrary: s t rule: list_all2_induct) auto

lemma insort_rel:
  "list_all2 R xs ys \<Longrightarrow> R x y \<Longrightarrow> (\<And>a b. R a b \<Longrightarrow> f a = g b) \<Longrightarrow>
     list_all2 R (insort_key f x xs) (insort_key g y ys)"
proof (induction xs ys rule: list_all2_induct)
  case (Cons a as b bs)
  then have "f a = g b" "f x = g y" by blast+
  with Cons show ?case by simp
qed simp

lemma sort_rel:
  "list_all2 R xs ys \<Longrightarrow> (\<And>a b. R a b \<Longrightarrow> f a = g b) \<Longrightarrow> list_all2 R (sort_key f xs) (sort_key g ys)"
  by (induction xs ys rule: list_all2_induct) (simp_all add: insort_rel)

lemma filter_rel:
  "list_all2 R xs ys \<Longrightarrow> (\<And>a b. R a b \<Longrightarrow> P a = Q b) \<Longrightarrow> list_all2 R (filter P xs) (filter Q ys)"
  by (induction xs ys rule: list_all2_induct) auto

lemma map_rel:
  "list_all2 R xs ys \<Longrightarrow> (\<And>a b. a \<in> set xs \<Longrightarrow> R a b \<Longrightarrow> f a = g b) \<Longrightarrow> map f xs = map g ys"
  by (induction xs ys rule: list_all2_induct) auto

subsection \<open>Leaves of events that agree\<close>

definition leaf_agree :: "(string \<Rightarrow> bool) \<Rightarrow> leaf \<Rightarrow> leaf \<Rightarrow> bool" where
  "leaf_agree H l m \<longleftrightarrow>
     lf_path l = lf_path m \<and>
     (lf_value l = lf_value m \<or> H (lf_path l) \<and> scalar (lf_value l) \<and> scalar (lf_value m))"

definition flatten_agree :: "(string \<Rightarrow> bool) \<Rightarrow> flatten_state \<Rightarrow> flatten_state \<Rightarrow> bool" where
  "flatten_agree H s t \<longleftrightarrow>
     fl_scanned s = fl_scanned t \<and> fl_truncated s = fl_truncated t \<and>
     list_all2 (leaf_agree H) (fl_output s) (fl_output t)"

lemma push_agree:
  "flatten_agree H s t \<Longrightarrow> v = w \<or> H p \<and> scalar v \<and> scalar w \<Longrightarrow>
     flatten_agree H (push_leaf p v s) (push_leaf p w t)"
  by (auto simp: flatten_agree_def push_leaf_def leaf_agree_def intro: list_all2_appendI)

lemma flatten_leaf:
  "scalar v \<or> v = VNull \<Longrightarrow> fl_scanned st < MAX_PROJECTION_SCALARS_SCANNED \<Longrightarrow>
     flatten_value E v path st = push_leaf (if path = [] then ''value'' else path) v st"
  by (cases v) (simp_all add: flatten_value.simps [of E _ path st] scalar_def)

lemma flatten_values_agree:
  "agree H path v w \<Longrightarrow> flatten_agree H st st' \<Longrightarrow>
     flatten_agree H (flatten_value E v path st) (flatten_value E w path st')"
proof (induction E v path st arbitrary: w st' rule: flatten_value.induct)
  case (1 E v path st)
  have sc: "fl_scanned st' = fl_scanned st" using "1.prems"(2) by (simp add: flatten_agree_def)
  show ?case
  proof (cases "MAX_PROJECTION_SCALARS_SCANNED \<le> fl_scanned st")
    case True
    then show ?thesis
      using "1.prems"(2) sc
      by (simp add: flatten_value.simps [of E v] flatten_value.simps [of E w] flatten_agree_def)
  next
    case False
    show ?thesis
    proof (cases v rule: value_cases)
      case (object es)
      then obtain fs where w: "w = VObject fs" and fs: "list_all2 (entry_agree H path) es fs"
        using agree_object_iff "1.prems"(1) by blast
      have "list_all2 (entry_agree H path) (sorted_children E es) (sorted_children E fs)"
        unfolding sorted_children_def by (rule sort_rel [OF fs]) (simp add: entry_agree_def case_prod_unfold)
      then have "flatten_agree H
          (fold (\<lambda>(key, child). flatten_value E child (field_path path key)) (sorted_children E es) st)
          (fold (\<lambda>(key, child). flatten_value E child (field_path path key)) (sorted_children E fs) st')"
        by (rule fold_rel [where R = "entry_agree H path" and S = "flatten_agree H"])
          (use "1.IH"(2) [OF False object] "1.prems"(2) in \<open>auto simp: entry_agree_def\<close>)
      moreover have "es = [] \<longleftrightarrow> fs = []" using fs by auto
      ultimately show ?thesis
        using False sc
        by (auto simp: object w flatten_value.simps [of E "VObject _"] Let_def intro!: push_agree)
    next
      case (array vs)
      define n where "n = MAX_LIST_ITEMS"
      from array obtain ws where w: "w = VArray ws" and len: "length ws = length vs"
        and ws: "list_all2 (item_agree H path) (zip [0..<length vs] (take n vs)) (zip [0..<length ws] (take n ws))"
        using agree_array_iff "1.prems"(1) by blast
      let ?s0 = "if n < length vs then st\<lparr>fl_truncated := True\<rparr> else st"
      let ?t0 = "if n < length vs then st'\<lparr>fl_truncated := True\<rparr> else st'"
      note ws
      moreover have "flatten_agree H ?s0 ?t0" using "1.prems"(2) by (simp add: flatten_agree_def)
      ultimately have "flatten_agree H
          (fold (\<lambda>(index, child). flatten_value E child (item_path path index)) (zip [0..<length vs] (take n vs)) ?s0)
          (fold (\<lambda>(index, child). flatten_value E child (item_path path index)) (zip [0..<length ws] (take n ws)) ?t0)"
        by (intro fold_rel [where R = "item_agree H path" and S = "flatten_agree H"])
          (use "1.IH"(1) [OF False array refl] in \<open>auto simp: item_agree_def n_def\<close>)
      moreover have "ws = [] \<longleftrightarrow> vs = []" using len by auto
      ultimately show ?thesis
        using False sc "1.prems"(2)
        by (auto simp: array w flatten_value.simps [of E "VArray _"] Let_def n_def len intro!: push_agree)
    next
      case leaf
      from agree_scalar [OF "1.prems"(1) leaf] have w: "scalar w \<or> w = VNull"
        and c: "v = w \<or> path \<noteq> [] \<and> H path \<and> scalar v \<and> scalar w" using leaf by auto
      show ?thesis
        using False sc c by (auto simp: flatten_leaf [OF leaf] flatten_leaf [OF w] intro!: push_agree "1.prems"(2))
    qed
  qed
qed

lemma leaves_agree:
  assumes "agree H [] v w"
  shows "list_all2 (leaf_agree H) (flattened_leaves E v) (flattened_leaves E w)"
proof -
  let ?s = "\<lparr>fl_scanned = 0, fl_truncated = False, fl_output = []\<rparr>"
  have "flatten_agree H ?s ?s" by (simp add: flatten_agree_def)
  from flatten_values_agree [OF assms this, of E]
  have "list_all2 (leaf_agree H) (fl_output (flatten_value E v [] ?s)) (fl_output (flatten_value E w [] ?s))"
    by (simp add: flatten_agree_def)
  then show ?thesis
    unfolding flattened_leaves_def Let_def
    by (intro list_all2_takeI sort_rel) (auto simp: leaf_agree_def)
qed

subsection \<open>Exact attributes of events that agree outside secrets\<close>

lemma fold_rel_eq:
  "list_all2 R xs ys \<Longrightarrow> (\<And>x y s. x \<in> set xs \<Longrightarrow> R x y \<Longrightarrow> f x s = g y s) \<Longrightarrow> fold f xs s = fold g ys s"
  by (induction xs ys arbitrary: s rule: list_all2_induct) auto

lemma visit_hidden:
  "is_secret E path \<Longrightarrow> scalar v \<Longrightarrow> scalar w \<Longrightarrow>
     visit_scalar E v pointer path st = visit_scalar E w pointer path st"
  by (auto simp: visit_scalar_def omission_reason_def Let_def is_null_def scalar_def)

lemma visit_leaf:
  "scalar v \<or> v = VNull \<Longrightarrow> xs_scanned st < MAX_EXACT_SCALARS_SCANNED \<Longrightarrow>
     exact_visit E v pointer path st = visit_scalar E v pointer path st"
  by (cases v) (simp_all add: exact_visit.simps [of E _ pointer path st] scalar_def)

lemma exact_visits_agree:
  "agree H path v w \<Longrightarrow> (\<And>p. H p \<Longrightarrow> is_secret E p) \<Longrightarrow>
     exact_visit E v pointer path st = exact_visit E w pointer path st"
proof (induction E v pointer path st arbitrary: w rule: exact_visit.induct)
  case (1 E v pointer path st)
  show ?case
  proof (cases "MAX_EXACT_SCALARS_SCANNED \<le> xs_scanned st")
    case True
    then show ?thesis by (simp add: exact_visit.simps [of E v] exact_visit.simps [of E w])
  next
    case False
    show ?thesis
    proof (cases v rule: value_cases)
      case (object es)
      then obtain fs where w: "w = VObject fs" and fs: "list_all2 (entry_agree H path) es fs"
        using agree_object_iff "1.prems"(1) by blast
      have "list_all2 (entry_agree H path) (sorted_rows es) (sorted_rows fs)"
        unfolding sorted_rows_def by (rule sort_rel [OF fs]) (simp add: entry_agree_def)
      then have "fold (\<lambda>(key, child). exact_visit E child (pointer @ ''/'' @ escape key) (field_path path key))
            (sorted_rows es) st =
          fold (\<lambda>(key, child). exact_visit E child (pointer @ ''/'' @ escape key) (field_path path key))
            (sorted_rows fs) st"
        by (rule fold_rel_eq)
          (use "1.IH"(2) [OF False object _ refl _ "1.prems"(2)] in \<open>auto simp: entry_agree_def case_prod_unfold\<close>)
      then show ?thesis using False by (simp add: object w exact_visit.simps [of E "VObject _"])
    next
      case (array vs)
      from array obtain ws where w: "w = VArray ws" and len: "length ws = length vs"
        and ws: "list_all2 (item_agree H path) (zip [0..<length vs] (take MAX_EXACT_LIST_ITEMS vs))
          (zip [0..<length ws] (take MAX_EXACT_LIST_ITEMS ws))"
        using agree_array_iff "1.prems"(1) by blast
      from ws have "fold (\<lambda>(index, child). exact_visit E child (pointer @ ''/'' @ nat_digits index) (item_path path index))
            (zip [0..<length vs] (take MAX_EXACT_LIST_ITEMS vs)) st =
          fold (\<lambda>(index, child). exact_visit E child (pointer @ ''/'' @ nat_digits index) (item_path path index))
            (zip [0..<length ws] (take MAX_EXACT_LIST_ITEMS ws)) st"
        by (rule fold_rel_eq)
          (use "1.IH"(1) [OF False array _ refl _ "1.prems"(2)] in \<open>auto simp: item_agree_def case_prod_unfold\<close>)
      then show ?thesis using False len by (simp add: array w exact_visit.simps [of E "VArray _"] Let_def)
    next
      case leaf
      from agree_scalar [OF "1.prems"(1) leaf] have w: "scalar w \<or> w = VNull"
        and c: "v = w \<or> H path \<and> scalar v \<and> scalar w" using leaf by auto
      show ?thesis
        using False c visit_hidden [of E path v w pointer st] "1.prems"(2) [of path]
        by (auto simp: visit_leaf [OF leaf] visit_leaf [OF w])
    qed
  qed
qed

subsection \<open>Semantic leaves that agree\<close>

definition concealed :: "'x projection_externals_scheme \<Rightarrow> string \<Rightarrow> bool" where
  "concealed E p \<longleftrightarrow>
     is_secret E p \<or> is_identifier E p \<or> is_time E p \<or> is_volatile E p \<or> is_positional_raw_token E p
     \<or> is_semantic_noise E p"

lemma semantic_value_hidden:
  "is_secret E p \<or> is_identifier E p \<Longrightarrow> semantic_value E p v = semantic_value E p w"
  by (auto simp: semantic_value_def)

lemma scalar_not_null: "scalar v \<Longrightarrow> \<not> is_null v"
  by (auto simp: is_null_def scalar_def)

lemma semantic_entries_agree:
  assumes "list_all2 (leaf_agree H) ls ms"
  shows "list_all2 (leaf_agree H) (semantic_entries E ls) (semantic_entries E ms)"
proof -
  have "typed_names E ls = typed_names E ms"
    unfolding typed_names_def
    by (rule map_rel [OF filter_rel [OF assms]]) (auto simp: leaf_agree_def dest: scalar_not_null)
  then show ?thesis
    unfolding semantic_entries_def
    by (intro filter_rel [OF assms]) (auto simp: semantic_entry_def leaf_agree_def dest: scalar_not_null)
qed

lemma semantic_entry_values:
  assumes "l \<in> set (semantic_entries E ls)" "leaf_agree H l m" "\<And>p. H p \<Longrightarrow> concealed E p"
  shows "lf_path l = lf_path m \<and> semantic_value E (lf_path l) (lf_value l) = semantic_value E (lf_path m) (lf_value m)"
proof -
  have "\<not> is_time E (lf_path l) \<and> \<not> is_volatile E (lf_path l) \<and> \<not> is_positional_raw_token E (lf_path l)
      \<and> \<not> is_semantic_noise E (lf_path l)"
    using assms(1) by (auto simp: semantic_entries_def semantic_entry_def)
  moreover have "lf_value l = lf_value m \<or> concealed E (lf_path l)" "lf_path l = lf_path m"
    using assms(2,3) by (auto simp: leaf_agree_def)
  ultimately show ?thesis using semantic_value_hidden by (metis concealed_def)
qed

lemma facets_agree:
  assumes "list_all2 (leaf_agree H) ls ms" "\<And>p. H p \<Longrightarrow> concealed E p"
  shows "facets_of E (semantic_entries E ls) = facets_of E (semantic_entries E ms)"
proof -
  have "facet_text E (semantic_entries E ls) r = facet_text E (semantic_entries E ms) r" for r
  proof -
    have "map (\<lambda>leaf. label (lf_path leaf) @ ''='' @ semantic_value E (lf_path leaf) (lf_value leaf))
         (filter (\<lambda>leaf. role E (lf_path leaf) = r) (semantic_entries E ls)) =
       map (\<lambda>leaf. label (lf_path leaf) @ ''='' @ semantic_value E (lf_path leaf) (lf_value leaf))
         (filter (\<lambda>leaf. role E (lf_path leaf) = r) (semantic_entries E ms))"
    proof (rule map_rel [OF filter_rel [OF semantic_entries_agree [OF assms(1)]]])
      fix l m
      assume "l \<in> set (filter (\<lambda>leaf. role E (lf_path leaf) = r) (semantic_entries E ls))" "leaf_agree H l m"
      then show "label (lf_path l) @ ''='' @ semantic_value E (lf_path l) (lf_value l) =
          label (lf_path m) @ ''='' @ semantic_value E (lf_path m) (lf_value m)"
        using semantic_entry_values [of l E ls H m] assms(2) by auto
    qed (auto simp: leaf_agree_def)
    then show ?thesis by (simp add: facet_text_def)
  qed
  then show ?thesis by (simp add: facets_of_def)
qed

lemma material_agree:
  assumes "list_all2 (leaf_agree H) ls ms" "\<And>p. H p \<Longrightarrow> concealed E p"
  shows "group_material E relation kind facets (semantic_entries E ls) =
    group_material E relation kind facets (semantic_entries E ms)"
proof -
  let ?P = "\<lambda>leaf. \<not> is_positional_raw_token E (lf_path leaf) \<and> \<not> is_identifier E (lf_path leaf) \<and> \<not> is_secret E (lf_path leaf)"
  have "map (\<lambda>leaf. JArr [JStr (lf_path leaf), JStr (semantic_value E (lf_path leaf) (lf_value leaf))])
       (filter ?P (semantic_entries E ls)) =
     map (\<lambda>leaf. JArr [JStr (lf_path leaf), JStr (semantic_value E (lf_path leaf) (lf_value leaf))])
       (filter ?P (semantic_entries E ms))"
  proof (rule map_rel [OF filter_rel [OF semantic_entries_agree [OF assms(1)]]])
    fix l m
    assume "l \<in> set (filter ?P (semantic_entries E ls))" "leaf_agree H l m"
    then show "JArr [JStr (lf_path l), JStr (semantic_value E (lf_path l) (lf_value l))] =
        JArr [JStr (lf_path m), JStr (semantic_value E (lf_path m) (lf_value m))]"
      using semantic_entry_values [of l E ls H m] assms(2) by auto
  qed (auto simp: leaf_agree_def)
  then show ?thesis by (simp add: group_material_def)
qed

lemma min_leaf_in: "min_leaf ls = Some l \<Longrightarrow> l \<in> set ls"
  by (induction ls arbitrary: l) (auto split: option.splits if_splits)

lemma min_leaf_rel:
  "list_all2 R ls ms \<Longrightarrow> (\<And>l m. R l m \<Longrightarrow> lf_path l = lf_path m) \<Longrightarrow> rel_option R (min_leaf ls) (min_leaf ms)"
proof (induction ls ms rule: list_all2_induct)
  case (Cons l ls m ms)
  then have r: "rel_option R (min_leaf ls) (min_leaf ms)" by blast
  show ?case
  proof (cases "min_leaf ls")
    case None
    with r have "min_leaf ms = None" by (cases "min_leaf ms") auto
    with None Cons.hyps(1) show ?thesis by simp
  next
    case (Some a)
    with r obtain b where b: "min_leaf ms = Some b" "R a b" by (cases "min_leaf ms") auto
    have "time_key l = time_key m" "time_key a = time_key b"
      using Cons.hyps(1) b(2) Cons.prems by (simp_all add: time_key_def)
    with Some b Cons.hyps(1) show ?thesis by simp
  qed
qed simp

lemma event_time_agree:
  assumes "list_all2 (leaf_agree H) ls ms" "\<And>p. H p \<Longrightarrow> leaf_name E p \<notin> set TIME_NAMES"
  shows "event_time E ls = event_time E ms"
proof -
  have "event_time_from E ls names = event_time_from E ms names" if "set names \<subseteq> set TIME_NAMES" for names
    using that
  proof (induction names)
    case (Cons name names)
    let ?P = "\<lambda>leaf. leaf_name E (lf_path leaf) = name"
    have "list_all2 (leaf_agree H) (filter ?P ls) (filter ?P ms)"
      by (rule filter_rel [OF assms(1)]) (auto simp: leaf_agree_def)
    then have r: "rel_option (leaf_agree H) (min_leaf (filter ?P ls)) (min_leaf (filter ?P ms))"
      by (rule min_leaf_rel) (simp add: leaf_agree_def)
    show ?case
    proof (cases "min_leaf (filter ?P ls)")
      case None
      with r have "min_leaf (filter ?P ms) = None" by (cases "min_leaf (filter ?P ms)") auto
      with None Cons show ?thesis by simp
    next
      case (Some l)
      with r obtain m where m: "min_leaf (filter ?P ms) = Some m" "leaf_agree H l m"
        by (cases "min_leaf (filter ?P ms)") auto
      have "leaf_name E (lf_path l) = name" using min_leaf_in [OF Some] by simp
      then have "lf_value l = lf_value m"
        using assms(2) [of "lf_path l"] m(2) Cons.prems by (auto simp: leaf_agree_def)
      with Some m show ?thesis by simp
    qed
  qed simp
  then show ?thesis by (simp add: event_time_def)
qed

subsection \<open>Blindness\<close>

text \<open>The core of an event that parsed, as a function of its facets, its digest and its time.\<close>

definition core_with ::
    "string \<Rightarrow> projection_context \<Rightarrow> value \<Rightarrow> semantic_facets \<Rightarrow> string
     \<Rightarrow> string option \<times> event_time_availability \<Rightarrow> projection_core" where
  "core_with relation context v facets sha time =
     (let kind = (case relation_kind relation of Some k \<Rightarrow> k | None \<Rightarrow> StructuredOnly)
      in \<lparr>co_typed_event = v, co_parse_error = False, co_document_kind = kind,
          co_semantic_group_id = ''sha256:'' @ sha, co_semantic_group_sha256 = sha,
          co_terminal_disposition = fst (disposition False relation),
          co_disposition_reason = snd (disposition False relation),
          co_document =
            (if relation_kind relation \<noteq> None \<and> \<not> derivation_only relation
             then Some \<lparr>pd_document_id = ''sha256:'' @ sha, pd_document_kind = kind,
               pd_semantic_text = compose_semantic_text kind relation facets False,
               pd_facets = facets, pd_semantic_group_sha256 = sha,
               pd_snapshot = pc_snapshot context, pd_mapping_pack = pc_mapping_pack context\<rparr>
             else None),
          co_event_time = fst time, co_event_time_availability = snd time\<rparr>)"

lemma project_core_parsed:
  "typed_event_of E j = Some v \<Longrightarrow> project_core E relation j context =
     (let facets = facets_of E (semantic_entries E (flattened_leaves E v))
      in rbind (digest_value E (group_material E relation
              (case relation_kind relation of Some k \<Rightarrow> k | None \<Rightarrow> StructuredOnly) facets
              (semantic_entries E (flattened_leaves E v))))
           (\<lambda>sha. Inr (core_with relation context v facets sha (event_time E (flattened_leaves E v)))))"
  by (simp add: project_core_def object_or_empty_def core_with_def Let_def cong: if_cong)

lemma cores_agree:
  assumes "typed_event_of E j1 = Some v" "typed_event_of E j2 = Some w" "agree H [] v w"
    and "\<And>p. H p \<Longrightarrow> concealed E p"
    and "project_core E relation j1 context = Inr c1"
  shows "\<exists>c2. project_core E relation j2 context = Inr c2 \<and>
    c1 = c2\<lparr>co_typed_event := v, co_event_time := fst (event_time E (flattened_leaves E v)),
           co_event_time_availability := snd (event_time E (flattened_leaves E v))\<rparr> \<and>
    co_typed_event c1 = v \<and> co_typed_event c2 = w \<and>
    co_event_time c2 = fst (event_time E (flattened_leaves E w)) \<and>
    co_event_time_availability c2 = snd (event_time E (flattened_leaves E w))"
proof -
  note leaves = leaves_agree [OF assms(3), of E]
  have f: "facets_of E (semantic_entries E (flattened_leaves E v)) =
      facets_of E (semantic_entries E (flattened_leaves E w))"
    using leaves assms(4) by (rule facets_agree)
  have m: "group_material E relation kind facets (semantic_entries E (flattened_leaves E v)) =
      group_material E relation kind facets (semantic_entries E (flattened_leaves E w))" for kind facets
    using leaves assms(4) by (rule material_agree)
  from assms(5) show ?thesis
    unfolding project_core_parsed [OF assms(1)] project_core_parsed [OF assms(2)] Let_def f m
    by (auto simp: rbind_eq_Inr core_with_def Let_def split del: if_split)
qed

text \<open>
  C19: The document of an event, its identity included, does not depend on the values of its secret,
  identifier, time, volatile, positional and product-metadata fields: two events of one relation
  that differ only there have the same document and the same semantic group.
\<close>

theorem document_blind_to_concealed:
  assumes "typed_event_of E (pi_typed_event_json i) = Some v" "typed_event_of E (pi_typed_event_json j) = Some w"
    and "agree (concealed E) [] v w"
    and "pi_relation_name i = pi_relation_name j" "pi_context i = pi_context j"
    and "project E i = Inr x" "project E j = Inr y"
  shows "pr_document x = pr_document y \<and>
    po_semantic_group_id (pr_occurrence x) = po_semantic_group_id (pr_occurrence y) \<and>
    po_terminal_disposition (pr_occurrence x) = po_terminal_disposition (pr_occurrence y)"
proof -
  from assms(6) obtain c1 where c1: "project_core E (pi_relation_name i) (pi_typed_event_json i) (pi_context i) = Inr c1"
    and x: "pr_document x = co_document c1" "po_semantic_group_id (pr_occurrence x) = co_semantic_group_id c1"
      "po_terminal_disposition (pr_occurrence x) = co_terminal_disposition c1"
    by (auto simp: project_def rbind_eq_Inr Let_def case_prod_unfold)
  from cores_agree [OF assms(1-3) _ c1] obtain c2 where
    c2: "project_core E (pi_relation_name j) (pi_typed_event_json j) (pi_context j) = Inr c2"
      "co_document c1 = co_document c2" "co_semantic_group_id c1 = co_semantic_group_id c2"
      "co_terminal_disposition c1 = co_terminal_disposition c2"
    using assms(4,5) by (auto simp: assms(4,5))
  from assms(7) c2(1) have "pr_document y = co_document c2"
      "po_semantic_group_id (pr_occurrence y) = co_semantic_group_id c2"
      "po_terminal_disposition (pr_occurrence y) = co_terminal_disposition c2"
    by (auto simp: project_def Let_def case_prod_unfold)
  with x c2 show ?thesis by simp
qed

text \<open>
  C4: Nothing that is projected depends on the value of a secret field (unless the field is itself
  named as the time of the event): changing the secrets of an event changes neither its document
  nor its occurrence, exact attributes included.
\<close>

theorem projection_blind_to_secrets:
  assumes "typed_event_of E (pi_typed_event_json i) = Some v" "typed_event_of E json = Some w"
    and "agree (\<lambda>p. is_secret E p \<and> leaf_name E p \<notin> set TIME_NAMES) [] v w"
    and "project E i = Inr x"
  shows "project E (i\<lparr>pi_typed_event_json := json\<rparr>) = Inr x"
proof -
  let ?H = "\<lambda>p. is_secret E p \<and> leaf_name E p \<notin> set TIME_NAMES"
  from assms(4) obtain c1 where c1: "project_core E (pi_relation_name i) (pi_typed_event_json i) (pi_context i) = Inr c1"
    by (auto simp: project_def rbind_eq_Inr)
  from cores_agree [OF assms(1-3) _ c1] obtain c2 where
    c2: "project_core E (pi_relation_name i) json (pi_context i) = Inr c2"
    and eq: "c1 = c2\<lparr>co_typed_event := v, co_event_time := fst (event_time E (flattened_leaves E v)),
       co_event_time_availability := snd (event_time E (flattened_leaves E v))\<rparr>"
      "co_typed_event c1 = v" "co_typed_event c2 = w"
      "co_event_time c2 = fst (event_time E (flattened_leaves E w))"
      "co_event_time_availability c2 = snd (event_time E (flattened_leaves E w))"
    by (auto simp: concealed_def)
  have "event_time E (flattened_leaves E v) = event_time E (flattened_leaves E w)"
    by (rule event_time_agree [OF leaves_agree [OF assms(3)]]) simp
  then have c: "c1 = c2\<lparr>co_typed_event := v\<rparr>" using eq by simp
  have "exact_attribute_subset E v = exact_attribute_subset E w"
    unfolding exact_attribute_subset_def by (simp add: exact_visits_agree [OF assms(3)])
  then have "project E (i\<lparr>pi_typed_event_json := json\<rparr>) = project E i"
    using eq(3) by (simp add: project_def c1 c2 c)
  with assms(4) show ?thesis by simp
qed

end
