(* ===== verification/Projection_Facts.thy ===== *)
theory Projection_Facts
  imports Projection_Blind
begin

text \<open>
  The bounds on what a projection produces, that it is total, that its three views agree, and what
  the command-focused projection returns.
\<close>

subsection \<open>Counting characters\<close>

definition starts :: "string \<Rightarrow> nat" where
  "starts s = length (filter (\<lambda>c. \<not> is_continuation c) s)"

lemma str_chars_hd: "s \<noteq> [] \<Longrightarrow> str_chars s \<noteq> [] \<and> hd (str_chars s) \<noteq> [] \<and> hd (hd (str_chars s)) = hd s"
  by (induction s) (auto split: list.splits)

lemma char_count_Cons: "char_count (c # s) = 1 + starts s"
proof (induction s arbitrary: c)
  case (Cons d s)
  obtain ch rest where ch: "str_chars (d # s) = ch # rest" using str_chars_hd [of "d # s"] by (cases "str_chars (d # s)") auto
  then have "hd ch = d" using str_chars_hd [of "d # s"] by simp
  with Cons [of d] ch show ?case by (simp add: char_count_def starts_def del: str_chars.simps(2)) (simp add: ch)
qed (simp add: char_count_def starts_def)

lemma char_count_Nil [simp]: "char_count [] = 0"
  by (simp add: char_count_def)

lemma char_count_append: "char_count (a @ b) \<le> char_count a + char_count b"
proof (cases a)
  case (Cons c a')
  have "starts b \<le> char_count b" by (cases b) (simp_all add: starts_def char_count_Cons)
  then show ?thesis by (simp add: Cons char_count_Cons) (simp add: starts_def)
qed simp

lemma str_chars_parts: "ch \<in> set (str_chars s) \<Longrightarrow> ch \<noteq> [] \<and> starts (tl ch) = 0"
proof (induction s arbitrary: ch)
  case (Cons c s)
  show ?case
  proof (cases "str_chars s")
    case Nil
    with Cons.prems show ?thesis by (simp add: starts_def)
  next
    case (Cons x rest)
    then have "x \<noteq> []" "starts (tl x) = 0" using Cons.IH [of x] by simp_all
    with Cons Cons.IH Cons.prems show ?thesis by (cases x) (auto simp: starts_def split: if_splits)
  qed
qed simp

lemma char_count_take: "char_count (concat (take n (str_chars s))) \<le> n"
proof -
  have st: "\<forall>ch \<in> set chs. ch \<noteq> [] \<and> starts (tl ch) = 0 \<Longrightarrow> starts (concat chs) \<le> length chs" for chs
  proof (induction chs)
    case (Cons ch chs)
    then have "starts ch \<le> 1" by (cases ch) (simp_all add: starts_def)
    with Cons show ?case by (simp add: starts_def)
  qed (simp add: starts_def)
  have parts: "\<forall>ch \<in> set (take n (str_chars s)). ch \<noteq> [] \<and> starts (tl ch) = 0"
    using str_chars_parts in_set_takeD by fast
  show ?thesis
  proof (cases "take n (str_chars s)")
    case (Cons ch chs)
    with parts obtain c cs where ch: "ch = c # cs" "starts cs = 0" by (cases ch) auto
    have "starts (concat chs) \<le> length chs" using st parts Cons by simp
    moreover have "length (ch # chs) \<le> n" unfolding Cons [symmetric] by simp
    ultimately show ?thesis unfolding Cons using ch by (simp add: char_count_Cons) (simp add: starts_def)
  next
    case Nil
    then show ?thesis by (simp only: concat.simps char_count_Nil)
  qed
qed

lemma char_count_TRUNCATED: "char_count TRUNCATED = 12"
  by code_simp

lemma char_count_bounded: "12 \<le> limit \<Longrightarrow> char_count (bounded s limit) \<le> limit"
proof -
  assume "12 \<le> limit"
  then have "char_count (concat (take (limit - 12) (str_chars s)) @ TRUNCATED) \<le> limit"
    using char_count_append [of "concat (take (limit - 12) (str_chars s))" TRUNCATED]
      char_count_take [of "limit - 12" s] unfolding char_count_TRUNCATED by linarith
  then show ?thesis by (simp add: bounded_def char_count_TRUNCATED)
qed

lemma char_count_join:
  "char_count (join_with sep ps) \<le> sum_list (map (\<lambda>p. char_count p + char_count sep) ps)"
proof (induction sep ps rule: join_with.induct)
  case (3 sep p q ps)
  then show ?case
    using char_count_append [of p "sep @ join_with sep (q # ps)"] char_count_append [of sep "join_with sep (q # ps)"]
    by simp
qed simp_all

lemma char_count_prefixed: "char_count (a @ bounded b limit) \<le> char_count a + limit" if "12 \<le> limit"
  using char_count_append [of a "bounded b limit"] char_count_bounded [OF that, of b] by linarith

subsection \<open>Bounds\<close>

lemma facet_part_count:
  "12 \<le> budget \<Longrightarrow>
     sum_list (map (\<lambda>p. char_count p + k) (facet_part (name, t, budget))) \<le> char_count (name @ '': '') + budget + k"
  using char_count_prefixed [of budget "name @ '': ''" t] by (simp add: facet_part_def)

lemma literal_counts:
  "char_count '' | '' = 3" "char_count (''outcome'' @ '': '') = 9" "char_count (''action'' @ '': '') = 8"
  "char_count (''target'' @ '': '') = 8" "char_count (''context'' @ '': '') = 9" "char_count ''relation: '' = 10"
  "char_count ''content: unavailable typed event'' = 32"
  by code_simp+

lemma char_count_le: "char_count s \<le> length s"
  by (cases s) (simp_all add: char_count_Cons, simp add: starts_def)

lemma kind_count: "char_count (''kind: '' @ semantic_label k) \<le> 21"
  by (rule le_trans [OF char_count_le]) (cases k, simp_all add: semantic_label_def kind_label_def)

lemma semantic_text_bound: "char_count (compose_semantic_text kind relation facets unavailable) \<le> 3062"
proof -
  let ?c = "\<lambda>p. char_count p + 3"
  have r: "char_count (''relation: '' @ bounded relation 128) \<le> 138"
    using char_count_prefixed [of 128 "''relation: ''" relation] by (simp only: literal_counts) simp
  note f = facet_part_count [where k = 3 and budget = 768 and name = "''outcome''" and t = "sf_outcome facets"]
    facet_part_count [where k = 3 and budget = 640 and name = "''action''" and t = "sf_action facets"]
    facet_part_count [where k = 3 and budget = 640 and name = "''target''" and t = "sf_target facets"]
    facet_part_count [where k = 3 and budget = 768 and name = "''context''" and t = "sf_context facets"]
  have u: "sum_list (map ?c (if unavailable then [''content: unavailable typed event''] else [])) \<le> 35"
    by (simp only: if_distrib) (simp add: literal_counts(7) [simplified])
  let ?parts = "[''kind: '' @ semantic_label kind, ''relation: '' @ bounded relation 128]
        @ (facet_part (''outcome'', sf_outcome facets, 768) @ facet_part (''action'', sf_action facets, 640)
           @ facet_part (''target'', sf_target facets, 640) @ facet_part (''context'', sf_context facets, 768))
        @ (if unavailable then [''content: unavailable typed event''] else [])"
  have "char_count (compose_semantic_text kind relation facets unavailable) \<le> sum_list (map ?c ?parts)"
    using char_count_join [of "'' | ''" ?parts] unfolding literal_counts(1)
    by (simp only: compose_semantic_text_def list.map concat.simps append_Nil2 append_assoc)
  also have "\<dots> \<le> 3062"
    using r f u kind_count [of kind] unfolding literal_counts
    by (simp only: map_append sum_list_append list.map sum_list.Cons sum_list.Nil) simp
  finally show ?thesis .
qed

text \<open>
  C17: A semantic document stays within its limits: its text has at most
  \<open>MAX_SEMANTIC_TEXT_CHARS\<close> characters (the assertion of the code never fires), each facet at most
  \<open>MAX_FACET_TEXT_CHARS\<close>, and it is drawn from at most \<open>MAX_LEAVES\<close> leaves.
\<close>

theorem document_within_limits:
  assumes "project_core E relation json context = Inr core" and "co_document core = Some d"
  shows "char_count (pd_semantic_text d) \<le> MAX_SEMANTIC_TEXT_CHARS \<and>
    char_count (sf_action (pd_facets d)) \<le> MAX_FACET_TEXT_CHARS \<and>
    char_count (sf_target (pd_facets d)) \<le> MAX_FACET_TEXT_CHARS \<and>
    char_count (sf_context (pd_facets d)) \<le> MAX_FACET_TEXT_CHARS \<and>
    char_count (sf_outcome (pd_facets d)) \<le> MAX_FACET_TEXT_CHARS \<and>
    (\<exists>leaves. length leaves \<le> MAX_LEAVES \<and> pd_facets d = facets_of E (semantic_entries E leaves))"
proof -
  from assms obtain v kind where d: "pd_facets d = facets_of E (semantic_entries E (flattened_leaves E v))"
    "pd_semantic_text d = compose_semantic_text kind relation (pd_facets d) (typed_event_of E json = None)"
    by (auto simp: project_core_def rbind_eq_Inr Let_def split: if_splits)
  have facets: "char_count (facet_text E ls r) \<le> MAX_FACET_TEXT_CHARS" for ls r
    unfolding facet_text_def by (rule char_count_bounded) (simp add: MAX_FACET_TEXT_CHARS_def)
  have "length (flattened_leaves E v) \<le> MAX_LEAVES" by (simp add: flattened_leaves_def Let_def)
  moreover have "char_count (pd_semantic_text d) \<le> MAX_SEMANTIC_TEXT_CHARS"
    unfolding d(2) using semantic_text_bound by (rule le_trans) (simp add: MAX_SEMANTIC_TEXT_CHARS_def)
  ultimately show ?thesis using d(1) facets by (auto simp: facets_of_def)
qed

subsection \<open>Totality and the three views\<close>

lemma digest_total: "\<forall>material. jcs_bytes E material \<noteq> None \<Longrightarrow> \<exists>sha. digest_value E material = Inr sha"
proof -
  assume "\<forall>material. jcs_bytes E material \<noteq> None"
  then obtain canonical where "jcs_bytes E material = Some canonical" by blast
  then show ?thesis by (simp add: digest_value_def)
qed

lemma rbind_total: "\<exists>x. m = Inr x \<Longrightarrow> (\<And>x. \<exists>y. f x = Inr y) \<Longrightarrow> \<exists>y. rbind m f = Inr y"
  by auto

lemma core_total:
  "\<forall>material. jcs_bytes E material \<noteq> None \<Longrightarrow> \<exists>core. project_core E relation json context = Inr core"
  unfolding project_core_def Let_def by (rule rbind_total [OF digest_total]) simp_all

text \<open>
  Projection is total and its views agree. Whatever the text of the row, there is exactly one
  occurrence for it; it has a document exactly when the text is a JSON object and its relation is a
  known one other than the system metrics, and then the document is named by the semantic group of
  the occurrence; a row that cannot be read asks for its source. The census and the event-time view
  give the same document and the same time.
\<close>

theorem projection_total:
  assumes "\<forall>material. jcs_bytes E material \<noteq> None"
  shows "\<exists>x. project E i = Inr x \<and>
    (pr_document x \<noteq> None \<longleftrightarrow> po_terminal_disposition (pr_occurrence x) = DirectSemanticDocument) \<and>
    (pr_document x \<noteq> None \<longleftrightarrow> typed_event_of E (pi_typed_event_json i) \<noteq> None \<and>
       relation_kind (pi_relation_name i) \<noteq> None \<and> pi_relation_name i \<noteq> ''ocsf_ext_livefire_system_metric'') \<and>
    (\<forall>d. pr_document x = Some d \<longrightarrow>
       pd_document_id d = po_semantic_group_id (pr_occurrence x) \<and>
       pd_document_id d = ''sha256:'' @ pd_semantic_group_sha256 d \<and>
       Some (pd_document_kind d) = relation_kind (pi_relation_name i)) \<and>
    (typed_event_of E (pi_typed_event_json i) = None \<longrightarrow>
       ep_source_hydration_required (po_exact_attribute_projection (pr_occurrence x))) \<and>
    project_document_summary E (pi_relation_name i) (pi_typed_event_json i) (pi_context i) =
      Inr \<lparr>ps_document = pr_document x, ps_event_time = po_event_time (pr_occurrence x),
           ps_event_time_availability = po_event_time_availability (pr_occurrence x)\<rparr> \<and>
    project_event_time E (pi_typed_event_json i) =
      (po_event_time (pr_occurrence x), po_event_time_availability (pr_occurrence x))"
proof -
  obtain core where core: "project_core E (pi_relation_name i) (pi_typed_event_json i) (pi_context i) = Inr core"
    using core_total [OF assms] by blast
  let ?parsed = "typed_event_of E (pi_typed_event_json i)"
  have c: "co_parse_error core \<longleftrightarrow> ?parsed = None"
    "co_terminal_disposition core = fst (disposition (?parsed = None) (pi_relation_name i))"
    "(co_event_time core, co_event_time_availability core) = project_event_time E (pi_typed_event_json i)"
    "co_document core \<noteq> None \<longleftrightarrow>
       relation_kind (pi_relation_name i) \<noteq> None \<and> \<not> derivation_only (pi_relation_name i) \<and> ?parsed \<noteq> None"
    using core by (auto simp: project_core_def rbind_eq_Inr Let_def project_event_time_def split: if_splits)
  have d: "pd_document_id d = co_semantic_group_id core \<and> pd_document_id d = ''sha256:'' @ pd_semantic_group_sha256 d \<and>
      Some (pd_document_kind d) = relation_kind (pi_relation_name i)" if "co_document core = Some d" for d
    using core that by (auto simp: project_core_def rbind_eq_Inr Let_def split: if_splits)
  obtain attributes exact where e: "exact_attribute_subset E (co_typed_event core) = (attributes, exact)"
    by (cases "exact_attribute_subset E (co_typed_event core)")
  have disp: "co_terminal_disposition core = DirectSemanticDocument \<longleftrightarrow> co_document core \<noteq> None"
    unfolding c(2) c(4) by (simp add: disposition_def)
  show ?thesis
    unfolding project_def project_document_summary_def core rbind_simps e Let_def
    using c d disp by (auto simp: derivation_only_def)
qed

subsection \<open>The command-focused projection\<close>

text \<open>
  The command-focused projection of a readable row never fails: it returns nothing exactly when
  no command, script or operation survives, and otherwise a searchable document under the command
  policy (given that the focused event it prints is read back as printed).
\<close>

theorem m45_searchable:
  assumes "\<forall>material. jcs_bytes E material \<noteq> None"
    and "parse_value E (pi_typed_event_json i) = Some v" "is_object v"
    and "\<forall>focused. command_projection_value E (pi_relation_name i) v = Some focused \<longrightarrow>
      parse_value E (print_value E (VObject (with_time v focused))) = Some (VObject (with_time v focused))"
  shows "\<exists>out. project_m45_command E i = Inr out \<and>
    (out = None \<longleftrightarrow> command_projection_value E (pi_relation_name i) v = None) \<and>
    (\<forall>x. out = Some x \<longrightarrow> pr_document x \<noteq> None \<and>
       po_terminal_disposition (pr_occurrence x) = DirectSemanticDocument \<and>
       po_disposition_reason (pr_occurrence x) = ''projected_by_m45_command_policy'')"
proof (cases "command_projection_value E (pi_relation_name i) v")
  case None
  with assms(2,3) show ?thesis by (simp add: project_m45_command_def)
next
  case (Some focused)
  let ?f = "VObject (with_time v focused)"
  have kind: "relation_kind (pi_relation_name i) \<noteq> None \<and> \<not> derivation_only (pi_relation_name i)"
    using Some by (auto simp: command_projection_value_def relation_kind_def derivation_only_def split: if_splits)
  have parsed: "typed_event_of E (print_value E ?f) = Some ?f"
    using assms(4) Some by (simp add: typed_event_of_def is_object_def)
  obtain core where core: "project_core E (pi_relation_name i) (print_value E ?f) (pi_context i) = Inr core"
    using core_total [OF assms(1)] by blast
  have c: "co_document core \<noteq> None" "co_terminal_disposition core = DirectSemanticDocument"
    using core kind parsed by (auto simp: project_core_def rbind_eq_Inr Let_def disposition_def split: if_splits)
  show ?thesis
    using assms(2,3) Some c by (simp add: project_m45_command_def project_def core case_prod_unfold Let_def)
qed

end
