(* ===== verification/Projection_Example.thy ===== *)
theory Projection_Example
  imports Projection_Facts
begin

text \<open>
  Two process events that differ in a password and in a process identifier, at which the theorems
  about the projection are applied.
\<close>

definition process_event :: "string \<Rightarrow> nat \<Rightarrow> value" where
  "process_event password pid =
     VObject [(''cmd_line'', VString ''ls''), (''pid'', VNumber (PosInt pid)),
              (''process'', VObject [(''cmd_line'', VString ''ls'')]), (''session_token'', VString password)]"

definition focused_event :: "value" where
  "focused_event = VObject [(''action'', VString ''execute command''), (''command'', VString ''ls''),
     (''source_kind'', VString ''typed_process_command'')]"

definition example_projection :: projection_externals where
  "example_projection =
     \<lparr>sha256_hex = (\<lambda>_. ''0''), jcs_bytes = (\<lambda>_. Some []), json_from_str = (\<lambda>_. None),
      find_iter = (\<lambda>_ _. []), to_lowercase = map to_ascii_lowercase,
      parse_value = (\<lambda>s. if s = ''a'' then Some (process_event ''x'' 1)
                          else if s = ''b'' then Some (process_event ''y'' 1)
                          else if s = ''c'' then Some (process_event ''y'' 2)
                          else if s = ''f'' then Some focused_event else None),
      print_value = (\<lambda>_. ''f''), parse_f64 = (\<lambda>_. None), log10_floor = (\<lambda>_. 0),
      timestamp_opt = (\<lambda>_ _. None), parse_from_rfc3339 = (\<lambda>_. None), to_rfc3339 = (\<lambda>_. []),
      to_rfc3339_secs = (\<lambda>_. []), to_rfc3339_millis = (\<lambda>_. []), base64_decode = (\<lambda>_. None)\<rparr>"

definition example_component :: component_ref where
  "example_component = \<lparr>cr_id = ''c'', cr_version = ''1'', cr_sha256 = [], cr_uri = None\<rparr>"

definition example_input :: projection_input where
  "example_input = \<lparr>pi_relation_name = ''ocsf_process_activity'', pi_event_id = ''e'', pi_typed_event_json = ''a'',
     pi_support_ref = ''s'', pi_context = \<lparr>pc_snapshot = example_component, pc_mapping_pack = example_component\<rparr>\<rparr>"

lemma example_total: "\<forall>material. jcs_bytes example_projection material \<noteq> None"
  by (simp add: example_projection_def)

lemma example_projects: "\<exists>x. project example_projection i = Inr x"
  using core_total [OF example_total, of "pi_relation_name i" "pi_typed_event_json i" "pi_context i"]
  by (auto simp: project_def case_prod_unfold Let_def)

lemma example_typed:
  "typed_event_of example_projection ''a'' = Some (process_event ''x'' 1)"
  "typed_event_of example_projection ''b'' = Some (process_event ''y'' 1)"
  "typed_event_of example_projection ''c'' = Some (process_event ''y'' 2)"
  by (simp_all add: typed_event_of_def example_projection_def process_event_def is_object_def)

lemma example_paths:
  "is_secret example_projection ''session_token''" "leaf_name example_projection ''session_token'' \<notin> set TIME_NAMES"
  "is_identifier example_projection ''pid''"
  by code_simp+

lemma process_events_agree:
  assumes "p = q \<or> H ''session_token''" "n = m \<or> H ''pid''"
  shows "agree H [] (process_event p n) (process_event q m)"
proof -
  have t: "agree H ''session_token'' (VString p) (VString q)"
    using assms(1) by (auto intro: agree_same agree_hidden simp: scalar_def)
  have u: "agree H ''pid'' (VNumber (PosInt n)) (VNumber (PosInt m))"
    using assms(2) by (auto intro: agree_same agree_hidden simp: scalar_def)
  show ?thesis
    unfolding process_event_def
    by (rule agree_object) (simp_all add: All_less_Suc nth_Cons' field_path_def agree_same t u)
qed

lemma document_blind_to_concealed_witness:
  "\<exists>x y. project example_projection example_input = Inr x \<and>
     project example_projection (example_input\<lparr>pi_typed_event_json := ''c''\<rparr>) = Inr y \<and>
     pr_document x = pr_document y"
proof -
  obtain x y where x: "project example_projection example_input = Inr x"
    and y: "project example_projection (example_input\<lparr>pi_typed_event_json := ''c''\<rparr>) = Inr y"
    using example_projects by meson
  have "agree (concealed example_projection) [] (process_event ''x'' 1) (process_event ''y'' 2)"
    by (rule process_events_agree) (simp_all add: concealed_def example_paths)
  from document_blind_to_concealed [OF _ _ this _ _ x y] x y show ?thesis
    by (simp add: example_input_def example_typed)
qed

lemma projection_blind_to_secrets_witness:
  "\<exists>x. project example_projection example_input = Inr x \<and>
     project example_projection (example_input\<lparr>pi_typed_event_json := ''b''\<rparr>) = Inr x"
proof -
  obtain x where x: "project example_projection example_input = Inr x" using example_projects by blast
  have "agree (\<lambda>p. is_secret example_projection p \<and> leaf_name example_projection p \<notin> set TIME_NAMES) []
      (process_event ''x'' 1) (process_event ''y'' 1)"
    by (rule process_events_agree) (simp_all add: example_paths)
  from projection_blind_to_secrets [OF _ example_typed(2) this x] x show ?thesis
    by (simp add: example_input_def example_typed)
qed

lemma exact_attributes_accounted_witness:
  "\<exists>attributes projection. exact_attribute_subset example_projection (process_event ''x'' 1) = (attributes, projection) \<and>
     list_all (\<lambda>a. pointer_get (process_event ''x'' 1) (ea_path a) = Some (ea_value a)) attributes"
proof -
  obtain attributes projection where
    e: "exact_attribute_subset example_projection (process_event ''x'' 1) = (attributes, projection)"
    by (cases "exact_attribute_subset example_projection (process_event ''x'' 1)")
  have "distinct_keys (process_event ''x'' 1)" by (simp add: process_event_def)
  from exact_attributes_accounted [OF e this] e show ?thesis by (auto simp: list_all_iff)
qed

lemma document_within_limits_witness:
  "\<exists>core d. project_core example_projection ''ocsf_process_activity'' ''a''
       \<lparr>pc_snapshot = example_component, pc_mapping_pack = example_component\<rparr> = Inr core \<and>
     co_document core = Some d \<and> char_count (pd_semantic_text d) \<le> MAX_SEMANTIC_TEXT_CHARS"
proof -
  obtain core where c: "project_core example_projection ''ocsf_process_activity'' ''a''
       \<lparr>pc_snapshot = example_component, pc_mapping_pack = example_component\<rparr> = Inr core"
    using core_total [OF example_total] by blast
  then obtain d where d: "co_document core = Some d"
    by (auto simp: project_core_parsed [OF example_typed(1)] core_with_def Let_def rbind_eq_Inr relation_kind_def
        derivation_only_def)
  from document_within_limits [OF c d] c d show ?thesis by blast
qed

lemma projection_total_witness:
  "\<exists>x. project example_projection example_input = Inr x \<and> pr_document x \<noteq> None"
  using projection_total [OF example_total, of example_input]
  by (auto simp: example_input_def example_typed relation_kind_def)

lemma m45_searchable_witness:
  "\<exists>x. project_m45_command example_projection example_input = Inr (Some x) \<and> pr_document x \<noteq> None"
proof -
  have parse: "parse_value example_projection (pi_typed_event_json example_input) = Some (process_event ''x'' 1)"
    "is_object (process_event ''x'' 1)" "parse_value example_projection (print_value example_projection v) = Some focused_event" for v
    by (simp_all add: example_projection_def example_input_def process_event_def is_object_def)
  have none: "decode_powershell_encoded_command example_projection s = None" for s
    by (simp add: decode_powershell_encoded_command_def example_projection_def)
  have f: "command_projection_value example_projection (pi_relation_name example_input) (process_event ''x'' 1) =
      Some [(''action'', VString ''execute command''), (''command'', VString ''ls''),
        (''source_kind'', VString ''typed_process_command'')]"
    by (simp add: command_projection_value_def example_input_def process_projection_def process_event_def str_at_def
        bind_option_def or_else_def as_str_def tagged_def none insert_str_def)
  have "with_time (process_event ''x'' 1) m = m" for m
    by (simp add: with_time_def process_event_def or_else_def)
  then have "\<forall>focused. command_projection_value example_projection (pi_relation_name example_input) (process_event ''x'' 1) =
        Some focused \<longrightarrow>
      parse_value example_projection (print_value example_projection (VObject (with_time (process_event ''x'' 1) focused))) =
        Some (VObject (with_time (process_event ''x'' 1) focused))"
    by (simp add: parse f focused_event_def del: One_nat_def)
  from m45_searchable [OF example_total parse(1,2) this] f show ?thesis by auto
qed

end
