(* ===== verification/Matching.thy ===== *)
theory Matching
  imports Prelude "HOL-Library.Multiset"
begin

text \<open>
  Lists that agree up to order: entries matched one to one by distinct keys carry the same
  pairs, and concatenation does not see the order of its parts.
\<close>

lemma mset_of_matching:
  assumes "distinct (map f xs)" and "distinct (map g ys)" and "length xs = length ys"
    and "\<forall>y \<in> set ys. \<exists>x \<in> set xs. f x = g y \<and> h x = k y"
  shows "mset (map (\<lambda>x. (f x, h x)) xs) = mset (map (\<lambda>y. (g y, k y)) ys)"
proof -
  have "distinct (map (\<lambda>x. (f x, h x)) xs)" "distinct (map (\<lambda>y. (g y, k y)) ys)"
    using assms(1,2) by (auto simp: distinct_map inj_on_def)
  moreover have "set (map (\<lambda>y. (g y, k y)) ys) \<subseteq> set (map (\<lambda>x. (f x, h x)) xs)"
    using assms(4) by force
  ultimately show ?thesis
    using assms(3) card_subset_eq [OF List.finite_set, of "set (map (\<lambda>y. (g y, k y)) ys)" "map (\<lambda>x. (f x, h x)) xs"]
    by (simp only: set_eq_iff_mset_eq_distinct [symmetric] distinct_card length_map)
qed

lemma mset_concat_perm: "mset xs = mset ys \<Longrightarrow> mset (concat (map g xs)) = mset (concat (map g ys))"
  by (simp add: mset_concat flip: sum_mset_sum_list)

end
