(* ===== verification/Catalogue.thy ===== *)
theory Catalogue
  imports Token_Example Matching
begin

text \<open>
  The dataset catalogue of \<open>crates/rag-pipeline/src/dataset_catalogue.rs\<close>: the sealed list of
  searchable datasets with the digests of their artifacts, the explicit allowances for relations
  that several datasets share, the lookup of a dataset by binary search, and the check that the
  pipeline components loaded for an entry are the ones it names. The lemmas show that an accepted
  catalogue declares exactly the overlaps it has, that the binary search is a lookup by
  identifier, and that accepted components close over the tasks of the plan.
\<close>

subsection \<open>Data\<close>

datatype catalogue_mode = Normal | TestOnly

record catalogue_artifact_ref =
  ca_path :: safe_path
  ca_component :: component_ref

record catalogue_dataset_entry =
  ce_dataset :: dataset_identity
  ce_dataset_sha256 :: digest
  ce_projection_policy :: component_ref
  ce_prepared_corpus :: catalogue_artifact_ref
  ce_embedding_plan :: catalogue_artifact_ref
  ce_embedding_result_set :: catalogue_artifact_ref
  ce_embedding_profile :: component_ref
  ce_final_index :: catalogue_artifact_ref
  ce_searchable_document_count :: u64
  ce_searchable_reference_count :: u64
  ce_test_only :: bool

record relation_overlap_allowance =
  ra_relation :: string
  ra_dataset_ids :: "string list"
  ra_reason :: string

record dataset_catalogue =
  cat_schema_version :: string
  cat_component_sha256 :: digest
  cat_mode :: catalogue_mode
  cat_source_snapshot :: component_ref
  cat_mapping :: component_ref
  cat_projection_policy :: component_ref
  cat_embedding_profile :: component_ref
  cat_query_compatibility :: string
  cat_rank_merge :: string
  cat_datasets :: "catalogue_dataset_entry list"
  cat_allowed_relation_overlaps :: "relation_overlap_allowance list"

definition DATASET_CATALOGUE_SCHEMA :: string where
  "DATASET_CATALOGUE_SCHEMA = ''livefire.rag.dataset-catalogue/1''"

abbreviation entry_id :: "catalogue_dataset_entry \<Rightarrow> string" where
  "entry_id e \<equiv> ds_id (ce_dataset e)"

fun json_catalogue_mode :: "catalogue_mode \<Rightarrow> json" where
  "json_catalogue_mode Normal = JStr ''normal''"
| "json_catalogue_mode TestOnly = JStr ''test_only''"

text \<open>The component is flattened into the artifact reference.\<close>

definition json_artifact_ref :: "catalogue_artifact_ref \<Rightarrow> json" where
  "json_artifact_ref a = JObj ((''path'', json_path (ca_path a)) # component_ref_fields (ca_component a))"

definition json_catalogue_entry :: "catalogue_dataset_entry \<Rightarrow> json" where
  "json_catalogue_entry e = JObj
     [(''dataset'', json_dataset_identity (ce_dataset e)),
      (''dataset_sha256'', json_digest (ce_dataset_sha256 e)),
      (''projection_policy'', json_component_ref (ce_projection_policy e)),
      (''prepared_corpus'', json_artifact_ref (ce_prepared_corpus e)),
      (''embedding_plan'', json_artifact_ref (ce_embedding_plan e)),
      (''embedding_result_set'', json_artifact_ref (ce_embedding_result_set e)),
      (''embedding_profile'', json_component_ref (ce_embedding_profile e)),
      (''final_index'', json_artifact_ref (ce_final_index e)),
      (''searchable_document_count'', json_u64 (ce_searchable_document_count e)),
      (''searchable_reference_count'', json_u64 (ce_searchable_reference_count e)),
      (''test_only'', JBool (ce_test_only e))]"

definition json_overlap_allowance :: "relation_overlap_allowance \<Rightarrow> json" where
  "json_overlap_allowance a = JObj
     [(''relation'', JStr (ra_relation a)), (''dataset_ids'', json_strs (ra_dataset_ids a)),
      (''reason'', JStr (ra_reason a))]"

definition json_catalogue :: "dataset_catalogue \<Rightarrow> json" where
  "json_catalogue c = JObj
     [(''schema_version'', JStr (cat_schema_version c)),
      (''component_sha256'', json_digest (cat_component_sha256 c)),
      (''mode'', json_catalogue_mode (cat_mode c)),
      (''source_snapshot'', json_component_ref (cat_source_snapshot c)),
      (''mapping'', json_component_ref (cat_mapping c)),
      (''projection_policy'', json_component_ref (cat_projection_policy c)),
      (''embedding_profile'', json_component_ref (cat_embedding_profile c)),
      (''query_compatibility'', JStr (cat_query_compatibility c)),
      (''rank_merge'', JStr (cat_rank_merge c)),
      (''datasets'', JArr (map json_catalogue_entry (cat_datasets c))),
      (''allowed_relation_overlaps'', JArr (map json_overlap_allowance (cat_allowed_relation_overlaps c)))]"

subsection \<open>Validation\<close>

definition check_catalogue_artifact ::
    "safe_path set \<Rightarrow> catalogue_artifact_ref \<Rightarrow> pipeline_error + safe_path set" where
  "check_catalogue_artifact paths artifact =
     rbind (component_ref_validate (ca_component artifact)) (\<lambda>_.
     if ca_path artifact \<in> paths then Inl (Invalid ''duplicate catalogue artifact path'')
     else Inr (insert (ca_path artifact) paths))"

type_synonym relation_owners = "(string, string list) btree"

text \<open>\<open>relation_owners.entry(relation).or_default().push(id)\<close>.\<close>

definition push_owner :: "string \<Rightarrow> string \<Rightarrow> relation_owners \<Rightarrow> relation_owners" where
  "push_owner dataset_id relation owners =
     bt_insert relation
       ((case bt_get owners relation of None \<Rightarrow> [] | Some ids \<Rightarrow> ids) @ [dataset_id]) owners"

type_synonym catalogue_state = "string set \<times> safe_path set \<times> relation_owners \<times> string option"

definition entry_artifacts :: "catalogue_dataset_entry \<Rightarrow> catalogue_artifact_ref list" where
  "entry_artifacts e =
     [ce_prepared_corpus e, ce_embedding_plan e, ce_embedding_result_set e, ce_final_index e]"

fun validate_catalogue_entry ::
    "externals \<Rightarrow> dataset_catalogue \<Rightarrow> catalogue_state \<Rightarrow> catalogue_dataset_entry \<Rightarrow>
     pipeline_error + catalogue_state" where
  "validate_catalogue_entry X c (dataset_ids, artifact_paths, owners, previous) e =
     rbind (dataset_identity_validate (ce_dataset e)) (\<lambda>_.
     rbind (try_all require_safe_u64
              [ce_searchable_document_count e, ce_searchable_reference_count e]) (\<lambda>_.
     if included_relations (ce_dataset e) = []
        \<or> ce_searchable_document_count e = 0
        \<or> ce_searchable_reference_count e = 0
        \<or> ce_searchable_reference_count e < ce_searchable_document_count e
        \<or> (case previous of None \<Rightarrow> False | Some p \<Rightarrow> p \<ge> entry_id e)
        \<or> entry_id e \<in> dataset_ids
     then Inl (Invalid ''dataset catalogue entry binding'')
     else
     rbind (canonical_digest X (json_dataset_identity (ce_dataset e))) (\<lambda>d.
     if ce_dataset_sha256 e \<noteq> d
        \<or> source_snapshot (ce_dataset e) \<noteq> cat_source_snapshot c
        \<or> ds_mapping (ce_dataset e) \<noteq> cat_mapping c
        \<or> ce_projection_policy e \<noteq> cat_projection_policy c
        \<or> ce_embedding_profile e \<noteq> cat_embedding_profile c
        \<or> cat_mode c = Normal \<and> ce_test_only e
        \<or> cat_mode c = TestOnly \<and> \<not> ce_test_only e
     then Inl (Invalid ''dataset catalogue entry binding'')
     else
     rbind (try_fold check_catalogue_artifact artifact_paths (entry_artifacts e)) (\<lambda>artifact_paths.
     Inr (insert (entry_id e) dataset_ids, artifact_paths,
          fold (push_owner (entry_id e)) (included_relations (ce_dataset e)) owners,
          Some (entry_id e))))))"

definition check_allowance ::
    "relation_owners \<Rightarrow> string set \<Rightarrow> string option \<Rightarrow> relation_overlap_allowance \<Rightarrow>
     pipeline_error + string option" where
  "check_allowance actual_overlaps dataset_ids previous a =
     rbind (require_text (ra_relation a)) (\<lambda>_.
     rbind (require_text (ra_reason a)) (\<lambda>_.
     if (case previous of None \<Rightarrow> False | Some p \<Rightarrow> p \<ge> ra_relation a)
        \<or> length (ra_dataset_ids a) < 2
        \<or> [] \<in> set (ra_dataset_ids a)
        \<or> \<not> successively (<) (ra_dataset_ids a)
        \<or> \<not> set (ra_dataset_ids a) \<subseteq> dataset_ids
     then Inl (Invalid ''relation overlap allowance'')
     else
     rbind (ok_or (Invalid ''unnecessary relation overlap allowance'')
              (bt_get actual_overlaps (ra_relation a))) (\<lambda>owners.
     if length owners \<noteq> length (ra_dataset_ids a)
        \<or> list_ex (\<lambda>(owner, allowed). owner \<noteq> allowed) (zip owners (ra_dataset_ids a))
     then Inl (Invalid ''relation overlap allowance coverage'')
     else Inr (Some (ra_relation a)))))"

definition validate_overlap_allowances ::
    "relation_overlap_allowance list \<Rightarrow> relation_owners \<Rightarrow> string set \<Rightarrow> pipeline_error + unit" where
  "validate_overlap_allowances allowances owners dataset_ids =
     (let actual_overlaps = filter (\<lambda>(_, ids). length ids > 1) owners in
     rbind (try_fold (check_allowance actual_overlaps dataset_ids) None allowances) (\<lambda>_.
     if length allowances \<noteq> length actual_overlaps
     then Inl (Invalid ''unapproved relation overlap'') else Inr ()))"

text \<open>The checks of \<open>DatasetCatalogue::validate\<close> before the comparison of the digest.\<close>

definition catalogue_checks :: "externals \<Rightarrow> dataset_catalogue \<Rightarrow> pipeline_error + unit" where
  "catalogue_checks X c =
     (if cat_schema_version c \<noteq> DATASET_CATALOGUE_SCHEMA
        \<or> cat_query_compatibility c \<noteq> ''single_embedding_profile''
        \<or> cat_rank_merge c \<noteq> ''reciprocal_rank_fusion_v1''
        \<or> cat_datasets c = []
      then Inl (Invalid ''dataset catalogue contract'')
      else
      rbind (component_ref_validate (cat_source_snapshot c)) (\<lambda>_.
      rbind (component_ref_validate (cat_mapping c)) (\<lambda>_.
      rbind (component_ref_validate (cat_projection_policy c)) (\<lambda>_.
      rbind (component_ref_validate (cat_embedding_profile c)) (\<lambda>_.
      rbind (try_fold (validate_catalogue_entry X c) ({}, {}, [], None) (cat_datasets c))
        (\<lambda>(dataset_ids, _, owners, _).
      validate_overlap_allowances (cat_allowed_relation_overlaps c) owners dataset_ids))))))"

definition catalogue_validate :: "externals \<Rightarrow> dataset_catalogue \<Rightarrow> pipeline_error + unit" where
  "catalogue_validate X c =
     rbind (catalogue_checks X c) (\<lambda>_.
     rbind (component_digest X (json_catalogue c)) (\<lambda>d.
     if cat_component_sha256 c \<noteq> d then Inl (Invalid ''dataset catalogue component digest'')
     else Inr ()))"

definition catalogue_seal :: "externals \<Rightarrow> dataset_catalogue \<Rightarrow> pipeline_error + dataset_catalogue" where
  "catalogue_seal X c =
     rbind (component_digest X (json_catalogue c)) (\<lambda>d.
       let c' = c\<lparr>cat_component_sha256 := d\<rparr>
       in rbind (catalogue_validate X c') (\<lambda>_. Inr c'))"

subsection \<open>Lookup\<close>

datatype ordering = Less | Equal | Greater

definition str_cmp :: "string \<Rightarrow> string \<Rightarrow> ordering" where
  "str_cmp a b = (if a < b then Less else if a = b then Equal else Greater)"

text \<open>
  \<open>slice::binary_search_by\<close>: the standard library halves the searched part until one element is
  left and compares that one.
\<close>

function search_loop :: "('a \<Rightarrow> ordering) \<Rightarrow> 'a list \<Rightarrow> nat \<Rightarrow> nat \<Rightarrow> nat" where
  "search_loop f xs base n =
     (if n > 1
      then let half = n div 2; mid = base + half
           in search_loop f xs (if f (xs ! mid) = Greater then base else mid) (n - half)
      else base)"
  by auto
termination by (relation "measure (\<lambda>(f, xs, base, n). n)") auto

declare search_loop.simps [simp del]

definition binary_search_by :: "('a \<Rightarrow> ordering) \<Rightarrow> 'a list \<Rightarrow> nat option" where
  "binary_search_by f xs =
     (if xs = [] then None
      else let base = search_loop f xs 0 (length xs)
           in if f (xs ! base) = Equal then Some base else None)"

definition catalogue_dataset :: "dataset_catalogue \<Rightarrow> string \<Rightarrow> catalogue_dataset_entry option" where
  "catalogue_dataset c dataset_id =
     map_option (\<lambda>index. cat_datasets c ! index)
       (binary_search_by (\<lambda>e. str_cmp (entry_id e) dataset_id) (cat_datasets c))"

subsection \<open>Binding to the pipeline components\<close>

definition result_kind :: "embedding_result_set \<Rightarrow> string \<times> bool \<times> bool" where
  "result_kind s = (rs_schema_version s, rs_test_only s, rs_derivation s \<noteq> None)"

definition check_catalogue_task ::
    "(string, receipt_entry) btree \<Rightarrow> embedding_task_v2 \<Rightarrow> pipeline_error + unit" where
  "check_catalogue_task receipt_entries t =
     rbind (ok_or (Invalid ''catalogue result task coverage'')
              (bt_get receipt_entries (t2_task_id t))) (\<lambda>receipt.
     if re_path receipt \<noteq> t2_receipt_path t then Inl (Invalid ''catalogue result task binding'')
     else Inr ())"

definition validate_dataset_pipeline_binding ::
    "externals \<Rightarrow> catalogue_dataset_entry \<Rightarrow> prepared_corpus_manifest \<Rightarrow> embedding_plan_v2 \<Rightarrow>
     embedding_result_set \<Rightarrow> pipeline_error + unit" where
  "validate_dataset_pipeline_binding X e prepared plan s =
     (let mismatch = Inl (Invalid ''catalogue pipeline component binding'') in
     rbind (prepared_manifest_validate X prepared) (\<lambda>_.
     rbind (plan_v2_validate_manifest_binding X plan prepared) (\<lambda>_.
     let receipt_entries = bt_collect (map (\<lambda>r. (re_task_id r, r)) (rs_receipts s)) in
     if result_kind s \<notin> {(RESULT_SET_SCHEMA, False, False), (TEST_RESULT_SET_SCHEMA, True, False),
                         (DERIVED_RESULT_SET_SCHEMA, False, True)}
     then mismatch
     else
     rbind (component_digest X (json_result_set s)) (\<lambda>set_digest.
     if rs_component_sha256 s \<noteq> set_digest
        \<or> rs_plan_sha256 s \<noteq> p2_component_sha256 plan
        \<or> rs_prepared_corpus_sha256 s \<noteq> pc_component_sha256 prepared
        \<or> rs_embedding_profile_sha256 s \<noteq> cr_sha256 (epr_component (p2_embedding_profile plan))
        \<or> rs_document_count s \<noteq> pc_document_count prepared
        \<or> rs_document_order_sha256 s \<noteq> pc_document_order_sha256 prepared
        \<or> p2_schema_version plan \<noteq> EMBEDDING_PLAN_V2_SCHEMA
        \<or> ce_dataset e \<noteq> pc_dataset prepared
     then mismatch
     else
     rbind (canonical_digest X (json_dataset_identity (pc_dataset prepared))) (\<lambda>dataset_digest.
     if ce_dataset_sha256 e \<noteq> dataset_digest
        \<or> ce_projection_policy e \<noteq> pc_projection_policy prepared
        \<or> cr_sha256 (ca_component (ce_prepared_corpus e)) \<noteq> pc_component_sha256 prepared
        \<or> cr_sha256 (ca_component (ce_embedding_plan e)) \<noteq> p2_component_sha256 plan
        \<or> cr_sha256 (ca_component (ce_embedding_result_set e)) \<noteq> rs_component_sha256 s
        \<or> ce_embedding_profile e \<noteq> epr_component (p2_embedding_profile plan)
        \<or> ce_searchable_document_count e \<noteq> pc_document_count prepared
        \<or> ce_searchable_reference_count e \<noteq> pc_occurrence_count prepared
        \<or> length receipt_entries \<noteq> length (rs_receipts s)
        \<or> length receipt_entries \<noteq> length (p2_tasks plan)
        \<or> ce_test_only e \<noteq> rs_test_only s
     then mismatch
     else try_all (check_catalogue_task receipt_entries) (p2_tasks plan))))))"

subsection \<open>Sealing\<close>

lemma catalogue_checks_reseal: "catalogue_checks X (c\<lparr>cat_component_sha256 := d\<rparr>) = catalogue_checks X c"
proof -
  have "validate_catalogue_entry X (c\<lparr>cat_component_sha256 := d\<rparr>) = validate_catalogue_entry X c"
    by (intro ext) (auto simp: validate_catalogue_entry.simps split: prod.split)
  then show ?thesis by (simp add: catalogue_checks_def)
qed

interpretation catalogue_sealing: sealed_component cat_component_sha256
  "\<lambda>d c :: dataset_catalogue. c\<lparr>cat_component_sha256 := d\<rparr>" json_catalogue
  "\<lambda>X c. catalogue_checks X c = Inr ()" catalogue_validate catalogue_seal
proof
  fix d X u and c :: dataset_catalogue
  show "cat_component_sha256 (c\<lparr>cat_component_sha256 := d\<rparr>) = d" by simp
  show "c\<lparr>cat_component_sha256 := cat_component_sha256 c\<rparr> = c" by simp
  show "without_self_digest (json_catalogue (c\<lparr>cat_component_sha256 := d\<rparr>)) =
      without_self_digest (json_catalogue c)"
    by (simp add: json_catalogue_def without_self_digest_def)
  show "(catalogue_checks X (c\<lparr>cat_component_sha256 := d\<rparr>) = Inr ()) = (catalogue_checks X c = Inr ())"
    by (simp add: catalogue_checks_reseal)
  show "catalogue_validate X c = Inr u \<longleftrightarrow> catalogue_checks X c = Inr () \<and>
      component_digest X (json_catalogue c) = Inr (cat_component_sha256 c)"
    by (auto simp: catalogue_validate_def rbind_eq_Inr)
  show "catalogue_seal X c = rbind (component_digest X (json_catalogue c))
      (\<lambda>d. rbind (catalogue_validate X (c\<lparr>cat_component_sha256 := d\<rparr>))
        (\<lambda>_. Inr (c\<lparr>cat_component_sha256 := d\<rparr>)))"
    by (simp add: catalogue_seal_def Let_def)
qed

subsection \<open>Owners of relations\<close>

text \<open>The datasets that include a relation, in catalogue order.\<close>

definition owner_ids :: "catalogue_dataset_entry list \<Rightarrow> string \<Rightarrow> string list" where
  "owner_ids es r = map entry_id (filter (\<lambda>e. r \<in> set (included_relations (ce_dataset e))) es)"

lemma owner_ids_simps [simp]:
  "owner_ids [] r = []"
  "owner_ids (es @ fs) r = owner_ids es r @ owner_ids fs r"
  "owner_ids [e] r = (if r \<in> set (included_relations (ce_dataset e)) then [entry_id e] else [])"
  by (simp_all add: owner_ids_def)

definition owners_sound :: "relation_owners \<Rightarrow> catalogue_dataset_entry list \<Rightarrow> bool" where
  "owners_sound owners es \<longleftrightarrow> bt_ok owners \<and>
     (\<forall>r. bt_get owners r = (if owner_ids es r = [] then None else Some (owner_ids es r)))"

lemma push_owners:
  "bt_ok m \<Longrightarrow> distinct rs \<Longrightarrow> bt_ok (fold (push_owner i) rs m) \<and>
   (\<forall>r. bt_get (fold (push_owner i) rs m) r =
      (if r \<in> set rs then Some ((case bt_get m r of None \<Rightarrow> [] | Some ids \<Rightarrow> ids) @ [i]) else bt_get m r))"
  by (induction rs arbitrary: m) (auto simp: push_owner_def bt_insert_ok bt_insert_get)

lemma owners_sound_step:
  assumes "owners_sound m es" and "distinct (included_relations (ce_dataset e))"
  shows "owners_sound (fold (push_owner (entry_id e)) (included_relations (ce_dataset e)) m) (es @ [e])"
  using push_owners [OF _ assms(2), of m "entry_id e"] assms(1) by (auto simp: owners_sound_def)

definition entry_ok :: "externals \<Rightarrow> dataset_catalogue \<Rightarrow> catalogue_dataset_entry \<Rightarrow> bool" where
  "entry_ok X c e \<longleftrightarrow> dataset_identity_validate (ce_dataset e) = Inr () \<and>
     included_relations (ce_dataset e) \<noteq> [] \<and>
     0 < ce_searchable_document_count e \<and>
     ce_searchable_document_count e \<le> ce_searchable_reference_count e \<and>
     ce_searchable_reference_count e \<le> MAX_SAFE_JSON_INTEGER \<and>
     canonical_digest X (json_dataset_identity (ce_dataset e)) = Inr (ce_dataset_sha256 e) \<and>
     source_snapshot (ce_dataset e) = cat_source_snapshot c \<and>
     ds_mapping (ce_dataset e) = cat_mapping c \<and>
     ce_projection_policy e = cat_projection_policy c \<and>
     ce_embedding_profile e = cat_embedding_profile c \<and>
     (ce_test_only e \<longleftrightarrow> cat_mode c = TestOnly)"

definition artifact_paths_of :: "catalogue_dataset_entry list \<Rightarrow> safe_path list" where
  "artifact_paths_of es = concat (map (\<lambda>e. map ca_path (entry_artifacts e)) es)"

lemma check_artifact_fold:
  "try_fold check_catalogue_artifact P as = Inr Q \<longleftrightarrow>
     (\<forall>a \<in> set as. component_ref_validate (ca_component a) = Inr ()) \<and> distinct (map ca_path as) \<and>
     P \<inter> ca_path ` set as = {} \<and> Q = P \<union> ca_path ` set as"
  by (induction as arbitrary: P) (auto simp: check_catalogue_artifact_def rbind_eq_Inr)

definition entries_accepted ::
    "externals \<Rightarrow> dataset_catalogue \<Rightarrow> catalogue_dataset_entry list \<Rightarrow> catalogue_state \<Rightarrow> bool" where
  "entries_accepted X c es st \<longleftrightarrow> (case st of (ids, paths, owners, previous) \<Rightarrow>
     ids = entry_id ` set es \<and> paths = set (artifact_paths_of es) \<and> distinct (artifact_paths_of es) \<and>
     owners_sound owners es \<and> previous = (if es = [] then None else Some (entry_id (last es))) \<and>
     sorted_wrt (<) (map entry_id es) \<and> list_all (entry_ok X c) es)"

lemma entries_accepted_step:
  assumes "entries_accepted X c es st" and "validate_catalogue_entry X c st e = Inr st'"
  shows "entries_accepted X c (es @ [e]) st'"
proof -
  obtain ids paths owners previous where st: "st = (ids, paths, owners, previous)" by (cases st) auto
  from assms(2) obtain paths' where
    ds: "dataset_identity_validate (ce_dataset e) = Inr ()"
    and lim: "ce_searchable_reference_count e \<le> MAX_SAFE_JSON_INTEGER"
    and pre: "included_relations (ce_dataset e) \<noteq> []" "ce_searchable_document_count e \<noteq> 0"
      "ce_searchable_document_count e \<le> ce_searchable_reference_count e"
      "previous = None \<or> (\<exists>p. previous = Some p \<and> p < entry_id e)"
    and dig: "canonical_digest X (json_dataset_identity (ce_dataset e)) = Inr (ce_dataset_sha256 e)"
    and bind: "source_snapshot (ce_dataset e) = cat_source_snapshot c" "ds_mapping (ce_dataset e) = cat_mapping c"
      "ce_projection_policy e = cat_projection_policy c" "ce_embedding_profile e = cat_embedding_profile c"
      "\<not> (cat_mode c = Normal \<and> ce_test_only e)" "\<not> (cat_mode c = TestOnly \<and> \<not> ce_test_only e)"
    and arts: "try_fold check_catalogue_artifact paths (entry_artifacts e) = Inr paths'"
    and st': "st' = (insert (entry_id e) ids, paths',
          fold (push_owner (entry_id e)) (included_relations (ce_dataset e)) owners, Some (entry_id e))"
    unfolding st validate_catalogue_entry.simps rbind_eq_Inr if_Inl_eq_Inr try_all_ok require_safe_u64_ok
      de_Morgan_disj not_not linorder_not_less linorder_not_le
    by (auto split: option.splits)
  have d: "distinct (included_relations (ce_dataset e))" using ds by (simp add: dataset_identity_validate_ok)
  have ord: "\<forall>f \<in> set es. entry_id f < entry_id e"
  proof
    fix f assume f: "f \<in> set es"
    then have ne: "es \<noteq> []" by auto
    with assms(1) pre(4) have last: "entry_id (last es) < entry_id e"
      by (simp add: entries_accepted_def st)
    have "sorted_wrt (<) (map entry_id es)" using assms(1) by (simp add: entries_accepted_def st)
    then have "entry_id f \<le> entry_id (last es)"
      using f ne by (induction es rule: rev_induct) (auto simp: sorted_wrt_append intro: less_imp_le)
    with last show "entry_id f < entry_id e" by simp
  qed
  have "entry_ok X c e"
    using ds lim pre(1-3) dig bind by (cases "cat_mode c") (auto simp: entry_ok_def word_gt_0)
  moreover have "distinct (artifact_paths_of (es @ [e])) \<and> paths' = set (artifact_paths_of (es @ [e]))"
    using assms(1) arts unfolding check_artifact_fold by (auto simp: entries_accepted_def st artifact_paths_of_def)
  ultimately show ?thesis
    using assms(1) owners_sound_step [OF _ d] ord
    by (auto simp: entries_accepted_def st st' sorted_wrt_append)
qed

lemma entries_accepted_fold:
  "try_fold (validate_catalogue_entry X c) st es = Inr st' \<Longrightarrow> entries_accepted X c fs st \<Longrightarrow>
   entries_accepted X c (fs @ es) st'"
proof (induction es arbitrary: st fs)
  case (Cons e es)
  then obtain s where "validate_catalogue_entry X c st e = Inr s"
    "try_fold (validate_catalogue_entry X c) s es = Inr st'" by (auto simp: rbind_eq_Inr)
  with Cons.IH [of s "fs @ [e]"] entries_accepted_step [OF Cons.prems(2)] show ?case by simp
qed simp

text \<open>An ordered map is the list of its keys in order with their values.\<close>

lemma bt_as_list:
  assumes "bt_ok m"
  shows "m = map (\<lambda>k. (k, the (bt_get m k))) (sorted_list_of_set (dom (bt_get m)))"
proof -
  have keys: "sorted_list_of_set (dom (bt_get m)) = map fst m"
    using assms by (simp add: bt_ok_def bt_get_def [abs_def] dom_map_of_conv_image_fst
        sorted_list_of_set.idem_if_sorted_distinct strict_sorted_iff flip: set_map)
  have "the (bt_get m (fst kv)) = snd kv" if "kv \<in> set m" for kv
    using map_of_is_SomeI [OF bt_ok_distinct [OF assms], of "fst kv" "snd kv"] that
    by (simp add: bt_get_def)
  then show ?thesis by (simp add: keys map_idI)
qed

lemma keyed_lists_eq:
  fixes xs ys :: "('a::linorder \<times> 'b) list"
  assumes "sorted_wrt (<) (map fst xs)" and "sorted_wrt (<) (map fst ys)"
    and "set xs \<subseteq> set ys" and "length xs = length ys"
  shows "xs = ys"
proof -
  have d: "distinct (map fst xs)" "distinct (map fst ys)" "sorted (map fst xs)" "sorted (map fst ys)"
    using assms(1,2) by (simp_all add: strict_sorted_iff)
  then have "distinct xs" "distinct ys" by (simp_all add: distinct_map)
  then have "set xs = set ys"
    using assms(3,4) by (metis card_subset_eq distinct_card List.finite_set)
  moreover have "inj_on fst (set xs \<union> set ys)"
    using d calculation by (simp add: distinct_map)
  ultimately show ?thesis
    using d by (intro map_sorted_distinct_set_unique [of fst]) auto
qed

lemma check_allowance_fold:
  "try_fold (check_allowance act ids) previous as = Inr r \<Longrightarrow>
   (\<forall>a \<in> set as. ra_reason a \<noteq> [] \<and> bt_get act (ra_relation a) = Some (ra_dataset_ids a) \<and>
      (case previous of None \<Rightarrow> True | Some p \<Rightarrow> p < ra_relation a)) \<and>
   sorted_wrt (<) (map ra_relation as)"
proof (induction as arbitrary: previous)
  case (Cons a as)
  have zip: "xs = ys" if "length xs = length ys" "\<not> list_ex (\<lambda>(x, y). x \<noteq> y) (zip xs ys)" for xs ys :: "string list"
    using that by (induction xs ys rule: list_induct2) auto
  from Cons.prems obtain s where "check_allowance act ids previous a = Inr s"
    and rest: "try_fold (check_allowance act ids) s as = Inr r" by (auto simp: rbind_eq_Inr)
  then have a: "ra_reason a \<noteq> []" "bt_get act (ra_relation a) = Some (ra_dataset_ids a)"
    "case previous of None \<Rightarrow> True | Some p \<Rightarrow> p < ra_relation a" "s = Some (ra_relation a)"
    unfolding check_allowance_def rbind_eq_Inr if_Inl_eq_Inr ok_or_eq_Inr require_text_ok de_Morgan_disj
    using zip by (auto simp: linorder_not_le split: option.splits)
  from Cons.IH [OF rest] a show ?case by (fastforce split: option.splits dest: less_trans)
qed simp

lemma allowances_exact:
  assumes "validate_overlap_allowances as owners ids = Inr ()" and "bt_ok owners"
  shows "map (\<lambda>a. (ra_relation a, ra_dataset_ids a)) as = filter (\<lambda>(_, ids). length ids > 1) owners"
    and "\<forall>a \<in> set as. ra_reason a \<noteq> []"
proof -
  let ?act = "filter (\<lambda>(_, ids). length ids > 1) owners"
  from assms(1) obtain r where f: "try_fold (check_allowance ?act ids) None as = Inr r"
    and len: "length as = length ?act"
    unfolding validate_overlap_allowances_def Let_def rbind_eq_Inr if_Inl_eq_Inr by auto
  note facts = check_allowance_fold [OF f]
  show "\<forall>a \<in> set as. ra_reason a \<noteq> []" using facts by blast
  have "sorted_wrt (<) (map fst ?act)"
    using assms(2) unfolding bt_ok_def sorted_wrt_map by (rule sorted_wrt_filter)
  moreover have "set (map (\<lambda>a. (ra_relation a, ra_dataset_ids a)) as) \<subseteq> set ?act"
    using facts bt_get_in by fastforce
  ultimately show "map (\<lambda>a. (ra_relation a, ra_dataset_ids a)) as = ?act"
    using facts len by (intro keyed_lists_eq) (simp_all add: comp_def)
qed

subsection \<open>Accepted catalogues\<close>

text \<open>The relations that more than one of the datasets include, in order.\<close>

definition shared_relations :: "catalogue_dataset_entry list \<Rightarrow> string list" where
  "shared_relations es =
     filter (\<lambda>r. length (owner_ids es r) > 1)
       (sorted_list_of_set (\<Union>e \<in> set es. set (included_relations (ce_dataset e))))"

lemma owners_shared:
  assumes "owners_sound owners es"
  shows "filter (\<lambda>(_, ids). length ids > 1) owners = map (\<lambda>r. (r, owner_ids es r)) (shared_relations es)"
proof -
  have dom: "dom (bt_get owners) = (\<Union>e \<in> set es. set (included_relations (ce_dataset e)))"
    using assms by (auto simp: owners_sound_def owner_ids_def dom_def filter_empty_conv split: if_splits)
  have ok: "bt_ok owners" using assms by (simp add: owners_sound_def)
  have "the (bt_get owners r) = owner_ids es r" if "r \<in> dom (bt_get owners)" for r
    using that assms by (auto simp: owners_sound_def split: if_splits)
  then have "map (\<lambda>k. (k, the (bt_get owners k))) (sorted_list_of_set (dom (bt_get owners))) =
      map (\<lambda>r. (r, owner_ids es r)) (sorted_list_of_set (dom (bt_get owners)))"
    using finite_dom_map_of [of owners] by (simp add: bt_get_def [abs_def])
  with bt_as_list [OF ok]
  have "owners = map (\<lambda>r. (r, owner_ids es r)) (sorted_list_of_set (dom (bt_get owners)))" by (rule trans)
  then show ?thesis
    unfolding shared_relations_def dom [symmetric]
    by (metis (mono_tags, lifting) case_prod_conv comp_apply filter_cong filter_map)
qed

lemma accepted_entries:
  assumes "catalogue_validate X c = Inr ()"
  obtains ids paths owners previous where
    "entries_accepted X c (cat_datasets c) (ids, paths, owners, previous)"
    and "validate_overlap_allowances (cat_allowed_relation_overlaps c) owners ids = Inr ()"
proof -
  from assms obtain ids paths owners previous where
    fold: "try_fold (validate_catalogue_entry X c) ({}, {}, [], None) (cat_datasets c) =
      Inr (ids, paths, owners, previous)"
    and over: "validate_overlap_allowances (cat_allowed_relation_overlaps c) owners ids = Inr ()"
    unfolding catalogue_validate_def catalogue_checks_def rbind_eq_Inr if_Inl_eq_Inr by auto
  have "entries_accepted X c [] ({}, {}, [], None)"
    by (simp add: entries_accepted_def artifact_paths_of_def owners_sound_def bt_ok_def bt_get_def)
  from entries_accepted_fold [OF fold this] over that show ?thesis by simp
qed

text \<open>
  C11: An accepted catalogue is closed. Its datasets are listed in strictly ascending order of
  their identifiers, no artifact path occurs twice, every entry agrees with the catalogue's
  source, mapping, projection, profile and mode and carries the digest of its dataset, and the
  allowances are exactly the relations that more than one dataset includes, each with exactly
  the datasets that include it and a reason.
\<close>

theorem catalogue_closed:
  assumes "catalogue_validate X c = Inr ()"
  shows "sorted_wrt (<) (map entry_id (cat_datasets c)) \<and>
    distinct (artifact_paths_of (cat_datasets c)) \<and> list_all (entry_ok X c) (cat_datasets c) \<and>
    map (\<lambda>a. (ra_relation a, ra_dataset_ids a)) (cat_allowed_relation_overlaps c) =
      map (\<lambda>r. (r, owner_ids (cat_datasets c) r)) (shared_relations (cat_datasets c)) \<and>
    (\<forall>a \<in> set (cat_allowed_relation_overlaps c). ra_reason a \<noteq> [])"
proof -
  from accepted_entries [OF assms] obtain ids paths owners previous where
    acc: "entries_accepted X c (cat_datasets c) (ids, paths, owners, previous)"
    and over: "validate_overlap_allowances (cat_allowed_relation_overlaps c) owners ids = Inr ()" .
  then have sound: "owners_sound owners (cat_datasets c)" by (simp add: entries_accepted_def)
  then have "bt_ok owners" by (simp add: owners_sound_def)
  from allowances_exact [OF over this] owners_shared [OF sound] acc show ?thesis
    by (simp add: entries_accepted_def)
qed

subsection \<open>Lookup by identifier\<close>

lemma search_loop_finds:
  "(\<And>i j. i < j \<Longrightarrow> j < length xs \<Longrightarrow> f (xs ! i) \<noteq> Less \<Longrightarrow> f (xs ! j) = Greater) \<Longrightarrow>
   base \<le> k \<Longrightarrow> k < base + n \<Longrightarrow> base + n \<le> length xs \<Longrightarrow> f (xs ! k) = Equal \<Longrightarrow>
   search_loop f xs base n = k"
proof (induction f xs base n rule: search_loop.induct)
  case (1 f xs base n)
  show ?case
  proof (cases "n > 1")
    case True
    let ?mid = "base + n div 2"
    have "k < ?mid" if g: "f (xs ! ?mid) = Greater"
    proof (rule ccontr)
      assume "\<not> k < ?mid"
      with g 1(6) have "?mid < k" by (cases "k = ?mid") auto
      then show False using 1(2) [of ?mid k] g 1(4-6) by simp
    qed
    moreover have "?mid \<le> k" if "f (xs ! ?mid) \<noteq> Greater"
      using that 1(2) [of k ?mid] 1(5,6) True by fastforce
    ultimately show ?thesis
      using 1(1) [OF True refl refl 1(2)] 1(3-6) True
      by (subst search_loop.simps) (auto simp: Let_def)
  next
    case False
    with 1(3,4) show ?thesis by (subst search_loop.simps) auto
  qed
qed

lemma search_loop_less: "0 < n \<Longrightarrow> search_loop f xs base n < base + n"
proof (induction f xs base n rule: search_loop.induct)
  case (1 f xs base n)
  show ?case
  proof (cases "n > 1")
    case True
    let ?next = "if f (xs ! (base + n div 2)) = Greater then base else base + n div 2"
    have "search_loop f xs ?next (n - n div 2) < ?next + (n - n div 2)"
      using True by (intro 1(1)) auto
    also have "\<dots> \<le> base + n" using True by auto
    finally show ?thesis using True by (subst search_loop.simps) (simp add: Let_def)
  next
    case False
    with 1 show ?thesis by (subst search_loop.simps) auto
  qed
qed

lemma binary_search_sorted:
  assumes "sorted_wrt (<) (map k xs)"
  shows "map_option (\<lambda>index. xs ! index) (binary_search_by (\<lambda>e. str_cmp (k e) i) xs) =
    map_of (map (\<lambda>e. (k e, e)) xs) i"
proof -
  let ?f = "\<lambda>e. str_cmp (k e) i"
  have lt: "k (xs ! m) < k (xs ! j)" if "m < j" "j < length xs" for m j
    using assms that by (simp add: sorted_wrt_iff_nth_less)
  have dist: "distinct (map fst (map (\<lambda>e. (k e, e)) xs))"
    using assms by (simp add: comp_def sorted_wrt_less_distinct)
  show ?thesis
  proof (cases "\<exists>j < length xs. k (xs ! j) = i")
    case True
    then obtain j where j: "j < length xs" "k (xs ! j) = i" by blast
    have "?f (xs ! b) = Greater" if "a < b" "b < length xs" "?f (xs ! a) \<noteq> Less" for a b
      using lt [OF that(1,2)] that(3) by (auto simp: str_cmp_def split: if_splits)
    moreover have "?f (xs ! j) = Equal" using j by (simp add: str_cmp_def)
    ultimately have "search_loop ?f xs 0 (length xs) = j"
      using j(1) by (intro search_loop_finds) auto
    moreover have "map_of (map (\<lambda>e. (k e, e)) xs) i = Some (xs ! j)"
      using map_of_is_SomeI [OF dist, of i "xs ! j"] j by auto
    ultimately show ?thesis using j by (auto simp: binary_search_by_def Let_def str_cmp_def)
  next
    case False
    have "xs = [] \<or> search_loop ?f xs 0 (length xs) < length xs"
      using search_loop_less [of "length xs" ?f xs 0] by auto
    with False have "binary_search_by ?f xs = None"
      by (auto simp: binary_search_by_def Let_def str_cmp_def)
    moreover have "map_of (map (\<lambda>e. (k e, e)) xs) i = None"
      using False by (auto simp: map_of_eq_None_iff in_set_conv_nth)
    ultimately show ?thesis by simp
  qed
qed

text \<open>
  C40: The binary search of an accepted catalogue is a lookup: it finds the entry with the
  identifier when there is one and nothing otherwise.
\<close>

theorem catalogue_lookup:
  assumes "catalogue_validate X c = Inr ()"
  shows "catalogue_dataset c dataset_id =
    map_of (map (\<lambda>e. (entry_id e, e)) (cat_datasets c)) dataset_id"
proof -
  from accepted_entries [OF assms] obtain ids paths owners previous where
    "entries_accepted X c (cat_datasets c) (ids, paths, owners, previous)" .
  then have "sorted_wrt (<) (map entry_id (cat_datasets c))" by (simp add: entries_accepted_def)
  from binary_search_sorted [OF this] show ?thesis by (simp add: catalogue_dataset_def)
qed

subsection \<open>Closure over the plan\<close>

lemma check_catalogue_task_ok:
  "check_catalogue_task entries t = Inr u \<longleftrightarrow>
     (\<exists>r. bt_get entries (t2_task_id t) = Some r \<and> re_path r = t2_receipt_path t)"
  by (auto simp: check_catalogue_task_def rbind_eq_Inr ok_or_eq_Inr)

text \<open>
  C12: Components accepted for a catalogue entry close over its plan. The receipts of the result
  set are those of the plan's tasks, one each at the task's receipt path, the tasks partition
  exactly the searchable documents that the entry counts, and the result set, the plan and the
  corpus are the ones whose digests the entry and each other name.
\<close>

theorem catalogue_binding_closes:
  assumes "validate_dataset_pipeline_binding X e prepared plan s = Inr ()"
  shows "mset (map (\<lambda>r. (re_task_id r, re_path r)) (rs_receipts s)) =
      mset (map (\<lambda>t. (t2_task_id t, t2_receipt_path t)) (p2_tasks plan)) \<and>
    v2_tasks_cover 0 (p2_tasks plan) (unat (ce_searchable_document_count e)) \<and>
    component_digest X (json_prepared_manifest prepared) =
      Inr (cr_sha256 (ca_component (ce_prepared_corpus e))) \<and>
    component_digest X (json_embedding_plan_v2 plan) =
      Inr (cr_sha256 (ca_component (ce_embedding_plan e))) \<and>
    component_digest X (json_result_set s) =
      Inr (cr_sha256 (ca_component (ce_embedding_result_set e))) \<and>
    canonical_digest X (json_dataset_identity (ce_dataset e)) = Inr (ce_dataset_sha256 e)"
proof -
  let ?entries = "bt_collect (map (\<lambda>r. (re_task_id r, r)) (rs_receipts s))"
  note facts = assms [unfolded validate_dataset_pipeline_binding_def Let_def rbind_eq_Inr if_Inl_eq_Inr
      de_Morgan_disj not_not]
  have len: "length ?entries = length (rs_receipts s)" "length ?entries = length (p2_tasks plan)"
    and tasks: "try_all (check_catalogue_task ?entries) (p2_tasks plan) = Inr ()"
    and bound: "plan_v2_validate_manifest_binding X plan prepared = Inr ()"
    using facts by auto
  have plan: "plan_v2_validate X plan = Inr ()" "prepared_manifest_validate X prepared = Inr ()"
    "p2_document_count plan = pc_document_count prepared"
    using bound unfolding plan_v2_validate_manifest_binding_def rbind_eq_Inr if_Inl_eq_Inr by auto
  then have body: "plan_v2_body X plan" by (simp add: plan_v2_validate_iff)
  then have accepts: "validate_v2_tasks X (p2_tasks plan) (p2_document_count plan) (p2_maximum_task_tokens plan)
     (p2_maximum_task_documents plan) (epr_maximum_input_tokens (p2_embedding_profile plan))
     (plan_identity plan) = Inr ()" by (simp add: plan_v2_body_def)
  note cover = validate_v2_tasks_accepts [OF this]
  have dist: "distinct (map re_task_id (rs_receipts s))"
    using len(1) bt_collect_distinct [of "map (\<lambda>r. (re_task_id r, r)) (rs_receipts s)"] by (simp add: comp_def)
  have get: "bt_get ?entries = map_of (map (\<lambda>r. (re_task_id r, r)) (rs_receipts s))"
    using dist by (simp add: bt_collect_get_distinct comp_def)
  have "\<forall>t \<in> set (p2_tasks plan). \<exists>r \<in> set (rs_receipts s). re_task_id r = t2_task_id t \<and> re_path r = t2_receipt_path t"
    using tasks unfolding try_all_ok check_catalogue_task_ok get by (fastforce dest: map_of_SomeD)
  moreover have "length (rs_receipts s) = length (p2_tasks plan)" using len by simp
  ultimately have "mset (map (\<lambda>r. (re_task_id r, re_path r)) (rs_receipts s)) =
      mset (map (\<lambda>t. (t2_task_id t, t2_receipt_path t)) (p2_tasks plan))"
    using cover dist by (intro mset_of_matching) auto
  moreover have "component_digest X (json_prepared_manifest prepared) = Inr (pc_component_sha256 prepared)"
    using plan by (simp add: prepared_manifest_validate_iff)
  moreover have "component_digest X (json_embedding_plan_v2 plan) = Inr (p2_component_sha256 plan)"
    using plan by (simp add: plan_v2_validate_iff)
  ultimately show ?thesis
    using facts cover plan(3) by auto
qed

subsection \<open>A catalogue of two datasets that share a relation\<close>

definition artifact1 :: "string \<Rightarrow> string \<Rightarrow> catalogue_artifact_ref" where
  "artifact1 i p = \<lparr>ca_path = SafeRelativePath (i @ p), ca_component = C0\<rparr>"

definition entry1 :: "string \<Rightarrow> catalogue_dataset_entry" where
  "entry1 i = \<lparr>ce_dataset = dataset0\<lparr>ds_id := i\<rparr>, ce_dataset_sha256 = D0, ce_projection_policy = C0,
     ce_prepared_corpus = artifact1 i ''/prepared'', ce_embedding_plan = artifact1 i ''/plan'',
     ce_embedding_result_set = artifact1 i ''/results'', ce_embedding_profile = C0,
     ce_final_index = artifact1 i ''/index'', ce_searchable_document_count = 3,
     ce_searchable_reference_count = 4, ce_test_only = False\<rparr>"

definition catalogue1 :: dataset_catalogue where
  "catalogue1 = \<lparr>cat_schema_version = DATASET_CATALOGUE_SCHEMA, cat_component_sha256 = D0,
     cat_mode = Normal, cat_source_snapshot = C0, cat_mapping = C0, cat_projection_policy = C0,
     cat_embedding_profile = C0, cat_query_compatibility = ''single_embedding_profile'',
     cat_rank_merge = ''reciprocal_rank_fusion_v1'', cat_datasets = [entry1 ''d'', entry1 ''e''],
     cat_allowed_relation_overlaps =
       [\<lparr>ra_relation = ''r'', ra_dataset_ids = [''d'', ''e''], ra_reason = ''both''\<rparr>]\<rparr>"

lemma dataset1_ok: "i \<noteq> [] \<Longrightarrow> dataset_identity_validate (dataset0\<lparr>ds_id := i\<rparr>) = Inr ()"
  using dataset0_ok by (simp add: dataset_identity_validate_ok)

lemma catalogue1_digests:
  "canonical_digest X0 (json_dataset_identity d) = Inr D0"
  "component_digest X0 (json_catalogue catalogue1) = Inr D0"
  by (simp_all add: canonical_digest_def canonical_json_bytes_def json_dataset_identity_def
      component_digest_def without_self_digest_def json_catalogue_def digest_bytes_def X0_def D0_def)

lemma catalogue1_ok: "catalogue_validate X0 catalogue1 = Inr ()"
proof -
  have arts: "try_fold check_catalogue_artifact P (entry_artifacts (entry1 i)) =
      Inr (P \<union> ca_path ` set (entry_artifacts (entry1 i)))"
    if "P \<inter> ca_path ` set (entry_artifacts (entry1 i)) = {}" for P i
    unfolding check_artifact_fold using that
    by (auto simp: entry_artifacts_def entry1_def artifact1_def C0_def component_ref_validate_ok)
  have e1: "validate_catalogue_entry X0 catalogue1 ({}, {}, [], None) (entry1 ''d'') =
      Inr ({''d''}, ca_path ` set (entry_artifacts (entry1 ''d'')), [(''r'', [''d''])], Some ''d'')"
    using dataset1_ok [of "''d''"] arts [of "{}" "''d''"]
    by (simp add: entry1_def catalogue1_def catalogue1_digests checks word_le_nat_alt)
      (simp add: dataset0_def push_owner_def bt_get_def)
  have e2: "validate_catalogue_entry X0 catalogue1
      ({''d''}, ca_path ` set (entry_artifacts (entry1 ''d'')), [(''r'', [''d''])], Some ''d'') (entry1 ''e'') =
      Inr ({''e'', ''d''}, ca_path ` set (entry_artifacts (entry1 ''d'')) \<union>
          ca_path ` set (entry_artifacts (entry1 ''e'')), [(''r'', [''d'', ''e''])], Some ''e'')"
  proof -
    have "ca_path ` set (entry_artifacts (entry1 ''d'')) \<inter> ca_path ` set (entry_artifacts (entry1 ''e'')) = {}"
      by (auto simp: entry_artifacts_def entry1_def artifact1_def)
    from arts [OF this] dataset1_ok [of "''e''"] show ?thesis
      by (simp add: entry1_def catalogue1_def catalogue1_digests checks word_le_nat_alt)
        (simp add: dataset0_def push_owner_def bt_get_def)
  qed
  have "validate_overlap_allowances (cat_allowed_relation_overlaps catalogue1) [(''r'', [''d'', ''e''])]
      {''e'', ''d''} = Inr ()"
    by (simp add: validate_overlap_allowances_def catalogue1_def check_allowance_def require_text_def bt_get_def)
  then show ?thesis
    unfolding catalogue_sealing.validate_iff catalogue1_digests
    using e1 e2 by (simp add: catalogue_checks_def catalogue1_def C0_def component_ref_validate_def require_text_def)
qed

theorem catalogue_closed_witness:
  "map (\<lambda>a. (ra_relation a, ra_dataset_ids a)) (cat_allowed_relation_overlaps catalogue1) =
   map (\<lambda>r. (r, owner_ids (cat_datasets catalogue1) r)) (shared_relations (cat_datasets catalogue1))"
  using catalogue_closed [OF catalogue1_ok] by blast

theorem catalogue_lookup_witness: "catalogue_dataset catalogue1 ''e'' = Some (entry1 ''e'')"
  using catalogue_lookup [OF catalogue1_ok, of "''e''"] by (simp add: catalogue1_def entry1_def)

definition set1 :: embedding_result_set where
  "set1 = set0\<lparr>rs_receipts := map (\<lambda>t. \<lparr>re_task_id = t2_task_id t, re_path = t2_receipt_path t,
     re_sha256 = D0\<rparr>) (rev (p2_tasks plan1))\<rparr>"

lemma binding1: "validate_dataset_pipeline_binding X1 (entry1 ''d'') manifest0 plan1 set1 = Inr ()"
proof -
  have digests: "component_digest X1 (json_result_set set1) = Inr D0"
    "canonical_digest X1 (json_dataset_identity dataset0) = Inr D0"
    by (simp_all add: component_digest_def without_self_digest_def json_result_set_def canonical_digest_def
        canonical_json_bytes_def json_dataset_identity_def set1_def set0_def)
      (simp_all add: X1_def digest_bytes_def hex_of_def D0_def)
  have ds: "pc_dataset manifest0 = dataset0" by (simp add: manifest0_def)
  have less: "digest_str D0 < digest_str E0" by (simp add: D0_def E0_def hex_of_def numeral_eq_Suc)
  have entries: "bt_collect (map (\<lambda>r. (re_task_id r, r)) (rs_receipts set1)) =
      rev (map (\<lambda>r. (re_task_id r, r)) (rs_receipts set1))"
    using less by (auto simp: set1_def plan1_def task1_def bt_collect_def)
  have "try_all (check_catalogue_task (bt_collect (map (\<lambda>r. (re_task_id r, r)) (rs_receipts set1))))
      (p2_tasks plan1) = Inr ()"
    using ne1 unfolding entries
    by (simp add: set1_def plan1_def task1_def check_catalogue_task_def bt_get_def)
  then show ?thesis
    unfolding validate_dataset_pipeline_binding_def Let_def mv1 plan1_bound digests ds rbind_simps entries
    by (simp add: result_kind_def)
      (simp add: set1_def set0_def entry1_def artifact1_def manifest0_def plan1_def profile0_def C0_def dataset0_def)
qed

theorem catalogue_binding_closes_witness:
  "mset (map (\<lambda>r. (re_task_id r, re_path r)) (rs_receipts set1)) =
   mset (map (\<lambda>t. (t2_task_id t, t2_receipt_path t)) (p2_tasks plan1))"
  using catalogue_binding_closes [OF binding1] by blast

end
