(* ===== verification/Cloud_Bundle.thy ===== *)
theory Cloud_Bundle
  imports Token_Example Artifacts
begin

text \<open>
  The work contract of the remote embedding run, first half of
  \<open>crates/rag-pipeline/src/cloud.rs\<close>: the immutable objects of a bundle, the allocation of the
  plan's tasks to workers (contiguous ranges, cut where the cumulative token count comes nearest
  to each worker's share), and the checks that an allocation covers the plan. The lemmas show
  that the cuts are the nearest ones that leave every worker a task and that the assignments of
  an accepted bundle are the plan's tasks, in order, each exactly once.
\<close>

subsection \<open>Objects\<close>

definition RUNPOD_EMBEDDING_BUNDLE_SCHEMA :: string where
  "RUNPOD_EMBEDDING_BUNDLE_SCHEMA = ''livefire.rag.runpod-embedding-bundle/1''"

definition MAX_WORKERS :: u32 where
  "MAX_WORKERS = 65535"

record cloud_object_ref =
  co_key :: safe_path
  co_bytes :: u64
  co_sha256 :: digest

record cloud_component_artifact =
  cc_component_sha256 :: digest
  cc_object :: cloud_object_ref

record cloud_prepared_document_artifact =
  cp_prepared_path :: safe_path
  cp_object :: cloud_object_ref

record runpod_bundle_artifacts =
  ba_prepared_manifest :: cloud_component_artifact
  ba_embedding_plan :: cloud_component_artifact
  ba_document_token_counts :: cloud_object_ref
  ba_embedding_profile :: cloud_component_artifact
  ba_executor_image_build :: cloud_component_artifact
  ba_executable_tokenizer :: cloud_component_artifact
  ba_conformance_fixture :: cloud_object_ref
  ba_query_plan :: cloud_object_ref
  ba_worker_binary :: cloud_component_artifact
  ba_model_manifest :: cloud_component_artifact
  ba_model_objects :: "cloud_object_ref list"
  ba_prepared_documents :: "cloud_prepared_document_artifact list"

record runpod_accelerator_identity =
  ac_provider :: string
  ac_model :: string
  ac_architecture :: string
  ac_compute_capability :: string
  ac_count :: u32

record runpod_execution_identity =
  xi_executor_image :: component_ref
  xi_executor_image_build :: component_ref
  xi_runtime :: component_ref
  xi_worker_binary :: component_ref
  xi_model_artifact :: component_ref
  xi_embedding_profile :: component_ref
  xi_accelerator :: runpod_accelerator_identity
  xi_returned_model :: string

record runpod_expected_task_output =
  to_task_id :: string
  to_task_ordinal :: u32
  to_ordinal_start :: u64
  to_ordinal_end :: u64
  to_token_count :: u64
  to_result_key :: safe_path
  to_receipt_key :: safe_path
  to_report_key :: safe_path

record runpod_worker_assignment =
  wa_component_sha256 :: digest
  wa_worker_id :: string
  wa_task_start :: u32
  wa_task_end :: u32
  wa_ordinal_start :: u64
  wa_ordinal_end :: u64
  wa_token_count :: u64
  wa_tasks :: "runpod_expected_task_output list"

record runpod_expected_query_vector_output =
  qo_worker_id :: string
  qo_manifest_key :: safe_path
  qo_query_plan_key :: safe_path
  qo_vectors_key :: safe_path

record runpod_embedding_bundle =
  rb_schema_version :: string
  rb_component_sha256 :: digest
  rb_prepared_corpus_sha256 :: digest
  rb_plan_sha256 :: digest
  rb_embedding_profile_sha256 :: digest
  rb_tokenizer_sha256 :: digest
  rb_model_sha256 :: digest
  rb_document_count :: u64
  rb_task_count :: u32
  rb_total_tokens :: u64
  rb_artifacts :: runpod_bundle_artifacts
  rb_execution :: runpod_execution_identity
  rb_query_vector_output :: runpod_expected_query_vector_output
  rb_assignments :: "runpod_worker_assignment list"

subsection \<open>JSON values\<close>

definition json_cloud_object :: "cloud_object_ref \<Rightarrow> json" where
  "json_cloud_object ob = JObj
     [(''key'', json_path (co_key ob)), (''bytes'', json_u64 (co_bytes ob)),
      (''sha256'', json_digest (co_sha256 ob))]"

definition json_component_artifact :: "cloud_component_artifact \<Rightarrow> json" where
  "json_component_artifact a = JObj
     [(''component_sha256'', json_digest (cc_component_sha256 a)),
      (''object'', json_cloud_object (cc_object a))]"

definition json_prepared_document_artifact :: "cloud_prepared_document_artifact \<Rightarrow> json" where
  "json_prepared_document_artifact a = JObj
     [(''prepared_path'', json_path (cp_prepared_path a)), (''object'', json_cloud_object (cp_object a))]"

definition json_bundle_artifacts :: "runpod_bundle_artifacts \<Rightarrow> json" where
  "json_bundle_artifacts a = JObj
     [(''prepared_manifest'', json_component_artifact (ba_prepared_manifest a)),
      (''embedding_plan'', json_component_artifact (ba_embedding_plan a)),
      (''document_token_counts'', json_cloud_object (ba_document_token_counts a)),
      (''embedding_profile'', json_component_artifact (ba_embedding_profile a)),
      (''executor_image_build'', json_component_artifact (ba_executor_image_build a)),
      (''executable_tokenizer'', json_component_artifact (ba_executable_tokenizer a)),
      (''conformance_fixture'', json_cloud_object (ba_conformance_fixture a)),
      (''query_plan'', json_cloud_object (ba_query_plan a)),
      (''worker_binary'', json_component_artifact (ba_worker_binary a)),
      (''model_manifest'', json_component_artifact (ba_model_manifest a)),
      (''model_objects'', JArr (map json_cloud_object (ba_model_objects a))),
      (''prepared_documents'', JArr (map json_prepared_document_artifact (ba_prepared_documents a)))]"

definition json_accelerator :: "runpod_accelerator_identity \<Rightarrow> json" where
  "json_accelerator a = JObj
     [(''provider'', JStr (ac_provider a)), (''model'', JStr (ac_model a)),
      (''architecture'', JStr (ac_architecture a)),
      (''compute_capability'', JStr (ac_compute_capability a)), (''count'', json_u32 (ac_count a))]"

definition json_execution :: "runpod_execution_identity \<Rightarrow> json" where
  "json_execution x = JObj
     [(''executor_image'', json_component_ref (xi_executor_image x)),
      (''executor_image_build'', json_component_ref (xi_executor_image_build x)),
      (''runtime'', json_component_ref (xi_runtime x)),
      (''worker_binary'', json_component_ref (xi_worker_binary x)),
      (''model_artifact'', json_component_ref (xi_model_artifact x)),
      (''embedding_profile'', json_component_ref (xi_embedding_profile x)),
      (''accelerator'', json_accelerator (xi_accelerator x)),
      (''returned_model'', JStr (xi_returned_model x))]"

definition json_expected_task :: "runpod_expected_task_output \<Rightarrow> json" where
  "json_expected_task t = JObj
     [(''task_id'', JStr (to_task_id t)), (''task_ordinal'', json_u32 (to_task_ordinal t)),
      (''ordinal_start'', json_u64 (to_ordinal_start t)), (''ordinal_end'', json_u64 (to_ordinal_end t)),
      (''token_count'', json_u64 (to_token_count t)), (''result_key'', json_path (to_result_key t)),
      (''receipt_key'', json_path (to_receipt_key t)), (''report_key'', json_path (to_report_key t))]"

definition json_assignment :: "runpod_worker_assignment \<Rightarrow> json" where
  "json_assignment w = JObj
     [(''component_sha256'', json_digest (wa_component_sha256 w)),
      (''worker_id'', JStr (wa_worker_id w)), (''task_start'', json_u32 (wa_task_start w)),
      (''task_end'', json_u32 (wa_task_end w)), (''ordinal_start'', json_u64 (wa_ordinal_start w)),
      (''ordinal_end'', json_u64 (wa_ordinal_end w)), (''token_count'', json_u64 (wa_token_count w)),
      (''tasks'', JArr (map json_expected_task (wa_tasks w)))]"

definition json_expected_query_vectors :: "runpod_expected_query_vector_output \<Rightarrow> json" where
  "json_expected_query_vectors q = JObj
     [(''worker_id'', JStr (qo_worker_id q)), (''manifest_key'', json_path (qo_manifest_key q)),
      (''query_plan_key'', json_path (qo_query_plan_key q)), (''vectors_key'', json_path (qo_vectors_key q))]"

definition json_bundle :: "runpod_embedding_bundle \<Rightarrow> json" where
  "json_bundle b = JObj
     [(''schema_version'', JStr (rb_schema_version b)),
      (''component_sha256'', json_digest (rb_component_sha256 b)),
      (''prepared_corpus_sha256'', json_digest (rb_prepared_corpus_sha256 b)),
      (''plan_sha256'', json_digest (rb_plan_sha256 b)),
      (''embedding_profile_sha256'', json_digest (rb_embedding_profile_sha256 b)),
      (''tokenizer_sha256'', json_digest (rb_tokenizer_sha256 b)),
      (''model_sha256'', json_digest (rb_model_sha256 b)),
      (''document_count'', json_u64 (rb_document_count b)),
      (''task_count'', json_u32 (rb_task_count b)), (''total_tokens'', json_u64 (rb_total_tokens b)),
      (''artifacts'', json_bundle_artifacts (rb_artifacts b)),
      (''execution'', json_execution (rb_execution b)),
      (''query_vector_output'', json_expected_query_vectors (rb_query_vector_output b)),
      (''assignments'', JArr (map json_assignment (rb_assignments b)))]"

subsection \<open>Checks of the parts\<close>

definition identifier_char :: "char \<Rightarrow> bool" where
  "identifier_char c \<longleftrightarrow> is_ascii_alphanumeric c \<or> c \<in> {CHR ''.'', CHR ''_'', CHR ''-''}"

definition require_identifier :: "string \<Rightarrow> pipeline_error + unit" where
  "require_identifier value =
     rbind (require_text value) (\<lambda>_.
     if length value > 128 \<or> \<not> list_all identifier_char value
     then Inl (Invalid ''cloud identifier'') else Inr ())"

definition require_bounded_text :: "string \<Rightarrow> pipeline_error + unit" where
  "require_bounded_text value =
     rbind (require_text value) (\<lambda>_.
     if length value > 256 \<or> list_ex is_control (str_chars value)
     then Inl (Invalid ''cloud bounded text'') else Inr ())"

definition cloud_object_validate :: "cloud_object_ref \<Rightarrow> pipeline_error + unit" where
  "cloud_object_validate ob =
     rbind (require_safe_u64 (co_bytes ob)) (\<lambda>_.
     if co_bytes ob = 0 then Inl (Invalid ''cloud object byte length'') else Inr ())"

definition component_artifact_validate :: "cloud_component_artifact \<Rightarrow> pipeline_error + unit" where
  "component_artifact_validate a = cloud_object_validate (cc_object a)"

definition accelerator_validate :: "runpod_accelerator_identity \<Rightarrow> pipeline_error + unit" where
  "accelerator_validate a =
     rbind (try_all require_bounded_text
              [ac_provider a, ac_model a, ac_architecture a, ac_compute_capability a]) (\<lambda>_.
     if ac_count a \<noteq> 1 then Inl (Invalid ''cloud accelerator count'') else Inr ())"

definition execution_validate :: "runpod_execution_identity \<Rightarrow> pipeline_error + unit" where
  "execution_validate x =
     rbind (component_ref_validate (xi_executor_image x)) (\<lambda>_.
     rbind (component_ref_validate (xi_executor_image_build x)) (\<lambda>_.
     rbind (component_ref_validate (xi_runtime x)) (\<lambda>_.
     rbind (component_ref_validate (xi_worker_binary x)) (\<lambda>_.
     rbind (component_ref_validate (xi_model_artifact x)) (\<lambda>_.
     rbind (component_ref_validate (xi_embedding_profile x)) (\<lambda>_.
     rbind (accelerator_validate (xi_accelerator x)) (\<lambda>_.
     require_text (xi_returned_model x))))))))"

subsection \<open>Assignments\<close>

type_synonym assignment_state = "u32 \<times> u64 \<times> u64 \<times> string set \<times> safe_path set"

text \<open>The keys are compared as strings; a safe path is its string.\<close>

fun check_assigned_task ::
    "assignment_state \<Rightarrow> runpod_expected_task_output \<Rightarrow> pipeline_error + assignment_state" where
  "check_assigned_task (next_task, next_ordinal, tokens, ids, keys) t =
     rbind (require_identifier (to_task_id t)) (\<lambda>_.
     rbind (try_all require_safe_u64
              [u64_of_u32 (to_task_ordinal t), to_ordinal_start t, to_ordinal_end t, to_token_count t])
       (\<lambda>_.
     if to_task_ordinal t \<noteq> next_task
        \<or> to_ordinal_start t \<noteq> next_ordinal
        \<or> to_ordinal_start t \<ge> to_ordinal_end t
        \<or> to_token_count t = 0
        \<or> to_task_id t \<in> ids
        \<or> to_result_key t \<in> keys
        \<or> to_receipt_key t \<in> insert (to_result_key t) keys
        \<or> to_report_key t \<in> insert (to_receipt_key t) (insert (to_result_key t) keys)
     then Inl (Invalid ''cloud assigned task coverage'')
     else
     rbind (ok_or (Invalid ''cloud task ordinal'') (checked_add next_task 1)) (\<lambda>next_task.
     rbind (ok_or (Invalid ''cloud assignment token count'') (checked_add tokens (to_token_count t)))
       (\<lambda>tokens.
     Inr (next_task, to_ordinal_end t, tokens, insert (to_task_id t) ids,
          {to_report_key t, to_receipt_key t, to_result_key t} \<union> keys)))))"

text \<open>The checks of \<open>RunpodWorkerAssignment::validate\<close> before the comparison of the digest.\<close>

definition assignment_checks :: "runpod_worker_assignment \<Rightarrow> pipeline_error + unit" where
  "assignment_checks w =
     rbind (require_identifier (wa_worker_id w)) (\<lambda>_.
     rbind (try_all require_safe_u64
              [u64_of_u32 (wa_task_start w), u64_of_u32 (wa_task_end w), wa_ordinal_start w,
               wa_ordinal_end w, wa_token_count w]) (\<lambda>_.
     if wa_task_start w \<ge> wa_task_end w
        \<or> wa_ordinal_start w \<ge> wa_ordinal_end w
        \<or> wa_token_count w = 0
        \<or> unat (wa_task_end w - wa_task_start w) \<noteq> length (wa_tasks w)
     then Inl (Invalid ''cloud worker assignment range'')
     else
     rbind (try_fold check_assigned_task (wa_task_start w, wa_ordinal_start w, 0, {}, {}) (wa_tasks w))
       (\<lambda>(next_task, next_ordinal, tokens, _).
     if next_task \<noteq> wa_task_end w \<or> next_ordinal \<noteq> wa_ordinal_end w \<or> tokens \<noteq> wa_token_count w
     then Inl (Invalid ''cloud worker assignment binding'') else Inr ())))"

definition assignment_validate :: "externals \<Rightarrow> runpod_worker_assignment \<Rightarrow> pipeline_error + unit" where
  "assignment_validate X w =
     rbind (assignment_checks w) (\<lambda>_.
     rbind (component_digest X (json_assignment w)) (\<lambda>d.
     if wa_component_sha256 w \<noteq> d then Inl (Invalid ''cloud worker assignment binding'')
     else Inr ()))"

definition assignment_seal ::
    "externals \<Rightarrow> runpod_worker_assignment \<Rightarrow> pipeline_error + runpod_worker_assignment" where
  "assignment_seal X w =
     rbind (component_digest X (json_assignment w)) (\<lambda>d.
       let w' = w\<lparr>wa_component_sha256 := d\<rparr>
       in rbind (assignment_validate X w') (\<lambda>_. Inr w'))"

definition report_path :: "string \<Rightarrow> string" where
  "report_path task_id = ''reports/'' @ task_id @ ''.json''"

definition check_assigned_binding ::
    "embedding_task_v2 list \<Rightarrow> runpod_expected_task_output \<Rightarrow> pipeline_error + unit" where
  "check_assigned_binding tasks expected =
     (if unat (to_task_ordinal expected) \<ge> length tasks then Inl (Invalid ''cloud extra assigned task'')
      else let t = tasks ! unat (to_task_ordinal expected) in
        if to_task_id expected \<noteq> t2_task_id t
           \<or> to_ordinal_start expected \<noteq> t2_ordinal_start t
           \<or> to_ordinal_end expected \<noteq> t2_ordinal_end t
           \<or> to_token_count expected \<noteq> t2_token_count t
           \<or> to_result_key expected \<noteq> t2_result_path t
           \<or> to_receipt_key expected \<noteq> t2_receipt_path t
           \<or> path_str (to_report_key expected) \<noteq> report_path (t2_task_id t)
        then Inl (Invalid ''cloud assigned task binding'') else Inr ())"

type_synonym coverage_state = "u32 \<times> u64 \<times> u64 \<times> string set"

fun check_assignment ::
    "externals \<Rightarrow> embedding_plan_v2 \<Rightarrow> coverage_state \<Rightarrow> runpod_worker_assignment \<Rightarrow>
     pipeline_error + coverage_state" where
  "check_assignment X plan (next_task, next_ordinal, tokens, ids) w =
     rbind (assignment_validate X w) (\<lambda>_.
     if wa_task_start w \<noteq> next_task \<or> wa_ordinal_start w \<noteq> next_ordinal \<or> wa_worker_id w \<in> ids
     then Inl (Invalid ''cloud assignment overlap or gap'')
     else
     rbind (try_all (check_assigned_binding (p2_tasks plan)) (wa_tasks w)) (\<lambda>_.
     rbind (ok_or (Invalid ''cloud assignment token count'') (checked_add tokens (wa_token_count w)))
       (\<lambda>tokens. Inr (wa_task_end w, wa_ordinal_end w, tokens, insert (wa_worker_id w) ids))))"

definition validate_assignments ::
    "externals \<Rightarrow> runpod_worker_assignment list \<Rightarrow> embedding_plan_v2 \<Rightarrow> pipeline_error + unit" where
  "validate_assignments X assignments plan =
     rbind (try_fold (check_assignment X plan) (0, 0, 0, {}) assignments)
       (\<lambda>(next_task, next_ordinal, tokens, _).
     if unat next_task \<noteq> length (p2_tasks plan)
        \<or> next_ordinal \<noteq> p2_document_count plan
        \<or> tokens \<noteq> ts_total_tokens (p2_token_statistics plan)
     then Inl (Invalid ''cloud assignment complete coverage'') else Inr ())"

subsection \<open>Token-balanced boundaries\<close>

type_synonym u128 = "128 word"

definition u128_of_u64 :: "u64 \<Rightarrow> u128" where
  "u128_of_u64 w = word_of_nat (unat w)"

definition abs_diff :: "u128 \<Rightarrow> u128 \<Rightarrow> u128" where
  "abs_diff a b = (if a < b then b - a else a - b)"

definition push_prefix :: "u64 list \<Rightarrow> embedding_task_v2 \<Rightarrow> pipeline_error + u64 list" where
  "push_prefix sums t =
     rbind (ok_or (Invalid ''cloud token total'') (checked_add (last sums) (t2_token_count t)))
       (\<lambda>sum. Inr (sums @ [sum]))"

text \<open>The inner loop: the first candidate at the least distance from the worker's share.\<close>

definition nearest_step :: "u128 \<Rightarrow> u128 \<Rightarrow> nat \<times> u128 \<Rightarrow> nat \<times> u64 \<Rightarrow> nat \<times> u128" where
  "nearest_step worker_count target best candidate =
     (let distance = abs_diff (u128_of_u64 (snd candidate) * worker_count) target
      in if distance < snd best then (fst candidate, distance) else best)"

definition nearest_boundary :: "u64 list \<Rightarrow> u64 \<Rightarrow> nat \<Rightarrow> nat \<Rightarrow> nat \<Rightarrow> nat \<Rightarrow> nat" where
  "nearest_boundary sums total_tokens worker_count worker minimum maximum =
     fst (foldl (nearest_step (word_of_nat worker_count) (u128_of_u64 total_tokens * word_of_nat worker))
       (minimum, - 1) (drop minimum (take (maximum + 1) (enumerate 0 sums))))"

definition push_boundary :: "nat \<Rightarrow> u64 list \<Rightarrow> u64 \<Rightarrow> nat \<Rightarrow> nat list \<Rightarrow> nat \<Rightarrow> nat list" where
  "push_boundary tasks sums total_tokens worker_count boundaries worker =
     boundaries @ [nearest_boundary sums total_tokens worker_count worker
                     (boundaries ! (worker - 1) + 1) (tasks - (worker_count - worker))]"

definition token_balanced_boundaries :: "embedding_plan_v2 \<Rightarrow> u32 \<Rightarrow> pipeline_error + nat list" where
  "token_balanced_boundaries plan workers =
     (let worker_count = unat workers; tasks = length (p2_tasks plan) in
     rbind (try_fold push_prefix [0] (p2_tasks plan)) (\<lambda>sums.
     let total_tokens = last sums in
     rbind (require_safe_u64 total_tokens) (\<lambda>_.
     Inr (foldl (push_boundary tasks sums total_tokens worker_count) [0] [1..<worker_count] @ [tasks]))))"

subsection \<open>The bundle\<close>

definition component_artifacts :: "runpod_bundle_artifacts \<Rightarrow> cloud_component_artifact list" where
  "component_artifacts a =
     [ba_prepared_manifest a, ba_embedding_plan a, ba_embedding_profile a, ba_executor_image_build a,
      ba_executable_tokenizer a, ba_worker_binary a, ba_model_manifest a]"

definition input_objects :: "runpod_bundle_artifacts \<Rightarrow> cloud_object_ref list" where
  "input_objects a =
     map cc_object (component_artifacts a) @
     [ba_document_token_counts a, ba_conformance_fixture a, ba_query_plan a] @
     ba_model_objects a @ map cp_object (ba_prepared_documents a)"

definition artifact_keys :: "runpod_bundle_artifacts \<Rightarrow> safe_path list" where
  "artifact_keys a =
     map (\<lambda>c. co_key (cc_object c)) (component_artifacts a) @
     [co_key (ba_document_token_counts a), co_key (ba_conformance_fixture a), co_key (ba_query_plan a)] @
     map co_key (ba_model_objects a) @ map (\<lambda>d. co_key (cp_object d)) (ba_prepared_documents a)"

definition check_prepared_artifact ::
    "(safe_path, cloud_prepared_document_artifact) btree \<Rightarrow> safe_path \<times> prepared_document_object \<Rightarrow>
     pipeline_error + unit" where
  "check_prepared_artifact supplied expected =
     rbind (ok_or (Invalid ''cloud missing prepared document'') (bt_get supplied (fst expected)))
       (\<lambda>artifact.
     rbind (cloud_object_validate (cp_object artifact)) (\<lambda>_.
     if co_bytes (cp_object artifact) \<noteq> oe_bytes (dobj_object (snd expected))
        \<or> co_sha256 (cp_object artifact) \<noteq> oe_sha256 (dobj_object (snd expected))
     then Inl (Invalid ''cloud prepared document binding'') else Inr ()))"

definition check_model_object ::
    "safe_path set \<Rightarrow> cloud_object_ref \<Rightarrow> pipeline_error + safe_path set" where
  "check_model_object keys ob =
     rbind (cloud_object_validate ob) (\<lambda>_.
     if co_key ob \<in> keys then Inl (Invalid ''cloud duplicate model object'')
     else Inr (insert (co_key ob) keys))"

definition validate_artifacts ::
    "runpod_bundle_artifacts \<Rightarrow> prepared_corpus_manifest \<Rightarrow> embedding_plan_v2 \<Rightarrow> pipeline_error + unit" where
  "validate_artifacts a m plan =
     rbind (try_all component_artifact_validate (component_artifacts a)) (\<lambda>_.
     rbind (cloud_object_validate (ba_document_token_counts a)) (\<lambda>_.
     rbind (cloud_object_validate (ba_conformance_fixture a)) (\<lambda>_.
     rbind (cloud_object_validate (ba_query_plan a)) (\<lambda>_.
     if cc_component_sha256 (ba_prepared_manifest a) \<noteq> pc_component_sha256 m
        \<or> cc_component_sha256 (ba_embedding_plan a) \<noteq> p2_component_sha256 plan
        \<or> cc_component_sha256 (ba_embedding_profile a) \<noteq> cr_sha256 (epr_component (p2_embedding_profile plan))
        \<or> cc_component_sha256 (ba_executable_tokenizer a) \<noteq> cr_sha256 (et_artifact (p2_executable_tokenizer plan))
        \<or> cc_component_sha256 (ba_model_manifest a) \<noteq> cr_sha256 (epr_model_artifact (p2_embedding_profile plan))
        \<or> co_bytes (ba_document_token_counts a) \<noteq> dc_bytes (p2_counts_object plan)
        \<or> co_sha256 (ba_document_token_counts a) \<noteq> dc_sha256 (p2_counts_object plan)
        \<or> ba_model_objects a = []
        \<or> path_str (co_key (ba_query_plan a)) \<noteq> ''input/query/queries.jsonl''
        \<or> length (ba_prepared_documents a) \<noteq> length (pc_documents m)
     then Inl (Invalid ''cloud input artifact binding'')
     else
     let expected = bt_collect (map (\<lambda>ob. (dobj_path ob, ob)) (pc_documents m));
         supplied = bt_collect (map (\<lambda>d. (cp_prepared_path d, d)) (ba_prepared_documents a))
     in if length expected \<noteq> length (pc_documents m) \<or> length supplied \<noteq> length (ba_prepared_documents a)
     then Inl (Invalid ''cloud prepared document coverage'')
     else
     rbind (try_all (check_prepared_artifact supplied) expected) (\<lambda>_.
     rbind (try_fold check_model_object {} (ba_model_objects a)) (\<lambda>_. Inr ()))))))"

definition query_vector_output_validate ::
    "runpod_expected_query_vector_output \<Rightarrow> pipeline_error + unit" where
  "query_vector_output_validate q =
     (if qo_worker_id q \<noteq> ''worker-0000''
         \<or> path_str (qo_manifest_key q) \<noteq> ''query-vectors/manifest.json''
         \<or> path_str (qo_query_plan_key q) \<noteq> ''query-vectors/queries.jsonl''
         \<or> path_str (qo_vectors_key q) \<noteq> ''query-vectors/vectors.f32le''
      then Inl (Invalid ''cloud query vector output keys'') else Inr ())"

definition task_keys :: "runpod_expected_task_output \<Rightarrow> safe_path list" where
  "task_keys t = [to_result_key t, to_receipt_key t, to_report_key t]"

definition bundle_keys :: "runpod_embedding_bundle \<Rightarrow> safe_path list" where
  "bundle_keys b =
     [qo_manifest_key (rb_query_vector_output b), qo_query_plan_key (rb_query_vector_output b),
      qo_vectors_key (rb_query_vector_output b)] @
     artifact_keys (rb_artifacts b) @
     concat (map task_keys (concat (map wa_tasks (rb_assignments b))))"

definition insert_key :: "safe_path set \<Rightarrow> safe_path \<Rightarrow> pipeline_error + safe_path set" where
  "insert_key keys key =
     (if key \<in> keys then Inl (Invalid ''cloud bundle duplicate object key'') else Inr (insert key keys))"

text \<open>The checks of \<open>RunpodEmbeddingBundle::validate_against\<close> before the comparison of the digest.\<close>

definition bundle_checks ::
    "externals \<Rightarrow> prepared_corpus_manifest \<Rightarrow> embedding_plan_v2 \<Rightarrow> runpod_embedding_bundle \<Rightarrow>
     pipeline_error + unit" where
  "bundle_checks X m plan b =
     rbind (prepared_manifest_validate X m) (\<lambda>_.
     rbind (plan_v2_validate_manifest_binding X plan m) (\<lambda>_.
     rbind (require_safe_u64 (rb_document_count b)) (\<lambda>_.
     rbind (require_safe_u64 (rb_total_tokens b)) (\<lambda>_.
     if rb_schema_version b \<noteq> RUNPOD_EMBEDDING_BUNDLE_SCHEMA
        \<or> rb_prepared_corpus_sha256 b \<noteq> pc_component_sha256 m
        \<or> rb_plan_sha256 b \<noteq> p2_component_sha256 plan
        \<or> rb_embedding_profile_sha256 b \<noteq> cr_sha256 (epr_component (p2_embedding_profile plan))
        \<or> rb_tokenizer_sha256 b \<noteq> cr_sha256 (et_artifact (p2_executable_tokenizer plan))
        \<or> rb_model_sha256 b \<noteq> cr_sha256 (epr_model_artifact (p2_embedding_profile plan))
        \<or> rb_document_count b \<noteq> p2_document_count plan
        \<or> unat (rb_task_count b) \<noteq> length (p2_tasks plan)
        \<or> rb_total_tokens b \<noteq> ts_total_tokens (p2_token_statistics plan)
        \<or> rb_assignments b = []
     then Inl (Invalid ''cloud bundle plan binding'')
     else
     rbind (execution_validate (rb_execution b)) (\<lambda>_.
     rbind (query_vector_output_validate (rb_query_vector_output b)) (\<lambda>_.
     if xi_model_artifact (rb_execution b) \<noteq> epr_model_artifact (p2_embedding_profile plan)
        \<or> xi_embedding_profile (rb_execution b) \<noteq> epr_component (p2_embedding_profile plan)
        \<or> cr_sha256 (xi_executor_image_build (rb_execution b)) \<noteq>
            cc_component_sha256 (ba_executor_image_build (rb_artifacts b))
        \<or> cr_sha256 (xi_worker_binary (rb_execution b)) \<noteq>
            cc_component_sha256 (ba_worker_binary (rb_artifacts b))
     then Inl (Invalid ''cloud execution identity binding'')
     else
     rbind (validate_artifacts (rb_artifacts b) m plan) (\<lambda>_.
     rbind (validate_assignments X (rb_assignments b) plan) (\<lambda>_.
     rbind (try_fold insert_key {} (bundle_keys b)) (\<lambda>_. Inr ())))))))))"

definition bundle_validate_against ::
    "externals \<Rightarrow> prepared_corpus_manifest \<Rightarrow> embedding_plan_v2 \<Rightarrow> runpod_embedding_bundle \<Rightarrow>
     pipeline_error + unit" where
  "bundle_validate_against X m plan b =
     rbind (bundle_checks X m plan b) (\<lambda>_.
     rbind (component_digest X (json_bundle b)) (\<lambda>d.
     if rb_component_sha256 b \<noteq> d then Inl (Invalid ''cloud bundle component digest'') else Inr ()))"

definition bundle_seal ::
    "externals \<Rightarrow> runpod_embedding_bundle \<Rightarrow> pipeline_error + runpod_embedding_bundle" where
  "bundle_seal X b =
     rbind (component_digest X (json_bundle b)) (\<lambda>d. Inr (b\<lparr>rb_component_sha256 := d\<rparr>))"

subsection \<open>Building a bundle\<close>

definition expected_task_output ::
    "nat \<Rightarrow> nat \<times> embedding_task_v2 \<Rightarrow> pipeline_error + runpod_expected_task_output" where
  "expected_task_output start ot =
     (case ot of (offset, t) \<Rightarrow>
     rbind (ok_or (Invalid ''cloud task ordinal'') (try_from_nat (start + offset))) (\<lambda>task_ordinal.
     rbind (safe_relative_path_new (report_path (t2_task_id t))) (\<lambda>report_key.
     Inr \<lparr>to_task_id = t2_task_id t, to_task_ordinal = task_ordinal,
          to_ordinal_start = t2_ordinal_start t, to_ordinal_end = t2_ordinal_end t,
          to_token_count = t2_token_count t, to_result_key = t2_result_path t,
          to_receipt_key = t2_receipt_path t, to_report_key = report_key\<rparr>)))"

text \<open>\<open>format!("worker-{worker:04}")\<close>.\<close>

definition worker_name :: "nat \<Rightarrow> string" where
  "worker_name worker =
     ''worker-'' @ replicate (4 - length (nat_digits worker)) (CHR ''0'') @ nat_digits worker"

definition add_tokens :: "u64 \<Rightarrow> runpod_expected_task_output \<Rightarrow> pipeline_error + u64" where
  "add_tokens tokens t =
     ok_or (Invalid ''cloud assignment token count'') (checked_add tokens (to_token_count t))"

definition build_assignment ::
    "externals \<Rightarrow> embedding_plan_v2 \<Rightarrow> nat \<times> (nat \<times> nat) \<Rightarrow> pipeline_error + runpod_worker_assignment" where
  "build_assignment X plan wr =
     (case wr of (worker, start, stop) \<Rightarrow>
     rbind (try_map (expected_task_output start) (enumerate 0 (take (stop - start) (drop start (p2_tasks plan)))))
       (\<lambda>tasks.
     rbind (ok_or (Invalid ''cloud task ordinal'') (try_from_nat start)) (\<lambda>task_start.
     rbind (ok_or (Invalid ''cloud task ordinal'') (try_from_nat stop)) (\<lambda>task_end.
     if tasks = [] then Inl (Invalid ''cloud assignment tasks'')
     else
     rbind (try_fold add_tokens 0 tasks) (\<lambda>token_count.
     assignment_seal X
       \<lparr>wa_component_sha256 = digest_bytes X (str_bytes ''unsealed''),
        wa_worker_id = worker_name worker, wa_task_start = task_start, wa_task_end = task_end,
        wa_ordinal_start = to_ordinal_start (hd tasks), wa_ordinal_end = to_ordinal_end (last tasks),
        wa_token_count = token_count, wa_tasks = tasks\<rparr>)))))"

text \<open>\<open>boundaries.windows(2).enumerate()\<close>.\<close>

definition build_assignments ::
    "externals \<Rightarrow> embedding_plan_v2 \<Rightarrow> u32 \<Rightarrow> pipeline_error + runpod_worker_assignment list" where
  "build_assignments X plan worker_count =
     rbind (token_balanced_boundaries plan worker_count) (\<lambda>boundaries.
     try_map (build_assignment X plan) (enumerate 0 (zip boundaries (tl boundaries))))"

definition build_runpod_embedding_bundle ::
    "externals \<Rightarrow> prepared_corpus_manifest \<Rightarrow> embedding_plan_v2 \<Rightarrow> runpod_bundle_artifacts \<Rightarrow>
     runpod_execution_identity \<Rightarrow> u32 \<Rightarrow> pipeline_error + runpod_embedding_bundle" where
  "build_runpod_embedding_bundle X m plan artifacts execution worker_count =
     rbind (prepared_manifest_validate X m) (\<lambda>_.
     rbind (plan_v2_validate_manifest_binding X plan m) (\<lambda>_.
     if worker_count = 0 \<or> worker_count > MAX_WORKERS \<or> unat worker_count > length (p2_tasks plan)
     then Inl (Invalid ''cloud worker count'')
     else
     rbind (build_assignments X plan worker_count) (\<lambda>assignments.
     rbind (ok_or (Invalid ''cloud task count'') (try_from_nat (length (p2_tasks plan)))) (\<lambda>task_count.
     rbind (safe_relative_path_new ''query-vectors/manifest.json'') (\<lambda>manifest_key.
     rbind (safe_relative_path_new ''query-vectors/queries.jsonl'') (\<lambda>query_plan_key.
     rbind (safe_relative_path_new ''query-vectors/vectors.f32le'') (\<lambda>vectors_key.
     rbind (bundle_seal X
       \<lparr>rb_schema_version = RUNPOD_EMBEDDING_BUNDLE_SCHEMA,
        rb_component_sha256 = digest_bytes X (str_bytes ''unsealed''),
        rb_prepared_corpus_sha256 = pc_component_sha256 m,
        rb_plan_sha256 = p2_component_sha256 plan,
        rb_embedding_profile_sha256 = cr_sha256 (epr_component (p2_embedding_profile plan)),
        rb_tokenizer_sha256 = cr_sha256 (et_artifact (p2_executable_tokenizer plan)),
        rb_model_sha256 = cr_sha256 (epr_model_artifact (p2_embedding_profile plan)),
        rb_document_count = p2_document_count plan, rb_task_count = task_count,
        rb_total_tokens = ts_total_tokens (p2_token_statistics plan),
        rb_artifacts = artifacts, rb_execution = execution,
        rb_query_vector_output =
          \<lparr>qo_worker_id = ''worker-0000'', qo_manifest_key = manifest_key,
           qo_query_plan_key = query_plan_key, qo_vectors_key = vectors_key\<rparr>,
        rb_assignments = assignments\<rparr>) (\<lambda>bundle.
     rbind (bundle_validate_against X m plan bundle) (\<lambda>_. Inr bundle)))))))))"

subsection \<open>The input files\<close>

definition validate_cloud_object_file ::
    "externals \<Rightarrow> path \<Rightarrow> cloud_object_ref \<Rightarrow> (pipeline_error, unit) io" where
  "validate_cloud_object_file X root ob =
     io_bind (io_of (cloud_object_validate ob)) (\<lambda>_.
     io_bind (resolve_existing_artifact root (co_key ob)) (\<lambda>p.
     io_bind (pipeline_call (stat_op p)) (\<lambda>metadata.
     if (case metadata of Regular b \<Rightarrow> length b \<noteq> unat (co_bytes ob) | _ \<Rightarrow> True)
     then io_of (Inl (Invalid ''cloud input object metadata''))
     else
     io_bind (pipeline_call (read_op p)) (\<lambda>contents.
     io_bind (io_of (digest_new (sha256_hex X contents))) (\<lambda>digest.
     if digest \<noteq> co_sha256 ob then io_of (Inl (Invalid ''cloud input object digest''))
     else io_of (Inr ()))))))"

primrec validate_object_files :: "externals \<Rightarrow> path \<Rightarrow> cloud_object_ref list \<Rightarrow> (pipeline_error, unit) io" where
  "validate_object_files X root [] = io_of (Inr ())"
| "validate_object_files X root (ob # obs) =
     io_bind (validate_cloud_object_file X root ob) (\<lambda>_. validate_object_files X root obs)"

definition validate_input_files ::
    "externals \<Rightarrow> path \<Rightarrow> prepared_corpus_manifest \<Rightarrow> embedding_plan_v2 \<Rightarrow> runpod_embedding_bundle \<Rightarrow>
     (pipeline_error, unit) io" where
  "validate_input_files X root m plan b =
     io_bind (io_of (bundle_validate_against X m plan b)) (\<lambda>_.
     validate_object_files X root (input_objects (rb_artifacts b)))"

end
