(* ===== verification/Cloud_Coverage.thy ===== *)
theory Cloud_Coverage
  imports Cloud_Bundle
begin

text \<open>
  What the allocation of tasks to workers promises: the boundaries are the nearest cuts to the
  workers' shares, the assignments the builder makes are accepted by the validation, and the
  assignments of an accepted bundle are the tasks of the plan.
\<close>

subsection \<open>Boundaries\<close>

definition tokens_before :: "embedding_task_v2 list \<Rightarrow> nat \<Rightarrow> nat" where
  "tokens_before ts c = sum_list (map (\<lambda>t. unat (t2_token_count t)) (take c ts))"

text \<open>
  How far the tokens before a cut are from the share of the first \<open>worker\<close> of
  \<open>worker_count\<close> workers, in units of one \<open>worker_count\<close>-th of a token.
\<close>

definition share_distance :: "embedding_task_v2 list \<Rightarrow> nat \<Rightarrow> nat \<Rightarrow> nat \<Rightarrow> int" where
  "share_distance ts worker_count worker c =
     \<bar>int (tokens_before ts c * worker_count) - int (tokens_before ts (length ts) * worker)\<bar>"

text \<open>
  The first of the cuts nearest to the share, among those that leave a task for this worker and
  for every later one.
\<close>

definition nearest_cut :: "embedding_task_v2 list \<Rightarrow> nat \<Rightarrow> nat \<Rightarrow> nat \<Rightarrow> nat \<Rightarrow> bool" where
  "nearest_cut ts worker_count worker previous c \<longleftrightarrow>
     previous < c \<and> c + (worker_count - worker) \<le> length ts \<and>
     (\<forall>d. previous < d \<longrightarrow> d + (worker_count - worker) \<le> length ts \<longrightarrow>
        share_distance ts worker_count worker c \<le> share_distance ts worker_count worker d \<and>
        (d < c \<longrightarrow> share_distance ts worker_count worker c < share_distance ts worker_count worker d))"

lemma prefix_sums_from:
  "try_fold push_prefix acc ts = Inr sums \<Longrightarrow> acc \<noteq> [] \<Longrightarrow>
   \<exists>rest. sums = acc @ rest \<and> length rest = length ts \<and>
     (\<forall>i < length ts. unat (rest ! i) = unat (last acc) + tokens_before ts (Suc i))"
proof (induction ts arbitrary: acc)
  case (Cons t ts)
  then obtain s where step: "push_prefix acc t = Inr s" and "try_fold push_prefix s ts = Inr sums"
    by (auto simp: rbind_eq_Inr)
  moreover from step obtain w where w: "unat w = unat (last acc) + unat (t2_token_count t)" "s = acc @ [w]"
    unfolding push_prefix_def rbind_eq_Inr ok_or_eq_Inr checked_add_unat by blast
  ultimately have rest: "try_fold push_prefix (acc @ [w]) ts = Inr sums" by simp
  from Cons.IH [OF rest] obtain r where r: "sums = acc @ w # r" "length r = length ts"
    "\<forall>i < length ts. unat (r ! i) = unat w + tokens_before ts (Suc i)" by auto
  then show ?case
    using w(1) by (intro exI [of _ "w # r"]) (auto simp: nth_Cons tokens_before_def split: nat.splits)
qed simp

lemma prefix_sums:
  assumes "try_fold push_prefix [0] ts = Inr sums"
  shows "length sums = length ts + 1" and "i \<le> length ts \<Longrightarrow> unat (sums ! i) = tokens_before ts i"
  using prefix_sums_from [OF assms] by (auto simp: nth_Cons tokens_before_def split: nat.splits)

lemma u64_bound: "unat (w :: u64) < 2 ^ 64"
  using unsigned_less [of w] by simp

lemma unat_u128_mul:
  assumes "k < 2 ^ 32"
  shows "unat (u128_of_u64 s * word_of_nat k) = unat s * k"
proof -
  have s: "unat (u128_of_u64 s) = unat s"
    using u64_bound [of s] by (simp add: u128_of_u64_def unsigned_ucast_eq take_bit_nat_eq_self)
  have k: "unat (word_of_nat k :: u128) = k" using assms by (simp add: unat_of_nat take_bit_eq_mod)
  have "unat s * k < 2 ^ 64 * 2 ^ 32"
    using u64_bound [of s] assms by (intro mult_strict_mono') auto
  then show ?thesis by (simp add: unat_mult_lem [THEN iffD1] s k)
qed

lemma unat_abs_diff: "int (unat (abs_diff a b)) = \<bar>int (unat a) - int (unat b)\<bar>"
proof (cases "a < b")
  case True
  then have "unat (b - a) = unat b - unat a" "unat a < unat b"
    by (simp_all add: unat_sub word_less_nat_alt word_le_nat_alt)
  then show ?thesis using True unfolding abs_diff_def by (simp only: if_True)
next
  case False
  then have "unat (a - b) = unat a - unat b" "unat b \<le> unat a"
    by (simp_all add: unat_sub word_less_nat_alt word_le_nat_alt)
  then show ?thesis using False unfolding abs_diff_def by (simp only: if_False)
qed

lemma nearest_fold:
  assumes "foldl (nearest_step wc target) best cs = best'"
  defines "dist c \<equiv> abs_diff (u128_of_u64 (snd c) * wc) target"
  shows "snd best' \<le> snd best \<and> (\<forall>c \<in> set cs. snd best' \<le> dist c) \<and>
    (best' = best \<or> (\<exists>i < length cs. best' = (fst (cs ! i), dist (cs ! i)) \<and> (\<forall>j < i. snd best' < dist (cs ! j))))"
  using assms(1)
proof (induction cs arbitrary: best' rule: rev_induct)
  case (snoc c cs)
  define b where "b = foldl (nearest_step wc target) best cs"
  note ih = snoc.IH [OF b_def [symmetric]]
  have b': "best' = nearest_step wc target b c" using snoc.prems by (simp add: b_def)
  show ?case
  proof (cases "dist c < snd b")
    case True
    then have new: "best' = (fst c, dist c)" by (simp add: b' nearest_step_def dist_def Let_def)
    have least: "\<forall>d \<in> set cs. dist c < dist d" using ih True by (auto dest: less_le_trans)
    then have "\<forall>j < length cs. dist c < dist (cs ! j)" by simp
    moreover have "\<forall>d \<in> set cs. dist c \<le> dist d" using least by (simp add: less_imp_le)
    ultimately have "\<forall>d \<in> set (cs @ [c]). dist c \<le> dist d" "\<forall>j < length cs. dist c < dist (cs ! j)"
      by simp_all
    then show ?thesis
      using ih True new unfolding new snd_conv
      by (intro conjI disjI2 exI [of _ "length cs"]) (auto simp: nth_append)
  next
    case False
    then have "best' = b" by (simp add: b' nearest_step_def dist_def Let_def)
    then show ?thesis using ih False by (auto simp: nth_append less_Suc_eq)
  qed
qed simp

lemma enumerated_range:
  "m \<le> k \<Longrightarrow> k < length xs \<Longrightarrow>
   drop m (take (k + 1) (enumerate 0 xs)) = map (\<lambda>c. (c, xs ! c)) [m..<k + 1]"
  by (rule nth_equalityI) (auto simp: nth_enumerate_eq simp del: upt_Suc)

lemma nearest_boundary_cut:
  assumes sums: "try_fold push_prefix [0] ts = Inr sums"
    and w: "worker < worker_count" "worker_count < 2 ^ 32" "worker_count \<le> length ts"
    and prev: "previous + 1 + (worker_count - worker) \<le> length ts"
  shows "nearest_cut ts worker_count worker previous
    (nearest_boundary sums (last sums) worker_count worker (previous + 1) (length ts - (worker_count - worker)))"
proof -
  let ?max = "length ts - (worker_count - worker)"
  let ?target = "u128_of_u64 (last sums) * word_of_nat worker"
  let ?cs = "map (\<lambda>c. (c, sums ! c)) [previous + 1..<?max + 1]"
  let ?dist = "\<lambda>c. abs_diff (u128_of_u64 (snd c) * word_of_nat worker_count) ?target"
  note len = prefix_sums [OF sums]
  have last: "unat (last sums) = tokens_before ts (length ts)"
    using len by (metis add_diff_cancel_right' last_conv_nth le_refl length_0_conv nat.simps(3) Suc_eq_plus1)
  have dist: "int (unat (?dist (c, sums ! c))) = share_distance ts worker_count worker c" if "c \<le> length ts" for c
    using that w unfolding unat_abs_diff share_distance_def
    by (simp add: unat_u128_mul len(2) last)
  have cs: "drop (previous + 1) (take (?max + 1) (enumerate 0 sums)) = ?cs"
    using prev len(1) w by (intro enumerated_range) auto
  obtain best where best: "foldl (nearest_step (word_of_nat worker_count) ?target) (previous + 1, - 1) ?cs = best"
    by blast
  note facts = nearest_fold [OF best]
  have ne: "best \<noteq> (previous + 1, - 1)"
  proof
    assume b: "best = (previous + 1, - 1)"
    have "share_distance ts worker_count worker (previous + 1) < 2 ^ 128 - 1"
    proof -
      have "tokens_before ts c * k < 2 ^ 96" if "c \<le> length ts" "k < 2 ^ 32" for c k
      proof -
        have "tokens_before ts c < 2 ^ 64" using len(2) [OF that(1)] by (metis u64_bound)
        then have "tokens_before ts c * k < 2 ^ 64 * 2 ^ 32" using that(2) by (intro mult_strict_mono') auto
        then show ?thesis by simp
      qed
      then have bounds: "tokens_before ts (previous + 1) * worker_count < 2 ^ 96"
        "tokens_before ts (length ts) * worker < 2 ^ 96" using w prev by simp_all
      have "\<bar>int a - int b\<bar> < 2 ^ 128 - 1" if "a < 2 ^ 96" "b < 2 ^ 96" for a b :: nat
        using that by simp
      from this [OF bounds] show ?thesis unfolding share_distance_def .
    qed
    moreover have "(previous + 1, sums ! (previous + 1)) \<in> set ?cs" using prev by auto
    then have "- 1 \<le> ?dist (previous + 1, sums ! (previous + 1))" using facts b by fastforce
    then have "unat (- 1 :: u128) \<le> unat (?dist (previous + 1, sums ! (previous + 1)))"
      by (simp only: word_le_nat_alt)
    moreover have "int (unat (- 1 :: u128)) = 2 ^ 128 - 1" by (simp add: unsigned_minus_1_eq_mask mask_eq_exp_minus_1)
    ultimately show False using dist [of "previous + 1"] prev by linarith
  qed
  with facts obtain i where i: "i < length ?cs" "best = (fst (?cs ! i), ?dist (?cs ! i))"
    "\<forall>j < i. snd best < ?dist (?cs ! j)" by blast
  define c where "c = previous + 1 + i"
  have c: "?cs ! i = (c, sums ! c)" "previous < c" "c \<le> ?max" using i(1) by (simp_all add: c_def del: upt_Suc)
  have le: "?dist (c, sums ! c) \<le> ?dist (d, sums ! d)" if "previous < d" "d \<le> ?max" for d
  proof -
    have "(d, sums ! d) \<in> set ?cs" using that by (simp del: upt_Suc)
    then have "snd best \<le> ?dist (d, sums ! d)" using facts by blast
    then show ?thesis using i(2) c(1) by (simp del: upt_Suc)
  qed
  have lt: "?dist (c, sums ! c) < ?dist (d, sums ! d)" if "previous < d" "d < c" for d
  proof -
    define j where "j = d - (previous + 1)"
    with that have j: "d = previous + 1 + j" "j < i" by (simp_all add: c_def)
    then have at: "?cs ! j = (d, sums ! d)" using i(1) by (simp del: upt_Suc)
    have "snd best < ?dist (?cs ! j)" using i(3) j(2) by blast
    moreover have "snd best = ?dist (c, sums ! c)" using i(2) c(1) by (simp del: upt_Suc)
    ultimately show ?thesis unfolding at by simp
  qed
  have "nearest_cut ts worker_count worker previous c"
    unfolding nearest_cut_def
  proof (intro conjI allI impI)
    fix d assume d: "previous < d" "d + (worker_count - worker) \<le> length ts"
    then have "c \<le> length ts" "d \<le> length ts" using c by auto
    note conv = dist [OF this(1)] dist [OF this(2)]
    show "share_distance ts worker_count worker c \<le> share_distance ts worker_count worker d"
      unfolding conv [symmetric] of_nat_le_iff word_le_nat_alt [symmetric] using d by (intro le) auto
    show "share_distance ts worker_count worker c < share_distance ts worker_count worker d" if "d < c"
      unfolding conv [symmetric] of_nat_less_iff word_less_nat_alt [symmetric] by (rule lt [OF d(1) that])
  qed (use c prev in auto)
  then show ?thesis
    unfolding nearest_boundary_def cs best using i(2) c(1) by simp
qed

text \<open>Boundaries so far: they start at 0 and each next one is the nearest cut after the one before.\<close>

definition cuts_ok :: "embedding_task_v2 list \<Rightarrow> nat \<Rightarrow> nat list \<Rightarrow> bool" where
  "cuts_ok ts worker_count bs \<longleftrightarrow> bs \<noteq> [] \<and> bs ! 0 = 0 \<and>
     (\<forall>i. 0 < i \<longrightarrow> i < length bs \<longrightarrow> nearest_cut ts worker_count i (bs ! (i - 1)) (bs ! i))"

lemma cuts_fold:
  assumes "try_fold push_prefix [0] ts = Inr sums" and "worker_count < 2 ^ 32"
    and "worker_count \<le> length ts"
  shows "0 < k \<Longrightarrow> k \<le> worker_count \<Longrightarrow>
    (let bs = foldl (push_boundary (length ts) sums (last sums) worker_count) [0] [1..<k]
     in length bs = k \<and> cuts_ok ts worker_count bs)"
proof (induction k)
  case (Suc k)
  show ?case
  proof (cases "k = 0")
    case False
    define bs where "bs = foldl (push_boundary (length ts) sums (last sums) worker_count) [0] [1..<k]"
    with Suc False have bs: "length bs = k" "cuts_ok ts worker_count bs" by (simp_all add: Let_def)
    have prev: "bs ! (k - 1) + 1 + (worker_count - k) \<le> length ts"
    proof (cases "k = 1")
      case True
      then show ?thesis using bs assms(3) Suc.prems by (simp add: cuts_ok_def)
    next
      case False
      with \<open>k \<noteq> 0\<close> have "0 < k - 1" "k - 1 < length bs" using bs(1) by simp_all
      with bs(2) have "nearest_cut ts worker_count (k - 1) (bs ! (k - 1 - 1)) (bs ! (k - 1))"
        unfolding cuts_ok_def by blast
      then have "bs ! (k - 1) + (worker_count - (k - 1)) \<le> length ts" unfolding nearest_cut_def by blast
      then show ?thesis using Suc.prems \<open>k \<noteq> 0\<close> by linarith
    qed
    from nearest_boundary_cut [OF assms(1) _ assms(2,3) prev] Suc.prems
    have "cuts_ok ts worker_count (push_boundary (length ts) sums (last sums) worker_count bs k)"
      using bs by (auto simp: cuts_ok_def push_boundary_def nth_append less_Suc_eq)
    moreover have "length (push_boundary (length ts) sums (last sums) worker_count bs k) = Suc k"
      using bs by (simp add: push_boundary_def)
    ultimately show ?thesis using False by (simp add: bs_def Let_def)
  qed (simp add: cuts_ok_def)
qed simp

lemma boundaries_ok:
  assumes "token_balanced_boundaries plan workers = Inr bs"
    and "0 < workers" and "unat workers \<le> length (p2_tasks plan)"
  shows "\<exists>cs. bs = cs @ [length (p2_tasks plan)] \<and> length cs = unat workers \<and>
    cuts_ok (p2_tasks plan) (unat workers) cs"
proof -
  from assms(1) obtain sums where sums: "try_fold push_prefix [0] (p2_tasks plan) = Inr sums"
    and bs: "bs = foldl (push_boundary (length (p2_tasks plan)) sums (last sums) (unat workers)) [0]
      [1..<unat workers] @ [length (p2_tasks plan)]"
    by (auto simp: token_balanced_boundaries_def Let_def rbind_eq_Inr)
  have "unat workers < 2 ^ 32" using unsigned_less [of workers] by simp
  moreover have "0 < unat workers" using assms(2) by (simp add: word_less_nat_alt)
  ultimately show ?thesis
    using cuts_fold [OF sums _ assms(3), of "unat workers"] bs by (auto simp: Let_def)
qed

lemma cuts_sorted:
  assumes "cuts_ok ts w cs" and "length cs = w" and "w \<le> length ts"
  shows "sorted_wrt (<) (cs @ [length ts])"
proof -
  have step: "cs ! i < (cs @ [length ts]) ! Suc i" if "i < length cs" for i
  proof (cases "Suc i < length cs")
    case True
    then have "nearest_cut ts w (Suc i) (cs ! i) (cs ! Suc i)"
      using assms(1) unfolding cuts_ok_def by fastforce
    then show ?thesis using True by (simp add: nearest_cut_def nth_append)
  next
    case False
    with that have i: "Suc i = length cs" by simp
    have "cs ! i < length ts"
    proof (cases i)
      case 0
      then have "0 < w" "cs ! i = 0" using assms i by (simp_all add: cuts_ok_def)
      then show ?thesis using assms(3) by linarith
    next
      case (Suc j)
      then have "nearest_cut ts w i (cs ! (i - 1)) (cs ! i)"
        using assms(1) that unfolding cuts_ok_def by blast
      then have "cs ! i + (w - i) \<le> length ts" unfolding nearest_cut_def by blast
      then show ?thesis using assms(2) i by linarith
    qed
    then show ?thesis using i by (simp add: nth_append)
  qed
  have "successively (<) (cs @ [length ts])"
    unfolding successively_conv_nth using step by (simp add: nth_append)
  then show ?thesis by (simp add: successively_conv_sorted_wrt)
qed

text \<open>
  C13: The cuts of the plan's tasks. For every worker count that the plan can occupy the
  boundaries run strictly from 0 to the number of tasks, one range per worker, and each inner
  boundary is the first cut nearest to the worker's cumulative share of the tokens among those
  that leave a task for every worker; the 128-bit products do not wrap.
\<close>

theorem boundaries_nearest:
  assumes "token_balanced_boundaries plan workers = Inr bs"
    and "0 < workers" and "unat workers \<le> length (p2_tasks plan)"
  shows "length bs = unat workers + 1 \<and> hd bs = 0 \<and> last bs = length (p2_tasks plan) \<and>
    sorted_wrt (<) bs \<and>
    (\<forall>i. 0 < i \<longrightarrow> i < unat workers \<longrightarrow>
       nearest_cut (p2_tasks plan) (unat workers) i (bs ! (i - 1)) (bs ! i))"
proof -
  from boundaries_ok [OF assms] obtain cs where bs: "bs = cs @ [length (p2_tasks plan)]"
    and len: "length cs = unat workers" and cuts: "cuts_ok (p2_tasks plan) (unat workers) cs" by blast
  then show ?thesis
    using cuts_sorted [OF cuts len assms(3)] by (auto simp: cuts_ok_def hd_append hd_conv_nth nth_append)
qed

subsection \<open>Accepted assignments\<close>

text \<open>The expected output of a task: its range, its tokens, its two paths and its report.\<close>

definition assigned_to :: "embedding_task_v2 \<Rightarrow> runpod_expected_task_output \<Rightarrow> bool" where
  "assigned_to t e \<longleftrightarrow> to_task_id e = t2_task_id t \<and> to_ordinal_start e = t2_ordinal_start t \<and>
     to_ordinal_end e = t2_ordinal_end t \<and> to_token_count e = t2_token_count t \<and>
     to_result_key e = t2_result_path t \<and> to_receipt_key e = t2_receipt_path t \<and>
     path_str (to_report_key e) = report_path (t2_task_id t)"

definition token_sum :: "runpod_expected_task_output list \<Rightarrow> nat" where
  "token_sum es = sum_list (map (\<lambda>e. unat (to_token_count e)) es)"

abbreviation expected_cover :: "nat \<Rightarrow> runpod_expected_task_output list \<Rightarrow> nat \<Rightarrow> bool" where
  "expected_cover \<equiv> covers_from (\<lambda>e. unat (to_ordinal_start e)) (\<lambda>e. unat (to_ordinal_end e))"

lemma check_assigned_task_ok:
  "check_assigned_task (n, o1, k, ids, keys) e = Inr (n', o', k', ids', keys') \<longleftrightarrow>
     require_identifier (to_task_id e) = Inr () \<and>
     to_ordinal_start e \<le> MAX_SAFE_JSON_INTEGER \<and> to_ordinal_end e \<le> MAX_SAFE_JSON_INTEGER \<and>
     to_token_count e \<le> MAX_SAFE_JSON_INTEGER \<and> u64_of_u32 (to_task_ordinal e) \<le> MAX_SAFE_JSON_INTEGER \<and>
     to_task_ordinal e = n \<and> to_ordinal_start e = o1 \<and> o1 < to_ordinal_end e \<and> to_token_count e \<noteq> 0 \<and>
     to_task_id e \<notin> ids \<and> distinct (task_keys e) \<and> set (task_keys e) \<inter> keys = {} \<and>
     unat n' = unat n + 1 \<and> o' = to_ordinal_end e \<and> unat k' = unat k + unat (to_token_count e) \<and>
     ids' = insert (to_task_id e) ids \<and> keys' = set (task_keys e) \<union> keys"
  unfolding check_assigned_task.simps rbind_eq_Inr if_Inl_eq_Inr ok_or_eq_Inr checked_add_unat try_all_ok
    require_safe_u64_ok task_keys_def de_Morgan_disj
  by (auto simp: linorder_not_le)

lemma check_assigned_fold:
  "try_fold check_assigned_task (n, o1, k, ids, keys) es = Inr (n', o', k', ids', keys') \<Longrightarrow>
   map (\<lambda>e. unat (to_task_ordinal e)) es = [unat n..<unat n'] \<and> unat n' = unat n + length es \<and>
   expected_cover (unat o1) es (unat o') \<and> unat k' = unat k + token_sum es \<and>
   distinct (map to_task_id es) \<and> ids \<inter> to_task_id ` set es = {}"
proof (induction es arbitrary: n o1 k ids keys)
  case Nil
  then show ?case by (simp add: token_sum_def)
next
  case (Cons e es)
  then obtain a b c d f where step: "check_assigned_task (n, o1, k, ids, keys) e = Inr (a, b, c, d, f)"
    and rest: "try_fold check_assigned_task (a, b, c, d, f) es = Inr (n', o', k', ids', keys')"
    unfolding try_fold.simps rbind_eq_Inr by (metis prod_cases5)
  note ih = Cons.IH [OF rest] and here = step [unfolded check_assigned_task_ok]
  have "unat n < unat n'" "unat a = Suc (unat n)" using ih here by simp_all
  then have "[unat n..<unat n'] = unat n # [unat a..<unat n']" by (simp only: upt_conv_Cons)
  then show ?case
    using ih here by (auto simp: token_sum_def word_less_nat_alt)
qed

lemma assignment_checks_ok:
  assumes "assignment_checks w = Inr ()"
  shows "map (\<lambda>e. unat (to_task_ordinal e)) (wa_tasks w) = [unat (wa_task_start w)..<unat (wa_task_end w)] \<and>
    wa_task_start w < wa_task_end w \<and> wa_ordinal_start w < wa_ordinal_end w \<and>
    expected_cover (unat (wa_ordinal_start w)) (wa_tasks w) (unat (wa_ordinal_end w)) \<and>
    unat (wa_token_count w) = token_sum (wa_tasks w) \<and> distinct (map to_task_id (wa_tasks w))"
proof -
  from assms obtain ids keys where
    f: "try_fold check_assigned_task (wa_task_start w, wa_ordinal_start w, 0, {}, {}) (wa_tasks w) =
      Inr (wa_task_end w, wa_ordinal_end w, wa_token_count w, ids, keys)"
    and lt: "wa_task_start w < wa_task_end w" "wa_ordinal_start w < wa_ordinal_end w"
    unfolding assignment_checks_def rbind_eq_Inr if_Inl_eq_Inr de_Morgan_disj
    by (auto simp: linorder_not_le split: prod.splits if_splits)
  from check_assigned_fold [OF f] lt show ?thesis by simp
qed

lemma check_assigned_binding_ok:
  "check_assigned_binding ts e = Inr u \<longleftrightarrow>
     unat (to_task_ordinal e) < length ts \<and> assigned_to (ts ! unat (to_task_ordinal e)) e"
  by (auto simp: check_assigned_binding_def assigned_to_def Let_def)

definition assigned_tasks :: "runpod_worker_assignment list \<Rightarrow> runpod_expected_task_output list" where
  "assigned_tasks ws = concat (map wa_tasks ws)"

abbreviation workers_cover :: "nat \<Rightarrow> runpod_worker_assignment list \<Rightarrow> nat \<Rightarrow> bool" where
  "workers_cover \<equiv> covers_from (\<lambda>w. unat (wa_ordinal_start w)) (\<lambda>w. unat (wa_ordinal_end w))"

lemma check_assignment_ok:
  assumes "check_assignment X plan (n, o1, k, ids) w = Inr (n', o', k', ids')"
  shows "assignment_validate X w = Inr () \<and> wa_task_start w = n \<and> wa_ordinal_start w = o1 \<and>
    wa_worker_id w \<notin> ids \<and> n' = wa_task_end w \<and> o' = wa_ordinal_end w \<and>
    unat k' = unat k + token_sum (wa_tasks w) \<and> ids' = insert (wa_worker_id w) ids \<and>
    (\<forall>e \<in> set (wa_tasks w). check_assigned_binding (p2_tasks plan) e = Inr ())"
proof -
  have v: "assignment_validate X w = Inr ()"
    using assms by (simp add: rbind_eq_Inr)
  then have "assignment_checks w = Inr ()" by (simp add: assignment_validate_def rbind_eq_Inr)
  from assignment_checks_ok [OF this] have "unat (wa_token_count w) = token_sum (wa_tasks w)" by blast
  with assms v show ?thesis
    unfolding check_assignment.simps rbind_eq_Inr if_Inl_eq_Inr ok_or_eq_Inr checked_add_unat try_all_ok
    by auto
qed

lemma check_assignment_fold:
  "try_fold (check_assignment X plan) (n, o1, k, ids) ws = Inr (n', o', k', ids') \<Longrightarrow>
   map (\<lambda>e. unat (to_task_ordinal e)) (assigned_tasks ws) = [unat n..<unat n'] \<and> unat n \<le> unat n' \<and>
   workers_cover (unat o1) ws (unat o') \<and> expected_cover (unat o1) (assigned_tasks ws) (unat o') \<and>
   unat k' = unat k + token_sum (assigned_tasks ws) \<and>
   distinct (map wa_worker_id ws) \<and> ids \<inter> wa_worker_id ` set ws = {} \<and>
   (\<forall>e \<in> set (assigned_tasks ws). check_assigned_binding (p2_tasks plan) e = Inr ())"
proof (induction ws arbitrary: n o1 k ids)
  case Nil
  then show ?case by (simp add: assigned_tasks_def token_sum_def)
next
  case (Cons w ws)
  then obtain a b c d where step: "check_assignment X plan (n, o1, k, ids) w = Inr (a, b, c, d)"
    and rest: "try_fold (check_assignment X plan) (a, b, c, d) ws = Inr (n', o', k', ids')"
    unfolding try_fold.simps rbind_eq_Inr by (metis prod_cases4)
  note ih = Cons.IH [OF rest] and here = check_assignment_ok [OF step]
  from here have "assignment_checks w = Inr ()" by (simp add: assignment_validate_def rbind_eq_Inr)
  note inner = assignment_checks_ok [OF this]
  have "[unat n..<unat n'] = [unat n..<unat a] @ [unat a..<unat n']"
  proof -
    have "unat n \<le> unat a" "unat a \<le> unat n'" using ih here inner by (auto simp: word_less_nat_alt)
    then show ?thesis using upt_add_eq_append [of "unat n" "unat a" "unat n' - unat a"] by simp
  qed
  moreover have "expected_cover (unat o1) (wa_tasks w) (unat b)" using here inner by simp
  then have "expected_cover (unat o1) (wa_tasks w @ assigned_tasks ws) (unat o')"
    by (rule covers_from_append) (use ih in blast)
  ultimately show ?case
    using ih here inner by (auto simp: assigned_tasks_def token_sum_def word_less_nat_alt)
qed

lemma accepted_assignments:
  assumes "validate_assignments X ws plan = Inr ()"
  shows "list_all2 assigned_to (p2_tasks plan) (assigned_tasks ws) \<and>
    map (\<lambda>e. unat (to_task_ordinal e)) (assigned_tasks ws) = [0..<length (p2_tasks plan)] \<and>
    workers_cover 0 ws (unat (p2_document_count plan)) \<and>
    token_sum (assigned_tasks ws) = unat (ts_total_tokens (p2_token_statistics plan)) \<and>
    distinct (map wa_worker_id ws)"
proof -
  from assms obtain n ids where
    f: "try_fold (check_assignment X plan) (0, 0, 0, {}) ws =
      Inr (n, p2_document_count plan, ts_total_tokens (p2_token_statistics plan), ids)"
    and n: "unat n = length (p2_tasks plan)"
    unfolding validate_assignments_def rbind_eq_Inr by (auto split: prod.splits if_splits)
  note facts = check_assignment_fold [OF f, unfolded n]
  then have ords: "map (\<lambda>e. unat (to_task_ordinal e)) (assigned_tasks ws) = [0..<length (p2_tasks plan)]"
    by simp
  then have len: "length (assigned_tasks ws) = length (p2_tasks plan)"
    by (metis diff_zero length_map length_upt)
  have "assigned_to (p2_tasks plan ! i) (assigned_tasks ws ! i)" if i: "i < length (p2_tasks plan)" for i
  proof -
    have "unat (to_task_ordinal (assigned_tasks ws ! i)) = i"
      using arg_cong [OF ords, of "\<lambda>xs. xs ! i"] i len by simp
    moreover have "assigned_tasks ws ! i \<in> set (assigned_tasks ws)" using i len by simp
    ultimately show ?thesis using facts unfolding check_assigned_binding_ok by metis
  qed
  then show ?thesis using facts ords len by (simp add: list_all2_conv_all_nth)
qed

lemma validated_assignment:
  assumes "validate_assignments X ws plan = Inr ()" and "w \<in> set ws"
  shows "assignment_checks w = Inr ()"
proof -
  have "try_fold (check_assignment X plan) st ws = Inr st' \<Longrightarrow> w \<in> set ws \<Longrightarrow> assignment_checks w = Inr ()"
    for st st'
  proof (induction ws arbitrary: st)
    case (Cons x ws)
    obtain n o1 k ids where st: "st = (n, o1, k, ids)" by (cases st) auto
    from Cons show ?case
      by (auto simp: st rbind_eq_Inr assignment_validate_def)
  qed simp
  then show ?thesis using assms by (auto simp: validate_assignments_def rbind_eq_Inr)
qed

interpretation worker_ranges: contiguous_plan wa_ordinal_start wa_ordinal_end
  "\<lambda>(X, plan) ws n. validate_assignments X ws plan = Inr () \<and> n = p2_document_count plan"
  by unfold_locales (auto simp: accepted_assignments)

lemma insert_key_fold:
  "try_fold insert_key K ks = Inr L \<longleftrightarrow> distinct ks \<and> K \<inter> set ks = {} \<and> L = K \<union> set ks"
  by (induction ks arbitrary: K) (auto simp: insert_key_def rbind_eq_Inr)

text \<open>
  C8: The work of an accepted bundle is the plan. Its assignments list the plan's tasks in order,
  each exactly once with the plan's range, token count and paths, every document ordinal belongs
  to exactly one worker, the tokens add up to the plan's total, the workers are distinct, and no
  object key of the bundle, input or output, is used twice.
\<close>

theorem bundle_assigns_plan:
  assumes "bundle_validate_against X m plan b = Inr ()"
  shows "list_all2 assigned_to (p2_tasks plan) (assigned_tasks (rb_assignments b)) \<and>
    (\<forall>i < unat (p2_document_count plan). \<exists>!k. k < length (rb_assignments b) \<and>
       unat (wa_ordinal_start (rb_assignments b ! k)) \<le> i \<and> i < unat (wa_ordinal_end (rb_assignments b ! k))) \<and>
    token_sum (assigned_tasks (rb_assignments b)) = unat (rb_total_tokens b) \<and>
    distinct (map wa_worker_id (rb_assignments b)) \<and> distinct (bundle_keys b)"
proof -
  have v: "validate_assignments X (rb_assignments b) plan = Inr ()"
    and "distinct (bundle_keys b)" "rb_total_tokens b = ts_total_tokens (p2_token_statistics plan)"
    using assms unfolding bundle_validate_against_def bundle_checks_def rbind_eq_Inr if_Inl_eq_Inr insert_key_fold
    by simp_all
  moreover have "\<exists>!k. k < length (rb_assignments b) \<and> unat (wa_ordinal_start (rb_assignments b ! k)) \<le> i \<and>
      i < unat (wa_ordinal_end (rb_assignments b ! k))" if "i < unat (p2_document_count plan)" for i
    using worker_ranges.ordinal_has_one_task [of "(X, plan)" "rb_assignments b", OF _ that] v by simp
  ultimately show ?thesis using accepted_assignments [OF v] by metis
qed

end
