(* ===== verification/Cloud_Run.thy ===== *)
theory Cloud_Run
  imports Cloud_Coverage Matching
begin

text \<open>
  The outcome of the remote embedding run, second half of
  \<open>crates/rag-pipeline/src/cloud.rs\<close>: the markers that workers leave for their attempts, the
  validation of a marker against its assignment, and the report that selects one completed
  attempt per worker. The lemmas show that an accepted report accounts for every task of the
  plan exactly once, and that a report is built whenever every worker has one valid completed
  attempt.
\<close>

subsection \<open>Data\<close>

definition RUNPOD_WORKER_ATTEMPT_SCHEMA :: string where
  "RUNPOD_WORKER_ATTEMPT_SCHEMA = ''livefire.rag.runpod-worker-attempt/1''"

definition RUNPOD_RUN_REPORT_SCHEMA :: string where
  "RUNPOD_RUN_REPORT_SCHEMA = ''livefire.rag.runpod-run-report/1''"

record runpod_machine_identity =
  mi_pod_id :: string
  mi_machine_id :: string

datatype worker_attempt_outcome = Completed | Failed

record runpod_task_output =
  ro_task_id :: string
  ro_result :: cloud_object_ref
  ro_receipt :: cloud_object_ref
  ro_report :: cloud_object_ref

record runpod_query_vector_set_output =
  qs_component_sha256 :: digest
  qs_manifest :: cloud_object_ref
  qs_query_plan :: cloud_object_ref
  qs_vectors :: cloud_object_ref

record runpod_worker_attempt_marker =
  am_schema_version :: string
  am_component_sha256 :: digest
  am_bundle_sha256 :: digest
  am_assignment_sha256 :: digest
  am_worker_id :: string
  am_attempt_id :: string
  am_attempt_number :: u32
  am_outcome :: worker_attempt_outcome
  am_machine :: runpod_machine_identity
  am_execution :: runpod_execution_identity
  am_started_at_ms :: u64
  am_completed_at_ms :: u64
  am_requests :: u64
  am_retries :: u64
  am_outputs :: "runpod_task_output list"
  am_query_vector_set :: "runpod_query_vector_set_output option"
  am_failure_code :: "string option"

record runpod_selected_attempt =
  sa_worker_id :: string
  sa_attempt_id :: string
  sa_marker_component_sha256 :: digest
  sa_marker :: cloud_object_ref

record runpod_run_report =
  rr_schema_version :: string
  rr_component_sha256 :: digest
  rr_bundle_sha256 :: digest
  rr_execution :: runpod_execution_identity
  rr_worker_count :: u32
  rr_task_count :: u32
  rr_document_count :: u64
  rr_total_tokens :: u64
  rr_vector_objects :: u32
  rr_receipt_objects :: u32
  rr_report_objects :: u32
  rr_query_vector_set :: runpod_query_vector_set_output
  rr_selected_attempts :: "runpod_selected_attempt list"

subsection \<open>JSON values\<close>

fun json_outcome :: "worker_attempt_outcome \<Rightarrow> json" where
  "json_outcome Completed = JStr ''completed''"
| "json_outcome Failed = JStr ''failed''"

definition json_machine :: "runpod_machine_identity \<Rightarrow> json" where
  "json_machine m = JObj [(''pod_id'', JStr (mi_pod_id m)), (''machine_id'', JStr (mi_machine_id m))]"

definition json_task_output :: "runpod_task_output \<Rightarrow> json" where
  "json_task_output r = JObj
     [(''task_id'', JStr (ro_task_id r)), (''result'', json_cloud_object (ro_result r)),
      (''receipt'', json_cloud_object (ro_receipt r)), (''report'', json_cloud_object (ro_report r))]"

definition json_query_vector_set_output :: "runpod_query_vector_set_output \<Rightarrow> json" where
  "json_query_vector_set_output q = JObj
     [(''component_sha256'', json_digest (qs_component_sha256 q)),
      (''manifest'', json_cloud_object (qs_manifest q)),
      (''query_plan'', json_cloud_object (qs_query_plan q)),
      (''vectors'', json_cloud_object (qs_vectors q))]"

text \<open>The two optional fields are skipped when absent.\<close>

definition json_attempt :: "runpod_worker_attempt_marker \<Rightarrow> json" where
  "json_attempt a = JObj (
     [(''schema_version'', JStr (am_schema_version a)),
      (''component_sha256'', json_digest (am_component_sha256 a)),
      (''bundle_sha256'', json_digest (am_bundle_sha256 a)),
      (''assignment_sha256'', json_digest (am_assignment_sha256 a)),
      (''worker_id'', JStr (am_worker_id a)), (''attempt_id'', JStr (am_attempt_id a)),
      (''attempt_number'', json_u32 (am_attempt_number a)),
      (''outcome'', json_outcome (am_outcome a)), (''machine'', json_machine (am_machine a)),
      (''execution'', json_execution (am_execution a)),
      (''started_at_ms'', json_u64 (am_started_at_ms a)),
      (''completed_at_ms'', json_u64 (am_completed_at_ms a)),
      (''requests'', json_u64 (am_requests a)), (''retries'', json_u64 (am_retries a)),
      (''outputs'', JArr (map json_task_output (am_outputs a)))] @
     (case am_query_vector_set a of None \<Rightarrow> []
      | Some q \<Rightarrow> [(''query_vector_set'', json_query_vector_set_output q)]) @
     (case am_failure_code a of None \<Rightarrow> [] | Some c \<Rightarrow> [(''failure_code'', JStr c)]))"

definition json_selected_attempt :: "runpod_selected_attempt \<Rightarrow> json" where
  "json_selected_attempt s = JObj
     [(''worker_id'', JStr (sa_worker_id s)), (''attempt_id'', JStr (sa_attempt_id s)),
      (''marker_component_sha256'', json_digest (sa_marker_component_sha256 s)),
      (''marker'', json_cloud_object (sa_marker s))]"

definition json_run_report :: "runpod_run_report \<Rightarrow> json" where
  "json_run_report r = JObj
     [(''schema_version'', JStr (rr_schema_version r)),
      (''component_sha256'', json_digest (rr_component_sha256 r)),
      (''bundle_sha256'', json_digest (rr_bundle_sha256 r)),
      (''execution'', json_execution (rr_execution r)),
      (''worker_count'', json_u32 (rr_worker_count r)), (''task_count'', json_u32 (rr_task_count r)),
      (''document_count'', json_u64 (rr_document_count r)),
      (''total_tokens'', json_u64 (rr_total_tokens r)),
      (''vector_objects'', json_u32 (rr_vector_objects r)),
      (''receipt_objects'', json_u32 (rr_receipt_objects r)),
      (''report_objects'', json_u32 (rr_report_objects r)),
      (''query_vector_set'', json_query_vector_set_output (rr_query_vector_set r)),
      (''selected_attempts'', JArr (map json_selected_attempt (rr_selected_attempts r)))]"

subsection \<open>Attempts\<close>

definition machine_validate :: "runpod_machine_identity \<Rightarrow> pipeline_error + unit" where
  "machine_validate m =
     rbind (require_identifier (mi_pod_id m)) (\<lambda>_. require_identifier (mi_machine_id m))"

definition query_vector_set_validate ::
    "runpod_embedding_bundle \<Rightarrow> runpod_query_vector_set_output \<Rightarrow> pipeline_error + unit" where
  "query_vector_set_validate b q =
     rbind (cloud_object_validate (qs_manifest q)) (\<lambda>_.
     rbind (cloud_object_validate (qs_query_plan q)) (\<lambda>_.
     rbind (cloud_object_validate (qs_vectors q)) (\<lambda>_.
     let expected = rb_query_vector_output b; staged = ba_query_plan (rb_artifacts b) in
     if co_key (qs_manifest q) \<noteq> qo_manifest_key expected
        \<or> co_key (qs_query_plan q) \<noteq> qo_query_plan_key expected
        \<or> co_key (qs_vectors q) \<noteq> qo_vectors_key expected
        \<or> co_bytes (qs_query_plan q) \<noteq> co_bytes staged
        \<or> co_sha256 (qs_query_plan q) \<noteq> co_sha256 staged
     then Inl (Invalid ''cloud query vector output binding'') else Inr ())))"

definition check_task_output ::
    "(string, runpod_task_output) btree \<Rightarrow> runpod_expected_task_output \<Rightarrow> pipeline_error + unit" where
  "check_task_output by_task expected =
     rbind (ok_or (Invalid ''cloud missing task output'') (bt_get by_task (to_task_id expected))) (\<lambda>out.
     rbind (cloud_object_validate (ro_result out)) (\<lambda>_.
     rbind (cloud_object_validate (ro_receipt out)) (\<lambda>_.
     rbind (cloud_object_validate (ro_report out)) (\<lambda>_.
     if co_key (ro_result out) \<noteq> to_result_key expected \<or> co_key (ro_receipt out) \<noteq> to_receipt_key expected
     then Inl (Invalid ''cloud task output key'')
     else if co_key (ro_report out) \<noteq> to_report_key expected
     then Inl (Invalid ''cloud task report key'') else Inr ()))))"

definition validate_task_outputs ::
    "runpod_task_output list \<Rightarrow> runpod_worker_assignment \<Rightarrow> pipeline_error + unit" where
  "validate_task_outputs outputs w =
     (if length outputs \<noteq> length (wa_tasks w) then Inl (Invalid ''cloud task output coverage'')
      else
      let by_task = bt_collect (map (\<lambda>out. (ro_task_id out, out)) outputs) in
      if length by_task \<noteq> length outputs then Inl (Invalid ''cloud duplicate task output'')
      else try_all (check_task_output by_task) (wa_tasks w))"

definition completed_attempt_checks ::
    "runpod_embedding_bundle \<Rightarrow> runpod_worker_assignment \<Rightarrow> runpod_worker_attempt_marker \<Rightarrow>
     pipeline_error + unit" where
  "completed_attempt_checks b w a =
     (if am_requests a = 0 \<or> am_failure_code a \<noteq> None
      then Inl (Invalid ''cloud completed attempt state'')
      else
      rbind (validate_task_outputs (am_outputs a) w) (\<lambda>_.
      if am_worker_id a = qo_worker_id (rb_query_vector_output b)
      then rbind (ok_or (Invalid ''cloud query vector output missing'') (am_query_vector_set a))
             (query_vector_set_validate b)
      else if am_query_vector_set a \<noteq> None
      then Inl (Invalid ''cloud query vector output worker'')
      else Inr ()))"

definition failed_attempt_checks :: "runpod_worker_attempt_marker \<Rightarrow> pipeline_error + unit" where
  "failed_attempt_checks a =
     (if am_outputs a \<noteq> [] \<or> am_query_vector_set a \<noteq> None
      then Inl (Invalid ''cloud failed attempt state'')
      else case am_failure_code a of
        None \<Rightarrow> Inl (Invalid ''cloud failed attempt state'')
      | Some code \<Rightarrow> require_identifier code)"

definition worker_assignment :: "runpod_embedding_bundle \<Rightarrow> string \<Rightarrow> runpod_worker_assignment option" where
  "worker_assignment b worker_id = find (\<lambda>w. wa_worker_id w = worker_id) (rb_assignments b)"

text \<open>The checks of \<open>RunpodWorkerAttemptMarker::validate_against\<close> before the comparison of the digest.\<close>

definition attempt_checks ::
    "runpod_embedding_bundle \<Rightarrow> runpod_worker_attempt_marker \<Rightarrow> pipeline_error + unit" where
  "attempt_checks b a =
     (if am_schema_version a \<noteq> RUNPOD_WORKER_ATTEMPT_SCHEMA \<or> am_bundle_sha256 a \<noteq> rb_component_sha256 b
      then Inl (Invalid ''cloud attempt bundle binding'')
      else
      rbind (require_identifier (am_worker_id a)) (\<lambda>_.
      rbind (require_identifier (am_attempt_id a)) (\<lambda>_.
      rbind (try_all require_safe_u64
               [u64_of_u32 (am_attempt_number a), am_started_at_ms a, am_completed_at_ms a,
                am_requests a, am_retries a]) (\<lambda>_.
      if am_attempt_number a = 0 \<or> am_started_at_ms a > am_completed_at_ms a \<or> am_retries a > am_requests a
      then Inl (Invalid ''cloud attempt accounting'')
      else
      rbind (machine_validate (am_machine a)) (\<lambda>_.
      rbind (execution_validate (am_execution a)) (\<lambda>_.
      if am_execution a \<noteq> rb_execution b then Inl (Invalid ''cloud attempt execution identity'')
      else
      rbind (ok_or (Invalid ''cloud attempt worker'') (worker_assignment b (am_worker_id a))) (\<lambda>w.
      if am_assignment_sha256 a \<noteq> wa_component_sha256 w
      then Inl (Invalid ''cloud attempt assignment binding'')
      else case am_outcome a of
        Completed \<Rightarrow> completed_attempt_checks b w a
      | Failed \<Rightarrow> failed_attempt_checks a)))))))"

definition attempt_validate ::
    "externals \<Rightarrow> runpod_embedding_bundle \<Rightarrow> runpod_worker_attempt_marker \<Rightarrow> pipeline_error + unit" where
  "attempt_validate X b a =
     rbind (attempt_checks b a) (\<lambda>_.
     rbind (component_digest X (json_attempt a)) (\<lambda>d.
     if am_component_sha256 a \<noteq> d then Inl (Invalid ''cloud attempt component digest'') else Inr ()))"

definition attempt_seal ::
    "externals \<Rightarrow> runpod_worker_attempt_marker \<Rightarrow> pipeline_error + runpod_worker_attempt_marker" where
  "attempt_seal X a =
     rbind (component_digest X (json_attempt a)) (\<lambda>d. Inr (a\<lparr>am_component_sha256 := d\<rparr>))"

definition canonical_object ::
    "externals \<Rightarrow> runpod_worker_attempt_marker \<Rightarrow> pipeline_error + cloud_object_ref" where
  "canonical_object X a =
     rbind (canonical_json_bytes X (json_attempt a)) (\<lambda>bytes.
     rbind (safe_relative_path_new (''attempts/'' @ am_worker_id a @ ''/completed.json'')) (\<lambda>key.
     rbind (ok_or (Invalid ''cloud marker bytes'') (try_from_nat (length bytes))) (\<lambda>n.
     Inr \<lparr>co_key = key, co_bytes = n, co_sha256 = digest_bytes X bytes\<rparr>)))"

subsection \<open>The run report\<close>

definition insert_task :: "string set \<Rightarrow> runpod_task_output \<Rightarrow> pipeline_error + string set" where
  "insert_task tasks out =
     (if ro_task_id out \<in> tasks then Inl (Invalid ''cloud report duplicate task'')
      else Inr (insert (ro_task_id out) tasks))"

fun check_reported_worker ::
    "externals \<Rightarrow> runpod_embedding_bundle \<Rightarrow> runpod_run_report \<Rightarrow> runpod_worker_attempt_marker list \<Rightarrow>
     (digest, runpod_selected_attempt) btree \<Rightarrow> string set \<times> string set \<Rightarrow> runpod_worker_assignment \<Rightarrow>
     pipeline_error + string set \<times> string set" where
  "check_reported_worker X b r attempts refs (workers, tasks) w =
     rbind (ok_or (Invalid ''cloud report missing worker'')
              (find (\<lambda>a. am_worker_id a = wa_worker_id w) attempts)) (\<lambda>a.
     rbind (attempt_validate X b a) (\<lambda>_.
     if am_outcome a \<noteq> Completed \<or> am_worker_id a \<in> workers
     then Inl (Invalid ''cloud report worker coverage'')
     else if am_worker_id a = qo_worker_id (rb_query_vector_output b)
         \<and> am_query_vector_set a \<noteq> Some (rr_query_vector_set r)
     then Inl (Invalid ''cloud report query vector selection'')
     else
     rbind (ok_or (Invalid ''cloud report unselected attempt'') (bt_get refs (am_component_sha256 a)))
       (\<lambda>selected.
     rbind (canonical_object X a) (\<lambda>canonical.
     if sa_worker_id selected \<noteq> am_worker_id a \<or> sa_attempt_id selected \<noteq> am_attempt_id a
        \<or> sa_marker selected \<noteq> canonical
     then Inl (Invalid ''cloud report attempt object binding'')
     else
     rbind (try_fold insert_task tasks (am_outputs a)) (\<lambda>tasks.
     Inr (insert (am_worker_id a) workers, tasks))))))"

text \<open>The checks of \<open>RunpodRunReport::validate_against\<close> before the comparison of the digest.\<close>

definition report_checks ::
    "externals \<Rightarrow> runpod_embedding_bundle \<Rightarrow> runpod_worker_attempt_marker list \<Rightarrow> runpod_run_report \<Rightarrow>
     pipeline_error + unit" where
  "report_checks X b attempts r =
     (if rr_schema_version r \<noteq> RUNPOD_RUN_REPORT_SCHEMA
        \<or> rr_bundle_sha256 r \<noteq> rb_component_sha256 b
        \<or> rr_execution r \<noteq> rb_execution b
        \<or> unat (rr_worker_count r) \<noteq> length (rb_assignments b)
        \<or> rr_task_count r \<noteq> rb_task_count b
        \<or> rr_document_count r \<noteq> rb_document_count b
        \<or> rr_total_tokens r \<noteq> rb_total_tokens b
        \<or> rr_vector_objects r \<noteq> rb_task_count b
        \<or> rr_receipt_objects r \<noteq> rb_task_count b
        \<or> rr_report_objects r \<noteq> rb_task_count b
        \<or> \<not> is_ok (query_vector_set_validate b (rr_query_vector_set r))
        \<or> length (rr_selected_attempts r) \<noteq> length (rb_assignments b)
        \<or> length attempts \<noteq> length (rr_selected_attempts r)
      then Inl (Invalid ''cloud report bundle binding'')
      else
      rbind (try_all require_safe_u64 [rr_document_count r, rr_total_tokens r]) (\<lambda>_.
      let refs = bt_collect (map (\<lambda>s. (sa_marker_component_sha256 s, s)) (rr_selected_attempts r));
          loaded = bt_collect (map (\<lambda>a. (am_component_sha256 a, a)) attempts)
      in if length refs \<noteq> length (rr_selected_attempts r) \<or> length loaded \<noteq> length attempts
      then Inl (Invalid ''cloud report duplicate attempt'')
      else
      rbind (try_fold (check_reported_worker X b r attempts refs) ({}, {}) (rb_assignments b))
        (\<lambda>(_, tasks).
      if tasks \<noteq> to_task_id ` set (assigned_tasks (rb_assignments b))
         \<or> set (bt_keys loaded) \<noteq> set (bt_keys refs)
      then Inl (Invalid ''cloud report task or attempt coverage'') else Inr ())))"

definition report_validate ::
    "externals \<Rightarrow> runpod_embedding_bundle \<Rightarrow> runpod_worker_attempt_marker list \<Rightarrow> runpod_run_report \<Rightarrow>
     pipeline_error + unit" where
  "report_validate X b attempts r =
     rbind (report_checks X b attempts r) (\<lambda>_.
     rbind (component_digest X (json_run_report r)) (\<lambda>d.
     if rr_component_sha256 r \<noteq> d then Inl (Invalid ''cloud report component digest'') else Inr ()))"

definition report_seal ::
    "externals \<Rightarrow> runpod_run_report \<Rightarrow> pipeline_error + runpod_run_report" where
  "report_seal X r =
     rbind (component_digest X (json_run_report r)) (\<lambda>d. Inr (r\<lparr>rr_component_sha256 := d\<rparr>))"

definition select_attempt ::
    "externals \<Rightarrow> runpod_worker_attempt_marker \<Rightarrow> pipeline_error + runpod_selected_attempt" where
  "select_attempt X a =
     rbind (canonical_object X a) (\<lambda>marker.
     Inr \<lparr>sa_worker_id = am_worker_id a, sa_attempt_id = am_attempt_id a,
          sa_marker_component_sha256 = am_component_sha256 a, sa_marker = marker\<rparr>)"

definition build_runpod_run_report ::
    "externals \<Rightarrow> runpod_embedding_bundle \<Rightarrow> runpod_worker_attempt_marker list \<Rightarrow>
     pipeline_error + runpod_run_report" where
  "build_runpod_run_report X b attempts =
     rbind (try_map (select_attempt X) attempts) (\<lambda>selected_attempts.
     rbind (ok_or (Invalid ''cloud query vector output missing'')
              (Option.bind (find (\<lambda>a. am_worker_id a = qo_worker_id (rb_query_vector_output b)) attempts)
                 am_query_vector_set)) (\<lambda>query_vector_set.
     rbind (ok_or (Invalid ''cloud worker count'') (try_from_nat (length (rb_assignments b)))) (\<lambda>worker_count.
     rbind (report_seal X
       \<lparr>rr_schema_version = RUNPOD_RUN_REPORT_SCHEMA,
        rr_component_sha256 = digest_bytes X (str_bytes ''unsealed''),
        rr_bundle_sha256 = rb_component_sha256 b, rr_execution = rb_execution b,
        rr_worker_count = worker_count, rr_task_count = rb_task_count b,
        rr_document_count = rb_document_count b, rr_total_tokens = rb_total_tokens b,
        rr_vector_objects = rb_task_count b, rr_receipt_objects = rb_task_count b,
        rr_report_objects = rb_task_count b, rr_query_vector_set = query_vector_set,
        rr_selected_attempts = selected_attempts\<rparr>) (\<lambda>report.
     rbind (report_validate X b attempts report) (\<lambda>_. Inr report)))))"

subsection \<open>Accepted attempts\<close>

definition expected_keys :: "runpod_expected_task_output \<Rightarrow> string \<times> safe_path list" where
  "expected_keys e = (to_task_id e, task_keys e)"

definition output_keys :: "runpod_task_output \<Rightarrow> string \<times> safe_path list" where
  "output_keys r = (ro_task_id r, [co_key (ro_result r), co_key (ro_receipt r), co_key (ro_report r)])"

lemma check_task_output_ok:
  "check_task_output by_task e = Inr u \<longleftrightarrow> (\<exists>r. bt_get by_task (to_task_id e) = Some r \<and>
     snd (output_keys r) = task_keys e \<and> cloud_object_validate (ro_result r) = Inr () \<and>
     cloud_object_validate (ro_receipt r) = Inr () \<and> cloud_object_validate (ro_report r) = Inr ())"
  by (auto simp: check_task_output_def rbind_eq_Inr ok_or_eq_Inr output_keys_def task_keys_def)

lemma task_outputs_ok:
  assumes "validate_task_outputs outputs w = Inr ()" and "distinct (map to_task_id (wa_tasks w))"
  shows "mset (map output_keys outputs) = mset (map expected_keys (wa_tasks w))"
proof -
  let ?by_task = "bt_collect (map (\<lambda>r. (ro_task_id r, r)) outputs)"
  have len: "length outputs = length (wa_tasks w)" "length ?by_task = length outputs"
    and tasks: "try_all (check_task_output ?by_task) (wa_tasks w) = Inr ()"
    using assms(1) by (auto simp: validate_task_outputs_def Let_def split: if_splits)
  have dist: "distinct (map ro_task_id outputs)"
    using len(2) bt_collect_distinct [of "map (\<lambda>r. (ro_task_id r, r)) outputs"] by (simp add: comp_def)
  then have get: "bt_get ?by_task = map_of (map (\<lambda>r. (ro_task_id r, r)) outputs)"
    by (simp add: bt_collect_get_distinct comp_def)
  have "\<forall>e \<in> set (wa_tasks w). \<exists>r \<in> set outputs. ro_task_id r = to_task_id e \<and>
      snd (output_keys r) = task_keys e"
    using tasks unfolding try_all_ok check_task_output_ok get by (fastforce dest: map_of_SomeD)
  from mset_of_matching [OF dist assms(2) len(1) this]
  have "mset (map (\<lambda>r. (ro_task_id r, snd (output_keys r))) outputs) =
    mset (map (\<lambda>e. (to_task_id e, task_keys e)) (wa_tasks w))" .
  moreover have "(\<lambda>r. (ro_task_id r, snd (output_keys r))) = output_keys"
    "(\<lambda>e. (to_task_id e, task_keys e)) = expected_keys"
    by (auto simp: fun_eq_iff output_keys_def expected_keys_def)
  ultimately show ?thesis by simp
qed

lemma completed_attempt:
  assumes "attempt_validate X b a = Inr ()" and "am_outcome a = Completed"
  shows "\<exists>w. worker_assignment b (am_worker_id a) = Some w \<and> am_assignment_sha256 a = wa_component_sha256 w \<and>
    validate_task_outputs (am_outputs a) w = Inr ()"
  using assms unfolding attempt_validate_def attempt_checks_def completed_attempt_checks_def
    rbind_eq_Inr if_Inl_eq_Inr ok_or_eq_Inr
  by (auto simp: rbind_eq_Inr ok_or_eq_Inr split: if_splits)

lemma find_distinct:
  "distinct (map f xs) \<Longrightarrow> x \<in> set xs \<Longrightarrow> find (\<lambda>y. f y = f x) xs = Some x"
  by (induction xs) force+

text \<open>What the report check establishes for one worker.\<close>

definition reported ::
    "externals \<Rightarrow> runpod_embedding_bundle \<Rightarrow> runpod_run_report \<Rightarrow> runpod_worker_attempt_marker \<Rightarrow> bool" where
  "reported X b r a \<longleftrightarrow> attempt_validate X b a = Inr () \<and> am_outcome a = Completed \<and>
     (am_worker_id a = qo_worker_id (rb_query_vector_output b) \<longrightarrow>
        am_query_vector_set a = Some (rr_query_vector_set r)) \<and>
     (\<exists>s \<in> set (rr_selected_attempts r). sa_marker_component_sha256 s = am_component_sha256 a \<and>
        sa_worker_id s = am_worker_id a \<and> sa_attempt_id s = am_attempt_id a \<and>
        canonical_object X a = Inr (sa_marker s))"

lemma reported_fold:
  assumes "\<And>k s. bt_get refs k = Some s \<Longrightarrow>
    s \<in> set (rr_selected_attempts r) \<and> sa_marker_component_sha256 s = k"
  shows "try_fold (check_reported_worker X b r attempts refs) st ws = Inr st' \<Longrightarrow>
    \<forall>w \<in> set ws. \<exists>a. find (\<lambda>a. am_worker_id a = wa_worker_id w) attempts = Some a \<and> reported X b r a"
proof (induction ws arbitrary: st)
  case (Cons w ws)
  obtain workers tasks where st: "st = (workers, tasks)" by (cases st)
  from Cons.prems obtain st2 where step: "check_reported_worker X b r attempts refs (workers, tasks) w = Inr st2"
    and rest: "try_fold (check_reported_worker X b r attempts refs) st2 ws = Inr st'"
    by (auto simp: st rbind_eq_Inr simp del: check_reported_worker.simps)
  have "\<exists>a. find (\<lambda>a. am_worker_id a = wa_worker_id w) attempts = Some a \<and> reported X b r a"
    using step assms unfolding check_reported_worker.simps rbind_eq_Inr if_Inl_eq_Inr ok_or_eq_Inr reported_def
    by auto
  with Cons.IH [OF rest] show ?case by simp
qed simp

text \<open>The attempts of an accepted report are those found for the workers, in some order.\<close>

lemma report_attempts:
  assumes "report_validate X b attempts r = Inr ()" and "distinct (map wa_worker_id (rb_assignments b))"
  obtains f where "mset attempts = mset (map f (rb_assignments b))"
    and "\<forall>w \<in> set (rb_assignments b). am_worker_id (f w) = wa_worker_id w \<and> reported X b r (f w)"
proof -
  let ?refs = "bt_collect (map (\<lambda>s. (sa_marker_component_sha256 s, s)) (rr_selected_attempts r))"
  let ?loaded = "bt_collect (map (\<lambda>a. (am_component_sha256 a, a)) attempts)"
  from assms(1) obtain st where
    len: "length (rr_selected_attempts r) = length (rb_assignments b)"
      "length attempts = length (rr_selected_attempts r)"
    and dist: "length ?refs = length (rr_selected_attempts r)" "length ?loaded = length attempts"
    and fold: "try_fold (check_reported_worker X b r attempts ?refs) ({}, {}) (rb_assignments b) = Inr st"
    unfolding report_validate_def report_checks_def Let_def rbind_eq_Inr if_Inl_eq_Inr by auto
  have "distinct (map am_component_sha256 attempts)"
    using dist(2) bt_collect_distinct [of "map (\<lambda>a. (am_component_sha256 a, a)) attempts"] by (simp add: comp_def)
  then have da: "distinct attempts" by (simp add: distinct_map)
  have refs: "s \<in> set (rr_selected_attempts r) \<and> sa_marker_component_sha256 s = k"
    if "bt_get ?refs k = Some s" for k s
    using that by (auto simp: bt_collect_get dest!: map_of_SomeD)
  from reported_fold [OF refs fold] obtain f where
    f: "\<forall>w \<in> set (rb_assignments b). find (\<lambda>a. am_worker_id a = wa_worker_id w) attempts = Some (f w) \<and>
      reported X b r (f w)" by metis
  then have fw: "\<forall>w \<in> set (rb_assignments b). f w \<in> set attempts \<and> am_worker_id (f w) = wa_worker_id w"
    by (metis (mono_tags, lifting) find_Some_iff nth_mem)
  have "map am_worker_id (map f (rb_assignments b)) = map wa_worker_id (rb_assignments b)" using fw by simp
  then have "distinct (map f (rb_assignments b))" using assms(2) by (metis distinct_map)
  moreover from this have "set (map f (rb_assignments b)) = set attempts"
    using da fw len distinct_card [of "map f (rb_assignments b)"]
    by (intro card_subset_eq) (auto simp: distinct_card)
  ultimately have "mset attempts = mset (map f (rb_assignments b))"
    using da set_eq_iff_mset_eq_distinct by metis
  then show thesis using that f fw by blast
qed

lemma assigned_keys:
  "assigned_to t e \<Longrightarrow> expected_keys e =
     (t2_task_id t, [t2_result_path t, t2_receipt_path t, SafeRelativePath (report_path (t2_task_id t))])"
  by (cases "to_report_key e") (simp add: assigned_to_def expected_keys_def task_keys_def)

lemma reported_outputs:
  assumes v: "validate_assignments X (rb_assignments b) plan = Inr ()"
    and dw: "distinct (map wa_worker_id (rb_assignments b))" and w: "w \<in> set (rb_assignments b)"
    and a: "am_worker_id a = wa_worker_id w \<and> reported X b r a"
  shows "mset (map output_keys (am_outputs a)) = mset (map expected_keys (wa_tasks w))"
proof -
  from a have "attempt_validate X b a = Inr ()" "am_outcome a = Completed"
    by (simp_all add: reported_def)
  from completed_attempt [OF this] a obtain w' where
    w': "worker_assignment b (wa_worker_id w) = Some w'" "validate_task_outputs (am_outputs a) w' = Inr ()"
    by auto
  then have "w' = w" using find_distinct [OF dw w] by (simp add: worker_assignment_def)
  moreover have "distinct (map to_task_id (wa_tasks w))"
    using validated_assignment [OF v w] by (simp add: assignment_checks_ok)
  ultimately show ?thesis using w'(2) task_outputs_ok by blast
qed

text \<open>
  C9: An accepted report accounts for the whole plan. The attempts are one completed and valid
  attempt per worker of the bundle, each with the marker object and identity that the report
  selects, and the outputs they list are those of the plan's tasks, each task exactly once at
  its result, receipt and report path.
\<close>

theorem run_report_accounts:
  assumes "report_validate X b attempts r = Inr ()" and "bundle_validate_against X m plan b = Inr ()"
  shows "mset (map output_keys (concat (map am_outputs attempts))) =
      mset (map (\<lambda>t. (t2_task_id t, [t2_result_path t, t2_receipt_path t,
        SafeRelativePath (report_path (t2_task_id t))])) (p2_tasks plan)) \<and>
    mset (map am_worker_id attempts) = mset (map wa_worker_id (rb_assignments b)) \<and>
    (\<forall>a \<in> set attempts. reported X b r a)"
proof -
  let ?planned = "map (\<lambda>t. (t2_task_id t, [t2_result_path t, t2_receipt_path t,
        SafeRelativePath (report_path (t2_task_id t))])) (p2_tasks plan)"
  have v: "validate_assignments X (rb_assignments b) plan = Inr ()"
    using assms(2) unfolding bundle_validate_against_def bundle_checks_def rbind_eq_Inr if_Inl_eq_Inr by simp
  note acc = accepted_assignments [OF v]
  then have dw: "distinct (map wa_worker_id (rb_assignments b))" by blast
  from report_attempts [OF assms(1) dw] obtain f where perm: "mset attempts = mset (map f (rb_assignments b))"
    and f: "\<forall>w \<in> set (rb_assignments b). am_worker_id (f w) = wa_worker_id w \<and> reported X b r (f w)" .
  have out: "mset (map output_keys (am_outputs (f w))) = mset (map expected_keys (wa_tasks w))"
    if w: "w \<in> set (rb_assignments b)" for w
    using reported_outputs [OF v dw w] f w by blast
  have "mset (map output_keys (concat (map am_outputs attempts))) =
      mset (concat (map (\<lambda>w. map output_keys (am_outputs (f w))) (rb_assignments b)))"
    using mset_concat_perm [OF perm, of "\<lambda>a. map output_keys (am_outputs a)"]
    by (simp add: map_concat comp_def)
  also have "\<dots> = mset (concat (map (\<lambda>w. map expected_keys (wa_tasks w)) (rb_assignments b)))"
    using out by (simp add: mset_concat comp_def cong: map_cong)
  also have "\<dots> = mset (map expected_keys (assigned_tasks (rb_assignments b)))"
    by (simp add: assigned_tasks_def map_concat comp_def)
  also have "map expected_keys (assigned_tasks (rb_assignments b)) = ?planned"
    using acc assigned_keys by (auto simp: list_all2_conv_all_nth intro!: nth_equalityI)
  finally have "mset (map output_keys (concat (map am_outputs attempts))) = mset ?planned" .
  moreover have "mset (map am_worker_id attempts) = mset (map wa_worker_id (rb_assignments b))"
  proof -
    have "mset (map am_worker_id attempts) = mset (map am_worker_id (map f (rb_assignments b)))"
      using perm by (metis mset_map)
    then show ?thesis using f by (simp add: comp_def cong: map_cong)
  qed
  moreover have "\<forall>a \<in> set attempts. reported X b r a"
    using f mset_eq_setD [OF perm] by auto
  ultimately show ?thesis by blast
qed

end
