(* ===== verification/Cloud_Example.thy ===== *)
theory Cloud_Example
  imports Cloud_Run
begin

text \<open>
  The corpus and plan of \<open>Token_Example\<close> run remotely: two workers cut the plan after its first
  task; a bundle for one worker is accepted, and so is the report of its completed attempt.
\<close>

lemma boundaries1: "token_balanced_boundaries plan1 2 = Inr [0, 1, 2]"
proof -
  have sums: "try_fold push_prefix [0] (p2_tasks plan1) = Inr [0, 8, 12]"
    by (simp add: plan1_def task1_def push_prefix_def checks)
  have "nearest_boundary [0, 8, 12] 12 2 1 1 1 = 1"
    by (simp add: nearest_boundary_def nearest_step_def abs_diff_def u128_of_u64_def)
  then have "foldl (push_boundary 2 [0, 8, 12] 12 2) [0] [1] = [0, 1]"
    by (simp add: push_boundary_def)
  moreover have "[1..<2] = [1 :: nat]" by (simp add: upt_rec)
  ultimately have "foldl (push_boundary 2 [0, 8, 12] 12 2) [0] [1..<2] = [0, 1]" by simp
  moreover have "length (p2_tasks plan1) = 2" by (simp add: plan1_def)
  ultimately show ?thesis
    unfolding token_balanced_boundaries_def sums Let_def rbind_simps by (simp add: checks)
qed

theorem boundaries_nearest_witness:
  "nearest_cut (p2_tasks plan1) 2 1 0 1 \<and> length (p2_tasks plan1) = 2"
  using boundaries_nearest [OF boundaries1] by (simp add: plan1_def)

definition object1 :: "string \<Rightarrow> u64 \<Rightarrow> cloud_object_ref" where
  "object1 k n = \<lparr>co_key = SafeRelativePath k, co_bytes = n, co_sha256 = D0\<rparr>"

definition component1 :: "string \<Rightarrow> cloud_component_artifact" where
  "component1 k = \<lparr>cc_component_sha256 = D0, cc_object = object1 k 9\<rparr>"

definition artifacts1 :: runpod_bundle_artifacts where
  "artifacts1 = \<lparr>ba_prepared_manifest = component1 ''input/prepared'', ba_embedding_plan = component1 ''input/plan'',
     ba_document_token_counts = object1 ''input/counts'' 12, ba_embedding_profile = component1 ''input/profile'',
     ba_executor_image_build = component1 ''input/build'', ba_executable_tokenizer = component1 ''input/tokenizer'',
     ba_conformance_fixture = object1 ''input/fixture'' 9, ba_query_plan = object1 ''input/query/queries.jsonl'' 9,
     ba_worker_binary = component1 ''input/worker'', ba_model_manifest = component1 ''input/model'',
     ba_model_objects = [object1 ''input/model/0'' 9],
     ba_prepared_documents =
       [\<lparr>cp_prepared_path = SafeRelativePath ''documents/1'', cp_object = object1 ''input/documents/1'' 9\<rparr>,
        \<lparr>cp_prepared_path = SafeRelativePath ''documents/0'', cp_object = object1 ''input/documents/0'' 9\<rparr>]\<rparr>"

definition execution1 :: runpod_execution_identity where
  "execution1 = \<lparr>xi_executor_image = C0, xi_executor_image_build = C0, xi_runtime = C0, xi_worker_binary = C0,
     xi_model_artifact = C0, xi_embedding_profile = C0,
     xi_accelerator = \<lparr>ac_provider = ''p'', ac_model = ''m'', ac_architecture = ''a'',
       ac_compute_capability = ''9.0'', ac_count = 1\<rparr>, xi_returned_model = ''m''\<rparr>"

definition expected1 :: "u32 \<Rightarrow> digest \<Rightarrow> u64 \<Rightarrow> u64 \<Rightarrow> u64 \<Rightarrow> runpod_expected_task_output" where
  "expected1 i d a b k = \<lparr>to_task_id = digest_str d, to_task_ordinal = i, to_ordinal_start = a,
     to_ordinal_end = b, to_token_count = k, to_result_key = paths1 ''parts/'' d ''.f32'',
     to_receipt_key = paths1 ''receipts/'' d ''.json'', to_report_key = paths1 ''reports/'' d ''.json''\<rparr>"

definition assignment1 :: runpod_worker_assignment where
  "assignment1 = \<lparr>wa_component_sha256 = D0, wa_worker_id = ''worker-0000'', wa_task_start = 0, wa_task_end = 2,
     wa_ordinal_start = 0, wa_ordinal_end = 3, wa_token_count = 12,
     wa_tasks = [expected1 0 D0 0 2 8, expected1 1 E0 2 3 4]\<rparr>"

definition bundle1 :: runpod_embedding_bundle where
  "bundle1 = \<lparr>rb_schema_version = RUNPOD_EMBEDDING_BUNDLE_SCHEMA, rb_component_sha256 = D0,
     rb_prepared_corpus_sha256 = D0, rb_plan_sha256 = D0, rb_embedding_profile_sha256 = D0,
     rb_tokenizer_sha256 = D0, rb_model_sha256 = D0, rb_document_count = 3, rb_task_count = 2,
     rb_total_tokens = 12, rb_artifacts = artifacts1, rb_execution = execution1,
     rb_query_vector_output = \<lparr>qo_worker_id = ''worker-0000'',
       qo_manifest_key = SafeRelativePath ''query-vectors/manifest.json'',
       qo_query_plan_key = SafeRelativePath ''query-vectors/queries.jsonl'',
       qo_vectors_key = SafeRelativePath ''query-vectors/vectors.f32le''\<rparr>,
     rb_assignments = [assignment1]\<rparr>"

lemma identifiers1: "require_identifier (digest_str D0) = Inr ()" "require_identifier (digest_str E0) = Inr ()"
  "require_identifier ''worker-0000'' = Inr ()" "require_identifier ''a'' = Inr ()"
  by code_simp+

lemma paths1_differ:
  "paths1 ''reports/'' d ''.json'' \<noteq> paths1 ''parts/'' e ''.f32''"
  "paths1 ''reports/'' d ''.json'' \<noteq> paths1 ''receipts/'' e ''.json''"
  "paths1 ''reports/'' D0 ''.json'' \<noteq> paths1 ''reports/'' E0 ''.json''"
  using ne1(1) by (simp_all add: paths1_def)

lemma assignment1_checks: "assignment_checks assignment1 = Inr ()"
  using ne1 ne1 [symmetric] paths1_differ paths1_differ [symmetric]
  by (simp add: assignment_checks_def assignment1_def expected1_def identifiers1 checks
      word_le_nat_alt word_less_nat_alt u64_of_u32_def)

lemma digests1:
  "component_digest X1 (json_assignment assignment1) = Inr D0"
  "component_digest X1 (json_bundle bundle1) = Inr D0"
  by (simp_all add: component_digest_def without_self_digest_def json_assignment_def json_bundle_def
      canonical_digest_def canonical_json_bytes_def)
    (simp_all add: X1_def digest_bytes_def hex_of_def D0_def)

lemma assignments1: "validate_assignments X1 [assignment1] plan1 = Inr ()"
proof -
  have "assignment_validate X1 assignment1 = Inr ()"
    unfolding assignment_validate_def assignment1_checks digests1 by (simp add: assignment1_def)
  moreover have "try_all (check_assigned_binding (p2_tasks plan1)) (wa_tasks assignment1) = Inr ()"
    by (simp add: assignment1_def expected1_def plan1_def task1_def check_assigned_binding_def
        paths1_def report_path_def)
  ultimately show ?thesis
    by (simp add: validate_assignments_def) (simp add: assignment1_def plan1_def checks)
qed

lemma keys1: "distinct (bundle_keys bundle1)"
proof -
  have "set (concat (map task_keys (wa_tasks assignment1))) \<inter>
      set (map SafeRelativePath [''query-vectors/manifest.json'', ''query-vectors/queries.jsonl'',
        ''query-vectors/vectors.f32le'', ''input/prepared'', ''input/plan'', ''input/profile'', ''input/build'',
        ''input/tokenizer'', ''input/worker'', ''input/model'', ''input/counts'', ''input/fixture'',
        ''input/query/queries.jsonl'', ''input/model/0'', ''input/documents/1'', ''input/documents/0'']) = {}"
    by (auto simp: assignment1_def expected1_def task_keys_def paths1_def)
  moreover have "distinct (concat (map task_keys (wa_tasks assignment1)))"
    using ne1 ne1 [symmetric] paths1_differ paths1_differ [symmetric]
    by (simp add: assignment1_def expected1_def task_keys_def)
  ultimately show ?thesis
    by (simp add: bundle_keys_def bundle1_def artifact_keys_def artifacts1_def component_artifacts_def
        component1_def object1_def)
qed

lemma artifacts1_ok: "validate_artifacts artifacts1 manifest0 plan1 = Inr ()"
proof -
  have e: "bt_collect (map (\<lambda>ob. (dobj_path ob, ob)) (pc_documents manifest0)) =
      map (\<lambda>ob. (dobj_path ob, ob)) (pc_documents manifest0)"
    by (simp add: manifest0_def object0_def bt_collect_def less_safe_path_def)
  have s: "bt_collect (map (\<lambda>d. (cp_prepared_path d, d)) (ba_prepared_documents artifacts1)) =
      rev (map (\<lambda>d. (cp_prepared_path d, d)) (ba_prepared_documents artifacts1))"
    by (simp add: artifacts1_def bt_collect_def less_safe_path_def)
  show ?thesis
    unfolding validate_artifacts_def Let_def e s
    by (simp add: artifacts1_def component_artifacts_def component_artifact_validate_def component1_def object1_def
        cloud_object_validate_def checks manifest0_def object0_def plan1_def profile0_def tokenizer1_def C0_def
        check_prepared_artifact_def bt_get_def check_model_object_def)
qed

lemma bundle1_ok: "bundle_validate_against X1 manifest0 plan1 bundle1 = Inr ()"
proof -
  have x: "execution_validate execution1 = Inr ()" by code_simp
  have q: "query_vector_output_validate (rb_query_vector_output bundle1) = Inr ()"
    by (simp add: bundle1_def query_vector_output_validate_def)
  have k: "try_fold insert_key {} (bundle_keys bundle1) = Inr (set (bundle_keys bundle1))"
    using keys1 by (simp add: insert_key_fold)
  have "bundle_checks X1 manifest0 plan1 bundle1 = Inr ()"
    unfolding bundle_checks_def mv1 plan1_bound rbind_simps k q
    using x artifacts1_ok assignments1
    by (simp add: bundle1_def checks plan1_def manifest0_def profile0_def tokenizer1_def)
      (simp add: C0_def execution1_def artifacts1_def component1_def)
  then show ?thesis unfolding bundle_validate_against_def digests1 by (simp add: bundle1_def)
qed

theorem bundle_assigns_plan_witness:
  "list_all2 assigned_to (p2_tasks plan1) (assigned_tasks [assignment1]) \<and>
   token_sum (assigned_tasks [assignment1]) = 12"
  using bundle_assigns_plan [OF bundle1_ok] by (simp add: bundle1_def)

definition output1 :: "digest \<Rightarrow> runpod_task_output" where
  "output1 d = \<lparr>ro_task_id = digest_str d,
     ro_result = \<lparr>co_key = paths1 ''parts/'' d ''.f32'', co_bytes = 9, co_sha256 = D0\<rparr>,
     ro_receipt = \<lparr>co_key = paths1 ''receipts/'' d ''.json'', co_bytes = 9, co_sha256 = D0\<rparr>,
     ro_report = \<lparr>co_key = paths1 ''reports/'' d ''.json'', co_bytes = 9, co_sha256 = D0\<rparr>\<rparr>"

definition vectors1 :: runpod_query_vector_set_output where
  "vectors1 = \<lparr>qs_component_sha256 = D0, qs_manifest = object1 ''query-vectors/manifest.json'' 9,
     qs_query_plan = object1 ''query-vectors/queries.jsonl'' 9,
     qs_vectors = object1 ''query-vectors/vectors.f32le'' 9\<rparr>"

definition attempt1 :: runpod_worker_attempt_marker where
  "attempt1 = \<lparr>am_schema_version = RUNPOD_WORKER_ATTEMPT_SCHEMA, am_component_sha256 = D0,
     am_bundle_sha256 = D0, am_assignment_sha256 = D0, am_worker_id = ''worker-0000'',
     am_attempt_id = ''a'', am_attempt_number = 1, am_outcome = Completed,
     am_machine = \<lparr>mi_pod_id = ''a'', mi_machine_id = ''a''\<rparr>, am_execution = execution1,
     am_started_at_ms = 3, am_completed_at_ms = 5, am_requests = 2, am_retries = 1,
     am_outputs = [output1 E0, output1 D0], am_query_vector_set = Some vectors1,
     am_failure_code = None\<rparr>"

definition report1 :: runpod_run_report where
  "report1 = \<lparr>rr_schema_version = RUNPOD_RUN_REPORT_SCHEMA, rr_component_sha256 = D0,
     rr_bundle_sha256 = D0, rr_execution = execution1, rr_worker_count = 1, rr_task_count = 2,
     rr_document_count = 3, rr_total_tokens = 12, rr_vector_objects = 2, rr_receipt_objects = 2,
     rr_report_objects = 2, rr_query_vector_set = vectors1,
     rr_selected_attempts =
       [\<lparr>sa_worker_id = ''worker-0000'', sa_attempt_id = ''a'', sa_marker_component_sha256 = D0,
         sa_marker = \<lparr>co_key = SafeRelativePath ''attempts/worker-0000/completed.json'', co_bytes = 0,
           co_sha256 = D0\<rparr>\<rparr>]\<rparr>"

lemma digests2:
  "component_digest X1 (json_attempt attempt1) = Inr D0"
  "component_digest X1 (json_run_report report1) = Inr D0"
  "canonical_json_bytes X1 (json_attempt attempt1) = Inr []"
  by (simp_all add: component_digest_def without_self_digest_def json_attempt_def json_run_report_def
      canonical_digest_def canonical_json_bytes_def attempt1_def)
    (simp_all add: X1_def digest_bytes_def hex_of_def D0_def)

lemma vectors1_ok: "query_vector_set_validate bundle1 vectors1 = Inr ()"
  by (simp add: query_vector_set_validate_def vectors1_def bundle1_def object1_def artifacts1_def
      cloud_object_validate_def checks)

lemma outputs1: "validate_task_outputs (am_outputs attempt1) assignment1 = Inr ()"
proof -
  have less: "digest_str D0 < digest_str E0" by (simp add: D0_def E0_def hex_of_def numeral_eq_Suc)
  have "bt_collect (map (\<lambda>r. (ro_task_id r, r)) (am_outputs attempt1)) =
      [(digest_str D0, output1 D0), (digest_str E0, output1 E0)]"
    using less by (auto simp: attempt1_def output1_def bt_collect_def)
  then show ?thesis
    using ne1(1) by (simp add: validate_task_outputs_def)
      (simp add: attempt1_def assignment1_def expected1_def check_task_output_def bt_get_def output1_def
        cloud_object_validate_def checks)
qed

lemma attempt1_ok: "attempt_validate X1 bundle1 attempt1 = Inr ()"
proof -
  have x: "execution_validate execution1 = Inr ()" by code_simp
  have w: "worker_assignment bundle1 (am_worker_id attempt1) = Some assignment1"
    by (simp add: worker_assignment_def bundle1_def assignment1_def attempt1_def)
  have "completed_attempt_checks bundle1 assignment1 attempt1 = Inr ()"
    using outputs1 vectors1_ok
    by (simp add: completed_attempt_checks_def) (simp add: attempt1_def bundle1_def)
  then have "attempt_checks bundle1 attempt1 = Inr ()"
    using x w by (simp add: attempt_checks_def)
      (simp add: attempt1_def identifiers1 machine_validate_def checks bundle1_def assignment1_def
        u64_of_u32_def)
  then show ?thesis unfolding attempt_validate_def digests2 by (simp add: attempt1_def)
qed

lemma report1_ok: "report_validate X1 bundle1 [attempt1] report1 = Inr ()"
proof -
  have path: "safe_relative_path_new ''attempts/worker-0000/completed.json'' =
      Inr (SafeRelativePath ''attempts/worker-0000/completed.json'')" by code_simp
  have c: "canonical_object X1 attempt1 = Inr (sa_marker (hd (rr_selected_attempts report1)))"
    unfolding canonical_object_def digests2
    by (simp add: attempt1_def path report1_def try_from_nat_def) (simp add: d1)
  have "check_reported_worker X1 bundle1 report1 [attempt1]
      [(D0, hd (rr_selected_attempts report1))] ({}, {}) assignment1 =
      Inr ({''worker-0000''}, {digest_str D0, digest_str E0})"
    using attempt1_ok c ne1(1)
    by (simp add: assignment1_def attempt1_def bt_get_def insert_task_def output1_def report1_def insert_commute)
  then have "report_checks X1 bundle1 [attempt1] report1 = Inr ()"
    using vectors1_ok
    by (simp add: report_checks_def report1_def bundle1_def checks attempt1_def bt_collect_def bt_keys_def
        assigned_tasks_def assignment1_def expected1_def)
  then show ?thesis unfolding report_validate_def digests2 by (simp add: report1_def)
qed

theorem run_report_accounts_witness:
  "mset (map (\<lambda>r. fst (output_keys r)) [output1 E0, output1 D0]) = mset [digest_str D0, digest_str E0] \<and>
   reported X1 bundle1 report1 attempt1"
  using run_report_accounts [OF report1_ok bundle1_ok] by (simp add: output_keys_def output1_def add_mset_commute)

end
