(* ===== verification/Cloud_Build.thy ===== *)
theory Cloud_Build
  imports Cloud_Run
begin

text \<open>
  The builder of the work allocation meets the validation: for every validated plan and every
  worker count it can occupy, the assignments the builder makes are accepted.
\<close>

subsection \<open>Names and paths\<close>

lemma split_at_delimiter: "d \<notin> set p \<Longrightarrow> str_split d (p @ d # s) = p # str_split d s"
  by (induction p) auto

lemma split_plain: "d \<notin> set p \<Longrightarrow> str_split d p = [p]"
  by (induction p) auto

lemma NUL_iff: "NUL = c \<longleftrightarrow> of_char c = (0 :: nat)"
proof
  show "of_char c = (0 :: nat) \<Longrightarrow> NUL = c" unfolding NUL_def by (metis char_of_char)
qed (auto simp: NUL_def)

lemma identifier_char_plain:
  "list_all identifier_char s \<Longrightarrow> {CHR ''/'', CHR 0x5C, NUL, CHR '':''} \<inter> set s = {}"
proof -
  have "NUL \<noteq> CHR ''.'' \<and> NUL \<noteq> CHR ''_'' \<and> NUL \<noteq> CHR ''-''" by (simp add: NUL_iff)
  then have "\<not> identifier_char c" if "c \<in> {CHR ''/'', CHR 0x5C, NUL, CHR '':''}" for c
    using that by (auto simp: identifier_char_def is_ascii_alphanumeric_def is_ascii_uppercase_def
        is_ascii_lowercase_def is_ascii_digit_def NUL_def less_eq_char_def)
  then show "list_all identifier_char s \<Longrightarrow> ?thesis" by (auto simp: list_all_iff)
qed

lemma CHR_slash: "NUL \<noteq> CHR ''/''"
  by (simp add: NUL_iff)

text \<open>A path of segments over the identifier alphabet is safe.\<close>

lemma identifier_path:
  assumes "\<forall>p \<in> set ps. list_all identifier_char p \<and> safe_segment p" and "ps \<noteq> []"
  shows "safe_relative_path_new (str_join (CHR ''/'') ps) = Inr (SafeRelativePath (str_join (CHR ''/'') ps))"
proof -
  have plain: "\<forall>p \<in> set ps. {CHR ''/'', CHR 0x5C, NUL, CHR '':''} \<inter> set p = {}"
    using assms(1) identifier_char_plain by blast
  have split: "str_split (CHR ''/'') (str_join (CHR ''/'') ps) = ps"
    using assms(2) plain
    by (induction "CHR ''/''" ps rule: str_join.induct) (auto simp: split_plain split_at_delimiter)
  have "{CHR 0x5C, NUL, CHR '':''} \<inter> set (str_join (CHR ''/'') ps) = {}"
    using plain CHR_slash by (induction "CHR ''/''" ps rule: str_join.induct) auto
  moreover have "str_join (CHR ''/'') ps \<noteq> []"
    using assms split by (metis list.sel(1) safe_segment_def str_split.simps(1) list.set_sel(1))
  moreover have "list_all safe_segment ps" using assms(1) by (simp add: list_all_iff)
  moreover have "path_components (str_join (CHR ''/'') ps) = map NormalDir ps"
    using path_components_safe(1) [of "str_join (CHR ''/'') ps"] assms(1) by (simp add: split)
  ultimately show ?thesis unfolding safe_relative_path_ok split by simp
qed

lemma require_identifier_ok:
  "require_identifier s = Inr u \<longleftrightarrow> s \<noteq> [] \<and> length s \<le> 128 \<and> list_all identifier_char s"
  by (auto simp: require_identifier_def rbind_eq_Inr require_text_ok)

lemma report_path_safe:
  assumes "require_identifier i = Inr ()"
  shows "safe_relative_path_new (report_path i) = Inr (SafeRelativePath (report_path i))"
proof -
  have p: "report_path i = str_join (CHR ''/'') [''reports'', i @ ''.json'']"
    by (simp add: report_path_def)
  have "list_all identifier_char (i @ ''.json'') \<and> safe_segment (i @ ''.json'')"
    using assms by (simp add: require_identifier_ok safe_segment_def identifier_char_def
        is_ascii_alphanumeric_def is_ascii_lowercase_def)
  moreover have "list_all identifier_char ''reports'' \<and> safe_segment ''reports''"
    by (simp add: safe_segment_def identifier_char_def is_ascii_alphanumeric_def is_ascii_lowercase_def)
  ultimately show ?thesis unfolding p by (intro identifier_path) auto
qed

lemma hex_identifier: "length s = 64 \<Longrightarrow> list_all is_lower_hex s \<Longrightarrow> require_identifier s = Inr ()"
  unfolding require_identifier_ok
  by (auto simp: list_all_iff identifier_char_def is_ascii_alphanumeric_def is_ascii_lowercase_def
      is_lower_hex_def intro: order_trans)

text \<open>Worker names are identifiers and differ.\<close>

lemma digits_value_padded: "digits_value (replicate k (CHR ''0'') @ s) = digits_value s"
  by (induction k) (simp_all add: digits_value_def)

lemma worker_name_inj: "worker_name i = worker_name j \<longleftrightarrow> i = j"
  using digits_value_padded nat_digits_value by (metis append_same_eq same_append_eq worker_name_def)

lemma nat_digits_length: "n < 10 ^ k \<Longrightarrow> 0 < k \<Longrightarrow> length (nat_digits n) \<le> k"
proof (induction n arbitrary: k rule: nat_digits.induct)
  case (1 n)
  show ?case
  proof (cases "n < 10")
    case True
    then show ?thesis using 1(3) by (simp add: nat_digits.simps [of n])
  next
    case False
    obtain j where k: "k = Suc j" using 1(3) by (cases k) auto
    with False 1(2) have "0 < j" by (cases j) auto
    moreover have "n div 10 < 10 ^ j" using 1(2) k by (simp add: div_less_iff_less_mult)
    ultimately show ?thesis using 1(1) [OF False, of j] k False by (simp add: nat_digits.simps [of n])
  qed
qed

lemma worker_name_identifier: "i < 10 ^ 9 \<Longrightarrow> require_identifier (worker_name i) = Inr ()"
  using nat_digits_digits [of i] nat_digits_length [of i 9]
  by (auto simp: require_identifier_ok worker_name_def list_all_iff identifier_char_def
      is_ascii_alphanumeric_def is_ascii_lowercase_def is_ascii_digit_def)

subsection \<open>What a validated plan provides\<close>

definition jcs_total :: "externals \<Rightarrow> bool" where
  "jcs_total X \<longleftrightarrow> (\<forall>v. jcs_bytes X v \<noteq> None)"

definition task_paths_of :: "embedding_task_v2 list \<Rightarrow> safe_path list" where
  "task_paths_of ts = concat (map (\<lambda>t. [t2_result_path t, t2_receipt_path t]) ts)"

lemma validate_v2_step_paths:
  assumes "validate_v2_task_step X mt md mi ti (n, ids, paths) t = Inr (n', ids', paths')"
  shows "t2_result_path t \<notin> paths \<and> t2_receipt_path t \<notin> paths \<and> t2_receipt_path t \<noteq> t2_result_path t \<and>
    paths' = {t2_receipt_path t, t2_result_path t} \<union> paths"
  using assms unfolding validate_v2_task_step_def prod.case Let_def rbind_eq_Inr ok_or_eq_Inr if_Inl_eq_Inr
    de_Morgan_disj not_not
  by auto

lemma validate_v2_fold_paths:
  "try_fold (validate_v2_task_step X mt md mi ti) (n, ids, paths) ts = Inr st \<Longrightarrow>
   distinct (task_paths_of ts) \<and> paths \<inter> set (task_paths_of ts) = {}"
proof (induction ts arbitrary: n ids paths)
  case (Cons t ts)
  then obtain a b c where step: "validate_v2_task_step X mt md mi ti (n, ids, paths) t = Inr (a, b, c)"
    and rest: "try_fold (validate_v2_task_step X mt md mi ti) (a, b, c) ts = Inr st"
    by (auto simp: rbind_eq_Inr)
  from validate_v2_step_paths [OF step] Cons.IH [OF rest] show ?case by (auto simp: task_paths_of_def)
qed (simp add: task_paths_of_def)

text \<open>The facts about the tasks that the work allocation uses.\<close>

definition allocatable :: "embedding_plan_v2 \<Rightarrow> bool" where
  "allocatable plan \<longleftrightarrow> (let ts = p2_tasks plan in
     v2_tasks_cover 0 ts (unat (p2_document_count plan)) \<and>
     p2_document_count plan \<le> MAX_SAFE_JSON_INTEGER \<and>
     list_all (\<lambda>t. require_identifier (t2_task_id t) = Inr () \<and> t2_token_count t \<noteq> 0) ts \<and>
     distinct (map t2_task_id ts) \<and> distinct (task_paths_of ts) \<and>
     unat (ts_total_tokens (p2_token_statistics plan)) = tokens_before ts (length ts) \<and>
     ts_total_tokens (p2_token_statistics plan) \<le> MAX_SAFE_JSON_INTEGER)"

lemma validated_plan_allocatable:
  assumes "plan_v2_validate X plan = Inr ()" and "sha256_format X"
  shows "allocatable plan"
proof -
  let ?mi = "epr_maximum_input_tokens (p2_embedding_profile plan)"
  from assms(1) have body: "plan_v2_body X plan" by (simp add: plan_v2_validate_iff)
  then have tasks: "validate_v2_tasks X (p2_tasks plan) (p2_document_count plan) (p2_maximum_task_tokens plan)
      (p2_maximum_task_documents plan) ?mi (plan_identity plan) = Inr ()"
    and meta: "validate_token_count_metadata plan = Inr ()"
    and count: "p2_document_count plan \<le> MAX_SAFE_JSON_INTEGER"
    by (simp_all add: plan_v2_body_def)
  note cover = validate_v2_tasks_accepts [OF tasks]
  from tasks obtain st where "try_fold (validate_v2_task_step X (p2_maximum_task_tokens plan)
      (p2_maximum_task_documents plan) ?mi (plan_identity plan)) (0, {}, {}) (p2_tasks plan) = Inr st"
    by (auto simp: validate_v2_tasks_def rbind_eq_Inr)
  note paths = validate_v2_fold_paths [OF this]
  have total: "unat (ts_total_tokens (p2_token_statistics plan)) = tokens_before (p2_tasks plan) (length (p2_tasks plan))
      \<and> ts_total_tokens (p2_token_statistics plan) \<le> MAX_SAFE_JSON_INTEGER"
  proof -
    have fold: "try_fold (\<lambda>acc t. ok_or (Invalid ''plan token total'') (checked_add acc (t2_token_count t))) a ts = Inr b \<longleftrightarrow>
        unat b = unat a + sum_list (map (\<lambda>t. unat (t2_token_count t)) ts)" for a b ts
      using try_fold_sum [where step = "\<lambda>acc t. ok_or (Invalid ''plan token total'') (checked_add acc (t2_token_count t))"
          and P = "\<lambda>_. True" and f = "\<lambda>t. unat (t2_token_count t)"]
      by (simp add: ok_or_eq_Inr checked_add_unat list_all_iff)
    show ?thesis
      using meta unfolding validate_token_count_metadata_def Let_def rbind_eq_Inr if_Inl_eq_Inr try_all_ok
        require_safe_u64_ok fold tokens_before_def
      by auto
  qed
  have "require_identifier (t2_task_id t) = Inr () \<and> t2_token_count t \<noteq> 0" if t: "t \<in> set (p2_tasks plan)" for t
  proof -
    have ok: "v2_task_ok X (p2_maximum_task_tokens plan) (p2_maximum_task_documents plan) ?mi (plan_identity plan) t"
      using cover t by (simp add: list_all_iff)
    then obtain b where b: "digest_bytes X b = Digest (t2_task_id t)"
      unfolding v2_task_ok_def embedding_task_v2_id_def canonical_digest_def rbind_eq_Inr by blast
    have "length (sha256_hex X b) = 64 \<and> list_all is_lower_hex (sha256_hex X b)"
      using assms(2) unfolding sha256_format_def by blast
    with b have "length (t2_task_id t) = 64 \<and> list_all is_lower_hex (t2_task_id t)"
      by (simp add: digest_bytes_def)
    moreover have "unat (t2_ordinal_start t) < unat (t2_ordinal_end t)"
      using covers_from_bounds [OF conjunct1 [OF conjunct2 [OF cover]] t] by simp
    then have "0 < unat (task_v2_row_count t)"
      by (simp add: task_v2_row_count_def saturating_sub_def unat_sub word_le_nat_alt)
    moreover have "task_v2_row_count t \<le> t2_token_count t" using ok by (simp add: v2_task_ok_def)
    ultimately show ?thesis using hex_identifier by (auto simp: word_le_nat_alt)
  qed
  then show ?thesis
    using cover paths total count by (simp add: allocatable_def Let_def list_all_iff)
qed

subsection \<open>Boundaries exist\<close>

lemma prefix_exists:
  "acc \<noteq> [] \<Longrightarrow> unat (last acc) + sum_list (map (\<lambda>t. unat (t2_token_count t)) ts) < 2 ^ 64 \<Longrightarrow>
   \<exists>sums. try_fold push_prefix acc ts = Inr sums"
proof (induction ts arbitrary: acc)
  case (Cons t ts)
  then have "unat (last acc) + unat (t2_token_count t) < 2 ^ 64" by simp
  then obtain w where w: "checked_add (last acc) (t2_token_count t) = Some w"
      "unat w = unat (last acc) + unat (t2_token_count t)"
    using checked_add_unat [of "last acc" "t2_token_count t"] by (auto simp: checked_add_def)
  have "\<exists>sums. try_fold push_prefix (acc @ [w]) ts = Inr sums"
    using Cons.prems w by (intro Cons.IH) simp_all
  moreover have "push_prefix acc t = Inr (acc @ [w])" using w by (simp add: push_prefix_def)
  ultimately show ?case by simp
qed simp

lemma boundaries_exist:
  assumes "allocatable plan"
  shows "\<exists>bs. token_balanced_boundaries plan workers = Inr bs"
proof -
  let ?ts = "p2_tasks plan"
  have total: "tokens_before ?ts (length ?ts) = unat (ts_total_tokens (p2_token_statistics plan))"
    "ts_total_tokens (p2_token_statistics plan) \<le> MAX_SAFE_JSON_INTEGER"
    using assms by (simp_all add: allocatable_def Let_def)
  moreover have "unat (ts_total_tokens (p2_token_statistics plan)) < 2 ^ 64" by (rule u64_bound)
  ultimately obtain sums where sums: "try_fold push_prefix [0] ?ts = Inr sums"
    using prefix_exists [of "[0]" ?ts] by (auto simp: tokens_before_def)
  have "unat (last sums) = tokens_before ?ts (length ?ts)"
    using prefix_sums [OF sums]
    by (metis add_diff_cancel_right' last_conv_nth le_refl length_0_conv nat.simps(3) Suc_eq_plus1)
  then have "last sums = ts_total_tokens (p2_token_statistics plan)" using total by (simp add: word_unat_eq_iff)
  then show ?thesis
    using sums total(2) by (simp add: token_balanced_boundaries_def Let_def require_safe_u64_def linorder_not_less)
qed

subsection \<open>The outputs of the plan\<close>

definition expected_of :: "nat \<Rightarrow> embedding_task_v2 \<Rightarrow> runpod_expected_task_output" where
  "expected_of i t =
     \<lparr>to_task_id = t2_task_id t, to_task_ordinal = word_of_nat i, to_ordinal_start = t2_ordinal_start t,
      to_ordinal_end = t2_ordinal_end t, to_token_count = t2_token_count t, to_result_key = t2_result_path t,
      to_receipt_key = t2_receipt_path t, to_report_key = SafeRelativePath (report_path (t2_task_id t))\<rparr>"

definition outputs_from :: "nat \<Rightarrow> embedding_task_v2 list \<Rightarrow> runpod_expected_task_output list" where
  "outputs_from i ts = map (\<lambda>(i, t). expected_of i t) (enumerate i ts)"

lemma outputs_from_simps [simp]:
  "outputs_from i [] = []" "outputs_from i (t # ts) = expected_of i t # outputs_from (Suc i) ts"
  "length (outputs_from i ts) = length ts"
  by (simp_all add: outputs_from_def)

lemma outputs_from_drop: "drop s (outputs_from i ts) = outputs_from (i + s) (drop s ts)"
  by (induction ts arbitrary: i s) (simp_all add: drop_Cons split: nat.split)

lemma outputs_from_take: "take s (outputs_from i ts) = outputs_from i (take s ts)"
  by (induction ts arbitrary: i s) (simp_all add: take_Cons split: nat.split)

lemma outputs_from_ids: "map to_task_id (outputs_from i ts) = map t2_task_id ts"
  by (induction ts arbitrary: i) (simp_all add: expected_of_def)

lemma outputs_from_cover: "expected_cover a (outputs_from i ts) n = v2_tasks_cover a ts n"
  by (induction ts arbitrary: a i) (simp_all add: expected_of_def)

lemma outputs_from_tokens: "token_sum (outputs_from i ts) = tokens_before ts (length ts)"
  by (induction ts arbitrary: i) (simp_all add: token_sum_def tokens_before_def expected_of_def)

lemma outputs_from_ordinals:
  "i + length ts \<le> 2 ^ 32 \<Longrightarrow>
   map (\<lambda>e. unat (to_task_ordinal e)) (outputs_from i ts) = [i..<i + length ts]"
  by (induction ts arbitrary: i) (simp_all add: expected_of_def unat_of_small upt_rec)

lemma outputs_from_keys: "i + length ts \<le> 2 ^ 32 \<Longrightarrow> e \<in> set (outputs_from i ts) \<Longrightarrow>
  i \<le> unat (to_task_ordinal e) \<and> unat (to_task_ordinal e) < i + length ts \<and>
  assigned_to (ts ! (unat (to_task_ordinal e) - i)) e"
proof (induction ts arbitrary: i)
  case (Cons t ts)
  from Cons.prems(1) have "unat (word_of_nat i :: u32) = i" by (simp add: unat_of_small)
  then show ?case
    using Cons.prems Cons.IH [of "Suc i"]
    by (auto simp: expected_of_def assigned_to_def nth_Cons' Suc_le_eq)
qed simp

lemma built_outputs:
  "start + k + length ts \<le> 2 ^ 32 \<Longrightarrow> list_all (\<lambda>t. require_identifier (t2_task_id t) = Inr ()) ts \<Longrightarrow>
   try_map (expected_task_output start) (enumerate k ts) = Inr (outputs_from (start + k) ts)"
proof (induction ts arbitrary: k)
  case (Cons t ts)
  have "expected_task_output start (k, t) = Inr (expected_of (start + k) t)"
    using Cons.prems report_path_safe [of "t2_task_id t"]
    by (simp add: expected_task_output_def try_from_nat_def ok_or_def expected_of_def)
  then show ?case using Cons.prems Cons.IH [of "Suc k"] by (simp add: rbind_eq_Inr)
qed simp

subsection \<open>The checks of an assignment pass\<close>

lemma u32_safe: "u64_of_u32 n \<le> MAX_SAFE_JSON_INTEGER"
  using unat_bound [of n] by (simp add: word_le_nat_alt MAX_SAFE_JSON_INTEGER_def)

definition assignable :: "runpod_expected_task_output \<Rightarrow> bool" where
  "assignable e \<longleftrightarrow> require_identifier (to_task_id e) = Inr () \<and> to_ordinal_start e \<le> MAX_SAFE_JSON_INTEGER \<and>
     to_ordinal_end e \<le> MAX_SAFE_JSON_INTEGER \<and> to_token_count e \<le> MAX_SAFE_JSON_INTEGER \<and>
     to_token_count e \<noteq> 0"

lemma check_assigned_total:
  "list_all assignable es \<Longrightarrow> map (\<lambda>e. unat (to_task_ordinal e)) es = [unat n..<unat n + length es] \<Longrightarrow>
   unat n + length es < 2 ^ 32 \<Longrightarrow> expected_cover (unat o1) es m \<Longrightarrow> unat k + token_sum es < 2 ^ 64 \<Longrightarrow>
   distinct (map to_task_id es) \<Longrightarrow> ids \<inter> to_task_id ` set es = {} \<Longrightarrow>
   distinct (concat (map task_keys es)) \<Longrightarrow> keys \<inter> set (concat (map task_keys es)) = {} \<Longrightarrow>
   \<exists>st. try_fold check_assigned_task (n, o1, k, ids, keys) es = Inr st"
proof (induction es arbitrary: n o1 k ids keys)
  case (Cons e es)
  have n: "unat (to_task_ordinal e) = unat n"
    and ords: "map (\<lambda>e. unat (to_task_ordinal e)) es = [Suc (unat n)..<Suc (unat n) + length es]"
    using Cons.prems(2) by (simp_all add: upt_conv_Cons del: upt_Suc)
  obtain n' :: u32 where n': "unat n' = unat n + 1"
    using Cons.prems(3) word_of_bounded [where 'a = 32, of "unat n + 1"] by auto
  obtain k' :: u64 where k': "unat k' = unat k + unat (to_token_count e)"
    using Cons.prems(5) word_of_bounded [where 'a = 64, of "unat k + unat (to_token_count e)"]
    by (auto simp: token_sum_def)
  have step: "check_assigned_task (n, o1, k, ids, keys) e =
      Inr (n', to_ordinal_end e, k', insert (to_task_id e) ids, set (task_keys e) \<union> keys)"
    unfolding check_assigned_task_ok
    using Cons.prems n n' k' u32_safe by (auto simp: assignable_def word_less_nat_alt word_unat_eq_iff)
  have "\<exists>st. try_fold check_assigned_task
      (n', to_ordinal_end e, k', insert (to_task_id e) ids, set (task_keys e) \<union> keys) es = Inr st"
    by (rule Cons.IH) (use Cons.prems ords n' k' in \<open>auto simp: token_sum_def\<close>)
  with step show ?case by simp
qed simp

lemma assignment_checks_total:
  assumes id: "require_identifier (wa_worker_id w) = Inr ()" and ne: "wa_tasks w \<noteq> []"
    and ok: "list_all assignable (wa_tasks w)"
    and ords: "map (\<lambda>e. unat (to_task_ordinal e)) (wa_tasks w) = [unat (wa_task_start w)..<unat (wa_task_end w)]"
    and cover: "expected_cover (unat (wa_ordinal_start w)) (wa_tasks w) (unat (wa_ordinal_end w))"
    and tokens: "unat (wa_token_count w) = token_sum (wa_tasks w)" "wa_token_count w \<le> MAX_SAFE_JSON_INTEGER"
    and dist: "distinct (map to_task_id (wa_tasks w))" "distinct (concat (map task_keys (wa_tasks w)))"
  shows "assignment_checks w = Inr ()"
proof -
  let ?es = "wa_tasks w" and ?n = "wa_task_start w" and ?m = "wa_task_end w"
  have len: "length ?es = unat ?m - unat ?n" using arg_cong [OF ords, of length] by simp
  with ne have m: "unat ?m = unat ?n + length ?es" by (cases "wa_tasks w") auto
  have "unat ?n + length ?es < 2 ^ 32" using m unat_bound [of ?m] by simp
  moreover have "unat (0 :: u64) + token_sum ?es < 2 ^ 64" using tokens(1) unat_bound [of "wa_token_count w"] by simp
  ultimately obtain n' o' k' ids keys where
    f: "try_fold check_assigned_task (?n, wa_ordinal_start w, 0, {}, {}) ?es = Inr (n', o', k', ids, keys)"
    using check_assigned_total [OF ok _ _ cover _ dist(1) _ dist(2), of ?n 0 "{}" "{}"] ords m by auto
  note got = check_assigned_fold [OF f]
  have o: "unat o' = unat (wa_ordinal_end w)"
    using covers_from_ends [OF cover ne] covers_from_ends [OF conjunct1 [OF conjunct2 [OF conjunct2 [OF got]]] ne]
    by simp
  have ends: "to_ordinal_start (hd ?es) = wa_ordinal_start w" "to_ordinal_end (last ?es) = wa_ordinal_end w"
    using covers_from_ends [OF cover ne] by (simp_all add: word_unat_eq_iff)
  have safe: "wa_ordinal_start w \<le> MAX_SAFE_JSON_INTEGER" "wa_ordinal_end w \<le> MAX_SAFE_JSON_INTEGER"
    using ok hd_in_set [OF ne] last_in_set [OF ne] unfolding ends [symmetric]
    by (simp_all add: list_all_iff assignable_def)
  have "hd ?es \<in> set ?es" using ne by simp
  then have "0 < unat (to_token_count (hd ?es))"
    using ok by (auto simp: list_all_iff assignable_def unat_gt_0)
  moreover have "unat (to_token_count (hd ?es)) \<le> token_sum ?es"
    using ne by (cases "wa_tasks w") (simp_all add: token_sum_def)
  ultimately have t: "wa_token_count w \<noteq> 0" using tokens(1) by auto
  have lt: "unat (wa_ordinal_start w) < unat (wa_ordinal_end w)"
    using cover ne covers_from_bounds [OF cover hd_in_set [OF ne]] by simp
  have nm: "unat ?n < unat ?m" using m ne by (cases "wa_tasks w") simp_all
  have "unat n' = unat ?m" "unat k' = unat (wa_token_count w)" using got m tokens(1) by simp_all
  then have "n' = ?m" "o' = wa_ordinal_end w" "k' = wa_token_count w" using o by (simp_all add: word_unat_eq_iff)
  then show ?thesis
    using f id safe t lt nm len tokens(2) u32_safe
    by (simp add: assignment_checks_def rbind_eq_Inr try_all_ok require_safe_u64_ok linorder_not_le
        word_less_nat_alt unat_sub word_le_nat_alt)
qed

interpretation assignment_sealing: sealed_component wa_component_sha256
  "\<lambda>d w :: runpod_worker_assignment. w\<lparr>wa_component_sha256 := d\<rparr>" json_assignment
  "\<lambda>X w. assignment_checks w = Inr ()" assignment_validate assignment_seal
proof
  fix d X u and w :: runpod_worker_assignment
  show "wa_component_sha256 (w\<lparr>wa_component_sha256 := d\<rparr>) = d" by simp
  show "w\<lparr>wa_component_sha256 := wa_component_sha256 w\<rparr> = w" by simp
  show "without_self_digest (json_assignment (w\<lparr>wa_component_sha256 := d\<rparr>)) =
      without_self_digest (json_assignment w)"
    by (simp add: json_assignment_def without_self_digest_def)
  show "(assignment_checks (w\<lparr>wa_component_sha256 := d\<rparr>) = Inr ()) = (assignment_checks w = Inr ())"
    by (simp add: assignment_checks_def)
  show "assignment_validate X w = Inr u \<longleftrightarrow> assignment_checks w = Inr () \<and>
      component_digest X (json_assignment w) = Inr (wa_component_sha256 w)"
    by (auto simp: assignment_validate_def rbind_eq_Inr)
  show "assignment_seal X w = rbind (component_digest X (json_assignment w))
      (\<lambda>d. rbind (assignment_validate X (w\<lparr>wa_component_sha256 := d\<rparr>)) (\<lambda>_. Inr (w\<lparr>wa_component_sha256 := d\<rparr>)))"
    by (simp add: assignment_seal_def Let_def)
qed

lemma assignment_digest_total: "jcs_total X \<Longrightarrow> \<exists>d. component_digest X (json_assignment w) = Inr d"
proof -
  assume "jcs_total X"
  then have "canonical_digest X v \<noteq> Inl e" for v e
    unfolding jcs_total_def canonical_digest_def canonical_json_bytes_def
    by (metis not_None_eq ok_or_simps(2) rbind_simps(2) sum.distinct(1))
  moreover have "\<exists>v. without_self_digest (json_assignment w) = Inr v"
    by (simp add: json_assignment_def without_self_digest_def)
  ultimately show ?thesis unfolding component_digest_def by (metis rbind_simps(2) sum.exhaust)
qed

subsection \<open>The builder succeeds\<close>

text \<open>No result or receipt path of the plan is the path of a report.\<close>

definition reports_apart :: "embedding_task_v2 list \<Rightarrow> bool" where
  "reports_apart ts \<longleftrightarrow> list_all (\<lambda>t. list_all (\<lambda>u. path_str (t2_result_path t) \<noteq> report_path (t2_task_id u) \<and>
     path_str (t2_receipt_path t) \<noteq> report_path (t2_task_id u)) ts) ts"

lemma report_path_inj [simp]: "report_path i = report_path j \<longleftrightarrow> i = j"
  by (simp add: report_path_def)

lemma safe_path_eq: "SafeRelativePath s = p \<longleftrightarrow> path_str p = s" "p = SafeRelativePath s \<longleftrightarrow> path_str p = s"
  by (cases p; auto)+

lemma outputs_from_key_set: "set (concat (map task_keys (outputs_from i ts))) =
  set (task_paths_of ts) \<union> (\<lambda>t. SafeRelativePath (report_path (t2_task_id t))) ` set ts"
  by (induction ts arbitrary: i) (auto simp: task_keys_def expected_of_def task_paths_of_def)

lemma outputs_from_distinct_keys:
  "distinct (task_paths_of ts) \<Longrightarrow> distinct (map t2_task_id ts) \<Longrightarrow> reports_apart ts \<Longrightarrow>
   distinct (concat (map task_keys (outputs_from i ts)))"
proof (induction ts arbitrary: i)
  case (Cons t ts)
  have paths: "set (task_paths_of ts) = (\<Union>u \<in> set ts. {t2_result_path u, t2_receipt_path u})"
    by (auto simp: task_paths_of_def)
  have "distinct (concat (map task_keys (outputs_from (Suc i) ts)))"
    by (rule Cons.IH) (use Cons.prems in \<open>auto simp: task_paths_of_def reports_apart_def list_all_iff\<close>)
  moreover have "set (task_keys (expected_of i t)) \<inter> set (concat (map task_keys (outputs_from (Suc i) ts))) = {}"
    unfolding outputs_from_key_set paths using Cons.prems
    by (auto simp: task_keys_def expected_of_def task_paths_of_def reports_apart_def list_all_iff
        safe_path_eq)
  moreover have "distinct (task_keys (expected_of i t))"
    using Cons.prems
    by (auto simp: task_keys_def expected_of_def task_paths_of_def reports_apart_def safe_path_eq)
  ultimately show ?case by simp
qed simp

lemma allocatable_assignable:
  assumes "allocatable plan"
  shows "list_all assignable (outputs_from i (p2_tasks plan))"
proof -
  let ?ts = "p2_tasks plan"
  have cover: "v2_tasks_cover 0 ?ts (unat (p2_document_count plan))"
    and N: "p2_document_count plan \<le> MAX_SAFE_JSON_INTEGER"
    and total: "unat (ts_total_tokens (p2_token_statistics plan)) = tokens_before ?ts (length ?ts)"
      "ts_total_tokens (p2_token_statistics plan) \<le> MAX_SAFE_JSON_INTEGER"
    and task: "\<forall>t \<in> set ?ts. require_identifier (t2_task_id t) = Inr () \<and> t2_token_count t \<noteq> 0"
    using assms by (simp_all add: allocatable_def Let_def list_all_iff)
  have "assignable (expected_of j t)" if t: "t \<in> set ?ts" for j t
  proof -
    have "unat (t2_token_count t) \<le> tokens_before ?ts (length ?ts)"
      using member_le_sum_list [of "unat (t2_token_count t)" "map (\<lambda>t. unat (t2_token_count t)) ?ts"] t
      by (simp add: tokens_before_def)
    then have "t2_token_count t \<le> MAX_SAFE_JSON_INTEGER" using total by (simp add: word_le_nat_alt)
    moreover have "t2_ordinal_start t \<le> MAX_SAFE_JSON_INTEGER" "t2_ordinal_end t \<le> MAX_SAFE_JSON_INTEGER"
      using covers_from_bounds [OF cover t] N by (auto simp: word_le_nat_alt)
    ultimately show ?thesis using task t by (simp add: assignable_def expected_of_def)
  qed
  moreover have "\<exists>j. \<exists>t \<in> set ts. e = expected_of j t" if "e \<in> set (outputs_from i ts)" for e ts
    using that by (induction ts arbitrary: i) fastforce+
  ultimately show ?thesis unfolding list_all_iff by blast
qed

lemma built_assignment:
  assumes alloc: "allocatable plan" and apart: "reports_apart (p2_tasks plan)"
    and ts: "p2_tasks plan = xs @ W @ ys" and ne: "W \<noteq> []"
    and small: "length (p2_tasks plan) < 2 ^ 32" and total: "jcs_total X" and k: "k < 10 ^ 9"
  shows "\<exists>w. build_assignment X plan (k, length xs, length xs + length W) = Inr w \<and>
    assignment_validate X w = Inr () \<and> wa_worker_id w = worker_name k \<and>
    wa_tasks w = outputs_from (length xs) W"
proof -
  let ?s = "length xs" and ?es = "outputs_from (length xs) W"
  let ?total = "ts_total_tokens (p2_token_statistics plan)"
  have parts: "v2_tasks_cover 0 (xs @ W @ ys) (unat (p2_document_count plan))"
    "list_all (\<lambda>t. require_identifier (t2_task_id t) = Inr ()) W" "distinct (map t2_task_id W)"
    "distinct (task_paths_of W)" "reports_apart W" "?total \<le> MAX_SAFE_JSON_INTEGER"
    "unat ?total = tokens_before (xs @ W @ ys) (length (xs @ W @ ys))"
    using alloc apart by (auto simp: allocatable_def Let_def ts list_all_iff task_paths_of_def reports_apart_def)
  have tasks: "try_map (expected_task_output ?s) (enumerate 0 W) = Inr ?es"
    using built_outputs [of ?s 0 W] parts(2) small ts by simp
  have es: "?es \<noteq> []" using ne by (cases W) auto
  obtain a b where cover: "expected_cover a ?es b"
    using covers_from_split [OF parts(1)] covers_from_split outputs_from_cover by metis
  have sum: "token_sum ?es \<le> unat ?total"
    using parts(7) by (simp add: outputs_from_tokens tokens_before_def)
  then obtain tc :: u64 where tc: "unat tc = token_sum ?es" using exists_word_unat by blast
  have step: "add_tokens c e = Inr d \<longleftrightarrow> True \<and> unat d = unat c + unat (to_token_count e)" for c d e
    by (simp add: add_tokens_def ok_or_eq_Inr checked_add_unat)
  have tokens: "try_fold add_tokens 0 ?es = Inr tc"
    using try_fold_sum [where step = add_tokens, OF step] tc by (simp add: token_sum_def list_all_iff)
  have ends: "try_from_nat ?s = Some (word_of_nat ?s :: u32)"
    "try_from_nat (?s + length W) = Some (word_of_nat (?s + length W) :: u32)"
    using small ts by (simp_all add: try_from_nat_def)
  let ?w = "\<lparr>wa_component_sha256 = digest_bytes X (str_bytes ''unsealed''),
        wa_worker_id = worker_name k, wa_task_start = word_of_nat ?s, wa_task_end = word_of_nat (?s + length W),
        wa_ordinal_start = to_ordinal_start (hd ?es), wa_ordinal_end = to_ordinal_end (last ?es),
        wa_token_count = tc, wa_tasks = ?es\<rparr>"
  have "assignment_checks ?w = Inr ()"
  proof (rule assignment_checks_total)
    show "list_all assignable (wa_tasks ?w)"
      using allocatable_assignable [OF alloc, of 0] unfolding ts
      by (simp add: outputs_from_def enumerate_append_eq)
    show "map (\<lambda>e. unat (to_task_ordinal e)) (wa_tasks ?w) = [unat (wa_task_start ?w)..<unat (wa_task_end ?w)]"
      using small ts outputs_from_ordinals [of ?s W] by (simp add: unat_of_small del: of_nat_add)
    show "expected_cover (unat (wa_ordinal_start ?w)) (wa_tasks ?w) (unat (wa_ordinal_end ?w))"
      using cover covers_from_ends [OF cover es] by simp
    show "wa_token_count ?w \<le> MAX_SAFE_JSON_INTEGER" using tc sum parts(6) by (simp add: word_le_nat_alt)
    show "distinct (map to_task_id (wa_tasks ?w))" using parts(3) by (simp add: outputs_from_ids)
    show "distinct (concat (map task_keys (wa_tasks ?w)))"
      using outputs_from_distinct_keys [OF parts(4,3,5)] by simp
  qed (use worker_name_identifier [OF k] es tc in simp_all)
  then obtain d where seal: "assignment_seal X ?w = Inr (?w\<lparr>wa_component_sha256 := d\<rparr>)"
    using assignment_digest_total [OF total] assignment_sealing.seal_iff by blast
  from tasks tokens ends es seal ts
  have "build_assignment X plan (k, ?s, ?s + length W) = Inr (?w\<lparr>wa_component_sha256 := d\<rparr>)"
    by (simp add: build_assignment_def)
  with assignment_sealing.seal_validates [OF seal] show ?thesis
    by (intro exI [of _ "?w\<lparr>wa_component_sha256 := d\<rparr>"] conjI) simp_all
qed

lemma built_windows:
  assumes alloc: "allocatable plan" and apart: "reports_apart (p2_tasks plan)"
    and small: "length (p2_tasks plan) < 2 ^ 32" and total: "jcs_total X"
  shows "p2_tasks plan = xs @ ts \<Longrightarrow> sorted_wrt (<) (length xs # bs) \<Longrightarrow>
    last (length xs # bs) = length (p2_tasks plan) \<Longrightarrow> k + length bs \<le> 10 ^ 9 \<Longrightarrow>
    \<exists>ws. try_map (build_assignment X plan) (enumerate k (zip (length xs # bs) bs)) = Inr ws \<and>
      map wa_worker_id ws = map worker_name [k..<k + length bs] \<and>
      (\<forall>w \<in> set ws. assignment_validate X w = Inr ()) \<and> assigned_tasks ws = outputs_from (length xs) ts"
proof (induction bs arbitrary: xs ts k)
  case Nil
  then show ?case by (simp add: assigned_tasks_def)
next
  case (Cons b bs)
  have "length xs < b" using Cons.prems(2) by simp
  moreover have "b \<le> length (p2_tasks plan)"
    using Cons.prems(2,3) by (metis last_ConsR last_in_set list.distinct(1) less_imp_le order_refl
        set_ConsD sorted_wrt.simps(2))
  ultimately obtain W ys where ts: "ts = W @ ys" and b: "b = length xs + length W" and ne: "W \<noteq> []"
    using Cons.prems(1) by (intro that [of "take (b - length xs) ts" "drop (b - length xs) ts"]) auto
  obtain w where w: "build_assignment X plan (k, length xs, b) = Inr w" "assignment_validate X w = Inr ()"
    "wa_worker_id w = worker_name k" "wa_tasks w = outputs_from (length xs) W"
    using built_assignment [OF alloc apart _ ne small total, of xs ys k] Cons.prems(1,4) ts b by auto
  obtain ws where ws: "try_map (build_assignment X plan) (enumerate (Suc k) (zip (b # bs) bs)) = Inr ws"
    "map wa_worker_id ws = map worker_name [Suc k..<Suc k + length bs]"
    "\<forall>w \<in> set ws. assignment_validate X w = Inr ()" "assigned_tasks ws = outputs_from b ys"
    using Cons.IH [of "xs @ W" ys "Suc k"] Cons.prems ts b by auto
  have "outputs_from (length xs) ts = wa_tasks w @ assigned_tasks ws"
    by (simp add: ts w(4) ws(4) b outputs_from_def enumerate_append_eq)
  then show ?case
    using w ws by (intro exI [of _ "w # ws"])
      (simp add: assigned_tasks_def rbind_eq_Inr upt_conv_Cons del: upt_Suc)
qed

lemma check_assignment_total:
  assumes small: "length (p2_tasks plan) < 2 ^ 32"
  shows "\<forall>w \<in> set ws. assignment_validate X w = Inr () \<Longrightarrow> assigned_tasks ws = outputs_from (unat n) ts \<Longrightarrow>
    p2_tasks plan = xs @ ts \<Longrightarrow> unat n = length xs \<Longrightarrow> v2_tasks_cover (unat o1) ts m \<Longrightarrow>
    unat k + tokens_before ts (length ts) < 2 ^ 64 \<Longrightarrow>
    distinct (map wa_worker_id ws) \<Longrightarrow> ids \<inter> wa_worker_id ` set ws = {} \<Longrightarrow>
    \<exists>st. try_fold (check_assignment X plan) (n, o1, k, ids) ws = Inr st"
proof (induction ws arbitrary: n o1 k ids xs ts)
  case (Cons w ws)
  let ?W = "take (length (wa_tasks w)) ts" and ?ys = "drop (length (wa_tasks w)) ts"
  have v: "assignment_validate X w = Inr ()" using Cons.prems(1) by simp
  then have "assignment_checks w = Inr ()" by (simp add: assignment_validate_def rbind_eq_Inr)
  note inner = assignment_checks_ok [OF this]
  have split: "wa_tasks w @ assigned_tasks ws = outputs_from (unat n) ts"
    using Cons.prems(2) by (simp add: assigned_tasks_def)
  have W: "wa_tasks w = outputs_from (unat n) ?W"
    using arg_cong [OF split, of "take (length (wa_tasks w))"] by (simp add: outputs_from_take)
  have rest: "assigned_tasks ws = outputs_from (unat n + length (wa_tasks w)) ?ys"
    using arg_cong [OF split, of "drop (length (wa_tasks w))"] by (simp add: outputs_from_drop)
  have len: "length ts = length (wa_tasks w) + length (assigned_tasks ws)"
    using arg_cong [OF split, of length] by simp
  have fits: "unat n + length ts \<le> 2 ^ 32" using small Cons.prems(3,4) by simp
  have ords: "[unat (wa_task_start w)..<unat (wa_task_end w)] = [unat n..<unat n + length (wa_tasks w)]"
  proof -
    have "length ?W = length (wa_tasks w)" using len by simp
    then have "map (\<lambda>e. unat (to_task_ordinal e)) (outputs_from (unat n) ?W) =
        [unat n..<unat n + length (wa_tasks w)]"
      using outputs_from_ordinals [of "unat n" ?W] fits len by simp
    then show ?thesis using inner W by simp
  qed
  have lt: "unat (wa_task_start w) < unat (wa_task_end w)" using inner by (simp add: word_less_nat_alt)
  then have ne: "wa_tasks w \<noteq> []" using ords by auto
  have start: "wa_task_start w = n" and stop: "unat (wa_task_end w) = unat n + length (wa_tasks w)"
    using arg_cong [OF ords, of hd] arg_cong [OF ords, of length] lt ne
    by (auto simp: word_unat_eq_iff)
  have "expected_cover (unat o1) (wa_tasks w @ assigned_tasks ws) m"
    unfolding split using Cons.prems(5) by (simp add: outputs_from_cover)
  from covers_from_split [OF this] obtain b where b: "expected_cover (unat o1) (wa_tasks w) b"
    "expected_cover b (assigned_tasks ws) m" by blast
  have cover: "expected_cover (unat (wa_ordinal_start w)) (wa_tasks w) (unat (wa_ordinal_end w))"
    using inner by blast
  have o: "wa_ordinal_start w = o1" "b = unat (wa_ordinal_end w)"
    using covers_from_ends [OF b(1) ne] covers_from_ends [OF cover ne] by (simp_all add: word_unat_eq_iff)
  have bound: "check_assigned_binding (p2_tasks plan) e = Inr ()" if "e \<in> set (wa_tasks w)" for e
  proof -
    have "e \<in> set (outputs_from (unat n) ts)" using that split by (metis UnI1 set_append)
    from outputs_from_keys [OF fits this] show ?thesis
      using Cons.prems(3,4) by (auto simp: check_assigned_binding_ok nth_append)
  qed
  have sums: "tokens_before ts (length ts) = token_sum (wa_tasks w) + tokens_before ?ys (length ?ys)"
    using outputs_from_tokens [of "unat n" ts] rest outputs_from_tokens [of _ ?ys]
    by (simp add: split [symmetric] token_sum_def)
  then obtain k' :: u64 where k': "unat k' = unat k + token_sum (wa_tasks w)"
    using Cons.prems(6) word_of_bounded [where 'a = 64, of "unat k + token_sum (wa_tasks w)"] by auto
  have step: "check_assignment X plan (n, o1, k, ids) w =
      Inr (wa_task_end w, wa_ordinal_end w, k', insert (wa_worker_id w) ids)"
    using v start o bound k' inner Cons.prems(8)
    by (simp add: rbind_eq_Inr try_all_ok ok_or_eq_Inr checked_add_unat)
  have "\<exists>st. try_fold (check_assignment X plan)
      (wa_task_end w, wa_ordinal_end w, k', insert (wa_worker_id w) ids) ws = Inr st"
  proof (rule Cons.IH [where xs = "xs @ ?W" and ts = ?ys])
    show "\<forall>w \<in> set ws. assignment_validate X w = Inr ()" using Cons.prems(1) by simp
    show "assigned_tasks ws = outputs_from (unat (wa_task_end w)) ?ys" using rest stop by simp
    show "p2_tasks plan = (xs @ ?W) @ ?ys" using Cons.prems(3) by simp
    show "unat (wa_task_end w) = length (xs @ ?W)" using stop len Cons.prems(4) by simp
    show "v2_tasks_cover (unat (wa_ordinal_end w)) ?ys m" using b(2) o(2) rest by (simp add: outputs_from_cover)
    show "unat k' + tokens_before ?ys (length ?ys) < 2 ^ 64" using Cons.prems(6) k' sums by (simp only: add.assoc)
    show "distinct (map wa_worker_id ws)" "insert (wa_worker_id w) ids \<inter> wa_worker_id ` set ws = {}"
      using Cons.prems(7,8) by auto
  qed
  with step show ?case by (simp del: check_assignment.simps)
qed simp

lemma boundaries_ascend:
  assumes "token_balanced_boundaries plan workers = Inr bs" and "0 < workers"
    and "unat workers \<le> length (p2_tasks plan)"
  shows "length bs = unat workers + 1 \<and> hd bs = 0 \<and> last bs = length (p2_tasks plan) \<and> sorted_wrt (<) bs"
proof -
  from boundaries_ok [OF assms] obtain cs where bs: "bs = cs @ [length (p2_tasks plan)]"
    and len: "length cs = unat workers" and cuts: "cuts_ok (p2_tasks plan) (unat workers) cs" by blast
  then show ?thesis
    using cuts_sorted [OF cuts len assms(3)] by (auto simp: cuts_ok_def hd_append hd_conv_nth)
qed

text \<open>
  C10: The allocation of work is total and accepted. For a validated plan whose files are not
  those of its reports and every worker count that the plan can occupy, the builder cuts the plan
  into assignments and seals them, one per worker, and what it makes passes the validation of the
  assignments; the serialiser is only assumed to return.
\<close>

theorem built_assignments_accepted:
  assumes valid: "plan_v2_validate X plan = Inr ()" and hash: "sha256_format X" and total: "jcs_total X"
    and apart: "reports_apart (p2_tasks plan)" and small: "length (p2_tasks plan) < 2 ^ 32"
    and workers: "0 < workers" "workers \<le> MAX_WORKERS" "unat workers \<le> length (p2_tasks plan)"
  shows "\<exists>ws. build_assignments X plan workers = Inr ws \<and> length ws = unat workers \<and>
    validate_assignments X ws plan = Inr ()"
proof -
  let ?ts = "p2_tasks plan"
  note alloc = validated_plan_allocatable [OF valid hash]
  then have cover: "v2_tasks_cover 0 ?ts (unat (p2_document_count plan))"
    and tokens: "unat (ts_total_tokens (p2_token_statistics plan)) = tokens_before ?ts (length ?ts)"
    by (simp_all add: allocatable_def Let_def)
  obtain boundaries where bounds: "token_balanced_boundaries plan workers = Inr boundaries"
    using boundaries_exist [OF alloc] by blast
  note cuts = boundaries_ascend [OF bounds workers(1,3)]
  then obtain bs where bs: "boundaries = 0 # bs" "length bs = unat workers" by (cases boundaries) auto
  have "unat workers \<le> 65535" using workers(2) by (simp add: MAX_WORKERS_def word_le_nat_alt)
  then obtain ws where ws: "try_map (build_assignment X plan) (enumerate 0 (zip (0 # bs) bs)) = Inr ws"
    "map wa_worker_id ws = map worker_name [0..<length bs]"
    "\<forall>w \<in> set ws. assignment_validate X w = Inr ()" "assigned_tasks ws = outputs_from 0 ?ts"
    using built_windows [OF alloc apart small total, of "[]" ?ts bs 0] cuts bs by auto
  have dist: "distinct (map wa_worker_id ws)"
    unfolding ws(2) by (simp add: distinct_map inj_on_def worker_name_inj)
  have "\<exists>st. try_fold (check_assignment X plan) (0, 0, 0, {}) ws = Inr st"
    using check_assignment_total [OF small, of ws X 0 ?ts "[]" 0 "unat (p2_document_count plan)" 0 "{}"]
      ws(3,4) cover dist unat_bound [of "ts_total_tokens (p2_token_statistics plan)"] by (simp add: tokens)
  then obtain n o' k ids where f: "try_fold (check_assignment X plan) (0, 0, 0, {}) ws = Inr (n, o', k, ids)"
    by (metis prod_cases4)
  note got = check_assignment_fold [OF f, unfolded ws(4)]
  have "unat n = length ?ts"
    using arg_cong [OF conjunct1 [OF got], of length] by simp
  moreover have "?ts \<noteq> []" using workers(1,3) by (auto simp: word_less_nat_alt)
  then have "outputs_from 0 ?ts \<noteq> []" by (cases ?ts) auto
  then have "unat o' = unat (p2_document_count plan)"
    using got covers_from_ends [of _ _ 0 "outputs_from 0 ?ts"] cover by (metis outputs_from_cover unat_0)
  moreover have "unat k = unat (ts_total_tokens (p2_token_statistics plan))"
    using got by (simp add: outputs_from_tokens tokens)
  ultimately have "validate_assignments X ws plan = Inr ()"
    by (simp add: validate_assignments_def rbind_eq_Inr f word_unat_eq_iff)
  moreover have "length ws = unat workers"
    using arg_cong [OF ws(2), of length] bs(2) by simp
  ultimately show ?thesis
    using ws(1) bs(1) by (simp add: build_assignments_def bounds)
qed

text \<open>The plan with two tasks, cut for two workers.\<close>

theorem built_assignments_accepted_witness:
  "\<exists>ws. build_assignments X1 plan1 2 = Inr ws \<and> length ws = 2 \<and> validate_assignments X1 ws plan1 = Inr ()"
proof -
  have "plan_v2_validate X1 plan1 = Inr ()" using plan1_bound by (simp add: plan_v2_binding_iff)
  moreover have "sha256_format X1" by (auto simp: sha256_format_def X1_def hex_of_def is_lower_hex_def list_all_iff)
  moreover have "jcs_total X1" by (auto simp: jcs_total_def X1_def split: json.split option.split)
  moreover have "reports_apart (p2_tasks plan1)"
    by (simp add: reports_apart_def plan1_def task1_def report_path_def paths1_def)
  ultimately have "\<exists>ws. build_assignments X1 plan1 2 = Inr ws \<and> length ws = unat (2 :: u32) \<and>
      validate_assignments X1 ws plan1 = Inr ()"
    by (rule built_assignments_accepted) (simp_all add: plan1_def MAX_WORKERS_def)
  then show ?thesis by simp
qed

end
