(* ===== verification/Spec2Isabelle.thy ===== *)
theory Spec2Isabelle
  imports Contracts Columns Token_Example Task_Result Benchmark_Selection Artifacts Embedding_Cache
    Lexical_Agreement Index_Roundtrip Projection_Example Catalogue Cloud_Example Cloud_Build
begin

text \<open>
  A verification library for Livefire RAG, the pipeline that turns normalised security events into
  a searchable index with its evidence.

  \<^bold>\<open>The program.\<close> Events of typed relations are projected into semantic documents and occurrences
  (\<open>crates/rag-projection\<close>). Documents and occurrences form a prepared corpus, which an embedding
  plan cuts into tasks; each task leaves a vector shard and a receipt, and a result set closes the
  plan (\<open>crates/rag-pipeline\<close>, \<open>crates/rag-contracts\<close>). The tasks call an embedding service in
  batches, with retries, a cache and staged files (\<open>crates/rag-embedding\<close>). The index is assembled
  from the prepared rows and the shards, opened with all its checks, and searched
  (\<open>crates/rag-index\<close>). Each stage binds the next by digests; the theorems say what a stage that
  accepts may rely on, and what a stage that succeeds has left behind.

  \<^bold>\<open>Conventions.\<close> Rust's fixed-width integers are words, a \<open>String\<close> is the list of its UTF-8 bytes,
  a struct is a record, an enum a datatype, \<open>Result\<close> a sum with \<open>Inl\<close> for the error, a
  \<open>BTreeMap\<close> the ordered list of its entries (\<open>Prelude\<close>, \<open>Rust_Str\<close>, \<open>Ordered_Map\<close>,
  \<open>Le_Bytes\<close>, \<open>Coverage\<close>, \<open>Matching\<close>). Floating point follows IEEE 754 with its rounding: \<open>Floats\<close> for the
  vector checks, \<open>F64\<close> for scores and times. \<open>Files\<close> models the calls of \<open>std::fs\<close> with a schedule
  of faults, so that a theorem over all worlds covers a failure of every call.

  \<^bold>\<open>Theories and code.\<close>
  \<^item> \<open>Component\<close>, \<open>Contracts\<close>: digests, safe paths, sealing by canonical JSON (\<open>rag-pipeline/src/lib.rs\<close>,
    \<open>rag-contracts/src/lib.rs\<close>).
  \<^item> \<open>Prepared\<close>, \<open>Columns\<close>, \<open>Plan\<close>, \<open>Receipts\<close>: the prepared corpus and its tables, plans, receipts and
    result sets (\<open>rag-pipeline/src/lib.rs\<close>); an accepted plan partitions the rows, an accepted result
    set covers its plan.
  \<^item> \<open>Token_Counts\<close>, \<open>Token_Plan\<close>, \<open>Token_Build\<close>, \<open>Token_Example\<close>: token-balanced plans
    (\<open>rag-pipeline/src/token_plan.rs\<close>); the greedy cut is optimal, what is built is accepted.
  \<^item> \<open>Benchmark\<close>, \<open>Benchmark_Selection\<close>: stratified nested samples (\<open>benchmark_selection.rs\<close>).
  \<^item> \<open>Catalogue\<close>: the catalogue of dataset pipelines (\<open>dataset_catalogue.rs\<close>); what validates is closed under
    its references, and a binding that is accepted names artifacts that fit together.
  \<^item> \<open>Cloud_Bundle\<close>, \<open>Cloud_Coverage\<close>, \<open>Cloud_Run\<close>, \<open>Cloud_Build\<close>, \<open>Cloud_Example\<close>: task bundles, worker assignments, attempt
    markers and run reports (\<open>cloud.rs\<close>). The boundaries of the workers are computed with 128-bit words as in
    the code and shown to be the nearest ones; an accepted bundle assigns every task to one worker, an accepted
    report accounts for every output, and what the builder allocates for a validated plan is accepted.
  \<^item> \<open>Artifacts\<close>: resolution of artifact paths, atomic writes and staged directories.
  \<^item> \<open>Profile\<close>, \<open>Vectors\<close>, \<open>Embedding_Cache\<close>: embedding profiles, query composition, endpoints, vector
    checks and the SQLite cache (\<open>rag-embedding/src/lib.rs\<close>).
  \<^item> \<open>Shard_Format\<close>, \<open>Shard\<close>, \<open>Publication\<close>, \<open>Shard_Parts\<close>: the shard file, its writer, publication by
    link and rename, verification and quarantine of parts (\<open>rag-embedding/src/shard.rs\<close>); publication is
    also a step relation of several processes.
  \<^item> \<open>Batch\<close>, \<open>Task_Run\<close>, \<open>Scheduler\<close>, \<open>Task_Result\<close>: the task loop with retries and completion in any
    order (\<open>rag-embedding/src/task.rs\<close>), a step relation with an invariant, and its result.
  \<^item> \<open>Projection_Text\<close>, \<open>Projection_Paths\<close>, \<open>Projection\<close>, \<open>Projection_Exact\<close>, \<open>Projection_Core\<close>: all of
    \<open>rag-projection/src/lib.rs\<close>. \<open>Projection_Blind\<close> shows that what is projected does not depend on
    secrets, and the document not on identifiers and times; \<open>Projection_Exact\<close> that exact attributes are
    true, accounted for and, unless hydration is asked, complete; \<open>Projection_Facts\<close> bounds and totality;
    \<open>Projection_Example\<close> their instances.
  \<^item> \<open>Index_Text\<close>, \<open>Index_Lexical\<close>, \<open>Bm25\<close>, \<open>Lexical_Ranking\<close>, \<open>Lexical_Agreement\<close>: the tokenizer and the two
    lexical formats of \<open>rag-index/src/lib.rs\<close>, which rank alike.
  \<^item> \<open>Index_Occurrences\<close>, \<open>Index_Vectors\<close>, \<open>Index_Manifest\<close>, \<open>Index_Search\<close>, \<open>Search_Facts\<close>,
    \<open>Search_Example\<close>: the evidence table, the vector file, and every search mode.
  \<^item> \<open>Index_Build\<close>, \<open>Index_Open\<close>, \<open>Index_Roundtrip\<close>: assembly from streams and opening; what the assembly
    writes passes every check of opening and holds what it was given.

  \<^bold>\<open>Interfaces.\<close> Where one part relies on another, the contract is a locale with an interpretation on
  the model's own functions, for example the ordered maps, the fixed-width codecs and the contiguous
  task lists.

  \<^bold>\<open>Parameters.\<close> Code outside the repository is an argument: SHA-256, the canonical JSON of RFC 8785,
  the JSON parser and printer (\<open>externals\<close>); the tokenizer and the embedding service; the natural
  logarithm (\<open>ln_spec\<close> is what is used of it) and the serialised bytes of Parquet, SQLite and JSON files
  (\<open>index_externals\<close>); the matches of the regular expressions, the tables of Unicode lower case, decimal
  float parsing, the calendar and base64 (\<open>projection_externals\<close>). Parquet and SQLite tables are the
  typed rows that the code writes and reads.

  \<^bold>\<open>Bounds.\<close> Loops are structural or have a measure, so nothing runs on fuel except where the code
  itself counts: at most 40 links are followed when a path is resolved, 128 names are tried for a staged
  file, and a batch makes at most its configured number of attempts. The BM25 theorems assume a corpus of
  at most \<open>2^40\<close> documents and tokens, which keeps every intermediate value finite and positive. The
  round trip of the index assumes row counts and a vector file that \<open>i64\<close> and \<open>u64\<close> can count.

  \<^bold>\<open>Not modelled.\<close> The staging directory and the rename of the index, Parquet encodings, SQLite pragmas
  and the application identifier of its header are library calls. The command-line programs
  (\<open>rag-builder\<close>, \<open>rag-testkit\<close>), the cloud workers and their control planes (\<open>rag-runpod-worker\<close>,
  \<open>runpod_*.rs\<close>), the HTTP clients (\<open>tei.rs\<close>, \<open>openai_compatible.rs\<close>) and the request server
  (\<open>rag-provider\<close>) drive the modelled parts through the network and the operating system; the mapping of
  raw events to OCSF (\<open>rag-ocsf\<close>) the sets of query vectors
  (\<open>query_vector_set.rs\<close>) and the checkpoint profiles (\<open>tei_profile.rs\<close>) are left out.
\<close>

end
